(* ===== verification/Rust_Prelude.thy ===== *)
theory Rust_Prelude
  imports Main "HOL-Library.Word" "HOL-Library.Multiset" "HOL-Library.Char_ord"
    "HOL-Library.List_Lexorder" "HOL-Library.Product_Lexorder" "HOL-Library.Sublist" "HOL-Library.Code_Target_Numeral"
begin

text \<open>
  The part of Rust and of its standard library that the components of dynet use:
  \<^item> machine integers as words, with saturating and checked arithmetic, and 64-bit signed
    arithmetic as \<open>int\<close> with the wrap-around written out (\<open>wrap_i64\<close>);
  \<^item> \<open>Result\<close> as a sum type, big-endian byte conversions, slices that may be out of range;
  \<^item> \<open>Ordering\<close>, stable \<open>sort_by\<close>, \<open>max_by\<close> (the last maximum) and \<open>min_by\<close> (the
    first minimum), with the locale \<open>total_ranking\<close> for the contract a comparator has to meet;
  \<^item> capacity-bounded \<open>VecDeque\<close>s (locale \<open>bounded_log\<close>) and atomic counters
    (locale \<open>id_source\<close>), the two interfaces the stores of the runtime share.
  Strings are UTF-8 byte strings (\<open>string\<close> is a list of 8-bit \<open>char\<close>s), so \<open>length\<close> is
  Rust's \<open>len\<close> and the lexicographic order on them is Rust's \<open>Ord\<close>.
\<close>

named_theorems rust_simps \<open>evaluation rules of the Rust primitives\<close>
named_theorems res_elims \<open>case analysis of error-returning code\<close>

section \<open>Integers\<close>

type_synonym u8 = "8 word"
type_synonym u16 = "16 word"
type_synonym u32 = "32 word"
type_synonym u64 = "64 word"
type_synonym u128 = "128 word"
type_synonym bytes = "8 word list"

text \<open>\<open>usize\<close> values are naturals below \<open>2 ^ 64\<close>; only the checked addition can see the limit.\<close>

definition usize_checked_add :: "nat \<Rightarrow> nat \<Rightarrow> nat option" where
  "usize_checked_add a b = (if a + b < 2 ^ 64 then Some (a + b) else None)"

definition saturating_sub :: "'a::len word \<Rightarrow> 'a word \<Rightarrow> 'a word" where
  "saturating_sub a b = (if a < b then 0 else a - b)"

definition saturating_mul :: "'a::len word \<Rightarrow> 'a word \<Rightarrow> 'a word" where
  "saturating_mul a b = (if unat a * unat b < 2 ^ LENGTH('a) then a * b else - 1)"

text \<open>A conversion that falls back to the maximum, as \<open>u32::try_from(x).unwrap_or(u32::MAX)\<close>.\<close>

definition u32_or_max :: "nat \<Rightarrow> u32" where
  "u32_or_max n = (if n < 2 ^ 32 then of_nat n else - 1)"

definition i64_max :: int where "i64_max = 2 ^ 63 - 1"
definition i64_min :: int where "i64_min = - (2 ^ 63)"

definition in_i64 :: "int \<Rightarrow> bool" where
  "in_i64 x \<longleftrightarrow> i64_min \<le> x \<and> x \<le> i64_max"

text \<open>Two's complement wrap-around of an \<open>i64\<close> operation whose exact result is \<open>x\<close>.\<close>

definition wrap_i64 :: "int \<Rightarrow> int" where
  "wrap_i64 x = (x + 2 ^ 63) mod 2 ^ 64 - 2 ^ 63"

definition i64_add :: "int \<Rightarrow> int \<Rightarrow> int" where "i64_add a b = wrap_i64 (a + b)"
definition i64_sub :: "int \<Rightarrow> int \<Rightarrow> int" where "i64_sub a b = wrap_i64 (a - b)"
definition i64_mul :: "int \<Rightarrow> int \<Rightarrow> int" where "i64_mul a b = wrap_i64 (a * b)"

text \<open>\<open>i64::try_from(n).unwrap_or(i64::MAX)\<close> for an unsigned \<open>n\<close>.\<close>

definition i64_or_max :: "nat \<Rightarrow> int" where
  "i64_or_max n = (if int n \<le> i64_max then int n else i64_max)"

lemmas i64_defs = i64_max_def i64_min_def in_i64_def

lemma wrap_i64_id [simp]: "in_i64 x \<Longrightarrow> wrap_i64 x = x"
  by (simp add: wrap_i64_def i64_defs)

lemma in_i64_wrap [simp]: "in_i64 (wrap_i64 x)"
proof -
  have "0 \<le> (x + 2 ^ 63) mod 2 ^ 64" "(x + 2 ^ 63) mod 2 ^ 64 < (2 ^ 64 :: int)"
    by (simp_all add: pos_mod_bound)
  then show ?thesis by (simp add: wrap_i64_def i64_defs)
qed

lemma i64_add_exact: "in_i64 (a + b) \<Longrightarrow> i64_add a b = a + b"
  by (simp add: i64_add_def)

lemma i64_sub_exact: "in_i64 (a - b) \<Longrightarrow> i64_sub a b = a - b"
  by (simp add: i64_sub_def)

lemma i64_mul_exact: "in_i64 (a * b) \<Longrightarrow> i64_mul a b = a * b"
  by (simp add: i64_mul_def)

lemma unat_saturating_sub [simp]: "unat (saturating_sub a b) = unat a - unat b"
  by (auto simp: saturating_sub_def unat_sub word_less_nat_alt not_less word_le_nat_alt)

lemma unat_saturating_mul:
  "unat (saturating_mul a (b :: 'a::len word)) = min (unat a * unat b) (2 ^ LENGTH('a) - 1)"
proof (cases "unat a * unat b < 2 ^ LENGTH('a)")
  case True
  then show ?thesis
    by (simp add: saturating_mul_def unat_mult_lem [THEN iffD1])
next
  case False
  have "unat (- 1 :: 'a word) = 2 ^ LENGTH('a) - 1"
    by (simp add: unsigned_minus_1_eq_mask mask_eq_exp_minus_1)
  with False show ?thesis by (simp add: saturating_mul_def)
qed

lemma unat_u32_or_max: "unat (u32_or_max n) = min n (2 ^ 32 - 1)"
  by (simp add: u32_or_max_def unat_of_nat take_bit_eq_mod unsigned_minus_1_eq_mask
      mask_eq_exp_minus_1)

section \<open>Results, bytes and slices\<close>

text \<open>\<open>Result<'a, 'e>\<close> is \<open>'e + 'a\<close>.\<close>

abbreviation Ok :: "'a \<Rightarrow> 'e + 'a" where "Ok \<equiv> Inr"
abbreviation Err :: "'e \<Rightarrow> 'e + 'a" where "Err \<equiv> Inl"

text \<open>The \<open>?\<close> operator: stop at the first error.\<close>

definition and_then :: "'e + 'a \<Rightarrow> ('a \<Rightarrow> 'e + 'b) \<Rightarrow> 'e + 'b" where
  "and_then r f = (case r of Inl e \<Rightarrow> Inl e | Inr x \<Rightarrow> f x)"

lemma and_then_simps [simp, rust_simps]:
  "and_then (Inl e) f = Inl e"
  "and_then (Inr x) f = f x"
  by (simp_all add: and_then_def)

lemma and_then_Ok_iff [simp]: "and_then r f = Inr y \<longleftrightarrow> (\<exists>x. r = Inr x \<and> f x = Inr y)"
  by (auto simp: and_then_def split: sum.splits)

definition map_err :: "('e \<Rightarrow> 'f) \<Rightarrow> 'e + 'a \<Rightarrow> 'f + 'a" where
  "map_err f r = (case r of Inl e \<Rightarrow> Inl (f e) | Inr x \<Rightarrow> Inr x)"

lemma map_err_iff [simp]:
  "map_err f r = Inr y \<longleftrightarrow> r = Inr y"
  "map_err f r = Inl e' \<longleftrightarrow> (\<exists>e. r = Inl e \<and> e' = f e)"
  by (auto simp: map_err_def split: sum.splits)

lemma and_then_cong [fundef_cong]:
  "r = r' \<Longrightarrow> (\<And>x. r' = Inr x \<Longrightarrow> f x = g x) \<Longrightarrow> and_then r f = and_then r' g"
  by (auto simp: and_then_def split: sum.splits)

text \<open>\<open>Option::ok_or\<close>.\<close>

definition ok_or :: "'e \<Rightarrow> 'a option \<Rightarrow> 'e + 'a" where
  "ok_or e v = (case v of None \<Rightarrow> Inl e | Some x \<Rightarrow> Inr x)"

lemma ok_or_simps [simp, rust_simps]: "ok_or e None = Inl e" "ok_or e (Some x) = Inr x"
  by (simp_all add: ok_or_def)

lemma ok_or_Ok_iff [simp]: "ok_or e v = Inr x \<longleftrightarrow> v = Some x"
  by (cases v) auto

text \<open>\<open>slice.get(a..b)\<close>: absent unless \<open>a \<le> b \<le> len\<close>.\<close>

definition get_range :: "'a list \<Rightarrow> nat \<Rightarrow> nat \<Rightarrow> 'a list option" where
  "get_range xs a b = (if a \<le> b \<and> b \<le> length xs then Some (take (b - a) (drop a xs)) else None)"

definition get_at :: "'a list \<Rightarrow> nat \<Rightarrow> 'a option" where
  "get_at xs i = (if i < length xs then Some (xs ! i) else None)"

lemma get_range_Some_iff:
  "get_range xs a b = Some ys \<longleftrightarrow> a \<le> b \<and> b \<le> length xs \<and> ys = take (b - a) (drop a xs)"
  by (auto simp: get_range_def)

lemma get_at_Some_iff: "get_at xs i = Some x \<longleftrightarrow> i < length xs \<and> x = xs ! i"
  by (auto simp: get_at_def)

lemma get_at_append [simp]:
  "i < length xs \<Longrightarrow> get_at (xs @ ys) i = get_at xs i"
  "length xs \<le> i \<Longrightarrow> get_at (xs @ ys) i = get_at ys (i - length xs)"
  by (auto simp: get_at_def nth_append)

text \<open>Big-endian conversions of \<open>u16\<close>.\<close>

definition u16_from_be :: "u8 \<Rightarrow> u8 \<Rightarrow> u16" where
  "u16_from_be hi lo = of_nat (unat hi * 256 + unat lo)"

definition u16_to_be :: "u16 \<Rightarrow> bytes" where
  "u16_to_be w = [of_nat (unat w div 256), of_nat (unat w mod 256)]"

lemma unat_u8_less [simp]: "unat (b :: u8) < 256"
  using unsigned_less [of b] by simp

lemma unat_u16_less [simp]: "unat (w :: u16) < 65536"
  using unsigned_less [of w] by simp

lemma unat_of_nat_u16: "n < 65536 \<Longrightarrow> unat (of_nat n :: u16) = n"
  by (simp add: unat_of_nat take_bit_eq_mod)

lemma unat_of_nat_u8: "n < 256 \<Longrightarrow> unat (of_nat n :: u8) = n"
  by (simp add: unat_of_nat take_bit_eq_mod)

lemma unat_u16_from_be: "unat (u16_from_be hi lo) = unat hi * 256 + unat lo"
proof -
  have "unat hi * 256 + unat lo < 65536"
    using unat_u8_less [of hi] unat_u8_less [of lo] by linarith
  then show ?thesis by (simp only: u16_from_be_def unat_of_nat_u16)
qed

lemma u16_be_roundtrip [simp]: "u16_to_be w = [a, b] \<Longrightarrow> u16_from_be a b = w"
proof -
  assume "u16_to_be w = [a, b]"
  then have ab: "a = of_nat (unat w div 256)" "b = of_nat (unat w mod 256)"
    by (auto simp: u16_to_be_def)
  have "unat w div 256 < 256"
    using unat_u16_less [of w] by (simp add: less_mult_imp_div_less)
  then have "unat a * 256 + unat b = unat w"
    unfolding ab by (simp add: unat_of_nat take_bit_eq_mod)
  then show ?thesis by (simp add: u16_from_be_def)
qed

lemma u16_from_be_to_be [simp]: "u16_to_be (u16_from_be a b) = [a, b]"
proof -
  have "(unat a * 256 + unat b) div 256 = unat a" "(unat a * 256 + unat b) mod 256 = unat b"
    using unat_u8_less [of b] by simp_all
  then show ?thesis by (simp add: u16_to_be_def unat_u16_from_be)
qed

lemma length_u16_to_be [simp]: "length (u16_to_be w) = 2"
  by (simp add: u16_to_be_def)

section \<open>Comparators, sorting and selection\<close>

datatype ordering = Less | Equal | Greater

definition cmp :: "'a::linorder \<Rightarrow> 'a \<Rightarrow> ordering" where
  "cmp x y = (if x < y then Less else if x = y then Equal else Greater)"

definition then_with :: "ordering \<Rightarrow> ordering \<Rightarrow> ordering" where
  "then_with a b = (case a of Equal \<Rightarrow> b | _ \<Rightarrow> a)"

lemma then_with_simps [simp, rust_simps]:
  "then_with Less b = Less" "then_with Equal b = b" "then_with Greater b = Greater"
  by (simp_all add: then_with_def)

lemma cmp_iffs [simp]:
  "cmp x y = Less \<longleftrightarrow> x < y" "cmp x y = Equal \<longleftrightarrow> x = y" "cmp x y = Greater \<longleftrightarrow> y < x"
  by (auto simp: cmp_def)

lemma then_with_iffs:
  "then_with a b = Less \<longleftrightarrow> a = Less \<or> a = Equal \<and> b = Less"
  "then_with a b = Equal \<longleftrightarrow> a = Equal \<and> b = Equal"
  "then_with a b = Greater \<longleftrightarrow> a = Greater \<or> a = Equal \<and> b = Greater"
  by (cases a; simp)+

text \<open>\<open>slice::sort_by\<close> is stable; insertion from the right keeps equal elements in order.\<close>

fun insert_by :: "('a \<Rightarrow> 'a \<Rightarrow> ordering) \<Rightarrow> 'a \<Rightarrow> 'a list \<Rightarrow> 'a list" where
  "insert_by r x [] = [x]"
| "insert_by r x (y # ys) = (if r x y = Greater then y # insert_by r x ys else x # y # ys)"

definition sort_by :: "('a \<Rightarrow> 'a \<Rightarrow> ordering) \<Rightarrow> 'a list \<Rightarrow> 'a list" where
  "sort_by r xs = foldr (insert_by r) xs []"

text \<open>\<open>Iterator::max_by\<close> keeps the later of equal elements, \<open>Iterator::min_by\<close> the earlier.\<close>

fun max_by_from :: "('a \<Rightarrow> 'a \<Rightarrow> ordering) \<Rightarrow> 'a \<Rightarrow> 'a list \<Rightarrow> 'a" where
  "max_by_from r x [] = x"
| "max_by_from r x (y # ys) = max_by_from r (if r x y = Greater then x else y) ys"

fun max_by :: "('a \<Rightarrow> 'a \<Rightarrow> ordering) \<Rightarrow> 'a list \<Rightarrow> 'a option" where
  "max_by r [] = None"
| "max_by r (x # xs) = Some (max_by_from r x xs)"

fun min_by_from :: "('a \<Rightarrow> 'a \<Rightarrow> ordering) \<Rightarrow> 'a \<Rightarrow> 'a list \<Rightarrow> 'a" where
  "min_by_from r x [] = x"
| "min_by_from r x (y # ys) = min_by_from r (if r x y = Greater then y else x) ys"

fun min_by :: "('a \<Rightarrow> 'a \<Rightarrow> ordering) \<Rightarrow> 'a list \<Rightarrow> 'a option" where
  "min_by r [] = None"
| "min_by r (x # xs) = Some (min_by_from r x xs)"

lemma mset_insert_by [simp]: "mset (insert_by r x xs) = add_mset x (mset xs)"
  by (induction xs) auto

lemma mset_sort_by [simp]: "mset (sort_by r xs) = mset xs"
  by (induction xs) (auto simp: sort_by_def)

lemma set_sort_by [simp]: "set (sort_by r xs) = set xs"
  by (metis mset_sort_by set_mset_mset)

lemma length_sort_by [simp]: "length (sort_by r xs) = length xs"
  by (metis mset_sort_by size_mset)

lemma sort_by_Nil_iff [simp]: "sort_by r xs = [] \<longleftrightarrow> xs = []"
  by (metis length_0_conv length_sort_by)

lemma max_by_from_mem: "max_by_from r x xs \<in> insert x (set xs)"
  by (induction xs arbitrary: x) (auto split: if_splits)

lemma max_by_mem: "max_by r xs = Some m \<Longrightarrow> m \<in> set xs"
  by (cases xs) (use max_by_from_mem in fastforce)+

lemma max_by_None_iff [simp]: "max_by r xs = None \<longleftrightarrow> xs = []"
  by (cases xs) auto

lemma min_by_from_mem: "min_by_from r x xs \<in> insert x (set xs)"
  by (induction xs arbitrary: x) (auto split: if_splits)

lemma min_by_mem: "min_by r xs = Some m \<Longrightarrow> m \<in> set xs"
  by (cases xs) (use min_by_from_mem in fastforce)+

lemma min_by_None_iff [simp]: "min_by r xs = None \<longleftrightarrow> xs = []"
  by (cases xs) auto

text \<open>What Rust documents for a comparator: a total preorder.\<close>

locale total_ranking =
  fixes rank :: "'a \<Rightarrow> 'a \<Rightarrow> ordering"
  assumes rank_swap: "rank x y = Greater \<longleftrightarrow> rank y x = Less"
    and rank_trans: "rank x y \<noteq> Greater \<Longrightarrow> rank y z \<noteq> Greater \<Longrightarrow> rank x z \<noteq> Greater"
begin

lemma rank_refl: "rank x x = Equal"
  using rank_swap [of x x] by (cases "rank x x") auto

lemma rank_total: "rank x y \<noteq> Greater \<or> rank y x \<noteq> Greater"
  using rank_swap [of x y] by (cases "rank y x") auto

lemma sorted_insert_by:
  "sorted_wrt (\<lambda>a b. rank a b \<noteq> Greater) xs \<Longrightarrow>
   sorted_wrt (\<lambda>a b. rank a b \<noteq> Greater) (insert_by rank x xs)"
proof (induction xs)
  case Nil
  then show ?case by simp
next
  case (Cons y ys)
  have set_ins: "set (insert_by rank x ys) = insert x (set ys)"
    by (metis mset_insert_by set_mset_add_mset_insert set_mset_mset)
  show ?case
  proof (cases "rank x y = Greater")
    case True
    then have "rank y x \<noteq> Greater" using rank_total [of x y] by blast
    with Cons True show ?thesis by (simp add: set_ins)
  next
    case False
    with Cons show ?thesis using rank_trans by auto
  qed
qed

lemma sorted_sort_by: "sorted_wrt (\<lambda>a b. rank a b \<noteq> Greater) (sort_by rank xs)"
  by (induction xs) (auto simp: sort_by_def intro: sorted_insert_by)

text \<open>The first match in the sorted list is a least match of the unsorted one.\<close>

lemma find_sorted_least:
  assumes "find P (sort_by rank xs) = Some x" "y \<in> set xs" "P y"
  shows "rank x y \<noteq> Greater"
proof -
  obtain i where i: "i < length (sort_by rank xs)" "x = sort_by rank xs ! i"
    "\<forall>j<i. \<not> P (sort_by rank xs ! j)"
    using assms(1) by (auto simp: find_Some_iff)
  obtain j where j: "j < length (sort_by rank xs)" "y = sort_by rank xs ! j"
    using assms(2) by (metis in_set_conv_nth set_sort_by)
  then have "i \<le> j" using i assms(3) by (metis not_less)
  then show ?thesis
    using i j sorted_sort_by [of xs] rank_refl
    by (cases "i = j") (auto simp: sorted_wrt_iff_nth_less)
qed

lemma hd_sort_least: "y \<in> set xs \<Longrightarrow> rank (hd (sort_by rank xs)) y \<noteq> Greater"
proof -
  assume "y \<in> set xs"
  then have "y \<in> set (sort_by rank xs)" by simp
  then show ?thesis
    using sorted_sort_by [of xs] rank_refl [of y] by (cases "sort_by rank xs") auto
qed

lemma max_by_from_upper: "y \<in> insert x (set xs) \<Longrightarrow> rank y (max_by_from rank x xs) \<noteq> Greater"
proof (induction xs arbitrary: x y)
  case Nil
  then show ?case by (simp add: rank_refl)
next
  case (Cons z zs)
  let ?w = "if rank x z = Greater then x else z"
  have "rank x ?w \<noteq> Greater" "rank z ?w \<noteq> Greater"
    using rank_refl rank_total [of x z] by auto
  moreover have "rank ?w (max_by_from rank ?w zs) \<noteq> Greater"
    by (rule Cons.IH) simp
  ultimately show ?case
    using Cons.IH [of y ?w] Cons.prems rank_trans by (metis insert_iff list.simps(15) max_by_from.simps(2))
qed

lemma max_by_upper: "max_by rank xs = Some m \<Longrightarrow> y \<in> set xs \<Longrightarrow> rank y m \<noteq> Greater"
  by (cases xs) (use max_by_from_upper in fastforce)+

lemma min_by_from_lower: "y \<in> insert x (set xs) \<Longrightarrow> rank (min_by_from rank x xs) y \<noteq> Greater"
proof (induction xs arbitrary: x y)
  case Nil
  then show ?case by (simp add: rank_refl)
next
  case (Cons z zs)
  let ?w = "if rank x z = Greater then z else x"
  have "rank ?w x \<noteq> Greater" "rank ?w z \<noteq> Greater"
    using rank_refl rank_total [of x z] by auto
  moreover have "rank (min_by_from rank ?w zs) ?w \<noteq> Greater"
    by (rule Cons.IH) simp
  ultimately show ?case
    using Cons.IH [of y ?w] Cons.prems rank_trans by (metis insert_iff list.simps(15) min_by_from.simps(2))
qed

lemma min_by_lower: "min_by rank xs = Some m \<Longrightarrow> y \<in> set xs \<Longrightarrow> rank m y \<noteq> Greater"
  by (cases xs) (use min_by_from_lower in fastforce)+

end

text \<open>Comparators of the shape \<open>a.f.cmp(b.f).then_with(a.g.cmp(b.g))\<close>, and the one with the
  first comparison reversed, meet the contract.\<close>

lemma total_ranking_lex:
  fixes f :: "'a \<Rightarrow> 'k::linorder" and g :: "'a \<Rightarrow> 'l::linorder"
  shows "total_ranking (\<lambda>x y. then_with (cmp (f x) (f y)) (cmp (g x) (g y)))"
  by unfold_locales (auto simp: then_with_iffs)

lemma total_ranking_lex_desc:
  fixes f :: "'a \<Rightarrow> 'k::linorder" and g :: "'a \<Rightarrow> 'l::linorder"
  shows "total_ranking (\<lambda>x y. then_with (cmp (f y) (f x)) (cmp (g x) (g y)))"
  by unfold_locales (auto simp: then_with_iffs)

lemma total_ranking_lex_asc_desc:
  fixes f :: "'a \<Rightarrow> 'k::linorder" and g :: "'a \<Rightarrow> 'l::linorder"
  shows "total_ranking (\<lambda>x y. then_with (cmp (f x) (f y)) (cmp (g y) (g x)))"
  by unfold_locales (auto simp: then_with_iffs)

lemma find_filter: "find P (filter Q xs) = find (\<lambda>x. Q x \<and> P x) xs"
  by (induction xs) auto

lemma find_SomeD: "find P xs = Some x \<Longrightarrow> x \<in> set xs \<and> P x"
  by (induction xs) (auto split: if_splits)

text \<open>A loop \<open>for x in xs { f(x)?; }\<close>.\<close>

fun try_for_each :: "('a \<Rightarrow> 'e + unit) \<Rightarrow> 'a list \<Rightarrow> 'e + unit" where
  "try_for_each f [] = Ok ()"
| "try_for_each f (x # xs) = and_then (f x) (\<lambda>_. try_for_each f xs)"

lemma try_for_each_Ok_iff [rust_simps]:
  "try_for_each f xs = Inr u \<longleftrightarrow> (\<forall>x\<in>set xs. f x = Inr ())"
  by (induction xs) (auto simp: and_then_Ok_iff)

lemma unat_add_le: "unat (a + b :: 'a::len word) \<le> unat a + unat b"
  by (simp add: unat_word_ariths)

section \<open>Bounded queues\<close>

text \<open>\<open>if q.len() == LIMIT { q.pop_front(); } q.push_back(x);\<close>\<close>

definition push_bounded :: "nat \<Rightarrow> 'a \<Rightarrow> 'a list \<Rightarrow> 'a list" where
  "push_bounded limit x q = (if length q = limit then tl q else q) @ [x]"

locale bounded_log =
  fixes limit :: nat
    and push :: "'a \<Rightarrow> 's \<Rightarrow> 's"
    and entries :: "'s \<Rightarrow> 'e list"
    and entry :: "'a \<Rightarrow> 's \<Rightarrow> 'e"
  assumes limit_pos: "0 < limit"
    and entries_push: "entries (push x s) = push_bounded limit (entry x s) (entries s)"
begin

definition log_ok :: "'s \<Rightarrow> bool" where
  "log_ok s \<longleftrightarrow> length (entries s) \<le> limit"

lemma log_ok_push: "log_ok s \<Longrightarrow> log_ok (push x s)"
  using limit_pos by (auto simp: log_ok_def entries_push push_bounded_def)

lemma log_ok_run: "log_ok s \<Longrightarrow> log_ok (fold push xs s)"
  by (induction xs arbitrary: s) (auto intro: log_ok_push)

text \<open>The entries written by a run of pushes, in order.\<close>

fun written :: "'a list \<Rightarrow> 's \<Rightarrow> 'e list" where
  "written [] s = []"
| "written (x # xs) s = entry x s # written xs (push x s)"

lemma entries_push_suffix:
  assumes "log_ok s"
  shows "entries (push x s) =
    drop (Suc (length (entries s)) - limit) (entries s @ [entry x s])"
proof (cases "length (entries s) = limit")
  case True
  then show ?thesis
    using limit_pos by (cases "entries s") (auto simp: entries_push push_bounded_def)
next
  case False
  with assms have "Suc (length (entries s)) - limit = 0" by (simp add: log_ok_def)
  with False show ?thesis by (simp add: entries_push push_bounded_def)
qed

text \<open>A log that never overflowed a bound holds the newest \<open>limit\<close> entries, in order.\<close>

lemma entries_run:
  "log_ok s \<Longrightarrow> entries (fold push xs s) =
     drop (length (entries s) + length xs - limit) (entries s @ written xs s)"
proof (induction xs arbitrary: s)
  case Nil
  then show ?case by (simp add: log_ok_def)
next
  case (Cons x xs)
  let ?n = "length (entries s)"
  have len: "length (entries (push x s)) = Suc ?n - (Suc ?n - limit)"
    using entries_push_suffix [OF Cons.prems] by simp
  have "entries (fold push (x # xs) s) =
    drop (length (entries (push x s)) + length xs - limit) (entries (push x s) @ written xs (push x s))"
    using Cons.IH [OF log_ok_push [OF Cons.prems]] by simp
  also have "entries (push x s) @ written xs (push x s) =
    drop (Suc ?n - limit) (entries s @ written (x # xs) s)"
    using entries_push_suffix [OF Cons.prems, of x] limit_pos by simp
  finally have "entries (fold push (x # xs) s) =
    drop (length (entries (push x s)) + length xs - limit + (Suc ?n - limit))
      (entries s @ written (x # xs) s)"
    by (simp only: drop_drop)
  moreover have "length (entries (push x s)) + length xs - limit + (Suc ?n - limit) =
    ?n + length (x # xs) - limit"
    using len Cons.prems limit_pos by (simp add: log_ok_def)
  ultimately show ?case by (simp only:)
qed

end

section \<open>Atomic counters\<close>

text \<open>\<open>counter.fetch_add(1, SeqCst) + 1\<close> on an \<open>AtomicU64\<close>: both additions wrap.\<close>

locale id_source =
  fixes counter :: "'s \<Rightarrow> u64"
    and take_id :: "'s \<Rightarrow> u64 \<times> 's"
  assumes take_id_value: "fst (take_id s) = counter s + 1"
    and take_id_counter: "counter (snd (take_id s)) = counter s + 1"
begin

fun take_ids :: "nat \<Rightarrow> 's \<Rightarrow> u64 list" where
  "take_ids 0 s = []"
| "take_ids (Suc n) s = fst (take_id s) # take_ids n (snd (take_id s))"

lemma take_ids_nth: "i < n \<Longrightarrow> take_ids n s ! i = counter s + 1 + of_nat i"
proof (induction n arbitrary: s i)
  case 0
  then show ?case by simp
next
  case (Suc n)
  then show ?case
    by (cases i) (simp_all add: take_id_value take_id_counter)
qed

lemma length_take_ids: "length (take_ids n s) = n"
  by (induction n arbitrary: s) auto

text \<open>No identifier repeats before the counter has wrapped around.\<close>

lemma take_ids_distinct:
  assumes "n \<le> 2 ^ 64"
  shows "distinct (take_ids n s)"
proof -
  have "i = j" if "i < n" "j < n" "take_ids n s ! i = take_ids n s ! j" for i j
  proof -
    from that have "(of_nat i :: u64) = of_nat j" by (simp add: take_ids_nth)
    then have "unat (of_nat i :: u64) = unat (of_nat j :: u64)" by simp
    with that assms show ?thesis by (simp add: unat_of_nat take_bit_eq_mod)
  qed
  then show ?thesis by (auto simp: distinct_conv_nth length_take_ids)
qed

end

end
