(* ===== verification/Rust_Strings.thy ===== *)
theory Rust_Strings
  imports Rust_Prelude
begin

text \<open>
  The operations of Rust's \<open>str\<close> that dynet uses, on UTF-8 byte strings: ASCII case folding,
  \<open>trim\<close> (with the Unicode white space that \<open>str::trim\<close> removes, as UTF-8 sequences),
  \<open>split\<close>, \<open>split_once\<close>, \<open>join\<close>, UTF-8 validation, and decimal printing and parsing
  of unsigned integers. The lemmas give the laws of case folding, \<open>parse\<close> after
  \<open>to_string\<close>, and \<open>split\<close> after \<open>join\<close>.
\<close>

section \<open>Bytes and characters\<close>

definition as_bytes :: "string \<Rightarrow> bytes" where
  "as_bytes s = map of_char s"

definition of_bytes :: "bytes \<Rightarrow> string" where
  "of_bytes bs = map (\<lambda>b. char_of (unat b)) bs"

lemma length_as_bytes [simp]: "length (as_bytes s) = length s"
  by (simp add: as_bytes_def)

lemma length_of_bytes [simp]: "length (of_bytes bs) = length bs"
  by (simp add: of_bytes_def)

lemma as_bytes_append [simp]: "as_bytes (s @ t) = as_bytes s @ as_bytes t"
  by (simp add: as_bytes_def)

lemma unat_of_char_u8 [simp]: "unat (of_char c :: u8) = of_char c"
proof -
  have "(of_char c :: u8) = of_nat (of_char c)" by (simp add: of_nat_of_char)
  moreover have "(of_char c :: nat) < 256" by simp
  ultimately show ?thesis by (metis unat_of_nat_u8)
qed

lemma of_bytes_as_bytes [simp]: "of_bytes (as_bytes s) = s"
  by (simp add: as_bytes_def of_bytes_def comp_def)

section \<open>ASCII case\<close>

definition ascii_lower_char :: "char \<Rightarrow> char" where
  "ascii_lower_char c =
     (if 65 \<le> (of_char c :: nat) \<and> (of_char c :: nat) \<le> 90 then char_of ((of_char c :: nat) + 32) else c)"

definition to_ascii_lowercase :: "string \<Rightarrow> string" where
  "to_ascii_lowercase s = map ascii_lower_char s"

definition eq_ignore_ascii_case :: "string \<Rightarrow> string \<Rightarrow> bool" where
  "eq_ignore_ascii_case s t \<longleftrightarrow> to_ascii_lowercase s = to_ascii_lowercase t"

lemma ascii_lower_char_idem [simp]: "ascii_lower_char (ascii_lower_char c) = ascii_lower_char c"
proof -
  consider "65 \<le> (of_char c :: nat) \<and> (of_char c :: nat) \<le> 90"
    | "\<not> (65 \<le> (of_char c :: nat) \<and> (of_char c :: nat) \<le> 90)"
    by blast
  then show ?thesis
  proof cases
    case 1
    then have "(of_char c + 32 :: nat) < 256" by simp
    with 1 show ?thesis by (simp add: ascii_lower_char_def)
  next
    case 2
    then show ?thesis by (auto simp: ascii_lower_char_def)
  qed
qed

lemma to_ascii_lowercase_idem [simp]:
  "to_ascii_lowercase (to_ascii_lowercase s) = to_ascii_lowercase s"
  by (simp add: to_ascii_lowercase_def)

lemma to_ascii_lowercase_append [simp]:
  "to_ascii_lowercase (s @ t) = to_ascii_lowercase s @ to_ascii_lowercase t"
  by (simp add: to_ascii_lowercase_def)

lemma length_to_ascii_lowercase [simp]: "length (to_ascii_lowercase s) = length s"
  by (simp add: to_ascii_lowercase_def)

lemma to_ascii_lowercase_Nil_iff [simp]: "to_ascii_lowercase s = [] \<longleftrightarrow> s = []"
  by (simp add: to_ascii_lowercase_def)

lemma eq_ignore_ascii_case_lower [simp]:
  "eq_ignore_ascii_case (to_ascii_lowercase s) t = eq_ignore_ascii_case s t"
  "eq_ignore_ascii_case s (to_ascii_lowercase t) = eq_ignore_ascii_case s t"
  by (simp_all add: eq_ignore_ascii_case_def)

section \<open>Splitting, joining, trimming\<close>

fun split_on :: "char \<Rightarrow> string \<Rightarrow> string list" where
  "split_on d [] = [[]]"
| "split_on d (c # cs) =
     (if c = d then [] # split_on d cs
      else case split_on d cs of [] \<Rightarrow> [[c]] | p # ps \<Rightarrow> (c # p) # ps)"

fun split_once :: "char \<Rightarrow> string \<Rightarrow> (string \<times> string) option" where
  "split_once d [] = None"
| "split_once d (c # cs) =
     (if c = d then Some ([], cs)
      else case split_once d cs of None \<Rightarrow> None | Some (a, b) \<Rightarrow> Some (c # a, b))"

fun join_with :: "string \<Rightarrow> string list \<Rightarrow> string" where
  "join_with d [] = []"
| "join_with d [p] = p"
| "join_with d (p # q # ps) = p @ d @ join_with d (q # ps)"

text \<open>The UTF-8 encodings of the characters with the Unicode property White\_Space.\<close>

definition white_space :: "string list" where
  "white_space = map (map char_of)
     [[9 :: nat], [10], [11], [12], [13], [32], [194, 133], [194, 160], [225, 154, 128],
      [226, 128, 128], [226, 128, 129], [226, 128, 130], [226, 128, 131], [226, 128, 132],
      [226, 128, 133], [226, 128, 134], [226, 128, 135], [226, 128, 136], [226, 128, 137],
      [226, 128, 138], [226, 128, 168], [226, 128, 169], [226, 128, 175], [226, 129, 159],
      [227, 128, 128]]"

function strip_leading :: "string list \<Rightarrow> string \<Rightarrow> string" where
  "strip_leading ws s =
     (case find (\<lambda>w. w \<noteq> [] \<and> prefix w s) ws of
        None \<Rightarrow> s
      | Some w \<Rightarrow> strip_leading ws (drop (length w) s))"
  by pat_completeness auto
termination
  by (relation "measure (length \<circ> snd)") (auto simp: find_Some_iff prefix_def)

declare strip_leading.simps [simp del]

definition trim_start :: "string \<Rightarrow> string" where
  "trim_start s = strip_leading white_space s"

definition trim_end :: "string \<Rightarrow> string" where
  "trim_end s = rev (strip_leading (map rev white_space) (rev s))"

definition trim :: "string \<Rightarrow> string" where
  "trim s = trim_end (trim_start s)"

definition trim_end_matches :: "char \<Rightarrow> string \<Rightarrow> string" where
  "trim_end_matches c s = rev (dropWhile (\<lambda>x. x = c) (rev s))"

lemma trim_Nil [simp]: "trim [] = []"
  by (simp add: trim_def trim_start_def trim_end_def strip_leading.simps white_space_def)

lemma split_on_not_Nil [simp]: "split_on d s \<noteq> []"
  by (cases s) (auto split: list.splits)

lemma split_on_free: "d \<notin> set s \<Longrightarrow> split_on d s = [s]"
  by (induction s) auto

lemma split_on_append: "d \<notin> set s \<Longrightarrow> split_on d (s @ d # t) = s # split_on d t"
  by (induction s) auto

lemma split_on_join:
  "ps \<noteq> [] \<Longrightarrow> \<forall>p\<in>set ps. d \<notin> set p \<Longrightarrow> split_on d (join_with [d] ps) = ps"
proof (induction ps rule: induct_list012)
  case (3 p q ps)
  then show ?case by (simp add: split_on_append)
qed (auto simp: split_on_free)

lemma split_on_parts_free: "p \<in> set (split_on d s) \<Longrightarrow> d \<notin> set p"
  by (induction s arbitrary: p) (fastforce split: if_splits list.splits)+

lemma join_split_on: "join_with [d] (split_on d s) = s"
proof (induction s)
  case Nil
  then show ?case by simp
next
  case (Cons c s)
  obtain p ps where p: "split_on d s = p # ps" by (cases "split_on d s") auto
  then show ?case using Cons by (cases ps) auto
qed

section \<open>UTF-8\<close>

definition in_rng :: "u8 \<Rightarrow> nat \<Rightarrow> nat \<Rightarrow> bool" where
  "in_rng b lo hi \<longleftrightarrow> lo \<le> unat b \<and> unat b \<le> hi"

definition cont_byte :: "u8 \<Rightarrow> bool" where "cont_byte b \<longleftrightarrow> in_rng b 128 191"

text \<open>Well-formed UTF-8, with the Unicode table of lead bytes and second-byte ranges.\<close>

fun utf8_valid :: "bytes \<Rightarrow> bool" where
  "utf8_valid [] = True"
| "utf8_valid (a # rest) =
     (if in_rng a 0 127 then utf8_valid rest
      else if in_rng a 194 223 then
        (case rest of b # r \<Rightarrow> cont_byte b \<and> utf8_valid r | _ \<Rightarrow> False)
      else if in_rng a 224 239 then
        (case rest of b # c # r \<Rightarrow>
           (if unat a = 224 then in_rng b 160 191
            else if unat a = 237 then in_rng b 128 159 else cont_byte b)
           \<and> cont_byte c \<and> utf8_valid r
         | _ \<Rightarrow> False)
      else if in_rng a 240 244 then
        (case rest of b # c # d # r \<Rightarrow>
           (if unat a = 240 then in_rng b 144 191
            else if unat a = 244 then in_rng b 128 143 else cont_byte b)
           \<and> cont_byte c \<and> cont_byte d \<and> utf8_valid r
         | _ \<Rightarrow> False)
      else False)"

text \<open>\<open>str::from_utf8\<close>: the bytes as a string, if they are UTF-8.\<close>

definition from_utf8 :: "bytes \<Rightarrow> string option" where
  "from_utf8 bs = (if utf8_valid bs then Some (of_bytes bs) else None)"

lemma from_utf8_as_bytes: "utf8_valid (as_bytes s) \<Longrightarrow> from_utf8 (as_bytes s) = Some s"
  by (simp add: from_utf8_def)

text \<open>An ASCII separator never lies inside a character.\<close>

lemma utf8_valid_ascii_split:
  assumes "unat d < 128"
  shows "utf8_valid (xs @ d # ys) \<longleftrightarrow> utf8_valid xs \<and> utf8_valid ys"
proof (induction xs rule: utf8_valid.induct)
  case 1
  then show ?case using assms by (simp add: in_rng_def)
next
  case (2 a rest)
  have nc: "\<not> cont_byte d" "\<not> in_rng d 160 191" "\<not> in_rng d 128 159" "\<not> in_rng d 144 191"
    "\<not> in_rng d 128 143"
    using assms by (simp_all add: cont_byte_def in_rng_def)
  consider "rest = []" | b where "rest = [b]" | b c where "rest = [b, c]"
    | b c e r where "rest = b # c # e # r"
    by (metis neq_Nil_conv)
  then show ?case
    using 2 nc by cases (simp_all add: list.case_eq_if)
qed

lemma utf8_valid_join:
  assumes "unat (of_char d :: u8) < 128" "ps \<noteq> []"
  shows "utf8_valid (as_bytes (join_with [d] ps)) \<longleftrightarrow> (\<forall>p\<in>set ps. utf8_valid (as_bytes p))"
  using assms(2)
proof (induction ps rule: induct_list012)
  case (3 p q ps)
  have "as_bytes (join_with [d] (p # q # ps)) = as_bytes p @ of_char d # as_bytes (join_with [d] (q # ps))"
    by (simp add: as_bytes_def)
  with 3 show ?case by (simp only: utf8_valid_ascii_split [OF assms(1)]) auto
qed auto

lemma utf8_valid_split_on:
  assumes "unat (of_char d :: u8) < 128" "utf8_valid (as_bytes s)" "p \<in> set (split_on d s)"
  shows "utf8_valid (as_bytes p)"
  using utf8_valid_join [OF assms(1), of "split_on d s"] assms by (simp add: join_split_on)

lemma trim_end_matches_split: "\<exists>n. s = trim_end_matches c s @ replicate n c"
proof -
  have "rev s = takeWhile (\<lambda>x. x = c) (rev s) @ dropWhile (\<lambda>x. x = c) (rev s)" by simp
  then have "s = trim_end_matches c s @ rev (takeWhile (\<lambda>x. x = c) (rev s))"
    unfolding trim_end_matches_def by (metis rev_append rev_rev_ident)
  moreover have "takeWhile (\<lambda>x. x = c) (rev s) =
      replicate (length (takeWhile (\<lambda>x. x = c) (rev s))) c"
    by (metis (mono_tags, lifting) replicate_length_same set_takeWhileD)
  ultimately show ?thesis by (metis rev_replicate)
qed

lemma utf8_valid_trim_end_matches:
  assumes "unat (of_char c :: u8) < 128" "utf8_valid (as_bytes s)"
  shows "utf8_valid (as_bytes (trim_end_matches c s))"
proof -
  obtain n where n: "s = trim_end_matches c s @ replicate n c" using trim_end_matches_split by blast
  show ?thesis
  proof (cases n)
    case 0
    with n assms show ?thesis by simp
  next
    case (Suc m)
    with n have "as_bytes s = as_bytes (trim_end_matches c s) @ of_char c # as_bytes (replicate m c)"
      by (metis as_bytes_append as_bytes_def list.simps(9) replicate_Suc)
    with assms show ?thesis by (simp add: utf8_valid_ascii_split)
  qed
qed

lemma join_to_ascii_lowercase:
  assumes "ascii_lower_char d = d"
  shows "join_with [d] (map to_ascii_lowercase ps) = to_ascii_lowercase (join_with [d] ps)"
  using assms by (induction ps rule: induct_list012) (auto simp: to_ascii_lowercase_def)

section \<open>Decimal numbers\<close>

definition digit_char :: "nat \<Rightarrow> char" where
  "digit_char n = char_of (48 + n)"

definition digit_value :: "char \<Rightarrow> nat option" where
  "digit_value c =
     (if 48 \<le> (of_char c :: nat) \<and> (of_char c :: nat) \<le> 57 then Some (of_char c - 48) else None)"

fun show_nat :: "nat \<Rightarrow> string" where
  "show_nat n = (if n < 10 then [digit_char n] else show_nat (n div 10) @ [digit_char (n mod 10)])"

declare show_nat.simps [simp del]

fun parse_digits :: "nat \<Rightarrow> string \<Rightarrow> nat option" where
  "parse_digits acc [] = Some acc"
| "parse_digits acc (c # cs) =
     (case digit_value c of None \<Rightarrow> None | Some d \<Rightarrow> parse_digits (acc * 10 + d) cs)"

text \<open>\<open>str::parse\<close> for an unsigned type with \<open>bound\<close> values: one leading \<open>+\<close> is allowed.\<close>

definition parse_unsigned :: "nat \<Rightarrow> string \<Rightarrow> nat option" where
  "parse_unsigned bound s =
     (let ds = (case s of c # cs \<Rightarrow> if c = CHR ''+'' then cs else s | [] \<Rightarrow> [])
      in if ds = [] then None
         else case parse_digits 0 ds of None \<Rightarrow> None | Some n \<Rightarrow> if n < bound then Some n else None)"

definition parse_u64 :: "string \<Rightarrow> u64 option" where
  "parse_u64 s = map_option of_nat (parse_unsigned (2 ^ 64) s)"

definition parse_u16 :: "string \<Rightarrow> u16 option" where
  "parse_u16 s = map_option of_nat (parse_unsigned (2 ^ 16) s)"

definition show_u64 :: "u64 \<Rightarrow> string" where
  "show_u64 w = show_nat (unat w)"

lemma of_char_digit_char [simp]: "n < 10 \<Longrightarrow> (of_char (digit_char n) :: nat) = 48 + n"
  by (simp add: digit_char_def)

lemma digit_value_digit_char [simp]: "n < 10 \<Longrightarrow> digit_value (digit_char n) = Some n"
  by (simp add: digit_value_def)

lemma digit_char_neq [simp]:
  "n < 10 \<Longrightarrow> digit_char n \<noteq> CHR ''+''" "n < 10 \<Longrightarrow> digit_char n \<noteq> CHR '',''"
  "n < 10 \<Longrightarrow> digit_char n \<noteq> CHR '':''" "n < 10 \<Longrightarrow> digit_char n \<noteq> CHR ''.''"
  "n < 10 \<Longrightarrow> digit_char n \<noteq> CHR ''/''"
  by (auto dest: arg_cong [where f = "of_char :: char \<Rightarrow> nat"])

lemma parse_digits_append:
  "parse_digits acc (s @ t) =
     (case parse_digits acc s of None \<Rightarrow> None | Some n \<Rightarrow> parse_digits n t)"
  by (induction acc s rule: parse_digits.induct) (auto split: option.splits)

lemma parse_digits_show: "parse_digits 0 (show_nat n) = Some n"
proof (induction n rule: show_nat.induct)
  case (1 n)
  then show ?case
    by (cases "n < 10") (simp_all add: show_nat.simps [of n] parse_digits_append)
qed

lemma show_nat_digits: "c \<in> set (show_nat n) \<Longrightarrow> \<exists>d<10. c = digit_char d"
proof (induction n rule: show_nat.induct)
  case (1 n)
  show ?case
  proof (cases "n < 10")
    case True
    with 1 show ?thesis by (auto simp: show_nat.simps [of n])
  next
    case False
    with "1.prems" have "c \<in> set (show_nat (n div 10)) \<or> c = digit_char (n mod 10)"
      by (auto simp: show_nat.simps [of n])
    then show ?thesis
    proof
      assume "c = digit_char (n mod 10)"
      moreover have "n mod 10 < 10" by simp
      ultimately show ?thesis by blast
    qed (use 1 False in blast)
  qed
qed

lemma show_nat_not_Nil [simp]: "show_nat n \<noteq> []"
  by (simp add: show_nat.simps [of n])

lemma parse_unsigned_show [simp]: "n < bound \<Longrightarrow> parse_unsigned bound (show_nat n) = Some n"
proof -
  assume n: "n < bound"
  obtain c cs where c: "show_nat n = c # cs" by (cases "show_nat n") auto
  then have "c \<noteq> CHR ''+''" using show_nat_digits [of c n] by auto
  moreover have "parse_digits 0 (c # cs) = Some n" using parse_digits_show [of n] c by simp
  ultimately show ?thesis unfolding parse_unsigned_def c Let_def using n by simp
qed

lemma parse_show_u64 [simp]: "parse_u64 (show_u64 w) = Some w"
proof -
  have "unat w < 2 ^ 64" using unsigned_less [of w] by simp
  then have "parse_unsigned (2 ^ 64) (show_nat (unat w)) = Some (unat w)"
    by (rule parse_unsigned_show)
  then show ?thesis unfolding parse_u64_def show_u64_def by simp
qed

lemma show_nat_inj: "show_nat m = show_nat n \<Longrightarrow> m = n"
  by (metis option.inject parse_digits_show)

end
