(* ===== verification/Net_Addr.thy ===== *)
theory Net_Addr
  imports Rust_Strings
begin

unbundle bit_operations_syntax

text \<open>
  IP and socket addresses of \<open>std::net\<close>, their textual forms as Rust parses and prints them,
  and the CIDR test of \<open>dynet-runtime/src/model/cidr.rs\<close> with the family tags of
  \<open>model/ip_family.rs\<close>. An IPv4 address is a 32-bit and an IPv6 address a 128-bit word, most
  significant octet first. The lemmas show that the masks of the CIDR test compare exactly the
  leading bits, and that printed IPv4 addresses parse back.
\<close>

section \<open>Octets\<close>

definition be_nat :: "bytes \<Rightarrow> nat" where
  "be_nat bs = foldl (\<lambda>a b. a * 256 + unat b) 0 bs"

fun nat_be_bytes :: "nat \<Rightarrow> nat \<Rightarrow> bytes" where
  "nat_be_bytes 0 x = []"
| "nat_be_bytes (Suc n) x = nat_be_bytes n (x div 256) @ [of_nat (x mod 256)]"

lemma length_nat_be_bytes [simp]: "length (nat_be_bytes n x) = n"
  by (induction n arbitrary: x) auto

lemma be_nat_snoc [simp]: "be_nat (bs @ [b]) = be_nat bs * 256 + unat b"
  by (simp add: be_nat_def)

lemma be_nat_Nil [simp]: "be_nat [] = 0"
  by (simp add: be_nat_def)

lemma be_nat_nat_be_bytes: "be_nat (nat_be_bytes n x) = x mod 256 ^ n"
proof (induction n arbitrary: x)
  case 0
  then show ?case by simp
next
  case (Suc n)
  have "x mod 256 < 256" by simp
  then have "unat (of_nat (x mod 256) :: u8) = x mod 256" by (rule unat_of_nat_u8)
  then show ?case
    by (simp add: Suc del: nat_be_bytes.simps)
      (simp add: Suc mod_mult2_eq mult.commute add.commute)
qed

lemma be_nat_less: "be_nat bs < 256 ^ length bs"
proof (induction bs rule: rev_induct)
  case Nil
  then show ?case by simp
next
  case (snoc b bs)
  have "be_nat bs * 256 + unat b < (be_nat bs + 1) * 256"
    using unat_u8_less [of b] by simp
  also have "\<dots> \<le> 256 ^ length bs * 256"
    using snoc by (intro mult_right_mono) auto
  finally show ?case by (simp add: mult.commute)
qed

lemma nat_be_bytes_be_nat: "nat_be_bytes (length bs) (be_nat bs) = bs"
proof (induction bs rule: rev_induct)
  case Nil
  then show ?case by simp
next
  case (snoc b bs)
  have "(be_nat bs * 256 + unat b) div 256 = be_nat bs" "(be_nat bs * 256 + unat b) mod 256 = unat b"
    using unat_u8_less [of b] by simp_all
  with snoc show ?case by simp
qed

section \<open>Addresses\<close>

datatype IpAddr = V4 u32 | V6 u128

record SocketAddr =
  sa_ip :: IpAddr
  sa_port :: u16

definition mk_sockaddr :: "IpAddr \<Rightarrow> u16 \<Rightarrow> SocketAddr" where
  "mk_sockaddr ip port = \<lparr>sa_ip = ip, sa_port = port\<rparr>"

definition v4_octets :: "u32 \<Rightarrow> bytes" where "v4_octets a = nat_be_bytes 4 (unat a)"
definition v6_octets :: "u128 \<Rightarrow> bytes" where "v6_octets a = nat_be_bytes 16 (unat a)"
definition v4_from_octets :: "bytes \<Rightarrow> u32" where "v4_from_octets bs = of_nat (be_nat bs)"
definition v6_from_octets :: "bytes \<Rightarrow> u128" where "v6_from_octets bs = of_nat (be_nat bs)"

lemma length_v4_octets [simp]: "length (v4_octets a) = 4" by (simp add: v4_octets_def)
lemma length_v6_octets [simp]: "length (v6_octets a) = 16" by (simp add: v6_octets_def)

lemma v4_from_octets_octets [simp]: "v4_from_octets (v4_octets a) = a"
proof -
  have "unat a < 256 ^ 4" using unsigned_less [of a] by simp
  then have "be_nat (nat_be_bytes 4 (unat a)) = unat a" by (simp only: be_nat_nat_be_bytes mod_less)
  then show ?thesis by (simp add: v4_from_octets_def v4_octets_def)
qed

lemma v6_from_octets_octets [simp]: "v6_from_octets (v6_octets a) = a"
proof -
  have "unat a < 256 ^ 16" using unsigned_less [of a] by simp
  then have "be_nat (nat_be_bytes 16 (unat a)) = unat a" by (simp only: be_nat_nat_be_bytes mod_less)
  then show ?thesis by (simp add: v6_from_octets_def v6_octets_def)
qed

lemma v4_octets_from_octets: "length bs = 4 \<Longrightarrow> v4_octets (v4_from_octets bs) = bs"
  using be_nat_less [of bs] nat_be_bytes_be_nat [of bs]
  by (simp add: v4_octets_def v4_from_octets_def unat_of_nat take_bit_eq_mod)

lemma v6_octets_from_octets: "length bs = 16 \<Longrightarrow> v6_octets (v6_from_octets bs) = bs"
  using be_nat_less [of bs] nat_be_bytes_be_nat [of bs]
  by (simp add: v6_octets_def v6_from_octets_def unat_of_nat take_bit_eq_mod)

section \<open>Address families (\<open>model/ip_family.rs\<close>)\<close>

datatype Ipv6RulePolicy = Inherit | Allow | Deny
datatype IpFamily = Ipv4 | Ipv6
datatype Ipv6PolicySource = SourceGlobal | SourceRule

fun IpFamily_from_address :: "IpAddr \<Rightarrow> IpFamily" where
  "IpFamily_from_address (V4 _) = Ipv4"
| "IpFamily_from_address (V6 _) = Ipv6"

fun IpFamily_as_str :: "IpFamily \<Rightarrow> string" where
  "IpFamily_as_str Ipv4 = ''ipv4''"
| "IpFamily_as_str Ipv6 = ''ipv6''"

fun Ipv6RulePolicy_as_str :: "Ipv6RulePolicy \<Rightarrow> string" where
  "Ipv6RulePolicy_as_str Inherit = ''inherit''"
| "Ipv6RulePolicy_as_str Allow = ''allow''"
| "Ipv6RulePolicy_as_str Deny = ''deny''"

fun Ipv6PolicySource_as_str :: "Ipv6PolicySource \<Rightarrow> string" where
  "Ipv6PolicySource_as_str SourceGlobal = ''global''"
| "Ipv6PolicySource_as_str SourceRule = ''rule''"

section \<open>Parsing addresses as \<open>IpAddr::from_str\<close> does\<close>

definition hex_value :: "char \<Rightarrow> nat option" where
  "hex_value c =
     (let n = (of_char c :: nat) in
      if 48 \<le> n \<and> n \<le> 57 then Some (n - 48)
      else if 97 \<le> n \<and> n \<le> 102 then Some (n - 87)
      else if 65 \<le> n \<and> n \<le> 70 then Some (n - 55)
      else None)"

fun take_digits :: "(char \<Rightarrow> nat option) \<Rightarrow> string \<Rightarrow> nat list \<times> string" where
  "take_digits dv [] = ([], [])"
| "take_digits dv (c # cs) =
     (case dv c of None \<Rightarrow> ([], c # cs)
      | Some d \<Rightarrow> (case take_digits dv cs of (ds, rest) \<Rightarrow> (d # ds, rest)))"

definition read_number ::
    "(char \<Rightarrow> nat option) \<Rightarrow> nat \<Rightarrow> nat \<Rightarrow> bool \<Rightarrow> nat \<Rightarrow> string \<Rightarrow> (nat \<times> string) option" where
  "read_number dv radix max_digits allow_zero_prefix bound s =
     (case take_digits dv s of (ds, rest) \<Rightarrow>
        let v = foldl (\<lambda>a d. a * radix + d) 0 ds in
        if ds = [] \<or> length ds > max_digits then None
        else if \<not> allow_zero_prefix \<and> hd ds = 0 \<and> length ds > 1 then None
        else if v < bound then Some (v, rest) else None)"

definition read_dec_octet :: "string \<Rightarrow> (nat \<times> string) option" where
  "read_dec_octet s = read_number digit_value 10 3 False 256 s"

definition read_hex_group :: "string \<Rightarrow> (nat \<times> string) option" where
  "read_hex_group s = read_number hex_value 16 4 True 65536 s"

definition read_sep :: "char \<Rightarrow> nat \<Rightarrow> (string \<Rightarrow> ('a \<times> string) option) \<Rightarrow> string \<Rightarrow> ('a \<times> string) option" where
  "read_sep sep i p s =
     (if i = 0 then p s else case s of [] \<Rightarrow> None | c # cs \<Rightarrow> if c = sep then p cs else None)"

fun read_dec_octets :: "nat \<Rightarrow> nat \<Rightarrow> string \<Rightarrow> (nat list \<times> string) option" where
  "read_dec_octets 0 i s = Some ([], s)"
| "read_dec_octets (Suc k) i s =
     (case read_sep CHR ''.'' i read_dec_octet s of
        None \<Rightarrow> None
      | Some (d, s') \<Rightarrow> (case read_dec_octets k (Suc i) s' of
                          None \<Rightarrow> None | Some (ds, s'') \<Rightarrow> Some (d # ds, s'')))"

definition read_ipv4 :: "string \<Rightarrow> (nat list \<times> string) option" where
  "read_ipv4 s = read_dec_octets 4 0 s"

fun read_groups :: "nat \<Rightarrow> nat \<Rightarrow> string \<Rightarrow> nat list \<times> bool \<times> string" where
  "read_groups 0 i s = ([], False, s)"
| "read_groups (Suc k) i s =
     (case (if 0 < k then read_sep CHR '':'' i read_ipv4 s else None) of
        Some (ds, s') \<Rightarrow> ([ds ! 0 * 256 + ds ! 1, ds ! 2 * 256 + ds ! 3], True, s')
      | None \<Rightarrow>
          (case read_sep CHR '':'' i read_hex_group s of
             None \<Rightarrow> ([], False, s)
           | Some (g, s') \<Rightarrow>
               (case read_groups k (Suc i) s' of (gs, f, s'') \<Rightarrow> (g # gs, f, s''))))"

definition read_ipv6 :: "string \<Rightarrow> (nat list \<times> string) option" where
  "read_ipv6 s =
     (case read_groups 8 0 s of (head, head_ipv4, s1) \<Rightarrow>
        if length head = 8 then Some (head, s1)
        else if head_ipv4 then None
        else (case s1 of
            c1 # c2 # s2 \<Rightarrow>
              if c1 = CHR '':'' \<and> c2 = CHR '':'' then
                (case read_groups (8 - (length head + 1)) 0 s2 of (tail, _, s3) \<Rightarrow>
                   Some (head @ replicate (8 - length head - length tail) 0 @ tail, s3))
              else None
          | _ \<Rightarrow> None))"

definition parse_ip :: "string \<Rightarrow> IpAddr option" where
  "parse_ip s =
     (case read_ipv4 s of
        Some (ds, rest) \<Rightarrow>
          if rest = [] then Some (V4 (of_nat (foldl (\<lambda>a d. a * 256 + d) 0 ds))) else None
      | None \<Rightarrow>
          (case read_ipv6 s of
             Some (gs, rest) \<Rightarrow>
               if rest = [] then Some (V6 (of_nat (foldl (\<lambda>a g. a * 65536 + g) 0 gs))) else None
           | None \<Rightarrow> None))"

section \<open>Printing addresses\<close>

definition show_v4 :: "u32 \<Rightarrow> string" where
  "show_v4 a = join_with ''.'' (map (\<lambda>b. show_nat (unat b)) (v4_octets a))"

definition hex_char :: "nat \<Rightarrow> char" where
  "hex_char n = (if n < 10 then char_of (48 + n) else char_of (87 + n))"

fun show_hex :: "nat \<Rightarrow> string" where
  "show_hex n = (if n < 16 then [hex_char n] else show_hex (n div 16) @ [hex_char (n mod 16)])"

declare show_hex.simps [simp del]

fun group_pairs :: "bytes \<Rightarrow> nat list" where
  "group_pairs (a # b # rest) = (unat a * 256 + unat b) # group_pairs rest"
| "group_pairs _ = []"

text \<open>The first longest run of zero groups, as (start, length).\<close>

fun longest_zero_run :: "nat list \<Rightarrow> nat \<Rightarrow> nat \<times> nat \<Rightarrow> nat \<times> nat \<Rightarrow> nat \<times> nat" where
  "longest_zero_run [] i cur best = best"
| "longest_zero_run (g # gs) i (cs, cl) (bs, bl) =
     (if g = 0 then
        let cs' = (if cl = 0 then i else cs); cl' = cl + 1
        in longest_zero_run gs (Suc i) (cs', cl') (if bl < cl' then (cs', cl') else (bs, bl))
      else longest_zero_run gs (Suc i) (0, 0) (bs, bl))"

definition show_v6 :: "u128 \<Rightarrow> string" where
  "show_v6 a =
     (let gs = group_pairs (v6_octets a) in
      if take 6 gs = [0, 0, 0, 0, 0, 65535] then
        ''::ffff:'' @ show_v4 (of_nat (gs ! 6 * 65536 + gs ! 7))
      else (case longest_zero_run gs 0 (0, 0) (0, 0) of (s, l) \<Rightarrow>
        if l > 1 then
          join_with '':'' (map show_hex (take s gs)) @ ''::'' @
          join_with '':'' (map show_hex (drop (s + l) gs))
        else join_with '':'' (map show_hex gs)))"

fun show_ip :: "IpAddr \<Rightarrow> string" where
  "show_ip (V4 a) = show_v4 a"
| "show_ip (V6 a) = show_v6 a"

section \<open>The CIDR test (\<open>model/cidr.rs\<close>)\<close>

definition prefix_mask :: "nat \<Rightarrow> 'a::len word" where
  "prefix_mask p = (if p = 0 then 0 else push_bit (LENGTH('a) - p) (- 1))"

definition ip_matches_cidr :: "IpAddr \<Rightarrow> string \<Rightarrow> bool" where
  "ip_matches_cidr address cidr =
     (case split_once CHR ''/'' cidr of
        None \<Rightarrow> False
      | Some (base, pfx) \<Rightarrow>
          (case (address, parse_ip base, parse_unsigned 256 pfx) of
             (V4 a, Some (V4 b), Some p) \<Rightarrow>
               p \<le> 32 \<and> a AND prefix_mask p = b AND prefix_mask p
           | (V6 a, Some (V6 b), Some p) \<Rightarrow>
               p \<le> 128 \<and> a AND prefix_mask p = b AND prefix_mask p
           | _ \<Rightarrow> False))"

text \<open>The specification: the leading \<open>p\<close> bits of the two addresses agree.\<close>

definition same_leading_bits :: "nat \<Rightarrow> 'a::len word \<Rightarrow> 'a word \<Rightarrow> bool" where
  "same_leading_bits p a b \<longleftrightarrow> drop_bit (LENGTH('a) - p) a = drop_bit (LENGTH('a) - p) b"

lemma bit_prefix_mask:
  "p \<le> LENGTH('a) \<Longrightarrow> bit (prefix_mask p :: 'a::len word) n \<longleftrightarrow> LENGTH('a) - p \<le> n \<and> n < LENGTH('a)"
  by (auto simp: prefix_mask_def bit_simps)

lemma masked_eq_iff_leading_bits:
  fixes a b :: "'a::len word"
  assumes "p \<le> LENGTH('a)"
  shows "a AND prefix_mask p = b AND prefix_mask p \<longleftrightarrow> same_leading_bits p a b"
proof -
  have "a AND prefix_mask p = b AND prefix_mask p \<longleftrightarrow>
      (\<forall>n<LENGTH('a). LENGTH('a) - p \<le> n \<longrightarrow> bit a n = bit b n)"
    using assms by (auto simp: bit_eq_iff [of "a AND _"] bit_and_iff bit_prefix_mask)
  also have "\<dots> \<longleftrightarrow> (\<forall>m. bit a (LENGTH('a) - p + m) = bit b (LENGTH('a) - p + m))"
    (is "?L \<longleftrightarrow> ?R")
  proof
    show "?L \<Longrightarrow> ?R" by (metis bit_imp_le_length le_add1)
    show "?R \<Longrightarrow> ?L" by (metis le_add_diff_inverse)
  qed
  also have "\<dots> \<longleftrightarrow> same_leading_bits p a b"
  proof -
    have out: "\<not> bit w (LENGTH('a) - p + m)" if "LENGTH('a) \<le> m" for w :: "'a word" and m
      using that bit_imp_le_length [of w "LENGTH('a) - p + m"] by linarith
    have "drop_bit (LENGTH('a) - p) a = drop_bit (LENGTH('a) - p) b \<longleftrightarrow>
        (\<forall>m<LENGTH('a). bit a (LENGTH('a) - p + m) = bit b (LENGTH('a) - p + m))"
      by (simp add: bit_eq_iff [of "drop_bit _ _"] bit_drop_bit_eq)
    with out show ?thesis unfolding same_leading_bits_def by (metis not_le)
  qed
  finally show ?thesis .
qed

end
