(* ===== verification/Btree_Map.thy ===== *)
theory Btree_Map
  imports Rust_Prelude
begin

text \<open>
  \<open>BTreeMap\<close> as an association list with strictly increasing keys, which is the order its
  iterators use. The locale \<open>ordered_map\<close> is the contract the stores of the runtime rely on
  (what \<open>get\<close> returns after \<open>insert\<close> and \<open>remove\<close>, and that the key order is kept);
  the facts about \<open>collect\<close> are proved once inside it.
\<close>

type_synonym ('k, 'v) btree = "('k \<times> 'v) list"

definition bt_wf :: "('k::linorder, 'v) btree \<Rightarrow> bool" where
  "bt_wf m \<longleftrightarrow> sorted_wrt (<) (map fst m)"

definition bt_get :: "('k::linorder, 'v) btree \<Rightarrow> 'k \<Rightarrow> 'v option" where
  "bt_get m k = map_of m k"

fun bt_insert :: "'k::linorder \<Rightarrow> 'v \<Rightarrow> ('k, 'v) btree \<Rightarrow> ('k, 'v) btree" where
  "bt_insert k v [] = [(k, v)]"
| "bt_insert k v ((k', v') # m) =
     (if k < k' then (k, v) # (k', v') # m
      else if k = k' then (k, v) # m
      else (k', v') # bt_insert k v m)"

definition bt_remove :: "'k::linorder \<Rightarrow> ('k, 'v) btree \<Rightarrow> ('k, 'v) btree" where
  "bt_remove k m = filter (\<lambda>(k', _). k' \<noteq> k) m"

definition bt_contains :: "('k::linorder, 'v) btree \<Rightarrow> 'k \<Rightarrow> bool" where
  "bt_contains m k \<longleftrightarrow> bt_get m k \<noteq> None"

abbreviation bt_values :: "('k::linorder, 'v) btree \<Rightarrow> 'v list" where "bt_values m \<equiv> map snd m"
abbreviation bt_keys :: "('k::linorder, 'v) btree \<Rightarrow> 'k list" where "bt_keys m \<equiv> map fst m"

text \<open>\<open>iter.collect()\<close>: insert the pairs in order, a later pair replaces an earlier one.\<close>

definition bt_collect :: "('k::linorder \<times> 'v) list \<Rightarrow> ('k, 'v) btree" where
  "bt_collect ps = fold (\<lambda>(k, v) m. bt_insert k v m) ps []"

text \<open>\<open>*map.entry(k).or_insert(d) = f(\<dots>)\<close>.\<close>

definition bt_upsert :: "'k::linorder \<Rightarrow> 'v \<Rightarrow> ('v \<Rightarrow> 'v) \<Rightarrow> ('k, 'v) btree \<Rightarrow> ('k, 'v) btree" where
  "bt_upsert k d f m = bt_insert k (f (case bt_get m k of None \<Rightarrow> d | Some v \<Rightarrow> v)) m"

text \<open>A loop that folds each value into the entry of its key, as
  \<open>map.entry(k).or_default().record(v)\<close>.\<close>

definition bt_accumulate ::
    "'a \<Rightarrow> ('v \<Rightarrow> 'a \<Rightarrow> 'a) \<Rightarrow> ('k::linorder \<times> 'v) list \<Rightarrow> ('k, 'a) btree" where
  "bt_accumulate d f kvs = fold (\<lambda>(k, v). bt_upsert k d (f v)) kvs []"

locale ordered_map =
  fixes empty :: 'm
    and get :: "'m \<Rightarrow> 'k \<Rightarrow> 'v option"
    and put :: "'k \<Rightarrow> 'v \<Rightarrow> 'm \<Rightarrow> 'm"
    and del :: "'k \<Rightarrow> 'm \<Rightarrow> 'm"
    and wf :: "'m \<Rightarrow> bool"
  assumes get_empty: "get empty k = None"
    and get_put: "wf m \<Longrightarrow> get (put k v m) k' = (if k' = k then Some v else get m k')"
    and get_del: "wf m \<Longrightarrow> get (del k m) k' = (if k' = k then None else get m k')"
    and wf_empty: "wf empty"
    and wf_put: "wf m \<Longrightarrow> wf (put k v m)"
    and wf_del: "wf m \<Longrightarrow> wf (del k m)"
begin

lemma wf_fold_put: "wf m \<Longrightarrow> wf (fold (\<lambda>(k, v) m. put k v m) ps m)"
  by (induction ps arbitrary: m) (auto intro: wf_put)

text \<open>\<open>collect\<close> keeps the last pair of each key.\<close>

lemma get_fold_put:
  "wf m \<Longrightarrow> get (fold (\<lambda>(k, v) m. put k v m) ps m) k =
     (case map_of (rev ps) k of None \<Rightarrow> get m k | Some v \<Rightarrow> Some v)"
proof (induction ps arbitrary: m)
  case Nil
  then show ?case by simp
next
  case (Cons p ps)
  obtain a b where p: "p = (a, b)" by (cases p)
  have "wf (put a b m)" using Cons.prems by (rule wf_put)
  from Cons.IH [OF this] p Cons.prems show ?case
    by (auto simp: map_add_def get_put split: option.splits)
qed

text \<open>With distinct keys every pair survives.\<close>

lemma get_fold_put_distinct:
  assumes "wf m" "distinct (map fst ps)" "(k, v) \<in> set ps"
  shows "get (fold (\<lambda>(k, v) m. put k v m) ps m) k = Some v"
proof -
  have "map_of (rev ps) k = Some v"
    using assms(2,3) by (simp add: map_of_eq_Some_iff rev_map [symmetric])
  with assms(1) show ?thesis by (simp add: get_fold_put)
qed

end

lemma bt_wf_Cons [simp]:
  "bt_wf ((k, v) # m) \<longleftrightarrow> (\<forall>k'\<in>fst ` set m. k < k') \<and> bt_wf m"
  by (simp add: bt_wf_def)

lemma bt_wf_Nil [simp]: "bt_wf []"
  by (simp add: bt_wf_def)

lemma fst_set_bt_insert [simp]: "fst ` set (bt_insert k v m) = insert k (fst ` set m)"
  by (induction k v m rule: bt_insert.induct) auto

lemma bt_get_insert [simp]:
  "bt_get (bt_insert k v m) k' = (if k' = k then Some v else bt_get m k')"
  by (induction k v m rule: bt_insert.induct) (auto simp: bt_get_def)

lemma bt_wf_insert: "bt_wf m \<Longrightarrow> bt_wf (bt_insert k v m)"
proof (induction k v m rule: bt_insert.induct)
  case (2 k v k' v' m)
  then show ?case by (fastforce dest: less_trans)
qed simp

lemma bt_get_remove [simp]:
  "bt_get (bt_remove k m) k' = (if k' = k then None else bt_get m k')"
  by (induction m) (auto simp: bt_get_def bt_remove_def)

lemma bt_wf_remove: "bt_wf m \<Longrightarrow> bt_wf (bt_remove k m)"
  by (induction m) (auto simp: bt_remove_def)

interpretation bt: ordered_map "[]" bt_get bt_insert bt_remove bt_wf
proof unfold_locales
  show "bt_get [] k = None" for k :: 'a by (simp add: bt_get_def)
qed (auto intro: bt_wf_insert bt_wf_remove)

section \<open>Derived facts on the model of \<open>BTreeMap\<close>\<close>

lemma bt_wf_collect [simp]: "bt_wf (bt_collect ps)"
  unfolding bt_collect_def by (rule bt.wf_fold_put) simp

lemma bt_get_collect: "bt_get (bt_collect ps) k = map_of (rev ps) k"
  unfolding bt_collect_def
  by (simp add: bt.get_fold_put) (simp add: bt_get_def split: option.splits)

lemma bt_get_collect_distinct:
  "distinct (map fst ps) \<Longrightarrow> (k, v) \<in> set ps \<Longrightarrow> bt_get (bt_collect ps) k = Some v"
  unfolding bt_collect_def by (rule bt.get_fold_put_distinct) simp_all

lemma bt_get_collect_Some: "bt_get (bt_collect ps) k = Some v \<Longrightarrow> (k, v) \<in> set ps"
  unfolding bt_get_collect by (metis map_of_SomeD set_rev)

lemma bt_wf_distinct: "bt_wf m \<Longrightarrow> distinct (map fst m)"
  by (auto simp: bt_wf_def strict_sorted_iff)

lemma bt_get_Some_iff: "bt_wf m \<Longrightarrow> bt_get m k = Some v \<longleftrightarrow> (k, v) \<in> set m"
  by (simp add: bt_get_def bt_wf_distinct map_of_eq_Some_iff)

lemma bt_get_None_iff: "bt_get m k = None \<longleftrightarrow> k \<notin> fst ` set m"
  by (simp add: bt_get_def map_of_eq_None_iff)

lemma set_bt_insert:
  assumes "bt_wf m"
  shows "set (bt_insert k v m) = insert (k, v) {p \<in> set m. fst p \<noteq> k}"
proof -
  have "(a, b) \<in> set (bt_insert k v m) \<longleftrightarrow> (a, b) \<in> insert (k, v) {p \<in> set m. fst p \<noteq> k}" for a b
    using bt_get_Some_iff [OF bt_wf_insert [OF assms], of k v a b] bt_get_Some_iff [OF assms, of a b]
    by (auto split: if_splits)
  then show ?thesis by auto
qed

lemma length_bt_insert:
  "bt_wf m \<Longrightarrow> length (bt_insert k v m) = (if bt_contains m k then length m else Suc (length m))"
proof (induction k v m rule: bt_insert.induct)
  case (1 k v)
  then show ?case by (simp add: bt_contains_def bt_get_def)
next
  case (2 k v k' v' m)
  show ?case
  proof (cases "k < k'")
    case True
    with 2 have "k \<notin> fst ` set m" by force
    with True show ?thesis by (auto simp: bt_contains_def bt_get_def map_of_eq_None_iff)
  next
    case False
    with 2 show ?thesis by (auto simp: bt_contains_def bt_get_def)
  qed
qed

lemma length_bt_remove: "bt_wf m \<Longrightarrow> bt_contains m k \<Longrightarrow> Suc (length (bt_remove k m)) = length m"
proof (induction m)
  case Nil
  then show ?case by (simp add: bt_contains_def bt_get_def)
next
  case (Cons p m)
  obtain a b where p: "p = (a, b)" by (cases p)
  show ?case
  proof (cases "a = k")
    case True
    with Cons p have "\<forall>q\<in>set m. fst q \<noteq> k" by force
    then have "filter (\<lambda>(k', _). k' \<noteq> k) m = m" by (auto simp: filter_id_conv)
    with True p show ?thesis by (simp add: bt_remove_def)
  next
    case False
    with Cons p show ?thesis by (auto simp: bt_remove_def bt_contains_def bt_get_def)
  qed
qed

lemma bt_get_upsert [simp]:
  "bt_get (bt_upsert k d f m) k' =
     (if k' = k then Some (f (case bt_get m k of None \<Rightarrow> d | Some v \<Rightarrow> v)) else bt_get m k')"
  by (simp add: bt_upsert_def)

lemma bt_wf_upsert: "bt_wf m \<Longrightarrow> bt_wf (bt_upsert k d f m)"
  by (simp add: bt_upsert_def bt_wf_insert)

lemma length_bt_collect: "length (bt_collect ps) \<le> length ps"
proof -
  have "bt_wf m \<Longrightarrow> length (fold (\<lambda>(k, v) m. bt_insert k v m) ps m) \<le> length m + length ps" for m
  proof (induction ps arbitrary: m)
    case (Cons p ps)
    then show ?case
      using Cons.IH [OF bt_wf_insert [OF Cons.prems, of "fst p" "snd p"]]
      by (auto simp: split_def length_bt_insert split: if_splits)
  qed simp
  from this [of "[]"] show ?thesis by (simp add: bt_collect_def)
qed

text \<open>The values recorded under a key, in order.\<close>

definition values_of :: "('k \<times> 'v) list \<Rightarrow> 'k \<Rightarrow> 'v list" where
  "values_of kvs k = map snd (filter (\<lambda>p. fst p = k) kvs)"

lemma values_of_simps [simp]:
  "values_of [] k = []"
  "values_of ((k', v) # kvs) k = (if k' = k then v # values_of kvs k else values_of kvs k)"
  "values_of (kvs @ kvs') k = values_of kvs k @ values_of kvs' k"
  by (simp_all add: values_of_def)

lemma values_of_Nil_iff: "values_of kvs k = [] \<longleftrightarrow> k \<notin> fst ` set kvs"
  by (auto simp: values_of_def filter_empty_conv)

lemma bt_get_fold_upsert:
  "bt_get (fold (\<lambda>(k, v). bt_upsert k d (f v)) kvs m) k =
     (if values_of kvs k = [] then bt_get m k
      else Some (fold f (values_of kvs k) (case bt_get m k of None \<Rightarrow> d | Some a \<Rightarrow> a)))"
  by (induction kvs arbitrary: m) (auto simp: split_def)

lemma bt_wf_fold_upsert: "bt_wf m \<Longrightarrow> bt_wf (fold (\<lambda>(k, v). bt_upsert k d (f v)) kvs m)"
  by (induction kvs arbitrary: m) (auto simp: split_def bt_wf_upsert)

lemma bt_get_accumulate:
  "bt_get (bt_accumulate d f kvs) k =
     (if values_of kvs k = [] then None else Some (fold f (values_of kvs k) d))"
  by (simp add: bt_accumulate_def bt_get_fold_upsert bt.get_empty)

lemma bt_wf_accumulate [simp]: "bt_wf (bt_accumulate d f kvs)"
  by (simp add: bt_accumulate_def bt_wf_fold_upsert)

lemma set_accumulate:
  "(k, a) \<in> set (bt_accumulate d f kvs) \<longleftrightarrow>
     k \<in> fst ` set kvs \<and> a = fold f (values_of kvs k) d"
  using bt_get_Some_iff [OF bt_wf_accumulate, of d f kvs k a]
  by (auto simp: bt_get_accumulate values_of_Nil_iff split: if_splits)

end
