(* ===== verification/Forward_Model.thy ===== *)
theory Forward_Model
  imports Net_Addr Btree_Map
begin

text \<open>
  The forwarding data model of \<open>dynet-runtime/src/model.rs\<close> with \<open>model/forward_node.rs\<close>,
  \<open>model/selection_error.rs\<close> and \<open>model/target_context.rs\<close>: nodes, groups, members, route
  rules and their matchers, DNS upstreams, the runtime seed, selection contexts and decisions,
  and the map of observed DNS answers. Identifiers are newtypes over \<open>String\<close> in the source
  and strings here. The lemmas say what the route matchers decide.
\<close>

section \<open>Identifiers and data\<close>

type_synonym NodeId = string
type_synonym GroupId = string
type_synonym RuleId = string
type_synonym DnsUpstreamId = string

definition DEFAULT_NODE_ID :: string where "DEFAULT_NODE_ID = ''default-node''"
definition DEFAULT_GROUP_ID :: string where "DEFAULT_GROUP_ID = ''default''"

record ForwardNode =
  fn_id :: NodeId
  fn_tag :: string
  fn_enabled :: bool
  fn_fingerprint :: string
  fn_supports_ipv6 :: bool

datatype SchedulerPolicy = SingleFirstEnabled

record GroupThresholds =
  gt_min_success_rate_ppm :: u32
  gt_min_samples :: u64
  gt_max_active_sessions :: "u64 option"

datatype NextRef = DirectAuditOutlet | Named string

record ForwardGroup =
  fg_id :: GroupId
  fg_enabled :: bool
  fg_scheduler :: SchedulerPolicy
  fg_thresholds :: GroupThresholds
  fg_next :: NextRef

record GroupMember =
  gm_group_id :: GroupId
  gm_node_id :: NodeId
  gm_enabled :: bool
  gm_priority :: u32

datatype RouteMatcher =
    DomainExact string
  | DomainSuffix string
  | IpExact IpAddr
  | IpCidr string

text \<open>The rule priority is an \<open>i64\<close>, which is only compared.\<close>

record RouteRule =
  rr_id :: RuleId
  rr_priority :: int
  rr_enabled :: bool
  rr_matcher :: RouteMatcher
  rr_group_id :: GroupId
  rr_ipv6 :: Ipv6RulePolicy

record DnsHttpsEndpoint =
  he_host :: string
  he_path :: string

datatype DnsUpstreamTransport = Udp | Https DnsHttpsEndpoint

record DnsUpstream =
  du_id :: DnsUpstreamId
  du_address :: SocketAddr
  du_transport :: DnsUpstreamTransport
  du_enabled :: bool
  du_priority :: u32

datatype DnsRaceStrategy = Parallel

text \<open>The timeout is a \<open>Duration\<close>, in milliseconds.\<close>

record DnsRacePolicy =
  dp_timeout_ms :: nat
  dp_strategy :: DnsRaceStrategy

datatype TargetSource = FixedUpstream | ObservedDns | ExternalContext

record TargetContext =
  tc_address :: SocketAddr
  tc_domain :: "string option"
  tc_source :: TargetSource

datatype InboundKind = InTcp | InUdp

record SelectionContext =
  sc_session_id :: u64
  sc_inbound :: InboundKind
  sc_target :: TargetContext

record RuntimeSeed =
  rs_ipv6_enabled :: bool
  rs_nodes :: "ForwardNode list"
  rs_default_group_id :: GroupId
  rs_groups :: "ForwardGroup list"
  rs_group_members :: "GroupMember list"
  rs_route_rules :: "RouteRule list"
  rs_dns_upstreams :: "DnsUpstream list"
  rs_dns_policy :: DnsRacePolicy

record SelectionTraceHop =
  th_group_id :: GroupId
  th_node_id :: NodeId
  th_next :: NextRef
  th_scheduler :: SchedulerPolicy
  th_candidate_count :: nat

datatype SelectionTerminal = TerminalDirect | TerminalNode NodeId

datatype SelectionReason = SingleNode

record SelectionDecision =
  sd_decision_id :: u64
  sd_config_generation :: u64
  sd_group_id :: GroupId
  sd_matched_rule_id :: "RuleId option"
  sd_node_id :: NodeId
  sd_next :: NextRef
  sd_trace :: "SelectionTraceHop list"
  sd_terminal :: SelectionTerminal
  sd_reason :: SelectionReason
  sd_scheduler :: SchedulerPolicy
  sd_candidate_count :: nat
  sd_ip_family :: IpFamily
  sd_ipv6_policy_source :: "Ipv6PolicySource option"

record MatrixCandidateInput =
  mc_node_id :: NodeId
  mc_priority :: u32

section \<open>Constructors and labels\<close>

definition ForwardNode_new :: "string \<Rightarrow> string \<Rightarrow> bool \<Rightarrow> ForwardNode" where
  "ForwardNode_new nid tag enabled =
     \<lparr>fn_id = nid, fn_tag = tag, fn_enabled = enabled,
      fn_fingerprint = ''node-id:'' @ nid, fn_supports_ipv6 = True\<rparr>"

definition ForwardNode_with_fingerprint :: "string \<Rightarrow> string \<Rightarrow> bool \<Rightarrow> string \<Rightarrow> ForwardNode" where
  "ForwardNode_with_fingerprint nid tag enabled fingerprint =
     \<lparr>fn_id = nid, fn_tag = tag, fn_enabled = enabled,
      fn_fingerprint = fingerprint, fn_supports_ipv6 = True\<rparr>"

definition with_capabilities :: "ForwardNode \<Rightarrow> bool \<Rightarrow> ForwardNode" where
  "with_capabilities node supports_ipv6 = node\<lparr>fn_supports_ipv6 := supports_ipv6\<rparr>"

definition GroupThresholds_default :: GroupThresholds where
  "GroupThresholds_default =
     \<lparr>gt_min_success_rate_ppm = 980000, gt_min_samples = 1, gt_max_active_sessions = None\<rparr>"

definition default_group :: ForwardGroup where
  "default_group =
     \<lparr>fg_id = DEFAULT_GROUP_ID, fg_enabled = True, fg_scheduler = SingleFirstEnabled,
      fg_thresholds = GroupThresholds_default, fg_next = DirectAuditOutlet\<rparr>"

definition default_member :: "NodeId \<Rightarrow> GroupId \<Rightarrow> GroupMember" where
  "default_member node_id group_id =
     \<lparr>gm_group_id = group_id, gm_node_id = node_id, gm_enabled = True, gm_priority = 0\<rparr>"

definition DIRECT_AUDIT_OUTLET :: string where "DIRECT_AUDIT_OUTLET = ''direct''"

definition NextRef_named :: "string \<Rightarrow> NextRef" where
  "NextRef_named value = (if value = DIRECT_AUDIT_OUTLET then DirectAuditOutlet else Named value)"

fun NextRef_label :: "NextRef \<Rightarrow> string" where
  "NextRef_label DirectAuditOutlet = DIRECT_AUDIT_OUTLET"
| "NextRef_label (Named value) = value"

fun SelectionTerminal_kind :: "SelectionTerminal \<Rightarrow> string" where
  "SelectionTerminal_kind TerminalDirect = ''direct''"
| "SelectionTerminal_kind (TerminalNode _) = ''node''"

fun SelectionTerminal_label :: "SelectionTerminal \<Rightarrow> string" where
  "SelectionTerminal_label TerminalDirect = DIRECT_AUDIT_OUTLET"
| "SelectionTerminal_label (TerminalNode node_id) = node_id"

definition SelectionTraceHop_label :: "SelectionTraceHop \<Rightarrow> string" where
  "SelectionTraceHop_label hop =
     th_group_id hop @ '':'' @ th_node_id hop @ ''->'' @ NextRef_label (th_next hop)"

definition default_parallel :: DnsRacePolicy where
  "default_parallel = \<lparr>dp_timeout_ms = 2000, dp_strategy = Parallel\<rparr>"

definition default_dns_upstreams :: "DnsUpstream list" where
  "default_dns_upstreams =
     [\<lparr>du_id = ''cloudflare'', du_address = mk_sockaddr (V4 (v4_from_octets [1, 1, 1, 1])) 53,
       du_transport = Udp, du_enabled = True, du_priority = 0\<rparr>,
      \<lparr>du_id = ''google'', du_address = mk_sockaddr (V4 (v4_from_octets [8, 8, 8, 8])) 53,
       du_transport = Udp, du_enabled = True, du_priority = 1\<rparr>]"

definition RuntimeSeed_single_node :: "string \<Rightarrow> RuntimeSeed" where
  "RuntimeSeed_single_node tag =
     (let node = ForwardNode_new DEFAULT_NODE_ID tag True;
          grp = default_group;
          member = default_member (fn_id node) (fg_id grp)
      in \<lparr>rs_ipv6_enabled = False, rs_nodes = [node], rs_default_group_id = fg_id grp,
          rs_groups = [grp], rs_group_members = [member], rs_route_rules = [],
          rs_dns_upstreams = default_dns_upstreams, rs_dns_policy = default_parallel\<rparr>)"

definition fixed_upstream :: "SocketAddr \<Rightarrow> TargetContext" where
  "fixed_upstream address =
     \<lparr>tc_address = address, tc_domain = None, tc_source = FixedUpstream\<rparr>"

definition external_context :: "SocketAddr \<Rightarrow> string option \<Rightarrow> TargetContext" where
  "external_context address domain =
     \<lparr>tc_address = address, tc_domain = domain, tc_source = ExternalContext\<rparr>"

definition dynet_dns :: "SocketAddr \<Rightarrow> string \<Rightarrow> TargetContext" where
  "dynet_dns address domain =
     \<lparr>tc_address = address, tc_domain = Some domain, tc_source = ObservedDns\<rparr>"

section \<open>Selection errors\<close>

record SelectionError =
  se_message :: string
  se_code :: string
  se_matched_rule_id :: "RuleId option"

definition SelectionError_new :: "string \<Rightarrow> SelectionError" where
  "SelectionError_new message =
     \<lparr>se_message = message, se_code = ''selection-error'', se_matched_rule_id = None\<rparr>"

definition ipv6_disabled :: SelectionError where
  "ipv6_disabled =
     \<lparr>se_message = ''IPv6 target rejected because dynet IPv6 participation is disabled'',
      se_code = ''ipv6-disabled'', se_matched_rule_id = None\<rparr>"

definition ipv6_denied :: "RuleId option \<Rightarrow> SelectionError" where
  "ipv6_denied rule_id =
     \<lparr>se_message = ''IPv6 target rejected by forwarding rule '' @
        (case rule_id of None \<Rightarrow> ''<default>'' | Some r \<Rightarrow> r),
      se_code = ''ipv6-policy-deny'', se_matched_rule_id = rule_id\<rparr>"

section \<open>Route matchers\<close>

fun RouteMatcher_matches :: "RouteMatcher \<Rightarrow> TargetContext \<Rightarrow> bool" where
  "RouteMatcher_matches (DomainExact domain) target =
     (case tc_domain target of
        None \<Rightarrow> False | Some target_domain \<Rightarrow> eq_ignore_ascii_case target_domain domain)"
| "RouteMatcher_matches (DomainSuffix sfx) target =
     (case tc_domain target of
        None \<Rightarrow> False
      | Some domain \<Rightarrow>
          eq_ignore_ascii_case domain sfx \<or>
          suffix (''.'' @ to_ascii_lowercase sfx) (to_ascii_lowercase domain))"
| "RouteMatcher_matches (IpExact address) target = (sa_ip (tc_address target) = address)"
| "RouteMatcher_matches (IpCidr cidr) target = ip_matches_cidr (sa_ip (tc_address target)) cidr"

section \<open>Observed DNS answers\<close>

type_synonym ObservedDnsMap = "(string, IpAddr list) btree"

definition ObservedDnsMap_record :: "string \<Rightarrow> IpAddr list \<Rightarrow> ObservedDnsMap \<Rightarrow> ObservedDnsMap" where
  "ObservedDnsMap_record domain answers m =
     (if answers = [] then m else bt_insert (to_ascii_lowercase domain) answers m)"

definition domain_for_ip :: "ObservedDnsMap \<Rightarrow> IpAddr \<Rightarrow> string option" where
  "domain_for_ip m address = map_option fst (find (\<lambda>(_, answers). address \<in> set answers) m)"

section \<open>What the matchers decide\<close>

text \<open>Matching ignores the ASCII case of the pattern.\<close>

lemma RouteMatcher_matches_lower:
  "RouteMatcher_matches (DomainExact (to_ascii_lowercase d)) t = RouteMatcher_matches (DomainExact d) t"
  "RouteMatcher_matches (DomainSuffix (to_ascii_lowercase d)) t = RouteMatcher_matches (DomainSuffix d) t"
  by (simp_all split: option.splits)

text \<open>A suffix rule matches a domain exactly when the rule's labels are its last labels.\<close>

lemma suffix_dot_iff_labels:
  fixes s d :: string
  shows "(d = s \<or> suffix (CHR ''.'' # s) d) \<longleftrightarrow>
    suffix (split_on CHR ''.'' s) (split_on CHR ''.'' d)"
  (is "?L \<longleftrightarrow> ?R")
proof
  assume ?L
  then show ?R
  proof
    assume "suffix (CHR ''.'' # s) d"
    then obtain p where d: "d = p @ CHR ''.'' # s" by (auto simp: suffix_def)
    have "split_on CHR ''.'' (p @ CHR ''.'' # s) = split_on CHR ''.'' p @ split_on CHR ''.'' s"
    proof (induction p)
      case Nil
      then show ?case by simp
    next
      case (Cons c p)
      then show ?case by (cases "split_on CHR ''.'' p") auto
    qed
    then show ?R by (simp add: d suffix_def)
  qed simp
next
  assume ?R
  then obtain ps where ps: "split_on CHR ''.'' d = ps @ split_on CHR ''.'' s"
    by (auto simp: suffix_def)
  have join_app: "qs \<noteq> [] \<Longrightarrow> rs \<noteq> [] \<Longrightarrow>
      join_with ''.'' (qs @ rs) = join_with ''.'' qs @ ''.'' @ join_with ''.'' rs" for qs rs
  proof (induction qs rule: induct_list012)
    case (2 q)
    then show ?case by (cases rs) auto
  qed auto
  have "d = join_with ''.'' (ps @ split_on CHR ''.'' s)"
    using join_split_on [of "CHR ''.''" d] by (simp add: ps)
  then show ?L
    using join_app [of ps "split_on CHR ''.'' s"] join_split_on [of "CHR ''.''" s]
    by (cases "ps = []") (auto simp: suffix_def)
qed

lemma ObservedDnsMap_record_wf: "bt_wf m \<Longrightarrow> bt_wf (ObservedDnsMap_record d a m)"
  by (simp add: ObservedDnsMap_record_def bt_wf_insert)

lemma domain_for_ip_sound:
  assumes "bt_wf m" "domain_for_ip m a = Some d"
  shows "\<exists>answers. bt_get m d = Some answers \<and> a \<in> set answers"
proof -
  from assms(2) obtain ans where "find (\<lambda>(_, answers). a \<in> set answers) m = Some (d, ans)"
    by (auto simp: domain_for_ip_def)
  then have "(d, ans) \<in> set m" "a \<in> set ans"
    by (auto simp: find_Some_iff in_set_conv_nth dest: sym)
  with assms(1) show ?thesis by (auto simp: bt_get_Some_iff)
qed

lemma domain_for_ip_complete:
  "a \<in> set answers \<Longrightarrow> bt_get m d = Some answers \<Longrightarrow> domain_for_ip m a \<noteq> None"
  by (auto simp: domain_for_ip_def find_None_iff bt_get_def dest: map_of_SomeD)

end
