(* ===== verification/Forward_Stores.thy ===== *)
theory Forward_Stores
  imports Forward_Model
begin

text \<open>
  The stores of \<open>dynet-runtime/src/stores.rs\<close>: nodes, groups with their sorted members, route
  rules sorted by priority, and DNS upstreams, and the walk of the group graph that a selection
  performs. The read locks of the source protect one immutable value per configuration
  generation, so a store is that value. Error strings are the constructors of
  \<open>GroupError\<close>, rendered by \<open>GroupError_message\<close>.

  The walk's loop stops because every round either returns or marks a new declared group as
  seen; the lemmas describe the traces it returns and the errors it can end with, and that the
  rule store answers with the best enabled match.
\<close>

section \<open>Node store\<close>

record NodeStore =
  ns_default_node :: "NodeId option"
  ns_nodes :: "(NodeId, ForwardNode) btree"

definition NodeStore_single_node :: "ForwardNode \<Rightarrow> NodeStore" where
  "NodeStore_single_node node =
     \<lparr>ns_default_node = Some (fn_id node), ns_nodes = bt_insert (fn_id node) node []\<rparr>"

definition NodeStore_from_nodes :: "ForwardNode list \<Rightarrow> NodeStore" where
  "NodeStore_from_nodes nodes =
     \<lparr>ns_default_node =
        map_option fn_id
          (case find (\<lambda>node. fn_id node = DEFAULT_NODE_ID \<and> fn_enabled node) nodes of
             Some node \<Rightarrow> Some node
           | None \<Rightarrow> find fn_enabled nodes),
      ns_nodes = bt_collect (map (\<lambda>node. (fn_id node, node)) nodes)\<rparr>"

definition default_node_id :: "NodeStore \<Rightarrow> NodeId option" where
  "default_node_id store =
     (case ns_default_node store of
        None \<Rightarrow> None
      | Some node_id \<Rightarrow>
          (case bt_get (ns_nodes store) node_id of
             None \<Rightarrow> None
           | Some node \<Rightarrow> if fn_enabled node then Some node_id else None))"

definition is_enabled :: "NodeStore \<Rightarrow> NodeId \<Rightarrow> bool" where
  "is_enabled store node_id =
     (case bt_get (ns_nodes store) node_id of None \<Rightarrow> False | Some node \<Rightarrow> fn_enabled node)"

definition is_eligible :: "NodeStore \<Rightarrow> NodeId \<Rightarrow> IpFamily \<Rightarrow> bool" where
  "is_eligible store node_id family =
     (case bt_get (ns_nodes store) node_id of
        None \<Rightarrow> False
      | Some node \<Rightarrow> fn_enabled node \<and> (family = Ipv4 \<or> fn_supports_ipv6 node))"

definition enabled_node_id :: "NodeStore \<Rightarrow> string \<Rightarrow> NodeId option" where
  "enabled_node_id store nid =
     (case bt_get (ns_nodes store) nid of
        None \<Rightarrow> None
      | Some node \<Rightarrow> if fn_enabled node then Some (fn_id node) else None)"

definition NodeStore_snapshot :: "NodeStore \<Rightarrow> ForwardNode list" where
  "NodeStore_snapshot store = bt_values (ns_nodes store)"

definition fingerprints_by_id :: "NodeStore \<Rightarrow> (string, string) btree" where
  "fingerprints_by_id store =
     bt_collect (map (\<lambda>node. (fn_id node, fn_fingerprint node)) (bt_values (ns_nodes store)))"

section \<open>Group store\<close>

record GroupStore =
  gs_default_group :: "GroupId option"
  gs_groups :: "(GroupId, ForwardGroup) btree"
  gs_members :: "(GroupId, GroupMember list) btree"

definition member_cmp :: "GroupMember \<Rightarrow> GroupMember \<Rightarrow> ordering" where
  "member_cmp left right =
     then_with (cmp (gm_priority left) (gm_priority right)) (cmp (gm_node_id left) (gm_node_id right))"

definition group_members_by_id :: "GroupMember list \<Rightarrow> (GroupId, GroupMember list) btree" where
  "group_members_by_id members =
     fold (\<lambda>member m. bt_upsert (gm_group_id member) [] (\<lambda>ms. ms @ [member]) m) members []"

definition GroupStore_from_parts ::
    "GroupId \<Rightarrow> ForwardGroup list \<Rightarrow> GroupMember list \<Rightarrow> GroupStore" where
  "GroupStore_from_parts dflt groups members =
     (let gmap = bt_collect (map (\<lambda>grp. (fg_id grp, grp)) groups);
          enabled = (case bt_get gmap dflt of None \<Rightarrow> False | Some grp \<Rightarrow> fg_enabled grp)
      in \<lparr>gs_default_group =
            (if enabled then Some dflt
             else map_option fg_id (find fg_enabled (bt_values gmap))),
          gs_groups = gmap,
          gs_members = map (\<lambda>(g, ms). (g, sort_by member_cmp ms)) (group_members_by_id members)\<rparr>)"

definition default_group_id :: "GroupStore \<Rightarrow> GroupId option" where
  "default_group_id store = gs_default_group store"

definition GroupStore_snapshot :: "GroupStore \<Rightarrow> ForwardGroup list" where
  "GroupStore_snapshot store = bt_values (gs_groups store)"

definition member_snapshot :: "GroupStore \<Rightarrow> GroupMember list" where
  "member_snapshot store = concat (bt_values (gs_members store))"

record GroupCandidateSet =
  cs_group_id :: GroupId
  cs_scheduler :: SchedulerPolicy
  cs_thresholds :: GroupThresholds
  cs_candidates :: "MatrixCandidateInput list"

record GroupSelection =
  sel_trace :: "SelectionTraceHop list"
  sel_terminal :: SelectionTerminal
  sel_scheduler :: SchedulerPolicy
  sel_candidate_count :: nat

datatype GroupError =
    GroupMissing GroupId
  | GroupDisabled GroupId
  | GroupNoMembers GroupId
  | GroupNoCapable GroupId IpFamily
  | GroupCycle GroupId

fun GroupError_message :: "GroupError \<Rightarrow> string" where
  "GroupError_message (GroupMissing g) = ''forwarding group '' @ g @ '' is missing''"
| "GroupError_message (GroupDisabled g) = ''forwarding group '' @ g @ '' is disabled''"
| "GroupError_message (GroupNoMembers g) = ''forwarding group '' @ g @ '' has no enabled node''"
| "GroupError_message (GroupNoCapable g f) =
     ''forwarding group '' @ g @ '' has no '' @ IpFamily_as_str f @ ''-capable enabled node''"
| "GroupError_message (GroupCycle g) = ''group next cycle includes '' @ g"

definition candidate_input :: "GroupMember \<Rightarrow> MatrixCandidateInput" where
  "candidate_input member = \<lparr>mc_node_id = gm_node_id member, mc_priority = gm_priority member\<rparr>"

definition eligible_members :: "NodeStore \<Rightarrow> IpFamily \<Rightarrow> GroupMember list \<Rightarrow> GroupMember list" where
  "eligible_members nodes family members =
     filter (\<lambda>member. gm_enabled member \<and> is_eligible nodes (gm_node_id member) family) members"

definition enabled_candidates ::
    "GroupStore \<Rightarrow> GroupId \<Rightarrow> NodeStore \<Rightarrow> IpFamily \<Rightarrow> GroupError + MatrixCandidateInput list" where
  "enabled_candidates store group_id nodes family =
     (case bt_get (gs_groups store) group_id of
        None \<Rightarrow> Err (GroupMissing group_id)
      | Some grp \<Rightarrow>
          if \<not> fg_enabled grp then Err (GroupDisabled group_id)
          else (case bt_get (gs_members store) group_id of
             None \<Rightarrow> Err (GroupNoMembers group_id)
           | Some members \<Rightarrow> Ok (map candidate_input (eligible_members nodes family members))))"

definition select_group_hop ::
    "GroupStore \<Rightarrow> GroupId \<Rightarrow> NodeStore \<Rightarrow> IpFamily \<Rightarrow> (GroupCandidateSet \<Rightarrow> NodeId option) \<Rightarrow>
     GroupError + SelectionTraceHop" where
  "select_group_hop store group_id nodes family select_node =
     (case bt_get (gs_groups store) group_id of
        None \<Rightarrow> Err (GroupMissing group_id)
      | Some grp \<Rightarrow>
          if \<not> fg_enabled grp then Err (GroupDisabled group_id)
          else (case bt_get (gs_members store) group_id of
             None \<Rightarrow> Err (GroupNoMembers group_id)
           | Some members \<Rightarrow>
               (let candidates = eligible_members nodes family members in
                case candidates of
                  [] \<Rightarrow> Err (GroupNoCapable group_id family)
                | first # _ \<Rightarrow>
                    (let answer = select_node
                           \<lparr>cs_group_id = fg_id grp, cs_scheduler = fg_scheduler grp,
                            cs_thresholds = fg_thresholds grp,
                            cs_candidates = map candidate_input candidates\<rparr>;
                         selected_node =
                           (case answer of
                              None \<Rightarrow> gm_node_id first
                            | Some selected \<Rightarrow>
                                if \<exists>member\<in>set candidates. gm_node_id member = selected
                                then selected else gm_node_id first)
                     in Ok \<lparr>th_group_id = fg_id grp, th_node_id = selected_node,
                            th_next = fg_next grp, th_scheduler = fg_scheduler grp,
                            th_candidate_count = length candidates\<rparr>))))"

definition finish_selection :: "SelectionTraceHop list \<Rightarrow> SelectionTerminal \<Rightarrow> GroupSelection" where
  "finish_selection trace terminal =
     \<lparr>sel_trace = trace, sel_terminal = terminal,
      sel_scheduler = th_scheduler (hd trace),
      sel_candidate_count = th_candidate_count (hd trace)\<rparr>"

text \<open>The loop of \<open>select_graph_with\<close>: \<open>seen\<close> are the groups visited, \<open>trace\<close> the hops.\<close>

lemma select_group_hop_declared:
  "select_group_hop store g nodes family sel = Inr hop \<Longrightarrow> g \<in> fst ` set (gs_groups store)"
  by (cases "bt_get (gs_groups store) g")
    (auto simp: select_group_hop_def bt_get_def image_iff dest: map_of_SomeD intro!: bexI)

function select_graph_loop ::
    "GroupStore \<Rightarrow> NodeStore \<Rightarrow> IpFamily \<Rightarrow> (GroupCandidateSet \<Rightarrow> NodeId option) \<Rightarrow>
     GroupId \<Rightarrow> GroupId list \<Rightarrow> SelectionTraceHop list \<Rightarrow> GroupError + GroupSelection" where
  "select_graph_loop store nodes family sel current seen trace =
     (if current \<in> set seen then Err (GroupCycle current)
      else (case select_group_hop store current nodes family sel of
          Inl e \<Rightarrow> Err e
        | Inr hop \<Rightarrow>
            (let trace' = trace @ [hop] in
             case th_next hop of
               DirectAuditOutlet \<Rightarrow> Ok (finish_selection trace' TerminalDirect)
             | Named name \<Rightarrow>
                 (case enabled_node_id nodes name of
                    Some node_id \<Rightarrow> Ok (finish_selection trace' (TerminalNode node_id))
                  | None \<Rightarrow> select_graph_loop store nodes family sel name (current # seen) trace'))))"
  by pat_completeness auto
termination
proof (relation "measure (\<lambda>(store, nodes, family, sel, current, seen, trace).
    card (fst ` set (gs_groups store) - set seen))", goal_cases)
  case 1
  then show ?case by simp
next
  case (2 store nodes family sel current seen trace hop trace' name)
  have "current \<in> fst ` set (gs_groups store)"
    using 2 by (auto dest: select_group_hop_declared)
  moreover have "current \<notin> set seen" using 2 by simp
  ultimately have "fst ` set (gs_groups store) - set (current # seen) \<subset>
      fst ` set (gs_groups store) - set seen"
    by auto
  then show ?case by (simp add: psubset_card_mono)
qed

declare select_graph_loop.simps [simp del]

lemma select_graph_loop_hop:
  "cur \<notin> set seen \<Longrightarrow> select_group_hop store cur nodes family sel = Inr hop \<Longrightarrow>
   select_graph_loop store nodes family sel cur seen tr =
     (case th_next hop of
        DirectAuditOutlet \<Rightarrow> Ok (finish_selection (tr @ [hop]) TerminalDirect)
      | Named name \<Rightarrow>
          (case enabled_node_id nodes name of
             Some node_id \<Rightarrow> Ok (finish_selection (tr @ [hop]) (TerminalNode node_id))
           | None \<Rightarrow> select_graph_loop store nodes family sel name (cur # seen) (tr @ [hop])))"
  by (simp add: select_graph_loop.simps [of store nodes family sel cur] Let_def)

definition select_graph_with ::
    "GroupStore \<Rightarrow> GroupId \<Rightarrow> NodeStore \<Rightarrow> IpFamily \<Rightarrow> (GroupCandidateSet \<Rightarrow> NodeId option) \<Rightarrow>
     GroupError + GroupSelection" where
  "select_graph_with store group_id nodes family select_node =
     select_graph_loop store nodes family select_node group_id [] []"

section \<open>Route rule store\<close>

record RouteMatch =
  rm_group_id :: "GroupId option"
  rm_rule_id :: "RuleId option"
  rm_ipv6 :: Ipv6RulePolicy

definition rule_cmp :: "RouteRule \<Rightarrow> RouteRule \<Rightarrow> ordering" where
  "rule_cmp left right =
     then_with (cmp (rr_priority right) (rr_priority left)) (cmp (rr_id left) (rr_id right))"

type_synonym RouteRuleStore = "RouteRule list"

definition RouteRuleStore_from_rules :: "RouteRule list \<Rightarrow> RouteRuleStore" where
  "RouteRuleStore_from_rules rules = sort_by rule_cmp rules"

definition match_group :: "RouteRuleStore \<Rightarrow> TargetContext \<Rightarrow> RouteMatch" where
  "match_group rules target =
     (case find (\<lambda>rule. RouteMatcher_matches (rr_matcher rule) target) (filter rr_enabled rules) of
        Some rule \<Rightarrow>
          \<lparr>rm_group_id = Some (rr_group_id rule), rm_rule_id = Some (rr_id rule),
           rm_ipv6 = rr_ipv6 rule\<rparr>
      | None \<Rightarrow> \<lparr>rm_group_id = None, rm_rule_id = None, rm_ipv6 = Inherit\<rparr>)"

definition RouteRuleStore_snapshot :: "RouteRuleStore \<Rightarrow> RouteRule list" where
  "RouteRuleStore_snapshot rules = rules"

section \<open>DNS upstream store\<close>

type_synonym DnsUpstreamStore = "(DnsUpstreamId, DnsUpstream) btree"

definition DnsUpstreamStore_from_upstreams :: "DnsUpstream list \<Rightarrow> DnsUpstreamStore" where
  "DnsUpstreamStore_from_upstreams upstreams =
     bt_collect (map (\<lambda>upstream. (du_id upstream, upstream)) upstreams)"

definition DnsUpstreamStore_snapshot :: "DnsUpstreamStore \<Rightarrow> DnsUpstream list" where
  "DnsUpstreamStore_snapshot store = bt_values store"

section \<open>Paths of the group graph\<close>

text \<open>
  The specification of a walk: a finite path of hops that follows each group's \<open>next\<close>
  reference until it names the direct outlet or an enabled node. It knows nothing of the set of
  visited groups that the loop keeps.
\<close>

inductive graph_path ::
    "GroupStore \<Rightarrow> NodeStore \<Rightarrow> IpFamily \<Rightarrow> (GroupCandidateSet \<Rightarrow> NodeId option) \<Rightarrow>
     GroupId \<Rightarrow> (GroupId \<times> SelectionTraceHop) list \<Rightarrow> SelectionTerminal \<Rightarrow> bool"
  for store nodes family sel where
  path_direct:
    "select_group_hop store g nodes family sel = Inr hop \<Longrightarrow> th_next hop = DirectAuditOutlet \<Longrightarrow>
     graph_path store nodes family sel g [(g, hop)] TerminalDirect"
| path_node:
    "select_group_hop store g nodes family sel = Inr hop \<Longrightarrow> th_next hop = Named name \<Longrightarrow>
     enabled_node_id nodes name = Some nid \<Longrightarrow>
     graph_path store nodes family sel g [(g, hop)] (TerminalNode nid)"
| path_group:
    "select_group_hop store g nodes family sel = Inr hop \<Longrightarrow> th_next hop = Named name \<Longrightarrow>
     enabled_node_id nodes name = None \<Longrightarrow> graph_path store nodes family sel name p t \<Longrightarrow>
     graph_path store nodes family sel g ((g, hop) # p) t"

inductive_cases graph_path_elim [res_elims]: "graph_path store nodes family sel g p t"

lemma graph_path_det:
  "graph_path store nodes family sel g p t \<Longrightarrow> graph_path store nodes family sel g p' t' \<Longrightarrow>
   p' = p \<and> t' = t"
proof (induction arbitrary: p' t' rule: graph_path.induct)
  case (path_group g hop name p t)
  from path_group.prems path_group.hyps obtain q where
    "p' = (g, hop) # q" "graph_path store nodes family sel name q t'"
    by (cases rule: graph_path_elim) auto
  with path_group.IH show ?case by auto
qed (auto elim: graph_path_elim)

lemma graph_path_tail:
  "graph_path store nodes family sel g p t \<Longrightarrow> k \<in> fst ` set p \<Longrightarrow>
   \<exists>q. graph_path store nodes family sel k q t \<and> length q \<le> length p"
proof (induction rule: graph_path.induct)
  case (path_group g hop name p t)
  show ?case
  proof (cases "k = g")
    case True
    with path_group.hyps show ?thesis
      by (intro exI [of _ "(g, hop) # p"]) (auto intro: graph_path.path_group)
  next
    case False
    with path_group show ?thesis by (auto intro: le_SucI)
  qed
qed (auto intro: graph_path.intros)

text \<open>A path cannot come back to a group: it would have to contain itself.\<close>

lemma graph_path_distinct:
  "graph_path store nodes family sel g p t \<Longrightarrow> distinct (map fst p)"
proof (induction rule: graph_path.induct)
  case (path_group g hop name p t)
  have "g \<notin> fst ` set p"
  proof
    assume "g \<in> fst ` set p"
    then obtain q where q: "graph_path store nodes family sel g q t" "length q \<le> length p"
      using path_group.hyps graph_path_tail by blast
    have "graph_path store nodes family sel g ((g, hop) # p) t"
      using path_group.hyps by (auto intro: graph_path.path_group)
    from graph_path_det [OF this q(1)] q(2) show False by simp
  qed
  with path_group.IH show ?case by simp
qed auto

lemma select_graph_loop_sound:
  "select_graph_loop store nodes family sel cur seen tr = Inr s \<Longrightarrow>
   \<exists>p t. graph_path store nodes family sel cur p t \<and> s = finish_selection (tr @ map snd p) t"
proof (induction store nodes family sel cur seen tr rule: select_graph_loop.induct)
  case (1 store nodes family sel cur seen tr)
  from 1(2) obtain hop where nin: "cur \<notin> set seen"
    and hop: "select_group_hop store cur nodes family sel = Inr hop"
    by (auto simp: select_graph_loop.simps [of store nodes family sel cur] split: if_splits sum.splits)
  show ?case
  proof (cases "th_next hop")
    case DirectAuditOutlet
    with 1(2) nin hop show ?thesis
      by (auto simp: select_graph_loop.simps [of store nodes family sel cur]
          intro!: exI [of _ "[(cur, hop)]"] dest: path_direct)
  next
    case (Named name)
    show ?thesis
    proof (cases "enabled_node_id nodes name")
      case None
      with 1(2) nin hop Named
      have "select_graph_loop store nodes family sel name (cur # seen) (tr @ [hop]) = Inr s"
        by (simp add: select_graph_loop.simps [of store nodes family sel cur])
      from 1(1) [OF nin hop refl Named None this] obtain p t where
        "graph_path store nodes family sel name p t" "s = finish_selection (tr @ hop # map snd p) t"
        by auto
      with hop Named None show ?thesis
        by (intro exI [of _ "(cur, hop) # p"] exI [of _ t]) (auto intro: path_group)
    next
      case (Some nid)
      with 1(2) nin hop Named have "s = finish_selection (tr @ [hop]) (TerminalNode nid)"
        by (simp add: select_graph_loop.simps [of store nodes family sel cur])
      with hop Named Some show ?thesis
        by (intro exI [of _ "[(cur, hop)]"] exI [of _ "TerminalNode nid"]) (auto intro: path_node)
    qed
  qed
qed

lemma select_graph_loop_complete:
  "graph_path store nodes family sel cur p t \<Longrightarrow> distinct (map fst p) \<Longrightarrow>
   fst ` set p \<inter> set seen = {} \<Longrightarrow>
   select_graph_loop store nodes family sel cur seen tr = Inr (finish_selection (tr @ map snd p) t)"
proof (induction arbitrary: seen tr rule: graph_path.induct)
  case (path_group g hop name p t)
  then show ?case
    by (simp add: select_graph_loop.simps [of store nodes family sel g])
qed (simp_all add: select_graph_loop.simps)

lemmas select_graph_path = select_graph_loop_sound [of _ _ _ _ _ "[]" "[]", simplified]

text \<open>Every group on the path was admitted by a hop, so a path is no longer than the store.\<close>

lemma graph_path_declared:
  "graph_path store nodes family sel g p t \<Longrightarrow> fst ` set p \<subseteq> fst ` set (gs_groups store)"
  by (induction rule: graph_path.induct) (auto simp: select_group_hop_declared)

lemma graph_path_length:
  assumes "graph_path store nodes family sel g p t"
  shows "length p \<le> length (gs_groups store)"
proof -
  have "length p = card (fst ` set p)"
    using graph_path_distinct [OF assms] by (metis distinct_card length_map set_map)
  also have "\<dots> \<le> card (fst ` set (gs_groups store))"
    by (rule card_mono) (use graph_path_declared [OF assms] in auto)
  also have "\<dots> \<le> length (gs_groups store)"
    by (metis card_length length_map set_map)
  finally show ?thesis .
qed

section \<open>Stores built from parts\<close>

interpretation member_rank: total_ranking member_cmp
proof -
  show "total_ranking member_cmp"
    using total_ranking_lex [of gm_priority gm_node_id] by (simp add: member_cmp_def [abs_def])
qed

interpretation rule_rank: total_ranking rule_cmp
proof -
  show "total_ranking rule_cmp"
    using total_ranking_lex_desc [of rr_priority rr_id] by (simp add: rule_cmp_def [abs_def])
qed

lemma bt_wf_group_members: "bt_wf (group_members_by_id members)"
proof -
  have "bt_wf m \<Longrightarrow>
      bt_wf (fold (\<lambda>member m. bt_upsert (gm_group_id member) [] (\<lambda>ms. ms @ [member]) m) members m)"
    for m
    by (induction members arbitrary: m) (auto simp: bt_wf_upsert)
  then show ?thesis by (simp add: group_members_by_id_def)
qed

lemma group_members_by_id_get:
  "bt_get (group_members_by_id members) g =
     (let ms = filter (\<lambda>m. gm_group_id m = g) members in if ms = [] then None else Some ms)"
proof -
  have "bt_get (fold (\<lambda>member m. bt_upsert (gm_group_id member) [] (\<lambda>ms. ms @ [member]) m) members m) g =
      (let ms = filter (\<lambda>m. gm_group_id m = g) members in
       if ms = [] then bt_get m g
       else Some ((case bt_get m g of None \<Rightarrow> [] | Some v \<Rightarrow> v) @ ms))" for m
    by (induction members arbitrary: m) (auto simp: Let_def)
  from this [of "[]"] show ?thesis
    by (simp add: group_members_by_id_def bt.get_empty Let_def)
qed

lemma bt_get_map_values:
  "bt_get (map (\<lambda>(k, v). (k, f v)) m) k = map_option f (bt_get m k)"
  by (induction m) (auto simp: bt_get_def)

lemma from_parts_members:
  "bt_get (gs_members (GroupStore_from_parts d groups members)) g =
     (let ms = filter (\<lambda>m. gm_group_id m = g) members
      in if ms = [] then None else Some (sort_by member_cmp ms))"
  by (simp add: GroupStore_from_parts_def Let_def bt_get_map_values group_members_by_id_get)

lemma from_parts_group:
  assumes "bt_get (gs_groups (GroupStore_from_parts d groups members)) g = Some grp"
  shows "grp \<in> set groups" "fg_id grp = g"
  using bt_get_collect_Some [of "map (\<lambda>grp. (fg_id grp, grp)) groups" g grp] assms
  by (auto simp: GroupStore_from_parts_def Let_def)

lemma from_parts_group_declared:
  "bt_get (gs_groups (GroupStore_from_parts d groups members)) g = None \<longleftrightarrow> g \<notin> fg_id ` set groups"
  by (simp add: GroupStore_from_parts_def Let_def bt_get_collect map_of_eq_None_iff image_image)

text \<open>What an admitted hop says of the configuration.\<close>

lemma select_group_hop_cases:
  assumes "select_group_hop store g nodes family sel = Inr hop"
  obtains grp members m where
    "bt_get (gs_groups store) g = Some grp" "fg_enabled grp"
    "bt_get (gs_members store) g = Some members" "m \<in> set (eligible_members nodes family members)"
    "th_group_id hop = fg_id grp" "th_node_id hop = gm_node_id m" "th_next hop = fg_next grp"
    "th_candidate_count hop = length (eligible_members nodes family members)"
proof -
  from assms obtain grp where grp: "bt_get (gs_groups store) g = Some grp" "fg_enabled grp"
    by (auto simp: select_group_hop_def split: option.splits if_splits)
  with assms obtain members where members: "bt_get (gs_members store) g = Some members"
    by (auto simp: select_group_hop_def split: option.splits)
  with assms grp obtain first rest where
    cands: "eligible_members nodes family members = first # rest"
    by (auto simp: select_group_hop_def Let_def split: list.splits)
  define choice where "choice = sel \<lparr>cs_group_id = fg_id grp, cs_scheduler = fg_scheduler grp,
    cs_thresholds = fg_thresholds grp, cs_candidates = map candidate_input (first # rest)\<rparr>"
  define node where "node = (case choice of None \<Rightarrow> gm_node_id first
    | Some selected \<Rightarrow> if \<exists>member\<in>set (first # rest). gm_node_id member = selected
        then selected else gm_node_id first)"
  have hop: "hop = \<lparr>th_group_id = fg_id grp, th_node_id = node, th_next = fg_next grp,
    th_scheduler = fg_scheduler grp, th_candidate_count = length (first # rest)\<rparr>"
    using assms grp members cands by (simp add: select_group_hop_def Let_def node_def choice_def)
  have "\<exists>m\<in>set (first # rest). gm_node_id m = node"
    by (auto simp: node_def split: option.splits)
  then obtain m where "m \<in> set (first # rest)" "gm_node_id m = node" by blast
  then show ?thesis
    by (intro that [of grp members m]) (use grp members cands hop in simp_all)
qed

lemma finish_selection_trace [simp]:
  "sel_trace (finish_selection tr t) = tr" "sel_terminal (finish_selection tr t) = t"
  by (simp_all add: finish_selection_def)

lemma graph_path_hops:
  "graph_path store nodes family sel g p t \<Longrightarrow> (k, hop) \<in> set p \<Longrightarrow>
   select_group_hop store k nodes family sel = Inr hop"
  by (induction rule: graph_path.induct) auto

lemma graph_path_start: "graph_path store nodes family sel g p t \<Longrightarrow> p \<noteq> [] \<and> fst (hd p) = g"
  by (erule graph_path_elim) auto

lemma from_parts_hop:
  assumes "select_group_hop (GroupStore_from_parts d groups members) g nodes family sel = Inr hop"
  shows "th_group_id hop = g \<and>
    (\<exists>grp\<in>set groups. fg_id grp = g \<and> fg_enabled grp \<and> th_next hop = fg_next grp) \<and>
    (\<exists>m\<in>set members. gm_group_id m = g \<and> gm_node_id m = th_node_id hop \<and> gm_enabled m \<and>
       is_eligible nodes (gm_node_id m) family)"
  using assms
proof (cases rule: select_group_hop_cases)
  case (1 grp ms m)
  then show ?thesis
    using from_parts_group [OF 1(1)]
    by (auto simp: from_parts_members eligible_members_def Let_def split: if_splits)
qed

section \<open>Properties\<close>

text \<open>
  C17. The loop of \<open>select_graph_with\<close> implements the path specification: it answers with a
  selection exactly when a finite path leads from the group to the direct outlet or to an enabled
  node, and the trace it returns is that path. So the guard on visited groups rejects no
  configuration that has a route, and the walk always ends.
\<close>

theorem select_graph_with_iff_path:
  "select_graph_with store g nodes family sel = Inr s \<longleftrightarrow>
   (\<exists>p t. graph_path store nodes family sel g p t \<and> s = finish_selection (map snd p) t)"
proof
  assume "select_graph_with store g nodes family sel = Inr s"
  then show "\<exists>p t. graph_path store nodes family sel g p t \<and> s = finish_selection (map snd p) t"
    unfolding select_graph_with_def by (rule select_graph_path)
next
  assume "\<exists>p t. graph_path store nodes family sel g p t \<and> s = finish_selection (map snd p) t"
  then show "select_graph_with store g nodes family sel = Inr s"
    using select_graph_loop_complete [of store nodes family sel g _ _ "[]" "[]"] graph_path_distinct
    by (fastforce simp: select_graph_with_def)
qed

text \<open>
  Over a store built from a configuration, every hop of a returned trace is a declared and
  enabled group together with one of its enabled members whose node can carry the target's
  address family; the trace starts at the requested group, visits no group twice and is no longer
  than the number of groups.
\<close>

theorem select_graph_trace_sound:
  assumes "select_graph_with (GroupStore_from_parts d groups members) g nodes family sel = Inr s"
  shows "sel_trace s \<noteq> [] \<and> th_group_id (hd (sel_trace s)) = g \<and>
    distinct (map th_group_id (sel_trace s)) \<and> length (sel_trace s) \<le> length groups \<and>
    (\<forall>hop\<in>set (sel_trace s).
       (\<exists>grp\<in>set groups. fg_id grp = th_group_id hop \<and> fg_enabled grp \<and> th_next hop = fg_next grp) \<and>
       (\<exists>m\<in>set members. gm_group_id m = th_group_id hop \<and> gm_node_id m = th_node_id hop \<and>
          gm_enabled m \<and> is_eligible nodes (th_node_id hop) family))"
proof -
  let ?store = "GroupStore_from_parts d groups members"
  from assms obtain p t where p: "graph_path ?store nodes family sel g p t"
    and s: "s = finish_selection (map snd p) t"
    unfolding select_graph_with_def using select_graph_path by blast
  note hop = from_parts_hop [OF graph_path_hops [OF p]]
  have ids: "map th_group_id (map snd p) = map fst p"
    using hop by auto
  have "distinct (map th_group_id (map snd p))"
    unfolding ids by (rule graph_path_distinct [OF p])
  moreover have "length p \<le> length groups"
    using graph_path_length [OF p] length_bt_collect [of "map (\<lambda>grp. (fg_id grp, grp)) groups"]
    by (simp add: GroupStore_from_parts_def Let_def)
  moreover have "th_group_id (hd (map snd p)) = g"
    using ids graph_path_start [OF p] by (metis (no_types) list.map_sel(1) map_is_Nil_conv)
  moreover have "(\<exists>grp\<in>set groups. fg_id grp = th_group_id h \<and> fg_enabled grp \<and> th_next h = fg_next grp) \<and>
      (\<exists>m\<in>set members. gm_group_id m = th_group_id h \<and> gm_node_id m = th_node_id h \<and>
         gm_enabled m \<and> is_eligible nodes (th_node_id h) family)"
    if "h \<in> set (map snd p)" for h
  proof -
    from that obtain k where "(k, h) \<in> set p" by auto
    from hop [OF this] show ?thesis by auto
  qed
  ultimately show ?thesis
    using graph_path_start [OF p] by (simp add: s)
qed

definition sample_nodes :: NodeStore where
  "sample_nodes = NodeStore_from_nodes
     [ForwardNode_new ''a'' ''a'' True, with_capabilities (ForwardNode_new ''b'' ''b'' True) False]"

definition sample_groups :: "ForwardGroup list" where
  "sample_groups = [default_group\<lparr>fg_next := Named ''tail''\<rparr>, default_group\<lparr>fg_id := ''tail''\<rparr>]"

definition sample_members :: "GroupMember list" where
  "sample_members = [default_member ''b'' ''default'', default_member ''a'' ''default'',
     default_member ''a'' ''tail'']"

theorem select_graph_trace_sound_witness:
  "let s = projr (select_graph_with (GroupStore_from_parts ''default'' sample_groups sample_members)
      ''default'' sample_nodes Ipv6 (\<lambda>_. Some ''b''))
   in map th_node_id (sel_trace s) = [''a'', ''a''] \<and> distinct (map th_group_id (sel_trace s))"
proof -
  let ?r = "select_graph_with (GroupStore_from_parts ''default'' sample_groups sample_members)
      ''default'' sample_nodes Ipv6 (\<lambda>_. Some ''b'')"
  have r: "?r = Inr (projr ?r)" "map th_node_id (sel_trace (projr ?r)) = [''a'', ''a'']"
    by code_simp+
  from select_graph_trace_sound [OF r(1)] r(2) show ?thesis by (simp add: Let_def)
qed

text \<open>
  The route rule store answers with the best rule: when no enabled rule matches the target the
  answer is empty; otherwise it is an enabled matching rule of the configuration such that every
  other enabled matching rule has a lower priority, or the same priority and an id that is not
  smaller.
\<close>

theorem match_group_best:
  "(match_group (RouteRuleStore_from_rules rules) target =
      \<lparr>rm_group_id = None, rm_rule_id = None, rm_ipv6 = Inherit\<rparr> \<and>
    (\<forall>r\<in>set rules. rr_enabled r \<longrightarrow> \<not> RouteMatcher_matches (rr_matcher r) target)) \<or>
   (\<exists>r\<in>set rules. rr_enabled r \<and> RouteMatcher_matches (rr_matcher r) target \<and>
      match_group (RouteRuleStore_from_rules rules) target =
        \<lparr>rm_group_id = Some (rr_group_id r), rm_rule_id = Some (rr_id r), rm_ipv6 = rr_ipv6 r\<rparr> \<and>
      (\<forall>r'\<in>set rules. rr_enabled r' \<and> RouteMatcher_matches (rr_matcher r') target \<longrightarrow>
         rr_priority r' < rr_priority r \<or> rr_priority r' = rr_priority r \<and> rr_id r \<le> rr_id r'))"
proof -
  let ?P = "\<lambda>r. rr_enabled r \<and> RouteMatcher_matches (rr_matcher r) target"
  have m: "match_group (RouteRuleStore_from_rules rules) target =
    (case find ?P (sort_by rule_cmp rules) of
       Some rule \<Rightarrow> \<lparr>rm_group_id = Some (rr_group_id rule), rm_rule_id = Some (rr_id rule),
         rm_ipv6 = rr_ipv6 rule\<rparr>
     | None \<Rightarrow> \<lparr>rm_group_id = None, rm_rule_id = None, rm_ipv6 = Inherit\<rparr>)"
    by (simp add: match_group_def RouteRuleStore_from_rules_def find_filter)
  show ?thesis
  proof (cases "find ?P (sort_by rule_cmp rules)")
    case None
    then have "\<forall>r\<in>set rules. rr_enabled r \<longrightarrow> \<not> RouteMatcher_matches (rr_matcher r) target"
      by (auto simp: find_None_iff)
    then show ?thesis unfolding m None by simp
  next
    case (Some r)
    then have r: "r \<in> set rules" "?P r"
      by (auto dest!: find_SomeD)
    have "rr_priority r' < rr_priority r \<or> rr_priority r' = rr_priority r \<and> rr_id r \<le> rr_id r'"
      if "r' \<in> set rules" "?P r'" for r'
      using rule_rank.find_sorted_least [OF Some that]
      by (auto simp: rule_cmp_def then_with_iffs)
    with r show ?thesis unfolding m Some by auto
  qed
qed

definition sample_rule :: "string \<Rightarrow> int \<Rightarrow> RouteRule" where
  "sample_rule rid priority = \<lparr>rr_id = rid, rr_priority = priority, rr_enabled = True,
     rr_matcher = DomainSuffix ''example.com'', rr_group_id = ''default'', rr_ipv6 = Deny\<rparr>"

theorem match_group_best_witness:
  "rm_rule_id (match_group (RouteRuleStore_from_rules
      [sample_rule ''b'' 5, sample_rule ''a'' 1, sample_rule ''c'' 5])
      (dynet_dns (mk_sockaddr (V4 1) 53) ''WWW.Example.com'')) = Some ''b''"
proof -
  have "RouteMatcher_matches (DomainSuffix ''example.com'')
      (dynet_dns (mk_sockaddr (V4 1) 53) ''WWW.Example.com'')"
    by code_simp
  then show ?thesis
    using match_group_best [of "[sample_rule ''b'' 5, sample_rule ''a'' 1, sample_rule ''c'' 5]"
        "dynet_dns (mk_sockaddr (V4 1) 53) ''WWW.Example.com''"]
    by (auto simp: sample_rule_def)
qed

end
