(* ===== verification/Seed_Validation.thy ===== *)
theory Seed_Validation
  imports Forward_Stores
begin

text \<open>
  The validation of a runtime seed before it becomes the active configuration,
  \<open>dynet-runtime/src/persistence/validation.rs\<close>. Every error message of the source is one
  constructor of \<open>SeedError\<close>. The walk that looks for cycles of \<open>next\<close> references stops
  because each round marks a new declared group.

  The lemmas show that validation accepts exactly the seeds of a declarative specification
  (unique names, closed references, an acyclic graph of groups), and that the graph walk over the
  stores of a validated seed meets neither a missing nor a disabled group nor a cycle.
\<close>

section \<open>Validation\<close>

datatype SeedError =
    NodeIdReserved
  | GroupIdReserved
  | ForwardingNameDuplicated string
  | RouteRuleIdDuplicated string
  | DnsUpstreamIdDuplicated string
  | NoNodes
  | DefaultGroupMissing string
  | DefaultGroupDisabled string
  | DefaultGroupNoMember string
  | MemberMissingGroup string
  | MemberMissingNode string
  | RuleMissingGroup string string
  | NextDisabledNode string string
  | NextDisabledGroup string string
  | NextUndeclared string string
  | NextCycle string
  | NoEnabledDnsUpstream
  | HttpsHostEmpty string
  | HttpsPathInvalid string
  | DnsRaceTimeoutZero

fun insert_names :: "SeedError \<Rightarrow> string list \<Rightarrow> string list \<Rightarrow> SeedError + string list" where
  "insert_names reserved [] names = Ok names"
| "insert_names reserved (nid # ids) names =
     (if nid = DIRECT_AUDIT_OUTLET then Err reserved
      else if nid \<in> set names then Err (ForwardingNameDuplicated nid)
      else insert_names reserved ids (nid # names))"

fun validate_unique :: "(string \<Rightarrow> SeedError) \<Rightarrow> string list \<Rightarrow> string list \<Rightarrow> SeedError + unit" where
  "validate_unique err [] seen = Ok ()"
| "validate_unique err (i # ids) seen =
     (if i \<in> set seen then Err (err i) else validate_unique err ids (i # seen))"

definition validate_unique_rule_ids :: "RouteRule list \<Rightarrow> SeedError + unit" where
  "validate_unique_rule_ids route_rules =
     validate_unique RouteRuleIdDuplicated (map rr_id route_rules) []"

definition validate_unique_dns_ids :: "DnsUpstream list \<Rightarrow> SeedError + unit" where
  "validate_unique_dns_ids dns_upstreams =
     validate_unique DnsUpstreamIdDuplicated (map du_id dns_upstreams) []"

definition validate_unique_ids ::
    "ForwardNode list \<Rightarrow> ForwardGroup list \<Rightarrow> RouteRule list \<Rightarrow> DnsUpstream list \<Rightarrow> SeedError + unit" where
  "validate_unique_ids nodes groups route_rules dns_upstreams =
     and_then (insert_names NodeIdReserved (map fn_id nodes) []) (\<lambda>names.
     and_then (insert_names GroupIdReserved (map fg_id groups) names) (\<lambda>_.
     and_then (validate_unique_rule_ids route_rules) (\<lambda>_.
     validate_unique_dns_ids dns_upstreams)))"

definition validate_dns_upstream :: "DnsUpstream \<Rightarrow> SeedError + unit" where
  "validate_dns_upstream upstream =
     (case du_transport upstream of
        Udp \<Rightarrow> Ok ()
      | Https endpoint \<Rightarrow>
          if trim (he_host endpoint) = [] then Err (HttpsHostEmpty (du_id upstream))
          else if \<not> prefix ''/'' (he_path endpoint) then Err (HttpsPathInvalid (du_id upstream))
          else Ok ())"

definition validate_dns_upstreams :: "DnsUpstream list \<Rightarrow> SeedError + unit" where
  "validate_dns_upstreams dns_upstreams = try_for_each validate_dns_upstream dns_upstreams"

definition validate_group_next_reference ::
    "ForwardNode list \<Rightarrow> ForwardGroup list \<Rightarrow> ForwardGroup \<Rightarrow> SeedError + unit" where
  "validate_group_next_reference nodes groups grp =
     (let nxt = NextRef_label (fg_next grp) in
      if nxt = DIRECT_AUDIT_OUTLET then Ok ()
      else (case find (\<lambda>node. fn_id node = nxt) nodes of
          Some node \<Rightarrow> if fn_enabled node then Ok () else Err (NextDisabledNode (fg_id grp) nxt)
        | None \<Rightarrow>
            (case find (\<lambda>candidate. fg_id candidate = nxt) groups of
               Some referenced_group \<Rightarrow>
                 if fg_enabled referenced_group then Ok ()
                 else Err (NextDisabledGroup (fg_id grp) nxt)
             | None \<Rightarrow> Err (NextUndeclared (fg_id grp) nxt))))"

function next_cycle_loop ::
    "ForwardNode list \<Rightarrow> ForwardGroup list \<Rightarrow> string \<Rightarrow> string list \<Rightarrow> SeedError + unit" where
  "next_cycle_loop nodes groups current seen =
     (if current \<in> set seen then Err (NextCycle current)
      else (case find (\<lambda>candidate. fg_id candidate = current) groups of
          None \<Rightarrow> Ok ()
        | Some grp \<Rightarrow>
            (let nxt = NextRef_label (fg_next grp) in
             if nxt = DIRECT_AUDIT_OUTLET then Ok ()
             else if \<exists>node\<in>set nodes. fn_id node = nxt then Ok ()
             else next_cycle_loop nodes groups nxt (current # seen))))"
  by pat_completeness auto
termination
proof (relation "measure (\<lambda>(nodes, groups, current, seen). card (fg_id ` set groups - set seen))",
    goal_cases)
  case 1
  then show ?case by simp
next
  case (2 nodes groups current seen grp nxt)
  then have "current \<in> fg_id ` set groups" "current \<notin> set seen"
    by (auto dest: find_SomeD)
  then have "fg_id ` set groups - set (current # seen) \<subset> fg_id ` set groups - set seen" by auto
  then show ?case by (simp add: psubset_card_mono)
qed

declare next_cycle_loop.simps [simp del]

definition validate_group_next_cycle ::
    "ForwardNode list \<Rightarrow> ForwardGroup list \<Rightarrow> string \<Rightarrow> SeedError + unit" where
  "validate_group_next_cycle nodes groups start = next_cycle_loop nodes groups start []"

definition validate_group_next_refs :: "ForwardNode list \<Rightarrow> ForwardGroup list \<Rightarrow> SeedError + unit" where
  "validate_group_next_refs nodes groups =
     and_then (try_for_each (validate_group_next_reference nodes groups) groups) (\<lambda>_.
     try_for_each (\<lambda>grp. validate_group_next_cycle nodes groups (fg_id grp)) groups)"

definition validate_member_reference ::
    "ForwardNode list \<Rightarrow> ForwardGroup list \<Rightarrow> GroupMember \<Rightarrow> SeedError + unit" where
  "validate_member_reference nodes groups member =
     (if \<not> (\<exists>grp\<in>set groups. fg_id grp = gm_group_id member) then
        Err (MemberMissingGroup (gm_group_id member))
      else if \<not> (\<exists>node\<in>set nodes. fn_id node = gm_node_id member) then
        Err (MemberMissingNode (gm_node_id member))
      else Ok ())"

definition validate_rule_reference :: "ForwardGroup list \<Rightarrow> RouteRule \<Rightarrow> SeedError + unit" where
  "validate_rule_reference groups rule =
     (if \<not> (\<exists>grp\<in>set groups. fg_id grp = rr_group_id rule) then
        Err (RuleMissingGroup (rr_id rule) (rr_group_id rule))
      else Ok ())"

definition validate_references ::
    "ForwardNode list \<Rightarrow> ForwardGroup list \<Rightarrow> GroupMember list \<Rightarrow> RouteRule list \<Rightarrow> SeedError + unit" where
  "validate_references nodes groups group_members route_rules =
     and_then (try_for_each (validate_member_reference nodes groups) group_members) (\<lambda>_.
     and_then (try_for_each (validate_rule_reference groups) route_rules) (\<lambda>_.
     validate_group_next_refs nodes groups))"

definition validate_default_group ::
    "GroupId \<Rightarrow> ForwardGroup list \<Rightarrow> GroupMember list \<Rightarrow> SeedError + unit" where
  "validate_default_group dflt groups group_members =
     (case find (\<lambda>grp. fg_id grp = dflt) groups of
        None \<Rightarrow> Err (DefaultGroupMissing dflt)
      | Some grp \<Rightarrow>
          if \<not> fg_enabled grp then Err (DefaultGroupDisabled dflt)
          else if \<not> (\<exists>member\<in>set group_members. gm_group_id member = dflt \<and> gm_enabled member) then
            Err (DefaultGroupNoMember dflt)
          else Ok ())"

definition validate_bootstrap ::
    "ForwardNode list \<Rightarrow> GroupId \<Rightarrow> ForwardGroup list \<Rightarrow> GroupMember list \<Rightarrow> RouteRule list \<Rightarrow>
     DnsUpstream list \<Rightarrow> DnsRacePolicy \<Rightarrow> SeedError + unit" where
  "validate_bootstrap nodes dflt groups group_members route_rules dns_upstreams dns_policy =
     and_then (validate_unique_ids nodes groups route_rules dns_upstreams) (\<lambda>_.
     if nodes = [] then Err NoNodes
     else and_then (validate_default_group dflt groups group_members) (\<lambda>_.
     and_then (validate_references nodes groups group_members route_rules) (\<lambda>_.
     if \<not> (\<exists>upstream\<in>set dns_upstreams. du_enabled upstream) then Err NoEnabledDnsUpstream
     else and_then (validate_dns_upstreams dns_upstreams) (\<lambda>_.
     if dp_timeout_ms dns_policy = 0 then Err DnsRaceTimeoutZero
     else Ok ()))))"

definition validate_seed :: "RuntimeSeed \<Rightarrow> SeedError + unit" where
  "validate_seed seed =
     validate_bootstrap (rs_nodes seed) (rs_default_group_id seed) (rs_groups seed)
       (rs_group_members seed) (rs_route_rules seed) (rs_dns_upstreams seed) (rs_dns_policy seed)"

section \<open>Specification\<close>

text \<open>The edges of the group graph: a group's next reference that is neither the direct outlet nor
  a node.\<close>

definition next_edges :: "ForwardNode list \<Rightarrow> ForwardGroup list \<Rightarrow> (string \<times> string) set" where
  "next_edges nodes groups =
     {(a, b). \<exists>grp. find (\<lambda>g. fg_id g = a) groups = Some grp \<and> NextRef_label (fg_next grp) = b \<and>
        b \<noteq> DIRECT_AUDIT_OUTLET \<and> \<not> (\<exists>node\<in>set nodes. fn_id node = b)}"

definition next_declared :: "ForwardNode list \<Rightarrow> ForwardGroup list \<Rightarrow> ForwardGroup \<Rightarrow> bool" where
  "next_declared nodes groups grp \<longleftrightarrow>
     (let nxt = NextRef_label (fg_next grp) in
      nxt = DIRECT_AUDIT_OUTLET \<or> (\<exists>node\<in>set nodes. fn_id node = nxt \<and> fn_enabled node) \<or>
      (\<exists>g\<in>set groups. fg_id g = nxt \<and> fg_enabled g))"

definition https_ok :: "DnsUpstream \<Rightarrow> bool" where
  "https_ok upstream \<longleftrightarrow>
     (\<forall>e. du_transport upstream = Https e \<longrightarrow> trim (he_host e) \<noteq> [] \<and> prefix ''/'' (he_path e))"

definition seed_names_ok :: "RuntimeSeed \<Rightarrow> bool" where
  "seed_names_ok seed \<longleftrightarrow>
     distinct (map fn_id (rs_nodes seed) @ map fg_id (rs_groups seed)) \<and>
     DIRECT_AUDIT_OUTLET \<notin> set (map fn_id (rs_nodes seed) @ map fg_id (rs_groups seed)) \<and>
     distinct (map rr_id (rs_route_rules seed)) \<and> distinct (map du_id (rs_dns_upstreams seed))"

definition seed_refs_ok :: "RuntimeSeed \<Rightarrow> bool" where
  "seed_refs_ok seed \<longleftrightarrow>
     (\<forall>m\<in>set (rs_group_members seed).
        gm_group_id m \<in> fg_id ` set (rs_groups seed) \<and> gm_node_id m \<in> fn_id ` set (rs_nodes seed)) \<and>
     (\<forall>r\<in>set (rs_route_rules seed). rr_group_id r \<in> fg_id ` set (rs_groups seed)) \<and>
     (\<forall>grp\<in>set (rs_groups seed). next_declared (rs_nodes seed) (rs_groups seed) grp) \<and>
     acyclic (next_edges (rs_nodes seed) (rs_groups seed))"

definition seed_ok :: "RuntimeSeed \<Rightarrow> bool" where
  "seed_ok seed \<longleftrightarrow>
     seed_names_ok seed \<and> seed_refs_ok seed \<and> rs_nodes seed \<noteq> [] \<and>
     (\<exists>grp\<in>set (rs_groups seed). fg_id grp = rs_default_group_id seed \<and> fg_enabled grp) \<and>
     (\<exists>m\<in>set (rs_group_members seed). gm_group_id m = rs_default_group_id seed \<and> gm_enabled m) \<and>
     (\<exists>u\<in>set (rs_dns_upstreams seed). du_enabled u) \<and>
     (\<forall>u\<in>set (rs_dns_upstreams seed). https_ok u) \<and> 0 < dp_timeout_ms (rs_dns_policy seed)"

section \<open>Names\<close>

lemma insert_names_Ok_iff:
  "insert_names e ids names = Inr out \<longleftrightarrow>
     DIRECT_AUDIT_OUTLET \<notin> set ids \<and> distinct ids \<and> set ids \<inter> set names = {} \<and> out = rev ids @ names"
  by (induction e ids names rule: insert_names.induct) auto

lemma validate_unique_Ok_iff:
  "validate_unique err ids seen = Inr u \<longleftrightarrow> distinct ids \<and> set ids \<inter> set seen = {}"
  by (induction err ids seen rule: validate_unique.induct) auto

lemma validate_unique_ids_Ok_iff:
  "validate_unique_ids (rs_nodes s) (rs_groups s) (rs_route_rules s) (rs_dns_upstreams s) = Inr u \<longleftrightarrow>
   seed_names_ok s"
  by (auto simp: validate_unique_ids_def validate_unique_rule_ids_def validate_unique_dns_ids_def
      insert_names_Ok_iff validate_unique_Ok_iff seed_names_ok_def and_then_Ok_iff)

section \<open>References and cycles\<close>

lemma find_unique:
  "distinct (map f xs) \<Longrightarrow> x \<in> set xs \<Longrightarrow> find (\<lambda>y. f y = f x) xs = Some x"
  by (induction xs) auto

lemma find_key_None: "find (\<lambda>y. f y = k) xs = None \<longleftrightarrow> k \<notin> f ` set xs"
  by (auto simp: find_None_iff)

lemma in_image_iff: "k \<in> f ` A \<longleftrightarrow> (\<exists>x\<in>A. f x = k)"
  by auto

lemma find_key_Some_iff:
  "distinct (map f xs) \<Longrightarrow> find (\<lambda>y. f y = k) xs = Some x \<longleftrightarrow> x \<in> set xs \<and> f x = k"
  using find_unique [of f xs x] find_SomeD [of "\<lambda>y. f y = k" xs x] by auto

lemma ex_key_iff:
  "distinct (map f xs) \<Longrightarrow> find (\<lambda>y. f y = k) xs = Some x \<Longrightarrow>
   (\<exists>y\<in>set xs. f y = k \<and> P y) \<longleftrightarrow> P x"
  using find_key_Some_iff [of f xs k] by (metis option.inject)

lemma ex_key_None: "find (\<lambda>y. f y = k) xs = None \<Longrightarrow> \<not> (\<exists>y\<in>set xs. f y = k \<and> P y)"
  by (auto simp: find_key_None)

lemma next_reference_Ok_iff:
  assumes "distinct (map fn_id nodes @ map fg_id groups)"
  shows "validate_group_next_reference nodes groups grp = Inr u \<longleftrightarrow> next_declared nodes groups grp"
proof -
  let ?nxt = "NextRef_label (fg_next grp)"
  have dn: "distinct (map fn_id nodes)" "distinct (map fg_id groups)"
    and disj: "fn_id ` set nodes \<inter> fg_id ` set groups = {}"
    using assms by auto
  show ?thesis
  proof (cases "find (\<lambda>node. fn_id node = ?nxt) nodes")
    case None
    show ?thesis
      by (cases "find (\<lambda>c. fg_id c = ?nxt) groups")
        (simp_all add: validate_group_next_reference_def next_declared_def Let_def None
          ex_key_None ex_key_iff [OF dn(2)])
  next
    case (Some n)
    then have "?nxt \<notin> fg_id ` set groups" using disj dn(1) by (auto simp: find_key_Some_iff)
    then have "\<not> (\<exists>g\<in>set groups. fg_id g = ?nxt \<and> fg_enabled g)"
      by (metis imageI)
    with Some show ?thesis
      by (simp add: validate_group_next_reference_def next_declared_def Let_def ex_key_iff [OF dn(1)])
  qed
qed

lemma next_cycle_loop_seen: "cur \<in> set seen \<Longrightarrow> next_cycle_loop ns gs cur seen = Inl (NextCycle cur)"
  by (simp add: next_cycle_loop.simps)

lemma next_cycle_loop_edge:
  "cur \<notin> set seen \<Longrightarrow> (cur, b) \<in> next_edges ns gs \<Longrightarrow>
   next_cycle_loop ns gs cur seen = next_cycle_loop ns gs b (cur # seen)"
  by (subst next_cycle_loop.simps) (auto simp: next_edges_def Let_def)

lemma next_cycle_loop_stop:
  "cur \<notin> set seen \<Longrightarrow> \<forall>b. (cur, b) \<notin> next_edges ns gs \<Longrightarrow> next_cycle_loop ns gs cur seen = Inr ()"
  by (subst next_cycle_loop.simps)
    (auto simp: next_edges_def Let_def split: option.splits)

lemma next_edges_det: "(a, b) \<in> next_edges ns gs \<Longrightarrow> (a, c) \<in> next_edges ns gs \<Longrightarrow> b = c"
  by (auto simp: next_edges_def)

lemma next_edges_declared: "(a, b) \<in> next_edges ns gs \<Longrightarrow> a \<in> fg_id ` set gs"
  by (auto simp: next_edges_def dest: find_SomeD)

text \<open>A walk that ends started on no cycle, and without cycles every walk ends.\<close>

lemma next_cycle_loop_off_cycle:
  "next_cycle_loop ns gs cur seen = Inr u \<Longrightarrow> (cur, cur) \<notin> (next_edges ns gs)\<^sup>+"
proof (induction ns gs cur seen rule: next_cycle_loop.induct)
  case (1 ns gs cur seen)
  have cur: "cur \<notin> set seen" using 1(2) next_cycle_loop_seen by fastforce
  show ?case
  proof
    assume cyc: "(cur, cur) \<in> (next_edges ns gs)\<^sup>+"
    then obtain b where b: "(cur, b) \<in> next_edges ns gs" "(b, cur) \<in> (next_edges ns gs)\<^sup>*"
      by (metis tranclD)
    have "next_cycle_loop ns gs b (cur # seen) = Inr u"
      using 1(2) next_cycle_loop_edge [OF cur b(1)] by simp
    moreover have "(b, b) \<in> (next_edges ns gs)\<^sup>+" using b by (meson rtrancl_into_trancl1)
    moreover obtain grp where "find (\<lambda>g. fg_id g = cur) gs = Some grp" "NextRef_label (fg_next grp) = b"
      "b \<noteq> DIRECT_AUDIT_OUTLET" "\<not> (\<exists>node\<in>set ns. fn_id node = b)"
      using b(1) by (auto simp: next_edges_def)
    ultimately show False using 1(1) [OF cur] by blast
  qed
qed

lemma next_cycle_loop_acyclic:
  "acyclic (next_edges ns gs) \<Longrightarrow> \<forall>s\<in>set seen. (s, cur) \<in> (next_edges ns gs)\<^sup>+ \<Longrightarrow>
   next_cycle_loop ns gs cur seen = Inr ()"
proof (induction ns gs cur seen rule: next_cycle_loop.induct)
  case (1 ns gs cur seen)
  have cur: "cur \<notin> set seen" using 1(2,3) by (auto simp: acyclic_def)
  show ?case
  proof (cases "\<exists>b. (cur, b) \<in> next_edges ns gs")
    case True
    then obtain b where b: "(cur, b) \<in> next_edges ns gs" by blast
    then have "\<forall>s\<in>set (cur # seen). (s, b) \<in> (next_edges ns gs)\<^sup>+"
      using 1(3) by (auto intro: trancl_into_trancl)
    moreover obtain grp where "find (\<lambda>g. fg_id g = cur) gs = Some grp" "NextRef_label (fg_next grp) = b"
      "b \<noteq> DIRECT_AUDIT_OUTLET" "\<not> (\<exists>node\<in>set ns. fn_id node = b)"
      using b by (auto simp: next_edges_def)
    ultimately have "next_cycle_loop ns gs b (cur # seen) = Inr ()"
      using 1(1) [OF cur] 1(2) by blast
    then show ?thesis using next_cycle_loop_edge [OF cur b] by simp
  next
    case False
    then show ?thesis using next_cycle_loop_stop [OF cur] by blast
  qed
qed

lemma next_cycle_check_iff:
  "(\<forall>grp\<in>set gs. validate_group_next_cycle ns gs (fg_id grp) = Inr ()) \<longleftrightarrow> acyclic (next_edges ns gs)"
proof
  assume ok: "\<forall>grp\<in>set gs. validate_group_next_cycle ns gs (fg_id grp) = Inr ()"
  have "(x, x) \<notin> (next_edges ns gs)\<^sup>+" for x
  proof
    assume cyc: "(x, x) \<in> (next_edges ns gs)\<^sup>+"
    then obtain b where "(x, b) \<in> next_edges ns gs" by (meson tranclD)
    then obtain grp where "grp \<in> set gs" "fg_id grp = x" using next_edges_declared by blast
    with ok have "next_cycle_loop ns gs x [] = Inr ()" by (auto simp: validate_group_next_cycle_def)
    with cyc show False using next_cycle_loop_off_cycle by blast
  qed
  then show "acyclic (next_edges ns gs)" by (simp add: acyclic_def)
qed (simp add: validate_group_next_cycle_def next_cycle_loop_acyclic)

section \<open>Accepted seeds\<close>

lemma validate_default_group_Ok_iff:
  "distinct (map fg_id groups) \<Longrightarrow>
   validate_default_group dflt groups members = Inr u \<longleftrightarrow>
     (\<exists>grp\<in>set groups. fg_id grp = dflt \<and> fg_enabled grp) \<and>
     (\<exists>m\<in>set members. gm_group_id m = dflt \<and> gm_enabled m)"
  by (cases "find (\<lambda>grp. fg_id grp = dflt) groups")
    (simp_all add: validate_default_group_def ex_key_None ex_key_iff)

lemma validate_dns_upstream_Ok_iff: "validate_dns_upstream upstream = Inr u \<longleftrightarrow> https_ok upstream"
  by (auto simp: validate_dns_upstream_def https_ok_def split: DnsUpstreamTransport.splits)

lemma validate_references_Ok_iff:
  assumes "seed_names_ok s"
  shows "validate_references (rs_nodes s) (rs_groups s) (rs_group_members s) (rs_route_rules s) = Inr u \<longleftrightarrow>
    seed_refs_ok s"
proof -
  have "distinct (map fn_id (rs_nodes s) @ map fg_id (rs_groups s))"
    using assms by (simp add: seed_names_ok_def)
  note next_ref = next_reference_Ok_iff [OF this]
  have member: "validate_member_reference (rs_nodes s) (rs_groups s) m = Inr () \<longleftrightarrow>
      gm_group_id m \<in> fg_id ` set (rs_groups s) \<and> gm_node_id m \<in> fn_id ` set (rs_nodes s)" for m
    by (simp add: validate_member_reference_def in_image_iff conj_commute)
  have rule: "validate_rule_reference (rs_groups s) r = Inr () \<longleftrightarrow>
      rr_group_id r \<in> fg_id ` set (rs_groups s)" for r
    by (simp add: validate_rule_reference_def in_image_iff)
  show ?thesis
    by (simp add: validate_references_def validate_group_next_refs_def try_for_each_Ok_iff next_ref
        member rule next_cycle_check_iff seed_refs_ok_def)
qed

lemma validated_parts:
  assumes "validate_seed seed = Inr u"
  obtains a b where
    "validate_unique_ids (rs_nodes seed) (rs_groups seed) (rs_route_rules seed)
       (rs_dns_upstreams seed) = Inr a"
    "validate_references (rs_nodes seed) (rs_groups seed) (rs_group_members seed)
       (rs_route_rules seed) = Inr b"
  using assms that by (auto simp: validate_seed_def validate_bootstrap_def split: if_splits)

lemma validated_names: "validate_seed seed = Inr u \<Longrightarrow> seed_names_ok seed"
  by (erule validated_parts) (simp only: validate_unique_ids_Ok_iff)

lemma validated_refs:
  assumes "validate_seed seed = Inr u"
  shows "seed_refs_ok seed"
  using assms
  by (rule validated_parts) (simp only: validate_references_Ok_iff [OF validated_names [OF assms]])

text \<open>
  C25. Validation accepts exactly the seeds of the specification: node and group names are unique
  in one name space that reserves \<open>direct\<close>, rule and DNS upstream ids are unique, there is a
  node, the default group is enabled with an enabled member, every member, rule and next reference
  is declared (and the next one enabled), the next references have no cycle, some DNS upstream is
  enabled, HTTPS endpoints are complete and the race timeout is positive.
\<close>

theorem validate_seed_iff: "validate_seed seed = Inr () \<longleftrightarrow> seed_ok seed"
proof (cases "seed_names_ok seed")
  case False
  then show ?thesis using validated_names by (auto simp: seed_ok_def)
next
  case True
  then have d: "distinct (map fg_id (rs_groups seed))" by (simp add: seed_names_ok_def)
  have u: "\<exists>u. validate_unique_ids (rs_nodes seed) (rs_groups seed) (rs_route_rules seed)
      (rs_dns_upstreams seed) = Inr u"
    using True by (auto simp: validate_unique_ids_Ok_iff)
  show ?thesis
    using True u
    by (auto simp: validate_seed_def validate_bootstrap_def seed_ok_def validate_references_Ok_iff [OF True]
        validate_default_group_Ok_iff [OF d] validate_dns_upstreams_def try_for_each_Ok_iff
        validate_dns_upstream_Ok_iff)
qed

section \<open>The graph walk over a validated seed\<close>

definition seed_nodes :: "RuntimeSeed \<Rightarrow> NodeStore" where
  "seed_nodes seed = NodeStore_from_nodes (rs_nodes seed)"

definition seed_groups :: "RuntimeSeed \<Rightarrow> GroupStore" where
  "seed_groups seed =
     GroupStore_from_parts (rs_default_group_id seed) (rs_groups seed) (rs_group_members seed)"

lemma seed_group_get:
  assumes "seed_names_ok seed" "grp \<in> set (rs_groups seed)"
  shows "bt_get (gs_groups (seed_groups seed)) (fg_id grp) = Some grp"
proof -
  have "distinct (map fst (map (\<lambda>g. (fg_id g, g)) (rs_groups seed)))"
    using assms(1) by (simp add: seed_names_ok_def comp_def)
  from bt_get_collect_distinct [OF this] assms(2) show ?thesis
    by (auto simp: seed_groups_def GroupStore_from_parts_def Let_def)
qed

lemma seed_node_enabled:
  assumes "seed_names_ok seed" "n \<in> set (rs_nodes seed)" "fn_enabled n"
  shows "enabled_node_id (seed_nodes seed) (fn_id n) = Some (fn_id n)"
proof -
  have "distinct (map fst (map (\<lambda>g. (fn_id g, g)) (rs_nodes seed)))"
    using assms(1) by (simp add: seed_names_ok_def comp_def)
  from bt_get_collect_distinct [OF this, of "fn_id n" n] assms(2,3) show ?thesis
    by (auto simp: seed_nodes_def enabled_node_id_def NodeStore_from_nodes_def)
qed

definition unserved :: "IpFamily \<Rightarrow> GroupError \<Rightarrow> bool" where
  "unserved family e \<longleftrightarrow> (\<exists>g. e = GroupNoMembers g \<or> e = GroupNoCapable g family)"

lemma select_group_hop_enabled_error:
  "bt_get (gs_groups store) g = Some grp \<Longrightarrow> fg_enabled grp \<Longrightarrow>
   select_group_hop store g nodes family sel = Inl e \<Longrightarrow> unserved family e"
  by (auto simp: select_group_hop_def unserved_def Let_def split: option.splits list.splits)

lemma seed_next_group:
  assumes ok: "seed_names_ok seed" "seed_refs_ok seed" and grp: "grp \<in> set (rs_groups seed)"
    and nxt: "fg_next grp = Named name" "name \<noteq> DIRECT_AUDIT_OUTLET"
    and none: "enabled_node_id (seed_nodes seed) name = None"
  shows "\<exists>g\<in>set (rs_groups seed). fg_id g = name \<and> fg_enabled g"
    and "(fg_id grp, name) \<in> next_edges (rs_nodes seed) (rs_groups seed)"
proof -
  have "next_declared (rs_nodes seed) (rs_groups seed) grp"
    using ok grp by (simp add: seed_refs_ok_def)
  then show ex: "\<exists>g\<in>set (rs_groups seed). fg_id g = name \<and> fg_enabled g"
    using nxt none seed_node_enabled [OF ok(1)] by (force simp: next_declared_def Let_def)
  have d: "distinct (map fg_id (rs_groups seed))" using ok by (simp add: seed_names_ok_def)
  have "\<not> (\<exists>node\<in>set (rs_nodes seed). fn_id node = name)"
    using ok(1) ex by (auto simp: seed_names_ok_def)
  with nxt grp d show "(fg_id grp, name) \<in> next_edges (rs_nodes seed) (rs_groups seed)"
    by (auto simp: next_edges_def find_unique)
qed

lemma select_graph_loop_seed:
  assumes ok: "seed_names_ok seed" "seed_refs_ok seed"
    and named: "\<forall>grp\<in>set (rs_groups seed). fg_next grp \<noteq> Named DIRECT_AUDIT_OUTLET"
  shows "\<exists>grp\<in>set (rs_groups seed). fg_id grp = cur \<and> fg_enabled grp \<Longrightarrow>
    \<forall>x\<in>set seen. (x, cur) \<in> (next_edges (rs_nodes seed) (rs_groups seed))\<^sup>+ \<Longrightarrow>
    select_graph_loop (seed_groups seed) (seed_nodes seed) family sel cur seen tr = Inl e \<Longrightarrow> unserved family e"
proof (induction "seed_groups seed" "seed_nodes seed" family sel cur seen tr
    rule: select_graph_loop.induct)
  case (1 family sel cur seen tr)
  let ?E = "next_edges (rs_nodes seed) (rs_groups seed)"
  have "acyclic ?E" using ok by (simp add: seed_refs_ok_def)
  then have cur: "cur \<notin> set seen" using 1(3) by (auto simp: acyclic_def)
  obtain grp where grp: "grp \<in> set (rs_groups seed)" "fg_id grp = cur" "fg_enabled grp"
    using 1(2) by blast
  note get = seed_group_get [OF ok(1) grp(1), unfolded grp(2)]
  show ?case
  proof (cases "select_group_hop (seed_groups seed) cur (seed_nodes seed) family sel")
    case (Inl e')
    with 1(4) cur have "e' = e" by (simp add: select_graph_loop.simps)
    with select_group_hop_enabled_error [OF get grp(3) Inl] show ?thesis by simp
  next
    case (Inr hop)
    then have "th_next hop = fg_next grp"
      using get by (auto elim!: select_group_hop_cases)
    then obtain name where name: "th_next hop = Named name" "fg_next grp = Named name"
      "enabled_node_id (seed_nodes seed) name = None"
      "select_graph_loop (seed_groups seed) (seed_nodes seed) family sel name (cur # seen) (tr @ [hop]) = Inl e"
      using 1(4) select_graph_loop_hop [OF cur Inr, of tr] by (simp split: option.splits NextRef.splits)
    have "name \<noteq> DIRECT_AUDIT_OUTLET" using named grp name by auto
    note step = seed_next_group [OF ok grp(1) name(2) this name(3)]
    have "\<forall>x\<in>set (cur # seen). (x, name) \<in> ?E\<^sup>+"
      using 1(3) step(2) grp(2) by (auto intro: trancl_into_trancl)
    from 1(1) [OF cur Inr refl name(1,3) step(1) this name(4)] show ?thesis .
  qed
qed

text \<open>
  C29. Over the stores of a validated seed whose next references were built by \<open>NextRef::named\<close>,
  a selection that starts at an enabled group fails at most because some group on the way has no
  member or no member that can carry the address family: it never meets a missing or a disabled
  group, nor a cycle.
\<close>

theorem validated_seed_walk:
  assumes "validate_seed seed = Inr ()"
    and "\<forall>grp\<in>set (rs_groups seed). \<exists>v. fg_next grp = NextRef_named v"
    and "grp \<in> set (rs_groups seed)" "fg_enabled grp"
    and "select_graph_with (seed_groups seed) (fg_id grp) (seed_nodes seed) family sel = Inl e"
  shows "\<exists>g. e = GroupNoMembers g \<or> e = GroupNoCapable g family"
proof -
  have "\<forall>grp\<in>set (rs_groups seed). fg_next grp \<noteq> Named DIRECT_AUDIT_OUTLET"
    using assms(2) by (metis NextRef.inject NextRef.simps(3) NextRef_named_def)
  from select_graph_loop_seed [OF validated_names [OF assms(1)] validated_refs [OF assms(1)] this,
      of "fg_id grp" "[]" family sel "[]" e] assms(3-5)
  show ?thesis by (auto simp: select_graph_with_def unserved_def)
qed

definition sample_seed :: RuntimeSeed where
  "sample_seed = (RuntimeSeed_single_node ''n'')\<lparr>
     rs_groups := [default_group\<lparr>fg_next := NextRef_named ''tail''\<rparr>, default_group\<lparr>fg_id := ''tail''\<rparr>]\<rparr>"

theorem validated_seed_walk_witness:
  "validate_seed sample_seed = Inr () \<and>
   (\<exists>g. projl (select_graph_with (seed_groups sample_seed) ''default'' (seed_nodes sample_seed)
      Ipv4 (\<lambda>_. None)) \<in> {GroupNoMembers g, GroupNoCapable g Ipv4})"
proof -
  let ?grp = "default_group\<lparr>fg_next := NextRef_named ''tail''\<rparr>"
  let ?r = "select_graph_with (seed_groups sample_seed) (fg_id ?grp) (seed_nodes sample_seed)
    Ipv4 (\<lambda>_. None)"
  have ok: "validate_seed sample_seed = Inr ()" by code_simp
  have nexts: "\<forall>grp\<in>set (rs_groups sample_seed). \<exists>v. fg_next grp = NextRef_named v"
  proof -
    have "fg_next default_group = NextRef_named DIRECT_AUDIT_OUTLET"
      by (simp add: default_group_def NextRef_named_def)
    then show ?thesis by (simp add: sample_seed_def) blast
  qed
  have r: "?r = Inl (projl ?r)" by code_simp
  have grp: "?grp \<in> set (rs_groups sample_seed)" "fg_enabled ?grp"
    by (simp_all add: sample_seed_def default_group_def)
  have gid: "fg_id ?grp = ''default''" by (simp add: default_group_def DEFAULT_GROUP_ID_def)
  from validated_seed_walk [OF ok nexts grp r]
  have "\<exists>g. projl ?r \<in> {GroupNoMembers g, GroupNoCapable g Ipv4}" by blast
  with ok show ?thesis unfolding gid by blast
qed

end
