(* ===== verification/Traffic_Sessions.thy ===== *)
theory Traffic_Sessions
  imports Forward_Model
begin

text \<open>
  Ingress events (\<open>dynet-runtime/src/event.rs\<close>, the data) and the store of traffic sessions
  they are folded into (\<open>dynet-runtime/src/traffic_session.rs\<close>). The store is a \<open>BTreeMap\<close> of
  at most \<open>TRAFFIC_SESSION_LIMIT\<close> sessions; a new session evicts the one observed longest ago.
  Millisecond clocks are \<open>u128\<close>, counters \<open>u64\<close> with wrapping addition.

  The lemmas show that the store stays keyed and bounded, what an event changes and what it
  leaves alone, which session is evicted, and that the key of a session determines its inbound,
  session id and decision id.
\<close>

section \<open>Events\<close>

datatype IngressEventKind =
    DnsQuery | DnsResponse | DnsError | TcpAccept | TcpClose | TcpError
  | UdpSessionStart | UdpDatagram | UdpSessionClose | UdpError

record IngressEvent =
  ev_id :: u64
  ev_observed_at_unix_ms :: u128
  ev_kind :: IngressEventKind
  ev_fields :: "(string, string) btree"

fun IngressEventKind_as_str :: "IngressEventKind \<Rightarrow> string" where
  "IngressEventKind_as_str DnsQuery = ''dns-query''"
| "IngressEventKind_as_str DnsResponse = ''dns-response''"
| "IngressEventKind_as_str DnsError = ''dns-error''"
| "IngressEventKind_as_str TcpAccept = ''tcp-accept''"
| "IngressEventKind_as_str TcpClose = ''tcp-close''"
| "IngressEventKind_as_str TcpError = ''tcp-error''"
| "IngressEventKind_as_str UdpSessionStart = ''udp-session-start''"
| "IngressEventKind_as_str UdpDatagram = ''udp-datagram''"
| "IngressEventKind_as_str UdpSessionClose = ''udp-session-close''"
| "IngressEventKind_as_str UdpError = ''udp-error''"

definition into_fields :: "(string \<times> string) list \<Rightarrow> (string, string) btree" where
  "into_fields pairs = bt_collect pairs"

section \<open>Sessions\<close>

definition TRAFFIC_SESSION_LIMIT :: nat where "TRAFFIC_SESSION_LIMIT = 1024"

record TrafficSession =
  ts_session_key :: string
  ts_session_id :: u64
  ts_decision_id :: "u64 option"
  ts_config_generation :: "u64 option"
  ts_inbound :: string
  ts_node_protocol :: "string option"
  ts_peer :: "string option"
  ts_target :: "string option"
  ts_target_ip :: "string option"
  ts_target_port :: "u16 option"
  ts_target_domain :: "string option"
  ts_target_source :: "string option"
  ts_upstream :: "string option"
  ts_selection_groups :: "string option"
  ts_selection_nodes :: "string option"
  ts_selection_trace :: "string option"
  ts_started_at_unix_ms :: u128
  ts_closed_at_unix_ms :: "u128 option"
  ts_duration_ms :: "u128 option"
  ts_close_reason :: "string option"
  ts_error_stage :: "string option"
  ts_error_code :: "string option"
  ts_error_class :: "string option"
  ts_error_side :: "string option"
  ts_error_phase :: "string option"
  ts_error_protocol_phase :: "string option"
  ts_error_score_impact :: "string option"
  ts_error :: "string option"
  ts_client_to_upstream_bytes :: u64
  ts_upstream_to_client_bytes :: u64
  ts_client_to_upstream_datagrams :: u64
  ts_upstream_to_client_datagrams :: u64
  ts_first_upstream_at_unix_ms :: "u128 option"
  ts_first_downstream_at_unix_ms :: "u128 option"
  ts_first_response_latency_ms :: "u128 option"
  ts_last_observed_at_unix_ms :: u128

record TrafficSessionUpdate =
  tu_session_key :: string
  tu_session_id :: u64
  tu_decision_id :: "u64 option"
  tu_config_generation :: "u64 option"
  tu_inbound :: string
  tu_observed_at_unix_ms :: u128
  tu_node_protocol :: "string option"
  tu_peer :: "string option"
  tu_target :: "string option"
  tu_target_ip :: "string option"
  tu_target_port :: "u16 option"
  tu_target_domain :: "string option"
  tu_target_source :: "string option"
  tu_upstream :: "string option"
  tu_selection_groups :: "string option"
  tu_selection_nodes :: "string option"
  tu_selection_trace :: "string option"
  tu_close_reason :: "string option"
  tu_error_stage :: "string option"
  tu_error_code :: "string option"
  tu_error_class :: "string option"
  tu_error_side :: "string option"
  tu_error_phase :: "string option"
  tu_error_protocol_phase :: "string option"
  tu_error_score_impact :: "string option"
  tu_error :: "string option"
  tu_client_to_upstream_bytes :: "u64 option"
  tu_upstream_to_client_bytes :: "u64 option"
  tu_client_to_upstream_datagram :: "u64 option"
  tu_upstream_to_client_datagram :: "u64 option"
  tu_closes_session :: bool

definition set_if_some :: "string option \<Rightarrow> string option \<Rightarrow> string option" where
  "set_if_some target value = (case value of None \<Rightarrow> target | Some _ \<Rightarrow> value)"

definition opt_or :: "'a option \<Rightarrow> 'a option \<Rightarrow> 'a option" where
  "opt_or a b = (case a of None \<Rightarrow> b | Some _ \<Rightarrow> a)"

definition TrafficSession_new :: "TrafficSessionUpdate \<Rightarrow> TrafficSession" where
  "TrafficSession_new update =
     \<lparr>ts_session_key = tu_session_key update,
      ts_session_id = tu_session_id update,
      ts_decision_id = tu_decision_id update,
      ts_config_generation = tu_config_generation update,
      ts_inbound = tu_inbound update,
      ts_node_protocol = None,
      ts_peer = None,
      ts_target = None,
      ts_target_ip = None,
      ts_target_port = None,
      ts_target_domain = None,
      ts_target_source = None,
      ts_upstream = None,
      ts_selection_groups = None,
      ts_selection_nodes = None,
      ts_selection_trace = None,
      ts_started_at_unix_ms = tu_observed_at_unix_ms update,
      ts_closed_at_unix_ms = None,
      ts_duration_ms = None,
      ts_close_reason = None,
      ts_error_stage = None,
      ts_error_code = None,
      ts_error_class = None,
      ts_error_side = None,
      ts_error_phase = None,
      ts_error_protocol_phase = None,
      ts_error_score_impact = None,
      ts_error = None,
      ts_client_to_upstream_bytes = 0,
      ts_upstream_to_client_bytes = 0,
      ts_client_to_upstream_datagrams = 0,
      ts_upstream_to_client_datagrams = 0,
      ts_first_upstream_at_unix_ms = None,
      ts_first_downstream_at_unix_ms = None,
      ts_first_response_latency_ms = None,
      ts_last_observed_at_unix_ms = tu_observed_at_unix_ms update\<rparr>"

text \<open>The update of one session, in the order of the source: the descriptive fields, the byte
  totals, the datagram counters, the response latency, the close marks and the observation time.\<close>

definition update_labels :: "TrafficSessionUpdate \<Rightarrow> TrafficSession \<Rightarrow> TrafficSession" where
  "update_labels u s = s\<lparr>
     ts_decision_id := opt_or (ts_decision_id s) (tu_decision_id u),
     ts_config_generation := opt_or (ts_config_generation s) (tu_config_generation u),
     ts_node_protocol := set_if_some (ts_node_protocol s) (tu_node_protocol u),
     ts_peer := set_if_some (ts_peer s) (tu_peer u),
     ts_target := set_if_some (ts_target s) (tu_target u),
     ts_target_ip := set_if_some (ts_target_ip s) (tu_target_ip u),
     ts_target_port := opt_or (ts_target_port s) (tu_target_port u),
     ts_target_domain := set_if_some (ts_target_domain s) (tu_target_domain u),
     ts_target_source := set_if_some (ts_target_source s) (tu_target_source u),
     ts_upstream := set_if_some (ts_upstream s) (tu_upstream u),
     ts_selection_groups := set_if_some (ts_selection_groups s) (tu_selection_groups u),
     ts_selection_nodes := set_if_some (ts_selection_nodes s) (tu_selection_nodes u),
     ts_selection_trace := set_if_some (ts_selection_trace s) (tu_selection_trace u),
     ts_close_reason := set_if_some (ts_close_reason s) (tu_close_reason u),
     ts_error_stage := set_if_some (ts_error_stage s) (tu_error_stage u),
     ts_error_code := set_if_some (ts_error_code s) (tu_error_code u),
     ts_error_class := set_if_some (ts_error_class s) (tu_error_class u),
     ts_error_side := set_if_some (ts_error_side s) (tu_error_side u),
     ts_error_phase := set_if_some (ts_error_phase s) (tu_error_phase u),
     ts_error_protocol_phase := set_if_some (ts_error_protocol_phase s) (tu_error_protocol_phase u),
     ts_error_score_impact := set_if_some (ts_error_score_impact s) (tu_error_score_impact u),
     ts_error := set_if_some (ts_error s) (tu_error u)\<rparr>"

definition update_totals :: "TrafficSessionUpdate \<Rightarrow> TrafficSession \<Rightarrow> TrafficSession" where
  "update_totals u s = s\<lparr>
     ts_client_to_upstream_bytes :=
       (case tu_client_to_upstream_bytes u of None \<Rightarrow> ts_client_to_upstream_bytes s | Some b \<Rightarrow> b),
     ts_upstream_to_client_bytes :=
       (case tu_upstream_to_client_bytes u of None \<Rightarrow> ts_upstream_to_client_bytes s | Some b \<Rightarrow> b)\<rparr>"

definition update_upstream_datagram :: "TrafficSessionUpdate \<Rightarrow> TrafficSession \<Rightarrow> TrafficSession" where
  "update_upstream_datagram u s =
     (case tu_client_to_upstream_datagram u of
        None \<Rightarrow> s
      | Some b \<Rightarrow> s\<lparr>
          ts_client_to_upstream_datagrams := ts_client_to_upstream_datagrams s + 1,
          ts_client_to_upstream_bytes := ts_client_to_upstream_bytes s + b,
          ts_first_upstream_at_unix_ms :=
            opt_or (ts_first_upstream_at_unix_ms s) (Some (tu_observed_at_unix_ms u))\<rparr>)"

definition update_downstream_datagram :: "TrafficSessionUpdate \<Rightarrow> TrafficSession \<Rightarrow> TrafficSession" where
  "update_downstream_datagram u s =
     (case tu_upstream_to_client_datagram u of
        None \<Rightarrow> s
      | Some b \<Rightarrow> s\<lparr>
          ts_upstream_to_client_datagrams := ts_upstream_to_client_datagrams s + 1,
          ts_upstream_to_client_bytes := ts_upstream_to_client_bytes s + b,
          ts_first_downstream_at_unix_ms :=
            opt_or (ts_first_downstream_at_unix_ms s) (Some (tu_observed_at_unix_ms u))\<rparr>)"

definition update_latency :: "TrafficSession \<Rightarrow> TrafficSession" where
  "update_latency s =
     (case ts_first_response_latency_ms s of
        Some _ \<Rightarrow> s
      | None \<Rightarrow>
          (case ts_first_downstream_at_unix_ms s of
             None \<Rightarrow> s
           | Some first_downstream_at \<Rightarrow>
               s\<lparr>ts_first_response_latency_ms :=
                   Some (saturating_sub first_downstream_at (ts_started_at_unix_ms s))\<rparr>))"

definition update_close :: "TrafficSessionUpdate \<Rightarrow> TrafficSession \<Rightarrow> TrafficSession" where
  "update_close u s =
     (if tu_closes_session u then
        s\<lparr>ts_closed_at_unix_ms := Some (tu_observed_at_unix_ms u),
          ts_duration_ms := Some (saturating_sub (tu_observed_at_unix_ms u) (ts_started_at_unix_ms s))\<rparr>
      else s)"

definition TrafficSession_apply_update :: "TrafficSessionUpdate \<Rightarrow> TrafficSession \<Rightarrow> TrafficSession" where
  "TrafficSession_apply_update u s =
     (update_close u (update_latency (update_downstream_datagram u (update_upstream_datagram u
        (update_totals u (update_labels u s))))))\<lparr>ts_last_observed_at_unix_ms := tu_observed_at_unix_ms u\<rparr>"

section \<open>Updates from events\<close>

definition session_key :: "string \<Rightarrow> u64 \<Rightarrow> u64 option \<Rightarrow> string" where
  "session_key inbound session_id decision_id =
     inbound @ '':'' @ show_u64 session_id @ '':'' @
     (case decision_id of None \<Rightarrow> ''none'' | Some d \<Rightarrow> show_u64 d)"

definition traffic_kind :: "IngressEventKind \<Rightarrow> bool" where
  "traffic_kind kind \<longleftrightarrow> kind \<notin> {DnsQuery, DnsResponse, DnsError}"

definition event_field :: "IngressEvent \<Rightarrow> string \<Rightarrow> string option" where
  "event_field event name = bt_get (ev_fields event) name"

definition field_u64 :: "IngressEvent \<Rightarrow> string \<Rightarrow> u64 option" where
  "field_u64 event name = Option.bind (event_field event name) parse_u64"

definition session_update_from_event :: "IngressEvent \<Rightarrow> TrafficSessionUpdate option" where
  "session_update_from_event event =
     (if \<not> traffic_kind (ev_kind event) then None
      else (case field_u64 event ''sessionId'' of
          None \<Rightarrow> None
        | Some session_id \<Rightarrow>
            (let decision_id = field_u64 event ''decisionId'' in
             if ev_kind event = UdpSessionStart \<and> decision_id = None then None
             else
               (let inbound = (case event_field event ''inbound'' of None \<Rightarrow> ''unknown'' | Some v \<Rightarrow> v);
                    direction = event_field event ''direction'';
                    datagram_bytes = field_u64 event ''bytes''
                in Some
                  \<lparr>tu_session_key = session_key inbound session_id decision_id,
                   tu_session_id = session_id,
                   tu_decision_id = decision_id,
                   tu_config_generation = field_u64 event ''configGeneration'',
                   tu_inbound = inbound,
                   tu_observed_at_unix_ms = ev_observed_at_unix_ms event,
                   tu_node_protocol = event_field event ''nodeProtocol'',
                   tu_peer = event_field event ''peer'',
                   tu_target = event_field event ''target'',
                   tu_target_ip = event_field event ''targetIp'',
                   tu_target_port = Option.bind (event_field event ''targetPort'') parse_u16,
                   tu_target_domain = event_field event ''targetDomain'',
                   tu_target_source = event_field event ''targetSource'',
                   tu_upstream = event_field event ''upstream'',
                   tu_selection_groups = event_field event ''selectionGroups'',
                   tu_selection_nodes = event_field event ''selectionNodes'',
                   tu_selection_trace = event_field event ''selectionTrace'',
                   tu_close_reason = event_field event ''closeReason'',
                   tu_error_stage = event_field event ''errorStage'',
                   tu_error_code = event_field event ''errorCode'',
                   tu_error_class = event_field event ''errorClass'',
                   tu_error_side = event_field event ''errorSide'',
                   tu_error_phase = event_field event ''errorPhase'',
                   tu_error_protocol_phase = event_field event ''errorProtocolPhase'',
                   tu_error_score_impact = event_field event ''errorScoreImpact'',
                   tu_error = event_field event ''error'',
                   tu_client_to_upstream_bytes = field_u64 event ''clientToUpstreamBytes'',
                   tu_upstream_to_client_bytes = field_u64 event ''upstreamToClientBytes'',
                   tu_client_to_upstream_datagram = (if direction = Some ''client-to-upstream'' then datagram_bytes else None),
                   tu_upstream_to_client_datagram = (if direction = Some ''upstream-to-client'' then datagram_bytes else None),
                   tu_closes_session = ev_kind event \<in> {TcpClose, TcpError, UdpSessionClose, UdpError}\<rparr>))))"

section \<open>The session store\<close>

type_synonym TrafficSessionStore = "(string, TrafficSession) btree"

definition session_cmp :: "string \<times> TrafficSession \<Rightarrow> string \<times> TrafficSession \<Rightarrow> ordering" where
  "session_cmp left right =
     then_with (cmp (ts_last_observed_at_unix_ms (snd left)) (ts_last_observed_at_unix_ms (snd right)))
       (cmp (fst left) (fst right))"

definition oldest_session_key :: "TrafficSessionStore \<Rightarrow> string option" where
  "oldest_session_key sessions = map_option fst (min_by session_cmp sessions)"

definition evict_oldest :: "TrafficSessionStore \<Rightarrow> TrafficSessionStore" where
  "evict_oldest sessions =
     (case oldest_session_key sessions of None \<Rightarrow> sessions | Some key \<Rightarrow> bt_remove key sessions)"

definition insert_restored :: "TrafficSession \<Rightarrow> TrafficSessionStore \<Rightarrow> TrafficSessionStore" where
  "insert_restored session inner =
     bt_insert (ts_session_key session) session
       (if length inner = TRAFFIC_SESSION_LIMIT then evict_oldest inner else inner)"

text \<open>\<open>into_iter().rev().take(n).rev()\<close> keeps the last \<open>n\<close> elements in their order.\<close>

definition from_sessions :: "TrafficSession list \<Rightarrow> TrafficSessionStore" where
  "from_sessions sessions =
     fold insert_restored (rev (take TRAFFIC_SESSION_LIMIT (rev sessions))) []"

definition store_apply_update :: "TrafficSessionUpdate \<Rightarrow> TrafficSessionStore \<Rightarrow> TrafficSessionStore" where
  "store_apply_update update sessions =
     (let room = (if \<not> bt_contains sessions (tu_session_key update) \<and>
                     length sessions = TRAFFIC_SESSION_LIMIT
                  then evict_oldest sessions else sessions)
      in bt_upsert (tu_session_key update) (TrafficSession_new update)
           (TrafficSession_apply_update update) room)"

definition sessions_record_event :: "IngressEvent \<Rightarrow> TrafficSessionStore \<Rightarrow> TrafficSessionStore" where
  "sessions_record_event event sessions =
     (case session_update_from_event event of
        None \<Rightarrow> sessions
      | Some update \<Rightarrow> store_apply_update update sessions)"

definition sessions_snapshot :: "TrafficSessionStore \<Rightarrow> TrafficSession list" where
  "sessions_snapshot sessions = bt_values sessions"

section \<open>Store invariant\<close>

definition sessions_inv :: "TrafficSessionStore \<Rightarrow> bool" where
  "sessions_inv sessions \<longleftrightarrow>
     bt_wf sessions \<and> length sessions \<le> TRAFFIC_SESSION_LIMIT \<and>
     (\<forall>(key, session)\<in>set sessions. ts_session_key session = key)"

interpretation session_rank: total_ranking session_cmp
proof -
  show "total_ranking session_cmp"
    using total_ranking_lex [of "\<lambda>p. ts_last_observed_at_unix_ms (snd p)" fst]
    by (simp add: session_cmp_def [abs_def])
qed

lemma opt_or_simps [simp]: "opt_or (Some x) b = Some x" "opt_or None b = b"
  by (simp_all add: opt_or_def)

lemma apply_update_key [simp]:
  "ts_session_key (TrafficSession_apply_update u s) = ts_session_key s"
  by (simp add: TrafficSession_apply_update_def update_close_def update_latency_def
      update_downstream_datagram_def update_upstream_datagram_def update_totals_def
      update_labels_def split: option.splits)

lemma new_key [simp]: "ts_session_key (TrafficSession_new u) = tu_session_key u"
  by (simp add: TrafficSession_new_def)

lemma oldest_session_key_Some:
  assumes "oldest_session_key sessions = Some key"
  shows "\<exists>s. (key, s) \<in> set sessions \<and> (\<forall>(k, s')\<in>set sessions.
    ts_last_observed_at_unix_ms s < ts_last_observed_at_unix_ms s' \<or>
    ts_last_observed_at_unix_ms s = ts_last_observed_at_unix_ms s' \<and> key \<le> k)"
proof -
  from assms obtain s where m: "min_by session_cmp sessions = Some (key, s)"
    by (auto simp: oldest_session_key_def)
  then have "(key, s) \<in> set sessions" by (rule min_by_mem)
  moreover have "ts_last_observed_at_unix_ms s < ts_last_observed_at_unix_ms s' \<or>
      ts_last_observed_at_unix_ms s = ts_last_observed_at_unix_ms s' \<and> key \<le> k"
    if "(k, s') \<in> set sessions" for k s'
    using session_rank.min_by_lower [OF m that] by (auto simp: session_cmp_def then_with_iffs)
  ultimately show ?thesis by blast
qed

lemma oldest_session_key_None: "oldest_session_key sessions = None \<longleftrightarrow> sessions = []"
  by (simp add: oldest_session_key_def min_by_None_iff)

lemma evict_oldest_inv: "sessions_inv sessions \<Longrightarrow> sessions_inv (evict_oldest sessions)"
  by (auto simp: sessions_inv_def evict_oldest_def bt_remove_def bt_wf_remove [unfolded bt_remove_def]
      intro: order_trans [OF length_filter_le] split: option.splits)

lemma evict_oldest_room:
  assumes "sessions_inv sessions"
  shows "length (evict_oldest sessions) < TRAFFIC_SESSION_LIMIT"
proof (cases "oldest_session_key sessions")
  case None
  then have "sessions = []" by (simp only: oldest_session_key_None)
  with None show ?thesis by (simp add: evict_oldest_def TRAFFIC_SESSION_LIMIT_def)
next
  case (Some key)
  then obtain s where "(key, s) \<in> set sessions" using oldest_session_key_Some by blast
  with assms have "bt_contains sessions key"
    by (auto simp: bt_contains_def sessions_inv_def bt_get_Some_iff)
  with assms length_bt_remove [of sessions key] Some show ?thesis
    by (auto simp: sessions_inv_def evict_oldest_def)
qed

lemma sessions_inv_put:
  assumes "sessions_inv sessions" "ts_session_key s = key"
    and "bt_contains sessions key \<or> length sessions < TRAFFIC_SESSION_LIMIT"
  shows "sessions_inv (bt_insert key s sessions)"
  using assms by (auto simp: sessions_inv_def bt_wf_insert set_bt_insert length_bt_insert)

lemma insert_restored_inv: "sessions_inv inner \<Longrightarrow> sessions_inv (insert_restored s inner)"
  unfolding insert_restored_def
proof (rule sessions_inv_put)
  assume inv: "sessions_inv inner"
  then show "sessions_inv (if length inner = TRAFFIC_SESSION_LIMIT then evict_oldest inner else inner)"
    by (simp add: evict_oldest_inv)
  show "bt_contains (if length inner = TRAFFIC_SESSION_LIMIT then evict_oldest inner else inner)
      (ts_session_key s) \<or>
    length (if length inner = TRAFFIC_SESSION_LIMIT then evict_oldest inner else inner) <
      TRAFFIC_SESSION_LIMIT"
    using inv evict_oldest_room [OF inv] by (simp add: sessions_inv_def)
qed simp

lemma from_sessions_inv: "sessions_inv (from_sessions sessions)"
proof -
  have "sessions_inv m \<Longrightarrow> sessions_inv (fold insert_restored xs m)" for xs m
    by (induction xs arbitrary: m) (auto intro: insert_restored_inv)
  moreover have "sessions_inv []" by (simp add: sessions_inv_def)
  ultimately show ?thesis by (simp add: from_sessions_def)
qed

lemma store_apply_update_inv:
  assumes "sessions_inv sessions"
  shows "sessions_inv (store_apply_update u sessions)"
proof -
  let ?room = "if \<not> bt_contains sessions (tu_session_key u) \<and> length sessions = TRAFFIC_SESSION_LIMIT
    then evict_oldest sessions else sessions"
  have inv: "sessions_inv ?room" using assms evict_oldest_inv by simp
  have "bt_contains ?room (tu_session_key u) \<or> length ?room < TRAFFIC_SESSION_LIMIT"
    using assms evict_oldest_room by (auto simp: sessions_inv_def)
  moreover have "ts_session_key (case bt_get ?room (tu_session_key u) of
      None \<Rightarrow> TrafficSession_new u | Some v \<Rightarrow> v) = tu_session_key u"
    using inv by (auto simp: sessions_inv_def bt_get_Some_iff split: option.splits)
  ultimately show ?thesis
    unfolding store_apply_update_def Let_def bt_upsert_def
    using inv by (intro sessions_inv_put) auto
qed

lemma sessions_record_event_inv:
  "sessions_inv sessions \<Longrightarrow> sessions_inv (sessions_record_event event sessions)"
  by (simp add: sessions_record_event_def store_apply_update_inv split: option.splits)

section \<open>Session keys\<close>

lemma colon_not_in_show: "CHR '':'' \<notin> set (show_u64 n)"
  using show_nat_digits [of _ "unat n"] digit_char_neq by (fastforce simp: show_u64_def)

lemma colon_not_in_decision:
  "CHR '':'' \<notin> set (case d of None \<Rightarrow> ''none'' | Some d \<Rightarrow> show_u64 d)"
  using colon_not_in_show by (cases d) auto

text \<open>A separator splits a string at its last occurrence in one way.\<close>

lemma last_separator_unique:
  assumes "a @ c # b = a' @ c # b'" "c \<notin> set b" "c \<notin> set b'"
  shows "a = a' \<and> b = b'"
proof -
  have "takeWhile (\<lambda>x. x \<noteq> c) (rev (a @ c # b)) = rev b" if "c \<notin> set b" for a b
    using that by (induction b rule: rev_induct) auto
  from this [OF assms(2), of a] this [OF assms(3), of a'] assms(1) have "b = b'" by simp
  with assms(1) show ?thesis by simp
qed

lemma show_u64_inj: "show_u64 a = show_u64 b \<Longrightarrow> a = b"
  using parse_show_u64 by (metis option.inject)

lemma show_u64_not_none: "show_u64 n \<noteq> ''none''"
  using parse_show_u64 [of n] by (auto simp: parse_u64_def parse_unsigned_def Let_def digit_value_def)

section \<open>Properties\<close>

text \<open>
  An event that carries a session update leaves the store bounded and keyed, updates exactly
  the session of its key (created from the update when it is new) and keeps every other session
  as it was, except that a new session entering a full store evicts one: the least recently
  observed, by key on ties.
\<close>

theorem record_event_effect:
  assumes inv: "sessions_inv sessions" and u: "session_update_from_event event = Some u"
  defines "evicts \<equiv> \<not> bt_contains sessions (tu_session_key u) \<and> length sessions = TRAFFIC_SESSION_LIMIT"
  shows "sessions_inv (sessions_record_event event sessions) \<and>
    bt_get (sessions_record_event event sessions) (tu_session_key u) =
      Some (TrafficSession_apply_update u
        (case bt_get sessions (tu_session_key u) of None \<Rightarrow> TrafficSession_new u | Some s \<Rightarrow> s)) \<and>
    (\<forall>k. k \<noteq> tu_session_key u \<longrightarrow>
       bt_get (sessions_record_event event sessions) k =
         (if evicts \<and> oldest_session_key sessions = Some k then None else bt_get sessions k)) \<and>
    (evicts \<longrightarrow> (\<exists>k s. oldest_session_key sessions = Some k \<and> bt_get sessions k = Some s \<and>
       (\<forall>k' s'. bt_get sessions k' = Some s' \<longrightarrow>
          ts_last_observed_at_unix_ms s < ts_last_observed_at_unix_ms s' \<or>
          ts_last_observed_at_unix_ms s = ts_last_observed_at_unix_ms s' \<and> k \<le> k')))"
proof -
  have wf: "bt_wf sessions" using inv by (simp add: sessions_inv_def)
  have rec: "sessions_record_event event sessions = store_apply_update u sessions"
    using u by (simp add: sessions_record_event_def)
  have evict: "bt_get (evict_oldest sessions) k =
      (if oldest_session_key sessions = Some k then None else bt_get sessions k)" for k
    by (auto simp: evict_oldest_def split: option.splits)
  have new: "bt_get sessions (tu_session_key u) = None" if evicts
    using that by (simp add: evicts_def bt_contains_def)
  have "\<exists>k s. oldest_session_key sessions = Some k \<and> bt_get sessions k = Some s \<and>
       (\<forall>k' s'. bt_get sessions k' = Some s' \<longrightarrow>
          ts_last_observed_at_unix_ms s < ts_last_observed_at_unix_ms s' \<or>
          ts_last_observed_at_unix_ms s = ts_last_observed_at_unix_ms s' \<and> k \<le> k')" if evicts
  proof -
    have "sessions \<noteq> []" using that by (auto simp: evicts_def TRAFFIC_SESSION_LIMIT_def)
    then obtain k where k: "oldest_session_key sessions = Some k"
      using oldest_session_key_None by (cases "oldest_session_key sessions") auto
    from oldest_session_key_Some [OF k] obtain s where "bt_get sessions k = Some s"
      and "\<forall>(k', s')\<in>set sessions. ts_last_observed_at_unix_ms s < ts_last_observed_at_unix_ms s' \<or>
        ts_last_observed_at_unix_ms s = ts_last_observed_at_unix_ms s' \<and> k \<le> k'"
      using bt_get_Some_iff [OF wf] by blast
    with k bt_get_Some_iff [OF wf] show ?thesis by blast
  qed
  moreover have "sessions_inv (sessions_record_event event sessions)"
    using inv by (rule sessions_record_event_inv)
  moreover have "bt_get (sessions_record_event event sessions) (tu_session_key u) =
      Some (TrafficSession_apply_update u
        (case bt_get sessions (tu_session_key u) of None \<Rightarrow> TrafficSession_new u | Some s \<Rightarrow> s))"
    using new unfolding rec store_apply_update_def Let_def evicts_def [symmetric]
    by (cases evicts) (simp_all add: evict)
  moreover have "bt_get (sessions_record_event event sessions) k =
      (if evicts \<and> oldest_session_key sessions = Some k then None else bt_get sessions k)"
    if "k \<noteq> tu_session_key u" for k
    using that unfolding rec store_apply_update_def Let_def evicts_def [symmetric]
    by (cases evicts) (simp_all add: evict)
  ultimately show ?thesis by blast
qed

definition sample_event :: IngressEvent where
  "sample_event = \<lparr>ev_id = 1, ev_observed_at_unix_ms = 5, ev_kind = UdpDatagram,
     ev_fields = into_fields [(''sessionId'', ''7''), (''decisionId'', ''3''), (''inbound'', ''udp''),
       (''bytes'', ''100''), (''direction'', ''client-to-upstream'')]\<rparr>"

theorem record_event_effect_witness:
  "map_option ts_client_to_upstream_bytes
     (bt_get (sessions_record_event sample_event (from_sessions [])) ''udp:7:3'') = Some 100"
proof -
  let ?u = "the (session_update_from_event sample_event)"
  have u: "session_update_from_event sample_event = Some ?u" by code_simp
  have key: "tu_session_key ?u = ''udp:7:3''" by code_simp
  have val: "ts_client_to_upstream_bytes (TrafficSession_apply_update ?u
      (case bt_get (from_sessions []) ''udp:7:3'' of
         None \<Rightarrow> TrafficSession_new ?u | Some s \<Rightarrow> s)) = 100"
    by code_simp
  from record_event_effect [OF from_sessions_inv u] val show ?thesis by (simp add: key)
qed

text \<open>
  The key of a session identifies it: updates with the same key come from the same inbound,
  session id and decision id, whatever colons the inbound name contains.
\<close>

theorem session_key_unique:
  "session_key i s d = session_key i' s' d' \<longleftrightarrow> i = i' \<and> s = s' \<and> d = d'"
proof
  let ?dec = "\<lambda>d. case d of None \<Rightarrow> ''none'' | Some d \<Rightarrow> show_u64 d"
  assume "session_key i s d = session_key i' s' d'"
  then have "(i @ '':'' @ show_u64 s) @ CHR '':'' # ?dec d = (i' @ '':'' @ show_u64 s') @ CHR '':'' # ?dec d'"
    by (simp add: session_key_def)
  from last_separator_unique [OF this colon_not_in_decision colon_not_in_decision]
  have dec: "?dec d = ?dec d'" and rest: "i @ CHR '':'' # show_u64 s = i' @ CHR '':'' # show_u64 s'"
    by simp_all
  have "d = d'"
    using dec show_u64_not_none show_u64_inj by (cases d; cases d') (auto dest: sym)
  with last_separator_unique [OF rest colon_not_in_show colon_not_in_show] show_u64_inj
  show "i = i' \<and> s = s' \<and> d = d'" by blast
qed simp

end
