(* ===== verification/Session_Rows.thy ===== *)
theory Session_Rows
  imports Traffic_Sessions
begin

text \<open>
  The durable copy of a traffic session: the upsert statement of
  \<open>dynet-runtime/src/persistence.rs\<close> (\<open>upsert_traffic_session\<close>) and the reading back of its rows in
  \<open>persistence/recovery.rs\<close>. A row of \<open>runtime_traffic_sessions\<close> is a record of its columns;
  SQLite integers are \<open>int\<close> and \<open>null\<close> is \<open>None\<close>. The table is keyed by its primary key. SQLite
  turns a sum that leaves 64 bits into a floating point number; that case is not modelled, and
  the lemmas that depend on sums bound them.

  The lemmas compare the durable row with the session the runtime keeps in memory
  (\<open>Traffic_Sessions\<close>): they agree on every column but the duration and the first response
  latency, which the statement always computes as zero.
\<close>

section \<open>Rows\<close>

record SessionRow =
  sr_session_key :: string
  sr_session_id :: int
  sr_decision_id :: "int option"
  sr_config_generation :: "int option"
  sr_inbound :: string
  sr_node_protocol :: "string option"
  sr_peer :: "string option"
  sr_target :: "string option"
  sr_target_ip :: "string option"
  sr_target_port :: "int option"
  sr_target_domain :: "string option"
  sr_target_source :: "string option"
  sr_upstream :: "string option"
  sr_selection_groups :: "string option"
  sr_selection_nodes :: "string option"
  sr_selection_trace :: "string option"
  sr_started_at_unix_ms :: int
  sr_closed_at_unix_ms :: "int option"
  sr_duration_ms :: "int option"
  sr_close_reason :: "string option"
  sr_error_stage :: "string option"
  sr_error_code :: "string option"
  sr_error_class :: "string option"
  sr_error_side :: "string option"
  sr_error_phase :: "string option"
  sr_error_protocol_phase :: "string option"
  sr_error_score_impact :: "string option"
  sr_error :: "string option"
  sr_client_to_upstream_bytes :: int
  sr_upstream_to_client_bytes :: int
  sr_client_to_upstream_datagrams :: int
  sr_upstream_to_client_datagrams :: int
  sr_first_upstream_at_unix_ms :: "int option"
  sr_first_downstream_at_unix_ms :: "int option"
  sr_first_response_latency_ms :: "int option"
  sr_last_observed_at_unix_ms :: int

definition u64_to_i64 :: "u64 \<Rightarrow> int" where "u64_to_i64 value = i64_or_max (unat value)"
definition u128_to_i64 :: "u128 \<Rightarrow> int" where "u128_to_i64 value = i64_or_max (unat value)"

definition i64_to_u64 :: "int \<Rightarrow> u64" where "i64_to_u64 value = (if value < 0 then 0 else of_int value)"
definition i64_to_u128 :: "int \<Rightarrow> u128" where "i64_to_u128 value = (if value < 0 then 0 else of_int value)"
definition i64_to_u16 :: "int \<Rightarrow> u16 option" where
  "i64_to_u16 value = (if 0 \<le> value \<and> value < 2 ^ 16 then Some (of_int value) else None)"

text \<open>SQL's \<open>coalesce\<close> of two values, and of a value and a number.\<close>

definition coalesce :: "'a option \<Rightarrow> 'a option \<Rightarrow> 'a option" where
  "coalesce a b = (case a of None \<Rightarrow> b | Some _ \<Rightarrow> a)"

definition or_zero :: "int option \<Rightarrow> int" where
  "or_zero a = (case a of None \<Rightarrow> 0 | Some v \<Rightarrow> v)"

text \<open>The values of the statement. Its parameters 16 and 31 are both the time of the update, and
  parameters 26 to 29 the byte totals and the datagram sizes.\<close>

definition excluded_row :: "TrafficSessionUpdate \<Rightarrow> SessionRow" where
  "excluded_row u =
     (let p16 = u128_to_i64 (tu_observed_at_unix_ms u); p31 = u128_to_i64 (tu_observed_at_unix_ms u);
          p26 = map_option u64_to_i64 (tu_client_to_upstream_bytes u);
          p27 = map_option u64_to_i64 (tu_upstream_to_client_bytes u);
          p28 = map_option u64_to_i64 (tu_client_to_upstream_datagram u);
          p29 = map_option u64_to_i64 (tu_upstream_to_client_datagram u)
      in \<lparr>sr_session_key = tu_session_key u,
          sr_session_id = u64_to_i64 (tu_session_id u),
          sr_decision_id = map_option u64_to_i64 (tu_decision_id u),
          sr_config_generation = map_option u64_to_i64 (tu_config_generation u),
          sr_inbound = tu_inbound u,
          sr_node_protocol = tu_node_protocol u,
          sr_peer = tu_peer u,
          sr_target = tu_target u,
          sr_target_ip = tu_target_ip u,
          sr_target_port = map_option uint (tu_target_port u),
          sr_target_domain = tu_target_domain u,
          sr_target_source = tu_target_source u,
          sr_upstream = tu_upstream u,
          sr_selection_groups = tu_selection_groups u,
          sr_selection_nodes = tu_selection_nodes u,
          sr_selection_trace = tu_selection_trace u,
          sr_started_at_unix_ms = p16,
          sr_closed_at_unix_ms = (if tu_closes_session u then Some p31 else None),
          sr_duration_ms = (if tu_closes_session u then Some (max (p31 - p16) 0) else None),
          sr_close_reason = tu_close_reason u,
          sr_error_stage = tu_error_stage u,
          sr_error_code = tu_error_code u,
          sr_error_class = tu_error_class u,
          sr_error_side = tu_error_side u,
          sr_error_phase = tu_error_phase u,
          sr_error_protocol_phase = tu_error_protocol_phase u,
          sr_error_score_impact = tu_error_score_impact u,
          sr_error = tu_error u,
          sr_client_to_upstream_bytes = or_zero p26 + or_zero p28,
          sr_upstream_to_client_bytes = or_zero p27 + or_zero p29,
          sr_client_to_upstream_datagrams = (case p28 of None \<Rightarrow> 0 | Some _ \<Rightarrow> 1),
          sr_upstream_to_client_datagrams = (case p29 of None \<Rightarrow> 0 | Some _ \<Rightarrow> 1),
          sr_first_upstream_at_unix_ms = (case p28 of None \<Rightarrow> None | Some _ \<Rightarrow> Some p31),
          sr_first_downstream_at_unix_ms = (case p29 of None \<Rightarrow> None | Some _ \<Rightarrow> Some p31),
          sr_first_response_latency_ms = (case p29 of None \<Rightarrow> None | Some _ \<Rightarrow> Some (max (p31 - p16) 0)),
          sr_last_observed_at_unix_ms = p31\<rparr>)"

text \<open>The \<open>on conflict\<close> clause; the columns it does not name keep their value.\<close>

definition conflict_row :: "TrafficSessionUpdate \<Rightarrow> SessionRow \<Rightarrow> SessionRow" where
  "conflict_row u r =
     (let e = excluded_row u;
          p26 = map_option u64_to_i64 (tu_client_to_upstream_bytes u);
          p27 = map_option u64_to_i64 (tu_upstream_to_client_bytes u);
          p28 = map_option u64_to_i64 (tu_client_to_upstream_datagram u);
          p29 = map_option u64_to_i64 (tu_upstream_to_client_datagram u)
      in r\<lparr>sr_decision_id := coalesce (sr_decision_id r) (sr_decision_id e),
          sr_config_generation := coalesce (sr_config_generation r) (sr_config_generation e),
          sr_node_protocol := coalesce (sr_node_protocol e) (sr_node_protocol r),
          sr_peer := coalesce (sr_peer e) (sr_peer r),
          sr_target := coalesce (sr_target e) (sr_target r),
          sr_target_ip := coalesce (sr_target_ip e) (sr_target_ip r),
          sr_target_port := coalesce (sr_target_port e) (sr_target_port r),
          sr_target_domain := coalesce (sr_target_domain e) (sr_target_domain r),
          sr_target_source := coalesce (sr_target_source e) (sr_target_source r),
          sr_upstream := coalesce (sr_upstream e) (sr_upstream r),
          sr_selection_groups := coalesce (sr_selection_groups e) (sr_selection_groups r),
          sr_selection_nodes := coalesce (sr_selection_nodes e) (sr_selection_nodes r),
          sr_selection_trace := coalesce (sr_selection_trace e) (sr_selection_trace r),
          sr_closed_at_unix_ms := coalesce (sr_closed_at_unix_ms e) (sr_closed_at_unix_ms r),
          sr_duration_ms := coalesce (sr_duration_ms e) (sr_duration_ms r),
          sr_close_reason := coalesce (sr_close_reason e) (sr_close_reason r),
          sr_error_stage := coalesce (sr_error_stage e) (sr_error_stage r),
          sr_error_code := coalesce (sr_error_code e) (sr_error_code r),
          sr_error_class := coalesce (sr_error_class e) (sr_error_class r),
          sr_error_side := coalesce (sr_error_side e) (sr_error_side r),
          sr_error_phase := coalesce (sr_error_phase e) (sr_error_phase r),
          sr_error_protocol_phase := coalesce (sr_error_protocol_phase e) (sr_error_protocol_phase r),
          sr_error_score_impact := coalesce (sr_error_score_impact e) (sr_error_score_impact r),
          sr_error := coalesce (sr_error e) (sr_error r),
          sr_client_to_upstream_bytes := (case p26 of Some b \<Rightarrow> b | None \<Rightarrow> sr_client_to_upstream_bytes r + or_zero p28),
          sr_upstream_to_client_bytes := (case p27 of Some b \<Rightarrow> b | None \<Rightarrow> sr_upstream_to_client_bytes r + or_zero p29),
          sr_client_to_upstream_datagrams := sr_client_to_upstream_datagrams r + (case p28 of None \<Rightarrow> 0 | Some _ \<Rightarrow> 1),
          sr_upstream_to_client_datagrams := sr_upstream_to_client_datagrams r + (case p29 of None \<Rightarrow> 0 | Some _ \<Rightarrow> 1),
          sr_first_upstream_at_unix_ms := coalesce (sr_first_upstream_at_unix_ms r) (sr_first_upstream_at_unix_ms e),
          sr_first_downstream_at_unix_ms := coalesce (sr_first_downstream_at_unix_ms r) (sr_first_downstream_at_unix_ms e),
          sr_first_response_latency_ms := coalesce (sr_first_response_latency_ms r) (sr_first_response_latency_ms e),
          sr_last_observed_at_unix_ms := sr_last_observed_at_unix_ms e\<rparr>)"

definition upsert_traffic_session ::
    "TrafficSessionUpdate \<Rightarrow> (string, SessionRow) btree \<Rightarrow> (string, SessionRow) btree" where
  "upsert_traffic_session u table =
     bt_insert (tu_session_key u)
       (case bt_get table (tu_session_key u) of
          None \<Rightarrow> excluded_row u | Some r \<Rightarrow> conflict_row u r) table"

definition row_to_traffic_session :: "SessionRow \<Rightarrow> TrafficSession" where
  "row_to_traffic_session r =
     \<lparr>ts_session_key = sr_session_key r,
      ts_session_id = i64_to_u64 (sr_session_id r),
      ts_decision_id = map_option i64_to_u64 (sr_decision_id r),
      ts_config_generation = map_option i64_to_u64 (sr_config_generation r),
      ts_inbound = sr_inbound r,
      ts_node_protocol = sr_node_protocol r,
      ts_peer = sr_peer r,
      ts_target = sr_target r,
      ts_target_ip = sr_target_ip r,
      ts_target_port = Option.bind (sr_target_port r) i64_to_u16,
      ts_target_domain = sr_target_domain r,
      ts_target_source = sr_target_source r,
      ts_upstream = sr_upstream r,
      ts_selection_groups = sr_selection_groups r,
      ts_selection_nodes = sr_selection_nodes r,
      ts_selection_trace = sr_selection_trace r,
      ts_started_at_unix_ms = i64_to_u128 (sr_started_at_unix_ms r),
      ts_closed_at_unix_ms = map_option i64_to_u128 (sr_closed_at_unix_ms r),
      ts_duration_ms = map_option i64_to_u128 (sr_duration_ms r),
      ts_close_reason = sr_close_reason r,
      ts_error_stage = sr_error_stage r,
      ts_error_code = sr_error_code r,
      ts_error_class = sr_error_class r,
      ts_error_side = sr_error_side r,
      ts_error_phase = sr_error_phase r,
      ts_error_protocol_phase = sr_error_protocol_phase r,
      ts_error_score_impact = sr_error_score_impact r,
      ts_error = sr_error r,
      ts_client_to_upstream_bytes = i64_to_u64 (sr_client_to_upstream_bytes r),
      ts_upstream_to_client_bytes = i64_to_u64 (sr_upstream_to_client_bytes r),
      ts_client_to_upstream_datagrams = i64_to_u64 (sr_client_to_upstream_datagrams r),
      ts_upstream_to_client_datagrams = i64_to_u64 (sr_upstream_to_client_datagrams r),
      ts_first_upstream_at_unix_ms = map_option i64_to_u128 (sr_first_upstream_at_unix_ms r),
      ts_first_downstream_at_unix_ms = map_option i64_to_u128 (sr_first_downstream_at_unix_ms r),
      ts_first_response_latency_ms = map_option i64_to_u128 (sr_first_response_latency_ms r),
      ts_last_observed_at_unix_ms = i64_to_u128 (sr_last_observed_at_unix_ms r)\<rparr>"

section \<open>The row of a session in memory\<close>

text \<open>The row that the statements keep for a session: every column encodes the session's field,
  except that duration and latency are zero when present.\<close>

definition persisted_row :: "TrafficSession \<Rightarrow> SessionRow" where
  "persisted_row s =
     \<lparr>sr_session_key = ts_session_key s,
      sr_session_id = u64_to_i64 (ts_session_id s),
      sr_decision_id = map_option u64_to_i64 (ts_decision_id s),
      sr_config_generation = map_option u64_to_i64 (ts_config_generation s),
      sr_inbound = ts_inbound s,
      sr_node_protocol = ts_node_protocol s,
      sr_peer = ts_peer s,
      sr_target = ts_target s,
      sr_target_ip = ts_target_ip s,
      sr_target_port = map_option uint (ts_target_port s),
      sr_target_domain = ts_target_domain s,
      sr_target_source = ts_target_source s,
      sr_upstream = ts_upstream s,
      sr_selection_groups = ts_selection_groups s,
      sr_selection_nodes = ts_selection_nodes s,
      sr_selection_trace = ts_selection_trace s,
      sr_started_at_unix_ms = u128_to_i64 (ts_started_at_unix_ms s),
      sr_closed_at_unix_ms = map_option u128_to_i64 (ts_closed_at_unix_ms s),
      sr_duration_ms = map_option (\<lambda>_. 0) (ts_duration_ms s),
      sr_close_reason = ts_close_reason s,
      sr_error_stage = ts_error_stage s,
      sr_error_code = ts_error_code s,
      sr_error_class = ts_error_class s,
      sr_error_side = ts_error_side s,
      sr_error_phase = ts_error_phase s,
      sr_error_protocol_phase = ts_error_protocol_phase s,
      sr_error_score_impact = ts_error_score_impact s,
      sr_error = ts_error s,
      sr_client_to_upstream_bytes = u64_to_i64 (ts_client_to_upstream_bytes s),
      sr_upstream_to_client_bytes = u64_to_i64 (ts_upstream_to_client_bytes s),
      sr_client_to_upstream_datagrams = u64_to_i64 (ts_client_to_upstream_datagrams s),
      sr_upstream_to_client_datagrams = u64_to_i64 (ts_upstream_to_client_datagrams s),
      sr_first_upstream_at_unix_ms = map_option u128_to_i64 (ts_first_upstream_at_unix_ms s),
      sr_first_downstream_at_unix_ms = map_option u128_to_i64 (ts_first_downstream_at_unix_ms s),
      sr_first_response_latency_ms = map_option (\<lambda>_. 0) (ts_first_response_latency_ms s),
      sr_last_observed_at_unix_ms = u128_to_i64 (ts_last_observed_at_unix_ms s)\<rparr>"

lemma i64_or_max_small: "n < 2 ^ 63 \<Longrightarrow> i64_or_max n = int n"
  by (simp add: i64_or_max_def i64_max_def)

lemma u64_to_i64_small: "unat v < 2 ^ 63 \<Longrightarrow> u64_to_i64 v = int (unat v)"
  by (simp add: u64_to_i64_def i64_or_max_small)

lemma u64_to_i64_0 [simp]: "u64_to_i64 0 = 0"
  by (simp add: u64_to_i64_small)

lemma u64_to_i64_plus:
  assumes "unat a + unat b < 2 ^ 63"
  shows "u64_to_i64 (a + b) = u64_to_i64 a + u64_to_i64 b"
proof -
  have "unat (a + b) = unat a + unat b" using assms by (simp add: unat_add_lem [symmetric])
  with assms show ?thesis by (simp add: u64_to_i64_small)
qed

lemma i64_u64_roundtrip: "unat v < 2 ^ 63 \<Longrightarrow> i64_to_u64 (u64_to_i64 v) = v"
  by (simp add: u64_to_i64_small i64_to_u64_def)

lemma i64_u128_roundtrip: "unat v < 2 ^ 63 \<Longrightarrow> i64_to_u128 (u128_to_i64 v) = v"
  by (simp add: u128_to_i64_def i64_or_max_small i64_to_u128_def)

lemma i64_u16_roundtrip [simp]: "i64_to_u16 (uint (v :: u16)) = Some v"
  using uint_lt2p [of v] by (simp add: i64_to_u16_def)

section \<open>The upsert keeps the row of the session\<close>

fun opt_all :: "('a \<Rightarrow> bool) \<Rightarrow> 'a option \<Rightarrow> bool" where
  "opt_all P None \<longleftrightarrow> True"
| "opt_all P (Some x) \<longleftrightarrow> P x"

text \<open>What the comparison asks of an update: ids and times that fit a signed 64-bit column, sizes
  up to a bound \<open>B\<close>, one target port for the session, and no total in an update that reports a
  datagram of the same direction.\<close>

definition update_ok :: "nat \<Rightarrow> u16 \<Rightarrow> TrafficSessionUpdate \<Rightarrow> bool" where
  "update_ok B port u \<longleftrightarrow>
     list_all (\<lambda>v. opt_all (\<lambda>b. unat b \<le> B) v)
       [tu_client_to_upstream_bytes u, tu_upstream_to_client_bytes u,
        tu_client_to_upstream_datagram u, tu_upstream_to_client_datagram u] \<and>
     (tu_client_to_upstream_bytes u = None \<or> tu_client_to_upstream_datagram u = None) \<and>
     (tu_upstream_to_client_bytes u = None \<or> tu_upstream_to_client_datagram u = None) \<and>
     tu_target_port u \<in> {None, Some port} \<and>
     unat (tu_session_id u) < 2 ^ 63 \<and> unat (tu_observed_at_unix_ms u) < 2 ^ 63 \<and>
     opt_all (\<lambda>v. unat v < 2 ^ 63) (tu_decision_id u) \<and>
     opt_all (\<lambda>v. unat v < 2 ^ 63) (tu_config_generation u)"

definition session_ok :: "nat \<Rightarrow> nat \<Rightarrow> u16 \<Rightarrow> TrafficSession \<Rightarrow> bool" where
  "session_ok B n port s \<longleftrightarrow>
     unat (ts_client_to_upstream_bytes s) \<le> n * B \<and> unat (ts_upstream_to_client_bytes s) \<le> n * B \<and>
     unat (ts_client_to_upstream_datagrams s) \<le> n \<and> unat (ts_upstream_to_client_datagrams s) \<le> n \<and>
     ts_target_port s \<in> {None, Some port} \<and>
     (ts_first_response_latency_ms s = None \<longleftrightarrow> ts_first_downstream_at_unix_ms s = None) \<and>
     unat (ts_session_id s) < 2 ^ 63 \<and> unat (ts_started_at_unix_ms s) < 2 ^ 63 \<and>
     unat (ts_last_observed_at_unix_ms s) < 2 ^ 63 \<and>
     list_all (opt_all (\<lambda>v. unat v < 2 ^ 63)) [ts_decision_id s, ts_config_generation s] \<and>
     list_all (opt_all (\<lambda>v. unat v < 2 ^ 63))
       [ts_closed_at_unix_ms s, ts_first_upstream_at_unix_ms s, ts_first_downstream_at_unix_ms s]"

lemma update_totals_keeps [simp]:
  "ts_session_key (update_totals u s) = ts_session_key s"
  "ts_session_id (update_totals u s) = ts_session_id s"
  "ts_decision_id (update_totals u s) = ts_decision_id s"
  "ts_config_generation (update_totals u s) = ts_config_generation s"
  "ts_inbound (update_totals u s) = ts_inbound s"
  "ts_node_protocol (update_totals u s) = ts_node_protocol s"
  "ts_peer (update_totals u s) = ts_peer s"
  "ts_target (update_totals u s) = ts_target s"
  "ts_target_ip (update_totals u s) = ts_target_ip s"
  "ts_target_port (update_totals u s) = ts_target_port s"
  "ts_target_domain (update_totals u s) = ts_target_domain s"
  "ts_target_source (update_totals u s) = ts_target_source s"
  "ts_upstream (update_totals u s) = ts_upstream s"
  "ts_selection_groups (update_totals u s) = ts_selection_groups s"
  "ts_selection_nodes (update_totals u s) = ts_selection_nodes s"
  "ts_selection_trace (update_totals u s) = ts_selection_trace s"
  "ts_started_at_unix_ms (update_totals u s) = ts_started_at_unix_ms s"
  "ts_closed_at_unix_ms (update_totals u s) = ts_closed_at_unix_ms s"
  "ts_duration_ms (update_totals u s) = ts_duration_ms s"
  "ts_close_reason (update_totals u s) = ts_close_reason s"
  "ts_error_stage (update_totals u s) = ts_error_stage s"
  "ts_error_code (update_totals u s) = ts_error_code s"
  "ts_error_class (update_totals u s) = ts_error_class s"
  "ts_error_side (update_totals u s) = ts_error_side s"
  "ts_error_phase (update_totals u s) = ts_error_phase s"
  "ts_error_protocol_phase (update_totals u s) = ts_error_protocol_phase s"
  "ts_error_score_impact (update_totals u s) = ts_error_score_impact s"
  "ts_error (update_totals u s) = ts_error s"
  "ts_client_to_upstream_datagrams (update_totals u s) = ts_client_to_upstream_datagrams s"
  "ts_upstream_to_client_datagrams (update_totals u s) = ts_upstream_to_client_datagrams s"
  "ts_first_upstream_at_unix_ms (update_totals u s) = ts_first_upstream_at_unix_ms s"
  "ts_first_downstream_at_unix_ms (update_totals u s) = ts_first_downstream_at_unix_ms s"
  "ts_first_response_latency_ms (update_totals u s) = ts_first_response_latency_ms s"
  "ts_last_observed_at_unix_ms (update_totals u s) = ts_last_observed_at_unix_ms s"
  by (simp_all add: update_totals_def)

lemma update_upstream_keeps [simp]:
  "ts_session_key (update_upstream_datagram u s) = ts_session_key s"
  "ts_session_id (update_upstream_datagram u s) = ts_session_id s"
  "ts_decision_id (update_upstream_datagram u s) = ts_decision_id s"
  "ts_config_generation (update_upstream_datagram u s) = ts_config_generation s"
  "ts_inbound (update_upstream_datagram u s) = ts_inbound s"
  "ts_node_protocol (update_upstream_datagram u s) = ts_node_protocol s"
  "ts_peer (update_upstream_datagram u s) = ts_peer s"
  "ts_target (update_upstream_datagram u s) = ts_target s"
  "ts_target_ip (update_upstream_datagram u s) = ts_target_ip s"
  "ts_target_port (update_upstream_datagram u s) = ts_target_port s"
  "ts_target_domain (update_upstream_datagram u s) = ts_target_domain s"
  "ts_target_source (update_upstream_datagram u s) = ts_target_source s"
  "ts_upstream (update_upstream_datagram u s) = ts_upstream s"
  "ts_selection_groups (update_upstream_datagram u s) = ts_selection_groups s"
  "ts_selection_nodes (update_upstream_datagram u s) = ts_selection_nodes s"
  "ts_selection_trace (update_upstream_datagram u s) = ts_selection_trace s"
  "ts_started_at_unix_ms (update_upstream_datagram u s) = ts_started_at_unix_ms s"
  "ts_closed_at_unix_ms (update_upstream_datagram u s) = ts_closed_at_unix_ms s"
  "ts_duration_ms (update_upstream_datagram u s) = ts_duration_ms s"
  "ts_close_reason (update_upstream_datagram u s) = ts_close_reason s"
  "ts_error_stage (update_upstream_datagram u s) = ts_error_stage s"
  "ts_error_code (update_upstream_datagram u s) = ts_error_code s"
  "ts_error_class (update_upstream_datagram u s) = ts_error_class s"
  "ts_error_side (update_upstream_datagram u s) = ts_error_side s"
  "ts_error_phase (update_upstream_datagram u s) = ts_error_phase s"
  "ts_error_protocol_phase (update_upstream_datagram u s) = ts_error_protocol_phase s"
  "ts_error_score_impact (update_upstream_datagram u s) = ts_error_score_impact s"
  "ts_error (update_upstream_datagram u s) = ts_error s"
  "ts_upstream_to_client_bytes (update_upstream_datagram u s) = ts_upstream_to_client_bytes s"
  "ts_upstream_to_client_datagrams (update_upstream_datagram u s) = ts_upstream_to_client_datagrams s"
  "ts_first_downstream_at_unix_ms (update_upstream_datagram u s) = ts_first_downstream_at_unix_ms s"
  "ts_first_response_latency_ms (update_upstream_datagram u s) = ts_first_response_latency_ms s"
  "ts_last_observed_at_unix_ms (update_upstream_datagram u s) = ts_last_observed_at_unix_ms s"
  by (simp_all add: update_upstream_datagram_def split: option.split)

lemma update_downstream_keeps [simp]:
  "ts_session_key (update_downstream_datagram u s) = ts_session_key s"
  "ts_session_id (update_downstream_datagram u s) = ts_session_id s"
  "ts_decision_id (update_downstream_datagram u s) = ts_decision_id s"
  "ts_config_generation (update_downstream_datagram u s) = ts_config_generation s"
  "ts_inbound (update_downstream_datagram u s) = ts_inbound s"
  "ts_node_protocol (update_downstream_datagram u s) = ts_node_protocol s"
  "ts_peer (update_downstream_datagram u s) = ts_peer s"
  "ts_target (update_downstream_datagram u s) = ts_target s"
  "ts_target_ip (update_downstream_datagram u s) = ts_target_ip s"
  "ts_target_port (update_downstream_datagram u s) = ts_target_port s"
  "ts_target_domain (update_downstream_datagram u s) = ts_target_domain s"
  "ts_target_source (update_downstream_datagram u s) = ts_target_source s"
  "ts_upstream (update_downstream_datagram u s) = ts_upstream s"
  "ts_selection_groups (update_downstream_datagram u s) = ts_selection_groups s"
  "ts_selection_nodes (update_downstream_datagram u s) = ts_selection_nodes s"
  "ts_selection_trace (update_downstream_datagram u s) = ts_selection_trace s"
  "ts_started_at_unix_ms (update_downstream_datagram u s) = ts_started_at_unix_ms s"
  "ts_closed_at_unix_ms (update_downstream_datagram u s) = ts_closed_at_unix_ms s"
  "ts_duration_ms (update_downstream_datagram u s) = ts_duration_ms s"
  "ts_close_reason (update_downstream_datagram u s) = ts_close_reason s"
  "ts_error_stage (update_downstream_datagram u s) = ts_error_stage s"
  "ts_error_code (update_downstream_datagram u s) = ts_error_code s"
  "ts_error_class (update_downstream_datagram u s) = ts_error_class s"
  "ts_error_side (update_downstream_datagram u s) = ts_error_side s"
  "ts_error_phase (update_downstream_datagram u s) = ts_error_phase s"
  "ts_error_protocol_phase (update_downstream_datagram u s) = ts_error_protocol_phase s"
  "ts_error_score_impact (update_downstream_datagram u s) = ts_error_score_impact s"
  "ts_error (update_downstream_datagram u s) = ts_error s"
  "ts_client_to_upstream_bytes (update_downstream_datagram u s) = ts_client_to_upstream_bytes s"
  "ts_client_to_upstream_datagrams (update_downstream_datagram u s) = ts_client_to_upstream_datagrams s"
  "ts_first_upstream_at_unix_ms (update_downstream_datagram u s) = ts_first_upstream_at_unix_ms s"
  "ts_first_response_latency_ms (update_downstream_datagram u s) = ts_first_response_latency_ms s"
  "ts_last_observed_at_unix_ms (update_downstream_datagram u s) = ts_last_observed_at_unix_ms s"
  by (simp_all add: update_downstream_datagram_def split: option.split)

lemma update_latency_keeps [simp]:
  "ts_session_key (update_latency s) = ts_session_key s"
  "ts_session_id (update_latency s) = ts_session_id s"
  "ts_decision_id (update_latency s) = ts_decision_id s"
  "ts_config_generation (update_latency s) = ts_config_generation s"
  "ts_inbound (update_latency s) = ts_inbound s"
  "ts_node_protocol (update_latency s) = ts_node_protocol s"
  "ts_peer (update_latency s) = ts_peer s"
  "ts_target (update_latency s) = ts_target s"
  "ts_target_ip (update_latency s) = ts_target_ip s"
  "ts_target_port (update_latency s) = ts_target_port s"
  "ts_target_domain (update_latency s) = ts_target_domain s"
  "ts_target_source (update_latency s) = ts_target_source s"
  "ts_upstream (update_latency s) = ts_upstream s"
  "ts_selection_groups (update_latency s) = ts_selection_groups s"
  "ts_selection_nodes (update_latency s) = ts_selection_nodes s"
  "ts_selection_trace (update_latency s) = ts_selection_trace s"
  "ts_started_at_unix_ms (update_latency s) = ts_started_at_unix_ms s"
  "ts_closed_at_unix_ms (update_latency s) = ts_closed_at_unix_ms s"
  "ts_duration_ms (update_latency s) = ts_duration_ms s"
  "ts_close_reason (update_latency s) = ts_close_reason s"
  "ts_error_stage (update_latency s) = ts_error_stage s"
  "ts_error_code (update_latency s) = ts_error_code s"
  "ts_error_class (update_latency s) = ts_error_class s"
  "ts_error_side (update_latency s) = ts_error_side s"
  "ts_error_phase (update_latency s) = ts_error_phase s"
  "ts_error_protocol_phase (update_latency s) = ts_error_protocol_phase s"
  "ts_error_score_impact (update_latency s) = ts_error_score_impact s"
  "ts_error (update_latency s) = ts_error s"
  "ts_client_to_upstream_bytes (update_latency s) = ts_client_to_upstream_bytes s"
  "ts_upstream_to_client_bytes (update_latency s) = ts_upstream_to_client_bytes s"
  "ts_client_to_upstream_datagrams (update_latency s) = ts_client_to_upstream_datagrams s"
  "ts_upstream_to_client_datagrams (update_latency s) = ts_upstream_to_client_datagrams s"
  "ts_first_upstream_at_unix_ms (update_latency s) = ts_first_upstream_at_unix_ms s"
  "ts_first_downstream_at_unix_ms (update_latency s) = ts_first_downstream_at_unix_ms s"
  "ts_last_observed_at_unix_ms (update_latency s) = ts_last_observed_at_unix_ms s"
  by (simp_all add: update_latency_def split: option.split)

lemma update_close_keeps [simp]:
  "ts_session_key (update_close u s) = ts_session_key s"
  "ts_session_id (update_close u s) = ts_session_id s"
  "ts_decision_id (update_close u s) = ts_decision_id s"
  "ts_config_generation (update_close u s) = ts_config_generation s"
  "ts_inbound (update_close u s) = ts_inbound s"
  "ts_node_protocol (update_close u s) = ts_node_protocol s"
  "ts_peer (update_close u s) = ts_peer s"
  "ts_target (update_close u s) = ts_target s"
  "ts_target_ip (update_close u s) = ts_target_ip s"
  "ts_target_port (update_close u s) = ts_target_port s"
  "ts_target_domain (update_close u s) = ts_target_domain s"
  "ts_target_source (update_close u s) = ts_target_source s"
  "ts_upstream (update_close u s) = ts_upstream s"
  "ts_selection_groups (update_close u s) = ts_selection_groups s"
  "ts_selection_nodes (update_close u s) = ts_selection_nodes s"
  "ts_selection_trace (update_close u s) = ts_selection_trace s"
  "ts_started_at_unix_ms (update_close u s) = ts_started_at_unix_ms s"
  "ts_close_reason (update_close u s) = ts_close_reason s"
  "ts_error_stage (update_close u s) = ts_error_stage s"
  "ts_error_code (update_close u s) = ts_error_code s"
  "ts_error_class (update_close u s) = ts_error_class s"
  "ts_error_side (update_close u s) = ts_error_side s"
  "ts_error_phase (update_close u s) = ts_error_phase s"
  "ts_error_protocol_phase (update_close u s) = ts_error_protocol_phase s"
  "ts_error_score_impact (update_close u s) = ts_error_score_impact s"
  "ts_error (update_close u s) = ts_error s"
  "ts_client_to_upstream_bytes (update_close u s) = ts_client_to_upstream_bytes s"
  "ts_upstream_to_client_bytes (update_close u s) = ts_upstream_to_client_bytes s"
  "ts_client_to_upstream_datagrams (update_close u s) = ts_client_to_upstream_datagrams s"
  "ts_upstream_to_client_datagrams (update_close u s) = ts_upstream_to_client_datagrams s"
  "ts_first_upstream_at_unix_ms (update_close u s) = ts_first_upstream_at_unix_ms s"
  "ts_first_downstream_at_unix_ms (update_close u s) = ts_first_downstream_at_unix_ms s"
  "ts_first_response_latency_ms (update_close u s) = ts_first_response_latency_ms s"
  "ts_last_observed_at_unix_ms (update_close u s) = ts_last_observed_at_unix_ms s"
  by (simp_all add: update_close_def)

lemma changed_totals [simp]:
  "ts_client_to_upstream_bytes (update_totals u s) =
     (case tu_client_to_upstream_bytes u of None \<Rightarrow> ts_client_to_upstream_bytes s | Some b \<Rightarrow> b)"
  "ts_upstream_to_client_bytes (update_totals u s) =
     (case tu_upstream_to_client_bytes u of None \<Rightarrow> ts_upstream_to_client_bytes s | Some b \<Rightarrow> b)"
  by (simp_all add: update_totals_def)

lemma changed_upstream [simp]:
  "ts_client_to_upstream_bytes (update_upstream_datagram u s) = ts_client_to_upstream_bytes s +
     (case tu_client_to_upstream_datagram u of None \<Rightarrow> 0 | Some b \<Rightarrow> b)"
  "ts_client_to_upstream_datagrams (update_upstream_datagram u s) = ts_client_to_upstream_datagrams s +
     (case tu_client_to_upstream_datagram u of None \<Rightarrow> 0 | Some _ \<Rightarrow> 1)"
  "ts_first_upstream_at_unix_ms (update_upstream_datagram u s) = opt_or (ts_first_upstream_at_unix_ms s)
     (case tu_client_to_upstream_datagram u of None \<Rightarrow> None | Some _ \<Rightarrow> Some (tu_observed_at_unix_ms u))"
  by (simp_all add: update_upstream_datagram_def opt_or_def split: option.split)

lemma changed_downstream [simp]:
  "ts_upstream_to_client_bytes (update_downstream_datagram u s) = ts_upstream_to_client_bytes s +
     (case tu_upstream_to_client_datagram u of None \<Rightarrow> 0 | Some b \<Rightarrow> b)"
  "ts_upstream_to_client_datagrams (update_downstream_datagram u s) = ts_upstream_to_client_datagrams s +
     (case tu_upstream_to_client_datagram u of None \<Rightarrow> 0 | Some _ \<Rightarrow> 1)"
  "ts_first_downstream_at_unix_ms (update_downstream_datagram u s) = opt_or (ts_first_downstream_at_unix_ms s)
     (case tu_upstream_to_client_datagram u of None \<Rightarrow> None | Some _ \<Rightarrow> Some (tu_observed_at_unix_ms u))"
  by (simp_all add: update_downstream_datagram_def opt_or_def split: option.split)

lemma changed_latency [simp]:
  "ts_first_response_latency_ms (update_latency s) = opt_or (ts_first_response_latency_ms s)
     (map_option (\<lambda>t. saturating_sub t (ts_started_at_unix_ms s)) (ts_first_downstream_at_unix_ms s))"
  by (simp add: update_latency_def opt_or_def split: option.split)

lemma changed_close [simp]:
  "ts_closed_at_unix_ms (update_close u s) =
     (if tu_closes_session u then Some (tu_observed_at_unix_ms u) else ts_closed_at_unix_ms s)"
  "ts_duration_ms (update_close u s) =
     (if tu_closes_session u then Some (saturating_sub (tu_observed_at_unix_ms u) (ts_started_at_unix_ms s))
      else ts_duration_ms s)"
  by (simp_all add: update_close_def)

lemmas row_defs = persisted_row_def conflict_row_def excluded_row_def Let_def
  TrafficSession_apply_update_def update_labels_def

lemma merge_simps [simp]:
  "coalesce (Some a) a1 = Some a" "coalesce None a1 = a1" "coalesce a1 None = a1" "coalesce a1 a1 = a1"
  "opt_or (Some b) b1 = Some b" "opt_or None b1 = b1" "opt_or b1 None = b1"
  "set_if_some None y = y" "or_zero None = 0" "or_zero (Some v) = v"
  by (simp_all add: coalesce_def opt_or_def set_if_some_def or_zero_def split: option.splits)

lemma coalesce_merge:
  "coalesce (map_option f a) (map_option f b) = map_option f (opt_or a b)"
  "coalesce y x = set_if_some x y"
  by (simp_all add: coalesce_def opt_or_def set_if_some_def split: option.splits)

lemma size_column:
  assumes "opt_all (\<lambda>b. unat b \<le> B) tot" "opt_all (\<lambda>b. unat b \<le> B) dg"
    "tot = None \<or> dg = None" "unat old + B < 2 ^ 63"
  shows "(case map_option u64_to_i64 tot of Some b \<Rightarrow> b
          | None \<Rightarrow> u64_to_i64 old + or_zero (map_option u64_to_i64 dg)) =
    u64_to_i64 ((case tot of None \<Rightarrow> old | Some b \<Rightarrow> b) + (case dg of None \<Rightarrow> 0 | Some b \<Rightarrow> b))"
  using assms by (auto simp: u64_to_i64_plus split: option.splits)

lemma count_column:
  assumes "unat old + 1 < 2 ^ 63"
  shows "u64_to_i64 old + (case map_option u64_to_i64 dg of None \<Rightarrow> 0 | Some _ \<Rightarrow> 1) =
    u64_to_i64 (old + (case dg of None \<Rightarrow> 0 | Some _ \<Rightarrow> 1))"
  using assms by (auto simp: u64_to_i64_plus u64_to_i64_small [of 1] split: option.splits)

lemma mark_column:
  "coalesce (map_option f a) (case map_option g dg of None \<Rightarrow> None | Some _ \<Rightarrow> Some (f t)) =
   map_option f (opt_or a (case dg of None \<Rightarrow> None | Some _ \<Rightarrow> Some t))"
  by (cases a; cases dg) simp_all

lemma latency_column:
  assumes "l = None \<longleftrightarrow> a = None"
  shows "coalesce (map_option (\<lambda>_. 0) l) (case map_option g dg of None \<Rightarrow> None | Some _ \<Rightarrow> Some (0 :: int)) =
   map_option (\<lambda>_. 0) (opt_or l (map_option h (opt_or a (case dg of None \<Rightarrow> None | Some _ \<Rightarrow> Some t))))"
  using assms by (cases a; cases dg) auto

lemma close_column:
  "coalesce (if c then Some (f t) else None) (map_option f a) = map_option f (if c then Some t else a)"
  "coalesce (if c then Some 0 else None) (map_option (\<lambda>_. (0 :: int)) b) =
   map_option (\<lambda>_. 0) (if c then Some y else b)"
  by simp_all

lemma conflict_row_persisted:
  assumes "update_ok B port u" "session_ok B n port s" "n * B + B < 2 ^ 63" "n + 1 < 2 ^ 63"
  shows "conflict_row u (persisted_row s) = persisted_row (TrafficSession_apply_update u s)"
proof -
  have bytes: "unat (ts_client_to_upstream_bytes s) + B < 2 ^ 63"
    "unat (ts_upstream_to_client_bytes s) + B < 2 ^ 63"
    "unat (ts_client_to_upstream_datagrams s) + 1 < 2 ^ 63"
    "unat (ts_upstream_to_client_datagrams s) + 1 < 2 ^ 63"
    using assms(2-4) by (auto simp: session_ok_def)
  have port: "opt_or (tu_target_port u) (ts_target_port s) = opt_or (ts_target_port s) (tu_target_port u)"
  proof -
    have "tu_target_port u \<in> {None, Some port}" "ts_target_port s \<in> {None, Some port}"
      using assms(1,2) by (simp_all add: update_ok_def session_ok_def)
    then show ?thesis by auto
  qed
  have latency: "ts_first_response_latency_ms s = None \<longleftrightarrow> ts_first_downstream_at_unix_ms s = None"
    using assms(2) by (simp add: session_ok_def)
  have sizes: "opt_all (\<lambda>b. unat b \<le> B) (tu_client_to_upstream_bytes u)"
    "opt_all (\<lambda>b. unat b \<le> B) (tu_upstream_to_client_bytes u)"
    "opt_all (\<lambda>b. unat b \<le> B) (tu_client_to_upstream_datagram u)"
    "opt_all (\<lambda>b. unat b \<le> B) (tu_upstream_to_client_datagram u)"
    "tu_client_to_upstream_bytes u = None \<or> tu_client_to_upstream_datagram u = None"
    "tu_upstream_to_client_bytes u = None \<or> tu_upstream_to_client_datagram u = None"
    using assms(1) by (simp_all add: update_ok_def)
  show ?thesis
    by (simp add: row_defs port size_column [OF sizes(1,3,5) bytes(1)] size_column [OF sizes(2,4,6) bytes(2)]
        count_column [OF bytes(3)] count_column [OF bytes(4)] mark_column latency_column [OF latency]
        close_column coalesce_merge del: case_map_option if_split cong del: option.case_cong_weak)
qed

lemma opt_all_merge:
  "opt_all P a \<Longrightarrow> opt_all P b \<Longrightarrow> opt_all P (opt_or a b)"
  by (cases a) simp_all

lemma size_bound:
  assumes "opt_all (\<lambda>b. unat b \<le> B) tot" "opt_all (\<lambda>b. unat b \<le> B) dg"
    "tot = None \<or> dg = None" "unat (old :: u64) \<le> n * B"
  shows "unat ((case tot of None \<Rightarrow> old | Some b \<Rightarrow> b) + (case dg of None \<Rightarrow> 0 | Some b \<Rightarrow> b)) \<le> B + n * B"
  using assms unat_add_le [of old "the dg"] by (auto split: option.splits)

lemma count_bound:
  "unat (old :: u64) \<le> n \<Longrightarrow> unat (old + (case dg of None \<Rightarrow> 0 | Some _ \<Rightarrow> 1)) \<le> Suc n"
  using unat_add_le [of old 1] by (auto split: option.splits)

lemma session_ok_step:
  assumes u: "update_ok B port u" and s: "session_ok B n port s"
  shows "session_ok B (Suc n) port (TrafficSession_apply_update u s)"
proof -
  note u' = u [unfolded update_ok_def list.pred_inject conj_assoc]
  note s' = s [unfolded session_ok_def list.pred_inject conj_assoc]
  have "(opt_or (ts_first_response_latency_ms s)
      (map_option h (opt_or (ts_first_downstream_at_unix_ms s) x)) = None) \<longleftrightarrow>
      opt_or (ts_first_downstream_at_unix_ms s) x = None" for h x
    using s' by (cases "ts_first_downstream_at_unix_ms s") auto
  moreover have "opt_or (ts_target_port s) (tu_target_port u) \<in> {None, Some port}"
    using u' s' by auto
  moreover have "opt_all (\<lambda>v. unat v < 2 ^ 63) (opt_or x (case d of None \<Rightarrow> None | Some _ \<Rightarrow> Some (tu_observed_at_unix_ms u)))"
    if "opt_all (\<lambda>v. unat v < 2 ^ 63) x" for x and d :: "u64 option"
    using that u' by (auto intro!: opt_all_merge split: option.split)
  ultimately show ?thesis
    using u' s'
    by (simp add: session_ok_def TrafficSession_apply_update_def update_labels_def size_bound count_bound
        opt_all_merge cong del: option.case_cong_weak)
qed

lemma session_ok_new: "update_ok B port u \<Longrightarrow> session_ok B 0 port (TrafficSession_new u)"
  by (simp add: session_ok_def TrafficSession_new_def update_ok_def)

lemma excluded_row_persisted:
  assumes "update_ok B port u" "B < 2 ^ 63"
  shows "excluded_row u = persisted_row (TrafficSession_apply_update u (TrafficSession_new u))"
proof -
  have "excluded_row u = conflict_row u (persisted_row (TrafficSession_new u))"
  proof -
    have "or_zero p + or_zero q = (case p of Some b \<Rightarrow> b | None \<Rightarrow> 0 + or_zero q)" if "p = None \<or> q = None" for p q
      using that by (auto split: option.splits)
    then show ?thesis
      using assms(1)
      by (simp add: conflict_row_def excluded_row_def persisted_row_def TrafficSession_new_def update_ok_def Let_def
          del: case_map_option cong del: option.case_cong_weak)
  qed
  also have "\<dots> = persisted_row (TrafficSession_apply_update u (TrafficSession_new u))"
    using assms by (intro conflict_row_persisted [OF _ session_ok_new]) auto
  finally show ?thesis .
qed

text \<open>Reading back the row of a session in range gives the session, but for the two columns.\<close>

definition durations_lost :: "TrafficSession \<Rightarrow> TrafficSession" where
  "durations_lost s =
     s\<lparr>ts_duration_ms := map_option (\<lambda>_. 0) (ts_duration_ms s),
       ts_first_response_latency_ms := map_option (\<lambda>_. 0) (ts_first_response_latency_ms s)\<rparr>"

lemma i64_to_u128_0 [simp]: "i64_to_u128 0 = 0"
  by (simp add: i64_to_u128_def)

lemma option_roundtrip:
  "opt_all (\<lambda>v. unat v < 2 ^ 63) a \<Longrightarrow> map_option (i64_to_u64 \<circ> u64_to_i64) a = a"
  "opt_all (\<lambda>v. unat v < 2 ^ 63) b \<Longrightarrow> map_option (i64_to_u128 \<circ> u128_to_i64) b = b"
  "Option.bind (map_option uint p) i64_to_u16 = p"
  by (cases a; cases b; cases p; simp add: i64_u64_roundtrip i64_u128_roundtrip)+

lemma row_roundtrip:
  assumes "session_ok B n port s" "n * B < 2 ^ 63" "n < 2 ^ 63"
  shows "row_to_traffic_session (persisted_row s) = durations_lost s"
proof -
  note s' = assms(1) [unfolded session_ok_def list.pred_inject conj_assoc]
  have "unat (ts_client_to_upstream_bytes s) < 2 ^ 63" "unat (ts_upstream_to_client_bytes s) < 2 ^ 63"
    "unat (ts_client_to_upstream_datagrams s) < 2 ^ 63" "unat (ts_upstream_to_client_datagrams s) < 2 ^ 63"
    using s' assms(2,3) by auto
  then show ?thesis
    using s'
    by (simp add: row_to_traffic_session_def persisted_row_def durations_lost_def option.map_comp
        i64_u64_roundtrip i64_u128_roundtrip option_roundtrip comp_def [of _ "\<lambda>_. 0"])
qed

section \<open>Sequences of updates\<close>

definition memory_session :: "TrafficSessionUpdate list \<Rightarrow> TrafficSession" where
  "memory_session us = fold TrafficSession_apply_update us (TrafficSession_new (hd us))"

definition updates_for :: "string \<Rightarrow> TrafficSessionUpdate list \<Rightarrow> TrafficSessionUpdate list" where
  "updates_for key us = filter (\<lambda>u. tu_session_key u = key) us"

lemma memory_session_snoc: "us \<noteq> [] \<Longrightarrow>
  memory_session (us @ [u]) = TrafficSession_apply_update u (memory_session us)"
  by (simp add: memory_session_def)

lemma memory_session_ok:
  "us \<noteq> [] \<Longrightarrow> \<forall>u\<in>set us. update_ok B port u \<Longrightarrow> session_ok B (length us) port (memory_session us)"
proof (induction us rule: rev_induct)
  case (snoc u us)
  then show ?case
    by (cases "us = []")
      (auto simp: memory_session_def session_ok_new intro!: session_ok_step)
qed simp

lemma upsert_row:
  "bt_get (fold upsert_traffic_session us []) key =
     (case updates_for key us of
        [] \<Rightarrow> None | u # rest \<Rightarrow> Some (fold conflict_row rest (excluded_row u)))"
proof (induction us rule: rev_induct)
  case (snoc u us)
  then show ?case
    by (cases "updates_for key us") (auto simp: updates_for_def upsert_traffic_session_def)
qed (simp add: updates_for_def bt_get_def)

lemma rows_refine:
  assumes "us \<noteq> []" "\<forall>u\<in>set us. update_ok B port u" "length us * B < 2 ^ 63" "length us < 2 ^ 63"
  shows "fold conflict_row (tl us) (excluded_row (hd us)) = persisted_row (memory_session us)"
  using assms
proof (induction us rule: rev_induct)
  case (snoc u us)
  show ?case
  proof (cases "us = []")
    case True
    with snoc.prems show ?thesis
      using excluded_row_persisted [of B port u] by (simp add: memory_session_def)
  next
    case False
    with snoc.prems have "session_ok B (length us) port (memory_session us)"
      by (intro memory_session_ok) auto
    with False snoc show ?thesis
      using conflict_row_persisted [of B port u "length us" "memory_session us"]
      by (simp add: memory_session_snoc add.commute)
  qed
qed simp

text \<open>
  C30. The durable sessions refine the sessions in memory: after any interleaving of updates, the
  row of a session reads back as the session the runtime has in memory, with duration and first
  response latency replaced by zero, provided the session's updates fit the columns, name one
  target port and never report a total together with a datagram.
\<close>

theorem recovered_session_refines:
  assumes "updates_for key us \<noteq> []" and "\<forall>u\<in>set (updates_for key us). update_ok B port u"
    and "length (updates_for key us) * B < 2 ^ 63" and "length (updates_for key us) < 2 ^ 63"
  shows "map_option row_to_traffic_session (bt_get (fold upsert_traffic_session us []) key) =
    Some (durations_lost (memory_session (updates_for key us)))"
proof -
  have "bt_get (fold upsert_traffic_session us []) key = Some (persisted_row (memory_session (updates_for key us)))"
    using upsert_row [of us key] rows_refine [OF assms] assms(1) by (auto split: list.splits)
  then show ?thesis
    using row_roundtrip [OF memory_session_ok [OF assms(1,2)] assms(3,4)] by simp
qed

definition sample_updates :: "TrafficSessionUpdate list" where
  "sample_updates =
     map (\<lambda>(kind, at, fs). the (session_update_from_event
       \<lparr>ev_id = 1, ev_observed_at_unix_ms = at, ev_kind = kind,
        ev_fields = into_fields ([(''sessionId'', ''7''), (''decisionId'', ''3''), (''inbound'', ''tcp'')] @ fs)\<rparr>))
       [(TcpAccept, 1000, [(''targetPort'', ''443'')]),
        (TcpClose, 6000, [(''clientToUpstreamBytes'', ''120''), (''upstreamToClientBytes'', ''4096'')])]"

theorem recovered_session_refines_witness:
  "map_option row_to_traffic_session (bt_get (fold upsert_traffic_session sample_updates []) ''tcp:7:3'') =
     Some (durations_lost (memory_session (updates_for ''tcp:7:3'' sample_updates)))"
proof -
  have ne: "updates_for ''tcp:7:3'' sample_updates \<noteq> []" by code_simp
  have "list_all (update_ok 4096 443) (updates_for ''tcp:7:3'' sample_updates)" by code_simp
  then have "\<forall>u\<in>set (updates_for ''tcp:7:3'' sample_updates). update_ok 4096 443 u" by (simp add: list_all_iff)
  moreover have "length (updates_for ''tcp:7:3'' sample_updates) * 4096 < 2 ^ 63" by code_simp
  moreover have "length (updates_for ''tcp:7:3'' sample_updates) < 2 ^ 63" by code_simp
  ultimately show ?thesis using ne by (intro recovered_session_refines)
qed

section \<open>Lost durations\<close>

lemma durations_zero_step:
  "sr_duration_ms (excluded_row u) \<in> {None, Some 0}"
  "sr_first_response_latency_ms (excluded_row u) \<in> {None, Some 0}"
  "sr_duration_ms r \<in> {None, Some 0} \<Longrightarrow> sr_duration_ms (conflict_row u r) \<in> {None, Some 0}"
  "sr_first_response_latency_ms r \<in> {None, Some 0} \<Longrightarrow>
   sr_first_response_latency_ms (conflict_row u r) \<in> {None, Some 0}"
  by (auto simp: excluded_row_def conflict_row_def coalesce_def Let_def split: option.splits)

lemma durations_zero_fold:
  "sr_duration_ms (fold conflict_row us (excluded_row u)) \<in> {None, Some 0} \<and>
   sr_first_response_latency_ms (fold conflict_row us (excluded_row u)) \<in> {None, Some 0}"
  by (induction us rule: rev_induct) (use durations_zero_step in auto)

lemma closes_duration:
  "tu_closes_session u \<Longrightarrow> sr_duration_ms (excluded_row u) = Some 0"
  "tu_closes_session u \<Longrightarrow> sr_duration_ms (conflict_row u r) = Some 0"
  by (simp_all add: excluded_row_def conflict_row_def Let_def)

lemma started_at_memory:
  "us \<noteq> [] \<Longrightarrow> ts_started_at_unix_ms (memory_session us) = tu_observed_at_unix_ms (hd us)"
proof (induction us rule: rev_induct)
  case (snoc u us)
  then show ?case
    by (cases "us = []")
      (simp_all add: memory_session_def TrafficSession_new_def TrafficSession_apply_update_def update_labels_def)
qed simp

text \<open>
  C31. Durations do not survive persistence: when the last update of a session closes it, the session
  in memory lasts from its first to its last update, while the durable row says zero; and a row never
  holds another duration or first response latency than zero.
\<close>

theorem persisted_durations_zero:
  assumes "bt_get (fold upsert_traffic_session us []) key = Some r"
  shows "sr_duration_ms r \<in> {None, Some 0} \<and> sr_first_response_latency_ms r \<in> {None, Some 0} \<and>
    (tu_closes_session (last (updates_for key us)) \<longrightarrow>
       sr_duration_ms r = Some 0 \<and>
       ts_duration_ms (memory_session (updates_for key us)) =
         Some (saturating_sub (tu_observed_at_unix_ms (last (updates_for key us)))
                 (tu_observed_at_unix_ms (hd (updates_for key us)))))"
proof -
  from assms obtain u rest where us: "updates_for key us = u # rest"
    and r: "r = fold conflict_row rest (excluded_row u)"
    by (auto simp: upsert_row split: list.splits)
  have "sr_duration_ms r = Some 0" if "tu_closes_session (last (u # rest))"
    using that unfolding r by (cases rest rule: rev_cases) (simp_all add: closes_duration)
  moreover have "ts_duration_ms (memory_session (u # rest)) =
      Some (saturating_sub (tu_observed_at_unix_ms (last (u # rest))) (tu_observed_at_unix_ms u))"
    if "tu_closes_session (last (u # rest))"
  proof -
    have last: "u # rest = butlast (u # rest) @ [last (u # rest)]" by simp
    have "ts_started_at_unix_ms (memory_session (u # rest)) = tu_observed_at_unix_ms u"
      using started_at_memory [of "u # rest"] by simp
    moreover have "memory_session (u # rest) = TrafficSession_apply_update (last (u # rest))
        (fold TrafficSession_apply_update (butlast (u # rest)) (TrafficSession_new u))"
      by (subst last) (simp only: memory_session_def fold_append hd_append, simp)
    ultimately show ?thesis
      using that by (simp add: TrafficSession_apply_update_def update_labels_def)
  qed
  ultimately show ?thesis
    unfolding us using durations_zero_fold [of rest u] by (simp add: r)
qed

theorem persisted_durations_zero_witness:
  "\<exists>r. bt_get (fold upsert_traffic_session sample_updates []) ''tcp:7:3'' = Some r \<and>
     sr_duration_ms r = Some 0 \<and>
     ts_duration_ms (memory_session (updates_for ''tcp:7:3'' sample_updates)) = Some 5000"
proof -
  let ?o = "bt_get (fold upsert_traffic_session sample_updates []) ''tcp:7:3''"
  have "?o \<noteq> None" by code_simp
  then have r: "?o = Some (the ?o)" by simp
  have "tu_closes_session (last (updates_for ''tcp:7:3'' sample_updates))" by code_simp
  moreover have "saturating_sub (tu_observed_at_unix_ms (last (updates_for ''tcp:7:3'' sample_updates)))
      (tu_observed_at_unix_ms (hd (updates_for ''tcp:7:3'' sample_updates))) = 5000" by code_simp
  ultimately show ?thesis
    using persisted_durations_zero [OF r] r by metis
qed

end
