(* ===== verification/Matrix_Stats.thy ===== *)
theory Matrix_Stats
  imports Traffic_Sessions
begin

text \<open>
  The statistics matrix of \<open>dynet-runtime/src/model/matrix_stats.rs\<close>: sessions are folded per
  (group, node), per (group, node, target) and per error signal into accumulators, which are then
  finished into rows. Counters are \<open>u64\<close> with wrapping addition; the rates are computed in
  \<open>u128\<close>, where the products of the source cannot overflow, and fall back to \<open>u32::MAX\<close>.

  The lemmas show what the counters of a row count, that every session of a row is a success, an
  error or active, and that the rates stay within a million parts per million.
\<close>

section \<open>Rows and accumulators\<close>

record MatrixNodeStats =
  mn_group_id :: string
  mn_node_id :: string
  mn_node_fingerprint :: string
  mn_session_count :: u64
  mn_success_count :: u64
  mn_error_count :: u64
  mn_effective_error_count :: u64
  mn_effective_error_millis :: u64
  mn_active_session_count :: u64
  mn_error_rate_ppm :: u32
  mn_effective_error_rate_ppm :: u32
  mn_avg_first_response_latency_ms :: "u128 option"
  mn_client_to_upstream_bytes :: u64
  mn_upstream_to_client_bytes :: u64
  mn_client_to_upstream_datagrams :: u64
  mn_upstream_to_client_datagrams :: u64
  mn_last_observed_at_unix_ms :: u128

record MatrixTargetNodeStats =
  mt_group_id :: string
  mt_node_id :: string
  mt_node_fingerprint :: string
  mt_target_scope :: string
  mt_target_value :: string
  mt_session_count :: u64
  mt_success_count :: u64
  mt_error_count :: u64
  mt_effective_error_count :: u64
  mt_effective_error_millis :: u64
  mt_active_session_count :: u64
  mt_error_rate_ppm :: u32
  mt_effective_error_rate_ppm :: u32
  mt_avg_first_response_latency_ms :: "u128 option"
  mt_client_to_upstream_bytes :: u64
  mt_upstream_to_client_bytes :: u64
  mt_client_to_upstream_datagrams :: u64
  mt_upstream_to_client_datagrams :: u64
  mt_last_observed_at_unix_ms :: u128

record MatrixErrorSignalStats =
  me_group_id :: string
  me_node_id :: string
  me_node_fingerprint :: string
  me_target_scope :: string
  me_target_value :: string
  me_node_protocol :: string
  me_error_class :: string
  me_error_code :: string
  me_error_side :: string
  me_error_phase :: string
  me_error_protocol_phase :: string
  me_error_score_impact :: string
  me_attempt_count :: u64
  me_logical_session_count :: u64
  me_effective_error_count :: u64
  me_effective_error_millis :: u64
  me_client_to_upstream_bytes :: u64
  me_upstream_to_client_bytes :: u64
  me_client_to_upstream_datagrams :: u64
  me_upstream_to_client_datagrams :: u64
  me_last_observed_at_unix_ms :: u128

record MatrixNodeStatsAccumulator =
  na_session_count :: u64
  na_success_count :: u64
  na_error_count :: u64
  na_effective_error_millis :: u64
  na_active_session_count :: u64
  na_first_response_latency_total_ms :: u128
  na_first_response_latency_count :: u64
  na_client_to_upstream_bytes :: u64
  na_upstream_to_client_bytes :: u64
  na_client_to_upstream_datagrams :: u64
  na_upstream_to_client_datagrams :: u64
  na_last_observed_at_unix_ms :: u128

record MatrixErrorSignalAccumulator =
  ea_attempt_count :: u64
  ea_logical_session_ids :: "u64 list"
  ea_effective_error_millis :: u64
  ea_client_to_upstream_bytes :: u64
  ea_upstream_to_client_bytes :: u64
  ea_client_to_upstream_datagrams :: u64
  ea_upstream_to_client_datagrams :: u64
  ea_last_observed_at_unix_ms :: u128

definition node_acc_default :: MatrixNodeStatsAccumulator where
  "node_acc_default = \<lparr>na_session_count = 0, na_success_count = 0, na_error_count = 0, na_effective_error_millis = 0, na_active_session_count = 0, na_first_response_latency_total_ms = 0, na_first_response_latency_count = 0, na_client_to_upstream_bytes = 0, na_upstream_to_client_bytes = 0, na_client_to_upstream_datagrams = 0, na_upstream_to_client_datagrams = 0, na_last_observed_at_unix_ms = 0\<rparr>"

definition signal_acc_default :: MatrixErrorSignalAccumulator where
  "signal_acc_default = \<lparr>ea_attempt_count = 0, ea_logical_session_ids = [], ea_effective_error_millis = 0, ea_client_to_upstream_bytes = 0, ea_upstream_to_client_bytes = 0, ea_client_to_upstream_datagrams = 0, ea_upstream_to_client_datagrams = 0, ea_last_observed_at_unix_ms = 0\<rparr>"

section \<open>Rates and weights\<close>

definition effective_error_millis :: "TrafficSession \<Rightarrow> u64" where
  "effective_error_millis session =
     (if ts_error_class session = Some ''client-aborted'' then 0
      else if ts_error_class session = Some ''response-interrupted'' \<and>
              0 < ts_upstream_to_client_bytes session then 250
      else if ts_error_class session = Some ''no-response-before-first-byte'' then 750
      else if ts_error_class session = Some ''response-interrupted'' then 750
      else 1000)"

definition millis_to_count :: "u64 \<Rightarrow> u64" where
  "millis_to_count v = (if 0 < v mod 1000 then v div 1000 + 1 else v div 1000)"

definition rate_ppm :: "u64 \<Rightarrow> u64 \<Rightarrow> u32" where
  "rate_ppm numerator denominator =
     (if denominator = 0 then 0 else u32_or_max (unat numerator * 1000000 div unat denominator))"

definition effective_rate_ppm :: "u64 \<Rightarrow> u64 \<Rightarrow> u32" where
  "effective_rate_ppm error_millis sessions =
     (if sessions = 0 then 0 else u32_or_max (unat error_millis * 1000 div unat sessions))"

section \<open>Keys of a session\<close>

definition split_list :: "string \<Rightarrow> string list" where
  "split_list value = filter (\<lambda>part. part \<noteq> []) (map trim (split_on CHR '','' value))"

definition selection_pairs :: "TrafficSession \<Rightarrow> (string \<times> string) list option" where
  "selection_pairs session =
     (case (ts_selection_groups session, ts_selection_nodes session) of
        (Some gs, Some ns) \<Rightarrow>
          (let groups = split_list gs; nodes = split_list ns in
           if groups = [] \<or> length groups \<noteq> length nodes then None else Some (zip groups nodes))
      | _ \<Rightarrow> None)"

definition optional_value :: "string option \<Rightarrow> string" where
  "optional_value value =
     (case value of
        None \<Rightarrow> ''unknown''
      | Some v \<Rightarrow> if trim v = [] then ''unknown'' else trim v)"

definition session_target_scope :: "TrafficSession \<Rightarrow> (string \<times> string) option" where
  "session_target_scope session =
     (let ip_scope = (case ts_target_ip session of
            Some ip \<Rightarrow> if trim ip \<noteq> [] then Some (''ip'', trim ip) else None
          | None \<Rightarrow> None)
      in case ts_target_domain session of
           Some domain \<Rightarrow>
             if trim domain \<noteq> [] then Some (''domain'', to_ascii_lowercase (trim domain)) else ip_scope
         | None \<Rightarrow> ip_scope)"

definition node_fingerprint :: "string \<Rightarrow> (string, string) btree \<Rightarrow> string" where
  "node_fingerprint node_id fingerprints_by_node =
     (case bt_get fingerprints_by_node node_id of
        Some fingerprint \<Rightarrow> if fingerprint \<noteq> [] then fingerprint else ''node-id:'' @ node_id
      | None \<Rightarrow> ''node-id:'' @ node_id)"

section \<open>Recording and finishing\<close>

definition node_acc_record :: "TrafficSession \<Rightarrow> MatrixNodeStatsAccumulator \<Rightarrow> MatrixNodeStatsAccumulator" where
  "node_acc_record session a =
     (let failed = ts_error session \<noteq> None;
          closed = ts_closed_at_unix_ms session \<noteq> None
      in \<lparr>na_session_count = na_session_count a + 1,
          na_success_count = (if \<not> failed \<and> closed then na_success_count a + 1 else na_success_count a),
          na_error_count = (if failed then na_error_count a + 1 else na_error_count a),
          na_effective_error_millis =
            (if failed then na_effective_error_millis a + effective_error_millis session
             else na_effective_error_millis a),
          na_active_session_count =
            (if \<not> failed \<and> \<not> closed then na_active_session_count a + 1 else na_active_session_count a),
          na_first_response_latency_total_ms =
            (case ts_first_response_latency_ms session of
               None \<Rightarrow> na_first_response_latency_total_ms a
             | Some latency \<Rightarrow> na_first_response_latency_total_ms a + latency),
          na_first_response_latency_count =
            (case ts_first_response_latency_ms session of
               None \<Rightarrow> na_first_response_latency_count a
             | Some _ \<Rightarrow> na_first_response_latency_count a + 1),
          na_client_to_upstream_bytes = na_client_to_upstream_bytes a + ts_client_to_upstream_bytes session,
          na_upstream_to_client_bytes = na_upstream_to_client_bytes a + ts_upstream_to_client_bytes session,
          na_client_to_upstream_datagrams =
            na_client_to_upstream_datagrams a + ts_client_to_upstream_datagrams session,
          na_upstream_to_client_datagrams =
            na_upstream_to_client_datagrams a + ts_upstream_to_client_datagrams session,
          na_last_observed_at_unix_ms =
            max (na_last_observed_at_unix_ms a) (ts_last_observed_at_unix_ms session)\<rparr>)"

definition node_acc_finish :: "MatrixNodeStatsAccumulator \<Rightarrow> string \<Rightarrow> string \<Rightarrow> string \<Rightarrow> MatrixNodeStats" where
  "node_acc_finish a group_id node_id fingerprint =
     \<lparr>mn_group_id = group_id,
      mn_node_id = node_id,
      mn_node_fingerprint = fingerprint,
      mn_session_count = na_session_count a,
      mn_success_count = na_success_count a,
      mn_error_count = na_error_count a,
      mn_effective_error_count = millis_to_count (na_effective_error_millis a),
      mn_effective_error_millis = na_effective_error_millis a,
      mn_active_session_count = na_active_session_count a,
      mn_error_rate_ppm = rate_ppm (na_error_count a) (na_session_count a),
      mn_effective_error_rate_ppm = effective_rate_ppm (na_effective_error_millis a) (na_session_count a),
      mn_avg_first_response_latency_ms =
        (if 0 < na_first_response_latency_count a
         then Some (na_first_response_latency_total_ms a div ucast (na_first_response_latency_count a))
         else None),
      mn_client_to_upstream_bytes = na_client_to_upstream_bytes a,
      mn_upstream_to_client_bytes = na_upstream_to_client_bytes a,
      mn_client_to_upstream_datagrams = na_client_to_upstream_datagrams a,
      mn_upstream_to_client_datagrams = na_upstream_to_client_datagrams a,
      mn_last_observed_at_unix_ms = na_last_observed_at_unix_ms a\<rparr>"

definition node_acc_finish_target ::
    "MatrixNodeStatsAccumulator \<Rightarrow> string \<Rightarrow> string \<Rightarrow> string \<Rightarrow> string \<Rightarrow> string \<Rightarrow> MatrixTargetNodeStats" where
  "node_acc_finish_target a group_id node_id fingerprint scope value =
     \<lparr>mt_group_id = group_id,
      mt_node_id = node_id,
      mt_node_fingerprint = fingerprint,
      mt_target_scope = scope,
      mt_target_value = value,
      mt_session_count = na_session_count a,
      mt_success_count = na_success_count a,
      mt_error_count = na_error_count a,
      mt_effective_error_count = millis_to_count (na_effective_error_millis a),
      mt_effective_error_millis = na_effective_error_millis a,
      mt_active_session_count = na_active_session_count a,
      mt_error_rate_ppm = rate_ppm (na_error_count a) (na_session_count a),
      mt_effective_error_rate_ppm = effective_rate_ppm (na_effective_error_millis a) (na_session_count a),
      mt_avg_first_response_latency_ms =
        (if 0 < na_first_response_latency_count a
         then Some (na_first_response_latency_total_ms a div ucast (na_first_response_latency_count a))
         else None),
      mt_client_to_upstream_bytes = na_client_to_upstream_bytes a,
      mt_upstream_to_client_bytes = na_upstream_to_client_bytes a,
      mt_client_to_upstream_datagrams = na_client_to_upstream_datagrams a,
      mt_upstream_to_client_datagrams = na_upstream_to_client_datagrams a,
      mt_last_observed_at_unix_ms = na_last_observed_at_unix_ms a\<rparr>"

definition signal_acc_record :: "TrafficSession \<Rightarrow> MatrixErrorSignalAccumulator \<Rightarrow> MatrixErrorSignalAccumulator" where
  "signal_acc_record session a =
         \<lparr>ea_attempt_count = ea_attempt_count a + 1,
          ea_logical_session_ids = List.insert (ts_session_id session) (ea_logical_session_ids a),
          ea_effective_error_millis = ea_effective_error_millis a + effective_error_millis session,
          ea_client_to_upstream_bytes = ea_client_to_upstream_bytes a + ts_client_to_upstream_bytes session,
          ea_upstream_to_client_bytes = ea_upstream_to_client_bytes a + ts_upstream_to_client_bytes session,
          ea_client_to_upstream_datagrams =
            ea_client_to_upstream_datagrams a + ts_client_to_upstream_datagrams session,
          ea_upstream_to_client_datagrams =
            ea_upstream_to_client_datagrams a + ts_upstream_to_client_datagrams session,
          ea_last_observed_at_unix_ms =
            max (ea_last_observed_at_unix_ms a) (ts_last_observed_at_unix_ms session)\<rparr>"

type_synonym signal_key =
  "string \<times> string \<times> string \<times> string \<times> string \<times> string \<times> string \<times> string \<times> string \<times> string \<times> string"

definition signal_acc_finish :: "MatrixErrorSignalAccumulator \<Rightarrow> signal_key \<Rightarrow> string \<Rightarrow> MatrixErrorSignalStats" where
  "signal_acc_finish a key fingerprint =
     (case key of (group_id, node_id, scope, value, protocol, cls, code, side, phase, protocol_phase, impact) \<Rightarrow>
     \<lparr>me_group_id = group_id,
      me_node_id = node_id,
      me_node_fingerprint = fingerprint,
      me_target_scope = scope,
      me_target_value = value,
      me_node_protocol = protocol,
      me_error_class = cls,
      me_error_code = code,
      me_error_side = side,
      me_error_phase = phase,
      me_error_protocol_phase = protocol_phase,
      me_error_score_impact = impact,
      me_attempt_count = ea_attempt_count a,
      me_logical_session_count = of_nat (length (ea_logical_session_ids a)),
      me_effective_error_count = millis_to_count (ea_effective_error_millis a),
      me_effective_error_millis = ea_effective_error_millis a,
      me_client_to_upstream_bytes = ea_client_to_upstream_bytes a,
      me_upstream_to_client_bytes = ea_upstream_to_client_bytes a,
      me_client_to_upstream_datagrams = ea_client_to_upstream_datagrams a,
      me_upstream_to_client_datagrams = ea_upstream_to_client_datagrams a,
      me_last_observed_at_unix_ms = ea_last_observed_at_unix_ms a\<rparr>)"

section \<open>The three tables\<close>

definition node_keys :: "TrafficSession \<Rightarrow> (string \<times> string) list" where
  "node_keys session = (case selection_pairs session of None \<Rightarrow> [] | Some pairs \<Rightarrow> pairs)"

definition node_stats_from_sessions ::
    "TrafficSession list \<Rightarrow> (string, string) btree \<Rightarrow> MatrixNodeStats list" where
  "node_stats_from_sessions sessions fingerprints_by_node =
     map (\<lambda>((group_id, node_id), a).
         node_acc_finish a group_id node_id (node_fingerprint node_id fingerprints_by_node))
       (bt_accumulate node_acc_default node_acc_record
         [(key, session). session \<leftarrow> sessions, key \<leftarrow> node_keys session])"

definition target_keys :: "TrafficSession \<Rightarrow> (string \<times> string \<times> string \<times> string) list" where
  "target_keys session =
     (case session_target_scope session of
        None \<Rightarrow> []
      | Some (scope, value) \<Rightarrow>
          map (\<lambda>(group_id, node_id). (group_id, node_id, scope, value)) (node_keys session))"

definition target_stats_from_sessions ::
    "TrafficSession list \<Rightarrow> (string, string) btree \<Rightarrow> MatrixTargetNodeStats list" where
  "target_stats_from_sessions sessions fingerprints_by_node =
     map (\<lambda>((group_id, node_id, scope, value), a).
         node_acc_finish_target a group_id node_id (node_fingerprint node_id fingerprints_by_node) scope value)
       (bt_accumulate node_acc_default node_acc_record
         [(key, session). session \<leftarrow> sessions, key \<leftarrow> target_keys session])"

definition signal_keys :: "TrafficSession \<Rightarrow> signal_key list" where
  "signal_keys session =
     (if ts_error session = None then []
      else (let (scope, value) =
                  (case session_target_scope session of None \<Rightarrow> (''unknown'', []) | Some sv \<Rightarrow> sv)
            in map (\<lambda>(group_id, node_id).
                 (group_id, node_id, scope, value, optional_value (ts_node_protocol session),
                  optional_value (ts_error_class session), optional_value (ts_error_code session),
                  optional_value (ts_error_side session), optional_value (ts_error_phase session),
                  optional_value (ts_error_protocol_phase session),
                  optional_value (ts_error_score_impact session)))
               (node_keys session)))"

definition error_signals_from_sessions ::
    "TrafficSession list \<Rightarrow> (string, string) btree \<Rightarrow> MatrixErrorSignalStats list" where
  "error_signals_from_sessions sessions fingerprints_by_node =
     map (\<lambda>(key, a). signal_acc_finish a key (node_fingerprint (fst (snd key)) fingerprints_by_node))
       (bt_accumulate signal_acc_default signal_acc_record
         [(key, session). session \<leftarrow> sessions, key \<leftarrow> signal_keys session])"

section \<open>What the counters count\<close>

definition failed :: "TrafficSession \<Rightarrow> bool" where
  "failed session \<longleftrightarrow> ts_error session \<noteq> None"

definition succeeded :: "TrafficSession \<Rightarrow> bool" where
  "succeeded session \<longleftrightarrow> ts_error session = None \<and> ts_closed_at_unix_ms session \<noteq> None"

definition still_active :: "TrafficSession \<Rightarrow> bool" where
  "still_active session \<longleftrightarrow> ts_error session = None \<and> ts_closed_at_unix_ms session = None"

lemmas session_kinds = failed_def succeeded_def still_active_def

text \<open>The sessions recorded under a key, in order, once per occurrence of the key.\<close>

definition occurrences :: "(TrafficSession \<Rightarrow> 'k list) \<Rightarrow> TrafficSession list \<Rightarrow> 'k \<Rightarrow> TrafficSession list" where
  "occurrences keys sessions k =
     values_of [(key, session). session \<leftarrow> sessions, key \<leftarrow> keys session] k"

lemma fold_record_counts:
  "na_session_count (fold node_acc_record xs a) = na_session_count a + of_nat (length xs)"
  "na_error_count (fold node_acc_record xs a) = na_error_count a + of_nat (length (filter failed xs))"
  "na_success_count (fold node_acc_record xs a) = na_success_count a + of_nat (length (filter succeeded xs))"
  "na_active_session_count (fold node_acc_record xs a) =
     na_active_session_count a + of_nat (length (filter still_active xs))"
  "na_effective_error_millis (fold node_acc_record xs a) =
     na_effective_error_millis a + sum_list (map effective_error_millis (filter failed xs))"
  by (induction xs arbitrary: a) (auto simp: node_acc_record_def Let_def session_kinds)

lemma length_by_kind:
  "length (filter succeeded xs) + length (filter failed xs) + length (filter still_active xs) = length xs"
  by (induction xs) (auto simp: session_kinds)

lemma effective_error_millis_le: "unat (effective_error_millis s) \<le> 1000"
  by (auto simp: effective_error_millis_def)

lemma sum_effective_millis:
  assumes "length xs * 1000 < 2 ^ 64"
  shows "unat (sum_list (map effective_error_millis xs)) \<le> 1000 * length xs"
  using assms
proof (induction xs)
  case (Cons x xs)
  then have IH: "unat (sum_list (map effective_error_millis xs)) \<le> 1000 * length xs" by simp
  have "unat (effective_error_millis x + sum_list (map effective_error_millis xs)) \<le>
      unat (effective_error_millis x) + unat (sum_list (map effective_error_millis xs))"
    by (rule unat_add_le)
  also have "\<dots> \<le> 1000 * length (x # xs)"
    using IH effective_error_millis_le [of x] by simp
  finally show ?case by simp
qed simp

lemma div_mul_le:
  fixes a b c :: nat
  assumes "a \<le> c * b"
  shows "a div b \<le> c"
  using assms by (cases "b = 0") (auto intro: order_trans [OF div_le_mono])

lemma unat_rate_ppm: "numerator \<le> denominator \<Longrightarrow> unat (rate_ppm numerator denominator) \<le> 1000000"
proof -
  assume "numerator \<le> denominator"
  then have "unat numerator * 1000000 div unat denominator \<le> 1000000"
    by (intro div_mul_le) (simp add: word_le_nat_alt)
  then show ?thesis by (simp add: rate_ppm_def unat_u32_or_max)
qed

text \<open>An accumulator of few enough sessions has consistent rates.\<close>

lemma accumulated_rates:
  assumes "length xs * 1000 < 2 ^ 64" and a: "a = fold node_acc_record xs node_acc_default"
  shows "unat (na_error_count a) \<le> unat (na_session_count a)"
    and "unat (na_effective_error_millis a) \<le> 1000 * unat (na_error_count a)"
    and "unat (effective_rate_ppm (na_effective_error_millis a) (na_session_count a)) \<le>
      unat (rate_ppm (na_error_count a) (na_session_count a))"
    and "unat (rate_ppm (na_error_count a) (na_session_count a)) \<le> 1000000"
proof -
  have len: "length xs < 2 ^ 64" "length (filter failed xs) < 2 ^ 64"
    using assms(1) length_filter_le [of failed xs] by linarith+
  have cnt: "unat (na_session_count a) = length xs" "unat (na_error_count a) = length (filter failed xs)"
    using len by (simp_all add: a fold_record_counts node_acc_default_def unat_of_nat take_bit_eq_mod)
  show le: "unat (na_error_count a) \<le> unat (na_session_count a)" by (simp add: cnt)
  have "length (filter failed xs) * 1000 < 2 ^ 64"
    using assms(1) length_filter_le [of failed xs] by linarith
  from sum_effective_millis [OF this]
  show ms: "unat (na_effective_error_millis a) \<le> 1000 * unat (na_error_count a)"
    by (simp add: cnt) (simp add: a fold_record_counts node_acc_default_def)
  have "unat (na_effective_error_millis a) * 1000 div unat (na_session_count a) \<le>
      unat (na_error_count a) * 1000000 div unat (na_session_count a)"
    using ms by (intro div_le_mono) simp
  moreover have "unat (na_error_count a) * 1000000 div unat (na_session_count a) \<le> 1000000"
    using le by (intro div_mul_le) simp
  ultimately show "unat (effective_rate_ppm (na_effective_error_millis a) (na_session_count a)) \<le>
      unat (rate_ppm (na_error_count a) (na_session_count a))"
    by (simp add: rate_ppm_def effective_rate_ppm_def unat_u32_or_max)
  show "unat (rate_ppm (na_error_count a) (na_session_count a)) \<le> 1000000"
    using le by (intro unat_rate_ppm) (simp add: word_le_nat_alt)
qed

lemma node_stats_row:
  assumes "row \<in> set (node_stats_from_sessions sessions fps)"
  obtains a where "row = node_acc_finish a (mn_group_id row) (mn_node_id row) (mn_node_fingerprint row)"
    "a = fold node_acc_record (occurrences node_keys sessions (mn_group_id row, mn_node_id row))
       node_acc_default"
    "occurrences node_keys sessions (mn_group_id row, mn_node_id row) \<noteq> []"
proof -
  from assms obtain g n a where
    mem: "((g, n), a) \<in> set (bt_accumulate node_acc_default node_acc_record
      [(key, session). session \<leftarrow> sessions, key \<leftarrow> node_keys session])"
    and row: "row = node_acc_finish a g n (node_fingerprint n fps)"
    unfolding node_stats_from_sessions_def by auto
  have ids: "mn_group_id row = g" "mn_node_id row = n" "mn_node_fingerprint row = node_fingerprint n fps"
    by (simp_all add: row node_acc_finish_def)
  have "occurrences node_keys sessions (g, n) \<noteq> []"
    "a = fold node_acc_record (occurrences node_keys sessions (g, n)) node_acc_default"
    using mem by (simp_all only: set_accumulate occurrences_def values_of_Nil_iff not_not)
  from row this(2,1) show ?thesis by (rule that [of a, unfolded ids])
qed

definition sample_session :: "string option \<Rightarrow> u128 option \<Rightarrow> TrafficSession" where
  "sample_session cls closed = (TrafficSession_new (the (session_update_from_event sample_event)))\<lparr>
     ts_selection_groups := Some ''GitHub, tail'', ts_selection_nodes := Some ''a,b'',
     ts_target_domain := Some ''Example.com'', ts_error_class := cls, ts_error := cls,
     ts_closed_at_unix_ms := closed\<rparr>"

definition sample_sessions :: "TrafficSession list" where
  "sample_sessions = [sample_session None None, sample_session None (Some 9),
     sample_session (Some ''response-interrupted'') (Some 9)]"

lemma node_stats_row_exists:
  assumes "occurrences node_keys sessions (g, n) \<noteq> []"
  shows "node_acc_finish (fold node_acc_record (occurrences node_keys sessions (g, n)) node_acc_default)
    g n (node_fingerprint n fps) \<in> set (node_stats_from_sessions sessions fps)"
proof -
  have "((g, n), fold node_acc_record (occurrences node_keys sessions (g, n)) node_acc_default) \<in>
      set (bt_accumulate node_acc_default node_acc_record
        [(key, session). session \<leftarrow> sessions, key \<leftarrow> node_keys session])"
    using assms by (simp only: set_accumulate occurrences_def values_of_Nil_iff not_not simp_thms)
  then show ?thesis unfolding node_stats_from_sessions_def by (force simp: image_iff)
qed

lemma sample_keys [simp]:
  "node_keys (sample_session c d) = [(''GitHub'', ''a''), (''tail'', ''b'')]"
proof -
  have "split_list ''GitHub, tail'' = [''GitHub'', ''tail'']" "split_list ''a,b'' = [''a'', ''b'']"
    by code_simp+
  then show ?thesis by (simp add: node_keys_def selection_pairs_def sample_session_def)
qed

lemma sample_occurrences:
  "occurrences node_keys sample_sessions (''GitHub'', ''a'') = sample_sessions"
  by (simp add: occurrences_def sample_sessions_def)

definition sample_row :: MatrixNodeStats where
  "sample_row = node_acc_finish (fold node_acc_record sample_sessions node_acc_default)
     ''GitHub'' ''a'' (node_fingerprint ''a'' [])"

lemma sample_row:
  "sample_row \<in> set (node_stats_from_sessions sample_sessions [])"
  "mn_group_id sample_row = ''GitHub''" "mn_node_id sample_row = ''a''"
  "mn_error_count sample_row = 1" "mn_session_count sample_row = 3"
proof -
  show "sample_row \<in> set (node_stats_from_sessions sample_sessions [])"
    using node_stats_row_exists [of sample_sessions "''GitHub''" "''a''" "[]"]
    unfolding sample_row_def sample_occurrences by (simp add: sample_sessions_def)
  show "mn_group_id sample_row = ''GitHub''" "mn_node_id sample_row = ''a''"
    by (simp_all add: sample_row_def node_acc_finish_def)
  show "mn_error_count sample_row = 1" "mn_session_count sample_row = 3"
    by (simp_all add: sample_row_def node_acc_finish_def fold_record_counts node_acc_default_def)
      (simp_all add: sample_sessions_def failed_def sample_session_def)
qed

section \<open>Properties\<close>

text \<open>
  The counters of a row of the node table count the sessions that went through its group and
  node: as many sessions as the pair occurs, each of them a success, an error or still active.
\<close>

theorem node_stats_counts:
  assumes "row \<in> set (node_stats_from_sessions sessions fps)"
  defines "occ \<equiv> occurrences node_keys sessions (mn_group_id row, mn_node_id row)"
  shows "occ \<noteq> [] \<and> mn_session_count row = of_nat (length occ) \<and>
    mn_success_count row = of_nat (length (filter succeeded occ)) \<and>
    mn_error_count row = of_nat (length (filter failed occ)) \<and>
    mn_active_session_count row = of_nat (length (filter still_active occ)) \<and>
    mn_session_count row = mn_success_count row + mn_error_count row + mn_active_session_count row"
proof -
  from assms(1) obtain a where
    row: "row = node_acc_finish a (mn_group_id row) (mn_node_id row) (mn_node_fingerprint row)"
    and a: "a = fold node_acc_record occ node_acc_default" and ne: "occ \<noteq> []"
    unfolding occ_def by (rule node_stats_row)
  have cols: "mn_session_count row = na_session_count a" "mn_success_count row = na_success_count a"
    "mn_error_count row = na_error_count a" "mn_active_session_count row = na_active_session_count a"
    by (subst row, simp add: node_acc_finish_def)+
  have "of_nat (length occ) = (of_nat (length (filter succeeded occ)) + of_nat (length (filter failed occ)) +
      of_nat (length (filter still_active occ)) :: u64)"
    by (metis length_by_kind of_nat_add)
  then show ?thesis
    unfolding cols a fold_record_counts using ne by (simp add: node_acc_default_def)
qed

theorem node_stats_counts_witness:
  "mn_session_count sample_row =
     mn_success_count sample_row + mn_error_count sample_row + mn_active_session_count sample_row \<and>
   mn_session_count sample_row = 3"
  using node_stats_counts [OF sample_row(1)] sample_row(5) by blast

text \<open>
  As long as the millisecond weights of a row's sessions fit a \<open>u64\<close>, the weighted error mass
  is at most a thousand per error and the rates are ordered and proper: the effective error rate
  is at most the error rate, which is at most a million parts per million.
\<close>

theorem node_stats_rates:
  assumes "row \<in> set (node_stats_from_sessions sessions fps)"
    and "length (occurrences node_keys sessions (mn_group_id row, mn_node_id row)) * 1000 < 2 ^ 64"
  shows "unat (mn_effective_error_millis row) \<le> 1000 * unat (mn_error_count row) \<and>
    mn_effective_error_rate_ppm row \<le> mn_error_rate_ppm row \<and> mn_error_rate_ppm row \<le> 1000000"
proof -
  from assms(1) obtain a where
    row: "row = node_acc_finish a (mn_group_id row) (mn_node_id row) (mn_node_fingerprint row)"
    and a: "a = fold node_acc_record (occurrences node_keys sessions (mn_group_id row, mn_node_id row))
      node_acc_default"
    by (rule node_stats_row)
  have cols: "mn_effective_error_millis row = na_effective_error_millis a"
    "mn_error_count row = na_error_count a"
    "mn_error_rate_ppm row = rate_ppm (na_error_count a) (na_session_count a)"
    "mn_effective_error_rate_ppm row = effective_rate_ppm (na_effective_error_millis a) (na_session_count a)"
    by (subst row, simp add: node_acc_finish_def)+
  from accumulated_rates [OF assms(2) a] show ?thesis
    by (simp add: cols word_le_nat_alt)
qed

theorem node_stats_rates_witness:
  "mn_effective_error_rate_ppm sample_row \<le> mn_error_rate_ppm sample_row \<and>
   mn_error_rate_ppm sample_row \<le> 1000000 \<and> mn_error_count sample_row = 1"
proof -
  have "length (occurrences node_keys sample_sessions (mn_group_id sample_row, mn_node_id sample_row)) * 1000
      < 2 ^ 64"
    unfolding sample_row(2,3) sample_occurrences by (simp add: sample_sessions_def)
  from node_stats_rates [OF sample_row(1) this] sample_row(4) show ?thesis by blast
qed

end
