(* ===== verification/Matrix_Scores.thy ===== *)
theory Matrix_Scores
  imports Matrix_Stats
begin

text \<open>
  Candidate scoring: the active selector of \<open>dynet-runtime/src/model/matrix_active.rs\<close> and the
  shadow selector of \<open>dynet-runtime/src/model/matrix_shadow.rs\<close>. Scores are \<open>i64\<close> with every
  operation wrapped (\<open>i64_add\<close>, \<open>i64_sub\<close>, \<open>i64_mul\<close>).

  The lemmas show that the score is the exact integer formula as long as the counters are
  plausible, that the selected node is a best candidate, that a node in cooldown or over its
  session cap is never selected over a healthy one of nearby priority, and that the shadow
  decision lists all candidates best first and marks the first.
\<close>

section \<open>Active selection\<close>

definition active_rollout_group :: "GroupId \<Rightarrow> bool" where
  "active_rollout_group group_id \<longleftrightarrow> group_id \<in> {''GitHub'', ''Common'', ''Tunnel''}"

definition u64_penalty :: "u64 \<Rightarrow> int" where
  "u64_penalty v = i64_or_max (unat v)"

definition latency_penalty :: "u128 option \<Rightarrow> int" where
  "latency_penalty v = i64_or_max (unat (min (case v of None \<Rightarrow> 0 | Some l \<Rightarrow> l) 100000))"

definition weighted_success_rate_ppm :: "u64 \<Rightarrow> u64 \<Rightarrow> u32" where
  "weighted_success_rate_ppm success completed_millis =
     (if completed_millis = 0 then 0
      else u32_or_max (unat success * 1000000000 div unat completed_millis))"

definition aggregate_penalty :: "MatrixNodeStats \<Rightarrow> int" where
  "aggregate_penalty stats =
     i64_add (i64_add (i64_add
       (i64_mul (uint (mn_effective_error_rate_ppm stats)) 100)
       (i64_mul (latency_penalty (mn_avg_first_response_latency_ms stats)) 1000))
       (i64_mul (u64_penalty (mn_active_session_count stats)) 10000))
       (i64_mul (u64_penalty (mn_session_count stats)) 10)"

definition target_penalty :: "MatrixTargetNodeStats \<Rightarrow> int" where
  "target_penalty stats =
     i64_add (i64_add (i64_add
       (i64_mul (uint (mt_effective_error_rate_ppm stats)) 100)
       (i64_mul (latency_penalty (mt_avg_first_response_latency_ms stats)) 1000))
       (i64_mul (u64_penalty (mt_active_session_count stats)) 10000))
       (i64_mul (u64_penalty (mt_session_count stats)) 10)"

definition capped_node :: "MatrixNodeStats \<Rightarrow> GroupThresholds \<Rightarrow> bool" where
  "capped_node stats thresholds =
     (case gt_max_active_sessions thresholds of
        None \<Rightarrow> False | Some limit \<Rightarrow> limit \<le> mn_active_session_count stats)"

definition cooled_node :: "MatrixNodeStats \<Rightarrow> GroupThresholds \<Rightarrow> bool" where
  "cooled_node stats thresholds =
     (let completed_millis = saturating_mul (mn_success_count stats) 1000 + mn_effective_error_millis stats
      in saturating_mul (gt_min_samples thresholds) 1000 \<le> completed_millis \<and>
         weighted_success_rate_ppm (mn_success_count stats) completed_millis < gt_min_success_rate_ppm thresholds)"

definition cooled_target :: "MatrixTargetNodeStats \<Rightarrow> GroupThresholds \<Rightarrow> bool" where
  "cooled_target stats thresholds =
     (let completed_millis = saturating_mul (mt_success_count stats) 1000 + mt_effective_error_millis stats
      in saturating_mul (gt_min_samples thresholds) 1000 \<le> completed_millis \<and>
         weighted_success_rate_ppm (mt_success_count stats) completed_millis < gt_min_success_rate_ppm thresholds)"

definition active_score ::
    "u32 \<Rightarrow> nat \<Rightarrow> GroupThresholds \<Rightarrow> MatrixTargetNodeStats option \<Rightarrow> MatrixNodeStats option \<Rightarrow> int" where
  "active_score priority rank thresholds target aggregate =
     (if target = None \<and> aggregate = None then
        i64_sub (i64_sub 4000000000000 (i64_mul (uint priority) 1000000000)) (i64_or_max rank)
      else
        (let score = i64_sub (i64_sub 1000000000000 (i64_mul (uint priority) 1000000000)) (i64_or_max rank);
             score = (case aggregate of
                 Some stats \<Rightarrow> if capped_node stats thresholds then i64_sub score 3000000000000 else score
               | None \<Rightarrow> score);
             score = (case aggregate of
                 Some stats \<Rightarrow>
                   (let score = i64_sub score (aggregate_penalty stats)
                    in if cooled_node stats thresholds then i64_sub score 2000000000000 else score)
               | None \<Rightarrow> score)
         in case target of
              Some stats \<Rightarrow>
                (let score = i64_sub score (target_penalty stats)
                 in if cooled_target stats thresholds then i64_sub score 2000000000000 else score)
            | None \<Rightarrow> score))"

definition context_target_scope :: "SelectionContext \<Rightarrow> string \<times> string" where
  "context_target_scope context =
     (case tc_domain (sc_target context) of
        Some domain \<Rightarrow>
          if trim domain \<noteq> [] then (''domain'', to_ascii_lowercase (trim domain))
          else (''ip'', show_ip (sa_ip (tc_address (sc_target context))))
      | None \<Rightarrow> (''ip'', show_ip (sa_ip (tc_address (sc_target context)))))"

definition matching_target_stats ::
    "SelectionContext \<Rightarrow> GroupId \<Rightarrow> NodeId \<Rightarrow> MatrixTargetNodeStats list \<Rightarrow> MatrixTargetNodeStats option" where
  "matching_target_stats context group_id node_id stats =
     (case context_target_scope context of (scope, value) \<Rightarrow>
        find (\<lambda>stats. mt_group_id stats = group_id \<and> mt_node_id stats = node_id \<and>
                mt_target_scope stats = scope \<and> mt_target_value stats = value) stats)"

definition matching_node_stats :: "GroupId \<Rightarrow> NodeId \<Rightarrow> MatrixNodeStats list \<Rightarrow> MatrixNodeStats option" where
  "matching_node_stats group_id node_id stats =
     find (\<lambda>stats. mn_group_id stats = group_id \<and> mn_node_id stats = node_id) stats"

definition scored_cmp :: "NodeId \<times> int \<Rightarrow> NodeId \<times> int \<Rightarrow> ordering" where
  "scored_cmp left right = then_with (cmp (snd left) (snd right)) (cmp (fst right) (fst left))"

definition candidate_score ::
    "SelectionContext \<Rightarrow> GroupId \<Rightarrow> GroupThresholds \<Rightarrow> MatrixNodeStats list \<Rightarrow> MatrixTargetNodeStats list \<Rightarrow>
     nat \<Rightarrow> MatrixCandidateInput \<Rightarrow> int" where
  "candidate_score context group_id thresholds node_stats target_stats rank candidate =
     active_score (mc_priority candidate) rank thresholds
       (matching_target_stats context group_id (mc_node_id candidate) target_stats)
       (matching_node_stats group_id (mc_node_id candidate) node_stats)"

definition select_active_candidate ::
    "SelectionContext \<Rightarrow> GroupId \<Rightarrow> GroupThresholds \<Rightarrow> MatrixCandidateInput list \<Rightarrow> MatrixNodeStats list \<Rightarrow>
     MatrixTargetNodeStats list \<Rightarrow> NodeId option" where
  "select_active_candidate context group_id thresholds candidates node_stats target_stats =
     (if \<not> active_rollout_group group_id then None
      else map_option fst
        (max_by scored_cmp
          (map (\<lambda>(rank, candidate).
              (mc_node_id candidate,
               candidate_score context group_id thresholds node_stats target_stats rank candidate))
            (enumerate 0 candidates))))"

section \<open>Shadow selection\<close>

definition MATRIX_SHADOW_LIMIT :: nat where "MATRIX_SHADOW_LIMIT = 1024"

record MatrixShadowCandidate =
  shc_node_id :: string
  shc_priority :: u32
  shc_score :: int
  shc_reason :: string
  shc_selected_by_actual :: bool
  shc_selected_by_shadow :: bool

record MatrixShadowDecision =
  shd_decision_id :: u64
  shd_session_id :: u64
  shd_observed_at_unix_ms :: u128
  shd_inbound :: string
  shd_group_id :: string
  shd_actual_node_id :: string
  shd_shadow_top_node_id :: "string option"
  shd_shadow_differs_from_actual :: bool
  shd_shadow_reason :: string
  shd_candidates :: "MatrixShadowCandidate list"

type_synonym MatrixShadowStore = "MatrixShadowDecision list"

definition shadow_record :: "MatrixShadowDecision \<Rightarrow> MatrixShadowStore \<Rightarrow> MatrixShadowStore" where
  "shadow_record decision decisions = push_bounded MATRIX_SHADOW_LIMIT decision decisions"

definition shadow_from_decisions :: "MatrixShadowDecision list \<Rightarrow> MatrixShadowStore" where
  "shadow_from_decisions decisions =
     fold shadow_record (rev (take MATRIX_SHADOW_LIMIT (rev decisions))) []"

definition shadow_snapshot :: "MatrixShadowStore \<Rightarrow> MatrixShadowDecision list" where
  "shadow_snapshot decisions = decisions"

definition stats_by_node :: "GroupId \<Rightarrow> MatrixNodeStats list \<Rightarrow> (string, MatrixNodeStats) btree" where
  "stats_by_node group_id node_stats =
     bt_collect (map (\<lambda>stats. (mn_node_id stats, stats))
       (filter (\<lambda>stats. mn_group_id stats = group_id) node_stats))"

definition target_scope_from_context :: "SelectionContext \<Rightarrow> (string \<times> string) option" where
  "target_scope_from_context context =
     (case tc_domain (sc_target context) of
        Some domain \<Rightarrow>
          if trim domain \<noteq> [] then Some (''domain'', to_ascii_lowercase (trim domain))
          else Some (''ip'', show_ip (sa_ip (tc_address (sc_target context))))
      | None \<Rightarrow> Some (''ip'', show_ip (sa_ip (tc_address (sc_target context)))))"

definition target_stats_by_node ::
    "SelectionContext \<Rightarrow> GroupId \<Rightarrow> MatrixTargetNodeStats list \<Rightarrow> (string, MatrixTargetNodeStats) btree" where
  "target_stats_by_node context group_id target_node_stats =
     (case target_scope_from_context context of
        None \<Rightarrow> []
      | Some (scope, value) \<Rightarrow>
        bt_collect (map (\<lambda>stats. (mt_node_id stats, stats))
          (filter (\<lambda>stats. mt_group_id stats = group_id \<and> mt_target_scope stats = scope \<and>
             mt_target_value stats = value) target_node_stats)))"

definition weighted_costs :: "int \<Rightarrow> u32 \<Rightarrow> u128 option \<Rightarrow> u64 \<Rightarrow> u64 \<Rightarrow> int" where
  "weighted_costs priority_score error_rate latency active sessions =
     i64_sub (i64_sub (i64_sub (i64_sub priority_score
       (i64_mul (uint error_rate) 100))
       (i64_mul (latency_penalty latency) 1000))
       (i64_mul (u64_penalty active) 10000))
       (i64_mul (u64_penalty sessions) 10)"

definition stats_balanced_score ::
    "u32 \<Rightarrow> nat \<Rightarrow> MatrixNodeStats option \<Rightarrow> MatrixTargetNodeStats option \<Rightarrow> int" where
  "stats_balanced_score priority rank stats target_stats =
     (let priority_penalty = i64_add (i64_mul (uint priority) 1000000000) (i64_or_max rank) in
      if target_stats = None \<and> stats = None then i64_sub 4000000000000 priority_penalty
      else (let priority_score = i64_sub 1000000000000 priority_penalty in
        case target_stats of
          Some ts \<Rightarrow> weighted_costs priority_score (mt_effective_error_rate_ppm ts)
            (mt_avg_first_response_latency_ms ts) (mt_active_session_count ts) (mt_session_count ts)
        | None \<Rightarrow>
            (case stats of
               None \<Rightarrow> priority_score
             | Some ns \<Rightarrow> weighted_costs priority_score (mn_effective_error_rate_ppm ns)
                 (mn_avg_first_response_latency_ms ns) (mn_active_session_count ns) (mn_session_count ns))))"

definition show_latency :: "u128 option \<Rightarrow> string" where
  "show_latency latency = (case latency of None \<Rightarrow> ''none'' | Some l \<Rightarrow> show_nat (unat l))"

definition stats_balanced_reason :: "MatrixNodeStats option \<Rightarrow> MatrixTargetNodeStats option \<Rightarrow> string" where
  "stats_balanced_reason stats target_stats =
     (case target_stats of
        Some ts \<Rightarrow>
          ''stats-balanced-shadow:target='' @ mt_target_scope ts @ '':'' @ mt_target_value ts @
          '',sessions='' @ show_u64 (mt_session_count ts) @ '',errors='' @ show_u64 (mt_error_count ts) @
          '',effectiveErrors='' @ show_u64 (mt_effective_error_count ts) @
          '',active='' @ show_u64 (mt_active_session_count ts) @
          '',latencyMs='' @ show_latency (mt_avg_first_response_latency_ms ts)
      | None \<Rightarrow>
          (case stats of
             None \<Rightarrow> ''stats-balanced-shadow:no-history''
           | Some ns \<Rightarrow>
               ''stats-balanced-shadow:sessions='' @ show_u64 (mn_session_count ns) @
               '',errors='' @ show_u64 (mn_error_count ns) @
               '',effectiveErrors='' @ show_u64 (mn_effective_error_count ns) @
               '',active='' @ show_u64 (mn_active_session_count ns) @
               '',latencyMs='' @ show_latency (mn_avg_first_response_latency_ms ns)))"

fun inbound_label :: "InboundKind \<Rightarrow> string" where
  "inbound_label InTcp = ''tcp''"
| "inbound_label InUdp = ''udp''"

definition shadow_cmp :: "MatrixShadowCandidate \<Rightarrow> MatrixShadowCandidate \<Rightarrow> ordering" where
  "shadow_cmp left right =
     then_with (cmp (shc_score right) (shc_score left)) (cmp (shc_node_id left) (shc_node_id right))"

definition shadow_candidate ::
    "SelectionDecision \<Rightarrow> (string, MatrixNodeStats) btree \<Rightarrow> (string, MatrixTargetNodeStats) btree \<Rightarrow>
     nat \<times> MatrixCandidateInput \<Rightarrow> MatrixShadowCandidate" where
  "shadow_candidate actual stats target_stats = (\<lambda>(rank, candidate).
     (let ns = bt_get stats (mc_node_id candidate);
          ts = bt_get target_stats (mc_node_id candidate)
      in \<lparr>shc_node_id = mc_node_id candidate, shc_priority = mc_priority candidate,
          shc_score = stats_balanced_score (mc_priority candidate) rank ns ts,
          shc_reason = stats_balanced_reason ns ts,
          shc_selected_by_actual = (mc_node_id candidate = sd_node_id actual),
          shc_selected_by_shadow = False\<rparr>))"

fun mark_first :: "MatrixShadowCandidate list \<Rightarrow> MatrixShadowCandidate list" where
  "mark_first [] = []"
| "mark_first (c # cs) = c\<lparr>shc_selected_by_shadow := True\<rparr> # cs"

definition score_candidates ::
    "u128 \<Rightarrow> SelectionContext \<Rightarrow> GroupId \<Rightarrow> SelectionDecision \<Rightarrow> MatrixCandidateInput list \<Rightarrow>
     MatrixNodeStats list \<Rightarrow> MatrixTargetNodeStats list \<Rightarrow> MatrixShadowDecision" where
  "score_candidates observed_at context group_id actual candidates node_stats target_node_stats =
     (let scored = sort_by shadow_cmp
            (map (shadow_candidate actual (stats_by_node group_id node_stats)
                (target_stats_by_node context group_id target_node_stats))
              (enumerate 0 candidates));
          top = (case scored of [] \<Rightarrow> None | c # _ \<Rightarrow> Some (shc_node_id c))
      in \<lparr>shd_decision_id = sd_decision_id actual, shd_session_id = sc_session_id context,
          shd_observed_at_unix_ms = observed_at, shd_inbound = inbound_label (sc_inbound context),
          shd_group_id = group_id, shd_actual_node_id = sd_node_id actual,
          shd_shadow_top_node_id = top,
          shd_shadow_differs_from_actual =
            (case top of None \<Rightarrow> False | Some node_id \<Rightarrow> node_id \<noteq> sd_node_id actual),
          shd_shadow_reason = ''stats-balanced-shadow'', shd_candidates = mark_first scored\<rparr>)"

section \<open>Exact scores\<close>

definition node_cost :: "MatrixNodeStats \<Rightarrow> int" where
  "node_cost s = uint (mn_effective_error_rate_ppm s) * 100 +
     latency_penalty (mn_avg_first_response_latency_ms s) * 1000 +
     uint (mn_active_session_count s) * 10000 + uint (mn_session_count s) * 10"

definition target_cost :: "MatrixTargetNodeStats \<Rightarrow> int" where
  "target_cost s = uint (mt_effective_error_rate_ppm s) * 100 +
     latency_penalty (mt_avg_first_response_latency_ms s) * 1000 +
     uint (mt_active_session_count s) * 10000 + uint (mt_session_count s) * 10"

definition node_counts_below :: "int \<Rightarrow> MatrixNodeStats \<Rightarrow> bool" where
  "node_counts_below n s \<longleftrightarrow> uint (mn_active_session_count s) \<le> n \<and> uint (mn_session_count s) \<le> n"

definition target_counts_below :: "int \<Rightarrow> MatrixTargetNodeStats \<Rightarrow> bool" where
  "target_counts_below n s \<longleftrightarrow> uint (mt_active_session_count s) \<le> n \<and> uint (mt_session_count s) \<le> n"

definition aggregate_part :: "GroupThresholds \<Rightarrow> MatrixNodeStats option \<Rightarrow> int" where
  "aggregate_part thresholds aggregate =
     (case aggregate of None \<Rightarrow> 0
      | Some s \<Rightarrow> (if capped_node s thresholds then 3000000000000 else 0) + node_cost s +
          (if cooled_node s thresholds then 2000000000000 else 0))"

definition target_part :: "GroupThresholds \<Rightarrow> MatrixTargetNodeStats option \<Rightarrow> int" where
  "target_part thresholds target =
     (case target of None \<Rightarrow> 0
      | Some s \<Rightarrow> target_cost s + (if cooled_target s thresholds then 2000000000000 else 0))"

lemma parts_None [simp]: "aggregate_part th None = 0" "target_part th None = 0"
  by (simp_all add: aggregate_part_def target_part_def)

text \<open>The score as a sum of integers, with the cooldown tests as the code makes them on its words.\<close>

definition summed_score ::
    "u32 \<Rightarrow> nat \<Rightarrow> GroupThresholds \<Rightarrow> MatrixTargetNodeStats option \<Rightarrow> MatrixNodeStats option \<Rightarrow> int" where
  "summed_score priority rank thresholds target aggregate =
     (if target = None \<and> aggregate = None then 4000000000000 else 1000000000000) -
     uint priority * 1000000000 - int rank -
     aggregate_part thresholds aggregate - target_part thresholds target"

lemma uint_u32_bounds: "0 \<le> uint (p :: u32)" "uint p < 4294967296"
  using uint_lt2p [of p] by simp_all

lemma u64_penalty_exact: "uint v \<le> 1000000000000 \<Longrightarrow> u64_penalty v = uint v"
  by (simp add: u64_penalty_def i64_or_max_def i64_defs flip: uint_nat)

lemma i64_or_max_exact: "n \<le> 1000000000 \<Longrightarrow> i64_or_max n = int n"
  by (simp add: i64_or_max_def i64_defs)

lemma latency_penalty_bounds: "0 \<le> latency_penalty l" "latency_penalty l \<le> 100000"
proof -
  have "unat (min x 100000 :: u128) \<le> 100000" for x
    by (simp add: min_def word_le_nat_alt)
  moreover have "0 \<le> i64_or_max n \<and> i64_or_max n \<le> 100000" if "n \<le> 100000" for n
    using that by (auto simp: i64_or_max_def i64_max_def)
  ultimately show "0 \<le> latency_penalty l" "latency_penalty l \<le> 100000"
    unfolding latency_penalty_def by blast+
qed

lemma i64_exact:
  assumes "- 9000000000000000000 \<le> x" "x \<le> 9000000000000000000"
  shows "in_i64 x"
  using assms by (simp add: i64_defs)

lemma penalty_sum_exact:
  assumes "0 \<le> e" "e < 4294967296" "0 \<le> l" "l \<le> 100000"
    "0 \<le> a" "a \<le> 1000000000000" "0 \<le> n" "n \<le> (1000000000000 :: int)"
  shows "i64_add (i64_add (i64_add (i64_mul e 100) (i64_mul l 1000)) (i64_mul a 10000)) (i64_mul n 10) =
    e * 100 + l * 1000 + a * 10000 + n * 10"
  using assms by (simp add: i64_mul_exact i64_add_exact i64_exact)

lemma aggregate_penalty_exact:
  "node_counts_below 1000000000000 s \<Longrightarrow> aggregate_penalty s = node_cost s"
  unfolding aggregate_penalty_def node_cost_def node_counts_below_def
  by (simp only: u64_penalty_exact, rule penalty_sum_exact)
    (auto simp: uint_u32_bounds latency_penalty_bounds)

lemma target_penalty_exact:
  "target_counts_below 1000000000000 s \<Longrightarrow> target_penalty s = target_cost s"
  unfolding target_penalty_def target_cost_def target_counts_below_def
  by (simp only: u64_penalty_exact, rule penalty_sum_exact)
    (auto simp: uint_u32_bounds latency_penalty_bounds)

lemma node_cost_bounds:
  assumes "node_counts_below 1000000000000 s"
  shows "0 \<le> node_cost s" "node_cost s \<le> 20000000000000000"
  using assms uint_u32_bounds [of "mn_effective_error_rate_ppm s"]
    latency_penalty_bounds [of "mn_avg_first_response_latency_ms s"]
    uint_ge_0 [of "mn_active_session_count s"] uint_ge_0 [of "mn_session_count s"]
  unfolding node_cost_def node_counts_below_def by linarith+

lemma target_cost_bounds:
  assumes "target_counts_below 1000000000000 s"
  shows "0 \<le> target_cost s" "target_cost s \<le> 20000000000000000"
  using assms uint_u32_bounds [of "mt_effective_error_rate_ppm s"]
    latency_penalty_bounds [of "mt_avg_first_response_latency_ms s"]
    uint_ge_0 [of "mt_active_session_count s"] uint_ge_0 [of "mt_session_count s"]
  unfolding target_cost_def target_counts_below_def by linarith+

lemma i64_sub_small:
  "- 9000000000000000000 \<le> x - c \<Longrightarrow> x - c \<le> 9000000000000000000 \<Longrightarrow> i64_sub x c = x - c"
  by (simp add: i64_sub_exact i64_exact)

lemma base_score_exact:
  assumes "0 \<le> c" "c \<le> 4000000000000" "rank \<le> 1000000000"
  shows "i64_sub (i64_sub c (i64_mul (uint (priority :: u32)) 1000000000)) (i64_or_max rank) =
    c - uint priority * 1000000000 - int rank"
proof -
  have p: "0 \<le> uint priority * 1000000000" "uint priority * 1000000000 \<le> 4294967296000000000"
    using uint_u32_bounds [of priority] by linarith+
  have "i64_mul (uint priority) 1000000000 = uint priority * 1000000000"
    using p by (intro i64_mul_exact i64_exact) linarith+
  moreover have "i64_sub c (uint priority * 1000000000) = c - uint priority * 1000000000"
    using p assms by (intro i64_sub_small) linarith+
  moreover have "i64_sub (c - uint priority * 1000000000) (int rank) = c - uint priority * 1000000000 - int rank"
    using p assms by (intro i64_sub_small) linarith+
  ultimately show ?thesis using assms by (simp add: i64_or_max_exact)
qed

text \<open>The two history parts, each subtracted from a score that leaves room for them.\<close>

lemma aggregate_part_exact:
  assumes "node_counts_below 1000000000000 s" "- 8000000000000000000 \<le> x" "x \<le> 4000000000000"
  shows "(let score = i64_sub (if capped_node s th then i64_sub x 3000000000000 else x) (aggregate_penalty s)
      in if cooled_node s th then i64_sub score 2000000000000 else score) =
    x - aggregate_part th (Some s)"
  using assms node_cost_bounds [OF assms(1)]
  by (simp add: Let_def aggregate_penalty_exact aggregate_part_def i64_sub_small)

lemma target_part_exact:
  assumes "target_counts_below 1000000000000 s" "- 8500000000000000000 \<le> x" "x \<le> 4000000000000"
  shows "(let score = i64_sub x (target_penalty s)
      in if cooled_target s th then i64_sub score 2000000000000 else score) = x - target_part th (Some s)"
  using assms target_cost_bounds [OF assms(1)]
  by (simp add: Let_def target_penalty_exact target_part_def i64_sub_small)

lemma aggregate_part_bounds:
  "(\<And>s. a = Some s \<Longrightarrow> node_counts_below 1000000000000 s) \<Longrightarrow>
   0 \<le> aggregate_part th a \<and> aggregate_part th a \<le> 21000000000000000"
  using node_cost_bounds by (cases a) (fastforce simp: aggregate_part_def)+

lemma active_score_eq_summed:
  assumes rank: "rank \<le> 1000000000"
    and agg: "\<And>s. aggregate = Some s \<Longrightarrow> node_counts_below 1000000000000 s"
    and tgt: "\<And>s. target = Some s \<Longrightarrow> target_counts_below 1000000000000 s"
  shows "active_score priority rank thresholds target aggregate =
    summed_score priority rank thresholds target aggregate"
proof (cases "target = None \<and> aggregate = None")
  case True
  then show ?thesis
    by (simp add: active_score_def summed_score_def base_score_exact [OF _ _ rank]
        aggregate_part_def target_part_def)
next
  case False
  define base where "base = 1000000000000 - uint priority * 1000000000 - int rank"
  have b: "- 5000000000000000000 \<le> base" "base \<le> 1000000000000"
    unfolding base_def using uint_u32_bounds [of priority] rank by linarith+
  define mid where "mid = base - aggregate_part thresholds aggregate"
  have m: "- 6000000000000000000 \<le> mid" "mid \<le> 1000000000000"
    using b aggregate_part_bounds [of aggregate thresholds] agg by (auto simp: mid_def)
  have "active_score priority rank thresholds target aggregate =
    (case target of
       Some s \<Rightarrow> (let score = i64_sub mid (target_penalty s)
         in if cooled_target s thresholds then i64_sub score 2000000000000 else score)
     | None \<Rightarrow> mid)"
  proof (cases aggregate)
    case None
    with False show ?thesis
      by (cases target) (simp_all add: active_score_def base_score_exact [OF _ _ rank] mid_def base_def
          aggregate_part_def Let_def)
  next
    case (Some s)
    have "mid = (let score = i64_sub (if capped_node s thresholds then i64_sub base 3000000000000 else base)
        (aggregate_penalty s)
      in if cooled_node s thresholds then i64_sub score 2000000000000 else score)"
      using aggregate_part_exact [OF agg [OF Some], of base thresholds] b by (simp add: mid_def Some)
    with Some show ?thesis
      by (simp only: active_score_def base_score_exact [OF _ _ rank] base_def option.simps simp_thms
          if_False Let_def)
  qed
  also have "\<dots> = mid - target_part thresholds target"
  proof (cases target)
    case None
    then show ?thesis by (simp add: target_part_def)
  next
    case (Some s)
    with target_part_exact [OF tgt [OF Some], of mid thresholds] m show ?thesis by simp
  qed
  finally show ?thesis using False by (auto simp: summed_score_def mid_def base_def)
qed

section \<open>Checked scores\<close>

text \<open>
  The score as a build with overflow checks computes it: every operation on \<open>i64\<close>, and the addition of \<open>u64\<close> in the cooldown tests,
  fails when its exact result does not fit. Saturating operations never fail.
\<close>

definition i64_checked :: "(int \<Rightarrow> int \<Rightarrow> int) \<Rightarrow> int option \<Rightarrow> int option \<Rightarrow> int option" where
  "i64_checked f x y = Option.bind x (\<lambda>a. Option.bind y (\<lambda>b. if in_i64 (f a b) then Some (f a b) else None))"

definition u64_checked_add :: "u64 \<Rightarrow> u64 \<Rightarrow> u64 option" where
  "u64_checked_add a b = (if unat a + unat b < 2 ^ 64 then Some (a + b) else None)"

definition checked_penalty :: "int \<Rightarrow> int \<Rightarrow> int \<Rightarrow> int \<Rightarrow> int option" where
  "checked_penalty e l a n =
     i64_checked (+) (i64_checked (+) (i64_checked (+)
       (i64_checked (*) (Some e) (Some 100))
       (i64_checked (*) (Some l) (Some 1000)))
       (i64_checked (*) (Some a) (Some 10000)))
       (i64_checked (*) (Some n) (Some 10))"

definition checked_cooled :: "u64 \<Rightarrow> u64 \<Rightarrow> GroupThresholds \<Rightarrow> bool option" where
  "checked_cooled success error_millis thresholds =
     map_option (\<lambda>completed_millis. saturating_mul (gt_min_samples thresholds) 1000 \<le> completed_millis \<and>
         weighted_success_rate_ppm success completed_millis < gt_min_success_rate_ppm thresholds)
       (u64_checked_add (saturating_mul success 1000) error_millis)"

definition checked_base :: "int \<Rightarrow> u32 \<Rightarrow> nat \<Rightarrow> int option" where
  "checked_base c priority rank =
     i64_checked (-) (i64_checked (-) (Some c) (i64_checked (*) (Some (uint priority)) (Some 1000000000))) (Some (i64_or_max rank))"

definition checked_deduct :: "bool option \<Rightarrow> int \<Rightarrow> int option \<Rightarrow> int option" where
  "checked_deduct test amount score =
     Option.bind test (\<lambda>t. if t then i64_checked (-) score (Some amount) else score)"

definition checked_aggregate :: "GroupThresholds \<Rightarrow> MatrixNodeStats \<Rightarrow> int option \<Rightarrow> int option" where
  "checked_aggregate thresholds s score =
     checked_deduct (checked_cooled (mn_success_count s) (mn_effective_error_millis s) thresholds) 2000000000000
       (i64_checked (-) (checked_deduct (Some (capped_node s thresholds)) 3000000000000 score)
         (checked_penalty (uint (mn_effective_error_rate_ppm s)) (latency_penalty (mn_avg_first_response_latency_ms s))
           (u64_penalty (mn_active_session_count s)) (u64_penalty (mn_session_count s))))"

definition checked_target :: "GroupThresholds \<Rightarrow> MatrixTargetNodeStats \<Rightarrow> int option \<Rightarrow> int option" where
  "checked_target thresholds s score =
     checked_deduct (checked_cooled (mt_success_count s) (mt_effective_error_millis s) thresholds) 2000000000000
       (i64_checked (-) score
         (checked_penalty (uint (mt_effective_error_rate_ppm s)) (latency_penalty (mt_avg_first_response_latency_ms s))
           (u64_penalty (mt_active_session_count s)) (u64_penalty (mt_session_count s))))"

definition checked_active_score ::
    "u32 \<Rightarrow> nat \<Rightarrow> GroupThresholds \<Rightarrow> MatrixTargetNodeStats option \<Rightarrow> MatrixNodeStats option \<Rightarrow> int option" where
  "checked_active_score priority rank thresholds target aggregate =
     (if target = None \<and> aggregate = None then checked_base 4000000000000 priority rank
      else
        (let score = checked_base 1000000000000 priority rank;
             score = (case aggregate of Some s \<Rightarrow> checked_aggregate thresholds s score | None \<Rightarrow> score)
         in case target of Some s \<Rightarrow> checked_target thresholds s score | None \<Rightarrow> score))"

text \<open>The score in unbounded arithmetic throughout.\<close>

definition exact_cooled :: "nat \<Rightarrow> nat \<Rightarrow> GroupThresholds \<Rightarrow> bool" where
  "exact_cooled success error_millis thresholds \<longleftrightarrow>
     unat (gt_min_samples thresholds) * 1000 \<le> success * 1000 + error_millis \<and>
     success * 1000000000 div (success * 1000 + error_millis) < unat (gt_min_success_rate_ppm thresholds)"

definition exact_aggregate :: "GroupThresholds \<Rightarrow> MatrixNodeStats option \<Rightarrow> int" where
  "exact_aggregate thresholds aggregate =
     (case aggregate of None \<Rightarrow> 0
      | Some s \<Rightarrow> (if capped_node s thresholds then 3000000000000 else 0) + node_cost s +
          (if exact_cooled (unat (mn_success_count s)) (unat (mn_effective_error_millis s)) thresholds then 2000000000000 else 0))"

definition exact_target :: "GroupThresholds \<Rightarrow> MatrixTargetNodeStats option \<Rightarrow> int" where
  "exact_target thresholds target =
     (case target of None \<Rightarrow> 0
      | Some s \<Rightarrow> target_cost s +
          (if exact_cooled (unat (mt_success_count s)) (unat (mt_effective_error_millis s)) thresholds then 2000000000000 else 0))"

definition exact_active_score ::
    "u32 \<Rightarrow> nat \<Rightarrow> GroupThresholds \<Rightarrow> MatrixTargetNodeStats option \<Rightarrow> MatrixNodeStats option \<Rightarrow> int" where
  "exact_active_score priority rank thresholds target aggregate =
     (if target = None \<and> aggregate = None then 4000000000000 else 1000000000000) -
     uint priority * 1000000000 - int rank - exact_aggregate thresholds aggregate - exact_target thresholds target"

text \<open>Rows whose counters leave room: at most a million millions sessions and successes, and a thousand times as many error millis.\<close>

definition node_row_small :: "MatrixNodeStats \<Rightarrow> bool" where
  "node_row_small s \<longleftrightarrow> node_counts_below 1000000000000 s \<and>
     unat (mn_success_count s) \<le> 1000000000000 \<and> unat (mn_effective_error_millis s) \<le> 1000000000000000"

definition target_row_small :: "MatrixTargetNodeStats \<Rightarrow> bool" where
  "target_row_small s \<longleftrightarrow> target_counts_below 1000000000000 s \<and>
     unat (mt_success_count s) \<le> 1000000000000 \<and> unat (mt_effective_error_millis s) \<le> 1000000000000000"

lemma i64_checked_Some [simp]: "in_i64 (f a b) \<Longrightarrow> i64_checked f (Some a) (Some b) = Some (f a b)"
  by (simp add: i64_checked_def)

lemma checked_cooled_exact:
  assumes "unat success \<le> 1000000000000" "unat error_millis \<le> 1000000000000000"
  shows "checked_cooled success error_millis th = Some (exact_cooled (unat success) (unat error_millis) th)"
proof -
  let ?c = "saturating_mul success 1000 + error_millis" and ?n = "unat success * 1000 + unat error_millis"
  have m: "unat (saturating_mul success 1000) = unat success * 1000" using assms(1) by (simp add: unat_saturating_mul)
  have room: "unat (saturating_mul success 1000) + unat error_millis < 2 ^ 64" using assms by (simp add: m)
  then have c: "unat ?c = ?n" by (simp add: m unat_add_lem [THEN iffD1])
  have "saturating_mul (gt_min_samples th) 1000 \<le> ?c \<longleftrightarrow> unat (gt_min_samples th) * 1000 \<le> ?n"
    using assms by (simp add: word_le_nat_alt c unat_saturating_mul min_le_iff_disj)
  moreover have "weighted_success_rate_ppm success ?c < gt_min_success_rate_ppm th \<longleftrightarrow>
      unat success * 1000000000 div ?n < unat (gt_min_success_rate_ppm th)"
  proof (cases "?c = 0")
    case True
    then have "?n = 0" using c by simp
    with True show ?thesis by (simp add: weighted_success_rate_ppm_def word_less_nat_alt)
  next
    case False
    moreover have "unat (gt_min_success_rate_ppm th) \<le> 2 ^ 32 - 1" using word_le_nat_alt [of "gt_min_success_rate_ppm th" "- 1"] by (simp add: unsigned_minus_1_eq_mask mask_eq_exp_minus_1)
    ultimately show ?thesis by (auto simp: weighted_success_rate_ppm_def word_less_nat_alt c unat_u32_or_max min_def)
  qed
  ultimately show ?thesis using room by (simp add: checked_cooled_def u64_checked_add_def exact_cooled_def)
qed

lemma checked_penalty_exact:
  assumes "0 \<le> e" "e < 4294967296" "0 \<le> l" "l \<le> 100000"
    "0 \<le> a" "a \<le> 1000000000000" "0 \<le> n" "n \<le> (1000000000000 :: int)"
  shows "checked_penalty e l a n = Some (e * 100 + l * 1000 + a * 10000 + n * 10)"
  using assms by (simp add: checked_penalty_def i64_exact)

lemma checked_base_exact:
  assumes "0 \<le> c" "c \<le> 4000000000000" "rank \<le> 1000000000"
  shows "checked_base c priority rank = Some (c - uint priority * 1000000000 - int rank)"
proof -
  have p: "0 \<le> uint priority * 1000000000" "uint priority * 1000000000 \<le> 4294967296000000000"
    using uint_u32_bounds [of priority] by linarith+
  have "in_i64 (uint priority * 1000000000)" "in_i64 (c - uint priority * 1000000000)" "in_i64 (c - uint priority * 1000000000 - int rank)"
    using p assms by (intro i64_exact; linarith)+
  then show ?thesis using assms(3) by (simp add: checked_base_def i64_or_max_exact)
qed

lemma checked_aggregate_exact:
  assumes "node_row_small s" "- 8000000000000000000 \<le> x" "x \<le> 4000000000000"
  shows "checked_aggregate th s (Some x) = Some (x - exact_aggregate th (Some s))"
proof -
  have "checked_penalty (uint (mn_effective_error_rate_ppm s)) (latency_penalty (mn_avg_first_response_latency_ms s))
      (u64_penalty (mn_active_session_count s)) (u64_penalty (mn_session_count s)) = Some (node_cost s)"
    using assms(1) unfolding node_row_small_def node_counts_below_def node_cost_def
    by (subst checked_penalty_exact) (auto simp: u64_penalty_exact uint_u32_bounds latency_penalty_bounds)
  then show ?thesis
    using assms node_cost_bounds [of s]
    by (simp add: checked_aggregate_def checked_deduct_def node_row_small_def checked_cooled_exact exact_aggregate_def i64_exact)
qed

lemma checked_target_exact:
  assumes "target_row_small s" "- 8500000000000000000 \<le> x" "x \<le> 4000000000000"
  shows "checked_target th s (Some x) = Some (x - exact_target th (Some s))"
proof -
  have "checked_penalty (uint (mt_effective_error_rate_ppm s)) (latency_penalty (mt_avg_first_response_latency_ms s))
      (u64_penalty (mt_active_session_count s)) (u64_penalty (mt_session_count s)) = Some (target_cost s)"
    using assms(1) unfolding target_row_small_def target_counts_below_def target_cost_def
    by (subst checked_penalty_exact) (auto simp: u64_penalty_exact uint_u32_bounds latency_penalty_bounds)
  then show ?thesis
    using assms target_cost_bounds [of s]
    by (simp add: checked_target_def checked_deduct_def target_row_small_def checked_cooled_exact exact_target_def i64_exact)
qed

lemma cooled_checked:
  "checked_cooled (mn_success_count s) (mn_effective_error_millis s) th = Some t \<Longrightarrow> cooled_node s th = t"
  "checked_cooled (mt_success_count u) (mt_effective_error_millis u) th = Some t \<Longrightarrow> cooled_target u th = t"
  by (auto simp: checked_cooled_def u64_checked_add_def cooled_node_def cooled_target_def Let_def split: if_splits)

lemma exact_score_summed:
  assumes "\<And>s. aggregate = Some s \<Longrightarrow> node_row_small s" "\<And>s. target = Some s \<Longrightarrow> target_row_small s"
  shows "summed_score priority rank th target aggregate = exact_active_score priority rank th target aggregate"
proof -
  have "cooled_node s th = exact_cooled (unat (mn_success_count s)) (unat (mn_effective_error_millis s)) th" if "aggregate = Some s" for s
    using assms(1) [OF that] by (intro cooled_checked checked_cooled_exact) (simp_all add: node_row_small_def)
  moreover have "cooled_target s th = exact_cooled (unat (mt_success_count s)) (unat (mt_effective_error_millis s)) th"
    if "target = Some s" for s
    using assms(2) [OF that] by (intro cooled_checked checked_cooled_exact) (simp_all add: target_row_small_def)
  ultimately show ?thesis
    by (simp add: summed_score_def exact_active_score_def aggregate_part_def exact_aggregate_def target_part_def exact_target_def
      split: option.split)
qed

lemma checked_score_exact:
  assumes rank: "rank \<le> 1000000000"
    and agg: "\<And>s. aggregate = Some s \<Longrightarrow> node_row_small s" and tgt: "\<And>s. target = Some s \<Longrightarrow> target_row_small s"
  shows "checked_active_score priority rank th target aggregate = Some (exact_active_score priority rank th target aggregate)"
proof -
  define base where "base = 1000000000000 - uint priority * 1000000000 - int rank"
  have b: "- 5000000000000000000 \<le> base" "base \<le> 1000000000000"
    unfolding base_def using uint_u32_bounds [of priority] rank by linarith+
  define mid where "mid = base - exact_aggregate th aggregate"
  have "0 \<le> exact_aggregate th aggregate \<and> exact_aggregate th aggregate \<le> 21000000000000000"
    using agg node_cost_bounds by (cases aggregate) (fastforce simp: exact_aggregate_def node_row_small_def)+
  then have m: "- 6000000000000000000 \<le> mid" "mid \<le> 1000000000000" using b by (simp_all add: mid_def)
  have agg_part: "(case aggregate of Some s \<Rightarrow> checked_aggregate th s (checked_base 1000000000000 priority rank)
      | None \<Rightarrow> checked_base 1000000000000 priority rank) = Some mid"
    using agg b rank
    by (cases aggregate) (simp_all add: checked_base_exact checked_aggregate_exact mid_def exact_aggregate_def flip: base_def)
  have tgt_part: "(case target of Some s \<Rightarrow> checked_target th s (Some mid) | None \<Rightarrow> Some mid) = Some (mid - exact_target th target)"
    using tgt m by (cases target) (simp_all add: checked_target_exact exact_target_def)
  show ?thesis
  proof (cases "target = None \<and> aggregate = None")
    case True
    with rank show ?thesis
      by (simp add: checked_active_score_def exact_active_score_def checked_base_exact exact_aggregate_def exact_target_def)
  next
    case False
    then have "checked_active_score priority rank th target aggregate = Some (mid - exact_target th target)"
      unfolding checked_active_score_def Let_def agg_part tgt_part by (simp only: if_False)
    moreover have "exact_active_score priority rank th target aggregate = mid - exact_target th target"
      using False by (auto simp: exact_active_score_def mid_def base_def)
    ultimately show ?thesis by simp
  qed
qed

section \<open>The selected candidate\<close>

interpretation scored_rank: total_ranking scored_cmp
proof -
  show "total_ranking scored_cmp"
    using total_ranking_lex_asc_desc [of snd fst] by (simp add: scored_cmp_def [abs_def])
qed

interpretation shadow_rank: total_ranking shadow_cmp
proof -
  show "total_ranking shadow_cmp"
    using total_ranking_lex_desc [of shc_score shc_node_id] by (simp add: shadow_cmp_def [abs_def])
qed

lemma select_active_best:
  assumes "select_active_candidate ctx g th cands ns ts = Some n"
  obtains i where "i < length cands" "mc_node_id (cands ! i) = n" "active_rollout_group g"
    "\<And>j. j < length cands \<Longrightarrow>
       candidate_score ctx g th ns ts j (cands ! j) < candidate_score ctx g th ns ts i (cands ! i) \<or>
       candidate_score ctx g th ns ts j (cands ! j) = candidate_score ctx g th ns ts i (cands ! i) \<and>
       n \<le> mc_node_id (cands ! j)"
proof -
  let ?sc = "candidate_score ctx g th ns ts"
  let ?f = "\<lambda>(rank, candidate). (mc_node_id candidate, ?sc rank candidate)"
  have roll: "active_rollout_group g"
    using assms by (auto simp: select_active_candidate_def split: if_splits)
  from assms obtain sc where m: "max_by scored_cmp (map ?f (enumerate 0 cands)) = Some (n, sc)"
    by (auto simp: select_active_candidate_def split: if_splits)
  from max_by_mem [OF m] obtain i where i: "i < length cands" "n = mc_node_id (cands ! i)"
    "sc = ?sc i (cands ! i)"
    by (auto simp: in_set_enumerate_eq)
  have "?sc j (cands ! j) < sc \<or> ?sc j (cands ! j) = sc \<and> n \<le> mc_node_id (cands ! j)"
    if "j < length cands" for j
  proof -
    have "?f (j, cands ! j) \<in> set (map ?f (enumerate 0 cands))"
      using that by (force simp: in_set_enumerate_eq)
    from scored_rank.max_by_upper [OF m this] show ?thesis
      by (auto simp: scored_cmp_def then_with_iffs)
  qed
  with i roll show ?thesis by (intro that [of i]) auto
qed

lemma select_active_None_iff:
  "select_active_candidate ctx g th cands ns ts = None \<longleftrightarrow> \<not> active_rollout_group g \<or> cands = []"
  by (auto simp: select_active_candidate_def enumerate_eq_zip)

text \<open>A penalised candidate is over its session cap or in cooldown.\<close>

definition penalised ::
    "SelectionContext \<Rightarrow> GroupId \<Rightarrow> GroupThresholds \<Rightarrow> MatrixNodeStats list \<Rightarrow> MatrixTargetNodeStats list \<Rightarrow>
     NodeId \<Rightarrow> bool" where
  "penalised ctx g th ns ts n \<longleftrightarrow>
     (case matching_node_stats g n ns of None \<Rightarrow> False | Some s \<Rightarrow> capped_node s th \<or> cooled_node s th) \<or>
     (case matching_target_stats ctx g n ts of None \<Rightarrow> False | Some s \<Rightarrow> cooled_target s th)"

text \<open>Rows as the statistics produce them: proper rates, and counters of at most a million.\<close>

definition rows_ok :: "MatrixNodeStats list \<Rightarrow> MatrixTargetNodeStats list \<Rightarrow> bool" where
  "rows_ok ns ts \<longleftrightarrow>
     (\<forall>s\<in>set ns. node_counts_below 1000000 s \<and> mn_effective_error_rate_ppm s \<le> 1000000) \<and>
     (\<forall>s\<in>set ts. target_counts_below 1000000 s \<and> mt_effective_error_rate_ppm s \<le> 1000000)"

lemma cost_small:
  "node_counts_below 1000000 s \<Longrightarrow> mn_effective_error_rate_ppm s \<le> 1000000 \<Longrightarrow>
   0 \<le> node_cost s \<and> node_cost s \<le> 11000000000"
  "target_counts_below 1000000 t \<Longrightarrow> mt_effective_error_rate_ppm t \<le> 1000000 \<Longrightarrow>
   0 \<le> target_cost t \<and> target_cost t \<le> 11000000000"
  using latency_penalty_bounds [of "mn_avg_first_response_latency_ms s"]
    latency_penalty_bounds [of "mt_avg_first_response_latency_ms t"]
  by (simp_all add: node_cost_def target_cost_def node_counts_below_def target_counts_below_def word_le_def)

lemma matching_node_row: "matching_node_stats g n ns = Some s \<Longrightarrow> s \<in> set ns"
  by (auto simp: matching_node_stats_def dest: find_SomeD)

lemma matching_target_row: "matching_target_stats ctx g n ts = Some s \<Longrightarrow> s \<in> set ts"
  by (auto simp: matching_target_stats_def split_def dest: find_SomeD)

lemma candidate_score_exact:
  assumes "rows_ok ns ts" "rank \<le> 1000000000"
  shows "candidate_score ctx g th ns ts rank c = summed_score (mc_priority c) rank th
    (matching_target_stats ctx g (mc_node_id c) ts) (matching_node_stats g (mc_node_id c) ns)"
proof -
  have "node_counts_below 1000000000000 s" if "s \<in> set ns" for s
    using assms(1) that by (fastforce simp: rows_ok_def node_counts_below_def)
  moreover have "target_counts_below 1000000000000 s" if "s \<in> set ts" for s
    using assms(1) that by (fastforce simp: rows_ok_def target_counts_below_def)
  ultimately show ?thesis
    unfolding candidate_score_def
    by (intro active_score_eq_summed assms(2)) (auto dest: matching_node_row matching_target_row)
qed

text \<open>History costs at most 22 milliards besides the penalties of two billions and more.\<close>

lemma parts_small:
  assumes "rows_ok ns ts"
  shows "\<not> penalised ctx g th ns ts n \<Longrightarrow>
      aggregate_part th (matching_node_stats g n ns) + target_part th (matching_target_stats ctx g n ts)
        \<le> 22000000000"
    and "penalised ctx g th ns ts n \<Longrightarrow>
      2000000000000 \<le> aggregate_part th (matching_node_stats g n ns) +
        target_part th (matching_target_stats ctx g n ts) \<and>
      (matching_target_stats ctx g n ts \<noteq> None \<or> matching_node_stats g n ns \<noteq> None)"
proof -
  have ns: "0 \<le> node_cost s \<and> node_cost s \<le> 11000000000" if "matching_node_stats g n ns = Some s" for s
    using assms matching_node_row [OF that] by (intro cost_small) (auto simp: rows_ok_def)
  have ts: "0 \<le> target_cost s \<and> target_cost s \<le> 11000000000"
    if "matching_target_stats ctx g n ts = Some s" for s
    using assms matching_target_row [OF that] by (intro cost_small) (auto simp: rows_ok_def)
  show "\<not> penalised ctx g th ns ts n \<Longrightarrow>
      aggregate_part th (matching_node_stats g n ns) + target_part th (matching_target_stats ctx g n ts)
        \<le> 22000000000"
    using ns ts
    by (auto simp: penalised_def aggregate_part_def target_part_def split: option.splits)
  show "penalised ctx g th ns ts n \<Longrightarrow>
      2000000000000 \<le> aggregate_part th (matching_node_stats g n ns) +
        target_part th (matching_target_stats ctx g n ts) \<and>
      (matching_target_stats ctx g n ts \<noteq> None \<or> matching_node_stats g n ns \<noteq> None)"
    using ns ts
    by (auto simp: penalised_def aggregate_part_def target_part_def split: option.splits)
qed

section \<open>Properties\<close>

text \<open>
  C39. As long as a row counts at most a million millions sessions and successes and a thousand times as many error millis, and the
  rank is at most a milliard, no operation of the active score overflows: with every operation checked, the additions of the cooldown tests
  included, the computation succeeds, and it and the wrapping one give the value of the formula in
  unbounded arithmetic, whose cooldown tests are exact too.
\<close>

theorem active_score_no_overflow:
  assumes "rank \<le> 1000000000"
    and "\<forall>s. aggregate = Some s \<longrightarrow> node_row_small s"
    and "\<forall>s. target = Some s \<longrightarrow> target_row_small s"
  shows "checked_active_score priority rank thresholds target aggregate =
      Some (exact_active_score priority rank thresholds target aggregate) \<and>
    active_score priority rank thresholds target aggregate = exact_active_score priority rank thresholds target aggregate"
proof -
  have "active_score priority rank thresholds target aggregate = summed_score priority rank thresholds target aggregate"
    using assms by (intro active_score_eq_summed) (auto simp: node_row_small_def target_row_small_def)
  then show ?thesis using assms checked_score_exact exact_score_summed by simp
qed

theorem active_score_no_overflow_witness:
  "checked_active_score 7 2 GroupThresholds_default None (Some sample_row) =
      Some (exact_active_score 7 2 GroupThresholds_default None (Some sample_row)) \<and>
   active_score 7 2 GroupThresholds_default None (Some sample_row) =
      exact_active_score 7 2 GroupThresholds_default None (Some sample_row)"
proof -
  have "mn_active_session_count sample_row = 1"
    by (simp add: sample_row_def node_acc_finish_def fold_record_counts node_acc_default_def)
      (simp add: sample_sessions_def still_active_def sample_session_def)
  moreover have "unat (mn_success_count sample_row) \<le> 1000000000000" "unat (mn_effective_error_millis sample_row) \<le> 1000000000000000"
    by code_simp+
  ultimately have "node_row_small sample_row"
    by (simp add: node_row_small_def node_counts_below_def sample_row(5))
  then show ?thesis by (intro active_score_no_overflow) auto
qed

text \<open>
  C38. The active selector answers with a best candidate: it answers only for the rollout groups
  and then always when there are candidates; its answer is a candidate whose score no other
  candidate exceeds, and no candidate of the same score has a smaller node id.
\<close>

theorem select_active_candidate_best:
  "(select_active_candidate ctx g th cands ns ts = None \<and> (\<not> active_rollout_group g \<or> cands = [])) \<or>
   (active_rollout_group g \<and> (\<exists>i<length cands.
      select_active_candidate ctx g th cands ns ts = Some (mc_node_id (cands ! i)) \<and>
      (\<forall>j<length cands.
         candidate_score ctx g th ns ts j (cands ! j) < candidate_score ctx g th ns ts i (cands ! i) \<or>
         candidate_score ctx g th ns ts j (cands ! j) = candidate_score ctx g th ns ts i (cands ! i) \<and>
         mc_node_id (cands ! i) \<le> mc_node_id (cands ! j))))"
proof (cases "select_active_candidate ctx g th cands ns ts")
  case None
  then show ?thesis using select_active_None_iff by blast
next
  case (Some n)
  then obtain i where "i < length cands" "mc_node_id (cands ! i) = n" "active_rollout_group g"
    "\<forall>j<length cands.
       candidate_score ctx g th ns ts j (cands ! j) < candidate_score ctx g th ns ts i (cands ! i) \<or>
       candidate_score ctx g th ns ts j (cands ! j) = candidate_score ctx g th ns ts i (cands ! i) \<and>
       n \<le> mc_node_id (cands ! j)"
    by (rule select_active_best) blast
  with Some show ?thesis by blast
qed

definition sample_context :: SelectionContext where
  "sample_context = \<lparr>sc_session_id = 1, sc_inbound = InTcp,
     sc_target = fixed_upstream (mk_sockaddr (V4 16843009) 443)\<rparr>"

theorem select_active_candidate_best_witness:
  "select_active_candidate sample_context ''GitHub'' GroupThresholds_default
     [\<lparr>mc_node_id = ''b'', mc_priority = 0\<rparr>] [] [] = Some ''b''"
  using select_active_candidate_best [of sample_context "''GitHub''" GroupThresholds_default
      "[\<lparr>mc_node_id = ''b'', mc_priority = 0\<rparr>]" "[]" "[]"]
  by (auto simp: active_rollout_group_def)

text \<open>
  Cooldown and session caps steer traffic away: over statistics with proper rates and at most
  a million sessions per row, the selected node is in cooldown or over its cap only if every
  candidate whose priority number is at most a thousand larger is so too.
\<close>

theorem select_avoids_penalised:
  assumes rows: "rows_ok ns ts" and len: "length cands \<le> 1000000000"
    and sel: "select_active_candidate ctx g th cands ns ts = Some n"
    and pen: "penalised ctx g th ns ts n"
  shows "\<exists>c\<in>set cands. mc_node_id c = n \<and>
    (\<forall>d\<in>set cands. unat (mc_priority d) \<le> unat (mc_priority c) + 1000 \<longrightarrow>
       penalised ctx g th ns ts (mc_node_id d))"
proof -
  from sel obtain i where i: "i < length cands" "mc_node_id (cands ! i) = n" "active_rollout_group g"
    and best: "\<forall>j<length cands.
      candidate_score ctx g th ns ts j (cands ! j) < candidate_score ctx g th ns ts i (cands ! i) \<or>
      candidate_score ctx g th ns ts j (cands ! j) = candidate_score ctx g th ns ts i (cands ! i) \<and>
      n \<le> mc_node_id (cands ! j)"
    by (rule select_active_best) blast
  have "penalised ctx g th ns ts (mc_node_id d)"
    if d: "d \<in> set cands" "unat (mc_priority d) \<le> unat (mc_priority (cands ! i)) + 1000" for d
  proof (rule ccontr)
    assume healthy: "\<not> penalised ctx g th ns ts (mc_node_id d)"
    from d obtain j where j: "j < length cands" "cands ! j = d" by (auto simp: in_set_conv_nth)
    have prio: "uint (mc_priority d) \<le> uint (mc_priority (cands ! i)) + 1000"
      using d(2) unfolding uint_nat by linarith
    have "candidate_score ctx g th ns ts i (cands ! i) \<le>
        1000000000000 - uint (mc_priority (cands ! i)) * 1000000000 - int i - 2000000000000"
      using parts_small(2) [OF rows pen] i len
      by (auto simp: candidate_score_exact [OF rows] summed_score_def)
    moreover have "1000000000000 - uint (mc_priority d) * 1000000000 - int j - 22000000000 \<le>
        candidate_score ctx g th ns ts j (cands ! j)"
      using parts_small(1) [OF rows healthy] j len
      by (simp add: candidate_score_exact [OF rows] summed_score_def)
    moreover have "int j \<le> 1000000000" using j len by simp
    moreover have "candidate_score ctx g th ns ts j (cands ! j) \<le> candidate_score ctx g th ns ts i (cands ! i)"
      using best j(1) by (auto intro: less_imp_le)
    ultimately show False using prio by linarith
  qed
  then show ?thesis using i(1,2) nth_mem [OF i(1)] by blast
qed

definition healthy_row :: MatrixNodeStats where
  "healthy_row = sample_row\<lparr>mn_effective_error_millis := 0, mn_effective_error_rate_ppm := 0\<rparr>"

definition cooled_row :: MatrixNodeStats where
  "cooled_row = healthy_row\<lparr>mn_success_count := 0, mn_effective_error_millis := 3000\<rparr>"

text \<open>With a single candidate in cooldown the selector has no choice.\<close>

theorem select_avoids_penalised_witness:
  "\<exists>c. c \<in> set [\<lparr>mc_node_id = ''a'', mc_priority = 0\<rparr>] \<and> mc_node_id c = ''a'' \<and>
     penalised sample_context ''GitHub'' GroupThresholds_default [cooled_row] [] (mc_node_id c)"
proof -
  let ?cands = "[\<lparr>mc_node_id = ''a'', mc_priority = 0\<rparr>]"
  have row: "mn_group_id cooled_row = ''GitHub''" "mn_node_id cooled_row = ''a''"
    "mn_active_session_count cooled_row = 1" "mn_session_count cooled_row = 3"
    by (simp_all add: cooled_row_def healthy_row_def sample_row)
      (simp add: sample_row_def node_acc_finish_def fold_record_counts node_acc_default_def,
        simp add: sample_sessions_def still_active_def sample_session_def)
  have rows: "rows_ok [cooled_row] []"
    by (simp add: rows_ok_def node_counts_below_def row) (simp add: cooled_row_def healthy_row_def)
  have "cooled_node cooled_row GroupThresholds_default"
    by (simp add: cooled_node_def cooled_row_def GroupThresholds_default_def saturating_mul_def
        weighted_success_rate_ppm_def Let_def u32_or_max_def)
  then have pen: "penalised sample_context ''GitHub'' GroupThresholds_default [cooled_row] [] ''a''"
    by (simp add: penalised_def matching_node_stats_def row)
  have sel: "select_active_candidate sample_context ''GitHub'' GroupThresholds_default ?cands [cooled_row] [] = Some ''a''"
    by (simp add: select_active_candidate_def active_rollout_group_def)
  have "length ?cands \<le> 1000000000" by simp
  from select_avoids_penalised [OF rows this sel pen] show ?thesis by fastforce
qed

text \<open>
  The shadow decision ranks all candidates: it lists every candidate once, with its score and
  reason, from the best score to the worst and by node id among equals; the first one, and only
  it, is marked as the shadow's choice and reported as the top node, and the flag that the
  shadow differs compares it with the node actually selected.
\<close>

theorem score_candidates_ranked:
  fixes dec ns ts cands g ctx t
  defines "sh \<equiv> score_candidates t ctx g dec cands ns ts"
  defines "scored \<equiv> map (shadow_candidate dec (stats_by_node g ns) (target_stats_by_node ctx g ts))
    (enumerate 0 cands)"
  shows "mset (map (\<lambda>c. c\<lparr>shc_selected_by_shadow := False\<rparr>) (shd_candidates sh)) = mset scored \<and>
    sorted_wrt (\<lambda>a b. shc_score b < shc_score a \<or> shc_score a = shc_score b \<and> shc_node_id a \<le> shc_node_id b)
      (shd_candidates sh) \<and>
    map shc_selected_by_shadow (shd_candidates sh) = map (\<lambda>i. i = 0) [0..<length cands] \<and>
    shd_shadow_top_node_id sh = (if cands = [] then None else Some (shc_node_id (hd (shd_candidates sh)))) \<and>
    (shd_shadow_differs_from_actual sh \<longleftrightarrow>
       cands \<noteq> [] \<and> shc_node_id (hd (shd_candidates sh)) \<noteq> sd_node_id dec)"
proof -
  define srt where "srt = sort_by shadow_cmp scored"
  have unmarked: "c\<lparr>shc_selected_by_shadow := False\<rparr> = c" "\<not> shc_selected_by_shadow c" if "c \<in> set srt" for c
    using that by (auto simp: srt_def scored_def shadow_candidate_def Let_def)
  have cands: "shd_candidates sh = mark_first srt"
    and top: "shd_shadow_top_node_id sh = (case srt of [] \<Rightarrow> None | c # _ \<Rightarrow> Some (shc_node_id c))"
    and differs: "shd_shadow_differs_from_actual sh =
      (case shd_shadow_top_node_id sh of None \<Rightarrow> False | Some n \<Rightarrow> n \<noteq> sd_node_id dec)"
    by (simp_all add: sh_def score_candidates_def srt_def scored_def Let_def)
  have len: "length srt = length cands" by (simp add: srt_def scored_def)
  have sorted: "sorted_wrt (\<lambda>a b. shc_score b < shc_score a \<or>
      shc_score a = shc_score b \<and> shc_node_id a \<le> shc_node_id b) srt"
    using shadow_rank.sorted_sort_by [of scored] unfolding srt_def
    by (rule sorted_wrt_mono_rel [rotated]) (auto simp: shadow_cmp_def then_with_iffs)
  have mset: "mset srt = mset scored" by (simp add: srt_def)
  show ?thesis
  proof (cases srt)
    case Nil
    with len cands top differs mset show ?thesis by simp
  next
    case (Cons c cs)
    have "map (\<lambda>c. c\<lparr>shc_selected_by_shadow := False\<rparr>) (mark_first srt) = srt"
      using Cons unmarked by (auto simp: map_idI)
    moreover have "map shc_selected_by_shadow (mark_first srt) = map (\<lambda>i. i = 0) [0..<length cands]"
    proof -
      have "map shc_selected_by_shadow cs = map (\<lambda>i. i = 0) [Suc 0..<Suc (length cs)]"
        by (rule nth_equalityI) (use unmarked Cons in \<open>auto simp del: upt_Suc\<close>)
      moreover have "[0..<length cands] = 0 # [Suc 0..<Suc (length cs)]"
        using len [symmetric] Cons by (simp add: upt_conv_Cons del: upt_Suc)
      ultimately show ?thesis using Cons by simp
    qed
    moreover have "sorted_wrt (\<lambda>a b. shc_score b < shc_score a \<or>
        shc_score a = shc_score b \<and> shc_node_id a \<le> shc_node_id b) (mark_first srt)"
      using sorted by (simp add: Cons)
    moreover have "cands \<noteq> []" "shc_node_id (hd (mark_first srt)) = shc_node_id c"
      "shd_shadow_top_node_id sh = Some (shc_node_id c)"
      using Cons len top by auto
    ultimately show ?thesis using mset differs by (simp add: cands)
  qed
qed

section \<open>The shadow log\<close>

interpretation shadow_log: bounded_log MATRIX_SHADOW_LIMIT shadow_record "\<lambda>s. s" "\<lambda>d s. d"
  by unfold_locales (simp_all add: MATRIX_SHADOW_LIMIT_def shadow_record_def)

lemma shadow_log_written: "shadow_log.written ds s = ds"
  by (induction ds arbitrary: s) auto

lemma shadow_from_decisions_eq:
  "shadow_from_decisions ds = drop (length ds - MATRIX_SHADOW_LIMIT) ds"
proof -
  have "shadow_log.log_ok []" by (simp add: shadow_log.log_ok_def)
  from shadow_log.entries_run [OF this, of "drop (length ds - MATRIX_SHADOW_LIMIT) ds"]
  show ?thesis
    by (simp add: shadow_from_decisions_def rev_take shadow_log_written)
qed

end
