(* ===== verification/Runtime_State.thy ===== *)
theory Runtime_State
  imports Matrix_Scores Seed_Validation
begin

text \<open>
  The runtime state of \<open>dynet-runtime/src/lib.rs\<close> with its event store (\<open>event.rs\<close>), the matrix
  service (\<open>model/matrix_service.rs\<close>) and the sending side of the persistence sink
  (\<open>persistence/sink.rs\<close>). The source shares one \<open>MatrixService\<close> between the event store and
  the state through an \<open>Arc\<close>; here the state owns it and the operations of the event store
  return it updated. Clock readings are arguments. A selection reads one \<open>Arc\<close> of the routing
  table, so it sees one configuration generation.

  The lemmas give the invariant of all reachable states, the IPv6 policy of selections, what a
  failed selection leaves alone, the uniqueness of the identifiers the state hands out, and the
  optimistic protocol of reconfigurations.
\<close>

section \<open>Persistence sink, sending side\<close>

definition OBSERVATION_QUEUE_CAPACITY :: nat where "OBSERVATION_QUEUE_CAPACITY = 16384"

text \<open>The reply channel of a flush request is named by a number.\<close>

datatype RuntimeObservation =
    ObsEvent IngressEvent
  | ObsSelectionDecision u128 SelectionContext SelectionDecision
  | ObsMatrixShadow MatrixShadowDecision
  | ObsFlush nat

record ObservationSink =
  os_queue :: "RuntimeObservation list"
  os_closed :: bool
  os_dropped_observations :: u64
  os_sink_errors :: u64

definition sink_new :: ObservationSink where
  "sink_new = \<lparr>os_queue = [], os_closed = False, os_dropped_observations = 0, os_sink_errors = 0\<rparr>"

definition sink_try_send :: "RuntimeObservation \<Rightarrow> ObservationSink \<Rightarrow> ObservationSink" where
  "sink_try_send observation sink =
     (if os_closed sink then sink\<lparr>os_sink_errors := os_sink_errors sink + 1\<rparr>
      else if length (os_queue sink) = OBSERVATION_QUEUE_CAPACITY then
        sink\<lparr>os_dropped_observations := os_dropped_observations sink + 1\<rparr>
      else sink\<lparr>os_queue := os_queue sink @ [observation]\<rparr>)"

definition sink_record_event :: "IngressEvent \<Rightarrow> ObservationSink \<Rightarrow> ObservationSink" where
  "sink_record_event event sink = sink_try_send (ObsEvent event) sink"

definition sink_record_selection_decision ::
    "u128 \<Rightarrow> SelectionContext \<Rightarrow> SelectionDecision \<Rightarrow> ObservationSink \<Rightarrow> ObservationSink" where
  "sink_record_selection_decision now context decision sink =
     sink_try_send (ObsSelectionDecision now context decision) sink"

definition sink_record_matrix_shadow :: "MatrixShadowDecision \<Rightarrow> ObservationSink \<Rightarrow> ObservationSink" where
  "sink_record_matrix_shadow decision sink = sink_try_send (ObsMatrixShadow decision) sink"

text \<open>\<open>flush\<close> waits for room in the queue, so it is absent while the queue is full.\<close>

definition sink_flush :: "nat \<Rightarrow> ObservationSink \<Rightarrow> (string + ObservationSink) option" where
  "sink_flush reply sink =
     (if os_closed sink then Some (Err ''runtime persistence sink is closed'')
      else if length (os_queue sink) = OBSERVATION_QUEUE_CAPACITY then None
      else Some (Ok (sink\<lparr>os_queue := os_queue sink @ [ObsFlush reply]\<rparr>)))"

text \<open>The worker takes observations in order; it stops when the channel is closed.\<close>

definition sink_recv :: "ObservationSink \<Rightarrow> ObservationSink" where
  "sink_recv sink = sink\<lparr>os_queue := tl (os_queue sink)\<rparr>"

section \<open>Matrix service\<close>

record MatrixService =
  ms_traffic_sessions :: TrafficSessionStore
  ms_shadow_decisions :: MatrixShadowStore
  ms_observation_sink :: "ObservationSink option"

definition MatrixService_from_parts ::
    "TrafficSession list \<Rightarrow> MatrixShadowDecision list \<Rightarrow> ObservationSink option \<Rightarrow> MatrixService" where
  "MatrixService_from_parts sessions shadows sink =
     \<lparr>ms_traffic_sessions = from_sessions sessions,
      ms_shadow_decisions = shadow_from_decisions shadows,
      ms_observation_sink = sink\<rparr>"

definition MatrixService_default :: MatrixService where
  "MatrixService_default = MatrixService_from_parts [] [] None"

definition record_ingress_event :: "IngressEvent \<Rightarrow> MatrixService \<Rightarrow> MatrixService" where
  "record_ingress_event event m = m\<lparr>
     ms_traffic_sessions := sessions_record_event event (ms_traffic_sessions m),
     ms_observation_sink := map_option (sink_record_event event) (ms_observation_sink m)\<rparr>"

definition record_selection_decision ::
    "u128 \<Rightarrow> SelectionContext \<Rightarrow> SelectionDecision \<Rightarrow> MatrixService \<Rightarrow> MatrixService" where
  "record_selection_decision now context decision m = m\<lparr>
     ms_observation_sink :=
       map_option (sink_record_selection_decision now context decision) (ms_observation_sink m)\<rparr>"

definition matrix_node_stats :: "MatrixService \<Rightarrow> (string, string) btree \<Rightarrow> MatrixNodeStats list" where
  "matrix_node_stats m fingerprints =
     node_stats_from_sessions (sessions_snapshot (ms_traffic_sessions m)) fingerprints"

definition matrix_target_node_stats ::
    "MatrixService \<Rightarrow> (string, string) btree \<Rightarrow> MatrixTargetNodeStats list" where
  "matrix_target_node_stats m fingerprints =
     target_stats_from_sessions (sessions_snapshot (ms_traffic_sessions m)) fingerprints"

definition matrix_error_signal_stats ::
    "MatrixService \<Rightarrow> (string, string) btree \<Rightarrow> MatrixErrorSignalStats list" where
  "matrix_error_signal_stats m fingerprints =
     error_signals_from_sessions (sessions_snapshot (ms_traffic_sessions m)) fingerprints"

definition record_shadow_selection ::
    "u128 \<Rightarrow> SelectionContext \<Rightarrow> GroupId \<Rightarrow> SelectionDecision \<Rightarrow> MatrixCandidateInput list \<Rightarrow>
     (string, string) btree \<Rightarrow> MatrixService \<Rightarrow> MatrixService" where
  "record_shadow_selection now context group_id actual candidates fingerprints m =
     (let decision = score_candidates now context group_id actual candidates
            (matrix_node_stats m fingerprints) (matrix_target_node_stats m fingerprints)
      in m\<lparr>ms_shadow_decisions := shadow_record decision (ms_shadow_decisions m),
           ms_observation_sink :=
             map_option (sink_record_matrix_shadow decision) (ms_observation_sink m)\<rparr>)"

definition persistence_stats :: "MatrixService \<Rightarrow> u64 \<times> u64" where
  "persistence_stats m =
     (case ms_observation_sink m of
        None \<Rightarrow> (0, 0) | Some sink \<Rightarrow> (os_dropped_observations sink, os_sink_errors sink))"

section \<open>Event store\<close>

definition EVENT_LIMIT :: nat where "EVENT_LIMIT = 1024"

record EventStore =
  es_next_event_id :: u64
  es_next_session_id :: u64
  es_events :: "IngressEvent list"

definition EventStore_with_watermarks :: "u64 \<Rightarrow> u64 \<Rightarrow> EventStore" where
  "EventStore_with_watermarks event_id session_id =
     \<lparr>es_next_event_id = event_id, es_next_session_id = session_id, es_events = []\<rparr>"

definition next_session_id :: "EventStore \<Rightarrow> u64 \<times> EventStore" where
  "next_session_id es =
     (es_next_session_id es + 1, es\<lparr>es_next_session_id := es_next_session_id es + 1\<rparr>)"

definition event_of ::
    "IngressEventKind \<times> (string \<times> string) list \<times> u128 \<Rightarrow> EventStore \<Rightarrow> IngressEvent" where
  "event_of e es = (case e of (kind, fs, now) \<Rightarrow>
     \<lparr>ev_id = es_next_event_id es + 1, ev_observed_at_unix_ms = now, ev_kind = kind,
      ev_fields = into_fields fs\<rparr>)"

definition event_push ::
    "IngressEventKind \<times> (string \<times> string) list \<times> u128 \<Rightarrow> EventStore \<Rightarrow> EventStore" where
  "event_push e es = es\<lparr>es_next_event_id := es_next_event_id es + 1,
     es_events := push_bounded EVENT_LIMIT (event_of e es) (es_events es)\<rparr>"

definition EventStore_record ::
    "IngressEventKind \<times> (string \<times> string) list \<times> u128 \<Rightarrow> EventStore \<times> MatrixService \<Rightarrow>
     EventStore \<times> MatrixService" where
  "EventStore_record e = (\<lambda>(es, m). (event_push e es, record_ingress_event (event_of e es) m))"

section \<open>Runtime state\<close>

record RuntimeRouting =
  rg_generation :: u64
  rg_ipv6_enabled :: bool
  rg_nodes :: NodeStore
  rg_groups :: GroupStore
  rg_routes :: RouteRuleStore
  rg_dns_upstreams :: DnsUpstreamStore
  rg_dns_policy :: DnsRacePolicy

record RuntimeState =
  rt_events :: EventStore
  rt_routing :: RuntimeRouting
  rt_dns_map :: ObservedDnsMap
  rt_matrix :: MatrixService
  rt_next_decision_id :: u64

record RuntimeReconfigure =
  rc_previous_generation :: u64
  rc_routing :: RuntimeRouting

record RuntimeIdWatermarks =
  wm_event_id :: u64
  wm_session_id :: u64
  wm_decision_id :: u64

definition routing_from_seed :: "u64 \<Rightarrow> RuntimeSeed \<Rightarrow> RuntimeRouting" where
  "routing_from_seed generation seed =
     \<lparr>rg_generation = generation, rg_ipv6_enabled = rs_ipv6_enabled seed,
      rg_nodes = NodeStore_from_nodes (rs_nodes seed),
      rg_groups = GroupStore_from_parts (rs_default_group_id seed) (rs_groups seed) (rs_group_members seed),
      rg_routes = RouteRuleStore_from_rules (rs_route_rules seed),
      rg_dns_upstreams = DnsUpstreamStore_from_upstreams (rs_dns_upstreams seed),
      rg_dns_policy = rs_dns_policy seed\<rparr>"

definition single_node_dns_policy :: "string \<Rightarrow> DnsUpstream list \<Rightarrow> DnsRacePolicy \<Rightarrow> RuntimeState" where
  "single_node_dns_policy tag dns_upstreams dns_policy =
     (let node = ForwardNode_new DEFAULT_NODE_ID tag True;
          grp = default_group;
          member = default_member (fn_id node) (fg_id grp)
      in \<lparr>rt_events = EventStore_with_watermarks 0 0,
          rt_routing =
            \<lparr>rg_generation = 1, rg_ipv6_enabled = False, rg_nodes = NodeStore_single_node node,
             rg_groups = GroupStore_from_parts (fg_id grp) [grp] [member], rg_routes = [],
             rg_dns_upstreams = DnsUpstreamStore_from_upstreams dns_upstreams,
             rg_dns_policy = dns_policy\<rparr>,
          rt_dns_map = [], rt_matrix = MatrixService_default, rt_next_decision_id = 0\<rparr>)"

definition RuntimeState_from_seed :: "RuntimeSeed \<Rightarrow> RuntimeState" where
  "RuntimeState_from_seed seed =
     \<lparr>rt_events = EventStore_with_watermarks 0 0, rt_routing = routing_from_seed 1 seed,
      rt_dns_map = [], rt_matrix = MatrixService_default, rt_next_decision_id = 0\<rparr>"

text \<open>A \<open>RuntimeBootstrap\<close> has the fields of a seed.\<close>

definition RuntimeState_from_bootstrap ::
    "RuntimeSeed \<Rightarrow> TrafficSession list \<Rightarrow> MatrixShadowDecision list \<Rightarrow> RuntimeIdWatermarks \<Rightarrow>
     ObservationSink option \<Rightarrow> RuntimeState" where
  "RuntimeState_from_bootstrap bootstrap sessions shadows watermarks sink =
     \<lparr>rt_events = EventStore_with_watermarks (wm_event_id watermarks) (wm_session_id watermarks),
      rt_routing = routing_from_seed 1 bootstrap,
      rt_dns_map = [], rt_matrix = MatrixService_from_parts sessions shadows sink,
      rt_next_decision_id = wm_decision_id watermarks\<rparr>"

definition generation :: "RuntimeState \<Rightarrow> u64" where
  "generation st = rg_generation (rt_routing st)"

definition prepare_reconfigure :: "RuntimeState \<Rightarrow> RuntimeSeed \<Rightarrow> RuntimeReconfigure" where
  "prepare_reconfigure st seed =
     \<lparr>rc_previous_generation = generation st, rc_routing = routing_from_seed (generation st + 1) seed\<rparr>"

definition commit_reconfigure ::
    "RuntimeReconfigure \<Rightarrow> RuntimeState \<Rightarrow> (string + u64) \<times> RuntimeState" where
  "commit_reconfigure prepared st =
     (if generation st \<noteq> rc_previous_generation prepared then
        (Err (''runtime generation changed from '' @ show_u64 (rc_previous_generation prepared) @
              '' to '' @ show_u64 (generation st) @ '' while reload was prepared''), st)
      else (Ok (rg_generation (rc_routing prepared)), st\<lparr>rt_routing := rc_routing prepared\<rparr>))"

definition dns_ipv6_deny_rule :: "RuntimeState \<Rightarrow> string \<Rightarrow> RuleId option" where
  "dns_ipv6_deny_rule st domain =
     (let routing = rt_routing st in
      if \<not> rg_ipv6_enabled routing then None
      else (let route_match = match_group (rg_routes routing)
                  (external_context (mk_sockaddr (V6 0) 53) (Some (to_ascii_lowercase domain)))
            in if rm_ipv6 route_match = Deny then rm_rule_id route_match else None))"

definition ipv6_policy ::
    "RuntimeRouting \<Rightarrow> RouteMatch \<Rightarrow> IpFamily \<Rightarrow> SelectionError + Ipv6PolicySource option" where
  "ipv6_policy routing route_match family =
     (if family = Ipv4 then Ok None
      else if \<not> rg_ipv6_enabled routing then Err ipv6_disabled
      else if rm_ipv6 route_match = Deny then Err (ipv6_denied (rm_rule_id route_match))
      else if rm_ipv6 route_match = Allow then Ok (Some SourceRule)
      else Ok (Some SourceGlobal))"

definition take_decision_id :: "RuntimeState \<Rightarrow> u64 \<times> RuntimeState" where
  "take_decision_id st =
     (rt_next_decision_id st + 1, st\<lparr>rt_next_decision_id := rt_next_decision_id st + 1\<rparr>)"

definition select_in_group ::
    "RuntimeState \<Rightarrow> SelectionContext \<Rightarrow> GroupId \<Rightarrow> IpFamily \<Rightarrow> GroupError + GroupSelection" where
  "select_in_group st context group_id family =
     (let routing = rt_routing st;
          fingerprints = fingerprints_by_id (rg_nodes routing);
          node_stats = matrix_node_stats (rt_matrix st) fingerprints;
          target_node_stats = matrix_target_node_stats (rt_matrix st) fingerprints
      in select_graph_with (rg_groups routing) group_id (rg_nodes routing) family
           (\<lambda>cs. select_active_candidate context (cs_group_id cs) (cs_thresholds cs)
              (cs_candidates cs) node_stats target_node_stats))"

definition decision_of ::
    "u64 \<Rightarrow> u64 \<Rightarrow> GroupId \<Rightarrow> RouteMatch \<Rightarrow> GroupSelection \<Rightarrow> IpFamily \<Rightarrow> Ipv6PolicySource option \<Rightarrow>
     SelectionDecision" where
  "decision_of decision_id gen group_id route_match selection family source =
     (let first_hop = hd (sel_trace selection) in
      \<lparr>sd_decision_id = decision_id, sd_config_generation = gen, sd_group_id = group_id,
       sd_matched_rule_id = rm_rule_id route_match, sd_node_id = th_node_id first_hop,
       sd_next = th_next first_hop, sd_trace = sel_trace selection,
       sd_terminal = sel_terminal selection, sd_reason = SingleNode,
       sd_scheduler = sel_scheduler selection, sd_candidate_count = sel_candidate_count selection,
       sd_ip_family = family, sd_ipv6_policy_source = source\<rparr>)"

definition record_decision ::
    "RuntimeState \<Rightarrow> SelectionContext \<Rightarrow> GroupId \<Rightarrow> SelectionDecision \<Rightarrow> u128 \<Rightarrow> u128 \<Rightarrow> RuntimeState" where
  "record_decision st context group_id decision now now' =
     (let routing = rt_routing st;
          m = (case enabled_candidates (rg_groups routing) group_id (rg_nodes routing)
                 (sd_ip_family decision) of
               Inr candidates \<Rightarrow>
                 record_shadow_selection now context group_id decision candidates
                   (fingerprints_by_id (rg_nodes routing)) (rt_matrix st)
             | Inl _ \<Rightarrow> rt_matrix st)
      in st\<lparr>rt_matrix := record_selection_decision now' context decision m\<rparr>)"

definition select ::
    "RuntimeState \<Rightarrow> SelectionContext \<Rightarrow> u128 \<Rightarrow> u128 \<Rightarrow> (SelectionError + SelectionDecision) \<times> RuntimeState" where
  "select st context now now' =
     (let routing = rt_routing st;
          route_match = match_group (rg_routes routing) (sc_target context);
          family = IpFamily_from_address (sa_ip (tc_address (sc_target context)))
      in case ipv6_policy routing route_match family of
           Inl e \<Rightarrow> (Err e, st)
         | Inr source \<Rightarrow>
             (case (case rm_group_id route_match of
                      Some g \<Rightarrow> Some g | None \<Rightarrow> default_group_id (rg_groups routing)) of
                None \<Rightarrow> (Err (SelectionError_new ''no default forwarding group is available''), st)
              | Some group_id \<Rightarrow>
                  (case select_in_group st context group_id family of
                     Inl e \<Rightarrow> (Err (SelectionError_new (GroupError_message e)), st)
                   | Inr selection \<Rightarrow>
                       (let (decision_id, st1) = take_decision_id st;
                            decision = decision_of decision_id (rg_generation routing) group_id
                              route_match selection family source
                        in (Ok decision, record_decision st1 context group_id decision now now')))))"

section \<open>Operations on the state through its parts\<close>

definition runtime_record_event ::
    "IngressEventKind \<times> (string \<times> string) list \<times> u128 \<Rightarrow> RuntimeState \<Rightarrow> RuntimeState" where
  "runtime_record_event e st =
     (case EventStore_record e (rt_events st, rt_matrix st) of
        (es, m) \<Rightarrow> st\<lparr>rt_events := es, rt_matrix := m\<rparr>)"

definition runtime_next_session_id :: "RuntimeState \<Rightarrow> u64 \<times> RuntimeState" where
  "runtime_next_session_id st =
     (case next_session_id (rt_events st) of (i, es) \<Rightarrow> (i, st\<lparr>rt_events := es\<rparr>))"

definition runtime_record_dns :: "string \<Rightarrow> IpAddr list \<Rightarrow> RuntimeState \<Rightarrow> RuntimeState" where
  "runtime_record_dns domain answers st =
     st\<lparr>rt_dns_map := ObservedDnsMap_record domain answers (rt_dns_map st)\<rparr>"

section \<open>Reachable states\<close>

definition sink_ok :: "ObservationSink option \<Rightarrow> bool" where
  "sink_ok sink \<longleftrightarrow> (case sink of None \<Rightarrow> True
     | Some s \<Rightarrow> length (os_queue s) \<le> OBSERVATION_QUEUE_CAPACITY)"

definition runtime_inv :: "RuntimeState \<Rightarrow> bool" where
  "runtime_inv st \<longleftrightarrow>
     length (es_events (rt_events st)) \<le> EVENT_LIMIT \<and>
     sessions_inv (ms_traffic_sessions (rt_matrix st)) \<and>
     length (ms_shadow_decisions (rt_matrix st)) \<le> MATRIX_SHADOW_LIMIT \<and>
     sink_ok (ms_observation_sink (rt_matrix st)) \<and> bt_wf (rt_dns_map st)"

definition runtime_init :: "RuntimeState \<Rightarrow> bool" where
  "runtime_init st \<longleftrightarrow>
     (\<exists>tag ups pol. st = single_node_dns_policy tag ups pol) \<or>
     (\<exists>seed. st = RuntimeState_from_seed seed) \<or>
     (\<exists>seed sessions shadows wm. st =
        RuntimeState_from_bootstrap seed sessions shadows wm (Some sink_new))"

inductive runtime_step :: "RuntimeState \<Rightarrow> RuntimeState \<Rightarrow> bool" where
  step_event: "runtime_step st (runtime_record_event e st)"
| step_session: "runtime_step st (snd (runtime_next_session_id st))"
| step_select: "runtime_step st (snd (select st context now now'))"
| step_commit: "runtime_step st (snd (commit_reconfigure prepared st))"
| step_dns: "runtime_step st (runtime_record_dns domain answers st)"
| step_persist: "ms_observation_sink (rt_matrix st) = Some sink \<Longrightarrow>
    runtime_step st (st\<lparr>rt_matrix := (rt_matrix st)\<lparr>ms_observation_sink := Some (sink_recv sink)\<rparr>\<rparr>)"
| step_flush: "ms_observation_sink (rt_matrix st) = Some sink \<Longrightarrow> sink_flush reply sink = Some (Inr sink') \<Longrightarrow>
    runtime_step st (st\<lparr>rt_matrix := (rt_matrix st)\<lparr>ms_observation_sink := Some sink'\<rparr>\<rparr>)"

inductive_cases runtime_step_elim [res_elims]: "runtime_step st st'"

inductive reachable :: "RuntimeState \<Rightarrow> bool" where
  reach_init: "runtime_init st \<Longrightarrow> reachable st"
| reach_step: "reachable st \<Longrightarrow> runtime_step st st' \<Longrightarrow> reachable st'"

interpretation event_log: bounded_log EVENT_LIMIT event_push es_events event_of
  by unfold_locales (simp_all add: EVENT_LIMIT_def event_push_def)

interpretation event_ids: id_source es_next_event_id "\<lambda>es. (ev_id (event_of e es), event_push e es)" for e
  by unfold_locales (simp_all add: event_of_def event_push_def split_def)

interpretation session_ids: id_source "\<lambda>st. es_next_session_id (rt_events st)" runtime_next_session_id
  by unfold_locales (simp_all add: runtime_next_session_id_def next_session_id_def)

interpretation decision_ids: id_source rt_next_decision_id take_decision_id
  by unfold_locales (simp_all add: take_decision_id_def)

lemma push_bounded_length: "length q \<le> limit \<Longrightarrow> 0 < limit \<Longrightarrow> length (push_bounded limit x q) \<le> limit"
  by (auto simp: push_bounded_def)

lemma sink_try_send_ok: "sink_ok (Some s) \<Longrightarrow> sink_ok (Some (sink_try_send obs s))"
  by (auto simp: sink_ok_def sink_try_send_def)

lemma sink_ok_map:
  "sink_ok sink \<Longrightarrow> (\<And>s. sink_ok (Some s) \<Longrightarrow> sink_ok (Some (f s))) \<Longrightarrow> sink_ok (map_option f sink)"
  by (cases sink) (auto simp: sink_ok_def [of None])

lemmas sink_defs = sink_record_event_def sink_record_selection_decision_def sink_record_matrix_shadow_def

lemma shadow_limit_pos: "0 < MATRIX_SHADOW_LIMIT"
  by (simp add: MATRIX_SHADOW_LIMIT_def)

lemma inv_record_event: "runtime_inv st \<Longrightarrow> runtime_inv (runtime_record_event e st)"
  by (auto simp: runtime_inv_def runtime_record_event_def EventStore_record_def event_push_def
      record_ingress_event_def sink_defs EVENT_LIMIT_def
      intro!: push_bounded_length sessions_record_event_inv sink_ok_map sink_try_send_ok)

lemma inv_shadow: "runtime_inv st \<Longrightarrow> m = rt_matrix st \<Longrightarrow>
  runtime_inv (st\<lparr>rt_matrix := record_shadow_selection now ctx g d cs fps m\<rparr>)"
  by (auto simp: runtime_inv_def record_shadow_selection_def Let_def shadow_record_def sink_defs shadow_limit_pos
      intro!: push_bounded_length sink_ok_map sink_try_send_ok)

lemma inv_decision: "runtime_inv (st\<lparr>rt_matrix := m\<rparr>) \<Longrightarrow>
  runtime_inv (st\<lparr>rt_matrix := record_selection_decision now ctx d m\<rparr>)"
  by (auto simp: runtime_inv_def record_selection_decision_def sink_defs
      intro!: sink_ok_map sink_try_send_ok)

lemma inv_record_decision: "runtime_inv st \<Longrightarrow> runtime_inv (record_decision st ctx g d now now')"
  unfolding record_decision_def Let_def
  by (rule inv_decision) (auto simp: inv_shadow split: sum.splits)

lemma inv_take_decision: "runtime_inv st \<Longrightarrow> runtime_inv (snd (take_decision_id st))"
  by (simp add: runtime_inv_def take_decision_id_def)

text \<open>A selection either fails and leaves the state alone, or takes an id and records.\<close>

lemma select_cases:
  obtains (fail) e where "select st ctx now now' = (Inl e, st)"
  | (ok) d g where "select st ctx now now' =
      (Inr d, record_decision (snd (take_decision_id st)) ctx g d now now')"
      "sd_decision_id d = fst (take_decision_id st)" "sd_config_generation d = generation st"
      "\<exists>selection src. d = decision_of (fst (take_decision_id st)) (generation st) g
         (match_group (rg_routes (rt_routing st)) (sc_target ctx)) selection
         (IpFamily_from_address (sa_ip (tc_address (sc_target ctx)))) src \<and>
       ipv6_policy (rt_routing st) (match_group (rg_routes (rt_routing st)) (sc_target ctx))
         (IpFamily_from_address (sa_ip (tc_address (sc_target ctx)))) = Inr src \<and>
       select_in_group st ctx g (IpFamily_from_address (sa_ip (tc_address (sc_target ctx)))) = Inr selection \<and>
       (case rm_group_id (match_group (rg_routes (rt_routing st)) (sc_target ctx)) of
          Some g' \<Rightarrow> g = g' | None \<Rightarrow> default_group_id (rg_groups (rt_routing st)) = Some g)"
proof -
  let ?rm = "match_group (rg_routes (rt_routing st)) (sc_target ctx)"
  let ?fam = "IpFamily_from_address (sa_ip (tc_address (sc_target ctx)))"
  let ?g = "case rm_group_id ?rm of Some g \<Rightarrow> Some g | None \<Rightarrow> default_group_id (rg_groups (rt_routing st))"
  show ?thesis
  proof (cases "ipv6_policy (rt_routing st) ?rm ?fam")
    case (Inl e)
    then show ?thesis by (intro fail [of e]) (simp add: select_def Let_def)
  next
    case (Inr src)
    note pol = this
    show ?thesis
    proof (cases ?g)
      case None
      with pol show ?thesis by (intro fail) (simp add: select_def Let_def)
    next
      case (Some g)
      show ?thesis
      proof (cases "select_in_group st ctx g ?fam")
        case (Inl e)
        with pol Some show ?thesis by (intro fail) (simp add: select_def Let_def)
      next
        case (Inr selection)
        with pol Some show ?thesis
          by (intro ok [of "decision_of (fst (take_decision_id st)) (generation st) g ?rm selection ?fam src" g])
            (auto simp: select_def Let_def split_def generation_def decision_of_def split: option.splits)
      qed
    qed
  qed
qed

lemma inv_select: "runtime_inv st \<Longrightarrow> runtime_inv (snd (select st ctx now now'))"
  by (rule select_cases [of st ctx now now']) (simp_all add: inv_record_decision inv_take_decision)

lemma inv_step: "runtime_step st st' \<Longrightarrow> runtime_inv st \<Longrightarrow> runtime_inv st'"
proof (induction rule: runtime_step.induct)
  case (step_commit st prepared)
  then show ?case by (auto simp: runtime_inv_def commit_reconfigure_def)
next
  case (step_dns st domain answers)
  then show ?case by (auto simp: runtime_inv_def runtime_record_dns_def ObservedDnsMap_record_wf)
next
  case (step_flush st sink reply sink')
  then show ?case
    by (auto simp: runtime_inv_def sink_ok_def sink_flush_def split: if_splits)
next
  case (step_persist st sink)
  then show ?case by (auto simp: runtime_inv_def sink_ok_def sink_recv_def)
next
  case (step_session st)
  then show ?case by (simp add: runtime_inv_def runtime_next_session_id_def next_session_id_def)
qed (simp_all add: inv_record_event inv_select)

lemma shadow_from_decisions_le: "length (shadow_from_decisions ds) \<le> MATRIX_SHADOW_LIMIT"
  by (simp add: shadow_from_decisions_eq)

lemma inv_init: "runtime_init st \<Longrightarrow> runtime_inv st"
  using from_sessions_inv shadow_from_decisions_le
  by (auto simp: runtime_init_def runtime_inv_def single_node_dns_policy_def RuntimeState_from_seed_def
      RuntimeState_from_bootstrap_def EventStore_with_watermarks_def MatrixService_default_def
      MatrixService_from_parts_def sink_ok_def sink_new_def Let_def)

lemma select_ok:
  assumes "fst (select st ctx now now') = Inr d"
  obtains g selection src where
    "snd (select st ctx now now') = record_decision (snd (take_decision_id st)) ctx g d now now'"
    "d = decision_of (fst (take_decision_id st)) (generation st) g
       (match_group (rg_routes (rt_routing st)) (sc_target ctx)) selection
       (IpFamily_from_address (sa_ip (tc_address (sc_target ctx)))) src"
    "ipv6_policy (rt_routing st) (match_group (rg_routes (rt_routing st)) (sc_target ctx))
       (IpFamily_from_address (sa_ip (tc_address (sc_target ctx)))) = Inr src"
    "select_in_group st ctx g (IpFamily_from_address (sa_ip (tc_address (sc_target ctx)))) = Inr selection"
    "case rm_group_id (match_group (rg_routes (rt_routing st)) (sc_target ctx)) of
       Some g' \<Rightarrow> g = g' | None \<Rightarrow> default_group_id (rg_groups (rt_routing st)) = Some g"
proof (cases rule: select_cases [of st ctx now now'])
  case (fail e)
  with assms show ?thesis by simp
next
  case (ok d' g)
  from ok(1) assms have "d' = d" by simp
  with ok(1,4) that show ?thesis by auto
qed

lemma decision_of_simps [simp]:
  "sd_decision_id (decision_of i gen g rm s fam src) = i"
  "sd_config_generation (decision_of i gen g rm s fam src) = gen"
  "sd_group_id (decision_of i gen g rm s fam src) = g"
  "sd_matched_rule_id (decision_of i gen g rm s fam src) = rm_rule_id rm"
  "sd_trace (decision_of i gen g rm s fam src) = sel_trace s"
  "sd_terminal (decision_of i gen g rm s fam src) = sel_terminal s"
  "sd_node_id (decision_of i gen g rm s fam src) = th_node_id (hd (sel_trace s))"
  "sd_ip_family (decision_of i gen g rm s fam src) = fam"
  "sd_ipv6_policy_source (decision_of i gen g rm s fam src) = src"
  by (simp_all add: decision_of_def Let_def)

lemma record_decision_frame [simp]:
  "rt_events (record_decision st ctx g d now now') = rt_events st"
  "rt_routing (record_decision st ctx g d now now') = rt_routing st"
  "rt_dns_map (record_decision st ctx g d now now') = rt_dns_map st"
  "rt_next_decision_id (record_decision st ctx g d now now') = rt_next_decision_id st"
  by (simp_all add: record_decision_def Let_def)

lemma record_decision_sessions [simp]:
  "ms_traffic_sessions (rt_matrix (record_decision st ctx g d now now')) = ms_traffic_sessions (rt_matrix st)"
  by (simp add: record_decision_def Let_def record_selection_decision_def record_shadow_selection_def
      split: sum.splits)

lemma take_decision_frame [simp]:
  "rt_events (snd (take_decision_id st)) = rt_events st"
  "rt_routing (snd (take_decision_id st)) = rt_routing st"
  "rt_dns_map (snd (take_decision_id st)) = rt_dns_map st"
  "rt_matrix (snd (take_decision_id st)) = rt_matrix st"
  "rt_next_decision_id (snd (take_decision_id st)) = rt_next_decision_id st + 1"
  "fst (take_decision_id st) = rt_next_decision_id st + 1"
  by (simp_all add: take_decision_id_def)

lemma select_in_group_hops:
  assumes "select_in_group st ctx g fam = Inr sel"
  shows "sel_trace sel \<noteq> [] \<and> (\<forall>hop\<in>set (sel_trace sel). is_eligible (rg_nodes (rt_routing st)) (th_node_id hop) fam)"
proof -
  from assms obtain f p t where path: "graph_path (rg_groups (rt_routing st)) (rg_nodes (rt_routing st)) fam f g p t"
    and sel: "sel = finish_selection (map snd p) t"
    unfolding select_in_group_def select_graph_with_def Let_def by (auto dest: select_graph_path)
  have "is_eligible (rg_nodes (rt_routing st)) (th_node_id hop) fam" if hop: "(k, hop) \<in> set p" for k hop
    using graph_path_hops [OF path hop]
    by (rule select_group_hop_cases) (auto simp: eligible_members_def)
  moreover have "p \<noteq> []" using graph_path_start [OF path] by simp
  ultimately show ?thesis by (auto simp: sel)
qed

section \<open>Properties\<close>

text \<open>
  C24. In every reachable state, from any way of starting the runtime and through events, session
  ids, selections, reconfigurations, DNS observations and the sink's worker, the event log, the
  session store, the shadow log and the sink queue stay within their capacities, sessions are
  stored under their own keys, and the observed DNS map is a well-formed map.
\<close>

theorem reachable_runtime_inv: "reachable st \<Longrightarrow> runtime_inv st"
  by (induction rule: reachable.induct) (auto intro: inv_init inv_step)

theorem reachable_runtime_inv_witness:
  "runtime_inv (runtime_record_event (UdpDatagram, [(''sessionId'', ''7'')], 5)
     (RuntimeState_from_seed sample_seed))"
  by (rule reachable_runtime_inv, rule reach_step [OF reach_init step_event])
    (auto simp: runtime_init_def)

text \<open>
  C18. IPv6 policy: a selection for an IPv6 target succeeds only if IPv6 is enabled and the best
  matching rule does not deny it; the decision says whether the rule or the global setting
  allowed it, and every node on its path supports IPv6.
\<close>

theorem select_ipv6_safe:
  assumes "fst (select st ctx now now') = Inr d" and "sa_ip (tc_address (sc_target ctx)) = V6 a"
  defines "rm \<equiv> match_group (rg_routes (rt_routing st)) (sc_target ctx)"
  shows "rg_ipv6_enabled (rt_routing st) \<and> rm_ipv6 rm \<noteq> Deny \<and> sd_ip_family d = Ipv6 \<and>
    sd_ipv6_policy_source d = Some (if rm_ipv6 rm = Allow then SourceRule else SourceGlobal) \<and>
    sd_trace d \<noteq> [] \<and>
    (\<forall>hop\<in>set (sd_trace d). is_eligible (rg_nodes (rt_routing st)) (th_node_id hop) Ipv6)"
  using assms(1)
proof (rule select_ok)
  fix g selection src
  assume d: "d = decision_of (fst (take_decision_id st)) (generation st) g
       (match_group (rg_routes (rt_routing st)) (sc_target ctx)) selection
       (IpFamily_from_address (sa_ip (tc_address (sc_target ctx)))) src"
    and pol: "ipv6_policy (rt_routing st) (match_group (rg_routes (rt_routing st)) (sc_target ctx))
       (IpFamily_from_address (sa_ip (tc_address (sc_target ctx)))) = Inr src"
    and sel: "select_in_group st ctx g (IpFamily_from_address (sa_ip (tc_address (sc_target ctx)))) = Inr selection"
  have fam: "IpFamily_from_address (sa_ip (tc_address (sc_target ctx))) = Ipv6"
    using assms(2) by simp
  from pol have "rg_ipv6_enabled (rt_routing st) \<and> rm_ipv6 rm \<noteq> Deny \<and>
      src = Some (if rm_ipv6 rm = Allow then SourceRule else SourceGlobal)"
    unfolding fam rm_def by (auto simp: ipv6_policy_def split: if_splits)
  with select_in_group_hops [OF sel] show ?thesis by (simp add: d fam)
qed

text \<open>With a single node every IPv4 flow is given to it.\<close>

lemma single_node_select:
  assumes "rt_routing st = routing_from_seed g (RuntimeSeed_single_node tag)" "IpFamily_from_address (sa_ip (tc_address (sc_target ctx))) = Ipv4"
  shows "\<exists>d st'. select st ctx now now' = (Ok d, st') \<and> map th_node_id (sd_trace d) = [DEFAULT_NODE_ID] \<and> sd_terminal d = TerminalDirect"
proof -
  let ?r = "routing_from_seed g (RuntimeSeed_single_node tag)"
  have routes: "rm_group_id (match_group (rg_routes ?r) target) = None" for target
    by (simp add: routing_from_seed_def RuntimeSeed_single_node_def Let_def RouteRuleStore_from_rules_def match_group_def sort_by_def)
  have group: "default_group_id (rg_groups ?r) = Some DEFAULT_GROUP_ID" "bt_get (gs_groups (rg_groups ?r)) DEFAULT_GROUP_ID = Some default_group"
      "bt_get (gs_members (rg_groups ?r)) DEFAULT_GROUP_ID = Some [default_member DEFAULT_NODE_ID DEFAULT_GROUP_ID]"
    by (simp_all add: routing_from_seed_def RuntimeSeed_single_node_def Let_def GroupStore_from_parts_def default_group_id_def default_group_def
      bt_collect_def bt_get_def group_members_by_id_def bt_upsert_def default_member_def ForwardNode_new_def sort_by_def)
  have member: "eligible_members (rg_nodes ?r) Ipv4 [default_member DEFAULT_NODE_ID DEFAULT_GROUP_ID] = [default_member DEFAULT_NODE_ID DEFAULT_GROUP_ID]"
    by (simp add: eligible_members_def is_eligible_def routing_from_seed_def RuntimeSeed_single_node_def Let_def NodeStore_from_nodes_def
      bt_collect_def bt_get_def default_member_def ForwardNode_new_def)
  have direct: "fg_enabled default_group" "fg_next default_group = DirectAuditOutlet" "gm_node_id (default_member n m) = n" for n m
    by (simp_all add: default_group_def default_member_def)
  have hop: "\<exists>hop. select_group_hop (rg_groups ?r) DEFAULT_GROUP_ID (rg_nodes ?r) Ipv4 sel = Ok hop \<and>
      th_node_id hop = DEFAULT_NODE_ID \<and> th_next hop = DirectAuditOutlet" for sel
    using member by (simp add: select_group_hop_def group direct split: option.split)
  have loop: "\<exists>hop. select_graph_loop (rg_groups ?r) (rg_nodes ?r) Ipv4 sel DEFAULT_GROUP_ID [] [] =
      Ok (finish_selection [hop] TerminalDirect) \<and> th_node_id hop = DEFAULT_NODE_ID" for sel
    using hop [of sel] by (subst select_graph_loop.simps) auto
  have "\<exists>hop. select_in_group st ctx DEFAULT_GROUP_ID Ipv4 = Ok (finish_selection [hop] TerminalDirect) \<and> th_node_id hop = DEFAULT_NODE_ID"
    unfolding select_in_group_def assms(1) select_graph_with_def Let_def by (rule loop)
  then show ?thesis
    by (auto simp: select_def Let_def assms routes group ipv6_policy_def take_decision_id_def finish_selection_def)
qed

definition sample_state :: RuntimeState where
  "sample_state = RuntimeState_from_seed ((RuntimeSeed_single_node ''n'')\<lparr>rs_ipv6_enabled := True\<rparr>)"

definition sample_v6 :: SelectionContext where
  "sample_v6 = \<lparr>sc_session_id = 1, sc_inbound = InTcp,
     sc_target = external_context (mk_sockaddr (V6 1) 443) (Some ''example.com'')\<rparr>"

lemma sample_select: "isl (fst (select sample_state sample_v6 1 2)) = False"
  by code_simp

theorem select_ipv6_safe_witness:
  "is_eligible (rg_nodes (rt_routing sample_state))
     (th_node_id (hd (sd_trace (projr (fst (select sample_state sample_v6 1 2)))))) Ipv6"
proof -
  have ok: "fst (select sample_state sample_v6 1 2) = Inr (projr (fst (select sample_state sample_v6 1 2)))"
    using sample_select by (cases "fst (select sample_state sample_v6 1 2)") auto
  have v6: "sa_ip (tc_address (sc_target sample_v6)) = V6 1"
    by (simp add: sample_v6_def external_context_def mk_sockaddr_def)
  from select_ipv6_safe [OF ok v6] show ?thesis by (meson hd_in_set)
qed

text \<open>
  C1. A successful selection decides consistently with one configuration generation: the group is
  the matched rule's, or the default group when no rule matches; the trace and terminal are a path
  of that generation's group graph; the node is that of the first hop. It changes nothing of the
  state but the decision counter, the shadow log and the sink.
\<close>

theorem select_decision_sound:
  assumes "fst (select st ctx now now') = Inr d"
  defines "st' \<equiv> snd (select st ctx now now')"
    and "rm \<equiv> match_group (rg_routes (rt_routing st)) (sc_target ctx)"
  shows "sd_config_generation d = generation st \<and> sd_matched_rule_id d = rm_rule_id rm \<and>
    (case rm_group_id rm of Some g \<Rightarrow> sd_group_id d = g
     | None \<Rightarrow> default_group_id (rg_groups (rt_routing st)) = Some (sd_group_id d)) \<and>
    (\<exists>sel p. graph_path (rg_groups (rt_routing st)) (rg_nodes (rt_routing st)) (sd_ip_family d)
       sel (sd_group_id d) p (sd_terminal d) \<and> sd_trace d = map snd p \<and>
       sd_node_id d = th_node_id (snd (hd p))) \<and>
    rt_events st' = rt_events st \<and> rt_routing st' = rt_routing st \<and> rt_dns_map st' = rt_dns_map st \<and>
    ms_traffic_sessions (rt_matrix st') = ms_traffic_sessions (rt_matrix st) \<and>
    rt_next_decision_id st' = rt_next_decision_id st + 1 \<and> sd_decision_id d = rt_next_decision_id st'"
  using assms(1)
proof (rule select_ok)
  fix g selection src
  let ?fam = "IpFamily_from_address (sa_ip (tc_address (sc_target ctx)))"
  assume st': "snd (select st ctx now now') = record_decision (snd (take_decision_id st)) ctx g d now now'"
    and d: "d = decision_of (fst (take_decision_id st)) (generation st) g
       (match_group (rg_routes (rt_routing st)) (sc_target ctx)) selection ?fam src"
    and sel: "select_in_group st ctx g ?fam = Inr selection"
    and g: "case rm_group_id (match_group (rg_routes (rt_routing st)) (sc_target ctx)) of
       Some g' \<Rightarrow> g = g' | None \<Rightarrow> default_group_id (rg_groups (rt_routing st)) = Some g"
  from sel obtain f p t where
    path: "graph_path (rg_groups (rt_routing st)) (rg_nodes (rt_routing st)) ?fam f g p t"
    and selection: "selection = finish_selection (map snd p) t"
    unfolding select_in_group_def select_graph_with_def Let_def by (auto dest: select_graph_path)
  have "hd (map snd p) = snd (hd p)" using graph_path_start [OF path] by (simp add: list.map_sel)
  with path have "\<exists>sel p. graph_path (rg_groups (rt_routing st)) (rg_nodes (rt_routing st)) (sd_ip_family d)
       sel (sd_group_id d) p (sd_terminal d) \<and> sd_trace d = map snd p \<and>
       sd_node_id d = th_node_id (snd (hd p))"
    by (intro exI [of _ f] exI [of _ p]) (simp add: d selection)
  moreover have "case rm_group_id rm of Some g \<Rightarrow> sd_group_id d = g
     | None \<Rightarrow> default_group_id (rg_groups (rt_routing st)) = Some (sd_group_id d)"
    using g unfolding rm_def d by (simp split: option.splits)
  ultimately show ?thesis
    unfolding st'_def st' by (simp add: d rm_def)
qed

theorem select_decision_sound_witness:
  "sd_config_generation (projr (fst (select sample_state sample_v6 1 2))) = generation sample_state \<and>
   sd_decision_id (projr (fst (select sample_state sample_v6 1 2))) =
     rt_next_decision_id (snd (select sample_state sample_v6 1 2))"
proof -
  have ok: "fst (select sample_state sample_v6 1 2) = Inr (projr (fst (select sample_state sample_v6 1 2)))"
    using sample_select by (cases "fst (select sample_state sample_v6 1 2)") auto
  from select_decision_sound [OF ok] show ?thesis by blast
qed

text \<open>
  A failed selection has no effect: the state it returns is the state it was given, and in
  particular no decision id is used up.
\<close>

theorem select_error_frame:
  "isl (fst (select st ctx now now')) \<Longrightarrow> snd (select st ctx now now') = st"
  by (cases rule: select_cases [of st ctx now now']) auto

theorem select_error_frame_witness:
  "snd (select (RuntimeState_from_seed (RuntimeSeed_single_node ''n'')) sample_v6 1 2) =
     RuntimeState_from_seed (RuntimeSeed_single_node ''n'')"
proof (rule select_error_frame)
  show "isl (fst (select (RuntimeState_from_seed (RuntimeSeed_single_node ''n'')) sample_v6 1 2))"
    by code_simp
qed

text \<open>The decisions of a sequence of selections, in order.\<close>

fun select_run :: "RuntimeState \<Rightarrow> (SelectionContext \<times> u128 \<times> u128) list \<Rightarrow> SelectionDecision list" where
  "select_run st [] = []"
| "select_run st ((ctx, now, now') # reqs) =
     (case select st ctx now now' of
        (Inl _, st') \<Rightarrow> select_run st' reqs
      | (Inr d, st') \<Rightarrow> d # select_run st' reqs)"

lemma select_run_id:
  "i < length (select_run st reqs) \<Longrightarrow>
   sd_decision_id (select_run st reqs ! i) = rt_next_decision_id st + 1 + of_nat i"
proof (induction st reqs arbitrary: i rule: select_run.induct)
  case (2 st ctx now now' reqs)
  show ?case
  proof (cases rule: select_cases [of st ctx now now'])
    case (fail e)
    with 2 show ?thesis by simp
  next
    case (ok d g)
    with 2(3) show ?thesis
      using 2(2) [OF ok(1) [symmetric] refl] by (cases i) (simp_all add: ok(2))
  qed
qed simp

lemma select_run_ids:
  "map sd_decision_id (select_run st reqs) = decision_ids.take_ids (length (select_run st reqs)) st"
  by (rule nth_equalityI)
    (simp_all add: decision_ids.length_take_ids decision_ids.take_ids_nth select_run_id)

text \<open>
  Decision ids identify decisions: no two decisions of a sequence of selections share an id,
  however many of the selections fail, until the 64-bit counter has gone all the way around.
\<close>

theorem select_run_ids_distinct:
  assumes "length (select_run st reqs) \<le> 2 ^ 64"
  shows "distinct (map sd_decision_id (select_run st reqs))"
  unfolding select_run_ids by (rule decision_ids.take_ids_distinct [OF assms])

theorem select_run_ids_distinct_witness:
  "distinct (map sd_decision_id (select_run sample_state [(sample_v6, 1, 2), (sample_v6, 3, 4)]))"
proof (rule select_run_ids_distinct)
  show "length (select_run sample_state [(sample_v6, 1, 2), (sample_v6, 3, 4)]) \<le> 2 ^ 64"
    by (simp split: sum.splits prod.splits)
qed

text \<open>
  Reconfiguration is optimistic: a prepared configuration is committed exactly when no other
  commit came between, it then becomes the routing table under the next generation and nothing
  else changes; every other configuration prepared from the same state is refused afterwards and
  leaves the state alone.
\<close>

theorem reconfigure_optimistic:
  fixes st0 seed seed' st
  defines "p \<equiv> prepare_reconfigure st0 seed"
  shows "if generation st = generation st0
    then commit_reconfigure p st =
        (Inr (generation st0 + 1), st\<lparr>rt_routing := routing_from_seed (generation st0 + 1) seed\<rparr>) \<and>
      isl (fst (commit_reconfigure (prepare_reconfigure st0 seed') (snd (commit_reconfigure p st)))) \<and>
      snd (commit_reconfigure (prepare_reconfigure st0 seed') (snd (commit_reconfigure p st))) =
        snd (commit_reconfigure p st)
    else isl (fst (commit_reconfigure p st)) \<and> snd (commit_reconfigure p st) = st"
  by (simp add: p_def prepare_reconfigure_def commit_reconfigure_def generation_def routing_from_seed_def)

lemma event_ids_simps [simp]:
  "ev_id (event_of e es) = es_next_event_id es + 1"
  "es_next_event_id (event_push e es) = es_next_event_id es + 1"
  by (simp_all add: event_of_def event_push_def split_def)

lemma event_written_ids:
  "i < length es \<Longrightarrow> ev_id (event_log.written es s ! i) = es_next_event_id s + 1 + of_nat i"
proof (induction es arbitrary: s i)
  case (Cons e es)
  then show ?case
    by (cases i) simp_all
qed simp

lemma length_event_written: "length (event_log.written es s) = length es"
  by (induction es arbitrary: s) auto

text \<open>
  The event log keeps the newest events: after any number of records it holds the last
  \<open>EVENT_LIMIT\<close> of them (or all, when there were fewer) in order, numbered consecutively from
  the event watermark.
\<close>

theorem event_log_newest:
  fixes es w w'
  defines "evs \<equiv> es_events (fold event_push es (EventStore_with_watermarks w w'))"
  shows "length evs = min (length es) EVENT_LIMIT \<and>
    map ev_id evs = map (\<lambda>k. w + 1 + of_nat k) [length es - EVENT_LIMIT..<length es]"
proof -
  let ?s = "EventStore_with_watermarks w w'"
  have ok: "event_log.log_ok ?s" and empty: "es_events ?s = []"
    by (simp_all add: event_log.log_ok_def EventStore_with_watermarks_def)
  have evs: "evs = drop (length es - EVENT_LIMIT) (event_log.written es ?s)"
    using event_log.entries_run [OF ok, of es] by (simp add: evs_def empty)
  have "map ev_id evs ! i = map (\<lambda>k. w + 1 + of_nat k) [length es - EVENT_LIMIT..<length es] ! i"
    if "i < length evs" for i
    using that by (simp add: evs length_event_written event_written_ids EventStore_with_watermarks_def)
  then show ?thesis
    by (intro conjI nth_equalityI) (auto simp: evs length_event_written)
qed

end
