(* ===== verification/Config_Audit.thy ===== *)
theory Config_Audit
  imports Rust_Strings
begin

text \<open>
  The audit trail of configuration reloads, \<open>dynet-runtime/src/model/runtime_config.rs\<close>: the
  status of the active configuration and the last \<open>RELOAD_AUDIT_LIMIT\<close> reload attempts. Clock
  readings are arguments. The lemmas show that only an applied reload changes the active
  configuration, and that the trail is a gapless chain of generations ending in the status.
\<close>

definition RELOAD_AUDIT_LIMIT :: nat where "RELOAD_AUDIT_LIMIT = 128"

datatype ConfigReloadTrigger = Sighup | Manual

datatype ConfigReloadOutcome = Applied | Noop | RestartRequired | Invalid | Failed

fun ConfigReloadOutcome_as_str :: "ConfigReloadOutcome \<Rightarrow> string" where
  "ConfigReloadOutcome_as_str Applied = ''applied''"
| "ConfigReloadOutcome_as_str Noop = ''no-op''"
| "ConfigReloadOutcome_as_str RestartRequired = ''restart-required''"
| "ConfigReloadOutcome_as_str Invalid = ''invalid''"
| "ConfigReloadOutcome_as_str Failed = ''failed''"

record RuntimeConfigStatus =
  cs_generation :: u64
  cs_fingerprint :: string
  cs_source :: string
  cs_started_at_unix_ms :: u128
  cs_applied_at_unix_ms :: u128
  cs_last_reload_at_unix_ms :: "u128 option"
  cs_last_reload_outcome :: "ConfigReloadOutcome option"

record ConfigReloadAudit =
  ra_id :: u64
  ra_observed_at_unix_ms :: u128
  ra_trigger :: ConfigReloadTrigger
  ra_outcome :: ConfigReloadOutcome
  ra_generation_before :: u64
  ra_generation_after :: u64
  ra_candidate_fingerprint :: "string option"
  ra_changed_fields :: "string list"
  ra_restart_required_fields :: "string list"
  ra_message :: "string option"

record RuntimeConfigAudit =
  rca_next_id :: u64
  rca_status :: RuntimeConfigStatus
  rca_audits :: "ConfigReloadAudit list"

definition audit_new :: "u64 \<Rightarrow> string \<Rightarrow> string \<Rightarrow> u128 \<Rightarrow> RuntimeConfigAudit" where
  "audit_new gen fingerprint source now =
     \<lparr>rca_next_id = 0,
      rca_status = \<lparr>cs_generation = gen, cs_fingerprint = fingerprint, cs_source = source,
        cs_started_at_unix_ms = now, cs_applied_at_unix_ms = now,
        cs_last_reload_at_unix_ms = None, cs_last_reload_outcome = None\<rparr>,
      rca_audits = []\<rparr>"

definition audit_untracked :: "u64 \<Rightarrow> u128 \<Rightarrow> RuntimeConfigAudit" where
  "audit_untracked gen now = audit_new gen ''untracked'' ''untracked'' now"

definition audit_numbered :: "ConfigReloadAudit \<Rightarrow> RuntimeConfigAudit \<Rightarrow> ConfigReloadAudit" where
  "audit_numbered audit r = audit\<lparr>ra_id := rca_next_id r + 1\<rparr>"

definition audit_push :: "ConfigReloadAudit \<Rightarrow> RuntimeConfigAudit \<Rightarrow> RuntimeConfigAudit" where
  "audit_push audit r = r\<lparr>rca_next_id := rca_next_id r + 1,
     rca_audits := push_bounded RELOAD_AUDIT_LIMIT (audit_numbered audit r) (rca_audits r)\<rparr>"

definition record_applied ::
    "ConfigReloadTrigger \<Rightarrow> u64 \<Rightarrow> string \<Rightarrow> string list \<Rightarrow> u128 \<Rightarrow> RuntimeConfigAudit \<Rightarrow> RuntimeConfigAudit" where
  "record_applied trigger gen fingerprint changed_fields now r =
     (let before = cs_generation (rca_status r);
          r1 = r\<lparr>rca_status := (rca_status r)\<lparr>cs_generation := gen, cs_fingerprint := fingerprint,
             cs_applied_at_unix_ms := now, cs_last_reload_at_unix_ms := Some now,
             cs_last_reload_outcome := Some Applied\<rparr>\<rparr>
      in audit_push
           \<lparr>ra_id = 0, ra_observed_at_unix_ms = now, ra_trigger = trigger, ra_outcome = Applied,
            ra_generation_before = before, ra_generation_after = gen,
            ra_candidate_fingerprint = Some fingerprint, ra_changed_fields = changed_fields,
            ra_restart_required_fields = [], ra_message = None\<rparr> r1)"

definition record_unchanged ::
    "ConfigReloadTrigger \<Rightarrow> ConfigReloadOutcome \<Rightarrow> string option \<Rightarrow> string list \<Rightarrow> string list \<Rightarrow>
     string option \<Rightarrow> u128 \<Rightarrow> RuntimeConfigAudit \<Rightarrow> RuntimeConfigAudit" where
  "record_unchanged trigger outcome candidate changed restart message now r =
     (let r1 = r\<lparr>rca_status := (rca_status r)\<lparr>cs_last_reload_at_unix_ms := Some now,
             cs_last_reload_outcome := Some outcome\<rparr>\<rparr>;
          gen = cs_generation (rca_status r1)
      in audit_push
           \<lparr>ra_id = 0, ra_observed_at_unix_ms = now, ra_trigger = trigger, ra_outcome = outcome,
            ra_generation_before = gen, ra_generation_after = gen,
            ra_candidate_fingerprint = candidate, ra_changed_fields = changed,
            ra_restart_required_fields = restart, ra_message = message\<rparr> r1)"

definition record_noop ::
    "ConfigReloadTrigger \<Rightarrow> string \<Rightarrow> u128 \<Rightarrow> RuntimeConfigAudit \<Rightarrow> RuntimeConfigAudit" where
  "record_noop trigger candidate now r = record_unchanged trigger Noop (Some candidate) [] [] None now r"

definition record_restart_required ::
    "ConfigReloadTrigger \<Rightarrow> string \<Rightarrow> string list \<Rightarrow> string list \<Rightarrow> u128 \<Rightarrow> RuntimeConfigAudit \<Rightarrow>
     RuntimeConfigAudit" where
  "record_restart_required trigger candidate changed restart now r =
     record_unchanged trigger RestartRequired (Some candidate) changed restart
       (Some ''configuration changes require a process restart'') now r"

definition record_invalid :: "ConfigReloadTrigger \<Rightarrow> u128 \<Rightarrow> RuntimeConfigAudit \<Rightarrow> RuntimeConfigAudit" where
  "record_invalid trigger now r =
     record_unchanged trigger Invalid None [] [] (Some ''configuration parsing or validation failed'') now r"

definition record_failed :: "ConfigReloadTrigger \<Rightarrow> u128 \<Rightarrow> RuntimeConfigAudit \<Rightarrow> RuntimeConfigAudit" where
  "record_failed trigger now r =
     record_unchanged trigger Failed None [] [] (Some ''runtime configuration commit failed'') now r"

section \<open>Reachable trails\<close>

inductive audit_step :: "RuntimeConfigAudit \<Rightarrow> RuntimeConfigAudit \<Rightarrow> bool" where
  audit_applied: "audit_step r (record_applied trigger gen fingerprint changed now r)"
| audit_noop: "audit_step r (record_noop trigger candidate now r)"
| audit_restart: "audit_step r (record_restart_required trigger candidate changed restart now r)"
| audit_invalid: "audit_step r (record_invalid trigger now r)"
| audit_failed: "audit_step r (record_failed trigger now r)"

inductive_cases audit_step_elim [res_elims]: "audit_step r r'"

inductive audit_reachable :: "u64 \<Rightarrow> RuntimeConfigAudit \<Rightarrow> bool" for gen where
  audit_start: "audit_reachable gen (audit_new gen fingerprint source now)"
| audit_more: "audit_reachable gen r \<Longrightarrow> audit_step r r' \<Longrightarrow> audit_reachable gen r'"

interpretation audit_log: bounded_log RELOAD_AUDIT_LIMIT audit_push rca_audits audit_numbered
  by unfold_locales (simp_all add: RELOAD_AUDIT_LIMIT_def audit_push_def)

interpretation audit_ids: id_source rca_next_id "\<lambda>r. (ra_id (audit_numbered a r), audit_push a r)" for a
  by unfold_locales (simp_all add: audit_push_def audit_numbered_def)

text \<open>The trail as a chain: bounded, linked by generations, ending in the status.\<close>

definition audit_chain :: "RuntimeConfigAudit \<Rightarrow> bool" where
  "audit_chain r \<longleftrightarrow>
     length (rca_audits r) \<le> RELOAD_AUDIT_LIMIT \<and>
     successively (\<lambda>a b. ra_generation_after a = ra_generation_before b \<and> ra_id b = ra_id a + 1) (rca_audits r) \<and>
     (rca_audits r \<noteq> [] \<longrightarrow>
        ra_generation_after (last (rca_audits r)) = cs_generation (rca_status r) \<and>
        ra_id (last (rca_audits r)) = rca_next_id r \<and>
        cs_last_reload_outcome (rca_status r) = Some (ra_outcome (last (rca_audits r)))) \<and>
     (\<forall>a\<in>set (rca_audits r). ra_outcome a \<noteq> Applied \<longrightarrow> ra_generation_before a = ra_generation_after a)"

lemma successively_tl: "successively P xs \<Longrightarrow> successively P (tl xs)"
  by (cases xs) (auto simp: successively_Cons)

lemma audit_chain_push:
  assumes "audit_chain r" and a: "ra_generation_before a = cs_generation (rca_status r)"
    and s: "cs_generation s = ra_generation_after a" "cs_last_reload_outcome s = Some (ra_outcome a)"
    and "ra_outcome a \<noteq> Applied \<Longrightarrow> ra_generation_before a = ra_generation_after a"
  shows "audit_chain (audit_push a (r\<lparr>rca_status := s\<rparr>))"
proof -
  define q where "q = (if length (rca_audits r) = RELOAD_AUDIT_LIMIT then tl (rca_audits r) else rca_audits r)"
  have q: "rca_audits (audit_push a (r\<lparr>rca_status := s\<rparr>)) = q @ [audit_numbered a r]"
    by (simp add: audit_push_def push_bounded_def q_def audit_numbered_def)
  have "length q < RELOAD_AUDIT_LIMIT"
    using assms(1) by (auto simp: q_def audit_chain_def RELOAD_AUDIT_LIMIT_def)
  moreover have suc: "successively (\<lambda>a b. ra_generation_after a = ra_generation_before b \<and> ra_id b = ra_id a + 1) q"
    using assms(1) by (auto simp: q_def audit_chain_def intro: successively_tl)
  moreover have "q \<noteq> [] \<Longrightarrow> last q = last (rca_audits r) \<and> rca_audits r \<noteq> []"
    by (auto simp: q_def last_tl split: if_splits)
  moreover have "set q \<subseteq> set (rca_audits r)"
    by (cases "rca_audits r") (auto simp: q_def)
  ultimately show ?thesis
    using assms unfolding audit_chain_def q
    by (auto simp: successively_append_iff audit_numbered_def audit_push_def)
qed

lemma audit_chain_step: "audit_step r r' \<Longrightarrow> audit_chain r \<Longrightarrow> audit_chain r'"
  by (induction rule: audit_step.induct)
    (auto simp: record_applied_def record_noop_def record_restart_required_def record_invalid_def
      record_failed_def record_unchanged_def Let_def intro!: audit_chain_push)

section \<open>Properties\<close>

text \<open>
  Every reachable audit trail is a chain: it holds at most the last \<open>RELOAD_AUDIT_LIMIT\<close>
  attempts under consecutive ids, each starts from the generation the one before ended with, only
  applied reloads move the generation, and the newest entry agrees with the status.
\<close>

theorem audit_reachable_chain: "audit_reachable gen r \<Longrightarrow> audit_chain r"
proof (induction rule: audit_reachable.induct)
  case (audit_start fingerprint source now)
  then show ?case by (simp add: audit_chain_def audit_new_def)
qed (rule audit_chain_step)

theorem audit_reachable_chain_witness:
  "audit_chain (record_failed Manual 9 (record_applied Sighup 2 ''f'' [''nodes''] 8 (audit_new 1 ''e'' ''file'' 7)))"
  by (rule audit_reachable_chain [OF audit_more [OF audit_more [OF audit_start audit_applied] audit_failed]])

text \<open>
  A reload that was not applied leaves the active configuration as it was: generation,
  fingerprint, source, start and apply times keep their values, and only the marks of the last
  attempt and the trail change.
\<close>

theorem unapplied_keeps_active:
  assumes "audit_step r r'" and "ra_outcome (last (rca_audits r')) \<noteq> Applied"
  shows "cs_generation (rca_status r') = cs_generation (rca_status r) \<and>
    cs_fingerprint (rca_status r') = cs_fingerprint (rca_status r) \<and>
    cs_source (rca_status r') = cs_source (rca_status r) \<and>
    cs_started_at_unix_ms (rca_status r') = cs_started_at_unix_ms (rca_status r) \<and>
    cs_applied_at_unix_ms (rca_status r') = cs_applied_at_unix_ms (rca_status r)"
  using assms
  by (induction rule: audit_step.induct)
    (auto simp: record_applied_def record_noop_def record_restart_required_def record_invalid_def
      record_failed_def record_unchanged_def Let_def audit_push_def push_bounded_def audit_numbered_def)

theorem unapplied_keeps_active_witness:
  "cs_fingerprint (rca_status (record_invalid Sighup 9 (audit_new 1 ''e'' ''file'' 7))) = ''e''"
proof -
  have "ra_outcome (last (rca_audits (record_invalid Sighup 9 (audit_new 1 ''e'' ''file'' 7)))) \<noteq> Applied"
    by code_simp
  from unapplied_keeps_active [OF audit_invalid this] show ?thesis by (simp add: audit_new_def)
qed

end
