(* ===== verification/Dns_Wire.thy ===== *)
theory Dns_Wire
  imports Runtime_State "HOL-Library.Monad_Syntax"
begin

unbundle bit_operations_syntax

text \<open>
  The DNS resolver of \<open>dynet-runtime/src/dns.rs\<close>: reading and building DNS messages, the filter
  that empties AAAA answers denied by a rule, and the race of the enabled upstreams. Offsets are
  \<open>usize\<close> with checked additions; \<open>?\<close> on an \<open>Option\<close> is the option monad. A slice index out of
  range is the failure \<open>SlicePanic\<close>. The network is a parameter: the race consumes the sequence of
  results, deadline and channel closing that \<open>tokio::select!\<close> delivers.

  Reading a name stops because it follows at most eight pointers and otherwise moves forward. The
  lemmas show the round trip of a built query, what the filter and the race return, and that a
  short response makes the filter index out of range.
\<close>

definition DNS_CLASS_IN :: u16 where "DNS_CLASS_IN = 1"
definition DNS_QTYPE_A :: u16 where "DNS_QTYPE_A = 1"
definition DNS_QTYPE_AAAA :: u16 where "DNS_QTYPE_AAAA = 28"

record DnsQueryInfo =
  dq_transaction_id :: u16
  dq_query_name :: string
  dq_query_type :: string

record DnsResponseInfo =
  di_transaction_id :: u16
  di_query_name :: "string option"
  di_query_type :: "string option"
  di_answer_ips :: "IpAddr list"

record DnsResolution =
  dr_response :: bytes
  dr_upstream :: DnsUpstream
  dr_source :: SocketAddr
  dr_query_info :: "DnsQueryInfo option"
  dr_response_info :: "DnsResponseInfo option"
  dr_ipv6_filtered :: bool
  dr_matched_rule_id :: "RuleId option"

datatype DnsFailure = ResolveError string | SlicePanic

section \<open>Reading messages\<close>

definition u16_at :: "bytes \<Rightarrow> nat \<Rightarrow> u16 option" where
  "u16_at packet offset =
     do { e \<leftarrow> usize_checked_add offset 2;
          bs \<leftarrow> get_range packet offset e;
          case bs of [hi, lo] \<Rightarrow> Some (u16_from_be hi lo) | _ \<Rightarrow> None }"

definition transaction_id :: "bytes \<Rightarrow> u16 option" where
  "transaction_id packet = u16_at packet 0"

definition qtype_label :: "u16 \<Rightarrow> string" where
  "qtype_label qtype =
     (if qtype = DNS_QTYPE_A then ''A''
      else if qtype = DNS_QTYPE_AAAA then ''AAAA''
      else if qtype = 5 then ''CNAME''
      else if qtype = 65 then ''HTTPS''
      else show_nat (unat qtype))"

lemma usize_checked_add_Some: "usize_checked_add a b = Some c \<Longrightarrow> c = a + b"
  by (auto simp: usize_checked_add_def split: if_splits)

function read_name_loop ::
    "bytes \<Rightarrow> nat \<Rightarrow> nat option \<Rightarrow> nat \<Rightarrow> string list \<Rightarrow> (string \<times> nat) option" where
  "read_name_loop packet cursor next_offset jumps labels =
     (case get_at packet cursor of
        None \<Rightarrow> None
      | Some len \<Rightarrow>
          if len AND 0xc0 = 0xc0 then
            do { c1 \<leftarrow> usize_checked_add cursor 1;
                 nxt \<leftarrow> get_at packet c1;
                 c2 \<leftarrow> usize_checked_add cursor 2;
                 (let pointer = unat (u16_from_be (len AND 0x3f) nxt);
                      next_offset' = (case next_offset of None \<Rightarrow> Some c2 | Some _ \<Rightarrow> next_offset)
                  in if 8 < jumps + 1 then None
                     else read_name_loop packet pointer next_offset' (jumps + 1) labels) }
          else if len = 0 then
            do { e \<leftarrow> usize_checked_add cursor 1;
                 Some (join_with ''.'' labels, (case next_offset of None \<Rightarrow> e | Some n \<Rightarrow> n)) }
          else (case usize_checked_add cursor 1 of
              None \<Rightarrow> None
            | Some label_start \<Rightarrow>
                (case usize_checked_add label_start (unat len) of
                   None \<Rightarrow> None
                 | Some label_end \<Rightarrow>
                     do { label \<leftarrow> get_range packet label_start label_end;
                          text \<leftarrow> from_utf8 label;
                          read_name_loop packet label_end next_offset jumps
                            (labels @ [to_ascii_lowercase text]) })))"
  by pat_completeness auto
termination
  by (relation "measures [\<lambda>(packet, cursor, next_offset, jumps, labels). 9 - jumps,
      \<lambda>(packet, cursor, next_offset, jumps, labels). length packet - cursor]")
    (auto simp: get_at_Some_iff dest!: usize_checked_add_Some)

declare read_name_loop.simps [simp del]

definition read_name :: "bytes \<Rightarrow> nat \<Rightarrow> (string \<times> nat) option" where
  "read_name packet offset = read_name_loop packet offset None 0 []"

definition sniff_dns_query :: "bytes \<Rightarrow> DnsQueryInfo option" where
  "sniff_dns_query packet =
     do { tid \<leftarrow> transaction_id packet;
          qdcount \<leftarrow> u16_at packet 4;
          if qdcount = 0 then None
          else do { (query_name, offset) \<leftarrow> read_name packet 12;
                    qtype \<leftarrow> u16_at packet offset;
                    Some \<lparr>dq_transaction_id = tid, dq_query_name = query_name,
                          dq_query_type = qtype_label qtype\<rparr> } }"

text \<open>The question loop: the first question's name and type are kept.\<close>

fun read_questions ::
    "bytes \<Rightarrow> nat \<Rightarrow> nat \<Rightarrow> (string \<times> string) option \<Rightarrow> (nat \<times> (string \<times> string) option) option" where
  "read_questions packet 0 offset first = Some (offset, first)"
| "read_questions packet (Suc n) offset first =
     do { (name, nxt) \<leftarrow> read_name packet offset;
          qtype \<leftarrow> u16_at packet nxt;
          offset' \<leftarrow> usize_checked_add nxt 4;
          read_questions packet n offset'
            (case first of None \<Rightarrow> Some (name, qtype_label qtype) | Some _ \<Rightarrow> first) }"

definition answer_ip :: "u16 \<Rightarrow> bytes \<Rightarrow> IpAddr list" where
  "answer_ip answer_type data =
     (if answer_type = DNS_QTYPE_A \<and> length data = 4 then [V4 (v4_from_octets data)]
      else if answer_type = DNS_QTYPE_AAAA \<and> length data = 16 then [V6 (v6_from_octets data)]
      else [])"

fun read_answers :: "bytes \<Rightarrow> nat \<Rightarrow> nat \<Rightarrow> IpAddr list \<Rightarrow> IpAddr list option" where
  "read_answers packet 0 offset answers = Some answers"
| "read_answers packet (Suc n) offset answers =
     do { (_, nxt) \<leftarrow> read_name packet offset;
          answer_type \<leftarrow> u16_at packet nxt;
          len_at \<leftarrow> usize_checked_add nxt 8;
          data_len \<leftarrow> u16_at packet len_at;
          offset' \<leftarrow> usize_checked_add nxt 10;
          data_end \<leftarrow> usize_checked_add offset' (unat data_len);
          data \<leftarrow> get_range packet offset' data_end;
          read_answers packet n data_end (answers @ answer_ip answer_type data) }"

definition sniff_dns_response :: "bytes \<Rightarrow> DnsResponseInfo option" where
  "sniff_dns_response packet =
     do { tid \<leftarrow> transaction_id packet;
          qdcount \<leftarrow> u16_at packet 4;
          ancount \<leftarrow> u16_at packet 6;
          (offset, first) \<leftarrow> read_questions packet (unat qdcount) 12 None;
          answer_ips \<leftarrow> read_answers packet (unat ancount) offset [];
          Some \<lparr>di_transaction_id = tid, di_query_name = map_option fst first,
                di_query_type = map_option snd first, di_answer_ips = answer_ips\<rparr> }"

section \<open>Building a query\<close>

fun query_labels :: "string list \<Rightarrow> bytes option" where
  "query_labels [] = Some []"
| "query_labels (label # labels) =
     (if label = [] \<or> 63 < length label then None
      else do { rest \<leftarrow> query_labels labels;
                Some (of_nat (length label) # as_bytes label @ rest) })"

definition build_a_query :: "string \<Rightarrow> u128 \<Rightarrow> DnsFailure + bytes" where
  "build_a_query domain now =
     (let domain = trim_end_matches CHR ''.'' domain in
      if domain = [] then Err (ResolveError ''domain is empty'')
      else (case query_labels (split_on CHR ''.'' domain) of
          None \<Rightarrow> Err (ResolveError (''invalid DNS label in '' @ domain))
        | Some labels \<Rightarrow>
            Ok (u16_to_be (ucast now) @ u16_to_be 0x0100 @ u16_to_be 1 @ u16_to_be 0 @ u16_to_be 0 @
                u16_to_be 0 @ labels @ [0] @ u16_to_be DNS_QTYPE_A @ u16_to_be DNS_CLASS_IN)))"

section \<open>Filtering and validation\<close>

fun question_end :: "bytes \<Rightarrow> nat \<Rightarrow> nat \<Rightarrow> nat option" where
  "question_end packet 0 offset = Some offset"
| "question_end packet (Suc n) offset =
     do { (_, nxt) \<leftarrow> read_name packet offset;
          offset' \<leftarrow> usize_checked_add nxt 4;
          _ \<leftarrow> get_range packet 0 offset';
          question_end packet n offset' }"

definition dns_question_end :: "bytes \<Rightarrow> nat option" where
  "dns_question_end packet =
     do { qdcount \<leftarrow> u16_at packet 4; question_end packet (unat qdcount) 12 }"

text \<open>\<open>response[6..12].fill(0)\<close>, which panics when the response is shorter.\<close>

definition zero_counts :: "bytes \<Rightarrow> bytes option" where
  "zero_counts response =
     (if 12 \<le> length response then Some (take 6 response @ replicate 6 0 @ drop 12 response) else None)"

definition apply_ipv6_dns_filter :: "DnsResolution \<Rightarrow> RuleId \<Rightarrow> DnsFailure + DnsResolution" where
  "apply_ipv6_dns_filter resolution rule_id =
     (case dns_question_end (dr_response resolution) of
        None \<Rightarrow> Err (ResolveError ''cannot filter malformed AAAA response'')
      | Some e \<Rightarrow>
          (case zero_counts (dr_response resolution) of
             None \<Rightarrow> Err SlicePanic
           | Some zeroed \<Rightarrow>
               (let response = take e zeroed in
                Ok (resolution\<lparr>dr_response := response,
                    dr_response_info := sniff_dns_response response,
                    dr_ipv6_filtered := True, dr_matched_rule_id := Some rule_id\<rparr>))))"

definition validate_response_info ::
    "DnsUpstream \<Rightarrow> DnsQueryInfo option \<Rightarrow> DnsResponseInfo option \<Rightarrow> DnsFailure + unit" where
  "validate_response_info upstream query_info response_info =
     (case (query_info, response_info) of
        (Some query, Some response) \<Rightarrow>
          if dq_transaction_id query \<noteq> di_transaction_id response then
            Err (ResolveError (''DNS response transaction id mismatch from upstream '' @ du_id upstream))
          else Ok ()
      | (Some _, None) \<Rightarrow> Err (ResolveError (''invalid DNS response from upstream '' @ du_id upstream))
      | (None, _) \<Rightarrow> Ok ())"

text \<open>A datagram exchange with an upstream: the socket's answer or its error is the parameter.\<close>

definition query_udp_upstream ::
    "(DnsUpstream \<Rightarrow> bytes \<Rightarrow> string + (bytes \<times> SocketAddr)) \<Rightarrow>
     DnsUpstream \<Rightarrow> bytes \<Rightarrow> DnsQueryInfo option \<Rightarrow> DnsFailure + DnsResolution" where
  "query_udp_upstream exchange upstream query query_info =
     (case exchange upstream query of
        Inl message \<Rightarrow> Err (ResolveError message)
      | Inr (response, source) \<Rightarrow>
          (let response_info = sniff_dns_response response in
           and_then (validate_response_info upstream query_info response_info) (\<lambda>_.
           Ok \<lparr>dr_response = response, dr_upstream = upstream, dr_source = source,
               dr_query_info = query_info, dr_response_info = response_info,
               dr_ipv6_filtered = False, dr_matched_rule_id = None\<rparr>)))"

section \<open>The race\<close>

definition upstream_cmp :: "DnsUpstream \<Rightarrow> DnsUpstream \<Rightarrow> ordering" where
  "upstream_cmp left right =
     then_with (cmp (du_priority left) (du_priority right)) (cmp (du_id left) (du_id right))"

definition enabled_upstreams :: "DnsUpstream list \<Rightarrow> DnsUpstream list" where
  "enabled_upstreams upstreams = sort_by upstream_cmp (filter du_enabled upstreams)"

fun is_fake_ip :: "IpAddr \<Rightarrow> bool" where
  "is_fake_ip (V4 address) \<longleftrightarrow>
     (let octets = v4_octets address in octets ! 0 = 198 \<and> octets ! 1 \<in> {18, 19})"
| "is_fake_ip (V6 _) \<longleftrightarrow> False"

definition only_fake_answers :: "DnsResolution \<Rightarrow> bool" where
  "only_fake_answers resolution =
     (case dr_response_info resolution of
        None \<Rightarrow> False
      | Some info \<Rightarrow> di_answer_ips info \<noteq> [] \<and> list_all is_fake_ip (di_answer_ips info))"

datatype RaceInput = RaceDeadline | RaceClosed | RaceResult "string + DnsResolution"

definition race_end :: "string \<Rightarrow> string option \<Rightarrow> DnsResolution option \<Rightarrow> DnsFailure + DnsResolution" where
  "race_end message last_error fake_candidate =
     (case fake_candidate of
        Some resolution \<Rightarrow> Ok resolution
      | None \<Rightarrow> Err (ResolveError (case last_error of None \<Rightarrow> message | Some e \<Rightarrow> e)))"

definition filter_denied :: "RuleId option \<Rightarrow> DnsResolution \<Rightarrow> DnsFailure + DnsResolution" where
  "filter_denied ipv6_deny_rule resolution =
     (case ipv6_deny_rule of
        None \<Rightarrow> Ok resolution | Some rule_id \<Rightarrow> apply_ipv6_dns_filter resolution rule_id)"

text \<open>The loop over what arrives; without further input it is still waiting.\<close>

fun race_loop ::
    "RuleId option \<Rightarrow> string option \<Rightarrow> DnsResolution option \<Rightarrow> RaceInput list \<Rightarrow>
     (DnsFailure + DnsResolution) option" where
  "race_loop deny last_error fake [] = None"
| "race_loop deny last_error fake (RaceDeadline # inputs) =
     Some (race_end ''timed out waiting for DNS upstream response'' last_error fake)"
| "race_loop deny last_error fake (RaceClosed # inputs) =
     Some (race_end ''all DNS upstreams failed'' last_error fake)"
| "race_loop deny last_error fake (RaceResult (Inl error) # inputs) =
     race_loop deny (Some error) fake inputs"
| "race_loop deny last_error fake (RaceResult (Inr resolution) # inputs) =
     (case filter_denied deny resolution of
        Inl e \<Rightarrow> Some (Err e)
      | Inr resolution' \<Rightarrow>
          if only_fake_answers resolution' then
            race_loop deny last_error
              (case fake of None \<Rightarrow> Some resolution' | Some _ \<Rightarrow> fake) inputs
          else Some (Ok resolution'))"

definition record_dns_resolution :: "DnsResolution \<Rightarrow> RuntimeState \<Rightarrow> RuntimeState" where
  "record_dns_resolution resolution st =
     (case dr_response_info resolution of
        None \<Rightarrow> st
      | Some info \<Rightarrow>
          (case di_query_name info of
             None \<Rightarrow> st
           | Some query_name \<Rightarrow> runtime_record_dns query_name (di_answer_ips info) st))"

definition deny_rule_for :: "RuntimeState \<Rightarrow> DnsQueryInfo option \<Rightarrow> RuleId option" where
  "deny_rule_for st query_info =
     (case query_info of
        None \<Rightarrow> None
      | Some info \<Rightarrow>
          if dq_query_type info = ''AAAA'' then dns_ipv6_deny_rule st (dq_query_name info) else None)"

definition resolve_dns_wire ::
    "RuntimeState \<Rightarrow> bytes \<Rightarrow> RaceInput list \<Rightarrow> (DnsFailure + DnsResolution) option \<times> RuntimeState" where
  "resolve_dns_wire st query inputs =
     (let query_info = sniff_dns_query query;
          deny = deny_rule_for st query_info;
          upstreams = enabled_upstreams (DnsUpstreamStore_snapshot (rg_dns_upstreams (rt_routing st)))
      in if upstreams = [] then
           (Some (Err (ResolveError ''no enabled DNS upstreams are configured'')), st)
         else (case race_loop deny None None inputs of
             Some (Inr resolution) \<Rightarrow> (Some (Ok resolution), record_dns_resolution resolution st)
           | outcome \<Rightarrow> (outcome, st)))"

fun is_ipv4 :: "IpAddr \<Rightarrow> bool" where
  "is_ipv4 (V4 _) = True"
| "is_ipv4 (V6 _) = False"

definition resolve_domain_a ::
    "RuntimeState \<Rightarrow> string \<Rightarrow> u16 \<Rightarrow> u128 \<Rightarrow> RaceInput list \<Rightarrow>
     (DnsFailure + SocketAddr) option \<times> RuntimeState" where
  "resolve_domain_a st domain port now inputs =
     (case build_a_query domain now of
        Inl e \<Rightarrow> (Some (Err e), st)
      | Inr query \<Rightarrow>
          (case resolve_dns_wire st query inputs of
             (None, st') \<Rightarrow> (None, st')
           | (Some (Inl e), st') \<Rightarrow> (Some (Err e), st')
           | (Some (Inr resolution), st') \<Rightarrow>
               (Some (case dr_response_info resolution of
                  None \<Rightarrow> Err (ResolveError (''DNS response for '' @ domain @ '' is invalid''))
                | Some info \<Rightarrow>
                    ok_or (ResolveError (''no A answer resolved for '' @ domain @ '':'' @ show_nat (unat port)))
                      (map_option (\<lambda>address. mk_sockaddr address port)
                        (find is_ipv4 (di_answer_ips info)))), st')))"

section \<open>A built query reads back\<close>

lemma label_length_not_pointer:
  assumes "n \<le> 63"
  shows "(of_nat n :: u8) AND 0xc0 \<noteq> 0xc0"
proof -
  have "list_all (\<lambda>n. (of_nat n :: u8) AND 0xc0 \<noteq> 0xc0) [0..<64]" by code_simp
  then show ?thesis using assms by (auto simp: list_all_iff)
qed

lemma label_length_nonzero: "0 < n \<Longrightarrow> n \<le> 63 \<Longrightarrow> (of_nat n :: u8) \<noteq> 0"
  using unat_of_nat_u8 [of n] by fastforce

lemma get_range_middle:
  "get_range (xs @ ys @ zs) (length xs) (length xs + length ys) = Some ys"
  by (simp add: get_range_def)

lemma u16_at_append:
  assumes "length xs + 2 < 2 ^ 64"
  shows "u16_at (xs @ u16_to_be w @ zs) (length xs) = Some w"
proof -
  obtain a b where ab: "u16_to_be w = [a, b]" by (simp add: u16_to_be_def)
  then have "u16_from_be a b = w" by simp
  with ab assms get_range_middle [of xs "u16_to_be w" zs] show ?thesis
    by (simp add: u16_at_def usize_checked_add_def)
qed

lemma query_labels_length: "query_labels labels = Some bs \<Longrightarrow> label \<in> set labels \<Longrightarrow>
  label \<noteq> [] \<and> length label \<le> 63"
  by (induction labels arbitrary: bs) (auto split: if_splits bind_splits)

lemma read_built_name:
  "query_labels labels = Some bs \<Longrightarrow> \<forall>l\<in>set labels. utf8_valid (as_bytes l) \<Longrightarrow>
   length pre + length bs + 1 < 2 ^ 64 \<Longrightarrow>
   read_name_loop (pre @ bs @ 0 # post) (length pre) None j acc =
     Some (join_with ''.'' (acc @ map to_ascii_lowercase labels), length pre + length bs + 1)"
proof (induction labels arbitrary: pre bs acc)
  case Nil
  then show ?case
    by (subst read_name_loop.simps) (simp add: get_at_def usize_checked_add_def)
next
  case (Cons label labels)
  from Cons.prems(1) obtain rest where rest: "query_labels labels = Some rest"
    and bs: "bs = of_nat (length label) # as_bytes label @ rest"
    and len: "0 < length label" "length label \<le> 63"
    by (auto split: if_splits bind_splits)
  let ?n = "of_nat (length label) :: u8"
  let ?pre = "pre @ ?n # as_bytes label"
  let ?packet = "pre @ bs @ 0 # post"
  have packet: "?packet = ?pre @ rest @ 0 # post" by (simp add: bs)
  have n: "unat ?n = length label" using len by (intro unat_of_nat_u8) simp
  have at: "get_at ?packet (length pre) = Some ?n" by (simp add: bs get_at_def nth_append)
  have small: "usize_checked_add (length pre) (Suc 0) = Some (Suc (length pre))"
    "usize_checked_add (Suc (length pre)) (length label) = Some (Suc (length pre + length label))"
    using Cons.prems(3) by (simp_all add: bs usize_checked_add_def)
  have range: "get_range ?packet (Suc (length pre)) (Suc (length pre + length label)) = Some (as_bytes label)"
    using get_range_middle [of "pre @ [?n]" "as_bytes label" "rest @ 0 # post"] by (simp add: bs)
  have utf: "from_utf8 (as_bytes label) = Some label"
    using Cons.prems(2) by (simp add: from_utf8_as_bytes)
  have "read_name_loop ?packet (length pre) None j acc =
      read_name_loop ?packet (Suc (length pre + length label)) None j (acc @ [to_ascii_lowercase label])"
    by (subst read_name_loop.simps)
      (simp add: at label_length_not_pointer [OF len(2)] label_length_nonzero [OF len] small n range utf
        del: append_assoc)
  also have "\<dots> = read_name_loop (?pre @ rest @ 0 # post) (length ?pre) None j (acc @ [to_ascii_lowercase label])"
    unfolding packet by simp
  also have "\<dots> = Some (join_with ''.'' ((acc @ [to_ascii_lowercase label]) @ map to_ascii_lowercase labels),
      length ?pre + length rest + 1)"
    using Cons.prems by (intro Cons.IH rest) (auto simp: bs)
  finally show ?case by (simp add: bs)
qed

lemma dot_ascii: "unat (of_char CHR ''.'' :: u8) < 128" "ascii_lower_char CHR ''.'' = CHR ''.''"
  by (simp_all add: ascii_lower_char_def)

section \<open>Properties\<close>

text \<open>
  A query built for a domain reads back as that domain: the sniffer returns the transaction
  id taken from the clock, the domain without trailing dots in ASCII lower case, and type A.
\<close>

theorem dns_query_roundtrip:
  assumes "utf8_valid (as_bytes domain)" and "build_a_query domain now = Inr q" and "length q < 2 ^ 64"
  shows "sniff_dns_query q =
    Some \<lparr>dq_transaction_id = ucast now,
          dq_query_name = to_ascii_lowercase (trim_end_matches CHR ''.'' domain),
          dq_query_type = ''A''\<rparr>"
proof -
  let ?d = "trim_end_matches CHR ''.'' domain"
  let ?h = "u16_to_be (ucast now) @ u16_to_be 0x0100 @ u16_to_be 1 @ u16_to_be 0 @ u16_to_be 0 @ u16_to_be 0"
  from assms(2) obtain bs where bs: "query_labels (split_on CHR ''.'' ?d) = Some bs"
    and q: "q = ?h @ bs @ 0 # u16_to_be DNS_QTYPE_A @ u16_to_be DNS_CLASS_IN"
    by (auto simp: build_a_query_def Let_def split: if_splits option.splits)
  have utf: "\<forall>l\<in>set (split_on CHR ''.'' ?d). utf8_valid (as_bytes l)"
    using utf8_valid_split_on [OF dot_ascii(1)] utf8_valid_trim_end_matches [OF dot_ascii(1) assms(1)] by blast
  have len: "length ?h = 12" by simp
  have small: "12 + length bs + 5 < 2 ^ 64" using assms(3) by (simp add: q)
  have "read_name q 12 = Some (join_with ''.'' (map to_ascii_lowercase (split_on CHR ''.'' ?d)), 12 + length bs + 1)"
    using read_built_name [OF bs utf, of ?h "u16_to_be DNS_QTYPE_A @ u16_to_be DNS_CLASS_IN" 0 "[]"] small
    unfolding read_name_def q len by simp
  then have name: "read_name q 12 = Some (to_ascii_lowercase ?d, 12 + length bs + 1)"
    using join_to_ascii_lowercase [OF dot_ascii(2)] join_split_on [of "CHR ''.''" ?d] by simp
  have tid: "u16_at q 0 = Some (ucast now)"
    using u16_at_append [of "[]" "ucast now"] by (simp add: q)
  have qd: "u16_at q 4 = Some 1"
    using u16_at_append [of "u16_to_be (ucast now) @ u16_to_be 0x0100" 1] by (simp add: q)
  have "length (?h @ bs @ [0]) = 12 + length bs + 1" by simp
  with u16_at_append [of "?h @ bs @ [0]" DNS_QTYPE_A "u16_to_be DNS_CLASS_IN"] small
  have ty: "u16_at q (12 + length bs + 1) = Some DNS_QTYPE_A"
    unfolding q by (simp only: append_assoc append_Cons append_Nil)
  show ?thesis
    by (simp add: sniff_dns_query_def transaction_id_def tid qd name ty [simplified] qtype_label_def)
qed

theorem dns_query_roundtrip_witness:
  "sniff_dns_query (projr (build_a_query ''Example.COM.'' 4660)) =
     Some \<lparr>dq_transaction_id = 4660, dq_query_name = ''example.com'', dq_query_type = ''A''\<rparr>"
proof -
  let ?q = "build_a_query ''Example.COM.'' 4660"
  have q: "?q = Inr (projr ?q)" "length (projr ?q) < 2 ^ 64" "utf8_valid (as_bytes ''Example.COM.'')"
    by code_simp+
  have "to_ascii_lowercase (trim_end_matches CHR ''.'' ''Example.COM.'') = ''example.com''"
    "(ucast (4660 :: u128) :: u16) = 4660"
    by code_simp+
  with dns_query_roundtrip [OF q(3,1,2)] show ?thesis by simp
qed

lemma u16_at_nth:
  assumes "offset + 2 \<le> length packet" "offset + 2 < 2 ^ 64"
  shows "u16_at packet offset = Some (u16_from_be (packet ! offset) (packet ! Suc offset))"
proof -
  have "take 2 (drop offset packet) = [packet ! offset, packet ! Suc offset]"
    using assms(1) by (simp add: numeral_2_eq_2 take_Suc_conv_app_nth)
  then show ?thesis
    using assms by (simp add: u16_at_def usize_checked_add_def get_range_def)
qed

lemma u16_at_length: "u16_at packet offset = Some w \<Longrightarrow> offset + 2 \<le> length packet"
  by (auto simp: u16_at_def get_range_Some_iff split: bind_splits dest!: usize_checked_add_Some)

lemma read_name_in_packet: "read_name packet offset = Some r \<Longrightarrow> offset < length packet"
  unfolding read_name_def
  by (subst (asm) read_name_loop.simps) (auto simp: get_at_Some_iff split: option.splits)

lemma u16_zero: "u16_from_be 0 0 = 0"
  by (simp add: u16_from_be_def)

lemma zero_counts_ancount:
  assumes "zero_counts response = Some z" "u16_at (take e z) 6 = Some an"
  shows "an = 0"
proof -
  have z: "z = take 6 response @ replicate 6 0 @ drop 12 response" "12 \<le> length response"
    using assms(1) by (auto simp: zero_counts_def split: if_splits)
  have len: "8 \<le> length (take e z)" using u16_at_length [OF assms(2)] by simp
  then have "take e z ! 6 = z ! 6" "take e z ! 7 = z ! 7" by auto
  moreover have "z ! 6 = 0" "z ! 7 = 0" using z(2) by (simp_all add: z(1) nth_append)
  ultimately show ?thesis
    using u16_at_nth [of 6 "take e z"] len assms(2) by (simp add: u16_zero)
qed

lemma filtered_answers:
  assumes "apply_ipv6_dns_filter r rule = Inr r'"
  shows "dr_ipv6_filtered r' \<and> dr_matched_rule_id r' = Some rule \<and>
    (\<forall>info. dr_response_info r' = Some info \<longrightarrow> di_answer_ips info = [])"
proof -
  from assms obtain e z where z: "zero_counts (dr_response r) = Some z"
    and r': "r' = r\<lparr>dr_response := take e z, dr_response_info := sniff_dns_response (take e z),
      dr_ipv6_filtered := True, dr_matched_rule_id := Some rule\<rparr>"
    by (auto simp: apply_ipv6_dns_filter_def Let_def split: option.splits)
  have "di_answer_ips info = []" if "sniff_dns_response (take e z) = Some info" for info
    using that zero_counts_ancount [OF z, of e]
    by (auto simp: sniff_dns_response_def split: bind_splits)
  with r' show ?thesis by simp
qed

lemma filtered_not_fake: "apply_ipv6_dns_filter r rule = Inr r' \<Longrightarrow> \<not> only_fake_answers r'"
  using filtered_answers [of r rule r'] by (auto simp: only_fake_answers_def split: option.splits)

lemma race_denied:
  "race_loop (Some rule) le None inputs = Some (Inr r) \<Longrightarrow> \<exists>r0. apply_ipv6_dns_filter r0 rule = Inr r"
proof (induction inputs arbitrary: le)
  case (Cons i inputs)
  show ?case
  proof (cases i)
    case (RaceResult res)
    show ?thesis
    proof (cases res)
      case (Inl e)
      with Cons RaceResult show ?thesis by simp
    next
      case (Inr r0)
      with Cons.prems RaceResult have "apply_ipv6_dns_filter r0 rule = Inr r"
        by (auto simp: filter_denied_def filtered_not_fake split: sum.splits)
      then show ?thesis by blast
    qed
  qed (use Cons.prems in \<open>auto simp: race_end_def\<close>)
qed simp

text \<open>
  C19. A denied AAAA query yields no addresses: when a rule denies IPv6 for the queried name, a
  successful resolution is the filtered one, marked with that rule and empty of answers, and the
  observed DNS map does not change.
\<close>

theorem denied_query_has_no_answers:
  assumes "deny_rule_for st (sniff_dns_query query) = Some rule"
    and "fst (resolve_dns_wire st query inputs) = Some (Inr r)"
  shows "dr_ipv6_filtered r \<and> dr_matched_rule_id r = Some rule \<and>
    (\<forall>info. dr_response_info r = Some info \<longrightarrow> di_answer_ips info = []) \<and>
    snd (resolve_dns_wire st query inputs) = st"
proof -
  from assms have race: "race_loop (Some rule) None None inputs = Some (Inr r)"
    and st: "snd (resolve_dns_wire st query inputs) = record_dns_resolution r st"
    by (auto simp: resolve_dns_wire_def Let_def split: if_splits option.splits sum.splits)
  then obtain r0 where "apply_ipv6_dns_filter r0 rule = Inr r" using race_denied by blast
  note empty = filtered_answers [OF this]
  then have "record_dns_resolution r st = st"
    by (auto simp: record_dns_resolution_def runtime_record_dns_def ObservedDnsMap_record_def
        split: option.splits)
  with empty st show ?thesis by simp
qed

definition aaaa_query :: bytes where
  "aaaa_query = [0, 7, 1, 0, 0, 1, 0, 0, 0, 0, 0, 0, 1, 97, 0, 0, 28, 0, 1]"

definition aaaa_response :: bytes where
  "aaaa_response = [0, 7, 1, 0, 0, 1, 0, 1, 0, 0, 0, 0, 1, 97, 0, 0, 28, 0, 1] @
     [0xc0, 12, 0, 28, 0, 1, 0, 0, 0, 9, 0, 16] @ replicate 16 1"

definition deny_state :: RuntimeState where
  "deny_state = RuntimeState_from_seed ((RuntimeSeed_single_node ''n'')\<lparr>rs_ipv6_enabled := True,
     rs_route_rules := [\<lparr>rr_id = ''no6'', rr_priority = 1, rr_enabled = True,
       rr_matcher = DomainExact ''a'', rr_group_id = ''default'', rr_ipv6 = Deny\<rparr>]\<rparr>)"

definition aaaa_resolution :: DnsResolution where
  "aaaa_resolution = projr (query_udp_upstream (\<lambda>_ _. Inr (aaaa_response, mk_sockaddr (V4 1) 53))
     (hd default_dns_upstreams) aaaa_query (sniff_dns_query aaaa_query))"

theorem denied_query_has_no_answers_witness:
  "snd (resolve_dns_wire deny_state aaaa_query [RaceResult (Inr aaaa_resolution)]) = deny_state"
proof -
  let ?o = "fst (resolve_dns_wire deny_state aaaa_query [RaceResult (Inr aaaa_resolution)])"
  have rule: "deny_rule_for deny_state (sniff_dns_query aaaa_query) = Some ''no6''" by code_simp
  have "?o \<noteq> None \<and> \<not> isl (the ?o)" by code_simp
  then have ok: "?o = Some (Inr (projr (the ?o)))" by auto
  from denied_query_has_no_answers [OF rule ok] show ?thesis by blast
qed

text \<open>
  The filter indexes out of range on short responses: it panics exactly when the response
  claims no question and is shorter than a DNS header.
\<close>

theorem ipv6_filter_panics_iff:
  "apply_ipv6_dns_filter r rule = Inl SlicePanic \<longleftrightarrow>
     u16_at (dr_response r) 4 = Some 0 \<and> length (dr_response r) < 12"
proof (cases "u16_at (dr_response r) 4")
  case None
  then show ?thesis by (simp add: apply_ipv6_dns_filter_def dns_question_end_def)
next
  case (Some qd)
  show ?thesis
  proof (cases "unat qd")
    case 0
    then have "qd = 0" by (simp add: unat_eq_zero)
    with Some show ?thesis
      by (auto simp: apply_ipv6_dns_filter_def dns_question_end_def zero_counts_def Let_def)
  next
    case (Suc n)
    have "12 \<le> length (dr_response r)" if "dns_question_end (dr_response r) = Some e" for e
      using that Some Suc
      by (auto simp: dns_question_end_def split: bind_splits dest!: read_name_in_packet)
    with Some Suc show ?thesis
      by (auto simp: apply_ipv6_dns_filter_def zero_counts_def Let_def split: option.splits)
  qed
qed

text \<open>
  Such a response gets through to the filter: eight bytes with the query's transaction id and
  zero counts pass the checks on an upstream's answer, and when a rule denies the query the race
  ends in the panic whatever arrives later.
\<close>

theorem short_response_panics_race:
  fixes q rule u query src f1 f2 inputs
  defines "resp \<equiv> u16_to_be (dq_transaction_id q) @ [f1, f2, 0, 0, 0, 0]"
  shows "\<exists>r. query_udp_upstream (\<lambda>_ _. Inr (resp, src)) u query (Some q) = Inr r \<and>
    race_loop (Some rule) None None (RaceResult (Inr r) # inputs) = Some (Inl SlicePanic)"
proof -
  have tid: "u16_at resp 0 = Some (dq_transaction_id q)"
    using u16_at_append [of "[]" "dq_transaction_id q"] by (simp add: resp_def)
  have zero: "u16_at resp 4 = Some 0" "u16_at resp 6 = Some 0"
    using u16_at_nth [of 4 resp] u16_at_nth [of 6 resp] by (simp_all add: resp_def nth_append u16_zero)
  have "sniff_dns_response resp =
      Some \<lparr>di_transaction_id = dq_transaction_id q, di_query_name = None, di_query_type = None,
        di_answer_ips = []\<rparr>"
    by (simp add: sniff_dns_response_def transaction_id_def tid zero)
  then obtain r where r: "query_udp_upstream (\<lambda>_ _. Inr (resp, src)) u query (Some q) = Inr r"
    "dr_response r = resp"
    by (simp add: query_udp_upstream_def validate_response_info_def)
  have "apply_ipv6_dns_filter r rule = Inl SlicePanic"
    by (simp add: apply_ipv6_dns_filter_def dns_question_end_def r(2) zero zero_counts_def)
      (simp add: resp_def)
  with r show ?thesis by (auto simp: filter_denied_def)
qed

section \<open>The outcome of a race\<close>

definition successes :: "(string + DnsResolution) list \<Rightarrow> DnsResolution list" where
  "successes results = concat (map (\<lambda>x. case x of Inl _ \<Rightarrow> [] | Inr r \<Rightarrow> [r]) results)"

definition failures :: "(string + DnsResolution) list \<Rightarrow> string list" where
  "failures results = concat (map (\<lambda>x. case x of Inl e \<Rightarrow> [e] | Inr _ \<Rightarrow> []) results)"

lemma results_simps [simp]:
  "successes [] = []" "successes (Inl e # rs) = successes rs" "successes (Inr r # rs) = r # successes rs"
  "failures [] = []" "failures (Inl e # rs) = e # failures rs" "failures (Inr r # rs) = failures rs"
  by (simp_all add: successes_def failures_def)

definition race_stop :: "bool \<Rightarrow> RaceInput" where
  "race_stop timed_out = (if timed_out then RaceDeadline else RaceClosed)"

definition race_message :: "bool \<Rightarrow> string" where
  "race_message timed_out =
     (if timed_out then ''timed out waiting for DNS upstream response'' else ''all DNS upstreams failed'')"

lemma race_loop_results:
  "race_loop None le fake (map RaceResult results @ race_stop timed_out # rest) =
   Some (case find (\<lambda>r. \<not> only_fake_answers r) (successes results) of
      Some r \<Rightarrow> Inr r
    | None \<Rightarrow> race_end (race_message timed_out)
        (if failures results = [] then le else Some (last (failures results)))
        (case fake of Some f \<Rightarrow> Some f
         | None \<Rightarrow> (case successes results of [] \<Rightarrow> None | r # _ \<Rightarrow> Some r)))"
proof (induction results arbitrary: le fake)
  case Nil
  then show ?case by (cases fake) (simp_all add: race_stop_def race_message_def)
next
  case (Cons res results)
  show ?case
  proof (cases res)
    case (Inl e)
    then show ?thesis
      by (cases fake; cases "find (\<lambda>r. \<not> only_fake_answers r) (successes results)")
        (simp_all add: Cons.IH)
  next
    case (Inr r)
    then show ?thesis
      by (cases fake) (simp_all add: Cons.IH filter_denied_def split: option.splits)
  qed
qed

text \<open>
  The race prefers real answers: with no denying rule, when results arrive and then the
  deadline strikes or the last upstream is done, the outcome is the first result whose answers are
  not all from the fake range; failing that the first successful result; and only when every
  upstream failed an error, the last one reported.
\<close>

theorem race_outcome:
  "race_loop None None None (map RaceResult results @ race_stop timed_out # rest) =
   Some (case find (\<lambda>r. \<not> only_fake_answers r) (successes results) of
      Some r \<Rightarrow> Inr r
    | None \<Rightarrow>
        (case successes results of
           r # _ \<Rightarrow> Inr r
         | [] \<Rightarrow> Inl (ResolveError
             (if failures results = [] then race_message timed_out else last (failures results)))))"
  by (simp add: race_loop_results race_end_def split: option.splits list.splits)

end
