(* ===== verification/Dns_Https.thy ===== *)
theory Dns_Https
  imports Dns_Wire
begin

text \<open>
  The response parser of the DNS-over-HTTPS client, \<open>dynet-runtime/src/dns/https.rs\<close>: finding the
  end of the HTTP headers, the status check, and the decoding of a chunked body. The TLS exchange
  that delivers the bytes is a parameter. Every error text of the source is one constructor of
  \<open>HttpsError\<close>. The decoding loop ends because each chunk moves the cursor forward; the lemmas show
  that it inverts the chunked encoding.
\<close>

definition HTTP_HEADER_LIMIT :: nat where "HTTP_HEADER_LIMIT = 64 * 1024"

datatype HttpsError =
    MissingHeaders | HeadersTooLarge | HeadersNotUtf8 | StatusNotOk string
  | InvalidChunkedBody | InvalidChunkSize | ExchangeFailed string

text \<open>\<open>windows(n).position(|w| w == pat)\<close> on a pattern of \<open>n\<close> bytes.\<close>

fun find_window :: "'a list \<Rightarrow> 'a list \<Rightarrow> nat option" where
  "find_window pat xs =
     (if length xs < length pat then None
      else if prefix pat xs then Some 0
      else (case xs of [] \<Rightarrow> None | _ # ys \<Rightarrow> map_option Suc (find_window pat ys)))"

declare find_window.simps [simp del]

definition crlf :: bytes where "crlf = [13, 10]"

text \<open>\<open>str::split\<close> by a string pattern, and \<open>str::lines\<close>.\<close>

function split_str :: "string \<Rightarrow> string \<Rightarrow> string list" where
  "split_str pat s =
     (if pat = [] then [s]
      else (case find_window pat s of
          None \<Rightarrow> [s]
        | Some i \<Rightarrow> take i s # split_str pat (drop (i + length pat) s)))"
  by pat_completeness auto

lemma find_window_Some:
  "find_window pat xs = Some i \<Longrightarrow> i + length pat \<le> length xs \<and> prefix pat (drop i xs)"
proof (induction pat xs arbitrary: i rule: find_window.induct)
  case (1 pat xs)
  then show ?case
    by (subst (asm) (2) find_window.simps) (auto split: if_splits list.splits)
qed

termination split_str
  by (relation "measure (length \<circ> snd)") (auto dest!: find_window_Some simp flip: length_greater_0_conv)

declare split_str.simps [simp del]

definition strip_cr :: "string \<Rightarrow> string" where
  "strip_cr s = (if s \<noteq> [] \<and> last s = CHR 0x0D then butlast s else s)"

definition str_lines :: "string \<Rightarrow> string list" where
  "str_lines s =
     (let parts = split_on CHR 0x0A s
      in map strip_cr (butlast parts) @ (if last parts = [] then [] else [last parts]))"

fun hex_digits :: "nat \<Rightarrow> string \<Rightarrow> nat option" where
  "hex_digits acc [] = Some acc"
| "hex_digits acc (c # cs) =
     (case hex_value c of None \<Rightarrow> None | Some d \<Rightarrow> hex_digits (acc * 16 + d) cs)"

text \<open>\<open>usize::from_str_radix(s, 16)\<close>.\<close>

definition parse_hex :: "string \<Rightarrow> nat option" where
  "parse_hex s =
     (let ds = (case s of c # cs \<Rightarrow> if c = CHR ''+'' then cs else s | [] \<Rightarrow> [])
      in if ds = [] then None
         else case hex_digits 0 ds of None \<Rightarrow> None | Some n \<Rightarrow> if n < 2 ^ 64 then Some n else None)"

section \<open>The parser\<close>

definition has_chunked_transfer_encoding :: "string \<Rightarrow> bool" where
  "has_chunked_transfer_encoding headers =
     (\<exists>line\<in>set (str_lines headers).
        case split_once CHR '':'' line of
          None \<Rightarrow> False
        | Some (name, value) \<Rightarrow>
            eq_ignore_ascii_case name ''transfer-encoding'' \<and>
            (\<exists>part\<in>set (split_on CHR '','' value). eq_ignore_ascii_case (trim part) ''chunked''))"

function decode_chunks :: "bytes \<Rightarrow> nat \<Rightarrow> bytes \<Rightarrow> HttpsError + bytes" where
  "decode_chunks body cursor decoded =
     (case find_window crlf (drop cursor body) of
        None \<Rightarrow> Err InvalidChunkedBody
      | Some offset \<Rightarrow>
          (let line_end = cursor + offset in
           case from_utf8 (take offset (drop cursor body)) of
             None \<Rightarrow> Err InvalidChunkSize
           | Some size_line \<Rightarrow>
               (case parse_hex (hd (split_on CHR '';'' size_line)) of
                  None \<Rightarrow> Err InvalidChunkSize
                | Some sz \<Rightarrow>
                    (let cursor' = line_end + 2 in
                     if sz = 0 then Ok decoded
                     else (case usize_checked_add cursor' sz of
                         None \<Rightarrow> Err InvalidChunkedBody
                       | Some chunk_end \<Rightarrow>
                           (case usize_checked_add chunk_end 2 of
                              None \<Rightarrow> Err InvalidChunkedBody
                            | Some trailer_end \<Rightarrow>
                                if get_range body chunk_end trailer_end \<noteq> Some crlf then Err InvalidChunkedBody
                                else (case get_range body cursor' chunk_end of
                                    None \<Rightarrow> Err InvalidChunkedBody
                                  | Some chunk \<Rightarrow> decode_chunks body trailer_end (decoded @ chunk))))))))"
  by pat_completeness auto
termination
  by (relation "measure (\<lambda>(body, cursor, decoded). length body - cursor)")
    (auto simp: get_range_Some_iff crlf_def dest!: usize_checked_add_Some find_window_Some)

declare decode_chunks.simps [simp del]

definition decode_chunked_body :: "bytes \<Rightarrow> HttpsError + bytes" where
  "decode_chunked_body body = decode_chunks body 0 []"

definition parse_https_dns_response :: "bytes \<Rightarrow> HttpsError + bytes" where
  "parse_https_dns_response response =
     (case find_window (crlf @ crlf) response of
        None \<Rightarrow> Err MissingHeaders
      | Some header_end \<Rightarrow>
          if HTTP_HEADER_LIMIT < header_end then Err HeadersTooLarge
          else (case from_utf8 (take header_end response) of
              None \<Rightarrow> Err HeadersNotUtf8
            | Some headers \<Rightarrow>
                (let status = hd (split_str [CHR 0x0D, CHR 0x0A] headers) in
                 if \<not> sublist '' 200 '' status then Err (StatusNotOk status)
                 else (let body = drop (header_end + 4) response in
                       if has_chunked_transfer_encoding headers then decode_chunked_body body
                       else Ok body))))"

text \<open>The request the client writes, and the query through an exchange over TLS.\<close>

definition https_request :: "string \<Rightarrow> string \<Rightarrow> bytes \<Rightarrow> bytes" where
  "https_request host path query =
     (let nl = [CHR 0x0D, CHR 0x0A] in
      as_bytes (''POST '' @ path @ '' HTTP/1.1'' @ nl @ ''Host: '' @ host @ nl @
        ''Accept: application/dns-message'' @ nl @ ''Content-Type: application/dns-message'' @ nl @
        ''Content-Length: '' @ show_nat (length query) @ nl @ ''Connection: close'' @ nl @ nl) @ query)"

definition query_https_upstream_inner ::
    "(DnsUpstream \<Rightarrow> bytes \<Rightarrow> string + bytes) \<Rightarrow> DnsUpstream \<Rightarrow> string \<Rightarrow> string \<Rightarrow> bytes \<Rightarrow>
     HttpsError + bytes" where
  "query_https_upstream_inner tls_exchange upstream host path query =
     (case tls_exchange upstream (https_request host path query) of
        Inl message \<Rightarrow> Err (ExchangeFailed message)
      | Inr response \<Rightarrow> parse_https_dns_response response)"

datatype HttpsQueryError = HttpsFailure HttpsError | HttpsInvalid DnsFailure

definition query_https_upstream ::
    "(DnsUpstream \<Rightarrow> bytes \<Rightarrow> string + bytes) \<Rightarrow> DnsUpstream \<Rightarrow> string \<Rightarrow> string \<Rightarrow> bytes \<Rightarrow>
     DnsQueryInfo option \<Rightarrow> HttpsQueryError + DnsResolution" where
  "query_https_upstream tls_exchange upstream host path query query_info =
     (case query_https_upstream_inner tls_exchange upstream host path query of
        Inl e \<Rightarrow> Err (HttpsFailure e)
      | Inr response \<Rightarrow>
          (let response_info = sniff_dns_response response in
           case validate_response_info upstream query_info response_info of
             Inl e \<Rightarrow> Err (HttpsInvalid e)
           | Inr _ \<Rightarrow>
               Ok \<lparr>dr_response = response, dr_upstream = upstream, dr_source = du_address upstream,
                   dr_query_info = query_info, dr_response_info = response_info,
                   dr_ipv6_filtered = False, dr_matched_rule_id = None\<rparr>))"

text \<open>The dispatch on the upstream's transport.\<close>

datatype UpstreamError = UdpFailed DnsFailure | HttpsFailed HttpsQueryError

definition query_upstream ::
    "(DnsUpstream \<Rightarrow> bytes \<Rightarrow> string + (bytes \<times> SocketAddr)) \<Rightarrow> (DnsUpstream \<Rightarrow> bytes \<Rightarrow> string + bytes) \<Rightarrow>
     DnsUpstream \<Rightarrow> bytes \<Rightarrow> DnsQueryInfo option \<Rightarrow> UpstreamError + DnsResolution" where
  "query_upstream udp_exchange tls_exchange upstream query query_info =
     (case du_transport upstream of
        Udp \<Rightarrow> map_err UdpFailed (query_udp_upstream udp_exchange upstream query query_info)
      | Https endpoint \<Rightarrow>
          map_err HttpsFailed
            (query_https_upstream tls_exchange upstream (he_host endpoint) (he_path endpoint) query query_info))"

section \<open>Chunked encoding\<close>

text \<open>The encoding of RFC 9112: each chunk with its hexadecimal length, a last chunk of length zero,
  and whatever trailer follows.\<close>

definition encode_chunks :: "bytes list \<Rightarrow> bytes \<Rightarrow> bytes" where
  "encode_chunks chunks trailer =
     concat (map (\<lambda>c. as_bytes (show_hex (length c)) @ crlf @ c @ crlf) chunks) @
     as_bytes ''0'' @ crlf @ trailer"

lemma hex_char_facts:
  assumes "d < 16"
  shows "hex_value (hex_char d) = Some d" "hex_char d \<noteq> CHR '';''" "hex_char d \<noteq> CHR ''+''"
    "(of_char (hex_char d) :: nat) < 128" "(of_char (hex_char d) :: u8) \<noteq> 13"
proof -
  have "list_all (\<lambda>d. hex_value (hex_char d) = Some d \<and> hex_char d \<noteq> CHR '';'' \<and> hex_char d \<noteq> CHR ''+'' \<and>
      (of_char (hex_char d) :: nat) < 128 \<and> (of_char (hex_char d) :: u8) \<noteq> 13) [0..<16]"
    by code_simp
  then show "hex_value (hex_char d) = Some d" "hex_char d \<noteq> CHR '';''" "hex_char d \<noteq> CHR ''+''"
    "(of_char (hex_char d) :: nat) < 128" "(of_char (hex_char d) :: u8) \<noteq> 13"
    using assms by (auto simp: list_all_iff)
qed

lemma show_hex_digits: "c \<in> set (show_hex n) \<Longrightarrow> \<exists>d<16. c = hex_char d"
proof (induction n rule: show_hex.induct)
  case (1 n)
  show ?case
  proof (cases "n < 16")
    case True
    with 1 show ?thesis by (auto simp: show_hex.simps [of n])
  next
    case False
    with 1(2) have "c \<in> set (show_hex (n div 16)) \<or> c = hex_char (n mod 16)"
      by (auto simp: show_hex.simps [of n])
    moreover have "n mod 16 < 16" by simp
    ultimately show ?thesis using 1(1) [OF False] by blast
  qed
qed

lemma show_hex_not_Nil [simp]: "show_hex n \<noteq> []"
  by (subst show_hex.simps) simp

lemma hex_digits_append:
  "hex_digits acc (xs @ ys) = (case hex_digits acc xs of None \<Rightarrow> None | Some n \<Rightarrow> hex_digits n ys)"
  by (induction xs arbitrary: acc) (auto split: option.splits)

lemma hex_digits_show: "hex_digits 0 (show_hex n) = Some n"
proof (induction n rule: show_hex.induct)
  case (1 n)
  then show ?case
    by (cases "n < 16") (simp_all add: show_hex.simps [of n] hex_digits_append hex_char_facts)
qed

lemma parse_show_hex: "n < 2 ^ 64 \<Longrightarrow> parse_hex (show_hex n) = Some n"
proof -
  assume n: "n < 2 ^ 64"
  obtain c cs where c: "show_hex n = c # cs" by (cases "show_hex n") auto
  then have "c \<noteq> CHR ''+''" using show_hex_digits [of c n] hex_char_facts(3) by auto
  with c n hex_digits_show [of n] show ?thesis by (simp add: parse_hex_def)
qed

lemma utf8_valid_ascii: "\<forall>c\<in>set s. (of_char c :: nat) < 128 \<Longrightarrow> utf8_valid (as_bytes s)"
  by (induction s) (auto simp: as_bytes_def in_rng_def)

lemma find_crlf_first: "13 \<notin> set xs \<Longrightarrow> find_window crlf (xs @ crlf @ r) = Some (length xs)"
proof (induction xs)
  case Nil
  then show ?case by (subst find_window.simps) (simp add: crlf_def)
next
  case (Cons x xs)
  then show ?case by (subst find_window.simps) (auto simp: crlf_def)
qed

lemma size_line:
  assumes "n < 2 ^ 64"
  shows "find_window crlf (as_bytes (show_hex n) @ crlf @ r) = Some (length (show_hex n))"
    and "from_utf8 (as_bytes (show_hex n)) = Some (show_hex n)"
    and "parse_hex (hd (split_on CHR '';'' (show_hex n))) = Some n"
proof -
  have "13 \<notin> set (as_bytes (show_hex n))"
    using show_hex_digits [of _ n] hex_char_facts(5) by (fastforce simp: as_bytes_def)
  then show "find_window crlf (as_bytes (show_hex n) @ crlf @ r) = Some (length (show_hex n))"
    using find_crlf_first by fastforce
  show "from_utf8 (as_bytes (show_hex n)) = Some (show_hex n)"
    by (rule from_utf8_as_bytes, rule utf8_valid_ascii)
      (use show_hex_digits [of _ n] hex_char_facts(4) in fastforce)
  have "CHR '';'' \<notin> set (show_hex n)"
    using show_hex_digits [of _ n] hex_char_facts(2) by fastforce
  then show "parse_hex (hd (split_on CHR '';'' (show_hex n))) = Some n"
    using assms by (simp add: split_on_free parse_show_hex)
qed

lemma decode_chunks_step:
  assumes "n = length chunk" "0 < n" "length pre + length (show_hex n) + n + 4 < 2 ^ 64"
  shows "decode_chunks (pre @ as_bytes (show_hex n) @ crlf @ chunk @ crlf @ rest) (length pre) decoded =
    decode_chunks (pre @ as_bytes (show_hex n) @ crlf @ chunk @ crlf @ rest)
      (length (pre @ as_bytes (show_hex n) @ crlf @ chunk @ crlf)) (decoded @ chunk)"
proof -
  let ?body = "pre @ as_bytes (show_hex n) @ crlf @ chunk @ crlf @ rest"
  have n: "n < 2 ^ 64" using assms(3) by linarith
  have nz: "n \<noteq> 0" using assms(2) by simp
  have l2: "length crlf = 2" by (simp add: crlf_def)
  let ?c = "length pre + length (show_hex n) + 2"
  have "get_range ((pre @ as_bytes (show_hex n) @ crlf @ chunk) @ crlf @ rest)
      (length (pre @ as_bytes (show_hex n) @ crlf @ chunk))
      (length (pre @ as_bytes (show_hex n) @ crlf @ chunk) + length crlf) = Some crlf"
    by (rule get_range_middle)
  then have r1: "get_range ?body (?c + n) (?c + n + 2) = Some crlf" by (simp add: assms(1) l2 add_ac)
  have "get_range ((pre @ as_bytes (show_hex n) @ crlf) @ chunk @ crlf @ rest)
      (length (pre @ as_bytes (show_hex n) @ crlf))
      (length (pre @ as_bytes (show_hex n) @ crlf) + length chunk) = Some chunk"
    by (rule get_range_middle)
  then have r2: "get_range ?body ?c (?c + n) = Some chunk" by (simp add: assms(1) l2 add_ac)
  have a: "usize_checked_add ?c n = Some (?c + n)" "usize_checked_add (?c + n) 2 = Some (?c + n + 2)"
    using assms(3) by (simp_all add: usize_checked_add_def)
  have d: "drop (length pre) ?body = as_bytes (show_hex n) @ crlf @ chunk @ crlf @ rest"
    "take (length (show_hex n)) (as_bytes (show_hex n) @ crlf @ chunk @ crlf @ rest) = as_bytes (show_hex n)"
    by simp_all
  have e: "length (pre @ as_bytes (show_hex n) @ crlf @ chunk @ crlf) = ?c + n + 2"
    by (simp add: assms(1) l2)
  show ?thesis
    by (subst decode_chunks.simps)
      (simp only: d size_line [OF n] e option.simps Let_def nz a r1 r2 simp_thms if_False)
qed

lemma decode_encoded:
  "\<forall>c\<in>set chunks. c \<noteq> [] \<Longrightarrow> length (pre @ encode_chunks chunks trailer) + 4 < 2 ^ 64 \<Longrightarrow>
   decode_chunks (pre @ encode_chunks chunks trailer) (length pre) decoded = Inr (decoded @ concat chunks)"
proof (induction chunks arbitrary: pre decoded)
  case Nil
  have zero: "show_hex 0 = ''0''"
    by code_simp
  have "find_window crlf (as_bytes ''0'' @ crlf @ trailer) = Some 1"
    "from_utf8 (as_bytes ''0'') = Some ''0''" "parse_hex (hd (split_on CHR '';'' ''0'')) = Some 0"
    using size_line [of 0, unfolded zero] by simp_all
  then show ?case
    by (subst decode_chunks.simps) (simp add: encode_chunks_def as_bytes_def Let_def)
next
  case (Cons c chunks)
  let ?n = "length c"
  let ?pre = "pre @ as_bytes (show_hex ?n) @ crlf @ c @ crlf"
  have body: "pre @ encode_chunks (c # chunks) trailer = ?pre @ encode_chunks chunks trailer"
    by (simp add: encode_chunks_def)
  have len: "length pre + length (show_hex ?n) + ?n + 4 < 2 ^ 64"
    using Cons.prems(2) by (simp add: body crlf_def)
  have "decode_chunks (?pre @ encode_chunks chunks trailer) (length pre) decoded =
      decode_chunks (?pre @ encode_chunks chunks trailer) (length ?pre) (decoded @ c)"
    using decode_chunks_step [OF refl _ len, of "encode_chunks chunks trailer" decoded] Cons.prems(1)
    by simp
  also have "\<dots> = Inr ((decoded @ c) @ concat chunks)"
    using Cons.prems by (intro Cons.IH) (simp_all add: body)
  finally show ?case unfolding body by simp
qed

text \<open>
  Chunked bodies decode to their content: for any non-empty chunks and any trailer, decoding
  the encoded body gives the chunks joined together, and in particular the decoder returns.
\<close>

theorem chunked_roundtrip:
  assumes "\<forall>c\<in>set chunks. c \<noteq> []" and "length (encode_chunks chunks trailer) + 4 < 2 ^ 64"
  shows "decode_chunked_body (encode_chunks chunks trailer) = Inr (concat chunks)"
  using decode_encoded [OF assms(1), of "[]"] assms(2) by (simp add: decode_chunked_body_def)

theorem chunked_roundtrip_witness:
  "decode_chunked_body (encode_chunks [[1, 2, 3], replicate 20 7] [13, 10]) = Inr ([1, 2, 3] @ replicate 20 7)"
proof -
  have "length (encode_chunks [[1, 2, 3], replicate 20 7] [13, 10]) + 4 < 2 ^ 64" by code_simp
  with chunked_roundtrip [of "[[1, 2, 3], replicate 20 7]" "[13, 10]"] show ?thesis by simp
qed

section \<open>Accepted answers\<close>

lemma validate_response_info_ok:
  "validate_response_info upstream query_info response_info = Inr () \<longleftrightarrow>
     (\<forall>q. query_info = Some q \<longrightarrow>
        (\<exists>info. response_info = Some info \<and> di_transaction_id info = dq_transaction_id q))"
  by (auto simp: validate_response_info_def split: option.splits)

lemma query_udp_upstream_ok:
  "query_udp_upstream exchange upstream query query_info = Inr r \<longleftrightarrow>
     (\<exists>response source. exchange upstream query = Inr (response, source) \<and>
        validate_response_info upstream query_info (sniff_dns_response response) = Inr () \<and>
        r = \<lparr>dr_response = response, dr_upstream = upstream, dr_source = source,
             dr_query_info = query_info, dr_response_info = sniff_dns_response response,
             dr_ipv6_filtered = False, dr_matched_rule_id = None\<rparr>)"
  by (auto simp: query_udp_upstream_def Let_def split: sum.splits)

lemma query_https_upstream_ok:
  "query_https_upstream exchange upstream host path query query_info = Inr r \<longleftrightarrow>
     (\<exists>response. query_https_upstream_inner exchange upstream host path query = Inr response \<and>
        validate_response_info upstream query_info (sniff_dns_response response) = Inr () \<and>
        r = \<lparr>dr_response = response, dr_upstream = upstream, dr_source = du_address upstream,
             dr_query_info = query_info, dr_response_info = sniff_dns_response response,
             dr_ipv6_filtered = False, dr_matched_rule_id = None\<rparr>)"
  by (auto simp: query_https_upstream_def Let_def split: sum.splits)

text \<open>
  An upstream's answer is accepted only for its query: over either transport, a resolution
  carries what the sniffer reads from its own bytes, names the upstream that was asked, is not yet
  filtered, and for a query the sniffer could read it has that query's transaction id.
\<close>

theorem upstream_answer_matches_query:
  assumes "query_upstream udp_exchange tls_exchange upstream query query_info = Inr r"
  shows "dr_upstream r = upstream \<and> dr_query_info r = query_info \<and> \<not> dr_ipv6_filtered r \<and>
    dr_response_info r = sniff_dns_response (dr_response r) \<and>
    (\<forall>q. query_info = Some q \<longrightarrow>
       (\<exists>info. dr_response_info r = Some info \<and> di_transaction_id info = dq_transaction_id q))"
  using assms
  by (auto simp: query_upstream_def query_udp_upstream_ok query_https_upstream_ok validate_response_info_ok
      split: DnsUpstreamTransport.splits)

end
