(* ===== verification/Tls_Records.thy ===== *)
theory Tls_Records
  imports Rust_Prelude
begin

text \<open>
  The TLS record deframer of the VLESS client, \<open>prototype/vless/src/tls_deframer.rs\<close>. Bytes arrive in
  pieces of any size; complete records leave in order. \<open>BytesMut\<close> is a list of bytes, every error
  text of the source a constructor of \<open>TlsError\<close>. The loop of \<open>next_record\<close> runs at most twice: a
  header that is accepted is followed at once by the attempt to take the payload.

  The lemmas compare the deframer with \<open>split_records\<close>, which cuts a whole byte string into records:
  whatever the sizes of the pieces, the same records and the same error come out.
\<close>

section \<open>Deframer\<close>

definition TLS_RECORD_HEADER_SIZE :: nat where "TLS_RECORD_HEADER_SIZE = 5"
definition MAX_TLS_CIPHERTEXT_LEN :: nat where "MAX_TLS_CIPHERTEXT_LEN = 16384 + 2048"
definition TLS_PROTOCOL_VERSION_MAJOR :: u8 where "TLS_PROTOCOL_VERSION_MAJOR = 0x03"
definition TLS_PROTOCOL_VERSION_MINOR_MIN :: u8 where "TLS_PROTOCOL_VERSION_MINOR_MIN = 0x01"
definition TLS_PROTOCOL_VERSION_MINOR_MAX :: u8 where "TLS_PROTOCOL_VERSION_MINOR_MAX = 0x03"

datatype TlsError = InvalidVersion u8 u8 | CiphertextTooLong nat | InvalidContentType u8

datatype DeframerState = ReadingHeader | ReadingPayload nat

record TlsDeframer =
  td_buffer :: bytes
  td_state :: DeframerState

definition TlsDeframer_new :: TlsDeframer where
  "TlsDeframer_new = \<lparr>td_buffer = [], td_state = ReadingHeader\<rparr>"

definition feed :: "bytes \<Rightarrow> TlsDeframer \<Rightarrow> TlsDeframer" where
  "feed data d = d\<lparr>td_buffer := td_buffer d @ data\<rparr>"

text \<open>The checks on the five header bytes, in the order of the source; the result is the length of
  the payload.\<close>

definition check_header :: "bytes \<Rightarrow> TlsError + nat" where
  "check_header buffer =
     (let content_type = buffer ! 0; version_major = buffer ! 1; version_minor = buffer ! 2;
          payload_len = unat (u16_from_be (buffer ! 3) (buffer ! 4))
      in if version_major \<noteq> TLS_PROTOCOL_VERSION_MAJOR \<or>
            \<not> (TLS_PROTOCOL_VERSION_MINOR_MIN \<le> version_minor \<and> version_minor \<le> TLS_PROTOCOL_VERSION_MINOR_MAX)
         then Err (InvalidVersion version_major version_minor)
         else if MAX_TLS_CIPHERTEXT_LEN < payload_len then Err (CiphertextTooLong payload_len)
         else if \<not> (0x14 \<le> content_type \<and> content_type \<le> 0x18) then Err (InvalidContentType content_type)
         else Ok payload_len)"

definition take_payload :: "nat \<Rightarrow> TlsDeframer \<Rightarrow> bytes option \<times> TlsDeframer" where
  "take_payload payload_len d =
     (let total_len = TLS_RECORD_HEADER_SIZE + payload_len in
      if length (td_buffer d) < total_len then (None, d)
      else (Some (take total_len (td_buffer d)),
            \<lparr>td_buffer = drop total_len (td_buffer d), td_state = ReadingHeader\<rparr>))"

definition next_record :: "TlsDeframer \<Rightarrow> (TlsError + bytes option) \<times> TlsDeframer" where
  "next_record d =
     (case td_state d of
        ReadingHeader \<Rightarrow>
          if length (td_buffer d) < TLS_RECORD_HEADER_SIZE then (Ok None, d)
          else (case check_header (td_buffer d) of
              Inl e \<Rightarrow> (Err e, d)
            | Inr payload_len \<Rightarrow>
                apfst Ok (take_payload payload_len (d\<lparr>td_state := ReadingPayload payload_len\<rparr>)))
      | ReadingPayload payload_len \<Rightarrow> apfst Ok (take_payload payload_len d))"

definition pending_bytes :: "TlsDeframer \<Rightarrow> nat" where
  "pending_bytes d = length (td_buffer d)"

lemma next_record_shrinks:
  "next_record d = (Inr (Some r), d') \<Longrightarrow> length (td_buffer d') < length (td_buffer d)"
  by (auto simp: next_record_def take_payload_def Let_def TLS_RECORD_HEADER_SIZE_def
      split: DeframerState.splits if_splits sum.splits)

text \<open>\<open>next_records\<close> takes records until one is incomplete; an error drops those taken before.\<close>

function next_records_loop :: "TlsDeframer \<Rightarrow> bytes list \<Rightarrow> (TlsError + bytes list) \<times> TlsDeframer" where
  "next_records_loop d records =
     (case next_record d of
        (Inl e, d') \<Rightarrow> (Err e, d')
      | (Inr None, d') \<Rightarrow> (Ok records, d')
      | (Inr (Some r), d') \<Rightarrow> next_records_loop d' (records @ [r]))"
  by pat_completeness auto
termination
  by (relation "measure (\<lambda>(d, records). length (td_buffer d))") (auto intro: next_record_shrinks sym)

declare next_records_loop.simps [simp del]

definition next_records :: "TlsDeframer \<Rightarrow> (TlsError + bytes list) \<times> TlsDeframer" where
  "next_records d = next_records_loop d []"

definition into_remaining_data :: "TlsDeframer \<Rightarrow> bytes" where
  "into_remaining_data d = td_buffer d"

definition TlsDeframer_clear :: "TlsDeframer \<Rightarrow> TlsDeframer" where
  "TlsDeframer_clear d = d\<lparr>td_buffer := [], td_state := ReadingHeader\<rparr>"

text \<open>\<open>deallocate\<close> drops the buffer but keeps the state.\<close>

definition TlsDeframer_deallocate :: "TlsDeframer \<Rightarrow> TlsDeframer" where
  "TlsDeframer_deallocate d = d\<lparr>td_buffer := []\<rparr>"

section \<open>Cutting a byte string into records\<close>

function split_records :: "bytes \<Rightarrow> bytes list \<times> TlsError option \<times> bytes" where
  "split_records bs =
     (if length bs < 5 then ([], None, bs)
      else (case check_header bs of
          Inl e \<Rightarrow> ([], Some e, bs)
        | Inr n \<Rightarrow>
            if length bs < 5 + n then ([], None, bs)
            else (case split_records (drop (5 + n) bs) of (rs, e, rest) \<Rightarrow> (take (5 + n) bs # rs, e, rest))))"
  by pat_completeness auto
termination
  by (relation "measure length") auto

declare split_records.simps [simp del]

definition tls_record :: "bytes \<Rightarrow> bool" where
  "tls_record r \<longleftrightarrow> 5 \<le> length r \<and> check_header r = Inr (length r - 5)"

lemma check_header_append: "5 \<le> length bs \<Longrightarrow> check_header (bs @ xs) = check_header bs"
  by (auto simp: check_header_def nth_append)

lemma check_header_take: "5 \<le> n \<Longrightarrow> 5 \<le> length bs \<Longrightarrow> check_header (take n bs) = check_header bs"
  using check_header_append [of "take n bs" "drop n bs"] by simp

lemma split_records_append:
  "split_records (a @ b) =
     (case split_records a of
        (rs, Some e, rest) \<Rightarrow> (rs, Some e, rest @ b)
      | (rs, None, rest) \<Rightarrow> (case split_records (rest @ b) of (rs', e, rest') \<Rightarrow> (rs @ rs', e, rest')))"
proof (induction a rule: split_records.induct)
  case (1 a)
  show ?case
  proof (cases "length a < 5")
    case True
    then show ?thesis by (simp add: split_records.simps [of a] split: prod.split)
  next
    case five: False
    then have hd_eq: "check_header (a @ b) = check_header a" by (simp add: check_header_append)
    show ?thesis
    proof (cases "check_header a")
      case (Inl e)
      with five hd_eq show ?thesis by (simp add: split_records.simps [of a] split_records.simps [of "a @ b"])
    next
      case (Inr n)
      show ?thesis
      proof (cases "length a < 5 + n")
        case True
        with five Inr show ?thesis by (simp add: split_records.simps [of a] split: prod.split)
      next
        case False
        note ih = 1 [OF five Inr False]
        have "split_records (a @ b) =
            (case split_records (drop (5 + n) a @ b) of (rs, e, rest) \<Rightarrow> (take (5 + n) a # rs, e, rest))"
          using five Inr hd_eq False by (subst split_records.simps) simp
        moreover have "split_records a =
            (case split_records (drop (5 + n) a) of (rs, e, rest) \<Rightarrow> (take (5 + n) a # rs, e, rest))"
          using five Inr False by (subst split_records.simps) simp
        moreover obtain rs e rest where "split_records (drop (5 + n) a) = (rs, e, rest)" by (metis prod_cases3)
        ultimately show ?thesis
          using ih by (cases e) (simp_all split: prod.split)
      qed
    qed
  qed
qed

lemma split_records_concat:
  "split_records bs = (rs, e, rest) \<Longrightarrow> concat rs @ rest = bs \<and> list_all tls_record rs"
proof (induction bs arbitrary: rs e rest rule: split_records.induct)
  case (1 bs)
  show ?case
  proof (cases "length bs < 5 \<or> isl (check_header bs)")
    case True
    with "1.prems" show ?thesis
      by (auto simp: split_records.simps [of bs] split: sum.splits if_splits)
  next
    case False
    then obtain n where n: "check_header bs = Inr n" by (cases "check_header bs") auto
    show ?thesis
    proof (cases "length bs < 5 + n")
      case True
      with False n "1.prems" show ?thesis by (auto simp: split_records.simps [of bs])
    next
      case enough: False
      obtain rs' where rs': "split_records (drop (5 + n) bs) = (rs', e, rest)" "rs = take (5 + n) bs # rs'"
        using False n enough "1.prems" by (auto simp: split_records.simps [of bs] split: prod.splits)
      have "tls_record (take (5 + n) bs)"
        using n enough by (simp add: tls_record_def check_header_take)
      moreover have "concat rs @ rest = take (5 + n) bs @ drop (5 + n) bs" "list_all tls_record rs'"
        using "1.IH" [OF _ n enough rs'(1)] False rs'(2) by simp_all
      ultimately show ?thesis using rs'(2) by simp
    qed
  qed
qed

lemma split_records_of_records:
  "list_all tls_record rs \<Longrightarrow> split_records (concat rs) = (rs, None, [])"
proof (induction rs)
  case Nil
  then show ?case by (simp add: split_records.simps)
next
  case (Cons r rs)
  then have "check_header (r @ concat rs) = Inr (length r - 5)" "5 \<le> length r"
    by (auto simp: tls_record_def check_header_append)
  then have "split_records (r @ concat rs) =
      (case split_records (concat rs) of (rs, e, rest) \<Rightarrow> (r # rs, e, rest))"
    by (subst split_records.simps) simp
  with Cons show ?case by simp
qed

section \<open>The deframer cuts the same way\<close>

text \<open>The state a deframer rests in: it remembers an accepted header of an incomplete record.\<close>

definition resting_state :: "bytes \<Rightarrow> DeframerState" where
  "resting_state bs = (if length bs < 5 then ReadingHeader
     else case check_header bs of Inl _ \<Rightarrow> ReadingHeader | Inr n \<Rightarrow> ReadingPayload n)"

definition deframer_ok :: "TlsDeframer \<Rightarrow> bool" where
  "deframer_ok d \<longleftrightarrow> (\<forall>n. td_state d = ReadingPayload n \<longrightarrow>
     5 \<le> length (td_buffer d) \<and> check_header (td_buffer d) = Inr n)"

lemma deframer_ok_feed: "deframer_ok d \<Longrightarrow> deframer_ok (feed data d)"
  by (auto simp: deframer_ok_def feed_def check_header_append)

lemma deframer_ok_new [simp]: "deframer_ok TlsDeframer_new"
  by (simp add: deframer_ok_def TlsDeframer_new_def)

lemma next_record_eq:
  assumes "deframer_ok d"
  shows "next_record d =
    (let bs = td_buffer d in
     if length bs < 5 then (Inr None, d)
     else (case check_header bs of
         Inl e \<Rightarrow> (Inl e, d)
       | Inr n \<Rightarrow>
           if length bs < 5 + n then (Inr None, \<lparr>td_buffer = bs, td_state = ReadingPayload n\<rparr>)
           else (Inr (Some (take (5 + n) bs)), \<lparr>td_buffer = drop (5 + n) bs, td_state = ReadingHeader\<rparr>)))"
  using assms
  by (cases d; cases "td_state d")
    (auto simp: next_record_def take_payload_def deframer_ok_def TLS_RECORD_HEADER_SIZE_def Let_def split: sum.splits)

lemma next_records_loop_split:
  assumes "deframer_ok d" "split_records (td_buffer d) = (rs, e, rest)"
  shows "next_records_loop d records =
    (case e of
       Some err \<Rightarrow> (Inl err, \<lparr>td_buffer = rest, td_state = ReadingHeader\<rparr>)
     | None \<Rightarrow> (Inr (records @ rs), \<lparr>td_buffer = rest, td_state = resting_state rest\<rparr>))"
  using assms
proof (induction "td_buffer d" arbitrary: d rs records rule: split_records.induct)
  case 1
  note ok = next_record_eq [OF "1.prems"(1)]
  show ?case
  proof (cases "length (td_buffer d) < 5")
    case True
    then have "td_state d = ReadingHeader" using "1.prems"(1) by (cases "td_state d") (auto simp: deframer_ok_def)
    then have "d = \<lparr>td_buffer = td_buffer d, td_state = ReadingHeader\<rparr>" by (cases d) simp
    moreover have "next_records_loop d records = (Inr records, d)"
      using True by (simp add: ok next_records_loop.simps [of d])
    ultimately show ?thesis
      using True "1.prems"(2) by (auto simp: split_records.simps [of "td_buffer d"] resting_state_def)
  next
    case five: False
    show ?thesis
    proof (cases "check_header (td_buffer d)")
      case (Inl err)
      then have "td_state d = ReadingHeader" using "1.prems"(1) by (cases "td_state d") (auto simp: deframer_ok_def)
      then have "d = \<lparr>td_buffer = td_buffer d, td_state = ReadingHeader\<rparr>" by (cases d) simp
      moreover have "next_records_loop d records = (Inl err, d)"
        using five Inl by (simp add: ok next_records_loop.simps [of d])
      ultimately show ?thesis
        using five Inl "1.prems"(2) by (auto simp: split_records.simps [of "td_buffer d"])
    next
      case (Inr n)
      show ?thesis
      proof (cases "length (td_buffer d) < 5 + n")
        case True
        with five Inr "1.prems"(2) show ?thesis
          by (auto simp: ok next_records_loop.simps [of d] split_records.simps [of "td_buffer d"]
              resting_state_def Let_def)
      next
        case False
        let ?d' = "\<lparr>td_buffer = drop (5 + n) (td_buffer d), td_state = ReadingHeader\<rparr>"
        from five Inr False "1.prems"(2) obtain rs' where
          rs': "split_records (drop (5 + n) (td_buffer d)) = (rs', e, rest)" "rs = take (5 + n) (td_buffer d) # rs'"
          by (subst (asm) split_records.simps) (auto split: prod.splits)
        have "next_records_loop d records = next_records_loop ?d' (records @ [take (5 + n) (td_buffer d)])"
          using five Inr False by (simp add: ok next_records_loop.simps [of d] Let_def)
        also have "\<dots> = (case e of
            Some err \<Rightarrow> (Inl err, \<lparr>td_buffer = rest, td_state = ReadingHeader\<rparr>)
          | None \<Rightarrow> (Inr ((records @ [take (5 + n) (td_buffer d)]) @ rs'), \<lparr>td_buffer = rest, td_state = resting_state rest\<rparr>))"
          using "1.hyps" [OF five Inr False, of ?d' rs'] rs'(1) by (simp add: deframer_ok_def)
        finally show ?thesis using rs'(2) by (simp split: option.split)
      qed
    qed
  qed
qed

text \<open>A consumer that feeds pieces as they arrive and takes the records after each piece.\<close>

fun deframe_run :: "bytes list \<Rightarrow> TlsDeframer \<Rightarrow> bytes list \<Rightarrow> TlsError + (bytes list \<times> TlsDeframer)" where
  "deframe_run [] d records = Inr (records, d)"
| "deframe_run (piece # pieces) d records =
     (case next_records (feed piece d) of
        (Inl e, d') \<Rightarrow> Inl e
      | (Inr rs, d') \<Rightarrow> deframe_run pieces d' (records @ rs))"

lemma resting_ok: "deframer_ok \<lparr>td_buffer = bs, td_state = resting_state bs\<rparr>"
  by (auto simp: deframer_ok_def resting_state_def split: if_splits sum.splits)

lemma split_records_rest:
  "split_records bs = (rs, None, rest) \<Longrightarrow> split_records rest = ([], None, rest)"
proof (induction bs arbitrary: rs rule: split_records.induct)
  case (1 bs)
  show ?case
  proof (cases "length bs < 5 \<or> isl (check_header bs)")
    case True
    with "1.prems" show ?thesis
      by (auto simp: split_records.simps [of bs] split_records.simps [of rest] split: sum.splits if_splits)
  next
    case False
    then obtain n where n: "check_header bs = Inr n" by (cases "check_header bs") auto
    then show ?thesis
      using False "1.prems" "1.IH" [OF _ n]
      by (cases "length bs < 5 + n")
        (auto simp: split_records.simps [of bs] split_records.simps [of rest] split: prod.splits)
  qed
qed

lemma deframe_run_split:
  assumes "split_records (td_buffer d) = ([], None, td_buffer d)" "td_state d = resting_state (td_buffer d)"
  shows "deframe_run pieces d records =
    (case split_records (td_buffer d @ concat pieces) of
       (rs, Some e, rest) \<Rightarrow> Inl e
     | (rs, None, rest) \<Rightarrow> Inr (records @ rs, \<lparr>td_buffer = rest, td_state = resting_state rest\<rparr>))"
  using assms
proof (induction pieces arbitrary: d records)
  case Nil
  then show ?case by (cases d) simp
next
  case (Cons piece pieces)
  have ok: "deframer_ok (feed piece d)"
    using resting_ok [of "td_buffer d"] Cons.prems(2) by (cases d) (simp add: deframer_ok_feed)
  obtain rs e rest where sp: "split_records (td_buffer d @ piece) = (rs, e, rest)" by (metis prod_cases3)
  have app: "split_records (td_buffer d @ concat (piece # pieces)) =
      (case split_records (td_buffer d @ piece) of
        (rs, Some e, rest) \<Rightarrow> (rs, Some e, rest @ concat pieces)
      | (rs, None, rest) \<Rightarrow> (case split_records (rest @ concat pieces) of (rs', e, rest') \<Rightarrow> (rs @ rs', e, rest')))"
    using split_records_append [of "td_buffer d @ piece" "concat pieces"] by simp
  show ?case
  proof (cases e)
    case None
    let ?d' = "\<lparr>td_buffer = rest, td_state = resting_state rest\<rparr>"
    have "next_records (feed piece d) = (Inr rs, ?d')"
      using next_records_loop_split [OF ok, of rs e rest "[]"] sp None by (simp add: next_records_def feed_def)
    moreover have "split_records rest = ([], None, rest)" using split_records_rest sp None by blast
    ultimately show ?thesis
      using Cons.IH [of ?d' "records @ rs"] app sp None by (simp split: prod.splits option.splits)
  next
    case (Some err)
    then have "next_records (feed piece d) = (Inl err, \<lparr>td_buffer = rest, td_state = ReadingHeader\<rparr>)"
      using next_records_loop_split [OF ok, of rs e rest "[]"] sp by (simp add: next_records_def feed_def)
    then show ?thesis using app sp Some by (simp split: prod.splits)
  qed
qed

lemma deframe_run_new:
  "deframe_run pieces TlsDeframer_new [] =
    (case split_records (concat pieces) of
       (rs, Some e, rest) \<Rightarrow> Inl e
     | (rs, None, rest) \<Rightarrow> Inr (rs, \<lparr>td_buffer = rest, td_state = resting_state rest\<rparr>))"
  using deframe_run_split [of TlsDeframer_new pieces "[]"]
  by (auto simp: TlsDeframer_new_def split_records.simps [of "[]"] resting_state_def
      split: prod.split option.split)

text \<open>
  C35. Chunking does not matter: however a byte stream is cut into pieces, feeding the pieces and taking
  the records after each gives the records, the error or the incomplete rest that the whole stream is
  cut into, and the deframer rests in the state that belongs to that rest.
\<close>

theorem deframer_chunking:
  "deframe_run pieces TlsDeframer_new [] =
    (case split_records (concat pieces) of
       (rs, Some e, rest) \<Rightarrow> Inl e
     | (rs, None, rest) \<Rightarrow> Inr (rs, \<lparr>td_buffer = rest, td_state = resting_state rest\<rparr>))"
  by (rule deframe_run_new)

text \<open>
  Records survive deframing: a stream of valid records, cut into any pieces, gives back exactly those
  records in order and leaves nothing behind; conversely whatever stream was accepted, the records taken
  are valid and joined with the rest they are the bytes that were fed.
\<close>

theorem deframer_roundtrip:
  "(list_all tls_record rs \<longrightarrow> concat pieces = concat rs \<longrightarrow>
      deframe_run pieces TlsDeframer_new [] = Inr (rs, TlsDeframer_new)) \<and>
   (deframe_run pieces TlsDeframer_new [] = Inr (rs, d) \<longrightarrow>
      list_all tls_record rs \<and> concat rs @ into_remaining_data d = concat pieces)"
proof (intro conjI impI)
  {
    assume "list_all tls_record rs" "concat pieces = concat rs"
    then show "deframe_run pieces TlsDeframer_new [] = Inr (rs, TlsDeframer_new)"
      unfolding deframe_run_new by (simp add: split_records_of_records TlsDeframer_new_def resting_state_def)
  next
    assume "deframe_run pieces TlsDeframer_new [] = Inr (rs, d)"
    then have "split_records (concat pieces) = (rs, None, td_buffer d)"
      by (auto simp: deframe_run_new split: prod.splits option.splits)
    then show "list_all tls_record rs" "concat rs @ into_remaining_data d = concat pieces"
      by (auto simp: into_remaining_data_def dest: split_records_concat)
  }
qed

theorem deframer_roundtrip_witness:
  "deframe_run [[0x17, 3], [3, 0, 2, 1], [9, 0x16, 3, 1, 0], [0]] TlsDeframer_new [] =
     Inr ([[0x17, 3, 3, 0, 2, 1, 9], [0x16, 3, 1, 0, 0]], TlsDeframer_new)"
proof -
  have "list_all tls_record [[0x17, 3, 3, 0, 2, 1, 9], [0x16, 3, 1, 0, 0]]" by code_simp
  then show ?thesis
    using deframer_roundtrip [of "[[0x17, 3, 3, 0, 2, 1, 9], [0x16, 3, 1, 0, 0]]"
        "[[0x17, 3], [3, 0, 2, 1], [9, 0x16, 3, 1, 0], [0]]" TlsDeframer_new] by simp
qed

end
