(* ===== verification/Tls_Search.thy ===== *)
theory Tls_Search
  imports Tls_Records
begin

text \<open>
  The search for a TLS handshake in a stream that may start with something else,
  \<open>prototype/vless/src/tls_handshake_util.rs\<close> and \<open>tls_fuzzy_deframer.rs\<close>. The substring search
  \<open>memmem::Finder\<close> is a parameter that answers the first occurrence of its needle. The counter of discarded bytes is kept; log lines are not.

  The lemmas show that the search finds the first handshake of a byte string, that a suffix which
  could still become one is never given away, and therefore that the fuzzy deframer separates the
  same prefix from the same records however the stream is cut into pieces.
\<close>

section \<open>Patterns\<close>

definition MIN_TLS_HANDSHAKE_PATTERN_LEN :: nat where "MIN_TLS_HANDSHAKE_PATTERN_LEN = 6"

definition is_valid_tls_handshake_prefix :: "bytes \<Rightarrow> bool" where
  "is_valid_tls_handshake_prefix data =
     (if data = [] then True
      else if data ! 0 \<noteq> 0x16 then False
      else if 2 \<le> length data \<and> data ! 1 \<noteq> 0x03 then False
      else if 3 \<le> length data \<and> \<not> (0x01 \<le> data ! 2 \<and> data ! 2 \<le> 0x03) then False
      else True)"

text \<open>\<open>finder\<close> is \<open>memmem::Finder::find\<close> for the needle \<open>[0x16, 0x03]\<close>.\<close>

function find_handshake_from :: "(bytes \<Rightarrow> nat option) \<Rightarrow> bytes \<Rightarrow> nat \<Rightarrow> nat option" where
  "find_handshake_from finder data pos =
     (case finder (drop pos data) of
        None \<Rightarrow> None
      | Some offset \<Rightarrow>
          (let absolute_offset = pos + offset in
           if length data < absolute_offset + MIN_TLS_HANDSHAKE_PATTERN_LEN then None
           else (let candidate = drop absolute_offset data in
                 if 0x01 \<le> candidate ! 2 \<and> candidate ! 2 \<le> 0x03 \<and> (candidate ! 5 = 0x01 \<or> candidate ! 5 = 0x02)
                 then Some absolute_offset
                 else find_handshake_from finder data (absolute_offset + 1))))"
  by pat_completeness auto
termination
  by (relation "measure (\<lambda>(_, data, pos). length data - pos)") (auto simp: MIN_TLS_HANDSHAKE_PATTERN_LEN_def)

declare find_handshake_from.simps [simp del]

definition find_tls_handshake_start :: "(bytes \<Rightarrow> nat option) \<Rightarrow> bytes \<Rightarrow> nat option" where
  "find_tls_handshake_start finder data =
     (if length data < MIN_TLS_HANDSHAKE_PATTERN_LEN then None else find_handshake_from finder data 0)"

definition find_potential_tls_suffix_len :: "bytes \<Rightarrow> nat" where
  "find_potential_tls_suffix_len data =
     (let len = length data in
      if len = 0 then 0
      else (case find (\<lambda>suffix_len. is_valid_tls_handshake_prefix (drop (len - suffix_len) data))
                   (rev [1..<Suc (min len 5)]) of
          None \<Rightarrow> 0 | Some suffix_len \<Rightarrow> suffix_len))"

section \<open>Fuzzy deframer\<close>

datatype DeframeResult = TlsRecord bytes | UnknownPrefix bytes | NeedData

datatype FuzzyState = Searching | Deframing

record FuzzyTlsDeframer =
  fz_inner :: TlsDeframer
  fz_search_buffer :: bytes
  fz_state :: FuzzyState
  fz_total_prefix_bytes :: nat

definition FuzzyTlsDeframer_new :: FuzzyTlsDeframer where
  "FuzzyTlsDeframer_new = \<lparr>fz_inner = TlsDeframer_new, fz_search_buffer = [], fz_state = Searching,
     fz_total_prefix_bytes = 0\<rparr>"

definition fuzzy_feed :: "bytes \<Rightarrow> FuzzyTlsDeframer \<Rightarrow> FuzzyTlsDeframer" where
  "fuzzy_feed data f =
     (case fz_state f of
        Searching \<Rightarrow> f\<lparr>fz_search_buffer := fz_search_buffer f @ data\<rparr>
      | Deframing \<Rightarrow> f\<lparr>fz_inner := feed data (fz_inner f)\<rparr>)"

text \<open>The bytes that cannot belong to a handshake are split off and returned.\<close>

definition discard_prefix :: "nat \<Rightarrow> FuzzyTlsDeframer \<Rightarrow> DeframeResult \<times> FuzzyTlsDeframer" where
  "discard_prefix suffix_len f =
     (if suffix_len < length (fz_search_buffer f) then
        (let prefix_len = length (fz_search_buffer f) - suffix_len in
         (UnknownPrefix (take prefix_len (fz_search_buffer f)),
          f\<lparr>fz_search_buffer := drop prefix_len (fz_search_buffer f),
            fz_total_prefix_bytes := fz_total_prefix_bytes f + prefix_len\<rparr>))
      else (NeedData, f))"

definition start_deframing :: "nat \<Rightarrow> FuzzyTlsDeframer \<Rightarrow> FuzzyTlsDeframer" where
  "start_deframing offset f =
     f\<lparr>fz_inner := feed (drop offset (fz_search_buffer f)) (fz_inner f), fz_search_buffer := [],
       fz_state := Deframing, fz_total_prefix_bytes := fz_total_prefix_bytes f + offset\<rparr>"

definition deframe_inner :: "FuzzyTlsDeframer \<Rightarrow> (TlsError + DeframeResult) \<times> FuzzyTlsDeframer" where
  "deframe_inner f =
     (case next_record (fz_inner f) of
        (Inl e, inner) \<Rightarrow> (Err e, f\<lparr>fz_inner := inner\<rparr>)
      | (Inr (Some r), inner) \<Rightarrow> (Ok (TlsRecord r), f\<lparr>fz_inner := inner\<rparr>)
      | (Inr None, inner) \<Rightarrow> (Ok NeedData, f\<lparr>fz_inner := inner\<rparr>))"

definition fuzzy_next_record ::
    "(bytes \<Rightarrow> nat option) \<Rightarrow> FuzzyTlsDeframer \<Rightarrow> (TlsError + DeframeResult) \<times> FuzzyTlsDeframer" where
  "fuzzy_next_record finder f =
     (case fz_state f of
        Searching \<Rightarrow>
          (let buffer = fz_search_buffer f in
           if buffer = [] then (Ok NeedData, f)
           else if MIN_TLS_HANDSHAKE_PATTERN_LEN \<le> length buffer then
             (case find_tls_handshake_start finder buffer of
                None \<Rightarrow> apfst Ok (discard_prefix (find_potential_tls_suffix_len buffer) f)
              | Some offset \<Rightarrow>
                  if 0 < offset then (Ok (UnknownPrefix (take offset buffer)), start_deframing offset f)
                  else deframe_inner (start_deframing 0 f))
           else apfst Ok (discard_prefix (find_potential_tls_suffix_len buffer) f))
      | Deframing \<Rightarrow> deframe_inner f)"

definition fuzzy_pending_bytes :: "FuzzyTlsDeframer \<Rightarrow> nat" where
  "fuzzy_pending_bytes f =
     (case fz_state f of
        Searching \<Rightarrow> length (fz_search_buffer f) | Deframing \<Rightarrow> pending_bytes (fz_inner f))"

definition fuzzy_remaining_data :: "FuzzyTlsDeframer \<Rightarrow> bytes" where
  "fuzzy_remaining_data f =
     (case fz_state f of
        Searching \<Rightarrow> fz_search_buffer f | Deframing \<Rightarrow> into_remaining_data (fz_inner f))"

definition fuzzy_clear :: "FuzzyTlsDeframer \<Rightarrow> FuzzyTlsDeframer" where
  "fuzzy_clear f = \<lparr>fz_inner = TlsDeframer_clear (fz_inner f), fz_search_buffer = [], fz_state = Searching,
     fz_total_prefix_bytes = 0\<rparr>"

definition fuzzy_deallocate :: "FuzzyTlsDeframer \<Rightarrow> FuzzyTlsDeframer" where
  "fuzzy_deallocate f = f\<lparr>fz_search_buffer := [], fz_inner := TlsDeframer_deallocate (fz_inner f)\<rparr>"

section \<open>The search finds the first handshake\<close>

definition hello_at :: "bytes \<Rightarrow> nat \<Rightarrow> bool" where
  "hello_at bs i \<longleftrightarrow> i + 6 \<le> length bs \<and> bs ! i = 0x16 \<and> bs ! (i + 1) = 0x03 \<and>
     0x01 \<le> bs ! (i + 2) \<and> bs ! (i + 2) \<le> 0x03 \<and> (bs ! (i + 5) = 0x01 \<or> bs ! (i + 5) = 0x02)"

definition pair_at :: "u8 \<Rightarrow> u8 \<Rightarrow> bytes \<Rightarrow> nat \<Rightarrow> bool" where
  "pair_at a b bs i \<longleftrightarrow> i + 1 < length bs \<and> bs ! i = a \<and> bs ! (i + 1) = b"

lemma pair_at_Cons: "pair_at a b (x # y # zs) 0 \<longleftrightarrow> x = a \<and> y = b"
  "pair_at a b (x # ys) (Suc i) \<longleftrightarrow> pair_at a b ys i"
  by (auto simp: pair_at_def)

text \<open>What \<open>memmem::Finder::find\<close> promises, and the search that keeps this promise.\<close>

definition finder_ok :: "(bytes \<Rightarrow> nat option) \<Rightarrow> bool" where
  "finder_ok finder \<longleftrightarrow> (\<forall>bs. case finder bs of
       None \<Rightarrow> \<forall>i. \<not> pair_at 0x16 0x03 bs i
     | Some i \<Rightarrow> pair_at 0x16 0x03 bs i \<and> (\<forall>j<i. \<not> pair_at 0x16 0x03 bs j))"

fun find_pair :: "u8 \<Rightarrow> u8 \<Rightarrow> bytes \<Rightarrow> nat option" where
  "find_pair a b (x # y # zs) = (if x = a \<and> y = b then Some 0 else map_option Suc (find_pair a b (y # zs)))"
| "find_pair a b zs = None"

abbreviation first_pair :: "bytes \<Rightarrow> nat option" where "first_pair \<equiv> find_pair 0x16 0x03"

lemma find_pair_first:
  "find_pair a b xs = Some i \<Longrightarrow> pair_at a b xs i \<and> (\<forall>j<i. \<not> pair_at a b xs j)"
  "find_pair a b xs = None \<Longrightarrow> \<not> pair_at a b xs j"
proof (induction a b xs arbitrary: i j rule: find_pair.induct)
  case (1 a b x y zs)
  {
    case 1
    with "1.IH"(1) show ?case
      by (auto simp: pair_at_Cons less_Suc_eq_0_disj split: if_splits)
  next
    case 2
    with "1.IH"(2) show ?case by (cases j) (auto simp: pair_at_Cons split: if_splits)
  }
qed (auto simp: pair_at_def)

lemma first_pair_ok: "finder_ok first_pair"
  using find_pair_first by (auto simp: finder_ok_def split: option.splits)

lemma finder_ok_unique: assumes "finder_ok finder" shows "finder = first_pair"
proof
  fix bs
  have "case finder bs of None \<Rightarrow> \<forall>i. \<not> pair_at 0x16 0x03 bs i
      | Some i \<Rightarrow> pair_at 0x16 0x03 bs i \<and> (\<forall>j<i. \<not> pair_at 0x16 0x03 bs j)"
    using assms by (simp add: finder_ok_def)
  then show "finder bs = first_pair bs"
    using find_pair_first [of "0x16" "0x03" bs]
    by (cases "finder bs"; cases "first_pair bs") (auto, metis linorder_neqE_nat)
qed

lemma hello_pair: "hello_at bs i \<Longrightarrow> pair_at 0x16 0x03 bs i"
  by (simp add: hello_at_def pair_at_def)

lemma pair_at_drop: "pos \<le> length bs \<Longrightarrow> pair_at a b (drop pos bs) i \<longleftrightarrow> pair_at a b bs (pos + i)"
  by (auto simp: pair_at_def)

lemma find_handshake_from_first:
  assumes "pos \<le> length bs"
  shows "case find_handshake_from first_pair bs pos of
      None \<Rightarrow> \<forall>j\<ge>pos. \<not> hello_at bs j
    | Some i \<Rightarrow> pos \<le> i \<and> hello_at bs i \<and> (\<forall>j. pos \<le> j \<longrightarrow> j < i \<longrightarrow> \<not> hello_at bs j)"
  using assms
proof (induction first_pair bs pos rule: find_handshake_from.induct)
  case (1 bs pos)
  show ?case
  proof (cases "first_pair (drop pos bs)")
    case None
    then have "\<not> pair_at 0x16 0x03 bs j" if "pos \<le> j" for j
      using find_pair_first(2) [OF None, of "j - pos"] that 1(2) by (simp add: pair_at_drop)
    with None show ?thesis
      by (auto simp: find_handshake_from.simps [of first_pair bs] dest: hello_pair)
  next
    case (Some off)
    let ?i = "pos + off"
    have at: "pair_at 0x16 0x03 bs ?i" and before: "\<not> hello_at bs j" if "pos \<le> j" "j < ?i" for j
      using find_pair_first(1) [OF Some] 1(2) that hello_pair
      by (auto simp: pair_at_drop) (metis le_add_diff_inverse nat_add_left_cancel_less)
    have pair: "pair_at 0x16 0x03 bs ?i"
      using find_pair_first(1) [OF Some] 1(2) by (simp add: pair_at_drop)
    show ?thesis
    proof (cases "length bs < ?i + 6")
      case True
      then have "\<not> hello_at bs j" if "?i \<le> j" for j using that by (auto simp: hello_at_def)
      with before Some True show ?thesis
        by (auto simp: find_handshake_from.simps [of first_pair bs] MIN_TLS_HANDSHAKE_PATTERN_LEN_def not_less [symmetric])
    next
      case room: False
      have nth: "drop ?i bs ! 2 = bs ! (?i + 2)" "drop ?i bs ! 5 = bs ! (?i + 5)" using room by simp_all
      show ?thesis
      proof (cases "hello_at bs ?i")
        case True
        with before Some room nth show ?thesis
          by (simp add: find_handshake_from.simps [of first_pair bs] hello_at_def MIN_TLS_HANDSHAKE_PATTERN_LEN_def Let_def)
      next
        case False
        have cond: "\<not> (0x01 \<le> drop ?i bs ! 2 \<and> drop ?i bs ! 2 \<le> 0x03 \<and> (drop ?i bs ! 5 = 0x01 \<or> drop ?i bs ! 5 = 0x02))"
          using False pair room unfolding nth by (auto simp: hello_at_def pair_at_def)
        have rec: "find_handshake_from first_pair bs pos = find_handshake_from first_pair bs (?i + 1)"
          using Some room cond
          by (subst find_handshake_from.simps) (auto simp: MIN_TLS_HANDSHAKE_PATTERN_LEN_def Let_def)
        have none: "\<not> hello_at bs j" if "pos \<le> j" "j < ?i + 1" for j
          using before False that by (metis Suc_eq_plus1 less_Suc_eq)
        have "case find_handshake_from first_pair bs (?i + 1) of
            None \<Rightarrow> \<forall>j\<ge>?i + 1. \<not> hello_at bs j
          | Some i \<Rightarrow> ?i + 1 \<le> i \<and> hello_at bs i \<and> (\<forall>j. ?i + 1 \<le> j \<longrightarrow> j < i \<longrightarrow> \<not> hello_at bs j)"
          using 1(1) [OF Some refl _ refl cond] room by (simp add: MIN_TLS_HANDSHAKE_PATTERN_LEN_def)
        with none show ?thesis
          unfolding rec by (auto split: option.splits) (metis leI, metis leI)
      qed
    qed
  qed
qed

lemma find_tls_handshake_start_first:
  "find_tls_handshake_start first_pair bs = Some i \<longleftrightarrow> hello_at bs i \<and> (\<forall>j<i. \<not> hello_at bs j)"
  "find_tls_handshake_start first_pair bs = None \<longleftrightarrow> (\<forall>j. \<not> hello_at bs j)"
proof -
  have short: "\<not> hello_at bs j" if "length bs < 6" for j using that by (simp add: hello_at_def)
  show "find_tls_handshake_start first_pair bs = Some i \<longleftrightarrow> hello_at bs i \<and> (\<forall>j<i. \<not> hello_at bs j)"
    using find_handshake_from_first [of 0 bs] short
    by (auto simp: find_tls_handshake_start_def MIN_TLS_HANDSHAKE_PATTERN_LEN_def split: option.splits)
      (metis linorder_less_linear)+
  show "find_tls_handshake_start first_pair bs = None \<longleftrightarrow> (\<forall>j. \<not> hello_at bs j)"
    using find_handshake_from_first [of 0 bs] short
    by (auto simp: find_tls_handshake_start_def MIN_TLS_HANDSHAKE_PATTERN_LEN_def split: option.splits)
qed

section \<open>Kept suffixes\<close>

lemma find_largest:
  "case find P (rev [1..<Suc m]) of
     None \<Rightarrow> \<forall>j. 1 \<le> j \<longrightarrow> j \<le> m \<longrightarrow> \<not> P j
   | Some k \<Rightarrow> k \<le> m \<and> P k \<and> (\<forall>j. k < j \<longrightarrow> j \<le> m \<longrightarrow> \<not> P j)"
proof (induction m)
  case (Suc m)
  have "rev [1..<Suc (Suc m)] = Suc m # rev [1..<Suc m]" by simp
  with Suc show ?case
    by (cases "P (Suc m)") (auto simp del: upt_Suc simp: le_Suc_eq split: option.splits)
qed simp

lemma suffix_len_cases:
  "find_potential_tls_suffix_len bs \<le> length bs \<and> find_potential_tls_suffix_len bs \<le> 5 \<and>
   is_valid_tls_handshake_prefix (drop (length bs - find_potential_tls_suffix_len bs) bs) \<and>
   (\<forall>j. find_potential_tls_suffix_len bs < j \<longrightarrow> j \<le> length bs \<longrightarrow> j \<le> 5 \<longrightarrow>
      \<not> is_valid_tls_handshake_prefix (drop (length bs - j) bs))"
proof -
  let ?P = "\<lambda>j. is_valid_tls_handshake_prefix (drop (length bs - j) bs)"
  let ?find = "find ?P (rev [1..<Suc (min (length bs) 5)])"
  have k: "find_potential_tls_suffix_len bs = (case ?find of None \<Rightarrow> 0 | Some j \<Rightarrow> j)"
    by (cases bs) (simp_all add: find_potential_tls_suffix_len_def Let_def)
  show ?thesis
  proof (cases ?find)
    case None
    moreover have "?P 0" by (simp add: is_valid_tls_handshake_prefix_def)
    moreover have "\<forall>j. 1 \<le> j \<longrightarrow> j \<le> min (length bs) 5 \<longrightarrow> \<not> ?P j"
      using None find_largest [where P = ?P and m = "min (length bs) 5"] by simp
    ultimately show ?thesis unfolding k by simp
  next
    case (Some j)
    then have "j \<le> min (length bs) 5 \<and> ?P j \<and> (\<forall>i. j < i \<longrightarrow> i \<le> min (length bs) 5 \<longrightarrow> \<not> ?P i)"
      using find_largest [where P = ?P and m = "min (length bs) 5"] by simp
    then show ?thesis unfolding k Some by simp
  qed
qed

lemma hello_gives_prefix:
  assumes "hello_at (bs @ cont) i" "i < length bs"
  shows "is_valid_tls_handshake_prefix (drop i bs)"
proof -
  have "(bs @ cont) ! (i + k) = drop i bs ! k" if "k < length bs - i" for k
    using that by (auto simp: nth_append)
  from this [of 0] this [of 1] this [of 2] show ?thesis
    using assms by (auto simp: is_valid_tls_handshake_prefix_def hello_at_def)
qed

text \<open>No handshake of any continuation starts in the bytes that are given away.\<close>

lemma discarded_has_no_hello:
  assumes "\<forall>j. \<not> hello_at bs j" "i < length bs - find_potential_tls_suffix_len bs"
  shows "\<not> hello_at (bs @ cont) i"
proof
  assume hello: "hello_at (bs @ cont) i"
  show False
  proof (cases "i + 6 \<le> length bs")
    case True
    then have "hello_at bs i" using hello by (simp add: hello_at_def nth_append)
    with assms(1) show False by simp
  next
    case False
    have "is_valid_tls_handshake_prefix (drop (length bs - (length bs - i)) bs)"
      using hello_gives_prefix [OF hello] assms(2) by simp
    moreover have "find_potential_tls_suffix_len bs < length bs - i" "length bs - i \<le> length bs" "length bs - i \<le> 5"
      using assms(2) False by auto
    ultimately show False using suffix_len_cases [of bs] by blast
  qed
qed

lemma kept_suffix_stable:
  "find_potential_tls_suffix_len (drop (length bs - find_potential_tls_suffix_len bs) bs) =
     find_potential_tls_suffix_len bs"
proof -
  let ?k = "find_potential_tls_suffix_len bs"
  let ?s = "drop (length bs - ?k) bs"
  have len: "length ?s = ?k" using suffix_len_cases [of bs] by simp
  have "\<not> find_potential_tls_suffix_len ?s < ?k"
    using suffix_len_cases [of ?s] suffix_len_cases [of bs] len by auto
  then show ?thesis using suffix_len_cases [of ?s] len by simp
qed

section \<open>Draining the fuzzy deframer\<close>

definition buffered :: "FuzzyTlsDeframer \<Rightarrow> nat" where
  "buffered f = length (fz_search_buffer f) + length (td_buffer (fz_inner f))"

lemma deframe_inner_shrinks:
  "deframe_inner f = (Inr out, f') \<Longrightarrow> out \<noteq> NeedData \<Longrightarrow> buffered f' < buffered f"
  by (auto simp: deframe_inner_def buffered_def dest: next_record_shrinks split: prod.splits sum.splits option.splits)

lemma start_deframing_buffered: "offset \<le> length (fz_search_buffer f) \<Longrightarrow> buffered (start_deframing offset f) + offset = buffered f"
  by (simp add: buffered_def start_deframing_def feed_def)

lemma discard_prefix_shrinks:
  "apfst Inr (discard_prefix k f) = (Inr out, f') \<Longrightarrow> out \<noteq> NeedData \<Longrightarrow> buffered f' < buffered f"
  by (auto simp: discard_prefix_def buffered_def Let_def split: if_splits)

lemma find_handshake_from_bound: "find_handshake_from finder bs pos = Some i \<Longrightarrow> i + 6 \<le> length bs"
proof (induction finder bs pos rule: find_handshake_from.induct)
  case (1 finder bs pos)
  then show ?case
    by (subst (asm) (2) find_handshake_from.simps)
      (auto simp: Let_def MIN_TLS_HANDSHAKE_PATTERN_LEN_def split: option.splits if_splits)
qed

lemma find_tls_handshake_start_bound: "find_tls_handshake_start finder bs = Some i \<Longrightarrow> i \<le> length bs"
  using find_handshake_from_bound [of finder bs 0 i] by (auto simp: find_tls_handshake_start_def split: if_splits)

lemma fuzzy_next_record_shrinks:
  assumes "fuzzy_next_record finder f = (Inr out, f')" "out \<noteq> NeedData"
  shows "buffered f' < buffered f"
proof (cases "fz_state f")
  case Deframing
  with assms show ?thesis by (auto simp: fuzzy_next_record_def intro: deframe_inner_shrinks)
next
  case Searching
  show ?thesis
  proof (cases "find_tls_handshake_start finder (fz_search_buffer f)")
    case None
    with Searching assms show ?thesis
      by (auto simp: fuzzy_next_record_def Let_def intro: discard_prefix_shrinks split: if_splits)
  next
    case (Some offset)
    then have "offset \<le> length (fz_search_buffer f)" by (rule find_tls_handshake_start_bound)
    note buf = start_deframing_buffered [OF this] start_deframing_buffered [of 0 f]
    show ?thesis
      using Searching Some assms buf deframe_inner_shrinks [of "start_deframing 0 f" out f']
      by (auto simp: fuzzy_next_record_def Let_def intro: discard_prefix_shrinks split: if_splits)
  qed
qed

function fuzzy_drain ::
    "(bytes \<Rightarrow> nat option) \<Rightarrow> FuzzyTlsDeframer \<Rightarrow> DeframeResult list \<Rightarrow> DeframeResult list \<times> TlsError option \<times> FuzzyTlsDeframer" where
  "fuzzy_drain finder f outs =
     (case fuzzy_next_record finder f of
        (Inl e, f') \<Rightarrow> (outs, Some e, f')
      | (Inr out, f') \<Rightarrow> if out = NeedData then (outs, None, f') else fuzzy_drain finder f' (outs @ [out]))"
  by pat_completeness auto
termination
  by (relation "measure (\<lambda>(_, f, outs). buffered f)") (auto intro: fuzzy_next_record_shrinks sym)

declare fuzzy_drain.simps [simp del]

fun fuzzy_run ::
    "(bytes \<Rightarrow> nat option) \<Rightarrow> bytes list \<Rightarrow> FuzzyTlsDeframer \<Rightarrow> DeframeResult list \<Rightarrow> DeframeResult list \<times> TlsError option \<times> FuzzyTlsDeframer" where
  "fuzzy_run finder [] f outs = (outs, None, f)"
| "fuzzy_run finder (piece # pieces) f outs =
     (case fuzzy_drain finder (fuzzy_feed piece f) outs of
        (outs', Some e, f') \<Rightarrow> (outs', Some e, f')
      | (outs', None, f') \<Rightarrow> fuzzy_run finder pieces f' outs')"

section \<open>The fuzzy deframer and the pieces\<close>

definition prefix_of :: "DeframeResult list \<Rightarrow> bytes" where
  "prefix_of outs = concat (map (\<lambda>out. case out of UnknownPrefix p \<Rightarrow> p | _ \<Rightarrow> []) outs)"

definition records_of :: "DeframeResult list \<Rightarrow> bytes list" where
  "records_of outs = concat (map (\<lambda>out. case out of TlsRecord r \<Rightarrow> [r] | _ \<Rightarrow> []) outs)"

lemma outs_simps [simp]:
  "prefix_of (outs @ outs') = prefix_of outs @ prefix_of outs'"
  "records_of (outs @ outs') = records_of outs @ records_of outs'"
  "prefix_of [] = []" "records_of [] = []"
  "prefix_of (UnknownPrefix p # outs) = p @ prefix_of outs" "prefix_of (TlsRecord r # outs) = prefix_of outs"
  "records_of (UnknownPrefix p # outs) = records_of outs" "records_of (TlsRecord r # outs) = r # records_of outs"
  by (simp_all add: prefix_of_def records_of_def)

lemma drain_deframing:
  assumes "fz_state f = Deframing" "deframer_ok (fz_inner f)"
    "split_records (td_buffer (fz_inner f)) = (rs, e, rest)"
  shows "\<exists>f'. fuzzy_drain first_pair f outs = (outs @ map TlsRecord rs, e, f') \<and> fz_state f' = Deframing \<and>
    fz_search_buffer f' = fz_search_buffer f \<and> deframer_ok (fz_inner f') \<and> td_buffer (fz_inner f') = rest"
  using assms
proof (induction "td_buffer (fz_inner f)" arbitrary: f rs outs rule: split_records.induct)
  case 1
  let ?bs = "td_buffer (fz_inner f)"
  have next_eq: "fuzzy_next_record first_pair f = deframe_inner f" using "1.prems"(1) by (simp add: fuzzy_next_record_def)
  note ok = next_record_eq [OF "1.prems"(2)]
  show ?case
  proof (cases "length ?bs < 5")
    case True
    with "1.prems" show ?thesis
      by (auto simp: fuzzy_drain.simps [of first_pair f] next_eq deframe_inner_def ok split_records.simps [of ?bs])
  next
    case five: False
    show ?thesis
    proof (cases "check_header ?bs")
      case (Inl err)
      with five "1.prems" show ?thesis
        by (auto simp: fuzzy_drain.simps [of first_pair f] next_eq deframe_inner_def ok split_records.simps [of ?bs] Let_def)
    next
      case (Inr n)
      show ?thesis
      proof (cases "length ?bs < 5 + n")
        case True
        with five Inr "1.prems" show ?thesis
          by (auto simp: fuzzy_drain.simps [of first_pair f] next_eq deframe_inner_def ok split_records.simps [of ?bs] Let_def
              deframer_ok_def)
      next
        case False
        let ?f' = "f\<lparr>fz_inner := \<lparr>td_buffer = drop (5 + n) ?bs, td_state = ReadingHeader\<rparr>\<rparr>"
        from five Inr False "1.prems"(3) obtain rs' where
          rs': "split_records (drop (5 + n) ?bs) = (rs', e, rest)" "rs = take (5 + n) ?bs # rs'"
          by (subst (asm) split_records.simps) (auto split: prod.splits)
        have "fuzzy_drain first_pair f outs = fuzzy_drain first_pair ?f' (outs @ [TlsRecord (take (5 + n) ?bs)])"
          using five Inr False by (simp add: fuzzy_drain.simps [of first_pair f] next_eq deframe_inner_def ok Let_def)
        then show ?thesis
          using "1.hyps" [OF five Inr False, of ?f' rs' "outs @ [TlsRecord (take (5 + n) ?bs)]"] rs' "1.prems"(1)
          by (simp add: deframer_ok_def)
      qed
    qed
  qed
qed

lemma drain_searching_none:
  assumes "fz_state f = Searching" "\<forall>j. \<not> hello_at (fz_search_buffer f) j"
  defines "bs \<equiv> fz_search_buffer f"
  defines "p \<equiv> length bs - find_potential_tls_suffix_len bs"
  shows "\<exists>outs' f'. fuzzy_drain first_pair f outs = (outs @ outs', None, f') \<and> fz_state f' = Searching \<and>
    fz_inner f' = fz_inner f \<and> prefix_of outs' = take p bs \<and> fz_search_buffer f' = drop p bs \<and> records_of outs' = []"
proof -
  have none: "find_tls_handshake_start first_pair bs = None"
    using assms(2) by (simp add: find_tls_handshake_start_first(2) bs_def)
  have next_eq: "fuzzy_next_record first_pair f =
      (if bs = [] then (Inr NeedData, f) else apfst Inr (discard_prefix (find_potential_tls_suffix_len bs) f))"
    using assms(1) none by (simp add: fuzzy_next_record_def Let_def bs_def)
  show ?thesis
  proof (cases "p = 0")
    case True
    then have "fuzzy_next_record first_pair f = (Inr NeedData, f)"
      by (simp add: next_eq discard_prefix_def p_def bs_def)
    then show ?thesis
      using True assms(1) by (intro exI [of _ "[]"]) (simp add: fuzzy_drain.simps [of first_pair f] bs_def)
  next
    case False
    let ?k = "find_potential_tls_suffix_len bs"
    let ?f' = "f\<lparr>fz_search_buffer := drop p bs, fz_total_prefix_bytes := fz_total_prefix_bytes f + p\<rparr>"
    have kept: "find_potential_tls_suffix_len (drop p bs) = ?k" "length (drop p bs) = ?k" "?k < 6"
      using kept_suffix_stable [of bs] suffix_len_cases [of bs] by (simp_all add: p_def)
    have "fuzzy_next_record first_pair f = (Inr (UnknownPrefix (take p bs)), ?f')"
      using False by (auto simp: next_eq discard_prefix_def p_def bs_def Let_def)
    moreover have "fuzzy_next_record first_pair ?f' = (Inr NeedData, ?f')"
      using kept assms(1)
      by (simp add: fuzzy_next_record_def discard_prefix_def MIN_TLS_HANDSHAKE_PATTERN_LEN_def Let_def del: length_drop)
    ultimately have "fuzzy_drain first_pair f outs = (outs @ [UnknownPrefix (take p bs)], None, ?f')"
      by (simp add: fuzzy_drain.simps [of first_pair f] fuzzy_drain.simps [of first_pair ?f'])
    then show ?thesis
      using assms(1) by (intro exI [of _ "[UnknownPrefix (take p bs)]"]) simp
  qed
qed

lemma drain_searching_found:
  assumes "fz_state f = Searching" "find_tls_handshake_start first_pair (fz_search_buffer f) = Some offset"
  shows "fuzzy_drain first_pair f outs = fuzzy_drain first_pair (start_deframing offset f)
    (outs @ (if offset = 0 then [] else [UnknownPrefix (take offset (fz_search_buffer f))]))"
proof -
  have "hello_at (fz_search_buffer f) offset" using assms(2) by (simp add: find_tls_handshake_start_first)
  then have len: "6 \<le> length (fz_search_buffer f)" by (simp add: hello_at_def)
  have "fuzzy_next_record first_pair (start_deframing 0 f) = deframe_inner (start_deframing 0 f)"
    by (simp add: fuzzy_next_record_def start_deframing_def)
  with assms len show ?thesis
    by (auto simp: fuzzy_drain.simps [of first_pair f] fuzzy_drain.simps [of first_pair "start_deframing 0 f"]
        fuzzy_next_record_def [of first_pair f] MIN_TLS_HANDSHAKE_PATTERN_LEN_def Let_def)
qed

text \<open>What holds between the bytes fed so far, the outputs and the deframer.\<close>

definition separated :: "bytes \<Rightarrow> DeframeResult list \<Rightarrow> TlsError option \<Rightarrow> bytes \<Rightarrow> nat \<Rightarrow> bool" where
  "separated inp outs e rest off \<longleftrightarrow> find_tls_handshake_start first_pair inp = Some off \<and>
     prefix_of outs = take off inp \<and> split_records (drop off inp) = (records_of outs, e, rest)"

definition searching_inv :: "bytes \<Rightarrow> DeframeResult list \<Rightarrow> FuzzyTlsDeframer \<Rightarrow> bool" where
  "searching_inv inp outs f \<longleftrightarrow> fz_state f = Searching \<and> fz_inner f = TlsDeframer_new \<and>
     find_tls_handshake_start first_pair inp = None \<and> records_of outs = [] \<and> length (fz_search_buffer f) \<le> 5 \<and>
     prefix_of outs @ fz_search_buffer f = inp \<and>
     (\<forall>cont i. i < length (prefix_of outs) \<longrightarrow> \<not> hello_at (inp @ cont) i)"

definition fuzzy_inv :: "bytes \<Rightarrow> DeframeResult list \<Rightarrow> FuzzyTlsDeframer \<Rightarrow> bool" where
  "fuzzy_inv inp outs f \<longleftrightarrow> searching_inv inp outs f \<or>
     (fz_state f = Deframing \<and> deframer_ok (fz_inner f) \<and>
      (\<exists>off. separated inp outs None (td_buffer (fz_inner f)) off))"

lemma hello_at_append: "hello_at bs i \<Longrightarrow> hello_at (bs @ cont) i"
  by (simp add: hello_at_def nth_append)

lemma hello_at_shift: "hello_at (a @ b) (length a + i) \<longleftrightarrow> hello_at b i"
  by (simp add: hello_at_def nth_append)

lemma find_start_append:
  "find_tls_handshake_start first_pair bs = Some off \<Longrightarrow> find_tls_handshake_start first_pair (bs @ cont) = Some off"
  by (auto simp: find_tls_handshake_start_first hello_at_append) (auto simp: hello_at_def nth_append split: if_splits)

lemma find_start_discarded:
  assumes "\<And>i. i < length a \<Longrightarrow> \<not> hello_at (a @ b) i"
  shows "find_tls_handshake_start first_pair (a @ b) = map_option ((+) (length a)) (find_tls_handshake_start first_pair b)"
proof (cases "find_tls_handshake_start first_pair b")
  case None
  have "\<not> hello_at (a @ b) j" for j
    using assms [of j] None hello_at_shift [of a b "j - length a"]
    by (cases "j < length a") (auto simp: find_tls_handshake_start_first)
  then have "find_tls_handshake_start first_pair (a @ b) = None" by (simp add: find_tls_handshake_start_first)
  then show ?thesis using None by simp
next
  case (Some off)
  have "\<not> hello_at (a @ b) j" if "j < length a + off" for j
    using assms [of j] Some that hello_at_shift [of a b "j - length a"]
    by (cases "j < length a") (auto simp: find_tls_handshake_start_first)
  moreover have "hello_at (a @ b) (length a + off)"
    using Some hello_at_shift [of a b off] by (simp add: find_tls_handshake_start_first)
  ultimately have "find_tls_handshake_start first_pair (a @ b) = Some (length a + off)"
    by (simp add: find_tls_handshake_start_first)
  then show ?thesis using Some by simp
qed

lemma fuzzy_inv_new: "fuzzy_inv [] [] FuzzyTlsDeframer_new"
  by (simp add: fuzzy_inv_def searching_inv_def FuzzyTlsDeframer_new_def find_tls_handshake_start_first hello_at_def)

lemma fuzzy_step_deframing:
  assumes "fz_state f = Deframing" "deframer_ok (fz_inner f)" "separated inp outs None (td_buffer (fz_inner f)) off"
    and drain: "fuzzy_drain first_pair (fuzzy_feed piece f) outs = (outs', e, f')"
  shows "(\<exists>rest. separated (inp @ piece) outs' e rest off \<and> (e = None \<longrightarrow> rest = td_buffer (fz_inner f'))) \<and>
    fz_state f' = Deframing \<and> deframer_ok (fz_inner f')"
proof -
  let ?f = "fuzzy_feed piece f"
  have f: "fz_state ?f = Deframing" "deframer_ok (fz_inner ?f)" "td_buffer (fz_inner ?f) = td_buffer (fz_inner f) @ piece"
    using assms(1,2) by (simp_all add: fuzzy_feed_def deframer_ok_feed) (simp add: feed_def)
  obtain rs e' rest where sp: "split_records (td_buffer (fz_inner f) @ piece) = (rs, e', rest)" by (metis prod_cases3)
  from drain_deframing [OF f(1,2), of rs e' rest outs] sp f(3) drain
  have d: "outs' = outs @ map TlsRecord rs" "e = e'" "fz_state f' = Deframing" "deframer_ok (fz_inner f')"
    "td_buffer (fz_inner f') = rest"
    by auto
  have recs: "records_of (map TlsRecord rs) = rs" "prefix_of (map TlsRecord rs) = []"
    by (induction rs) simp_all
  have off: "off \<le> length inp"
    using assms(3) by (auto simp: separated_def find_tls_handshake_start_first hello_at_def)
  have "split_records (drop off (inp @ piece)) = (records_of outs @ rs, e, rest)"
    using split_records_append [of "drop off inp" piece] assms(3) sp d(2) off by (simp add: separated_def)
  then have "separated (inp @ piece) outs' e rest off"
    using assms(3) off by (simp add: separated_def d recs find_start_append)
  with d show ?thesis by blast
qed

lemma fuzzy_step_searching:
  assumes inv: "searching_inv inp outs f"
    and drain: "fuzzy_drain first_pair (fuzzy_feed piece f) outs = (outs', e, f')"
  shows "searching_inv (inp @ piece) outs' f' \<and> e = None \<or>
    (\<exists>off rest. separated (inp @ piece) outs' e rest off \<and> (e = None \<longrightarrow> rest = td_buffer (fz_inner f'))) \<and>
      fz_state f' = Deframing \<and> deframer_ok (fz_inner f')"
proof -
  let ?f = "fuzzy_feed piece f"
  let ?D = "prefix_of outs" and ?B = "fz_search_buffer f @ piece"
  have f: "fz_state ?f = Searching" "fz_search_buffer ?f = ?B" "fz_inner ?f = TlsDeframer_new"
    using inv by (simp_all add: fuzzy_feed_def searching_inv_def)
  have inp: "inp @ piece = ?D @ ?B" and gone: "\<And>cont i. i < length ?D \<Longrightarrow> \<not> hello_at (?D @ ?B @ cont) i"
    using inv unfolding searching_inv_def by (simp_all) (metis append.assoc)
  have shift: "find_tls_handshake_start first_pair (inp @ piece) = map_option ((+) (length ?D)) (find_tls_handshake_start first_pair ?B)"
    using find_start_discarded [of ?D ?B] gone [of _ "[]"] inp by simp
  show ?thesis
  proof (cases "find_tls_handshake_start first_pair ?B")
    case None
    then have none: "\<forall>j. \<not> hello_at ?B j" by (simp add: find_tls_handshake_start_first)
    let ?p = "length ?B - find_potential_tls_suffix_len ?B"
    from drain_searching_none [of ?f outs] none f drain obtain new where new: "outs' = outs @ new" "e = None"
      "fz_state f' = Searching" "fz_inner f' = TlsDeframer_new" "prefix_of new = take ?p ?B"
      "fz_search_buffer f' = drop ?p ?B" "records_of new = []"
      by fastforce
    have "length (drop ?p ?B) = find_potential_tls_suffix_len ?B"
      using suffix_len_cases [of ?B] by (simp only: length_drop) simp
    then have len: "length (drop ?p ?B) \<le> 5" using suffix_len_cases [of ?B] by simp
    have "\<not> hello_at ((inp @ piece) @ cont) i" if "i < length (prefix_of outs')" for cont i
    proof (cases "i < length ?D")
      case True
      then show ?thesis using gone [of i cont] inp by simp
    next
      case False
      then have "i - length ?D < ?p" using that new by (auto simp: min_def split: if_splits)
      then have "\<not> hello_at (?B @ cont) (i - length ?D)" by (rule discarded_has_no_hello [OF none])
      then show ?thesis
        using False hello_at_shift [of ?D "?B @ cont" "i - length ?D"] inp by simp
    qed
    moreover have "prefix_of outs' @ fz_search_buffer f' = inp @ piece"
      unfolding inp by (simp only: new(1,5,6) outs_simps append_assoc append_take_drop_id)
    ultimately have "searching_inv (inp @ piece) outs' f'"
      using new len shift None inv by (simp add: searching_inv_def del: length_drop)
    with new show ?thesis by blast
  next
    case (Some off)
    let ?g = "start_deframing off ?f"
    let ?outs = "outs @ (if off = 0 then [] else [UnknownPrefix (take off ?B)])"
    have "off \<le> length ?B" using Some by (auto simp: find_tls_handshake_start_first hello_at_def)
    then have prefix: "prefix_of ?outs = take (length ?D + off) (inp @ piece)" unfolding inp by simp
    have g: "fz_state ?g = Deframing" "deframer_ok (fz_inner ?g)" "td_buffer (fz_inner ?g) = drop off ?B"
      by (simp_all add: start_deframing_def f deframer_ok_feed) (simp add: feed_def TlsDeframer_new_def)
    obtain rs e' rest where sp: "split_records (drop off ?B) = (rs, e', rest)" by (metis prod_cases3)
    have "fuzzy_drain first_pair ?g ?outs = (outs', e, f')"
      using drain_searching_found [of ?f off outs] drain Some f(1) unfolding f(2) by simp
    with drain_deframing [OF g(1,2), of rs e' rest ?outs] sp g(3)
    have d: "outs' = ?outs @ map TlsRecord rs" "e = e'" "fz_state f' = Deframing" "deframer_ok (fz_inner f')"
      "td_buffer (fz_inner f') = rest"
      by auto
    have recs: "records_of (map TlsRecord rs) = rs" "prefix_of (map TlsRecord rs) = []"
      by (induction rs) simp_all
    have "records_of outs = []" using inv by (simp add: searching_inv_def)
    then have "separated (inp @ piece) outs' e rest (length ?D + off)"
      using prefix sp shift Some by (auto simp: separated_def d recs inp)
    with d show ?thesis by blast
  qed
qed

lemma fuzzy_run_separates:
  assumes "fuzzy_inv inp outs f" "fuzzy_run first_pair pieces f outs = (outs', e, f')"
  shows "searching_inv (inp @ concat pieces) outs' f' \<and> e = None \<or>
    (\<exists>off rest. separated (inp @ concat pieces) outs' e rest off \<and>
       (e = None \<longrightarrow> rest = td_buffer (fz_inner f') \<and> fz_state f' = Deframing))"
  using assms
proof (induction pieces arbitrary: inp outs f)
  case Nil
  then show ?case by (auto simp: fuzzy_inv_def)
next
  case (Cons piece pieces)
  obtain outs1 e1 f1 where drain: "fuzzy_drain first_pair (fuzzy_feed piece f) outs = (outs1, e1, f1)" by (metis prod_cases3)
  have step: "fuzzy_inv (inp @ piece) outs1 f1 \<and> e1 = None \<or>
      (\<exists>off rest err. e1 = Some err \<and> separated (inp @ piece) outs1 e1 rest off)"
    using Cons.prems(1) fuzzy_step_searching [OF _ drain, of inp] fuzzy_step_deframing [OF _ _ _ drain, of inp]
    unfolding fuzzy_inv_def by (cases e1) fastforce+
  show ?case
  proof (cases e1)
    case None
    with step have "fuzzy_inv (inp @ piece) outs1 f1" by auto
    from Cons.IH [OF this] Cons.prems(2) drain None show ?thesis by simp
  next
    case (Some err)
    with step obtain off rest where sep: "separated (inp @ piece) outs1 (Some err) rest off" by auto
    then have "off \<le> length (inp @ piece)"
      by (auto simp: separated_def find_tls_handshake_start_first hello_at_def)
    with sep have "separated ((inp @ piece) @ concat pieces) outs1 (Some err) (rest @ concat pieces) off"
      using split_records_append [of "drop off (inp @ piece)" "concat pieces"]
        find_start_append [of "inp @ piece" off "concat pieces"]
      by (simp add: separated_def del: append_assoc drop_append add: drop_append [of _ "inp @ piece"])
    with Cons.prems(2) drain Some show ?thesis by auto
  qed
qed

text \<open>
  C36. The fuzzy deframer finds the first handshake, whatever the pieces: when the stream contains the
  pattern of a ClientHello or ServerHello, exactly the bytes before its first occurrence come out as
  unknown prefix and everything from there on is cut into records, with the same error if there is one;
  when it does not, every byte comes out as prefix but for at most five that wait for more.
\<close>

theorem fuzzy_deframer_first_hello:
  assumes "finder_ok finder"
  shows "case fuzzy_run finder pieces FuzzyTlsDeframer_new [] of (outs, e, f) \<Rightarrow>
     (case find_tls_handshake_start finder (concat pieces) of
        None \<Rightarrow> (\<forall>i. \<not> hello_at (concat pieces) i) \<and> e = None \<and> records_of outs = [] \<and>
          prefix_of outs @ fuzzy_remaining_data f = concat pieces \<and> length (fuzzy_remaining_data f) \<le> 5
      | Some off \<Rightarrow> hello_at (concat pieces) off \<and> (\<forall>i<off. \<not> hello_at (concat pieces) i) \<and>
          prefix_of outs = take off (concat pieces) \<and>
          (case split_records (drop off (concat pieces)) of (rs, err, rest) \<Rightarrow>
             records_of outs = rs \<and> e = err \<and> (err = None \<longrightarrow> fuzzy_remaining_data f = rest)))"
proof -
  have finder: "finder = first_pair" by (rule finder_ok_unique [OF assms])
  obtain outs e f where run: "fuzzy_run first_pair pieces FuzzyTlsDeframer_new [] = (outs, e, f)" by (metis prod_cases3)
  from fuzzy_run_separates [OF fuzzy_inv_new run] consider
      (none) "searching_inv (concat pieces) outs f" "e = None"
    | (found) off rest where "separated (concat pieces) outs e rest off"
        "e = None \<longrightarrow> rest = td_buffer (fz_inner f) \<and> fz_state f = Deframing"
    by auto
  then show ?thesis
  proof cases
    case none
    then have "\<forall>i. \<not> hello_at (concat pieces) i"
      by (simp add: searching_inv_def find_tls_handshake_start_first)
    with none show ?thesis by (auto simp: finder run searching_inv_def fuzzy_remaining_data_def)
  next
    case found
    then have "hello_at (concat pieces) off \<and> (\<forall>i<off. \<not> hello_at (concat pieces) i)"
      by (simp add: separated_def find_tls_handshake_start_first)
    with found show ?thesis
      by (auto simp: finder run separated_def fuzzy_remaining_data_def into_remaining_data_def)
  qed
qed

theorem fuzzy_deframer_first_hello_witness:
  "prefix_of (fst (fuzzy_run first_pair [[0, 7, 0x16], [3, 1, 0, 1], [1, 0x17]] FuzzyTlsDeframer_new [])) = [0, 7]"
proof -
  have "find_tls_handshake_start first_pair (concat [[0, 7, 0x16], [3, 1, 0, 1], [1, 0x17]]) = Some 2" by code_simp
  then show ?thesis
    using fuzzy_deframer_first_hello [OF first_pair_ok, of "[[0, 7, 0x16], [3, 1, 0, 1], [1, 0x17]]"] by (auto split: prod.splits)
qed

end
