(* ===== verification/Vision_Padding.thy ===== *)
theory Vision_Padding
  imports Rust_Prelude
begin

text \<open>
  The padding layer of XTLS Vision, \<open>prototype/vless/src/vision_pad.rs\<close> and \<open>vision_unpad.rs\<close>. A block
  is a command, two lengths, content and random padding; the first block is preceded by the user's
  UUID. The numbers the random generator draws are parameters. The unpadder consumes its input in
  slices and returns the content as early as possible; \<open>debug_assert!\<close> and log lines are left out.

  The lemmas compare the unpadder with an automaton that reads one byte at a time, and derive that
  content survives padding and unpadding however the stream is cut, as long as the first piece holds
  the UUID.
\<close>

section \<open>Padding\<close>

definition LONG_PADDING_MIN :: nat where "LONG_PADDING_MIN = 900"
definition LONG_PADDING_RANDOM_MAX :: nat where "LONG_PADDING_RANDOM_MAX = 500"
definition SHORT_PADDING_RANDOM_MAX :: nat where "SHORT_PADDING_RANDOM_MAX = 256"
definition MAX_PADDING_SIZE :: nat where "MAX_PADDING_SIZE = 8171"

text \<open>\<open>draw n\<close> is the number that \<open>random_range(0..n)\<close> returns.\<close>

definition calculate_padding_length :: "(nat \<Rightarrow> nat) \<Rightarrow> nat \<Rightarrow> bool \<Rightarrow> nat" where
  "calculate_padding_length draw content_len is_tls =
     (let max_allowable = MAX_PADDING_SIZE - content_len in
      if is_tls \<and> content_len < LONG_PADDING_MIN then
        min (LONG_PADDING_MIN - content_len + draw LONG_PADDING_RANDOM_MAX) max_allowable
      else min (draw SHORT_PADDING_RANDOM_MAX) max_allowable)"

text \<open>\<open>rng i\<close> is the \<open>i\<close>-th random byte.\<close>

definition pad_block :: "(nat \<Rightarrow> nat) \<Rightarrow> (nat \<Rightarrow> u8) \<Rightarrow> bytes \<Rightarrow> bytes option \<Rightarrow> u8 \<Rightarrow> bool \<Rightarrow> bytes" where
  "pad_block draw rng data uuid command is_tls =
     (let content_len = (of_nat (length data) :: u16);
          padding_len = calculate_padding_length draw (unat content_len) is_tls
      in (case uuid of None \<Rightarrow> [] | Some u \<Rightarrow> u) @ [command] @ u16_to_be content_len @
         u16_to_be (of_nat padding_len) @ data @ map rng [0..<padding_len])"

definition pad_with_uuid_and_command ::
    "(nat \<Rightarrow> nat) \<Rightarrow> (nat \<Rightarrow> u8) \<Rightarrow> bytes \<Rightarrow> bytes \<Rightarrow> u8 \<Rightarrow> bool \<Rightarrow> bytes" where
  "pad_with_uuid_and_command draw rng data uuid command is_tls = pad_block draw rng data (Some uuid) command is_tls"

definition pad_with_command :: "(nat \<Rightarrow> nat) \<Rightarrow> (nat \<Rightarrow> u8) \<Rightarrow> bytes \<Rightarrow> u8 \<Rightarrow> bool \<Rightarrow> bytes" where
  "pad_with_command draw rng data command is_tls = pad_block draw rng data None command is_tls"

section \<open>Unpadding\<close>

datatype UnpadCommand = UnpadContinue | UnpadEnd | UnpadDirect

datatype UnpadError = InvalidPaddingCommand u8 | AlreadyDone

definition UnpadCommand_try_from :: "u8 \<Rightarrow> UnpadError + UnpadCommand" where
  "UnpadCommand_try_from value =
     (if value = 0 then Ok UnpadContinue else if value = 1 then Ok UnpadEnd
      else if value = 2 then Ok UnpadDirect else Err (InvalidPaddingCommand value))"

record UnpadResult =
  ur_content :: bytes
  ur_command :: "UnpadCommand option"

definition UnpadResult_default :: UnpadResult where
  "UnpadResult_default = \<lparr>ur_content = [], ur_command = None\<rparr>"

datatype UnpadState =
    UnpadInitial bytes
  | ReadingCommand
  | ReadingContentLength UnpadCommand "u8 option"
  | ReadingPaddingLength UnpadCommand u16 "u8 option"
  | ReadingContent UnpadCommand bytes u16 u16
  | ReadingPadding UnpadCommand bytes u16
  | UnpadDone

record VisionUnpadder =
  vu_state :: UnpadState
  vu_first_block :: bool
  vu_accumulated :: bytes

definition VisionUnpadder_new :: "bytes \<Rightarrow> VisionUnpadder" where
  "VisionUnpadder_new expected_uuid =
     \<lparr>vu_state = UnpadInitial expected_uuid, vu_first_block = True, vu_accumulated = []\<rparr>"

text \<open>Out of data between blocks or inside a header: what was accumulated, once a block is complete.\<close>

definition out_of_header :: "VisionUnpadder \<Rightarrow> (UnpadError + UnpadResult) \<times> VisionUnpadder" where
  "out_of_header u =
     (if \<not> vu_first_block u then
        (Ok \<lparr>ur_content = vu_accumulated u, ur_command = Some UnpadContinue\<rparr>, u\<lparr>vu_accumulated := []\<rparr>)
      else (Ok UnpadResult_default, u))"

text \<open>Out of data inside content or padding: the content of the open block is returned as well.\<close>

definition out_of_block :: "bytes \<Rightarrow> UnpadState \<Rightarrow> VisionUnpadder \<Rightarrow> (UnpadError + UnpadResult) \<times> VisionUnpadder" where
  "out_of_block content rest_state u =
     (Ok \<lparr>ur_content = vu_accumulated u @ content,
          ur_command = (if vu_first_block u then None else Some UnpadContinue)\<rparr>,
      u\<lparr>vu_accumulated := [], vu_state := rest_state\<rparr>)"

fun state_rank :: "UnpadState \<Rightarrow> nat" where
  "state_rank (ReadingContent _ _ _ _) = 2"
| "state_rank (ReadingPadding _ _ _) = 1"
| "state_rank _ = 0"

lemma slice_progress: "r \<noteq> of_nat (min (unat r) n) \<Longrightarrow> 0 < n \<Longrightarrow> n - min (unat r) n < n"
  for r :: u16
  by (cases "r = 0") (auto simp: unat_gt_0)

function unpad_loop :: "VisionUnpadder \<Rightarrow> bytes \<Rightarrow> (UnpadError + UnpadResult) \<times> VisionUnpadder" where
  "unpad_loop u data =
     (case vu_state u of
        UnpadInitial expected_uuid \<Rightarrow>
          if length data < 16 then (Ok UnpadResult_default, u)
          else if take 16 data \<noteq> expected_uuid then (Ok \<lparr>ur_content = data, ur_command = None\<rparr>, u)
          else unpad_loop (u\<lparr>vu_state := ReadingCommand\<rparr>) (drop 16 data)
      | ReadingCommand \<Rightarrow>
          (case data of
             [] \<Rightarrow> out_of_header u
           | command_byte # data' \<Rightarrow>
               (case UnpadCommand_try_from command_byte of
                  Inl e \<Rightarrow> (Err e, u)
                | Inr command \<Rightarrow> unpad_loop (u\<lparr>vu_state := ReadingContentLength command None\<rparr>) data'))
      | ReadingContentLength command first_byte \<Rightarrow>
          (case data of
             [] \<Rightarrow> out_of_header u
           | b # data' \<Rightarrow>
               unpad_loop (u\<lparr>vu_state :=
                 (case first_byte of
                    None \<Rightarrow> ReadingContentLength command (Some b)
                  | Some high_byte \<Rightarrow> ReadingPaddingLength command (u16_from_be high_byte b) None)\<rparr>) data')
      | ReadingPaddingLength command content_len first_byte \<Rightarrow>
          (case data of
             [] \<Rightarrow> out_of_header u
           | b # data' \<Rightarrow>
               unpad_loop (u\<lparr>vu_state :=
                 (case first_byte of
                    None \<Rightarrow> ReadingPaddingLength command content_len (Some b)
                  | Some high_byte \<Rightarrow> ReadingContent command [] content_len (u16_from_be high_byte b))\<rparr>) data')
      | ReadingContent command partial_content remaining padding_len \<Rightarrow>
          if 0 < remaining \<and> data = [] then
            out_of_block partial_content (ReadingContent command [] remaining padding_len) u
          else (let to_read = min (unat remaining) (length data);
                    content = partial_content @ take to_read data;
                    remaining' = remaining - of_nat to_read
                in unpad_loop (u\<lparr>vu_state :=
                     (if remaining' = 0 then ReadingPadding command content padding_len
                      else ReadingContent command content remaining' padding_len)\<rparr>) (drop to_read data))
      | ReadingPadding command content remaining \<Rightarrow>
          if 0 < remaining \<and> data = [] then
            out_of_block content (ReadingPadding command [] remaining) u
          else (let to_skip = min (unat remaining) (length data);
                    data' = drop to_skip data;
                    remaining' = remaining - of_nat to_skip
                in if remaining' \<noteq> 0 then unpad_loop (u\<lparr>vu_state := ReadingPadding command content remaining'\<rparr>) data'
                   else if command = UnpadContinue then
                     unpad_loop (u\<lparr>vu_state := ReadingCommand, vu_first_block := False,
                       vu_accumulated := vu_accumulated u @ content\<rparr>) data'
                   else (Ok \<lparr>ur_content = vu_accumulated u @ content @ data', ur_command = Some command\<rparr>,
                         u\<lparr>vu_state := UnpadDone, vu_first_block := False, vu_accumulated := []\<rparr>))
      | UnpadDone \<Rightarrow> (Err AlreadyDone, u))"
  by pat_completeness auto

termination
  by (relation "measures [\<lambda>(u, data). length data, \<lambda>(u, data). state_rank (vu_state u)]")
    (auto simp: word_gt_0 slice_progress split: option.splits)

declare unpad_loop.simps [simp del]

definition unpad :: "bytes \<Rightarrow> VisionUnpadder \<Rightarrow> (UnpadError + UnpadResult) \<times> VisionUnpadder" where
  "unpad data u = unpad_loop (u\<lparr>vu_accumulated := []\<rparr>) data"

text \<open>
  A caller that passes pieces of the stream to \<open>unpad\<close> and, once a final command was returned, takes
  the pieces that follow as they are.
\<close>

fun unpad_pieces :: "VisionUnpadder \<Rightarrow> bytes list \<Rightarrow> UnpadError + (bytes \<times> UnpadCommand option)" where
  "unpad_pieces u [] = Ok ([], None)"
| "unpad_pieces u (p # ps) =
     (case unpad p u of
        (Inl e, _) \<Rightarrow> Err e
      | (Inr r, u') \<Rightarrow>
          if ur_command r = Some UnpadEnd \<or> ur_command r = Some UnpadDirect then
            Ok (ur_content r @ concat ps, ur_command r)
          else (case unpad_pieces u' ps of
                  Inl e \<Rightarrow> Err e
                | Inr (content, command) \<Rightarrow> Ok (ur_content r @ content, command)))"

section \<open>Cutting the stream\<close>

definition prepend :: "bytes \<Rightarrow> UnpadError + UnpadResult \<Rightarrow> UnpadError + UnpadResult" where
  "prepend x r = (case r of Inl e \<Rightarrow> Inl e | Inr v \<Rightarrow> Inr (v\<lparr>ur_content := x @ ur_content v\<rparr>))"

definition settled :: "(UnpadError + UnpadResult) \<times> VisionUnpadder \<Rightarrow> (UnpadError + UnpadResult) \<times> VisionUnpadder" where
  "settled out = (fst out, (snd out)\<lparr>vu_accumulated := []\<rparr>)"

lemma prepend_simps [simp]:
  "prepend x (Inl e) = Inl e"
  "prepend x (Inr v) = Inr (v\<lparr>ur_content := x @ ur_content v\<rparr>)"
  by (simp_all add: prepend_def)

lemma settled_simps [simp]: "fst (settled out) = fst out" "snd (settled out) = (snd out)\<lparr>vu_accumulated := []\<rparr>"
  by (simp_all add: settled_def)

fun is_initial :: "UnpadState \<Rightarrow> bool" where
  "is_initial (UnpadInitial _) = True"
| "is_initial _ = False"

text \<open>One equation per state and amount of data: what a run of the loop does until the state changes.\<close>

lemma unpad_loop_initial:
  assumes "vu_state u = UnpadInitial uuid" "length uuid = 16"
  shows "unpad_loop u (uuid @ data) = unpad_loop (u\<lparr>vu_state := ReadingCommand\<rparr>) data"
  using assms by (subst unpad_loop.simps) simp

lemma unpad_loop_command:
  "vu_state u = ReadingCommand \<Longrightarrow> unpad_loop u [] = out_of_header u"
  "vu_state u = ReadingCommand \<Longrightarrow> unpad_loop u (b # data) =
     (case UnpadCommand_try_from b of Inl e \<Rightarrow> (Err e, u)
      | Inr c \<Rightarrow> unpad_loop (u\<lparr>vu_state := ReadingContentLength c None\<rparr>) data)"
  by (subst unpad_loop.simps; simp)+

fun length_step :: "UnpadState \<Rightarrow> u8 \<Rightarrow> UnpadState" where
  "length_step (ReadingContentLength c None) b = ReadingContentLength c (Some b)"
| "length_step (ReadingContentLength c (Some h)) b = ReadingPaddingLength c (u16_from_be h b) None"
| "length_step (ReadingPaddingLength c n None) b = ReadingPaddingLength c n (Some b)"
| "length_step (ReadingPaddingLength c n (Some h)) b = ReadingContent c [] n (u16_from_be h b)"
| "length_step st b = st"

fun reads_length :: "UnpadState \<Rightarrow> bool" where
  "reads_length (ReadingContentLength _ _) = True"
| "reads_length (ReadingPaddingLength _ _ _) = True"
| "reads_length _ = False"

lemma length_step_state [simp]:
  "reads_length st \<Longrightarrow> \<not> is_initial (length_step st b)"
  "reads_length st \<Longrightarrow> length_step st b \<noteq> UnpadDone"
  "reads_length st \<Longrightarrow> state_rank (length_step st b) \<le> 2"
  by (cases "(st, b)" rule: length_step.cases; simp)+

lemma reads_length_rank [simp]: "reads_length st \<Longrightarrow> state_rank st = 0" "reads_length st \<Longrightarrow> \<not> is_initial st"
  "reads_length st \<Longrightarrow> st \<noteq> UnpadDone"
  by (cases st; simp)+

lemma unpad_loop_length:
  assumes "reads_length (vu_state u)"
  shows "unpad_loop u [] = out_of_header u"
    "unpad_loop u (b # data) = unpad_loop (u\<lparr>vu_state := length_step (vu_state u) b\<rparr>) data"
  using assms by (cases "vu_state u"; subst unpad_loop.simps; simp split: option.splits)+

lemma vu_update_order [simp]:
  "u\<lparr>vu_accumulated := a, vu_state := st\<rparr> = u\<lparr>vu_state := st, vu_accumulated := a\<rparr>"
  "u\<lparr>vu_accumulated := a, vu_first_block := f\<rparr> = u\<lparr>vu_first_block := f, vu_accumulated := a\<rparr>"
  "u\<lparr>vu_first_block := f, vu_state := st\<rparr> = u\<lparr>vu_state := st, vu_first_block := f\<rparr>"
  by simp_all

lemma short_slice:
  assumes "n < unat (r :: u16)"
  shows "min (unat r) n = n" "r \<noteq> 0" "r \<noteq> of_nat n" "0 < r - of_nat n"
proof -
  have n: "unat (of_nat n :: u16) = n"
    using assms unat_u16_less [of r] by (simp add: unat_of_nat_u16 del: unat_u16_less)
  show "min (unat r) n = n" "r \<noteq> 0" using assms by auto
  show "r \<noteq> of_nat n" using assms n by auto
  then show "0 < r - of_nat n" by (simp add: word_gt_0)
qed

lemma unpad_loop_content_more:
  assumes "vu_state u = ReadingContent c p r n" "length data < unat r"
  shows "unpad_loop u data = out_of_block (p @ data) (ReadingContent c [] (r - of_nat (length data)) n) u"
proof (cases "data = []")
  case True
  with assms show ?thesis by (subst unpad_loop.simps) (simp add: short_slice word_gt_0 unat_gt_0)
next
  case False
  note more = short_slice [OF assms(2)]
  from False assms(1) more have "unpad_loop u data =
      unpad_loop (u\<lparr>vu_state := ReadingContent c (p @ data) (r - of_nat (length data)) n\<rparr>) []"
    by (subst unpad_loop.simps) simp
  with more show ?thesis
    by (subst (asm) (2) unpad_loop.simps) (simp add: out_of_block_def)
qed

lemma unpad_loop_content_done:
  assumes "vu_state u = ReadingContent c p r n" "unat r \<le> length data"
  shows "unpad_loop u data =
    unpad_loop (u\<lparr>vu_state := ReadingPadding c (p @ take (unat r) data) n\<rparr>) (drop (unat r) data)"
  using assms by (subst unpad_loop.simps) (auto simp: min_def word_gt_0 unat_eq_zero Let_def)

lemma unpad_loop_padding_more:
  assumes "vu_state u = ReadingPadding c p r" "length data < unat r"
  shows "unpad_loop u data = out_of_block p (ReadingPadding c [] (r - of_nat (length data))) u"
proof (cases "data = []")
  case True
  with assms show ?thesis by (subst unpad_loop.simps) (simp add: short_slice word_gt_0 unat_gt_0)
next
  case False
  note more = short_slice [OF assms(2)]
  from False assms(1) more have "unpad_loop u data =
      unpad_loop (u\<lparr>vu_state := ReadingPadding c p (r - of_nat (length data))\<rparr>) []"
    by (subst unpad_loop.simps) simp
  with more show ?thesis
    by (subst (asm) (2) unpad_loop.simps) (simp add: out_of_block_def)
qed

lemma unpad_loop_padding_done:
  assumes "vu_state u = ReadingPadding c p r" "unat r \<le> length data"
  shows "unpad_loop u data =
    (if c = UnpadContinue then
       unpad_loop (u\<lparr>vu_state := ReadingCommand, vu_first_block := False,
         vu_accumulated := vu_accumulated u @ p\<rparr>) (drop (unat r) data)
     else (Ok \<lparr>ur_content = vu_accumulated u @ p @ drop (unat r) data, ur_command = Some c\<rparr>,
           u\<lparr>vu_state := UnpadDone, vu_first_block := False, vu_accumulated := []\<rparr>))"
  using assms by (subst unpad_loop.simps) (auto simp: min_def word_gt_0 unat_eq_zero Let_def)

lemma unpad_loop_done: "vu_state u = UnpadDone \<Longrightarrow> unpad_loop u data = (Err AlreadyDone, u)"
  by (subst unpad_loop.simps) simp

lemmas unpad_loop_eqs = unpad_loop_command unpad_loop_length unpad_loop_content_more unpad_loop_content_done
  unpad_loop_padding_more unpad_loop_padding_done unpad_loop_done

text \<open>The loop proceeds by these equations along a decreasing measure.\<close>

lemma unpad_induct [case_names initial nil nil_length command bad_command cons_length content_more
    content_done padding_more padding_next padding_final stopped]:
  assumes initial: "\<And>u data. is_initial (vu_state u) \<Longrightarrow> P u data"
    and nil: "\<And>u. vu_state u = ReadingCommand \<Longrightarrow> P u []"
    and nil_length: "\<And>u. reads_length (vu_state u) \<Longrightarrow> P u []"
    and command: "\<And>u b data c. vu_state u = ReadingCommand \<Longrightarrow> UnpadCommand_try_from b = Inr c \<Longrightarrow>
      P (u\<lparr>vu_state := ReadingContentLength c None\<rparr>) data \<Longrightarrow> P u (b # data)"
    and bad_command: "\<And>u b data e. vu_state u = ReadingCommand \<Longrightarrow> UnpadCommand_try_from b = Inl e \<Longrightarrow> P u (b # data)"
    and cons_length: "\<And>u b data. reads_length (vu_state u) \<Longrightarrow>
      P (u\<lparr>vu_state := length_step (vu_state u) b\<rparr>) data \<Longrightarrow> P u (b # data)"
    and content_more: "\<And>u data c p r n. vu_state u = ReadingContent c p r n \<Longrightarrow> length data < unat r \<Longrightarrow> P u data"
    and content_done: "\<And>u data c p r n. vu_state u = ReadingContent c p r n \<Longrightarrow> unat r \<le> length data \<Longrightarrow>
      P (u\<lparr>vu_state := ReadingPadding c (p @ take (unat r) data) n\<rparr>) (drop (unat r) data) \<Longrightarrow> P u data"
    and padding_more: "\<And>u data c p r. vu_state u = ReadingPadding c p r \<Longrightarrow> length data < unat r \<Longrightarrow> P u data"
    and padding_next: "\<And>u data p r. vu_state u = ReadingPadding UnpadContinue p r \<Longrightarrow> unat r \<le> length data \<Longrightarrow>
      P (u\<lparr>vu_state := ReadingCommand, vu_first_block := False, vu_accumulated := vu_accumulated u @ p\<rparr>)
        (drop (unat r) data) \<Longrightarrow> P u data"
    and padding_final: "\<And>u data c p r. vu_state u = ReadingPadding c p r \<Longrightarrow> c \<noteq> UnpadContinue \<Longrightarrow>
      unat r \<le> length data \<Longrightarrow> P u data"
    and stopped: "\<And>u data. vu_state u = UnpadDone \<Longrightarrow> P u data"
  shows "P u data"
proof (induction "3 * length data + state_rank (vu_state u)" arbitrary: u data rule: less_induct)
  case less
  have reading: "P u data" if st: "reads_length (vu_state u)"
  proof (cases data)
    case Nil
    with st show ?thesis by (simp add: nil_length)
  next
    case (Cons b d)
    have "P (u\<lparr>vu_state := length_step (vu_state u) b\<rparr>) d"
      using Cons length_step_state(3) [OF st, of b] by (intro less) simp
    with st Cons show ?thesis by (simp add: cons_length)
  qed
  show ?case
  proof (cases "vu_state u")
    case (UnpadInitial x)
    then show ?thesis by (simp add: initial)
  next
    case ReadingCommand
    then have "P u (b # d)" if "data = b # d" for b d
      using that by (cases "UnpadCommand_try_from b") (simp_all add: bad_command command less)
    with ReadingCommand show ?thesis by (cases data) (simp_all add: nil)
  next
    case (ReadingContentLength c b)
    with reading show ?thesis by simp
  next
    case (ReadingPaddingLength c n b)
    with reading show ?thesis by simp
  next
    case (ReadingContent c p r n)
    show ?thesis
    proof (cases "length data < unat r")
      case True
      with ReadingContent show ?thesis by (rule content_more)
    next
      case False
      with ReadingContent show ?thesis by (intro content_done [OF ReadingContent] less) auto
    qed
  next
    case (ReadingPadding c p r)
    consider "length data < unat r" | "unat r \<le> length data" "c = UnpadContinue"
      | "unat r \<le> length data" "c \<noteq> UnpadContinue" by fastforce
    then show ?thesis
    proof cases
      case 1
      with ReadingPadding show ?thesis by (rule padding_more)
    next
      case 2
      with ReadingPadding show ?thesis by (intro padding_next [of u p r] less) auto
    next
      case 3
      with ReadingPadding show ?thesis by (intro padding_final [OF ReadingPadding])
    qed
  next
    case UnpadDone
    then show ?thesis by (simp add: stopped)
  qed
qed

text \<open>After the first block, content accumulated earlier comes out first.\<close>

lemma unpad_loop_accumulated:
  assumes "\<not> is_initial (vu_state u)" "\<not> vu_first_block u"
  shows "settled (unpad_loop (u\<lparr>vu_accumulated := x @ vu_accumulated u\<rparr>) data) =
    (prepend x (fst (unpad_loop u data)), (snd (unpad_loop u data))\<lparr>vu_accumulated := []\<rparr>)"
  using assms
proof (induction u data rule: unpad_induct)
qed (auto simp: settled_def unpad_loop_eqs out_of_block_def out_of_header_def)

lemma prepend_nil [simp]: "prepend [] r = r"
  by (cases r) simp_all

lemma prepend_prepend: "prepend x (prepend y r) = prepend (x @ y) r"
  by (cases r) simp_all

lemma unpad_loop_flush:
  assumes "\<not> is_initial (vu_state u)" "vu_first_block u \<Longrightarrow> vu_accumulated u = []"
  shows "settled (unpad_loop u data) =
    (prepend (vu_accumulated u) (fst (unpad data u)), (snd (unpad data u))\<lparr>vu_accumulated := []\<rparr>)"
proof (cases "vu_first_block u")
  case True
  with assms(2) have "u\<lparr>vu_accumulated := []\<rparr> = u" by simp
  then have "unpad data u = unpad_loop u data" by (simp only: unpad_def)
  with True assms(2) show ?thesis by (simp add: settled_def)
next
  case False
  then show ?thesis
    using unpad_loop_accumulated [of "u\<lparr>vu_accumulated := []\<rparr>" "vu_accumulated u"] assms(1)
    by (simp add: unpad_def)
qed

text \<open>The content of an open block comes out before what the rest of the input holds.\<close>

fun with_content :: "bytes \<Rightarrow> UnpadState \<Rightarrow> UnpadState" where
  "with_content x (ReadingContent c p r n) = ReadingContent c (x @ p) r n"
| "with_content x (ReadingPadding c p r) = ReadingPadding c (x @ p) r"
| "with_content x st = st"

lemma unpad_loop_open:
  assumes "0 < state_rank (vu_state u)" "vu_accumulated u = []"
  shows "settled (unpad_loop (u\<lparr>vu_state := with_content x (vu_state u)\<rparr>) data) =
    (prepend x (fst (unpad_loop u data)), (snd (unpad_loop u data))\<lparr>vu_accumulated := []\<rparr>)"
  using assms
proof (induction u data rule: unpad_induct)
  case (cons_length u b data)
  then show ?case by (cases "vu_state u") simp_all
next
  case (padding_next u data p r)
  let ?v = "u\<lparr>vu_state := ReadingCommand, vu_first_block := False, vu_accumulated := p\<rparr>"
  have "settled (unpad_loop (?v\<lparr>vu_accumulated := x @ vu_accumulated ?v\<rparr>) (drop (unat r) data)) =
      (prepend x (fst (unpad_loop ?v (drop (unat r) data))),
       (snd (unpad_loop ?v (drop (unat r) data)))\<lparr>vu_accumulated := []\<rparr>)"
    by (rule unpad_loop_accumulated) simp_all
  with padding_next show ?case by (simp add: unpad_loop_padding_done)
qed (auto simp: settled_def unpad_loop_eqs out_of_block_def out_of_header_def elim: is_initial.elims)

lemma unpad_loop_resume:
  assumes "0 < state_rank st" "vu_first_block u \<Longrightarrow> vu_accumulated u = []"
  shows "settled (unpad_loop (u\<lparr>vu_state := with_content x st\<rparr>) data) =
    (let out = unpad data (u\<lparr>vu_state := st\<rparr>)
     in (prepend (vu_accumulated u @ x) (fst out), (snd out)\<lparr>vu_accumulated := []\<rparr>))"
proof -
  let ?v = "u\<lparr>vu_state := st, vu_accumulated := []\<rparr>"
  have st: "\<not> is_initial (with_content x st)" using assms(1) by (cases st) simp_all
  have "settled (unpad_loop (?v\<lparr>vu_state := with_content x st\<rparr>) data) =
      (prepend x (fst (unpad_loop ?v data)), (snd (unpad_loop ?v data))\<lparr>vu_accumulated := []\<rparr>)"
    using unpad_loop_open [of ?v x data] assms(1) by simp
  moreover have "settled (unpad_loop (u\<lparr>vu_state := with_content x st\<rparr>) data) =
      (let out = unpad data (u\<lparr>vu_state := with_content x st\<rparr>)
       in (prepend (vu_accumulated u) (fst out), (snd out)\<lparr>vu_accumulated := []\<rparr>))"
    using unpad_loop_flush [of "u\<lparr>vu_state := with_content x st\<rparr>" data] st assms(2) by (simp add: Let_def)
  ultimately show ?thesis
    by (simp add: unpad_def settled_def Let_def prepend_prepend)
qed

lemma unat_rest: "n < unat r \<Longrightarrow> unat (r - of_nat n) = unat r - n" for r :: u16
  using unat_u16_less [of r] by (simp add: unat_sub word_le_nat_alt unat_of_nat_u16 del: unat_u16_less)

lemma unpad_loop_content_skip:
  assumes "vu_state u = ReadingContent c p r n" "length data < unat r"
  shows "unpad_loop u (data @ d2) =
    unpad_loop (u\<lparr>vu_state := ReadingContent c (p @ data) (r - of_nat (length data)) n\<rparr>) d2"
proof (cases "length data + length d2 < unat r")
  case True
  with assms show ?thesis by (simp add: unpad_loop_content_more unat_rest out_of_block_def)
next
  case False
  with assms show ?thesis by (simp add: unpad_loop_content_done unat_rest)
qed

lemma unpad_loop_padding_skip:
  assumes "vu_state u = ReadingPadding c p r" "length data < unat r"
  shows "unpad_loop u (data @ d2) = unpad_loop (u\<lparr>vu_state := ReadingPadding c p (r - of_nat (length data))\<rparr>) d2"
proof (cases "length data + length d2 < unat r")
  case True
  with assms show ?thesis by (simp add: unpad_loop_padding_more unat_rest out_of_block_def)
next
  case False
  with assms show ?thesis by (simp add: unpad_loop_padding_done unat_rest)
qed

text \<open>Reading two pieces one after the other is reading them at once.\<close>

definition joined :: "(UnpadError + UnpadResult) \<times> VisionUnpadder \<Rightarrow> bytes \<Rightarrow> (UnpadError + UnpadResult) \<times> VisionUnpadder" where
  "joined out data =
     (case out of
        (Inl e, u) \<Rightarrow> settled (Inl e, u)
      | (Inr r, u) \<Rightarrow>
          if vu_state u = UnpadDone then settled (prepend (ur_content r) (Inr (r\<lparr>ur_content := data\<rparr>)), u)
          else (let out' = unpad data u in settled (prepend (ur_content r) (fst out'), snd out')))"

lemma unpad_loop_append:
  assumes "\<not> is_initial (vu_state u)" "vu_first_block u \<Longrightarrow> vu_accumulated u = []"
  shows "settled (unpad_loop u (d1 @ d2)) = joined (unpad_loop u d1) d2"
  using assms
proof (induction u d1 rule: unpad_induct)
  case (nil u)
  then show ?case using unpad_loop_flush [of u d2]
    by (auto simp: unpad_loop_command out_of_header_def joined_def Let_def settled_def UnpadResult_default_def unpad_def)
next
  case (nil_length u)
  then show ?case using unpad_loop_flush [of u d2]
    by (auto simp: unpad_loop_length out_of_header_def joined_def Let_def settled_def UnpadResult_default_def unpad_def)
next
  case (content_more u data c p r n)
  then show ?case
    using unpad_loop_resume [of "ReadingContent c [] (r - of_nat (length data)) n" u "p @ data" d2]
    by (simp add: unpad_loop_content_skip unpad_loop_content_more out_of_block_def joined_def
        Let_def settled_def unpad_def)
next
  case (padding_more u data c p r)
  then show ?case
    using unpad_loop_resume [of "ReadingPadding c [] (r - of_nat (length data))" u p d2]
    by (simp add: unpad_loop_padding_skip unpad_loop_padding_more out_of_block_def joined_def
        Let_def settled_def unpad_def)
qed (auto simp: joined_def settled_def unpad_loop_eqs)

lemma unpad_outcome:
  assumes "\<not> is_initial (vu_state u)" "vu_state u \<noteq> UnpadDone" "unpad_loop u data = (Inr r, u')"
  shows "\<not> is_initial (vu_state u') \<and> (vu_state u' = UnpadDone \<longleftrightarrow> ur_command r = Some UnpadEnd \<or> ur_command r = Some UnpadDirect)"
  using assms
proof (induction u data rule: unpad_induct)
  case (padding_final u data c p r)
  then show ?case by (cases c) (auto simp: unpad_loop_padding_done)
qed (auto simp: unpad_loop_eqs out_of_block_def out_of_header_def UnpadResult_default_def split: if_splits)

lemma unpad_clears [simp]: "unpad data (u\<lparr>vu_accumulated := a\<rparr>) = unpad data u"
  by (simp add: unpad_def)

lemma unpad_pieces_clears [simp]: "unpad_pieces (u\<lparr>vu_accumulated := a\<rparr>) ps = unpad_pieces u ps"
  by (cases ps) simp_all

lemma unpad_pieces_append:
  assumes "\<not> is_initial (vu_state u)" "vu_state u \<noteq> UnpadDone"
  shows "unpad_pieces u (p # q # ps) = unpad_pieces u ((p @ q) # ps)"
proof -
  let ?v = "u\<lparr>vu_accumulated := []\<rparr>"
  obtain r u' where p: "unpad_loop ?v p = (r, u')" by (cases "unpad_loop ?v p")
  obtain s w where q: "unpad_loop ?v (p @ q) = (s, w)" by (cases "unpad_loop ?v (p @ q)")
  have j: "settled (s, w) = joined (r, u') q"
    using unpad_loop_append [of ?v p q] assms p q by simp
  show ?thesis
  proof (cases r)
    case (Inl e)
    with p q j show ?thesis by (simp add: unpad_def joined_def settled_def)
  next
    case (Inr v)
    with p unpad_outcome [of ?v p v u'] assms
    have o: "vu_state u' = UnpadDone \<longleftrightarrow> ur_command v = Some UnpadEnd \<or> ur_command v = Some UnpadDirect"
      by simp
    obtain t x where t: "unpad q u' = (t, x)" by (cases "unpad q u'")
    have w: "unpad_pieces w ps = unpad_pieces x ps" if "w\<lparr>vu_accumulated := []\<rparr> = x\<lparr>vu_accumulated := []\<rparr>"
      using that by (metis unpad_pieces_clears)
    from Inr p q j o t w show ?thesis
      by (cases t) (auto simp: unpad_def [of p u] unpad_def [of "p @ q" u] joined_def settled_def Let_def
          split: sum.splits prod.splits if_splits)
  qed
qed

lemma unpad_pieces_concat:
  assumes "\<not> is_initial (vu_state u)" "vu_state u \<noteq> UnpadDone"
  shows "unpad_pieces u (p # ps) = unpad_pieces u [p @ concat ps]"
  by (induction ps arbitrary: p) (simp_all add: unpad_pieces_append [OF assms] del: unpad_pieces.simps)

section \<open>Padded blocks are unpadded\<close>

lemma padding_bound: "calculate_padding_length draw n tls \<le> MAX_PADDING_SIZE - n"
  by (simp add: calculate_padding_length_def Let_def)

lemma unat_padding [simp]:
  "unat (of_nat (calculate_padding_length draw n tls) :: u16) = calculate_padding_length draw n tls"
  using padding_bound [of draw n tls] by (intro unat_of_nat_u16) (simp add: MAX_PADDING_SIZE_def)

lemma u16_to_be_bytes: obtains a b where "u16_to_be w = [a, b]" "u16_from_be a b = w"
  by (metis u16_be_roundtrip u16_to_be_def)

lemma vu_state_kept:
  "vu_state u = st \<Longrightarrow> u\<lparr>vu_state := st, vu_first_block := f, vu_accumulated := a\<rparr> =
     u\<lparr>vu_first_block := f, vu_accumulated := a\<rparr>"
  by auto

lemma unpad_loop_block:
  assumes st: "vu_state u = ReadingCommand" and d: "length d < 65536" and c: "UnpadCommand_try_from b = Inr c"
  shows "unpad_loop u (pad_with_command draw rng d b tls @ rest) =
    (if c = UnpadContinue then
       unpad_loop (u\<lparr>vu_first_block := False, vu_accumulated := vu_accumulated u @ d\<rparr>) rest
     else (Ok \<lparr>ur_content = vu_accumulated u @ d @ rest, ur_command = Some c\<rparr>,
           u\<lparr>vu_state := UnpadDone, vu_first_block := False, vu_accumulated := []\<rparr>))"
proof -
  let ?n = "of_nat (length d) :: u16" and ?m = "calculate_padding_length draw (length d) tls"
  obtain x y where n: "u16_to_be ?n = [x, y]" "u16_from_be x y = ?n" by (rule u16_to_be_bytes)
  obtain v w where m: "u16_to_be (of_nat ?m) = [v, w]" "u16_from_be v w = of_nat ?m" by (rule u16_to_be_bytes)
  have len: "unat ?n = length d" using d by (rule unat_of_nat_u16)
  then have "pad_with_command draw rng d b tls @ rest = b # x # y # v # w # d @ map rng [0..<?m] @ rest"
    by (simp add: pad_with_command_def pad_block_def Let_def n(1) m(1))
  then show ?thesis
    using st c len
    by (simp add: vu_state_kept unpad_loop_command unpad_loop_length n(2) m(2) unpad_loop_content_done unpad_loop_padding_done)
qed

record PadCall =
  pc_draw :: "nat \<Rightarrow> nat"
  pc_rng :: "nat \<Rightarrow> u8"
  pc_data :: bytes
  pc_is_tls :: bool

text \<open>What a writer sends: one call with the UUID, then calls without, all with the same command.\<close>

definition pad_continue :: "PadCall \<Rightarrow> bytes" where
  "pad_continue c = pad_with_command (pc_draw c) (pc_rng c) (pc_data c) 0 (pc_is_tls c)"

lemma unpad_loop_blocks:
  assumes "vu_state u = ReadingCommand" "\<forall>c\<in>set cs. length (pc_data c) < 65536"
  shows "unpad_loop u (concat (map pad_continue cs) @ rest) =
    unpad_loop (if cs = [] then u
      else u\<lparr>vu_first_block := False, vu_accumulated := vu_accumulated u @ concat (map pc_data cs)\<rparr>) rest"
  using assms
proof (induction cs arbitrary: u)
  case (Cons c cs)
  have "UnpadCommand_try_from 0 = Inr UnpadContinue" by (simp add: UnpadCommand_try_from_def)
  with Cons show ?case
    by (cases "cs = []") (simp_all add: pad_continue_def unpad_loop_block)
qed simp

text \<open>
  C23: what \<open>pad_with_uuid_and_command\<close> and \<open>pad_with_command\<close> write is what \<open>unpad\<close> returns: after a first
  block with the UUID, any number of continued blocks and a last block whose command is \<open>End\<close> or
  \<open>Direct\<close>, the concatenation of the contents and of the raw bytes that follow comes out, together
  with that command, for every way of cutting the stream into pieces whose first one holds the UUID,
  every random padding, and contents of fewer than 65536 bytes.
\<close>

theorem vision_padding_roundtrip:
  assumes "length uuid = 16" "16 \<le> length p"
    and "concat (p # ps) = pad_with_uuid_and_command (pc_draw c) (pc_rng c) (pc_data c) uuid 0 (pc_is_tls c) @
      concat (map pad_continue cs) @
      pad_with_command (pc_draw fin) (pc_rng fin) (pc_data fin) b (pc_is_tls fin) @ tail"
    and "UnpadCommand_try_from b = Inr cmd" "cmd \<noteq> UnpadContinue"
    and "\<forall>k\<in>set (c # cs @ [fin]). length (pc_data k) < 65536"
  shows "unpad_pieces (VisionUnpadder_new uuid) (p # ps) =
    Ok (concat (map pc_data (c # cs @ [fin])) @ tail, Some cmd)"
proof -
  let ?u = "VisionUnpadder_new uuid" and ?v = "(VisionUnpadder_new uuid)\<lparr>vu_state := ReadingCommand\<rparr>"
  define body where "body = concat (map pad_continue (c # cs)) @
      pad_with_command (pc_draw fin) (pc_rng fin) (pc_data fin) b (pc_is_tls fin) @ tail"
  have stream: "p @ concat ps = uuid @ body"
    using assms(3) by (simp add: body_def pad_continue_def pad_with_uuid_and_command_def pad_with_command_def
        pad_block_def Let_def)
  define q where "q = drop 16 p"
  have "take 16 p = uuid"
    using arg_cong [OF stream, of "take 16"] assms(1,2) by simp
  then have p: "p = uuid @ q" unfolding q_def by (metis append_take_drop_id)
  with stream have q: "q @ concat ps = body" by simp
  have "unpad p ?u = unpad_loop ?v q"
    using assms(1) by (simp add: unpad_def p unpad_loop_initial VisionUnpadder_new_def)
  then have "unpad_pieces ?u (p # ps) = unpad_pieces ?v (q # ps)"
    by (simp add: unpad_def VisionUnpadder_new_def)
  also have "\<dots> = unpad_pieces ?v [body]"
    using unpad_pieces_concat [of ?v q ps] by (simp add: q VisionUnpadder_new_def del: unpad_pieces.simps)
  also have "\<dots> = Ok (concat (map pc_data (c # cs @ [fin])) @ tail, Some cmd)"
    using assms(4,5,6) unpad_loop_blocks [of ?v "c # cs"]
    by (cases cmd) (simp_all add: unpad_def body_def VisionUnpadder_new_def unpad_loop_block)
  finally show ?thesis .
qed

theorem vision_padding_roundtrip_witness:
  "unpad_pieces (VisionUnpadder_new (replicate 16 7)) [replicate 16 7 @ [0], [0, 1, 0, 1, 65, 9, 1], [0, 0, 0, 0, 33]] =
    Ok ([65, 33], Some UnpadEnd)"
proof -
  let ?c = "\<lparr>pc_draw = \<lambda>_. 1, pc_rng = \<lambda>_. 9, pc_data = [65], pc_is_tls = False\<rparr>"
  let ?d = "\<lparr>pc_draw = \<lambda>_. 0, pc_rng = \<lambda>_. 9, pc_data = [], pc_is_tls = False\<rparr>"
  have "unpad_pieces (VisionUnpadder_new (replicate 16 7))
      (((replicate 16 7 @ [0])) # [[0, 1, 0, 1, 65, 9, 1], [0, 0, 0, 0, 33]]) =
      Ok (concat (map pc_data (?c # [] @ [?d])) @ [33], Some UnpadEnd)"
    by (rule vision_padding_roundtrip [where c = ?c and cs = "[]" and fin = ?d and b = 1]; code_simp)
  then show ?thesis by simp
qed

text \<open>
  Before the UUID has arrived the unpadder keeps no data: the bytes of a piece shorter than sixteen
  are gone, and the next piece is compared with the UUID from its own first byte.
\<close>

lemma short_first_piece_lost:
  assumes "length p < 16"
  shows "unpad p (VisionUnpadder_new uuid) = (Ok UnpadResult_default, VisionUnpadder_new uuid)"
  using assms by (simp add: unpad_def VisionUnpadder_new_def unpad_loop.simps)

text \<open>A content of 65536 bytes is announced as an empty one: its length is cast to sixteen bits.\<close>

lemma pad_length_wraps:
  assumes "length data = 65536"
  shows "take 3 (pad_with_command draw rng data b tls) = [b, 0, 0]"
  using assms by (simp add: pad_with_command_def pad_block_def u16_to_be_def Let_def)

end
