(* ===== verification/Tls_Hello.thy ===== *)
theory Tls_Hello
  imports Rust_Strings
begin

text \<open>
  The byte cursor (\<open>prototype/vless/src/buf_reader.rs\<close>), the ServerHello parser (\<open>tls_parse.rs\<close>) and the
  record filter that decides about direct copy (\<open>vision_filter.rs\<close>). A failed read leaves the cursor
  where it was; every caller returns on it, so the cursor is threaded through successful reads only.

  The parser is compared with an encoder of ServerHello records, the filter with the first eight
  records it is given.
\<close>

section \<open>Byte cursor\<close>

datatype BufError = ReadPastEnd | InvalidUtf8

record BufReader =
  br_buf :: bytes
  br_pos :: nat

definition BufReader_new :: "bytes \<Rightarrow> BufReader" where
  "BufReader_new buf = \<lparr>br_buf = buf, br_pos = 0\<rparr>"

definition br_is_consumed :: "BufReader \<Rightarrow> bool" where
  "br_is_consumed r \<longleftrightarrow> br_pos r = length (br_buf r)"

definition br_remaining :: "BufReader \<Rightarrow> nat" where
  "br_remaining r = length (br_buf r) - br_pos r"

definition read_u8 :: "BufReader \<Rightarrow> BufError + u8 \<times> BufReader" where
  "read_u8 r = (if length (br_buf r) \<le> br_pos r then Err ReadPastEnd
     else Ok (br_buf r ! br_pos r, r\<lparr>br_pos := br_pos r + 1\<rparr>))"

definition read_u16_be :: "BufReader \<Rightarrow> BufError + u16 \<times> BufReader" where
  "read_u16_be r = (if length (br_buf r) \<le> br_pos r + 1 then Err ReadPastEnd
     else Ok (u16_from_be (br_buf r ! br_pos r) (br_buf r ! (br_pos r + 1)), r\<lparr>br_pos := br_pos r + 2\<rparr>))"

definition u24_from_be :: "u8 \<Rightarrow> u8 \<Rightarrow> u8 \<Rightarrow> u32" where
  "u24_from_be a b c = of_nat (unat a * 65536 + unat b * 256 + unat c)"

definition read_u24_be :: "BufReader \<Rightarrow> BufError + u32 \<times> BufReader" where
  "read_u24_be r = (if length (br_buf r) \<le> br_pos r + 2 then Err ReadPastEnd
     else Ok (u24_from_be (br_buf r ! br_pos r) (br_buf r ! (br_pos r + 1)) (br_buf r ! (br_pos r + 2)),
              r\<lparr>br_pos := br_pos r + 3\<rparr>))"

definition read_slice :: "nat \<Rightarrow> BufReader \<Rightarrow> BufError + bytes \<times> BufReader" where
  "read_slice len r = (if length (br_buf r) < br_pos r + len then Err ReadPastEnd
     else Ok (take len (drop (br_pos r) (br_buf r)), r\<lparr>br_pos := br_pos r + len\<rparr>))"

definition read_str :: "nat \<Rightarrow> BufReader \<Rightarrow> BufError + string \<times> BufReader" where
  "read_str len r = and_then (read_slice len r) (\<lambda>(slice, r').
     and_then (ok_or InvalidUtf8 (from_utf8 slice)) (\<lambda>text. Ok (text, r')))"

definition br_skip :: "nat \<Rightarrow> BufReader \<Rightarrow> BufError + BufReader" where
  "br_skip amount r = (if length (br_buf r) < br_pos r + amount then Err ReadPastEnd
     else Ok (r\<lparr>br_pos := br_pos r + amount\<rparr>))"

section \<open>ServerHello\<close>

datatype HelloError =
    HelloRead BufError | FrameTooShort | NotHandshake | UnexpectedRecordVersion | NotServerHello
  | MessageExceedsFrame | LegacyVersionNot33 | HelloRetryRequest | InvalidSessionIdLength
  | ExtensionsExceedHello | InvalidSupportedVersionsLength

definition CONTENT_TYPE_HANDSHAKE :: u8 where "CONTENT_TYPE_HANDSHAKE = 0x16"
definition HANDSHAKE_TYPE_SERVER_HELLO :: u8 where "HANDSHAKE_TYPE_SERVER_HELLO = 0x02"
definition TLS_HEADER_LEN :: nat where "TLS_HEADER_LEN = 5"
definition TLS_EXT_SUPPORTED_VERSIONS :: u16 where "TLS_EXT_SUPPORTED_VERSIONS = 43"
definition RETRY_REQUEST_RANDOM_BYTES :: bytes where
  "RETRY_REQUEST_RANDOM_BYTES =
    [0xcf, 0x21, 0xad, 0x74, 0xe5, 0x9a, 0x61, 0x11, 0xbe, 0x1d, 0x8c, 0x02, 0x1e, 0x65, 0xb8, 0x91,
     0xc2, 0xa2, 0x11, 0x16, 0x7a, 0xbb, 0x8c, 0x5e, 0x07, 0x9e, 0x09, 0xe2, 0xc8, 0xa8, 0x33, 0x9c]"

record ParsedServerHello =
  ph_cipher_suite :: u16
  ph_is_tls13 :: bool

text \<open>The \<open>?\<close> operator on a cursor operation.\<close>

definition hello_try :: "BufError + 'a \<Rightarrow> ('a \<Rightarrow> HelloError + 'b) \<Rightarrow> HelloError + 'b" where
  "hello_try r f = and_then (map_err HelloRead r) f"

lemma hello_try_simps [simp]:
  "hello_try (Inl e) f = Inl (HelloRead e)"
  "hello_try (Inr x) f = f x"
  by (simp_all add: hello_try_def map_err_def)

lemma hello_try_cong [fundef_cong]:
  "r = r' \<Longrightarrow> (\<And>x. r' = Inr x \<Longrightarrow> f x = g x) \<Longrightarrow> hello_try r f = hello_try r' g"
  by (cases r') simp_all

function parse_extensions :: "BufReader \<Rightarrow> bool \<Rightarrow> HelloError + bool" where
  "parse_extensions extensions is_tls13 =
     (if br_is_consumed extensions then Ok is_tls13
      else hello_try (read_u16_be extensions) (\<lambda>(ext_type, r1).
           hello_try (read_u16_be r1) (\<lambda>(ext_len, r2).
             if ext_type = TLS_EXT_SUPPORTED_VERSIONS then
               if ext_len \<noteq> 2 then Err InvalidSupportedVersionsLength
               else hello_try (read_slice 2 r2) (\<lambda>(version, r3). parse_extensions r3 (version = [0x03, 0x04]))
             else hello_try (br_skip (unat ext_len) r2) (\<lambda>r3. parse_extensions r3 is_tls13))))"
  by pat_completeness auto
termination
  by (relation "measure (\<lambda>(r, _). length (br_buf r) - br_pos r)")
    (auto simp: read_u16_be_def read_slice_def br_skip_def split: if_splits)

declare parse_extensions.simps [simp del]

definition parse_hello_extensions :: "BufReader \<Rightarrow> HelloError + bool" where
  "parse_hello_extensions reader =
     (if br_is_consumed reader then Ok False
      else hello_try (read_u16_be reader) (\<lambda>(extensions_len, r).
        if br_remaining r < unat extensions_len then Err ExtensionsExceedHello
        else hello_try (read_slice (unat extensions_len) r) (\<lambda>(slice, _). parse_extensions (BufReader_new slice) False)))"

text \<open>The fields behind the handshake header, from the legacy version on.\<close>

definition parse_hello_fields :: "BufReader \<Rightarrow> HelloError + ParsedServerHello" where
  "parse_hello_fields r =
     hello_try (read_u8 r) (\<lambda>(major, r).
       if major \<noteq> 3 then Err LegacyVersionNot33
       else hello_try (read_u8 r) (\<lambda>(minor, r).
         if minor \<noteq> 3 then Err LegacyVersionNot33
         else hello_try (read_slice 32 r) (\<lambda>(server_random, r).
           if server_random = RETRY_REQUEST_RANDOM_BYTES then Err HelloRetryRequest
           else hello_try (read_u8 r) (\<lambda>(session_id_len, r).
             if 32 < session_id_len then Err InvalidSessionIdLength
             else hello_try (br_skip (unat session_id_len) r) (\<lambda>r.
               hello_try (read_u16_be r) (\<lambda>(cipher_suite, r).
               hello_try (br_skip 1 r) (\<lambda>r.
                 and_then (parse_hello_extensions r) (\<lambda>is_tls13.
                   Ok \<lparr>ph_cipher_suite = cipher_suite, ph_is_tls13 = is_tls13\<rparr>))))))))"

definition parse_server_hello :: "bytes \<Rightarrow> HelloError + ParsedServerHello" where
  "parse_server_hello server_hello_frame =
     (if length server_hello_frame < 47 then Err FrameTooShort
      else if server_hello_frame ! 0 \<noteq> CONTENT_TYPE_HANDSHAKE then Err NotHandshake
      else if server_hello_frame ! 1 \<noteq> 3 \<or> server_hello_frame ! 2 \<noteq> 3 then Err UnexpectedRecordVersion
      else hello_try (read_u8 (BufReader_new (drop TLS_HEADER_LEN server_hello_frame))) (\<lambda>(handshake_type, r).
        if handshake_type \<noteq> HANDSHAKE_TYPE_SERVER_HELLO then Err NotServerHello
        else hello_try (read_u24_be r) (\<lambda>(message_len, r).
          if br_remaining r < unat message_len then Err MessageExceedsFrame
          else parse_hello_fields r)))"

section \<open>Record filter\<close>

definition TLS_HANDSHAKE_TYPE_CLIENT_HELLO :: u8 where "TLS_HANDSHAKE_TYPE_CLIENT_HELLO = 0x01"
definition TLS13_CIPHER_AES_128_CCM_8_SHA256 :: u16 where "TLS13_CIPHER_AES_128_CCM_8_SHA256 = 0x1305"

record VisionFilter =
  vf_record_filter_count :: nat
  vf_is_tls :: bool
  vf_is_tls12_or_above :: bool
  vf_supports_xtls :: bool

definition VisionFilter_new_with_record_count :: "nat \<Rightarrow> VisionFilter" where
  "VisionFilter_new_with_record_count record_count =
     \<lparr>vf_record_filter_count = record_count, vf_is_tls = False, vf_is_tls12_or_above = False,
      vf_supports_xtls = False\<rparr>"

definition VisionFilter_new :: VisionFilter where
  "VisionFilter_new = VisionFilter_new_with_record_count 8"

definition is_filtering :: "VisionFilter \<Rightarrow> bool" where
  "is_filtering f \<longleftrightarrow> 0 < vf_record_filter_count f"

definition decrement_filter_count :: "VisionFilter \<Rightarrow> VisionFilter" where
  "decrement_filter_count f = f\<lparr>vf_record_filter_count := vf_record_filter_count f - 1\<rparr>"

definition stop_filtering :: "VisionFilter \<Rightarrow> VisionFilter" where
  "stop_filtering f = f\<lparr>vf_record_filter_count := 0\<rparr>"

definition is_client_hello_record :: "bytes \<Rightarrow> bool" where
  "is_client_hello_record data \<longleftrightarrow> 6 \<le> length data \<and> data ! 0 = CONTENT_TYPE_HANDSHAKE \<and> data ! 1 = 0x03 \<and>
     data ! 5 = TLS_HANDSHAKE_TYPE_CLIENT_HELLO"

definition is_server_hello_record :: "bytes \<Rightarrow> bool" where
  "is_server_hello_record data \<longleftrightarrow> 6 \<le> length data \<and> data ! 0 = CONTENT_TYPE_HANDSHAKE \<and> data ! 1 = 0x03 \<and>
     data ! 2 = 0x03 \<and> data ! 5 = HANDSHAKE_TYPE_SERVER_HELLO"

definition filter_server_hello :: "bytes \<Rightarrow> VisionFilter \<Rightarrow> VisionFilter" where
  "filter_server_hello data f =
     (let f1 = f\<lparr>vf_is_tls12_or_above := True, vf_is_tls := True\<rparr> in
      case parse_server_hello data of
        Inr parsed \<Rightarrow>
          if ph_is_tls13 parsed then
            stop_filtering (if ph_cipher_suite parsed = TLS13_CIPHER_AES_128_CCM_8_SHA256 then f1
                            else f1\<lparr>vf_supports_xtls := True\<rparr>)
          else f1
      | Inl e \<Rightarrow> stop_filtering f1)"

definition filter_record :: "bytes \<Rightarrow> VisionFilter \<Rightarrow> VisionFilter" where
  "filter_record data f =
     (if vf_record_filter_count f = 0 then f
      else let f1 = decrement_filter_count f in
        if length data < 5 then stop_filtering f1
        else let f2 = (if \<not> vf_is_tls f1 \<and> is_client_hello_record data then f1\<lparr>vf_is_tls := True\<rparr> else f1) in
          if \<not> vf_is_tls12_or_above f2 \<and> is_server_hello_record data then filter_server_hello data f2 else f2)"

section \<open>The verdict of the filter\<close>

lemmas filter_defs = filter_record_def filter_server_hello_def stop_filtering_def decrement_filter_count_def Let_def

lemma filter_count_le: "vf_record_filter_count (filter_record r f) \<le> vf_record_filter_count f - 1"
  by (auto simp: filter_defs split: sum.splits)

lemma filter_idle: "\<not> is_filtering f \<Longrightarrow> fold filter_record rs f = f"
  by (induction rs) (simp_all add: filter_record_def is_filtering_def)

lemma filter_fold_count: "vf_record_filter_count (fold filter_record rs f) \<le> vf_record_filter_count f - length rs"
proof (induction rs arbitrary: f)
  case (Cons r rs)
  from Cons.IH [of "filter_record r f"] filter_count_le [of r f] show ?case by simp
qed simp

text \<open>The first ServerHello among the first \<open>n\<close> records, if no record before it is too short.\<close>

fun first_server_hello :: "nat \<Rightarrow> bytes list \<Rightarrow> bytes option" where
  "first_server_hello n [] = None"
| "first_server_hello 0 rs = None"
| "first_server_hello (Suc n) (r # rs) =
     (if length r < 5 then None else if is_server_hello_record r then Some r else first_server_hello n rs)"

definition allows_direct_copy :: "bytes \<Rightarrow> bool" where
  "allows_direct_copy r =
     (case parse_server_hello r of
        Inl _ \<Rightarrow> False
      | Inr h \<Rightarrow> ph_is_tls13 h \<and> ph_cipher_suite h \<noteq> TLS13_CIPHER_AES_128_CCM_8_SHA256)"

lemma filter_settled:
  assumes "vf_is_tls12_or_above f"
  shows "vf_supports_xtls (fold filter_record rs f) = vf_supports_xtls f \<and> vf_is_tls12_or_above (fold filter_record rs f)"
  using assms by (induction rs arbitrary: f) (simp_all add: filter_defs)

lemma filter_server_hello_flags [simp]:
  "vf_is_tls12_or_above (filter_server_hello r f)"
  "vf_supports_xtls (filter_server_hello r f) \<longleftrightarrow> vf_supports_xtls f \<or> allows_direct_copy r"
  by (auto simp: filter_server_hello_def stop_filtering_def allows_direct_copy_def Let_def split: sum.splits)

lemma filter_record_cases:
  assumes "\<not> vf_is_tls12_or_above f" "\<not> vf_supports_xtls f" "vf_record_filter_count f = Suc n"
  obtains (short) "length r < 5" "\<not> is_filtering (filter_record r f)"
      "\<not> vf_is_tls12_or_above (filter_record r f)" "\<not> vf_supports_xtls (filter_record r f)"
    | (hello) "5 \<le> length r" "is_server_hello_record r" "vf_is_tls12_or_above (filter_record r f)"
      "vf_supports_xtls (filter_record r f) \<longleftrightarrow> allows_direct_copy r"
    | (other) "5 \<le> length r" "\<not> is_server_hello_record r" "\<not> vf_is_tls12_or_above (filter_record r f)"
      "\<not> vf_supports_xtls (filter_record r f)" "vf_record_filter_count (filter_record r f) = n"
proof (cases "length r < 5")
  case True
  with assms short show ?thesis by (simp add: filter_defs is_filtering_def)
next
  case False
  note long = this
  show ?thesis
  proof (cases "is_server_hello_record r")
    case True
    with assms long show ?thesis
      by (intro hello) (simp_all add: filter_record_def decrement_filter_count_def Let_def)
  next
    case False
    with assms long show ?thesis
      by (intro other) (simp_all add: filter_record_def decrement_filter_count_def Let_def)
  qed
qed

lemma filter_fold_verdict:
  assumes "\<not> vf_is_tls12_or_above f" "\<not> vf_supports_xtls f" "vf_record_filter_count f = n"
  shows "(vf_is_tls12_or_above (fold filter_record rs f) \<longleftrightarrow> first_server_hello n rs \<noteq> None) \<and>
    (vf_supports_xtls (fold filter_record rs f) \<longleftrightarrow>
      (case first_server_hello n rs of None \<Rightarrow> False | Some r \<Rightarrow> allows_direct_copy r))"
  using assms
proof (induction n rs arbitrary: f rule: first_server_hello.induct)
  case (2 v vs)
  then show ?case using filter_idle [of f "v # vs"] by (simp add: is_filtering_def)
next
  case (3 n r rs)
  from 3(2,3,4) show ?case
  proof (cases rule: filter_record_cases [of f n r])
    case short
    then show ?thesis by (simp add: filter_idle)
  next
    case hello
    then show ?thesis by (simp add: filter_settled)
  next
    case other
    then show ?thesis using 3(1) [of "filter_record r f"] by simp
  qed
qed simp

text \<open>
  The filter looks at eight records at most: once eight records were given it has stopped, and no
  later record changes its state.
\<close>

theorem filter_stops:
  assumes "8 \<le> length rs"
  shows "\<not> is_filtering (fold filter_record rs VisionFilter_new) \<and>
    fold filter_record (rs @ more_rs) VisionFilter_new = fold filter_record rs VisionFilter_new"
proof -
  have "\<not> is_filtering (fold filter_record rs VisionFilter_new)"
    using filter_fold_count [of rs VisionFilter_new] assms
    by (simp add: is_filtering_def VisionFilter_new_def VisionFilter_new_with_record_count_def)
  then show ?thesis by (simp add: filter_idle)
qed

theorem filter_stops_witness:
  "\<not> is_filtering (fold filter_record (replicate 8 [22, 3, 1, 0, 1]) VisionFilter_new)"
  using filter_stops [of "replicate 8 [22, 3, 1, 0, 1]"] by simp

text \<open>
  C29: the filter allows direct copy exactly when the first ServerHello among the first eight records,
  with no record before it shorter than a record header, is one of TLS 1.3 whose cipher suite is not
  \<open>TLS_AES_128_CCM_8_SHA256\<close>; and it reports TLS 1.2 or above exactly when there is such a ServerHello.
\<close>

theorem filter_verdict:
  "(vf_is_tls12_or_above (fold filter_record rs VisionFilter_new) \<longleftrightarrow> first_server_hello 8 rs \<noteq> None) \<and>
   (vf_supports_xtls (fold filter_record rs VisionFilter_new) \<longleftrightarrow>
      (case first_server_hello 8 rs of None \<Rightarrow> False | Some r \<Rightarrow> allows_direct_copy r))"
  by (rule filter_fold_verdict) (simp_all add: VisionFilter_new_def VisionFilter_new_with_record_count_def)

section \<open>Encoded ServerHello records are parsed\<close>

text \<open>A cursor in front of \<open>ys\<close>.\<close>

definition reader_at :: "BufReader \<Rightarrow> bytes \<Rightarrow> bool" where
  "reader_at r ys \<longleftrightarrow> (\<exists>xs. br_buf r = xs @ ys \<and> br_pos r = length xs)"

abbreviation advanced :: "nat \<Rightarrow> BufReader \<Rightarrow> BufReader" where
  "advanced n r \<equiv> r\<lparr>br_pos := br_pos r + n\<rparr>"

lemma reader_at_new [simp]: "reader_at (BufReader_new buf) buf"
  by (simp add: reader_at_def BufReader_new_def)

lemma reader_at_state:
  assumes "reader_at r ys"
  shows "br_is_consumed r \<longleftrightarrow> ys = []" "br_remaining r = length ys"
  using assms by (auto simp: reader_at_def br_is_consumed_def br_remaining_def)

lemma reader_at_advanced: "reader_at r (xs @ ys) \<Longrightarrow> n = length xs \<Longrightarrow> reader_at (advanced n r) ys"
  by (auto simp: reader_at_def intro: exI [of _ "_ @ _"])

lemma read_at:
  "reader_at r (a # ys) \<Longrightarrow> read_u8 r = Ok (a, advanced 1 r)"
  "reader_at r (a # b # ys) \<Longrightarrow> read_u16_be r = Ok (u16_from_be a b, advanced 2 r)"
  "reader_at r (a # b # c # ys) \<Longrightarrow> read_u24_be r = Ok (u24_from_be a b c, advanced 3 r)"
  by (auto simp: reader_at_def read_u8_def read_u16_be_def read_u24_be_def nth_append)

lemma slice_at:
  assumes "reader_at r (xs @ ys)" "n = length xs"
  shows "read_slice n r = Ok (xs, advanced n r)" "br_skip n r = Ok (advanced n r)"
  using assms by (auto simp: reader_at_def read_slice_def br_skip_def)

lemma step_u8:
  assumes "reader_at r (a # ys)"
  obtains r' where "read_u8 r = Ok (a, r')" "reader_at r' ys"
  using assms read_at(1) [OF assms] reader_at_advanced [of r "[a]" ys 1] by simp

lemma step_slice:
  assumes "reader_at r (xs @ ys)"
  obtains r' where "read_slice (length xs) r = Ok (xs, r')" "br_skip (length xs) r = Ok r'" "reader_at r' ys"
  using slice_at [OF assms refl] reader_at_advanced [OF assms refl] by simp

lemma cursor_at_u16:
  assumes "reader_at r (u16_to_be w @ ys)"
  shows "read_u16_be r = Ok (w, advanced 2 r)" "reader_at (advanced 2 r) ys"
  using assms read_at(2) [of r _ _ ys] reader_at_advanced [OF assms]
  by (auto simp: u16_to_be_def u16_be_roundtrip [of w])

lemma step_u16:
  assumes "reader_at r (u16_to_be w @ ys)"
  obtains r' where "read_u16_be r = Ok (w, r')" "reader_at r' ys"
  using cursor_at_u16 [OF assms] by simp

definition encode_extension :: "u16 \<times> bytes \<Rightarrow> bytes" where
  "encode_extension e = u16_to_be (fst e) @ u16_to_be (of_nat (length (snd e))) @ snd e"

definition offers_tls13 :: "(u16 \<times> bytes) list \<Rightarrow> bool \<Rightarrow> bool" where
  "offers_tls13 es v = fold (\<lambda>(t, body) v. if t = TLS_EXT_SUPPORTED_VERSIONS then body = [0x03, 0x04] else v) es v"

definition extension_ok :: "u16 \<times> bytes \<Rightarrow> bool" where
  "extension_ok e \<longleftrightarrow> length (snd e) < 65536 \<and> (fst e = TLS_EXT_SUPPORTED_VERSIONS \<longrightarrow> length (snd e) = 2)"

lemma extension_pair:
  "encode_extension (t, body) = u16_to_be t @ u16_to_be (of_nat (length body)) @ body"
  "extension_ok (t, body) \<longleftrightarrow> length body < 65536 \<and> (t = TLS_EXT_SUPPORTED_VERSIONS \<longrightarrow> length body = 2)"
  by (simp_all add: encode_extension_def extension_ok_def)

lemma parse_extensions_encoded:
  assumes "reader_at r (concat (map encode_extension es))" "list_all extension_ok es"
  shows "parse_extensions r v = Ok (offers_tls13 es v)"
  using assms
proof (induction es arbitrary: r v)
  case Nil
  then show ?case by (subst parse_extensions.simps) (simp add: reader_at_state offers_tls13_def)
next
  case (Cons e es)
  obtain t body where e: "e = (t, body)" by (cases e)
  let ?rest = "concat (map encode_extension es)" and ?n = "of_nat (length body) :: u16"
  from Cons.prems have 0: "reader_at r (u16_to_be t @ u16_to_be ?n @ body @ ?rest)"
    and body: "length body < 65536" "t = TLS_EXT_SUPPORTED_VERSIONS \<Longrightarrow> length body = 2"
    by (simp_all add: e extension_pair)
  note 1 = cursor_at_u16 [OF 0]
  note 2 = cursor_at_u16 [OF 1(2)]
  note 3 = slice_at [OF 2(2) refl] reader_at_advanced [OF 2(2) refl]
  have "\<not> br_is_consumed r" using reader_at_state(1) [OF 0] by (simp add: u16_to_be_def)
  then show ?case
    using 1(1) 2(1) 3 Cons.IH [OF 3(3)] Cons.prems(2) body
    by (subst parse_extensions.simps) (auto simp: e offers_tls13_def unat_of_nat_u16)
qed

text \<open>A ServerHello record as RFC 8446 lays it out.\<close>

record ServerHello =
  sh_random :: bytes
  sh_session_id :: bytes
  sh_cipher_suite :: u16
  sh_compression :: u8
  sh_extensions :: "(u16 \<times> bytes) list"

definition u24_to_be :: "nat \<Rightarrow> bytes" where
  "u24_to_be n = [of_nat (n div 65536), of_nat (n div 256 mod 256), of_nat (n mod 256)]"

definition encode_hello_body :: "ServerHello \<Rightarrow> bytes" where
  "encode_hello_body h = [3, 3] @ sh_random h @ [of_nat (length (sh_session_id h))] @ sh_session_id h @
     u16_to_be (sh_cipher_suite h) @ [sh_compression h] @
     (let es = concat (map encode_extension (sh_extensions h)) in
      if sh_extensions h = [] then [] else u16_to_be (of_nat (length es)) @ es)"

definition encode_hello_record :: "ServerHello \<Rightarrow> bytes" where
  "encode_hello_record h =
     (let body = encode_hello_body h; message = [2] @ u24_to_be (length body) @ body
      in [0x16, 3, 3] @ u16_to_be (of_nat (length message)) @ message)"

definition server_hello_ok :: "ServerHello \<Rightarrow> bool" where
  "server_hello_ok h \<longleftrightarrow> length (sh_random h) = 32 \<and> sh_random h \<noteq> RETRY_REQUEST_RANDOM_BYTES \<and>
     length (sh_session_id h) \<le> 32 \<and> list_all extension_ok (sh_extensions h) \<and>
     length (concat (map encode_extension (sh_extensions h))) < 65536"

lemma parse_hello_extensions_encoded:
  assumes "reader_at r (if es = [] then [] else u16_to_be (of_nat (length (concat (map encode_extension es)))) @
      concat (map encode_extension es))"
    and "list_all extension_ok es" "length (concat (map encode_extension es)) < 65536"
  shows "parse_hello_extensions r = Ok (offers_tls13 es False)"
proof (cases "es = []")
  case True
  with assms(1) show ?thesis by (simp add: parse_hello_extensions_def reader_at_state offers_tls13_def)
next
  case False
  let ?x = "concat (map encode_extension es)"
  from False assms(1) have 0: "reader_at r (u16_to_be (of_nat (length ?x)) @ ?x)" by simp
  note 1 = cursor_at_u16 [OF this]
  then have 2: "reader_at (advanced 2 r) (?x @ [])" by simp
  have n: "unat (of_nat (length ?x) :: u16) = length ?x" using assms(3) by (rule unat_of_nat_u16)
  have "\<not> br_is_consumed r" using reader_at_state(1) [OF 0] by (simp add: u16_to_be_def)
  then show ?thesis
    using 1(1) reader_at_state(2) [OF 1(2)] slice_at(1) [OF 2 refl] assms(2)
    by (simp add: parse_hello_extensions_def n parse_extensions_encoded del: length_concat)
qed

lemma parse_hello_fields_encoded:
  assumes "server_hello_ok h" "reader_at r (encode_hello_body h)"
  shows "parse_hello_fields r =
    Ok \<lparr>ph_cipher_suite = sh_cipher_suite h, ph_is_tls13 = offers_tls13 (sh_extensions h) False\<rparr>"
proof -
  let ?es = "concat (map encode_extension (sh_extensions h))"
  define tail where "tail = (if sh_extensions h = [] then [] else u16_to_be (of_nat (length ?es)) @ ?es)"
  define rest where "rest = of_nat (length (sh_session_id h)) # sh_session_id h @
      u16_to_be (sh_cipher_suite h) @ sh_compression h # tail"
  have ok: "length (sh_random h) = 32" "sh_random h \<noteq> RETRY_REQUEST_RANDOM_BYTES" "length (sh_session_id h) \<le> 32"
    "list_all extension_ok (sh_extensions h)" "length ?es < 65536"
    using assms(1) by (simp_all add: server_hello_ok_def)
  have sid: "unat (of_nat (length (sh_session_id h)) :: u8) = length (sh_session_id h)"
    "\<not> 32 < (of_nat (length (sh_session_id h)) :: u8)"
    using ok(3) by (simp_all add: unat_of_nat take_bit_eq_mod word_less_nat_alt)
  have "reader_at r (3 # 3 # sh_random h @ rest)"
    using assms(2) by (simp add: encode_hello_body_def tail_def rest_def Let_def)
  then obtain r3 where 3: "read_u8 r = Ok (3, r3)" "reader_at r3 (3 # sh_random h @ rest)"
    by (rule step_u8)
  obtain r4 where 4: "read_u8 r3 = Ok (3, r4)" "reader_at r4 (sh_random h @ rest)"
    using 3(2) by (rule step_u8)
  obtain r5 where 5: "read_slice 32 r4 = Ok (sh_random h, r5)" "reader_at r5 rest"
    using 4(2) by (rule step_slice) (simp add: ok(1))
  obtain r6 where 6: "read_u8 r5 = Ok (of_nat (length (sh_session_id h)), r6)"
      "reader_at r6 (sh_session_id h @ u16_to_be (sh_cipher_suite h) @ sh_compression h # tail)"
    using 5(2) unfolding rest_def by (rule step_u8)
  obtain r7 where 7: "br_skip (length (sh_session_id h)) r6 = Ok r7"
      "reader_at r7 (u16_to_be (sh_cipher_suite h) @ sh_compression h # tail)"
    using 6(2) by (rule step_slice)
  obtain r8 where 8: "read_u16_be r7 = Ok (sh_cipher_suite h, r8)" "reader_at r8 ([sh_compression h] @ tail)"
    using 7(2) by (rule step_u16) simp
  obtain r9 where 9: "br_skip 1 r8 = Ok r9" "reader_at r9 tail"
    using 8(2) by (rule step_slice) simp
  have "parse_hello_extensions r9 = Ok (offers_tls13 (sh_extensions h) False)"
    using parse_hello_extensions_encoded [of r9 "sh_extensions h"] 9(2) ok(4,5) by (simp add: tail_def)
  then show ?thesis
    using 3(1) 4(1) 5(1) 6(1) 7(1) 8(1) 9(1) ok(2) sid by (simp add: parse_hello_fields_def)
qed

lemma u24_digits: "n div 65536 * 65536 + n div 256 mod 256 * 256 + n mod 256 = (n :: nat)"
proof -
  have "n div 65536 * 65536 + n div 256 mod 256 * 256 = (n div 256 div 256 * 256 + n div 256 mod 256) * 256"
    by (simp add: div_mult2_eq [symmetric] algebra_simps)
  then show ?thesis by simp
qed

lemma u24_roundtrip:
  assumes "n < 16777216"
  shows "unat (u24_from_be (of_nat (n div 65536)) (of_nat (n div 256 mod 256)) (of_nat (n mod 256))) = n"
proof -
  have "n div 65536 < 256" using assms by (simp add: less_mult_imp_div_less)
  then show ?thesis
    using u24_digits [of n] assms
    by (simp add: u24_from_be_def unat_of_nat take_bit_eq_mod del: of_nat_mult of_nat_add)
qed

lemma length_encode_hello_body:
  assumes "server_hello_ok h"
  shows "38 \<le> length (encode_hello_body h)" "length (encode_hello_body h) < 16777216"
  using assms by (simp_all add: server_hello_ok_def encode_hello_body_def Let_def)

text \<open>
  C27: \<open>parse_server_hello\<close> accepts every ServerHello record laid out by the standard, except a
  HelloRetryRequest, and returns its cipher suite and whether its last supported-versions extension
  selects TLS 1.3, whatever the session id and the other extensions are.
\<close>

theorem server_hello_roundtrip:
  assumes "server_hello_ok h"
  shows "parse_server_hello (encode_hello_record h) =
    Ok \<lparr>ph_cipher_suite = sh_cipher_suite h, ph_is_tls13 = offers_tls13 (sh_extensions h) False\<rparr>"
proof -
  let ?body = "encode_hello_body h" and ?m = "u24_to_be (length (encode_hello_body h)) @ encode_hello_body h"
  note len = length_encode_hello_body [OF assms]
  obtain l1 l2 where l: "u16_to_be (of_nat (length (2 # ?m))) = [l1, l2]" by (metis u16_to_be_def)
  have frame: "encode_hello_record h = 0x16 # 3 # 3 # l1 # l2 # 2 # ?m"
    using l by (simp add: encode_hello_record_def Let_def)
  define r0 where "r0 = BufReader_new (2 # ?m)"
  have "reader_at r0 (2 # ?m)" by (simp add: r0_def)
  then obtain r1 where 1: "read_u8 r0 = Ok (2, r1)" "reader_at r1 ?m" by (rule step_u8)
  obtain n r2 where 2: "read_u24_be r1 = Ok (n, r2)" "unat n = length ?body" "reader_at r2 ?body"
    using read_at(3) [OF 1(2) [unfolded u24_to_be_def, simplified]] reader_at_advanced [OF 1(2), of 3]
      u24_roundtrip [OF len(2)] by (auto simp: u24_to_be_def)
  have "47 \<le> length (encode_hello_record h)" using len(1) by (simp add: frame u24_to_be_def)
  then show ?thesis
    using 1(1) 2(1,2) parse_hello_fields_encoded [OF assms 2(3)] reader_at_state(2) [OF 2(3)]
    by (simp add: parse_server_hello_def frame r0_def [symmetric] TLS_HEADER_LEN_def
        CONTENT_TYPE_HANDSHAKE_def HANDSHAKE_TYPE_SERVER_HELLO_def)
qed

theorem server_hello_roundtrip_witness:
  "parse_server_hello (encode_hello_record \<lparr>sh_random = replicate 32 7, sh_session_id = [1, 2],
      sh_cipher_suite = 0x1301, sh_compression = 0, sh_extensions = [(51, [9]), (43, [3, 4])]\<rparr>) =
    Ok \<lparr>ph_cipher_suite = 0x1301, ph_is_tls13 = True\<rparr>"
proof -
  let ?h = "\<lparr>sh_random = replicate 32 7, sh_session_id = [1, 2],
      sh_cipher_suite = 0x1301, sh_compression = 0, sh_extensions = [(51, [9]), (43, [3, 4])]\<rparr>"
  have "server_hello_ok ?h" by code_simp
  moreover have "offers_tls13 (sh_extensions ?h) False" by code_simp
  ultimately show ?thesis using server_hello_roundtrip [of ?h] by simp
qed

end
