(* ===== verification/Slide_Buffer.thy ===== *)
theory Slide_Buffer
  imports Rust_Prelude
begin

text \<open>
  The fixed-capacity byte buffer of the REALITY connection, \<open>prototype/vless/src/slide_buffer.rs\<close>: storage
  that never grows, a start and an end offset, and compaction that moves the readable bytes to the front.
  A write that does not fit panics (\<open>None\<close>): the slice index is out of range. The \<open>debug_assert!\<close>s are
  left out, so \<open>consume\<close> past the end empties the buffer as it does in a release build.

  The locale \<open>byte_queue\<close> is the contract the connection relies on: a first-in first-out queue of bytes
  whose contents no compaction changes. It is interpreted on the buffer below.
\<close>

section \<open>Operations\<close>

record SlideBuffer =
  sb_data :: bytes
  sb_start :: nat
  sb_end :: nat

definition SlideBuffer_new :: "nat \<Rightarrow> SlideBuffer" where
  "SlideBuffer_new capacity = \<lparr>sb_data = replicate capacity 0, sb_start = 0, sb_end = 0\<rparr>"

definition sb_len :: "SlideBuffer \<Rightarrow> nat" where "sb_len b = sb_end b - sb_start b"

definition sb_is_empty :: "SlideBuffer \<Rightarrow> bool" where "sb_is_empty b \<longleftrightarrow> sb_end b \<le> sb_start b"

definition remaining_capacity :: "SlideBuffer \<Rightarrow> nat" where
  "remaining_capacity b = length (sb_data b) - sb_end b"

definition sb_slice :: "SlideBuffer \<Rightarrow> nat \<Rightarrow> nat \<Rightarrow> bytes" where
  "sb_slice b from until = take (until - from) (drop (sb_start b + from) (sb_data b))"

definition as_slice :: "SlideBuffer \<Rightarrow> bytes" where
  "as_slice b = take (sb_end b - sb_start b) (drop (sb_start b) (sb_data b))"

definition extend_from_slice :: "bytes \<Rightarrow> SlideBuffer \<Rightarrow> SlideBuffer option" where
  "extend_from_slice xs b =
     (if length (sb_data b) < sb_end b + length xs then None
      else Some (b\<lparr>sb_data := take (sb_end b) (sb_data b) @ xs @ drop (sb_end b + length xs) (sb_data b),
                   sb_end := sb_end b + length xs\<rparr>))"

text \<open>\<open>write_slice\<close> followed by \<open>advance_write n\<close>: a caller fills the writable part and marks \<open>n\<close> bytes.\<close>

definition write_slice :: "SlideBuffer \<Rightarrow> bytes" where
  "write_slice b = drop (sb_end b) (sb_data b)"

definition advance_write :: "nat \<Rightarrow> SlideBuffer \<Rightarrow> SlideBuffer" where
  "advance_write n b = b\<lparr>sb_end := sb_end b + n\<rparr>"

definition consume :: "nat \<Rightarrow> SlideBuffer \<Rightarrow> SlideBuffer" where
  "consume n b =
     (let b' = b\<lparr>sb_start := sb_start b + n\<rparr> in
      if sb_end b' \<le> sb_start b' then b'\<lparr>sb_start := 0, sb_end := 0\<rparr> else b')"

text \<open>\<open>copy_within(start..end, 0)\<close>.\<close>

definition compact :: "SlideBuffer \<Rightarrow> SlideBuffer" where
  "compact b =
     (if 0 < sb_start b \<and> sb_start b < sb_end b then
        let n = sb_end b - sb_start b in
        b\<lparr>sb_data := take n (drop (sb_start b) (sb_data b)) @ drop n (sb_data b), sb_end := n, sb_start := 0\<rparr>
      else if sb_end b \<le> sb_start b then b\<lparr>sb_start := 0, sb_end := 0\<rparr> else b)"

definition maybe_compact :: "nat \<Rightarrow> SlideBuffer \<Rightarrow> SlideBuffer" where
  "maybe_compact threshold b = (if threshold < sb_start b then compact b else b)"

definition get_u16_be :: "nat \<Rightarrow> SlideBuffer \<Rightarrow> u16 option" where
  "get_u16_be offset b =
     (if offset + 2 \<le> sb_len b then
        Some (u16_from_be (sb_data b ! (sb_start b + offset)) (sb_data b ! (sb_start b + offset + 1)))
      else None)"

definition sb_index :: "SlideBuffer \<Rightarrow> nat \<Rightarrow> u8" where
  "sb_index b i = sb_data b ! (sb_start b + i)"

text \<open>Writing \<open>xs\<close> through \<open>slice_mut(from..from + len)\<close>.\<close>

definition slice_write :: "nat \<Rightarrow> bytes \<Rightarrow> SlideBuffer \<Rightarrow> SlideBuffer" where
  "slice_write from xs b =
     (let at = sb_start b + from in b\<lparr>sb_data := take at (sb_data b) @ xs @ drop (at + length xs) (sb_data b)\<rparr>)"

text \<open>\<open>Read::read\<close> into a buffer of \<open>n\<close> bytes.\<close>

definition sb_read :: "nat \<Rightarrow> SlideBuffer \<Rightarrow> bytes \<times> SlideBuffer" where
  "sb_read n b =
     (if sb_len b = 0 then ([], b)
      else let to_read = min n (sb_len b) in (sb_slice b 0 to_read, consume to_read b))"

section \<open>The buffer as a queue\<close>

definition sb_ok :: "SlideBuffer \<Rightarrow> bool" where
  "sb_ok b \<longleftrightarrow> sb_start b \<le> sb_end b \<and> sb_end b \<le> length (sb_data b)"

locale byte_queue =
  fixes ok :: "'q \<Rightarrow> bool"
    and contents :: "'q \<Rightarrow> 'a list"
    and capacity :: "'q \<Rightarrow> nat"
    and room :: "'q \<Rightarrow> nat"
    and push :: "'a list \<Rightarrow> 'q \<Rightarrow> 'q option"
    and pop :: "nat \<Rightarrow> 'q \<Rightarrow> 'q"
    and tidy :: "'q \<Rightarrow> 'q"
  assumes push_ok: "ok q \<Longrightarrow> length xs \<le> room q \<Longrightarrow>
      \<exists>q'. push xs q = Some q' \<and> ok q' \<and> contents q' = contents q @ xs \<and> capacity q' = capacity q"
    and push_full: "ok q \<Longrightarrow> room q < length xs \<Longrightarrow> push xs q = None"
    and pop_ok: "ok q \<Longrightarrow> ok (pop n q) \<and> contents (pop n q) = drop n (contents q) \<and> capacity (pop n q) = capacity q"
    and tidy_ok: "ok q \<Longrightarrow> ok (tidy q) \<and> contents (tidy q) = contents q \<and> capacity (tidy q) = capacity q"
    and tidy_room: "ok q \<Longrightarrow> room (tidy q) = capacity q - length (contents q)"
    and room_le: "ok q \<Longrightarrow> room q \<le> capacity q - length (contents q)"
    and empty_room: "ok q \<Longrightarrow> length (contents q) \<le> n \<Longrightarrow> room (pop n q) = capacity q"
begin

text \<open>A client compacts before it writes; then only a really full queue refuses.\<close>

definition tidy_push :: "'a list \<Rightarrow> 'q \<Rightarrow> 'q option" where
  "tidy_push xs q = push xs (tidy q)"

lemma tidy_push_fits:
  assumes "ok q" "length (contents q) + length xs \<le> capacity q"
  shows "\<exists>q'. tidy_push xs q = Some q' \<and> ok q' \<and> contents q' = contents q @ xs \<and> capacity q' = capacity q"
  using push_ok [of "tidy q" xs] tidy_ok [OF assms(1)] tidy_room [OF assms(1)] assms
  by (simp add: tidy_push_def)

lemma push_Some:
  assumes "ok q" "push xs q = Some q'"
  shows "ok q'" "contents q' = contents q @ xs" "capacity q' = capacity q"
  using push_ok [OF assms(1), of xs] push_full [OF assms(1), of xs] assms(2)
  by (cases "length xs \<le> room q"; auto)+

lemma drained_push:
  assumes "ok q" "length (contents q) \<le> n" "length xs \<le> capacity q"
  shows "\<exists>q'. push xs (pop n q) = Some q' \<and> ok q' \<and> contents q' = xs"
  using push_ok [of "pop n q" xs] pop_ok [OF assms(1), of n] empty_room [OF assms(1,2)] assms(2,3) by auto

end

lemma length_as_slice: "sb_ok b \<Longrightarrow> length (as_slice b) = sb_len b"
  by (auto simp: sb_ok_def as_slice_def sb_len_def)

lemma as_slice_extend:
  assumes "sb_ok b" "extend_from_slice xs b = Some b'"
  shows "sb_ok b' \<and> as_slice b' = as_slice b @ xs \<and> length (sb_data b') = length (sb_data b)"
  using assms by (auto simp: sb_ok_def extend_from_slice_def as_slice_def drop_take split: if_splits)

lemma as_slice_consume: "sb_ok b \<Longrightarrow> as_slice (consume n b) = drop n (as_slice b)"
  by (auto simp: sb_ok_def consume_def as_slice_def Let_def drop_take add.commute)

lemma as_slice_compact:
  assumes "sb_ok b"
  shows "sb_ok (compact b)" "as_slice (compact b) = as_slice b" "length (sb_data (compact b)) = length (sb_data b)"
    "sb_end (compact b) = sb_len b" "sb_start (compact b) = 0 \<or> compact b = b"
  using assms by (auto simp: sb_ok_def compact_def as_slice_def sb_len_def Let_def)

interpretation sb: byte_queue sb_ok as_slice "\<lambda>b. length (sb_data b)" remaining_capacity extend_from_slice consume compact
proof (unfold_locales, goal_cases)
  case (1 b xs)
  then have "extend_from_slice xs b \<noteq> None" by (auto simp: remaining_capacity_def extend_from_slice_def sb_ok_def)
  with as_slice_extend [OF 1(1)] show ?case by auto
next
  case (2 b xs)
  then show ?case by (auto simp: remaining_capacity_def extend_from_slice_def sb_ok_def)
next
  case (3 b n)
  then show ?case by (auto simp: as_slice_consume) (auto simp: consume_def sb_ok_def Let_def)
next
  case (4 b)
  then show ?case by (simp add: as_slice_compact)
next
  case (5 b)
  then show ?case by (simp add: remaining_capacity_def as_slice_compact length_as_slice)
next
  case (6 b)
  then show ?case by (auto simp: remaining_capacity_def length_as_slice sb_len_def sb_ok_def)
next
  case (7 b n)
  then show ?case by (auto simp: remaining_capacity_def length_as_slice sb_len_def sb_ok_def consume_def Let_def)
qed

text \<open>Reads and indices see the queue.\<close>

lemma sb_slice_as_slice: "sb_ok b \<Longrightarrow> i \<le> j \<Longrightarrow> j \<le> sb_len b \<Longrightarrow> sb_slice b i j = take (j - i) (drop i (as_slice b))"
  by (simp add: sb_slice_def as_slice_def sb_len_def drop_take add.commute)

lemma sb_index_as_slice: "sb_ok b \<Longrightarrow> i < sb_len b \<Longrightarrow> sb_index b i = as_slice b ! i"
  by (simp add: sb_index_def as_slice_def sb_len_def sb_ok_def)

lemma get_u16_be_as_slice:
  assumes "sb_ok b"
  shows "get_u16_be i b =
    (if i + 2 \<le> length (as_slice b) then Some (u16_from_be (as_slice b ! i) (as_slice b ! (i + 1))) else None)"
  using assms by (auto simp: get_u16_be_def length_as_slice) (simp_all add: as_slice_def sb_len_def sb_ok_def add.assoc)

lemma sb_read_as_slice: "sb_ok b \<Longrightarrow> fst (sb_read n b) = take n (as_slice b) \<and> as_slice (snd (sb_read n b)) = drop n (as_slice b)"
  using length_as_slice [of b]
  by (auto simp: sb_read_def Let_def sb_slice_as_slice as_slice_consume min_def)

lemma maybe_compact_ok:
  "sb_ok b \<Longrightarrow> sb_ok (maybe_compact t b) \<and> as_slice (maybe_compact t b) = as_slice b \<and>
    length (sb_data (maybe_compact t b)) = length (sb_data b)"
  by (simp add: maybe_compact_def as_slice_compact)

section \<open>Sequences of operations\<close>

datatype buffer_op = Extend bytes | Consume nat | Compact | MaybeCompact nat | ReadInto nat

fun buffer_step :: "buffer_op \<Rightarrow> SlideBuffer \<Rightarrow> (bytes \<times> SlideBuffer) option" where
  "buffer_step (Extend xs) b = map_option (Pair []) (extend_from_slice xs b)"
| "buffer_step (Consume n) b = Some ([], consume n b)"
| "buffer_step Compact b = Some ([], compact b)"
| "buffer_step (MaybeCompact t) b = Some ([], maybe_compact t b)"
| "buffer_step (ReadInto n) b = Some (sb_read n b)"

fun queue_step :: "buffer_op \<Rightarrow> bytes \<Rightarrow> bytes \<times> bytes" where
  "queue_step (Extend xs) q = ([], q @ xs)"
| "queue_step (Consume n) q = ([], drop n q)"
| "queue_step (ReadInto n) q = (take n q, drop n q)"
| "queue_step _ q = ([], q)"

fun buffer_run :: "buffer_op list \<Rightarrow> SlideBuffer \<Rightarrow> (bytes list \<times> SlideBuffer) option" where
  "buffer_run [] b = Some ([], b)"
| "buffer_run (x # xs) b =
     (case buffer_step x b of None \<Rightarrow> None
      | Some (out, b') \<Rightarrow> map_option (\<lambda>(outs, b''). (out # outs, b'')) (buffer_run xs b'))"

fun queue_run :: "buffer_op list \<Rightarrow> bytes \<Rightarrow> bytes list \<times> bytes" where
  "queue_run [] q = ([], q)"
| "queue_run (x # xs) q =
     (let (out, q') = queue_step x q; (outs, q'') = queue_run xs q' in (out # outs, q''))"

lemma buffer_step_refines:
  assumes "sb_ok b" "buffer_step x b = Some (out, b')"
  shows "sb_ok b' \<and> queue_step x (as_slice b) = (out, as_slice b') \<and> length (sb_data b') = length (sb_data b)"
proof (cases x)
  case (Extend xs)
  with assms as_slice_extend [OF assms(1)] show ?thesis by auto
next
  case (Consume n)
  with assms sb.pop_ok [OF assms(1), of n] show ?thesis by auto
next
  case Compact
  with assms show ?thesis by (auto simp: as_slice_compact)
next
  case (MaybeCompact t)
  with assms maybe_compact_ok [OF assms(1), of t] show ?thesis by auto
next
  case (ReadInto n)
  have "snd (sb_read n b) = b \<or> (\<exists>k. snd (sb_read n b) = consume k b)"
    by (auto simp: sb_read_def Let_def)
  then have "sb_ok (snd (sb_read n b)) \<and> length (sb_data (snd (sb_read n b))) = length (sb_data b)"
    using sb.pop_ok [OF assms(1)] assms(1) by auto
  with ReadInto assms sb_read_as_slice [OF assms(1), of n] show ?thesis by auto
qed

lemma buffer_run_refines:
  "sb_ok b \<Longrightarrow> buffer_run xs b = Some (outs, b') \<Longrightarrow>
    sb_ok b' \<and> queue_run xs (as_slice b) = (outs, as_slice b') \<and> length (sb_data b') = length (sb_data b)"
proof (induction xs arbitrary: b outs)
  case (Cons x xs)
  then obtain out b1 outs1 where 1: "buffer_step x b = Some (out, b1)" "buffer_run xs b1 = Some (outs1, b')"
    "outs = out # outs1" by (auto split: option.splits)
  from buffer_step_refines [OF Cons.prems(1) 1(1)] Cons.IH [OF _ 1(2)] 1(3) show ?case by auto
qed simp

text \<open>
  C37: however extensions, reads, consumption and compactions follow each other, a slide buffer that
  does not panic returns exactly the bytes a first-in first-out queue returns, holds the bytes that
  queue holds, and never holds more than its capacity.
\<close>

theorem slide_buffer_refines_queue:
  assumes "buffer_run xs (SlideBuffer_new capacity) = Some (outs, b)"
  shows "queue_run xs [] = (outs, as_slice b) \<and> length (as_slice b) \<le> capacity"
proof -
  have new: "sb_ok (SlideBuffer_new capacity)" "as_slice (SlideBuffer_new capacity) = []"
    "length (sb_data (SlideBuffer_new capacity)) = capacity"
    by (simp_all add: SlideBuffer_new_def sb_ok_def as_slice_def)
  from buffer_run_refines [OF new(1) assms] new
  have "sb_ok b" "queue_run xs [] = (outs, as_slice b)" "length (sb_data b) = capacity" by simp_all
  then show ?thesis using length_as_slice [of b] by (auto simp: sb_ok_def sb_len_def)
qed

theorem slide_buffer_refines_queue_witness:
  "queue_run [Extend [1, 2, 3], ReadInto 2, Compact, Extend [4, 5, 6], Consume 1] [] = ([[], [1, 2], [], [], []], [4, 5, 6])"
proof -
  have "buffer_run [Extend [1, 2, 3], ReadInto 2, Compact, Extend [4, 5, 6], Consume 1] (SlideBuffer_new 4) =
      Some ([[], [1, 2], [], [], []], \<lparr>sb_data = [3, 4, 5, 6], sb_start = 1, sb_end = 4\<rparr>)"
    by code_simp
  from slide_buffer_refines_queue [OF this] show ?thesis by (simp add: as_slice_def)
qed

end
