(* ===== verification/Byte_Io.thy ===== *)
theory Byte_Io
  imports Net_Addr
begin

text \<open>
  Byte streams as the protocol clients use them: \<open>read\<close>, \<open>read_exact\<close> and \<open>write_all\<close> of the asynchronous I/O
  traits, and the loops that copy between two streams. A source is the list of what its reads return, or
  the bytes that will arrive and how it ends; a sink keeps what it received and the failures to come.
  An error of a client is its stage and the fixed part of its message.
\<close>

section \<open>Sources and sinks\<close>

datatype IoErrorKind = InvalidData | InvalidInput | PermissionDenied | ConnectionAborted | UnexpectedEof
  | WouldBlock | WriteZero | NotConnected | BrokenPipe | OtherKind

datatype ClientError = ClientError (ce_stage: string) (ce_message: string)

text \<open>What arrives, and the error after it; without one the stream ends.\<close>

record ByteSource =
  so_bytes :: bytes
  so_failure :: "IoErrorKind option"

definition read_exact :: "nat \<Rightarrow> ByteSource \<Rightarrow> (IoErrorKind + bytes) \<times> ByteSource" where
  "read_exact n src =
     (if n \<le> length (so_bytes src) then
        (Ok (take n (so_bytes src)), src\<lparr>so_bytes := drop n (so_bytes src)\<rparr>)
      else (Err (case so_failure src of None \<Rightarrow> UnexpectedEof | Some k \<Rightarrow> k), src\<lparr>so_bytes := []\<rparr>))"

text \<open>One \<open>read\<close> into a buffer: what does not fit stays for the next one, and no more answers mean the end.\<close>

fun read_some :: "nat \<Rightarrow> (IoErrorKind + bytes) list \<Rightarrow> (IoErrorKind + bytes) \<times> (IoErrorKind + bytes) list" where
  "read_some limit [] = (Ok [], [])"
| "read_some limit (Inl e # rs) = (Err e, rs)"
| "read_some limit (Inr bs # rs) = (Ok (take limit bs), if limit < length bs then Inr (drop limit bs) # rs else rs)"

text \<open>A write fails after some bytes, or not at all.\<close>

record ByteSink =
  si_sent :: bytes
  si_failures :: "(nat \<times> IoErrorKind) option list"
  si_shutdown :: "IoErrorKind option"
  si_closed :: bool

definition write_all :: "bytes \<Rightarrow> ByteSink \<Rightarrow> (IoErrorKind + unit) \<times> ByteSink" where
  "write_all bs sink =
     (case si_failures sink of
        Some (n, e) # fs \<Rightarrow> (Err e, sink\<lparr>si_sent := si_sent sink @ take n bs, si_failures := fs\<rparr>)
      | _ \<Rightarrow> (Ok (), sink\<lparr>si_sent := si_sent sink @ bs, si_failures := tl (si_failures sink)\<rparr>))"

definition shutdown :: "ByteSink \<Rightarrow> (IoErrorKind + unit) \<times> ByteSink" where
  "shutdown sink =
     (case si_shutdown sink of None \<Rightarrow> (Ok (), sink\<lparr>si_closed := True\<rparr>) | Some e \<Rightarrow> (Err e, sink))"

section \<open>Copying in chunks\<close>

lemma read_some_shrinks:
  "read_some limit rs = (Inr bs, rs') \<Longrightarrow> bs \<noteq> [] \<Longrightarrow>
    sum_list (map (\<lambda>r. case r of Inl _ \<Rightarrow> 1 | Inr x \<Rightarrow> Suc (length x)) rs') <
    sum_list (map (\<lambda>r. case r of Inl _ \<Rightarrow> 1 | Inr x \<Rightarrow> Suc (length x)) rs)"
  by (cases "(limit, rs)" rule: read_some.cases) (auto split: if_splits)

text \<open>
  The loop from the downstream to the server: reads of at most \<open>limit\<close> bytes are turned into packets by
  \<open>encode\<close>, which has a state, until a read returns nothing. The number of bytes read is counted in 64 bits.
\<close>

function copy_out ::
    "('s \<Rightarrow> bytes \<Rightarrow> (ClientError + bytes) \<times> 's) \<Rightarrow> nat \<Rightarrow> ClientError \<Rightarrow> ClientError \<Rightarrow> (IoErrorKind + bytes) list \<Rightarrow> u64 \<Rightarrow>
      's \<Rightarrow> ByteSink \<Rightarrow> (ClientError + u64) \<times> 's \<times> ByteSink" where
  "copy_out encode limit read_error write_error rs n st sink =
     (case read_some limit rs of
        (Inl e, _) \<Rightarrow> (Err read_error, st, sink)
      | (Inr bs, rs') \<Rightarrow>
          if bs = [] then (Ok n, st, sink)
          else (case encode st bs of
                  (Inl e, st') \<Rightarrow> (Err e, st', sink)
                | (Inr packet, st') \<Rightarrow>
                    (case write_all packet sink of
                       (Inl e, sink') \<Rightarrow> (Err write_error, st', sink')
                     | (Inr _, sink') \<Rightarrow>
                         copy_out encode limit read_error write_error rs' (n + of_nat (length bs)) st' sink')))"
  by pat_completeness auto

termination
  by (relation "measure (\<lambda>(_, _, _, _, rs, _, _, _). sum_list (map (\<lambda>r. case r of Inl _ \<Rightarrow> 1 | Inr x \<Rightarrow> Suc (length x)) rs))")
    (auto dest!: read_some_shrinks [OF sym])

declare copy_out.simps [simp del]

text \<open>
  The loop from the server to the downstream: \<open>decode\<close> takes chunks out of the source until it says that the
  stream has ended. Nothing in the loop itself makes it end, so it is an option, and that it returns is
  proved below for the decoders.
\<close>

partial_function (option) copy_in ::
    "('s \<Rightarrow> ByteSource \<Rightarrow> (ClientError + bytes option) \<times> 's \<times> ByteSource) \<Rightarrow> ClientError \<Rightarrow> u64 \<Rightarrow>
      's \<Rightarrow> ByteSource \<Rightarrow> ByteSink \<Rightarrow> ((ClientError + u64) \<times> 's \<times> ByteSource \<times> ByteSink) option" where
  "copy_in decode write_error n st src sink =
     (case decode st src of
        (Inl e, st', src') \<Rightarrow> Some (Err e, st', src', sink)
      | (Inr None, st', src') \<Rightarrow> Some (Ok n, st', src', sink)
      | (Inr (Some payload), st', src') \<Rightarrow>
          (case write_all payload sink of
             (Inl e, sink') \<Rightarrow> Some (Err write_error, st', src', sink')
           | (Inr _, sink') \<Rightarrow> copy_in decode write_error (n + of_nat (length payload)) st' src' sink'))"

text \<open>
  \<open>try_join!\<close> of the two directions, which share no state: both results, or an error; when both fail the
  scheduler decides which error is first.
\<close>

definition join_directions :: "bool \<Rightarrow> 'e + 'a \<Rightarrow> 'e + 'b \<Rightarrow> 'e + ('a \<times> 'b)" where
  "join_directions out_first out inn =
     (case (out, inn) of
        (Inr a, Inr b) \<Rightarrow> Ok (a, b)
      | (Inl e, Inr _) \<Rightarrow> Err e
      | (Inr _, Inl e) \<Rightarrow> Err e
      | (Inl e1, Inl e2) \<Rightarrow> Err (if out_first then e1 else e2))"

text \<open>The streams of a relay: what the client sends, what the server sends, and where both are written.\<close>

record RelayStreams =
  rl_downstream_reads :: "(IoErrorKind + bytes) list"
  rl_upstream :: ByteSource
  rl_upstream_sink :: ByteSink
  rl_downstream_sink :: ByteSink

text \<open>
  Both directions run until they end or one of them fails, which drops the other where it stands: of a relay that
  fails only the error is kept.
\<close>

definition run_directions ::
    "bool \<Rightarrow> RelayStreams \<Rightarrow> (ClientError + u64) \<times> ByteSink \<Rightarrow> ((ClientError + u64) \<times> ByteSink) option \<Rightarrow>
      (ClientError + (u64 \<times> u64) \<times> RelayStreams) option" where
  "run_directions out_first io out inn =
     map_option (\<lambda>(inn, down).
       map_sum id (\<lambda>counts. (counts, io\<lparr>rl_upstream_sink := snd out, rl_downstream_sink := down\<rparr>))
         (join_directions out_first (fst out) inn)) inn"

section \<open>Reading and writing agree\<close>

lemma u16_prefix [simp]: "u16_from_be (u16_to_be w ! 0) (u16_to_be w ! Suc 0) = w"
  by (rule u16_be_roundtrip) (simp add: u16_to_be_def)

lemma read_exact_append: "read_exact (length x) \<lparr>so_bytes = x @ rest, so_failure = k\<rparr> = (Ok x, \<lparr>so_bytes = rest, so_failure = k\<rparr>)"
  by (simp add: read_exact_def)

lemma read_exact_length: "read_exact n src = (Inr x, src') \<Longrightarrow> length x = n \<and> so_bytes src = x @ so_bytes src' \<and> so_failure src' = so_failure src"
  by (auto simp: read_exact_def split: if_splits)

lemma read_exact_rest: "read_exact n src = (r, src') \<Longrightarrow> length (so_bytes src') \<le> length (so_bytes src) \<and> so_failure src' = so_failure src"
  by (auto simp: read_exact_def split: if_splits)

text \<open>A sink that accepts everything.\<close>

definition open_sink :: "bytes \<Rightarrow> ByteSink" where
  "open_sink bs = \<lparr>si_sent = bs, si_failures = [], si_shutdown = None, si_closed = False\<rparr>"

lemma write_all_open [simp]: "write_all x (open_sink bs) = (Ok (), open_sink (bs @ x))"
  by (simp add: write_all_def open_sink_def)

text \<open>The streams of a small relay, for the witnesses.\<close>

definition demo_relay :: RelayStreams where
  "demo_relay = \<lparr>rl_downstream_reads = map Inr [[1, 2], [3], []], rl_upstream = \<lparr>so_bytes = replicate 32 0, so_failure = None\<rparr>,
     rl_upstream_sink = open_sink [], rl_downstream_sink = open_sink []\<rparr>"

text \<open>What the reads of a source that does not fail deliver before the first empty one.\<close>

definition delivered_reads :: "bytes list \<Rightarrow> bytes" where
  "delivered_reads bss = concat (takeWhile (\<lambda>bs. bs \<noteq> []) bss)"

lemma copy_out_pieces:
  assumes "0 < limit"
  shows "\<exists>xs. (\<forall>x\<in>set xs. x \<noteq> [] \<and> length x \<le> limit) \<and> concat xs = delivered_reads bss \<and>
    (\<forall>n w sink. copy_out encode limit read_error write_error (map Inr bss) n w sink =
      copy_out encode limit read_error write_error (map Inr xs) n w sink)"
proof (induction "sum_list (map (\<lambda>bs. Suc (length bs)) bss)" arbitrary: bss rule: less_induct)
  case less
  show ?case
  proof (cases bss)
    case Nil
    then show ?thesis by (intro exI [of _ "[]"]) (simp add: delivered_reads_def)
  next
    case (Cons b rest)
    show ?thesis
    proof (cases "b = []")
      case True
      with Cons show ?thesis
        by (intro exI [of _ "[]"]) (simp add: delivered_reads_def copy_out.simps [of _ _ _ _ "Inr [] # _"] copy_out.simps [of _ _ _ _ "[]"])
    next
      case False
      let ?more = "(if limit < length b then drop limit b # rest else rest)"
      have step: "copy_out encode limit read_error write_error (map Inr (c # cs)) n w sink =
          (case encode w (take limit c) of
             (Inl e, st') \<Rightarrow> (Err e, st', sink)
           | (Inr packet, st') \<Rightarrow>
               (case write_all packet sink of
                  (Inl e, sink') \<Rightarrow> (Err write_error, st', sink')
                | (Inr _, sink') \<Rightarrow> copy_out encode limit read_error write_error
                    (map Inr (if limit < length c then drop limit c # cs else cs)) (n + of_nat (length (take limit c))) st' sink'))"
        if "c \<noteq> []" for c cs n w sink
        using that assms by (subst copy_out.simps) (auto split: sum.splits prod.splits)
      have "sum_list (map (\<lambda>bs. Suc (length bs)) ?more) < sum_list (map (\<lambda>bs. Suc (length bs)) bss)"
        using assms Cons False by auto
      then obtain xs where xs: "\<forall>x\<in>set xs. x \<noteq> [] \<and> length x \<le> limit" "concat xs = delivered_reads ?more"
          "\<And>n w sink. copy_out encode limit read_error write_error (map Inr ?more) n w sink =
            copy_out encode limit read_error write_error (map Inr xs) n w sink"
        using less by metis
      have "delivered_reads bss = take limit b @ delivered_reads ?more"
        using Cons False by (auto simp: delivered_reads_def)
      moreover have ne: "take limit b \<noteq> []" using False assms by simp
      moreover have "copy_out encode limit read_error write_error (map Inr bss) n w sink =
          copy_out encode limit read_error write_error (map Inr (take limit b # xs)) n w sink" for n w sink
        unfolding Cons step [OF False] step [OF ne] xs(3) by (simp split: sum.splits prod.splits)
      ultimately show ?thesis using xs(1,2) by (intro exI [of _ "take limit b # xs"]) simp
    qed
  qed
qed

text \<open>
  The contract between a writer and a reader of chunks: a chunk that was written is the next one read, a
  reader consumes what it returns, and at the end of the stream it says so.
\<close>

locale chunk_codec =
  fixes encode :: "'w \<Rightarrow> bytes \<Rightarrow> (ClientError + bytes) \<times> 'w"
    and decode :: "'r \<Rightarrow> ByteSource \<Rightarrow> (ClientError + bytes option) \<times> 'r \<times> ByteSource"
    and agree :: "'w \<Rightarrow> 'r \<Rightarrow> bool"
    and limit :: nat
  assumes positive: "0 < limit"
    and chunk: "agree w r \<Longrightarrow> x \<noteq> [] \<Longrightarrow> length x \<le> limit \<Longrightarrow>
      \<exists>packet w' r'. encode w x = (Ok packet, w') \<and> agree w' r' \<and>
        (\<forall>rest k. decode r \<lparr>so_bytes = packet @ rest, so_failure = k\<rparr> = (Ok (Some x), r', \<lparr>so_bytes = rest, so_failure = k\<rparr>))"
    and consumes: "decode r src = (Ok (Some x), r', src') \<Longrightarrow> length (so_bytes src') < length (so_bytes src)"
    and at_end: "agree w r \<Longrightarrow> decode r \<lparr>so_bytes = [], so_failure = None\<rparr> = (Ok None, r, \<lparr>so_bytes = [], so_failure = None\<rparr>)"
begin

lemma copy_in_returns: "\<exists>y. copy_in decode write_error n st src sink = Some y"
proof (induction "length (so_bytes src)" arbitrary: n st src sink rule: less_induct)
  case less
  obtain q st' src' where q: "decode st src = (q, st', src')" by (cases "decode st src")
  show ?case
  proof (cases "\<exists>x. q = Inr (Some x)")
    case False
    with q show ?thesis by (subst copy_in.simps) (auto split: sum.splits option.splits)
  next
    case True
    then obtain x where x: "q = Inr (Some x)" by blast
    with q consumes have "length (so_bytes src') < length (so_bytes src)" by blast
    with less q x show ?thesis by (subst copy_in.simps) (auto split: prod.splits sum.splits)
  qed
qed

text \<open>The packets of a list of chunks, and what comes out of them.\<close>

lemma packets_pass:
  assumes "agree w r" "\<And>x. x \<in> set xs \<Longrightarrow> x \<noteq> [] \<and> length x \<le> limit"
  shows "\<exists>packets w' r'. agree w' r' \<and>
    (\<forall>n sent. copy_out encode limit read_error write_error (map Inr xs) n w (open_sink sent) =
      (Ok (n + of_nat (length (concat xs))), w', open_sink (sent @ packets))) \<and>
    (\<forall>n sent rest k. copy_in decode write_error2 n r \<lparr>so_bytes = packets @ rest, so_failure = k\<rparr> (open_sink sent) =
      copy_in decode write_error2 (n + of_nat (length (concat xs))) r' \<lparr>so_bytes = rest, so_failure = k\<rparr> (open_sink (sent @ concat xs)))"
  using assms
proof (induction xs arbitrary: w r)
  case Nil
  then show ?case
    by (intro exI [of _ "[]"] exI [of _ w] exI [of _ r]) (auto simp: copy_out.simps)
next
  case (Cons x xs)
  have x: "x \<noteq> []" "length x \<le> limit" using Cons.prems(2) by auto
  obtain p w1 r1 where p: "encode w x = (Ok p, w1)" "agree w1 r1"
      "\<And>rest k. decode r \<lparr>so_bytes = p @ rest, so_failure = k\<rparr> = (Ok (Some x), r1, \<lparr>so_bytes = rest, so_failure = k\<rparr>)"
    using chunk [OF Cons.prems(1) x] by blast
  obtain packets w' r' where ih: "agree w' r'"
      "\<And>n sent. copy_out encode limit read_error write_error (map Inr xs) n w1 (open_sink sent) =
        (Ok (n + of_nat (length (concat xs))), w', open_sink (sent @ packets))"
      "\<And>n sent rest k. copy_in decode write_error2 n r1 \<lparr>so_bytes = packets @ rest, so_failure = k\<rparr> (open_sink sent) =
        copy_in decode write_error2 (n + of_nat (length (concat xs))) r' \<lparr>so_bytes = rest, so_failure = k\<rparr> (open_sink (sent @ concat xs))"
    using Cons.IH [OF p(2)] Cons.prems(2) by (metis list.set_intros(2))
  have "copy_in decode write_error2 n r \<lparr>so_bytes = (p @ packets) @ rest, so_failure = k\<rparr> (open_sink sent) =
      copy_in decode write_error2 (n + of_nat (length (concat (x # xs)))) r' \<lparr>so_bytes = rest, so_failure = k\<rparr> (open_sink (sent @ concat (x # xs)))"
    for n sent rest k
    using p(3) by (subst copy_in.simps) (simp add: ih(3) add.assoc)
  then show ?case
    using x p(1) ih(1,2)
    by (intro exI [of _ "p @ packets"] exI [of _ w'] exI [of _ r'])
      (simp add: copy_out.simps [of encode limit read_error write_error "Inr x # map Inr xs"] add.assoc)
qed

lemma copied_bytes_pass:
  assumes "agree w r"
  shows "\<exists>packets w' r'. agree w' r' \<and>
    (\<forall>n sent. copy_out encode limit read_error write_error (map Inr bss) n w (open_sink sent) =
      (Ok (n + of_nat (length (delivered_reads bss))), w', open_sink (sent @ packets))) \<and>
    (\<forall>n sent rest k. copy_in decode write_error2 n r \<lparr>so_bytes = packets @ rest, so_failure = k\<rparr> (open_sink sent) =
      copy_in decode write_error2 (n + of_nat (length (delivered_reads bss))) r' \<lparr>so_bytes = rest, so_failure = k\<rparr>
        (open_sink (sent @ delivered_reads bss)))"
proof -
  obtain xs where xs: "\<forall>x\<in>set xs. x \<noteq> [] \<and> length x \<le> limit" "concat xs = delivered_reads bss"
      "\<And>n w sink. copy_out encode limit read_error write_error (map Inr bss) n w sink =
        copy_out encode limit read_error write_error (map Inr xs) n w sink"
    using copy_out_pieces [OF positive, of bss encode read_error write_error] by metis
  from packets_pass [OF assms, of xs read_error write_error write_error2] xs show ?thesis by simp
qed

text \<open>The stream may end after the packets.\<close>

lemma copied_bytes_arrive:
  assumes "agree w r"
  shows "\<exists>packets w' r'. agree w' r' \<and>
    (\<forall>n sent. copy_out encode limit read_error write_error (map Inr bss) n w (open_sink sent) =
      (Ok (n + of_nat (length (delivered_reads bss))), w', open_sink (sent @ packets))) \<and>
    (\<forall>n sent. copy_in decode write_error2 n r \<lparr>so_bytes = packets, so_failure = None\<rparr> (open_sink sent) =
      Some (Ok (n + of_nat (length (delivered_reads bss))), r', \<lparr>so_bytes = [], so_failure = None\<rparr>,
        open_sink (sent @ delivered_reads bss)))"
proof -
  obtain packets w' r' where p: "agree w' r'"
      "\<And>n sent. copy_out encode limit read_error write_error (map Inr bss) n w (open_sink sent) =
        (Ok (n + of_nat (length (delivered_reads bss))), w', open_sink (sent @ packets))"
      "\<And>n sent rest k. copy_in decode write_error2 n r \<lparr>so_bytes = packets @ rest, so_failure = k\<rparr> (open_sink sent) =
        copy_in decode write_error2 (n + of_nat (length (delivered_reads bss))) r' \<lparr>so_bytes = rest, so_failure = k\<rparr>
          (open_sink (sent @ delivered_reads bss))"
    using copied_bytes_pass [OF assms, of read_error write_error bss write_error2] by metis
  have "copy_in decode write_error2 n r \<lparr>so_bytes = packets, so_failure = None\<rparr> (open_sink sent) =
      Some (Ok (n + of_nat (length (delivered_reads bss))), r', \<lparr>so_bytes = [], so_failure = None\<rparr>,
        open_sink (sent @ delivered_reads bss))" for n sent
    using p(3) [of n "[]" None sent] at_end [OF p(1)] by (subst (asm) (2) copy_in.simps) simp
  with p(1,2) show ?thesis by blast
qed

end

end
