(* ===== verification/Reality_Records.thy ===== *)
theory Reality_Records
  imports Tls_Hello Byte_Io
begin

text \<open>
  The TLS 1.3 record layer of the REALITY client: cipher suites
  (\<open>prototype/vless/src/reality/reality_cipher_suite.rs\<close>), the AEAD wrapper (\<open>reality_aead.rs\<close>), the content
  type trailer (\<open>common.rs\<close>) and record encryption and decryption (\<open>reality_records.rs\<close>).

  The primitives of \<open>aws-lc-rs\<close> and \<open>x509-parser\<close> are the fields of \<open>Crypto\<close>, a parameter of every
  definition that calls them; \<open>aead_ok\<close> states what the record layer relies on: opening what was sealed
  under the same key, nonce and additional data gives the plaintext back, and sealing adds sixteen
  bytes. In-place operations return the buffer they leave behind, failed ones too.
\<close>

section \<open>Errors and primitives\<close>

datatype AeadError = InvalidKeyLength nat | InvalidIvLength nat | EncryptionFailed | DecryptionFailed
  | SequenceExhausted | EmptyPlaintext | PlaintextAllZeros | BadContentType u8

datatype KeyError = SharedSecretLength nat | HashLengthMismatch nat | SecretLengthMismatch | HkdfOutputTooLong
  | HkdfFailed | AuthEcdhFailed | EcdhFailed | KeyCreationFailed | SessionIdEncryptionFailed

datatype ParseError = HelloTooShort | HelloCursor BufError | KeyShareNotFound | KeyShareExtendsPastEnd
  | InvalidX25519KeyLength nat | X25519ShareNotFound | CipherSuitesLengthOdd | UnsupportedCipherSuite u16

datatype VerifyError = CertificateTooShort | CertificateTruncated | CertificateUnparsable | PublicKeyNotEd25519 nat
  | SignatureNot64Bytes nat | CertificateHmacMismatch | CertVerifyTooShort nat | CertVerifyType u8
  | CertVerifyAlgorithm u16 | CertVerifySignatureLength nat | CertVerifyTruncated | CertVerifyMismatch

datatype RealityError = Aead AeadError | Keys KeyError | Parse ParseError | Verify VerifyError
  | BufferTooShort | ExpectedApplicationData u8 | CertificateNotVerified | CertificateVerifyNotVerified
  | FatalAlert u8 | ApplicationKeysMissing | PreviouslyFailed IoErrorKind | TcpError IoErrorKind | Panicked

text \<open>The \<open>io::ErrorKind\<close> of an error; a panic has none.\<close>

definition aead_error_kind :: "AeadError \<Rightarrow> IoErrorKind" where
  "aead_error_kind e =
     (case e of InvalidKeyLength _ \<Rightarrow> InvalidInput | InvalidIvLength _ \<Rightarrow> InvalidInput
      | SequenceExhausted \<Rightarrow> OtherKind | _ \<Rightarrow> InvalidData)"

definition key_error_kind :: "KeyError \<Rightarrow> IoErrorKind" where
  "key_error_kind e =
     (case e of SharedSecretLength _ \<Rightarrow> InvalidInput | HashLengthMismatch _ \<Rightarrow> InvalidInput
      | SecretLengthMismatch \<Rightarrow> InvalidInput | EcdhFailed \<Rightarrow> OtherKind | KeyCreationFailed \<Rightarrow> OtherKind
      | _ \<Rightarrow> InvalidData)"

definition error_kind :: "RealityError \<Rightarrow> IoErrorKind option" where
  "error_kind e =
     (case e of
        Aead a \<Rightarrow> Some (aead_error_kind a)
      | Keys k \<Rightarrow> Some (key_error_kind k)
      | Parse x \<Rightarrow> Some (if x = HelloCursor ReadPastEnd then UnexpectedEof else InvalidData)
      | Verify v \<Rightarrow> Some (if v = CertificateHmacMismatch \<or> v = CertVerifyMismatch then PermissionDenied else InvalidData)
      | CertificateNotVerified \<Rightarrow> Some PermissionDenied
      | CertificateVerifyNotVerified \<Rightarrow> Some PermissionDenied
      | FatalAlert _ \<Rightarrow> Some ConnectionAborted
      | PreviouslyFailed k \<Rightarrow> Some k
      | TcpError k \<Rightarrow> Some k
      | Panicked \<Rightarrow> None
      | _ \<Rightarrow> Some InvalidData)"

datatype HashAlgorithm = SHA256 | SHA384 | SHA512

datatype CipherSuite = AES_128_GCM_SHA256 | AES_256_GCM_SHA384 | CHACHA20_POLY1305_SHA256

definition DEFAULT_CIPHER_SUITES :: "CipherSuite list" where
  "DEFAULT_CIPHER_SUITES = [AES_128_GCM_SHA256, AES_256_GCM_SHA384, CHACHA20_POLY1305_SHA256]"

fun cs_id :: "CipherSuite \<Rightarrow> u16" where
  "cs_id AES_128_GCM_SHA256 = 0x1301"
| "cs_id AES_256_GCM_SHA384 = 0x1302"
| "cs_id CHACHA20_POLY1305_SHA256 = 0x1303"

definition cs_from_id :: "u16 \<Rightarrow> CipherSuite option" where
  "cs_from_id n = (if n = 0x1301 then Some AES_128_GCM_SHA256 else if n = 0x1302 then Some AES_256_GCM_SHA384
     else if n = 0x1303 then Some CHACHA20_POLY1305_SHA256 else None)"

fun cs_name :: "CipherSuite \<Rightarrow> string" where
  "cs_name AES_128_GCM_SHA256 = ''TLS_AES_128_GCM_SHA256''"
| "cs_name AES_256_GCM_SHA384 = ''TLS_AES_256_GCM_SHA384''"
| "cs_name CHACHA20_POLY1305_SHA256 = ''TLS_CHACHA20_POLY1305_SHA256''"

definition cs_from_name :: "string \<Rightarrow> CipherSuite option" where
  "cs_from_name s = (if s = ''TLS_AES_128_GCM_SHA256'' then Some AES_128_GCM_SHA256
     else if s = ''TLS_AES_256_GCM_SHA384'' then Some AES_256_GCM_SHA384
     else if s = ''TLS_CHACHA20_POLY1305_SHA256'' then Some CHACHA20_POLY1305_SHA256 else None)"

text \<open>Lengths of the algorithms each suite bundles, as \<open>aws-lc-rs\<close> documents them.\<close>

fun key_len :: "CipherSuite \<Rightarrow> nat" where
  "key_len AES_128_GCM_SHA256 = 16"
| "key_len AES_256_GCM_SHA384 = 32"
| "key_len CHACHA20_POLY1305_SHA256 = 32"

definition nonce_len :: "CipherSuite \<Rightarrow> nat" where "nonce_len cs = 12"

fun digest_algorithm :: "CipherSuite \<Rightarrow> HashAlgorithm" where
  "digest_algorithm AES_256_GCM_SHA384 = SHA384"
| "digest_algorithm _ = SHA256"

fun output_len :: "HashAlgorithm \<Rightarrow> nat" where
  "output_len SHA256 = 32"
| "output_len SHA384 = 48"
| "output_len SHA512 = 64"

definition hash_len :: "CipherSuite \<Rightarrow> nat" where "hash_len cs = output_len (digest_algorithm cs)"

record Crypto =
  cr_seal :: "CipherSuite \<Rightarrow> bytes \<Rightarrow> bytes \<Rightarrow> bytes \<Rightarrow> bytes \<Rightarrow> bytes + bytes"
  cr_open :: "CipherSuite \<Rightarrow> bytes \<Rightarrow> bytes \<Rightarrow> bytes \<Rightarrow> bytes \<Rightarrow> bytes \<times> bytes option"
  cr_hash :: "HashAlgorithm \<Rightarrow> bytes \<Rightarrow> bytes"
  cr_hmac :: "HashAlgorithm \<Rightarrow> bytes \<Rightarrow> bytes \<Rightarrow> bytes"
  cr_hkdf_sha256 :: "bytes \<Rightarrow> bytes \<Rightarrow> bytes \<Rightarrow> bytes option"
  cr_x25519_public :: "bytes \<Rightarrow> bytes option"
  cr_x25519_agree :: "bytes \<Rightarrow> bytes \<Rightarrow> bytes option"
  cr_x509 :: "bytes \<Rightarrow> (bytes \<times> bytes) option"
  cr_ed25519_verify :: "bytes \<Rightarrow> bytes \<Rightarrow> bytes \<Rightarrow> bool"

section \<open>AEAD keys\<close>

record AeadKey =
  ak_suite :: CipherSuite
  ak_key :: bytes

definition AeadKey_new :: "CipherSuite \<Rightarrow> bytes \<Rightarrow> RealityError + AeadKey" where
  "AeadKey_new cipher_suite k =
     (if length k \<noteq> key_len cipher_suite then Err (Aead (InvalidKeyLength (length k)))
      else Ok \<lparr>ak_suite = cipher_suite, ak_key = k\<rparr>)"

definition u64_to_be :: "u64 \<Rightarrow> bytes" where
  "u64_to_be w = map (\<lambda>i. of_nat (unat w div 256 ^ (7 - i) mod 256)) [0..<8]"

definition make_nonce :: "bytes \<Rightarrow> u64 \<Rightarrow> RealityError + bytes" where
  "make_nonce iv seq =
     (if length iv \<noteq> 12 then Err (Aead (InvalidIvLength (length iv)))
      else Ok (take 4 iv @ map2 (xor) (drop 4 iv) (u64_to_be seq)))"

text \<open>Sealing leaves the buffer in the second component, whether it succeeds or not.\<close>

definition seal_in_place :: "Crypto \<Rightarrow> AeadKey \<Rightarrow> bytes \<Rightarrow> bytes \<Rightarrow> u64 \<Rightarrow> bytes \<Rightarrow> (RealityError + unit) \<times> bytes" where
  "seal_in_place crypto k buf iv seq aad =
     (case make_nonce iv seq of
        Inl e \<Rightarrow> (Err e, buf)
      | Inr nonce \<Rightarrow>
          (case cr_seal crypto (ak_suite k) (ak_key k) nonce aad buf of
             Inl left \<Rightarrow> (Err (Aead EncryptionFailed), left)
           | Inr sealed \<Rightarrow> (Ok (), sealed)))"

definition open_in_place_slice ::
    "Crypto \<Rightarrow> AeadKey \<Rightarrow> bytes \<Rightarrow> bytes \<Rightarrow> u64 \<Rightarrow> bytes \<Rightarrow> (RealityError + bytes) \<times> bytes" where
  "open_in_place_slice crypto k buf iv seq aad =
     (case make_nonce iv seq of
        Inl e \<Rightarrow> (Err e, buf)
      | Inr nonce \<Rightarrow>
          (case cr_open crypto (ak_suite k) (ak_key k) nonce aad buf of
             (left, None) \<Rightarrow> (Err (Aead DecryptionFailed), left)
           | (left, Some plain) \<Rightarrow> (Ok plain, left)))"

definition aead_seal :: "Crypto \<Rightarrow> AeadKey \<Rightarrow> bytes \<Rightarrow> bytes \<Rightarrow> u64 \<Rightarrow> bytes \<Rightarrow> RealityError + bytes" where
  "aead_seal crypto k plaintext iv seq aad =
     (case seal_in_place crypto k plaintext iv seq aad of (Inl e, _) \<Rightarrow> Err e | (Inr _, buf) \<Rightarrow> Ok buf)"

definition aead_open :: "Crypto \<Rightarrow> AeadKey \<Rightarrow> bytes \<Rightarrow> bytes \<Rightarrow> u64 \<Rightarrow> bytes \<Rightarrow> RealityError + bytes" where
  "aead_open crypto k ciphertext iv seq aad = fst (open_in_place_slice crypto k ciphertext iv seq aad)"

section \<open>Content type trailer\<close>

definition CONTENT_TYPE_CHANGE_CIPHER_SPEC :: u8 where "CONTENT_TYPE_CHANGE_CIPHER_SPEC = 0x14"
definition CONTENT_TYPE_ALERT :: u8 where "CONTENT_TYPE_ALERT = 0x15"
definition CONTENT_TYPE_APPLICATION_DATA :: u8 where "CONTENT_TYPE_APPLICATION_DATA = 0x17"

definition known_content_type :: "u8 \<Rightarrow> bool" where
  "known_content_type t \<longleftrightarrow> t = CONTENT_TYPE_HANDSHAKE \<or> t = CONTENT_TYPE_APPLICATION_DATA \<or> t = CONTENT_TYPE_ALERT"

definition strip_content_type_slice :: "bytes \<Rightarrow> RealityError + u8 \<times> nat" where
  "strip_content_type_slice plaintext =
     (if plaintext = [] then Err (Aead EmptyPlaintext)
      else let content_type = last plaintext in
        if \<not> known_content_type content_type then Err (Aead (BadContentType content_type))
        else Ok (content_type, length plaintext - 1))"

definition strip_zeros :: "bytes \<Rightarrow> bytes" where
  "strip_zeros xs = rev (dropWhile (\<lambda>b. b = 0) (rev xs))"

definition strip_content_type_with_padding :: "bytes \<Rightarrow> RealityError + u8 \<times> bytes" where
  "strip_content_type_with_padding plaintext =
     (if plaintext = [] then Err (Aead EmptyPlaintext)
      else let trimmed = strip_zeros plaintext in
        if trimmed = [] then Err (Aead PlaintextAllZeros)
        else if \<not> known_content_type (last trimmed) then Err (Aead (BadContentType (last trimmed)))
        else Ok (last trimmed, butlast trimmed))"

section \<open>Records\<close>

definition MAX_TLS13_CIPHERTEXT_LEN :: nat where "MAX_TLS13_CIPHERTEXT_LEN = 16384 + 256"
definition MAX_TLS_PLAINTEXT_LEN :: nat where "MAX_TLS_PLAINTEXT_LEN = 16384"

definition make_record_header :: "nat \<Rightarrow> bytes" where
  "make_record_header ciphertext_len =
     [CONTENT_TYPE_APPLICATION_DATA, 0x03, 0x03, of_nat (ciphertext_len div 256), of_nat (ciphertext_len mod 256)]"

definition decrypt_handshake_message ::
    "Crypto \<Rightarrow> CipherSuite \<Rightarrow> bytes \<Rightarrow> bytes \<Rightarrow> u64 \<Rightarrow> bytes \<Rightarrow> u16 \<Rightarrow> RealityError + bytes" where
  "decrypt_handshake_message crypto cipher_suite k iv seq ciphertext record_len =
     and_then (AeadKey_new cipher_suite k) (\<lambda>aead_key.
     and_then (aead_open crypto aead_key ciphertext iv seq (make_record_header (unat record_len))) (\<lambda>plaintext.
     and_then (strip_content_type_with_padding plaintext) (\<lambda>(_, content). Ok content)))"

text \<open>The state of a record encryptor: the sequence number and the output it appends to.\<close>

record RecordEncryptor =
  re_seq :: u64
  re_out :: bytes

definition checked_succ :: "u64 \<Rightarrow> u64 option" where
  "checked_succ n = (if n = - 1 then None else Some (n + 1))"

definition emit_record ::
    "Crypto \<Rightarrow> AeadKey \<Rightarrow> bytes \<Rightarrow> bytes \<Rightarrow> RecordEncryptor \<Rightarrow> (RealityError + unit) \<times> bytes \<times> RecordEncryptor" where
  "emit_record crypto k iv buf e =
     (let header = make_record_header (length buf + 16) in
      case seal_in_place crypto k buf iv (re_seq e) header of
        (Inl err, buf') \<Rightarrow> (Err err, buf', e)
      | (Inr _, buf') \<Rightarrow>
          (case checked_succ (re_seq e) of
             None \<Rightarrow> (Err (Aead SequenceExhausted), buf', e)
           | Some seq \<Rightarrow> (Ok (), buf', \<lparr>re_seq = seq, re_out = re_out e @ header @ buf'\<rparr>)))"

definition encrypt_record_in_place ::
    "Crypto \<Rightarrow> AeadKey \<Rightarrow> bytes \<Rightarrow> u8 \<Rightarrow> bytes \<Rightarrow> RecordEncryptor \<Rightarrow> (RealityError + unit) \<times> bytes \<times> RecordEncryptor" where
  "encrypt_record_in_place crypto k iv content_type buf e = emit_record crypto k iv (buf @ [content_type]) e"

definition encrypt_record_with_padding ::
    "Crypto \<Rightarrow> AeadKey \<Rightarrow> bytes \<Rightarrow> u8 \<Rightarrow> nat \<Rightarrow> bytes \<Rightarrow> RecordEncryptor \<Rightarrow> (RealityError + unit) \<times> bytes \<times> RecordEncryptor" where
  "encrypt_record_with_padding crypto k iv content_type target_record_size buf e =
     (let inner = buf @ [content_type];
          target_inner_len = target_record_size - (5 + 16);
          padded = (if length inner < target_inner_len \<and> target_inner_len \<le> MAX_TLS_PLAINTEXT_LEN + 1
                    then inner @ replicate (target_inner_len - length inner) 0 else inner)
      in emit_record crypto k iv padded e)"

text \<open>\<open>slice::chunks\<close>.\<close>

function chunks :: "nat \<Rightarrow> 'a list \<Rightarrow> 'a list list" where
  "chunks n xs = (if xs = [] \<or> n = 0 then [] else take n xs # chunks n (drop n xs))"
  by pat_completeness auto
termination by (relation "measure (\<lambda>(n, xs). length xs)") auto

declare chunks.simps [simp del]

fun encrypt_chunks ::
    "Crypto \<Rightarrow> AeadKey \<Rightarrow> bytes \<Rightarrow> u8 \<Rightarrow> bytes list \<Rightarrow> RecordEncryptor \<Rightarrow> (RealityError + unit) \<times> RecordEncryptor" where
  "encrypt_chunks crypto k iv content_type [] e = (Ok (), e)"
| "encrypt_chunks crypto k iv content_type (c # cs) e =
     (case encrypt_record_in_place crypto k iv content_type c e of
        (Inl err, _, e') \<Rightarrow> (Err err, e')
      | (Inr _, _, e') \<Rightarrow> encrypt_chunks crypto k iv content_type cs e')"

definition encrypt_fragmented ::
    "Crypto \<Rightarrow> AeadKey \<Rightarrow> bytes \<Rightarrow> u8 \<Rightarrow> bytes \<Rightarrow> RecordEncryptor \<Rightarrow> (RealityError + unit) \<times> RecordEncryptor" where
  "encrypt_fragmented crypto k iv content_type data e =
     encrypt_chunks crypto k iv content_type (chunks MAX_TLS_PLAINTEXT_LEN data) e"

text \<open>The result, what is left in the plaintext buffer, and the encryptor.\<close>

definition encrypt_app_data ::
    "Crypto \<Rightarrow> AeadKey \<Rightarrow> bytes \<Rightarrow> bytes \<Rightarrow> RecordEncryptor \<Rightarrow> (RealityError + unit) \<times> bytes \<times> RecordEncryptor" where
  "encrypt_app_data crypto k iv plaintext e =
     (if plaintext = [] then (Ok (), plaintext, e)
      else if length plaintext \<le> MAX_TLS_PLAINTEXT_LEN then
        (case encrypt_record_in_place crypto k iv CONTENT_TYPE_APPLICATION_DATA plaintext e of
           (Inl err, buf, e') \<Rightarrow> (Err err, buf, e')
         | (Inr _, buf, e') \<Rightarrow> (Ok (), [], e'))
      else
        (case encrypt_fragmented crypto k iv CONTENT_TYPE_APPLICATION_DATA plaintext e of
           (Inl err, e') \<Rightarrow> (Err err, plaintext, e')
         | (Inr _, e') \<Rightarrow> (Ok (), [], e')))"

definition encrypt_handshake ::
    "Crypto \<Rightarrow> AeadKey \<Rightarrow> bytes \<Rightarrow> bytes \<Rightarrow> RecordEncryptor \<Rightarrow> (RealityError + unit) \<times> RecordEncryptor" where
  "encrypt_handshake crypto k iv data e =
     (if data = [] then (Ok (), e)
      else if length data \<le> MAX_TLS_PLAINTEXT_LEN then
        (case encrypt_record_in_place crypto k iv CONTENT_TYPE_HANDSHAKE data e of (r, _, e') \<Rightarrow> (r, e'))
      else encrypt_fragmented crypto k iv CONTENT_TYPE_HANDSHAKE data e)"

fun encrypt_chunks_padded ::
    "Crypto \<Rightarrow> AeadKey \<Rightarrow> bytes \<Rightarrow> nat \<Rightarrow> bytes list \<Rightarrow> RecordEncryptor \<Rightarrow> (RealityError + unit) \<times> RecordEncryptor" where
  "encrypt_chunks_padded crypto k iv target [] e = (Ok (), e)"
| "encrypt_chunks_padded crypto k iv target (c # cs) e =
     (case (if cs = [] \<and> 0 < target then encrypt_record_with_padding crypto k iv CONTENT_TYPE_HANDSHAKE target c e
            else encrypt_record_in_place crypto k iv CONTENT_TYPE_HANDSHAKE c e) of
        (Inl err, _, e') \<Rightarrow> (Err err, e')
      | (Inr _, _, e') \<Rightarrow> encrypt_chunks_padded crypto k iv target cs e')"

definition encrypt_handshake_with_padding ::
    "Crypto \<Rightarrow> AeadKey \<Rightarrow> bytes \<Rightarrow> bytes \<Rightarrow> nat \<Rightarrow> RecordEncryptor \<Rightarrow> (RealityError + unit) \<times> RecordEncryptor" where
  "encrypt_handshake_with_padding crypto k iv data target_record_size e =
     (if data = [] then (Ok (), e)
      else if MAX_TLS_PLAINTEXT_LEN < length data then
        encrypt_chunks_padded crypto k iv target_record_size (chunks MAX_TLS_PLAINTEXT_LEN data) e
      else encrypt_chunks_padded crypto k iv target_record_size [data] e)"

definition encrypt_close_notify :: "Crypto \<Rightarrow> AeadKey \<Rightarrow> bytes \<Rightarrow> RecordEncryptor \<Rightarrow> (RealityError + unit) \<times> RecordEncryptor" where
  "encrypt_close_notify crypto k iv e =
     (case encrypt_record_in_place crypto k iv CONTENT_TYPE_ALERT [0x01, 0x00] e of (r, _, e') \<Rightarrow> (r, e'))"

text \<open>The result, the sequence number and what is left in the ciphertext slice.\<close>

definition decrypt_record_in_place ::
    "Crypto \<Rightarrow> AeadKey \<Rightarrow> bytes \<Rightarrow> bytes \<Rightarrow> u16 \<Rightarrow> u64 \<Rightarrow> (RealityError + u8 \<times> bytes) \<times> u64 \<times> bytes" where
  "decrypt_record_in_place crypto k iv ciphertext record_len seq =
     (case open_in_place_slice crypto k ciphertext iv seq (make_record_header (unat record_len)) of
        (Inl err, left) \<Rightarrow> (Err err, seq, left)
      | (Inr plaintext, left) \<Rightarrow>
          (case checked_succ seq of
             None \<Rightarrow> (Err (Aead SequenceExhausted), seq, left)
           | Some seq' \<Rightarrow>
               let trimmed = strip_zeros plaintext in
               if trimmed = [] then (Err (Aead PlaintextAllZeros), seq', left)
               else if \<not> known_content_type (last trimmed) then (Err (Aead (BadContentType (last trimmed))), seq', left)
               else (Ok (last trimmed, butlast trimmed), seq', left)))"

section \<open>Nonces\<close>

lemma same_digits:
  assumes "\<And>i. i < k \<Longrightarrow> a div 256 ^ i mod 256 = b div 256 ^ i mod (256 :: nat)"
  shows "a mod 256 ^ k = b mod 256 ^ k"
  using assms
proof (induction k)
  case (Suc k)
  have "x mod 256 ^ Suc k = 256 ^ k * (x div 256 ^ k mod 256) + x mod 256 ^ k" for x :: nat
    by (simp add: mod_mult2_eq mult.commute [of 256])
  with Suc show ?case by simp
qed simp

lemma u64_to_be_inject: "u64_to_be v = u64_to_be w \<Longrightarrow> v = w"
proof -
  assume eq: "u64_to_be v = u64_to_be w"
  have "unat v div 256 ^ i mod 256 = unat w div 256 ^ i mod 256" if "i < 8" for i
  proof -
    have "[0..<8] ! (7 - i) = 7 - i" by (subst nth_upt) simp_all
    with that have "(of_nat (unat v div 256 ^ i mod 256) :: u8) = of_nat (unat w div 256 ^ i mod 256)"
      using arg_cong [OF eq, of "\<lambda>xs. xs ! (7 - i)"] by (simp add: u64_to_be_def)
    then have "unat (of_nat (unat v div 256 ^ i mod 256) :: u8) = unat (of_nat (unat w div 256 ^ i mod 256) :: u8)"
      by simp
    then show ?thesis by (simp add: unat_of_nat take_bit_eq_mod)
  qed
  then have "unat v mod 256 ^ 8 = unat w mod 256 ^ 8" by (rule same_digits)
  moreover have "unat x < 256 ^ 8" for x :: u64 using unsigned_less [of x] by simp
  ultimately have "unat v = unat w" by (metis mod_less)
  then show ?thesis by (simp only: word_unat_eq_iff)
qed

lemma map2_xor_inject:
  "length xs = length iv \<Longrightarrow> length ys = length iv \<Longrightarrow> map2 xor iv xs = map2 xor iv ys \<Longrightarrow> xs = ys"
  for iv :: "u8 list"
proof (induction iv arbitrary: xs ys)
  case (Cons v iv)
  then obtain x xs' y ys' where xy: "xs = x # xs'" "ys = y # ys'" by (metis length_Suc_conv)
  from Cons.prems(3) xy have "xor v x = xor v y" by simp
  then have "xor v (xor v x) = xor v (xor v y)" by simp
  then have "x = y" by (simp flip: xor.assoc)
  with Cons xy show ?case by simp
qed simp

text \<open>
  C24: under one initialisation vector no two sequence numbers give the same AEAD nonce, so a connection
  that counts its records never seals two of them under one nonce.
\<close>

theorem nonce_unique:
  assumes "make_nonce iv s = Ok n" "make_nonce iv t = Ok n"
  shows "s = t"
proof -
  have iv: "length iv = 12" and "map2 xor (drop 4 iv) (u64_to_be s) = map2 xor (drop 4 iv) (u64_to_be t)"
    using assms by (auto simp: make_nonce_def split: if_splits)
  moreover have "length (u64_to_be x) = length (drop 4 iv)" for x using iv by (simp add: u64_to_be_def)
  ultimately have "u64_to_be s = u64_to_be t" by (metis map2_xor_inject)
  then show ?thesis by (rule u64_to_be_inject)
qed

theorem nonce_unique_witness:
  "make_nonce [5, 5, 5, 5, 5, 5, 5, 5, 5, 5, 5, 5] 259 = Ok [5, 5, 5, 5, 5, 5, 5, 5, 5, 5, 4, 6] \<and> (259 :: u64) = 0x103"
proof -
  have 1: "make_nonce [5, 5, 5, 5, 5, 5, 5, 5, 5, 5, 5, 5] 259 = Ok [5, 5, 5, 5, 5, 5, 5, 5, 5, 5, 4, 6]"
    by (simp add: make_nonce_def u64_to_be_def upt_rec)
  from nonce_unique [OF 1, of "0x103"] 1 show ?thesis by simp
qed

section \<open>Encrypted records are decrypted\<close>

text \<open>What the record layer relies on of the AEAD.\<close>

definition aead_ok :: "Crypto \<Rightarrow> bool" where
  "aead_ok crypto \<longleftrightarrow> (\<forall>suite k nonce aad x. length nonce = 12 \<longrightarrow> length x \<le> MAX_TLS13_CIPHERTEXT_LEN \<longrightarrow>
     (\<exists>c. cr_seal crypto suite k nonce aad x = Inr c \<and> length c = length x + 16 \<and>
          snd (cr_open crypto suite k nonce aad c) = Some x))"

lemma aead_okE:
  assumes "aead_ok crypto" "length nonce = 12" "length x \<le> MAX_TLS13_CIPHERTEXT_LEN"
  obtains c l where "cr_seal crypto suite k nonce aad x = Inr c" "length c = length x + 16"
    "cr_open crypto suite k nonce aad c = (l, Some x)"
  using assms unfolding aead_ok_def by (metis prod.collapse)

lemma strip_zeros_padded: "t \<noteq> 0 \<Longrightarrow> strip_zeros (xs @ t # replicate n 0) = xs @ [t]"
  by (simp add: strip_zeros_def) (subst dropWhile_append2, auto)

lemma known_content_type_nonzero: "known_content_type t \<Longrightarrow> t \<noteq> 0"
  by (auto simp: known_content_type_def CONTENT_TYPE_HANDSHAKE_def CONTENT_TYPE_APPLICATION_DATA_def CONTENT_TYPE_ALERT_def)

lemma length_make_record_header [simp]: "length (make_record_header n) = 5"
  by (simp add: make_record_header_def)

lemma record_header_length:
  "n < 65536 \<Longrightarrow> unat (u16_from_be (make_record_header n ! 3) (make_record_header n ! 4)) = n"
proof -
  assume "n < 65536"
  then have "n div 256 < 256" by simp
  then have "unat (of_nat (n div 256) :: u8) = n div 256" "unat (of_nat (n mod 256) :: u8) = n mod 256"
    by (simp_all add: unat_of_nat take_bit_eq_mod)
  then show ?thesis by (simp add: make_record_header_def unat_u16_from_be)
qed

lemma emit_record_opens:
  assumes crypto: "aead_ok crypto" "length iv = 12"
    and len: "length x \<le> MAX_TLS13_CIPHERTEXT_LEN" and seq: "seq \<noteq> - 1"
  obtains c left where "emit_record crypto k iv x \<lparr>re_seq = seq, re_out = out\<rparr> =
      (Ok (), c, \<lparr>re_seq = seq + 1, re_out = out @ make_record_header (length c) @ c\<rparr>)"
    "length c = length x + 16" "open_in_place_slice crypto k c iv seq (make_record_header (length c)) = (Ok x, left)"
proof -
  obtain nonce where nonce: "make_nonce iv seq = Ok nonce" "length nonce = 12"
    using crypto(2) by (simp add: make_nonce_def u64_to_be_def)
  obtain c l where c: "cr_seal crypto (ak_suite k) (ak_key k) nonce (make_record_header (length x + 16)) x = Inr c"
      "length c = length x + 16"
      "cr_open crypto (ak_suite k) (ak_key k) nonce (make_record_header (length x + 16)) c = (l, Some x)"
    using crypto(1) nonce(2) len by (rule aead_okE)
  show thesis
  proof (rule that)
    show "emit_record crypto k iv x \<lparr>re_seq = seq, re_out = out\<rparr> =
        (Ok (), c, \<lparr>re_seq = seq + 1, re_out = out @ make_record_header (length c) @ c\<rparr>)"
      using nonce(1) c(1,2) seq by (simp add: emit_record_def seal_in_place_def checked_succ_def Let_def)
    show "length c = length x + 16" by (fact c(2))
    show "open_in_place_slice crypto k c iv seq (make_record_header (length c)) = (Ok x, l)"
      using nonce(1) c(2,3) by (simp add: open_in_place_slice_def)
  qed
qed

lemma emit_record_decrypts:
  assumes crypto: "aead_ok crypto" "length iv = 12" and t: "known_content_type t"
    and len: "length buf + 1 + pad \<le> MAX_TLS13_CIPHERTEXT_LEN" and seq: "seq \<noteq> - 1"
  obtains c where "emit_record crypto k iv (buf @ t # replicate pad 0) \<lparr>re_seq = seq, re_out = out\<rparr> =
      (Ok (), c, \<lparr>re_seq = seq + 1, re_out = out @ make_record_header (length c) @ c\<rparr>)"
    "length c = length buf + 1 + pad + 16"
    "\<exists>left. decrypt_record_in_place crypto k iv c (of_nat (length c)) seq = (Ok (t, buf), seq + 1, left)"
proof -
  let ?x = "buf @ t # replicate pad 0"
  from len have x: "length ?x \<le> MAX_TLS13_CIPHERTEXT_LEN" by simp
  obtain c left where c: "emit_record crypto k iv ?x \<lparr>re_seq = seq, re_out = out\<rparr> =
      (Ok (), c, \<lparr>re_seq = seq + 1, re_out = out @ make_record_header (length c) @ c\<rparr>)"
      "length c = length ?x + 16" "open_in_place_slice crypto k c iv seq (make_record_header (length c)) = (Ok ?x, left)"
    using crypto x seq by (rule emit_record_opens)
  from x c(2) have "unat (of_nat (length c) :: u16) = length c"
    by (subst unat_of_nat_u16) (simp_all add: MAX_TLS13_CIPHERTEXT_LEN_def)
  with c(3) seq t have "decrypt_record_in_place crypto k iv c (of_nat (length c)) seq = (Ok (t, buf), seq + 1, left)"
    by (simp add: decrypt_record_in_place_def checked_succ_def Let_def strip_zeros_padded known_content_type_nonzero)
  with c(1,2) that show thesis by auto
qed

text \<open>A handshake flight of one record is decrypted by \<open>decrypt_handshake_message\<close>.\<close>

lemma handshake_record_decrypts:
  assumes crypto: "aead_ok crypto" "length iv = 12" "length k = key_len cs"
    and data: "data \<noteq> []" "length data \<le> MAX_TLS_PLAINTEXT_LEN" and seq: "seq \<noteq> - 1"
  obtains c where "encrypt_handshake crypto \<lparr>ak_suite = cs, ak_key = k\<rparr> iv data \<lparr>re_seq = seq, re_out = out\<rparr> =
      (Ok (), \<lparr>re_seq = seq + 1, re_out = out @ make_record_header (length c) @ c\<rparr>)"
    "length c = length data + 17" "decrypt_handshake_message crypto cs k iv seq c (of_nat (length c)) = Ok data"
proof -
  let ?k = "\<lparr>ak_suite = cs, ak_key = k\<rparr>" and ?x = "data @ [CONTENT_TYPE_HANDSHAKE]"
  have x: "length ?x \<le> MAX_TLS13_CIPHERTEXT_LEN"
    using data(2) by (simp add: MAX_TLS13_CIPHERTEXT_LEN_def MAX_TLS_PLAINTEXT_LEN_def)
  obtain c left where c: "emit_record crypto ?k iv ?x \<lparr>re_seq = seq, re_out = out\<rparr> =
      (Ok (), c, \<lparr>re_seq = seq + 1, re_out = out @ make_record_header (length c) @ c\<rparr>)"
      "length c = length ?x + 16" "open_in_place_slice crypto ?k c iv seq (make_record_header (length c)) = (Ok ?x, left)"
    using crypto(1,2) x seq by (rule emit_record_opens)
  from x c(2) have n: "unat (of_nat (length c) :: u16) = length c"
    by (subst unat_of_nat_u16) (simp_all add: MAX_TLS13_CIPHERTEXT_LEN_def)
  have t: "known_content_type CONTENT_TYPE_HANDSHAKE" by (simp add: known_content_type_def)
  have "strip_zeros ?x = ?x" using strip_zeros_padded [OF known_content_type_nonzero [OF t], of data 0] by simp
  with c(3) n t crypto(3) have "decrypt_handshake_message crypto cs k iv seq c (of_nat (length c)) = Ok data"
    by (simp add: decrypt_handshake_message_def aead_open_def AeadKey_new_def strip_content_type_with_padding_def)
  moreover have "length c = length data + 17" using c(2) by simp
  moreover have "encrypt_handshake crypto ?k iv data \<lparr>re_seq = seq, re_out = out\<rparr> =
      (Ok (), \<lparr>re_seq = seq + 1, re_out = out @ make_record_header (length c) @ c\<rparr>)"
    using c(1) data by (simp add: encrypt_handshake_def encrypt_record_in_place_def)
  ultimately show thesis using that by blast
qed

text \<open>A reader of a whole stream of records: it stops in front of the first incomplete one.\<close>

function decrypt_records :: "Crypto \<Rightarrow> AeadKey \<Rightarrow> bytes \<Rightarrow> bytes \<Rightarrow> u64 \<Rightarrow> RealityError + (u8 \<times> bytes) list \<times> u64" where
  "decrypt_records crypto k iv bs seq =
     (if length bs < 5 then Ok ([], seq)
      else let n = unat (u16_from_be (bs ! 3) (bs ! 4)) in
        if length bs < 5 + n then Ok ([], seq)
        else (case decrypt_record_in_place crypto k iv (take n (drop 5 bs)) (of_nat n) seq of
                (Inl e, _) \<Rightarrow> Err e
              | (Inr r, seq', _) \<Rightarrow>
                  and_then (decrypt_records crypto k iv (drop (5 + n) bs) seq') (\<lambda>(rs, s). Ok (r # rs, s))))"
  by pat_completeness auto
termination by (relation "measure (\<lambda>(crypto, k, iv, bs, seq). length bs)") auto

declare decrypt_records.simps [simp del]

lemma decrypt_records_Cons:
  assumes "decrypt_record_in_place crypto k iv c (of_nat (length c)) seq = (Ok r, seq', left)" "length c < 65536"
  shows "decrypt_records crypto k iv (make_record_header (length c) @ c @ rest) seq =
    and_then (decrypt_records crypto k iv rest seq') (\<lambda>(rs, s). Ok (r # rs, s))"
proof -
  have h: "unat (u16_from_be ((make_record_header (length c) @ c @ rest) ! 3) ((make_record_header (length c) @ c @ rest) ! 4)) = length c"
    using record_header_length [OF assms(2)] by (simp add: nth_append)
  show ?thesis by (subst decrypt_records.simps) (simp add: h assms(1))
qed

lemma decrypt_records_Nil [simp]: "decrypt_records crypto k iv [] seq = Ok ([], seq)"
  by (subst decrypt_records.simps) simp

lemma concat_chunks: "0 < n \<Longrightarrow> concat (chunks n xs) = xs"
  by (induction n xs rule: chunks.induct) (subst chunks.simps, auto)

lemma chunks_bound: "c \<in> set (chunks n xs) \<Longrightarrow> length c \<le> n"
  by (induction n xs rule: chunks.induct) (subst (asm) (2) chunks.simps, auto split: if_splits)

lemma chunks_Nil [simp]: "chunks n [] = []"
  by (subst chunks.simps) simp

lemma chunks_single: "xs \<noteq> [] \<Longrightarrow> length xs \<le> n \<Longrightarrow> chunks n xs = [xs]"
  by (subst chunks.simps) (cases xs; simp)

lemma seq_bound: "unat s + Suc n < 2 ^ 64 \<Longrightarrow> s \<noteq> - 1 \<and> unat (s + 1) = unat s + 1" for s :: u64
proof -
  assume "unat s + Suc n < 2 ^ 64"
  then have s: "unat s + 1 < 2 ^ 64" by simp
  then have "s \<noteq> - 1" by (auto simp: unsigned_minus_1_eq_mask mask_eq_exp_minus_1)
  moreover from s have "unat (s + 1) = unat s + 1" by (simp add: unat_word_ariths)
  ultimately show ?thesis by simp
qed

lemma encrypt_chunks_decrypts:
  assumes crypto: "aead_ok crypto" "length iv = 12" and t: "known_content_type t"
    and "\<And>c. c \<in> set cs \<Longrightarrow> length c \<le> MAX_TLS_PLAINTEXT_LEN" "unat seq + length cs < 2 ^ 64"
  shows "\<exists>recs seq'. encrypt_chunks crypto k iv t cs \<lparr>re_seq = seq, re_out = out\<rparr> =
      (Ok (), \<lparr>re_seq = seq', re_out = out @ recs\<rparr>) \<and>
    decrypt_records crypto k iv recs seq = Ok (map (Pair t) cs, seq') \<and> unat seq' = unat seq + length cs"
  using assms(4,5)
proof (induction cs arbitrary: seq out)
  case (Cons c cs)
  have len: "length c + 1 + 0 \<le> MAX_TLS13_CIPHERTEXT_LEN" and small: "length c \<le> MAX_TLS_PLAINTEXT_LEN"
    using Cons.prems(1) [of c] by (simp_all add: MAX_TLS13_CIPHERTEXT_LEN_def MAX_TLS_PLAINTEXT_LEN_def)
  have seq: "seq \<noteq> - 1" "unat (seq + 1) = unat seq + 1" using seq_bound [of seq "length cs"] Cons.prems(2) by simp_all
  obtain b left where b: "emit_record crypto k iv (c @ t # replicate 0 0) \<lparr>re_seq = seq, re_out = out\<rparr> =
      (Ok (), b, \<lparr>re_seq = seq + 1, re_out = out @ make_record_header (length b) @ b\<rparr>)"
      "length b = length c + 1 + 0 + 16"
      "decrypt_record_in_place crypto k iv b (of_nat (length b)) seq = (Ok (t, c), seq + 1, left)"
    using emit_record_decrypts [OF crypto t len seq(1)] by metis
  obtain recs seq' where r: "encrypt_chunks crypto k iv t cs
      \<lparr>re_seq = seq + 1, re_out = out @ make_record_header (length b) @ b\<rparr> =
      (Ok (), \<lparr>re_seq = seq', re_out = (out @ make_record_header (length b) @ b) @ recs\<rparr>)"
      "decrypt_records crypto k iv recs (seq + 1) = Ok (map (Pair t) cs, seq')" "unat seq' = unat (seq + 1) + length cs"
    using Cons.IH [of "seq + 1" "out @ make_record_header (length b) @ b"] Cons.prems seq(2) by auto
  have "length b < 65536" using b(2) small by (simp add: MAX_TLS_PLAINTEXT_LEN_def)
  from decrypt_records_Cons [OF b(3) this, of recs] r(2)
  have "decrypt_records crypto k iv (make_record_header (length b) @ b @ recs) seq = Ok (map (Pair t) (c # cs), seq')"
    by simp
  with b(1) r(1,3) seq(2) show ?case
    by (intro exI [of _ "make_record_header (length b) @ b @ recs"] exI [of _ seq']) (simp add: encrypt_record_in_place_def)
qed simp

lemma encrypt_app_data_chunks:
  "encrypt_app_data crypto k iv plaintext e =
     (case encrypt_chunks crypto k iv CONTENT_TYPE_APPLICATION_DATA (chunks MAX_TLS_PLAINTEXT_LEN plaintext) e of
        (Inr _, e') \<Rightarrow> (Ok (), [], e')
      | (Inl err, e') \<Rightarrow> (Err err,
          if plaintext \<noteq> [] \<and> length plaintext \<le> MAX_TLS_PLAINTEXT_LEN
          then fst (snd (encrypt_record_in_place crypto k iv CONTENT_TYPE_APPLICATION_DATA plaintext e))
          else plaintext, e'))"
  by (auto simp: encrypt_app_data_def encrypt_fragmented_def chunks_single
      split: sum.splits prod.splits)

text \<open>
  C22: whatever plaintext \<open>encrypt_app_data\<close> is given, it succeeds while sequence numbers last, empties the
  plaintext buffer and writes a stream of records that a reader with the same key, initialisation
  vector and starting sequence number decrypts to application data fragments of at most 16384 bytes
  whose concatenation is the plaintext, both sides ending at the same sequence number.
\<close>

theorem record_layer_roundtrip:
  assumes "aead_ok crypto" "length iv = 12" "unat seq + length (chunks MAX_TLS_PLAINTEXT_LEN plaintext) < 2 ^ 64"
  shows "\<exists>recs seq' fragments.
    encrypt_app_data crypto k iv plaintext \<lparr>re_seq = seq, re_out = out\<rparr> =
      (Ok (), [], \<lparr>re_seq = seq', re_out = out @ recs\<rparr>) \<and>
    decrypt_records crypto k iv recs seq = Ok (map (Pair CONTENT_TYPE_APPLICATION_DATA) fragments, seq') \<and>
    concat fragments = plaintext \<and> list_all (\<lambda>f. length f \<le> MAX_TLS_PLAINTEXT_LEN) fragments"
proof -
  let ?cs = "chunks MAX_TLS_PLAINTEXT_LEN plaintext"
  have "known_content_type CONTENT_TYPE_APPLICATION_DATA" by (simp add: known_content_type_def)
  then obtain recs seq' where r: "encrypt_chunks crypto k iv CONTENT_TYPE_APPLICATION_DATA ?cs
      \<lparr>re_seq = seq, re_out = out\<rparr> = (Ok (), \<lparr>re_seq = seq', re_out = out @ recs\<rparr>)"
      "decrypt_records crypto k iv recs seq = Ok (map (Pair CONTENT_TYPE_APPLICATION_DATA) ?cs, seq')"
    using encrypt_chunks_decrypts [OF assms(1,2) _ _ assms(3)] chunks_bound by metis
  have "concat ?cs = plaintext" "list_all (\<lambda>f. length f \<le> MAX_TLS_PLAINTEXT_LEN) ?cs"
    by (simp_all add: concat_chunks MAX_TLS_PLAINTEXT_LEN_def list_all_iff chunks_bound)
  with r show ?thesis
    by (intro exI [of _ recs] exI [of _ seq'] exI [of _ ?cs]) (simp add: encrypt_app_data_chunks)
qed

text \<open>An AEAD that marks what it sealed, to show that the assumption can be met.\<close>

definition marking_crypto :: Crypto where
  "marking_crypto =
     \<lparr>cr_seal = \<lambda>suite k nonce aad x. Inr (x @ replicate 16 7),
      cr_open = \<lambda>suite k nonce aad c. (c, if 16 \<le> length c \<and> drop (length c - 16) c = replicate 16 7
                  then Some (take (length c - 16) c) else None),
      cr_hash = \<lambda>h x. replicate (output_len h) 1, cr_hmac = \<lambda>h k x. replicate (output_len h) 2,
      cr_hkdf_sha256 = \<lambda>salt ikm info. Some (replicate 32 3),
      cr_x25519_public = \<lambda>k. Some k, cr_x25519_agree = \<lambda>k p. Some (replicate 32 4),
      cr_x509 = \<lambda>der. Some (take 32 der, replicate 64 2), cr_ed25519_verify = \<lambda>k m s. True\<rparr>"

lemma marking_crypto_ok: "aead_ok marking_crypto"
  by (simp add: aead_ok_def marking_crypto_def)

theorem record_layer_roundtrip_witness:
  "\<exists>recs seq' fragments.
    encrypt_app_data marking_crypto \<lparr>ak_suite = AES_128_GCM_SHA256, ak_key = replicate 16 0\<rparr> (replicate 12 0) [65, 66]
      \<lparr>re_seq = 5, re_out = []\<rparr> = (Ok (), [], \<lparr>re_seq = seq', re_out = [] @ recs\<rparr>) \<and>
    decrypt_records marking_crypto \<lparr>ak_suite = AES_128_GCM_SHA256, ak_key = replicate 16 0\<rparr> (replicate 12 0) recs 5 =
      Ok (map (Pair CONTENT_TYPE_APPLICATION_DATA) fragments, seq') \<and>
    concat fragments = [65, 66] \<and> list_all (\<lambda>f. length f \<le> MAX_TLS_PLAINTEXT_LEN) fragments"
  by (rule record_layer_roundtrip [OF marking_crypto_ok]) (simp_all add: chunks_single MAX_TLS_PLAINTEXT_LEN_def)

end
