(* ===== verification/Reality_Messages.thy ===== *)
theory Reality_Messages
  imports Reality_Records
begin

text \<open>
  The handshake messages of the REALITY client: their construction
  (\<open>prototype/vless/src/reality/reality_tls13_messages.rs\<close>) and the extraction of fields from ClientHello and
  ServerHello records (\<open>reality_util.rs\<close>). The lengths a constructor patches into a message afterwards are
  computed in place here.

  The lemmas show that every field put into a hello is the field that is extracted from it.
\<close>

section \<open>Construction\<close>

definition VERSION_TLS_1_2 :: bytes where "VERSION_TLS_1_2 = [0x03, 0x03]"
definition HANDSHAKE_TYPE_ENCRYPTED_EXTENSIONS :: u8 where "HANDSHAKE_TYPE_ENCRYPTED_EXTENSIONS = 8"
definition HANDSHAKE_TYPE_CERTIFICATE :: u8 where "HANDSHAKE_TYPE_CERTIFICATE = 11"
definition HANDSHAKE_TYPE_CERTIFICATE_VERIFY :: u8 where "HANDSHAKE_TYPE_CERTIFICATE_VERIFY = 15"
definition HANDSHAKE_TYPE_FINISHED :: u8 where "HANDSHAKE_TYPE_FINISHED = 20"

abbreviation len_be :: "nat \<Rightarrow> bytes" where "len_be n \<equiv> u16_to_be (of_nat n)"

definition write_record_header :: "u8 \<Rightarrow> u16 \<Rightarrow> bytes" where
  "write_record_header record_type len = [record_type] @ VERSION_TLS_1_2 @ u16_to_be len"

definition server_hello_extensions :: "bytes \<Rightarrow> bytes" where
  "server_hello_extensions key_share_data =
     [0x00, 0x2b, 0x00, 0x02, 0x03, 0x04] @
     [0x00, 0x33] @ len_be (2 + 2 + length key_share_data) @ [0x00, 0x1d] @ len_be (length key_share_data) @ key_share_data"

definition construct_server_hello :: "bytes \<Rightarrow> bytes \<Rightarrow> u16 \<Rightarrow> bytes \<Rightarrow> bytes" where
  "construct_server_hello server_random session_id cipher_suite key_share_data =
     (let extensions = server_hello_extensions key_share_data;
          payload = VERSION_TLS_1_2 @ server_random @ [of_nat (length session_id)] @ session_id @
            u16_to_be cipher_suite @ [0x00] @ len_be (length extensions) @ extensions
      in [HANDSHAKE_TYPE_SERVER_HELLO] @ u24_to_be (length payload) @ payload)"

definition construct_encrypted_extensions :: bytes where
  "construct_encrypted_extensions = [HANDSHAKE_TYPE_ENCRYPTED_EXTENSIONS, 0x00, 0x00, 2] @ u16_to_be 0"

definition construct_certificate :: "bytes \<Rightarrow> bytes" where
  "construct_certificate cert_der =
     (let cert_list_len = 3 + length cert_der + 2;
          payload_len = 1 + 3 + cert_list_len
      in [HANDSHAKE_TYPE_CERTIFICATE] @ u24_to_be payload_len @ [0x00] @ u24_to_be cert_list_len @
         u24_to_be (length cert_der) @ cert_der @ [0x00, 0x00])"

text \<open>The content a CertificateVerify signs: 64 spaces, the context string, a zero byte and the hash.\<close>

definition cert_verify_content :: "bytes \<Rightarrow> bytes" where
  "cert_verify_content transcript_hash =
     replicate 64 0x20 @ as_bytes ''TLS 1.3, server CertificateVerify'' @ [0x00] @ transcript_hash"

text \<open>\<open>sign\<close> is the Ed25519 key pair's signing operation.\<close>

definition construct_certificate_verify :: "(bytes \<Rightarrow> bytes) \<Rightarrow> bytes \<Rightarrow> bytes" where
  "construct_certificate_verify sign handshake_hash =
     (let signature = sign (cert_verify_content handshake_hash);
          payload = [0x08, 0x07] @ len_be (length signature) @ signature
      in [HANDSHAKE_TYPE_CERTIFICATE_VERIFY] @ u24_to_be (length payload) @ payload)"

definition construct_finished :: "bytes \<Rightarrow> bytes" where
  "construct_finished verify_data = [HANDSHAKE_TYPE_FINISHED] @ u24_to_be (length verify_data) @ verify_data"

definition DEFAULT_ALPN_PROTOCOLS :: "string list" where
  "DEFAULT_ALPN_PROTOCOLS = [''h2'', ''http/1.1'']"

definition server_name_extension :: "string \<Rightarrow> bytes" where
  "server_name_extension server_name =
     (let server_name_len = length server_name in
      [0x00, 0x00] @ len_be (5 + server_name_len) @ len_be (server_name_len + 3) @ [0x00] @
      len_be server_name_len @ as_bytes server_name)"

definition client_key_share_extension :: "bytes \<Rightarrow> bytes" where
  "client_key_share_extension client_public_key =
     [0x00, 0x33] @ len_be (2 + 4 + length client_public_key) @ len_be (4 + length client_public_key) @
     [0x00, 0x1d] @ len_be (length client_public_key) @ client_public_key"

definition fixed_extensions_before :: bytes where
  "fixed_extensions_before =
     [0x00, 0x2b, 0x00, 0x03, 0x02, 0x03, 0x04] @ [0x00, 0x0a, 0x00, 0x04, 0x00, 0x02, 0x00, 0x1d]"

definition signature_algorithms_extension :: bytes where
  "signature_algorithms_extension =
     [0x00, 0x0d, 0x00, 0x12, 0x00, 0x10, 0x04, 0x03, 0x08, 0x04, 0x04, 0x01, 0x05, 0x03, 0x08, 0x05,
      0x05, 0x01, 0x08, 0x06, 0x06, 0x01]"

definition alpn_extension :: "string list \<Rightarrow> bytes" where
  "alpn_extension alpn_protocols =
     (if alpn_protocols = [] then []
      else let protocols_list_len = sum_list (map (\<lambda>p. 1 + length p) alpn_protocols) in
        [0x00, 0x10] @ len_be (2 + protocols_list_len) @ len_be protocols_list_len @
        concat (map (\<lambda>p. of_nat (length p) # as_bytes p) alpn_protocols))"

definition construct_client_hello :: "bytes \<Rightarrow> bytes \<Rightarrow> bytes \<Rightarrow> string \<Rightarrow> u16 list \<Rightarrow> string list \<Rightarrow> bytes" where
  "construct_client_hello client_random session_id client_public_key server_name cipher_suites alpn_protocols =
     (let extensions = server_name_extension server_name @ fixed_extensions_before @
            client_key_share_extension client_public_key @ signature_algorithms_extension @ alpn_extension alpn_protocols;
          body = VERSION_TLS_1_2 @ client_random @ [32] @ session_id @
            len_be (length cipher_suites * 2) @ concat (map u16_to_be cipher_suites) @ [0x01, 0x00] @
            len_be (length extensions) @ extensions
      in [0x01] @ u24_to_be (length body) @ body)"

section \<open>Extraction\<close>

definition cursor_try :: "BufError + 'a \<Rightarrow> ('a \<Rightarrow> RealityError + 'b) \<Rightarrow> RealityError + 'b" where
  "cursor_try r f = and_then (map_err (\<lambda>e. Parse (HelloCursor e)) r) f"

lemma cursor_try_simps [simp]:
  "cursor_try (Inl e) f = Inl (Parse (HelloCursor e))"
  "cursor_try (Inr x) f = f x"
  by (simp_all add: cursor_try_def map_err_def)

lemma cursor_try_cong [fundef_cong]:
  "r = r' \<Longrightarrow> (\<And>x. r' = Inr x \<Longrightarrow> f x = g x) \<Longrightarrow> cursor_try r f = cursor_try r' g"
  by (cases r') simp_all

definition extract_client_random :: "bytes \<Rightarrow> RealityError + bytes" where
  "extract_client_random client_hello =
     (if length client_hello < 11 + 32 then Err (Parse HelloTooShort) else Ok (take 32 (drop 11 client_hello)))"

definition extract_session_id_slice :: "bytes \<Rightarrow> RealityError + bytes" where
  "extract_session_id_slice client_hello =
     (if length client_hello < 43 + 1 then Err (Parse HelloTooShort)
      else let session_id_len = unat (client_hello ! 43) in
        if length client_hello < 43 + 1 + session_id_len then Err (Parse HelloTooShort)
        else Ok (take session_id_len (drop 44 client_hello)))"

text \<open>The cursor behind handshake header, version, random and session id; common to all hellos.\<close>

definition skip_hello_start :: "bytes \<Rightarrow> (BufReader \<Rightarrow> RealityError + 'a) \<Rightarrow> RealityError + 'a" where
  "skip_hello_start hello k =
     (if length hello < TLS_HEADER_LEN then Err (Parse HelloTooShort)
      else cursor_try (read_u8 (BufReader_new (drop TLS_HEADER_LEN hello))) (\<lambda>(_, r).
           cursor_try (read_u24_be r) (\<lambda>(_, r).
           cursor_try (read_u16_be r) (\<lambda>(_, r).
           cursor_try (br_skip 32 r) (\<lambda>r.
           cursor_try (read_u8 r) (\<lambda>(session_id_len, r).
           cursor_try (br_skip (unat session_id_len) r) k))))))"

function parse_keyshare_entries :: "bytes \<Rightarrow> BufReader \<Rightarrow> RealityError + bytes" where
  "parse_keyshare_entries data reader =
     (if length data < br_pos reader + 4 then Err (Parse X25519ShareNotFound)
      else cursor_try (read_u16_be reader) (\<lambda>(grp, r).
           cursor_try (read_u16_be r) (\<lambda>(key_len, r).
             if length data < br_pos r + unat key_len then Err (Parse KeyShareExtendsPastEnd)
             else if grp = 0x001d then
               if key_len \<noteq> 32 then Err (Parse (InvalidX25519KeyLength (unat key_len)))
               else cursor_try (read_slice 32 r) (\<lambda>(key_bytes, _). Ok key_bytes)
             else cursor_try (br_skip (unat key_len) r) (\<lambda>r. parse_keyshare_entries data r))))"
  by pat_completeness auto
termination
  by (relation "measure (\<lambda>(_, r). length (br_buf r) - br_pos r)")
    (auto simp: read_u16_be_def br_skip_def split: if_splits)

declare parse_keyshare_entries.simps [simp del]

definition parse_keyshare_extension :: "bytes \<Rightarrow> RealityError + bytes" where
  "parse_keyshare_extension data =
     cursor_try (read_u16_be (BufReader_new data)) (\<lambda>(_, r). parse_keyshare_entries data r)"

definition parse_server_keyshare_extension :: "bytes \<Rightarrow> RealityError + bytes" where
  "parse_server_keyshare_extension data =
     cursor_try (read_u16_be (BufReader_new data)) (\<lambda>(grp, r).
     cursor_try (read_u16_be r) (\<lambda>(key_len, r).
       if grp = 29 then
         if key_len \<noteq> 32 then Err (Parse (InvalidX25519KeyLength (unat key_len)))
         else cursor_try (read_slice 32 r) (\<lambda>(key_bytes, _). Ok key_bytes)
       else Err (Parse X25519ShareNotFound)))"

text \<open>The loop over extensions up to the first key share, which \<open>parse\<close> reads.\<close>

function find_keyshare :: "(bytes \<Rightarrow> RealityError + bytes) \<Rightarrow> nat \<Rightarrow> BufReader \<Rightarrow> RealityError + bytes" where
  "find_keyshare parse extensions_end reader =
     (if extensions_end \<le> br_pos reader then Err (Parse KeyShareNotFound)
      else cursor_try (read_u16_be reader) (\<lambda>(ext_type, r).
           cursor_try (read_u16_be r) (\<lambda>(ext_len, r).
             if ext_type = 51 then cursor_try (read_slice (unat ext_len) r) (\<lambda>(slice, _). parse slice)
             else cursor_try (br_skip (unat ext_len) r) (\<lambda>r. find_keyshare parse extensions_end r))))"
  by pat_completeness auto
termination
  by (relation "measure (\<lambda>(_, _, r). length (br_buf r) - br_pos r)")
    (auto simp: read_u16_be_def br_skip_def split: if_splits)

declare find_keyshare.simps [simp del]

definition extract_client_public_key :: "bytes \<Rightarrow> RealityError + bytes" where
  "extract_client_public_key client_hello =
     skip_hello_start client_hello (\<lambda>r.
     cursor_try (read_u16_be r) (\<lambda>(cipher_suites_len, r).
     cursor_try (br_skip (unat cipher_suites_len) r) (\<lambda>r.
     cursor_try (read_u8 r) (\<lambda>(compression_len, r).
     cursor_try (br_skip (unat compression_len) r) (\<lambda>r.
     cursor_try (read_u16_be r) (\<lambda>(extensions_len, r).
       find_keyshare parse_keyshare_extension (br_pos r + unat extensions_len) r))))))"

definition extract_server_public_key :: "bytes \<Rightarrow> RealityError + bytes" where
  "extract_server_public_key server_hello =
     skip_hello_start server_hello (\<lambda>r.
     cursor_try (br_skip 2 r) (\<lambda>r.
     cursor_try (br_skip 1 r) (\<lambda>r.
     cursor_try (read_u16_be r) (\<lambda>(extensions_len, r).
       find_keyshare parse_server_keyshare_extension (br_pos r + unat extensions_len) r))))"

definition extract_server_cipher_suite :: "bytes \<Rightarrow> RealityError + u16" where
  "extract_server_cipher_suite server_hello =
     skip_hello_start server_hello (\<lambda>r. cursor_try (read_u16_be r) (\<lambda>(cipher_suite, _). Ok cipher_suite))"

fun pairs_be :: "bytes \<Rightarrow> u16 list" where
  "pairs_be (a # b # rest) = u16_from_be a b # pairs_be rest"
| "pairs_be _ = []"

definition extract_client_cipher_suites :: "bytes \<Rightarrow> RealityError + u16 list" where
  "extract_client_cipher_suites client_hello =
     skip_hello_start client_hello (\<lambda>r.
     cursor_try (read_u16_be r) (\<lambda>(cipher_suites_len, r).
       if odd (unat cipher_suites_len) then Err (Parse CipherSuitesLengthOdd)
       else cursor_try (read_slice (unat cipher_suites_len) r) (\<lambda>(data, _). Ok (pairs_be data))))"

definition negotiate_cipher_suite :: "CipherSuite list \<Rightarrow> u16 list \<Rightarrow> CipherSuite option" where
  "negotiate_cipher_suite server_preferences client_cipher_suite_ids =
     List.find (\<lambda>s. cs_id s \<in> set client_cipher_suite_ids) server_preferences"

section \<open>Keys and short ids in the configuration\<close>

text \<open>\<open>decode\<close> is the base64url decoder of the \<open>base64\<close> crate.\<close>

datatype DecodeError = InvalidBase64 | InvalidDecodedLength nat | ShortIdTooLong nat | InvalidHex

definition decode_public_key :: "(string \<Rightarrow> bytes option) \<Rightarrow> string \<Rightarrow> DecodeError + bytes" where
  "decode_public_key decode encoded =
     and_then (ok_or InvalidBase64 (decode encoded)) (\<lambda>decoded.
       if length decoded \<noteq> 32 then Err (InvalidDecodedLength (length decoded)) else Ok decoded)"

definition decode_private_key :: "(string \<Rightarrow> bytes option) \<Rightarrow> string \<Rightarrow> DecodeError + bytes" where
  "decode_private_key decode encoded =
     and_then (ok_or InvalidBase64 (decode encoded)) (\<lambda>decoded.
       if length decoded \<noteq> 32 then Err (InvalidDecodedLength (length decoded)) else Ok decoded)"

definition hex_char_to_value :: "u8 \<Rightarrow> u8 option" where
  "hex_char_to_value c =
     (if 0x30 \<le> c \<and> c \<le> 0x39 then Some (c - 0x30) else if 0x61 \<le> c \<and> c \<le> 0x66 then Some (c - 0x61 + 10)
      else if 0x41 \<le> c \<and> c \<le> 0x46 then Some (c - 0x41 + 10) else None)"

fun decode_hex_pairs :: "bytes \<Rightarrow> bytes option" where
  "decode_hex_pairs (a # b # rest) =
     (case (hex_char_to_value a, hex_char_to_value b) of
        (Some high, Some low) \<Rightarrow> map_option ((#) (or (push_bit 4 high) low)) (decode_hex_pairs rest)
      | _ \<Rightarrow> None)"
| "decode_hex_pairs _ = Some []"

text \<open>The width of \<open>format!\<close> counts characters: bytes that do not continue a UTF-8 sequence.\<close>

definition char_count :: "bytes \<Rightarrow> nat" where
  "char_count bs = length (filter (\<lambda>b. \<not> (0x80 \<le> b \<and> b \<le> 0xbf)) bs)"

definition decode_short_id :: "string \<Rightarrow> DecodeError + bytes" where
  "decode_short_id hex =
     (if 16 < length hex then Err (ShortIdTooLong (length hex))
      else let padded = as_bytes hex @ replicate (16 - char_count (as_bytes hex)) 0x30 in
        if length padded \<noteq> 8 * 2 then Err InvalidHex else ok_or InvalidHex (decode_hex_pairs padded))"

section \<open>Fields survive construction and extraction\<close>

lemma step_u24:
  assumes "reader_at r (u24_to_be n @ ys)"
  obtains w r' where "read_u24_be r = Ok (w, r')" "reader_at r' ys"
  using read_at(3) [of r _ _ _ ys] reader_at_advanced [OF assms, of 3] assms
  by (simp add: u24_to_be_def)

lemma skip_hello_start_at:
  assumes "length hdr = 5" "length random = 32" "length sid < 256"
    and "hello = hdr @ t # u24_to_be n @ VERSION_TLS_1_2 @ random @ of_nat (length sid) # sid @ rest"
  shows "\<exists>r. reader_at r rest \<and> (\<forall>k. skip_hello_start hello k = k r)"
proof -
  have sid: "unat (of_nat (length sid) :: u8) = length sid"
    using assms(3) by (simp add: unat_of_nat take_bit_eq_mod)
  define r0 where "r0 = BufReader_new (drop TLS_HEADER_LEN hello)"
  have v: "VERSION_TLS_1_2 = u16_to_be 0x303" by (simp add: VERSION_TLS_1_2_def u16_to_be_def)
  have "reader_at r0 (t # u24_to_be n @ u16_to_be 0x303 @ random @ of_nat (length sid) # sid @ rest)"
    using assms(1) by (simp add: r0_def assms(4) TLS_HEADER_LEN_def v)
  then obtain r1 where 1: "read_u8 r0 = Ok (t, r1)"
      "reader_at r1 (u24_to_be n @ u16_to_be 0x303 @ random @ of_nat (length sid) # sid @ rest)" by (rule step_u8)
  obtain w r2 where 2: "read_u24_be r1 = Ok (w, r2)" "reader_at r2 (u16_to_be 0x303 @ random @ of_nat (length sid) # sid @ rest)"
    using 1(2) by (rule step_u24)
  obtain r3 where 3: "read_u16_be r2 = Ok (0x303, r3)" "reader_at r3 (random @ of_nat (length sid) # sid @ rest)"
    using 2(2) by (rule step_u16)
  obtain r4 where 4: "br_skip 32 r3 = Ok r4" "reader_at r4 (of_nat (length sid) # sid @ rest)"
    using 3(2) by (rule step_slice) (simp add: assms(2))
  obtain r5 where 5: "read_u8 r4 = Ok (of_nat (length sid), r5)" "reader_at r5 (sid @ rest)"
    using 4(2) by (rule step_u8)
  obtain r6 where 6: "br_skip (length sid) r5 = Ok r6" "reader_at r6 rest"
    using 5(2) by (rule step_slice)
  have "\<not> length hello < TLS_HEADER_LEN" by (simp add: assms(1,4) TLS_HEADER_LEN_def)
  then have "skip_hello_start hello k = k r6" for k :: "BufReader \<Rightarrow> RealityError + 'a"
    using 1(1) 2(1) 3(1) 4(1) 5(1) 6(1) sid by (simp add: skip_hello_start_def r0_def)
  with 6(2) show ?thesis by blast
qed

text \<open>A cursor at \<open>ys\<close> stands that far before the end of its buffer.\<close>

lemma br_pos_at: "reader_at r (xs @ ys) \<Longrightarrow> reader_at r' ys \<Longrightarrow> br_buf r' = br_buf r \<Longrightarrow> br_pos r' = br_pos r + length xs"
  by (auto simp: reader_at_def)

lemma find_keyshare_encoded:
  assumes "reader_at r (concat (map encode_extension es) @ encode_extension (51, body) @ rest)"
    and "list_all (\<lambda>e. fst e \<noteq> 51 \<and> length (snd e) < 65536) es" "length body < 65536"
    and "br_pos r + length (concat (map encode_extension es) @ encode_extension (51, body)) \<le> e"
  shows "find_keyshare parse e r = parse body"
  using assms
proof (induction es arbitrary: r)
  case Nil
  then have 0: "reader_at r (u16_to_be 51 @ u16_to_be (of_nat (length body)) @ body @ rest)"
    by (simp add: extension_pair)
  note 1 = cursor_at_u16 [OF 0]
  note 2 = cursor_at_u16 [OF 1(2)]
  have "unat (of_nat (length body) :: u16) = length body" using Nil(3) by (rule unat_of_nat_u16)
  with Nil(4) 1(1) 2(1) slice_at(1) [OF 2(2) refl] show ?case
    by (subst find_keyshare.simps) (simp add: extension_pair)
next
  case (Cons x es)
  obtain t b where x: "x = (t, b)" by (cases x)
  let ?rest = "concat (map encode_extension es) @ encode_extension (51, body) @ rest"
  from Cons.prems(1) have 0: "reader_at r (u16_to_be t @ u16_to_be (of_nat (length b)) @ b @ ?rest)"
    by (simp add: x extension_pair)
  note 1 = cursor_at_u16 [OF 0]
  note 2 = cursor_at_u16 [OF 1(2)]
  let ?r = "advanced (length b) (advanced 2 (advanced 2 r))"
  have 3: "reader_at ?r ?rest" "br_skip (length b) (advanced 2 (advanced 2 r)) = Ok ?r"
    using reader_at_advanced [OF 2(2) refl] slice_at(2) [OF 2(2) refl] by simp_all
  have t: "t \<noteq> 51" and b: "unat (of_nat (length b) :: u16) = length b"
    using Cons.prems(2) by (simp_all add: x unat_of_nat_u16)
  have "find_keyshare parse e ?r = parse body"
    using Cons.prems(2,3,4) by (intro Cons.IH [OF 3(1)]) (simp_all add: x extension_pair)
  then show ?case
    using Cons.prems(4) 1(1) 2(1) 3(2) t b
    by (subst find_keyshare.simps) (simp add: x extension_pair)
qed

lemma server_hello_extensions_encoded:
  "length key = 32 \<Longrightarrow> server_hello_extensions key =
     encode_extension (43, [3, 4]) @ encode_extension (51, [0x00, 0x1d] @ len_be 32 @ key)"
  by (simp add: server_hello_extensions_def extension_pair u16_to_be_def)

lemma parse_server_keyshare_encoded:
  assumes "length key = 32"
  shows "parse_server_keyshare_extension ([0x00, 0x1d] @ len_be 32 @ key) = Ok key"
proof -
  have "reader_at (BufReader_new ([0x00, 0x1d] @ len_be 32 @ key)) (u16_to_be 29 @ u16_to_be 32 @ key @ [])"
    using reader_at_new [of "[0x00, 0x1d] @ len_be 32 @ key"] by (simp add: u16_to_be_def)
  then obtain r1 where 1: "read_u16_be (BufReader_new ([0x00, 0x1d] @ len_be 32 @ key)) = Ok (29, r1)"
      "reader_at r1 (u16_to_be 32 @ key @ [])" by (rule step_u16)
  obtain r2 where 2: "read_u16_be r1 = Ok (32, r2)" "reader_at r2 (key @ [])" using 1(2) by (rule step_u16)
  obtain r3 where "read_slice 32 r2 = Ok (key, r3)" using 2(2) by (rule step_slice) (simp add: assms)
  with 1(1) 2(1) show ?thesis by (simp add: parse_server_keyshare_extension_def)
qed

lemma server_hello_fields:
  assumes "length hdr = 5" "length random = 32" "length sid < 256" "length key = 32"
  shows "extract_server_public_key (hdr @ construct_server_hello random sid suite key) = Ok key"
    "extract_server_cipher_suite (hdr @ construct_server_hello random sid suite key) = Ok suite"
proof -
  let ?es = "server_hello_extensions key"
  define rest where "rest = u16_to_be suite @ [0x00] @ len_be (length ?es) @ ?es"
  obtain n where hello: "hdr @ construct_server_hello random sid suite key =
      hdr @ 2 # u24_to_be n @ VERSION_TLS_1_2 @ random @ of_nat (length sid) # sid @ rest"
    by (simp add: construct_server_hello_def rest_def HANDSHAKE_TYPE_SERVER_HELLO_def Let_def)
  have es: "length ?es = 46" "?es = encode_extension (43, [3, 4]) @ encode_extension (51, [0x00, 0x1d] @ len_be 32 @ key) @ []"
    using assms(4) by (simp_all add: server_hello_extensions_encoded extension_pair)
  obtain r where r: "reader_at r rest" "\<And>k :: BufReader \<Rightarrow> RealityError + bytes.
      skip_hello_start (hdr @ construct_server_hello random sid suite key) k = k r"
    using skip_hello_start_at [OF assms(1-3) hello] by blast
  obtain r1 where 1: "br_skip 2 r = Ok r1" "reader_at r1 ([0x00] @ len_be (length ?es) @ ?es)"
    using r(1) unfolding rest_def by (rule step_slice) simp
  obtain r2 where 2: "br_skip 1 r1 = Ok r2" "reader_at r2 (len_be (length ?es) @ ?es)"
    using 1(2) by (rule step_slice) simp
  obtain r3 where 3: "read_u16_be r2 = Ok (of_nat (length ?es), r3)" "reader_at r3 ?es"
    using 2(2) by (rule step_u16)
  have "find_keyshare parse_server_keyshare_extension (br_pos r3 + 46) r3 = Ok key"
    using find_keyshare_encoded [of r3 "[(43, [3, 4])]" "[0x00, 0x1d] @ len_be 32 @ key" "[]" "br_pos r3 + 46"]
      3(2) es assms(4) parse_server_keyshare_encoded [OF assms(4)]
    by (simp add: extension_pair)
  then show "extract_server_public_key (hdr @ construct_server_hello random sid suite key) = Ok key"
    using 1(1) 2(1) 3(1) by (simp add: extract_server_public_key_def r(2) es(1))
next
  let ?es = "server_hello_extensions key"
  define rest where "rest = [0x00] @ len_be (length ?es) @ ?es"
  obtain n where hello: "hdr @ construct_server_hello random sid suite key =
      hdr @ 2 # u24_to_be n @ VERSION_TLS_1_2 @ random @ of_nat (length sid) # sid @ u16_to_be suite @ rest"
    by (simp add: construct_server_hello_def rest_def HANDSHAKE_TYPE_SERVER_HELLO_def Let_def)
  obtain r where r: "reader_at r (u16_to_be suite @ rest)"
      "\<And>k :: BufReader \<Rightarrow> RealityError + u16. skip_hello_start (hdr @ construct_server_hello random sid suite key) k = k r"
    using skip_hello_start_at [OF assms(1-3) hello] by blast
  obtain r1 where "read_u16_be r = Ok (suite, r1)" using r(1) by (rule step_u16)
  then show "extract_server_cipher_suite (hdr @ construct_server_hello random sid suite key) = Ok suite"
    by (simp add: extract_server_cipher_suite_def r(2))
qed

lemma parse_keyshare_encoded:
  assumes "length key = 32"
  shows "parse_keyshare_extension (len_be 36 @ [0x00, 0x1d] @ len_be 32 @ key) = Ok key"
proof -
  let ?d = "len_be 36 @ [0x00, 0x1d] @ len_be 32 @ key"
  have "reader_at (BufReader_new ?d) (u16_to_be 36 @ u16_to_be 29 @ u16_to_be 32 @ key @ [])"
    using reader_at_new [of ?d] by (simp add: u16_to_be_def)
  then have 1: "read_u16_be (BufReader_new ?d) = Ok (36, advanced 2 (BufReader_new ?d))"
      "reader_at (advanced 2 (BufReader_new ?d)) (u16_to_be 29 @ u16_to_be 32 @ key @ [])" by (rule cursor_at_u16)+
  note 2 = cursor_at_u16 [OF 1(2)]
  note 3 = cursor_at_u16 [OF 2(2)]
  have 4: "read_slice 32 (advanced 2 (advanced 2 (advanced 2 (BufReader_new ?d)))) =
      Ok (key, advanced 32 (advanced 2 (advanced 2 (advanced 2 (BufReader_new ?d)))))"
    using slice_at(1) [OF 3(2), of 32] assms by simp
  have pos: "br_pos (BufReader_new ?d) = 0" by (simp add: BufReader_new_def)
  show ?thesis
    using 1(1) 2(1) 3(1) 4 assms pos
    by (simp add: parse_keyshare_extension_def) (subst parse_keyshare_entries.simps, simp)
qed

text \<open>The extensions of a ClientHello, in the order of the source, as a list.\<close>

definition client_extensions :: "bytes \<Rightarrow> string \<Rightarrow> string list \<Rightarrow> bytes" where
  "client_extensions key server_name alpn =
     server_name_extension server_name @ fixed_extensions_before @ client_key_share_extension key @
     signature_algorithms_extension @ alpn_extension alpn"

lemma client_extensions_encoded:
  assumes "length key = 32" "length server_name < 65000"
  shows "\<exists>b rest. client_extensions key server_name alpn =
      concat (map encode_extension [(0, b), (43, [2, 3, 4]), (10, [0, 2, 0, 0x1d])]) @
      encode_extension (51, len_be 36 @ [0x00, 0x1d] @ len_be 32 @ key) @ rest \<and> length b < 65536"
proof -
  let ?n = "length server_name"
  let ?b = "len_be (?n + 3) @ [0x00] @ len_be ?n @ as_bytes server_name"
  have "server_name_extension server_name = encode_extension (0, ?b)"
    by (simp add: server_name_extension_def extension_pair u16_to_be_def [of 0] Let_def algebra_simps)
  moreover have "fixed_extensions_before = encode_extension (43, [2, 3, 4]) @ encode_extension (10, [0, 2, 0, 0x1d])"
    by (simp add: fixed_extensions_before_def extension_pair u16_to_be_def)
  moreover have "client_key_share_extension key = encode_extension (51, len_be 36 @ [0x00, 0x1d] @ len_be 32 @ key)"
    using assms(1) by (simp add: client_key_share_extension_def extension_pair u16_to_be_def)
  moreover have "length ?b < 65536" using assms(2) by simp
  ultimately show ?thesis unfolding client_extensions_def by auto
qed

lemma construct_client_hello_layout:
  "\<exists>n. construct_client_hello random sid key server_name suites alpn =
     1 # u24_to_be n @ VERSION_TLS_1_2 @ random @ 32 # sid @
     (len_be (length suites * 2) @ concat (map u16_to_be suites) @ [0x01, 0x00] @
      len_be (length (client_extensions key server_name alpn)) @ client_extensions key server_name alpn)"
  by (auto simp: construct_client_hello_def client_extensions_def Let_def)

lemma length_concat_u16 [simp]: "length (concat (map u16_to_be ws)) = length ws * 2"
  by (induction ws) simp_all

lemma pairs_be_encoded [simp]: "pairs_be (concat (map u16_to_be ws)) = ws"
proof (induction ws)
  case (Cons w ws)
  obtain a b where "u16_to_be w = [a, b]" "u16_from_be a b = w" by (metis u16_be_roundtrip u16_to_be_def)
  with Cons show ?case by simp
qed simp

lemma client_hello_start:
  assumes "length hdr = 5" "length random = 32" "length sid = 32"
  shows "\<exists>r. reader_at r (len_be (length suites * 2) @ concat (map u16_to_be suites) @ [0x01, 0x00] @
      len_be (length (client_extensions key server_name alpn)) @ client_extensions key server_name alpn) \<and>
    (\<forall>k. skip_hello_start (hdr @ construct_client_hello random sid key server_name suites alpn) k = k r)"
proof -
  have "length sid < 256" "(of_nat (length sid) :: u8) = 32" using assms(3) by simp_all
  moreover obtain n where "construct_client_hello random sid key server_name suites alpn =
     1 # u24_to_be n @ VERSION_TLS_1_2 @ random @ 32 # sid @
     (len_be (length suites * 2) @ concat (map u16_to_be suites) @ [0x01, 0x00] @
      len_be (length (client_extensions key server_name alpn)) @ client_extensions key server_name alpn)"
    using construct_client_hello_layout by blast
  ultimately show ?thesis by (intro skip_hello_start_at [OF assms(1,2), where t = 1 and n = n]) simp_all
qed

lemma client_hello_public_key:
  assumes "length hdr = 5" "length random = 32" "length sid = 32" "length key = 32" "length suites * 2 < 65536"
    and "length server_name < 65000" "length (client_extensions key server_name alpn) < 65536"
  shows "extract_client_public_key (hdr @ construct_client_hello random sid key server_name suites alpn) = Ok key"
proof -
  let ?es = "client_extensions key server_name alpn" and ?cs = "concat (map u16_to_be suites)"
  obtain r where r: "reader_at r (len_be (length suites * 2) @ ?cs @ [0x01, 0x00] @ len_be (length ?es) @ ?es)"
      "\<And>k :: BufReader \<Rightarrow> RealityError + bytes.
        skip_hello_start (hdr @ construct_client_hello random sid key server_name suites alpn) k = k r"
    using client_hello_start [OF assms(1-3)] by blast
  obtain r1 where 1: "read_u16_be r = Ok (of_nat (length suites * 2), r1)"
      "reader_at r1 (?cs @ [0x01, 0x00] @ len_be (length ?es) @ ?es)" using r(1) by (rule step_u16)
  obtain r2 where 2: "br_skip (length suites * 2) r1 = Ok r2" "reader_at r2 (1 # [0x00] @ len_be (length ?es) @ ?es)"
    using 1(2) by (rule step_slice) simp
  obtain r3 where 3: "read_u8 r2 = Ok (1, r3)" "reader_at r3 ([0x00] @ len_be (length ?es) @ ?es)"
    using 2(2) by (rule step_u8)
  obtain r4 where 4: "br_skip 1 r3 = Ok r4" "reader_at r4 (len_be (length ?es) @ ?es)"
    using 3(2) by (rule step_slice) simp
  obtain r5 where 5: "read_u16_be r4 = Ok (of_nat (length ?es), r5)" "reader_at r5 ?es"
    using 4(2) by (rule step_u16)
  obtain b rest where b: "?es = concat (map encode_extension [(0, b), (43, [2, 3, 4]), (10, [0, 2, 0, 0x1d])]) @
      encode_extension (51, len_be 36 @ [0x00, 0x1d] @ len_be 32 @ key) @ rest" "length b < 65536"
    using client_extensions_encoded [OF assms(4,6)] by blast
  have "find_keyshare parse_keyshare_extension (br_pos r5 + length ?es) r5 =
      parse_keyshare_extension (len_be 36 @ [0x00, 0x1d] @ len_be 32 @ key)"
    using 5(2) b assms(4)
    by (intro find_keyshare_encoded [where es = "[(0, b), (43, [2, 3, 4]), (10, [0, 2, 0, 0x1d])]" and rest = rest]) simp_all
  moreover have "unat (of_nat (length suites * 2) :: u16) = length suites * 2" "unat (of_nat (length ?es) :: u16) = length ?es"
    using assms(5,7) by (simp_all add: unat_of_nat_u16 del: of_nat_mult)
  ultimately show ?thesis
    using 1(1) 2(1) 3(1) 4(1) 5(1) parse_keyshare_encoded [OF assms(4)]
    by (simp add: extract_client_public_key_def r(2) del: of_nat_mult)
qed

lemma client_hello_cipher_suites:
  assumes "length hdr = 5" "length random = 32" "length sid = 32" "length suites * 2 < 65536"
  shows "extract_client_cipher_suites (hdr @ construct_client_hello random sid key server_name suites alpn) = Ok suites"
proof -
  let ?es = "client_extensions key server_name alpn" and ?cs = "concat (map u16_to_be suites)"
  obtain r where r: "reader_at r (len_be (length suites * 2) @ ?cs @ [0x01, 0x00] @ len_be (length ?es) @ ?es)"
      "\<And>k :: BufReader \<Rightarrow> RealityError + u16 list.
        skip_hello_start (hdr @ construct_client_hello random sid key server_name suites alpn) k = k r"
    using client_hello_start [OF assms(1-3)] by blast
  obtain r1 where 1: "read_u16_be r = Ok (of_nat (length suites * 2), r1)"
      "reader_at r1 (?cs @ [0x01, 0x00] @ len_be (length ?es) @ ?es)" using r(1) by (rule step_u16)
  obtain r2 where 2: "read_slice (length suites * 2) r1 = Ok (?cs, r2)"
    using 1(2) by (rule step_slice) simp
  have "unat (of_nat (length suites * 2) :: u16) = length suites * 2"
    using assms(4) by (simp add: unat_of_nat_u16 del: of_nat_mult)
  with 1(1) 2 show ?thesis by (simp add: extract_client_cipher_suites_def r(2) del: of_nat_mult)
qed

lemma hello_fields:
  assumes "length hdr = 5" "length random = 32" "length sid = 32" "length key = 32"
    and "length suites * 2 < 65536" "length server_name < 65000"
    and "length (client_extensions key server_name alpn) < 65536"
  shows "extract_client_random (hdr @ construct_client_hello random sid key server_name suites alpn) = Ok random"
    and "extract_session_id_slice (hdr @ construct_client_hello random sid key server_name suites alpn) = Ok sid"
    and "extract_client_cipher_suites (hdr @ construct_client_hello random sid key server_name suites alpn) = Ok suites"
    and "extract_client_public_key (hdr @ construct_client_hello random sid key server_name suites alpn) = Ok key"
    and "take 32 (drop 39 (construct_client_hello random sid key server_name suites alpn)) = sid"
    and "extract_server_public_key (hdr @ construct_server_hello random sid suite key) = Ok key"
    and "extract_server_cipher_suite (hdr @ construct_server_hello random sid suite key) = Ok suite"
proof -
  obtain n rest where "construct_client_hello random sid key server_name suites alpn =
      1 # u24_to_be n @ VERSION_TLS_1_2 @ random @ 32 # sid @ rest"
    using construct_client_hello_layout by blast
  then have hello: "hdr @ construct_client_hello random sid key server_name suites alpn =
      (hdr @ 1 # u24_to_be n @ VERSION_TLS_1_2) @ random @ 32 # sid @ rest"
    "construct_client_hello random sid key server_name suites alpn =
      (1 # u24_to_be n @ VERSION_TLS_1_2 @ random @ [32]) @ sid @ rest" by simp_all
  have len: "length (hdr @ 1 # u24_to_be n @ VERSION_TLS_1_2) = 11"
    "length (1 # u24_to_be n @ VERSION_TLS_1_2 @ random @ [32]) = 39"
    using assms(1,2) by (simp_all add: u24_to_be_def VERSION_TLS_1_2_def)
  show "extract_client_random (hdr @ construct_client_hello random sid key server_name suites alpn) = Ok random"
    using len(1) assms(2) by (simp add: extract_client_random_def hello(1) del: append_assoc)
  show "extract_session_id_slice (hdr @ construct_client_hello random sid key server_name suites alpn) = Ok sid"
    using len(1) assms(2,3) by (simp add: extract_session_id_slice_def hello(1) nth_append del: append_assoc)
  show "take 32 (drop 39 (construct_client_hello random sid key server_name suites alpn)) = sid"
    using len(2) assms(3) by (simp only: hello(2) drop_append) simp
  show "extract_client_cipher_suites (hdr @ construct_client_hello random sid key server_name suites alpn) = Ok suites"
    using assms by (intro client_hello_cipher_suites)
  show "extract_client_public_key (hdr @ construct_client_hello random sid key server_name suites alpn) = Ok key"
    using assms by (intro client_hello_public_key)
  show "extract_server_public_key (hdr @ construct_server_hello random sid suite key) = Ok key"
    "extract_server_cipher_suite (hdr @ construct_server_hello random sid suite key) = Ok suite"
    using assms by (simp_all add: server_hello_fields)
qed

text \<open>
  C29: the fields of a hello are found where they were put. From a record that carries a constructed
  ClientHello the extractors return its random, session id, cipher suites and X25519 key, and the session
  id is at the offsets 39 to 71 of the handshake message that the client overwrites with the encrypted
  one; from a record that carries a constructed ServerHello they return its X25519 key and cipher suite.
\<close>

theorem hello_fields_roundtrip:
  assumes "length hdr = 5" "length random = 32" "length sid = 32" "length key = 32"
    and "length suites * 2 < 65536" "length server_name < 65000"
    and "length (client_extensions key server_name alpn) < 65536"
  shows "let client = construct_client_hello random sid key server_name suites alpn;
             server = construct_server_hello random sid suite key
         in extract_client_random (hdr @ client) = Ok random \<and> extract_session_id_slice (hdr @ client) = Ok sid \<and>
            extract_client_cipher_suites (hdr @ client) = Ok suites \<and> extract_client_public_key (hdr @ client) = Ok key \<and>
            take 32 (drop 39 client) = sid \<and>
            extract_server_public_key (hdr @ server) = Ok key \<and> extract_server_cipher_suite (hdr @ server) = Ok suite"
  using hello_fields [OF assms] by (simp add: Let_def)

theorem hello_fields_roundtrip_witness:
  "let client = construct_client_hello (replicate 32 1) (replicate 32 2) (replicate 32 3) ''example.com''
           [0x1301, 0x1302] DEFAULT_ALPN_PROTOCOLS;
       server = construct_server_hello (replicate 32 1) (replicate 32 2) 0x1302 (replicate 32 3);
       hdr = write_record_header 0x16 200
   in extract_client_random (hdr @ client) = Ok (replicate 32 1) \<and> extract_session_id_slice (hdr @ client) = Ok (replicate 32 2) \<and>
      extract_client_cipher_suites (hdr @ client) = Ok [0x1301, 0x1302] \<and>
      extract_client_public_key (hdr @ client) = Ok (replicate 32 3) \<and> take 32 (drop 39 client) = replicate 32 2 \<and>
      extract_server_public_key (hdr @ server) = Ok (replicate 32 3) \<and> extract_server_cipher_suite (hdr @ server) = Ok 0x1302"
proof -
  have "length (client_extensions (replicate 32 3) ''example.com'' DEFAULT_ALPN_PROTOCOLS) < 65536" by code_simp
  then show ?thesis
    using hello_fields_roundtrip [of "write_record_header 0x16 200" "replicate 32 1" "replicate 32 2" "replicate 32 3"
        "[0x1301, 0x1302]" "''example.com''" DEFAULT_ALPN_PROTOCOLS "0x1302"]
    by (simp add: write_record_header_def VERSION_TLS_1_2_def Let_def)
qed

end
