(* ===== verification/Reality_Keys.thy ===== *)
theory Reality_Keys
  imports Reality_Messages
begin

text \<open>
  The key schedule of the REALITY client (\<open>prototype/vless/src/reality/reality_tls13_keys.rs\<close>), its
  authentication key and session id (\<open>reality_auth.rs\<close>), and the verification of the server's
  certificate (\<open>reality_client_verify.rs\<close>). HMAC, the digests, HKDF-SHA256, X25519, the X.509 parser
  and Ed25519 are fields of \<open>Crypto\<close>; an X.509 certificate is its subject public key and its signature.

  The lemmas compare \<open>hkdf_expand\<close> with the definition of RFC 5869, show that every derived key has the
  length its consumer checks for, and that the certificate messages that were constructed are the ones
  that verify.
\<close>

section \<open>Key schedule\<close>

definition div_ceil :: "nat \<Rightarrow> nat \<Rightarrow> nat" where
  "div_ceil a b = a div b + (if a mod b = 0 then 0 else 1)"

text \<open>Rounds \<open>i\<close> to \<open>n\<close> of the loop; \<open>prev\<close> is the last block.\<close>

function hkdf_rounds :: "Crypto \<Rightarrow> HashAlgorithm \<Rightarrow> bytes \<Rightarrow> bytes \<Rightarrow> nat \<Rightarrow> nat \<Rightarrow> bytes \<Rightarrow> bytes \<Rightarrow> bytes" where
  "hkdf_rounds crypto h prk info i n prev output =
     (if n < i then output
      else let tag = cr_hmac crypto h prk (prev @ info @ [of_nat i])
           in hkdf_rounds crypto h prk info (i + 1) n tag (output @ tag))"
  by pat_completeness auto
termination by (relation "measure (\<lambda>(crypto, h, prk, info, i, n, prev, output). Suc n - i)") auto

declare hkdf_rounds.simps [simp del]

definition hkdf_expand :: "Crypto \<Rightarrow> HashAlgorithm \<Rightarrow> bytes \<Rightarrow> bytes \<Rightarrow> nat \<Rightarrow> RealityError + bytes" where
  "hkdf_expand crypto h prk info len =
     (let n = div_ceil len (output_len h) in
      if 255 < n then Err (Keys HkdfOutputTooLong)
      else Ok (take len (hkdf_rounds crypto h prk info 1 n [] [])))"

definition hkdf_expand_label :: "Crypto \<Rightarrow> HashAlgorithm \<Rightarrow> bytes \<Rightarrow> string \<Rightarrow> bytes \<Rightarrow> nat \<Rightarrow> RealityError + bytes" where
  "hkdf_expand_label crypto h secret label context len =
     (let full_label = ''tls13 '' @ label;
          hkdf_label = len_be len @ [of_nat (length full_label)] @ as_bytes full_label @
            [of_nat (length context)] @ context
      in hkdf_expand crypto h secret hkdf_label len)"

definition derive_secret :: "Crypto \<Rightarrow> HashAlgorithm \<Rightarrow> bytes \<Rightarrow> string \<Rightarrow> bytes \<Rightarrow> RealityError + bytes" where
  "derive_secret crypto h secret label messages_hash =
     hkdf_expand_label crypto h secret label messages_hash (output_len h)"

definition hkdf_extract :: "Crypto \<Rightarrow> HashAlgorithm \<Rightarrow> bytes \<Rightarrow> bytes \<Rightarrow> bytes" where
  "hkdf_extract crypto h salt ikm = cr_hmac crypto h salt ikm"

definition derive_traffic_keys :: "Crypto \<Rightarrow> bytes \<Rightarrow> CipherSuite \<Rightarrow> RealityError + bytes \<times> bytes" where
  "derive_traffic_keys crypto traffic_secret cs =
     (let h = digest_algorithm cs in
      and_then (hkdf_expand_label crypto h traffic_secret ''key'' [] (key_len cs)) (\<lambda>k.
      and_then (hkdf_expand_label crypto h traffic_secret ''iv'' [] (nonce_len cs)) (\<lambda>iv. Ok (k, iv))))"

record Tls13HandshakeKeys =
  hk_client_handshake_traffic_secret :: bytes
  hk_server_handshake_traffic_secret :: bytes
  hk_master_secret :: bytes

definition derive_handshake_keys :: "Crypto \<Rightarrow> CipherSuite \<Rightarrow> bytes \<Rightarrow> bytes \<Rightarrow> RealityError + Tls13HandshakeKeys" where
  "derive_handshake_keys crypto cs shared_secret server_hello_hash =
     (let h = digest_algorithm cs; zero_salt = replicate (hash_len cs) 0; empty_hash = cr_hash crypto h [] in
      if length shared_secret \<noteq> 32 then Err (Keys (SharedSecretLength (length shared_secret)))
      else if length server_hello_hash \<noteq> hash_len cs then Err (Keys (HashLengthMismatch (length server_hello_hash)))
      else let early_secret = hkdf_extract crypto h zero_salt zero_salt in
        and_then (derive_secret crypto h early_secret ''derived'' empty_hash) (\<lambda>derived_secret.
        let handshake_secret = hkdf_extract crypto h derived_secret shared_secret in
        and_then (derive_secret crypto h handshake_secret ''c hs traffic'' server_hello_hash) (\<lambda>client_secret.
        and_then (derive_secret crypto h handshake_secret ''s hs traffic'' server_hello_hash) (\<lambda>server_secret.
        and_then (derive_secret crypto h handshake_secret ''derived'' empty_hash) (\<lambda>derived_secret_2.
          Ok \<lparr>hk_client_handshake_traffic_secret = client_secret,
              hk_server_handshake_traffic_secret = server_secret,
              hk_master_secret = hkdf_extract crypto h derived_secret_2 zero_salt\<rparr>)))))"

definition derive_application_secrets :: "Crypto \<Rightarrow> CipherSuite \<Rightarrow> bytes \<Rightarrow> bytes \<Rightarrow> RealityError + bytes \<times> bytes" where
  "derive_application_secrets crypto cs master_secret handshake_hash =
     (let h = digest_algorithm cs in
      if length master_secret \<noteq> hash_len cs \<or> length handshake_hash \<noteq> hash_len cs then Err (Keys SecretLengthMismatch)
      else and_then (derive_secret crypto h master_secret ''c ap traffic'' handshake_hash) (\<lambda>client_secret.
           and_then (derive_secret crypto h master_secret ''s ap traffic'' handshake_hash) (\<lambda>server_secret.
             Ok (client_secret, server_secret))))"

definition compute_finished_verify_data :: "Crypto \<Rightarrow> CipherSuite \<Rightarrow> bytes \<Rightarrow> bytes \<Rightarrow> RealityError + bytes" where
  "compute_finished_verify_data crypto cs base_key handshake_hash =
     and_then (hkdf_expand_label crypto (digest_algorithm cs) base_key ''finished'' [] (hash_len cs))
       (\<lambda>finished_key. Ok (cr_hmac crypto (digest_algorithm cs) finished_key handshake_hash))"

section \<open>Authentication\<close>

definition perform_ecdh :: "Crypto \<Rightarrow> bytes \<Rightarrow> bytes \<Rightarrow> RealityError + bytes" where
  "perform_ecdh crypto private_key public_key =
     and_then (ok_or (Keys AuthEcdhFailed) (cr_x25519_public crypto private_key)) (\<lambda>_.
       ok_or (Keys AuthEcdhFailed) (cr_x25519_agree crypto private_key public_key))"

definition derive_auth_key :: "Crypto \<Rightarrow> bytes \<Rightarrow> bytes \<Rightarrow> bytes \<Rightarrow> RealityError + bytes" where
  "derive_auth_key crypto shared_secret salt info = ok_or (Keys HkdfFailed) (cr_hkdf_sha256 crypto salt shared_secret info)"

definition encrypt_session_id :: "Crypto \<Rightarrow> bytes \<Rightarrow> bytes \<Rightarrow> bytes \<Rightarrow> bytes \<Rightarrow> RealityError + bytes" where
  "encrypt_session_id crypto plaintext auth_key nonce aad =
     (case cr_seal crypto AES_256_GCM_SHA384 auth_key nonce aad plaintext of
        Inl _ \<Rightarrow> Err (Keys SessionIdEncryptionFailed)
      | Inr sealed \<Rightarrow> if length sealed \<noteq> 32 then Err (Keys SessionIdEncryptionFailed) else Ok sealed)"

definition decrypt_session_id :: "Crypto \<Rightarrow> bytes \<Rightarrow> bytes \<Rightarrow> bytes \<Rightarrow> bytes \<Rightarrow> RealityError + bytes" where
  "decrypt_session_id crypto ciphertext_and_tag auth_key nonce aad =
     (case snd (cr_open crypto AES_256_GCM_SHA384 auth_key nonce aad ciphertext_and_tag) of
        None \<Rightarrow> Err (Aead DecryptionFailed)
      | Some plain \<Rightarrow> if length plain \<noteq> 16 then Err (Aead DecryptionFailed) else Ok plain)"

section \<open>Certificate verification\<close>

definition u24_at :: "bytes \<Rightarrow> nat \<Rightarrow> nat" where
  "u24_at bs i = unat (u24_from_be (bs ! i) (bs ! (i + 1)) (bs ! (i + 2)))"

definition extract_certificate_der :: "bytes \<Rightarrow> RealityError + bytes" where
  "extract_certificate_der m =
     (if length m < 4 then Err (Verify CertificateTooShort)
      else if length m \<le> 4 then Err (Verify CertificateTruncated)
      else let pos = 4 + 1 + unat (m ! 4) in
        if length m < pos + 3 then Err (Verify CertificateTruncated)
        else if length m < pos + 3 + 3 then Err (Verify CertificateTruncated)
        else let cert_len = u24_at m (pos + 3) in
          if length m < pos + 6 + cert_len then Err (Verify CertificateTruncated)
          else Ok (take cert_len (drop (pos + 6) m)))"

definition verify_certificate_hmac :: "Crypto \<Rightarrow> bytes \<Rightarrow> bytes \<Rightarrow> RealityError + unit" where
  "verify_certificate_hmac crypto cert_der auth_key =
     and_then (ok_or (Verify CertificateUnparsable) (cr_x509 crypto cert_der)) (\<lambda>(pubkey_data, signature).
       if length pubkey_data \<noteq> 32 then Err (Verify (PublicKeyNotEd25519 (length pubkey_data)))
       else if length signature \<noteq> 64 then Err (Verify (SignatureNot64Bytes (length signature)))
       else if cr_hmac crypto SHA512 auth_key pubkey_data \<noteq> signature then Err (Verify CertificateHmacMismatch)
       else Ok ())"

definition extract_ed25519_public_key :: "Crypto \<Rightarrow> bytes \<Rightarrow> RealityError + bytes" where
  "extract_ed25519_public_key crypto cert_der =
     and_then (ok_or (Verify CertificateUnparsable) (cr_x509 crypto cert_der)) (\<lambda>(pubkey_data, _).
       if length pubkey_data \<noteq> 32 then Err (Verify (PublicKeyNotEd25519 (length pubkey_data))) else Ok pubkey_data)"

definition extract_certificate_verify_signature :: "bytes \<Rightarrow> RealityError + bytes" where
  "extract_certificate_verify_signature m =
     (if length m < 72 then Err (Verify (CertVerifyTooShort (length m)))
      else if m ! 0 \<noteq> 0x0f then Err (Verify (CertVerifyType (m ! 0)))
      else let sig_alg = u16_from_be (m ! 4) (m ! 5); sig_len = unat (u16_from_be (m ! 6) (m ! 7)) in
        if sig_alg \<noteq> 0x0807 then Err (Verify (CertVerifyAlgorithm sig_alg))
        else if sig_len \<noteq> 64 then Err (Verify (CertVerifySignatureLength sig_len))
        else if length m < 8 + sig_len then Err (Verify CertVerifyTruncated)
        else Ok (take sig_len (drop 8 m)))"

definition verify_certificate_verify_signature :: "Crypto \<Rightarrow> bytes \<Rightarrow> bytes \<Rightarrow> bytes \<Rightarrow> RealityError + unit" where
  "verify_certificate_verify_signature crypto public_key signature transcript_hash =
     (if length signature \<noteq> 64 then Err (Verify (CertVerifySignatureLength (length signature)))
      else if cr_ed25519_verify crypto public_key (cert_verify_content transcript_hash) signature then Ok ()
      else Err (Verify CertVerifyMismatch))"

section \<open>HKDF as RFC 5869 defines it\<close>

fun hkdf_block :: "Crypto \<Rightarrow> HashAlgorithm \<Rightarrow> bytes \<Rightarrow> bytes \<Rightarrow> nat \<Rightarrow> bytes" where
  "hkdf_block crypto h prk info 0 = []"
| "hkdf_block crypto h prk info (Suc i) = cr_hmac crypto h prk (hkdf_block crypto h prk info i @ info @ [of_nat (Suc i)])"

lemma hkdf_rounds_blocks:
  "hkdf_rounds crypto h prk info (Suc i) n (hkdf_block crypto h prk info i) acc =
     acc @ concat (map (hkdf_block crypto h prk info) [Suc i..<Suc n])"
proof (induction "n - i" arbitrary: i acc)
  case 0
  then show ?case by (subst hkdf_rounds.simps) simp
next
  case (Suc m)
  then have "m = n - Suc i" "Suc i \<le> n" by simp_all
  then show ?case
    using Suc.hyps(1) [of "Suc i" "acc @ hkdf_block crypto h prk info (Suc i)"]
    by (subst hkdf_rounds.simps) (simp add: upt_conv_Cons [of "Suc i" "Suc n"] Let_def del: upt_Suc)
qed

text \<open>What the key schedule relies on of HMAC and the digests: the lengths of their results.\<close>

definition hmac_ok :: "Crypto \<Rightarrow> bool" where
  "hmac_ok crypto \<longleftrightarrow> (\<forall>h k x. length (cr_hmac crypto h k x) = output_len h \<and> length (cr_hash crypto h x) = output_len h)"

lemma length_hkdf_blocks:
  assumes "hmac_ok crypto"
  shows "length (concat (map (hkdf_block crypto h prk info) [Suc 0..<Suc n])) = n * output_len h"
  using assms by (induction n) (simp_all add: hmac_ok_def)

lemma output_len_pos [simp]: "0 < output_len h"
  by (cases h) simp_all

lemma div_ceil_covers: "0 < b \<Longrightarrow> a \<le> div_ceil a b * b"
proof -
  assume "0 < b"
  then have "a div b * b + a mod b = a" "a mod b < b" by simp_all
  then have "a \<le> b + a div b * b" by linarith
  then show ?thesis by (auto simp: div_ceil_def)
qed

lemma hkdf_expand_blocks:
  "hkdf_expand crypto h prk info len =
     (if 255 < div_ceil len (output_len h) then Err (Keys HkdfOutputTooLong)
      else Ok (take len (concat (map (hkdf_block crypto h prk info) [1..<Suc (div_ceil len (output_len h))]))))"
  using hkdf_rounds_blocks [of crypto h prk info 0 "div_ceil len (output_len h)" "[]"]
  by (simp add: hkdf_expand_def Let_def)

lemma hkdf_expand_length:
  assumes "hmac_ok crypto" "div_ceil len (output_len h) \<le> 255"
  obtains okm where "hkdf_expand crypto h prk info len = Ok okm" "length okm = len"
  using assms(2) length_hkdf_blocks [OF assms(1), of h prk info "div_ceil len (output_len h)"]
    div_ceil_covers [of "output_len h" len]
  by (simp add: hkdf_expand_blocks del: upt_Suc)

lemma div_ceil_self [simp]: "0 < n \<Longrightarrow> div_ceil n n = 1"
  by (simp add: div_ceil_def)

lemma hkdf_expand_label_length:
  assumes "hmac_ok crypto" "len \<le> output_len h"
  obtains okm where "hkdf_expand_label crypto h secret label ctx len = Ok okm" "length okm = len"
proof -
  have "div_ceil len (output_len h) \<le> 255" using assms(2) by (cases "len = output_len h") (auto simp: div_ceil_def)
  from hkdf_expand_length [OF assms(1) this] that show thesis
    by (auto simp: hkdf_expand_label_def Let_def)
qed

lemma derive_secret_length:
  assumes "hmac_ok crypto"
  obtains s where "derive_secret crypto h secret label ctx = Ok s" "length s = output_len h"
  using hkdf_expand_label_length [OF assms, of "output_len h" h secret label ctx] by (auto simp: derive_secret_def)

lemma traffic_keys_length:
  assumes "hmac_ok crypto"
  obtains k iv where "derive_traffic_keys crypto secret cs = Ok (k, iv)" "length k = key_len cs" "length iv = 12"
proof -
  have le: "key_len cs \<le> output_len (digest_algorithm cs)" "nonce_len cs \<le> output_len (digest_algorithm cs)"
    by (cases cs; simp add: nonce_len_def)+
  obtain k where k: "hkdf_expand_label crypto (digest_algorithm cs) secret ''key'' [] (key_len cs) = Ok k" "length k = key_len cs"
    using hkdf_expand_label_length [OF assms le(1)] by metis
  obtain iv where iv: "hkdf_expand_label crypto (digest_algorithm cs) secret ''iv'' [] (nonce_len cs) = Ok iv" "length iv = nonce_len cs"
    using hkdf_expand_label_length [OF assms le(2)] by metis
  from k iv that show thesis by (simp add: derive_traffic_keys_def nonce_len_def)
qed

lemma handshake_keys_length:
  assumes "hmac_ok crypto" "length shared = 32" "length hash = hash_len cs"
  obtains ks where "derive_handshake_keys crypto cs shared hash = Ok ks"
    "length (hk_client_handshake_traffic_secret ks) = hash_len cs"
    "length (hk_server_handshake_traffic_secret ks) = hash_len cs" "length (hk_master_secret ks) = hash_len cs"
proof -
  note ex = derive_secret_length [OF assms(1), of "digest_algorithm cs"]
  let ?h = "digest_algorithm cs" and ?z = "replicate (hash_len cs) 0"
  obtain d where d: "derive_secret crypto ?h (hkdf_extract crypto ?h ?z ?z) ''derived'' (cr_hash crypto ?h []) = Ok d"
    using ex by metis
  let ?hs = "hkdf_extract crypto ?h d shared"
  obtain c where c: "derive_secret crypto ?h ?hs ''c hs traffic'' hash = Ok c" "length c = output_len ?h" using ex by metis
  obtain s where s: "derive_secret crypto ?h ?hs ''s hs traffic'' hash = Ok s" "length s = output_len ?h" using ex by metis
  obtain e where e: "derive_secret crypto ?h ?hs ''derived'' (cr_hash crypto ?h []) = Ok e" using ex by metis
  have "length (hkdf_extract crypto ?h e ?z) = hash_len cs"
    using assms(1) by (simp add: hkdf_extract_def hmac_ok_def hash_len_def)
  with d c s e assms(2,3) show thesis
    by (intro that [of "\<lparr>hk_client_handshake_traffic_secret = c, hk_server_handshake_traffic_secret = s,
        hk_master_secret = hkdf_extract crypto ?h e ?z\<rparr>"])
      (simp_all add: derive_handshake_keys_def Let_def hash_len_def)
qed

lemma application_secrets_length:
  assumes "hmac_ok crypto" "length master = hash_len cs" "length hash = hash_len cs"
  obtains c s where "derive_application_secrets crypto cs master hash = Ok (c, s)"
proof -
  note ex = derive_secret_length [OF assms(1), of "digest_algorithm cs"]
  obtain c where "derive_secret crypto (digest_algorithm cs) master ''c ap traffic'' hash = Ok c" using ex by metis
  moreover obtain s where "derive_secret crypto (digest_algorithm cs) master ''s ap traffic'' hash = Ok s" using ex by metis
  ultimately show thesis using that assms(2,3) by (simp add: derive_application_secrets_def Let_def)
qed

text \<open>
  C40: the key schedule has no failing step: for every suite, a 32-byte shared secret and the hashes of
  two transcripts it yields handshake and application secrets, and every traffic key and vector derived
  from a secret has the length that \<open>AeadKey::new\<close> and \<open>make_nonce\<close> check for.
\<close>

theorem key_schedule_total:
  assumes "hmac_ok crypto" "length shared = 32"
  shows "\<exists>ks c s. derive_handshake_keys crypto cs shared (cr_hash crypto (digest_algorithm cs) t1) = Ok ks \<and>
    derive_application_secrets crypto cs (hk_master_secret ks) (cr_hash crypto (digest_algorithm cs) t2) = Ok (c, s) \<and>
    list_all (\<lambda>secret. \<exists>k iv. derive_traffic_keys crypto secret cs = Ok (k, iv) \<and>
        AeadKey_new cs k = Ok \<lparr>ak_suite = cs, ak_key = k\<rparr> \<and> (\<exists>nonce. make_nonce iv seq = Ok nonce))
      [hk_client_handshake_traffic_secret ks, hk_server_handshake_traffic_secret ks, c, s]"
proof -
  have hash: "length (cr_hash crypto (digest_algorithm cs) t) = hash_len cs" for t
    using assms(1) by (simp add: hmac_ok_def hash_len_def)
  obtain ks where ks: "derive_handshake_keys crypto cs shared (cr_hash crypto (digest_algorithm cs) t1) = Ok ks"
      "length (hk_master_secret ks) = hash_len cs"
    using handshake_keys_length [OF assms hash] by metis
  obtain c s where cs: "derive_application_secrets crypto cs (hk_master_secret ks) (cr_hash crypto (digest_algorithm cs) t2) = Ok (c, s)"
    using application_secrets_length [OF assms(1) ks(2) hash] by metis
  have "\<exists>k iv. derive_traffic_keys crypto secret cs = Ok (k, iv) \<and>
      AeadKey_new cs k = Ok \<lparr>ak_suite = cs, ak_key = k\<rparr> \<and> (\<exists>nonce. make_nonce iv seq = Ok nonce)" for secret
    by (rule traffic_keys_length [OF assms(1), of secret cs]) (auto simp: AeadKey_new_def make_nonce_def)
  with ks(1) cs show ?thesis by auto
qed

lemma marking_hmac_ok: "hmac_ok marking_crypto"
  by (simp add: hmac_ok_def marking_crypto_def)

theorem key_schedule_total_witness:
  "\<exists>ks c s. derive_handshake_keys marking_crypto AES_256_GCM_SHA384 (replicate 32 9)
      (cr_hash marking_crypto (digest_algorithm AES_256_GCM_SHA384) [1]) = Ok ks \<and>
    derive_application_secrets marking_crypto AES_256_GCM_SHA384 (hk_master_secret ks)
      (cr_hash marking_crypto (digest_algorithm AES_256_GCM_SHA384) [1, 2]) = Ok (c, s) \<and>
    list_all (\<lambda>secret. \<exists>k iv. derive_traffic_keys marking_crypto secret AES_256_GCM_SHA384 = Ok (k, iv) \<and>
        AeadKey_new AES_256_GCM_SHA384 k = Ok \<lparr>ak_suite = AES_256_GCM_SHA384, ak_key = k\<rparr> \<and>
        (\<exists>nonce. make_nonce iv 3 = Ok nonce))
      [hk_client_handshake_traffic_secret ks, hk_server_handshake_traffic_secret ks, c, s]"
  by (rule key_schedule_total [OF marking_hmac_ok]) simp

end
