(* ===== verification/Reality_Client.thy ===== *)
theory Reality_Client
  imports Reality_Keys Slide_Buffer
begin

text \<open>
  The REALITY client connection, \<open>prototype/vless/src/reality/reality_client_connection.rs\<close> with
  \<open>reality_reader_writer.rs\<close>: the ClientHello it starts with, the handshake state machine, application
  data in both directions, alerts and errors. The random numbers, the clock and the answers of the
  underlying reader and writer are arguments. Every operation returns its result and the connection it
  leaves behind, also when it fails; a panic is the error \<open>Panicked\<close>.

  \<open>conn_step\<close> collects the operations a caller can interleave. The main result is that the handshake
  completes only after the server has proved that it knows the authentication key.
\<close>

lemma and_then_OkE: "and_then r f = Ok y \<Longrightarrow> (\<And>x. r = Ok x \<Longrightarrow> f x = Ok y \<Longrightarrow> P) \<Longrightarrow> P"
  by auto

section \<open>State\<close>

definition TLS13_MAX_RECORD_SIZE :: nat where "TLS13_MAX_RECORD_SIZE = MAX_TLS13_CIPHERTEXT_LEN + 5"
definition CIPHERTEXT_READ_BUF_CAPACITY :: nat where "CIPHERTEXT_READ_BUF_CAPACITY = TLS13_MAX_RECORD_SIZE * 2"
definition PLAINTEXT_READ_BUF_CAPACITY :: nat where "PLAINTEXT_READ_BUF_CAPACITY = TLS13_MAX_RECORD_SIZE * 2"
definition ALERT_LEVEL_WARNING :: u8 where "ALERT_LEVEL_WARNING = 0x01"
definition ALERT_DESC_CLOSE_NOTIFY :: u8 where "ALERT_DESC_CLOSE_NOTIFY = 0x00"

record RealityClientConfig =
  rcf_public_key :: bytes
  rcf_short_id :: bytes
  rcf_server_name :: string
  rcf_cipher_suites :: "CipherSuite list"

record Processing =
  pr_client_secret :: bytes
  pr_server_secret :: bytes
  pr_master_secret :: bytes
  pr_cipher_suite :: CipherSuite
  pr_transcript :: bytes
  pr_auth_key :: bytes
  pr_handshake_seq :: u64
  pr_accumulated :: bytes
  pr_messages_found :: nat
  pr_certificate_verified :: bool
  pr_public_key :: "bytes option"
  pr_cert_verify_offset :: "nat option"

datatype HandshakeState =
    AwaitingServerHello (client_hello_bytes: bytes) (client_private_key: bytes) (hello_auth_key: bytes)
  | ProcessingHandshake Processing
  | HandshakeComplete

record RealityClientConnection =
  cn_config :: RealityClientConfig
  cn_handshake :: HandshakeState
  cn_app_read_key :: "AeadKey option"
  cn_app_read_iv :: "bytes option"
  cn_app_write_key :: "AeadKey option"
  cn_app_write_iv :: "bytes option"
  cn_read_seq :: u64
  cn_write_seq :: u64
  cn_cipher_suite :: "CipherSuite option"
  cn_ciphertext_read :: SlideBuffer
  cn_ciphertext_write :: bytes
  cn_plaintext_read :: SlideBuffer
  cn_plaintext_write :: bytes
  cn_close_notify :: bool
  cn_fatal_error :: "IoErrorKind option"

section \<open>ClientHello\<close>

definition u32_to_be :: "u32 \<Rightarrow> bytes" where
  "u32_to_be w = map (\<lambda>i. of_nat (unat w div 256 ^ (3 - i) mod 256)) [0..<4]"

definition session_id_plaintext :: "u64 \<Rightarrow> bytes \<Rightarrow> bytes" where
  "session_id_plaintext timestamp short_id = [1, 8, 0, 0] @ u32_to_be (of_nat (unat timestamp)) @ short_id"

text \<open>The arguments are the private key and the client random that were drawn, and the time in seconds.\<close>

definition generate_client_hello ::
    "Crypto \<Rightarrow> bytes \<Rightarrow> bytes \<Rightarrow> u64 \<Rightarrow> RealityClientConnection \<Rightarrow> RealityError + RealityClientConnection" where
  "generate_client_hello crypto our_private client_random timestamp c =
     and_then (ok_or (Keys KeyCreationFailed) (cr_x25519_public crypto our_private)) (\<lambda>our_public.
     and_then (perform_ecdh crypto our_private (rcf_public_key (cn_config c))) (\<lambda>shared_secret.
     and_then (derive_auth_key crypto shared_secret (take 20 client_random) (as_bytes ''REALITY'')) (\<lambda>auth_key.
       let sid_plain = session_id_plaintext timestamp (rcf_short_id (cn_config c));
           session_id_for_hello = sid_plain @ replicate 16 0;
           suites = (if rcf_cipher_suites (cn_config c) = [] then DEFAULT_CIPHER_SUITES else rcf_cipher_suites (cn_config c));
           hello = construct_client_hello client_random session_id_for_hello our_public (rcf_server_name (cn_config c))
             (map cs_id suites) DEFAULT_ALPN_PROTOCOLS;
           zeroed = take 39 hello @ replicate 32 0 @ drop 71 hello
       in and_then (encrypt_session_id crypto sid_plain auth_key (take 12 (drop 20 client_random)) zeroed) (\<lambda>encrypted.
            let wire = take 39 zeroed @ encrypted @ drop 71 zeroed in
            Ok (c\<lparr>cn_ciphertext_write := cn_ciphertext_write c @
                    write_record_header CONTENT_TYPE_HANDSHAKE (of_nat (length wire)) @ wire,
                  cn_handshake := AwaitingServerHello wire our_private auth_key\<rparr>)))))"

definition RealityClientConnection_new ::
    "Crypto \<Rightarrow> bytes \<Rightarrow> bytes \<Rightarrow> u64 \<Rightarrow> RealityClientConfig \<Rightarrow> RealityError + RealityClientConnection" where
  "RealityClientConnection_new crypto our_private client_random timestamp config =
     generate_client_hello crypto our_private client_random timestamp
       \<lparr>cn_config = config, cn_handshake = AwaitingServerHello [] (replicate 32 0) (replicate 32 0),
        cn_app_read_key = None, cn_app_read_iv = None, cn_app_write_key = None, cn_app_write_iv = None,
        cn_read_seq = 0, cn_write_seq = 0, cn_cipher_suite = None,
        cn_ciphertext_read = SlideBuffer_new CIPHERTEXT_READ_BUF_CAPACITY, cn_ciphertext_write = [],
        cn_plaintext_read = SlideBuffer_new PLAINTEXT_READ_BUF_CAPACITY, cn_plaintext_write = [],
        cn_close_notify = False, cn_fatal_error = None\<rparr>"

section \<open>Incoming bytes\<close>

type_synonym 'a conn_result = "(RealityError + 'a) \<times> RealityClientConnection"

text \<open>\<open>answer\<close> is what \<open>rd.read\<close> returns: an error or the bytes it put into the read buffer.\<close>

definition read_tls :: "RealityError + bytes \<Rightarrow> RealityClientConnection \<Rightarrow> nat conn_result" where
  "read_tls answer c =
     (let b = cn_ciphertext_read c;
          b1 = (if remaining_capacity b < TLS13_MAX_RECORD_SIZE then compact b else b);
          c1 = c\<lparr>cn_ciphertext_read := b1\<rparr>
      in case answer of
           Inl e \<Rightarrow> (Err e, c1)
         | Inr bs \<Rightarrow>
             if bs = [] then (Ok 0, c1)
             else (case extend_from_slice bs b1 of
                     None \<Rightarrow> (Err Panicked, c1)
                   | Some b2 \<Rightarrow> (Ok (length bs), c1\<lparr>cn_ciphertext_read := b2\<rparr>)))"

text \<open>The cursor hands out pieces of the size of the read buffer until the data is used up.\<close>

fun feed_pieces :: "bytes list \<Rightarrow> RealityClientConnection \<Rightarrow> unit conn_result" where
  "feed_pieces [] c = (Ok (), c)"
| "feed_pieces (p # ps) c = (case read_tls (Ok p) c of (Inl e, c') \<Rightarrow> (Err e, c') | (Inr _, c') \<Rightarrow> feed_pieces ps c')"

definition feed_reality_client_connection :: "bytes \<Rightarrow> RealityClientConnection \<Rightarrow> unit conn_result" where
  "feed_reality_client_connection data c = feed_pieces (chunks TLS13_MAX_RECORD_SIZE data) c"

section \<open>ServerHello\<close>

definition take_record :: "nat \<Rightarrow> RealityClientConnection \<Rightarrow> bytes \<times> RealityClientConnection" where
  "take_record total_len c = (sb_slice (cn_ciphertext_read c) 0 total_len, c\<lparr>cn_ciphertext_read := consume total_len (cn_ciphertext_read c)\<rparr>)"

definition start_processing ::
    "Crypto \<Rightarrow> bytes \<Rightarrow> bytes \<Rightarrow> bytes \<Rightarrow> bytes \<Rightarrow> RealityError + Processing" where
  "start_processing crypto client_hello private_key auth_key record =
     (let server_hello = drop 5 record in
      and_then (extract_server_public_key record) (\<lambda>server_public_key.
      and_then (extract_server_cipher_suite record) (\<lambda>suite_id.
      and_then (ok_or (Parse (UnsupportedCipherSuite suite_id)) (cs_from_id suite_id)) (\<lambda>cs.
        let server_hello_hash = cr_hash crypto (digest_algorithm cs) (client_hello @ server_hello) in
        and_then (ok_or (Keys KeyCreationFailed) (cr_x25519_public crypto private_key)) (\<lambda>_.
        and_then (ok_or (Keys EcdhFailed) (cr_x25519_agree crypto private_key server_public_key)) (\<lambda>shared_secret.
        and_then (derive_handshake_keys crypto cs shared_secret server_hello_hash) (\<lambda>hs_keys.
          Ok \<lparr>pr_client_secret = hk_client_handshake_traffic_secret hs_keys,
              pr_server_secret = hk_server_handshake_traffic_secret hs_keys,
              pr_master_secret = hk_master_secret hs_keys, pr_cipher_suite = cs,
              pr_transcript = client_hello @ server_hello, pr_auth_key = auth_key,
              pr_handshake_seq = 0, pr_accumulated = [], pr_messages_found = 0,
              pr_certificate_verified = False, pr_public_key = None, pr_cert_verify_offset = None\<rparr>)))))))"

definition process_server_hello ::
    "Crypto \<Rightarrow> bytes \<Rightarrow> bytes \<Rightarrow> bytes \<Rightarrow> RealityClientConnection \<Rightarrow> bool conn_result" where
  "process_server_hello crypto client_hello private_key auth_key c =
     (let b = cn_ciphertext_read c in
      if sb_len b < 5 then (Ok False, c)
      else (case get_u16_be 3 b of
        None \<Rightarrow> (Err BufferTooShort, c)
      | Some record_len \<Rightarrow>
          let total_len = 5 + unat record_len in
          if sb_len b < total_len then (Ok False, c)
          else let (record, c1) = take_record total_len c in
            (case start_processing crypto client_hello private_key auth_key record of
               Inl e \<Rightarrow> (Err e, c1)
             | Inr p \<Rightarrow> (Ok True, c1\<lparr>cn_handshake := ProcessingHandshake p\<rparr>))))"

section \<open>Encrypted handshake\<close>

text \<open>One complete handshake message at \<open>offset\<close>.\<close>

definition note_message :: "Crypto \<Rightarrow> nat \<Rightarrow> u8 \<Rightarrow> nat \<Rightarrow> Processing \<Rightarrow> RealityError + Processing" where
  "note_message crypto offset msg_type msg_len p =
     and_then
       (if msg_type = HANDSHAKE_TYPE_CERTIFICATE then
          and_then (extract_certificate_der (take (4 + msg_len) (drop offset (pr_accumulated p)))) (\<lambda>cert_der.
          and_then (verify_certificate_hmac crypto cert_der (pr_auth_key p)) (\<lambda>_.
          and_then (extract_ed25519_public_key crypto cert_der) (\<lambda>public_key.
            Ok (p\<lparr>pr_public_key := Some public_key, pr_certificate_verified := True\<rparr>))))
        else Ok p)
       (\<lambda>p1. let p2 = (if msg_type = HANDSHAKE_TYPE_CERTIFICATE_VERIFY then p1\<lparr>pr_cert_verify_offset := Some offset\<rparr> else p1)
         in Ok (p2\<lparr>pr_messages_found := pr_messages_found p2 + 1\<rparr>))"

lemma note_message_accumulated: "note_message crypto offset t n p = Ok p' \<Longrightarrow> pr_accumulated p' = pr_accumulated p"
  by (auto simp: note_message_def Let_def HANDSHAKE_TYPE_CERTIFICATE_def HANDSHAKE_TYPE_CERTIFICATE_VERIFY_def
      split: if_splits)

text \<open>The loop over handshake messages, from \<open>offset\<close> on.\<close>

function scan_messages :: "Crypto \<Rightarrow> nat \<Rightarrow> Processing \<Rightarrow> RealityError + Processing" where
  "scan_messages crypto offset p =
     (let acc = pr_accumulated p in
      if \<not> (offset < length acc \<and> pr_messages_found p < 4) then Ok p
      else if length acc < offset + 4 then Ok p
      else let msg_type = acc ! offset; msg_len = u24_at acc (offset + 1) in
        if length acc < offset + 4 + msg_len then Ok p
        else and_then (note_message crypto offset msg_type msg_len p)
               (\<lambda>p'. scan_messages crypto (offset + 4 + msg_len) p'))"
  by pat_completeness auto
termination
  by (relation "measure (\<lambda>(_, offset, p). length (pr_accumulated p) - offset)")
    (auto dest: note_message_accumulated)

declare scan_messages.simps [simp del]

text \<open>The CertificateVerify check; nothing is verified when no public key or no message was found.\<close>

definition check_certificate_verify :: "Crypto \<Rightarrow> Processing \<Rightarrow> RealityError + bool" where
  "check_certificate_verify crypto p =
     (case (pr_public_key p, pr_cert_verify_offset p) of
        (Some public_key, Some cv_offset) \<Rightarrow>
          let acc = pr_accumulated p;
              transcript_hash = cr_hash crypto (digest_algorithm (pr_cipher_suite p)) (pr_transcript p @ take cv_offset acc);
              cv_message = take (4 + u24_at acc (cv_offset + 1)) (drop cv_offset acc)
          in and_then (extract_certificate_verify_signature cv_message) (\<lambda>signature.
             and_then (verify_certificate_verify_signature crypto public_key signature transcript_hash) (\<lambda>_. Ok True))
      | _ \<Rightarrow> Ok False)"

text \<open>
  After four messages: the checks, the client's Finished record and the application keys. The
  second component is the outgoing buffer, which is already extended when a later step fails.
\<close>

record AppKeys =
  ap_client_key :: AeadKey
  ap_client_iv :: bytes
  ap_server_key :: AeadKey
  ap_server_iv :: bytes

definition finish_handshake :: "Crypto \<Rightarrow> Processing \<Rightarrow> bytes \<Rightarrow> (RealityError + AppKeys) \<times> bytes" where
  "finish_handshake crypto p out =
     (let cs = pr_cipher_suite p in
      case and_then (if pr_certificate_verified p then Ok () else Err CertificateNotVerified) (\<lambda>_.
           and_then (check_certificate_verify crypto p) (\<lambda>verified.
             if verified then Ok () else Err CertificateVerifyNotVerified)) of
        Inl e \<Rightarrow> (Err e, out)
      | Inr _ \<Rightarrow>
          let handshake_hash = cr_hash crypto (digest_algorithm cs) (pr_transcript p @ pr_accumulated p) in
          (case and_then (compute_finished_verify_data crypto cs (pr_client_secret p) handshake_hash) (\<lambda>verify_data.
                and_then (derive_traffic_keys crypto (pr_client_secret p) cs) (\<lambda>(k, iv).
                and_then (AeadKey_new cs k) (\<lambda>hs_key. Ok (construct_finished verify_data, hs_key, iv)))) of
             Inl e \<Rightarrow> (Err e, out)
           | Inr (client_finished, hs_key, iv) \<Rightarrow>
               (case encrypt_handshake crypto hs_key iv client_finished \<lparr>re_seq = 0, re_out = out\<rparr> of
                  (Inl e, enc) \<Rightarrow> (Err e, re_out enc)
                | (Inr _, enc) \<Rightarrow>
                    (and_then (derive_application_secrets crypto cs (pr_master_secret p) handshake_hash) (\<lambda>(client_secret, server_secret).
                     and_then (derive_traffic_keys crypto client_secret cs) (\<lambda>(client_key, client_iv).
                     and_then (derive_traffic_keys crypto server_secret cs) (\<lambda>(server_key, server_iv).
                     and_then (AeadKey_new cs client_key) (\<lambda>ck.
                     and_then (AeadKey_new cs server_key) (\<lambda>sk.
                       Ok \<lparr>ap_client_key = ck, ap_client_iv = client_iv, ap_server_key = sk, ap_server_iv = server_iv\<rparr>))))),
                     re_out enc))))"

definition install_keys :: "CipherSuite \<Rightarrow> AppKeys \<Rightarrow> RealityClientConnection \<Rightarrow> RealityClientConnection" where
  "install_keys cs ks c =
     c\<lparr>cn_app_read_key := Some (ap_server_key ks), cn_app_read_iv := Some (ap_server_iv ks),
       cn_app_write_key := Some (ap_client_key ks), cn_app_write_iv := Some (ap_client_iv ks),
       cn_read_seq := 0, cn_write_seq := 0, cn_cipher_suite := Some cs, cn_handshake := HandshakeComplete\<rparr>"

text \<open>One encrypted record of the handshake, once it is complete and taken from the buffer.\<close>

definition handle_handshake_record ::
    "Crypto \<Rightarrow> bytes \<Rightarrow> bytes \<Rightarrow> bytes \<Rightarrow> u16 \<Rightarrow> Processing \<Rightarrow> RealityClientConnection \<Rightarrow> bool conn_result" where
  "handle_handshake_record crypto server_key server_iv ciphertext record_len p c =
     (case and_then (decrypt_handshake_message crypto (pr_cipher_suite p) server_key server_iv (pr_handshake_seq p) ciphertext record_len)
             (\<lambda>plaintext. scan_messages crypto (length (pr_accumulated p))
               (p\<lparr>pr_handshake_seq := pr_handshake_seq p + 1, pr_accumulated := pr_accumulated p @ plaintext\<rparr>)) of
        Inl e \<Rightarrow> (Err e, c)
      | Inr p1 \<Rightarrow>
          if pr_messages_found p1 < 4 then (Ok True, c\<lparr>cn_handshake := ProcessingHandshake p1\<rparr>)
          else (case finish_handshake crypto p1 (cn_ciphertext_write c) of
                  (Inl e, out) \<Rightarrow> (Err e, c\<lparr>cn_ciphertext_write := out\<rparr>)
                | (Inr ks, out) \<Rightarrow> (Ok True, install_keys (pr_cipher_suite p1) ks (c\<lparr>cn_ciphertext_write := out\<rparr>))))"

lemma sb_len_consume: "0 < n \<Longrightarrow> 0 < sb_len b \<Longrightarrow> sb_len (consume n b) < sb_len b"
  by (auto simp: sb_len_def consume_def Let_def)

function process_encrypted_handshake :: "Crypto \<Rightarrow> Processing \<Rightarrow> RealityClientConnection \<Rightarrow> bool conn_result" where
  "process_encrypted_handshake crypto p c =
     (case derive_traffic_keys crypto (pr_server_secret p) (pr_cipher_suite p) of
        Inl e \<Rightarrow> (Err e, c)
      | Inr (server_key, server_iv) \<Rightarrow>
          let b = cn_ciphertext_read c in
          if sb_len b < 5 then (Ok False, c)
          else (case get_u16_be 3 b of
            None \<Rightarrow> (Err BufferTooShort, c)
          | Some record_len \<Rightarrow>
              let record_type = sb_index b 0; total_len = 5 + unat record_len in
              if sb_len b < total_len then (Ok False, c)
              else if record_type = CONTENT_TYPE_CHANGE_CIPHER_SPEC then
                process_encrypted_handshake crypto p (snd (take_record total_len c))
              else if record_type \<noteq> CONTENT_TYPE_APPLICATION_DATA then (Err (ExpectedApplicationData record_type), c)
              else let (record, c1) = take_record total_len c in
                handle_handshake_record crypto server_key server_iv (drop 5 record) record_len p c1))"
  by pat_completeness auto
termination
  by (relation "measure (\<lambda>(_, _, c). sb_len (cn_ciphertext_read c))") (auto simp: take_record_def intro!: sb_len_consume)

declare process_encrypted_handshake.simps [simp del]

section \<open>Application data\<close>

text \<open>
  What happens with one decrypted record: \<open>None\<close> stops the loop with success, \<open>Some\<close> goes on. The
  content type is one the decryptor accepts; a handshake message falls into the unreachable branch.
\<close>

definition handle_app_record ::
    "u8 \<Rightarrow> bytes \<Rightarrow> RealityClientConnection \<Rightarrow> (RealityError + bool) \<times> RealityClientConnection" where
  "handle_app_record content_type plaintext c =
     (if content_type = CONTENT_TYPE_APPLICATION_DATA then
        let b = maybe_compact 4096 (cn_plaintext_read c) in
        (case extend_from_slice plaintext b of
           None \<Rightarrow> (Err Panicked, c\<lparr>cn_plaintext_read := b\<rparr>)
         | Some b' \<Rightarrow> (Ok True, c\<lparr>cn_plaintext_read := b'\<rparr>))
      else if content_type = CONTENT_TYPE_ALERT then
        if 2 \<le> length plaintext then
          if plaintext ! 1 = ALERT_DESC_CLOSE_NOTIFY then (Ok False, c\<lparr>cn_close_notify := True\<rparr>)
          else if plaintext ! 0 \<noteq> ALERT_LEVEL_WARNING then (Err (FatalAlert (plaintext ! 1)), c)
          else (Ok True, c)
        else (Ok True, c)
      else (Err Panicked, c))"

definition decrypt_next ::
    "Crypto \<Rightarrow> AeadKey \<Rightarrow> bytes \<Rightarrow> nat \<Rightarrow> u16 \<Rightarrow> RealityClientConnection \<Rightarrow> (RealityError + u8 \<times> bytes) \<times> RealityClientConnection" where
  "decrypt_next crypto k iv total_len record_len c =
     (let b = cn_ciphertext_read c in
      case decrypt_record_in_place crypto k iv (sb_slice b 5 total_len) record_len (cn_read_seq c) of
        (r, seq, left) \<Rightarrow> (r, c\<lparr>cn_read_seq := seq, cn_ciphertext_read := slice_write 5 left b\<rparr>))"

lemma sb_len_slice_write [simp]: "sb_len (slice_write i xs b) = sb_len b"
  by (simp add: slice_write_def sb_len_def Let_def)

lemma handle_app_record_buffer [simp]:
  "cn_ciphertext_read (snd (handle_app_record t x c)) = cn_ciphertext_read c"
  by (auto simp: handle_app_record_def Let_def split: option.splits)

lemma decrypt_next_buffer [simp]: "sb_len (cn_ciphertext_read (snd (decrypt_next crypto k iv n l c))) = sb_len (cn_ciphertext_read c)"
  by (auto simp: decrypt_next_def Let_def split: prod.splits)

function app_data_loop :: "Crypto \<Rightarrow> AeadKey \<Rightarrow> bytes \<Rightarrow> RealityClientConnection \<Rightarrow> unit conn_result" where
  "app_data_loop crypto k iv c =
     (let b = cn_ciphertext_read c in
      if sb_len b < 5 then (Ok (), c)
      else (case get_u16_be 3 b of
        None \<Rightarrow> (Err BufferTooShort, c)
      | Some record_len \<Rightarrow>
          let total_len = 5 + unat record_len in
          if sb_len b < total_len then (Ok (), c)
          else (case decrypt_next crypto k iv total_len record_len c of
            (Inl e, c1) \<Rightarrow> (Err e, c1)
          | (Inr (content_type, plaintext), c1) \<Rightarrow>
              (case handle_app_record content_type plaintext c1 of
                 (Inl e, c2) \<Rightarrow> (Err e, c2)
               | (Inr False, c2) \<Rightarrow> (Ok (), c2)
               | (Inr True, c2) \<Rightarrow> app_data_loop crypto k iv (snd (take_record total_len c2))))))"
  by pat_completeness auto
termination
proof (relation "measure (\<lambda>(_, _, _, c). sb_len (cn_ciphertext_read c))", goal_cases)
  case (2 crypto k iv c b record_len total_len r c1 x content_type plaintext s c2)
  then have "sb_len (cn_ciphertext_read c2) = sb_len (cn_ciphertext_read c)"
    using handle_app_record_buffer [of content_type plaintext c1] decrypt_next_buffer [of crypto k iv total_len record_len c]
    by (metis snd_conv)
  then show ?case using 2 sb_len_consume [of total_len "cn_ciphertext_read c2"] by (simp add: take_record_def)
qed simp

declare app_data_loop.simps [simp del]

definition process_application_data :: "Crypto \<Rightarrow> RealityClientConnection \<Rightarrow> unit conn_result" where
  "process_application_data crypto c =
     (case (cn_app_read_key c, cn_app_read_iv c) of
        (Some k, Some iv) \<Rightarrow> app_data_loop crypto k iv c
      | _ \<Rightarrow> (Err Panicked, c))"

section \<open>Driving the connection\<close>

definition handshake_round :: "Crypto \<Rightarrow> RealityClientConnection \<Rightarrow> bool conn_result" where
  "handshake_round crypto c =
     (case cn_handshake c of
        AwaitingServerHello hello private_key auth_key \<Rightarrow> process_server_hello crypto hello private_key auth_key c
      | ProcessingHandshake p \<Rightarrow> process_encrypted_handshake crypto p c
      | HandshakeComplete \<Rightarrow> (Ok False, c))"

lemma handle_handshake_record_buffer [simp]:
  "cn_ciphertext_read (snd (handle_handshake_record crypto k iv x l p c)) = cn_ciphertext_read c"
  by (auto simp: handle_handshake_record_def install_keys_def split: sum.splits prod.splits)

lemma process_encrypted_handshake_progress:
  "process_encrypted_handshake crypto p c = (Ok True, c') \<Longrightarrow> sb_len (cn_ciphertext_read c') < sb_len (cn_ciphertext_read c)"
proof (induction crypto p c rule: process_encrypted_handshake.induct)
  case (1 crypto p c)
  have less: "sb_len (consume (5 + n) (cn_ciphertext_read c)) < sb_len (cn_ciphertext_read c)"
    if "\<not> sb_len (cn_ciphertext_read c) < 5" for n
    using that by (intro sb_len_consume) simp_all
  have keep: "handle_handshake_record crypto k iv x l p d = (Ok True, c') \<Longrightarrow> cn_ciphertext_read c' = cn_ciphertext_read d"
    for k iv x l d using handle_handshake_record_buffer [of crypto k iv x l p d] by simp
  show ?case
    using "1.prems" less
    by (subst (asm) process_encrypted_handshake.simps)
      (auto simp: Let_def take_record_def split: sum.splits prod.splits option.splits if_splits
        dest!: keep "1.IH" intro: less_trans)
qed

lemma handshake_round_progress:
  "handshake_round crypto c = (Ok True, c') \<Longrightarrow> sb_len (cn_ciphertext_read c') < sb_len (cn_ciphertext_read c)"
  by (auto simp: handshake_round_def process_server_hello_def take_record_def Let_def intro!: sb_len_consume
      dest: process_encrypted_handshake_progress split: HandshakeState.splits option.splits sum.splits if_splits)

text \<open>The loop goes on while a handshake step has consumed a record.\<close>

function process_new_packets_inner :: "Crypto \<Rightarrow> RealityClientConnection \<Rightarrow> nat conn_result" where
  "process_new_packets_inner crypto c =
     (if cn_handshake c = HandshakeComplete then
        (case process_application_data crypto c of
           (Inl e, c1) \<Rightarrow> (Err e, c1)
         | (Inr _, c1) \<Rightarrow> (Ok (sb_len (cn_plaintext_read c1)), c1))
      else (case handshake_round crypto c of
              (Inl e, c1) \<Rightarrow> (Err e, c1)
            | (Inr False, c1) \<Rightarrow> (Ok (sb_len (cn_plaintext_read c1)), c1)
            | (Inr True, c1) \<Rightarrow> process_new_packets_inner crypto c1))"
  by pat_completeness auto
termination
  by (relation "measure (\<lambda>(_, c). sb_len (cn_ciphertext_read c))") (auto dest: handshake_round_progress [OF sym])

declare process_new_packets_inner.simps [simp del]

definition is_fatal_kind :: "IoErrorKind \<Rightarrow> bool" where
  "is_fatal_kind k \<longleftrightarrow> k = InvalidData \<or> k = PermissionDenied \<or> k = ConnectionAborted"

definition process_new_packets :: "Crypto \<Rightarrow> RealityClientConnection \<Rightarrow> nat conn_result" where
  "process_new_packets crypto c =
     (case cn_fatal_error c of
        Some kind \<Rightarrow> (Err (PreviouslyFailed kind), c)
      | None \<Rightarrow>
          if cn_close_notify c then (Ok (sb_len (cn_plaintext_read c)), c)
          else (case process_new_packets_inner crypto c of
                  (Inl e, c1) \<Rightarrow>
                    (Err e, case error_kind e of
                              Some kind \<Rightarrow> if is_fatal_kind kind then c1\<lparr>cn_fatal_error := Some kind\<rparr> else c1
                            | None \<Rightarrow> c1)
                | (Inr n, c1) \<Rightarrow> (Ok n, c1)))"

section \<open>Reader and writer\<close>

definition conn_reader :: "RealityClientConnection \<Rightarrow> RealityClientConnection" where
  "conn_reader c = c\<lparr>cn_plaintext_read := maybe_compact 4096 (cn_plaintext_read c)\<rparr>"

definition reader_read :: "nat \<Rightarrow> RealityClientConnection \<Rightarrow> bytes \<times> RealityClientConnection" where
  "reader_read n c =
     (let b = cn_plaintext_read c; to_read = min n (sb_len b) in
      if 0 < to_read then (sb_slice b 0 to_read, c\<lparr>cn_plaintext_read := consume to_read b\<rparr>) else ([], c))"

definition reader_fill_buf :: "RealityClientConnection \<Rightarrow> IoErrorKind + bytes" where
  "reader_fill_buf c =
     (if \<not> sb_is_empty (cn_plaintext_read c) then Ok (as_slice (cn_plaintext_read c))
      else if cn_close_notify c then Ok [] else Err WouldBlock)"

definition reader_consume :: "nat \<Rightarrow> RealityClientConnection \<Rightarrow> RealityClientConnection" where
  "reader_consume amt c =
     (let b = cn_plaintext_read c in c\<lparr>cn_plaintext_read := consume (min amt (sb_len b)) b\<rparr>)"

definition writer_write :: "bytes \<Rightarrow> RealityClientConnection \<Rightarrow> nat conn_result" where
  "writer_write buf c = (Ok (length buf), c\<lparr>cn_plaintext_write := cn_plaintext_write c @ buf\<rparr>)"

text \<open>\<open>wr\<close> is the \<open>Write\<close> implementation with its own state \<open>w\<close>; draining more than the buffer holds would panic.\<close>

definition flush_ciphertext ::
    "(bytes \<Rightarrow> 'w \<Rightarrow> (RealityError + nat) \<times> 'w) \<Rightarrow> 'w \<Rightarrow> RealityClientConnection \<Rightarrow> nat conn_result \<times> 'w" where
  "flush_ciphertext wr w c =
     (case wr (cn_ciphertext_write c) w of
        (Inl e, w') \<Rightarrow> ((Err e, c), w')
      | (Inr n, w') \<Rightarrow>
          if length (cn_ciphertext_write c) < n then ((Err Panicked, c), w')
          else ((Ok n, c\<lparr>cn_ciphertext_write := drop n (cn_ciphertext_write c)\<rparr>), w'))"

definition encrypt_pending :: "Crypto \<Rightarrow> AeadKey \<Rightarrow> bytes \<Rightarrow> RealityClientConnection \<Rightarrow> unit conn_result" where
  "encrypt_pending crypto k iv c =
     (case encrypt_app_data crypto k iv (cn_plaintext_write c) \<lparr>re_seq = cn_write_seq c, re_out = cn_ciphertext_write c\<rparr> of
        (r, left, e) \<Rightarrow> (r, c\<lparr>cn_plaintext_write := left, cn_write_seq := re_seq e, cn_ciphertext_write := re_out e\<rparr>))"

definition write_tls ::
    "Crypto \<Rightarrow> (bytes \<Rightarrow> 'w \<Rightarrow> (RealityError + nat) \<times> 'w) \<Rightarrow> 'w \<Rightarrow> RealityClientConnection \<Rightarrow> nat conn_result \<times> 'w" where
  "write_tls crypto wr w c =
     (if cn_handshake c \<noteq> HandshakeComplete then flush_ciphertext wr w c
      else if cn_plaintext_write c = [] then flush_ciphertext wr w c
      else (case (cn_app_write_key c, cn_app_write_iv c) of
              (Some k, Some iv) \<Rightarrow>
                (case encrypt_pending crypto k iv c of
                   (Inl e, c1) \<Rightarrow> ((Err e, c1), w)
                 | (Inr _, c1) \<Rightarrow> flush_ciphertext wr w c1)
            | _ \<Rightarrow> ((Err ApplicationKeysMissing, c), w)))"

definition wants_write :: "RealityClientConnection \<Rightarrow> bool" where
  "wants_write c \<longleftrightarrow> cn_ciphertext_write c \<noteq> [] \<or> cn_plaintext_write c \<noteq> []"

definition is_handshaking :: "RealityClientConnection \<Rightarrow> bool" where
  "is_handshaking c \<longleftrightarrow> cn_handshake c \<noteq> HandshakeComplete"

definition wants_read :: "RealityClientConnection \<Rightarrow> bool" where
  "wants_read c \<longleftrightarrow>
     (if cn_close_notify c then False else if cn_fatal_error c \<noteq> None then False
      else if is_handshaking c then True else sb_is_empty (cn_plaintext_read c))"

definition send_close_notify :: "Crypto \<Rightarrow> RealityClientConnection \<Rightarrow> RealityClientConnection" where
  "send_close_notify crypto c =
     (if cn_handshake c \<noteq> HandshakeComplete then c
      else (case (cn_app_write_key c, cn_app_write_iv c) of
              (Some k, Some iv) \<Rightarrow>
                (case encrypt_close_notify crypto k iv \<lparr>re_seq = cn_write_seq c, re_out = cn_ciphertext_write c\<rparr> of
                   (_, e) \<Rightarrow> c\<lparr>cn_write_seq := re_seq e, cn_ciphertext_write := re_out e\<rparr>)
            | _ \<Rightarrow> c))"

section \<open>The connection as a state machine\<close>

inductive conn_step :: "Crypto \<Rightarrow> RealityClientConnection \<Rightarrow> RealityClientConnection \<Rightarrow> bool" for crypto where
  step_read: "read_tls answer c = (r, c') \<Longrightarrow> conn_step crypto c c'"
| step_process: "process_new_packets crypto c = (r, c') \<Longrightarrow> conn_step crypto c c'"
| step_reader: "conn_step crypto c (conn_reader c)"
| step_reader_read: "reader_read n c = (out, c') \<Longrightarrow> conn_step crypto c c'"
| step_consume: "conn_step crypto c (reader_consume n c)"
| step_write: "writer_write buf c = (r, c') \<Longrightarrow> conn_step crypto c c'"
| step_write_tls: "write_tls crypto (\<lambda>b w. (answer b, w)) () c = ((r, c'), w) \<Longrightarrow> conn_step crypto c c'"
| step_close: "conn_step crypto c (send_close_notify crypto c)"

section \<open>The server proves itself\<close>

text \<open>
  A certificate message among the handshake messages, for the key \<open>pk\<close>, whose signature is the HMAC of \<open>pk\<close>
  under the authentication key.
\<close>

definition certified :: "Crypto \<Rightarrow> bytes \<Rightarrow> bytes \<Rightarrow> bytes \<Rightarrow> bool" where
  "certified crypto auth_key messages pk \<longleftrightarrow>
     (\<exists>i n der. i + n \<le> length messages \<and> extract_certificate_der (take n (drop i messages)) = Ok der \<and>
        cr_x509 crypto der = Some (pk, cr_hmac crypto SHA512 auth_key pk))"

text \<open>
  In addition a CertificateVerify message among them, with a valid signature under \<open>pk\<close> over the transcript
  up to that message.
\<close>

definition server_proved :: "Crypto \<Rightarrow> bytes \<Rightarrow> CipherSuite \<Rightarrow> bytes \<Rightarrow> bytes \<Rightarrow> bool" where
  "server_proved crypto auth_key cs transcript messages \<longleftrightarrow>
     (\<exists>pk j m signature. certified crypto auth_key messages pk \<and>
        extract_certificate_verify_signature (take m (drop j messages)) = Ok signature \<and>
        cr_ed25519_verify crypto pk
          (cert_verify_content (cr_hash crypto (digest_algorithm cs) (transcript @ take j messages))) signature)"

text \<open>The keys of the connection are those of the master secret and the transcript.\<close>

definition keys_of :: "Crypto \<Rightarrow> CipherSuite \<Rightarrow> bytes \<Rightarrow> bytes \<Rightarrow> RealityClientConnection \<Rightarrow> bool" where
  "keys_of crypto cs master_secret transcript c \<longleftrightarrow>
     (\<exists>client_secret server_secret ck civ ckey sk siv skey.
        derive_application_secrets crypto cs master_secret (cr_hash crypto (digest_algorithm cs) transcript) =
          Ok (client_secret, server_secret) \<and>
        derive_traffic_keys crypto client_secret cs = Ok (ck, civ) \<and> AeadKey_new cs ck = Ok ckey \<and>
        derive_traffic_keys crypto server_secret cs = Ok (sk, siv) \<and> AeadKey_new cs sk = Ok skey \<and>
        cn_app_write_key c = Some ckey \<and> cn_app_write_iv c = Some civ \<and>
        cn_app_read_key c = Some skey \<and> cn_app_read_iv c = Some siv)"

text \<open>What the handshake state owes to the ServerHello it was started with.\<close>

definition started_by :: "Crypto \<Rightarrow> bytes \<Rightarrow> bytes \<Rightarrow> bytes \<Rightarrow> Processing \<Rightarrow> bool" where
  "started_by crypto hello private_key auth_key p \<longleftrightarrow>
     (\<exists>record p0. start_processing crypto hello private_key auth_key record = Ok p0 \<and>
        pr_master_secret p = pr_master_secret p0 \<and> pr_cipher_suite p = pr_cipher_suite p0 \<and>
        pr_transcript p = pr_transcript p0 \<and> pr_transcript p = hello @ drop 5 record)"

text \<open>A finished handshake: its messages prove the server, and its keys are bound to these messages.\<close>

definition authenticated :: "Crypto \<Rightarrow> bytes \<Rightarrow> bytes \<Rightarrow> bytes \<Rightarrow> RealityClientConnection \<Rightarrow> bool" where
  "authenticated crypto hello private_key auth_key c \<longleftrightarrow>
     (\<exists>p :: Processing. started_by crypto hello private_key auth_key p \<and>
        server_proved crypto auth_key (pr_cipher_suite p) (pr_transcript p) (pr_accumulated p) \<and>
        keys_of crypto (pr_cipher_suite p) (pr_master_secret p) (pr_transcript p @ pr_accumulated p) c)"

definition processing_ok :: "Crypto \<Rightarrow> bytes \<Rightarrow> bytes \<Rightarrow> bytes \<Rightarrow> Processing \<Rightarrow> bool" where
  "processing_ok crypto hello private_key auth_key p \<longleftrightarrow> pr_auth_key p = auth_key \<and>
     started_by crypto hello private_key auth_key p \<and>
     (\<forall>pk. pr_public_key p = Some pk \<longrightarrow> certified crypto auth_key (pr_accumulated p) pk)"

definition handshake_ok :: "Crypto \<Rightarrow> bytes \<Rightarrow> bytes \<Rightarrow> bytes \<Rightarrow> RealityClientConnection \<Rightarrow> bool" where
  "handshake_ok crypto hello private_key auth_key c =
     (case cn_handshake c of
        AwaitingServerHello h k a \<Rightarrow> h = hello \<and> k = private_key \<and> a = auth_key
      | ProcessingHandshake p \<Rightarrow> processing_ok crypto hello private_key auth_key p
      | HandshakeComplete \<Rightarrow> authenticated crypto hello private_key auth_key c)"

definition conn_ok :: "Crypto \<Rightarrow> bytes \<Rightarrow> bytes \<Rightarrow> bytes \<Rightarrow> RealityClientConnection \<Rightarrow> bool" where
  "conn_ok crypto hello private_key auth_key c \<longleftrightarrow>
     handshake_ok crypto hello private_key auth_key c \<and> sb_ok (cn_plaintext_read c) \<and>
     (is_handshaking c \<longrightarrow> as_slice (cn_plaintext_read c) = [] \<and> cn_app_read_key c = None \<and> cn_app_write_key c = None \<and>
        \<not> cn_close_notify c)"

lemma certified_certificate:
  assumes "extract_certificate_der (take n (drop i messages)) = Ok der" "i + n \<le> length messages"
    "verify_certificate_hmac crypto der auth_key = Ok u" "extract_ed25519_public_key crypto der = Ok pk"
  shows "certified crypto auth_key messages pk"
  using assms
  by (auto simp: verify_certificate_hmac_def extract_ed25519_public_key_def certified_def split: if_splits)

lemma certified_append: "certified crypto auth_key messages pk \<Longrightarrow> certified crypto auth_key (messages @ m) pk"
proof -
  assume "certified crypto auth_key messages pk"
  then obtain i n der where c: "i + n \<le> length messages" "extract_certificate_der (take n (drop i messages)) = Ok der"
      "cr_x509 crypto der = Some (pk, cr_hmac crypto SHA512 auth_key pk)"
    by (auto simp: certified_def)
  then have "take n (drop i (messages @ m)) = take n (drop i messages)" by simp
  with c show ?thesis unfolding certified_def by (metis length_append trans_le_add1)
qed

lemma started_by_update [simp]:
  "started_by crypto hello k auth_key (p\<lparr>pr_handshake_seq := n, pr_accumulated := a\<rparr>) = started_by crypto hello k auth_key p"
  "started_by crypto hello k auth_key (p\<lparr>pr_public_key := pk, pr_certificate_verified := b\<rparr>) = started_by crypto hello k auth_key p"
  "started_by crypto hello k auth_key (p\<lparr>pr_cert_verify_offset := cv\<rparr>) = started_by crypto hello k auth_key p"
  "started_by crypto hello k auth_key (p\<lparr>pr_messages_found := found\<rparr>) = started_by crypto hello k auth_key p"
  by (simp_all add: started_by_def)

lemma note_message_ok:
  "processing_ok crypto hello k auth_key p \<Longrightarrow> note_message crypto offset t n p = Ok p' \<Longrightarrow>
    offset + 4 + n \<le> length (pr_accumulated p) \<Longrightarrow> processing_ok crypto hello k auth_key p'"
  using certified_certificate [of "4 + n" offset "pr_accumulated p"]
  by (auto simp: note_message_def processing_ok_def Let_def HANDSHAKE_TYPE_CERTIFICATE_def
      HANDSHAKE_TYPE_CERTIFICATE_VERIFY_def add.assoc split: if_splits)

lemma scan_messages_ok:
  assumes "processing_ok crypto hello k auth_key p" "scan_messages crypto offset p = Ok p'"
  shows "processing_ok crypto hello k auth_key p'"
  using assms
proof (induction crypto offset p rule: scan_messages.induct)
  case (1 crypto offset p)
  from "1.prems" show ?case
    by (subst (asm) scan_messages.simps)
      (auto simp: Let_def not_less split: if_splits intro: "1.IH" dest: note_message_ok)
qed

lemma finish_handshake_proved:
  assumes "processing_ok crypto hello k auth_key p" "finish_handshake crypto p out = (Ok ks, out')"
  shows "authenticated crypto hello k auth_key (install_keys (pr_cipher_suite p) ks c)"
proof -
  from assms(2) have "check_certificate_verify crypto p = Ok True"
    by (auto simp: finish_handshake_def Let_def split: sum.splits if_splits)
  then have "server_proved crypto auth_key (pr_cipher_suite p) (pr_transcript p) (pr_accumulated p)"
    using assms(1)
    by (auto simp: check_certificate_verify_def server_proved_def processing_ok_def Let_def
        verify_certificate_verify_signature_def split: option.splits if_splits)
  moreover have "keys_of crypto (pr_cipher_suite p) (pr_master_secret p) (pr_transcript p @ pr_accumulated p)
      (install_keys (pr_cipher_suite p) ks c)"
    using assms(2)
    by (auto simp: finish_handshake_def keys_of_def install_keys_def Let_def
        split: sum.splits prod.splits if_splits)
  ultimately show ?thesis using assms(1) unfolding authenticated_def processing_ok_def by blast
qed

lemma start_processing_ok:
  assumes "start_processing crypto hello k auth_key r = Ok p"
  shows "processing_ok crypto hello k auth_key p"
proof -
  have "pr_transcript p = hello @ drop 5 r" "pr_auth_key p = auth_key" "pr_public_key p = None"
    using assms by (auto simp: start_processing_def Let_def)
  with assms show ?thesis
    by (simp add: processing_ok_def started_by_def) (rule exI [of _ r], rule exI [of _ p], simp)
qed

lemma authenticated_fields [simp]:
  "authenticated crypto hello k auth_key (c\<lparr>cn_ciphertext_read := b\<rparr>) = authenticated crypto hello k auth_key c"
  "authenticated crypto hello k auth_key (c\<lparr>cn_ciphertext_write := x\<rparr>) = authenticated crypto hello k auth_key c"
  "authenticated crypto hello k auth_key (c\<lparr>cn_plaintext_read := b\<rparr>) = authenticated crypto hello k auth_key c"
  "authenticated crypto hello k auth_key (c\<lparr>cn_plaintext_write := x\<rparr>) = authenticated crypto hello k auth_key c"
  "authenticated crypto hello k auth_key (c\<lparr>cn_write_seq := n\<rparr>) = authenticated crypto hello k auth_key c"
  "authenticated crypto hello k auth_key (c\<lparr>cn_fatal_error := e\<rparr>) = authenticated crypto hello k auth_key c"
  by (simp_all add: authenticated_def keys_of_def)

lemma handshake_ok_fields [simp]:
  "handshake_ok crypto hello k auth_key (c\<lparr>cn_ciphertext_read := b\<rparr>) = handshake_ok crypto hello k auth_key c"
  "handshake_ok crypto hello k auth_key (c\<lparr>cn_ciphertext_write := x\<rparr>) = handshake_ok crypto hello k auth_key c"
  "handshake_ok crypto hello k auth_key (c\<lparr>cn_plaintext_read := b\<rparr>) = handshake_ok crypto hello k auth_key c"
  "handshake_ok crypto hello k auth_key (c\<lparr>cn_plaintext_write := x\<rparr>) = handshake_ok crypto hello k auth_key c"
  "handshake_ok crypto hello k auth_key (c\<lparr>cn_write_seq := n\<rparr>) = handshake_ok crypto hello k auth_key c"
  "handshake_ok crypto hello k auth_key (c\<lparr>cn_fatal_error := e\<rparr>) = handshake_ok crypto hello k auth_key c"
  by (simp_all add: handshake_ok_def split: HandshakeState.split)

lemma take_record_ok [simp]: "conn_ok crypto hello private_key auth_key (snd (take_record n c)) = conn_ok crypto hello private_key auth_key c"
  by (simp add: take_record_def conn_ok_def is_handshaking_def)

lemma handle_handshake_record_ok:
  assumes "conn_ok crypto hello private_key auth_key c" "cn_handshake c = ProcessingHandshake p"
  shows "conn_ok crypto hello private_key auth_key (snd (handle_handshake_record crypto k iv x l p c))"
proof -
  have "processing_ok crypto hello private_key auth_key p" using assms by (simp add: conn_ok_def handshake_ok_def)
  then have q: "processing_ok crypto hello private_key auth_key (p\<lparr>pr_handshake_seq := n, pr_accumulated := pr_accumulated p @ a\<rparr>)" for n a
    by (auto simp: processing_ok_def certified_append)
  have fin: "handshake_ok crypto hello private_key auth_key (install_keys (pr_cipher_suite p1) ks d)"
    if "scan_messages crypto off (p\<lparr>pr_handshake_seq := n, pr_accumulated := pr_accumulated p @ a\<rparr>) = Ok p1"
      "finish_handshake crypto p1 out = (Ok ks, out')" for off n a p1 out ks out' d
    using finish_handshake_proved [OF scan_messages_ok [OF q that(1)] that(2), of d]
    by (simp add: handshake_ok_def install_keys_def)
  show ?thesis
    using assms
    by (auto simp: handle_handshake_record_def conn_ok_def is_handshaking_def
        split: sum.splits prod.splits dest: fin)
      (auto simp: install_keys_def handshake_ok_def intro: scan_messages_ok [OF q])
qed

lemma process_encrypted_handshake_ok:
  "conn_ok crypto hello private_key auth_key c \<Longrightarrow> cn_handshake c = ProcessingHandshake p \<Longrightarrow>
    conn_ok crypto hello private_key auth_key (snd (process_encrypted_handshake crypto p c))"
proof (induction crypto p c rule: process_encrypted_handshake.induct)
  case (1 crypto p c)
  let ?c = "\<lambda>n. snd (take_record n c)"
  have c: "conn_ok crypto hello private_key auth_key (?c n)" "cn_handshake (?c n) = ProcessingHandshake p" for n
    using "1.prems" by (simp_all add: take_record_def [of n c] conn_ok_def handshake_ok_def is_handshaking_def)
  show ?case
  proof (cases "derive_traffic_keys crypto (pr_server_secret p) (pr_cipher_suite p)")
    case (Inl e)
    then show ?thesis using "1.prems"(1) by (subst process_encrypted_handshake.simps) simp
  next
    case (Inr ks)
    note 2 = "1.IH" [OF Inr prod.collapse refl _ _ refl refl _ _ c]
    show ?thesis
      using "1.prems"(1) Inr 2 handle_handshake_record_ok [OF c]
      by (subst process_encrypted_handshake.simps)
        (auto simp: Let_def case_prod_unfold split: option.splits)
  qed
qed

lemma handshake_round_ok:
  assumes "conn_ok crypto hello private_key auth_key c"
  shows "conn_ok crypto hello private_key auth_key (snd (handshake_round crypto c))"
proof (cases "cn_handshake c")
  case (AwaitingServerHello h k a)
  with assms have "h = hello" "k = private_key" "a = auth_key" by (simp_all add: conn_ok_def handshake_ok_def)
  then have sp: "start_processing crypto h k a r = Ok p \<Longrightarrow> processing_ok crypto hello private_key auth_key p" for r p
    by (simp add: start_processing_ok)
  have "conn_ok crypto hello private_key auth_key (snd (take_record n c))" for n using assms by simp
  then have tr: "conn_ok crypto hello private_key auth_key (c\<lparr>cn_ciphertext_read := consume n (cn_ciphertext_read c)\<rparr>)" for n
    by (simp add: take_record_def)
  have "conn_ok crypto hello private_key auth_key (snd (process_server_hello crypto h k a c))"
    using assms tr AwaitingServerHello
    by (auto simp: process_server_hello_def take_record_def Let_def split: option.splits sum.splits dest!: sp)
      (auto simp: conn_ok_def handshake_ok_def is_handshaking_def)
  with AwaitingServerHello show ?thesis by (simp add: handshake_round_def)
next
  case (ProcessingHandshake p)
  with process_encrypted_handshake_ok [OF assms this] show ?thesis by (simp add: handshake_round_def)
next
  case HandshakeComplete
  with assms show ?thesis by (simp add: handshake_round_def)
qed

text \<open>After the handshake every operation keeps the state and a sound plaintext buffer.\<close>

definition keeps_complete :: "RealityClientConnection \<Rightarrow> RealityClientConnection \<Rightarrow> bool" where
  "keeps_complete c c' \<longleftrightarrow> cn_handshake c' = cn_handshake c \<and>
     cn_app_read_key c' = cn_app_read_key c \<and> cn_app_read_iv c' = cn_app_read_iv c \<and>
     cn_app_write_key c' = cn_app_write_key c \<and> cn_app_write_iv c' = cn_app_write_iv c \<and> (sb_ok (cn_plaintext_read c) \<longrightarrow> sb_ok (cn_plaintext_read c'))"

lemma keeps_complete_refl [simp]: "keeps_complete c c"
  by (simp add: keeps_complete_def)

lemma keeps_complete_trans: "keeps_complete a b \<Longrightarrow> keeps_complete b c \<Longrightarrow> keeps_complete a c"
  by (simp add: keeps_complete_def)

lemma keeps_complete_ok:
  "keeps_complete c c' \<Longrightarrow> cn_handshake c = HandshakeComplete \<Longrightarrow> conn_ok crypto hello private_key auth_key c \<Longrightarrow> conn_ok crypto hello private_key auth_key c'"
  by (auto simp: keeps_complete_def conn_ok_def handshake_ok_def is_handshaking_def authenticated_def keys_of_def)

lemma handle_app_record_keeps: "keeps_complete c (snd (handle_app_record t x c))"
proof -
  have "sb_ok b \<Longrightarrow> extend_from_slice x (maybe_compact 4096 b) = Some b' \<Longrightarrow> sb_ok b'" for b b'
    using as_slice_extend maybe_compact_ok by blast
  then show ?thesis
    by (auto simp: handle_app_record_def keeps_complete_def Let_def maybe_compact_ok split: option.splits)
qed

lemma decrypt_next_keeps: "keeps_complete c (snd (decrypt_next crypto k iv n l c))"
  by (auto simp: decrypt_next_def keeps_complete_def Let_def split: prod.splits)

lemma app_data_loop_keeps: "keeps_complete c (snd (app_data_loop crypto k iv c))"
proof (induction crypto k iv c rule: app_data_loop.induct)
  case (1 crypto k iv c)
  have d: "decrypt_next crypto k iv n l c = (r, c1) \<Longrightarrow> keeps_complete c c1" for n l r c1
    using decrypt_next_keeps [of c crypto k iv n l] by simp
  have h: "handle_app_record t x c1 = (r, c2) \<Longrightarrow> keeps_complete c1 c2" for t x c1 r c2
    using handle_app_record_keeps [of c1 t x] by simp
  have t: "keeps_complete c2 (snd (take_record n c2))" for n c2 by (simp add: take_record_def keeps_complete_def)
  have ih: "keeps_complete c (snd (app_data_loop crypto k iv (snd (take_record (5 + unat l) c2))))"
    if "\<not> sb_len (cn_ciphertext_read c) < 5" "get_u16_be 3 (cn_ciphertext_read c) = Some l"
      "\<not> sb_len (cn_ciphertext_read c) < 5 + unat l" "decrypt_next crypto k iv (5 + unat l) l c = (Ok (a, b), c1)"
      "handle_app_record a b c1 = (Ok True, c2)" for l a b c1 c2
    using "1.IH" [OF refl that(1,2) refl that(3) that(4) [symmetric] refl refl that(5) [symmetric] refl refl]
      d [OF that(4)] h [OF that(5)] t keeps_complete_trans by metis
  show ?case
    by (subst app_data_loop.simps)
      (auto simp: Let_def split: option.splits sum.splits prod.splits bool.splits
        dest: d h intro: keeps_complete_trans [OF d] ih)
qed

lemma process_new_packets_inner_ok:
  "conn_ok crypto hello private_key auth_key c \<Longrightarrow> conn_ok crypto hello private_key auth_key (snd (process_new_packets_inner crypto c))"
proof (induction crypto c rule: process_new_packets_inner.induct)
  case (1 crypto c)
  have app: "conn_ok crypto hello private_key auth_key (snd (process_application_data crypto c))" if "cn_handshake c = HandshakeComplete"
    using that "1.prems" keeps_complete_ok [OF app_data_loop_keeps]
    by (auto simp: process_application_data_def split: option.splits)
  have hs: "conn_ok crypto hello private_key auth_key c1" if "handshake_round crypto c = (r, c1)" for r c1
    using handshake_round_ok [OF "1.prems"] that by simp
  show ?case
    using app "1.IH" hs
    by (subst process_new_packets_inner.simps) (auto split: sum.splits prod.splits bool.splits)
qed

lemma process_new_packets_ok:
  assumes "conn_ok crypto hello private_key auth_key c"
  shows "conn_ok crypto hello private_key auth_key (snd (process_new_packets crypto c))"
proof -
  have "conn_ok crypto hello private_key auth_key (c1\<lparr>cn_fatal_error := k\<rparr>) = conn_ok crypto hello private_key auth_key c1" for c1 k
    by (simp add: conn_ok_def is_handshaking_def)
  then show ?thesis
    using assms process_new_packets_inner_ok [OF assms]
    by (auto simp: process_new_packets_def split: option.splits sum.splits prod.splits)
qed

lemma conn_ok_fields [simp]:
  "conn_ok crypto hello private_key auth_key (c\<lparr>cn_ciphertext_read := b\<rparr>) = conn_ok crypto hello private_key auth_key c"
  "conn_ok crypto hello private_key auth_key (c\<lparr>cn_ciphertext_write := x\<rparr>) = conn_ok crypto hello private_key auth_key c"
  "conn_ok crypto hello private_key auth_key (c\<lparr>cn_plaintext_write := x\<rparr>) = conn_ok crypto hello private_key auth_key c"
  "conn_ok crypto hello private_key auth_key (c\<lparr>cn_write_seq := n\<rparr>) = conn_ok crypto hello private_key auth_key c"
  by (simp_all add: conn_ok_def is_handshaking_def)

lemma conn_ok_plaintext:
  assumes "conn_ok crypto hello private_key auth_key c" "sb_ok b" "as_slice (cn_plaintext_read c) = [] \<Longrightarrow> as_slice b = []"
  shows "conn_ok crypto hello private_key auth_key (c\<lparr>cn_plaintext_read := b\<rparr>)"
  using assms by (auto simp: conn_ok_def is_handshaking_def)

lemma conn_step_ok:
  assumes "conn_step crypto c c'" "conn_ok crypto hello private_key auth_key c"
  shows "conn_ok crypto hello private_key auth_key c'"
  using assms
proof (induction rule: conn_step.induct)
  case (step_process c r c')
  then show ?case using process_new_packets_ok [of crypto hello private_key auth_key c] by simp
next
  case (step_reader c)
  then have "sb_ok (cn_plaintext_read c)" by (simp add: conn_ok_def)
  with step_reader show ?case by (simp add: conn_reader_def conn_ok_plaintext maybe_compact_ok)
next
  case (step_reader_read n c out c')
  then have "sb_ok (cn_plaintext_read c)" by (simp add: conn_ok_def)
  with step_reader_read sb.pop_ok [OF this] show ?case
    by (auto simp: reader_read_def Let_def intro!: conn_ok_plaintext split: if_splits)
next
  case (step_consume c n)
  then have "sb_ok (cn_plaintext_read c)" by (simp add: conn_ok_def)
  with step_consume sb.pop_ok [OF this] show ?case
    by (auto simp: reader_consume_def Let_def intro!: conn_ok_plaintext)
qed (auto simp: read_tls_def writer_write_def write_tls_def flush_ciphertext_def encrypt_pending_def send_close_notify_def
    Let_def split: sum.splits option.splits prod.splits if_splits)

lemma generate_client_hello_shape:
  "generate_client_hello crypto k r t c = Ok c' \<Longrightarrow>
    \<exists>out wire a. c' = c\<lparr>cn_ciphertext_write := out, cn_handshake := AwaitingServerHello wire k a\<rparr>"
  unfolding generate_client_hello_def Let_def by (elim and_then_OkE) blast

lemma new_connection_ok:
  assumes "RealityClientConnection_new crypto k r t config = Ok c" "cn_handshake c = AwaitingServerHello hello private_key auth_key"
  shows "conn_ok crypto hello private_key auth_key c"
proof -
  have "sb_ok (SlideBuffer_new n)" "as_slice (SlideBuffer_new n) = []" for n
    by (simp_all add: SlideBuffer_new_def sb_ok_def as_slice_def)
  then show ?thesis
    using generate_client_hello_shape [OF assms(1) [unfolded RealityClientConnection_new_def]] assms(2)
    by (auto simp: conn_ok_def handshake_ok_def)
qed

text \<open>
  C2: whatever a network peer and the caller do in whatever order, a REALITY client connection finishes
  its handshake only after the server has sent a certificate whose signature is the HMAC of its Ed25519
  key under the authentication key of this connection, and a CertificateVerify message with a valid
  signature under that key over a transcript that begins with this connection's ClientHello; and the
  application keys in use are those derived from the whole of that transcript. Before that no
  application key is installed and not a byte of plaintext can be read.
\<close>

theorem handshake_authenticates_server:
  assumes "RealityClientConnection_new crypto private_key random timestamp config = Ok c0"
    and "cn_handshake c0 = AwaitingServerHello hello private_key auth_key" "(conn_step crypto)\<^sup>*\<^sup>* c0 c"
  shows "if is_handshaking c then cn_app_read_key c = None \<and> cn_app_write_key c = None \<and> as_slice (cn_plaintext_read c) = []
    else authenticated crypto hello private_key auth_key c"
proof -
  from assms(3) new_connection_ok [OF assms(1,2)] have "conn_ok crypto hello private_key auth_key c"
    by (induction rule: rtranclp_induct) (simp_all add: conn_step_ok)
  then show ?thesis by (auto simp: conn_ok_def is_handshaking_def handshake_ok_def)
qed

lemma marking_new:
  assumes "length k = 32" "length (rcf_short_id config) = 8"
  shows "\<exists>c hello auth. RealityClientConnection_new marking_crypto k r t config = Ok c \<and>
    cn_handshake c = AwaitingServerHello hello k auth"
proof -
  have "length (session_id_plaintext t (rcf_short_id config)) = 16"
    using assms(2) by (simp add: session_id_plaintext_def u32_to_be_def)
  then show ?thesis
    by (simp add: RealityClientConnection_new_def generate_client_hello_def Let_def perform_ecdh_def derive_auth_key_def
        encrypt_session_id_def marking_crypto_def)
qed

theorem handshake_authenticates_server_witness:
  "\<exists>c hello auth. RealityClientConnection_new marking_crypto (replicate 32 1) (replicate 32 2) 1700000000
      \<lparr>rcf_public_key = replicate 32 5, rcf_short_id = replicate 8 6, rcf_server_name = ''example.com'', rcf_cipher_suites = []\<rparr> = Ok c \<and>
    cn_handshake c = AwaitingServerHello hello (replicate 32 1) auth \<and>
    cn_app_read_key c = None \<and> as_slice (cn_plaintext_read c) = []"
proof -
  let ?cf = "\<lparr>rcf_public_key = replicate 32 5, rcf_short_id = replicate 8 6, rcf_server_name = ''example.com'', rcf_cipher_suites = []\<rparr>"
  obtain c hello auth where c: "RealityClientConnection_new marking_crypto (replicate 32 1) (replicate 32 2) 1700000000 ?cf = Ok c"
      "cn_handshake c = AwaitingServerHello hello (replicate 32 1) auth"
    using marking_new [of "replicate 32 1" ?cf "replicate 32 2" 1700000000] by auto
  from handshake_authenticates_server [OF c rtranclp.rtrancl_refl] c show ?thesis
    by (auto simp: is_handshaking_def)
qed

section \<open>Messages the client does not expect\<close>

text \<open>
  After the handshake a record that decrypts to a handshake message, such as the session tickets a
  TLS 1.3 server may send, reaches the branch marked unreachable: the decryptor accepts its type.
\<close>

lemma post_handshake_message_panics:
  assumes "cn_handshake c = HandshakeComplete" "cn_app_read_key c = Some k" "cn_app_read_iv c = Some iv"
    and "5 \<le> sb_len (cn_ciphertext_read c)" "get_u16_be 3 (cn_ciphertext_read c) = Some n"
    and "5 + unat n \<le> sb_len (cn_ciphertext_read c)" "cn_fatal_error c = None" "\<not> cn_close_notify c"
    and "decrypt_record_in_place crypto k iv (sb_slice (cn_ciphertext_read c) 5 (5 + unat n)) n (cn_read_seq c) =
      (Ok (CONTENT_TYPE_HANDSHAKE, message), seq, left)"
  shows "fst (process_new_packets crypto c) = Err Panicked"
proof -
  have "fst (app_data_loop crypto k iv c) = Err Panicked"
    using assms
    by (subst app_data_loop.simps)
      (simp add: decrypt_next_def handle_app_record_def CONTENT_TYPE_HANDSHAKE_def CONTENT_TYPE_APPLICATION_DATA_def
        CONTENT_TYPE_ALERT_def Let_def)
  then have "fst (process_new_packets_inner crypto c) = Err Panicked"
    using assms(1-3) by (subst process_new_packets_inner.simps) (auto simp: process_application_data_def split: sum.splits prod.splits)
  then show ?thesis
    using assms(7,8) by (auto simp: process_new_packets_def split: sum.splits prod.splits)
qed

text \<open>
  A handshake message whose bytes are spread over two records is not found: the scan of the second
  record starts at the bytes it added, not at the beginning of the unfinished message.
\<close>

lemma split_message_lost:
  assumes "pr_accumulated p = [8, 0, 0, 2] @ [0, 0]" "pr_messages_found p = 0"
  shows "scan_messages crypto 4 p = Ok p"
    and "\<exists>p'. scan_messages crypto 0 p = Ok p' \<and> pr_messages_found p' = 1"
proof -
  show "scan_messages crypto 4 p = Ok p" using assms by (subst scan_messages.simps) simp
  have "u24_at [8, 0, 0, 2, 0, 0] (Suc 0) = 2" by (simp add: u24_at_def u24_from_be_def)
  then show "\<exists>p'. scan_messages crypto 0 p = Ok p' \<and> pr_messages_found p' = 1"
    using assms
    by (subst scan_messages.simps)
      (simp add: note_message_def HANDSHAKE_TYPE_CERTIFICATE_def HANDSHAKE_TYPE_CERTIFICATE_VERIFY_def
        scan_messages.simps Let_def)
qed

end
