(* ===== verification/Reality_Handshake.thy ===== *)
theory Reality_Handshake
  imports Reality_Client
begin

text \<open>
  An honest server and the REALITY client together: the ServerHello and the encrypted flight that the
  message constructors and the record encryptor produce take a new client connection through the
  handshake.
\<close>

section \<open>Records at the front of the buffer\<close>

lemma record_front:
  assumes "sb_ok b" "as_slice b = h @ body @ rest" "length h = 5" "length body < 65536"
    and "u16_from_be (h ! 3) (h ! 4) = of_nat (length body)"
  shows "\<not> sb_len b < 5" "get_u16_be 3 b = Some (of_nat (length body))" "unat (of_nat (length body) :: u16) = length body"
    "\<not> sb_len b < 5 + length body" "sb_slice b 0 (5 + length body) = h @ body" "sb_index b 0 = h ! 0"
    "sb_ok (consume (5 + length body) b)" "as_slice (consume (5 + length body) b) = rest"
proof -
  have len: "sb_len b = 5 + length body + length rest" using length_as_slice [OF assms(1)] assms(2,3) by simp
  then show "\<not> sb_len b < 5" "\<not> sb_len b < 5 + length body" by simp_all
  show "get_u16_be 3 b = Some (of_nat (length body))"
    using assms(2,3,5) by (simp add: get_u16_be_as_slice [OF assms(1)] nth_append)
  show "unat (of_nat (length body) :: u16) = length body" using assms(4) by (rule unat_of_nat_u16)
  show "sb_slice b 0 (5 + length body) = h @ body"
    using assms(1-3) len by (simp add: sb_slice_as_slice)
  show "sb_index b 0 = h ! 0" using assms(1-3) len by (simp add: sb_index_as_slice nth_append)
  show "sb_ok (consume (5 + length body) b)" "as_slice (consume (5 + length body) b) = rest"
    using sb.pop_ok [OF assms(1)] assms(2,3) by simp_all
qed

lemma u24_at_append:
  assumes "n < 16777216"
  shows "u24_at (pre @ u24_to_be n @ post) (length pre) = n"
  using u24_roundtrip [OF assms] by (simp add: u24_at_def u24_to_be_def nth_append)

section \<open>Scanning the flight\<close>

definition handshake_message :: "u8 \<Rightarrow> bytes \<Rightarrow> bytes" where
  "handshake_message t body = t # u24_to_be (length body) @ body"

lemma length_handshake_message [simp]: "length (handshake_message t body) = 4 + length body"
  by (simp add: handshake_message_def u24_to_be_def)

lemma constructed_messages:
  "construct_encrypted_extensions = handshake_message 8 [0, 0]"
  "construct_certificate der = handshake_message 11 ([0] @ u24_to_be (3 + length der + 2) @ u24_to_be (length der) @ der @ [0, 0])"
  "construct_certificate_verify sign h =
     handshake_message 15 ([8, 7] @ len_be (length (sign (cert_verify_content h))) @ sign (cert_verify_content h))"
  "construct_finished v = handshake_message 20 v"
  by (simp_all add: construct_encrypted_extensions_def construct_certificate_def construct_certificate_verify_def
      construct_finished_def handshake_message_def HANDSHAKE_TYPE_ENCRYPTED_EXTENSIONS_def HANDSHAKE_TYPE_CERTIFICATE_def
      HANDSHAKE_TYPE_CERTIFICATE_VERIFY_def HANDSHAKE_TYPE_FINISHED_def u16_to_be_def u24_to_be_def Let_def)

lemma scan_message:
  assumes "pr_accumulated p = pre @ handshake_message t body @ post" "offset = length pre" "pr_messages_found p < 4"
    and "length body < 16777216" "note_message crypto offset t (length body) p = Ok p'"
  shows "scan_messages crypto offset p = scan_messages crypto (offset + 4 + length body) p'"
proof -
  have "u24_at (pr_accumulated p) (length pre + 1) = length body"
    using u24_at_append [OF assms(4), of "pre @ [t]" "body @ post"] by (simp add: assms(1) handshake_message_def)
  then show ?thesis
    using assms(1,2,3,5) by (subst scan_messages.simps) (simp add: Let_def handshake_message_def nth_append u24_to_be_def)
qed

lemma scan_stop: "\<not> pr_messages_found p < 4 \<Longrightarrow> scan_messages crypto offset p = Ok p"
  by (subst scan_messages.simps) simp

lemma extract_constructed_certificate:
  assumes "length der < 16777216"
  shows "extract_certificate_der (construct_certificate der) = Ok der"
proof -
  have m: "construct_certificate der = (11 # u24_to_be (9 + length der) @ 0 # u24_to_be (5 + length der)) @ u24_to_be (length der) @ der @ [0, 0]"
    by (simp add: construct_certificate_def HANDSHAKE_TYPE_CERTIFICATE_def Let_def)
  have len: "length (11 # u24_to_be (9 + length der) @ 0 # u24_to_be (5 + length der)) = 8"
    by (simp add: u24_to_be_def)
  have "u24_at (construct_certificate der) 8 = length der"
    using u24_at_append [OF assms, of "11 # u24_to_be (9 + length der) @ 0 # u24_to_be (5 + length der)" "der @ [0, 0]"]
    unfolding m len by simp
  moreover have "construct_certificate der ! 4 = 0" "length (construct_certificate der) = 13 + length der"
    "drop 11 (construct_certificate der) = der @ [0, 0]"
    by (simp_all add: m u24_to_be_def)
  ultimately show ?thesis by (simp add: extract_certificate_der_def Let_def)
qed

lemma extract_constructed_signature:
  assumes "length (sign (cert_verify_content h)) = 64"
  shows "extract_certificate_verify_signature (construct_certificate_verify sign h) = Ok (sign (cert_verify_content h))"
proof -
  have m: "construct_certificate_verify sign h = 15 # u24_to_be 68 @ [8, 7, 0, 64] @ sign (cert_verify_content h)"
    using assms by (simp add: construct_certificate_verify_def HANDSHAKE_TYPE_CERTIFICATE_VERIFY_def u16_to_be_def Let_def)
  show ?thesis
    using assms by (simp add: extract_certificate_verify_signature_def m u24_to_be_def u16_from_be_def Let_def)
qed

definition flight :: "bytes \<Rightarrow> (bytes \<Rightarrow> bytes) \<Rightarrow> bytes \<Rightarrow> bytes \<Rightarrow> bytes" where
  "flight der sign cv_hash verify_data =
     construct_encrypted_extensions @ construct_certificate der @ construct_certificate_verify sign cv_hash @
     construct_finished verify_data"

definition cv_at :: "bytes \<Rightarrow> nat" where
  "cv_at der = length (construct_encrypted_extensions @ construct_certificate der)"

lemma scan_flight:
  assumes acc: "pr_accumulated p = flight der sign h v" "pr_messages_found p = 0"
    and cert: "verify_certificate_hmac crypto der (pr_auth_key p) = Ok ()" "extract_ed25519_public_key crypto der = Ok pk"
    and len: "length der + 9 < 16777216" "length (sign (cert_verify_content h)) = 64" "length v < 16777216"
  shows "scan_messages crypto 0 p =
    Ok (p\<lparr>pr_messages_found := 4, pr_certificate_verified := True, pr_public_key := Some pk, pr_cert_verify_offset := Some (cv_at der)\<rparr>)"
proof -
  let ?cert = "[0] @ u24_to_be (3 + length der + 2) @ u24_to_be (length der) @ der @ [0, 0]"
  let ?cv = "[8, 7] @ len_be (length (sign (cert_verify_content h))) @ sign (cert_verify_content h)"
  let ?ee = "handshake_message 8 [0, 0]" and ?c = "handshake_message 11 ?cert" and ?v = "handshake_message 15 ?cv"
    and ?f = "handshake_message 20 v"
  have fl: "flight der sign h v = ?ee @ ?c @ ?v @ ?f" by (simp add: flight_def constructed_messages)
  have body: "length ?cert < 16777216" "length ?cv < 16777216" using len by (simp_all add: u24_to_be_def)
  define p1 where "p1 = p\<lparr>pr_messages_found := 1\<rparr>"
  define p2 where "p2 = p\<lparr>pr_messages_found := 2, pr_certificate_verified := True, pr_public_key := Some pk\<rparr>"
  define p3 where "p3 = p2\<lparr>pr_messages_found := 3, pr_cert_verify_offset := Some (cv_at der)\<rparr>"
  have cv: "cv_at der = length (?ee @ ?c)" by (simp add: cv_at_def constructed_messages)
  have n1: "note_message crypto 0 8 (Suc (Suc 0)) p = Ok p1"
    by (simp add: note_message_def HANDSHAKE_TYPE_CERTIFICATE_def HANDSHAKE_TYPE_CERTIFICATE_VERIFY_def p1_def acc(2))
  have "take (4 + length ?cert) (drop 6 (pr_accumulated p1)) = construct_certificate der"
    by (simp add: p1_def acc(1) fl constructed_messages)
  then have n2: "note_message crypto 6 11 (length ?cert) p1 = Ok p2"
    using extract_constructed_certificate [of der] len(1) cert
    by (simp add: note_message_def HANDSHAKE_TYPE_CERTIFICATE_def HANDSHAKE_TYPE_CERTIFICATE_VERIFY_def p1_def p2_def)
  have n3: "note_message crypto (cv_at der) 15 (length ?cv) p2 = Ok p3"
    by (simp add: note_message_def HANDSHAKE_TYPE_CERTIFICATE_def HANDSHAKE_TYPE_CERTIFICATE_VERIFY_def p2_def p3_def)
  have n4: "note_message crypto k 20 (length v) p3 = Ok (p3\<lparr>pr_messages_found := 4\<rparr>)" for k
    by (simp add: note_message_def HANDSHAKE_TYPE_CERTIFICATE_def HANDSHAKE_TYPE_CERTIFICATE_VERIFY_def p2_def p3_def)
  have a: "pr_accumulated p = [] @ ?ee @ ?c @ ?v @ ?f" "pr_accumulated p1 = ?ee @ ?c @ ?v @ ?f"
    "pr_accumulated p2 = (?ee @ ?c) @ ?v @ ?f" "pr_accumulated p3 = (?ee @ ?c @ ?v) @ ?f @ []"
    by (simp_all add: p1_def p2_def p3_def acc(1) fl)
  have "scan_messages crypto 0 p = scan_messages crypto (0 + 4 + length [0 :: u8, 0]) p1"
    using acc(2) n1 by (intro scan_message [OF a(1)]) simp_all
  also have "\<dots> = scan_messages crypto 6 p1" by simp
  also have "\<dots> = scan_messages crypto (6 + 4 + length ?cert) p2"
    using body(1) n2 by (intro scan_message [OF a(2)]) (simp_all add: p1_def)
  also have "6 + 4 + length ?cert = cv_at der" using cv by simp
  also have "scan_messages crypto (cv_at der) p2 = scan_messages crypto (cv_at der + 4 + length ?cv) p3"
    using body(2) n3 cv by (intro scan_message [OF a(3)]) (simp_all add: p2_def)
  also have "\<dots> = scan_messages crypto (cv_at der + 4 + length ?cv + 4 + length v) (p3\<lparr>pr_messages_found := 4\<rparr>)"
    using len(3) n4 cv by (intro scan_message [OF a(4)]) (simp_all add: p2_def p3_def)
  also have "\<dots> = Ok (p3\<lparr>pr_messages_found := 4\<rparr>)" by (simp add: scan_stop)
  finally show ?thesis by (simp add: p3_def p2_def)
qed

section \<open>Finishing\<close>

lemma finished_verify_data_total:
  assumes "hmac_ok crypto"
  obtains v where "compute_finished_verify_data crypto cs base_key hash = Ok v" "length v = hash_len cs"
proof -
  obtain fk where "hkdf_expand_label crypto (digest_algorithm cs) base_key ''finished'' [] (hash_len cs) = Ok fk"
    using hkdf_expand_label_length [OF assms, of "hash_len cs" "digest_algorithm cs" base_key "''finished''" "[]"]
    by (auto simp: hash_len_def)
  moreover have "length (cr_hmac crypto (digest_algorithm cs) fk hash) = hash_len cs"
    using assms by (simp add: hmac_ok_def hash_len_def)
  ultimately show thesis using that by (simp add: compute_finished_verify_data_def)
qed

lemma hash_len_bound: "hash_len cs \<le> 48"
  by (cases cs) (simp_all add: hash_len_def)

lemma finish_handshake_total:
  assumes crypto: "aead_ok crypto" "hmac_ok crypto" and p: "length (pr_master_secret p) = hash_len (pr_cipher_suite p)"
    and checks: "pr_certificate_verified p" "check_certificate_verify crypto p = Ok True"
  shows "\<exists>aks out'. finish_handshake crypto p out = (Ok aks, out')"
proof -
  let ?cs = "pr_cipher_suite p"
  let ?hash = "cr_hash crypto (digest_algorithm ?cs) (pr_transcript p @ pr_accumulated p)"
  have hash: "length ?hash = hash_len ?cs" using crypto(2) by (simp add: hmac_ok_def hash_len_def)
  obtain v where v: "compute_finished_verify_data crypto ?cs (pr_client_secret p) ?hash = Ok v" "length v = hash_len ?cs"
    using crypto(2) by (rule finished_verify_data_total)
  obtain k iv where k: "derive_traffic_keys crypto (pr_client_secret p) ?cs = Ok (k, iv)" "length k = key_len ?cs" "length iv = 12"
    using crypto(2) by (rule traffic_keys_length)
  have fin: "construct_finished v \<noteq> []" "length (construct_finished v) \<le> MAX_TLS_PLAINTEXT_LEN"
    using v(2) hash_len_bound [of ?cs] by (simp_all add: construct_finished_def u24_to_be_def MAX_TLS_PLAINTEXT_LEN_def)
  obtain enc where enc: "encrypt_handshake crypto \<lparr>ak_suite = ?cs, ak_key = k\<rparr> iv (construct_finished v) \<lparr>re_seq = 0, re_out = out\<rparr> = (Ok (), enc)"
    using handshake_record_decrypts [OF crypto(1) k(3,2) fin, of 0 out] by auto
  obtain a b where ab: "derive_application_secrets crypto ?cs (pr_master_secret p) ?hash = Ok (a, b)"
    using application_secrets_length [OF crypto(2) p hash] by metis
  obtain ka iva where ka: "derive_traffic_keys crypto a ?cs = Ok (ka, iva)" "length ka = key_len ?cs"
    using traffic_keys_length [OF crypto(2)] by metis
  obtain kb ivb where kb: "derive_traffic_keys crypto b ?cs = Ok (kb, ivb)" "length kb = key_len ?cs"
    using traffic_keys_length [OF crypto(2)] by metis
  show ?thesis
    using checks v(1) k enc ab ka kb by (simp add: finish_handshake_def AeadKey_new_def Let_def)
qed

section \<open>An honest server completes the handshake\<close>

lemma cs_from_id_cs_id [simp]: "cs_from_id (cs_id cs) = Some cs"
  by (cases cs) (simp_all add: cs_from_id_def)

lemma write_record_header_front:
  "length (write_record_header t n) = 5" "write_record_header t n ! 0 = t"
  "u16_from_be (write_record_header t n ! 3) (write_record_header t n ! 4) = n"
proof -
  obtain a b where "u16_to_be n = [a, b]" "u16_from_be a b = n" by (metis u16_be_roundtrip u16_to_be_def)
  then show "length (write_record_header t n) = 5" "write_record_header t n ! 0 = t"
    "u16_from_be (write_record_header t n ! 3) (write_record_header t n ! 4) = n"
    by (simp_all add: write_record_header_def VERSION_TLS_1_2_def)
qed

lemma make_record_header_front:
  assumes "n < 65536"
  shows "make_record_header n ! 0 = CONTENT_TYPE_APPLICATION_DATA"
    "u16_from_be (make_record_header n ! 3) (make_record_header n ! 4) = of_nat n"
proof -
  have "unat (u16_from_be (make_record_header n ! 3) (make_record_header n ! 4)) = unat (of_nat n :: u16)"
    using record_header_length [OF assms] assms by (simp add: unat_of_nat_u16)
  then show "u16_from_be (make_record_header n ! 3) (make_record_header n ! 4) = of_nat n"
    by (simp only: word_unat_eq_iff)
qed (simp add: make_record_header_def)

text \<open>What the parties agree on: the suite, the keys, and a server that can answer for its certificate.\<close>

record HonestServer =
  hs_suite :: CipherSuite
  hs_random :: bytes
  hs_session_id :: bytes
  hs_public_key :: bytes
  hs_certificate :: bytes
  hs_ed25519_key :: bytes
  hs_sign :: "bytes \<Rightarrow> bytes"
  hs_verify_data :: bytes

definition server_hello_of :: "HonestServer \<Rightarrow> bytes" where
  "server_hello_of s = construct_server_hello (hs_random s) (hs_session_id s) (cs_id (hs_suite s)) (hs_public_key s)"

definition cv_hash_of :: "Crypto \<Rightarrow> bytes \<Rightarrow> HonestServer \<Rightarrow> bytes" where
  "cv_hash_of crypto hello s = cr_hash crypto (digest_algorithm (hs_suite s))
     (hello @ server_hello_of s @ construct_encrypted_extensions @ construct_certificate (hs_certificate s))"

definition flight_of :: "Crypto \<Rightarrow> bytes \<Rightarrow> HonestServer \<Rightarrow> bytes" where
  "flight_of crypto hello s = flight (hs_certificate s) (hs_sign s) (cv_hash_of crypto hello s) (hs_verify_data s)"

text \<open>The records the server sends: its ServerHello and its encrypted flight.\<close>

definition server_records :: "Crypto \<Rightarrow> bytes \<Rightarrow> bytes \<Rightarrow> HonestServer \<Rightarrow> RealityError + bytes" where
  "server_records crypto hello shared s =
     (let cs = hs_suite s; sh = server_hello_of s in
      and_then (derive_handshake_keys crypto cs shared (cr_hash crypto (digest_algorithm cs) (hello @ sh))) (\<lambda>ks.
      and_then (derive_traffic_keys crypto (hk_server_handshake_traffic_secret ks) cs) (\<lambda>(k, iv).
      and_then (AeadKey_new cs k) (\<lambda>key.
        (case encrypt_handshake crypto key iv (flight_of crypto hello s) \<lparr>re_seq = 0, re_out = []\<rparr> of
           (Inl e, _) \<Rightarrow> Err e
         | (Inr _, e) \<Rightarrow> Ok (write_record_header CONTENT_TYPE_HANDSHAKE (of_nat (length sh)) @ sh @ re_out e))))))"

definition honest :: "Crypto \<Rightarrow> bytes \<Rightarrow> bytes \<Rightarrow> bytes \<Rightarrow> bytes \<Rightarrow> HonestServer \<Rightarrow> bool" where
  "honest crypto hello private_key auth_key shared s \<longleftrightarrow>
     cr_x25519_public crypto private_key \<noteq> None \<and> cr_x25519_agree crypto private_key (hs_public_key s) = Some shared \<and>
     length shared = 32 \<and> length (hs_public_key s) = 32 \<and> length (hs_random s) = 32 \<and> length (hs_session_id s) \<le> 32 \<and>
     cr_x509 crypto (hs_certificate s) = Some (hs_ed25519_key s, cr_hmac crypto SHA512 auth_key (hs_ed25519_key s)) \<and>
     length (hs_ed25519_key s) = 32 \<and>
     (let content = cert_verify_content (cv_hash_of crypto hello s) in
      length (hs_sign s content) = 64 \<and> cr_ed25519_verify crypto (hs_ed25519_key s) content (hs_sign s content)) \<and>
     length (flight_of crypto hello s) \<le> MAX_TLS_PLAINTEXT_LEN"

lemma honest_certificate:
  assumes "hmac_ok crypto" "honest crypto hello private_key auth_key shared s"
  shows "verify_certificate_hmac crypto (hs_certificate s) auth_key = Ok ()"
    "extract_ed25519_public_key crypto (hs_certificate s) = Ok (hs_ed25519_key s)"
  using assms by (simp_all add: honest_def verify_certificate_hmac_def extract_ed25519_public_key_def hmac_ok_def)

lemma length_server_hello_of:
  assumes "honest crypto hello private_key auth_key shared s"
  shows "length (server_hello_of s) < 65536"
  using assms
  by (simp add: honest_def server_hello_of_def construct_server_hello_def server_hello_extensions_def u24_to_be_def
      VERSION_TLS_1_2_def Let_def)

text \<open>The handshake state behind the ServerHello.\<close>

definition processing_hello :: "bytes \<Rightarrow> bytes \<Rightarrow> HonestServer \<Rightarrow> Tls13HandshakeKeys \<Rightarrow> Processing" where
  "processing_hello hello auth_key s ks =
     \<lparr>pr_client_secret = hk_client_handshake_traffic_secret ks, pr_server_secret = hk_server_handshake_traffic_secret ks,
      pr_master_secret = hk_master_secret ks, pr_cipher_suite = hs_suite s,
      pr_transcript = hello @ server_hello_of s, pr_auth_key = auth_key,
      pr_handshake_seq = 0, pr_accumulated = [], pr_messages_found = 0,
      pr_certificate_verified = False, pr_public_key = None, pr_cert_verify_offset = None\<rparr>"

lemma start_processing_honest:
  assumes "honest crypto hello private_key auth_key shared s" "length hdr = 5"
    and "derive_handshake_keys crypto (hs_suite s) shared
      (cr_hash crypto (digest_algorithm (hs_suite s)) (hello @ server_hello_of s)) = Ok ks"
  shows "start_processing crypto hello private_key auth_key (hdr @ server_hello_of s) = Ok (processing_hello hello auth_key s ks)"
proof -
  have "extract_server_public_key (hdr @ server_hello_of s) = Ok (hs_public_key s)"
    "extract_server_cipher_suite (hdr @ server_hello_of s) = Ok (cs_id (hs_suite s))"
    using assms(1,2) by (simp_all add: honest_def server_hello_of_def server_hello_fields)
  with assms show ?thesis by (auto simp: start_processing_def processing_hello_def honest_def Let_def)
qed

lemma check_certificate_verify_honest:
  assumes "honest crypto hello private_key auth_key shared s" "pr_cipher_suite p = hs_suite s"
    and "pr_transcript p = hello @ server_hello_of s" "pr_accumulated p = flight_of crypto hello s"
    and "pr_public_key p = Some (hs_ed25519_key s)" "pr_cert_verify_offset p = Some (cv_at (hs_certificate s))"
  shows "check_certificate_verify crypto p = Ok True"
proof -
  let ?h = "cv_hash_of crypto hello s" and ?n = "cv_at (hs_certificate s)"
  let ?m = "construct_certificate_verify (hs_sign s) ?h" and ?pre = "construct_encrypted_extensions @ construct_certificate (hs_certificate s)"
  have sig: "length (hs_sign s (cert_verify_content ?h)) = 64"
    "cr_ed25519_verify crypto (hs_ed25519_key s) (cert_verify_content ?h) (hs_sign s (cert_verify_content ?h))"
    using assms(1) by (simp_all add: honest_def Let_def)
  have acc: "pr_accumulated p = ?pre @ ?m @ construct_finished (hs_verify_data s)"
    by (simp add: assms(4) flight_of_def flight_def)
  have "take ?n (pr_accumulated p) = ?pre" "drop ?n (pr_accumulated p) = ?m @ construct_finished (hs_verify_data s)"
    by (simp_all add: acc cv_at_def)
  moreover have "u24_at (pr_accumulated p) (?n + 1) = 68"
    using u24_at_append [of 68 "?pre @ [15]" "[8, 7] @ len_be 64 @ hs_sign s (cert_verify_content ?h) @ construct_finished (hs_verify_data s)"] sig(1)
    by (simp add: acc cv_at_def constructed_messages(3) handshake_message_def)
  moreover have "length ?m = 72" using sig(1) by (simp add: constructed_messages(3))
  moreover have "cr_hash crypto (digest_algorithm (pr_cipher_suite p)) (pr_transcript p @ ?pre) = ?h"
    by (simp add: assms(2,3) cv_hash_of_def)
  ultimately show ?thesis
    using extract_constructed_signature [of "hs_sign s" ?h] sig
    by (simp add: check_certificate_verify_def assms(5,6) verify_certificate_verify_signature_def Let_def)
qed

lemma handle_flight:
  assumes crypto: "aead_ok crypto" "hmac_ok crypto" and honest: "honest crypto hello private_key auth_key shared s"
    and p: "p = processing_hello hello auth_key s ks" "length (hk_master_secret ks) = hash_len (hs_suite s)"
    and rec: "decrypt_handshake_message crypto (hs_suite s) k iv 0 x n = Ok (flight_of crypto hello s)"
  shows "\<exists>aks out. handle_handshake_record crypto k iv x n p c =
    (Ok True, install_keys (hs_suite s) aks (c\<lparr>cn_ciphertext_write := out\<rparr>))"
proof -
  let ?q = "p\<lparr>pr_handshake_seq := 1, pr_accumulated := flight_of crypto hello s\<rparr>"
  define p' where "p' = ?q\<lparr>pr_messages_found := 4, pr_certificate_verified := True,
      pr_public_key := Some (hs_ed25519_key s), pr_cert_verify_offset := Some (cv_at (hs_certificate s))\<rparr>"
  have len: "length (hs_certificate s) + 9 < 16777216" "length (hs_verify_data s) < 16777216"
      "length (hs_sign s (cert_verify_content (cv_hash_of crypto hello s))) = 64"
    using honest by (simp_all add: honest_def flight_of_def flight_def constructed_messages MAX_TLS_PLAINTEXT_LEN_def Let_def)
  have "scan_messages crypto 0 ?q = Ok p'"
    using honest_certificate [OF crypto(2) honest] len
    by (subst scan_flight [where der = "hs_certificate s" and sign = "hs_sign s" and h = "cv_hash_of crypto hello s"
          and v = "hs_verify_data s" and pk = "hs_ed25519_key s"]) (simp_all add: p'_def flight_of_def p(1) processing_hello_def)
  then have "and_then (decrypt_handshake_message crypto (pr_cipher_suite p) k iv (pr_handshake_seq p) x n)
      (\<lambda>plaintext. scan_messages crypto (length (pr_accumulated p))
        (p\<lparr>pr_handshake_seq := pr_handshake_seq p + 1, pr_accumulated := pr_accumulated p @ plaintext\<rparr>)) = Ok p'"
    using rec by (simp add: p(1) processing_hello_def)
  moreover have "check_certificate_verify crypto p' = Ok True"
    using check_certificate_verify_honest [OF honest, of p'] by (simp add: p'_def p(1) processing_hello_def)
  then obtain aks out where "finish_handshake crypto p' (cn_ciphertext_write c) = (Ok aks, out)"
    using finish_handshake_total [OF crypto, of p' "cn_ciphertext_write c"] p(2) by (auto simp: p'_def p(1) processing_hello_def)
  moreover have "pr_messages_found p' = 4" "pr_cipher_suite p' = hs_suite s" by (simp_all add: p'_def p(1) processing_hello_def)
  ultimately show ?thesis by (intro exI [of _ aks] exI [of _ out]) (auto simp: handle_handshake_record_def)
qed

lemma inner_round:
  "handshake_round crypto c = (Ok True, c1) \<Longrightarrow> cn_handshake c \<noteq> HandshakeComplete \<Longrightarrow>
    process_new_packets_inner crypto c = process_new_packets_inner crypto c1"
  by (subst process_new_packets_inner.simps) simp

lemma inner_complete:
  assumes "cn_handshake c = HandshakeComplete" "cn_app_read_key c = Some k" "cn_app_read_iv c = Some iv"
    and "sb_ok (cn_ciphertext_read c)" "as_slice (cn_ciphertext_read c) = []"
  shows "process_new_packets_inner crypto c = (Ok (sb_len (cn_plaintext_read c)), c)"
proof -
  have "sb_len (cn_ciphertext_read c) = 0" using length_as_slice [OF assms(4)] assms(5) by simp
  then show ?thesis
    using assms(1-3) by (subst process_new_packets_inner.simps) (simp add: process_application_data_def app_data_loop.simps)
qed

lemma hello_round:
  assumes "honest crypto hello private_key auth_key shared s"
    and "derive_handshake_keys crypto (hs_suite s) shared
      (cr_hash crypto (digest_algorithm (hs_suite s)) (hello @ server_hello_of s)) = Ok ks"
    and "cn_handshake c = AwaitingServerHello hello private_key auth_key" "sb_ok (cn_ciphertext_read c)"
    and "as_slice (cn_ciphertext_read c) =
      write_record_header CONTENT_TYPE_HANDSHAKE (of_nat (length (server_hello_of s))) @ server_hello_of s @ rest"
  shows "\<exists>c'. handshake_round crypto c = (Ok True, c') \<and> cn_handshake c' = ProcessingHandshake (processing_hello hello auth_key s ks) \<and>
    sb_ok (cn_ciphertext_read c') \<and> as_slice (cn_ciphertext_read c') = rest"
proof -
  note front = record_front [OF assms(4,5) write_record_header_front(1) length_server_hello_of [OF assms(1)]
      write_record_header_front(3)]
  show ?thesis
    using front start_processing_honest [OF assms(1) write_record_header_front(1) assms(2)] assms(3)
    by (simp add: handshake_round_def process_server_hello_def take_record_def Let_def)
qed

lemma flight_round:
  assumes "aead_ok crypto" "hmac_ok crypto" "honest crypto hello private_key auth_key shared s"
    and "length (hk_master_secret ks) = hash_len (hs_suite s)"
    and "derive_traffic_keys crypto (hk_server_handshake_traffic_secret ks) (hs_suite s) = Ok (k, iv)"
    and "decrypt_handshake_message crypto (hs_suite s) k iv 0 x (of_nat (length x)) = Ok (flight_of crypto hello s)" "length x < 65536"
    and "cn_handshake c = ProcessingHandshake (processing_hello hello auth_key s ks)" "sb_ok (cn_ciphertext_read c)"
    and "as_slice (cn_ciphertext_read c) = make_record_header (length x) @ x @ rest"
  shows "\<exists>c' (aks :: AppKeys). handshake_round crypto c = (Ok True, c') \<and> cn_handshake c' = HandshakeComplete \<and>
    cn_app_read_key c' = Some (ap_server_key aks) \<and> cn_app_read_iv c' = Some (ap_server_iv aks) \<and>
    cn_app_write_key c' = Some (ap_client_key aks) \<and> cn_cipher_suite c' = Some (hs_suite s) \<and>
    sb_ok (cn_ciphertext_read c') \<and> as_slice (cn_ciphertext_read c') = rest"
proof -
  let ?p = "processing_hello hello auth_key s ks" and ?c = "snd (take_record (5 + length x) c)"
  note front = record_front [OF assms(9,10) length_make_record_header assms(7) make_record_header_front(2) [OF assms(7)]]
  obtain aks out where fl: "handle_handshake_record crypto k iv x (of_nat (length x)) ?p ?c =
      (Ok True, install_keys (hs_suite s) aks (?c\<lparr>cn_ciphertext_write := out\<rparr>))"
    using handle_flight [OF assms(1-3) refl assms(4,6)] by blast
  have p: "pr_server_secret ?p = hk_server_handshake_traffic_secret ks" "pr_cipher_suite ?p = hs_suite s"
    by (simp_all add: processing_hello_def)
  have "process_encrypted_handshake crypto ?p c = (Ok True, install_keys (hs_suite s) aks (?c\<lparr>cn_ciphertext_write := out\<rparr>))"
    using assms(5) p front(1-6) fl make_record_header_front(1) [OF assms(7)]
    by (subst process_encrypted_handshake.simps)
      (simp add: take_record_def Let_def CONTENT_TYPE_APPLICATION_DATA_def CONTENT_TYPE_CHANGE_CIPHER_SPEC_def)
  then show ?thesis
    using assms(8) front(7,8) by (simp add: handshake_round_def install_keys_def take_record_def) blast
qed

lemma server_records_total:
  assumes "aead_ok crypto" "hmac_ok crypto" "honest crypto hello private_key auth_key shared s"
  shows "\<exists>records. server_records crypto hello shared s = Ok records"
proof -
  let ?cs = "hs_suite s" and ?fl = "flight_of crypto hello s"
  have fl: "length shared = 32" "length ?fl \<le> MAX_TLS_PLAINTEXT_LEN" "?fl \<noteq> []"
    using assms(3) by (simp_all add: honest_def) (simp add: flight_of_def flight_def constructed_messages handshake_message_def)
  have hash: "length (cr_hash crypto (digest_algorithm ?cs) (hello @ server_hello_of s)) = hash_len ?cs"
    using assms(2) by (simp add: hmac_ok_def hash_len_def)
  obtain ks where ks: "derive_handshake_keys crypto ?cs shared (cr_hash crypto (digest_algorithm ?cs) (hello @ server_hello_of s)) = Ok ks"
    using handshake_keys_length [OF assms(2) fl(1) hash] by metis
  obtain k iv where k: "derive_traffic_keys crypto (hk_server_handshake_traffic_secret ks) ?cs = Ok (k, iv)"
      "length k = key_len ?cs" "length iv = 12"
    using assms(2) by (rule traffic_keys_length)
  obtain e where "encrypt_handshake crypto \<lparr>ak_suite = ?cs, ak_key = k\<rparr> iv ?fl \<lparr>re_seq = 0, re_out = []\<rparr> = (Ok (), e)"
    using handshake_record_decrypts [OF assms(1) k(3,2) fl(3,2), of 0 "[]"] by auto
  with ks k show ?thesis by (simp add: server_records_def AeadKey_new_def Let_def)
qed

text \<open>
  C3: an honest server completes the handshake. When the read buffer of a client that waits for a
  ServerHello holds the records a server with the right certificate and signing key produces for this
  ClientHello, one call of \<open>process_new_packets\<close> ends the handshake without an error and installs the
  application keys of both directions.
\<close>

theorem honest_handshake_completes:
  assumes "aead_ok crypto" "hmac_ok crypto" "honest crypto hello private_key auth_key shared s"
    and "server_records crypto hello shared s = Ok records"
    and "cn_handshake c = AwaitingServerHello hello private_key auth_key"
    and "sb_ok (cn_ciphertext_read c)" "as_slice (cn_ciphertext_read c) = records"
    and "cn_fatal_error c = None" "\<not> cn_close_notify c"
  shows "\<exists>n c'. process_new_packets crypto c = (Ok n, c') \<and> \<not> is_handshaking c' \<and>
    cn_app_read_key c' \<noteq> None \<and> cn_app_write_key c' \<noteq> None \<and> cn_cipher_suite c' = Some (hs_suite s)"
proof -
  let ?cs = "hs_suite s" and ?sh = "server_hello_of s" and ?fl = "flight_of crypto hello s"
  have shared: "length shared = 32" "length ?fl \<le> MAX_TLS_PLAINTEXT_LEN" "?fl \<noteq> []"
    using assms(3) by (simp_all add: honest_def) (simp add: flight_of_def flight_def constructed_messages handshake_message_def)
  have hash: "length (cr_hash crypto (digest_algorithm ?cs) (hello @ ?sh)) = hash_len ?cs"
    using assms(2) by (simp add: hmac_ok_def hash_len_def)
  obtain ks where ks: "derive_handshake_keys crypto ?cs shared (cr_hash crypto (digest_algorithm ?cs) (hello @ ?sh)) = Ok ks"
      "length (hk_master_secret ks) = hash_len ?cs"
    using handshake_keys_length [OF assms(2) shared(1) hash] by metis
  obtain k iv where k: "derive_traffic_keys crypto (hk_server_handshake_traffic_secret ks) ?cs = Ok (k, iv)"
      "length k = key_len ?cs" "length iv = 12"
    using assms(2) by (rule traffic_keys_length)
  obtain x where x: "encrypt_handshake crypto \<lparr>ak_suite = ?cs, ak_key = k\<rparr> iv ?fl \<lparr>re_seq = 0, re_out = []\<rparr> =
      (Ok (), \<lparr>re_seq = 0 + 1, re_out = [] @ make_record_header (length x) @ x\<rparr>)"
      "length x = length ?fl + 17" "decrypt_handshake_message crypto ?cs k iv 0 x (of_nat (length x)) = Ok ?fl"
    by (rule handshake_record_decrypts [OF assms(1) k(3,2) shared(3,2), of 0 "[]"]) simp_all
  have records: "as_slice (cn_ciphertext_read c) = write_record_header CONTENT_TYPE_HANDSHAKE (of_nat (length ?sh)) @ ?sh @
      make_record_header (length x) @ x"
    using assms(4,7) ks(1) k x(1) by (simp add: server_records_def AeadKey_new_def Let_def)
  obtain c1 where c1: "handshake_round crypto c = (Ok True, c1)" "sb_ok (cn_ciphertext_read c1)"
      "cn_handshake c1 = ProcessingHandshake (processing_hello hello auth_key s ks)"
      "as_slice (cn_ciphertext_read c1) = make_record_header (length x) @ x @ []"
    using hello_round [OF assms(3) ks(1) assms(5,6) records] by auto
  have small: "length x < 65536" using x(2) shared(2) by (simp add: MAX_TLS_PLAINTEXT_LEN_def)
  obtain c2 and aks :: AppKeys where c2: "handshake_round crypto c1 = (Ok True, c2)" "cn_handshake c2 = HandshakeComplete"
      "cn_app_read_key c2 = Some (ap_server_key aks)" "cn_app_read_iv c2 = Some (ap_server_iv aks)"
      "cn_app_write_key c2 = Some (ap_client_key aks)" "cn_cipher_suite c2 = Some ?cs"
      "sb_ok (cn_ciphertext_read c2)" "as_slice (cn_ciphertext_read c2) = []"
    using flight_round [OF assms(1-3) ks(2) k(1) x(3) small c1(3,2,4)] by blast
  have "process_new_packets_inner crypto c = (Ok (sb_len (cn_plaintext_read c2)), c2)"
    using inner_round [OF c1(1)] inner_round [OF c2(1)] inner_complete [OF c2(2-4,7,8)] assms(5) c1(3) by simp
  then show ?thesis
    using assms(8,9) c2 by (simp add: process_new_packets_def is_handshaking_def)
qed

definition sample_server :: HonestServer where
  "sample_server =
     \<lparr>hs_suite = AES_128_GCM_SHA256, hs_random = replicate 32 1, hs_session_id = [], hs_public_key = replicate 32 5,
      hs_certificate = replicate 32 9, hs_ed25519_key = replicate 32 9, hs_sign = \<lambda>_. replicate 64 8,
      hs_verify_data = replicate 32 1\<rparr>"

lemma sample_server_honest: "honest marking_crypto hello k auth_key (replicate 32 4) sample_server"
  by (simp add: honest_def sample_server_def marking_crypto_def flight_of_def flight_def constructed_messages
      MAX_TLS_PLAINTEXT_LEN_def u24_to_be_def Let_def)

theorem honest_handshake_completes_witness:
  "\<exists>records c n c'. server_records marking_crypto [1, 2, 3] (replicate 32 4) sample_server = Ok records \<and>
     cn_handshake c = AwaitingServerHello [1, 2, 3] (replicate 32 1) (replicate 32 3) \<and>
     as_slice (cn_ciphertext_read c) = records \<and>
     process_new_packets marking_crypto c = (Ok n, c') \<and> cn_handshake c' = HandshakeComplete"
proof -
  note honest = sample_server_honest [of "[1, 2, 3]" "replicate 32 1" "replicate 32 3"]
  obtain records where r: "server_records marking_crypto [1, 2, 3] (replicate 32 4) sample_server = Ok records"
    using server_records_total [OF marking_crypto_ok marking_hmac_ok honest] by blast
  define c where "c = \<lparr>cn_config = \<lparr>rcf_public_key = [], rcf_short_id = [], rcf_server_name = [], rcf_cipher_suites = []\<rparr>,
    cn_handshake = AwaitingServerHello [1, 2, 3] (replicate 32 1) (replicate 32 3), cn_app_read_key = None, cn_app_read_iv = None,
    cn_app_write_key = None, cn_app_write_iv = None, cn_read_seq = 0, cn_write_seq = 0, cn_cipher_suite = None,
    cn_ciphertext_read = \<lparr>sb_data = records, sb_start = 0, sb_end = length records\<rparr>, cn_ciphertext_write = [],
    cn_plaintext_read = SlideBuffer_new 4, cn_plaintext_write = [], cn_close_notify = False, cn_fatal_error = None\<rparr>"
  have c: "cn_handshake c = AwaitingServerHello [1, 2, 3] (replicate 32 1) (replicate 32 3)" "sb_ok (cn_ciphertext_read c)"
    "as_slice (cn_ciphertext_read c) = records" "cn_fatal_error c = None" "\<not> cn_close_notify c"
    by (simp_all add: c_def sb_ok_def as_slice_def)
  from honest_handshake_completes [OF marking_crypto_ok marking_hmac_ok honest r c] r c(1,3) show ?thesis
    unfolding is_handshaking_def by blast
qed

end
