(* ===== verification/Async_Io.thy ===== *)
theory Async_Io
  imports Reality_Client Vision_Padding
begin

text \<open>
  The world outside a stream and the adapters of \<open>prototype/vless/src/sync_adapter.rs\<close>, with the write path of
  a session over them. A poll of the transport is answered by \<open>Pending\<close>, an error, or some bytes. The
  answers still to come are lists in the state, so that every behaviour of a transport during finitely
  many polls is one of these lists; after them it is pending. What was written is kept.

  The lemmas follow the plaintext that is put into a session to the records on the wire: however often
  the writer is blocked, the records that were sent or wait in the buffer decrypt to a prefix of it, and
  the rest is still in the plaintext buffer.
\<close>

section \<open>Transport\<close>

datatype 'a Poll = Pending | Ready 'a

record World =
  wd_reads :: "(IoErrorKind + bytes) Poll list"
  wd_writes :: "(IoErrorKind + nat) Poll list"
  wd_sent :: bytes
  wd_rng :: "nat \<Rightarrow> (nat \<Rightarrow> nat) \<times> (nat \<Rightarrow> u8)"
  wd_draws :: nat

text \<open>\<open>AsyncRead::poll_read\<close> into a buffer of \<open>cap\<close> bytes: what does not fit stays with the transport.\<close>

definition tcp_poll_read :: "nat \<Rightarrow> World \<Rightarrow> (IoErrorKind + bytes) Poll \<times> World" where
  "tcp_poll_read cap w =
     (case wd_reads w of
        [] \<Rightarrow> (Pending, w)
      | Ready (Inr bs) # rs \<Rightarrow>
          (Ready (Inr (take cap bs)), w\<lparr>wd_reads := (if cap < length bs then Ready (Inr (drop cap bs)) # rs else rs)\<rparr>)
      | r # rs \<Rightarrow> (r, w\<lparr>wd_reads := rs\<rparr>))"

text \<open>\<open>AsyncWrite::poll_write\<close>: at most the whole buffer is accepted.\<close>

definition tcp_poll_write :: "bytes \<Rightarrow> World \<Rightarrow> (IoErrorKind + nat) Poll \<times> World" where
  "tcp_poll_write buf w =
     (case wd_writes w of
        [] \<Rightarrow> (Pending, w)
      | Ready (Inr n) # ws \<Rightarrow>
          (let k = min n (length buf) in
           (Ready (Inr k), w\<lparr>wd_writes := ws, wd_sent := wd_sent w @ take k buf\<rparr>))
      | r # ws \<Rightarrow> (r, w\<lparr>wd_writes := ws\<rparr>))"

definition SyncReadAdapter_read :: "nat \<Rightarrow> World \<Rightarrow> (RealityError + bytes) \<times> World" where
  "SyncReadAdapter_read cap w =
     (case tcp_poll_read cap w of
        (Pending, w') \<Rightarrow> (Err (TcpError WouldBlock), w')
      | (Ready (Inl e), w') \<Rightarrow> (Err (TcpError e), w')
      | (Ready (Inr bs), w') \<Rightarrow> (Ok bs, w'))"

definition SyncWriteAdapter_write :: "bytes \<Rightarrow> World \<Rightarrow> (RealityError + nat) \<times> World" where
  "SyncWriteAdapter_write buf w =
     (case tcp_poll_write buf w of
        (Pending, w') \<Rightarrow> (Err (TcpError WouldBlock), w')
      | (Ready (Inl e), w') \<Rightarrow> (Err (TcpError e), w')
      | (Ready (Inr n), w') \<Rightarrow> (Ok n, w'))"

text \<open>
  \<open>write_tls_direct\<close> of both streams: the session writes straight into the transport, and an error of kind
  \<open>WouldBlock\<close> becomes \<open>Pending\<close>.
\<close>

definition write_tls_direct ::
    "Crypto \<Rightarrow> RealityClientConnection \<Rightarrow> World \<Rightarrow> (RealityError + nat) Poll \<times> RealityClientConnection \<times> World" where
  "write_tls_direct crypto c w =
     (case write_tls crypto SyncWriteAdapter_write w c of
        ((Inl e, c'), w') \<Rightarrow> (if error_kind e = Some WouldBlock then Pending else Ready (Err e), c', w')
      | ((Inr n, c'), w') \<Rightarrow> (Ready (Ok n), c', w'))"

text \<open>\<open>read_tls\<close> over the transport, with the session's own buffer of one record.\<close>

definition read_tls_direct ::
    "RealityClientConnection \<Rightarrow> World \<Rightarrow> (RealityError + nat) Poll \<times> RealityClientConnection \<times> World" where
  "read_tls_direct c w =
     (case SyncReadAdapter_read TLS13_MAX_RECORD_SIZE w of
        (answer, w') \<Rightarrow>
          (case read_tls answer c of
             (Inl e, c') \<Rightarrow> (if error_kind e = Some WouldBlock then Pending else Ready (Err e), c', w')
           | (Inr n, c') \<Rightarrow> (Ready (Ok n), c', w')))"

section \<open>Progress\<close>

definition reads_size :: "World \<Rightarrow> nat" where
  "reads_size w = sum_list (map (\<lambda>r. case r of Ready (Inr bs) \<Rightarrow> Suc (length bs) | _ \<Rightarrow> 1) (wd_reads w))"

lemma tcp_poll_read_progress: "tcp_poll_read cap w = (Ready (Inr bs), w') \<Longrightarrow> bs \<noteq> [] \<Longrightarrow> reads_size w' < reads_size w"
  by (auto simp: tcp_poll_read_def reads_size_def split: list.splits Poll.splits sum.splits if_splits)

lemma tcp_poll_read_frame:
  "tcp_poll_read cap w = (r, w') \<Longrightarrow> wd_writes w' = wd_writes w \<and> wd_sent w' = wd_sent w \<and> wd_rng w' = wd_rng w \<and> wd_draws w' = wd_draws w"
  by (auto simp: tcp_poll_read_def split: list.splits Poll.splits sum.splits)

lemma SyncWrite_cases:
  "SyncWriteAdapter_write buf w = (Inr n, w') \<Longrightarrow>
    n \<le> length buf \<and> wd_sent w' = wd_sent w @ take n buf \<and> length (wd_writes w') < length (wd_writes w)"
  "SyncWriteAdapter_write buf w = (Inl e, w') \<Longrightarrow>
    wd_sent w' = wd_sent w \<and> length (wd_writes w') \<le> length (wd_writes w)"
  by (auto simp: SyncWriteAdapter_write_def tcp_poll_write_def Let_def split: list.splits Poll.splits sum.splits)

lemma SyncWrite_frame:
  "SyncWriteAdapter_write buf w = (r, w') \<Longrightarrow> wd_reads w' = wd_reads w \<and> wd_rng w' = wd_rng w \<and> wd_draws w' = wd_draws w"
  by (auto simp: SyncWriteAdapter_write_def tcp_poll_write_def Let_def split: list.splits Poll.splits sum.splits)

lemma write_tls_direct_progress:
  "write_tls_direct crypto c w = (Ready (Inr n), c', w') \<Longrightarrow> length (wd_writes w') < length (wd_writes w)"
  by (auto simp: write_tls_direct_def write_tls_def flush_ciphertext_def dest: SyncWrite_cases
      split: prod.splits sum.splits option.splits if_splits)

lemma read_tls_direct_progress:
  "read_tls_direct c w = (Ready (Inr n), c', w') \<Longrightarrow> n \<noteq> 0 \<Longrightarrow> reads_size w' < reads_size w"
  by (auto simp: read_tls_direct_def SyncReadAdapter_read_def read_tls_def Let_def dest!: tcp_poll_read_progress
      split: prod.splits sum.splits option.splits if_splits Poll.splits)

section \<open>From the plaintext buffer to the wire\<close>

text \<open>\<open>recs\<close> are complete records that open, one after the other, to the fragments of application data.\<close>

inductive record_stream :: "Crypto \<Rightarrow> AeadKey \<Rightarrow> bytes \<Rightarrow> u64 \<Rightarrow> bytes list \<Rightarrow> bytes \<Rightarrow> u64 \<Rightarrow> bool" for crypto k iv where
  stream_Nil: "record_stream crypto k iv seq [] [] seq"
| stream_Cons: "decrypt_record_in_place crypto k iv c (of_nat (length c)) seq = (Ok (CONTENT_TYPE_APPLICATION_DATA, f), seq1, left) \<Longrightarrow>
    length c < 65536 \<Longrightarrow> record_stream crypto k iv seq1 fs recs seq' \<Longrightarrow>
    record_stream crypto k iv seq (f # fs) (make_record_header (length c) @ c @ recs) seq'"

lemma record_stream_decrypts:
  "record_stream crypto k iv seq fs recs seq' \<Longrightarrow>
    decrypt_records crypto k iv recs seq = Ok (map (Pair CONTENT_TYPE_APPLICATION_DATA) fs, seq')"
  by (induction rule: record_stream.induct) (simp_all add: decrypt_records_Cons)

lemma record_stream_append:
  "record_stream crypto k iv seq fs recs seq1 \<Longrightarrow> record_stream crypto k iv seq1 gs recs' seq2 \<Longrightarrow>
    record_stream crypto k iv seq (fs @ gs) (recs @ recs') seq2"
  by (induction rule: record_stream.induct) (auto intro: record_stream.intros)

lemma encrypt_chunks_stream:
  assumes crypto: "aead_ok crypto" "length iv = 12" and "\<And>c. c \<in> set cs \<Longrightarrow> length c \<le> MAX_TLS_PLAINTEXT_LEN"
    and "encrypt_chunks crypto k iv CONTENT_TYPE_APPLICATION_DATA cs \<lparr>re_seq = seq, re_out = out\<rparr> = (Ok (), e)"
  shows "\<exists>recs. re_out e = out @ recs \<and> record_stream crypto k iv seq cs recs (re_seq e)"
  using assms(3,4)
proof (induction cs arbitrary: seq out)
  case (Cons c cs)
  have t: "known_content_type CONTENT_TYPE_APPLICATION_DATA" by (simp add: known_content_type_def)
  have len: "length c + 1 + 0 \<le> MAX_TLS13_CIPHERTEXT_LEN" and small: "length c \<le> MAX_TLS_PLAINTEXT_LEN"
    using Cons.prems(1) [of c] by (simp_all add: MAX_TLS13_CIPHERTEXT_LEN_def MAX_TLS_PLAINTEXT_LEN_def)
  have seq: "seq \<noteq> - 1"
    using Cons.prems(2) by (auto simp: encrypt_record_in_place_def emit_record_def checked_succ_def Let_def split: sum.splits prod.splits)
  obtain b left where b: "emit_record crypto k iv (c @ CONTENT_TYPE_APPLICATION_DATA # replicate 0 0) \<lparr>re_seq = seq, re_out = out\<rparr> =
      (Ok (), b, \<lparr>re_seq = seq + 1, re_out = out @ make_record_header (length b) @ b\<rparr>)"
      "length b = length c + 1 + 0 + 16"
      "decrypt_record_in_place crypto k iv b (of_nat (length b)) seq = (Ok (CONTENT_TYPE_APPLICATION_DATA, c), seq + 1, left)"
    using emit_record_decrypts [OF crypto t len seq] by metis
  have "length b < 65536" using b(2) small by (simp add: MAX_TLS_PLAINTEXT_LEN_def)
  moreover obtain recs where "re_out e = (out @ make_record_header (length b) @ b) @ recs"
      "record_stream crypto k iv (seq + 1) cs recs (re_seq e)"
    using Cons.IH [of "seq + 1" "out @ make_record_header (length b) @ b"] Cons.prems b(1)
    by (auto simp: encrypt_record_in_place_def)
  ultimately show ?case using stream_Cons [OF b(3)] by auto
qed (auto intro: stream_Nil)

text \<open>
  A session that has finished its handshake, with everything that was given to it since the wire held
  \<open>base\<close>: records on the wire or in the buffer, and the plaintext that waits to be encrypted.
\<close>

definition conveys ::
    "Crypto \<Rightarrow> AeadKey \<Rightarrow> bytes \<Rightarrow> u64 \<Rightarrow> bytes \<Rightarrow> RealityClientConnection \<Rightarrow> World \<Rightarrow> bytes \<Rightarrow> bool" where
  "conveys crypto k iv seq base c w plain \<longleftrightarrow>
     cn_handshake c = HandshakeComplete \<and> cn_app_write_key c = Some k \<and> cn_app_write_iv c = Some iv \<and>
     (\<exists>fs recs. wd_sent w @ cn_ciphertext_write c = base @ recs \<and>
        record_stream crypto k iv seq fs recs (cn_write_seq c) \<and> concat fs @ cn_plaintext_write c = plain)"

lemma conveys_put:
  "conveys crypto k iv seq base c w plain \<Longrightarrow> conveys crypto k iv seq base (c\<lparr>cn_plaintext_write := cn_plaintext_write c @ x\<rparr>) w (plain @ x)"
  by (auto simp: conveys_def)

lemma encrypt_pending_conveys:
  assumes "aead_ok crypto" "length iv = 12" "conveys crypto k iv seq base c w plain"
    and "encrypt_pending crypto k iv c = (Ok u, c')"
  shows "conveys crypto k iv seq base c' w plain \<and> cn_plaintext_write c' = []"
proof -
  obtain fs recs where r: "wd_sent w @ cn_ciphertext_write c = base @ recs"
      "record_stream crypto k iv seq fs recs (cn_write_seq c)" "concat fs @ cn_plaintext_write c = plain"
    using assms(3) by (auto simp: conveys_def)
  let ?cs = "chunks MAX_TLS_PLAINTEXT_LEN (cn_plaintext_write c)"
  obtain e where e: "encrypt_chunks crypto k iv CONTENT_TYPE_APPLICATION_DATA ?cs
      \<lparr>re_seq = cn_write_seq c, re_out = cn_ciphertext_write c\<rparr> = (Ok (), e)"
      "c' = c\<lparr>cn_plaintext_write := [], cn_write_seq := re_seq e, cn_ciphertext_write := re_out e\<rparr>"
    using assms(4) by (auto simp: encrypt_pending_def encrypt_app_data_chunks split: sum.splits prod.splits)
  obtain recs' where r': "re_out e = cn_ciphertext_write c @ recs'"
      "record_stream crypto k iv (cn_write_seq c) ?cs recs' (re_seq e)"
    using encrypt_chunks_stream [OF assms(1,2) _ e(1)] chunks_bound by metis
  have "concat ?cs = cn_plaintext_write c" by (simp add: concat_chunks MAX_TLS_PLAINTEXT_LEN_def)
  then have "concat (fs @ ?cs) @ cn_plaintext_write c' = plain" using r(3) e(2) by simp
  moreover have "record_stream crypto k iv seq (fs @ ?cs) (recs @ recs') (cn_write_seq c')"
    using record_stream_append [OF r(2) r'(2)] e(2) by simp
  moreover have "wd_sent w @ cn_ciphertext_write c' = base @ recs @ recs'"
    using r(1) r'(1) e(2) by (simp flip: append_assoc)
  moreover have "cn_handshake c' = HandshakeComplete" "cn_app_write_key c' = Some k" "cn_app_write_iv c' = Some iv"
      "cn_plaintext_write c' = []"
    using assms(3) e(2) by (simp_all add: conveys_def)
  ultimately show ?thesis unfolding conveys_def by blast
qed

text \<open>Encryption never fails with \<open>WouldBlock\<close>.\<close>

lemma encrypt_chunks_error: "encrypt_chunks crypto k iv t cs e = (Err err, e') \<Longrightarrow> \<exists>a. err = Aead a"
proof (induction cs arbitrary: e)
  case (Cons c cs)
  show ?case
  proof (cases "encrypt_record_in_place crypto k iv t c e")
    case (fields r b e1)
    then show ?thesis
      using Cons by (cases r) (auto simp: encrypt_record_in_place_def emit_record_def seal_in_place_def make_nonce_def Let_def
          split: sum.splits option.splits if_splits)
  qed
qed simp

lemma encrypt_pending_error: "encrypt_pending crypto k iv c = (Err e, c') \<Longrightarrow> error_kind e \<noteq> Some WouldBlock"
  by (auto simp: encrypt_pending_def encrypt_app_data_chunks error_kind_def aead_error_kind_def dest!: encrypt_chunks_error
      split: sum.splits prod.splits AeadError.splits)

lemma flush_conveys:
  assumes "conveys crypto k iv seq base c w plain" "flush_ciphertext SyncWriteAdapter_write w c = ((r, c'), w')"
  shows "conveys crypto k iv seq base c' w' plain"
proof (cases "SyncWriteAdapter_write (cn_ciphertext_write c) w")
  case (Pair a w1)
  with assms SyncWrite_cases [of "cn_ciphertext_write c" w] show ?thesis
    by (cases a) (auto simp: flush_ciphertext_def conveys_def)
qed

lemma write_tls_direct_conveys:
  assumes "aead_ok crypto" "length iv = 12" "conveys crypto k iv seq base c w plain"
    and "write_tls_direct crypto c w = (r, c', w')" "\<And>e. r \<noteq> Ready (Inl e)"
  shows "conveys crypto k iv seq base c' w' plain"
proof -
  have c: "cn_handshake c = HandshakeComplete" "cn_app_write_key c = Some k" "cn_app_write_iv c = Some iv"
    using assms(3) by (simp_all add: conveys_def)
  have fl: "conveys crypto k iv seq base c' w' plain"
    if "conveys crypto k iv seq base d w plain" "write_tls crypto SyncWriteAdapter_write w c = flush_ciphertext SyncWriteAdapter_write w d" for d
    using that assms(4) flush_conveys [OF that(1)] by (auto simp: write_tls_direct_def split: prod.splits sum.splits)
  obtain q c1 where q: "encrypt_pending crypto k iv c = (q, c1)" by (cases "encrypt_pending crypto k iv c")
  show ?thesis
  proof (cases "cn_plaintext_write c = []")
    case True
    with fl [OF assms(3)] show ?thesis by (simp add: write_tls_def)
  next
    case False
    show ?thesis
    proof (cases q)
      case (Inl e)
      with q False c assms(4,5) encrypt_pending_error show ?thesis
        by (auto simp: write_tls_direct_def write_tls_def split: if_splits)
    next
      case (Inr u)
      then have "conveys crypto k iv seq base c1 w plain" using encrypt_pending_conveys [OF assms(1-3)] q by simp
      from fl [OF this] Inr q False c show ?thesis by (simp add: write_tls_def)
    qed
  qed
qed

end
