(* ===== verification/Vision_Stream.thy ===== *)
theory Vision_Stream
  imports Tls_Search Tls_Hello Vision_Padding Async_Io
begin

text \<open>
  The Vision stream over a REALITY session, \<open>prototype/vless/src/vision_stream.rs\<close>: its state, the switching of
  modes and the write path. The read path is in \<open>Vision_Read\<close>. Operations take the stream and the world and
  return both; a poll that returns early leaves them as they were at that point. A failed \<open>assert!\<close> or
  \<open>expect\<close> is the error \<open>VisionPanic\<close>. The lengths that a write reports are of type \<open>usize\<close>, whose subtraction
  wraps.
\<close>

section \<open>State\<close>

definition COMMAND_CONTINUE :: u8 where "COMMAND_CONTINUE = 0x00"
definition COMMAND_END :: u8 where "COMMAND_END = 0x01"
definition COMMAND_DIRECT :: u8 where "COMMAND_DIRECT = 0x02"

datatype VisionMode = PaddingTls | TlsMode | DirectMode

datatype VisionError = SessionFailed RealityError | TcpFailed IoErrorKind | ReaderFailed IoErrorKind
  | UnpadFailed UnpadError | OuterDeframeFailed TlsError | SwitchFromMode VisionMode | WriteZeroBytes
  | DrainStuck | EmptyPrefix | ResponseEof | ResponseVersion u8 | NoPlaintext | ReadZeroBytes
  | ReaderSpins | VisionPanic

record VisionStream =
  vs_session :: RealityClientConnection
  vs_read_mode :: VisionMode
  vs_write_mode :: VisionMode
  vs_outer_read_deframer :: "TlsDeframer option"
  vs_read_unpadder :: VisionUnpadder
  vs_inner_read_deframer :: FuzzyTlsDeframer
  vs_inner_write_deframer :: FuzzyTlsDeframer
  vs_write_first_packet :: bool
  vs_user_uuid :: bytes
  vs_filter :: VisionFilter
  vs_pending_read :: bytes
  vs_response_pending :: bool
  vs_partial_response :: bytes
  vs_response_to_send :: bool
  vs_pending_direct_switch :: bool
  vs_pending_tls_switch :: bool
  vs_read_buffer_len :: nat
  vs_pending_plain_writes :: bytes
  vs_is_read_eof :: bool

definition new_common :: "RealityClientConnection \<Rightarrow> bytes \<Rightarrow> bool \<Rightarrow> bool \<Rightarrow> VisionStream" where
  "new_common session user_uuid response_pending response_to_send =
     \<lparr>vs_session = session, vs_read_mode = PaddingTls, vs_write_mode = PaddingTls,
      vs_outer_read_deframer = Some TlsDeframer_new, vs_read_unpadder = VisionUnpadder_new user_uuid,
      vs_inner_read_deframer = FuzzyTlsDeframer_new, vs_inner_write_deframer = FuzzyTlsDeframer_new,
      vs_write_first_packet = True, vs_user_uuid = user_uuid, vs_filter = VisionFilter_new, vs_pending_read = [],
      vs_response_pending = response_pending, vs_partial_response = [], vs_response_to_send = response_to_send,
      vs_pending_direct_switch = False, vs_pending_tls_switch = False, vs_read_buffer_len = 8192,
      vs_pending_plain_writes = [], vs_is_read_eof = False\<rparr>"

text \<open>A session is always a client here, so \<open>new_client\<close> does not panic.\<close>

definition new_client :: "RealityClientConnection \<Rightarrow> bytes \<Rightarrow> VisionStream" where
  "new_client session user_uuid = new_common session user_uuid True False"

section \<open>Switching modes\<close>

definition post_padding_cleanup :: "VisionStream \<Rightarrow> VisionStream" where
  "post_padding_cleanup s =
     (if vs_read_mode s = PaddingTls \<or> vs_write_mode s = PaddingTls then s
      else s\<lparr>vs_inner_read_deframer := fuzzy_deallocate (vs_inner_read_deframer s),
             vs_inner_write_deframer := fuzzy_deallocate (vs_inner_write_deframer s),
             vs_read_buffer_len := 0, vs_pending_plain_writes := []\<rparr>)"

definition switch_read_to_direct_mode :: "VisionStream \<Rightarrow> (VisionError + unit) \<times> VisionStream" where
  "switch_read_to_direct_mode s =
     (if vs_read_mode s \<noteq> PaddingTls then (Err (SwitchFromMode (vs_read_mode s)), s)
      else (Ok (), post_padding_cleanup (s\<lparr>vs_read_mode := DirectMode\<rparr>)))"

definition switch_read_to_tls_mode :: "VisionStream \<Rightarrow> (VisionError + unit) \<times> VisionStream" where
  "switch_read_to_tls_mode s =
     (if vs_read_mode s \<noteq> PaddingTls then (Err (SwitchFromMode (vs_read_mode s)), s)
      else (Ok (), post_padding_cleanup (s\<lparr>vs_read_mode := TlsMode\<rparr>)))"

definition switch_write_to_direct_mode :: "VisionStream \<Rightarrow> (VisionError + unit) \<times> VisionStream" where
  "switch_write_to_direct_mode s =
     (if vs_write_mode s \<noteq> PaddingTls then (Err (SwitchFromMode (vs_write_mode s)), s)
      else (Ok (), post_padding_cleanup (s\<lparr>vs_write_mode := DirectMode\<rparr>)))"

definition switch_write_to_tls_mode :: "VisionStream \<Rightarrow> (VisionError + unit) \<times> VisionStream" where
  "switch_write_to_tls_mode s =
     (if vs_write_mode s \<noteq> PaddingTls then (Err (SwitchFromMode (vs_write_mode s)), s)
      else (Ok (), post_padding_cleanup (s\<lparr>vs_write_mode := TlsMode\<rparr>)))"

section \<open>Draining\<close>

type_synonym 'a vision_poll = "(VisionError + 'a) Poll \<times> VisionStream \<times> World"

definition vision_write_tls :: "Crypto \<Rightarrow> VisionStream \<Rightarrow> World \<Rightarrow> nat vision_poll" where
  "vision_write_tls crypto s w =
     (case write_tls_direct crypto (vs_session s) w of
        (Pending, c, w') \<Rightarrow> (Pending, s\<lparr>vs_session := c\<rparr>, w')
      | (Ready (Inl e), c, w') \<Rightarrow> (Ready (Err (SessionFailed e)), s\<lparr>vs_session := c\<rparr>, w')
      | (Ready (Inr n), c, w') \<Rightarrow> (Ready (Ok n), s\<lparr>vs_session := c\<rparr>, w'))"

lemma vision_write_tls_progress:
  "vision_write_tls crypto s w = (Ready (Inr n), s', w') \<Longrightarrow> length (wd_writes w') < length (wd_writes w)"
  by (auto simp: vision_write_tls_def dest: write_tls_direct_progress split: prod.splits Poll.splits sum.splits)

text \<open>The loop of \<open>drain_pending_plain_writes\<close>: pieces go to the session until it accepts nothing.\<close>

function drain_plain_loop :: "VisionStream \<Rightarrow> (VisionError + unit) \<times> VisionStream" where
  "drain_plain_loop s =
     (if vs_pending_plain_writes s = [] then (Ok (), s)
      else (case writer_write (vs_pending_plain_writes s) (vs_session s) of
              (Inl e, c) \<Rightarrow> (Err (SessionFailed e), s\<lparr>vs_session := c\<rparr>)
            | (Inr n, c) \<Rightarrow>
                if n = 0 then (Ok (), s\<lparr>vs_session := c\<rparr>)
                else drain_plain_loop
                  (s\<lparr>vs_session := c, vs_pending_plain_writes := drop n (vs_pending_plain_writes s)\<rparr>)))"
  by pat_completeness auto
termination by (relation "measure (\<lambda>s. length (vs_pending_plain_writes s))") auto

declare drain_plain_loop.simps [simp del]

definition drain_pending_plain_writes :: "VisionStream \<Rightarrow> (VisionError + nat) \<times> VisionStream" where
  "drain_pending_plain_writes s =
     (if vs_pending_plain_writes s = [] then (Ok 0, s)
      else (case drain_plain_loop s of
              (Inl e, s') \<Rightarrow> (Err e, s')
            | (Inr _, s') \<Rightarrow> (Ok (length (vs_pending_plain_writes s) - length (vs_pending_plain_writes s')), s')))"

text \<open>The writer of a session takes everything, so the pending plaintext is drained at once.\<close>

abbreviation put_plain :: "bytes \<Rightarrow> VisionStream \<Rightarrow> VisionStream" where
  "put_plain x s \<equiv> s\<lparr>vs_session := (vs_session s)\<lparr>cn_plaintext_write := cn_plaintext_write (vs_session s) @ x\<rparr>\<rparr>"

lemma drain_plain_loop_all:
  "drain_plain_loop s = (Ok (), (put_plain (vs_pending_plain_writes s) s)\<lparr>vs_pending_plain_writes := []\<rparr>)"
proof (cases "vs_pending_plain_writes s = []")
  case True
  then show ?thesis by (simp add: drain_plain_loop.simps)
next
  case False
  then show ?thesis by (simp add: drain_plain_loop.simps [of s] drain_plain_loop.simps [of "_\<lparr>vs_pending_plain_writes := []\<rparr>"] writer_write_def)
qed

lemma drain_pending_plain_writes_all:
  "drain_pending_plain_writes s =
    (Ok (length (vs_pending_plain_writes s)), (put_plain (vs_pending_plain_writes s) s)\<lparr>vs_pending_plain_writes := []\<rparr>)"
  by (simp add: drain_pending_plain_writes_def drain_plain_loop_all)

function drain_all_writes_padding :: "Crypto \<Rightarrow> VisionStream \<Rightarrow> World \<Rightarrow> unit vision_poll" where
  "drain_all_writes_padding crypto s w =
     (if wants_write (vs_session s) then
        (case vision_write_tls crypto s w of
           (Ready (Inr n), s', w') \<Rightarrow>
             if n = 0 then (Ready (Err WriteZeroBytes), s', w') else drain_all_writes_padding crypto s' w'
         | (Ready (Inl e), s', w') \<Rightarrow> (Ready (Err e), s', w')
         | (Pending, s', w') \<Rightarrow> (Pending, s', w'))
      else if vs_pending_plain_writes s \<noteq> [] then
        (case drain_pending_plain_writes s of
           (Inl e, s') \<Rightarrow> (Ready (Err e), s', w)
         | (Inr written, s') \<Rightarrow>
             if 0 < written then drain_all_writes_padding crypto s' w else (Ready (Err DrainStuck), s', w))
      else (Ready (Ok ()), s, w))"
  by pat_completeness auto
termination
  by (relation "measures [\<lambda>(_, s, w). length (wd_writes w), \<lambda>(_, s, w). length (vs_pending_plain_writes s)]")
    (auto simp: drain_pending_plain_writes_all dest!: vision_write_tls_progress [OF sym])

declare drain_all_writes_padding.simps [simp del]

function drain_all_writes_tls :: "Crypto \<Rightarrow> VisionStream \<Rightarrow> World \<Rightarrow> unit vision_poll" where
  "drain_all_writes_tls crypto s w =
     (if wants_write (vs_session s) then
        (case vision_write_tls crypto s w of
           (Ready (Inr n), s', w') \<Rightarrow>
             if n = 0 then (Ready (Err WriteZeroBytes), s', w') else drain_all_writes_tls crypto s' w'
         | (Ready (Inl e), s', w') \<Rightarrow> (Ready (Err e), s', w')
         | (Pending, s', w') \<Rightarrow> (Pending, s', w'))
      else (Ready (Ok ()), s, w))"
  by pat_completeness auto
termination
  by (relation "measure (\<lambda>(_, s, w). length (wd_writes w))") (auto dest!: vision_write_tls_progress [OF sym])

declare drain_all_writes_tls.simps [simp del]

section \<open>Writing\<close>

function session_write_loop :: "bytes \<Rightarrow> VisionStream \<Rightarrow> (VisionError + unit) \<times> VisionStream" where
  "session_write_loop data s =
     (if data = [] then (Ok (), s)
      else (case writer_write data (vs_session s) of
              (Inl e, c) \<Rightarrow> (Err (SessionFailed e), s\<lparr>vs_session := c\<rparr>)
            | (Inr n, c) \<Rightarrow>
                if n = 0 then (Ok (), s\<lparr>vs_session := c, vs_pending_plain_writes := vs_pending_plain_writes s @ data\<rparr>)
                else session_write_loop (drop n data) (s\<lparr>vs_session := c\<rparr>)))"
  by pat_completeness auto
termination by (relation "measure (\<lambda>(data, s). length data)") auto

declare session_write_loop.simps [simp del]

definition write_to_session :: "bytes \<Rightarrow> VisionStream \<Rightarrow> (VisionError + unit) \<times> VisionStream" where
  "write_to_session data s =
     (if vs_pending_plain_writes s \<noteq> [] then
        (Ok (), s\<lparr>vs_pending_plain_writes := vs_pending_plain_writes s @ data\<rparr>)
      else session_write_loop data s)"

text \<open>The inner loop of \<open>poll_write_tls\<close>; the flag says that the transport accepted nothing more.\<close>

function flush_tls_loop :: "Crypto \<Rightarrow> VisionStream \<Rightarrow> World \<Rightarrow> (VisionError + bool) \<times> VisionStream \<times> World" where
  "flush_tls_loop crypto s w =
     (if wants_write (vs_session s) then
        (case vision_write_tls crypto s w of
           (Ready (Inr n), s', w') \<Rightarrow> if n = 0 then (Ok True, s', w') else flush_tls_loop crypto s' w'
         | (Ready (Inl e), s', w') \<Rightarrow> (Err e, s', w')
         | (Pending, s', w') \<Rightarrow> (Ok True, s', w'))
      else (Ok False, s, w))"
  by pat_completeness auto
termination
  by (relation "measure (\<lambda>(_, s, w). length (wd_writes w))") (auto dest!: vision_write_tls_progress [OF sym])

declare flush_tls_loop.simps [simp del]

function write_tls_loop :: "Crypto \<Rightarrow> bytes \<Rightarrow> nat \<Rightarrow> VisionStream \<Rightarrow> World \<Rightarrow> nat vision_poll" where
  "write_tls_loop crypto buf pos s w =
     (if length buf \<le> pos then (Ready (Ok pos), s, w)
      else (case writer_write (drop pos buf) (vs_session s) of
              (Inl e, c) \<Rightarrow> (Ready (Err (SessionFailed e)), s\<lparr>vs_session := c\<rparr>, w)
            | (Inr n, c) \<Rightarrow>
                (case flush_tls_loop crypto (s\<lparr>vs_session := c\<rparr>) w of
                   (Inl e, s', w') \<Rightarrow> (Ready (Err e), s', w')
                 | (Inr True, s', w') \<Rightarrow> (if pos + n = 0 then Pending else Ready (Ok (pos + n)), s', w')
                 | (Inr False, s', w') \<Rightarrow> write_tls_loop crypto buf (pos + n) s' w')))"
  by pat_completeness auto
termination
  by (relation "measure (\<lambda>(_, buf, pos, s, w). length buf - pos)") (auto simp: writer_write_def)

declare write_tls_loop.simps [simp del]

definition poll_write_tls :: "Crypto \<Rightarrow> bytes \<Rightarrow> VisionStream \<Rightarrow> World \<Rightarrow> nat vision_poll" where
  "poll_write_tls crypto buf s w = write_tls_loop crypto buf 0 s w"

text \<open>One padded packet; the first one of a stream carries the UUID.\<close>

definition padded_packet :: "bytes \<Rightarrow> u8 \<Rightarrow> bool \<Rightarrow> VisionStream \<Rightarrow> World \<Rightarrow> bytes \<times> VisionStream \<times> World" where
  "padded_packet content command is_tls s w =
     (let (draw, rng) = wd_rng w (wd_draws w); w' = w\<lparr>wd_draws := wd_draws w + 1\<rparr> in
      if vs_write_first_packet s then
        (pad_with_uuid_and_command draw rng content (vs_user_uuid s) command is_tls,
         s\<lparr>vs_write_first_packet := False\<rparr>, w')
      else (pad_with_command draw rng content command is_tls, s, w'))"

text \<open>A packet is padded, put into the session and the session is drained.\<close>

definition send_padded :: "Crypto \<Rightarrow> bytes \<Rightarrow> u8 \<Rightarrow> bool \<Rightarrow> VisionStream \<Rightarrow> World \<Rightarrow> unit vision_poll" where
  "send_padded crypto content command is_tls s w =
     (case padded_packet content command is_tls s w of
        (packet, s1, w1) \<Rightarrow>
          (case write_to_session packet s1 of
             (Inl e, s2) \<Rightarrow> (Ready (Err e), s2, w1)
           | (Inr _, s2) \<Rightarrow> drain_all_writes_padding crypto s2 w1))"

text \<open>What draining and sending leave alone.\<close>

lemma vision_write_tls_frame: "vision_write_tls crypto s w = (r, s', w') \<Longrightarrow> s' = s\<lparr>vs_session := vs_session s'\<rparr>"
  by (auto simp: vision_write_tls_def split: prod.splits Poll.splits sum.splits)

text \<open>Only the session and the plaintext that waits for it may differ.\<close>

definition same_but_output :: "VisionStream \<Rightarrow> VisionStream \<Rightarrow> bool" where
  "same_but_output s s' \<longleftrightarrow>
     vs_read_mode s' = vs_read_mode s \<and> vs_write_mode s' = vs_write_mode s \<and>
     vs_outer_read_deframer s' = vs_outer_read_deframer s \<and> vs_read_unpadder s' = vs_read_unpadder s \<and>
     vs_inner_read_deframer s' = vs_inner_read_deframer s \<and>
     vs_inner_write_deframer s' = vs_inner_write_deframer s \<and>
     vs_write_first_packet s' = vs_write_first_packet s \<and> vs_user_uuid s' = vs_user_uuid s \<and>
     vs_filter s' = vs_filter s \<and> vs_pending_read s' = vs_pending_read s \<and>
     vs_response_pending s' = vs_response_pending s \<and> vs_partial_response s' = vs_partial_response s \<and>
     vs_response_to_send s' = vs_response_to_send s \<and>
     vs_pending_direct_switch s' = vs_pending_direct_switch s \<and>
     vs_pending_tls_switch s' = vs_pending_tls_switch s \<and> vs_read_buffer_len s' = vs_read_buffer_len s \<and>
     vs_is_read_eof s' = vs_is_read_eof s"

lemma same_but_output_refl [simp]: "same_but_output s s"
  by (simp add: same_but_output_def)

lemma same_but_output_trans: "same_but_output s t \<Longrightarrow> same_but_output t u \<Longrightarrow> same_but_output s u"
  by (simp add: same_but_output_def)

lemma same_but_output_intros:
  "same_but_output s (s\<lparr>vs_session := c\<rparr>)" "same_but_output s (s\<lparr>vs_pending_plain_writes := p\<rparr>)"
  "same_but_output s (s\<lparr>vs_session := c, vs_pending_plain_writes := p\<rparr>)"
  by (simp_all add: same_but_output_def)

lemma vision_write_tls_same: "vision_write_tls crypto s w = (r, s', w') \<Longrightarrow> same_but_output s s'"
  by (metis vision_write_tls_frame same_but_output_intros(1))

lemma drain_padding_frame: "drain_all_writes_padding crypto s w = (r, s', w') \<Longrightarrow> same_but_output s s'"
proof (induction crypto s w arbitrary: r s' w' rule: drain_all_writes_padding.induct)
  case (1 crypto s w)
  show ?case
  proof (cases "wants_write (vs_session s)")
    case True
    obtain q t v where q: "vision_write_tls crypto s w = (q, t, v)" by (cases "vision_write_tls crypto s w")
    note same = vision_write_tls_same [OF q]
    show ?thesis
    proof (cases "\<exists>n. q = Ready (Inr n) \<and> n \<noteq> 0")
      case ok: True
      then obtain n where n: "q = Ready (Inr n)" "n \<noteq> 0" by blast
      with "1.prems" True q have "drain_all_writes_padding crypto t v = (r, s', w')"
        by (simp add: drain_all_writes_padding.simps [of crypto s w])
      from "1.IH"(1) [OF True q [unfolded n(1), symmetric] refl refl refl n(2) this] same
      show ?thesis by (rule same_but_output_trans [rotated])
    next
      case stop: False
      with "1.prems" True q have "s' = t"
        by (auto simp: drain_all_writes_padding.simps [of crypto s w] split: Poll.splits sum.splits if_splits)
      with same show ?thesis by simp
    qed
  next
    case False
    show ?thesis
    proof (cases "vs_pending_plain_writes s = []")
      case True
      with False "1.prems" show ?thesis by (simp add: drain_all_writes_padding.simps [of crypto s w])
    next
      case pend: False
      let ?t = "(put_plain (vs_pending_plain_writes s) s)\<lparr>vs_pending_plain_writes := []\<rparr>"
      from pend False "1.prems" have "drain_all_writes_padding crypto ?t w = (r, s', w')"
        by (simp add: drain_all_writes_padding.simps [of crypto s w] drain_pending_plain_writes_all)
      with "1.IH"(2) [OF False pend drain_pending_plain_writes_all [symmetric] refl] pend
      have "same_but_output ?t s'" by simp
      then show ?thesis by (rule same_but_output_trans [OF same_but_output_intros(3)])
    qed
  qed
qed

lemma session_write_loop_all: "session_write_loop data s = (Ok (), put_plain data s)"
  by (cases "data = []") (simp_all add: session_write_loop.simps [of data] session_write_loop.simps [of "[]"] writer_write_def)

lemma write_to_session_all:
  "write_to_session data s =
    (Ok (), if vs_pending_plain_writes s \<noteq> [] then s\<lparr>vs_pending_plain_writes := vs_pending_plain_writes s @ data\<rparr>
            else put_plain data s)"
  by (simp add: write_to_session_def session_write_loop_all)

lemma padded_packet_stream: "padded_packet content command is_tls s w = (packet, s1, w1) \<Longrightarrow> s1 = s\<lparr>vs_write_first_packet := False\<rparr>"
  by (auto simp: padded_packet_def Let_def split: prod.splits if_splits)

lemma send_padded_frame:
  assumes "send_padded crypto content command is_tls s w = (r, s', w')"
  shows "same_but_output (s\<lparr>vs_write_first_packet := False\<rparr>) s'"
proof -
  obtain packet s1 w1 where p: "padded_packet content command is_tls s w = (packet, s1, w1)"
    by (cases "padded_packet content command is_tls s w")
  then have s1: "s1 = s\<lparr>vs_write_first_packet := False\<rparr>" by (rule padded_packet_stream)
  obtain s2 where s2: "write_to_session packet s1 = (Ok (), s2)" "same_but_output s1 s2"
    by (cases "vs_pending_plain_writes s1 = []") (simp_all add: write_to_session_all same_but_output_intros)
  with p assms have "drain_all_writes_padding crypto s2 w1 = (r, s', w')" by (simp add: send_padded_def)
  from same_but_output_trans [OF s2(2) drain_padding_frame [OF this]] s1 show ?thesis by simp
qed

section \<open>The padding writer\<close>

definition usize_sub :: "nat \<Rightarrow> nat \<Rightarrow> nat" where
  "usize_sub a b = (if b \<le> a then a - b else a + 2 ^ 64 - b)"

text \<open>The last padded packet: \<open>ok\<close> is the assertion between putting it into the session and draining.\<close>

definition send_final :: "Crypto \<Rightarrow> bool \<Rightarrow> bytes \<Rightarrow> u8 \<Rightarrow> bool \<Rightarrow> VisionStream \<Rightarrow> World \<Rightarrow> unit vision_poll" where
  "send_final crypto ok content command is_tls s w =
     (if ok then send_padded crypto content command is_tls s w
      else (case padded_packet content command is_tls s w of
              (packet, s1, w1) \<Rightarrow> (Ready (Err VisionPanic), snd (write_to_session packet s1), w1)))"

definition clear_inner_write :: "VisionStream \<Rightarrow> VisionStream" where
  "clear_inner_write s = s\<lparr>vs_inner_write_deframer := fuzzy_clear (vs_inner_write_deframer s)\<rparr>"

text \<open>After the last padded packet: an error is returned, otherwise the deframer is cleared and \<open>n\<close> reported.\<close>

definition report :: "nat \<Rightarrow> unit vision_poll \<Rightarrow> nat vision_poll" where
  "report n out =
     (case out of
        (Ready (Inl e), s, w) \<Rightarrow> (Ready (Err e), s, w)
      | (_, s, w) \<Rightarrow> (Ready (Ok n), clear_inner_write s, w))"

function write_padding_loop ::
    "Crypto \<Rightarrow> (bytes \<Rightarrow> nat option) \<Rightarrow> bytes \<Rightarrow> nat \<Rightarrow> nat \<Rightarrow> VisionStream \<Rightarrow> World \<Rightarrow> nat vision_poll" where
  "write_padding_loop crypto finder buf existing processed s w =
     (case fuzzy_next_record finder (vs_inner_write_deframer s) of
        (Inr (TlsRecord rec), f) \<Rightarrow>
          (let processed' = processed + length rec;
               fl = filter_record rec (vs_filter s);
               s1 = s\<lparr>vs_inner_write_deframer := f, vs_filter := fl\<rparr>;
               is_app_data = (vf_is_tls fl \<and> 3 \<le> length rec \<and> rec ! 0 = 0x17 \<and> rec ! 1 = 0x03);
               non_tls_filtering_ended = (\<not> is_app_data \<and> \<not> is_filtering fl \<and> \<not> vf_is_tls12_or_above fl)
           in if is_app_data \<or> non_tls_filtering_ended then
                report (usize_sub processed' existing)
                  (if vf_supports_xtls fl then
                     send_final crypto (existing < processed') rec COMMAND_DIRECT True (s1\<lparr>vs_pending_direct_switch := True\<rparr>) w
                   else
                     send_final crypto (existing < processed') rec COMMAND_END True (s1\<lparr>vs_pending_tls_switch := True\<rparr>) w)
              else (case send_padded crypto rec COMMAND_CONTINUE (vf_is_tls fl) s1 w of
                      (Ready (Inl e), s2, w2) \<Rightarrow> (Ready (Err e), s2, w2)
                    | (Pending, s2, w2) \<Rightarrow>
                        if fuzzy_pending_bytes (vs_inner_write_deframer s2) \<noteq>
                            usize_sub (length buf) (usize_sub processed' existing)
                        then (Ready (Err VisionPanic), s2, w2)
                        else (Ready (Ok (usize_sub processed' existing)), clear_inner_write s2, w2)
                    | (Ready (Inr _), s2, w2) \<Rightarrow> write_padding_loop crypto finder buf existing processed' s2 w2))
      | (Inr NeedData, f) \<Rightarrow> (Ready (Ok (length buf)), s\<lparr>vs_inner_write_deframer := f\<rparr>, w)
      | (Inr (UnknownPrefix pre), f) \<Rightarrow>
          (let processed' = processed + length pre;
               fl = decrement_filter_count (vs_filter s);
               s1 = s\<lparr>vs_inner_write_deframer := f, vs_filter := fl\<rparr>
           in if is_filtering fl then
                (case send_padded crypto pre COMMAND_CONTINUE (vf_is_tls fl) s1 w of
                   (Ready (Inl e), s2, w2) \<Rightarrow> (Ready (Err e), s2, w2)
                 | (_, s2, w2) \<Rightarrow> write_padding_loop crypto finder buf existing processed' s2 w2)
              else report (usize_sub processed' existing)
                (send_padded crypto pre COMMAND_END (vf_is_tls fl)
                   (clear_inner_write (s1\<lparr>vs_pending_tls_switch := True\<rparr>)) w))
      | (Inl e, f) \<Rightarrow>
          (let s1 = s\<lparr>vs_inner_write_deframer := f, vs_pending_tls_switch := True, vs_filter := stop_filtering (vs_filter s)\<rparr>
           in report (length buf)
                (send_padded crypto (fuzzy_remaining_data f) COMMAND_END (vf_is_tls (vs_filter s1)) s1 w)))"
  by pat_completeness auto
termination
  by (relation "measure (\<lambda>(_, _, _, _, _, s, w). buffered (vs_inner_write_deframer s))")
    (auto dest!: send_padded_frame [OF sym] fuzzy_next_record_shrinks [OF sym] simp: same_but_output_def)

declare write_padding_loop.simps [simp del]

section \<open>Polls of the writer\<close>

definition direct_write :: "bytes \<Rightarrow> VisionStream \<Rightarrow> World \<Rightarrow> nat vision_poll" where
  "direct_write buf s w =
     (case tcp_poll_write buf w of
        (Pending, w') \<Rightarrow> (Pending, s, w')
      | (Ready (Inl e), w') \<Rightarrow> (Ready (Err (TcpFailed e)), s, w')
      | (Ready (Inr n), w') \<Rightarrow> (Ready (Ok n), s, w'))"

definition send_response :: "VisionStream \<Rightarrow> (VisionError + unit) \<times> VisionStream" where
  "send_response s =
     (if vs_response_to_send s then
        (case write_to_session [0, 0] s of
           (Inl e, s') \<Rightarrow> (Err e, s') | (Inr _, s') \<Rightarrow> (Ok (), s'\<lparr>vs_response_to_send := False\<rparr>))
      else (Ok (), s))"

text \<open>What follows once nothing waits any more: a pending switch, or the buffer goes through the deframer.\<close>

definition write_drained ::
    "Crypto \<Rightarrow> (bytes \<Rightarrow> nat option) \<Rightarrow> bytes \<Rightarrow> VisionStream \<Rightarrow> World \<Rightarrow> nat vision_poll" where
  "write_drained crypto finder buf s w =
     (if vs_pending_direct_switch s then
        (case switch_write_to_direct_mode (s\<lparr>vs_pending_direct_switch := False\<rparr>) of
           (Inl e, s') \<Rightarrow> (Ready (Err e), s', w)
         | (Inr _, s') \<Rightarrow> direct_write buf s' w)
      else if vs_pending_tls_switch s then
        (case switch_write_to_tls_mode (s\<lparr>vs_pending_tls_switch := False\<rparr>) of
           (Inl e, s') \<Rightarrow> (Ready (Err e), s', w)
         | (Inr _, s') \<Rightarrow> poll_write_tls crypto buf s' w)
      else write_padding_loop crypto finder buf (fuzzy_pending_bytes (vs_inner_write_deframer s)) 0
        (s\<lparr>vs_inner_write_deframer := fuzzy_feed buf (vs_inner_write_deframer s)\<rparr>) w)"

definition poll_write_padding_tls ::
    "Crypto \<Rightarrow> (bytes \<Rightarrow> nat option) \<Rightarrow> bytes \<Rightarrow> VisionStream \<Rightarrow> World \<Rightarrow> nat vision_poll" where
  "poll_write_padding_tls crypto finder buf s w =
     (case send_response s of
        (Inl e, s1) \<Rightarrow> (Ready (Err e), s1, w)
      | (Inr _, s1) \<Rightarrow>
          if vs_pending_plain_writes s1 \<noteq> [] \<or> wants_write (vs_session s1) then
            (case drain_all_writes_padding crypto s1 w of
               (Pending, s2, w2) \<Rightarrow> (Pending, s2, w2)
             | (Ready (Inl e), s2, w2) \<Rightarrow> (Ready (Err e), s2, w2)
             | (Ready (Inr _), s2, w2) \<Rightarrow> write_drained crypto finder buf s2 w2)
          else write_drained crypto finder buf s1 w)"

definition vision_poll_write ::
    "Crypto \<Rightarrow> (bytes \<Rightarrow> nat option) \<Rightarrow> bytes \<Rightarrow> VisionStream \<Rightarrow> World \<Rightarrow> nat vision_poll" where
  "vision_poll_write crypto finder buf s w =
     (case vs_write_mode s of
        PaddingTls \<Rightarrow> poll_write_padding_tls crypto finder buf s w
      | TlsMode \<Rightarrow> poll_write_tls crypto buf s w
      | DirectMode \<Rightarrow> direct_write buf s w)"

text \<open>\<open>answer\<close> is what the flush of the transport returns once the session is drained.\<close>

definition vision_poll_flush :: "Crypto \<Rightarrow> (IoErrorKind + unit) Poll \<Rightarrow> VisionStream \<Rightarrow> World \<Rightarrow> unit vision_poll" where
  "vision_poll_flush crypto answer s w =
     (let tcp_flush = (case answer of Pending \<Rightarrow> Pending | Ready (Inl e) \<Rightarrow> Ready (Err (TcpFailed e)) | Ready (Inr _) \<Rightarrow> Ready (Ok ())) in
      case vs_write_mode s of
        PaddingTls \<Rightarrow>
          (case drain_all_writes_padding crypto s w of
             (Ready (Inr _), s', w') \<Rightarrow> (tcp_flush, s', w') | out \<Rightarrow> out)
      | TlsMode \<Rightarrow>
          (case drain_all_writes_tls crypto s w of
             (Ready (Inr _), s', w') \<Rightarrow> (tcp_flush, s', w') | out \<Rightarrow> out)
      | DirectMode \<Rightarrow> (tcp_flush, s, w))"

end
