(* ===== verification/Vision_Read.thy ===== *)
theory Vision_Read
  imports Vision_Stream
begin

text \<open>
  The read path of the Vision stream, \<open>prototype/vless/src/vision_stream.rs\<close>, and its polls. A read into a
  buffer of \<open>cap\<close> bytes returns the bytes it put there. The loops that take plaintext out of the session end
  because every chunk is not empty; the code has no guard against an empty one, which is the error
  \<open>ReaderSpins\<close> here.
\<close>

section \<open>Plaintext of the session\<close>

definition feed_and_process_crypto_connection ::
    "Crypto \<Rightarrow> bytes \<Rightarrow> RealityClientConnection \<Rightarrow> (VisionError + nat) \<times> RealityClientConnection" where
  "feed_and_process_crypto_connection crypto data c =
     (case feed_reality_client_connection data c of
        (Inl e, c1) \<Rightarrow> (Err (SessionFailed e), c1)
      | (Inr _, c1) \<Rightarrow>
          (case process_new_packets crypto c1 of
             (Inl e, c2) \<Rightarrow> (Err (SessionFailed e), c2)
           | (Inr n, c2) \<Rightarrow> (Ok n, c2)))"

text \<open>
  The loops over \<open>fill_buf\<close> and \<open>consume\<close> until \<open>plaintext_len\<close> bytes were read: the error that ended the loop,
  if any, and the bytes taken until then.
\<close>

function take_plaintext ::
    "VisionError \<Rightarrow> nat \<Rightarrow> bytes \<Rightarrow> RealityClientConnection \<Rightarrow> VisionError option \<times> bytes \<times> RealityClientConnection" where
  "take_plaintext on_empty wanted acc c =
     (if wanted = 0 then (None, acc, c)
      else (case reader_fill_buf c of
              Inl e \<Rightarrow> (Some (ReaderFailed e), acc, c)
            | Inr chunk \<Rightarrow>
                if chunk = [] then (Some on_empty, acc, c)
                else take_plaintext on_empty (wanted - length chunk) (acc @ chunk) (reader_consume (length chunk) c)))"
  by pat_completeness auto
termination by (relation "measure (\<lambda>(_, wanted, _, _). wanted)") auto

declare take_plaintext.simps [simp del]

section \<open>Padded bytes\<close>

text \<open>The records of the inner stream are shown to the filter until it stops.\<close>

function filter_read_loop ::
    "(bytes \<Rightarrow> nat option) \<Rightarrow> FuzzyTlsDeframer \<Rightarrow> VisionFilter \<Rightarrow> VisionError option \<times> FuzzyTlsDeframer \<times> VisionFilter" where
  "filter_read_loop finder f fl =
     (case fuzzy_next_record finder f of
        (Inr (TlsRecord rec), f') \<Rightarrow>
          (let fl' = filter_record rec fl in
           if is_filtering fl' then filter_read_loop finder f' fl' else (None, f', fl'))
      | (Inr (UnknownPrefix pre), f') \<Rightarrow>
          if pre = [] then (Some EmptyPrefix, f', fl) else filter_read_loop finder f' (decrement_filter_count fl)
      | (Inr NeedData, f') \<Rightarrow> (None, f', fl)
      | (Inl e, f') \<Rightarrow> (None, f', stop_filtering fl))"
  by pat_completeness auto
termination
  by (relation "measure (\<lambda>(_, f, _). buffered f)") (auto dest!: fuzzy_next_record_shrinks [OF sym])

declare filter_read_loop.simps [simp del]

text \<open>After an \<open>End\<close> command the complete records that the outer deframer still holds are decrypted.\<close>

function end_records_loop ::
    "Crypto \<Rightarrow> TlsDeframer \<Rightarrow> bytes \<Rightarrow> RealityClientConnection \<Rightarrow>
      (VisionError + TlsDeframer) \<times> bytes \<times> RealityClientConnection" where
  "end_records_loop crypto d pending c =
     (case next_record d of
        (Inl e, _) \<Rightarrow> (Err (OuterDeframeFailed e), pending, c)
      | (Inr None, d') \<Rightarrow> (Ok d', pending, c)
      | (Inr (Some rec), d') \<Rightarrow>
          (case feed_and_process_crypto_connection crypto rec c of
             (Inl e, c1) \<Rightarrow> (Err e, pending, c1)
           | (Inr plaintext_len, c1) \<Rightarrow>
               if plaintext_len = 0 then end_records_loop crypto d' pending c1
               else (case take_plaintext ReaderSpins plaintext_len [] (conn_reader c1) of
                       (Some e, chunk, c2) \<Rightarrow> (Err e, pending @ chunk, c2)
                     | (None, chunk, c2) \<Rightarrow> end_records_loop crypto d' (pending @ chunk) c2)))"
  by pat_completeness auto
termination
  by (relation "measure (\<lambda>(_, d, _, _). length (td_buffer d))") (auto dest!: next_record_shrinks [OF sym])

declare end_records_loop.simps [simp del]

definition handle_direct :: "bytes \<Rightarrow> VisionStream \<Rightarrow> (VisionError + unit) \<times> VisionStream" where
  "handle_direct unpadded s =
     (case vs_outer_read_deframer s of
        None \<Rightarrow> (Err VisionPanic, s)
      | Some d \<Rightarrow>
          switch_read_to_direct_mode (s\<lparr>vs_outer_read_deframer := None,
            vs_pending_read := vs_pending_read s @ unpadded @ into_remaining_data d\<rparr>))"

definition handle_end :: "Crypto \<Rightarrow> bytes \<Rightarrow> VisionStream \<Rightarrow> (VisionError + unit) \<times> VisionStream" where
  "handle_end crypto unpadded s =
     (let s1 = s\<lparr>vs_pending_read := vs_pending_read s @ unpadded\<rparr> in
      case vs_outer_read_deframer s1 of
        None \<Rightarrow> (Err VisionPanic, s1)
      | Some d \<Rightarrow>
          let s2 = s1\<lparr>vs_outer_read_deframer := None\<rparr> in
          (case end_records_loop crypto d (vs_pending_read s2) (vs_session s2) of
             (Inl e, pending, c) \<Rightarrow> (Err e, s2\<lparr>vs_pending_read := pending, vs_session := c\<rparr>)
           | (Inr d', pending, c) \<Rightarrow>
               let s3 = s2\<lparr>vs_pending_read := pending, vs_session := c\<rparr>; rest = into_remaining_data d' in
               if rest = [] then switch_read_to_tls_mode s3
               else (case feed_and_process_crypto_connection crypto rest c of
                       (Inl e, c1) \<Rightarrow> (Err e, s3\<lparr>vs_session := c1\<rparr>)
                     | (Inr n, c1) \<Rightarrow>
                         if n \<noteq> 0 then (Err VisionPanic, s3\<lparr>vs_session := c1\<rparr>)
                         else switch_read_to_tls_mode (s3\<lparr>vs_session := c1\<rparr>))))"

definition filter_unpadded :: "(bytes \<Rightarrow> nat option) \<Rightarrow> bytes \<Rightarrow> VisionStream \<Rightarrow> (VisionError + unit) \<times> VisionStream" where
  "filter_unpadded finder unpadded s =
     (if unpadded \<noteq> [] \<and> is_filtering (vs_filter s) then
        (case filter_read_loop finder (fuzzy_feed unpadded (vs_inner_read_deframer s)) (vs_filter s) of
           (Some e, f, fl) \<Rightarrow> (Err e, s\<lparr>vs_inner_read_deframer := f, vs_filter := fl\<rparr>)
         | (None, f, fl) \<Rightarrow> (Ok (), s\<lparr>vs_inner_read_deframer := f, vs_filter := fl\<rparr>))
      else (Ok (), s))"

definition handle_padded_bytes ::
    "Crypto \<Rightarrow> (bytes \<Rightarrow> nat option) \<Rightarrow> bytes \<Rightarrow> VisionStream \<Rightarrow> (VisionError + unit) \<times> VisionStream" where
  "handle_padded_bytes crypto finder decrypted s =
     (case unpad decrypted (vs_read_unpadder s) of
        (Inl e, u) \<Rightarrow> (Err (UnpadFailed e), s\<lparr>vs_read_unpadder := u\<rparr>)
      | (Inr r, u) \<Rightarrow>
          (case filter_unpadded finder (ur_content r) (s\<lparr>vs_read_unpadder := u\<rparr>) of
             (Inl e, s1) \<Rightarrow> (Err e, s1)
           | (Inr _, s1) \<Rightarrow>
               (case ur_command r of
                  Some UnpadDirect \<Rightarrow> handle_direct (ur_content r) s1
                | Some UnpadEnd \<Rightarrow> handle_end crypto (ur_content r) s1
                | _ \<Rightarrow> (Ok (), s1\<lparr>vs_pending_read := vs_pending_read s1 @ ur_content r\<rparr>))))"

section \<open>Initial data\<close>

definition feed_initial_read_data ::
    "Crypto \<Rightarrow> (bytes \<Rightarrow> nat option) \<Rightarrow> bytes \<Rightarrow> VisionStream \<Rightarrow> (VisionError + unit) \<times> VisionStream" where
  "feed_initial_read_data crypto finder data s =
     (if data = [] then (Ok (), s) else handle_padded_bytes crypto finder data s)"

definition feed_initial_session_data ::
    "Crypto \<Rightarrow> (bytes \<Rightarrow> nat option) \<Rightarrow> VisionStream \<Rightarrow> (VisionError + unit) \<times> VisionStream" where
  "feed_initial_session_data crypto finder s =
     (case process_new_packets crypto (vs_session s) of
        (Inl e, c) \<Rightarrow> (Err (SessionFailed e), s\<lparr>vs_session := c\<rparr>)
      | (Inr plaintext_len, c) \<Rightarrow>
          (case take_plaintext NoPlaintext plaintext_len [] (conn_reader c) of
             (Some e, _, c1) \<Rightarrow> (Err e, s\<lparr>vs_session := c1\<rparr>)
           | (None, decrypted, c1) \<Rightarrow> handle_padded_bytes crypto finder decrypted (s\<lparr>vs_session := c1\<rparr>)))"

section \<open>Reading TLS and raw bytes\<close>

definition give_pending :: "nat \<Rightarrow> VisionStream \<Rightarrow> bytes \<times> VisionStream" where
  "give_pending cap s =
     (let len = min cap (length (vs_pending_read s)) in
      (take len (vs_pending_read s), s\<lparr>vs_pending_read := drop len (vs_pending_read s)\<rparr>))"

definition direct_read :: "nat \<Rightarrow> VisionStream \<Rightarrow> World \<Rightarrow> bytes vision_poll" where
  "direct_read cap s w =
     (case tcp_poll_read cap w of
        (Pending, w') \<Rightarrow> (Pending, s, w')
      | (Ready (Inl e), w') \<Rightarrow> (Ready (Err (TcpFailed e)), s, w')
      | (Ready (Inr bs), w') \<Rightarrow> (Ready (Ok bs), s, w'))"

text \<open>The plaintext that is available, as far as it fits, is taken out of the session.\<close>

definition give_plaintext :: "nat \<Rightarrow> bytes \<Rightarrow> VisionStream \<Rightarrow> bytes \<times> VisionStream" where
  "give_plaintext cap available s =
     (let len = min cap (length available) in
      (take len available, s\<lparr>vs_session := reader_consume len (vs_session s)\<rparr>))"

function read_tls_loop :: "Crypto \<Rightarrow> nat \<Rightarrow> VisionStream \<Rightarrow> World \<Rightarrow> bytes vision_poll" where
  "read_tls_loop crypto cap s w =
     (case read_tls_direct (vs_session s) w of
        (Pending, c, w') \<Rightarrow> (Pending, s\<lparr>vs_session := c\<rparr>, w')
      | (Ready (Inl e), c, w') \<Rightarrow> (Ready (Err (SessionFailed e)), s\<lparr>vs_session := c\<rparr>, w')
      | (Ready (Inr n), c, w') \<Rightarrow>
          if n = 0 then (Ready (Ok []), s\<lparr>vs_session := c, vs_is_read_eof := True\<rparr>, w')
          else (case process_new_packets crypto c of
                  (Inl e, c1) \<Rightarrow> (Ready (Err (SessionFailed e)), s\<lparr>vs_session := c1\<rparr>, w')
                | (Inr plaintext_len, c1) \<Rightarrow>
                    if plaintext_len = 0 then read_tls_loop crypto cap (s\<lparr>vs_session := c1\<rparr>) w'
                    else (let s1 = s\<lparr>vs_session := conn_reader c1\<rparr> in
                          case reader_fill_buf (vs_session s1) of
                            Inl e \<Rightarrow> (Ready (Err (ReaderFailed e)), s1, w')
                          | Inr available \<Rightarrow>
                              if available = [] then (Ready (Err ReadZeroBytes), s1, w')
                              else (case give_plaintext cap available s1 of (out, s2) \<Rightarrow> (Ready (Ok out), s2, w')))))"
  by pat_completeness auto
termination
  by (relation "measure (\<lambda>(_, _, _, w). reads_size w)") (auto dest!: read_tls_direct_progress [OF sym])

declare read_tls_loop.simps [simp del]

definition poll_read_tls :: "Crypto \<Rightarrow> nat \<Rightarrow> VisionStream \<Rightarrow> World \<Rightarrow> bytes vision_poll" where
  "poll_read_tls crypto cap s w =
     (let s1 = s\<lparr>vs_session := conn_reader (vs_session s)\<rparr>;
          slow = (if vs_is_read_eof s1 then (Ready (Ok []), s1, w) else read_tls_loop crypto cap s1 w)
      in case reader_fill_buf (vs_session s1) of
           Inr available \<Rightarrow>
             if available \<noteq> [] then (case give_plaintext cap available s1 of (out, s2) \<Rightarrow> (Ready (Ok out), s2, w))
             else slow
         | Inl e \<Rightarrow> if e = WouldBlock then slow else (Ready (Err (ReaderFailed e)), s1, w))"

section \<open>Reading padded records\<close>

lemma post_padding_cleanup_fields [simp]:
  "vs_read_mode (post_padding_cleanup s) = vs_read_mode s" "vs_write_mode (post_padding_cleanup s) = vs_write_mode s"
  "vs_outer_read_deframer (post_padding_cleanup s) = vs_outer_read_deframer s"
  by (simp_all add: post_padding_cleanup_def)

lemma filter_unpadded_frame:
  "filter_unpadded finder x s = (r, s') \<Longrightarrow> s' = s\<lparr>vs_inner_read_deframer := vs_inner_read_deframer s', vs_filter := vs_filter s'\<rparr>"
  by (auto simp: filter_unpadded_def split: if_splits prod.splits option.splits)

text \<open>While the stream stays in padding mode, the outer deframer is untouched by what it delivered.\<close>

lemma handle_padded_bytes_outer:
  assumes "handle_padded_bytes crypto finder x s = (Inr u, s')" "vs_read_mode s' = PaddingTls"
  shows "vs_outer_read_deframer s' = vs_outer_read_deframer s"
proof -
  obtain r v where r: "unpad x (vs_read_unpadder s) = (Inr r, v)"
    using assms(1) by (auto simp: handle_padded_bytes_def split: prod.splits sum.splits)
  obtain q s1 where q: "filter_unpadded finder (ur_content r) (s\<lparr>vs_read_unpadder := v\<rparr>) = (q, s1)" by (cases "filter_unpadded finder (ur_content r) (s\<lparr>vs_read_unpadder := v\<rparr>)")
  from filter_unpadded_frame [OF q] have "vs_outer_read_deframer s1 = vs_outer_read_deframer s"
    by (metis VisionStream.select_convs(4) VisionStream.surjective VisionStream.update_convs(5,6,10))
  with assms r q show ?thesis
    by (auto simp: handle_padded_bytes_def handle_direct_def handle_end_def switch_read_to_direct_mode_def
        switch_read_to_tls_mode_def Let_def split: sum.splits prod.splits option.splits UnpadCommand.splits if_splits)
qed

text \<open>How the loop over the records of the outer deframer ends.\<close>

datatype RecordsEnd = RecordsFailed VisionError | RecordsNeedData | RecordsModeChanged

function padded_records_loop ::
    "Crypto \<Rightarrow> (bytes \<Rightarrow> nat option) \<Rightarrow> TlsDeframer \<Rightarrow> VisionStream \<Rightarrow> RecordsEnd \<times> VisionStream" where
  "padded_records_loop crypto finder d s =
     (case next_record d of
        (Inl e, d') \<Rightarrow> (RecordsFailed (OuterDeframeFailed e), s\<lparr>vs_outer_read_deframer := Some d'\<rparr>)
      | (Inr None, d') \<Rightarrow> (RecordsNeedData, s\<lparr>vs_outer_read_deframer := Some d'\<rparr>)
      | (Inr (Some rec), d') \<Rightarrow>
          (let s1 = s\<lparr>vs_outer_read_deframer := Some d'\<rparr> in
           case feed_and_process_crypto_connection crypto rec (vs_session s1) of
             (Inl e, c) \<Rightarrow> (RecordsFailed e, s1\<lparr>vs_session := c\<rparr>)
           | (Inr plaintext_len, c) \<Rightarrow>
               if plaintext_len = 0 then padded_records_loop crypto finder d' (s1\<lparr>vs_session := c\<rparr>)
               else (case take_plaintext ReaderSpins plaintext_len [] (conn_reader c) of
                       (Some e, _, c1) \<Rightarrow> (RecordsFailed e, s1\<lparr>vs_session := c1\<rparr>)
                     | (None, decrypted, c1) \<Rightarrow>
                         (case handle_padded_bytes crypto finder decrypted (s1\<lparr>vs_session := c1\<rparr>) of
                            (Inl e, s2) \<Rightarrow> (RecordsFailed e, s2)
                          | (Inr _, s2) \<Rightarrow>
                              if vs_read_mode s2 = PaddingTls then padded_records_loop crypto finder d' s2
                              else (RecordsModeChanged, s2)))))"
  by pat_completeness auto
termination
  by (relation "measure (\<lambda>(_, _, d, _). length (td_buffer d))") (auto dest!: next_record_shrinks [OF sym])

declare padded_records_loop.simps [simp del]

text \<open>Where a read goes once the mode has changed and nothing is pending.\<close>

definition read_in_mode :: "Crypto \<Rightarrow> nat \<Rightarrow> VisionStream \<Rightarrow> World \<Rightarrow> bytes vision_poll" where
  "read_in_mode crypto cap s w =
     (if vs_read_mode s = TlsMode then poll_read_tls crypto cap s w else direct_read cap s w)"

definition pending_or :: "nat \<Rightarrow> VisionStream \<Rightarrow> World \<Rightarrow> bytes vision_poll \<Rightarrow> bytes vision_poll" where
  "pending_or cap s w otherwise =
     (if vs_pending_read s \<noteq> [] then (case give_pending cap s of (out, s') \<Rightarrow> (Ready (Ok out), s', w)) else otherwise)"

function read_padding_loop ::
    "Crypto \<Rightarrow> (bytes \<Rightarrow> nat option) \<Rightarrow> nat \<Rightarrow> VisionStream \<Rightarrow> World \<Rightarrow> bytes vision_poll" where
  "read_padding_loop crypto finder cap s w =
     (case tcp_poll_read (vs_read_buffer_len s) w of
        (Pending, w') \<Rightarrow> (Pending, s, w')
      | (Ready (Inl e), w') \<Rightarrow> (Ready (Err (TcpFailed e)), s, w')
      | (Ready (Inr bs), w') \<Rightarrow>
          if bs = [] then (Ready (Ok []), s\<lparr>vs_is_read_eof := True\<rparr>, w')
          else (case vs_outer_read_deframer s of
                  None \<Rightarrow> (Ready (Err VisionPanic), s, w')
                | Some d \<Rightarrow>
                    (case padded_records_loop crypto finder (feed bs d) s of
                       (RecordsFailed e, s1) \<Rightarrow> (Ready (Err e), s1, w')
                     | (RecordsModeChanged, s1) \<Rightarrow> pending_or cap s1 w' (read_in_mode crypto cap s1 w')
                     | (RecordsNeedData, s1) \<Rightarrow> pending_or cap s1 w' (read_padding_loop crypto finder cap s1 w'))))"
  by pat_completeness auto
termination
  by (relation "measure (\<lambda>(_, _, _, _, w). reads_size w)") (auto dest!: tcp_poll_read_progress [OF sym])

declare read_padding_loop.simps [simp del]

definition poll_read_padding_tls ::
    "Crypto \<Rightarrow> (bytes \<Rightarrow> nat option) \<Rightarrow> nat \<Rightarrow> VisionStream \<Rightarrow> World \<Rightarrow> bytes vision_poll" where
  "poll_read_padding_tls crypto finder cap s w =
     (if vs_is_read_eof s then (Ready (Ok []), s, w) else read_padding_loop crypto finder cap s w)"

section \<open>The VLESS response\<close>

fun response_records_loop :: "Crypto \<Rightarrow> bytes list \<Rightarrow> VisionStream \<Rightarrow> VisionError option \<times> VisionStream" where
  "response_records_loop crypto [] s = (None, s)"
| "response_records_loop crypto (rec # recs) s =
     (case feed_and_process_crypto_connection crypto rec (vs_session s) of
        (Inl e, c) \<Rightarrow> (Some e, s\<lparr>vs_session := c\<rparr>)
      | (Inr plaintext_len, c) \<Rightarrow>
          (case take_plaintext NoPlaintext plaintext_len [] (conn_reader c) of
             (e, taken, c1) \<Rightarrow>
               let s1 = s\<lparr>vs_session := c1, vs_partial_response := vs_partial_response s @ taken\<rparr> in
               if e \<noteq> None then (e, s1) else response_records_loop crypto recs s1))"

text \<open>The header that has accumulated: incomplete, a wrong version, or the bytes that follow it.\<close>

definition parse_response :: "bytes \<Rightarrow> VisionError + bytes option" where
  "parse_response partial =
     (if length partial < 2 then Ok None
      else if partial ! 0 \<noteq> 0 then Err (ResponseVersion (partial ! 0))
      else if length partial < 2 + unat (partial ! 1) then Ok None
      else Ok (Some (drop (2 + unat (partial ! 1)) partial)))"

function poll_read_vless_response :: "Crypto \<Rightarrow> VisionStream \<Rightarrow> World \<Rightarrow> bytes vision_poll" where
  "poll_read_vless_response crypto s w =
     (case tcp_poll_read (vs_read_buffer_len s) w of
        (Pending, w') \<Rightarrow> (Pending, s, w')
      | (Ready (Inl e), w') \<Rightarrow> (Ready (Err (TcpFailed e)), s, w')
      | (Ready (Inr bs), w') \<Rightarrow>
          if bs = [] then (Ready (Err ResponseEof), s, w')
          else (case vs_outer_read_deframer s of
                  None \<Rightarrow> (Ready (Err VisionPanic), s, w')
                | Some d \<Rightarrow>
                    (case next_records (feed bs d) of
                       (Inl e, d') \<Rightarrow> (Ready (Err (OuterDeframeFailed e)), s\<lparr>vs_outer_read_deframer := Some d'\<rparr>, w')
                     | (Inr recs, d') \<Rightarrow>
                         (case response_records_loop crypto recs (s\<lparr>vs_outer_read_deframer := Some d'\<rparr>) of
                            (Some e, s1) \<Rightarrow> (Ready (Err e), s1, w')
                          | (None, s1) \<Rightarrow>
                              (case parse_response (vs_partial_response s1) of
                                 Inl e \<Rightarrow> (Ready (Err e), s1, w')
                               | Inr None \<Rightarrow> poll_read_vless_response crypto s1 w'
                               | Inr (Some rest) \<Rightarrow> (Ready (Ok rest), s1\<lparr>vs_partial_response := []\<rparr>, w'))))))"
  by pat_completeness auto
termination
  by (relation "measure (\<lambda>(_, _, w). reads_size w)") (auto dest!: tcp_poll_read_progress [OF sym])

declare poll_read_vless_response.simps [simp del]

section \<open>Polls of the reader\<close>

definition read_after_response ::
    "Crypto \<Rightarrow> (bytes \<Rightarrow> nat option) \<Rightarrow> nat \<Rightarrow> bytes \<Rightarrow> VisionStream \<Rightarrow> World \<Rightarrow> bytes vision_poll" where
  "read_after_response crypto finder cap decrypted s w =
     (if decrypted = [] then poll_read_padding_tls crypto finder cap s w
      else (case handle_padded_bytes crypto finder decrypted s of
              (Inl e, s1) \<Rightarrow> (Ready (Err e), s1, w)
            | (Inr _, s1) \<Rightarrow>
                pending_or cap s1 w
                  (if vs_read_mode s1 = PaddingTls then poll_read_padding_tls crypto finder cap s1 w
                   else read_in_mode crypto cap s1 w)))"

definition vision_poll_read ::
    "Crypto \<Rightarrow> (bytes \<Rightarrow> nat option) \<Rightarrow> nat \<Rightarrow> VisionStream \<Rightarrow> World \<Rightarrow> bytes vision_poll" where
  "vision_poll_read crypto finder cap s w =
     pending_or cap s w
       (case vs_read_mode s of
          PaddingTls \<Rightarrow>
            if vs_response_pending s then
              (case poll_read_vless_response crypto s w of
                 (Pending, s1, w1) \<Rightarrow> (Pending, s1, w1)
               | (Ready (Inl e), s1, w1) \<Rightarrow> (Ready (Err e), s1, w1)
               | (Ready (Inr decrypted), s1, w1) \<Rightarrow>
                   read_after_response crypto finder cap decrypted (s1\<lparr>vs_response_pending := False\<rparr>) w1)
            else poll_read_padding_tls crypto finder cap s w
        | TlsMode \<Rightarrow> poll_read_tls crypto cap s w
        | DirectMode \<Rightarrow> direct_read cap s w)"

text \<open>\<open>poll_shutdown\<close> only asks the transport, whose answer is an argument.\<close>

definition vision_poll_shutdown :: "(IoErrorKind + unit) Poll \<Rightarrow> VisionStream \<Rightarrow> World \<Rightarrow> unit vision_poll" where
  "vision_poll_shutdown answer s w =
     (case answer of
        Pending \<Rightarrow> (Pending, s, w)
      | Ready (Inl e) \<Rightarrow> (Ready (Err (TcpFailed e)), s, w)
      | Ready (Inr _) \<Rightarrow> (Ready (Ok ()), s, w))"

end
