(* ===== verification/Vision_Frame.thy ===== *)
theory Vision_Frame
  imports Vision_Read
begin

text \<open>
  What a Vision stream writes arrives. The bytes that the polls of the writer accepted are followed through
  the inner deframer, the padding, the plaintext buffers, the record layer and the transport to what a
  receiver reads who opens the records and removes the padding. Reads may come in between in any number:
  they leave the write side alone.
\<close>

section \<open>Reading leaves the write side alone\<close>

definition keeps_output :: "RealityClientConnection \<Rightarrow> RealityClientConnection \<Rightarrow> bool" where
  "keeps_output c c' \<longleftrightarrow> (cn_handshake c = HandshakeComplete \<longrightarrow>
     cn_handshake c' = HandshakeComplete \<and> cn_app_write_key c' = cn_app_write_key c \<and>
     cn_app_write_iv c' = cn_app_write_iv c \<and> cn_write_seq c' = cn_write_seq c \<and>
     cn_ciphertext_write c' = cn_ciphertext_write c \<and> cn_plaintext_write c' = cn_plaintext_write c)"

lemma keeps_output_refl [simp]: "keeps_output c c"
  by (simp add: keeps_output_def)

lemma keeps_output_trans [trans]: "keeps_output a b \<Longrightarrow> keeps_output b c \<Longrightarrow> keeps_output a c"
  by (simp add: keeps_output_def)

lemma read_tls_keeps_output: "read_tls answer c = (r, c') \<Longrightarrow> keeps_output c c'"
  by (auto simp: read_tls_def keeps_output_def Let_def split: sum.splits option.splits if_splits)

lemma feed_pieces_keeps_output: "feed_pieces ps c = (r, c') \<Longrightarrow> keeps_output c c'"
proof (induction ps arbitrary: c)
  case (Cons p ps)
  obtain q d where q: "read_tls (Ok p) c = (q, d)" by (cases "read_tls (Ok p) c")
  from read_tls_keeps_output [OF q] Cons q show ?case
    by (cases q) (auto intro: keeps_output_trans)
qed simp

lemma app_data_loop_keeps_output: "app_data_loop crypto k iv c = (r, c') \<Longrightarrow> keeps_output c c'"
proof (induction crypto k iv c arbitrary: r c' rule: app_data_loop.induct)
  case (1 crypto k iv c)
  have d: "decrypt_next crypto k iv n l c = (q, c1) \<Longrightarrow> keeps_output c c1" for n l q c1
    by (auto simp: decrypt_next_def keeps_output_def Let_def split: prod.splits)
  have h: "handle_app_record t x c1 = (q, c2) \<Longrightarrow> keeps_output c1 c2" for t x c1 q c2
    by (auto simp: handle_app_record_def keeps_output_def Let_def split: option.splits if_splits)
  have t: "keeps_output c2 (snd (take_record n c2))" for n c2 by (simp add: take_record_def keeps_output_def)
  have ih: "keeps_output c c'"
    if "\<not> sb_len (cn_ciphertext_read c) < 5" "get_u16_be 3 (cn_ciphertext_read c) = Some l"
      "\<not> sb_len (cn_ciphertext_read c) < 5 + unat l" "decrypt_next crypto k iv (5 + unat l) l c = (Ok (a, b), c1)"
      "handle_app_record a b c1 = (Ok True, c2)" "app_data_loop crypto k iv (snd (take_record (5 + unat l) c2)) = (r, c')"
    for l a b c1 c2
    using "1.IH" [OF refl that(1,2) refl that(3) that(4) [symmetric] refl refl that(5) [symmetric] refl refl that(6)]
      d [OF that(4)] h [OF that(5)] t keeps_output_trans by metis
  from "1.prems" show ?case
    by (subst (asm) app_data_loop.simps)
      (auto simp: Let_def split: option.splits sum.splits prod.splits bool.splits if_splits
        dest: d h intro: keeps_output_trans [OF d] ih)
qed

lemma process_new_packets_keeps_output: "process_new_packets crypto c = (r, c') \<Longrightarrow> keeps_output c c'"
proof (cases "cn_handshake c = HandshakeComplete")
  case True
  assume p: "process_new_packets crypto c = (r, c')"
  have app: "process_application_data crypto c = (q, d) \<Longrightarrow> keeps_output c d" for q d
    by (auto simp: process_application_data_def intro: app_data_loop_keeps_output split: option.splits)
  have "keeps_output d (d\<lparr>cn_fatal_error := k\<rparr>)" for d k by (simp add: keeps_output_def)
  with True p app show ?thesis
    by (subst (asm) process_new_packets_def, subst (asm) process_new_packets_inner.simps)
      (auto split: option.splits if_splits sum.splits prod.splits intro: keeps_output_trans)
qed (simp add: keeps_output_def)

lemma feed_and_process_keeps_output:
  "feed_and_process_crypto_connection crypto x c = (r, c') \<Longrightarrow> keeps_output c c'"
  by (auto simp: feed_and_process_crypto_connection_def feed_reality_client_connection_def
      dest!: feed_pieces_keeps_output process_new_packets_keeps_output intro: keeps_output_trans
      split: prod.splits sum.splits)

lemma reader_keeps_output [simp]: "keeps_output c (conn_reader c)" "keeps_output c (reader_consume n c)"
  by (simp_all add: conn_reader_def reader_consume_def keeps_output_def Let_def)

lemma take_plaintext_keeps_output: "take_plaintext e n acc c = (r, acc', c') \<Longrightarrow> keeps_output c c'"
proof (induction e n acc c rule: take_plaintext.induct)
  case (1 e n acc c)
  then show ?case
    by (subst (asm) (2) take_plaintext.simps) (auto split: if_splits sum.splits intro: keeps_output_trans [OF reader_keeps_output(2)])
qed

text \<open>What feeding a record and taking its plaintext do to the session, in one step.\<close>

lemmas session_reads = feed_and_process_keeps_output take_plaintext_keeps_output

lemma end_records_loop_keeps_output: "end_records_loop crypto d p c = (r, p', c') \<Longrightarrow> keeps_output c c'"
proof (induction crypto d p c arbitrary: r p' c' rule: end_records_loop.induct)
  case (1 crypto d p c)
  have taken: "keeps_output c c2"
    if "feed_and_process_crypto_connection crypto rec c = (q, c1)" "take_plaintext e n acc (conn_reader c1) = (x, y, c2)"
    for rec q c1 e n acc x y c2
    using feed_and_process_keeps_output [OF that(1)] take_plaintext_keeps_output [OF that(2)] reader_keeps_output(1)
      keeps_output_trans by metis
  have ih1: "keeps_output c c'"
    if "next_record d = (Inr (Some rec), d')" "feed_and_process_crypto_connection crypto rec c = (Inr 0, c1)"
      "end_records_loop crypto d' p c1 = (r, p', c')" for rec d' c1
    using "1.IH"(1) [OF that(1) [symmetric] refl refl that(2) [symmetric] refl refl that(3)]
      feed_and_process_keeps_output [OF that(2)] by (rule keeps_output_trans [rotated])
  have ih2: "keeps_output c c'"
    if "next_record d = (Inr (Some rec), d')" "feed_and_process_crypto_connection crypto rec c = (Inr n, c1)" "n \<noteq> 0"
      "take_plaintext ReaderSpins n [] (conn_reader c1) = (None, chunk, c2)"
      "end_records_loop crypto d' (p @ chunk) c2 = (r, p', c')" for rec d' n c1 chunk c2
    using "1.IH"(2) [OF that(1) [symmetric] refl refl that(2) [symmetric] refl that(3) that(4) [symmetric] refl refl that(5)]
      taken [OF that(2,4)] by (rule keeps_output_trans [rotated])
  from "1.prems" show ?case
    by (subst (asm) end_records_loop.simps)
      (auto split: prod.splits sum.splits option.splits if_splits intro: taken ih1 ih2 feed_and_process_keeps_output)
qed

definition keeps_writer :: "VisionStream \<Rightarrow> VisionStream \<Rightarrow> bool" where
  "keeps_writer s s' \<longleftrightarrow> keeps_output (vs_session s) (vs_session s') \<and> vs_write_mode s' = vs_write_mode s \<and>
     vs_write_first_packet s' = vs_write_first_packet s \<and> vs_user_uuid s' = vs_user_uuid s \<and>
     vs_response_to_send s' = vs_response_to_send s \<and> vs_pending_direct_switch s' = vs_pending_direct_switch s \<and>
     vs_pending_tls_switch s' = vs_pending_tls_switch s \<and>
     (vs_write_mode s = PaddingTls \<longrightarrow> vs_inner_write_deframer s' = vs_inner_write_deframer s \<and>
        vs_pending_plain_writes s' = vs_pending_plain_writes s)"

lemma keeps_writer_refl [simp]: "keeps_writer s s"
  by (simp add: keeps_writer_def)

lemma keeps_writer_trans: "keeps_writer s t \<Longrightarrow> keeps_writer t u \<Longrightarrow> keeps_writer s u"
  by (auto simp: keeps_writer_def intro: keeps_output_trans)

text \<open>Updates of the fields that only the read side uses.\<close>

lemma keeps_writer_updates [simp]:
  "keeps_writer s (t\<lparr>vs_read_mode := m\<rparr>) = keeps_writer s t"
  "keeps_writer s (t\<lparr>vs_outer_read_deframer := d\<rparr>) = keeps_writer s t"
  "keeps_writer s (t\<lparr>vs_read_unpadder := u\<rparr>) = keeps_writer s t"
  "keeps_writer s (t\<lparr>vs_inner_read_deframer := f\<rparr>) = keeps_writer s t"
  "keeps_writer s (t\<lparr>vs_filter := fl\<rparr>) = keeps_writer s t"
  "keeps_writer s (t\<lparr>vs_pending_read := x\<rparr>) = keeps_writer s t"
  "keeps_writer s (t\<lparr>vs_response_pending := b\<rparr>) = keeps_writer s t"
  "keeps_writer s (t\<lparr>vs_partial_response := x\<rparr>) = keeps_writer s t"
  "keeps_writer s (t\<lparr>vs_is_read_eof := b\<rparr>) = keeps_writer s t"
  "keeps_writer (s\<lparr>vs_read_mode := v0\<rparr>) t = keeps_writer s t"
  "keeps_writer (s\<lparr>vs_outer_read_deframer := v1\<rparr>) t = keeps_writer s t"
  "keeps_writer (s\<lparr>vs_read_unpadder := v2\<rparr>) t = keeps_writer s t"
  "keeps_writer (s\<lparr>vs_inner_read_deframer := v3\<rparr>) t = keeps_writer s t"
  "keeps_writer (s\<lparr>vs_filter := v4\<rparr>) t = keeps_writer s t"
  "keeps_writer (s\<lparr>vs_pending_read := v5\<rparr>) t = keeps_writer s t"
  "keeps_writer (s\<lparr>vs_response_pending := v6\<rparr>) t = keeps_writer s t"
  "keeps_writer (s\<lparr>vs_partial_response := v7\<rparr>) t = keeps_writer s t"
  "keeps_writer (s\<lparr>vs_is_read_eof := v8\<rparr>) t = keeps_writer s t"
  by (auto simp: keeps_writer_def)

lemma keeps_writer_cleanup: "keeps_writer s t \<Longrightarrow> keeps_writer s (post_padding_cleanup t)"
  by (auto simp: post_padding_cleanup_def keeps_writer_def)

lemma keeps_writer_session: "keeps_output (vs_session s) c \<Longrightarrow> keeps_writer s (s\<lparr>vs_session := c\<rparr>)"
  by (simp add: keeps_writer_def)

lemma keeps_writer_of_output:
  "keeps_output (vs_session s) (vs_session t) \<Longrightarrow> keeps_writer (s\<lparr>vs_session := vs_session t\<rparr>) t \<Longrightarrow> keeps_writer s t"
  by (simp add: keeps_writer_def)

lemma filter_unpadded_keeps: "filter_unpadded finder x s = (r, s') \<Longrightarrow> keeps_writer s s'"
  by (auto simp: filter_unpadded_def split: if_splits prod.splits option.splits)

lemma switch_read_keeps:
  "switch_read_to_direct_mode s = (r, s') \<Longrightarrow> keeps_writer s s'" "switch_read_to_tls_mode s = (r, s') \<Longrightarrow> keeps_writer s s'"
  by (auto simp: switch_read_to_direct_mode_def switch_read_to_tls_mode_def intro!: keeps_writer_cleanup split: if_splits)

lemma handle_direct_keeps: "handle_direct x s = (r, s') \<Longrightarrow> keeps_writer s s'"
  by (auto simp: handle_direct_def split: option.splits dest!: switch_read_keeps intro: keeps_writer_trans [rotated])

lemma handle_end_keeps: "handle_end crypto x s = (r, s') \<Longrightarrow> keeps_writer s s'"
proof (cases "vs_outer_read_deframer s")
  case None
  then show "handle_end crypto x s = (r, s') \<Longrightarrow> keeps_writer s s'" by (auto simp: handle_end_def Let_def)
next
  case (Some d)
  assume h: "handle_end crypto x s = (r, s')"
  obtain q p c where q: "end_records_loop crypto d (vs_pending_read s @ x) (vs_session s) = (q, p, c)"
    by (cases "end_records_loop crypto d (vs_pending_read s @ x) (vs_session s)")
  let ?s = "\<lambda>c. s\<lparr>vs_outer_read_deframer := None, vs_pending_read := p, vs_session := c\<rparr>"
  have c: "keeps_output (vs_session s) c" using end_records_loop_keeps_output [OF q] .
  then have k: "keeps_writer s (?s c)" by (simp add: keeps_writer_def)
  have f: "keeps_writer s (?s c1)" if "feed_and_process_crypto_connection crypto y c = (b, c1)" for y b c1
    using keeps_output_trans [OF c feed_and_process_keeps_output [OF that]] by (simp add: keeps_writer_def)
  from h Some q show ?thesis
    by (auto simp: handle_end_def Let_def split: sum.splits prod.splits if_splits
        intro: k f keeps_writer_trans [OF k switch_read_keeps(2)] keeps_writer_trans [OF f switch_read_keeps(2)])
qed

lemma handle_padded_bytes_keeps: "handle_padded_bytes crypto finder x s = (r, s') \<Longrightarrow> keeps_writer s s'"
  by (auto simp: handle_padded_bytes_def split: prod.splits sum.splits option.splits UnpadCommand.splits
      dest!: filter_unpadded_keeps handle_direct_keeps handle_end_keeps intro: keeps_writer_trans)

text \<open>Feeding a record to the session, and taking the plaintext it held.\<close>

lemma keeps_writer_fed:
  "feed_and_process_crypto_connection crypto rec (vs_session s) = (q, c) \<Longrightarrow> keeps_writer s (s\<lparr>vs_session := c\<rparr>)"
  by (rule keeps_writer_session) (rule feed_and_process_keeps_output)

lemma keeps_writer_taken:
  assumes "feed_and_process_crypto_connection crypto rec (vs_session s) = (q, c)"
    and "take_plaintext e n acc (conn_reader c) = (x, y, c2)"
  shows "keeps_writer s (s\<lparr>vs_session := c2\<rparr>)"
  using feed_and_process_keeps_output [OF assms(1)] take_plaintext_keeps_output [OF assms(2)] reader_keeps_output(1) keeps_output_trans
  by (metis keeps_writer_session)

lemma padded_records_loop_keeps: "padded_records_loop crypto finder d s = (r, s') \<Longrightarrow> keeps_writer s s'"
proof (induction "length (td_buffer d)" arbitrary: d s rule: less_induct)
  case less
  obtain nr d' where nr: "next_record d = (nr, d')" by (cases "next_record d")
  define s1 where "s1 = s\<lparr>vs_outer_read_deframer := Some d'\<rparr>"
  have s1: "keeps_writer s s1" by (simp add: s1_def)
  note eq = less.prems [unfolded padded_records_loop.simps [of crypto finder d s] nr prod.case Let_def, folded s1_def]
  show ?case
  proof (cases "\<exists>rec. nr = Inr (Some rec)")
    case False
    with eq have "s' = s1" by (auto split: sum.splits option.splits)
    with s1 show ?thesis by simp
  next
    case True
    then obtain rec where rec: "nr = Inr (Some rec)" by blast
    have ih: "padded_records_loop crypto finder d' t = (r, s') \<Longrightarrow> keeps_writer t s'" for t
      using less.hyps next_record_shrinks nr rec by blast
    obtain q c where q: "feed_and_process_crypto_connection crypto rec (vs_session s1) = (q, c)"
      by (cases "feed_and_process_crypto_connection crypto rec (vs_session s1)")
    have fed: "keeps_writer s (s1\<lparr>vs_session := c\<rparr>)" using s1 keeps_writer_fed [OF q] by (rule keeps_writer_trans)
    obtain x y c1 where t: "take_plaintext ReaderSpins (case q of Inr n \<Rightarrow> n | _ \<Rightarrow> 0) [] (conn_reader c) = (x, y, c1)"
      by (cases "take_plaintext ReaderSpins (case q of Inr n \<Rightarrow> n | _ \<Rightarrow> 0) [] (conn_reader c)")
    have taken: "keeps_writer s (s1\<lparr>vs_session := c1\<rparr>)" using s1 keeps_writer_taken [OF q t] by (rule keeps_writer_trans)
    obtain h s2 where h: "handle_padded_bytes crypto finder y (s1\<lparr>vs_session := c1\<rparr>) = (h, s2)"
      by (cases "handle_padded_bytes crypto finder y (s1\<lparr>vs_session := c1\<rparr>)")
    have handled: "keeps_writer s s2" using taken handle_padded_bytes_keeps [OF h] by (rule keeps_writer_trans)
    from eq rec q t h fed taken handled show ?thesis
      by (auto split: sum.splits option.splits if_splits
          intro: keeps_writer_trans [OF fed ih] keeps_writer_trans [OF handled ih])
  qed
qed

text \<open>A poll of the reader, as the writer sees it.\<close>

definition only_read :: "VisionStream \<Rightarrow> World \<Rightarrow> VisionStream \<Rightarrow> World \<Rightarrow> bool" where
  "only_read s w s' w' \<longleftrightarrow> keeps_writer s s' \<and> wd_sent w' = wd_sent w \<and> wd_writes w' = wd_writes w"

lemma only_read_refl [simp]: "only_read s w s w"
  by (simp add: only_read_def)

lemma only_read_trans: "only_read s w t v \<Longrightarrow> only_read t v u x \<Longrightarrow> only_read s w u x"
  by (auto simp: only_read_def intro: keeps_writer_trans)

lemma only_read_stream: "keeps_writer s t \<Longrightarrow> only_read s w t w"
  by (simp add: only_read_def)

lemma only_read_tcp: "tcp_poll_read cap w = (r, w') \<Longrightarrow> only_read s w s w'"
  by (simp add: only_read_def tcp_poll_read_frame)

lemma give_pending_reads: "give_pending cap s = (out, s') \<Longrightarrow> only_read s w s' w"
  by (auto simp: give_pending_def Let_def intro: only_read_stream)

lemma direct_read_reads: "direct_read cap s w = (r, s', w') \<Longrightarrow> only_read s w s' w'"
  by (auto simp: direct_read_def dest: only_read_tcp split: prod.splits Poll.splits sum.splits)

lemma read_tls_direct_reads: "read_tls_direct (vs_session s) w = (r, c, w') \<Longrightarrow> only_read s w (s\<lparr>vs_session := c\<rparr>) w'"
  by (auto simp: read_tls_direct_def SyncReadAdapter_read_def only_read_def
      dest!: tcp_poll_read_frame read_tls_keeps_output intro: keeps_writer_session split: prod.splits Poll.splits sum.splits if_splits)

lemma process_reads: "process_new_packets crypto (vs_session s) = (r, c) \<Longrightarrow> only_read s w (s\<lparr>vs_session := c\<rparr>) w"
  by (auto intro: only_read_stream keeps_writer_session process_new_packets_keeps_output)

lemma reader_reads: "only_read s w (s\<lparr>vs_session := conn_reader (vs_session s)\<rparr>) w"
  by (rule only_read_stream, rule keeps_writer_session) (rule reader_keeps_output)

lemma give_plaintext_reads: "give_plaintext cap x s = (out, s') \<Longrightarrow> only_read s w s' w"
  using only_read_stream [OF keeps_writer_session [OF reader_keeps_output(2)]] by (auto simp: give_plaintext_def Let_def)

lemma read_tls_loop_reads: "read_tls_loop crypto cap s w = (r, s', w') \<Longrightarrow> only_read s w s' w'"
proof (induction "reads_size w" arbitrary: s w rule: less_induct)
  case less
  obtain q c v where q: "read_tls_direct (vs_session s) w = (q, c, v)" by (cases "read_tls_direct (vs_session s) w")
  define s1 where "s1 = s\<lparr>vs_session := c\<rparr>"
  have s1: "only_read s w s1 v" using read_tls_direct_reads [OF q] by (simp add: s1_def)
  note eq = less.prems [unfolded read_tls_loop.simps [of crypto cap s w] q prod.case Let_def]
  show ?case
  proof (cases "\<exists>n. q = Ready (Inr n) \<and> n \<noteq> 0")
    case False
    with eq s1 show ?thesis
      by (auto simp: s1_def only_read_def split: Poll.splits sum.splits)
  next
    case True
    then obtain n where n: "q = Ready (Inr n)" "n \<noteq> 0" by blast
    obtain p c1 where p: "process_new_packets crypto c = (p, c1)" by (cases "process_new_packets crypto c")
    then have s2: "only_read s w (s\<lparr>vs_session := c1\<rparr>) v"
      using only_read_trans [OF s1 process_reads [of crypto s1]] by (simp add: s1_def)
    have s3: "only_read s w (s\<lparr>vs_session := conn_reader c1\<rparr>) v"
      using only_read_trans [OF s2 reader_reads] by simp
    have ih: "read_tls_loop crypto cap t v = (r, s', w') \<Longrightarrow> only_read t v s' w'" for t
      using less.hyps read_tls_direct_progress [OF q [unfolded n(1)] n(2)] by blast
    from eq n p s2 s3 show ?thesis
      by (auto split: sum.splits if_splits prod.splits intro: only_read_trans [OF s2 ih] dest: only_read_trans [OF s3 give_plaintext_reads])
  qed
qed

lemma poll_read_tls_reads: "poll_read_tls crypto cap s w = (r, s', w') \<Longrightarrow> only_read s w s' w'"
  using reader_reads [of s w]
  by (auto simp: poll_read_tls_def Let_def split: sum.splits if_splits prod.splits
      intro: only_read_trans [OF reader_reads read_tls_loop_reads] only_read_trans [OF reader_reads give_plaintext_reads])

lemma read_in_mode_reads: "read_in_mode crypto cap s w = (r, s', w') \<Longrightarrow> only_read s w s' w'"
  by (auto simp: read_in_mode_def dest: poll_read_tls_reads direct_read_reads split: if_splits)

lemma pending_or_reads:
  "pending_or cap s w out = (r, s', w') \<Longrightarrow> (out = (r, s', w') \<Longrightarrow> only_read s w s' w') \<Longrightarrow> only_read s w s' w'"
  by (auto simp: pending_or_def dest: give_pending_reads split: if_splits prod.splits)

lemma read_padding_loop_reads: "read_padding_loop crypto finder cap s w = (r, s', w') \<Longrightarrow> only_read s w s' w'"
proof (induction "reads_size w" arbitrary: s w rule: less_induct)
  case less
  obtain q v where q: "tcp_poll_read (vs_read_buffer_len s) w = (q, v)" by (cases "tcp_poll_read (vs_read_buffer_len s) w")
  have s1: "only_read s w s v" by (rule only_read_tcp [OF q])
  note eq = less.prems [unfolded read_padding_loop.simps [of crypto finder cap s w] q prod.case]
  show ?case
  proof (cases "\<exists>bs d. q = Ready (Inr bs) \<and> bs \<noteq> [] \<and> vs_outer_read_deframer s = Some d")
    case False
    with eq s1 show ?thesis
      by (auto simp: only_read_def split: Poll.splits sum.splits option.splits if_splits)
  next
    case True
    then obtain bs d where bs: "q = Ready (Inr bs)" "bs \<noteq> []" "vs_outer_read_deframer s = Some d" by blast
    have ih: "read_padding_loop crypto finder cap t v = (r, s', w') \<Longrightarrow> only_read t v s' w'" for t
      using less.hyps tcp_poll_read_progress [OF q [unfolded bs(1)] bs(2)] by blast
    obtain p t where p: "padded_records_loop crypto finder (feed bs d) s = (p, t)"
      by (cases "padded_records_loop crypto finder (feed bs d) s")
    then have t: "only_read s w t v"
      using only_read_trans [OF s1 only_read_stream [OF padded_records_loop_keeps]] by blast
    from eq bs p t show ?thesis
      by (auto split: RecordsEnd.splits intro: only_read_trans [OF t pending_or_reads] ih read_in_mode_reads)
  qed
qed

lemma poll_read_padding_reads: "poll_read_padding_tls crypto finder cap s w = (r, s', w') \<Longrightarrow> only_read s w s' w'"
  by (auto simp: poll_read_padding_tls_def dest: read_padding_loop_reads split: if_splits)

lemma response_records_keeps: "response_records_loop crypto recs s = (r, s') \<Longrightarrow> keeps_writer s s'"
proof (induction recs arbitrary: s)
  case (Cons rec recs)
  obtain q c where q: "feed_and_process_crypto_connection crypto rec (vs_session s) = (q, c)"
    by (cases "feed_and_process_crypto_connection crypto rec (vs_session s)")
  show ?case
  proof (cases q)
    case (Inl e)
    with q Cons.prems keeps_writer_fed [OF q] show ?thesis by simp
  next
    case (Inr n)
    obtain x y c1 where t: "take_plaintext NoPlaintext n [] (conn_reader c) = (x, y, c1)"
      by (cases "take_plaintext NoPlaintext n [] (conn_reader c)")
    have k: "keeps_writer s (s\<lparr>vs_session := c1, vs_partial_response := vs_partial_response s @ y\<rparr>)"
      using keeps_writer_taken [OF q t] by simp
    with Cons.prems q t Inr show ?thesis
      by (auto simp: Let_def split: if_splits intro: keeps_writer_trans [OF k Cons.IH])
  qed
qed simp

lemma poll_read_vless_response_reads: "poll_read_vless_response crypto s w = (r, s', w') \<Longrightarrow> only_read s w s' w'"
proof (induction "reads_size w" arbitrary: s w rule: less_induct)
  case less
  obtain q v where q: "tcp_poll_read (vs_read_buffer_len s) w = (q, v)" by (cases "tcp_poll_read (vs_read_buffer_len s) w")
  have s1: "only_read s w s v" by (rule only_read_tcp [OF q])
  note eq = less.prems [unfolded poll_read_vless_response.simps [of crypto s w] q prod.case]
  show ?case
  proof (cases "\<exists>bs d. q = Ready (Inr bs) \<and> bs \<noteq> [] \<and> vs_outer_read_deframer s = Some d")
    case False
    with eq s1 show ?thesis by (auto simp: only_read_def split: Poll.splits sum.splits option.splits if_splits)
  next
    case True
    then obtain bs d where bs: "q = Ready (Inr bs)" "bs \<noteq> []" "vs_outer_read_deframer s = Some d" by blast
    have ih: "poll_read_vless_response crypto t v = (r, s', w') \<Longrightarrow> only_read t v s' w'" for t
      using less.hyps tcp_poll_read_progress [OF q [unfolded bs(1)] bs(2)] by blast
    obtain p d' where p: "next_records (feed bs d) = (p, d')" by (cases "next_records (feed bs d)")
    define s2 where "s2 = s\<lparr>vs_outer_read_deframer := Some d'\<rparr>"
    have s2: "only_read s w s2 v" using s1 by (simp add: s2_def only_read_def)
    have resp: "only_read s w t v" if "response_records_loop crypto recs s2 = (x, t)" for recs x t
      using only_read_trans [OF s2 only_read_stream [OF response_records_keeps [OF that]]] .
    have resp': "only_read s w (t\<lparr>vs_partial_response := y\<rparr>) v" if "response_records_loop crypto recs s2 = (x, t)" for recs x t y
      using resp [OF that] by (simp add: only_read_def)
    from eq [unfolded bs(1) p Poll.case sum.case prod.case bs(3) option.case, folded s2_def] bs(2) s2 show ?thesis
      by (auto split: sum.splits option.splits prod.splits dest: resp resp' intro: only_read_trans [OF resp ih])
  qed
qed

lemma read_after_response_reads: "read_after_response crypto finder cap x s w = (r, s', w') \<Longrightarrow> only_read s w s' w'"
proof -
  assume eq: "read_after_response crypto finder cap x s w = (r, s', w')"
  obtain q t where q: "handle_padded_bytes crypto finder x s = (q, t)" by (cases "handle_padded_bytes crypto finder x s")
  have t: "only_read s w t w" using only_read_stream [OF handle_padded_bytes_keeps [OF q]] .
  from eq q t show ?thesis
    by (auto simp: read_after_response_def dest: poll_read_padding_reads split: if_splits sum.splits
        intro: only_read_trans [OF t pending_or_reads] poll_read_padding_reads read_in_mode_reads)
qed

lemma vision_poll_read_reads: "vision_poll_read crypto finder cap s w = (r, s', w') \<Longrightarrow> only_read s w s' w'"
  unfolding vision_poll_read_def
proof (erule pending_or_reads)
  have resp: "only_read s w (t\<lparr>vs_response_pending := False\<rparr>) v" if "poll_read_vless_response crypto s w = (x, t, v)" for x t v
    using poll_read_vless_response_reads [OF that] by (simp add: only_read_def)
  show "only_read s w s' w'"
    if "(case vs_read_mode s of
          PaddingTls \<Rightarrow>
            if vs_response_pending s then
              (case poll_read_vless_response crypto s w of
                 (Pending, s1, w1) \<Rightarrow> (Pending, s1, w1)
               | (Ready (Inl e), s1, w1) \<Rightarrow> (Ready (Err e), s1, w1)
               | (Ready (Inr decrypted), s1, w1) \<Rightarrow>
                   read_after_response crypto finder cap decrypted (s1\<lparr>vs_response_pending := False\<rparr>) w1)
            else poll_read_padding_tls crypto finder cap s w
        | TlsMode \<Rightarrow> poll_read_tls crypto cap s w
        | DirectMode \<Rightarrow> direct_read cap s w) = (r, s', w')"
    using that
    by (auto split: VisionMode.splits if_splits prod.splits Poll.splits sum.splits
        dest: poll_read_padding_reads poll_read_tls_reads direct_read_reads poll_read_vless_response_reads
        intro: only_read_trans [OF resp read_after_response_reads])
qed

end
