(* ===== verification/Vision_Delivery.thy ===== *)
theory Vision_Delivery
  imports Vision_Frame
begin

text \<open>
  What a Vision stream writes arrives. The bytes that the polls of the writer accepted are followed through
  the inner deframer, the padding, the plaintext buffer of the session, the record layer and the transport
  to what a receiver reads who opens the records and removes the padding. Reads may come in between in any
  number: by \<open>Vision_Frame\<close> they leave the write side alone.
\<close>

section \<open>The inner deframer loses nothing\<close>

definition fuzzy_ok :: "FuzzyTlsDeframer \<Rightarrow> bool" where
  "fuzzy_ok f \<longleftrightarrow>
     (fz_state f = Searching \<longrightarrow> td_buffer (fz_inner f) = [] \<and> td_state (fz_inner f) = ReadingHeader) \<and>
     (case td_state (fz_inner f) of ReadingHeader \<Rightarrow> True | ReadingPayload n \<Rightarrow> n \<le> MAX_TLS_CIPHERTEXT_LEN)"

definition MAX_PENDING :: nat where "MAX_PENDING = TLS_RECORD_HEADER_SIZE + MAX_TLS_CIPHERTEXT_LEN"

lemma check_header_bound: "check_header b = Inr n \<Longrightarrow> n \<le> MAX_TLS_CIPHERTEXT_LEN"
  by (auto simp: check_header_def Let_def split: if_splits)

lemma next_record_conserves:
  assumes "next_record d = (r, d')" "case td_state d of ReadingHeader \<Rightarrow> True | ReadingPayload n \<Rightarrow> n \<le> MAX_TLS_CIPHERTEXT_LEN"
  shows "(case td_state d' of ReadingHeader \<Rightarrow> True | ReadingPayload n \<Rightarrow> n \<le> MAX_TLS_CIPHERTEXT_LEN) \<and>
    (case r of
       Inr (Some rec) \<Rightarrow> rec @ td_buffer d' = td_buffer d
     | Inr None \<Rightarrow> td_buffer d' = td_buffer d \<and> length (td_buffer d) \<le> MAX_PENDING
     | Inl _ \<Rightarrow> td_buffer d' = td_buffer d)"
  using assms
  by (auto simp: next_record_def take_payload_def Let_def MAX_PENDING_def TLS_RECORD_HEADER_SIZE_def
      dest: check_header_bound split: DeframerState.splits sum.splits if_splits)

text \<open>What a call takes out and what stays is what was there; when more data is needed, little is kept.\<close>

fun taken_out :: "TlsError + DeframeResult \<Rightarrow> bytes" where
  "taken_out (Inr (TlsRecord rec)) = rec"
| "taken_out (Inr (UnknownPrefix p)) = p"
| "taken_out _ = []"

lemma deframe_inner_conserves:
  assumes "deframe_inner f = (r, f')" "fuzzy_ok f" "fz_state f = Deframing"
  shows "fuzzy_ok f' \<and> taken_out r @ fuzzy_remaining_data f' = fuzzy_remaining_data f \<and>
    (r = Inr NeedData \<longrightarrow> length (fuzzy_remaining_data f') \<le> MAX_PENDING)"
proof (cases "next_record (fz_inner f)")
  case (Pair q d)
  with assms next_record_conserves [OF Pair] show ?thesis
    by (cases q) (auto simp: deframe_inner_def fuzzy_ok_def fuzzy_remaining_data_def into_remaining_data_def split: option.splits)
qed

lemma discard_prefix_conserves:
  assumes "discard_prefix k f = (r, f')" "fuzzy_ok f" "fz_state f = Searching" "k \<le> 5"
  shows "fuzzy_ok f' \<and> taken_out (Inr r) @ fuzzy_remaining_data f' = fuzzy_remaining_data f \<and>
    (r = NeedData \<longrightarrow> length (fuzzy_remaining_data f') \<le> MAX_PENDING)"
  using assms
  by (auto simp: discard_prefix_def fuzzy_ok_def fuzzy_remaining_data_def Let_def MAX_PENDING_def TLS_RECORD_HEADER_SIZE_def
      split: if_splits)

lemma start_deframing_conserves:
  assumes "fuzzy_ok f" "fz_state f = Searching"
  shows "fuzzy_ok (start_deframing n f)" "fz_state (start_deframing n f) = Deframing"
    "fuzzy_remaining_data (start_deframing n f) = drop n (fuzzy_remaining_data f)"
  using assms by (simp_all add: start_deframing_def fuzzy_ok_def fuzzy_remaining_data_def into_remaining_data_def feed_def)

lemma fuzzy_next_record_conserves:
  assumes "fuzzy_next_record finder f = (r, f')" "fuzzy_ok f"
  shows "fuzzy_ok f'" "taken_out r @ fuzzy_remaining_data f' = fuzzy_remaining_data f"
    "r = Inr NeedData \<Longrightarrow> length (fuzzy_remaining_data f') \<le> MAX_PENDING"
proof -
  have "fuzzy_ok f' \<and> taken_out r @ fuzzy_remaining_data f' = fuzzy_remaining_data f \<and>
    (r = Inr NeedData \<longrightarrow> length (fuzzy_remaining_data f') \<le> MAX_PENDING)"
  proof (cases "fz_state f")
    case Deframing
    with assms deframe_inner_conserves show ?thesis by (simp add: fuzzy_next_record_def)
  next
    case Searching
    let ?k = "find_potential_tls_suffix_len (fz_search_buffer f)"
    obtain q g where q: "discard_prefix ?k f = (q, g)" by (cases "discard_prefix ?k f")
    note disc = discard_prefix_conserves [OF q assms(2) Searching] suffix_len_cases [of "fz_search_buffer f"]
    note start = start_deframing_conserves [OF assms(2) Searching]
    note inner = deframe_inner_conserves [of "start_deframing 0 f" r f']
    have rem: "fuzzy_remaining_data f = fz_search_buffer f" using Searching by (simp add: fuzzy_remaining_data_def)
    show ?thesis
    proof (cases "fz_search_buffer f = []")
      case True
      with assms Searching rem show ?thesis by (auto simp: fuzzy_next_record_def)
    next
      case False
      show ?thesis
      proof (cases "MIN_TLS_HANDSHAKE_PATTERN_LEN \<le> length (fz_search_buffer f) \<and>
          find_tls_handshake_start finder (fz_search_buffer f) \<noteq> None")
        case True
        with False assms Searching start inner rem show ?thesis
          by (auto simp: fuzzy_next_record_def Let_def split: if_splits)
      next
        case none: False
        with False assms Searching q have "r = Inr q" "f' = g"
          by (auto simp: fuzzy_next_record_def Let_def split: if_splits)
        with disc show ?thesis by auto
      qed
    qed
  qed
  then show "fuzzy_ok f'" "taken_out r @ fuzzy_remaining_data f' = fuzzy_remaining_data f"
    "r = Inr NeedData \<Longrightarrow> length (fuzzy_remaining_data f') \<le> MAX_PENDING" by auto
qed

lemma fuzzy_feed_conserves [simp]:
  "fuzzy_ok (fuzzy_feed x f) = fuzzy_ok f" "fuzzy_remaining_data (fuzzy_feed x f) = fuzzy_remaining_data f @ x"
  by (cases "fz_state f"; simp add: fuzzy_feed_def fuzzy_ok_def fuzzy_remaining_data_def into_remaining_data_def feed_def)+

lemma fuzzy_clear_conserves [simp]: "fuzzy_ok (fuzzy_clear f)" "fuzzy_remaining_data (fuzzy_clear f) = []"
  by (simp_all add: fuzzy_clear_def fuzzy_ok_def fuzzy_remaining_data_def TlsDeframer_clear_def)

lemma fuzzy_new_conserves [simp]: "fuzzy_ok FuzzyTlsDeframer_new" "fuzzy_remaining_data FuzzyTlsDeframer_new = []"
  by (simp_all add: FuzzyTlsDeframer_new_def fuzzy_ok_def fuzzy_remaining_data_def TlsDeframer_new_def)

lemma fuzzy_pending_bytes_length: "fuzzy_pending_bytes f = length (fuzzy_remaining_data f)"
  by (simp add: fuzzy_pending_bytes_def fuzzy_remaining_data_def pending_bytes_def into_remaining_data_def split: FuzzyState.splits)

section \<open>The padded stream\<close>

definition small :: "PadCall list \<Rightarrow> bool" where
  "small cs \<longleftrightarrow> (\<forall>c\<in>set cs. length (pc_data c) < 65536)"

text \<open>Blocks that continue, and blocks of which the last one has a final command, with what follows it.\<close>

definition continued :: "bytes \<Rightarrow> bool \<Rightarrow> bytes \<Rightarrow> bytes \<Rightarrow> bool" where
  "continued uuid none_yet plain content \<longleftrightarrow>
     (\<exists>cs. small cs \<and> none_yet = (cs = []) \<and> content = concat (map pc_data cs) \<and>
        plain = (if cs = [] then [] else uuid @ concat (map pad_continue cs)))"

definition ended :: "bytes \<Rightarrow> UnpadCommand \<Rightarrow> bytes \<Rightarrow> bytes \<Rightarrow> bool" where
  "ended uuid cmd plain content \<longleftrightarrow>
     (\<exists>cs fin b tail. small (cs @ [fin]) \<and> UnpadCommand_try_from b = Inr cmd \<and> cmd \<noteq> UnpadContinue \<and>
        content = concat (map pc_data (cs @ [fin])) @ tail \<and>
        plain = uuid @ concat (map pad_continue cs) @
          pad_with_command (pc_draw fin) (pc_rng fin) (pc_data fin) b (pc_is_tls fin) @ tail)"

lemma ended_tail: "ended uuid cmd plain content \<Longrightarrow> ended uuid cmd (plain @ x) (content @ x)"
  unfolding ended_def by (metis append_assoc)

lemma pad_with_uuid: "pad_with_uuid_and_command draw rng d uuid b tls = uuid @ pad_with_command draw rng d b tls"
  by (simp add: pad_with_uuid_and_command_def pad_with_command_def pad_block_def Let_def)

lemma padded_packet_continues:
  assumes "continued (vs_user_uuid s) (vs_write_first_packet s) plain content" "length d < 65536"
    and "padded_packet d COMMAND_CONTINUE tls s w = (packet, s', w')"
  shows "continued (vs_user_uuid s) False (plain @ packet) (content @ d)"
proof -
  obtain cs where cs: "small cs" "vs_write_first_packet s = (cs = [])" "content = concat (map pc_data cs)"
      "plain = (if cs = [] then [] else vs_user_uuid s @ concat (map pad_continue cs))"
    using assms(1) by (auto simp: continued_def)
  obtain draw rng where r: "wd_rng w (wd_draws w) = (draw, rng)" by (cases "wd_rng w (wd_draws w)")
  let ?c = "\<lparr>pc_draw = draw, pc_rng = rng, pc_data = d, pc_is_tls = tls\<rparr>"
  have "packet = (if cs = [] then vs_user_uuid s @ pad_continue ?c else pad_continue ?c)"
    using assms(3) r cs(2) by (auto simp: padded_packet_def pad_with_uuid pad_continue_def COMMAND_CONTINUE_def Let_def split: if_splits)
  with cs assms(2) show ?thesis unfolding continued_def by (intro exI [of _ "cs @ [?c]"]) (auto simp: small_def)
qed

lemma padded_packet_ends:
  assumes "continued (vs_user_uuid s) (vs_write_first_packet s) plain content" "length d < 65536"
    and "padded_packet d b tls s w = (packet, s', w')" "UnpadCommand_try_from b = Inr cmd" "cmd \<noteq> UnpadContinue"
  shows "ended (vs_user_uuid s) cmd (plain @ packet) (content @ d)"
proof -
  obtain cs where cs: "small cs" "vs_write_first_packet s = (cs = [])" "content = concat (map pc_data cs)"
      "plain = (if cs = [] then [] else vs_user_uuid s @ concat (map pad_continue cs))"
    using assms(1) by (auto simp: continued_def)
  obtain draw rng where r: "wd_rng w (wd_draws w) = (draw, rng)" by (cases "wd_rng w (wd_draws w)")
  let ?c = "\<lparr>pc_draw = draw, pc_rng = rng, pc_data = d, pc_is_tls = tls\<rparr>"
  have "packet = (if cs = [] then vs_user_uuid s @ pad_with_command draw rng d b tls else pad_with_command draw rng d b tls)"
    using assms(3) r cs(2) by (auto simp: padded_packet_def pad_with_uuid Let_def split: if_splits)
  with cs assms(2,4,5) show ?thesis unfolding ended_def
    by (intro exI [of _ cs] exI [of _ ?c] exI [of _ b] exI [of _ "[]"]) (auto simp: small_def)
qed

text \<open>What a receiver finds who removes the padding.\<close>

lemma continued_unpads:
  assumes "continued uuid none_yet plain content" "length uuid = 16"
  shows "if none_yet then plain = [] \<and> content = []
    else unpad_pieces (VisionUnpadder_new uuid) [plain] = Ok (content, None)"
proof -
  obtain cs where cs: "small cs" "none_yet = (cs = [])" "content = concat (map pc_data cs)"
      "plain = (if cs = [] then [] else uuid @ concat (map pad_continue cs))"
    using assms(1) by (auto simp: continued_def)
  let ?v = "(VisionUnpadder_new uuid)\<lparr>vu_state := ReadingCommand\<rparr>"
  have "unpad_loop ?v (concat (map pad_continue cs) @ []) =
      (Ok \<lparr>ur_content = concat (map pc_data cs), ur_command = Some UnpadContinue\<rparr>,
       ?v\<lparr>vu_first_block := False, vu_accumulated := []\<rparr>)" if "cs \<noteq> []"
    using cs(1) that by (subst unpad_loop_blocks) (auto simp: small_def VisionUnpadder_new_def unpad_loop_command out_of_header_def)
  with cs assms(2) show ?thesis by (auto simp: unpad_def VisionUnpadder_new_def unpad_loop_initial)
qed

lemma ended_unpads:
  assumes "ended uuid cmd plain content" "length uuid = 16"
  shows "unpad_pieces (VisionUnpadder_new uuid) [plain] = Ok (content, Some cmd)"
proof -
  obtain cs fin b tail where e: "small (cs @ [fin])" "UnpadCommand_try_from b = Inr cmd" "cmd \<noteq> UnpadContinue"
      "content = concat (map pc_data (cs @ [fin])) @ tail"
      "plain = uuid @ concat (map pad_continue cs) @ pad_with_command (pc_draw fin) (pc_rng fin) (pc_data fin) b (pc_is_tls fin) @ tail"
    using assms(1) unfolding ended_def by blast
  let ?v = "(VisionUnpadder_new uuid)\<lparr>vu_state := ReadingCommand\<rparr>"
  have "\<exists>u. unpad_loop ?v (drop 16 plain) = (Ok \<lparr>ur_content = content, ur_command = Some cmd\<rparr>, u)"
    using e assms(2) unpad_loop_blocks [of ?v cs] unpad_loop_block [OF _ _ e(2)]
    by (auto simp: small_def VisionUnpadder_new_def)
  moreover have "unpad plain (VisionUnpadder_new uuid) = unpad_loop ?v (drop 16 plain)"
    using e(5) assms(2) by (simp add: unpad_def VisionUnpadder_new_def unpad_loop_initial)
  ultimately show ?thesis using e(3) by (cases cmd) auto
qed

section \<open>Draining keeps what was put in\<close>

lemma vision_write_tls_conveys:
  assumes "aead_ok crypto" "length iv = 12" "conveys crypto k iv seq base (vs_session s) w plain"
    and "vision_write_tls crypto s w = (r, s', w')" "\<And>e. r \<noteq> Ready (Inl e)"
  shows "conveys crypto k iv seq base (vs_session s') w' plain"
proof -
  obtain q c v where q: "write_tls_direct crypto (vs_session s) w = (q, c, v)" by (cases "write_tls_direct crypto (vs_session s) w")
  with assms(4,5) have "\<And>e. q \<noteq> Ready (Inl e)" "vs_session s' = c" "w' = v"
    by (auto simp: vision_write_tls_def split: Poll.splits sum.splits)
  with write_tls_direct_conveys [OF assms(1-3) q] show ?thesis by simp
qed

lemma drain_padding_conveys:
  assumes "aead_ok crypto" "length iv = 12"
    and "conveys crypto k iv seq base (vs_session s) w plain" "vs_pending_plain_writes s = []"
    and "drain_all_writes_padding crypto s w = (r, s', w')" "\<And>e. r \<noteq> Ready (Inl e)"
  shows "conveys crypto k iv seq base (vs_session s') w' plain \<and> vs_pending_plain_writes s' = [] \<and>
    (r \<noteq> Pending \<longrightarrow> \<not> wants_write (vs_session s'))"
  using assms(3-5)
proof (induction "length (wd_writes w)" arbitrary: s w rule: less_induct)
  case less
  obtain q t v where q: "vision_write_tls crypto s w = (q, t, v)" by (cases "vision_write_tls crypto s w")
  have pend: "vs_pending_plain_writes t = []"
    using vision_write_tls_frame [OF q] less.prems(2) by (metis VisionStream.select_convs(18) VisionStream.surjective VisionStream.update_convs(1))
  show ?case
  proof (cases "wants_write (vs_session s)")
    case False
    with less.prems show ?thesis by (auto simp: drain_all_writes_padding.simps [of crypto s w])
  next
    case True
    note eq = less.prems(3) [unfolded drain_all_writes_padding.simps [of crypto s w] q prod.case]
    show ?thesis
    proof (cases q)
      case Pending
      with eq True vision_write_tls_conveys [OF assms(1,2) less.prems(1) q] pend show ?thesis by auto
    next
      case (Ready z)
      with eq True assms(6) obtain n where n: "z = Inr n" "n \<noteq> 0" by (auto split: sum.splits if_splits)
      with Ready True eq have "drain_all_writes_padding crypto t v = (r, s', w')" by simp
      moreover have "conveys crypto k iv seq base (vs_session t) v plain"
        using vision_write_tls_conveys [OF assms(1,2) less.prems(1) q] Ready n by simp
      moreover have "length (wd_writes v) < length (wd_writes w)"
        using vision_write_tls_progress q Ready n by blast
      ultimately show ?thesis using less.hyps pend by blast
    qed
  qed
qed

lemma drain_tls_conveys:
  assumes "aead_ok crypto" "length iv = 12" "conveys crypto k iv seq base (vs_session s) w plain"
    and "drain_all_writes_tls crypto s w = (r, s', w')" "\<And>e. r \<noteq> Ready (Inl e)"
  shows "conveys crypto k iv seq base (vs_session s') w' plain \<and> s' = s\<lparr>vs_session := vs_session s'\<rparr> \<and>
    (r \<noteq> Pending \<longrightarrow> \<not> wants_write (vs_session s'))"
  using assms(3,4)
proof (induction "length (wd_writes w)" arbitrary: s w rule: less_induct)
  case less
  obtain q t v where q: "vision_write_tls crypto s w = (q, t, v)" by (cases "vision_write_tls crypto s w")
  note fr = vision_write_tls_frame [OF q]
  show ?case
  proof (cases "wants_write (vs_session s)")
    case False
    with less.prems show ?thesis by (auto simp: drain_all_writes_tls.simps [of crypto s w])
  next
    case True
    note eq = less.prems(2) [unfolded drain_all_writes_tls.simps [of crypto s w] q prod.case]
    show ?thesis
    proof (cases q)
      case Pending
      with eq True vision_write_tls_conveys [OF assms(1,2) less.prems(1) q] fr show ?thesis by auto
    next
      case (Ready z)
      with eq True assms(5) obtain n where n: "z = Inr n" "n \<noteq> 0" by (auto split: sum.splits if_splits)
      with Ready True eq have "drain_all_writes_tls crypto t v = (r, s', w')" by simp
      moreover have "conveys crypto k iv seq base (vs_session t) v plain"
        using vision_write_tls_conveys [OF assms(1,2) less.prems(1) q] Ready n by simp
      moreover have "length (wd_writes v) < length (wd_writes w)"
        using vision_write_tls_progress q Ready n by blast
      ultimately have "conveys crypto k iv seq base (vs_session s') w' plain \<and> s' = t\<lparr>vs_session := vs_session s'\<rparr> \<and>
          (r \<noteq> Pending \<longrightarrow> \<not> wants_write (vs_session s'))" using less.hyps by blast
      moreover have "t\<lparr>vs_session := vs_session s'\<rparr> = s\<lparr>vs_session := vs_session s'\<rparr>" by (subst fr) simp
      ultimately show ?thesis by simp
    qed
  qed
qed

lemma flush_tls_loop_conveys:
  assumes "aead_ok crypto" "length iv = 12" "conveys crypto k iv seq base (vs_session s) w plain"
    and "flush_tls_loop crypto s w = (Inr b, s', w')"
  shows "conveys crypto k iv seq base (vs_session s') w' plain \<and> s' = s\<lparr>vs_session := vs_session s'\<rparr>"
  using assms(3,4)
proof (induction "length (wd_writes w)" arbitrary: s w rule: less_induct)
  case less
  obtain q t v where q: "vision_write_tls crypto s w = (q, t, v)" by (cases "vision_write_tls crypto s w")
  note fr = vision_write_tls_frame [OF q] and conv = vision_write_tls_conveys [OF assms(1,2) less.prems(1) q]
  note eq = less.prems(2) [unfolded flush_tls_loop.simps [of crypto s w] q prod.case]
  show ?case
  proof (cases "wants_write (vs_session s) \<and> (\<exists>n. q = Ready (Inr n) \<and> n \<noteq> 0)")
    case False
    with eq less.prems(1) fr conv show ?thesis by (auto split: if_splits Poll.splits sum.splits)
  next
    case True
    then obtain n where n: "q = Ready (Inr n)" "n \<noteq> 0" by blast
    with True eq have "flush_tls_loop crypto t v = (Inr b, s', w')" by simp
    moreover have "length (wd_writes v) < length (wd_writes w)" using vision_write_tls_progress q n by blast
    ultimately have "conveys crypto k iv seq base (vs_session s') w' plain \<and> s' = t\<lparr>vs_session := vs_session s'\<rparr>"
      using less.hyps conv n by blast
    moreover have "t\<lparr>vs_session := vs_session s'\<rparr> = s\<lparr>vs_session := vs_session s'\<rparr>" by (subst fr) simp
    ultimately show ?thesis by simp
  qed
qed

text \<open>In TLS mode a poll takes the whole buffer; what the transport does not accept stays in the session.\<close>

lemma poll_write_tls_conveys:
  assumes "aead_ok crypto" "length iv = 12" "conveys crypto k iv seq base (vs_session s) w plain"
    and "poll_write_tls crypto buf s w = (r, s', w')" "\<And>e. r \<noteq> Ready (Inl e)"
  shows "r = Ready (Inr (length buf)) \<and> conveys crypto k iv seq base (vs_session s') w' (plain @ buf) \<and>
    s' = s\<lparr>vs_session := vs_session s'\<rparr>"
proof (cases "buf = []")
  case True
  with assms show ?thesis by (auto simp: poll_write_tls_def write_tls_loop.simps [of crypto "[]" 0 s w])
next
  case False
  let ?t = "put_plain buf s"
  obtain q t v where q: "flush_tls_loop crypto ?t w = (q, t, v)" by (cases "flush_tls_loop crypto ?t w")
  note eq = assms(4) [unfolded poll_write_tls_def write_tls_loop.simps [of crypto buf 0 s w]]
  from eq False q assms(5) obtain b where b: "q = Inr b" by (cases q) (auto simp: writer_write_def)
  have put: "conveys crypto k iv seq base (vs_session ?t) w (plain @ buf)" using conveys_put [OF assms(3)] by simp
  have fl: "conveys crypto k iv seq base (vs_session t) v (plain @ buf)" "t = ?t\<lparr>vs_session := vs_session t\<rparr>"
    using flush_tls_loop_conveys [OF assms(1,2) put q [unfolded b]] by auto
  from eq False q b have "r = Ready (Inr (length buf)) \<and> s' = t \<and> w' = v"
    by (cases b) (auto simp: writer_write_def write_tls_loop.simps [of crypto buf "length buf"])
  with fl show ?thesis by (metis VisionStream.surjective VisionStream.update_convs(1))
qed

lemma send_padded_conveys:
  assumes "aead_ok crypto" "length iv = 12"
    and "conveys crypto k iv seq base (vs_session s) w plain" "vs_pending_plain_writes s = []"
    and "send_padded crypto d b tls s w = (r, s', w')" "\<And>e. r \<noteq> Ready (Inl e)"
  obtains packet s1 w1 where "padded_packet d b tls s w = (packet, s1, w1)"
    "conveys crypto k iv seq base (vs_session s') w' (plain @ packet)" "vs_pending_plain_writes s' = []"
    "same_but_output (s\<lparr>vs_write_first_packet := False\<rparr>) s'"
proof -
  obtain packet s1 w1 where p: "padded_packet d b tls s w = (packet, s1, w1)" by (cases "padded_packet d b tls s w")
  have s1: "s1 = s\<lparr>vs_write_first_packet := False\<rparr>" by (rule padded_packet_stream [OF p])
  have w1: "wd_sent w1 = wd_sent w" using p by (auto simp: padded_packet_def Let_def split: prod.splits if_splits)
  have "conveys crypto k iv seq base (vs_session (put_plain packet s1)) w1 (plain @ packet)"
    using conveys_put [OF assms(3), of packet] s1 w1 by (simp add: conveys_def)
  moreover have "drain_all_writes_padding crypto (put_plain packet s1) w1 = (r, s', w')"
    using assms(4,5) p s1 by (simp add: send_padded_def write_to_session_all)
  ultimately have "conveys crypto k iv seq base (vs_session s') w' (plain @ packet)" "vs_pending_plain_writes s' = []"
    using drain_padding_conveys [OF assms(1,2), where s = "put_plain packet s1"] assms(4,6) s1 by simp_all
  with p send_padded_frame [OF assms(5)] that show thesis by blast
qed

section \<open>The invariant of the writer\<close>

text \<open>
  \<open>accepted\<close> is what the writer reported as written. While padding, it is the content of the blocks and what
  the deframer still holds; once a final command was sent, it is the content up to it and what followed.
\<close>

definition padding_inv :: "bytes \<Rightarrow> bytes \<Rightarrow> VisionStream \<Rightarrow> bytes \<Rightarrow> bool" where
  "padding_inv uuid accepted s plain \<longleftrightarrow>
     fuzzy_ok (vs_inner_write_deframer s) \<and> vs_pending_plain_writes s = [] \<and>
     (if vs_pending_direct_switch s then ended uuid UnpadDirect plain accepted
      else if vs_pending_tls_switch s then ended uuid UnpadEnd plain accepted
      else length (fuzzy_remaining_data (vs_inner_write_deframer s)) \<le> MAX_PENDING \<and>
        (\<exists>content. continued uuid (vs_write_first_packet s) plain content \<and>
           content @ fuzzy_remaining_data (vs_inner_write_deframer s) = accepted))"

definition writer_inv ::
    "Crypto \<Rightarrow> AeadKey \<Rightarrow> bytes \<Rightarrow> u64 \<Rightarrow> bytes \<Rightarrow> bytes \<Rightarrow> bytes \<Rightarrow> VisionStream \<Rightarrow> World \<Rightarrow> bool" where
  "writer_inv crypto k iv seq base uuid accepted s w \<longleftrightarrow>
     vs_user_uuid s = uuid \<and> \<not> vs_response_to_send s \<and>
     (\<exists>plain sent raw. wd_sent w = sent @ raw \<and> conveys crypto k iv seq base (vs_session s) (w\<lparr>wd_sent := sent\<rparr>) plain \<and>
        (case vs_write_mode s of
           PaddingTls \<Rightarrow> raw = [] \<and> padding_inv uuid accepted s plain
         | TlsMode \<Rightarrow> raw = [] \<and> ended uuid UnpadEnd plain accepted
         | DirectMode \<Rightarrow> \<not> wants_write (vs_session s) \<and>
             (\<exists>content. ended uuid UnpadDirect plain content \<and> content @ raw = accepted)))"

lemma usize_sub_le:
  assumes "usize_sub p e \<le> n" "e + n < 65536"
  shows "e \<le> p \<and> usize_sub p e = p - e"
  using assms by (auto simp: usize_sub_def split: if_splits)

text \<open>A last block: what was reported is the content, and the deframer is empty again.\<close>

lemma report_ready: "report n out = (r, s', w') \<Longrightarrow> (\<And>e. r \<noteq> Ready (Inl e)) \<Longrightarrow> r = Ready (Inr n)"
  by (auto simp: report_def split: prod.splits Poll.splits sum.splits)

lemma report_final_inv:
  assumes "aead_ok crypto" "length iv = 12"
    and "conveys crypto k iv seq base (vs_session s) w plain" "vs_pending_plain_writes s = []"
    and "continued (vs_user_uuid s) (vs_write_first_packet s) plain content" "length d < 65536"
    and "report n (send_padded crypto d b tls s w) = (r, s', w')" "\<And>e. r \<noteq> Ready (Inl e)"
    and "UnpadCommand_try_from b = Inr cmd" "cmd \<noteq> UnpadContinue"
    and "vs_write_mode s = PaddingTls" "\<not> vs_response_to_send s"
    and "vs_pending_direct_switch s = (cmd = UnpadDirect)" "vs_pending_tls_switch s = (cmd = UnpadEnd)"
  shows "writer_inv crypto k iv seq base (vs_user_uuid s) (content @ d) s' w'"
proof -
  obtain q t v where q: "send_padded crypto d b tls s w = (q, t, v)" by (cases "send_padded crypto d b tls s w")
  with assms(7,8) have ok: "\<And>e. q \<noteq> Ready (Inl e)" and out: "s' = clear_inner_write t" "w' = v"
    by (auto simp: report_def split: Poll.splits sum.splits)
  obtain packet s1 w1 where p: "padded_packet d b tls s w = (packet, s1, w1)"
      "conveys crypto k iv seq base (vs_session t) v (plain @ packet)" "vs_pending_plain_writes t = []"
      "same_but_output (s\<lparr>vs_write_first_packet := False\<rparr>) t"
    using send_padded_conveys [OF assms(1-4) q ok] by blast
  have "ended (vs_user_uuid s) cmd (plain @ packet) (content @ d)"
    by (rule padded_packet_ends [OF assms(5,6) p(1) assms(9,10)])
  then have "padding_inv (vs_user_uuid s) (content @ d) s' (plain @ packet)"
    using p(3,4) out assms(10,13,14) by (cases cmd) (auto simp: padding_inv_def clear_inner_write_def same_but_output_def)
  moreover have "vs_user_uuid s' = vs_user_uuid s" "\<not> vs_response_to_send s'" "vs_write_mode s' = PaddingTls"
      "conveys crypto k iv seq base (vs_session s') (w'\<lparr>wd_sent := wd_sent w'\<rparr>) (plain @ packet)"
    using p out assms(11,12) by (simp_all add: clear_inner_write_def same_but_output_def)
  ultimately show ?thesis unfolding writer_inv_def by (intro conjI exI [of _ "plain @ packet"] exI [of _ "wd_sent w'"] exI [of _ "[]"]) simp_all
qed

text \<open>A block that continues.\<close>

lemma send_continues:
  assumes "aead_ok crypto" "length iv = 12"
    and "conveys crypto k iv seq base (vs_session s) w plain" "vs_pending_plain_writes s = []"
    and "continued (vs_user_uuid s) (vs_write_first_packet s) plain content" "length d < 65536"
    and "send_padded crypto d COMMAND_CONTINUE tls s w = (r, s', w')" "\<And>e. r \<noteq> Ready (Inl e)"
  obtains plain' where "conveys crypto k iv seq base (vs_session s') w' plain'" "vs_pending_plain_writes s' = []"
    "continued (vs_user_uuid s') (vs_write_first_packet s') plain' (content @ d)"
    "vs_write_mode s' = vs_write_mode s" "vs_user_uuid s' = vs_user_uuid s"
    "vs_pending_direct_switch s' = vs_pending_direct_switch s" "vs_pending_tls_switch s' = vs_pending_tls_switch s"
    "vs_response_to_send s' = vs_response_to_send s" "vs_inner_write_deframer s' = vs_inner_write_deframer s"
proof -
  obtain packet s1 w1 where p: "padded_packet d COMMAND_CONTINUE tls s w = (packet, s1, w1)"
      "conveys crypto k iv seq base (vs_session s') w' (plain @ packet)" "vs_pending_plain_writes s' = []"
      "same_but_output (s\<lparr>vs_write_first_packet := False\<rparr>) s'"
    using send_padded_conveys [OF assms(1-4,7,8)] by blast
  with padded_packet_continues [OF assms(5,6) p(1)] show thesis
    by (intro that [of "plain @ packet"]) (simp_all add: same_but_output_def)
qed

lemma writer_inv_continued:
  assumes "conveys crypto k iv seq base (vs_session s) w plain" "vs_pending_plain_writes s = []"
    and "continued (vs_user_uuid s) (vs_write_first_packet s) plain content"
    and "vs_write_mode s = PaddingTls" "\<not> vs_pending_direct_switch s" "\<not> vs_pending_tls_switch s" "\<not> vs_response_to_send s"
    and "fuzzy_ok (vs_inner_write_deframer s)" "length (fuzzy_remaining_data (vs_inner_write_deframer s)) \<le> MAX_PENDING"
  shows "writer_inv crypto k iv seq base (vs_user_uuid s) (content @ fuzzy_remaining_data (vs_inner_write_deframer s)) s w"
  unfolding writer_inv_def
  by (intro conjI exI [of _ plain] exI [of _ "wd_sent w"] exI [of _ "[]"]) (use assms in \<open>auto simp: padding_inv_def\<close>)

text \<open>
  The state at the head of the padding loop: \<open>content\<close> is what the blocks hold so far, \<open>processed\<close> bytes of it
  came from this call, and \<open>existing\<close> bytes were in the deframer before.
\<close>

definition loop_inv ::
    "Crypto \<Rightarrow> AeadKey \<Rightarrow> bytes \<Rightarrow> u64 \<Rightarrow> bytes \<Rightarrow> bytes \<Rightarrow> bytes \<Rightarrow> nat \<Rightarrow> nat \<Rightarrow> bytes \<Rightarrow> bytes \<Rightarrow> VisionStream \<Rightarrow> World \<Rightarrow> bool" where
  "loop_inv crypto k iv seq base accepted buf existing processed content plain s w \<longleftrightarrow>
     vs_write_mode s = PaddingTls \<and> \<not> vs_pending_direct_switch s \<and> \<not> vs_pending_tls_switch s \<and>
     vs_pending_plain_writes s = [] \<and> \<not> vs_response_to_send s \<and> fuzzy_ok (vs_inner_write_deframer s) \<and>
     conveys crypto k iv seq base (vs_session s) w plain \<and>
     continued (vs_user_uuid s) (vs_write_first_packet s) plain content \<and>
     content @ fuzzy_remaining_data (vs_inner_write_deframer s) = accepted @ buf \<and>
     length content + existing = length accepted + processed \<and> existing + length buf < 65536"

lemma loop_inv_next:
  assumes "loop_inv crypto k iv seq base accepted buf existing processed content plain s w"
    and "fuzzy_next_record finder (vs_inner_write_deframer s) = (q, f)"
  shows "fuzzy_ok f" "content @ taken_out q @ fuzzy_remaining_data f = accepted @ buf"
    "length (taken_out q) + length (fuzzy_remaining_data f) < 65536"
    "q = Inr NeedData \<Longrightarrow> length (fuzzy_remaining_data f) \<le> MAX_PENDING"
proof -
  have "fuzzy_ok (vs_inner_write_deframer s)" using assms(1) by (simp add: loop_inv_def)
  note cons = fuzzy_next_record_conserves [OF assms(2) this]
  then show "fuzzy_ok f" "q = Inr NeedData \<Longrightarrow> length (fuzzy_remaining_data f) \<le> MAX_PENDING" by auto
  show parts: "content @ taken_out q @ fuzzy_remaining_data f = accepted @ buf"
    using assms(1) cons(2) by (simp add: loop_inv_def)
  show "length (taken_out q) + length (fuzzy_remaining_data f) < 65536"
    using arg_cong [OF parts, of length] assms(1) by (simp add: loop_inv_def)
qed

text \<open>A length that the caller can accept says exactly how much of its buffer is in the blocks.\<close>

lemma loop_inv_exact:
  assumes "loop_inv crypto k iv seq base accepted buf existing processed content plain s w"
    and "fuzzy_next_record finder (vs_inner_write_deframer s) = (q, f)"
    and "usize_sub (processed + length (taken_out q)) existing \<le> length buf"
  shows "content @ taken_out q = accepted @ take (usize_sub (processed + length (taken_out q)) existing) buf"
proof -
  let ?p = "processed + length (taken_out q)"
  have inv: "length content + existing = length accepted + processed" "existing + length buf < 65536"
    using assms(1) by (simp_all add: loop_inv_def)
  have "existing \<le> ?p \<and> usize_sub ?p existing = ?p - existing" using usize_sub_le [OF assms(3) inv(2)] .
  then have "length content + length (taken_out q) = length accepted + usize_sub ?p existing" using inv(1) by simp
  with arg_cong [OF loop_inv_next(2) [OF assms(1,2)], of "take (length content + length (taken_out q))"] show ?thesis by simp
qed

text \<open>The two ways a round ends: with a final block, or with one that continues.\<close>

lemma loop_inv_final:
  assumes "aead_ok crypto" "length iv = 12"
    and inv: "loop_inv crypto k iv seq base accepted buf existing processed content plain s w"
    and q: "fuzzy_next_record finder (vs_inner_write_deframer s) = (q, f)"
    and "report (usize_sub (processed + length (taken_out q)) existing) (send_padded crypto (taken_out q) b tls t w) = (r, s', w')"
    and "\<And>e. r \<noteq> Ready (Inl e)" "\<And>n. r = Ready (Inr n) \<Longrightarrow> n \<le> length buf"
    and "UnpadCommand_try_from b = Inr cmd" "cmd \<noteq> UnpadContinue"
    and "vs_pending_direct_switch t = (cmd = UnpadDirect)" "vs_pending_tls_switch t = (cmd = UnpadEnd)"
    and "vs_session t = vs_session s" "vs_pending_plain_writes t = []" "vs_user_uuid t = vs_user_uuid s"
    and "vs_write_first_packet t = vs_write_first_packet s" "vs_write_mode t = PaddingTls" "\<not> vs_response_to_send t"
  shows "\<exists>n. r = Ready (Inr n) \<and> writer_inv crypto k iv seq base (vs_user_uuid s) (accepted @ take n buf) s' w'"
proof -
  have r: "r = Ready (Inr (usize_sub (processed + length (taken_out q)) existing))" by (rule report_ready [OF assms(5,6)])
  have "conveys crypto k iv seq base (vs_session t) w plain" "continued (vs_user_uuid t) (vs_write_first_packet t) plain content"
    using inv assms(12-15) by (simp_all add: loop_inv_def)
  moreover have "length (taken_out q) < 65536" using loop_inv_next(3) [OF inv q] by simp
  ultimately have "writer_inv crypto k iv seq base (vs_user_uuid t) (content @ taken_out q) s' w'"
    using report_final_inv [OF assms(1,2) _ assms(13) _ _ assms(5,6,8,9,16,17,10,11)] by blast
  with loop_inv_exact [OF inv q] assms(7) [OF r] r assms(14) show ?thesis by simp
qed

lemma loop_inv_continue:
  assumes "aead_ok crypto" "length iv = 12"
    and inv: "loop_inv crypto k iv seq base accepted buf existing processed content plain s w"
    and q: "fuzzy_next_record finder (vs_inner_write_deframer s) = (q, f)"
    and "send_padded crypto (taken_out q) COMMAND_CONTINUE tls (s\<lparr>vs_inner_write_deframer := f, vs_filter := fl\<rparr>) w = (x, t, v)"
    and "\<And>e. x \<noteq> Ready (Inl e)"
  obtains plain' where
    "loop_inv crypto k iv seq base accepted buf existing (processed + length (taken_out q)) (content @ taken_out q) plain' t v"
    "vs_inner_write_deframer t = f" "vs_user_uuid t = vs_user_uuid s"
proof (rule send_continues [OF assms(1,2) _ _ _ _ assms(5,6), where plain = plain and content = content])
  show "length (taken_out q) < 65536" using loop_inv_next(3) [OF inv q] by simp
qed (use inv loop_inv_next(1,2) [OF inv q] in \<open>auto simp: loop_inv_def intro!: that\<close>)

lemma loop_inv_cleared:
  assumes "loop_inv crypto k iv seq base accepted buf existing processed content plain s w"
  shows "writer_inv crypto k iv seq base (vs_user_uuid s) content (clear_inner_write s) w"
proof -
  let ?t = "clear_inner_write s"
  have "writer_inv crypto k iv seq base (vs_user_uuid ?t) (content @ fuzzy_remaining_data (vs_inner_write_deframer ?t)) ?t w"
    by (rule writer_inv_continued [where plain = plain]) (use assms in \<open>simp_all add: clear_inner_write_def loop_inv_def\<close>)
  then show ?thesis by (simp add: clear_inner_write_def)
qed

lemma loop_inv_record:
  assumes "aead_ok crypto" "length iv = 12"
    and inv: "loop_inv crypto k iv seq base accepted buf existing processed content plain s w"
    and q: "fuzzy_next_record finder (vs_inner_write_deframer s) = (Inr (TlsRecord rec), f)"
    and eq: "write_padding_loop crypto finder buf existing processed s w = (r, s', w')"
    and ok: "\<And>e. r \<noteq> Ready (Inl e)" "\<And>n. r = Ready (Inr n) \<Longrightarrow> n \<le> length buf"
    and again: "\<And>t v content' plain'. vs_inner_write_deframer t = f \<Longrightarrow> vs_user_uuid t = vs_user_uuid s \<Longrightarrow>
      loop_inv crypto k iv seq base accepted buf existing (processed + length rec) content' plain' t v \<Longrightarrow>
      write_padding_loop crypto finder buf existing (processed + length rec) t v = (r, s', w') \<Longrightarrow>
      \<exists>n. r = Ready (Inr n) \<and> writer_inv crypto k iv seq base (vs_user_uuid s) (accepted @ take n buf) s' w'"
  shows "\<exists>n. r = Ready (Inr n) \<and> writer_inv crypto k iv seq base (vs_user_uuid s) (accepted @ take n buf) s' w'"
proof -
  define fl where "fl = filter_record rec (vs_filter s)"
  define t where "t = s\<lparr>vs_inner_write_deframer := f, vs_filter := fl\<rparr>"
  define app where "app = (vf_is_tls fl \<and> 3 \<le> length rec \<and> rec ! 0 = 0x17 \<and> rec ! 1 = 0x03)"
  define over where "over = (\<not> app \<and> \<not> is_filtering fl \<and> \<not> vf_is_tls12_or_above fl)"
  note eq' = eq [unfolded write_padding_loop.simps [of crypto finder buf existing processed s w] q prod.case sum.case
      DeframeResult.case Let_def, folded fl_def, folded t_def, folded app_def, folded over_def]
  note final = loop_inv_final [OF assms(1,2) inv q _ ok] and st = inv [unfolded loop_inv_def]
  show ?thesis
  proof (cases "app \<or> over")
    case True
    have before: "existing < processed + length rec"
    proof (rule ccontr)
      assume "\<not> ?thesis"
      with True eq' ok(1) [of VisionPanic] show False by (auto simp: send_final_def report_def split: if_splits prod.splits)
    qed
    show ?thesis
    proof (cases "vf_supports_xtls fl")
      case x: True
      show ?thesis
        by (rule final [where t = "t\<lparr>vs_pending_direct_switch := True\<rparr>" and b = COMMAND_DIRECT and tls = True and cmd = UnpadDirect])
          (use eq' True x before st in \<open>simp_all add: send_final_def t_def COMMAND_DIRECT_def UnpadCommand_try_from_def\<close>)
    next
      case x: False
      show ?thesis
        by (rule final [where t = "t\<lparr>vs_pending_tls_switch := True\<rparr>" and b = COMMAND_END and tls = True and cmd = UnpadEnd])
          (use eq' True x before st in \<open>simp_all add: send_final_def t_def COMMAND_END_def UnpadCommand_try_from_def\<close>)
    qed
  next
    case False
    obtain x u v where x: "send_padded crypto rec COMMAND_CONTINUE (vf_is_tls fl) t w = (x, u, v)"
      by (cases "send_padded crypto rec COMMAND_CONTINUE (vf_is_tls fl) t w")
    with eq' False have xok: "x \<noteq> Ready (Inl e)" for e using ok(1) [of e] by auto
    obtain plain' where u: "loop_inv crypto k iv seq base accepted buf existing (processed + length rec) (content @ rec) plain' u v"
        "vs_inner_write_deframer u = f" "vs_user_uuid u = vs_user_uuid s"
      using loop_inv_continue [OF assms(1,2) inv q _ xok, of "vf_is_tls fl" fl u v] x by (auto simp: t_def)
    show ?thesis
    proof (cases x)
      case (Ready z)
      with xok eq' False x have "write_padding_loop crypto finder buf existing (processed + length rec) u v = (r, s', w')"
        by (cases z) auto
      with again [OF u(2,3,1)] show ?thesis by simp
    next
      case Pending
      with eq' False x ok(1) [of VisionPanic] have "r = Ready (Inr (usize_sub (processed + length rec) existing))" "s' = clear_inner_write u" "w' = v"
        by (auto split: if_splits)
      with loop_inv_cleared [OF u(1)] loop_inv_exact [OF inv q] ok(2) u(3) show ?thesis by auto
    qed
  qed
qed

lemma loop_inv_prefix:
  assumes "aead_ok crypto" "length iv = 12"
    and inv: "loop_inv crypto k iv seq base accepted buf existing processed content plain s w"
    and q: "fuzzy_next_record finder (vs_inner_write_deframer s) = (Inr (UnknownPrefix pre), f)"
    and eq: "write_padding_loop crypto finder buf existing processed s w = (r, s', w')"
    and ok: "\<And>e. r \<noteq> Ready (Inl e)" "\<And>n. r = Ready (Inr n) \<Longrightarrow> n \<le> length buf"
    and again: "\<And>t v content' plain'. vs_inner_write_deframer t = f \<Longrightarrow> vs_user_uuid t = vs_user_uuid s \<Longrightarrow>
      loop_inv crypto k iv seq base accepted buf existing (processed + length pre) content' plain' t v \<Longrightarrow>
      write_padding_loop crypto finder buf existing (processed + length pre) t v = (r, s', w') \<Longrightarrow>
      \<exists>n. r = Ready (Inr n) \<and> writer_inv crypto k iv seq base (vs_user_uuid s) (accepted @ take n buf) s' w'"
  shows "\<exists>n. r = Ready (Inr n) \<and> writer_inv crypto k iv seq base (vs_user_uuid s) (accepted @ take n buf) s' w'"
proof -
  define fl where "fl = decrement_filter_count (vs_filter s)"
  define t where "t = s\<lparr>vs_inner_write_deframer := f, vs_filter := fl\<rparr>"
  note eq' = eq [unfolded write_padding_loop.simps [of crypto finder buf existing processed s w] q prod.case sum.case
      DeframeResult.case Let_def, folded fl_def, folded t_def]
  show ?thesis
  proof (cases "is_filtering fl")
    case True
    obtain x u v where x: "send_padded crypto pre COMMAND_CONTINUE (vf_is_tls fl) t w = (x, u, v)"
      by (cases "send_padded crypto pre COMMAND_CONTINUE (vf_is_tls fl) t w")
    with eq' True have xok: "x \<noteq> Ready (Inl e)" for e using ok(1) [of e] by auto
    obtain plain' where u: "loop_inv crypto k iv seq base accepted buf existing (processed + length pre) (content @ pre) plain' u v"
        "vs_inner_write_deframer u = f" "vs_user_uuid u = vs_user_uuid s"
      using loop_inv_continue [OF assms(1,2) inv q _ xok, of "vf_is_tls fl" fl u v] x by (auto simp: t_def)
    from eq' True x xok have "write_padding_loop crypto finder buf existing (processed + length pre) u v = (r, s', w')"
      by (auto split: Poll.splits sum.splits)
    with again [OF u(2,3,1)] show ?thesis by simp
  next
    case False
    show ?thesis
      by (rule loop_inv_final [OF assms(1,2) inv q _ ok, where t = "clear_inner_write (t\<lparr>vs_pending_tls_switch := True\<rparr>)"
            and b = COMMAND_END and tls = "vf_is_tls fl" and cmd = UnpadEnd])
        (use eq' False inv [unfolded loop_inv_def] in
          \<open>simp_all add: clear_inner_write_def t_def COMMAND_END_def UnpadCommand_try_from_def\<close>)
  qed
qed

lemma loop_inv_failed:
  assumes "aead_ok crypto" "length iv = 12"
    and inv: "loop_inv crypto k iv seq base accepted buf existing processed content plain s w"
    and q: "fuzzy_next_record finder (vs_inner_write_deframer s) = (Inl e, f)"
    and eq: "write_padding_loop crypto finder buf existing processed s w = (r, s', w')" and ok: "\<And>e. r \<noteq> Ready (Inl e)"
  shows "\<exists>n. r = Ready (Inr n) \<and> writer_inv crypto k iv seq base (vs_user_uuid s) (accepted @ take n buf) s' w'"
proof -
  let ?t = "s\<lparr>vs_inner_write_deframer := f, vs_pending_tls_switch := True, vs_filter := stop_filtering (vs_filter s)\<rparr>"
  note nx = loop_inv_next [OF inv q]
  have rep: "report (length buf) (send_padded crypto (fuzzy_remaining_data f) COMMAND_END (vf_is_tls (vs_filter ?t)) ?t w) = (r, s', w')"
    using eq q by (simp add: write_padding_loop.simps [of crypto finder buf existing processed s w] Let_def)
  have "writer_inv crypto k iv seq base (vs_user_uuid ?t) (content @ fuzzy_remaining_data f) s' w'"
    by (rule report_final_inv [OF assms(1,2) _ _ _ _ rep ok, where plain = plain and cmd = UnpadEnd])
      (use inv [unfolded loop_inv_def] nx(3) in \<open>simp_all add: COMMAND_END_def UnpadCommand_try_from_def\<close>)
  with report_ready [OF rep ok] nx(2) show ?thesis by auto
qed

lemma write_padding_loop_inv:
  assumes "aead_ok crypto" "length iv = 12"
    and "loop_inv crypto k iv seq base accepted buf existing processed content plain s w"
    and "write_padding_loop crypto finder buf existing processed s w = (r, s', w')"
    and ok: "\<And>e. r \<noteq> Ready (Inl e)" "\<And>n. r = Ready (Inr n) \<Longrightarrow> n \<le> length buf"
  shows "\<exists>n. r = Ready (Inr n) \<and> writer_inv crypto k iv seq base (vs_user_uuid s) (accepted @ take n buf) s' w'"
  using assms(3,4)
proof (induction "buffered (vs_inner_write_deframer s)" arbitrary: s w plain content processed rule: less_induct)
  case less
  obtain q f where q: "fuzzy_next_record finder (vs_inner_write_deframer s) = (q, f)"
    by (cases "fuzzy_next_record finder (vs_inner_write_deframer s)")
  have again: "\<exists>n. r = Ready (Inr n) \<and> writer_inv crypto k iv seq base (vs_user_uuid s) (accepted @ take n buf) s' w'"
    if "q = Inr out" "out \<noteq> NeedData" "vs_inner_write_deframer t = f" "vs_user_uuid t = vs_user_uuid s"
      "loop_inv crypto k iv seq base accepted buf existing p content' plain' t v"
      "write_padding_loop crypto finder buf existing p t v = (r, s', w')" for out t p content' plain' v
    using less.hyps [OF _ that(5,6)] that(1-4) fuzzy_next_record_shrinks [of finder "vs_inner_write_deframer s" out f] q by simp
  show ?case
  proof (cases q)
    case (Inl e)
    with loop_inv_failed [OF assms(1,2) less.prems(1) _ less.prems(2) ok(1)] q show ?thesis by blast
  next
    case (Inr out)
    show ?thesis
    proof (cases out)
      case (TlsRecord rec)
      with q Inr have q': "fuzzy_next_record finder (vs_inner_write_deframer s) = (Inr (TlsRecord rec), f)" by simp
      show ?thesis
        by (rule loop_inv_record [OF assms(1,2) less.prems(1) q' less.prems(2) ok], assumption, rule again [OF Inr]) (simp_all add: TlsRecord)
    next
      case (UnknownPrefix pre)
      with q Inr have q': "fuzzy_next_record finder (vs_inner_write_deframer s) = (Inr (UnknownPrefix pre), f)" by simp
      show ?thesis
        by (rule loop_inv_prefix [OF assms(1,2) less.prems(1) q' less.prems(2) ok], assumption, rule again [OF Inr]) (simp_all add: UnknownPrefix)
    next
      case NeedData
      let ?t = "s\<lparr>vs_inner_write_deframer := f\<rparr>"
      note nx = loop_inv_next [OF less.prems(1) q]
      from Inr NeedData less.prems(2) q have "r = Ready (Inr (length buf))" "s' = ?t" "w' = w"
        by (auto simp: write_padding_loop.simps [of crypto finder buf existing processed s w])
      moreover have "writer_inv crypto k iv seq base (vs_user_uuid ?t) (content @ fuzzy_remaining_data (vs_inner_write_deframer ?t)) ?t w"
        by (rule writer_inv_continued [where plain = plain])
          (use less.prems(1) [unfolded loop_inv_def] nx(1,4) Inr NeedData in simp_all)
      ultimately show ?thesis using nx(2) Inr NeedData by simp
    qed
  qed
qed

end
