(* ===== verification/Vision_Runs.thy ===== *)
theory Vision_Runs
  imports Vision_Delivery
begin

text \<open>
  Sequences of polls of a Vision stream: the invariant of the writer holds after every poll, and with it
  what the accepted bytes became.
\<close>

section \<open>Every poll keeps the invariant\<close>

lemma conveys_sent: "wd_sent v = wd_sent w \<Longrightarrow> conveys crypto k iv seq base c v plain = conveys crypto k iv seq base c w plain"
  by (simp add: conveys_def)

lemma padding_stateE:
  assumes "writer_inv crypto k iv seq base uuid accepted s w" "vs_write_mode s = PaddingTls"
  obtains plain where "conveys crypto k iv seq base (vs_session s) w plain" "padding_inv uuid accepted s plain"
    "vs_user_uuid s = uuid" "\<not> vs_response_to_send s" "vs_pending_plain_writes s = []"
  using assms by (auto simp: writer_inv_def padding_inv_def)

lemma padding_stateI:
  assumes "conveys crypto k iv seq base (vs_session s) w plain" "padding_inv uuid accepted s plain"
    and "vs_user_uuid s = uuid" "\<not> vs_response_to_send s" "vs_write_mode s = PaddingTls"
  shows "writer_inv crypto k iv seq base uuid accepted s w"
  unfolding writer_inv_def
  by (intro conjI exI [of _ plain] exI [of _ "wd_sent w"] exI [of _ "[]"]) (use assms in simp_all)

lemma tls_stateI:
  assumes "conveys crypto k iv seq base (vs_session s) w plain" "ended uuid UnpadEnd plain accepted"
    and "vs_user_uuid s = uuid" "\<not> vs_response_to_send s" "vs_write_mode s = TlsMode"
  shows "writer_inv crypto k iv seq base uuid accepted s w"
  unfolding writer_inv_def
  by (intro conjI exI [of _ plain] exI [of _ "wd_sent w"] exI [of _ "[]"]) (use assms in simp_all)

lemma direct_stateI:
  assumes "conveys crypto k iv seq base (vs_session s) w plain" "ended uuid UnpadDirect plain accepted"
    and "vs_user_uuid s = uuid" "\<not> vs_response_to_send s" "vs_write_mode s = DirectMode" "\<not> wants_write (vs_session s)"
  shows "writer_inv crypto k iv seq base uuid accepted s w"
  unfolding writer_inv_def
  by (intro conjI exI [of _ plain] exI [of _ "wd_sent w"] exI [of _ "[]"]) (use assms in simp_all)

text \<open>Draining the session in padding mode.\<close>

lemma drain_padding_inv:
  assumes "aead_ok crypto" "length iv = 12"
    and "writer_inv crypto k iv seq base uuid accepted s w" "vs_write_mode s = PaddingTls"
    and "drain_all_writes_padding crypto s w = (r, s', w')" "\<And>e. r \<noteq> Ready (Inl e)"
  shows "writer_inv crypto k iv seq base uuid accepted s' w'" "vs_write_mode s' = PaddingTls"
    "r \<noteq> Pending \<Longrightarrow> \<not> wants_write (vs_session s')"
proof -
  obtain plain where p: "conveys crypto k iv seq base (vs_session s) w plain" "padding_inv uuid accepted s plain"
      "vs_user_uuid s = uuid" "\<not> vs_response_to_send s" "vs_pending_plain_writes s = []"
    using padding_stateE [OF assms(3,4)] by blast
  note d = drain_padding_conveys [OF assms(1,2) p(1,5) assms(5,6)] and fr = drain_padding_frame [OF assms(5)]
  then show "vs_write_mode s' = PaddingTls" "r \<noteq> Pending \<Longrightarrow> \<not> wants_write (vs_session s')"
    using assms(4) by (auto simp: same_but_output_def)
  show "writer_inv crypto k iv seq base uuid accepted s' w'"
    by (rule padding_stateI [of _ _ _ _ _ _ _ plain])
      (use d fr p assms(4) in \<open>auto simp: same_but_output_def padding_inv_def\<close>)
qed

lemma direct_write_inv:
  assumes "writer_inv crypto k iv seq base uuid accepted s w" "vs_write_mode s = DirectMode"
    and "direct_write buf s w = (r, s', w')"
  shows "s' = s \<and> (case r of Ready (Inr n) \<Rightarrow> n \<le> length buf \<and> writer_inv crypto k iv seq base uuid (accepted @ take n buf) s' w'
     | _ \<Rightarrow> writer_inv crypto k iv seq base uuid accepted s' w')"
proof -
  obtain plain sent raw content where i: "wd_sent w = sent @ raw" "conveys crypto k iv seq base (vs_session s) (w\<lparr>wd_sent := sent\<rparr>) plain"
      "\<not> wants_write (vs_session s)" "ended uuid UnpadDirect plain content" "content @ raw = accepted"
      "vs_user_uuid s = uuid" "\<not> vs_response_to_send s"
    using assms(1,2) by (auto simp: writer_inv_def)
  have ext: "writer_inv crypto k iv seq base uuid (accepted @ x) s v" if "wd_sent v = wd_sent w @ x" for v x
    unfolding writer_inv_def
    by (intro conjI exI [of _ plain] exI [of _ sent] exI [of _ "raw @ x"])
      (use i assms(2) that in \<open>auto simp: conveys_def\<close>)
  have tcp: "case r of Ready (Inr n) \<Rightarrow> n \<le> length buf \<and> wd_sent w' = wd_sent w @ take n buf | _ \<Rightarrow> wd_sent w' = wd_sent w" "s' = s"
    using assms(3) by (auto simp: direct_write_def tcp_poll_write_def Let_def split: list.splits Poll.splits sum.splits)
  with ext [of w' "[]"] ext show ?thesis by (auto split: Poll.splits sum.splits)
qed

text \<open>A poll of the writer that does not fail and reports no more than it was given.\<close>

definition poll_ok :: "bytes \<Rightarrow> (VisionError + nat) Poll \<Rightarrow> bool" where
  "poll_ok buf r \<longleftrightarrow> (case r of Pending \<Rightarrow> True | Ready (Inl _) \<Rightarrow> False | Ready (Inr n) \<Rightarrow> n \<le> length buf)"

fun written_by :: "bytes \<Rightarrow> (VisionError + nat) Poll \<Rightarrow> bytes" where
  "written_by buf (Ready (Inr n)) = take n buf"
| "written_by buf _ = []"

lemma poll_okD: "poll_ok buf r \<Longrightarrow> r \<noteq> Ready (Inl e)" "poll_ok buf (Ready (Inr n)) \<Longrightarrow> n \<le> length buf"
  by (auto simp: poll_ok_def)

lemma poll_write_tls_inv:
  assumes "aead_ok crypto" "length iv = 12" "conveys crypto k iv seq base (vs_session s) w plain"
    and "ended uuid UnpadEnd plain accepted" "vs_user_uuid s = uuid" "\<not> vs_response_to_send s" "vs_write_mode s = TlsMode"
    and "poll_write_tls crypto buf s w = (r, s', w')" "poll_ok buf r"
  shows "writer_inv crypto k iv seq base uuid (accepted @ written_by buf r) s' w'"
proof -
  note p = poll_write_tls_conveys [OF assms(1-3,8) poll_okD(1) [OF assms(9)]]
  then have f: "vs_user_uuid s' = uuid" "\<not> vs_response_to_send s'" "vs_write_mode s' = TlsMode"
    using assms(5-7) by (metis VisionStream.select_convs VisionStream.surjective VisionStream.update_convs(1))+
  show ?thesis
    by (rule tls_stateI [of _ _ _ _ _ _ _ "plain @ buf"]) (use p f ended_tail [OF assms(4), of buf] in simp_all)
qed

lemma write_drained_inv:
  assumes "aead_ok crypto" "length iv = 12" "length buf \<le> 32768"
    and "writer_inv crypto k iv seq base uuid accepted s w" "vs_write_mode s = PaddingTls" "\<not> wants_write (vs_session s)"
    and "write_drained crypto finder buf s w = (r, s', w')" "poll_ok buf r"
  shows "writer_inv crypto k iv seq base uuid (accepted @ written_by buf r) s' w'"
proof -
  obtain plain where p: "conveys crypto k iv seq base (vs_session s) w plain" "padding_inv uuid accepted s plain"
      "vs_user_uuid s = uuid" "\<not> vs_response_to_send s" "vs_pending_plain_writes s = []"
    using padding_stateE [OF assms(4,5)] by blast
  consider (direct) "vs_pending_direct_switch s" | (tls) "\<not> vs_pending_direct_switch s" "vs_pending_tls_switch s"
    | (pad) "\<not> vs_pending_direct_switch s" "\<not> vs_pending_tls_switch s" by blast
  then show ?thesis
  proof cases
    case direct
    define t where "t = post_padding_cleanup (s\<lparr>vs_pending_direct_switch := False, vs_write_mode := DirectMode\<rparr>)"
    have t: "vs_session t = vs_session s" "vs_user_uuid t = uuid" "\<not> vs_response_to_send t" "vs_write_mode t = DirectMode"
      using p by (simp_all add: t_def post_padding_cleanup_def)
    have inv: "writer_inv crypto k iv seq base uuid accepted t w"
      by (rule direct_stateI [of _ _ _ _ _ _ _ plain]) (use t p direct assms(6) in \<open>simp_all add: padding_inv_def\<close>)
    have dw: "direct_write buf t w = (r, s', w')"
      using assms(5,7) direct by (simp add: write_drained_def switch_write_to_direct_mode_def t_def)
    from direct_write_inv [OF inv t(4) dw] assms(8) show ?thesis
      by (auto simp: poll_ok_def split: Poll.splits sum.splits)
  next
    case tls
    define t where "t = post_padding_cleanup (s\<lparr>vs_pending_tls_switch := False, vs_write_mode := TlsMode\<rparr>)"
    have t: "vs_session t = vs_session s" "vs_user_uuid t = uuid" "\<not> vs_response_to_send t" "vs_write_mode t = TlsMode"
      using p by (simp_all add: t_def post_padding_cleanup_def)
    have "poll_write_tls crypto buf t w = (r, s', w')"
      using assms(5,7) tls by (simp add: write_drained_def switch_write_to_tls_mode_def t_def)
    then show ?thesis
      using poll_write_tls_inv [OF assms(1,2), of k seq base t w plain uuid accepted] p t tls assms(8) by (simp add: padding_inv_def)
  next
    case pad
    let ?f = "vs_inner_write_deframer s"
    let ?t = "s\<lparr>vs_inner_write_deframer := fuzzy_feed buf ?f\<rparr>"
    obtain content where c: "continued uuid (vs_write_first_packet s) plain content" "content @ fuzzy_remaining_data ?f = accepted"
        "length (fuzzy_remaining_data ?f) \<le> MAX_PENDING" "fuzzy_ok ?f"
      using p(2) pad by (auto simp: padding_inv_def)
    have loop: "write_padding_loop crypto finder buf (fuzzy_pending_bytes ?f) 0 ?t w = (r, s', w')"
      using assms(7) pad by (simp add: write_drained_def)
    have "loop_inv crypto k iv seq base accepted buf (fuzzy_pending_bytes ?f) 0 content plain ?t w"
      using p c pad assms(3,5) arg_cong [OF c(2), of length]
      by (auto simp: loop_inv_def fuzzy_pending_bytes_length MAX_PENDING_def MAX_TLS_CIPHERTEXT_LEN_def TLS_RECORD_HEADER_SIZE_def)
    moreover have "r = Ready (Inr n) \<Longrightarrow> n \<le> length buf" for n using poll_okD(2) [of buf] assms(8) by simp
    ultimately obtain n where "r = Ready (Inr n)" "writer_inv crypto k iv seq base (vs_user_uuid ?t) (accepted @ take n buf) s' w'"
      using write_padding_loop_inv [OF assms(1,2) _ loop poll_okD(1) [OF assms(8)]] by blast
    with p(3) show ?thesis by simp
  qed
qed

lemma vision_poll_write_inv:
  assumes "aead_ok crypto" "length iv = 12" "length buf \<le> 32768"
    and "writer_inv crypto k iv seq base uuid accepted s w"
    and "vision_poll_write crypto finder buf s w = (r, s', w')" "poll_ok buf r"
  shows "writer_inv crypto k iv seq base uuid (accepted @ written_by buf r) s' w'"
proof (cases "vs_write_mode s")
  case PaddingTls
  have resp: "send_response s = (Ok (), s)" using assms(4) by (simp add: send_response_def writer_inv_def)
  have pend: "vs_pending_plain_writes s = []" using padding_stateE [OF assms(4) PaddingTls] by blast
  note eq = assms(5) [unfolded vision_poll_write_def PaddingTls VisionMode.case poll_write_padding_tls_def resp]
  show ?thesis
  proof (cases "wants_write (vs_session s)")
    case False
    with eq pend have "write_drained crypto finder buf s w = (r, s', w')" by simp
    with write_drained_inv [OF assms(1-4) PaddingTls False] assms(6) show ?thesis by blast
  next
    case True
    obtain q t v where q: "drain_all_writes_padding crypto s w = (q, t, v)" by (cases "drain_all_writes_padding crypto s w")
    with eq True assms(6) have ok: "q \<noteq> Ready (Inl e)" for e by (auto simp: poll_ok_def)
    note d = drain_padding_inv [OF assms(1,2,4) PaddingTls q ok]
    show ?thesis
    proof (cases q)
      case Pending
      with eq True q d(1) show ?thesis by auto
    next
      case (Ready z)
      with ok eq True q have "write_drained crypto finder buf t v = (r, s', w')" by (cases z) auto
      with write_drained_inv [OF assms(1-3) d(1,2)] d(3) Ready assms(6) show ?thesis by blast
    qed
  qed
next
  case TlsMode
  then obtain plain where p: "conveys crypto k iv seq base (vs_session s) w plain" "ended uuid UnpadEnd plain accepted"
      "vs_user_uuid s = uuid" "\<not> vs_response_to_send s"
    using assms(4) by (auto simp: writer_inv_def)
  from assms(5) TlsMode have "poll_write_tls crypto buf s w = (r, s', w')" by (simp add: vision_poll_write_def)
  from poll_write_tls_inv [OF assms(1,2) p TlsMode this assms(6)] show ?thesis .
next
  case DirectMode
  from assms(5) DirectMode have "direct_write buf s w = (r, s', w')" by (simp add: vision_poll_write_def)
  from direct_write_inv [OF assms(4) DirectMode this] assms(6) show ?thesis
    by (auto simp: poll_ok_def split: Poll.splits sum.splits)
qed

lemma vision_poll_flush_inv:
  assumes "aead_ok crypto" "length iv = 12" "writer_inv crypto k iv seq base uuid accepted s w"
    and "vision_poll_flush crypto answer s w = (r, s', w')" "\<And>e. r \<noteq> Ready (Inl e)"
  shows "writer_inv crypto k iv seq base uuid accepted s' w' \<and>
    (r = Ready (Inr ()) \<longrightarrow> \<not> wants_write (vs_session s'))"
proof (cases "vs_write_mode s")
  case PaddingTls
  obtain q t v where q: "drain_all_writes_padding crypto s w = (q, t, v)" by (cases "drain_all_writes_padding crypto s w")
  with assms(4) PaddingTls have ok: "q \<noteq> Ready (Inl e)" for e using assms(5) [of e] by (auto simp: vision_poll_flush_def Let_def)
  from drain_padding_inv [OF assms(1-3) PaddingTls q ok] q assms(4) PaddingTls show ?thesis
    by (auto simp: vision_poll_flush_def Let_def split: Poll.splits sum.splits)
next
  case TlsMode
  obtain q t v where q: "drain_all_writes_tls crypto s w = (q, t, v)" by (cases "drain_all_writes_tls crypto s w")
  with assms(4) TlsMode have ok: "q \<noteq> Ready (Inl e)" for e using assms(5) [of e] by (auto simp: vision_poll_flush_def Let_def)
  obtain plain where p: "conveys crypto k iv seq base (vs_session s) w plain" "ended uuid UnpadEnd plain accepted"
      "vs_user_uuid s = uuid" "\<not> vs_response_to_send s"
    using assms(3) TlsMode by (auto simp: writer_inv_def)
  note d = drain_tls_conveys [OF assms(1,2) p(1) q ok]
  then have f: "vs_user_uuid t = uuid" "\<not> vs_response_to_send t" "vs_write_mode t = TlsMode"
    using p(3,4) TlsMode by (metis VisionStream.select_convs VisionStream.surjective VisionStream.update_convs(1))+
  have "writer_inv crypto k iv seq base uuid accepted t v" by (rule tls_stateI [of _ _ _ _ _ _ _ plain]) (use d f p in simp_all)
  with d q assms(4) TlsMode show ?thesis by (auto simp: vision_poll_flush_def Let_def split: Poll.splits sum.splits)
next
  case DirectMode
  with assms(3,4) show ?thesis by (auto simp: vision_poll_flush_def Let_def writer_inv_def)
qed

lemma conveys_keeps:
  assumes "keeps_output c c'" "conveys crypto k iv seq base c w plain"
  shows "conveys crypto k iv seq base c' w plain \<and> wants_write c' = wants_write c"
  using assms by (auto simp: keeps_output_def conveys_def wants_write_def)

lemma only_read_inv:
  assumes "writer_inv crypto k iv seq base uuid accepted s w" "only_read s w s' w'"
  shows "writer_inv crypto k iv seq base uuid accepted s' w'"
proof -
  obtain plain sent raw where i: "wd_sent w = sent @ raw" "conveys crypto k iv seq base (vs_session s) (w\<lparr>wd_sent := sent\<rparr>) plain"
      "case vs_write_mode s of
           PaddingTls \<Rightarrow> raw = [] \<and> padding_inv uuid accepted s plain
         | TlsMode \<Rightarrow> raw = [] \<and> ended uuid UnpadEnd plain accepted
         | DirectMode \<Rightarrow> \<not> wants_write (vs_session s) \<and> (\<exists>content. ended uuid UnpadDirect plain content \<and> content @ raw = accepted)"
      "vs_user_uuid s = uuid" "\<not> vs_response_to_send s"
    using assms(1) by (auto simp: writer_inv_def)
  have k: "keeps_output (vs_session s) (vs_session s')" using assms(2) by (simp add: only_read_def keeps_writer_def)
  have c: "conveys crypto k iv seq base (vs_session s') (w'\<lparr>wd_sent := sent\<rparr>) plain" "wants_write (vs_session s') = wants_write (vs_session s)"
    using conveys_keeps [OF k i(2)] by (simp_all add: conveys_def)
  have f: "vs_write_mode s' = vs_write_mode s" "vs_user_uuid s' = uuid" "\<not> vs_response_to_send s'" "wd_sent w' = sent @ raw"
    using assms(2) i(1,4,5) by (simp_all add: only_read_def keeps_writer_def)
  have pad: "padding_inv uuid accepted s' plain" if "vs_write_mode s = PaddingTls"
    using assms(2) i(3) that by (simp add: only_read_def keeps_writer_def padding_inv_def)
  have "case vs_write_mode s' of
           PaddingTls \<Rightarrow> raw = [] \<and> padding_inv uuid accepted s' plain
         | TlsMode \<Rightarrow> raw = [] \<and> ended uuid UnpadEnd plain accepted
         | DirectMode \<Rightarrow> \<not> wants_write (vs_session s') \<and> (\<exists>content. ended uuid UnpadDirect plain content \<and> content @ raw = accepted)"
    using i(3) pad f(1) c(2) by (cases "vs_write_mode s") simp_all
  with c(1) f(2-4) show ?thesis unfolding writer_inv_def by blast
qed

section \<open>Sequences of polls\<close>

datatype VisionOp = OpWrite bytes | OpFlush "(IoErrorKind + unit) Poll" | OpRead nat

text \<open>
  A caller polls in some order, as long as writing and flushing do not fail and a write reports no more than
  it was given; whether a read fails does not matter. The result carries the bytes that were accepted. A run ends without a result at
  a write that reports more than it was given, which the code can do and which loses bytes: \<open>write_length_wraps\<close> below shows such a write.
\<close>

fun vision_run ::
    "Crypto \<Rightarrow> (bytes \<Rightarrow> nat option) \<Rightarrow> VisionOp list \<Rightarrow> bytes \<Rightarrow> VisionStream \<Rightarrow> World \<Rightarrow> (bytes \<times> VisionStream \<times> World) option" where
  "vision_run crypto finder [] accepted s w = Some (accepted, s, w)"
| "vision_run crypto finder (OpWrite buf # ops) accepted s w =
     (case vision_poll_write crypto finder buf s w of
        (r, s', w') \<Rightarrow> if poll_ok buf r then vision_run crypto finder ops (accepted @ written_by buf r) s' w' else None)"
| "vision_run crypto finder (OpFlush answer # ops) accepted s w =
     (case vision_poll_flush crypto answer s w of
        (Ready (Inl _), _, _) \<Rightarrow> None
      | (_, s', w') \<Rightarrow> vision_run crypto finder ops accepted s' w')"
| "vision_run crypto finder (OpRead cap # ops) accepted s w =
     (case vision_poll_read crypto finder cap s w of (_, s', w') \<Rightarrow> vision_run crypto finder ops accepted s' w')"

fun op_small :: "VisionOp \<Rightarrow> bool" where
  "op_small (OpWrite buf) = (length buf \<le> 32768)"
| "op_small _ = True"

lemma vision_run_inv:
  assumes "aead_ok crypto" "length iv = 12"
    and "vision_run crypto finder ops accepted s w = Some (accepted', s', w')" "list_all op_small ops"
    and "writer_inv crypto k iv seq base uuid accepted s w"
  shows "writer_inv crypto k iv seq base uuid accepted' s' w'"
  using assms(3-)
proof (induction ops arbitrary: accepted s w)
  case (Cons op ops)
  show ?case
  proof (cases op)
    case (OpWrite buf)
    obtain r t v where r: "vision_poll_write crypto finder buf s w = (r, t, v)" by (cases "vision_poll_write crypto finder buf s w")
    from Cons.prems OpWrite r have ok: "poll_ok buf r" "length buf \<le> 32768" "list_all op_small ops"
        "vision_run crypto finder ops (accepted @ written_by buf r) t v = Some (accepted', s', w')"
      by (auto split: if_splits)
    with vision_poll_write_inv [OF assms(1,2) ok(2) Cons.prems(3) r ok(1)] Cons.IH show ?thesis by blast
  next
    case (OpFlush answer)
    obtain r t v where r: "vision_poll_flush crypto answer s w = (r, t, v)" by (cases "vision_poll_flush crypto answer s w")
    from Cons.prems OpFlush r have ok: "r \<noteq> Ready (Inl e)" for e by auto
    from Cons.prems OpFlush r ok have "vision_run crypto finder ops accepted t v = Some (accepted', s', w')" "list_all op_small ops"
      by (auto split: Poll.splits sum.splits)
    with vision_poll_flush_inv [OF assms(1,2) Cons.prems(3) r ok] Cons.IH show ?thesis by blast
  next
    case (OpRead cap)
    obtain r t v where r: "vision_poll_read crypto finder cap s w = (r, t, v)" by (cases "vision_poll_read crypto finder cap s w")
    with Cons.prems OpRead have "vision_run crypto finder ops accepted t v = Some (accepted', s', w')" "list_all op_small ops"
      by auto
    with only_read_inv [OF Cons.prems(3) vision_poll_read_reads [OF r]] Cons.IH show ?thesis by blast
  qed
qed simp

lemma writer_inv_new:
  assumes "cn_handshake c = HandshakeComplete" "cn_app_write_key c = Some k" "cn_app_write_iv c = Some iv"
    and "cn_plaintext_write c = []"
  shows "writer_inv crypto k iv (cn_write_seq c) (wd_sent w @ cn_ciphertext_write c) uuid [] (new_client c uuid) w"
proof (rule padding_stateI [of _ _ _ _ _ _ _ "[]"])
  show "conveys crypto k iv (cn_write_seq c) (wd_sent w @ cn_ciphertext_write c) (vs_session (new_client c uuid)) w []"
    using assms by (auto simp: conveys_def new_client_def new_common_def intro: stream_Nil)
qed (simp_all add: new_client_def new_common_def padding_inv_def continued_def small_def MAX_PENDING_def)

section \<open>Delivery\<close>

text \<open>
  How the accepted bytes are found again in the application data \<open>plain\<close> of the records and the raw bytes
  \<open>raw\<close> after them, by removing the padding.
\<close>

definition delivered :: "bytes \<Rightarrow> bytes \<Rightarrow> VisionStream \<Rightarrow> bytes \<Rightarrow> bytes \<Rightarrow> bool" where
  "delivered uuid accepted s plain raw \<longleftrightarrow>
     (let received = unpad_pieces (VisionUnpadder_new uuid) [plain];
          held = fuzzy_remaining_data (vs_inner_write_deframer s)
      in case vs_write_mode s of
           PaddingTls \<Rightarrow> raw = [] \<and>
             (if vs_pending_direct_switch s then received = Ok (accepted, Some UnpadDirect)
              else if vs_pending_tls_switch s then received = Ok (accepted, Some UnpadEnd)
              else if vs_write_first_packet s then plain = [] \<and> held = accepted
              else (case received of Inr (content, None) \<Rightarrow> content @ held = accepted | _ \<Rightarrow> False))
         | TlsMode \<Rightarrow> raw = [] \<and> received = Ok (accepted, Some UnpadEnd)
         | DirectMode \<Rightarrow> (case received of Inr (content, Some UnpadDirect) \<Rightarrow> content @ raw = accepted | _ \<Rightarrow> False))"

lemma writer_inv_delivered:
  assumes "writer_inv crypto k iv seq base uuid accepted s w" "length uuid = 16"
  shows "\<exists>fs recs raw. wd_sent w @ cn_ciphertext_write (vs_session s) = base @ recs @ raw \<and>
    record_stream crypto k iv seq fs recs (cn_write_seq (vs_session s)) \<and>
    delivered uuid accepted s (concat fs @ cn_plaintext_write (vs_session s)) raw"
proof -
  obtain plain sent raw where i: "wd_sent w = sent @ raw"
      "conveys crypto k iv seq base (vs_session s) (w\<lparr>wd_sent := sent\<rparr>) plain"
      "case vs_write_mode s of
           PaddingTls \<Rightarrow> raw = [] \<and> padding_inv uuid accepted s plain
         | TlsMode \<Rightarrow> raw = [] \<and> ended uuid UnpadEnd plain accepted
         | DirectMode \<Rightarrow> \<not> wants_write (vs_session s) \<and> (\<exists>content. ended uuid UnpadDirect plain content \<and> content @ raw = accepted)"
    using assms(1) by (auto simp: writer_inv_def)
  obtain fs recs where r: "sent @ cn_ciphertext_write (vs_session s) = base @ recs"
      "record_stream crypto k iv seq fs recs (cn_write_seq (vs_session s))"
      "concat fs @ cn_plaintext_write (vs_session s) = plain"
    using i(2) by (auto simp: conveys_def)
  have "wd_sent w @ cn_ciphertext_write (vs_session s) = base @ recs @ raw"
    using i r(1) by (cases "vs_write_mode s") (auto simp: wants_write_def)
  moreover have "delivered uuid accepted s plain raw"
    using i(3) continued_unpads [OF _ assms(2)] ended_unpads [OF _ assms(2)]
    by (cases "vs_write_mode s") (auto simp: delivered_def padding_inv_def simp del: unpad_pieces.simps split: if_splits)
  ultimately show ?thesis using r(2,3) by metis
qed

text \<open>
  C6. What a Vision stream accepts is what its peer gets. A stream is created over a session whose handshake
  is complete; then a caller writes buffers of at most 32 KiB, flushes and reads in any order, over a
  transport that accepts and delivers any amounts at any time, with any random padding. Whatever was
  accepted so far is then found, nothing lost, repeated or reordered: what the transport received and what
  still waits in the session are records that open in order to application data, the raw bytes follow them,
  and removing the padding from that data with the user's UUID gives the accepted bytes. In padding
  mode the incomplete record that the deframer holds is their end; after \<open>End\<close> they continue inside the
  records, and after \<open>Direct\<close> they continue as raw bytes on the transport. The case
  of a write that reports more than it was given is excluded; it exists in the code.
\<close>

theorem vision_write_delivers:
  assumes "aead_ok crypto" "length iv = 12" "length uuid = 16"
    and "cn_handshake c = HandshakeComplete" "cn_app_write_key c = Some k" "cn_app_write_iv c = Some iv"
    and "cn_plaintext_write c = []" "list_all op_small ops"
    and "vision_run crypto finder ops [] (new_client c uuid) w = Some (accepted, s, w')"
  shows "\<exists>fs recs raw.
    wd_sent w' @ cn_ciphertext_write (vs_session s) = wd_sent w @ cn_ciphertext_write c @ recs @ raw \<and>
    decrypt_records crypto k iv recs (cn_write_seq c) =
      Ok (map (Pair CONTENT_TYPE_APPLICATION_DATA) fs, cn_write_seq (vs_session s)) \<and>
    delivered uuid accepted s (concat fs @ cn_plaintext_write (vs_session s)) raw"
proof -
  let ?base = "wd_sent w @ cn_ciphertext_write c"
  have "writer_inv crypto k iv (cn_write_seq c) ?base uuid accepted s w'"
    by (rule vision_run_inv [OF assms(1,2,9,8)]) (rule writer_inv_new [OF assms(4-7)])
  from writer_inv_delivered [OF this assms(3)] show ?thesis
    unfolding append_assoc using record_stream_decrypts by blast
qed

definition sample_session :: RealityClientConnection where
  "sample_session =
     \<lparr>cn_config = \<lparr>rcf_public_key = [], rcf_short_id = [], rcf_server_name = [], rcf_cipher_suites = []\<rparr>,
      cn_handshake = HandshakeComplete, cn_app_read_key = None, cn_app_read_iv = None,
      cn_app_write_key = Some \<lparr>ak_suite = AES_128_GCM_SHA256, ak_key = replicate 16 1\<rparr>,
      cn_app_write_iv = Some (replicate 12 2), cn_read_seq = 0, cn_write_seq = 0, cn_cipher_suite = Some AES_128_GCM_SHA256,
      cn_ciphertext_read = SlideBuffer_new 16, cn_ciphertext_write = [], cn_plaintext_read = SlideBuffer_new 16,
      cn_plaintext_write = [], cn_close_notify = False, cn_fatal_error = None\<rparr>"

definition sample_world :: World where
  "sample_world = \<lparr>wd_reads = [], wd_writes = [Ready (Inr 20), Pending], wd_sent = [], wd_rng = \<lambda>_. (\<lambda>_. 2, \<lambda>_. 9), wd_draws = 0\<rparr>"

theorem vision_write_delivers_witness:
  "case vision_run marking_crypto first_pair [OpWrite [1, 2, 3], OpFlush Pending] [] (new_client sample_session (replicate 16 7)) sample_world of
     None \<Rightarrow> False
   | Some (accepted, s, w') \<Rightarrow> accepted = [1, 2, 3] \<and>
       (\<exists>fs recs raw. wd_sent w' @ cn_ciphertext_write (vs_session s) = recs @ raw \<and>
          delivered (replicate 16 7) accepted s (concat fs @ cn_plaintext_write (vs_session s)) raw)"
proof -
  let ?ops = "[OpWrite [1, 2, 3], OpFlush Pending]" and ?uuid = "replicate 16 7"
  have "case vision_run marking_crypto first_pair ?ops [] (new_client sample_session ?uuid) sample_world of
     None \<Rightarrow> False | Some (accepted, s, w') \<Rightarrow> accepted = [1, 2, 3]" by code_simp
  then obtain s w' where r: "vision_run marking_crypto first_pair ?ops [] (new_client sample_session ?uuid) sample_world = Some ([1, 2, 3], s, w')"
    by (auto split: option.splits)
  have "\<exists>fs recs raw. wd_sent w' @ cn_ciphertext_write (vs_session s) = wd_sent sample_world @ cn_ciphertext_write sample_session @ recs @ raw \<and>
      decrypt_records marking_crypto \<lparr>ak_suite = AES_128_GCM_SHA256, ak_key = replicate 16 1\<rparr> (replicate 12 2) recs (cn_write_seq sample_session) =
        Ok (map (Pair CONTENT_TYPE_APPLICATION_DATA) fs, cn_write_seq (vs_session s)) \<and>
      delivered ?uuid [1, 2, 3] s (concat fs @ cn_plaintext_write (vs_session s)) raw"
    by (rule vision_write_delivers [OF marking_crypto_ok _ _ _ _ _ _ _ r]) (simp_all add: sample_session_def)
  then show ?thesis unfolding r by (auto simp: sample_session_def sample_world_def)
qed

text \<open>
  The length that a write reports can wrap. When the filter gives up on a prefix that is shorter than what
  the deframer held before the call, \<open>processed_len - existing_inner_len\<close> is negative: here five bytes that
  look like a handshake are held, and the sixth shows that only the last two can still be one.
\<close>

definition open_world :: World where
  "open_world = sample_world\<lparr>wd_writes := replicate 20 (Ready (Inr 1000))\<rparr>"

lemma write_gives_up:
  assumes "vs_write_mode s = PaddingTls" "\<not> vs_response_to_send s" "vs_pending_plain_writes s = []" "\<not> wants_write (vs_session s)"
    and "\<not> vs_pending_direct_switch s" "\<not> vs_pending_tls_switch s"
    and "fuzzy_next_record finder (fuzzy_feed buf (vs_inner_write_deframer s)) = (Ok (UnknownPrefix pre), f)"
    and "\<not> is_filtering (decrement_filter_count (vs_filter s))"
    and "fst (send_padded crypto pre COMMAND_END (vf_is_tls (decrement_filter_count (vs_filter s)))
      (clear_inner_write (s\<lparr>vs_inner_write_deframer := f, vs_filter := decrement_filter_count (vs_filter s), vs_pending_tls_switch := True\<rparr>)) w) = Ready (Ok ())"
  shows "fst (vision_poll_write crypto finder buf s w) =
    Ready (Ok (usize_sub (length pre) (fuzzy_pending_bytes (vs_inner_write_deframer s))))"
  using assms
  by (auto simp: vision_poll_write_def poll_write_padding_tls_def send_response_def write_drained_def write_padding_loop.simps
      report_def Let_def split: prod.splits)

definition gives_up_early :: "bytes \<Rightarrow> VisionStream \<Rightarrow> World \<Rightarrow> bool" where
  "gives_up_early buf s w \<longleftrightarrow>
     vs_write_mode s = PaddingTls \<and> \<not> vs_response_to_send s \<and> vs_pending_plain_writes s = [] \<and> \<not> wants_write (vs_session s) \<and>
     \<not> vs_pending_direct_switch s \<and> \<not> vs_pending_tls_switch s \<and> fuzzy_pending_bytes (vs_inner_write_deframer s) = 5 \<and>
     (case fuzzy_next_record first_pair (fuzzy_feed buf (vs_inner_write_deframer s)) of
        (Inr (UnknownPrefix pre), f) \<Rightarrow> length pre = 4 \<and>
          (let fl = decrement_filter_count (vs_filter s) in
           \<not> is_filtering fl \<and>
           (case send_padded marking_crypto pre COMMAND_END (vf_is_tls fl)
               (clear_inner_write (s\<lparr>vs_inner_write_deframer := f, vs_filter := fl, vs_pending_tls_switch := True\<rparr>)) w of
              (Ready (Inr _), _, _) \<Rightarrow> True | _ \<Rightarrow> False))
      | _ \<Rightarrow> False)"

lemma gives_up_early_wraps:
  assumes "gives_up_early buf s w"
  shows "fst (vision_poll_write marking_crypto first_pair buf s w) = Ready (Ok (2 ^ 64 - 1))"
proof -
  obtain pre f where f: "fuzzy_next_record first_pair (fuzzy_feed buf (vs_inner_write_deframer s)) = (Ok (UnknownPrefix pre), f)"
    using assms by (auto simp: gives_up_early_def split: prod.splits sum.splits DeframeResult.splits)
  with assms have "fst (vision_poll_write marking_crypto first_pair buf s w) =
      Ready (Ok (usize_sub (length pre) (fuzzy_pending_bytes (vs_inner_write_deframer s))))"
    by (intro write_gives_up) (auto simp: gives_up_early_def Let_def split: prod.splits Poll.splits sum.splits)
  with assms f show ?thesis by (simp add: gives_up_early_def usize_sub_def)
qed

lemma write_length_wraps:
  "case vision_run marking_crypto first_pair (replicate 7 (OpWrite [1]) @ [OpWrite [0x16, 3, 1, 0, 0x16]]) []
       (new_client sample_session (replicate 16 7)) open_world of
     None \<Rightarrow> False
   | Some (accepted, s, w) \<Rightarrow> fst (vision_poll_write marking_crypto first_pair [3] s w) = Ready (Ok (2 ^ 64 - 1))"
proof -
  have "case vision_run marking_crypto first_pair (replicate 7 (OpWrite [1]) @ [OpWrite [0x16, 3, 1, 0, 0x16]]) []
       (new_client sample_session (replicate 16 7)) open_world of
     None \<Rightarrow> False | Some (accepted, s, w) \<Rightarrow> gives_up_early [3] s w" by code_simp
  then show ?thesis by (auto simp: gives_up_early_wraps split: option.splits)
qed

text \<open>The assertion that a last record reaches beyond what was held fails for a header that announces no payload.\<close>

definition ends_at_held :: "bytes \<Rightarrow> VisionStream \<Rightarrow> bool" where
  "ends_at_held buf s \<longleftrightarrow>
     vs_write_mode s = PaddingTls \<and> \<not> vs_response_to_send s \<and> vs_pending_plain_writes s = [] \<and> \<not> wants_write (vs_session s) \<and>
     \<not> vs_pending_direct_switch s \<and> \<not> vs_pending_tls_switch s \<and>
     (case fuzzy_next_record first_pair (fuzzy_feed buf (vs_inner_write_deframer s)) of
        (Inr (TlsRecord rec), f) \<Rightarrow> length rec = fuzzy_pending_bytes (vs_inner_write_deframer s) \<and>
          (let fl = filter_record rec (vs_filter s) in
           rec ! 0 \<noteq> 0x17 \<and> \<not> is_filtering fl \<and> \<not> vf_is_tls12_or_above fl)
      | _ \<Rightarrow> False)"

lemma ends_at_held_panics:
  assumes "ends_at_held buf s"
  shows "fst (vision_poll_write crypto first_pair buf s w) = Ready (Err VisionPanic)"
  using assms
  by (auto simp: ends_at_held_def vision_poll_write_def poll_write_padding_tls_def send_response_def write_drained_def
      write_padding_loop.simps report_def send_final_def Let_def split: prod.splits sum.splits DeframeResult.splits)

lemma write_assertion_fails:
  "case vision_run marking_crypto first_pair (replicate 7 (OpWrite [1]) @ [OpWrite [0x16, 3, 1, 0, 0]]) []
       (new_client sample_session (replicate 16 7)) open_world of
     None \<Rightarrow> False
   | Some (accepted, s, w) \<Rightarrow> fst (vision_poll_write marking_crypto first_pair [1] s w) = Ready (Err VisionPanic)"
proof -
  have "case vision_run marking_crypto first_pair (replicate 7 (OpWrite [1]) @ [OpWrite [0x16, 3, 1, 0, 0]]) []
       (new_client sample_session (replicate 16 7)) open_world of
     None \<Rightarrow> False | Some (accepted, s, w) \<Rightarrow> ends_at_held [1] s" by code_simp
  then show ?thesis by (auto simp: ends_at_held_panics split: option.splits)
qed

end
