(* ===== verification/Client_Crypto.thy ===== *)
theory Client_Crypto
  imports Byte_Io Rust_Strings
begin

text \<open>
  The cryptographic primitives of the Shadowsocks, Trojan and VMess clients (crates \<open>aes-gcm\<close>, \<open>aes\<close>, \<open>hkdf\<close>, \<open>blake3\<close>,
  \<open>md5\<close>, \<open>sha2\<close>, \<open>hmac\<close>, \<open>crc32fast\<close>, \<open>base64\<close>, \<open>uuid\<close>) as the fields of a record that the clients take as an argument,
  and what the theorems need of them. \<open>plain_primitives\<close> is a concrete instance for the witnesses.
\<close>

record Primitives =
  pm_seal :: "bytes \<Rightarrow> bytes \<Rightarrow> bytes \<Rightarrow> bytes \<Rightarrow> bytes option"
  pm_open :: "bytes \<Rightarrow> bytes \<Rightarrow> bytes \<Rightarrow> bytes \<Rightarrow> bytes option"
  pm_aes_encrypt :: "bytes \<Rightarrow> bytes \<Rightarrow> bytes"
  pm_aes_decrypt :: "bytes \<Rightarrow> bytes \<Rightarrow> bytes"
  pm_md5 :: "bytes \<Rightarrow> bytes"
  pm_sha224 :: "bytes \<Rightarrow> bytes"
  pm_sha256 :: "bytes \<Rightarrow> bytes"
  pm_hmac_sha256 :: "bytes \<Rightarrow> bytes \<Rightarrow> bytes"
  pm_hkdf_sha1 :: "bytes \<Rightarrow> bytes \<Rightarrow> bytes \<Rightarrow> nat \<Rightarrow> bytes option"
  pm_blake3_derive_key :: "string \<Rightarrow> bytes \<Rightarrow> bytes"
  pm_crc32 :: "bytes \<Rightarrow> u32"
  pm_base64_decode :: "string \<Rightarrow> bytes option"
  pm_parse_uuid :: "string \<Rightarrow> bytes option"

text \<open>AES-GCM with a nonce of twelve bytes: opening inverts sealing, which adds a tag of sixteen bytes.\<close>

definition gcm_ok :: "Primitives \<Rightarrow> bool" where
  "gcm_ok pm \<longleftrightarrow> (\<forall>k nonce aad x. length k = 16 \<or> length k = 32 \<longrightarrow> length nonce = 12 \<longrightarrow> length x < 2 ^ 36 \<longrightarrow>
     (\<exists>c. pm_seal pm k nonce aad x = Some c \<and> length c = length x + 16 \<and> pm_open pm k nonce aad c = Some x))"

text \<open>Block encryption, digests and key derivation have outputs of fixed length.\<close>

definition block_ok :: "Primitives \<Rightarrow> bool" where
  "block_ok pm \<longleftrightarrow> (\<forall>k b. length k = 16 \<longrightarrow> length b = 16 \<longrightarrow>
     length (pm_aes_encrypt pm k b) = 16 \<and> pm_aes_decrypt pm k (pm_aes_encrypt pm k b) = b)"

definition digests_ok :: "Primitives \<Rightarrow> bool" where
  "digests_ok pm \<longleftrightarrow> (\<forall>x. length (pm_md5 pm x) = 16 \<and> length (pm_sha224 pm x) = 28 \<and> length (pm_sha256 pm x) = 32) \<and>
     (\<forall>k x. length (pm_hmac_sha256 pm k x) = 32) \<and> (\<forall>c x. length (pm_blake3_derive_key pm c x) = 32) \<and>
     (\<forall>salt k info n. n \<le> 255 * 20 \<longrightarrow> (\<exists>out. pm_hkdf_sha1 pm salt k info n = Some out \<and> length out = n))"

lemma gcm_okE:
  assumes "gcm_ok pm" "length k = 16 \<or> length k = 32" "length nonce = 12" "length x < 2 ^ 36"
  obtains c where "pm_seal pm k nonce aad x = Some c" "length c = length x + 16" "pm_open pm k nonce aad c = Some x"
  using assms unfolding gcm_ok_def by blast

section \<open>Little-endian nonces\<close>

fun increment_nonce :: "bytes \<Rightarrow> bytes" where
  "increment_nonce [] = []"
| "increment_nonce (b # bs) = (let next_byte = b + 1 in if next_byte = 0 then next_byte # increment_nonce bs else next_byte # bs)"

fun le_nat :: "bytes \<Rightarrow> nat" where
  "le_nat [] = 0"
| "le_nat (b # bs) = unat b + 256 * le_nat bs"

lemma length_increment_nonce [simp]: "length (increment_nonce bs) = length bs"
  by (induction bs) (auto simp: Let_def)

lemma le_nat_less: "le_nat bs < 256 ^ length bs"
proof (induction bs)
  case (Cons b bs)
  have "unat b + 256 * le_nat bs < 256 * (le_nat bs + 1)" using unat_u8_less [of b] by simp
  also have "\<dots> \<le> 256 * 256 ^ length bs" using Cons by (intro mult_left_mono) auto
  finally show ?case by simp
qed simp

lemma base_256:
  assumes "p < 256" "q < 256" "p + 256 * a = q + 256 * (b :: nat)"
  shows "p = q \<and> a = b"
proof -
  have "(p + 256 * a) mod 256 = (q + 256 * b) mod 256" using assms(3) by simp
  then have "p = q" using assms(1,2) by (simp only: mod_mult_self2 mod_less)
  with assms(3) show ?thesis by simp
qed

lemma le_nat_inject: "length a = length b \<Longrightarrow> le_nat a = le_nat b \<Longrightarrow> a = b"
proof (induction a b rule: list_induct2)
  case (Cons x xs y ys)
  have "unat x < 256" "unat y < 256" "unat x + 256 * le_nat xs = unat y + 256 * le_nat ys" using Cons.prems by simp_all
  then have "unat x = unat y" "le_nat xs = le_nat ys" using base_256 by blast+
  with Cons.IH show ?case by (simp add: word_unat_eq_iff)
qed simp

text \<open>The increment counts modulo the range of the nonce.\<close>

lemma le_nat_increment: "le_nat (increment_nonce bs) = (le_nat bs + 1) mod 256 ^ length bs"
proof (induction bs)
  case (Cons b bs)
  show ?case
  proof (cases "b + 1 = 0")
    case True
    then have "b = - 1" by (simp add: eq_neg_iff_add_eq_0)
    then have b: "unat b = 255" by (simp add: unsigned_minus_1_eq_mask mask_eq_exp_minus_1)
    have "(255 + 256 * le_nat bs + 1) mod (256 * 256 ^ length bs) = 256 * ((le_nat bs + 1) mod 256 ^ length bs)"
      by (simp add: mult_mod_right)
    with Cons True b show ?thesis by simp
  next
    case False
    then have b: "unat (b + 1) = unat b + 1" using unatSuc [of b] by (metis Suc_eq_plus1 add.commute)
    have "unat (b + 1) < 256" by simp
    then have "unat b + 256 * le_nat bs + 1 < 256 * (le_nat bs + 1)" using b by simp
    also have "\<dots> \<le> 256 * 256 ^ length bs" using le_nat_less [of bs] by (intro mult_left_mono) auto
    finally show ?thesis using False b by simp
  qed
qed simp

lemma le_nat_funpow: "le_nat ((increment_nonce ^^ n) bs) = (le_nat bs + n) mod 256 ^ length bs"
proof (induction n)
  case 0
  then show ?case using le_nat_less [of bs] by simp
next
  case (Suc n)
  have "length ((increment_nonce ^^ n) bs) = length bs" by (induction n) simp_all
  with Suc show ?case by (simp add: le_nat_increment mod_simps)
qed

section \<open>Big-endian numbers of 64 bits\<close>

definition u64_be_bytes :: "u64 \<Rightarrow> bytes" where "u64_be_bytes w = nat_be_bytes 8 (unat w)"
definition u64_of_be :: "bytes \<Rightarrow> u64" where "u64_of_be bs = of_nat (be_nat bs)"

lemma length_u64_be_bytes [simp]: "length (u64_be_bytes w) = 8" by (simp add: u64_be_bytes_def)

lemma u64_of_be_bytes [simp]: "u64_of_be (u64_be_bytes w) = w"
proof -
  have "unat w < 256 ^ 8" using unsigned_less [of w] by simp
  then have "be_nat (nat_be_bytes 8 (unat w)) = unat w" by (simp only: be_nat_nat_be_bytes mod_less)
  then show ?thesis by (simp add: u64_of_be_def u64_be_bytes_def)
qed

section \<open>An instance\<close>

text \<open>Sealing appends sixteen zero bytes; nothing is secret here.\<close>

definition plain_primitives :: Primitives where
  "plain_primitives =
     \<lparr>pm_seal = \<lambda>k nonce aad x. Some (x @ replicate 16 0),
      pm_open = \<lambda>k nonce aad c. if length c < 16 then None else Some (take (length c - 16) c),
      pm_aes_encrypt = \<lambda>k b. b, pm_aes_decrypt = \<lambda>k b. b,
      pm_md5 = \<lambda>x. replicate 16 1, pm_sha224 = \<lambda>x. replicate 28 2, pm_sha256 = \<lambda>x. replicate 32 3,
      pm_hmac_sha256 = \<lambda>k x. replicate 32 4, pm_hkdf_sha1 = \<lambda>salt k info n. Some (replicate n 5),
      pm_blake3_derive_key = \<lambda>c x. replicate 32 6, pm_crc32 = \<lambda>x. 7,
      pm_base64_decode = \<lambda>s. Some (replicate 16 8), pm_parse_uuid = \<lambda>s. Some (replicate 16 9)\<rparr>"

lemma plain_primitives_ok: "gcm_ok plain_primitives" "block_ok plain_primitives" "digests_ok plain_primitives"
  by (simp_all add: gcm_ok_def block_ok_def digests_ok_def plain_primitives_def)

end
