(* ===== verification/Ss_Aead2017.thy ===== *)
theory Ss_Aead2017
  imports Client_Crypto
begin

text \<open>
  The Shadowsocks client with AEAD ciphers of 2017, \<open>prototype/shadowsocks/src/address.rs\<close> and \<open>aead2017.rs\<close>: target
  addresses, the key from a password, the chunk stream over TCP and the datagrams over UDP. The salts
  that are drawn are arguments.
\<close>

section \<open>Addresses\<close>

fun socks_address :: "SocketAddr \<Rightarrow> bytes" where
  "socks_address target =
     (case sa_ip target of
        V4 ip \<Rightarrow> [1] @ v4_octets ip @ u16_to_be (sa_port target)
      | V6 ip \<Rightarrow> [4] @ v6_octets ip @ u16_to_be (sa_port target))"

definition packet_error :: "string \<Rightarrow> ClientError" where
  "packet_error message = ClientError ''outbound-crypto'' (''invalid Shadowsocks UDP payload: '' @ message)"

definition socks_payload_offset :: "bytes \<Rightarrow> ClientError + nat" where
  "socks_payload_offset packet =
     (case get_at packet 0 of
        None \<Rightarrow> Err (packet_error ''missing SOCKS address type'')
      | Some atyp \<Rightarrow>
          and_then
            (if atyp = 1 then Ok (1 + 4 + 2)
             else if atyp = 3 then
               (case get_at packet 1 of
                  None \<Rightarrow> Err (packet_error ''missing SOCKS domain length'')
                | Some n \<Rightarrow> Ok (1 + 1 + unat n + 2))
             else if atyp = 4 then Ok (1 + 16 + 2)
             else Err (packet_error ''unsupported SOCKS address type''))
            (\<lambda>offset. if length packet < offset then Err (packet_error ''truncated SOCKS address'') else Ok offset))"

lemma socks_payload_offset_address:
  "socks_payload_offset (socks_address target @ payload) = Ok (length (socks_address target))"
  by (auto simp: socks_payload_offset_def get_at_def split: IpAddr.splits)

section \<open>Keys\<close>

definition KEY_SIZE_2017 :: nat where "KEY_SIZE_2017 = 32"
definition SALT_SIZE_2017 :: nat where "SALT_SIZE_2017 = 32"
definition NONCE_SIZE :: nat where "NONCE_SIZE = 12"
definition TAG_SIZE :: nat where "TAG_SIZE = 16"
definition TCP_CHUNK_LIMIT_2017 :: nat where "TCP_CHUNK_LIMIT_2017 = 0x3fff"

lemmas ss_sizes = KEY_SIZE_2017_def SALT_SIZE_2017_def NONCE_SIZE_def TAG_SIZE_def TCP_CHUNK_LIMIT_2017_def

text \<open>The loop of \<open>evp_bytes_to_key\<close>; it ends only because a digest is not empty.\<close>

partial_function (option) evp_loop :: "(bytes \<Rightarrow> bytes) \<Rightarrow> bytes \<Rightarrow> bytes \<Rightarrow> bytes \<Rightarrow> bytes option" where
  "evp_loop md5 password key previous =
     (if length key < KEY_SIZE_2017 then
        (let digest = md5 (previous @ password) in evp_loop md5 password (key @ digest) digest)
      else Some (take KEY_SIZE_2017 key))"

definition evp_bytes_to_key :: "Primitives \<Rightarrow> bytes \<Rightarrow> bytes option" where
  "evp_bytes_to_key pm password = evp_loop (pm_md5 pm) password [] []"

definition derive_subkey :: "Primitives \<Rightarrow> bytes \<Rightarrow> bytes \<Rightarrow> ClientError + bytes" where
  "derive_subkey pm key salt =
     (case pm_hkdf_sha1 pm salt key (as_bytes ''ss-subkey'') KEY_SIZE_2017 of
        None \<Rightarrow> Err (ClientError ''outbound-crypto'' ''failed deriving Shadowsocks AEAD subkey'')
      | Some subkey \<Rightarrow> Ok subkey)"

section \<open>The chunk stream\<close>

record AeadStream =
  st_key :: bytes
  st_nonce :: bytes

text \<open>\<open>new_from_slice\<close> refuses a key of the wrong length.\<close>

definition from_salt_2017 :: "Primitives \<Rightarrow> bytes \<Rightarrow> bytes \<Rightarrow> ClientError + AeadStream" where
  "from_salt_2017 pm key salt =
     and_then (derive_subkey pm key salt) (\<lambda>subkey.
       if length subkey = 32 then Ok \<lparr>st_key = subkey, st_nonce = replicate NONCE_SIZE 0\<rparr>
       else Err (ClientError ''outbound-crypto'' ''failed initializing AEAD cipher''))"

definition stream_encrypt_2017 :: "Primitives \<Rightarrow> AeadStream \<Rightarrow> bytes \<Rightarrow> (ClientError + bytes) \<times> AeadStream" where
  "stream_encrypt_2017 pm st plaintext =
     (case pm_seal pm (st_key st) (st_nonce st) [] plaintext of
        None \<Rightarrow> (Err (ClientError ''outbound-crypto'' ''Shadowsocks AEAD encrypt failed''), st)
      | Some encrypted \<Rightarrow> (Ok encrypted, st\<lparr>st_nonce := increment_nonce (st_nonce st)\<rparr>))"

definition stream_decrypt_2017 :: "Primitives \<Rightarrow> AeadStream \<Rightarrow> bytes \<Rightarrow> (ClientError + bytes) \<times> AeadStream" where
  "stream_decrypt_2017 pm st ciphertext =
     (case pm_open pm (st_key st) (st_nonce st) [] ciphertext of
        None \<Rightarrow> (Err (ClientError ''outbound-crypto'' ''Shadowsocks AEAD decrypt failed''), st)
      | Some decrypted \<Rightarrow> (Ok decrypted, st\<lparr>st_nonce := increment_nonce (st_nonce st)\<rparr>))"

text \<open>The bytes that \<open>encrypt_chunk\<close> appends to its output.\<close>

definition encrypt_chunk_2017 :: "Primitives \<Rightarrow> AeadStream \<Rightarrow> bytes \<Rightarrow> (ClientError + bytes) \<times> AeadStream" where
  "encrypt_chunk_2017 pm st payload =
     (if TCP_CHUNK_LIMIT_2017 < length payload then
        (Err (ClientError ''outbound-crypto'' ''Shadowsocks TCP chunk exceeds 16383 bytes''), st)
      else (case stream_encrypt_2017 pm st (u16_to_be (of_nat (length payload))) of
              (Inl e, st1) \<Rightarrow> (Err e, st1)
            | (Inr encrypted_length, st1) \<Rightarrow>
                (case stream_encrypt_2017 pm st1 payload of
                   (Inl e, st2) \<Rightarrow> (Err e, st2)
                 | (Inr encrypted_payload, st2) \<Rightarrow> (Ok (encrypted_length @ encrypted_payload), st2))))"

definition decrypt_chunk_2017 ::
    "Primitives \<Rightarrow> AeadStream \<Rightarrow> ByteSource \<Rightarrow> (ClientError + bytes option) \<times> AeadStream \<times> ByteSource" where
  "decrypt_chunk_2017 pm st src =
     (case read_exact (2 + TAG_SIZE) src of
        (Inl k, src1) \<Rightarrow>
          if k = UnexpectedEof then (Ok None, st, src1)
          else (Err (ClientError ''outbound-read'' ''failed reading Shadowsocks TCP length chunk''), st, src1)
      | (Inr encrypted_length, src1) \<Rightarrow>
          (case stream_decrypt_2017 pm st encrypted_length of
             (Inl e, st1) \<Rightarrow> (Err e, st1, src1)
           | (Inr len, st1) \<Rightarrow>
               if length len \<noteq> 2 then (Err (ClientError ''outbound-crypto'' ''invalid Shadowsocks TCP length chunk''), st1, src1)
               else (let n = unat (u16_from_be (len ! 0) (len ! 1)) in
                     if TCP_CHUNK_LIMIT_2017 < n then
                       (Err (ClientError ''outbound-crypto'' ''Shadowsocks TCP payload length exceeds limit''), st1, src1)
                     else (case read_exact (n + TAG_SIZE) src1 of
                             (Inl _, src2) \<Rightarrow>
                               (Err (ClientError ''outbound-read'' ''failed reading Shadowsocks TCP payload chunk''), st1, src2)
                           | (Inr encrypted_payload, src2) \<Rightarrow>
                               (case stream_decrypt_2017 pm st1 encrypted_payload of
                                  (Inl e, st2) \<Rightarrow> (Err e, st2, src2)
                                | (Inr payload, st2) \<Rightarrow> (Ok (Some payload), st2, src2))))))"

section \<open>Relaying\<close>

definition client_to_upstream_2017 ::
    "Primitives \<Rightarrow> (IoErrorKind + bytes) list \<Rightarrow> AeadStream \<Rightarrow> ByteSink \<Rightarrow> (ClientError + u64) \<times> ByteSink" where
  "client_to_upstream_2017 pm reads writer sink =
     (case copy_out (encrypt_chunk_2017 pm) TCP_CHUNK_LIMIT_2017
         (ClientError ''inbound-read'' ''failed reading TCP downstream'')
         (ClientError ''outbound-write'' ''failed writing Shadowsocks TCP chunk'') reads 0 writer sink of
        (Inl e, _, sink1) \<Rightarrow> (Err e, sink1)
      | (Inr n, _, sink1) \<Rightarrow>
          (case shutdown sink1 of
             (Inl _, sink2) \<Rightarrow> (Err (ClientError ''outbound-write'' ''failed shutting down Shadowsocks TCP writer''), sink2)
           | (Inr _, sink2) \<Rightarrow> (Ok n, sink2)))"

definition upstream_to_client_2017 ::
    "Primitives \<Rightarrow> bytes \<Rightarrow> ByteSource \<Rightarrow> ByteSink \<Rightarrow> ((ClientError + u64) \<times> ByteSink) option" where
  "upstream_to_client_2017 pm key src sink =
     (case read_exact SALT_SIZE_2017 src of
        (Inl _, _) \<Rightarrow> Some (Err (ClientError ''outbound-read'' ''failed reading Shadowsocks TCP response salt''), sink)
      | (Inr salt, src1) \<Rightarrow>
          (case from_salt_2017 pm key salt of
             Inl e \<Rightarrow> Some (Err e, sink)
           | Inr reader \<Rightarrow>
               map_option (\<lambda>(r, _, _, sink1). (r, sink1))
                 (copy_in (decrypt_chunk_2017 pm) (ClientError ''inbound-write'' ''failed writing TCP downstream'') 0 reader src1 sink)))"

definition relay_tcp_stream_2017 ::
    "Primitives \<Rightarrow> bytes \<Rightarrow> bytes \<Rightarrow> bytes \<Rightarrow> bool \<Rightarrow> RelayStreams \<Rightarrow> (ClientError + (u64 \<times> u64) \<times> RelayStreams) option" where
  "relay_tcp_stream_2017 pm key salt target_header out_first io =
     (case from_salt_2017 pm key salt of
        Inl e \<Rightarrow> Some (Err e)
      | Inr writer \<Rightarrow>
          (case encrypt_chunk_2017 pm writer target_header of
             (Inl e, _) \<Rightarrow> Some (Err e)
           | (Inr packet, writer1) \<Rightarrow>
               (case write_all (salt @ packet) (rl_upstream_sink io) of
                  (Inl _, _) \<Rightarrow> Some (Err (ClientError ''outbound-write'' ''failed writing Shadowsocks TCP header''))
                | (Inr _, sink) \<Rightarrow>
                    run_directions out_first io
                      (client_to_upstream_2017 pm (rl_downstream_reads io) writer1 sink)
                      (upstream_to_client_2017 pm key (rl_upstream io) (rl_downstream_sink io)))))"

section \<open>Datagrams\<close>

definition encrypt_udp_packet :: "Primitives \<Rightarrow> bytes \<Rightarrow> bytes \<Rightarrow> bytes \<Rightarrow> ClientError + bytes" where
  "encrypt_udp_packet pm key salt plaintext =
     and_then (derive_subkey pm key salt) (\<lambda>subkey.
       if length subkey \<noteq> 32 then Err (ClientError ''outbound-crypto'' ''failed initializing UDP AEAD cipher'')
       else (case pm_seal pm subkey (replicate NONCE_SIZE 0) [] plaintext of
               None \<Rightarrow> Err (ClientError ''outbound-crypto'' ''Shadowsocks UDP encrypt failed'')
             | Some encrypted \<Rightarrow> Ok (salt @ encrypted)))"

definition decrypt_udp_packet :: "Primitives \<Rightarrow> bytes \<Rightarrow> bytes \<Rightarrow> ClientError + bytes" where
  "decrypt_udp_packet pm key packet =
     (if length packet < SALT_SIZE_2017 + TAG_SIZE then
        Err (ClientError ''outbound-crypto'' ''Shadowsocks UDP packet is too short'')
      else and_then (derive_subkey pm key (take SALT_SIZE_2017 packet)) (\<lambda>subkey.
        if length subkey \<noteq> 32 then Err (ClientError ''outbound-crypto'' ''failed initializing UDP AEAD cipher'')
        else (case pm_open pm subkey (replicate NONCE_SIZE 0) [] (drop SALT_SIZE_2017 packet) of
                None \<Rightarrow> Err (ClientError ''outbound-crypto'' ''Shadowsocks UDP decrypt failed'')
              | Some plaintext \<Rightarrow> Ok plaintext)))"

definition encode_udp_datagram_2017 :: "Primitives \<Rightarrow> bytes \<Rightarrow> bytes \<Rightarrow> SocketAddr \<Rightarrow> bytes \<Rightarrow> ClientError + bytes" where
  "encode_udp_datagram_2017 pm key salt target payload = encrypt_udp_packet pm key salt (socks_address target @ payload)"

definition decode_udp_datagram_2017 :: "Primitives \<Rightarrow> bytes \<Rightarrow> bytes \<Rightarrow> ClientError + bytes" where
  "decode_udp_datagram_2017 pm key packet =
     and_then (decrypt_udp_packet pm key packet) (\<lambda>plaintext.
       and_then (socks_payload_offset plaintext) (\<lambda>offset. Ok (drop offset plaintext)))"

section \<open>Properties\<close>

text \<open>
  The key derivation returns for every password: with a digest of sixteen bytes, as MD5 has, the loop
  ends after two rounds, and the key has 32 bytes: the digest of the password, and the digest of that
  digest and the password.
\<close>

theorem evp_bytes_to_key_returns:
  assumes "\<And>x. length (pm_md5 pm x) = 16"
  shows "evp_bytes_to_key pm password =
      Some (pm_md5 pm password @ pm_md5 pm (pm_md5 pm password @ password)) \<and>
    length (pm_md5 pm password @ pm_md5 pm (pm_md5 pm password @ password)) = KEY_SIZE_2017"
  using assms
  by (simp add: evp_bytes_to_key_def evp_loop.simps [of _ _ "[]"] evp_loop.simps [of _ _ "pm_md5 pm password"]
      evp_loop.simps [of _ _ "_ @ _"] ss_sizes Let_def)

theorem evp_bytes_to_key_returns_witness:
  "evp_bytes_to_key plain_primitives (as_bytes ''pw'') = Some (replicate 32 1)"
proof -
  have md5: "pm_md5 plain_primitives = (\<lambda>x. replicate 16 1)" by (simp add: plain_primitives_def)
  show ?thesis
    using evp_bytes_to_key_returns [of plain_primitives "as_bytes ''pw''"] by (simp add: md5 replicate_add [symmetric])
qed

text \<open>Writer and reader of a chunk stream are in step.\<close>

definition stream_agree :: "Primitives \<Rightarrow> nat \<Rightarrow> AeadStream \<Rightarrow> AeadStream \<Rightarrow> bool" where
  "stream_agree pm key_size w r \<longleftrightarrow> gcm_ok pm \<and> w = r \<and> length (st_key w) = key_size \<and> (key_size = 16 \<or> key_size = 32) \<and>
     length (st_nonce w) = NONCE_SIZE"

lemma stream_step_2017:
  assumes "stream_agree pm key_size st st'" "length x < 65536"
  obtains c st1 where "stream_encrypt_2017 pm st x = (Ok c, st1)" "length c = length x + 16"
    "stream_decrypt_2017 pm st' c = (Ok x, st1)" "stream_agree pm key_size st1 st1"
proof -
  have "length x < 2 ^ 36" using assms(2) by simp
  then obtain c where c: "pm_seal pm (st_key st) (st_nonce st) [] x = Some c" "length c = length x + 16"
      "pm_open pm (st_key st) (st_nonce st) [] c = Some x"
    using assms(1) gcm_okE [of pm "st_key st" "st_nonce st" x "[]"] by (auto simp: stream_agree_def NONCE_SIZE_def)
  show thesis
    by (rule that [of c "st\<lparr>st_nonce := increment_nonce (st_nonce st)\<rparr>"])
      (use c assms(1) in \<open>auto simp: stream_encrypt_2017_def stream_decrypt_2017_def stream_agree_def\<close>)
qed

lemma chunk_step_2017:
  assumes "stream_agree pm key_size st st'" "length x \<le> TCP_CHUNK_LIMIT_2017"
  obtains packet st1 where "encrypt_chunk_2017 pm st x = (Ok packet, st1)" "stream_agree pm key_size st1 st1"
    "\<And>rest k. decrypt_chunk_2017 pm st' \<lparr>so_bytes = packet @ rest, so_failure = k\<rparr> = (Ok (Some x), st1, \<lparr>so_bytes = rest, so_failure = k\<rparr>)"
proof -
  let ?len = "u16_to_be (of_nat (length x))"
  have lim: "length x < 65536" "\<not> TCP_CHUNK_LIMIT_2017 < length x" using assms(2) by (simp_all add: ss_sizes)
  obtain c sa where c: "stream_encrypt_2017 pm st ?len = (Ok c, sa)" "length c = 18"
      "stream_decrypt_2017 pm st' c = (Ok ?len, sa)" "stream_agree pm key_size sa sa"
    using stream_step_2017 [OF assms(1), of ?len] by auto
  obtain d sb where d: "stream_encrypt_2017 pm sa x = (Ok d, sb)" "length d = length x + 16"
      "stream_decrypt_2017 pm sa d = (Ok x, sb)" "stream_agree pm key_size sb sb"
    using stream_step_2017 [OF c(4) lim(1)] by metis
  show thesis
  proof (rule that [of "c @ d" sb])
    show "encrypt_chunk_2017 pm st x = (Ok (c @ d), sb)" using c d lim by (simp add: encrypt_chunk_2017_def)
    show "decrypt_chunk_2017 pm st' \<lparr>so_bytes = (c @ d) @ rest, so_failure = k\<rparr> = (Ok (Some x), sb, \<lparr>so_bytes = rest, so_failure = k\<rparr>)" for rest k
      using c d lim read_exact_append [of c "d @ rest" k] read_exact_append [of d rest k]
      by (simp add: decrypt_chunk_2017_def ss_sizes unat_of_nat_u16 Let_def)
  qed (rule d(4))
qed

lemma decrypt_chunk_2017_consumes:
  "decrypt_chunk_2017 pm st src = (Ok (Some x), st', src') \<Longrightarrow> length (so_bytes src') < length (so_bytes src)"
  by (auto simp: decrypt_chunk_2017_def Let_def ss_sizes dest!: read_exact_length split: prod.splits sum.splits if_splits)

interpretation ss2017: chunk_codec "encrypt_chunk_2017 pm" "decrypt_chunk_2017 pm" "stream_agree pm key_size" TCP_CHUNK_LIMIT_2017
  for pm key_size
proof
  show "0 < TCP_CHUNK_LIMIT_2017" by (simp add: ss_sizes)
  show "\<exists>packet w' r'. encrypt_chunk_2017 pm w x = (Ok packet, w') \<and> stream_agree pm key_size w' r' \<and>
      (\<forall>rest k. decrypt_chunk_2017 pm r \<lparr>so_bytes = packet @ rest, so_failure = k\<rparr> = (Ok (Some x), r', \<lparr>so_bytes = rest, so_failure = k\<rparr>))"
    if "stream_agree pm key_size w r" "x \<noteq> []" "length x \<le> TCP_CHUNK_LIMIT_2017" for w r x
    using chunk_step_2017 [OF that(1,3)] by metis
  show "decrypt_chunk_2017 pm r src = (Ok (Some x), r', src') \<Longrightarrow> length (so_bytes src') < length (so_bytes src)" for r src x r' src'
    by (rule decrypt_chunk_2017_consumes)
  show "decrypt_chunk_2017 pm r \<lparr>so_bytes = [], so_failure = None\<rparr> = (Ok None, r, \<lparr>so_bytes = [], so_failure = None\<rparr>)" for r
    by (simp add: decrypt_chunk_2017_def read_exact_def)
qed

lemma from_salt_2017_ok:
  assumes "gcm_ok pm" "digests_ok pm"
  obtains st where "from_salt_2017 pm key salt = Ok st" "stream_agree pm 32 st st"
proof -
  have "(32 :: nat) \<le> 255 * 20" by simp
  then obtain k where "pm_hkdf_sha1 pm salt key (as_bytes ''ss-subkey'') 32 = Some k" "length k = 32"
    using assms(2) unfolding digests_ok_def by blast
  with assms(1) that show thesis
    by (auto simp: from_salt_2017_def derive_subkey_def stream_agree_def ss_sizes)
qed

lemma upstream_to_client_2017_returns: "\<exists>r. upstream_to_client_2017 pm key src sink = Some r"
proof -
  have "\<exists>y. copy_in (decrypt_chunk_2017 pm) e n st src' sink' = Some y" for e n st src' sink'
    by (rule ss2017.copy_in_returns)
  then show ?thesis by (fastforce simp: upstream_to_client_2017_def split: prod.splits sum.splits)
qed



section \<open>Datagrams arrive\<close>

lemma udp_roundtrip_2017:
  assumes "gcm_ok pm" "digests_ok pm" "length salt = SALT_SIZE_2017" "length payload < 65536"
  obtains packet where "encode_udp_datagram_2017 pm key salt target payload = Ok packet"
    "decode_udp_datagram_2017 pm key packet = Ok payload" "take SALT_SIZE_2017 packet = salt"
proof -
  let ?x = "socks_address target @ payload"
  have "(32 :: nat) \<le> 255 * 20" by simp
  then obtain k where k: "pm_hkdf_sha1 pm salt key (as_bytes ''ss-subkey'') 32 = Some k" "length k = 32"
    using assms(2) unfolding digests_ok_def by blast
  have "length ?x < 2 ^ 36" using assms(4) by (simp split: IpAddr.splits)
  then obtain c where c: "pm_seal pm k (replicate NONCE_SIZE 0) [] ?x = Some c" "length c = length ?x + 16"
      "pm_open pm k (replicate NONCE_SIZE 0) [] c = Some ?x"
    using gcm_okE [OF assms(1), of k "replicate NONCE_SIZE 0" ?x "[]"] k(2) by (auto simp: NONCE_SIZE_def)
  show thesis
  proof (rule that [of "salt @ c"])
    show "encode_udp_datagram_2017 pm key salt target payload = Ok (salt @ c)"
      using k c(1) by (simp add: encode_udp_datagram_2017_def encrypt_udp_packet_def derive_subkey_def KEY_SIZE_2017_def)
    show "decode_udp_datagram_2017 pm key (salt @ c) = Ok payload"
      using k c(2,3) assms(3) socks_payload_offset_address [of target payload]
      by (simp add: decode_udp_datagram_2017_def decrypt_udp_packet_def derive_subkey_def ss_sizes del: socks_address.simps)
  qed (use assms(3) in simp)
qed

end
