(* ===== verification/Ss_Replay.thy ===== *)
theory Ss_Replay
  imports Client_Crypto
begin

unbundle bit_operations_syntax

text \<open>
  The replay window of a Shadowsocks 2022 datagram session, \<open>prototype/shadowsocks/src/aead2022/replay.rs\<close>: the largest
  packet id and the bits of the 64 ids up to it. The specification keeps the set of all accepted ids.
\<close>

section \<open>The window\<close>

definition WINDOW_BITS :: u64 where "WINDOW_BITS = 64"

record ReplayWindow =
  rw_latest :: "u64 option"
  rw_seen :: u64

definition default_window :: ReplayWindow where
  "default_window = \<lparr>rw_latest = None, rw_seen = 0\<rparr>"

definition replay_error :: "string \<Rightarrow> ClientError" where
  "replay_error message = ClientError ''outbound-crypto'' (''Shadowsocks 2022 UDP replay check failed: '' @ message)"

definition check_and_update :: "u64 \<Rightarrow> ReplayWindow \<Rightarrow> (ClientError + unit) \<times> ReplayWindow" where
  "check_and_update packet_id w =
     (case rw_latest w of
        None \<Rightarrow> (Ok (), \<lparr>rw_latest = Some packet_id, rw_seen = 1\<rparr>)
      | Some latest \<Rightarrow>
          if latest < packet_id then
            (let shift = packet_id - latest in
             (Ok (), \<lparr>rw_latest = Some packet_id,
                rw_seen = (if WINDOW_BITS \<le> shift then 1 else push_bit (unat shift) (rw_seen w) OR 1)\<rparr>))
          else
            (let behind = latest - packet_id in
             if WINDOW_BITS \<le> behind then (Err (replay_error ''packet ID is outside the replay window''), w)
             else (let bit_mask = push_bit (unat behind) 1 in
               if rw_seen w AND bit_mask \<noteq> 0 then (Err (replay_error ''duplicate packet ID''), w)
               else (Ok (), w\<lparr>rw_seen := rw_seen w OR bit_mask\<rparr>))))"

section \<open>The specification\<close>

text \<open>An id is accepted when no id at least 64 above it was accepted before, and it was not itself.\<close>

definition spec_check :: "u64 \<Rightarrow> u64 set \<Rightarrow> (ClientError + unit) \<times> u64 set" where
  "spec_check x A =
     (if \<exists>y\<in>A. unat x + 64 \<le> unat y then (Err (replay_error ''packet ID is outside the replay window''), A)
      else if x \<in> A then (Err (replay_error ''duplicate packet ID''), A)
      else (Ok (), insert x A))"

text \<open>The window of a set of accepted ids.\<close>

definition window_of :: "ReplayWindow \<Rightarrow> u64 set \<Rightarrow> bool" where
  "window_of w A \<longleftrightarrow>
     (case rw_latest w of
        None \<Rightarrow> A = {}
      | Some latest \<Rightarrow> latest \<in> A \<and> (\<forall>y\<in>A. unat y \<le> unat latest) \<and>
          (\<forall>i<64. bit (rw_seen w) i \<longleftrightarrow> (\<exists>y\<in>A. unat y + i = unat latest)))"

lemma window_of_default: "window_of default_window {}"
  by (simp add: window_of_def default_window_def)

lemma bit_mask_iff:
  assumes "n < 64"
  shows "(w :: u64) AND push_bit n 1 = 0 \<longleftrightarrow> \<not> bit w n"
proof
  assume "w AND push_bit n 1 = 0"
  then have "\<not> bit (w AND push_bit n 1) n" by simp
  then show "\<not> bit w n" using assms by (simp add: bit_and_iff bit_exp_iff)
next
  assume "\<not> bit w n"
  then show "w AND push_bit n 1 = 0" by (intro bit_word_eqI) (auto simp: bit_and_iff bit_exp_iff)
qed

lemma unat_diff_u64: "(y :: u64) \<le> x \<Longrightarrow> unat (x - y) = unat x - unat y"
  by (simp add: unat_sub)

lemma check_and_update_forward:
  assumes "window_of w A" "rw_latest w = Some latest" "unat latest < unat x"
  shows "fst (check_and_update x w) = Ok ()" "window_of (snd (check_and_update x w)) (insert x A)"
proof -
  have l: "latest < x" using assms(3) by (simp add: word_less_nat_alt)
  then have s: "unat (x - latest) = unat x - unat latest" by (simp add: unat_diff_u64)
  have A: "latest \<in> A" "\<And>y. y \<in> A \<Longrightarrow> unat y \<le> unat latest"
    and seen: "\<And>i. i < 64 \<Longrightarrow> bit (rw_seen w) i \<longleftrightarrow> (\<exists>y\<in>A. unat y + i = unat latest)"
    using assms(1,2) by (auto simp: window_of_def)
  show "fst (check_and_update x w) = Ok ()" using assms(2) l by (simp add: check_and_update_def Let_def)
  have far: "WINDOW_BITS \<le> x - latest \<longleftrightarrow> 64 \<le> unat x - unat latest"
    using s by (simp add: word_le_nat_alt WINDOW_BITS_def)
  have bits: "bit (if WINDOW_BITS \<le> x - latest then 1 else push_bit (unat (x - latest)) (rw_seen w) OR 1) i \<longleftrightarrow>
      (\<exists>y\<in>insert x A. unat y + i = unat x)" if i: "i < 64" for i
  proof (cases "i = 0")
    case True
    then show ?thesis by (simp add: bit_simps)
  next
    case False
    then have x: "(\<exists>y\<in>insert x A. unat y + i = unat x) \<longleftrightarrow> (\<exists>y\<in>A. unat y + i = unat x)" by auto
    show ?thesis
    proof (cases "unat x - unat latest \<le> i")
      case True
      then have "(\<exists>y\<in>A. unat y + i = unat x) \<longleftrightarrow> (\<exists>y\<in>A. unat y + (i - (unat x - unat latest)) = unat latest)"
        using assms(3) by (intro bex_cong) auto
      with True False i x far s show ?thesis using seen [of "i - (unat x - unat latest)"] by (auto simp: bit_simps)
    next
      case less: False
      have "unat y + i \<noteq> unat x" if "y \<in> A" for y using A(2) [OF that] less assms(3) by simp
      with less False x far s show ?thesis by (auto simp: bit_simps)
    qed
  qed
  have "unat y \<le> unat x" if "y \<in> A" for y using A(2) [OF that] assms(3) by simp
  then show "window_of (snd (check_and_update x w)) (insert x A)"
    using assms(2) l bits by (simp add: check_and_update_def window_of_def Let_def)
qed

lemma check_and_update_backward:
  assumes "window_of w A" "rw_latest w = Some latest" "unat x \<le> unat latest"
  shows "fst (check_and_update x w) = fst (spec_check x A)" "window_of (snd (check_and_update x w)) (snd (spec_check x A))"
proof -
  have l: "\<not> latest < x" using assms(3) by (simp add: word_less_nat_alt)
  then have s: "unat (latest - x) = unat latest - unat x" by (simp add: unat_diff_u64)
  have A: "latest \<in> A" "\<And>y. y \<in> A \<Longrightarrow> unat y \<le> unat latest"
    and seen: "\<And>i. i < 64 \<Longrightarrow> bit (rw_seen w) i \<longleftrightarrow> (\<exists>y\<in>A. unat y + i = unat latest)"
    using assms(1,2) by (auto simp: window_of_def)
  have far: "WINDOW_BITS \<le> latest - x \<longleftrightarrow> (\<exists>y\<in>A. unat x + 64 \<le> unat y)"
  proof -
    have "WINDOW_BITS \<le> latest - x \<longleftrightarrow> unat x + 64 \<le> unat latest"
      using s assms(3) by (auto simp: word_le_nat_alt WINDOW_BITS_def)
    also have "\<dots> \<longleftrightarrow> (\<exists>y\<in>A. unat x + 64 \<le> unat y)" using A by (meson le_trans)
    finally show ?thesis .
  qed
  have mem: "bit (rw_seen w) (unat (latest - x)) \<longleftrightarrow> x \<in> A" if "\<not> WINDOW_BITS \<le> latest - x"
  proof -
    have "unat latest - unat x < 64" using that s by (simp add: word_le_nat_alt WINDOW_BITS_def)
    moreover have "unat y + (unat latest - unat x) = unat latest \<longleftrightarrow> y = x" for y
      using assms(3) by (auto simp: word_unat_eq_iff)
    ultimately show ?thesis using seen [of "unat latest - unat x"] s by simp
  qed
  have near: "unat (latest - x) < 64" if "\<not> WINDOW_BITS \<le> latest - x"
    using that by (simp add: word_le_nat_alt WINDOW_BITS_def)
  show "fst (check_and_update x w) = fst (spec_check x A)"
    using assms(2) l far mem near bit_mask_iff [of "unat (latest - x)" "rw_seen w"]
    by (auto simp: check_and_update_def spec_check_def Let_def)
  have bits: "bit (rw_seen w OR push_bit (unat (latest - x)) 1) i \<longleftrightarrow> (\<exists>y\<in>insert x A. unat y + i = unat latest)"
    if "i < 64" for i
    using that seen [OF that] s assms(3) by (auto simp: bit_simps)
  show "window_of (snd (check_and_update x w)) (snd (spec_check x A))"
    using assms l far mem near bit_mask_iff [of "unat (latest - x)" "rw_seen w"] bits A
    by (auto simp: check_and_update_def spec_check_def window_of_def Let_def)
qed

lemma check_and_update_refines:
  assumes "window_of w A"
  shows "fst (check_and_update x w) = fst (spec_check x A)" "window_of (snd (check_and_update x w)) (snd (spec_check x A))"
proof -
  consider (empty) "rw_latest w = None" | (forward) latest where "rw_latest w = Some latest" "unat latest < unat x"
    | (backward) latest where "rw_latest w = Some latest" "unat x \<le> unat latest"
    by (cases "rw_latest w") force+
  then have "fst (check_and_update x w) = fst (spec_check x A) \<and> window_of (snd (check_and_update x w)) (snd (spec_check x A))"
  proof cases
    case empty
    then show ?thesis
      using assms by (auto simp: check_and_update_def spec_check_def window_of_def bit_simps)
  next
    case forward
    then have "spec_check x A = (Ok (), insert x A)"
      using assms by (fastforce simp: spec_check_def window_of_def)
    then show ?thesis using check_and_update_forward [OF assms forward] by simp
  next
    case backward
    then show ?thesis using check_and_update_backward [OF assms] by blast
  qed
  then show "fst (check_and_update x w) = fst (spec_check x A)" "window_of (snd (check_and_update x w)) (snd (spec_check x A))"
    by simp_all
qed

section \<open>Sequences of packets\<close>

fun run_window :: "u64 list \<Rightarrow> ReplayWindow \<Rightarrow> (ClientError + unit) list" where
  "run_window [] w = []"
| "run_window (x # xs) w = (case check_and_update x w of (r, w') \<Rightarrow> r # run_window xs w')"

fun run_spec :: "u64 list \<Rightarrow> u64 set \<Rightarrow> (ClientError + unit) list" where
  "run_spec [] A = []"
| "run_spec (x # xs) A = (case spec_check x A of (r, A') \<Rightarrow> r # run_spec xs A')"

lemma run_window_refines: "window_of w A \<Longrightarrow> run_window xs w = run_spec xs A"
proof (induction xs arbitrary: w A)
  case (Cons x xs)
  then show ?case using check_and_update_refines [OF Cons.prems, of x] by (simp add: case_prod_beta)
qed simp

text \<open>
  C9. The replay window of 64 bits implements the set of all accepted ids: on every sequence of packet ids it gives
  exactly the answers of the specification, which accepts an id unless it was accepted before or lies 64 or
  more below an accepted one.
\<close>

theorem replay_window_refines_set: "run_window xs default_window = run_spec xs {}"
  by (rule run_window_refines [OF window_of_default])

end
