(* ===== verification/Ss_Aead2022.thy ===== *)
theory Ss_Aead2022
  imports Ss_Aead2017 Ss_Replay
begin

text \<open>
  The Shadowsocks client with \<open>2022-blake3-aes-128-gcm\<close>, \<open>prototype/shadowsocks/src/aead2022.rs\<close>, \<open>aead2022/crypto.rs\<close> and
  \<open>aead2022/udp.rs\<close>, and the client of \<open>lib.rs\<close> that dispatches to both versions. The clock in seconds and what the random
  generator draws (salts, padding, session ids) are arguments.
\<close>

section \<open>Keys\<close>

definition KEY_SIZE_2022 :: nat where "KEY_SIZE_2022 = 16"
definition SESSION_ID_SIZE :: nat where "SESSION_ID_SIZE = 8"
definition SEPARATE_HEADER_SIZE :: nat where "SEPARATE_HEADER_SIZE = 16"
definition HEADER_TYPE_CLIENT_PACKET :: u8 where "HEADER_TYPE_CLIENT_PACKET = 0"
definition HEADER_TYPE_SERVER_PACKET :: u8 where "HEADER_TYPE_SERVER_PACKET = 1"
definition TIMESTAMP_TOLERANCE_SECS :: u64 where "TIMESTAMP_TOLERANCE_SECS = 30"
definition SALT_SIZE_2022 :: nat where "SALT_SIZE_2022 = 16"
definition TCP_CHUNK_LIMIT_2022 :: nat where "TCP_CHUNK_LIMIT_2022 = 0xffff"
definition RESPONSE_FIXED_HEADER_SIZE :: nat where "RESPONSE_FIXED_HEADER_SIZE = 27"
definition HEADER_TYPE_CLIENT_STREAM :: u8 where "HEADER_TYPE_CLIENT_STREAM = 0"
definition HEADER_TYPE_SERVER_STREAM :: u8 where "HEADER_TYPE_SERVER_STREAM = 1"

lemmas ss2022_sizes = KEY_SIZE_2022_def SESSION_ID_SIZE_def SEPARATE_HEADER_SIZE_def HEADER_TYPE_CLIENT_PACKET_def
  HEADER_TYPE_SERVER_PACKET_def TIMESTAMP_TOLERANCE_SECS_def SALT_SIZE_2022_def TCP_CHUNK_LIMIT_2022_def
  RESPONSE_FIXED_HEADER_SIZE_def HEADER_TYPE_CLIENT_STREAM_def HEADER_TYPE_SERVER_STREAM_def NONCE_SIZE_def TAG_SIZE_def

definition new_aes_128_gcm :: "Primitives \<Rightarrow> string \<Rightarrow> ClientError + bytes" where
  "new_aes_128_gcm pm password =
     (case pm_base64_decode pm password of
        None \<Rightarrow> Err (ClientError ''outbound-config'' ''2022-blake3-aes-128-gcm password must be base64'')
      | Some key \<Rightarrow>
          if length key = KEY_SIZE_2022 then Ok key
          else Err (ClientError ''outbound-config'' ''2022-blake3-aes-128-gcm password must decode to 16 bytes''))"

definition session_subkey :: "Primitives \<Rightarrow> bytes \<Rightarrow> bytes \<Rightarrow> bytes" where
  "session_subkey pm key salt = take KEY_SIZE_2022 (pm_blake3_derive_key pm ''shadowsocks 2022 session subkey'' (key @ salt))"

definition session_cipher :: "Primitives \<Rightarrow> bytes \<Rightarrow> bytes \<Rightarrow> ClientError + bytes" where
  "session_cipher pm key salt =
     (if length (session_subkey pm key salt) = 16 then Ok (session_subkey pm key salt)
      else Err (ClientError ''outbound-crypto'' ''failed initializing Shadowsocks 2022 AEAD cipher''))"

definition block_cipher :: "bytes \<Rightarrow> ClientError + bytes" where
  "block_cipher key =
     (if length key = 16 then Ok key
      else Err (ClientError ''outbound-crypto'' ''failed initializing Shadowsocks 2022 AES block cipher''))"

definition encrypt_separate_header :: "Primitives \<Rightarrow> bytes \<Rightarrow> bytes \<Rightarrow> ClientError + bytes" where
  "encrypt_separate_header pm key separate_header =
     and_then (block_cipher key) (\<lambda>k. Ok (pm_aes_encrypt pm k separate_header))"

definition decrypt_separate_header :: "Primitives \<Rightarrow> bytes \<Rightarrow> bytes \<Rightarrow> ClientError + bytes" where
  "decrypt_separate_header pm key encrypted_header =
     and_then (block_cipher key) (\<lambda>k. Ok (pm_aes_decrypt pm k encrypted_header))"

definition validate_timestamp :: "u64 \<Rightarrow> u64 \<Rightarrow> string \<Rightarrow> ClientError + unit" where
  "validate_timestamp now timestamp context =
     (let delta = (if timestamp \<le> now then now - timestamp else timestamp - now) in
      if TIMESTAMP_TOLERANCE_SECS < delta then
        Err (ClientError ''outbound-crypto'' (''Shadowsocks 2022 '' @ context @ '' timestamp outside replay window''))
      else Ok ())"

section \<open>The chunk stream\<close>

definition from_salt_2022 :: "Primitives \<Rightarrow> bytes \<Rightarrow> bytes \<Rightarrow> ClientError + AeadStream" where
  "from_salt_2022 pm key salt =
     and_then (session_cipher pm key salt) (\<lambda>cipher. Ok \<lparr>st_key = cipher, st_nonce = replicate NONCE_SIZE 0\<rparr>)"

definition stream_encrypt_2022 :: "Primitives \<Rightarrow> AeadStream \<Rightarrow> bytes \<Rightarrow> (ClientError + bytes) \<times> AeadStream" where
  "stream_encrypt_2022 pm st plaintext =
     (case pm_seal pm (st_key st) (st_nonce st) [] plaintext of
        None \<Rightarrow> (Err (ClientError ''outbound-crypto'' ''Shadowsocks 2022 AEAD encrypt failed''), st)
      | Some encrypted \<Rightarrow> (Ok encrypted, st\<lparr>st_nonce := increment_nonce (st_nonce st)\<rparr>))"

definition stream_decrypt_2022 :: "Primitives \<Rightarrow> AeadStream \<Rightarrow> bytes \<Rightarrow> (ClientError + bytes) \<times> AeadStream" where
  "stream_decrypt_2022 pm st ciphertext =
     (case pm_open pm (st_key st) (st_nonce st) [] ciphertext of
        None \<Rightarrow> (Err (ClientError ''outbound-crypto'' ''Shadowsocks 2022 AEAD decrypt failed''), st)
      | Some decrypted \<Rightarrow> (Ok decrypted, st\<lparr>st_nonce := increment_nonce (st_nonce st)\<rparr>))"

text \<open>Two ciphertexts after each other, as the request header and every chunk are written.\<close>

definition encrypt_pair_2022 :: "Primitives \<Rightarrow> AeadStream \<Rightarrow> bytes \<Rightarrow> bytes \<Rightarrow> (ClientError + bytes) \<times> AeadStream" where
  "encrypt_pair_2022 pm st x y =
     (case stream_encrypt_2022 pm st x of
        (Inl e, st1) \<Rightarrow> (Err e, st1)
      | (Inr c, st1) \<Rightarrow>
          (case stream_encrypt_2022 pm st1 y of
             (Inl e, st2) \<Rightarrow> (Err e, st2)
           | (Inr d, st2) \<Rightarrow> (Ok (c @ d), st2)))"

definition encrypt_chunk_2022 :: "Primitives \<Rightarrow> AeadStream \<Rightarrow> bytes \<Rightarrow> (ClientError + bytes) \<times> AeadStream" where
  "encrypt_chunk_2022 pm st payload =
     (if TCP_CHUNK_LIMIT_2022 < length payload then
        (Err (ClientError ''outbound-crypto'' ''Shadowsocks 2022 TCP chunk exceeds 65535 bytes''), st)
      else encrypt_pair_2022 pm st (u16_to_be (of_nat (length payload))) payload)"

definition encrypt_request_header :: "Primitives \<Rightarrow> u64 \<Rightarrow> bytes \<Rightarrow> AeadStream \<Rightarrow> bytes \<Rightarrow> (ClientError + bytes) \<times> AeadStream" where
  "encrypt_request_header pm now padding st target_header =
     (let variable = target_header @ u16_to_be (of_nat (length padding)) @ padding in
      let fixed_header = [HEADER_TYPE_CLIENT_STREAM] @ u64_be_bytes now @ u16_to_be (of_nat (length variable)) in
      encrypt_pair_2022 pm st fixed_header variable)"

definition read_payload_chunk ::
    "Primitives \<Rightarrow> nat \<Rightarrow> AeadStream \<Rightarrow> ByteSource \<Rightarrow> (ClientError + bytes) \<times> AeadStream \<times> ByteSource" where
  "read_payload_chunk pm chunk_size st src =
     (case read_exact (chunk_size + TAG_SIZE) src of
        (Inl _, src1) \<Rightarrow> (Err (ClientError ''outbound-read'' ''failed reading Shadowsocks 2022 TCP payload chunk''), st, src1)
      | (Inr encrypted_payload, src1) \<Rightarrow>
          (case stream_decrypt_2022 pm st encrypted_payload of (r, st1) \<Rightarrow> (r, st1, src1)))"

definition decrypt_response_header ::
    "Primitives \<Rightarrow> u64 \<Rightarrow> bytes \<Rightarrow> AeadStream \<Rightarrow> ByteSource \<Rightarrow> (ClientError + nat) \<times> AeadStream \<times> ByteSource" where
  "decrypt_response_header pm now request_salt st src =
     (case read_exact (RESPONSE_FIXED_HEADER_SIZE + TAG_SIZE) src of
        (Inl _, src1) \<Rightarrow> (Err (ClientError ''outbound-read'' ''failed reading Shadowsocks 2022 TCP response header''), st, src1)
      | (Inr encrypted_header, src1) \<Rightarrow>
          (case stream_decrypt_2022 pm st encrypted_header of
             (Inl e, st1) \<Rightarrow> (Err e, st1, src1)
           | (Inr header, st1) \<Rightarrow>
               (if length header \<noteq> RESPONSE_FIXED_HEADER_SIZE then
                  Err (ClientError ''outbound-crypto'' ''invalid Shadowsocks 2022 TCP response header length'')
                else if header ! 0 \<noteq> HEADER_TYPE_SERVER_STREAM then
                  Err (ClientError ''outbound-crypto'' ''invalid Shadowsocks 2022 TCP response header type'')
                else and_then (validate_timestamp now (u64_of_be (take 8 (drop 1 header))) ''TCP response'') (\<lambda>_.
                  if take 16 (drop 9 header) \<noteq> request_salt then
                    Err (ClientError ''outbound-crypto'' ''invalid Shadowsocks 2022 TCP response request salt'')
                  else Ok (unat (u16_from_be (header ! 25) (header ! 26)))), st1, src1)))"

definition decrypt_chunk_2022 ::
    "Primitives \<Rightarrow> AeadStream \<Rightarrow> ByteSource \<Rightarrow> (ClientError + bytes option) \<times> AeadStream \<times> ByteSource" where
  "decrypt_chunk_2022 pm st src =
     (case read_exact (2 + TAG_SIZE) src of
        (Inl k, src1) \<Rightarrow>
          if k = UnexpectedEof then (Ok None, st, src1)
          else (Err (ClientError ''outbound-read'' ''failed reading Shadowsocks 2022 TCP length chunk''), st, src1)
      | (Inr encrypted_length, src1) \<Rightarrow>
          (case stream_decrypt_2022 pm st encrypted_length of
             (Inl e, st1) \<Rightarrow> (Err e, st1, src1)
           | (Inr len, st1) \<Rightarrow>
               if length len \<noteq> 2 then (Err (ClientError ''outbound-crypto'' ''invalid Shadowsocks 2022 TCP length chunk''), st1, src1)
               else (case read_payload_chunk pm (unat (u16_from_be (len ! 0) (len ! 1))) st1 src1 of
                       (r, st2, src2) \<Rightarrow> (map_sum id Some r, st2, src2))))"

section \<open>Relaying\<close>

definition client_to_upstream_2022 ::
    "Primitives \<Rightarrow> (IoErrorKind + bytes) list \<Rightarrow> AeadStream \<Rightarrow> ByteSink \<Rightarrow> (ClientError + u64) \<times> ByteSink" where
  "client_to_upstream_2022 pm reads writer sink =
     (case copy_out (encrypt_chunk_2022 pm) TCP_CHUNK_LIMIT_2022
         (ClientError ''inbound-read'' ''failed reading TCP downstream'')
         (ClientError ''outbound-write'' ''failed writing Shadowsocks 2022 TCP chunk'') reads 0 writer sink of
        (Inl e, _, sink1) \<Rightarrow> (Err e, sink1)
      | (Inr n, _, sink1) \<Rightarrow>
          (case shutdown sink1 of
             (Inl _, sink2) \<Rightarrow> (Err (ClientError ''outbound-write'' ''failed shutting down Shadowsocks 2022 TCP writer''), sink2)
           | (Inr _, sink2) \<Rightarrow> (Ok n, sink2)))"

definition upstream_to_client_2022 ::
    "Primitives \<Rightarrow> bytes \<Rightarrow> u64 \<Rightarrow> bytes \<Rightarrow> ByteSource \<Rightarrow> ByteSink \<Rightarrow> ((ClientError + u64) \<times> ByteSink) option" where
  "upstream_to_client_2022 pm key now salt src sink =
     (let write_error = ClientError ''inbound-write'' ''failed writing TCP downstream'' in
      case read_exact SALT_SIZE_2022 src of
        (Inl _, _) \<Rightarrow> Some (Err (ClientError ''outbound-read'' ''failed reading Shadowsocks 2022 TCP response salt''), sink)
      | (Inr response_salt, src1) \<Rightarrow>
          (case from_salt_2022 pm key response_salt of
             Inl e \<Rightarrow> Some (Err e, sink)
           | Inr reader \<Rightarrow>
               (case decrypt_response_header pm now salt reader src1 of
                  (Inl e, _, _) \<Rightarrow> Some (Err e, sink)
                | (Inr first_length, reader1, src2) \<Rightarrow>
                    (case read_payload_chunk pm first_length reader1 src2 of
                       (Inl e, _, _) \<Rightarrow> Some (Err e, sink)
                     | (Inr bs, reader2, src3) \<Rightarrow>
                         (case (if bs = [] then (Ok (), sink) else write_all bs sink) of
                            (Inl _, sink1) \<Rightarrow> Some (Err write_error, sink1)
                          | (Inr _, sink1) \<Rightarrow>
                              map_option (\<lambda>(r, _, _, sink2). (r, sink2))
                                (copy_in (decrypt_chunk_2022 pm) write_error (of_nat (length bs)) reader2 src3 sink1))))))"

text \<open>\<open>now\<close> is the time of the request, \<open>later\<close> that of the response.\<close>

definition relay_tcp_stream_2022 ::
    "Primitives \<Rightarrow> bytes \<Rightarrow> bytes \<Rightarrow> bytes \<Rightarrow> u64 \<Rightarrow> u64 \<Rightarrow> bytes \<Rightarrow> bool \<Rightarrow> RelayStreams \<Rightarrow>
      (ClientError + (u64 \<times> u64) \<times> RelayStreams) option" where
  "relay_tcp_stream_2022 pm key salt padding now later target_header out_first io =
     (case from_salt_2022 pm key salt of
        Inl e \<Rightarrow> Some (Err e)
      | Inr writer \<Rightarrow>
          (case encrypt_request_header pm now padding writer target_header of
             (Inl e, _) \<Rightarrow> Some (Err e)
           | (Inr packet, writer1) \<Rightarrow>
               (case write_all (salt @ packet) (rl_upstream_sink io) of
                  (Inl _, _) \<Rightarrow> Some (Err (ClientError ''outbound-write'' ''failed writing Shadowsocks 2022 TCP header''))
                | (Inr _, sink) \<Rightarrow>
                    run_directions out_first io
                      (client_to_upstream_2022 pm (rl_downstream_reads io) writer1 sink)
                      (upstream_to_client_2022 pm key later salt (rl_upstream io) (rl_downstream_sink io)))))"

section \<open>Datagrams\<close>

record UdpSession2022 =
  us_key :: bytes
  us_session_id :: bytes
  us_packet_id :: u64
  us_server_windows :: "bytes \<rightharpoonup> ReplayWindow"

definition udp_session_2022 :: "bytes \<Rightarrow> bytes \<Rightarrow> UdpSession2022" where
  "udp_session_2022 key session_id =
     \<lparr>us_key = key, us_session_id = session_id, us_packet_id = 0, us_server_windows = Map.empty\<rparr>"

definition encrypt_udp_body :: "Primitives \<Rightarrow> bytes \<Rightarrow> bytes \<Rightarrow> bytes \<Rightarrow> ClientError + bytes" where
  "encrypt_udp_body pm key separate_header body =
     and_then (encrypt_separate_header pm key separate_header) (\<lambda>encrypted_header.
       and_then (session_cipher pm key (take SESSION_ID_SIZE separate_header)) (\<lambda>cipher.
         case pm_seal pm cipher (drop 4 separate_header) [] body of
           None \<Rightarrow> Err (ClientError ''outbound-crypto'' ''Shadowsocks 2022 UDP encrypt failed'')
         | Some encrypted_body \<Rightarrow> Ok (encrypted_header @ encrypted_body)))"

definition decrypt_udp_body :: "Primitives \<Rightarrow> bytes \<Rightarrow> bytes \<Rightarrow> bytes \<Rightarrow> ClientError + bytes" where
  "decrypt_udp_body pm key separate_header encrypted_body =
     and_then (session_cipher pm key (take SESSION_ID_SIZE separate_header)) (\<lambda>cipher.
       case pm_open pm cipher (drop 4 separate_header) [] encrypted_body of
         None \<Rightarrow> Err (ClientError ''outbound-crypto'' ''Shadowsocks 2022 UDP decrypt failed'')
       | Some plaintext \<Rightarrow> Ok plaintext)"

definition encode_udp_datagram_2022 ::
    "Primitives \<Rightarrow> u64 \<Rightarrow> SocketAddr \<Rightarrow> bytes \<Rightarrow> UdpSession2022 \<Rightarrow> (ClientError + bytes) \<times> UdpSession2022" where
  "encode_udp_datagram_2022 pm now target payload s =
     (let packet_id = us_packet_id s in
      if packet_id = - 1 then (Err (ClientError ''outbound-crypto'' ''Shadowsocks 2022 UDP packet ID overflow''), s)
      else
        (let s1 = s\<lparr>us_packet_id := packet_id + 1\<rparr>;
             separate_header = us_session_id s1 @ u64_be_bytes packet_id;
             body = [HEADER_TYPE_CLIENT_PACKET] @ u64_be_bytes now @ u16_to_be 0 @ socks_address target @ payload
         in (encrypt_udp_body pm (us_key s1) separate_header body, s1)))"

definition decode_server_packet :: "u64 \<Rightarrow> bytes \<Rightarrow> bytes \<Rightarrow> ClientError + bytes" where
  "decode_server_packet now client_session_id plaintext =
     (if length plaintext < 1 + 8 + SESSION_ID_SIZE + 2 then Err (packet_error ''truncated Shadowsocks 2022 UDP header'')
      else if plaintext ! 0 \<noteq> HEADER_TYPE_SERVER_PACKET then Err (packet_error ''unsupported Shadowsocks 2022 UDP packet type'')
      else and_then (validate_timestamp now (u64_of_be (take 8 (drop 1 plaintext))) ''UDP packet'') (\<lambda>_.
        let session_start = 1 + 8;
            session_end = session_start + SESSION_ID_SIZE
        in if take SESSION_ID_SIZE (drop session_start plaintext) \<noteq> client_session_id then
             Err (packet_error ''unexpected Shadowsocks 2022 client session ID'')
           else
             (let padding_start = session_end + 2;
                  padding_len = u16_from_be (plaintext ! session_end) (plaintext ! (session_end + 1));
                  address_start = padding_start + unat padding_len
              in if length plaintext < address_start then Err (packet_error ''truncated Shadowsocks 2022 UDP padding'')
                 else and_then (socks_payload_offset (drop address_start plaintext)) (\<lambda>offset.
                   Ok (drop (address_start + offset) plaintext)))))"

definition decode_udp_datagram_2022 ::
    "Primitives \<Rightarrow> u64 \<Rightarrow> bytes \<Rightarrow> UdpSession2022 \<Rightarrow> (ClientError + bytes) \<times> UdpSession2022" where
  "decode_udp_datagram_2022 pm now packet s =
     (if length packet < SEPARATE_HEADER_SIZE + TAG_SIZE then
        (Err (ClientError ''outbound-crypto'' ''Shadowsocks 2022 UDP packet is too short''), s)
      else
        (case decrypt_separate_header pm (us_key s) (take SEPARATE_HEADER_SIZE packet) of
           Inl e \<Rightarrow> (Err e, s)
         | Inr separate_header \<Rightarrow>
             (let server_session_id = take SESSION_ID_SIZE separate_header in
              if server_session_id = us_session_id s then
                (Err (packet_error ''server reused Shadowsocks 2022 client session ID''), s)
              else
                (let server_packet_id = u64_of_be (drop SESSION_ID_SIZE separate_header) in
                 case and_then (decrypt_udp_body pm (us_key s) separate_header (drop SEPARATE_HEADER_SIZE packet))
                        (decode_server_packet now (us_session_id s)) of
                   Inl e \<Rightarrow> (Err e, s)
                 | Inr payload \<Rightarrow>
                     (let entry = (case us_server_windows s server_session_id of None \<Rightarrow> default_window | Some w \<Rightarrow> w) in
                      case check_and_update server_packet_id entry of
                        (r, w) \<Rightarrow>
                          (case r of Inl e \<Rightarrow> Err e | Inr _ \<Rightarrow> Ok payload,
                           s\<lparr>us_server_windows := (us_server_windows s)(server_session_id \<mapsto> w)\<rparr>))))))"

section \<open>The client of both versions\<close>

datatype Method = Aes256Gcm | Blake3Aes128Gcm2022

record ClientConfig =
  cf_server :: string
  cf_port :: u16
  cf_method :: Method
  cf_password :: string

datatype Protocol = Aead2017 bytes | Aead2022 bytes

record Client =
  cl_server :: string
  cl_port :: u16
  cl_protocol :: Protocol

datatype UdpProtocol = UdpAead2017 bytes | UdpAead2022 UdpSession2022

text \<open>\<open>None\<close> is a derivation of the key that does not return.\<close>

definition try_new :: "Primitives \<Rightarrow> ClientConfig \<Rightarrow> (ClientError + Client) option" where
  "try_new pm config =
     map_option (\<lambda>r. and_then r (\<lambda>protocol. Ok \<lparr>cl_server = cf_server config, cl_port = cf_port config, cl_protocol = protocol\<rparr>))
       (case cf_method config of
          Aes256Gcm \<Rightarrow> map_option (\<lambda>key. Ok (Aead2017 key)) (evp_bytes_to_key pm (as_bytes (cf_password config)))
        | Blake3Aes128Gcm2022 \<Rightarrow> Some (map_sum id Aead2022 (new_aes_128_gcm pm (cf_password config))))"

text \<open>What the random generator and the clock give to one relay or one datagram.\<close>

record Draws =
  dr_salt :: "nat \<Rightarrow> bytes"
  dr_padding :: bytes
  dr_session_id :: bytes
  dr_now :: u64
  dr_later :: u64

definition udp_session :: "Draws \<Rightarrow> Client \<Rightarrow> UdpProtocol" where
  "udp_session dr c =
     (case cl_protocol c of
        Aead2017 key \<Rightarrow> UdpAead2017 key
      | Aead2022 key \<Rightarrow> UdpAead2022 (udp_session_2022 key (dr_session_id dr)))"

definition relay_tcp_with_io ::
    "Primitives \<Rightarrow> Draws \<Rightarrow> Client \<Rightarrow> SocketAddr \<Rightarrow> bool \<Rightarrow> RelayStreams \<Rightarrow> (ClientError + (u64 \<times> u64) \<times> RelayStreams) option" where
  "relay_tcp_with_io pm dr c target out_first io =
     (let target_header = socks_address target in
      case cl_protocol c of
        Aead2017 key \<Rightarrow> relay_tcp_stream_2017 pm key (dr_salt dr SALT_SIZE_2017) target_header out_first io
      | Aead2022 key \<Rightarrow>
          relay_tcp_stream_2022 pm key (dr_salt dr SALT_SIZE_2022) (dr_padding dr) (dr_now dr) (dr_later dr) target_header out_first io)"

definition session_encode_udp_datagram ::
    "Primitives \<Rightarrow> Draws \<Rightarrow> SocketAddr \<Rightarrow> bytes \<Rightarrow> UdpProtocol \<Rightarrow> (ClientError + bytes) \<times> UdpProtocol" where
  "session_encode_udp_datagram pm dr target payload protocol =
     (case protocol of
        UdpAead2017 key \<Rightarrow> (encode_udp_datagram_2017 pm key (dr_salt dr SALT_SIZE_2017) target payload, protocol)
      | UdpAead2022 s \<Rightarrow> map_prod id UdpAead2022 (encode_udp_datagram_2022 pm (dr_now dr) target payload s))"

definition session_decode_udp_datagram :: "Primitives \<Rightarrow> Draws \<Rightarrow> bytes \<Rightarrow> UdpProtocol \<Rightarrow> (ClientError + bytes) \<times> UdpProtocol" where
  "session_decode_udp_datagram pm dr packet protocol =
     (case protocol of
        UdpAead2017 key \<Rightarrow> (decode_udp_datagram_2017 pm key packet, protocol)
      | UdpAead2022 s \<Rightarrow> map_prod id UdpAead2022 (decode_udp_datagram_2022 pm (dr_now dr) packet s))"

text \<open>The client without a session opens a new one for every datagram.\<close>

definition client_encode_udp_datagram :: "Primitives \<Rightarrow> Draws \<Rightarrow> SocketAddr \<Rightarrow> bytes \<Rightarrow> Client \<Rightarrow> ClientError + bytes" where
  "client_encode_udp_datagram pm dr target payload c = fst (session_encode_udp_datagram pm dr target payload (udp_session dr c))"

definition client_decode_udp_datagram :: "Primitives \<Rightarrow> Draws \<Rightarrow> bytes \<Rightarrow> Client \<Rightarrow> ClientError + bytes" where
  "client_decode_udp_datagram pm dr packet c = fst (session_decode_udp_datagram pm dr packet (udp_session dr c))"

end
