(* ===== verification/Ss_Sessions.thy ===== *)
theory Ss_Sessions
  imports Ss_Aead2022
begin

text \<open>
  What the Shadowsocks 2022 client promises: no datagram is accepted twice and no packet id is used twice in a
  session, datagrams of the server reach the application, and a response over TCP belongs to its request.
\<close>

section \<open>Sessions\<close>

datatype SessionStep = EncodeStep u64 SocketAddr bytes | DecodeStep u64 bytes

fun session_step :: "Primitives \<Rightarrow> SessionStep \<Rightarrow> UdpSession2022 \<Rightarrow> (ClientError + bytes) \<times> UdpSession2022" where
  "session_step pm (EncodeStep now target payload) s = encode_udp_datagram_2022 pm now target payload s"
| "session_step pm (DecodeStep now packet) s = decode_udp_datagram_2022 pm now packet s"

text \<open>Server session and packet id of a datagram, and the ids of the accepted and of the sent datagrams of a run.\<close>

definition datagram_ids :: "Primitives \<Rightarrow> bytes \<Rightarrow> bytes \<Rightarrow> bytes \<times> u64" where
  "datagram_ids pm key packet =
     (let h = pm_aes_decrypt pm key (take SEPARATE_HEADER_SIZE packet) in (take SESSION_ID_SIZE h, u64_of_be (drop SESSION_ID_SIZE h)))"

fun accepted_ids :: "Primitives \<Rightarrow> SessionStep list \<Rightarrow> UdpSession2022 \<Rightarrow> (bytes \<times> u64) list" where
  "accepted_ids pm [] s = []"
| "accepted_ids pm (EncodeStep now target payload # steps) s =
     accepted_ids pm steps (snd (encode_udp_datagram_2022 pm now target payload s))"
| "accepted_ids pm (DecodeStep now packet # steps) s =
     (case decode_udp_datagram_2022 pm now packet s of
        (Inl _, s') \<Rightarrow> accepted_ids pm steps s'
      | (Inr _, s') \<Rightarrow> datagram_ids pm (us_key s) packet # accepted_ids pm steps s')"

text \<open>The datagrams that the session has produced, and the nonce that the header of a datagram determines.\<close>

fun sent_datagrams :: "Primitives \<Rightarrow> SessionStep list \<Rightarrow> UdpSession2022 \<Rightarrow> bytes list" where
  "sent_datagrams pm [] s = []"
| "sent_datagrams pm (DecodeStep now packet # steps) s = sent_datagrams pm steps (snd (decode_udp_datagram_2022 pm now packet s))"
| "sent_datagrams pm (EncodeStep now target payload # steps) s =
     (case encode_udp_datagram_2022 pm now target payload s of
        (Inl _, s') \<Rightarrow> sent_datagrams pm steps s'
      | (Inr packet, s') \<Rightarrow> packet # sent_datagrams pm steps s')"

definition datagram_nonce :: "Primitives \<Rightarrow> bytes \<Rightarrow> bytes \<Rightarrow> bytes" where
  "datagram_nonce pm key packet = drop 4 (pm_aes_decrypt pm key (take SEPARATE_HEADER_SIZE packet))"

fun step_small :: "SessionStep \<Rightarrow> bool" where
  "step_small (EncodeStep now target payload) = (length payload < 65536)"
| "step_small (DecodeStep now packet) = True"

section \<open>No replays\<close>

definition window_at :: "UdpSession2022 \<Rightarrow> bytes \<Rightarrow> ReplayWindow" where
  "window_at s sid = (case us_server_windows s sid of None \<Rightarrow> default_window | Some w \<Rightarrow> w)"

definition windows_of :: "UdpSession2022 \<Rightarrow> (bytes \<times> u64) set \<Rightarrow> bool" where
  "windows_of s acc \<longleftrightarrow> (\<forall>sid. window_of (window_at s sid) {pid. (sid, pid) \<in> acc})"

lemma windows_of_new: "windows_of (udp_session_2022 key sid) {}"
  by (simp add: windows_of_def window_at_def udp_session_2022_def window_of_default)

lemma encode_keeps [simp]:
  "us_server_windows (snd (encode_udp_datagram_2022 pm now target payload s)) = us_server_windows s"
  "us_key (snd (encode_udp_datagram_2022 pm now target payload s)) = us_key s"
  "us_session_id (snd (encode_udp_datagram_2022 pm now target payload s)) = us_session_id s"
  by (simp_all add: encode_udp_datagram_2022_def Let_def)

lemma decode_keeps [simp]:
  "us_packet_id (snd (decode_udp_datagram_2022 pm now packet s)) = us_packet_id s"
  "us_key (snd (decode_udp_datagram_2022 pm now packet s)) = us_key s"
  "us_session_id (snd (decode_udp_datagram_2022 pm now packet s)) = us_session_id s"
  by (simp_all add: decode_udp_datagram_2022_def Let_def split: sum.splits prod.splits)

text \<open>A decoded datagram fails without an effect, or it updates the window of its session.\<close>

lemma decode_outcome:
  obtains (failed) e where "decode_udp_datagram_2022 pm now packet s = (Err e, s)"
  | (checked) sid pid payload where "datagram_ids pm (us_key s) packet = (sid, pid)" "sid \<noteq> us_session_id s"
    "decode_udp_datagram_2022 pm now packet s =
      (case fst (check_and_update pid (window_at s sid)) of Inl e \<Rightarrow> Err e | Inr _ \<Rightarrow> Ok payload,
       s\<lparr>us_server_windows := (us_server_windows s)(sid \<mapsto> snd (check_and_update pid (window_at s sid)))\<rparr>)"
proof -
  let ?header = "decrypt_separate_header pm (us_key s) (take SEPARATE_HEADER_SIZE packet)"
  let ?body = "\<lambda>h. and_then (decrypt_udp_body pm (us_key s) h (drop SEPARATE_HEADER_SIZE packet)) (decode_server_packet now (us_session_id s))"
  consider "length packet < SEPARATE_HEADER_SIZE + TAG_SIZE"
    | e where "\<not> length packet < SEPARATE_HEADER_SIZE + TAG_SIZE" "?header = Err e"
    | h where "\<not> length packet < SEPARATE_HEADER_SIZE + TAG_SIZE" "?header = Ok h" "take SESSION_ID_SIZE h = us_session_id s"
    | h e where "\<not> length packet < SEPARATE_HEADER_SIZE + TAG_SIZE" "?header = Ok h" "take SESSION_ID_SIZE h \<noteq> us_session_id s" "?body h = Err e"
    | (body) h payload where "\<not> length packet < SEPARATE_HEADER_SIZE + TAG_SIZE" "?header = Ok h" "take SESSION_ID_SIZE h \<noteq> us_session_id s" "?body h = Ok payload"
    by (metis sum.exhaust)
  then show thesis
  proof cases
    case (body h payload)
    then have "h = pm_aes_decrypt pm (us_key s) (take SEPARATE_HEADER_SIZE packet)"
      by (simp add: decrypt_separate_header_def block_cipher_def split: if_splits)
    then have ids: "datagram_ids pm (us_key s) packet = (take SESSION_ID_SIZE h, u64_of_be (drop SESSION_ID_SIZE h))"
      by (simp add: datagram_ids_def Let_def)
    show thesis
      by (rule checked [OF ids body(3)])
        (use body(1,3) in \<open>simp add: body(2,4) decode_udp_datagram_2022_def window_at_def Let_def case_prod_beta\<close>)
  qed (auto intro: failed simp: decode_udp_datagram_2022_def Let_def)
qed

lemma Collect_insert_pair: "{p. p = pid \<or> (sid, p) \<in> acc} = insert pid {p. (sid, p) \<in> acc}"
  by auto

lemma windows_of_update:
  assumes "windows_of s acc"
  shows "windows_of (s\<lparr>us_server_windows := (us_server_windows s)(sid \<mapsto> snd (check_and_update pid (window_at s sid)))\<rparr>)
    (if fst (check_and_update pid (window_at s sid)) = Ok () then insert (sid, pid) acc else acc)"
    "fst (check_and_update pid (window_at s sid)) = Ok () \<Longrightarrow> (sid, pid) \<notin> acc"
proof -
  let ?A = "{pid. (sid, pid) \<in> acc}"
  have w: "window_of (window_at s sid) ?A" using assms by (simp add: windows_of_def)
  note r = check_and_update_refines [OF w, of pid]
  have "snd (spec_check pid ?A) = (if fst (check_and_update pid (window_at s sid)) = Ok () then insert pid ?A else ?A)"
    unfolding r(1) by (simp add: spec_check_def)
  then have "window_of (snd (check_and_update pid (window_at s sid)))
      {p. (sid, p) \<in> (if fst (check_and_update pid (window_at s sid)) = Ok () then insert (sid, pid) acc else acc)}"
    using r(2) by (simp add: Collect_insert_pair split: if_splits)
  then show "windows_of (s\<lparr>us_server_windows := (us_server_windows s)(sid \<mapsto> snd (check_and_update pid (window_at s sid)))\<rparr>)
      (if fst (check_and_update pid (window_at s sid)) = Ok () then insert (sid, pid) acc else acc)"
    using assms by (auto simp: windows_of_def window_at_def)
  show "fst (check_and_update pid (window_at s sid)) = Ok () \<Longrightarrow> (sid, pid) \<notin> acc"
    unfolding r(1) by (auto simp: spec_check_def split: if_splits)
qed

lemma accepted_ids_fresh:
  "windows_of s acc \<Longrightarrow> distinct (accepted_ids pm steps s) \<and> set (accepted_ids pm steps s) \<inter> acc = {}"
proof (induction pm steps s arbitrary: acc rule: accepted_ids.induct)
  case (2 pm now target payload steps s)
  then show ?case by (simp add: windows_of_def window_at_def)
next
  case (3 pm now packet steps s)
  show ?case
  proof (cases pm now packet s rule: decode_outcome)
    case (failed e)
    then show ?thesis using 3 by simp
  next
    case (checked sid pid payload)
    let ?s = "s\<lparr>us_server_windows := (us_server_windows s)(sid \<mapsto> snd (check_and_update pid (window_at s sid)))\<rparr>"
    show ?thesis
    proof (cases "fst (check_and_update pid (window_at s sid))")
      case (Inl e)
      then have "windows_of ?s acc" using windows_of_update(1) [OF 3(3), where sid = sid and pid = pid] by simp
      with Inl checked 3(1) [of "Err e" ?s e acc] show ?thesis by simp
    next
      case (Inr u)
      then have "windows_of ?s (insert (sid, pid) acc)" "(sid, pid) \<notin> acc"
        using windows_of_update [OF 3(3), where sid = sid and pid = pid] by simp_all
      with Inr checked 3(2) [of "Ok payload" ?s payload "insert (sid, pid) acc"] show ?thesis by auto
    qed
  qed
qed simp

section \<open>No packet id twice\<close>

text \<open>What a session sends carries its id and its counter, and opens under the nonce that they determine.\<close>

lemma encode_datagram:
  assumes "gcm_ok pm" "block_ok pm" "digests_ok pm" "length (us_key s) = 16" "length (us_session_id s) = 8" "length payload < 65536"
    and "us_packet_id s \<noteq> - 1"
  obtains packet where "encode_udp_datagram_2022 pm now target payload s = (Ok packet, s\<lparr>us_packet_id := us_packet_id s + 1\<rparr>)"
    "datagram_ids pm (us_key s) packet = (us_session_id s, us_packet_id s)"
    "datagram_nonce pm (us_key s) packet = drop 4 (us_session_id s) @ u64_be_bytes (us_packet_id s)"
    "pm_open pm (session_subkey pm (us_key s) (us_session_id s)) (datagram_nonce pm (us_key s) packet) [] (drop SEPARATE_HEADER_SIZE packet) =
      Some ([HEADER_TYPE_CLIENT_PACKET] @ u64_be_bytes now @ u16_to_be 0 @ socks_address target @ payload)"
proof -
  let ?h = "us_session_id s @ u64_be_bytes (us_packet_id s)"
  let ?b = "[HEADER_TYPE_CLIENT_PACKET] @ u64_be_bytes now @ u16_to_be 0 @ socks_address target @ payload"
  define k where "k = session_subkey pm (us_key s) (us_session_id s)"
  define e where "e = pm_aes_encrypt pm (us_key s) ?h"
  have k: "length k = 16" using assms(3) by (simp add: k_def session_subkey_def digests_ok_def KEY_SIZE_2022_def)
  have e: "length e = 16" "pm_aes_decrypt pm (us_key s) e = ?h" using assms(2,4,5) by (auto simp: e_def block_ok_def)
  have "length ?b < 2 ^ 36" using assms(6) by (simp split: IpAddr.splits)
  then obtain c where c: "pm_seal pm k (drop 4 ?h) [] ?b = Some c" "pm_open pm k (drop 4 ?h) [] c = Some ?b"
    using gcm_okE [OF assms(1), of k "drop 4 ?h" ?b "[]"] k assms(5) by auto
  have "session_cipher pm (us_key s) (take SESSION_ID_SIZE ?h) = Ok k"
    using k assms(5) by (simp add: session_cipher_def k_def SESSION_ID_SIZE_def)
  then have "encrypt_udp_body pm (us_key s) ?h ?b = Ok (e @ c)"
    using assms(4) c(1) by (simp add: encrypt_udp_body_def encrypt_separate_header_def block_cipher_def e_def)
  then have "encode_udp_datagram_2022 pm now target payload s = (Ok (e @ c), s\<lparr>us_packet_id := us_packet_id s + 1\<rparr>)"
    using assms(7) by (simp add: encode_udp_datagram_2022_def Let_def)
  moreover have "datagram_ids pm (us_key s) (e @ c) = (us_session_id s, us_packet_id s)"
    using e assms(5) by (simp add: datagram_ids_def SEPARATE_HEADER_SIZE_def SESSION_ID_SIZE_def)
  moreover have n: "datagram_nonce pm (us_key s) (e @ c) = drop 4 (us_session_id s) @ u64_be_bytes (us_packet_id s)"
    using e assms(5) by (simp add: datagram_nonce_def SEPARATE_HEADER_SIZE_def)
  moreover have "pm_open pm k (datagram_nonce pm (us_key s) (e @ c)) [] (drop SEPARATE_HEADER_SIZE (e @ c)) = Some ?b"
    unfolding n using c(2) e(1) assms(5) by (simp add: SEPARATE_HEADER_SIZE_def)
  ultimately show thesis using that k_def by blast
qed

definition opens_under_header :: "Primitives \<Rightarrow> bytes \<Rightarrow> bytes \<Rightarrow> bytes \<Rightarrow> bool" where
  "opens_under_header pm key sid packet \<longleftrightarrow>
     fst (datagram_ids pm key packet) = sid \<and>
     datagram_nonce pm key packet = drop 4 sid @ u64_be_bytes (snd (datagram_ids pm key packet)) \<and>
     pm_open pm (session_subkey pm key sid) (datagram_nonce pm key packet) [] (drop SEPARATE_HEADER_SIZE packet) \<noteq> None"

lemma sent_datagrams_ascending:
  assumes "gcm_ok pm" "block_ok pm" "digests_ok pm" "length (us_key s) = 16" "length (us_session_id s) = 8" "list_all step_small steps"
  defines "ids \<equiv> map (\<lambda>packet. unat (snd (datagram_ids pm (us_key s) packet))) (sent_datagrams pm steps s)"
  shows "sorted_wrt (<) ids \<and> (\<forall>x\<in>set ids. unat (us_packet_id s) \<le> x) \<and>
    list_all (opens_under_header pm (us_key s) (us_session_id s)) (sent_datagrams pm steps s)"
  using assms(1-6) unfolding ids_def
proof (induction pm steps s rule: sent_datagrams.induct)
  case (3 pm now target payload steps s)
  show ?case
  proof (cases "us_packet_id s = - 1")
    case True
    then show ?thesis using 3 by (simp add: encode_udp_datagram_2022_def)
  next
    case False
    then have p: "unat (us_packet_id s + 1) = Suc (unat (us_packet_id s))"
      using unatSuc [of "us_packet_id s"] by (simp add: eq_neg_iff_add_eq_0 add.commute)
    let ?s = "s\<lparr>us_packet_id := us_packet_id s + 1\<rparr>"
    have small: "length payload < 65536" using 3(8) by simp
    obtain packet where packet: "encode_udp_datagram_2022 pm now target payload s = (Ok packet, ?s)"
        "datagram_ids pm (us_key s) packet = (us_session_id s, us_packet_id s)"
        "datagram_nonce pm (us_key s) packet = drop 4 (us_session_id s) @ u64_be_bytes (us_packet_id s)"
        "pm_open pm (session_subkey pm (us_key s) (us_session_id s)) (datagram_nonce pm (us_key s) packet) [] (drop SEPARATE_HEADER_SIZE packet) =
          Some ([HEADER_TYPE_CLIENT_PACKET] @ u64_be_bytes now @ u16_to_be 0 @ socks_address target @ payload)"
      by (rule encode_datagram [OF 3(3,4,5,6,7) small False])
    have opens: "opens_under_header pm (us_key s) (us_session_id s) packet"
      unfolding opens_under_header_def packet(2,4) using packet(3) by simp
    have "sorted_wrt (<) (map (\<lambda>packet. unat (snd (datagram_ids pm (us_key s) packet))) (sent_datagrams pm steps ?s)) \<and>
        (\<forall>x\<in>set (map (\<lambda>packet. unat (snd (datagram_ids pm (us_key s) packet))) (sent_datagrams pm steps ?s)). Suc (unat (us_packet_id s)) \<le> x) \<and>
        list_all (opens_under_header pm (us_key s) (us_session_id s)) (sent_datagrams pm steps ?s)"
      using 3(2) [OF packet(1) [symmetric] refl] 3(3-) p by simp
    then show ?thesis using packet(1,2) opens by (auto simp: Suc_le_eq)
  qed
qed simp_all

text \<open>
  C8. In every sequence of encodes and decodes of a session the accepted datagrams have distinct pairs of server
  session and packet id, so none is accepted twice. The datagrams that the session has sent carry in their encrypted headers its
  session id and distinct packet ids; each opens under the nonce that its header determines, and these nonces are distinct.
\<close>

theorem udp_session_never_replays:
  "distinct (accepted_ids pm steps (udp_session_2022 key sid)) \<and>
   (gcm_ok pm \<and> block_ok pm \<and> digests_ok pm \<and> length key = 16 \<and> length sid = 8 \<and> list_all step_small steps \<longrightarrow>
      list_all (opens_under_header pm key sid) (sent_datagrams pm steps (udp_session_2022 key sid)) \<and>
      distinct (map (datagram_ids pm key) (sent_datagrams pm steps (udp_session_2022 key sid))) \<and>
      distinct (map (datagram_nonce pm key) (sent_datagrams pm steps (udp_session_2022 key sid))))"
proof -
  let ?sent = "sent_datagrams pm steps (udp_session_2022 key sid)"
  {
    assume "gcm_ok pm \<and> block_ok pm \<and> digests_ok pm \<and> length key = 16 \<and> length sid = 8 \<and> list_all step_small steps"
    then have sent: "sorted_wrt (<) (map (\<lambda>packet. unat (snd (datagram_ids pm key packet))) ?sent)"
        "list_all (opens_under_header pm key sid) ?sent"
      using sent_datagrams_ascending [of pm "udp_session_2022 key sid" steps] by (simp_all add: udp_session_2022_def)
    then have d: "distinct (map (\<lambda>packet. unat (snd (datagram_ids pm key packet))) ?sent)" using strict_sorted_iff by blast
    then have ids: "distinct (map (datagram_ids pm key) ?sent)"
      by (auto simp: distinct_map inj_on_def)
    have "inj_on (datagram_nonce pm key) (set ?sent)"
    proof (rule inj_onI)
      fix p q
      assume pq: "p \<in> set ?sent" "q \<in> set ?sent" "datagram_nonce pm key p = datagram_nonce pm key q"
      then have "u64_be_bytes (snd (datagram_ids pm key p)) = u64_be_bytes (snd (datagram_ids pm key q))"
        using sent(2) by (auto simp: list_all_iff opens_under_header_def)
      then have "snd (datagram_ids pm key p) = snd (datagram_ids pm key q)" by (metis u64_of_be_bytes)
      with pq d show "p = q" by (auto simp: distinct_map inj_on_def)
    qed
    then have "distinct (map (datagram_nonce pm key) ?sent)" using d by (simp add: distinct_map)
    with sent(2) ids have "list_all (opens_under_header pm key sid) ?sent \<and> distinct (map (datagram_ids pm key) ?sent) \<and>
      distinct (map (datagram_nonce pm key) ?sent)" by blast
  }
  then show ?thesis using accepted_ids_fresh [OF windows_of_new] by blast
qed

theorem udp_session_never_replays_witness:
  "list_all (opens_under_header plain_primitives (replicate 16 0) (replicate 8 1))
     (sent_datagrams plain_primitives [EncodeStep 100 \<lparr>sa_ip = V4 0, sa_port = 53\<rparr> [1], EncodeStep 101 \<lparr>sa_ip = V4 0, sa_port = 53\<rparr> [1]]
       (udp_session_2022 (replicate 16 0) (replicate 8 1))) \<and>
   distinct (map (datagram_nonce plain_primitives (replicate 16 0))
     (sent_datagrams plain_primitives [EncodeStep 100 \<lparr>sa_ip = V4 0, sa_port = 53\<rparr> [1], EncodeStep 101 \<lparr>sa_ip = V4 0, sa_port = 53\<rparr> [1]]
       (udp_session_2022 (replicate 16 0) (replicate 8 1))))"
  using udp_session_never_replays [of plain_primitives
      "[EncodeStep 100 \<lparr>sa_ip = V4 0, sa_port = 53\<rparr> [1], EncodeStep 101 \<lparr>sa_ip = V4 0, sa_port = 53\<rparr> [1]]" "replicate 16 0" "replicate 8 1"]
    plain_primitives_ok by simp

section \<open>Datagrams of the server\<close>

lemma validate_timestamp_iff:
  "validate_timestamp now timestamp context = Ok () \<longleftrightarrow> unat timestamp \<le> unat now + 30 \<and> unat now \<le> unat timestamp + 30"
proof (cases "timestamp \<le> now")
  case True
  then show ?thesis
    using unat_diff_u64 [OF True]
    by (auto simp: validate_timestamp_def Let_def TIMESTAMP_TOLERANCE_SECS_def word_less_nat_alt word_le_nat_alt)
next
  case False
  then have "now \<le> timestamp" by simp
  then show ?thesis
    using unat_diff_u64 [of now timestamp] False
    by (auto simp: validate_timestamp_def Let_def TIMESTAMP_TOLERANCE_SECS_def word_less_nat_alt word_le_nat_alt)
qed

text \<open>The body that a server puts into a datagram.\<close>

definition server_body :: "u64 \<Rightarrow> bytes \<Rightarrow> bytes \<Rightarrow> SocketAddr \<Rightarrow> bytes \<Rightarrow> bytes" where
  "server_body timestamp client_session_id padding source payload =
     [HEADER_TYPE_SERVER_PACKET] @ u64_be_bytes timestamp @ client_session_id @ u16_to_be (of_nat (length padding)) @ padding @
       socks_address source @ payload"

lemma decode_server_body:
  assumes "length sid = 8" "length padding < 65536" "validate_timestamp now timestamp ''UDP packet'' = Ok ()"
  shows "decode_server_packet now sid (server_body timestamp sid padding source payload) = Ok payload"
proof -
  let ?b = "server_body timestamp sid padding source payload"
  let ?len = "u16_to_be (of_nat (length padding))"
  have len: "length ?b = 19 + length padding + length (socks_address source) + length payload"
    using assms(1) by (simp add: server_body_def del: socks_address.simps)
  have parts: "?b ! 0 = 1" "take 8 (drop 1 ?b) = u64_be_bytes timestamp" "take 8 (drop 9 ?b) = sid"
    using assms(1) by (simp_all add: server_body_def HEADER_TYPE_SERVER_PACKET_def del: socks_address.simps)
  let ?pre = "[HEADER_TYPE_SERVER_PACKET] @ u64_be_bytes timestamp @ sid @ ?len @ padding"
  have "?b = ?pre @ socks_address source @ payload" "length ?pre = 19 + length padding"
    using assms(1) by (simp_all add: server_body_def del: socks_address.simps)
  then have rest: "drop (19 + length padding) ?b = socks_address source @ payload" by (metis append_eq_conv_conj)
  have "?b ! 17 = ?len ! 0" "?b ! 18 = ?len ! Suc 0"
    using assms(1) by (simp_all add: server_body_def nth_append nth_Cons' del: socks_address.simps)
  then have pad: "unat (u16_from_be (?b ! 17) (?b ! 18)) = length padding"
    using assms(2) by (simp add: unat_of_nat_u16)
  have "drop (19 + length padding + length (socks_address source)) ?b = payload"
    using rest by (metis (no_types) add.commute append_eq_conv_conj drop_drop)
  then show ?thesis
    using len parts rest pad assms(3) socks_payload_offset_address [of source payload]
    by (simp add: decode_server_packet_def SESSION_ID_SIZE_def HEADER_TYPE_SERVER_PACKET_def Let_def del: socks_address.simps)
qed

text \<open>
  A datagram that the server sends for a session reaches the application: when its session id is not the client's,
  its timestamp is within 30 seconds, and the window of its session accepts its packet id, decoding returns
  its payload, for every padding and source address.
\<close>

theorem server_datagram_accepted:
  assumes "gcm_ok pm" "block_ok pm" "digests_ok pm"
    and "length (us_key s) = 16" "length (us_session_id s) = 8" "length sid = 8" "sid \<noteq> us_session_id s"
    and "length padding < 65536" "length payload < 65536"
    and "unat timestamp \<le> unat now + 30" "unat now \<le> unat timestamp + 30"
    and "fst (check_and_update pid (window_at s sid)) = Ok ()"
  shows "\<exists>packet. encrypt_udp_body pm (us_key s) (sid @ u64_be_bytes pid)
      (server_body timestamp (us_session_id s) padding source payload) = Ok packet \<and>
    fst (decode_udp_datagram_2022 pm now packet s) = Ok payload"
proof -
  let ?h = "sid @ u64_be_bytes pid"
  let ?b = "server_body timestamp (us_session_id s) padding source payload"
  define k where "k = session_subkey pm (us_key s) sid"
  define e where "e = pm_aes_encrypt pm (us_key s) ?h"
  have k: "length k = 16" using assms(3) by (simp add: k_def session_subkey_def digests_ok_def KEY_SIZE_2022_def)
  have e: "length e = 16" "pm_aes_decrypt pm (us_key s) e = ?h"
    using assms(2,4,6) by (auto simp: e_def block_ok_def)
  have "length ?b < 2 ^ 36" using assms(5,8,9) by (simp add: server_body_def split: IpAddr.splits)
  then obtain c where c: "pm_seal pm k (drop 4 ?h) [] ?b = Some c" "length c = length ?b + 16" "pm_open pm k (drop 4 ?h) [] c = Some ?b"
    using gcm_okE [OF assms(1), of k "drop 4 ?h" ?b "[]"] k assms(6) by auto
  have cipher: "session_cipher pm (us_key s) (take SESSION_ID_SIZE ?h) = Ok k"
    using k assms(6) by (simp add: session_cipher_def k_def SESSION_ID_SIZE_def)
  have "decode_server_packet now (us_session_id s) ?b = Ok payload"
    using assms(5,8,10,11) by (intro decode_server_body) (simp_all add: validate_timestamp_iff)
  then have "fst (decode_udp_datagram_2022 pm now (e @ c) s) = Ok payload"
    using e c(2,3) assms(4,6,7,12) cipher
    by (simp add: decode_udp_datagram_2022_def decrypt_separate_header_def block_cipher_def decrypt_udp_body_def ss2022_sizes
        window_at_def Let_def case_prod_beta)
  moreover have "encrypt_udp_body pm (us_key s) ?h ?b = Ok (e @ c)"
    using assms(4) cipher c(1) by (simp add: encrypt_udp_body_def encrypt_separate_header_def block_cipher_def e_def)
  ultimately show ?thesis by blast
qed

theorem server_datagram_accepted_witness:
  "\<exists>packet. encrypt_udp_body plain_primitives (replicate 16 0) (replicate 8 2 @ u64_be_bytes 5)
      (server_body 100 (replicate 8 1) [9] \<lparr>sa_ip = V4 0, sa_port = 53\<rparr> [1, 2, 3]) = Ok packet \<and>
    fst (decode_udp_datagram_2022 plain_primitives 120 packet (udp_session_2022 (replicate 16 0) (replicate 8 1))) = Ok [1, 2, 3]"
  using server_datagram_accepted [OF plain_primitives_ok, of "udp_session_2022 (replicate 16 0) (replicate 8 1)"
      "replicate 8 2" "[9]" "[1, 2, 3]" 100 120 5 "\<lparr>sa_ip = V4 0, sa_port = 53\<rparr>"]
  by (simp add: udp_session_2022_def window_at_def default_window_def check_and_update_def)

section \<open>The chunk stream\<close>

lemma stream_step_2022:
  assumes "stream_agree pm key_size st st'" "length x < 2 ^ 36"
  obtains c st1 where "stream_encrypt_2022 pm st x = (Ok c, st1)" "length c = length x + 16"
    "stream_decrypt_2022 pm st' c = (Ok x, st1)" "stream_agree pm key_size st1 st1"
proof -
  obtain c where c: "pm_seal pm (st_key st) (st_nonce st) [] x = Some c" "length c = length x + 16"
      "pm_open pm (st_key st) (st_nonce st) [] c = Some x"
    using assms gcm_okE [of pm "st_key st" "st_nonce st" x "[]"] by (auto simp: stream_agree_def NONCE_SIZE_def)
  show thesis
    by (rule that [of c "st\<lparr>st_nonce := increment_nonce (st_nonce st)\<rparr>"])
      (use c assms(1) in \<open>auto simp: stream_encrypt_2022_def stream_decrypt_2022_def stream_agree_def\<close>)
qed

lemma pair_step_2022:
  assumes "stream_agree pm key_size st st'" "length x < 2 ^ 36" "length y < 2 ^ 36"
  obtains c d st1 st2 where "encrypt_pair_2022 pm st x y = (Ok (c @ d), st2)" "length c = length x + 16" "length d = length y + 16"
    "stream_decrypt_2022 pm st' c = (Ok x, st1)" "stream_decrypt_2022 pm st1 d = (Ok y, st2)" "stream_agree pm key_size st2 st2"
proof -
  obtain c st1 where c: "stream_encrypt_2022 pm st x = (Ok c, st1)" "length c = length x + 16"
      "stream_decrypt_2022 pm st' c = (Ok x, st1)" "stream_agree pm key_size st1 st1"
    using stream_step_2022 [OF assms(1,2)] .
  obtain d st2 where d: "stream_encrypt_2022 pm st1 y = (Ok d, st2)" "length d = length y + 16"
      "stream_decrypt_2022 pm st1 d = (Ok y, st2)" "stream_agree pm key_size st2 st2"
    using stream_step_2022 [OF c(4) assms(3)] .
  show thesis by (rule that [of c d st2 st1]) (use c d in \<open>simp_all add: encrypt_pair_2022_def\<close>)
qed

lemma read_payload_chunk_step:
  assumes "stream_decrypt_2022 pm st d = (Ok y, st2)" "length d = length y + 16"
  shows "read_payload_chunk pm (length y) st \<lparr>so_bytes = d @ rest, so_failure = k\<rparr> = (Ok y, st2, \<lparr>so_bytes = rest, so_failure = k\<rparr>)"
  using assms read_exact_append [of d rest k] by (simp add: read_payload_chunk_def TAG_SIZE_def)

lemma chunk_step_2022:
  assumes "stream_agree pm key_size st st'" "length x \<le> TCP_CHUNK_LIMIT_2022"
  obtains packet st2 where "encrypt_chunk_2022 pm st x = (Ok packet, st2)" "stream_agree pm key_size st2 st2"
    "\<And>rest k. decrypt_chunk_2022 pm st' \<lparr>so_bytes = packet @ rest, so_failure = k\<rparr> = (Ok (Some x), st2, \<lparr>so_bytes = rest, so_failure = k\<rparr>)"
proof -
  let ?len = "u16_to_be (of_nat (length x))"
  have lim: "length x < 65536" "\<not> TCP_CHUNK_LIMIT_2022 < length x" using assms(2) by (simp_all add: TCP_CHUNK_LIMIT_2022_def)
  obtain c d st1 st2 where p: "encrypt_pair_2022 pm st ?len x = (Ok (c @ d), st2)" "length c = length ?len + 16" "length d = length x + 16"
    "stream_decrypt_2022 pm st' c = (Ok ?len, st1)" "stream_decrypt_2022 pm st1 d = (Ok x, st2)" "stream_agree pm key_size st2 st2"
    by (rule pair_step_2022 [OF assms(1), of ?len x]) (use lim(1) in simp_all)
  show thesis
  proof (rule that [of "c @ d" st2])
    show "encrypt_chunk_2022 pm st x = (Ok (c @ d), st2)" using p(1) lim by (simp add: encrypt_chunk_2022_def)
    show "decrypt_chunk_2022 pm st' \<lparr>so_bytes = (c @ d) @ rest, so_failure = k\<rparr> = (Ok (Some x), st2, \<lparr>so_bytes = rest, so_failure = k\<rparr>)" for rest k
      using p(2,4) lim read_exact_append [of c "d @ rest" k] read_payload_chunk_step [OF p(5,3), of rest k]
      by (simp add: decrypt_chunk_2022_def TAG_SIZE_def unat_of_nat_u16)
  qed (rule p(6))
qed

lemma decrypt_chunk_2022_consumes:
  "decrypt_chunk_2022 pm st src = (Ok (Some x), st', src') \<Longrightarrow> length (so_bytes src') < length (so_bytes src)"
  by (auto simp: decrypt_chunk_2022_def read_payload_chunk_def TAG_SIZE_def dest!: read_exact_length split: prod.splits sum.splits if_splits)

interpretation ss2022: chunk_codec "encrypt_chunk_2022 pm" "decrypt_chunk_2022 pm" "stream_agree pm key_size" TCP_CHUNK_LIMIT_2022
  for pm key_size
proof
  show "0 < TCP_CHUNK_LIMIT_2022" by (simp add: TCP_CHUNK_LIMIT_2022_def)
  show "\<exists>packet w' r'. encrypt_chunk_2022 pm w x = (Ok packet, w') \<and> stream_agree pm key_size w' r' \<and>
      (\<forall>rest k. decrypt_chunk_2022 pm r \<lparr>so_bytes = packet @ rest, so_failure = k\<rparr> = (Ok (Some x), r', \<lparr>so_bytes = rest, so_failure = k\<rparr>))"
    if "stream_agree pm key_size w r" "x \<noteq> []" "length x \<le> TCP_CHUNK_LIMIT_2022" for w r x
    using chunk_step_2022 [OF that(1,3)] by metis
  show "decrypt_chunk_2022 pm r src = (Ok (Some x), r', src') \<Longrightarrow> length (so_bytes src') < length (so_bytes src)" for r src x r' src'
    by (rule decrypt_chunk_2022_consumes)
  show "decrypt_chunk_2022 pm r \<lparr>so_bytes = [], so_failure = None\<rparr> = (Ok None, r, \<lparr>so_bytes = [], so_failure = None\<rparr>)" for r
    by (simp add: decrypt_chunk_2022_def read_exact_def)
qed

section \<open>Responses belong to requests\<close>

lemma from_salt_2022_ok:
  assumes "gcm_ok pm" "digests_ok pm"
  obtains st where "from_salt_2022 pm key salt = Ok st" "stream_agree pm 16 st st"
  using assms that
  by (simp add: from_salt_2022_def session_cipher_def session_subkey_def digests_ok_def KEY_SIZE_2022_def stream_agree_def NONCE_SIZE_def)

text \<open>The header of a response to a request with the given salt.\<close>

definition response_header :: "u64 \<Rightarrow> bytes \<Rightarrow> nat \<Rightarrow> bytes" where
  "response_header timestamp request_salt first_length =
     [HEADER_TYPE_SERVER_STREAM] @ u64_be_bytes timestamp @ request_salt @ u16_to_be (of_nat first_length)"

lemma decrypt_response_header_step:
  assumes "stream_decrypt_2022 pm st c = (Ok (response_header timestamp salt n), st1)" "length c = 43" "length salt = 16" "n < 65536"
    and "validate_timestamp now timestamp ''TCP response'' = Ok ()"
  shows "decrypt_response_header pm now salt st \<lparr>so_bytes = c @ rest, so_failure = k\<rparr> = (Ok n, st1, \<lparr>so_bytes = rest, so_failure = k\<rparr>)"
proof -
  let ?h = "response_header timestamp salt n"
  let ?len = "u16_to_be (of_nat n)"
  have parts: "length ?h = 27" "?h ! 0 = 1" "take 8 (drop 1 ?h) = u64_be_bytes timestamp" "take 16 (drop 9 ?h) = salt"
    using assms(3) by (simp_all add: response_header_def HEADER_TYPE_SERVER_STREAM_def)
  have "?h ! 25 = ?len ! 0" "?h ! 26 = ?len ! Suc 0" using assms(3) by (simp_all add: response_header_def nth_append nth_Cons')
  then have "unat (u16_from_be (?h ! 25) (?h ! 26)) = n" using assms(4) by (simp add: unat_of_nat_u16)
  with parts assms(1,2,5) read_exact_append [of c rest k] show ?thesis
    by (simp add: decrypt_response_header_def ss2022_sizes)
qed

text \<open>
  A response over TCP arrives: for every response salt, first payload and further pieces, what a server writes with the same
  key for the request's salt, with a timestamp within 30 seconds, makes the client's reading direction return, and
  it has written exactly the payloads in order to the downstream.
\<close>

theorem shadowsocks2022_response_delivers:
  assumes "gcm_ok pm" "digests_ok pm" "length salt = 16" "length response_salt = 16" "length first \<le> TCP_CHUNK_LIMIT_2022"
    and "unat timestamp \<le> unat now + 30" "unat now \<le> unat timestamp + 30"
  shows "\<exists>w w1 head w2 packets. from_salt_2022 pm key response_salt = Ok w \<and>
    encrypt_pair_2022 pm w (response_header timestamp salt (length first)) first = (Ok head, w1) \<and>
    copy_out (encrypt_chunk_2022 pm) TCP_CHUNK_LIMIT_2022 read_error write_error (map Inr bss) 0 w1 (open_sink []) =
      (Ok (of_nat (length (delivered_reads bss))), w2, open_sink packets) \<and>
    upstream_to_client_2022 pm key now salt \<lparr>so_bytes = response_salt @ head @ packets, so_failure = None\<rparr> (open_sink []) =
      Some (Ok (of_nat (length (first @ delivered_reads bss))), open_sink (first @ delivered_reads bss))"
proof -
  let ?h = "response_header timestamp salt (length first)"
  have n: "length first < 65536" using assms(5) by (simp add: TCP_CHUNK_LIMIT_2022_def)
  have h: "length ?h = 27" using assms(3) by (simp add: response_header_def)
  obtain w where w: "from_salt_2022 pm key response_salt = Ok w" "stream_agree pm 16 w w"
    using from_salt_2022_ok [OF assms(1,2)] .
  obtain c d st1 w1 where p: "encrypt_pair_2022 pm w ?h first = (Ok (c @ d), w1)" "length c = length ?h + 16" "length d = length first + 16"
      "stream_decrypt_2022 pm w c = (Ok ?h, st1)" "stream_decrypt_2022 pm st1 d = (Ok first, w1)" "stream_agree pm 16 w1 w1"
    by (rule pair_step_2022 [OF w(2), of ?h first]) (use h n in simp_all)
  obtain packets w2 r' where q:
      "\<And>n sent. copy_out (encrypt_chunk_2022 pm) TCP_CHUNK_LIMIT_2022 read_error write_error (map Inr bss) n w1 (open_sink sent) =
         (Ok (n + of_nat (length (delivered_reads bss))), w2, open_sink (sent @ packets))"
      "\<And>n sent. copy_in (decrypt_chunk_2022 pm) (ClientError ''inbound-write'' ''failed writing TCP downstream'') n w1
         \<lparr>so_bytes = packets, so_failure = None\<rparr> (open_sink sent) =
         Some (Ok (n + of_nat (length (delivered_reads bss))), r', \<lparr>so_bytes = [], so_failure = None\<rparr>, open_sink (sent @ delivered_reads bss))"
    using ss2022.copied_bytes_arrive [OF p(6)] by metis
  have head: "decrypt_response_header pm now salt w \<lparr>so_bytes = c @ d @ packets, so_failure = None\<rparr> =
      (Ok (length first), st1, \<lparr>so_bytes = d @ packets, so_failure = None\<rparr>)"
    by (rule decrypt_response_header_step [OF p(4)]) (use p(2) h assms(3,6,7) n in \<open>simp_all add: validate_timestamp_iff\<close>)
  have "upstream_to_client_2022 pm key now salt \<lparr>so_bytes = response_salt @ (c @ d) @ packets, so_failure = None\<rparr> (open_sink []) =
      Some (Ok (of_nat (length (first @ delivered_reads bss))), open_sink (first @ delivered_reads bss))"
    using w(1) assms(4) read_exact_append [of response_salt "c @ d @ packets" None] head read_payload_chunk_step [OF p(5,3), of packets None]
      q(2) [of "of_nat (length first)" first]
    by (auto simp: upstream_to_client_2022_def SALT_SIZE_2022_def Let_def)
  with w(1) p(1) q(1) [of 0 "[]"] show ?thesis by auto
qed

theorem shadowsocks2022_response_delivers_witness:
  "\<exists>w w1 head w2 packets. from_salt_2022 plain_primitives [] (replicate 16 7) = Ok w \<and>
    encrypt_pair_2022 plain_primitives w (response_header 100 (replicate 16 3) (length [1 :: u8, 2])) [1, 2] = (Ok head, w1) \<and>
    copy_out (encrypt_chunk_2022 plain_primitives) TCP_CHUNK_LIMIT_2022 (ClientError [] []) (ClientError [] []) (map Inr [[3], [4, 5]]) 0 w1 (open_sink []) =
      (Ok (of_nat (length (delivered_reads [[3 :: u8], [4, 5]]))), w2, open_sink packets) \<and>
    upstream_to_client_2022 plain_primitives [] 110 (replicate 16 3)
        \<lparr>so_bytes = replicate 16 7 @ head @ packets, so_failure = None\<rparr> (open_sink []) =
      Some (Ok (of_nat (length ([1, 2] @ delivered_reads [[3], [4, 5]]))), open_sink ([1, 2] @ delivered_reads [[3], [4, 5]]))"
  by (rule shadowsocks2022_response_delivers [OF plain_primitives_ok(1,3)]) (simp_all add: TCP_CHUNK_LIMIT_2022_def)

lemma accepted_response_header:
  assumes "decrypt_response_header pm now salt st src = (Ok n, st1, src1)"
  obtains c header where "length c = 43" "so_bytes src = c @ so_bytes src1" "pm_open pm (st_key st) (st_nonce st) [] c = Some header"
    "header ! 0 = HEADER_TYPE_SERVER_STREAM" "take 16 (drop 9 header) = salt"
    "validate_timestamp now (u64_of_be (take 8 (drop 1 header))) ''TCP response'' = Ok ()"
proof -
  obtain c where c: "read_exact 43 src = (Ok c, src1)"
    using assms by (auto simp: decrypt_response_header_def ss2022_sizes split: prod.splits sum.splits if_splits)
  obtain header where h: "pm_open pm (st_key st) (st_nonce st) [] c = Some header"
    using assms c by (auto simp: decrypt_response_header_def stream_decrypt_2022_def ss2022_sizes split: prod.splits sum.splits option.splits)
  show thesis
    by (rule that [of c header])
      (use assms c h read_exact_length [OF c] in
        \<open>auto simp: decrypt_response_header_def stream_decrypt_2022_def ss2022_sizes split: if_splits\<close>)
qed

text \<open>
  C13. No response of another request is accepted: when the reading direction ends without an error, the bytes of the server began
  with a salt and a header that opens under the key of that salt with nonce zero, names the salt of this request, and
  has a timestamp within 30 seconds of the client's clock.
\<close>

theorem response_belongs_to_request:
  assumes "upstream_to_client_2022 pm key now salt src sink = Some (Ok n, sink')"
  shows "\<exists>response_salt c rest header. so_bytes src = response_salt @ c @ rest \<and> length response_salt = 16 \<and> length c = 43 \<and>
    pm_open pm (session_subkey pm key response_salt) (replicate 12 0) [] c = Some header \<and>
    header ! 0 = HEADER_TYPE_SERVER_STREAM \<and> take 16 (drop 9 header) = salt \<and>
    unat (u64_of_be (take 8 (drop 1 header))) \<le> unat now + 30 \<and> unat now \<le> unat (u64_of_be (take 8 (drop 1 header))) + 30"
proof -
  obtain rs src1 where rs: "read_exact 16 src = (Ok rs, src1)"
    using assms by (auto simp: upstream_to_client_2022_def SALT_SIZE_2022_def Let_def split: prod.splits sum.splits)
  obtain st where st: "from_salt_2022 pm key rs = Ok st"
    using assms rs by (auto simp: upstream_to_client_2022_def SALT_SIZE_2022_def Let_def split: sum.splits)
  then have key: "st_key st = session_subkey pm key rs" "st_nonce st = replicate 12 0"
    by (auto simp: from_salt_2022_def session_cipher_def NONCE_SIZE_def split: if_splits)
  obtain m st1 src2 where "decrypt_response_header pm now salt st src1 = (Ok m, st1, src2)"
    using assms rs st by (auto simp: upstream_to_client_2022_def SALT_SIZE_2022_def Let_def split: prod.splits sum.splits)
  from accepted_response_header [OF this] obtain c header where
    "length c = 43" "so_bytes src1 = c @ so_bytes src2" "pm_open pm (session_subkey pm key rs) (replicate 12 0) [] c = Some header"
    "header ! 0 = HEADER_TYPE_SERVER_STREAM" "take 16 (drop 9 header) = salt"
    "validate_timestamp now (u64_of_be (take 8 (drop 1 header))) ''TCP response'' = Ok ()"
    unfolding key by metis
  with read_exact_length [OF rs] show ?thesis
    by (intro exI [of _ rs] exI [of _ c] exI [of _ "so_bytes src2"] exI [of _ header]) (simp add: validate_timestamp_iff)
qed

theorem response_belongs_to_request_witness:
  "\<exists>response_salt c rest header. replicate 16 7 @ (response_header 100 (replicate 16 3) 0 @ replicate 16 0) @ replicate 16 0 = response_salt @ c @ rest \<and>
    length response_salt = 16 \<and> length c = 43 \<and>
    pm_open plain_primitives (session_subkey plain_primitives [] response_salt) (replicate 12 0) [] c = Some header \<and>
    header ! 0 = HEADER_TYPE_SERVER_STREAM \<and> take 16 (drop 9 header) = replicate 16 3 \<and>
    unat (u64_of_be (take 8 (drop 1 header))) \<le> unat (110 :: u64) + 30 \<and> unat (110 :: u64) \<le> unat (u64_of_be (take 8 (drop 1 header))) + 30"
proof -
  let ?c = "response_header 100 (replicate 16 3) 0 @ replicate 16 0"
  let ?st = "\<lparr>st_key = replicate 16 6, st_nonce = replicate 12 0\<rparr>"
  have st: "from_salt_2022 plain_primitives [] (replicate 16 7) = Ok ?st"
    by (simp add: from_salt_2022_def session_cipher_def session_subkey_def plain_primitives_def KEY_SIZE_2022_def NONCE_SIZE_def)
  have "length (response_header 100 (replicate 16 3) 0) = 27" by (simp add: response_header_def)
  then have open_header: "\<exists>st1. stream_decrypt_2022 plain_primitives ?st ?c = (Ok (response_header 100 (replicate 16 3) 0), st1)" and "length ?c = 43"
    by (simp_all add: stream_decrypt_2022_def plain_primitives_def)
  then obtain st1 where head: "decrypt_response_header plain_primitives 110 (replicate 16 3) ?st \<lparr>so_bytes = ?c @ replicate 16 0, so_failure = None\<rparr> =
      (Ok 0, st1, \<lparr>so_bytes = replicate 16 0, so_failure = None\<rparr>)"
    using decrypt_response_header_step [of plain_primitives ?st ?c 100 "replicate 16 3" 0 _ 110 "replicate 16 0" None]
    by (auto simp: validate_timestamp_iff)
  have "read_payload_chunk plain_primitives 0 st1 \<lparr>so_bytes = replicate 16 0, so_failure = None\<rparr> =
      (Ok [], st1\<lparr>st_nonce := increment_nonce (st_nonce st1)\<rparr>, \<lparr>so_bytes = [], so_failure = None\<rparr>)"
    by (simp add: read_payload_chunk_def read_exact_def stream_decrypt_2022_def plain_primitives_def TAG_SIZE_def)
  then have "upstream_to_client_2022 plain_primitives [] 110 (replicate 16 3)
      \<lparr>so_bytes = replicate 16 7 @ ?c @ replicate 16 0, so_failure = None\<rparr> (open_sink []) = Some (Ok 0, open_sink [])"
    using st head read_exact_append [of "replicate 16 7" "?c @ replicate 16 0" None]
    by (simp add: upstream_to_client_2022_def SALT_SIZE_2022_def Let_def copy_in.simps decrypt_chunk_2022_def read_exact_def)
  from response_belongs_to_request [OF this] show ?thesis by simp
qed

section \<open>Two surprises\<close>

text \<open>A stream that breaks off inside a length chunk is taken for one that has ended.\<close>

lemma truncated_length_is_the_end:
  assumes "length bs < 18"
  shows "decrypt_chunk_2022 pm st \<lparr>so_bytes = bs, so_failure = None\<rparr> = (Ok None, st, \<lparr>so_bytes = [], so_failure = None\<rparr>)"
    "decrypt_chunk_2017 pm st \<lparr>so_bytes = bs, so_failure = None\<rparr> = (Ok None, st, \<lparr>so_bytes = [], so_failure = None\<rparr>)"
  using assms by (simp_all add: decrypt_chunk_2022_def decrypt_chunk_2017_def read_exact_def TAG_SIZE_def)

text \<open>The client without a session cannot decode: the id of its new session is not the one in the datagram.\<close>

lemma decode_server_packet_other_session:
  assumes "take 8 (drop 9 plaintext) \<noteq> sid"
  shows "\<exists>e. decode_server_packet now sid plaintext = Err e"
  using assms by (cases "validate_timestamp now (u64_of_be (take 8 (drop 1 plaintext))) ''UDP packet''")
    (auto simp: decode_server_packet_def SESSION_ID_SIZE_def Let_def)

lemma client_without_session_fails:
  assumes "cl_protocol c = Aead2022 key"
    and "\<And>h b. pm_open pm (session_subkey pm key (take 8 h)) (drop 4 h) [] (drop 16 packet) = Some b \<Longrightarrow> take 8 (drop 9 b) \<noteq> dr_session_id dr"
  shows "\<exists>e. client_decode_udp_datagram pm dr packet c = Err e"
proof -
  let ?s = "udp_session_2022 key (dr_session_id dr)"
  have "\<exists>e. and_then (decrypt_udp_body pm key h (drop SEPARATE_HEADER_SIZE packet)) (decode_server_packet now (dr_session_id dr)) = Err e" for h now
  proof (cases "decrypt_udp_body pm key h (drop SEPARATE_HEADER_SIZE packet)")
    case (Inr b)
    then have "pm_open pm (session_subkey pm key (take 8 h)) (drop 4 h) [] (drop 16 packet) = Some b"
      by (auto simp: decrypt_udp_body_def session_cipher_def SESSION_ID_SIZE_def SEPARATE_HEADER_SIZE_def split: option.splits if_splits)
    then show ?thesis using assms(2) [of h b] decode_server_packet_other_session [of b "dr_session_id dr" now] Inr by simp
  qed simp
  then obtain E where E: "and_then (decrypt_udp_body pm key h (drop SEPARATE_HEADER_SIZE packet)) (decode_server_packet now (dr_session_id dr)) = Err (E h now)"
    for h now by metis
  have "\<exists>e. fst (decode_udp_datagram_2022 pm (dr_now dr) packet ?s) = Err e"
    by (cases "decrypt_separate_header pm key (take SEPARATE_HEADER_SIZE packet)")
      (simp_all add: decode_udp_datagram_2022_def udp_session_2022_def Let_def E)
  then show ?thesis
    using assms(1) by (simp add: client_decode_udp_datagram_def session_decode_udp_datagram_def udp_session_def)
qed

end
