(* ===== verification/Vmess_Client.thy ===== *)
theory Vmess_Client
  imports Client_Crypto
begin

unbundle bit_operations_syntax

text \<open>
  The VMess client, \<open>prototype/vmess/src/protocol.rs\<close> and \<open>lib.rs\<close>: key derivation, the request, the chunks of both
  directions, and the relays over TCP and UDP. The clock and what the random generator draws are arguments.
\<close>

section \<open>Key derivation\<close>

definition hmac_with_hash :: "(bytes \<Rightarrow> bytes) \<Rightarrow> bytes \<Rightarrow> bytes \<Rightarrow> bytes" where
  "hmac_with_hash hash key message =
     (let short_key = (if 64 < length key then hash key else key);
          normalized_key = take 64 (short_key @ replicate (64 - length short_key) 0);
          inner_hash = hash (map (\<lambda>byte. byte XOR 0x36) normalized_key @ message)
      in hash (map (\<lambda>byte. byte XOR 0x5c) normalized_key @ inner_hash))"

text \<open>The keys are matched from the end, so the recursion is over the reversed list, which is never empty.\<close>

fun nested_hmac_rev :: "Primitives \<Rightarrow> bytes list \<Rightarrow> bytes \<Rightarrow> bytes" where
  "nested_hmac_rev pm [] message = []"
| "nested_hmac_rev pm [key] message = pm_hmac_sha256 pm key message"
| "nested_hmac_rev pm (key # parents) message = hmac_with_hash (nested_hmac_rev pm parents) key message"

definition nested_hmac :: "Primitives \<Rightarrow> bytes list \<Rightarrow> bytes \<Rightarrow> bytes" where
  "nested_hmac pm keys message = nested_hmac_rev pm (rev keys) message"

definition kdf :: "Primitives \<Rightarrow> bytes \<Rightarrow> bytes list \<Rightarrow> bytes" where
  "kdf pm key path = nested_hmac pm (as_bytes ''VMess AEAD KDF'' # path) key"

definition kdf16 :: "Primitives \<Rightarrow> bytes \<Rightarrow> bytes list \<Rightarrow> bytes" where "kdf16 pm key path = take 16 (kdf pm key path)"
definition kdf12 :: "Primitives \<Rightarrow> bytes \<Rightarrow> bytes list \<Rightarrow> bytes" where "kdf12 pm key path = take 12 (kdf pm key path)"

definition command_key :: "Primitives \<Rightarrow> bytes \<Rightarrow> bytes" where
  "command_key pm user_id = pm_md5 pm (user_id @ as_bytes ''c48619fe-8f02-49e0-b9e9-edf763e17e21'')"

definition sha256_16 :: "Primitives \<Rightarrow> bytes \<Rightarrow> bytes" where "sha256_16 pm x = take 16 (pm_sha256 pm x)"

section \<open>Encryption\<close>

definition encrypt_aead :: "Primitives \<Rightarrow> bytes \<Rightarrow> bytes \<Rightarrow> bytes \<Rightarrow> bytes \<Rightarrow> ClientError + bytes" where
  "encrypt_aead pm key nonce associated_data plaintext =
     (if length key \<noteq> 16 then Err (ClientError ''outbound-crypto'' ''failed initializing VMess AEAD cipher'')
      else (case pm_seal pm key nonce associated_data plaintext of
              None \<Rightarrow> Err (ClientError ''outbound-crypto'' ''VMess AEAD encrypt failed'')
            | Some c \<Rightarrow> Ok c))"

definition decrypt_aead :: "Primitives \<Rightarrow> bytes \<Rightarrow> bytes \<Rightarrow> bytes \<Rightarrow> bytes \<Rightarrow> ClientError + bytes" where
  "decrypt_aead pm key nonce associated_data ciphertext =
     (if length key \<noteq> 16 then Err (ClientError ''outbound-crypto'' ''failed initializing VMess AEAD cipher'')
      else (case pm_open pm key nonce associated_data ciphertext of
              None \<Rightarrow> Err (ClientError ''outbound-crypto'' ''VMess AEAD decrypt failed'')
            | Some x \<Rightarrow> Ok x))"

definition chunk_nonce :: "u16 \<Rightarrow> bytes \<Rightarrow> bytes" where
  "chunk_nonce counter iv = u16_to_be counter @ take 10 (drop 2 iv)"

definition vmess_encrypt_chunk :: "Primitives \<Rightarrow> bytes \<Rightarrow> bytes \<Rightarrow> u16 \<Rightarrow> bytes \<Rightarrow> ClientError + bytes" where
  "vmess_encrypt_chunk pm key iv counter payload =
     and_then (encrypt_aead pm key (chunk_nonce counter iv) [] payload) (\<lambda>ciphertext.
       if length ciphertext < 65536 then Ok (u16_to_be (of_nat (length ciphertext)) @ ciphertext)
       else Err (ClientError ''outbound-protocol'' ''VMess encrypted chunk is too large''))"

definition vmess_decrypt_chunk :: "Primitives \<Rightarrow> bytes \<Rightarrow> bytes \<Rightarrow> u16 \<Rightarrow> bytes \<Rightarrow> ClientError + bytes" where
  "vmess_decrypt_chunk pm key iv counter ciphertext = decrypt_aead pm key (chunk_nonce counter iv) [] ciphertext"

definition decrypt_response_length :: "Primitives \<Rightarrow> bytes \<Rightarrow> bytes \<Rightarrow> bytes \<Rightarrow> ClientError + bytes" where
  "decrypt_response_length pm key iv packet =
     decrypt_aead pm (kdf16 pm key [as_bytes ''AEAD Resp Header Len Key'']) (kdf12 pm iv [as_bytes ''AEAD Resp Header Len IV'']) [] packet"

definition vmess_decrypt_response_header :: "Primitives \<Rightarrow> bytes \<Rightarrow> bytes \<Rightarrow> bytes \<Rightarrow> ClientError + bytes" where
  "vmess_decrypt_response_header pm key iv packet =
     decrypt_aead pm (kdf16 pm key [as_bytes ''AEAD Resp Header Key'']) (kdf12 pm iv [as_bytes ''AEAD Resp Header IV'']) [] packet"

section \<open>Requests\<close>

record RequestContext =
  rc_request_iv :: bytes
  rc_request_key :: bytes
  rc_response_auth :: u8

text \<open>What one request draws: the time, four bytes for the auth id, and the nonce of eight bytes. The time fails before 1970.\<close>

record RequestDraws =
  rq_now :: "u64 option"
  rq_auth :: bytes
  rq_nonce :: bytes

definition auth_id :: "Primitives \<Rightarrow> RequestDraws \<Rightarrow> bytes \<Rightarrow> ClientError + bytes" where
  "auth_id pm dr cmd_key =
     (case rq_now dr of
        None \<Rightarrow> Err (ClientError ''outbound-protocol'' ''invalid system time'')
      | Some timestamp \<Rightarrow>
          (let plaintext = u64_be_bytes timestamp @ rq_auth dr;
               block = plaintext @ nat_be_bytes 4 (unat (pm_crc32 pm plaintext))
           in Ok (pm_aes_encrypt pm (kdf16 pm cmd_key [as_bytes ''AES Auth ID Encryption'']) block)))"

definition encrypt_header_length :: "Primitives \<Rightarrow> bytes \<Rightarrow> bytes \<Rightarrow> bytes \<Rightarrow> nat \<Rightarrow> ClientError + bytes" where
  "encrypt_header_length pm cmd_key auth nonce len =
     (if len < 65536 then
        encrypt_aead pm (kdf16 pm cmd_key [as_bytes ''VMess Header AEAD Key_Length'', auth, nonce])
          (kdf12 pm cmd_key [as_bytes ''VMess Header AEAD Nonce_Length'', auth, nonce]) auth (u16_to_be (of_nat len))
      else Err (ClientError ''outbound-protocol'' ''VMess header is too large''))"

definition encrypt_header :: "Primitives \<Rightarrow> bytes \<Rightarrow> bytes \<Rightarrow> bytes \<Rightarrow> bytes \<Rightarrow> ClientError + bytes" where
  "encrypt_header pm cmd_key auth nonce header =
     encrypt_aead pm (kdf16 pm cmd_key [as_bytes ''VMess Header AEAD Key'', auth, nonce])
       (kdf12 pm cmd_key [as_bytes ''VMess Header AEAD Nonce'', auth, nonce]) auth header"

definition write_address :: "SocketAddr \<Rightarrow> bytes" where
  "write_address target =
     u16_to_be (sa_port target) @ (case sa_ip target of V4 ip \<Rightarrow> [0x01] @ v4_octets ip | V6 ip \<Rightarrow> [0x03] @ v6_octets ip)"

definition fnv1a :: "bytes \<Rightarrow> u32" where
  "fnv1a input = foldl (\<lambda>hash byte. (hash XOR ucast byte) * 0x01000193) 0x811c9dc5 input"

definition instruction_header :: "u8 \<Rightarrow> SocketAddr \<Rightarrow> RequestContext \<Rightarrow> bytes" where
  "instruction_header command target context =
     (let header = [1] @ rc_request_iv context @ rc_request_key context @ [rc_response_auth context, 0x01, 0x03, 0, command] @
            write_address target
      in header @ nat_be_bytes 4 (unat (fnv1a header)))"

definition request :: "Primitives \<Rightarrow> RequestDraws \<Rightarrow> bytes \<Rightarrow> u8 \<Rightarrow> SocketAddr \<Rightarrow> RequestContext \<Rightarrow> ClientError + bytes" where
  "request pm dr cmd_key command target context =
     and_then (auth_id pm dr cmd_key) (\<lambda>auth.
       let nonce = rq_nonce dr;
           header = instruction_header command target context
       in and_then (encrypt_header_length pm cmd_key auth nonce (length header)) (\<lambda>encrypted_length.
            and_then (encrypt_header pm cmd_key auth nonce header) (\<lambda>encrypted_header.
              Ok (auth @ encrypted_length @ nonce @ encrypted_header))))"

definition validate_response_header :: "u8 \<Rightarrow> bytes \<Rightarrow> ClientError + unit" where
  "validate_response_header response_auth header =
     (if length header < 4 then Err (ClientError ''outbound-protocol'' ''truncated VMess response header'')
      else if header ! 0 \<noteq> response_auth then Err (ClientError ''outbound-protocol'' ''VMess response auth mismatch'')
      else if length header \<noteq> 4 + unat (header ! 3) then
        Err (ClientError ''outbound-protocol'' ''invalid VMess response command length'')
      else Ok ())"

section \<open>Chunks\<close>

definition CHUNK_LIMIT :: nat where "CHUNK_LIMIT = 0x3fff"

record VmessWriter =
  vw_key :: bytes
  vw_iv :: bytes
  vw_counter :: u16

record VmessReader =
  vr_key :: bytes
  vr_iv :: bytes
  vr_response_auth :: u8
  vr_header_read :: bool
  vr_counter :: u16

definition new_writer :: "bytes \<Rightarrow> bytes \<Rightarrow> VmessWriter" where
  "new_writer key iv = \<lparr>vw_key = key, vw_iv = iv, vw_counter = 0\<rparr>"

definition new_reader :: "Primitives \<Rightarrow> RequestContext \<Rightarrow> VmessReader" where
  "new_reader pm context =
     \<lparr>vr_key = sha256_16 pm (rc_request_key context), vr_iv = sha256_16 pm (rc_request_iv context),
      vr_response_auth = rc_response_auth context, vr_header_read = False, vr_counter = 0\<rparr>"

text \<open>The packet of \<open>write_chunk\<close>, and \<open>write_chunk\<close> with its write.\<close>

definition chunk_packet :: "Primitives \<Rightarrow> VmessWriter \<Rightarrow> bytes \<Rightarrow> (ClientError + bytes) \<times> VmessWriter" where
  "chunk_packet pm w payload =
     (if CHUNK_LIMIT < length payload then (Err (ClientError ''outbound-protocol'' ''VMess chunk exceeds 16383 bytes''), w)
      else (case vmess_encrypt_chunk pm (vw_key w) (vw_iv w) (vw_counter w) payload of
              Inl e \<Rightarrow> (Err e, w)
            | Inr packet \<Rightarrow> (Ok packet, w\<lparr>vw_counter := vw_counter w + 1\<rparr>)))"

definition chunk_write_error :: ClientError where
  "chunk_write_error = ClientError ''outbound-write'' ''failed writing VMess data chunk''"

definition write_chunk :: "Primitives \<Rightarrow> bytes \<Rightarrow> VmessWriter \<Rightarrow> ByteSink \<Rightarrow> (ClientError + unit) \<times> VmessWriter \<times> ByteSink" where
  "write_chunk pm payload w sink =
     (case chunk_packet pm w payload of
        (Inl e, w1) \<Rightarrow> (Err e, w1, sink)
      | (Inr packet, w1) \<Rightarrow>
          (case write_all packet sink of
             (Inl _, sink1) \<Rightarrow> (Err chunk_write_error, w1, sink1)
           | (Inr _, sink1) \<Rightarrow> (Ok (), w1, sink1)))"

definition copy_from ::
    "Primitives \<Rightarrow> (IoErrorKind + bytes) list \<Rightarrow> VmessWriter \<Rightarrow> ByteSink \<Rightarrow> (ClientError + u64) \<times> VmessWriter \<times> ByteSink" where
  "copy_from pm reads w sink =
     copy_out (chunk_packet pm) CHUNK_LIMIT (ClientError ''inbound-read'' ''failed reading TCP downstream'') chunk_write_error reads 0 w sink"

definition close :: "Primitives \<Rightarrow> VmessWriter \<Rightarrow> ByteSink \<Rightarrow> (ClientError + unit) \<times> VmessWriter \<times> ByteSink" where
  "close pm w sink =
     (case write_chunk pm [] w sink of
        (Inl e, w1, sink1) \<Rightarrow> (Err e, w1, sink1)
      | (Inr _, w1, sink1) \<Rightarrow>
          (case shutdown sink1 of
             (Inl _, sink2) \<Rightarrow> (Err (ClientError ''outbound-write'' ''failed shutting down VMess writer''), w1, sink2)
           | (Inr _, sink2) \<Rightarrow> (Ok (), w1, sink2)))"

definition read_response_header ::
    "Primitives \<Rightarrow> VmessReader \<Rightarrow> ByteSource \<Rightarrow> (ClientError + unit) \<times> VmessReader \<times> ByteSource" where
  "read_response_header pm r src =
     (case read_exact (2 + 16) src of
        (Inl _, src1) \<Rightarrow> (Err (ClientError ''outbound-read'' ''failed reading VMess response header length''), r, src1)
      | (Inr encrypted_length, src1) \<Rightarrow>
          (case decrypt_response_length pm (vr_key r) (vr_iv r) encrypted_length of
             Inl e \<Rightarrow> (Err e, r, src1)
           | Inr len \<Rightarrow>
               if length len \<noteq> 2 then (Err (ClientError ''outbound-protocol'' ''invalid VMess response header length''), r, src1)
               else (case read_exact (unat (u16_from_be (len ! 0) (len ! 1)) + 16) src1 of
                       (Inl _, src2) \<Rightarrow> (Err (ClientError ''outbound-read'' ''failed reading VMess response header''), r, src2)
                     | (Inr encrypted_header, src2) \<Rightarrow>
                         (case and_then (vmess_decrypt_response_header pm (vr_key r) (vr_iv r) encrypted_header)
                                 (validate_response_header (vr_response_auth r)) of
                            Inl e \<Rightarrow> (Err e, r, src2)
                          | Inr _ \<Rightarrow> (Ok (), r\<lparr>vr_header_read := True\<rparr>, src2)))))"

definition read_data_chunk ::
    "Primitives \<Rightarrow> VmessReader \<Rightarrow> ByteSource \<Rightarrow> (ClientError + bytes option) \<times> VmessReader \<times> ByteSource" where
  "read_data_chunk pm r src =
     (case read_exact 2 src of
        (Inl k, src1) \<Rightarrow>
          if k = UnexpectedEof then (Ok None, r, src1)
          else (Err (ClientError ''outbound-read'' ''failed reading VMess chunk length''), r, src1)
      | (Inr len, src1) \<Rightarrow>
          (let n = unat (u16_from_be (len ! 0) (len ! 1)) in
           if n = 0 then (Ok None, r, src1)
           else (case read_exact n src1 of
                   (Inl _, src2) \<Rightarrow> (Err (ClientError ''outbound-read'' ''failed reading VMess data chunk''), r, src2)
                 | (Inr ciphertext, src2) \<Rightarrow>
                     (case vmess_decrypt_chunk pm (vr_key r) (vr_iv r) (vr_counter r) ciphertext of
                        Inl e \<Rightarrow> (Err e, r, src2)
                      | Inr payload \<Rightarrow>
                          (Ok (if payload = [] then None else Some payload), r\<lparr>vr_counter := vr_counter r + 1\<rparr>, src2)))))"

definition read_chunk ::
    "Primitives \<Rightarrow> VmessReader \<Rightarrow> ByteSource \<Rightarrow> (ClientError + bytes option) \<times> VmessReader \<times> ByteSource" where
  "read_chunk pm r src =
     (if vr_header_read r then read_data_chunk pm r src
      else (case read_response_header pm r src of
              (Inl e, r1, src1) \<Rightarrow> (Err e, r1, src1)
            | (Inr _, r1, src1) \<Rightarrow> read_data_chunk pm r1 src1))"

section \<open>The client\<close>

record VmessConfig =
  vc_server :: string
  vc_port :: u16
  vc_uuid :: string

record VmessClient =
  vm_server :: string
  vm_port :: u16
  vm_user_id :: bytes
  vm_cmd_key :: bytes

definition vmess_try_new :: "Primitives \<Rightarrow> VmessConfig \<Rightarrow> ClientError + VmessClient" where
  "vmess_try_new pm config =
     (case pm_parse_uuid pm (vc_uuid config) of
        None \<Rightarrow> Err (ClientError ''outbound-config'' ''failed parsing VMess UUID'')
      | Some user_id \<Rightarrow>
          Ok \<lparr>vm_server = vc_server config, vm_port = vc_port config, vm_user_id = user_id, vm_cmd_key = command_key pm user_id\<rparr>)"

definition vmess_client_to_upstream ::
    "Primitives \<Rightarrow> (IoErrorKind + bytes) list \<Rightarrow> VmessWriter \<Rightarrow> ByteSink \<Rightarrow> (ClientError + u64) \<times> ByteSink" where
  "vmess_client_to_upstream pm reads w sink =
     (case copy_from pm reads w sink of
        (Inl e, _, sink1) \<Rightarrow> (Err e, sink1)
      | (Inr n, w1, sink1) \<Rightarrow>
          (case close pm w1 sink1 of
             (Inl e, _, sink2) \<Rightarrow> (Err e, sink2)
           | (Inr _, _, sink2) \<Rightarrow> (Ok n, sink2)))"

definition vmess_upstream_to_client ::
    "Primitives \<Rightarrow> VmessReader \<Rightarrow> ByteSource \<Rightarrow> ByteSink \<Rightarrow> ((ClientError + u64) \<times> ByteSink) option" where
  "vmess_upstream_to_client pm r src sink =
     map_option (\<lambda>(n, _, _, sink1). (n, sink1))
       (copy_in (read_chunk pm) (ClientError ''inbound-write'' ''failed writing TCP downstream'') 0 r src sink)"

definition vmess_relay_tcp_with_io ::
    "Primitives \<Rightarrow> RequestDraws \<Rightarrow> RequestContext \<Rightarrow> VmessClient \<Rightarrow> SocketAddr \<Rightarrow> bool \<Rightarrow> RelayStreams \<Rightarrow>
      (ClientError + (u64 \<times> u64) \<times> RelayStreams) option" where
  "vmess_relay_tcp_with_io pm dr context c target out_first io =
     (case request pm dr (vm_cmd_key c) 0x01 target context of
        Inl e \<Rightarrow> Some (Err e)
      | Inr packet \<Rightarrow>
          (case write_all packet (rl_upstream_sink io) of
             (Inl _, _) \<Rightarrow> Some (Err (ClientError ''outbound-write'' ''failed writing VMess TCP request''))
           | (Inr _, sink) \<Rightarrow>
               run_directions out_first io
                 (vmess_client_to_upstream pm (rl_downstream_reads io) (new_writer (rc_request_key context) (rc_request_iv context)) sink)
                 (vmess_upstream_to_client pm (new_reader pm context) (rl_upstream io) (rl_downstream_sink io))))"

definition connect_udp_with_stream ::
    "Primitives \<Rightarrow> RequestDraws \<Rightarrow> RequestContext \<Rightarrow> VmessClient \<Rightarrow> SocketAddr \<Rightarrow> ByteSink \<Rightarrow>
      (ClientError + VmessReader \<times> VmessWriter) \<times> ByteSink" where
  "connect_udp_with_stream pm dr context c target sink =
     (case request pm dr (vm_cmd_key c) 0x02 target context of
        Inl e \<Rightarrow> (Err e, sink)
      | Inr packet \<Rightarrow>
          (case write_all packet sink of
             (Inl _, sink1) \<Rightarrow> (Err (ClientError ''outbound-write'' ''failed writing VMess UDP request''), sink1)
           | (Inr _, sink1) \<Rightarrow>
               (Ok (new_reader pm context, new_writer (rc_request_key context) (rc_request_iv context)), sink1)))"

definition write_datagram :: "Primitives \<Rightarrow> bytes \<Rightarrow> VmessWriter \<Rightarrow> ByteSink \<Rightarrow> (ClientError + unit) \<times> VmessWriter \<times> ByteSink" where
  "write_datagram pm payload w sink = write_chunk pm payload w sink"

definition read_datagram :: "Primitives \<Rightarrow> VmessReader \<Rightarrow> ByteSource \<Rightarrow> (ClientError + bytes) \<times> VmessReader \<times> ByteSource" where
  "read_datagram pm r src =
     (case read_chunk pm r src of
        (Inl e, r1, src1) \<Rightarrow> (Err e, r1, src1)
      | (Inr None, r1, src1) \<Rightarrow> (Err (ClientError ''outbound-read'' ''VMess UDP stream closed''), r1, src1)
      | (Inr (Some payload), r1, src1) \<Rightarrow> (Ok payload, r1, src1))"

end
