(* ===== verification/Vmess_Streams.thy ===== *)
theory Vmess_Streams
  imports Vmess_Client
begin

text \<open>
  What the VMess client promises: its key derivation is a nested HMAC, the server can open its request, what is
  relayed arrives up to the chunk that closes the stream, and a response is read when it carries the expected byte.
\<close>

section \<open>Key derivation\<close>

lemma length_hmac_with_hash: "(\<And>x. length (hash x) = 32) \<Longrightarrow> length (hmac_with_hash hash key message) = 32"
  by (simp add: hmac_with_hash_def Let_def)

lemma length_nested_hmac: "digests_ok pm \<Longrightarrow> keys \<noteq> [] \<Longrightarrow> length (nested_hmac_rev pm keys message) = 32"
  by (induction pm keys message rule: nested_hmac_rev.induct) (auto simp: digests_ok_def intro!: length_hmac_with_hash)

lemma length_kdf [simp]:
  assumes "digests_ok pm"
  shows "length (kdf16 pm key path) = 16" "length (kdf12 pm key path) = 12"
  using length_nested_hmac [OF assms, of "rev path @ [as_bytes ''VMess AEAD KDF'']" key]
  by (simp_all add: kdf16_def kdf12_def kdf_def nested_hmac_def)

text \<open>
  The key derivation is the one of the protocol: with HMAC over SHA-256 as the primitive, the nested HMAC is SHA-256
  turned into an HMAC once for every key of the path, the root key first.
\<close>

theorem nested_hmac_is_iterated:
  assumes "\<And>k m. pm_hmac_sha256 pm k m = hmac_with_hash (pm_sha256 pm) k m" "keys \<noteq> []"
  shows "nested_hmac pm keys = foldl hmac_with_hash (pm_sha256 pm) keys"
proof -
  have "nested_hmac_rev pm ks = foldr (\<lambda>key hash. hmac_with_hash hash key) ks (pm_sha256 pm)" if "ks \<noteq> []" for ks
    using that
  proof (induction ks rule: induct_list012)
    case (2 k)
    show ?case by (rule ext) (simp add: assms(1))
  next
    case (3 k k' ks)
    then show ?case by (intro ext) simp
  qed simp
  with assms(2) show ?thesis by (simp add: nested_hmac_def fun_eq_iff foldl_conv_foldr)
qed

theorem nested_hmac_is_iterated_witness:
  "nested_hmac (plain_primitives\<lparr>pm_hmac_sha256 := hmac_with_hash (pm_sha256 plain_primitives)\<rparr>) [[1], [2, 3]] =
    hmac_with_hash (hmac_with_hash (pm_sha256 plain_primitives) [1]) [2, 3]"
  using nested_hmac_is_iterated [of "plain_primitives\<lparr>pm_hmac_sha256 := hmac_with_hash (pm_sha256 plain_primitives)\<rparr>" "[[1], [2, 3]]"]
  by simp

section \<open>Chunks\<close>

lemma length_chunk_nonce [simp]: "length iv = 16 \<Longrightarrow> length (chunk_nonce counter iv) = 12"
  by (simp add: chunk_nonce_def)

definition chunk_agree :: "Primitives \<Rightarrow> VmessWriter \<Rightarrow> VmessReader \<Rightarrow> bool" where
  "chunk_agree pm w r \<longleftrightarrow> gcm_ok pm \<and> vw_key w = vr_key r \<and> vw_iv w = vr_iv r \<and> vw_counter w = vr_counter r \<and>
     vr_header_read r \<and> length (vw_key w) = 16 \<and> length (vw_iv w) = 16"

text \<open>One chunk, the empty one included, which closes the stream.\<close>

lemma vmess_chunk_step:
  assumes "chunk_agree pm w r" "length x \<le> CHUNK_LIMIT"
  obtains packet where "chunk_packet pm w x = (Ok packet, w\<lparr>vw_counter := vw_counter w + 1\<rparr>)"
    "chunk_agree pm (w\<lparr>vw_counter := vw_counter w + 1\<rparr>) (r\<lparr>vr_counter := vr_counter r + 1\<rparr>)"
    "\<And>rest k. read_chunk pm r \<lparr>so_bytes = packet @ rest, so_failure = k\<rparr> =
      (Ok (if x = [] then None else Some x), r\<lparr>vr_counter := vr_counter r + 1\<rparr>, \<lparr>so_bytes = rest, so_failure = k\<rparr>)"
proof -
  let ?nonce = "chunk_nonce (vr_counter r) (vr_iv r)"
  have a: "gcm_ok pm" "length (vr_key r) = 16" "length (vr_iv r) = 16" "vr_header_read r"
      "vw_key w = vr_key r" "vw_iv w = vr_iv r" "vw_counter w = vr_counter r"
    using assms(1) by (auto simp: chunk_agree_def)
  have "length x < 2 ^ 36" using assms(2) by (simp add: CHUNK_LIMIT_def)
  then obtain c where c: "pm_seal pm (vr_key r) ?nonce [] x = Some c" "length c = length x + 16" "pm_open pm (vr_key r) ?nonce [] c = Some x"
    using gcm_okE [OF a(1), of "vr_key r" ?nonce x "[]"] a(2,3) by auto
  have "length c < 65536" "length c \<noteq> 0" using c(2) assms(2) by (simp_all add: CHUNK_LIMIT_def)
  then have n: "length c < 65536" "unat (of_nat (length c) :: u16) = length c" "length c \<noteq> 0" by (simp_all only: unat_of_nat_u16 not_False_eq_True)
  show thesis
  proof (rule that [of "u16_to_be (of_nat (length c)) @ c"])
    show "chunk_packet pm w x = (Ok (u16_to_be (of_nat (length c)) @ c), w\<lparr>vw_counter := vw_counter w + 1\<rparr>)"
      using a c n assms(2) by (simp add: chunk_packet_def vmess_encrypt_chunk_def encrypt_aead_def)
    show "chunk_agree pm (w\<lparr>vw_counter := vw_counter w + 1\<rparr>) (r\<lparr>vr_counter := vr_counter r + 1\<rparr>)"
      using assms(1) by (auto simp: chunk_agree_def)
    show "read_chunk pm r \<lparr>so_bytes = (u16_to_be (of_nat (length c)) @ c) @ rest, so_failure = k\<rparr> =
        (Ok (if x = [] then None else Some x), r\<lparr>vr_counter := vr_counter r + 1\<rparr>, \<lparr>so_bytes = rest, so_failure = k\<rparr>)" for rest k
      using a c n read_exact_append [of "u16_to_be (of_nat (length c))" "c @ rest" k] read_exact_append [of c rest k]
      by (simp add: read_chunk_def read_data_chunk_def vmess_decrypt_chunk_def decrypt_aead_def)
  qed
qed

lemma read_data_chunk_consumes:
  "read_data_chunk pm r src = (Ok (Some x), r', src') \<Longrightarrow> length (so_bytes src') < length (so_bytes src)"
  by (auto simp: read_data_chunk_def Let_def dest!: read_exact_length split: prod.splits sum.splits if_splits)

lemma read_response_header_shrinks:
  "read_response_header pm r src = (res, r', src') \<Longrightarrow> length (so_bytes src') \<le> length (so_bytes src)"
  by (auto simp: read_response_header_def dest!: read_exact_rest split: prod.splits sum.splits if_splits)

lemma read_chunk_consumes:
  "read_chunk pm r src = (Ok (Some x), r', src') \<Longrightarrow> length (so_bytes src') < length (so_bytes src)"
  by (auto simp: read_chunk_def dest!: read_data_chunk_consumes read_response_header_shrinks split: prod.splits sum.splits if_splits)

interpretation vmess: chunk_codec "chunk_packet pm" "read_chunk pm" "chunk_agree pm" CHUNK_LIMIT for pm
proof
  show "0 < CHUNK_LIMIT" by (simp add: CHUNK_LIMIT_def)
  show "\<exists>packet w' r'. chunk_packet pm w x = (Ok packet, w') \<and> chunk_agree pm w' r' \<and>
      (\<forall>rest k. read_chunk pm r \<lparr>so_bytes = packet @ rest, so_failure = k\<rparr> = (Ok (Some x), r', \<lparr>so_bytes = rest, so_failure = k\<rparr>))"
    if x: "chunk_agree pm w r" "x \<noteq> []" "length x \<le> CHUNK_LIMIT" for w r x
  proof -
    obtain packet where "chunk_packet pm w x = (Ok packet, w\<lparr>vw_counter := vw_counter w + 1\<rparr>)"
        "chunk_agree pm (w\<lparr>vw_counter := vw_counter w + 1\<rparr>) (r\<lparr>vr_counter := vr_counter r + 1\<rparr>)"
        "\<And>rest k. read_chunk pm r \<lparr>so_bytes = packet @ rest, so_failure = k\<rparr> =
          (Ok (if x = [] then None else Some x), r\<lparr>vr_counter := vr_counter r + 1\<rparr>, \<lparr>so_bytes = rest, so_failure = k\<rparr>)"
      by (rule vmess_chunk_step [OF x(1,3)]) (rule that)
    with x(2) show ?thesis
      by (intro exI [of _ packet] exI [of _ "w\<lparr>vw_counter := vw_counter w + 1\<rparr>"] exI [of _ "r\<lparr>vr_counter := vr_counter r + 1\<rparr>"]) simp
  qed
  show "read_chunk pm r src = (Ok (Some x), r', src') \<Longrightarrow> length (so_bytes src') < length (so_bytes src)" for r src x r' src'
    by (rule read_chunk_consumes)
  show "read_chunk pm r \<lparr>so_bytes = [], so_failure = None\<rparr> = (Ok None, r, \<lparr>so_bytes = [], so_failure = None\<rparr>)" if "chunk_agree pm w r" for w r
    using that by (simp add: read_chunk_def read_data_chunk_def read_exact_def chunk_agree_def)
qed

section \<open>Requests\<close>

lemma encrypt_aead_ok:
  assumes "gcm_ok pm" "length key = 16" "length nonce = 12" "length x < 65536"
  obtains c where "encrypt_aead pm key nonce aad x = Ok c" "length c = length x + 16" "decrypt_aead pm key nonce aad c = Ok x"
proof -
  have "length x < 2 ^ 36" using assms(4) by simp
  then obtain c where "pm_seal pm key nonce aad x = Some c" "length c = length x + 16" "pm_open pm key nonce aad c = Some x"
    using gcm_okE [OF assms(1) _ assms(3), of key x aad] assms(2) by blast
  then show thesis by (intro that [of c]) (simp_all add: encrypt_aead_def decrypt_aead_def assms(2))
qed

text \<open>A server that knows the command key reads a request: the auth id, the length, the nonce and the header.\<close>

definition server_open_request :: "Primitives \<Rightarrow> bytes \<Rightarrow> bytes \<Rightarrow> ClientError + bytes" where
  "server_open_request pm cmd_key packet =
     (let auth = take 16 packet; nonce = take 8 (drop 34 packet) in
      and_then (decrypt_aead pm (kdf16 pm cmd_key [as_bytes ''VMess Header AEAD Key_Length'', auth, nonce])
          (kdf12 pm cmd_key [as_bytes ''VMess Header AEAD Nonce_Length'', auth, nonce]) auth (take 18 (drop 16 packet))) (\<lambda>len.
        decrypt_aead pm (kdf16 pm cmd_key [as_bytes ''VMess Header AEAD Key'', auth, nonce])
          (kdf12 pm cmd_key [as_bytes ''VMess Header AEAD Nonce'', auth, nonce]) auth
          (take (unat (u16_from_be (len ! 0) (len ! 1)) + 16) (drop 42 packet))))"

lemma length_instruction_header:
  "length (rc_request_iv context) = 16 \<Longrightarrow> length (rc_request_key context) = 16 \<Longrightarrow> length (instruction_header command target context) < 80"
  by (auto simp: instruction_header_def write_address_def Let_def split: IpAddr.splits)

lemma request_opens:
  assumes "gcm_ok pm" "block_ok pm" "digests_ok pm" "rq_now dr = Some now" "length (rq_auth dr) = 4" "length (rq_nonce dr) = 8"
    and "length (rc_request_iv context) = 16" "length (rc_request_key context) = 16"
  obtains packet where "request pm dr cmd_key command target context = Ok packet"
    "\<And>rest. server_open_request pm cmd_key (packet @ rest) = Ok (instruction_header command target context)"
    "pm_aes_decrypt pm (kdf16 pm cmd_key [as_bytes ''AES Auth ID Encryption'']) (take 16 packet) =
      u64_be_bytes now @ rq_auth dr @ nat_be_bytes 4 (unat (pm_crc32 pm (u64_be_bytes now @ rq_auth dr)))"
proof -
  let ?h = "instruction_header command target context"
  define k where "k = kdf16 pm cmd_key [as_bytes ''AES Auth ID Encryption'']"
  define b where "b = (u64_be_bytes now @ rq_auth dr) @ nat_be_bytes 4 (unat (pm_crc32 pm (u64_be_bytes now @ rq_auth dr)))"
  define auth where "auth = pm_aes_encrypt pm k b"
  define nonce where "nonce = rq_nonce dr"
  have "length k = 16" "length b = 16" using assms(3,5) by (simp_all add: k_def b_def)
  with assms(2) have auth: "length auth = 16" "pm_aes_decrypt pm k auth = b" by (simp_all add: auth_def block_ok_def)
  have auth_ok: "auth_id pm dr cmd_key = Ok auth" using assms(4) by (simp add: auth_id_def auth_def k_def b_def Let_def)
  have h: "length ?h < 65536" using length_instruction_header [OF assms(7,8), of command target] by simp
  obtain c where c: "encrypt_aead pm (kdf16 pm cmd_key [as_bytes ''VMess Header AEAD Key_Length'', auth, nonce])
        (kdf12 pm cmd_key [as_bytes ''VMess Header AEAD Nonce_Length'', auth, nonce]) auth (u16_to_be (of_nat (length ?h))) = Ok c"
      "length c = 18"
      "decrypt_aead pm (kdf16 pm cmd_key [as_bytes ''VMess Header AEAD Key_Length'', auth, nonce])
        (kdf12 pm cmd_key [as_bytes ''VMess Header AEAD Nonce_Length'', auth, nonce]) auth c = Ok (u16_to_be (of_nat (length ?h)))"
    by (rule encrypt_aead_ok [OF assms(1) length_kdf [OF assms(3)], of "u16_to_be (of_nat (length ?h))"]) simp_all
  obtain d where d: "encrypt_aead pm (kdf16 pm cmd_key [as_bytes ''VMess Header AEAD Key'', auth, nonce])
        (kdf12 pm cmd_key [as_bytes ''VMess Header AEAD Nonce'', auth, nonce]) auth ?h = Ok d" "length d = length ?h + 16"
      "decrypt_aead pm (kdf16 pm cmd_key [as_bytes ''VMess Header AEAD Key'', auth, nonce])
        (kdf12 pm cmd_key [as_bytes ''VMess Header AEAD Nonce'', auth, nonce]) auth d = Ok ?h"
    by (rule encrypt_aead_ok [OF assms(1) length_kdf [OF assms(3)] h])
  show thesis
  proof (rule that [of "auth @ c @ nonce @ d"])
    show "request pm dr cmd_key command target context = Ok (auth @ c @ nonce @ d)"
      using auth_ok c(1) d(1) h by (simp add: request_def encrypt_header_length_def encrypt_header_def nonce_def Let_def)
    have "length nonce = 8" using assms(6) by (simp add: nonce_def)
    then show "server_open_request pm cmd_key ((auth @ c @ nonce @ d) @ rest) = Ok ?h" for rest
      using auth(1) c(2,3) d(2,3) h by (simp add: server_open_request_def Let_def unat_of_nat_u16)
    show "pm_aes_decrypt pm (kdf16 pm cmd_key [as_bytes ''AES Auth ID Encryption'']) (take 16 (auth @ c @ nonce @ d)) =
        u64_be_bytes now @ rq_auth dr @ nat_be_bytes 4 (unat (pm_crc32 pm (u64_be_bytes now @ rq_auth dr)))"
      using auth by (simp add: k_def b_def)
  qed
qed

section \<open>Relaying\<close>

lemma vmess_upstream_returns: "\<exists>r. vmess_upstream_to_client pm reader src sink = Some r"
  using vmess.copy_in_returns by (fastforce simp: vmess_upstream_to_client_def)

text \<open>The reader of the server for the direction of the client.\<close>

definition server_reader :: "RequestContext \<Rightarrow> VmessReader" where
  "server_reader context = \<lparr>vr_key = rc_request_key context, vr_iv = rc_request_iv context,
     vr_response_auth = rc_response_auth context, vr_header_read = True, vr_counter = 0\<rparr>"

lemma vmess_writing_direction:
  assumes "gcm_ok pm" "length (rc_request_iv context) = 16" "length (rc_request_key context) = 16"
  obtains chunks r' where
    "\<And>sent. vmess_client_to_upstream pm (map Inr bss) (new_writer (rc_request_key context) (rc_request_iv context)) (open_sink sent) =
      (Ok (of_nat (length (delivered_reads bss))), (open_sink (sent @ chunks))\<lparr>si_closed := True\<rparr>)"
    "\<And>rest k. copy_in (read_chunk pm) write_error 0 (server_reader context) \<lparr>so_bytes = chunks @ rest, so_failure = k\<rparr> (open_sink []) =
      Some (Ok (of_nat (length (delivered_reads bss))), r', \<lparr>so_bytes = rest, so_failure = k\<rparr>, open_sink (delivered_reads bss))"
proof -
  let ?w = "new_writer (rc_request_key context) (rc_request_iv context)"
  have "chunk_agree pm ?w (server_reader context)" using assms by (simp add: chunk_agree_def new_writer_def server_reader_def)
  then obtain packets w' r' where p: "chunk_agree pm w' r'"
      "\<And>n sent. copy_out (chunk_packet pm) CHUNK_LIMIT (ClientError ''inbound-read'' ''failed reading TCP downstream'') chunk_write_error
        (map Inr bss) n ?w (open_sink sent) = (Ok (n + of_nat (length (delivered_reads bss))), w', open_sink (sent @ packets))"
      "\<And>n sent rest k. copy_in (read_chunk pm) write_error n (server_reader context) \<lparr>so_bytes = packets @ rest, so_failure = k\<rparr> (open_sink sent) =
        copy_in (read_chunk pm) write_error (n + of_nat (length (delivered_reads bss))) r' \<lparr>so_bytes = rest, so_failure = k\<rparr>
          (open_sink (sent @ delivered_reads bss))"
    using vmess.copied_bytes_pass by metis
  obtain q where q: "chunk_packet pm w' [] = (Ok q, w'\<lparr>vw_counter := vw_counter w' + 1\<rparr>)"
      "\<And>rest k. read_chunk pm r' \<lparr>so_bytes = q @ rest, so_failure = k\<rparr> =
        (Ok None, r'\<lparr>vr_counter := vr_counter r' + 1\<rparr>, \<lparr>so_bytes = rest, so_failure = k\<rparr>)"
    by (rule vmess_chunk_step [OF p(1), of "[]"]) (simp, rule that, simp_all)
  show thesis
  proof (rule that [of "packets @ q"])
    show "vmess_client_to_upstream pm (map Inr bss) ?w (open_sink sent) =
        (Ok (of_nat (length (delivered_reads bss))), (open_sink (sent @ packets @ q))\<lparr>si_closed := True\<rparr>)" for sent
      by (simp add: vmess_client_to_upstream_def copy_from_def p(2) close_def write_chunk_def q(1) shutdown_def) (simp add: open_sink_def)
    show "copy_in (read_chunk pm) write_error 0 (server_reader context) \<lparr>so_bytes = (packets @ q) @ rest, so_failure = k\<rparr> (open_sink []) =
        Some (Ok (of_nat (length (delivered_reads bss))), r'\<lparr>vr_counter := vr_counter r' + 1\<rparr>, \<lparr>so_bytes = rest, so_failure = k\<rparr>,
          open_sink (delivered_reads bss))" for rest k
      using p(3) [of 0 "q @ rest" k "[]"] q(2) by (simp add: copy_in.simps [of _ _ _ r'])
  qed
qed


definition demo_context :: RequestContext where
  "demo_context = \<lparr>rc_request_iv = replicate 16 1, rc_request_key = replicate 16 2, rc_response_auth = 9\<rparr>"

definition demo_draws :: RequestDraws where
  "demo_draws = \<lparr>rq_now = Some 100, rq_auth = [1, 2, 3, 4], rq_nonce = replicate 8 5\<rparr>"

definition demo_vmess :: VmessClient where
  "demo_vmess = \<lparr>vm_server = ''server'', vm_port = 443, vm_user_id = replicate 16 9, vm_cmd_key = replicate 16 1\<rparr>"

text \<open>A server that answers with a header for the request and one chunk.\<close>

definition answered_relay :: RelayStreams where
  "answered_relay = demo_relay\<lparr>rl_upstream :=
     \<lparr>so_bytes = ([0, 4] @ replicate 16 0) @ ([9, 0, 0, 0] @ replicate 16 0) @ ([0, 17, 42] @ replicate 16 0), so_failure = None\<rparr>\<rparr>"

lemma answered_relay_reads:
  "read_chunk plain_primitives (new_reader plain_primitives demo_context) (rl_upstream answered_relay) =
     (Ok (Some [42]), (new_reader plain_primitives demo_context)\<lparr>vr_header_read := True, vr_counter := 1\<rparr>, \<lparr>so_bytes = [], so_failure = None\<rparr>)"
  "read_chunk plain_primitives ((new_reader plain_primitives demo_context)\<lparr>vr_header_read := True, vr_counter := 1\<rparr>)
     \<lparr>so_bytes = [], so_failure = None\<rparr> =
     (Ok None, (new_reader plain_primitives demo_context)\<lparr>vr_header_read := True, vr_counter := 1\<rparr>, \<lparr>so_bytes = [], so_failure = None\<rparr>)"
  by code_simp+

lemma answered_relay_response:
  "vmess_upstream_to_client plain_primitives (new_reader plain_primitives demo_context) (rl_upstream answered_relay)
     (rl_downstream_sink answered_relay) = Some (Ok 1, open_sink [42])"
proof -
  have sink: "rl_downstream_sink answered_relay = open_sink []" by (simp add: answered_relay_def demo_relay_def)
  show ?thesis
    unfolding vmess_upstream_to_client_def sink
    by (subst copy_in.simps, simp only: answered_relay_reads prod.case sum.case option.case write_all_open,
      subst copy_in.simps, simp add: answered_relay_reads)
qed

lemma outcome_given: "\<exists>x y. Some (a, b) = Some (x, y) \<and> P x y \<Longrightarrow> P a b"
  by simp


section \<open>Responses\<close>

text \<open>What a server sends before its chunks.\<close>

definition server_response :: "Primitives \<Rightarrow> bytes \<Rightarrow> bytes \<Rightarrow> bytes \<Rightarrow> ClientError + bytes" where
  "server_response pm key iv header =
     and_then (encrypt_aead pm (kdf16 pm key [as_bytes ''AEAD Resp Header Len Key'']) (kdf12 pm iv [as_bytes ''AEAD Resp Header Len IV'']) []
         (u16_to_be (of_nat (length header)))) (\<lambda>c.
       and_then (encrypt_aead pm (kdf16 pm key [as_bytes ''AEAD Resp Header Key'']) (kdf12 pm iv [as_bytes ''AEAD Resp Header IV'']) [] header) (\<lambda>d.
         Ok (c @ d)))"

text \<open>
  A response is read exactly when its header is for this request: on what a server with the keys of the request sends, reading
  the header succeeds and leaves what follows when the first byte is the one of the request and the command length fits, and
  fails with the error of the check otherwise, for every header of up to 65535 bytes.
\<close>

theorem response_header_checked:
  assumes "gcm_ok pm" "digests_ok pm" "length header < 65536"
  shows "\<exists>packet. server_response pm (vr_key r) (vr_iv r) header = Ok packet \<and>
    (\<forall>rest k. read_response_header pm r \<lparr>so_bytes = packet @ rest, so_failure = k\<rparr> =
      (case validate_response_header (vr_response_auth r) header of
         Inl e \<Rightarrow> (Err e, r, \<lparr>so_bytes = rest, so_failure = k\<rparr>)
       | Inr _ \<Rightarrow> (Ok (), r\<lparr>vr_header_read := True\<rparr>, \<lparr>so_bytes = rest, so_failure = k\<rparr>)))"
proof -
  let ?len = "u16_to_be (of_nat (length header))"
  obtain c where c: "encrypt_aead pm (kdf16 pm (vr_key r) [as_bytes ''AEAD Resp Header Len Key''])
        (kdf12 pm (vr_iv r) [as_bytes ''AEAD Resp Header Len IV'']) [] ?len = Ok c" "length c = length ?len + 16"
      "decrypt_aead pm (kdf16 pm (vr_key r) [as_bytes ''AEAD Resp Header Len Key''])
        (kdf12 pm (vr_iv r) [as_bytes ''AEAD Resp Header Len IV'']) [] c = Ok ?len"
    by (rule encrypt_aead_ok [OF assms(1) length_kdf [OF assms(2)], of ?len]) simp_all
  obtain d where d: "encrypt_aead pm (kdf16 pm (vr_key r) [as_bytes ''AEAD Resp Header Key''])
        (kdf12 pm (vr_iv r) [as_bytes ''AEAD Resp Header IV'']) [] header = Ok d" "length d = length header + 16"
      "decrypt_aead pm (kdf16 pm (vr_key r) [as_bytes ''AEAD Resp Header Key''])
        (kdf12 pm (vr_iv r) [as_bytes ''AEAD Resp Header IV'']) [] d = Ok header"
    by (rule encrypt_aead_ok [OF assms(1) length_kdf [OF assms(2)] assms(3)])
  have "read_response_header pm r \<lparr>so_bytes = (c @ d) @ rest, so_failure = k\<rparr> =
      (case validate_response_header (vr_response_auth r) header of
         Inl e \<Rightarrow> (Err e, r, \<lparr>so_bytes = rest, so_failure = k\<rparr>)
       | Inr _ \<Rightarrow> (Ok (), r\<lparr>vr_header_read := True\<rparr>, \<lparr>so_bytes = rest, so_failure = k\<rparr>))" for rest k
    using c(2,3) d(2,3) assms(3) read_exact_append [of c "d @ rest" k] read_exact_append [of d rest k]
    by (simp add: read_response_header_def decrypt_response_length_def vmess_decrypt_response_header_def unat_of_nat_u16)
  with c(1) d(1) show ?thesis by (intro exI [of _ "c @ d"]) (simp add: server_response_def)
qed

theorem response_header_checked_witness:
  "\<exists>packet. server_response plain_primitives (vr_key (server_reader demo_context)) (vr_iv (server_reader demo_context)) [9, 0, 0, 1, 7] = Ok packet \<and>
    (\<forall>rest k. read_response_header plain_primitives (server_reader demo_context) \<lparr>so_bytes = packet @ rest, so_failure = k\<rparr> =
      (Ok (), server_reader demo_context, \<lparr>so_bytes = rest, so_failure = k\<rparr>))"
proof -
  have "validate_response_header (vr_response_auth (server_reader demo_context)) [9, 0, 0, 1, 7] = Ok ()"
    by (simp add: validate_response_header_def server_reader_def demo_context_def)
  moreover have "server_reader demo_context\<lparr>vr_header_read := True\<rparr> = server_reader demo_context" by (simp add: server_reader_def)
  ultimately show ?thesis
    using response_header_checked [OF plain_primitives_ok(1,3), of "[9, 0, 0, 1, 7]" "server_reader demo_context"] by simp
qed

section \<open>The nonce of a chunk\<close>

text \<open>Chunks of one direction have different nonces as long as their counters differ; the counter has 16 bits and wraps.\<close>

lemma chunk_nonce_inject: "chunk_nonce a iv = chunk_nonce b iv \<longleftrightarrow> a = b"
proof
  assume "chunk_nonce a iv = chunk_nonce b iv"
  then have "u16_to_be a = u16_to_be b" by (simp add: chunk_nonce_def)
  then show "a = b" by (metis u16_prefix)
qed simp

lemma chunk_nonce_repeats: "chunk_nonce (of_nat (n + 65536)) iv = chunk_nonce (of_nat n) iv"
proof -
  have "(of_nat (n + 65536) :: u16) = of_nat n" by (simp add: word_of_nat_eq_iff take_bit_eq_mod)
  then show ?thesis by (rule arg_cong)
qed

text \<open>An empty datagram is the chunk that closes a stream, so its reader reports a closed stream.\<close>

lemma empty_datagram_closes:
  assumes "chunk_agree pm w r"
  shows "\<exists>packet r'. chunk_packet pm w [] = (Ok packet, w\<lparr>vw_counter := vw_counter w + 1\<rparr>) \<and>
    read_datagram pm r \<lparr>so_bytes = packet @ rest, so_failure = k\<rparr> =
      (Err (ClientError ''outbound-read'' ''VMess UDP stream closed''), r', \<lparr>so_bytes = rest, so_failure = k\<rparr>)"
  by (rule vmess_chunk_step [OF assms, of "[]"]) (auto simp: read_datagram_def)

text \<open>Every other datagram within the limit arrives.\<close>

lemma datagram_arrives:
  assumes "chunk_agree pm w r" "x \<noteq> []" "length x \<le> CHUNK_LIMIT"
  shows "\<exists>packet. write_datagram pm x w (open_sink sent) = (Ok (), w\<lparr>vw_counter := vw_counter w + 1\<rparr>, open_sink (sent @ packet)) \<and>
    read_datagram pm r \<lparr>so_bytes = packet @ rest, so_failure = k\<rparr> =
      (Ok x, r\<lparr>vr_counter := vr_counter r + 1\<rparr>, \<lparr>so_bytes = rest, so_failure = k\<rparr>)"
  by (rule vmess_chunk_step [OF assms(1,3)]) (use assms(2) in \<open>auto simp: read_datagram_def write_datagram_def write_chunk_def\<close>)

end
