(* ===== verification/Trojan_Client.thy ===== *)
theory Trojan_Client
  imports Client_Crypto
begin

text \<open>
  The Trojan client, \<open>prototype/trojan/src/lib.rs\<close>: the request header, the datagrams inside the TLS stream, and the relays over
  an established TLS stream. The TLS handshake and \<open>copy_bidirectional\<close> are library code; the latter is an argument.
\<close>

section \<open>Requests\<close>

definition CRLF :: bytes where "CRLF = [13, 10]"
definition CMD_CONNECT :: u8 where "CMD_CONNECT = 0x01"
definition CMD_UDP_ASSOCIATE :: u8 where "CMD_UDP_ASSOCIATE = 0x03"

text \<open>The format \<open>02x\<close>.\<close>

definition hex_digit :: "nat \<Rightarrow> char" where
  "hex_digit n = (if n < 10 then char_of (48 + n) else char_of (87 + n))"

definition trojan_password_hash :: "Primitives \<Rightarrow> string \<Rightarrow> string" where
  "trojan_password_hash pm password =
     concat (map (\<lambda>byte. [hex_digit (unat byte div 16), hex_digit (unat byte mod 16)]) (pm_sha224 pm (as_bytes password)))"

definition trojan_write_address :: "SocketAddr \<Rightarrow> bytes" where
  "trojan_write_address target =
     (case sa_ip target of
        V4 ip \<Rightarrow> [0x01] @ v4_octets ip @ u16_to_be (sa_port target)
      | V6 ip \<Rightarrow> [0x04] @ v6_octets ip @ u16_to_be (sa_port target))"

definition request_header :: "string \<Rightarrow> u8 \<Rightarrow> SocketAddr \<Rightarrow> bytes" where
  "request_header hash cmd target = as_bytes hash @ CRLF @ [cmd] @ trojan_write_address target @ CRLF"

section \<open>Datagrams\<close>

definition udp_packet :: "SocketAddr \<Rightarrow> bytes \<Rightarrow> ClientError + bytes" where
  "udp_packet target payload =
     (if length payload < 65536 then
        Ok (trojan_write_address target @ u16_to_be (of_nat (length payload)) @ CRLF @ payload)
      else Err (ClientError ''outbound-protocol'' ''Trojan UDP payload exceeds 65535 bytes''))"

definition trojan_read_error :: ClientError where
  "trojan_read_error = ClientError ''outbound-read'' ''failed reading Trojan UDP packet''"

text \<open>\<open>read_exact\<close> with the error of this reader, followed by what is done with the bytes.\<close>

definition reading :: "nat \<Rightarrow> ByteSource \<Rightarrow> (bytes \<Rightarrow> ByteSource \<Rightarrow> (ClientError + 'a) \<times> ByteSource) \<Rightarrow> (ClientError + 'a) \<times> ByteSource" where
  "reading n src f = (case read_exact n src of (Inl _, src1) \<Rightarrow> (Err trojan_read_error, src1) | (Inr x, src1) \<Rightarrow> f x src1)"

definition read_address :: "ByteSource \<Rightarrow> (ClientError + unit) \<times> ByteSource" where
  "read_address src =
     reading 1 src (\<lambda>atyp src1.
       if atyp ! 0 = 0x01 then reading (4 + 2) src1 (\<lambda>_ src2. (Ok (), src2))
       else if atyp ! 0 = 0x03 then
         reading 1 src1 (\<lambda>len src2. reading (unat (len ! 0) + 2) src2 (\<lambda>_ src3. (Ok (), src3)))
       else if atyp ! 0 = 0x04 then reading (16 + 2) src1 (\<lambda>_ src2. (Ok (), src2))
       else (Err (ClientError ''outbound-protocol'' ''unsupported Trojan UDP address type''), src1))"

definition read_udp_packet :: "ByteSource \<Rightarrow> (ClientError + bytes) \<times> ByteSource" where
  "read_udp_packet src =
     (case read_address src of
        (Inl e, src1) \<Rightarrow> (Err e, src1)
      | (Inr _, src1) \<Rightarrow>
          reading 2 src1 (\<lambda>len src2.
            reading 2 src2 (\<lambda>crlf src3.
              if crlf \<noteq> CRLF then (Err (ClientError ''outbound-protocol'' ''invalid Trojan UDP packet delimiter''), src3)
              else reading (unat (u16_from_be (len ! 0) (len ! 1))) src3 (\<lambda>payload src4. (Ok payload, src4)))))"

section \<open>The client\<close>

record TrojanConfig =
  tc_server :: string
  tc_port :: u16
  tc_password :: string
  tc_sni :: "string option"
  tc_skip_cert_verify :: bool

record TrojanClient =
  tr_server :: string
  tr_port :: u16
  tr_password_hash :: string
  tr_sni :: "string option"
  tr_skip_cert_verify :: bool

definition trojan_new :: "Primitives \<Rightarrow> TrojanConfig \<Rightarrow> TrojanClient" where
  "trojan_new pm config =
     \<lparr>tr_server = tc_server config, tr_port = tc_port config, tr_password_hash = trojan_password_hash pm (tc_password config),
      tr_sni = tc_sni config, tr_skip_cert_verify = tc_skip_cert_verify config\<rparr>"

definition relay_tcp_with_tls ::
    "(RelayStreams \<Rightarrow> (IoErrorKind + u64 \<times> u64) \<times> RelayStreams) \<Rightarrow> TrojanClient \<Rightarrow> SocketAddr \<Rightarrow> RelayStreams \<Rightarrow>
      (ClientError + u64 \<times> u64) \<times> RelayStreams" where
  "relay_tcp_with_tls copy_bidirectional c target io =
     (case write_all (request_header (tr_password_hash c) CMD_CONNECT target) (rl_upstream_sink io) of
        (Inl _, sink) \<Rightarrow>
          (Err (ClientError ''outbound-write'' ''failed writing Trojan TCP request''), io\<lparr>rl_upstream_sink := sink\<rparr>)
      | (Inr _, sink) \<Rightarrow>
          (case copy_bidirectional (io\<lparr>rl_upstream_sink := sink\<rparr>) of
             (Inl _, io1) \<Rightarrow> (Err (ClientError ''relay'' ''Trojan TCP relay failed''), io1)
           | (Inr counts, io1) \<Rightarrow> (Ok counts, io1)))"

definition connect_udp_with_tls :: "TrojanClient \<Rightarrow> SocketAddr \<Rightarrow> ByteSink \<Rightarrow> (ClientError + unit) \<times> ByteSink" where
  "connect_udp_with_tls c target sink =
     (case write_all (request_header (tr_password_hash c) CMD_UDP_ASSOCIATE target) sink of
        (Inl _, sink1) \<Rightarrow> (Err (ClientError ''outbound-write'' ''failed writing Trojan UDP associate request''), sink1)
      | (Inr _, sink1) \<Rightarrow> (Ok (), sink1))"

definition trojan_write_datagram :: "SocketAddr \<Rightarrow> bytes \<Rightarrow> ByteSink \<Rightarrow> (ClientError + unit) \<times> ByteSink" where
  "trojan_write_datagram target payload sink =
     (case udp_packet target payload of
        Inl e \<Rightarrow> (Err e, sink)
      | Inr packet \<Rightarrow>
          (case write_all packet sink of
             (Inl _, sink1) \<Rightarrow> (Err (ClientError ''outbound-write'' ''failed writing Trojan UDP packet''), sink1)
           | (Inr _, sink1) \<Rightarrow> (Ok (), sink1)))"

section \<open>Datagrams arrive in order\<close>

lemma reading_append [simp]: "reading (length x) \<lparr>so_bytes = x @ rest, so_failure = k\<rparr> f = f x \<lparr>so_bytes = rest, so_failure = k\<rparr>"
  by (simp add: reading_def read_exact_append)

lemma reading_prefix: "length x = n \<Longrightarrow> reading n \<lparr>so_bytes = x @ rest, so_failure = k\<rparr> f = f x \<lparr>so_bytes = rest, so_failure = k\<rparr>"
  using reading_append by metis

lemma read_address_written:
  "read_address \<lparr>so_bytes = trojan_write_address target @ rest, so_failure = k\<rparr> = (Ok (), \<lparr>so_bytes = rest, so_failure = k\<rparr>)"
proof (cases "sa_ip target")
  case (V4 ip)
  then show ?thesis
    using reading_prefix [where n = 1 and x = "[1]" and rest = "(v4_octets ip @ u16_to_be (sa_port target)) @ rest" and k = k and 'a = unit]
      reading_prefix [where n = 6 and x = "v4_octets ip @ u16_to_be (sa_port target)" and rest = rest and k = k and 'a = unit]
    by (simp add: read_address_def trojan_write_address_def)
next
  case (V6 ip)
  then show ?thesis
    using reading_prefix [where n = 1 and x = "[4]" and rest = "(v6_octets ip @ u16_to_be (sa_port target)) @ rest" and k = k and 'a = unit]
      reading_prefix [where n = 18 and x = "v6_octets ip @ u16_to_be (sa_port target)" and rest = rest and k = k and 'a = unit]
    by (simp add: read_address_def trojan_write_address_def)
qed

lemma read_udp_packet_written:
  assumes "udp_packet target payload = Ok packet"
  shows "read_udp_packet \<lparr>so_bytes = packet @ rest, so_failure = k\<rparr> = (Ok payload, \<lparr>so_bytes = rest, so_failure = k\<rparr>)"
proof -
  let ?len = "u16_to_be (of_nat (length payload))"
  have n: "length payload < 65536" and packet: "packet = trojan_write_address target @ ?len @ CRLF @ payload"
    using assms by (auto simp: udp_packet_def split: if_splits)
  show ?thesis
    using n read_address_written [of target "?len @ CRLF @ payload @ rest" k]
      reading_prefix [where n = 2 and x = ?len and rest = "CRLF @ payload @ rest" and k = k and 'a = bytes]
      reading_prefix [where n = 2 and x = CRLF and rest = "payload @ rest" and k = k and 'a = bytes]
    by (simp add: read_udp_packet_def packet unat_of_nat_u16 CRLF_def)
qed

fun write_datagrams :: "(SocketAddr \<times> bytes) list \<Rightarrow> ByteSink \<Rightarrow> (ClientError + unit) \<times> ByteSink" where
  "write_datagrams [] sink = (Ok (), sink)"
| "write_datagrams ((target, payload) # ds) sink =
     (case trojan_write_datagram target payload sink of
        (Inl e, sink1) \<Rightarrow> (Err e, sink1)
      | (Inr _, sink1) \<Rightarrow> write_datagrams ds sink1)"

fun read_datagrams :: "nat \<Rightarrow> ByteSource \<Rightarrow> (ClientError + bytes list) \<times> ByteSource" where
  "read_datagrams 0 src = (Ok [], src)"
| "read_datagrams (Suc n) src =
     (case read_udp_packet src of
        (Inl e, src1) \<Rightarrow> (Err e, src1)
      | (Inr x, src1) \<Rightarrow> map_prod (map_sum id (Cons x)) id (read_datagrams n src1))"

text \<open>
  Datagrams keep their boundaries and their order in the stream: what is written for any sequence of datagrams with payloads of up to
  65535 bytes, empty ones included, to whatever addresses, is read back as exactly these payloads.
\<close>

theorem trojan_datagrams_arrive:
  assumes "\<forall>(target, payload)\<in>set ds. length payload < 65536"
  shows "\<exists>packets. write_datagrams ds (open_sink sent) = (Ok (), open_sink (sent @ packets)) \<and>
    (\<forall>rest k. read_datagrams (length ds) \<lparr>so_bytes = packets @ rest, so_failure = k\<rparr> =
      (Ok (map snd ds), \<lparr>so_bytes = rest, so_failure = k\<rparr>))"
  using assms
proof (induction ds arbitrary: sent)
  case (Cons d ds)
  obtain target payload where d: "d = (target, payload)" by (cases d)
  with Cons.prems obtain packet where packet: "udp_packet target payload = Ok packet" by (auto simp: udp_packet_def)
  obtain packets where ih: "write_datagrams ds (open_sink (sent @ packet)) = (Ok (), open_sink ((sent @ packet) @ packets))"
      "\<And>rest k. read_datagrams (length ds) \<lparr>so_bytes = packets @ rest, so_failure = k\<rparr> = (Ok (map snd ds), \<lparr>so_bytes = rest, so_failure = k\<rparr>)"
    using Cons.IH [of "sent @ packet"] Cons.prems by auto
  have "write_datagrams (d # ds) (open_sink sent) = (Ok (), open_sink (sent @ packet @ packets))"
    using packet ih(1) by (simp add: d trojan_write_datagram_def)
  moreover have "read_datagrams (length (d # ds)) \<lparr>so_bytes = (packet @ packets) @ rest, so_failure = k\<rparr> =
      (Ok (map snd (d # ds)), \<lparr>so_bytes = rest, so_failure = k\<rparr>)" for rest k
    using read_udp_packet_written [OF packet] ih(2) by (simp add: d)
  ultimately show ?case by (intro exI [of _ "packet @ packets"]) simp
qed simp

theorem trojan_datagrams_arrive_witness:
  "\<exists>packets. write_datagrams [(\<lparr>sa_ip = V4 0, sa_port = 53\<rparr>, [1, 2]), (\<lparr>sa_ip = V6 1, sa_port = 80\<rparr>, [])] (open_sink [7]) =
      (Ok (), open_sink ([7] @ packets)) \<and>
    (\<forall>rest k. read_datagrams 2 \<lparr>so_bytes = packets @ rest, so_failure = k\<rparr> = (Ok [[1, 2], []], \<lparr>so_bytes = rest, so_failure = k\<rparr>))"
  using trojan_datagrams_arrive [of "[(\<lparr>sa_ip = V4 0, sa_port = 53\<rparr>, [1, 2]), (\<lparr>sa_ip = V6 1, sa_port = 80\<rparr>, [])]" "[7]"]
  by (simp only: list.size set_simps ball_simps prod.case list.map snd_conv One_nat_def add_0 add_Suc_right numeral_2_eq_2 plus_nat.simps) simp

section \<open>The request\<close>

text \<open>The hash of a password is 56 lower-case hexadecimal digits, so a request starts with 56 such bytes and CRLF.\<close>

lemma length_password_hash: "digests_ok pm \<Longrightarrow> length (trojan_password_hash pm password) = 56"
  by (simp add: trojan_password_hash_def digests_ok_def length_concat comp_def sum_list_triv)

end
