(* ===== verification/Reality_Stream.thy ===== *)
theory Reality_Stream
  imports Vision_Frame Byte_Io
begin

text \<open>
  The asynchronous stream over a REALITY session and the driver of its handshake, \<open>prototype/vless/src/reality_stream.rs\<close>.
  The polls of the stream take the world of \<open>Async_Io\<close>; the handshake awaits its reads and writes, so that it takes
  a list of what its reads return and a sink.
\<close>

section \<open>State\<close>

datatype StreamState = Stream | ReadShutdown | WriteShutdown | FullyShutdown

definition readable :: "StreamState \<Rightarrow> bool" where "readable st \<longleftrightarrow> st \<noteq> ReadShutdown \<and> st \<noteq> FullyShutdown"
definition writeable :: "StreamState \<Rightarrow> bool" where "writeable st \<longleftrightarrow> st \<noteq> WriteShutdown \<and> st \<noteq> FullyShutdown"

fun shutdown_read :: "StreamState \<Rightarrow> StreamState" where
  "shutdown_read WriteShutdown = FullyShutdown"
| "shutdown_read FullyShutdown = FullyShutdown"
| "shutdown_read _ = ReadShutdown"

fun shutdown_write :: "StreamState \<Rightarrow> StreamState" where
  "shutdown_write ReadShutdown = FullyShutdown"
| "shutdown_write FullyShutdown = FullyShutdown"
| "shutdown_write _ = WriteShutdown"

record RealityStream =
  rs_session :: RealityClientConnection
  rs_state :: StreamState
  rs_need_flush :: bool

definition RealityStream_new :: "RealityClientConnection \<Rightarrow> RealityStream" where
  "RealityStream_new session = \<lparr>rs_session = session, rs_state = Stream, rs_need_flush = False\<rparr>"

datatype StreamError = StreamSession RealityError | StreamTcp IoErrorKind | StreamReader IoErrorKind | WriteSideShutDown | StreamWriteZero

type_synonym 'a stream_poll = "(StreamError + 'a) Poll \<times> RealityStream \<times> World"

section \<open>Writing\<close>

definition stream_write_tls :: "Crypto \<Rightarrow> RealityStream \<Rightarrow> World \<Rightarrow> nat stream_poll" where
  "stream_write_tls crypto s w =
     (case write_tls_direct crypto (rs_session s) w of
        (Pending, c, w') \<Rightarrow> (Pending, s\<lparr>rs_session := c\<rparr>, w')
      | (Ready (Inl e), c, w') \<Rightarrow> (Ready (Err (StreamSession e)), s\<lparr>rs_session := c\<rparr>, w')
      | (Ready (Inr n), c, w') \<Rightarrow> (Ready (Ok n), s\<lparr>rs_session := c\<rparr>, w'))"

lemma stream_write_tls_progress:
  "stream_write_tls crypto s w = (Ready (Inr n), s', w') \<Longrightarrow> length (wd_writes w') < length (wd_writes w)"
  by (auto simp: stream_write_tls_def dest: write_tls_direct_progress split: prod.splits Poll.splits sum.splits)

function drain_all_writes :: "Crypto \<Rightarrow> RealityStream \<Rightarrow> World \<Rightarrow> unit stream_poll" where
  "drain_all_writes crypto s w =
     (if wants_write (rs_session s) then
        (case stream_write_tls crypto s w of
           (Pending, s', w') \<Rightarrow> (Pending, s', w')
         | (Ready (Inl e), s', w') \<Rightarrow> (Ready (Err e), s', w')
         | (Ready (Inr n), s', w') \<Rightarrow>
             if n = 0 then (Ready (Ok ()), s', w') else drain_all_writes crypto (s'\<lparr>rs_need_flush := True\<rparr>) w')
      else (Ready (Ok ()), s, w))"
  by pat_completeness auto
termination
  by (relation "measure (\<lambda>(_, _, w). length (wd_writes w))") (auto dest: stream_write_tls_progress [OF sym])

declare drain_all_writes.simps [simp del]

text \<open>The inner loop of \<open>poll_write\<close>; it answers whether the transport blocked.\<close>

function write_out :: "Crypto \<Rightarrow> RealityStream \<Rightarrow> World \<Rightarrow> (StreamError + bool) \<times> RealityStream \<times> World" where
  "write_out crypto s w =
     (if wants_write (rs_session s) then
        (case stream_write_tls crypto s w of
           (Pending, s', w') \<Rightarrow> (Ok True, s'\<lparr>rs_need_flush := True\<rparr>, w')
         | (Ready (Inl e), s', w') \<Rightarrow> (Err e, s', w')
         | (Ready (Inr n), s', w') \<Rightarrow>
             if n = 0 then (Ok True, s'\<lparr>rs_need_flush := True\<rparr>, w') else write_out crypto (s'\<lparr>rs_need_flush := True\<rparr>) w')
      else (Ok False, s, w))"
  by pat_completeness auto
termination
  by (relation "measure (\<lambda>(_, _, w). length (wd_writes w))") (auto dest: stream_write_tls_progress [OF sym])

declare write_out.simps [simp del]

function write_rounds :: "Crypto \<Rightarrow> bytes \<Rightarrow> nat \<Rightarrow> RealityStream \<Rightarrow> World \<Rightarrow> nat stream_poll" where
  "write_rounds crypto buf position s w =
     (if position < length buf then
        (case writer_write (drop position buf) (rs_session s) of
           (Inl e, c) \<Rightarrow> (Ready (Err (StreamSession e)), s\<lparr>rs_session := c\<rparr>, w)
         | (Inr written, c) \<Rightarrow>
             (case write_out crypto (s\<lparr>rs_session := c\<rparr>) w of
                (Inl e, s', w') \<Rightarrow> (Ready (Err e), s', w')
              | (Inr would_block, s', w') \<Rightarrow>
                  if would_block then (if position + written = 0 then Pending else Ready (Ok (position + written)), s', w')
                  else write_rounds crypto buf (position + written) s' w'))
      else (Ready (Ok position), s, w))"
  by pat_completeness auto
termination
  by (relation "measure (\<lambda>(_, buf, position, _, _). length buf - position)") (auto simp: writer_write_def)

declare write_rounds.simps [simp del]

definition stream_poll_write :: "Crypto \<Rightarrow> bytes \<Rightarrow> RealityStream \<Rightarrow> World \<Rightarrow> nat stream_poll" where
  "stream_poll_write crypto buf s w =
     (if \<not> writeable (rs_state s) then (Ready (Err WriteSideShutDown), s, w) else write_rounds crypto buf 0 s w)"

text \<open>The loop of \<open>poll_flush\<close>, which notes what is to be flushed, and that of \<open>poll_shutdown\<close>, which does not.\<close>

function write_all_out :: "Crypto \<Rightarrow> bool \<Rightarrow> RealityStream \<Rightarrow> World \<Rightarrow> unit stream_poll" where
  "write_all_out crypto note_flush s w =
     (if wants_write (rs_session s) then
        (case stream_write_tls crypto s w of
           (Pending, s', w') \<Rightarrow> (Pending, s', w')
         | (Ready (Inl e), s', w') \<Rightarrow> (Ready (Err e), s', w')
         | (Ready (Inr n), s', w') \<Rightarrow>
             if n = 0 then (Ready (Err StreamWriteZero), s', w')
             else write_all_out crypto note_flush (if note_flush then s'\<lparr>rs_need_flush := True\<rparr> else s') w')
      else (Ready (Ok ()), s, w))"
  by pat_completeness auto
termination
  by (relation "measure (\<lambda>(_, _, _, w). length (wd_writes w))") (auto dest: stream_write_tls_progress [OF sym])

declare write_all_out.simps [simp del]

definition stream_poll_flush :: "Crypto \<Rightarrow> (IoErrorKind + unit) Poll \<Rightarrow> RealityStream \<Rightarrow> World \<Rightarrow> unit stream_poll" where
  "stream_poll_flush crypto answer s w =
     (case write_all_out crypto True s w of
        (Pending, s', w') \<Rightarrow> (Pending, s', w')
      | (Ready (Inl e), s', w') \<Rightarrow> (Ready (Err e), s', w')
      | (Ready (Inr _), s', w') \<Rightarrow>
          if rs_need_flush s' then
            (case answer of
               Ready (Inr _) \<Rightarrow> (Ready (Ok ()), s'\<lparr>rs_need_flush := False\<rparr>, w')
             | Ready (Inl e) \<Rightarrow> (Ready (Err (StreamTcp e)), s', w')
             | Pending \<Rightarrow> (Pending, s', w'))
          else (Ready (Ok ()), s', w'))"

definition stream_poll_shutdown :: "Crypto \<Rightarrow> (IoErrorKind + unit) Poll \<Rightarrow> RealityStream \<Rightarrow> World \<Rightarrow> unit stream_poll" where
  "stream_poll_shutdown crypto answer s w =
     (case write_all_out crypto False s w of
        (Ready (Inr _), s1, w1) \<Rightarrow>
          (let s2 = (if writeable (rs_state s1) then
                 s1\<lparr>rs_session := send_close_notify crypto (rs_session s1), rs_state := shutdown_write (rs_state s1)\<rparr>
               else s1)
           in case write_all_out crypto False s2 w1 of
                (Ready (Inr _), s3, w2) \<Rightarrow>
                  (case answer of
                     Ready (Inl e) \<Rightarrow> (Ready (if e = NotConnected then Ok () else Err (StreamTcp e)), s3, w2)
                   | Ready (Inr _) \<Rightarrow> (Ready (Ok ()), s3, w2)
                   | Pending \<Rightarrow> (Pending, s3, w2))
              | out \<Rightarrow> out)
      | out \<Rightarrow> out)"

section \<open>Reading\<close>

definition poll_more_ciphertext :: "Crypto \<Rightarrow> RealityStream \<Rightarrow> World \<Rightarrow> bytes stream_poll" where
  "poll_more_ciphertext crypto s w =
     (case read_tls_direct (rs_session s) w of
        (Pending, c, w') \<Rightarrow> (Pending, s\<lparr>rs_session := c\<rparr>, w')
      | (Ready (Inl e), c, w') \<Rightarrow> (Ready (Err (StreamSession e)), s\<lparr>rs_session := c\<rparr>, w')
      | (Ready (Inr n), c, w') \<Rightarrow>
          if n = 0 then (Ready (Ok []), s\<lparr>rs_session := c, rs_state := shutdown_read (rs_state s)\<rparr>, w')
          else (Pending, s\<lparr>rs_session := snd (process_new_packets crypto c)\<rparr>, w'))"

text \<open>How the loop that takes ciphertext ended.\<close>

datatype ReadLoopEnd = LoopEof | LoopPending | LoopDone | LoopFailed StreamError

function read_loop :: "Crypto \<Rightarrow> RealityStream \<Rightarrow> World \<Rightarrow> ReadLoopEnd \<times> RealityStream \<times> World" where
  "read_loop crypto s w =
     (if readable (rs_state s) \<and> wants_read (rs_session s) then
        (case read_tls_direct (rs_session s) w of
           (Pending, c, w') \<Rightarrow> (LoopPending, s\<lparr>rs_session := c\<rparr>, w')
         | (Ready (Inl e), c, w') \<Rightarrow> (LoopFailed (StreamSession e), s\<lparr>rs_session := c\<rparr>, w')
         | (Ready (Inr n), c, w') \<Rightarrow>
             if n = 0 then (LoopEof, s\<lparr>rs_session := c\<rparr>, w')
             else (case process_new_packets crypto c of
                     (Inl e, c1) \<Rightarrow>
                       (case drain_all_writes crypto (s\<lparr>rs_session := c1\<rparr>) w' of
                          (_, s2, w2) \<Rightarrow> (LoopFailed (StreamSession e), s2, w2))
                   | (Inr _, c1) \<Rightarrow> read_loop crypto (s\<lparr>rs_session := c1\<rparr>) w'))
      else (LoopDone, s, w))"
  by pat_completeness auto
termination
  by (relation "measure (\<lambda>(_, _, w). reads_size w)") (auto dest: read_tls_direct_progress [OF sym])

declare read_loop.simps [simp del]

definition stream_poll_read :: "Crypto \<Rightarrow> nat \<Rightarrow> RealityStream \<Rightarrow> World \<Rightarrow> bytes stream_poll" where
  "stream_poll_read crypto cap s w =
     (if \<not> readable (rs_state s) then (Ready (Ok []), s, w)
      else (case read_loop crypto s w of
              (LoopFailed e, s1, w1) \<Rightarrow> (Ready (Err e), s1, w1)
            | (ended, s1, w1) \<Rightarrow>
                (let c = conn_reader (rs_session s1);
                     s2 = s1\<lparr>rs_session := c\<rparr>
                 in case reader_fill_buf c of
                      Inr available \<Rightarrow>
                        if available \<noteq> [] then
                          (let len = min cap (length available) in
                           (Ready (Ok (take len available)), s2\<lparr>rs_session := reader_consume len c\<rparr>, w1))
                        else (Ready (Ok []), s2\<lparr>rs_state := shutdown_read (rs_state s2)\<rparr>, w1)
                    | Inl e \<Rightarrow>
                        if e = WouldBlock then
                          (case ended of
                             LoopEof \<Rightarrow> (Ready (Ok []), s2\<lparr>rs_state := shutdown_read (rs_state s2)\<rparr>, w1)
                           | LoopPending \<Rightarrow> (Pending, s2, w1)
                           | _ \<Rightarrow> poll_more_ciphertext crypto s2 w1)
                        else if e = ConnectionAborted then
                          (Ready (Err (StreamReader e)), s2\<lparr>rs_state := shutdown_read (rs_state s2)\<rparr>, w1)
                        else (Ready (Err (StreamReader e)), s2, w1))))"

section \<open>The handshake\<close>

definition HANDSHAKE_BUFFER_SIZE :: nat where "HANDSHAKE_BUFFER_SIZE = 16 * 1024"

datatype HandshakeError = HandshakeSession RealityError | HandshakeIo IoErrorKind | HandshakeTooLong | HandshakeEof

text \<open>The socket during the handshake: what was written, how the flushes will end and what the reads return.\<close>

record HandshakeIo =
  hi_sink :: ByteSink
  hi_flushes :: "IoErrorKind option list"
  hi_reads :: "(IoErrorKind + bytes) list"

type_synonym 'a handshake_result = "(HandshakeError + 'a) \<times> RealityClientConnection \<times> HandshakeIo"

definition flush_io :: "HandshakeIo \<Rightarrow> (HandshakeError + unit) \<times> HandshakeIo" where
  "flush_io io =
     (case hi_flushes io of
        Some e # fs \<Rightarrow> (Err (HandshakeIo e), io\<lparr>hi_flushes := fs\<rparr>)
      | _ \<Rightarrow> (Ok (), io\<lparr>hi_flushes := tl (hi_flushes io)\<rparr>))"

text \<open>\<open>Write\<close> for a vector takes everything.\<close>

definition vec_write :: "bytes \<Rightarrow> bytes \<Rightarrow> (RealityError + nat) \<times> bytes" where
  "vec_write buf v = (Ok (length buf), v @ buf)"

partial_function (option) handshake_writes :: "Crypto \<Rightarrow> RealityClientConnection \<Rightarrow> HandshakeIo \<Rightarrow> unit handshake_result option" where
  "handshake_writes crypto c io =
     (if wants_write c then
        (case write_tls crypto vec_write [] c of
           ((Inl e, c1), _) \<Rightarrow> Some (Err (HandshakeSession e), c1, io)
         | ((Inr _, c1), write_buffer) \<Rightarrow>
             if write_buffer = [] then handshake_writes crypto c1 io
             else (case write_all write_buffer (hi_sink io) of
                     (Inl e, sink) \<Rightarrow> Some (Err (HandshakeIo e), c1, io\<lparr>hi_sink := sink\<rparr>)
                   | (Inr _, sink) \<Rightarrow> handshake_writes crypto c1 (io\<lparr>hi_sink := sink\<rparr>)))
      else Some (Ok (), c, io))"

text \<open>The read of a round; it answers whether the stream has ended.\<close>

definition handshake_read :: "Crypto \<Rightarrow> bool \<Rightarrow> RealityClientConnection \<Rightarrow> HandshakeIo \<Rightarrow> bool handshake_result" where
  "handshake_read crypto eof c io =
     (if \<not> eof \<and> is_handshaking c \<and> wants_read c then
        (case read_some HANDSHAKE_BUFFER_SIZE (hi_reads io) of
           (Inl e, rs) \<Rightarrow> (Err (HandshakeIo e), c, io\<lparr>hi_reads := rs\<rparr>)
         | (Inr bs, rs) \<Rightarrow>
             if bs = [] then (Ok True, c, io\<lparr>hi_reads := rs\<rparr>)
             else (case feed_reality_client_connection bs c of
                     (Inl e, c1) \<Rightarrow> (Err (HandshakeSession e), c1, io\<lparr>hi_reads := rs\<rparr>)
                   | (Inr _, c1) \<Rightarrow>
                       (case process_new_packets crypto c1 of
                          (Inl e, c2) \<Rightarrow> (Err (HandshakeSession e), c2, io\<lparr>hi_reads := rs\<rparr>)
                        | (Inr _, c2) \<Rightarrow> (Ok eof, c2, io\<lparr>hi_reads := rs\<rparr>))))
      else (Ok eof, c, io))"

function handshake_loop :: "Crypto \<Rightarrow> nat \<Rightarrow> bool \<Rightarrow> RealityClientConnection \<Rightarrow> HandshakeIo \<Rightarrow> unit handshake_result option" where
  "handshake_loop crypto iteration eof c io =
     (if 100 < iteration + 1 then Some (Err HandshakeTooLong, c, io)
      else (case handshake_writes crypto c io of
              None \<Rightarrow> None
            | Some (Inl e, c1, io1) \<Rightarrow> Some (Err e, c1, io1)
            | Some (Inr _, c1, io1) \<Rightarrow>
                (case flush_io io1 of
                   (Inl e, io2) \<Rightarrow> Some (Err e, c1, io2)
                 | (Inr _, io2) \<Rightarrow>
                     (case handshake_read crypto eof c1 io2 of
                        (Inl e, c2, io3) \<Rightarrow> Some (Err e, c2, io3)
                      | (Inr eof1, c2, io3) \<Rightarrow>
                          if is_handshaking c \<and> \<not> is_handshaking c2 \<and> wants_write c2 then handshake_loop crypto (iteration + 1) eof1 c2 io3
                          else if \<not> is_handshaking c2 then
                            (case flush_io io3 of (Inl e, io4) \<Rightarrow> Some (Err e, c2, io4) | (Inr _, io4) \<Rightarrow> Some (Ok (), c2, io4))
                          else if eof1 then Some (Err HandshakeEof, c2, io3)
                          else handshake_loop crypto (iteration + 1) eof1 c2 io3))))"
  by pat_completeness auto
termination
  by (relation "measure (\<lambda>(_, iteration, _, _, _). 100 - iteration)") auto

declare handshake_loop.simps [simp del]

definition perform_reality_handshake :: "Crypto \<Rightarrow> RealityClientConnection \<Rightarrow> HandshakeIo \<Rightarrow> unit handshake_result option" where
  "perform_reality_handshake crypto session io = handshake_loop crypto 0 False session io"

end
