(* ===== verification/Reality_Driver.thy ===== *)
theory Reality_Driver
  imports Reality_Stream
begin

text \<open>
  What the REALITY stream promises: the driver of the handshake returns and leaves an authenticated server, and what a
  caller wrote and flushed is on the wire.
\<close>

section \<open>The plaintext buffer of the writer\<close>

lemma read_tls_plaintext_write: "cn_plaintext_write (snd (read_tls answer c)) = cn_plaintext_write c"
  by (auto simp: read_tls_def Let_def split: sum.splits option.splits if_splits)

lemma feed_pieces_plaintext_write: "cn_plaintext_write (snd (feed_pieces ps c)) = cn_plaintext_write c"
proof (induction ps arbitrary: c)
  case (Cons p ps)
  obtain q d where q: "read_tls (Ok p) c = (q, d)" by (cases "read_tls (Ok p) c")
  then have "cn_plaintext_write d = cn_plaintext_write c" using read_tls_plaintext_write [of "Ok p" c] by simp
  with Cons q show ?case by (cases q) simp_all
qed simp

lemma handle_handshake_record_plaintext_write:
  "cn_plaintext_write (snd (handle_handshake_record crypto k iv x l p c)) = cn_plaintext_write c"
  by (auto simp: handle_handshake_record_def install_keys_def split: sum.splits prod.splits)

lemma process_encrypted_handshake_plaintext_write:
  "cn_plaintext_write (snd (process_encrypted_handshake crypto p c)) = cn_plaintext_write c"
proof (induction crypto p c rule: process_encrypted_handshake.induct)
  case (1 crypto p c)
  show ?case
    by (subst process_encrypted_handshake.simps)
      (auto simp: Let_def take_record_def handle_handshake_record_plaintext_write dest!: "1.IH"
        split: sum.splits prod.splits option.splits if_splits)
qed

lemma handshake_round_plaintext_write: "cn_plaintext_write (snd (handshake_round crypto c)) = cn_plaintext_write c"
  by (auto simp: handshake_round_def process_server_hello_def take_record_def Let_def process_encrypted_handshake_plaintext_write
      split: HandshakeState.splits option.splits sum.splits if_splits)

lemma process_inner_plaintext_write: "cn_plaintext_write (snd (process_new_packets_inner crypto c)) = cn_plaintext_write c"
proof (induction crypto c rule: process_new_packets_inner.induct)
  case (1 crypto c)
  show ?case
  proof (cases "cn_handshake c = HandshakeComplete")
    case True
    have "cn_plaintext_write (snd (process_application_data crypto c)) = cn_plaintext_write c"
      using True app_data_loop_keeps_output [of crypto _ _ c]
      by (cases "app_data_loop crypto (the (cn_app_read_key c)) (the (cn_app_read_iv c)) c")
        (force simp: process_application_data_def keeps_output_def split: option.splits)
    with True show ?thesis by (subst process_new_packets_inner.simps) (auto split: prod.splits sum.splits)
  next
    case False
    obtain q d where q: "handshake_round crypto c = (q, d)" by (cases "handshake_round crypto c")
    then have "cn_plaintext_write d = cn_plaintext_write c" using handshake_round_plaintext_write [of crypto c] by simp
    with False q "1.IH" show ?thesis
      by (subst process_new_packets_inner.simps) (auto split: sum.splits bool.splits)
  qed
qed

lemma process_new_packets_plaintext_write: "cn_plaintext_write (snd (process_new_packets crypto c)) = cn_plaintext_write c"
  using process_inner_plaintext_write [of crypto c]
  by (auto simp: process_new_packets_def split: option.splits prod.splits sum.splits)

section \<open>The handshake returns\<close>

lemma handshake_writes_empty:
  assumes "cn_plaintext_write c = []"
  shows "handshake_writes crypto c io =
    Some (if cn_ciphertext_write c = [] then (Ok (), c, io)
      else (case write_all (cn_ciphertext_write c) (hi_sink io) of
              (Inl e, sink) \<Rightarrow> (Err (HandshakeIo e), c\<lparr>cn_ciphertext_write := []\<rparr>, io\<lparr>hi_sink := sink\<rparr>)
            | (Inr _, sink) \<Rightarrow> (Ok (), c\<lparr>cn_ciphertext_write := []\<rparr>, io\<lparr>hi_sink := sink\<rparr>)))"
proof -
  have "write_tls crypto vec_write [] c = ((Ok (length (cn_ciphertext_write c)), c\<lparr>cn_ciphertext_write := []\<rparr>), cn_ciphertext_write c)"
    using assms by (simp add: write_tls_def flush_ciphertext_def vec_write_def)
  moreover have "handshake_writes crypto (c\<lparr>cn_ciphertext_write := []\<rparr>) io' = Some (Ok (), c\<lparr>cn_ciphertext_write := []\<rparr>, io')" for io'
    using assms by (subst handshake_writes.simps) (simp add: wants_write_def)
  ultimately show ?thesis
    using assms by (subst handshake_writes.simps) (auto simp: wants_write_def split: prod.splits sum.splits)
qed

definition driver_ok :: "Crypto \<Rightarrow> bytes \<Rightarrow> bytes \<Rightarrow> bytes \<Rightarrow> RealityClientConnection \<Rightarrow> bool" where
  "driver_ok crypto hello private_key auth_key c \<longleftrightarrow> conn_ok crypto hello private_key auth_key c \<and> cn_plaintext_write c = []"

lemma handshake_writes_ok:
  assumes "driver_ok crypto hello private_key auth_key c"
  obtains r c1 io1 where "handshake_writes crypto c io = Some (r, c1, io1)" "driver_ok crypto hello private_key auth_key c1"
  using assms handshake_writes_empty [of c crypto io]
  by (cases "write_all (cn_ciphertext_write c) (hi_sink io)")
    (auto simp: driver_ok_def split: if_splits sum.splits)

lemma feed_pieces_conn_ok:
  "conn_ok crypto hello private_key auth_key c \<Longrightarrow> conn_ok crypto hello private_key auth_key (snd (feed_pieces ps c))"
proof (induction ps arbitrary: c)
  case (Cons p ps)
  obtain q d where q: "read_tls (Ok p) c = (q, d)" by (cases "read_tls (Ok p) c")
  with Cons conn_step_ok [OF step_read [OF q]] show ?case by (cases q) simp_all
qed simp

lemma handshake_read_ok:
  assumes "driver_ok crypto hello private_key auth_key c" "handshake_read crypto eof c io = (r, c', io')"
  shows "driver_ok crypto hello private_key auth_key c'"
proof (cases "\<not> eof \<and> is_handshaking c \<and> wants_read c")
  case True
  obtain q rs where q: "read_some HANDSHAKE_BUFFER_SIZE (hi_reads io) = (q, rs)" by fastforce
  obtain f d where f: "feed_reality_client_connection (case q of Inr bs \<Rightarrow> bs) c = (f, d)" by fastforce
  then have "d = snd (feed_pieces (chunks TLS13_MAX_RECORD_SIZE (case q of Inr bs \<Rightarrow> bs)) c)"
    by (simp add: feed_reality_client_connection_def)
  then have "driver_ok crypto hello private_key auth_key d"
    using assms(1) by (simp add: driver_ok_def feed_pieces_conn_ok feed_pieces_plaintext_write)
  moreover obtain g e where g: "process_new_packets crypto d = (g, e)" by fastforce
  moreover from calculation have "driver_ok crypto hello private_key auth_key e"
    using conn_step_ok [OF step_process [OF g]] process_new_packets_plaintext_write [of crypto d] by (simp add: driver_ok_def)
  ultimately show ?thesis
    using assms True q f g by (auto simp: handshake_read_def split: sum.splits if_splits)
qed (use assms in \<open>auto simp: handshake_read_def\<close>)

lemma handshake_loop_returns:
  assumes "driver_ok crypto hello private_key auth_key c"
  shows "\<exists>r c' io'. handshake_loop crypto iteration eof c io = Some (r, c', io') \<and> driver_ok crypto hello private_key auth_key c' \<and>
    (r = Ok () \<longrightarrow> \<not> is_handshaking c')"
  using assms
proof (induction "100 - iteration" arbitrary: iteration eof c io rule: less_induct)
  case less
  obtain r c1 io1 where r: "handshake_writes crypto c io = Some (r, c1, io1)" "driver_ok crypto hello private_key auth_key c1"
    using handshake_writes_ok [OF less.prems] .
  obtain f io2 where f: "flush_io io1 = (f, io2)" by fastforce
  obtain q c2 io3 where q: "handshake_read crypto eof c1 io2 = (q, c2, io3)" by (cases "handshake_read crypto eof c1 io2") auto
  have c2: "driver_ok crypto hello private_key auth_key c2" by (rule handshake_read_ok [OF r(2) q])
  obtain h io4 where h: "flush_io io3 = (h, io4)" by fastforce
  show ?case
  proof (cases "100 < iteration + 1 \<or> (\<exists>e. r = Inl e) \<or> (\<exists>e. f = Inl e) \<or> (\<exists>e. q = Inl e)")
    case True
    then show ?thesis
      using r f q c2 less.prems by (subst handshake_loop.simps) (cases r; cases f; cases q; auto)
  next
    case False
    then obtain u v eof1 where ok: "r = Inr u" "f = Inr v" "q = Inr eof1" by (metis sum.exhaust)
    show ?thesis
    proof (cases "\<not> is_handshaking c2 \<and> \<not> (is_handshaking c \<and> wants_write c2) \<or> is_handshaking c2 \<and> eof1")
      case True
      then show ?thesis
        using False r(1) f q h c2 ok by (subst handshake_loop.simps) (cases h; auto)
    next
      case again: False
      have "100 - (iteration + 1) < 100 - iteration" using False by linarith
      from less.hyps [OF this c2]
      have "\<exists>r c' io'. handshake_loop crypto (iteration + 1) eof1 c2 io3 = Some (r, c', io') \<and>
          driver_ok crypto hello private_key auth_key c' \<and> (r = Ok () \<longrightarrow> \<not> is_handshaking c')" .
      then show ?thesis
        using False again r(1) f q ok by (subst handshake_loop.simps) auto
    qed
  qed
qed



section \<open>What was flushed is on the wire\<close>

lemma stream_write_tls_conveys:
  assumes "aead_ok crypto" "length iv = 12" "conveys crypto k iv seq base (rs_session s) w plain"
    and "stream_write_tls crypto s w = (r, s', w')" "\<And>e. r \<noteq> Ready (Inl e)"
  shows "conveys crypto k iv seq base (rs_session s') w' plain"
proof -
  obtain q c w1 where q: "write_tls_direct crypto (rs_session s) w = (q, c, w1)" by (cases "write_tls_direct crypto (rs_session s) w")
  have "q \<noteq> Ready (Inl e)" for e using assms(4) assms(5) [of "StreamSession e"] q by (auto simp: stream_write_tls_def)
  from write_tls_direct_conveys [OF assms(1-3) q this] assms(4) q show ?thesis
    by (auto simp: stream_write_tls_def split: Poll.splits sum.splits)
qed

lemma write_out_conveys:
  assumes "aead_ok crypto" "length iv = 12"
  shows "conveys crypto k iv seq base (rs_session s) w plain \<Longrightarrow> write_out crypto s w = (Inr b, s', w') \<Longrightarrow>
    conveys crypto k iv seq base (rs_session s') w' plain"
proof (induction "length (wd_writes w)" arbitrary: s w rule: less_induct)
  case less
  obtain r s1 w1 where r: "stream_write_tls crypto s w = (r, s1, w1)" by (cases "stream_write_tls crypto s w")
  show ?case
  proof (cases "wants_write (rs_session s) \<and> (\<exists>n. r = Ready (Inr n) \<and> n \<noteq> 0)")
    case True
    then obtain n where n: "r = Ready (Inr n)" "n \<noteq> 0" "wants_write (rs_session s)" by blast
    have c: "conveys crypto k iv seq base (rs_session (s1\<lparr>rs_need_flush := True\<rparr>)) w1 plain"
      using stream_write_tls_conveys [OF assms less.prems(1) r] n(1) by simp
    have "length (wd_writes w1) < length (wd_writes w)" using stream_write_tls_progress r n(1) by blast
    from less.hyps [OF this c] less.prems(2) n r show ?thesis by (subst (asm) (2) write_out.simps) simp
  next
    case False
    then show ?thesis
      using less.prems r stream_write_tls_conveys [OF assms less.prems(1) r]
      by (subst (asm) write_out.simps) (auto split: if_splits Poll.splits sum.splits)
  qed
qed

lemma stream_poll_write_conveys:
  assumes "aead_ok crypto" "length iv = 12" "conveys crypto k iv seq base (rs_session s) w plain"
    and "stream_poll_write crypto buf s w = (r, s', w')" "\<And>e. r \<noteq> Ready (Inl e)"
  shows "r = Ready (Ok (length buf)) \<and> conveys crypto k iv seq base (rs_session s') w' (plain @ buf)"
proof (cases "buf = []")
  case True
  then show ?thesis
    using assms(3-5) by (auto simp: stream_poll_write_def write_rounds.simps [of _ "[]"] split: if_splits)
next
  case False
  let ?s = "s\<lparr>rs_session := (rs_session s)\<lparr>cn_plaintext_write := cn_plaintext_write (rs_session s) @ buf\<rparr>\<rparr>"
  obtain q s1 w1 where q: "write_out crypto ?s w = (q, s1, w1)" by (cases "write_out crypto ?s w")
  have c: "conveys crypto k iv seq base (rs_session ?s) w (plain @ buf)" using conveys_put [OF assms(3)] by simp
  have "stream_poll_write crypto buf s w =
      (if \<not> writeable (rs_state s) then (Ready (Err WriteSideShutDown), s, w)
       else case q of Inl e \<Rightarrow> (Ready (Err e), s1, w1) | Inr _ \<Rightarrow> (Ready (Ok (length buf)), s1, w1))"
    using False q by (simp add: stream_poll_write_def write_rounds.simps [of _ _ 0] write_rounds.simps [of _ _ "length buf"] writer_write_def
        split: sum.splits)
  with assms(4,5) q write_out_conveys [OF assms(1,2) c] show ?thesis by (auto split: if_splits sum.splits)
qed

lemma write_all_out_conveys:
  assumes "aead_ok crypto" "length iv = 12"
  shows "conveys crypto k iv seq base (rs_session s) w plain \<Longrightarrow> write_all_out crypto b s w = (r, s', w') \<Longrightarrow> (\<And>e. r \<noteq> Ready (Inl e)) \<Longrightarrow>
    conveys crypto k iv seq base (rs_session s') w' plain \<and> (r = Ready (Ok ()) \<longrightarrow> \<not> wants_write (rs_session s'))"
proof (induction "length (wd_writes w)" arbitrary: s w rule: less_induct)
  case less
  obtain q s1 w1 where q: "stream_write_tls crypto s w = (q, s1, w1)" by (cases "stream_write_tls crypto s w")
  show ?case
  proof (cases "wants_write (rs_session s) \<and> (\<exists>n. q = Ready (Inr n) \<and> n \<noteq> 0)")
    case True
    then obtain n where n: "q = Ready (Inr n)" "n \<noteq> 0" "wants_write (rs_session s)" by blast
    let ?s = "if b then s1\<lparr>rs_need_flush := True\<rparr> else s1"
    have c: "conveys crypto k iv seq base (rs_session ?s) w1 plain"
      using stream_write_tls_conveys [OF assms less.prems(1) q] n(1) by simp
    have "length (wd_writes w1) < length (wd_writes w)" using stream_write_tls_progress q n(1) by blast
    moreover have "write_all_out crypto b ?s w1 = (r, s', w')"
      using less.prems(2) n q by (subst (asm) write_all_out.simps) simp
    ultimately show ?thesis using less.hyps [OF _ c] less.prems(3) by blast
  next
    case False
    then show ?thesis
      using less.prems q stream_write_tls_conveys [OF assms less.prems(1) q]
      by (subst (asm) write_all_out.simps) (auto split: if_splits Poll.splits sum.splits)
  qed
qed

lemma stream_poll_flush_conveys:
  assumes "aead_ok crypto" "length iv = 12" "conveys crypto k iv seq base (rs_session s) w plain"
    and "stream_poll_flush crypto answer s w = (r, s', w')" "\<And>e. r \<noteq> Ready (Inl e)"
  shows "conveys crypto k iv seq base (rs_session s') w' plain \<and> (r = Ready (Ok ()) \<longrightarrow> \<not> wants_write (rs_session s'))"
proof -
  obtain q s1 w1 where q: "write_all_out crypto True s w = (q, s1, w1)" by (cases "write_all_out crypto True s w")
  have "q \<noteq> Ready (Inl e)" for e using assms(4) assms(5) [of e] q by (auto simp: stream_poll_flush_def)
  from write_all_out_conveys [OF assms(1-3) q this] assms(4,5) q show ?thesis
    by (auto simp: stream_poll_flush_def split: Poll.splits sum.splits if_splits)
qed

section \<open>Reads leave the writer alone\<close>

definition reads_only :: "RealityStream \<Rightarrow> World \<Rightarrow> RealityStream \<Rightarrow> World \<Rightarrow> bool" where
  "reads_only s w s' w' \<longleftrightarrow> keeps_output (rs_session s) (rs_session s') \<and> wd_sent w' = wd_sent w"

lemma reads_only_refl [simp]: "reads_only s w s w"
  by (simp add: reads_only_def)

lemma reads_only_trans: "reads_only s w s1 w1 \<Longrightarrow> reads_only s1 w1 s2 w2 \<Longrightarrow> reads_only s w s2 w2"
  by (auto simp: reads_only_def intro: keeps_output_trans)

lemma read_tls_direct_only:
  "read_tls_direct c w = (r, c', w') \<Longrightarrow> keeps_output c c' \<and> wd_sent w' = wd_sent w"
  by (auto simp: read_tls_direct_def SyncReadAdapter_read_def dest!: tcp_poll_read_frame read_tls_keeps_output
      split: prod.splits sum.splits Poll.splits if_splits)

lemma read_loop_only:
  "read_loop crypto s w = (r, s', w') \<Longrightarrow> (\<And>e. r \<noteq> LoopFailed e) \<Longrightarrow> reads_only s w s' w'"
proof (induction "reads_size w" arbitrary: s w rule: less_induct)
  case less
  obtain q c w1 where q: "read_tls_direct (rs_session s) w = (q, c, w1)" by (cases "read_tls_direct (rs_session s) w")
  have step: "reads_only s w (s\<lparr>rs_session := c\<rparr>) w1" using read_tls_direct_only [OF q] by (simp add: reads_only_def)
  obtain f d where f: "process_new_packets crypto c = (f, d)" by (cases "process_new_packets crypto c")
  have fed: "reads_only s w (s\<lparr>rs_session := d\<rparr>) w1"
    using step process_new_packets_keeps_output [OF f] by (auto simp: reads_only_def intro: keeps_output_trans)
  show ?case
  proof (cases "readable (rs_state s) \<and> wants_read (rs_session s) \<and> (\<exists>n x. q = Ready (Inr n) \<and> n \<noteq> 0 \<and> f = Inr x)")
    case True
    then obtain n x where n: "q = Ready (Inr n)" "n \<noteq> 0" "f = Inr x" "readable (rs_state s)" "wants_read (rs_session s)" by blast
    have "reads_size w1 < reads_size w" using read_tls_direct_progress q n(1,2) by blast
    moreover have "read_loop crypto (s\<lparr>rs_session := d\<rparr>) w1 = (r, s', w')"
      using less.prems(1) n q f by (subst (asm) read_loop.simps) simp
    ultimately show ?thesis using less.hyps less.prems(2) fed reads_only_trans by blast
  next
    case False
    then show ?thesis
      using less.prems q f step by (subst (asm) read_loop.simps) (auto split: if_splits Poll.splits sum.splits prod.splits)
  qed
qed

lemma poll_more_only: "poll_more_ciphertext crypto s w = (r, s', w') \<Longrightarrow> reads_only s w s' w'"
proof -
  assume p: "poll_more_ciphertext crypto s w = (r, s', w')"
  obtain q c w1 where q: "read_tls_direct (rs_session s) w = (q, c, w1)" by (cases "read_tls_direct (rs_session s) w")
  obtain f d where f: "process_new_packets crypto c = (f, d)" by (cases "process_new_packets crypto c")
  from p q f read_tls_direct_only [OF q] process_new_packets_keeps_output [OF f] show ?thesis
    by (auto simp: poll_more_ciphertext_def reads_only_def intro: keeps_output_trans split: Poll.splits sum.splits if_splits)
qed

lemma stream_poll_read_only:
  assumes "stream_poll_read crypto cap s w = (r, s', w')" "\<And>e. r \<noteq> Ready (Inl e)"
  shows "reads_only s w s' w'"
proof (cases "readable (rs_state s)")
  case True
  obtain q s1 w1 where q: "read_loop crypto s w = (q, s1, w1)" by (cases "read_loop crypto s w")
  let ?c = "conn_reader (rs_session s1)"
  have "q \<noteq> LoopFailed e" for e using assms(1) assms(2) [of e] True q by (auto simp: stream_poll_read_def)
  from read_loop_only [OF q this] have rd: "reads_only s w (s1\<lparr>rs_session := ?c\<rparr>) w1"
    by (auto simp: reads_only_def intro: keeps_output_trans)
  then have taken: "reads_only s w (s1\<lparr>rs_session := reader_consume n ?c\<rparr>) w1" "reads_only s w (s1\<lparr>rs_session := ?c, rs_state := st\<rparr>) w1" for n st
    by (auto simp: reads_only_def intro: keeps_output_trans)
  show ?thesis
    using assms True q rd taken reads_only_trans [OF rd poll_more_only]
    by (auto simp: stream_poll_read_def Let_def split: ReadLoopEnd.splits sum.splits if_splits)
qed (use assms in \<open>simp add: stream_poll_read_def\<close>)

section \<open>Sequences of polls\<close>

datatype StreamOp = StreamWrite bytes | StreamFlush "(IoErrorKind + unit) Poll" | StreamRead nat

text \<open>A caller polls in any order while no poll fails; the result carries the bytes that writes accepted.\<close>

fun stream_run :: "Crypto \<Rightarrow> StreamOp list \<Rightarrow> bytes \<Rightarrow> RealityStream \<Rightarrow> World \<Rightarrow> (bytes \<times> RealityStream \<times> World) option" where
  "stream_run crypto [] accepted s w = Some (accepted, s, w)"
| "stream_run crypto (StreamWrite buf # ops) accepted s w =
     (case stream_poll_write crypto buf s w of
        (Pending, s', w') \<Rightarrow> stream_run crypto ops accepted s' w'
      | (Ready (Inr n), s', w') \<Rightarrow> stream_run crypto ops (accepted @ take n buf) s' w'
      | (Ready (Inl _), _, _) \<Rightarrow> None)"
| "stream_run crypto (StreamFlush answer # ops) accepted s w =
     (case stream_poll_flush crypto answer s w of (Ready (Inl _), _, _) \<Rightarrow> None | (_, s', w') \<Rightarrow> stream_run crypto ops accepted s' w')"
| "stream_run crypto (StreamRead cap # ops) accepted s w =
     (case stream_poll_read crypto cap s w of (Ready (Inl _), _, _) \<Rightarrow> None | (_, s', w') \<Rightarrow> stream_run crypto ops accepted s' w')"

lemma reads_only_conveys:
  "reads_only s w s' w' \<Longrightarrow> conveys crypto k iv seq base (rs_session s) w plain \<Longrightarrow> conveys crypto k iv seq base (rs_session s') w' plain"
  by (auto simp: reads_only_def keeps_output_def conveys_def)

lemma stream_run_conveys:
  assumes "aead_ok crypto" "length iv = 12"
  shows "conveys crypto k iv seq base (rs_session s) w accepted \<Longrightarrow> stream_run crypto ops accepted s w = Some (accepted', s', w') \<Longrightarrow>
    conveys crypto k iv seq base (rs_session s') w' accepted'"
proof (induction ops arbitrary: accepted s w)
  case (Cons op ops)
  show ?case
  proof (cases op)
    case (StreamWrite buf)
    obtain r s1 w1 where r: "stream_poll_write crypto buf s w = (r, s1, w1)" by (cases "stream_poll_write crypto buf s w")
    have ok: "r \<noteq> Ready (Inl e)" for e using Cons.prems(2) StreamWrite r by auto
    from stream_poll_write_conveys [OF assms Cons.prems(1) r ok] Cons StreamWrite r show ?thesis by auto
  next
    case (StreamFlush answer)
    obtain r s1 w1 where r: "stream_poll_flush crypto answer s w = (r, s1, w1)" by (cases "stream_poll_flush crypto answer s w")
    have ok: "r \<noteq> Ready (Inl e)" for e using Cons.prems(2) StreamFlush r by auto
    from stream_poll_flush_conveys [OF assms Cons.prems(1) r ok] Cons StreamFlush r show ?thesis
      by (auto split: Poll.splits sum.splits)
  next
    case (StreamRead cap)
    obtain r s1 w1 where r: "stream_poll_read crypto cap s w = (r, s1, w1)" by (cases "stream_poll_read crypto cap s w")
    have ok: "r \<noteq> Ready (Inl e)" for e using Cons.prems(2) StreamRead r by auto
    from reads_only_conveys [OF stream_poll_read_only [OF r ok] Cons.prems(1)] Cons StreamRead r show ?thesis
      by (auto split: Poll.splits sum.splits)
  qed
qed simp

text \<open>
  C16. What was written to a REALITY stream and flushed is on the wire: after any sequence of writes, flushes and reads that do not
  fail, over a transport that takes and delivers any amounts at any time, a flush that is ready leaves on the
  wire, after what the session had sent before, records that open in order to exactly the accepted bytes.
\<close>

theorem flushed_stream_delivers:
  assumes "aead_ok crypto" "length iv = 12" "cn_handshake c = HandshakeComplete" "cn_app_write_key c = Some k" "cn_app_write_iv c = Some iv"
    and "cn_plaintext_write c = []" "stream_run crypto ops [] (RealityStream_new c) w = Some (accepted, s, w')"
    and "stream_poll_flush crypto answer s w' = (Ready (Ok ()), s'', w'')"
  shows "\<exists>fs recs. wd_sent w'' = wd_sent w @ cn_ciphertext_write c @ recs \<and>
    decrypt_records crypto k iv recs (cn_write_seq c) = Ok (map (Pair CONTENT_TYPE_APPLICATION_DATA) fs, cn_write_seq (rs_session s'')) \<and>
    concat fs = accepted"
proof -
  let ?base = "wd_sent w @ cn_ciphertext_write c"
  have "conveys crypto k iv (cn_write_seq c) ?base (rs_session (RealityStream_new c)) w []"
    using assms(3-6) stream_Nil by (fastforce simp: conveys_def RealityStream_new_def)
  from stream_run_conveys [OF assms(1,2) this assms(7)]
  have "conveys crypto k iv (cn_write_seq c) ?base (rs_session s) w' accepted" .
  from stream_poll_flush_conveys [OF assms(1,2) this assms(8)]
  have c: "conveys crypto k iv (cn_write_seq c) ?base (rs_session s'') w'' accepted" and "\<not> wants_write (rs_session s'')"
    by simp_all
  then have "cn_ciphertext_write (rs_session s'') = []" "cn_plaintext_write (rs_session s'') = []" by (simp_all add: wants_write_def)
  with c show ?thesis unfolding conveys_def using record_stream_decrypts by fastforce
qed

definition open_session :: RealityClientConnection where
  "open_session =
     \<lparr>cn_config = \<lparr>rcf_public_key = [], rcf_short_id = [], rcf_server_name = [], rcf_cipher_suites = []\<rparr>,
      cn_handshake = HandshakeComplete, cn_app_read_key = None, cn_app_read_iv = None,
      cn_app_write_key = Some \<lparr>ak_suite = AES_128_GCM_SHA256, ak_key = replicate 16 1\<rparr>,
      cn_app_write_iv = Some (replicate 12 2), cn_read_seq = 0, cn_write_seq = 0, cn_cipher_suite = Some AES_128_GCM_SHA256,
      cn_ciphertext_read = SlideBuffer_new 16, cn_ciphertext_write = [], cn_plaintext_read = SlideBuffer_new 16,
      cn_plaintext_write = [], cn_close_notify = False, cn_fatal_error = None\<rparr>"

definition slow_world :: World where
  "slow_world = \<lparr>wd_reads = [], wd_writes = [Ready (Inr 3), Pending, Ready (Inr 100), Ready (Inr 100)], wd_sent = [], wd_rng = \<lambda>_. (\<lambda>_. 2, \<lambda>_. 9), wd_draws = 0\<rparr>"

theorem flushed_stream_delivers_witness:
  "case stream_run marking_crypto [StreamWrite [1, 2, 3], StreamRead 8, StreamWrite [4]] [] (RealityStream_new open_session) slow_world of
     None \<Rightarrow> False
   | Some (accepted, s, w') \<Rightarrow> accepted = [1, 2, 3, 4] \<and>
       (\<exists>s'' w'' fs recs. stream_poll_flush marking_crypto (Ready (Ok ())) s w' = (Ready (Ok ()), s'', w'') \<and> wd_sent w'' = recs \<and>
          decrypt_records marking_crypto \<lparr>ak_suite = AES_128_GCM_SHA256, ak_key = replicate 16 1\<rparr> (replicate 12 2) recs 0 =
            Ok (map (Pair CONTENT_TYPE_APPLICATION_DATA) fs, cn_write_seq (rs_session s'')) \<and> concat fs = [1, 2, 3, 4])"
proof -
  let ?ops = "[StreamWrite [1, 2, 3], StreamRead 8, StreamWrite [4]]"
  have "case stream_run marking_crypto ?ops [] (RealityStream_new open_session) slow_world of
     None \<Rightarrow> False | Some (accepted, s, w') \<Rightarrow> accepted = [1, 2, 3, 4] \<and>
       (case stream_poll_flush marking_crypto (Ready (Ok ())) s w' of (Ready (Inr ()), _, _) \<Rightarrow> True | _ \<Rightarrow> False)" by code_simp
  then obtain s w' s'' w'' where r: "stream_run marking_crypto ?ops [] (RealityStream_new open_session) slow_world = Some ([1, 2, 3, 4], s, w')"
      "stream_poll_flush marking_crypto (Ready (Ok ())) s w' = (Ready (Ok ()), s'', w'')"
    by (auto split: option.splits prod.splits Poll.splits sum.splits)
  have "\<exists>fs recs. wd_sent w'' = wd_sent slow_world @ cn_ciphertext_write open_session @ recs \<and>
      decrypt_records marking_crypto \<lparr>ak_suite = AES_128_GCM_SHA256, ak_key = replicate 16 1\<rparr> (replicate 12 2) recs (cn_write_seq open_session) =
        Ok (map (Pair CONTENT_TYPE_APPLICATION_DATA) fs, cn_write_seq (rs_session s'')) \<and> concat fs = [1, 2, 3, 4]"
    by (rule flushed_stream_delivers [OF marking_crypto_ok _ _ _ _ _ r]) (simp_all add: open_session_def)
  then show ?thesis using r by (simp add: open_session_def slow_world_def)
qed

end
