(* ===== verification/Vless_Protocol.thy ===== *)
theory Vless_Protocol
  imports Client_Crypto Reality_Stream
begin

text \<open>
  Requests, datagrams and responses of the VLESS protocol, \<open>prototype/vless/src/vless_protocol.rs\<close>, and of \<open>lib.rs\<close> the construction
  of the client, the connection to the server up to the end of the handshake, and the reader and writer of datagrams.
\<close>

section \<open>Requests\<close>

definition VERSION :: u8 where "VERSION = 0"
definition COMMAND_TCP :: u8 where "COMMAND_TCP = 0x01"
definition COMMAND_UDP :: u8 where "COMMAND_UDP = 0x02"
definition ADDRESS_IPV4 :: u8 where "ADDRESS_IPV4 = 0x01"
definition ADDRESS_DOMAIN :: u8 where "ADDRESS_DOMAIN = 0x02"
definition ADDRESS_IPV6 :: u8 where "ADDRESS_IPV6 = 0x03"
definition VISION_FLOW :: string where "VISION_FLOW = ''xtls-rprx-vision''"
definition UDP_FRAME_LIMIT :: nat where "UDP_FRAME_LIMIT = 65535"

datatype TargetHost = IpHost IpAddr | DomainHost string

record TargetAddress =
  ta_host :: TargetHost
  ta_port :: u16

definition target_socket :: "SocketAddr \<Rightarrow> TargetAddress" where
  "target_socket address = \<lparr>ta_host = IpHost (sa_ip address), ta_port = sa_port address\<rparr>"

definition encode_flow_addon :: "string \<Rightarrow> bytes" where
  "encode_flow_addon flow = [0x0a, of_nat (length (as_bytes flow))] @ as_bytes flow"

definition vision_flow_addon_data :: bytes where "vision_flow_addon_data = encode_flow_addon VISION_FLOW"

definition write_target :: "TargetAddress \<Rightarrow> ClientError + bytes" where
  "write_target target =
     (case ta_host target of
        IpHost (V4 address) \<Rightarrow> Ok (u16_to_be (ta_port target) @ [ADDRESS_IPV4] @ v4_octets address)
      | IpHost (V6 address) \<Rightarrow> Ok (u16_to_be (ta_port target) @ [ADDRESS_IPV6] @ v6_octets address)
      | DomainHost domain \<Rightarrow>
          if length (as_bytes domain) < 256 then
            Ok (u16_to_be (ta_port target) @ [ADDRESS_DOMAIN, of_nat (length (as_bytes domain))] @ as_bytes domain)
          else Err (ClientError ''outbound-protocol'' ''VLESS domain target exceeds 255 bytes''))"

definition vless_request_header :: "bytes \<Rightarrow> u8 \<Rightarrow> bytes \<Rightarrow> TargetAddress \<Rightarrow> ClientError + bytes" where
  "vless_request_header user_id command addon_data target =
     (if length addon_data < 256 then
        and_then (write_target target) (\<lambda>tail.
          Ok ([VERSION] @ user_id @ [of_nat (length addon_data)] @ addon_data @ [command] @ tail))
      else Err (ClientError ''outbound-protocol'' ''VLESS addon data exceeds 255 bytes''))"

definition tcp_request_header :: "bytes \<Rightarrow> TargetAddress \<Rightarrow> ClientError + bytes" where
  "tcp_request_header user_id target = vless_request_header user_id COMMAND_TCP vision_flow_addon_data target"

definition udp_request_header :: "bytes \<Rightarrow> TargetAddress \<Rightarrow> ClientError + bytes" where
  "udp_request_header user_id target = vless_request_header user_id COMMAND_UDP [] target"

section \<open>Datagrams and the response\<close>

definition udp_frame :: "bytes \<Rightarrow> ClientError + bytes" where
  "udp_frame payload =
     (if UDP_FRAME_LIMIT < length payload then Err (ClientError ''outbound-protocol'' ''VLESS UDP payload exceeds 65535 bytes'')
      else Ok (u16_to_be (of_nat (length payload)) @ payload))"

definition read_udp_frame :: "ByteSource \<Rightarrow> (ClientError + bytes) \<times> ByteSource" where
  "read_udp_frame src =
     (case read_exact 2 src of
        (Inl _, src1) \<Rightarrow> (Err (ClientError ''outbound-read'' ''failed reading VLESS UDP payload length''), src1)
      | (Inr len, src1) \<Rightarrow>
          (case read_exact (unat (u16_from_be (len ! 0) (len ! 1))) src1 of
             (Inl _, src2) \<Rightarrow> (Err (ClientError ''outbound-read'' ''failed reading VLESS UDP payload''), src2)
           | (Inr payload, src2) \<Rightarrow> (Ok payload, src2)))"

definition read_vless_response_header :: "ByteSource \<Rightarrow> (ClientError + unit) \<times> ByteSource" where
  "read_vless_response_header src =
     (case read_exact 2 src of
        (Inl _, src1) \<Rightarrow> (Err (ClientError ''outbound-read'' ''failed reading VLESS response header''), src1)
      | (Inr header, src1) \<Rightarrow>
          if header ! 0 \<noteq> VERSION then (Err (ClientError ''outbound-protocol'' ''invalid VLESS response version''), src1)
          else (let addon_length = unat (header ! 1) in
                if 0 < addon_length then
                  (case read_exact addon_length src1 of
                     (Inl _, src2) \<Rightarrow> (Err (ClientError ''outbound-read'' ''failed reading VLESS response addon''), src2)
                   | (Inr _, src2) \<Rightarrow> (Ok (), src2))
                else (Ok (), src1)))"

text \<open>The reader of datagrams remembers whether the response header is still to come; its errors leave that open.\<close>

definition vless_read_datagram :: "bool \<Rightarrow> ByteSource \<Rightarrow> (ClientError + bytes) \<times> bool \<times> ByteSource" where
  "vless_read_datagram response_pending src =
     (case (if response_pending then read_vless_response_header src else (Ok (), src)) of
        (Inl e, src1) \<Rightarrow> (Err e, response_pending, src1)
      | (Inr _, src1) \<Rightarrow> (case read_udp_frame src1 of (r, src2) \<Rightarrow> (r, False, src2)))"

text \<open>\<open>flush_error\<close> is how the flush after the write ends.\<close>

definition vless_write_datagram :: "IoErrorKind option \<Rightarrow> bytes \<Rightarrow> ByteSink \<Rightarrow> (ClientError + unit) \<times> ByteSink" where
  "vless_write_datagram flush_error payload sink =
     (case udp_frame payload of
        Inl e \<Rightarrow> (Err e, sink)
      | Inr frame \<Rightarrow>
          (case write_all frame sink of
             (Inl _, sink1) \<Rightarrow> (Err (ClientError ''outbound-write'' ''failed writing VLESS UDP frame''), sink1)
           | (Inr _, sink1) \<Rightarrow>
               (case flush_error of
                  None \<Rightarrow> (Ok (), sink1)
                | Some _ \<Rightarrow> (Err (ClientError ''outbound-write'' ''failed flushing VLESS UDP frame''), sink1))))"

section \<open>The client\<close>

record VlessConfig =
  lc_server :: string
  lc_port :: u16
  lc_uuid :: string
  lc_server_name :: string
  lc_public_key :: string
  lc_short_id :: string

record VlessClient =
  vl_server :: string
  vl_port :: u16
  vl_user_id :: bytes
  vl_server_name :: string
  vl_public_key :: bytes
  vl_short_id :: bytes

text \<open>\<open>decode_base64\<close> is the URL-safe decoder without padding of the \<open>base64\<close> crate.\<close>

definition vless_try_new :: "Primitives \<Rightarrow> (string \<Rightarrow> bytes option) \<Rightarrow> VlessConfig \<Rightarrow> ClientError + VlessClient" where
  "vless_try_new pm decode_base64 config =
     (case pm_parse_uuid pm (lc_uuid config) of
        None \<Rightarrow> Err (ClientError ''outbound-config'' ''failed parsing VLESS UUID'')
      | Some user_id \<Rightarrow>
          if lc_server_name config = [] then Err (ClientError ''outbound-config'' ''VLESS Reality server_name is required'')
          else (case decode_public_key decode_base64 (lc_public_key config) of
                  Inl _ \<Rightarrow> Err (ClientError ''outbound-config'' ''failed decoding VLESS Reality public_key'')
                | Inr public_key \<Rightarrow>
                    (case decode_short_id (lc_short_id config) of
                       Inl _ \<Rightarrow> Err (ClientError ''outbound-config'' ''failed decoding VLESS Reality short_id'')
                     | Inr short_id \<Rightarrow>
                         Ok \<lparr>vl_server = lc_server config, vl_port = lc_port config, vl_user_id = user_id,
                             vl_server_name = lc_server_name config, vl_public_key = public_key, vl_short_id = short_id\<rparr>)))"

text \<open>The private key, the random bytes of the hello and the time are those of \<open>RealityClientConnection::new\<close>.\<close>

definition connect_reality_with_io ::
    "Crypto \<Rightarrow> bytes \<Rightarrow> bytes \<Rightarrow> u64 \<Rightarrow> VlessClient \<Rightarrow> HandshakeIo \<Rightarrow> (ClientError + RealityStream \<times> HandshakeIo) option" where
  "connect_reality_with_io crypto our_private client_random timestamp c io =
     (case RealityClientConnection_new crypto our_private client_random timestamp
         \<lparr>rcf_public_key = vl_public_key c, rcf_short_id = vl_short_id c, rcf_server_name = vl_server_name c, rcf_cipher_suites = []\<rparr> of
        Inl _ \<Rightarrow> Some (Err (ClientError ''outbound-tls'' ''failed creating VLESS Reality client connection''))
      | Inr session \<Rightarrow>
          map_option (\<lambda>(r, session', io').
              case r of
                Inl _ \<Rightarrow> Err (ClientError ''outbound-tls'' ''failed establishing VLESS Reality connection'')
              | Inr _ \<Rightarrow> Ok (RealityStream_new session', io'))
            (perform_reality_handshake crypto session io))"

section \<open>Requests are read back\<close>

text \<open>How a server reads a request: user, addon, command and target, and what follows.\<close>

definition parse_target :: "bytes \<Rightarrow> (TargetAddress \<times> bytes) option" where
  "parse_target bs =
     (case bs of
        p # q # t # rest \<Rightarrow>
          let port = u16_from_be p q in
          if t = ADDRESS_IPV4 \<and> 4 \<le> length rest then Some (\<lparr>ta_host = IpHost (V4 (v4_from_octets (take 4 rest))), ta_port = port\<rparr>, drop 4 rest)
          else if t = ADDRESS_IPV6 \<and> 16 \<le> length rest then
            Some (\<lparr>ta_host = IpHost (V6 (v6_from_octets (take 16 rest))), ta_port = port\<rparr>, drop 16 rest)
          else if t = ADDRESS_DOMAIN \<and> rest \<noteq> [] \<and> unat (hd rest) \<le> length (tl rest) then
            Some (\<lparr>ta_host = DomainHost (of_bytes (take (unat (hd rest)) (tl rest))), ta_port = port\<rparr>, drop (unat (hd rest)) (tl rest))
          else None
      | _ \<Rightarrow> None)"

definition parse_request :: "bytes \<Rightarrow> (bytes \<times> bytes \<times> u8 \<times> TargetAddress \<times> bytes) option" where
  "parse_request bs =
     (if length bs < 18 \<or> hd bs \<noteq> VERSION then None
      else let n = unat (bs ! 17); after = drop (18 + n) bs in
        if after = [] then None
        else map_option (\<lambda>(target, rest). (take 16 (drop 1 bs), take n (drop 18 bs), hd after, target, rest)) (parse_target (tl after)))"

lemma u16_to_be_pair: obtains a b where "u16_to_be w = [a, b]" "u16_from_be a b = w"
  by (metis u16_be_roundtrip u16_to_be_def)

lemma parse_written_target: "write_target target = Ok tail \<Longrightarrow> parse_target (tail @ rest) = Some (target, rest)"
proof -
  assume w: "write_target target = Ok tail"
  obtain a b where ab: "u16_to_be (ta_port target) = [a, b]" "u16_from_be a b = ta_port target" by (rule u16_to_be_pair)
  show ?thesis
  proof (cases "ta_host target")
    case (IpHost ip)
    with w ab show ?thesis
      by (cases ip; cases target)
        (auto simp: write_target_def parse_target_def ADDRESS_IPV4_def ADDRESS_IPV6_def ADDRESS_DOMAIN_def Let_def)
  next
    case (DomainHost domain)
    with w have "length (as_bytes domain) < 256" by (auto simp: write_target_def split: if_splits)
    then have "unat (of_nat (length (as_bytes domain)) :: u8) = length (as_bytes domain)" by (simp only: unat_of_nat_u8)
    with w ab DomainHost show ?thesis
      by (cases target)
        (auto simp: write_target_def parse_target_def ADDRESS_IPV4_def ADDRESS_IPV6_def ADDRESS_DOMAIN_def Let_def split: if_splits)
  qed
qed

text \<open>
  A request is built exactly for the targets that fit, IP addresses and domains of up to 255 bytes, and a server reads back the user, the
  addon, the command and the target, and finds the data that follows untouched.
\<close>

theorem vless_request_roundtrip:
  assumes "length user_id = 16" "length addon < 256"
  shows "case vless_request_header user_id command addon target of
      Inl _ \<Rightarrow> (\<exists>domain. ta_host target = DomainHost domain \<and> 255 < length (as_bytes domain))
    | Inr header \<Rightarrow> (\<forall>rest. parse_request (header @ rest) = Some (user_id, addon, command, target, rest))"
proof (cases "write_target target")
  case (Inl e)
  with assms(2) show ?thesis
    by (cases "ta_host target") (auto simp: vless_request_header_def write_target_def split: IpAddr.splits if_splits)
next
  case (Inr tail)
  have "unat (of_nat (length addon) :: u8) = length addon" using assms(2) by (simp only: unat_of_nat_u8)
  moreover have "drop (18 + length addon) (0 # user_id @ of_nat (length addon) # addon @ command # tail @ rest) = command # tail @ rest" for rest
  proof -
    have "0 # user_id @ of_nat (length addon) # addon @ command # tail @ rest =
        (0 # user_id @ [of_nat (length addon)] @ addon) @ command # tail @ rest" by simp
    moreover have "length (0 # user_id @ [of_nat (length addon)] @ addon) = 18 + length addon" using assms(1) by simp
    ultimately show ?thesis by (metis append_eq_conv_conj)
  qed
  ultimately show ?thesis
    using assms Inr parse_written_target [OF Inr]
    by (auto simp: vless_request_header_def parse_request_def VERSION_def Let_def nth_append nth_Cons')
qed

theorem vless_request_roundtrip_witness:
  "\<exists>header. tcp_request_header (replicate 16 3) \<lparr>ta_host = DomainHost ''example.com'', ta_port = 443\<rparr> = Ok header \<and>
    parse_request (header @ [1, 2]) =
      Some (replicate 16 3, vision_flow_addon_data, COMMAND_TCP, \<lparr>ta_host = DomainHost ''example.com'', ta_port = 443\<rparr>, [1, 2])"
proof -
  have "length vision_flow_addon_data < 256" by (simp add: vision_flow_addon_data_def encode_flow_addon_def VISION_FLOW_def)
  from vless_request_roundtrip [OF _ this, where user_id = "replicate 16 3" and command = COMMAND_TCP and target = "\<lparr>ta_host = DomainHost ''example.com'', ta_port = 443\<rparr>"]
  show ?thesis
    by (cases "tcp_request_header (replicate 16 3) \<lparr>ta_host = DomainHost ''example.com'', ta_port = 443\<rparr>") (simp_all add: tcp_request_header_def)
qed

text \<open>Frames keep the boundaries of datagrams, and the response header is skipped once.\<close>

lemma read_udp_frame_written:
  assumes "udp_frame payload = Ok frame"
  shows "read_udp_frame \<lparr>so_bytes = frame @ rest, so_failure = k\<rparr> = (Ok payload, \<lparr>so_bytes = rest, so_failure = k\<rparr>)"
proof -
  have n: "length payload < 65536" and frame: "frame = u16_to_be (of_nat (length payload)) @ payload"
    using assms by (auto simp: udp_frame_def UDP_FRAME_LIMIT_def split: if_splits)
  show ?thesis
    using n read_exact_append [of "u16_to_be (of_nat (length payload))" "payload @ rest" k] read_exact_append [of payload rest k]
    by (simp add: read_udp_frame_def frame unat_of_nat_u16)
qed

lemma first_datagram_skips_response:
  assumes "udp_frame payload = Ok frame" "length addon < 256"
  shows "vless_read_datagram True \<lparr>so_bytes = [VERSION, of_nat (length addon)] @ addon @ frame @ rest, so_failure = k\<rparr> =
    (Ok payload, False, \<lparr>so_bytes = rest, so_failure = k\<rparr>)"
proof -
  let ?src = "\<lparr>so_bytes = [VERSION, of_nat (length addon)] @ addon @ frame @ rest, so_failure = k\<rparr>"
  have n: "unat (of_nat (length addon) :: u8) = length addon" using assms(2) by (simp only: unat_of_nat_u8)
  have "read_exact 2 ?src = (Ok [VERSION, of_nat (length addon)], \<lparr>so_bytes = addon @ frame @ rest, so_failure = k\<rparr>)"
    by (simp add: read_exact_def)
  then have "read_vless_response_header ?src = (Ok (), \<lparr>so_bytes = frame @ rest, so_failure = k\<rparr>)"
    using n read_exact_append [of addon "frame @ rest" k] unfolding read_vless_response_header_def by (simp add: Let_def)
  then show ?thesis using read_udp_frame_written [OF assms(1)] unfolding vless_read_datagram_def by simp
qed

end
