(* ===== verification/Socks_Protocol.thy ===== *)
theory Socks_Protocol
  imports Byte_Io
begin

text \<open>
  The SOCKS5 codec of the ingress, \<open>dynet-ingress/src/socks/protocol.rs\<close>, and the datagrams it sends back,
  \<open>egress/udp_downstream.rs\<close>: greeting, requests, replies and UDP packets over the byte streams of \<open>Byte_Io\<close>.
  An error is its stage and the fixed part of its message. The grammar of RFC 1928 is stated separately, and the
  two readers accept exactly its words.
\<close>

section \<open>Constants and data\<close>

definition SOCKS_VERSION :: u8 where "SOCKS_VERSION = 5"
definition SOCKS_NO_AUTH :: u8 where "SOCKS_NO_AUTH = 0"
definition SOCKS_NO_ACCEPTABLE_METHODS :: u8 where "SOCKS_NO_ACCEPTABLE_METHODS = 0xff"
definition SOCKS_ATYP_IPV4 :: u8 where "SOCKS_ATYP_IPV4 = 1"
definition SOCKS_ATYP_DOMAIN :: u8 where "SOCKS_ATYP_DOMAIN = 3"
definition SOCKS_ATYP_IPV6 :: u8 where "SOCKS_ATYP_IPV6 = 4"
definition SOCKS_CMD_CONNECT :: u8 where "SOCKS_CMD_CONNECT = 1"
definition SOCKS_CMD_BIND :: u8 where "SOCKS_CMD_BIND = 2"
definition SOCKS_CMD_UDP_ASSOCIATE :: u8 where "SOCKS_CMD_UDP_ASSOCIATE = 3"
definition SOCKS_REPLY_SUCCEEDED :: u8 where "SOCKS_REPLY_SUCCEEDED = 0"
definition SOCKS_REPLY_COMMAND_NOT_SUPPORTED :: u8 where "SOCKS_REPLY_COMMAND_NOT_SUPPORTED = 7"

lemmas socks_constants = SOCKS_VERSION_def SOCKS_NO_AUTH_def SOCKS_NO_ACCEPTABLE_METHODS_def
  SOCKS_ATYP_IPV4_def SOCKS_ATYP_DOMAIN_def SOCKS_ATYP_IPV6_def SOCKS_CMD_CONNECT_def SOCKS_CMD_BIND_def
  SOCKS_CMD_UDP_ASSOCIATE_def SOCKS_REPLY_SUCCEEDED_def SOCKS_REPLY_COMMAND_NOT_SUPPORTED_def

datatype SocksDestination = Socket SocketAddr | Domain string u16

fun SocksDestination_domain :: "SocksDestination \<Rightarrow> string option" where
  "SocksDestination_domain (Socket _) = None"
| "SocksDestination_domain (Domain domain _) = Some domain"

record SocksRequest =
  sq_command :: u8
  sq_destination :: SocksDestination

record SocksUdpPacket =
  su_destination :: SocksDestination
  su_payload :: bytes

record SocksError =
  se_stage :: string
  se_message :: string

definition SocksError_new :: "string \<Rightarrow> string \<Rightarrow> SocksError" where
  "SocksError_new stage message = \<lparr>se_stage = stage, se_message = message\<rparr>"

text \<open>The connection of a client: what it will send, and what it received.\<close>

record SocksClient =
  sk_source :: ByteSource
  sk_sink :: ByteSink

text \<open>\<open>read_exact\<close> and \<open>write_all\<close> with the error of the place, followed by what is done next.\<close>

definition socks_read ::
    "string \<Rightarrow> string \<Rightarrow> nat \<Rightarrow> SocksClient \<Rightarrow> (bytes \<Rightarrow> SocksClient \<Rightarrow> (SocksError + 'a) \<times> SocksClient) \<Rightarrow>
      (SocksError + 'a) \<times> SocksClient" where
  "socks_read stage message n client f =
     (case read_exact n (sk_source client) of
        (Inl _, src) \<Rightarrow> (Err (SocksError_new stage message), client\<lparr>sk_source := src\<rparr>)
      | (Inr x, src) \<Rightarrow> f x (client\<lparr>sk_source := src\<rparr>))"

definition socks_write :: "string \<Rightarrow> string \<Rightarrow> bytes \<Rightarrow> SocksClient \<Rightarrow> (SocksError + unit) \<times> SocksClient" where
  "socks_write stage message bs client =
     (case write_all bs (sk_sink client) of
        (Inl _, sink) \<Rightarrow> (Err (SocksError_new stage message), client\<lparr>sk_sink := sink\<rparr>)
      | (Inr _, sink) \<Rightarrow> (Ok (), client\<lparr>sk_sink := sink\<rparr>))"

section \<open>The greeting\<close>

definition negotiate_no_auth :: "SocksClient \<Rightarrow> (SocksError + unit) \<times> SocksClient" where
  "negotiate_no_auth client =
     socks_read ''socks-handshake'' ''failed reading greeting'' 2 client (\<lambda>header client.
       if header ! 0 \<noteq> SOCKS_VERSION then
         (Err (SocksError_new ''socks-handshake'' ''unsupported SOCKS version''), client)
       else socks_read ''socks-handshake'' ''failed reading methods'' (unat (header ! 1)) client (\<lambda>methods client.
         let method = (if SOCKS_NO_AUTH \<in> set methods then SOCKS_NO_AUTH else SOCKS_NO_ACCEPTABLE_METHODS) in
         (case socks_write ''socks-handshake'' ''failed writing method selection'' [SOCKS_VERSION, method] client of
            (Inl e, client) \<Rightarrow> (Err e, client)
          | (Inr _, client) \<Rightarrow>
              if method = SOCKS_NO_ACCEPTABLE_METHODS then
                (Err (SocksError_new ''socks-handshake'' ''SOCKS5 no-auth method is not offered''), client)
              else (Ok (), client))))"

section \<open>Requests and replies\<close>

definition socks_read_port :: "SocksClient \<Rightarrow> (SocksError + u16) \<times> SocksClient" where
  "socks_read_port client =
     socks_read ''socks-request'' ''failed reading target port'' 2 client (\<lambda>port client.
       (Ok (u16_from_be (port ! 0) (port ! 1)), client))"

definition read_ipv4_destination :: "SocksClient \<Rightarrow> (SocksError + SocksDestination) \<times> SocksClient" where
  "read_ipv4_destination client =
     socks_read ''socks-request'' ''failed reading IPv4 target'' 4 client (\<lambda>address client.
       (case socks_read_port client of
          (Inl e, client) \<Rightarrow> (Err e, client)
        | (Inr port, client) \<Rightarrow> (Ok (Socket (mk_sockaddr (V4 (v4_from_octets address)) port)), client)))"

definition read_ipv6_destination :: "SocksClient \<Rightarrow> (SocksError + SocksDestination) \<times> SocksClient" where
  "read_ipv6_destination client =
     socks_read ''socks-request'' ''failed reading IPv6 target'' 16 client (\<lambda>address client.
       (case socks_read_port client of
          (Inl e, client) \<Rightarrow> (Err e, client)
        | (Inr port, client) \<Rightarrow> (Ok (Socket (mk_sockaddr (V6 (v6_from_octets address)) port)), client)))"

definition read_domain_destination :: "SocksClient \<Rightarrow> (SocksError + SocksDestination) \<times> SocksClient" where
  "read_domain_destination client =
     socks_read ''socks-request'' ''failed reading domain length'' 1 client (\<lambda>len client.
       socks_read ''socks-request'' ''failed reading domain target'' (unat (len ! 0)) client (\<lambda>domain client.
         (case from_utf8 domain of
            None \<Rightarrow> (Err (SocksError_new ''socks-request'' ''domain target is not UTF-8''), client)
          | Some domain \<Rightarrow>
              (case socks_read_port client of
                 (Inl e, client) \<Rightarrow> (Err e, client)
               | (Inr port, client) \<Rightarrow> (Ok (Domain domain port), client)))))"

definition read_destination :: "SocksClient \<Rightarrow> u8 \<Rightarrow> (SocksError + SocksDestination) \<times> SocksClient" where
  "read_destination client atyp =
     (if atyp = SOCKS_ATYP_IPV4 then read_ipv4_destination client
      else if atyp = SOCKS_ATYP_IPV6 then read_ipv6_destination client
      else if atyp = SOCKS_ATYP_DOMAIN then read_domain_destination client
      else (Err (SocksError_new ''socks-request'' ''unsupported SOCKS5 address type''), client))"

definition read_request :: "SocksClient \<Rightarrow> (SocksError + SocksRequest) \<times> SocksClient" where
  "read_request client =
     socks_read ''socks-request'' ''failed reading request header'' 4 client (\<lambda>header client.
       if header ! 0 \<noteq> SOCKS_VERSION then
         (Err (SocksError_new ''socks-request'' ''unsupported SOCKS version''), client)
       else if header ! 2 \<noteq> 0 then
         (Err (SocksError_new ''socks-request'' ''SOCKS5 reserved byte must be zero''), client)
       else (case read_destination client (header ! 3) of
               (Inl e, client) \<Rightarrow> (Err e, client)
             | (Inr destination, client) \<Rightarrow>
                 (Ok \<lparr>sq_command = header ! 1, sq_destination = destination\<rparr>, client)))"

definition write_reply :: "SocksClient \<Rightarrow> u8 \<Rightarrow> SocketAddr \<Rightarrow> (SocksError + unit) \<times> SocksClient" where
  "write_reply client reply bind =
     (let response = [SOCKS_VERSION, reply, 0] @
        (case sa_ip bind of
           V4 ip \<Rightarrow> [SOCKS_ATYP_IPV4] @ v4_octets ip @ u16_to_be (sa_port bind)
         | V6 ip \<Rightarrow> [SOCKS_ATYP_IPV6] @ v6_octets ip @ u16_to_be (sa_port bind))
      in socks_write ''socks-reply'' ''failed writing SOCKS5 reply'' response client)"

section \<open>UDP packets\<close>

definition parse_udp_ipv4 :: "bytes \<Rightarrow> nat \<Rightarrow> SocksError + SocksDestination \<times> nat" where
  "parse_udp_ipv4 packet cursor =
     (if length packet < cursor + 6 then
        Err (SocksError_new ''socks-udp-read'' ''SOCKS5 UDP IPv4 target is truncated'')
      else let address = [packet ! cursor, packet ! (cursor + 1), packet ! (cursor + 2), packet ! (cursor + 3)];
               port = u16_from_be (packet ! (cursor + 4)) (packet ! (cursor + 5))
           in Ok (Socket (mk_sockaddr (V4 (v4_from_octets address)) port), cursor + 6))"

definition parse_udp_ipv6 :: "bytes \<Rightarrow> nat \<Rightarrow> SocksError + SocksDestination \<times> nat" where
  "parse_udp_ipv6 packet cursor =
     (if length packet < cursor + 18 then
        Err (SocksError_new ''socks-udp-read'' ''SOCKS5 UDP IPv6 target is truncated'')
      else let address = take 16 (drop cursor packet);
               port = u16_from_be (packet ! (cursor + 16)) (packet ! (cursor + 17))
           in Ok (Socket (mk_sockaddr (V6 (v6_from_octets address)) port), cursor + 18))"

definition parse_udp_domain :: "bytes \<Rightarrow> nat \<Rightarrow> SocksError + SocksDestination \<times> nat" where
  "parse_udp_domain packet cursor =
     (case get_at packet cursor of
        None \<Rightarrow> Err (SocksError_new ''socks-udp-read'' ''SOCKS5 UDP domain length is missing'')
      | Some len \<Rightarrow>
          let domain_start = cursor + 1; domain_end = domain_start + unat len in
          if length packet < domain_end + 2 then
            Err (SocksError_new ''socks-udp-read'' ''SOCKS5 UDP domain target is truncated'')
          else (case from_utf8 (take (unat len) (drop domain_start packet)) of
                  None \<Rightarrow> Err (SocksError_new ''socks-udp-read'' ''SOCKS5 UDP domain is not UTF-8'')
                | Some domain \<Rightarrow>
                    Ok (Domain domain (u16_from_be (packet ! domain_end) (packet ! (domain_end + 1))), domain_end + 2)))"

definition parse_udp_destination :: "bytes \<Rightarrow> nat \<Rightarrow> SocksError + SocksDestination \<times> nat" where
  "parse_udp_destination packet offset =
     (case get_at packet offset of
        None \<Rightarrow> Err (SocksError_new ''socks-udp-read'' ''SOCKS5 UDP address type is missing'')
      | Some atyp \<Rightarrow>
          let cursor = offset + 1 in
          if atyp = SOCKS_ATYP_IPV4 then parse_udp_ipv4 packet cursor
          else if atyp = SOCKS_ATYP_IPV6 then parse_udp_ipv6 packet cursor
          else if atyp = SOCKS_ATYP_DOMAIN then parse_udp_domain packet cursor
          else Err (SocksError_new ''socks-udp-read'' ''unsupported SOCKS5 UDP address type''))"

definition parse_udp_packet :: "bytes \<Rightarrow> SocksError + SocksUdpPacket" where
  "parse_udp_packet packet =
     (if length packet < 4 then Err (SocksError_new ''socks-udp-read'' ''SOCKS5 UDP packet is too short'')
      else if packet ! 0 \<noteq> 0 \<or> packet ! 1 \<noteq> 0 then
        Err (SocksError_new ''socks-udp-read'' ''SOCKS5 UDP reserved bytes must be zero'')
      else if packet ! 2 \<noteq> 0 then
        Err (SocksError_new ''socks-udp-read'' ''SOCKS5 UDP fragmentation is not supported'')
      else and_then (parse_udp_destination packet 3) (\<lambda>(destination, offset).
        Ok \<lparr>su_destination = destination, su_payload = drop offset packet\<rparr>))"

definition socks5_udp_packet :: "SocketAddr \<Rightarrow> bytes \<Rightarrow> bytes" where
  "socks5_udp_packet target payload =
     [0, 0, 0] @
     (case sa_ip target of
        V4 ip \<Rightarrow> [1] @ v4_octets ip @ u16_to_be (sa_port target)
      | V6 ip \<Rightarrow> [4] @ v6_octets ip @ u16_to_be (sa_port target)) @
     payload"

section \<open>The grammar of RFC 1928\<close>

text \<open>A destination as it stands on the wire, and the destinations that can stand there.\<close>

fun destination_bytes :: "SocksDestination \<Rightarrow> bytes" where
  "destination_bytes (Socket a) =
     (case sa_ip a of
        V4 ip \<Rightarrow> [1] @ v4_octets ip @ u16_to_be (sa_port a)
      | V6 ip \<Rightarrow> [4] @ v6_octets ip @ u16_to_be (sa_port a))"
| "destination_bytes (Domain domain port) = [3, of_nat (length domain)] @ as_bytes domain @ u16_to_be port"

fun destination_ok :: "SocksDestination \<Rightarrow> bool" where
  "destination_ok (Socket _) \<longleftrightarrow> True"
| "destination_ok (Domain domain _) \<longleftrightarrow> length domain < 256 \<and> utf8_valid (as_bytes domain)"

definition request_bytes :: "SocksRequest \<Rightarrow> bytes" where
  "request_bytes r = [5, sq_command r, 0] @ destination_bytes (sq_destination r)"

definition packet_bytes :: "SocksUdpPacket \<Rightarrow> bytes" where
  "packet_bytes p = [0, 0, 0] @ destination_bytes (su_destination p) @ su_payload p"

lemma destination_bytes_not_Nil: "destination_bytes d \<noteq> []"
  by (cases d) (auto split: IpAddr.splits)

section \<open>Packets are exactly the words of the grammar\<close>

text \<open>A field of known length and a port behind it, as the readers index them and as they stand in the packet.\<close>

lemma field_and_port:
  "cursor + k + 2 \<le> length packet \<and> field = take k (drop cursor packet) \<and>
     port = u16_from_be (packet ! (cursor + k)) (packet ! (cursor + k + 1)) \<longleftrightarrow>
   length field = k \<and> (\<exists>rest. drop cursor packet = field @ u16_to_be port @ rest)"
  (is "?indexed \<longleftrightarrow> ?written")
proof
  assume ?indexed
  then have field: "field = take k (drop cursor packet)" "length field = k"
    and two: "take 2 (drop (cursor + k) packet) = [packet ! (cursor + k), packet ! (cursor + k + 1)]"
    by (auto simp: take_Suc_conv_app_nth numeral_2_eq_2)
  have "drop cursor packet = field @ drop (cursor + k) packet"
    using append_take_drop_id [of k "drop cursor packet"] by (simp add: field(1) add.commute del: append_take_drop_id)
  moreover have "drop (cursor + k) packet = take 2 (drop (cursor + k) packet) @ drop 2 (drop (cursor + k) packet)"
    by (simp only: append_take_drop_id)
  ultimately have "drop cursor packet = field @ u16_to_be port @ drop 2 (drop (cursor + k) packet)"
    using two \<open>?indexed\<close> by simp
  with field show ?written by blast
next
  assume ?written
  then obtain rest where len: "length field = k" and xs: "drop cursor packet = field @ u16_to_be port @ rest" by blast
  have long: "cursor + k + 2 \<le> length packet"
    using arg_cong [OF xs, of length] len by simp
  moreover have "packet ! (cursor + k + i) = u16_to_be port ! i" if "i < 2" for i
    using that long len arg_cong [OF xs, of "\<lambda>ys. ys ! (k + i)"] by (simp add: nth_append add.assoc)
  note this [of 0] this [of 1]
  ultimately show ?indexed using xs len by simp
qed

text \<open>The same for an address of \<open>k\<close> bytes, given a codec of such addresses.\<close>

lemma address_and_port:
  assumes "\<And>ip. length (octets ip) = k" "\<And>ip. decode (octets ip) = ip" "\<And>bs. length bs = k \<Longrightarrow> octets (decode bs) = bs"
  shows "cursor + k + 2 \<le> length packet \<and> ip = decode (take k (drop cursor packet)) \<and>
      port = u16_from_be (packet ! (cursor + k)) (packet ! (cursor + k + 1)) \<longleftrightarrow>
    (\<exists>rest. drop cursor packet = octets ip @ u16_to_be port @ rest)"
proof -
  have "ip = decode (take k (drop cursor packet)) \<longleftrightarrow> octets ip = take k (drop cursor packet)" if "cursor + k + 2 \<le> length packet"
    using that assms(2) [of ip] assms(3) [of "take k (drop cursor packet)"] by auto
  then show ?thesis using field_and_port [of cursor k packet "octets ip" port] assms(1) [of ip] by blast
qed

lemma parse_udp_ipv4_iff:
  "parse_udp_ipv4 packet cursor = Ok (d, n) \<longleftrightarrow>
    (\<exists>ip port rest. drop cursor packet = v4_octets ip @ u16_to_be port @ rest \<and>
      d = Socket (mk_sockaddr (V4 ip) port) \<and> n = cursor + 6)"
proof -
  let ?ip = "v4_from_octets (take 4 (drop cursor packet))"
  let ?port = "u16_from_be (packet ! (cursor + 4)) (packet ! (cursor + 4 + 1))"
  have four: "[packet ! cursor, packet ! (cursor + 1), packet ! (cursor + 2), packet ! (cursor + 3)] = take 4 (drop cursor packet)"
    if "cursor + 6 \<le> length packet"
    using that by (simp add: take_Suc_conv_app_nth numeral_eq_Suc)
  have "parse_udp_ipv4 packet cursor =
      (if cursor + 4 + 2 \<le> length packet then Ok (Socket (mk_sockaddr (V4 ?ip) ?port), cursor + 6)
       else Err (SocksError_new ''socks-udp-read'' ''SOCKS5 UDP IPv4 target is truncated''))"
    using four by (simp add: parse_udp_ipv4_def Let_def add.commute)
  then have "parse_udp_ipv4 packet cursor = Ok (d, n) \<longleftrightarrow>
      (\<exists>ip port. (cursor + 4 + 2 \<le> length packet \<and> ip = ?ip \<and> port = ?port) \<and>
        d = Socket (mk_sockaddr (V4 ip) port) \<and> n = cursor + 6)"
    by auto
  then show ?thesis
    by (simp only: address_and_port [where octets = v4_octets and decode = v4_from_octets and k = 4,
      OF length_v4_octets v4_from_octets_octets v4_octets_from_octets]) blast
qed

lemma parse_udp_ipv6_iff:
  "parse_udp_ipv6 packet cursor = Ok (d, n) \<longleftrightarrow>
    (\<exists>ip port rest. drop cursor packet = v6_octets ip @ u16_to_be port @ rest \<and>
      d = Socket (mk_sockaddr (V6 ip) port) \<and> n = cursor + 18)"
proof -
  let ?ip = "v6_from_octets (take 16 (drop cursor packet))"
  let ?port = "u16_from_be (packet ! (cursor + 16)) (packet ! (cursor + 16 + 1))"
  have "parse_udp_ipv6 packet cursor = Ok (d, n) \<longleftrightarrow>
      (\<exists>ip port. (cursor + 16 + 2 \<le> length packet \<and> ip = ?ip \<and> port = ?port) \<and>
        d = Socket (mk_sockaddr (V6 ip) port) \<and> n = cursor + 18)"
    by (auto simp: parse_udp_ipv6_def Let_def add.commute)
  then show ?thesis
    by (simp only: address_and_port [where octets = v6_octets and decode = v6_from_octets and k = 16,
      OF length_v6_octets v6_from_octets_octets v6_octets_from_octets]) blast
qed

lemma as_bytes_of_bytes [simp]: "as_bytes (of_bytes bs) = bs"
proof -
  have "of_char (char_of (unat b)) = b" for b :: u8
    using of_nat_of_char [of "char_of (unat b)", where 'a = u8] unat_u8_less [of b] by (simp add: of_char_of)
  then show ?thesis by (simp add: as_bytes_def of_bytes_def comp_def)
qed

lemma parse_udp_domain_iff:
  "parse_udp_domain packet cursor = Ok (d, n) \<longleftrightarrow>
    (\<exists>domain port rest. drop cursor packet = of_nat (length domain) # as_bytes domain @ u16_to_be port @ rest \<and>
      length domain < 256 \<and> utf8_valid (as_bytes domain) \<and>
      d = Domain domain port \<and> n = cursor + 3 + length domain)"
proof (cases "drop cursor packet")
  case Nil
  then show ?thesis by (simp add: parse_udp_domain_def get_at_def)
next
  case (Cons len xs)
  then have at: "get_at packet cursor = Some len" and xs: "drop (Suc cursor) packet = xs"
    using nth_via_drop [OF Cons] not_less [of cursor "length packet"] by (auto simp: get_at_def drop_Suc tl_drop [symmetric])
  let ?field = "take (unat len) (drop (cursor + 1) packet)"
  let ?port = "u16_from_be (packet ! (cursor + 1 + unat len)) (packet ! (cursor + 1 + unat len + 1))"
  have "parse_udp_domain packet cursor = Ok (d, n) \<longleftrightarrow>
      (\<exists>field port. (cursor + 1 + unat len + 2 \<le> length packet \<and> field = ?field \<and> port = ?port) \<and>
        utf8_valid field \<and> d = Domain (of_bytes field) port \<and> n = cursor + 3 + unat len)"
    using at by (auto simp: parse_udp_domain_def Let_def from_utf8_def)
  also have "\<dots> \<longleftrightarrow> (\<exists>field port. length field = unat len \<and> (\<exists>rest. xs = field @ u16_to_be port @ rest) \<and>
        utf8_valid field \<and> d = Domain (of_bytes field) port \<and> n = cursor + 3 + unat len)"
    unfolding field_and_port using xs by simp
  also have "\<dots> \<longleftrightarrow> (\<exists>domain port. length domain = unat len \<and> (\<exists>rest. xs = as_bytes domain @ u16_to_be port @ rest) \<and>
        utf8_valid (as_bytes domain) \<and> d = Domain domain port \<and> n = cursor + 3 + unat len)"
    by (metis length_as_bytes length_of_bytes of_bytes_as_bytes as_bytes_of_bytes)
  also have "\<dots> \<longleftrightarrow> (\<exists>domain port rest. len # xs = of_nat (length domain) # as_bytes domain @ u16_to_be port @ rest \<and>
      length domain < 256 \<and> utf8_valid (as_bytes domain) \<and> d = Domain domain port \<and> n = cursor + 3 + length domain)"
    using unat_u8_less [of len] by (auto simp: unat_of_nat_u8)
  finally show ?thesis unfolding Cons .
qed

lemma parse_udp_destination_iff:
  "parse_udp_destination packet offset = Ok (d, n) \<longleftrightarrow>
    destination_ok d \<and> (\<exists>rest. drop offset packet = destination_bytes d @ rest) \<and> n = offset + length (destination_bytes d)"
proof (cases "drop offset packet")
  case Nil
  then show ?thesis by (cases d) (auto simp: parse_udp_destination_def get_at_def split: IpAddr.splits)
next
  case (Cons atyp xs)
  then have at: "get_at packet offset = Some atyp" and xs: "drop (offset + 1) packet = xs"
    using nth_via_drop [OF Cons] not_less [of offset "length packet"] by (auto simp: get_at_def drop_Suc tl_drop [symmetric])
  have "parse_udp_destination packet offset = Ok (d, n) \<longleftrightarrow>
      atyp = 1 \<and> (\<exists>ip port rest. xs = v4_octets ip @ u16_to_be port @ rest \<and> d = Socket (mk_sockaddr (V4 ip) port) \<and> n = 7 + offset) \<or>
      atyp = 4 \<and> (\<exists>ip port rest. xs = v6_octets ip @ u16_to_be port @ rest \<and> d = Socket (mk_sockaddr (V6 ip) port) \<and> n = 19 + offset) \<or>
      atyp = 3 \<and> (\<exists>domain port rest. xs = of_nat (length domain) # as_bytes domain @ u16_to_be port @ rest \<and>
        length domain < 256 \<and> utf8_valid (as_bytes domain) \<and> d = Domain domain port \<and> n = 4 + offset + length domain)"
    using at xs
    by (simp add: parse_udp_destination_def socks_constants parse_udp_ipv4_iff parse_udp_ipv6_iff parse_udp_domain_iff)
  also have "\<dots> \<longleftrightarrow> destination_ok d \<and> (\<exists>rest. atyp # xs = destination_bytes d @ rest) \<and> n = offset + length (destination_bytes d)"
  proof (cases d)
    case (Socket a)
    then show ?thesis by (cases a; cases "sa_ip a") (auto simp: mk_sockaddr_def)
  qed auto
  finally show ?thesis unfolding Cons .
qed

text \<open>
  C27. The reader of UDP packets accepts exactly the words of the grammar of RFC 1928 without fragmentation, and returns what they
  stand for: a packet is parsed to a destination and a payload if and only if it is the encoding of these, where a
  domain has at most 255 bytes of valid UTF-8. Every other packet is an error, and none is read out of its bounds.
\<close>

theorem udp_packets_of_grammar:
  "parse_udp_packet packet = Ok p \<longleftrightarrow> destination_ok (su_destination p) \<and> packet = packet_bytes p"
proof (cases "length packet < 4")
  case True
  then show ?thesis
    by (cases "su_destination p") (auto simp: parse_udp_packet_def packet_bytes_def split: IpAddr.splits)
next
  case False
  then obtain a b c xs where packet: "packet = a # b # c # xs"
    by (auto simp: not_less numeral_eq_Suc Suc_le_length_iff)
  have "parse_udp_packet packet = Ok p \<longleftrightarrow> a = 0 \<and> b = 0 \<and> c = 0 \<and>
      (\<exists>d n. parse_udp_destination packet 3 = Ok (d, n) \<and> p = \<lparr>su_destination = d, su_payload = drop n packet\<rparr>)"
    using False by (auto simp: parse_udp_packet_def packet)
  also have "\<dots> \<longleftrightarrow> a = 0 \<and> b = 0 \<and> c = 0 \<and> destination_ok (su_destination p) \<and> xs = destination_bytes (su_destination p) @ su_payload p"
    by (cases p) (auto simp: parse_udp_destination_iff packet numeral_3_eq_3)
  also have "\<dots> \<longleftrightarrow> destination_ok (su_destination p) \<and> packet = packet_bytes p"
    by (auto simp: packet packet_bytes_def)
  finally show ?thesis .
qed

text \<open>So what is sent back to a SOCKS client reads as the payload from that address.\<close>

lemma socks5_udp_packet_bytes: "socks5_udp_packet target payload = packet_bytes \<lparr>su_destination = Socket target, su_payload = payload\<rparr>"
  by (simp add: socks5_udp_packet_def packet_bytes_def)

section \<open>Requests are exactly the words of the grammar\<close>

text \<open>The client after all but \<open>rest\<close> of what it sent has been read.\<close>

definition client_at :: "SocksClient \<Rightarrow> bytes \<Rightarrow> SocksClient" where
  "client_at client rest = client\<lparr>sk_source := (sk_source client)\<lparr>so_bytes := rest\<rparr>\<rparr>"

lemma client_at_simps [simp]:
  "so_bytes (sk_source (client_at client rest)) = rest" "client_at (client_at client rest) rest' = client_at client rest'"
  "sk_sink (client_at client rest) = sk_sink client"
  by (simp_all add: client_at_def)

lemma socks_read_Ok_iff:
  "socks_read stage message n client f = (Inr y, client') \<longleftrightarrow>
    (\<exists>x rest. length x = n \<and> so_bytes (sk_source client) = x @ rest \<and> f x (client_at client rest) = (Inr y, client'))"
  (is "?reads \<longleftrightarrow> ?word")
proof
  assume ?reads
  then show ?word
    by (intro exI [of _ "take n (so_bytes (sk_source client))"] exI [of _ "drop n (so_bytes (sk_source client))"])
      (auto simp: socks_read_def read_exact_def client_at_def split: if_splits)
qed (auto simp: socks_read_def read_exact_def client_at_def)

lemma socks_read_port_iff:
  "socks_read_port client = (Inr port, client') \<longleftrightarrow>
    (\<exists>rest. so_bytes (sk_source client) = u16_to_be port @ rest \<and> client' = client_at client rest)"
proof -
  have two: "length x = 2 \<and> port = u16_from_be (x ! 0) (x ! 1) \<longleftrightarrow> x = u16_to_be port" for x
    using length_u16_to_be [of port] by (auto simp: numeral_2_eq_2 length_Suc_conv simp del: length_u16_to_be)
  have "socks_read_port client = (Inr port, client') \<longleftrightarrow>
      (\<exists>x rest. (length x = 2 \<and> port = u16_from_be (x ! 0) (x ! 1)) \<and> so_bytes (sk_source client) = x @ rest \<and> client' = client_at client rest)"
    unfolding socks_read_port_def socks_read_Ok_iff by auto
  then show ?thesis by (simp only: two) blast
qed

lemma then_port_iff:
  "(case socks_read_port client of (Inl e, client1) \<Rightarrow> (Err e, client1) | (Inr port, client1) \<Rightarrow> (Ok (g port), client1)) = (Inr d, client') \<longleftrightarrow>
    (\<exists>port rest. so_bytes (sk_source client) = u16_to_be port @ rest \<and> d = g port \<and> client' = client_at client rest)"
  (is "?result \<longleftrightarrow> _")
proof -
  have "?result \<longleftrightarrow> (\<exists>port. socks_read_port client = (Inr port, client') \<and> d = g port)"
    by (auto split: prod.splits sum.splits)
  then show ?thesis unfolding socks_read_port_iff by blast
qed

lemma read_ipv4_destination_iff:
  "read_ipv4_destination client = (Inr d, client') \<longleftrightarrow>
    (\<exists>ip port rest. so_bytes (sk_source client) = v4_octets ip @ u16_to_be port @ rest \<and>
      d = Socket (mk_sockaddr (V4 ip) port) \<and> client' = client_at client rest)"
  unfolding read_ipv4_destination_def socks_read_Ok_iff then_port_iff
  by simp (metis length_v4_octets v4_octets_from_octets v4_from_octets_octets)

lemma read_ipv6_destination_iff:
  "read_ipv6_destination client = (Inr d, client') \<longleftrightarrow>
    (\<exists>ip port rest. so_bytes (sk_source client) = v6_octets ip @ u16_to_be port @ rest \<and>
      d = Socket (mk_sockaddr (V6 ip) port) \<and> client' = client_at client rest)"
  unfolding read_ipv6_destination_def socks_read_Ok_iff then_port_iff
  by simp (metis length_v6_octets v6_octets_from_octets v6_from_octets_octets)

lemma utf8_then_port_iff:
  "(case from_utf8 x of None \<Rightarrow> (Err e, client)
    | Some domain \<Rightarrow> (case socks_read_port client of (Inl e, client1) \<Rightarrow> (Err e, client1) | (Inr port, client1) \<Rightarrow> (Ok (Domain domain port), client1))) =
      (Inr d, client') \<longleftrightarrow>
    (\<exists>domain port rest. x = as_bytes domain \<and> utf8_valid x \<and> so_bytes (sk_source client) = u16_to_be port @ rest \<and>
      d = Domain domain port \<and> client' = client_at client rest)"
proof (cases "utf8_valid x")
  case True
  have "x = as_bytes domain \<longleftrightarrow> domain = of_bytes x" for domain by auto
  with True show ?thesis by (simp add: from_utf8_def then_port_iff)
qed (simp add: from_utf8_def)

lemma read_domain_destination_iff:
  "read_domain_destination client = (Inr d, client') \<longleftrightarrow>
    (\<exists>domain port rest. so_bytes (sk_source client) = of_nat (length domain) # as_bytes domain @ u16_to_be port @ rest \<and>
      length domain < 256 \<and> utf8_valid (as_bytes domain) \<and> d = Domain domain port \<and> client' = client_at client rest)"
proof -
  have one: "(\<exists>x rest. length x = 1 \<and> P x rest) \<longleftrightarrow> (\<exists>b rest. P [b] rest)" for P :: "bytes \<Rightarrow> bytes \<Rightarrow> bool"
    by (auto simp: length_Suc_conv)
  have len: "length domain = unat (b :: u8) \<longleftrightarrow> length domain < 256 \<and> b = of_nat (length domain)" for domain :: string and b
    using unat_u8_less [of b] by (auto simp: unat_of_nat_u8)
  have "read_domain_destination client = (Inr d, client') \<longleftrightarrow>
      (\<exists>b domain port rest. so_bytes (sk_source client) = b # as_bytes domain @ u16_to_be port @ rest \<and> length domain = unat b \<and>
        utf8_valid (as_bytes domain) \<and> d = Domain domain port \<and> client' = client_at client rest)"
    unfolding read_domain_destination_def socks_read_Ok_iff utf8_then_port_iff one
    by simp (metis length_as_bytes)
  then show ?thesis unfolding len by blast
qed

lemma read_destination_iff:
  "so_bytes (sk_source client) = atyp # xs \<Longrightarrow>
    read_destination (client_at client xs) atyp = (Inr d, client') \<longleftrightarrow>
    destination_ok d \<and> (\<exists>rest. atyp # xs = destination_bytes d @ rest \<and> client' = client_at client rest)"
proof (cases d)
  case (Socket a)
  then show ?thesis
    by (cases a; cases "sa_ip a")
      (auto simp: read_destination_def socks_constants read_ipv4_destination_iff read_ipv6_destination_iff
        read_domain_destination_iff mk_sockaddr_def)
qed (auto simp: read_destination_def socks_constants read_ipv4_destination_iff read_ipv6_destination_iff
      read_domain_destination_iff mk_sockaddr_def)

lemma read_request_iff:
  "read_request client = (Ok r, client') \<longleftrightarrow> destination_ok (sq_destination r) \<and>
    (\<exists>rest. so_bytes (sk_source client) = request_bytes r @ rest \<and> client' = client_at client rest)"
proof -
  let ?bytes = "so_bytes (sk_source client)"
  have four: "(\<exists>x rest. length x = 4 \<and> P x rest) \<longleftrightarrow> (\<exists>a b c t rest. P [a, b, c, t] rest)" for P :: "bytes \<Rightarrow> bytes \<Rightarrow> bool"
    by (force simp: numeral_eq_Suc length_Suc_conv)
  have request: "(case read_destination cl t of (Inl e, cl) \<Rightarrow> (Err e, cl)
      | (Inr d, cl) \<Rightarrow> (Ok \<lparr>sq_command = b, sq_destination = d\<rparr>, cl)) = (Inr r, client') \<longleftrightarrow>
      sq_command r = b \<and> read_destination cl t = (Inr (sq_destination r), client')" for cl t b
    by (cases r) (auto split: prod.splits sum.splits)
  have "read_request client = (Ok r, client') \<longleftrightarrow>
      (\<exists>a b c t rest. ?bytes = a # b # c # t # rest \<and> a = 5 \<and> c = 0 \<and> sq_command r = b \<and>
        read_destination (client_at client rest) t = (Inr (sq_destination r), client'))"
    unfolding read_request_def socks_read_Ok_iff four
    by (auto simp: socks_constants request)
  also have "\<dots> \<longleftrightarrow> destination_ok (sq_destination r) \<and>
      (\<exists>b t xs rest. ?bytes = 5 # b # 0 # t # xs \<and> sq_command r = b \<and> t # xs = destination_bytes (sq_destination r) @ rest \<and> client' = client_at client rest)"
    using read_destination_iff [of "client_at client (_ # _)"] by auto
  also have "\<dots> \<longleftrightarrow> destination_ok (sq_destination r) \<and> (\<exists>rest. ?bytes = request_bytes r @ rest \<and> client' = client_at client rest)"
    using destination_bytes_not_Nil by (cases "destination_bytes (sq_destination r)") (auto simp: request_bytes_def)
  finally show ?thesis .
qed

text \<open>
  The reader of requests accepts exactly the words of the grammar: a request is returned if and only if the client sent its
  encoding, and then precisely these bytes have been consumed, whatever follows, and nothing has been written.
\<close>

theorem requests_of_grammar:
  "read_request client = (Ok r, client') \<longleftrightarrow> destination_ok (sq_destination r) \<and>
    (\<exists>rest. so_bytes (sk_source client) = request_bytes r @ rest \<and> client' = client_at client rest)"
  by (rule read_request_iff)

end
