(* ===== verification/Egress_Graph.thy ===== *)
theory Egress_Graph
  imports Runtime_State Ss_Aead2022 Vmess_Client Trojan_Client Vless_Protocol
begin

text \<open>
  The execution of decisions, \<open>dynet-ingress/src/egress.rs\<close> with \<open>egress/graph.rs\<close>, \<open>egress/reloadable.rs\<close> and \<open>egress/observation.rs\<close>,
  and the node configurations of \<open>dynet-ingress/src/lib.rs\<close>: the media are the protocol clients of the other theories, a
  graph maps node ids to media, and a reloadable egress keeps one graph for each of the last generations. What a
  medium does with a session, that is dialling and relaying, is an argument (\<open>MediumOps\<close>).
\<close>

section \<open>Node configurations\<close>

datatype ShadowsocksMethod = MethodAes256Gcm | MethodBlake3Aes128Gcm2022

fun ShadowsocksMethod_as_str :: "ShadowsocksMethod \<Rightarrow> string" where
  "ShadowsocksMethod_as_str MethodAes256Gcm = ''aes-256-gcm''"
| "ShadowsocksMethod_as_str MethodBlake3Aes128Gcm2022 = ''2022-blake3-aes-128-gcm''"

record NodeShadowsocks =
  ns_server :: string
  ns_port :: u16
  ns_method :: ShadowsocksMethod
  ns_password :: string

record NodeTrojan =
  nt_server :: string
  nt_port :: u16
  nt_password :: string
  nt_sni :: "string option"
  nt_skip_cert_verify :: bool

record NodeVmess =
  nv_server :: string
  nv_port :: u16
  nv_uuid :: string

record NodeVless =
  nl_server :: string
  nl_port :: u16
  nl_uuid :: string
  nl_server_name :: string
  nl_public_key :: string
  nl_short_id :: string

datatype EgressNodeConfig =
    NodeDirect
  | NodeShadowsocks NodeShadowsocks
  | NodeTrojan NodeTrojan
  | NodeVless NodeVless
  | NodeVmess NodeVmess

definition DIRECT_EGRESS :: string where "DIRECT_EGRESS = ''direct''"

fun EgressNodeConfig_tag :: "EgressNodeConfig \<Rightarrow> string" where
  "EgressNodeConfig_tag NodeDirect = DIRECT_EGRESS"
| "EgressNodeConfig_tag (NodeShadowsocks _) = ''ss''"
| "EgressNodeConfig_tag (NodeTrojan _) = ''trojan''"
| "EgressNodeConfig_tag (NodeVless _) = ''vless''"
| "EgressNodeConfig_tag (NodeVmess _) = ''vmess''"

section \<open>Errors and their signals\<close>

record EgressError =
  ee_stage :: string
  ee_upstream :: "SocketAddr option"
  ee_message :: string
  ee_client_to_upstream_bytes :: "u64 option"
  ee_upstream_to_client_bytes :: "u64 option"

definition EgressError_new :: "string \<Rightarrow> SocketAddr option \<Rightarrow> string \<Rightarrow> EgressError" where
  "EgressError_new stage upstream message =
     \<lparr>ee_stage = stage, ee_upstream = upstream, ee_message = message,
      ee_client_to_upstream_bytes = None, ee_upstream_to_client_bytes = None\<rparr>"

record PlaintextByteCounts =
  pc_client_to_upstream :: u64
  pc_upstream_to_client :: u64

definition with_plaintext_bytes :: "PlaintextByteCounts \<Rightarrow> EgressError \<Rightarrow> EgressError" where
  "with_plaintext_bytes counts e =
     e\<lparr>ee_client_to_upstream_bytes := Some (pc_client_to_upstream counts),
       ee_upstream_to_client_bytes := Some (pc_upstream_to_client counts)\<rparr>"

record EgressErrorSignal =
  sg_code :: string
  sg_class :: string
  sg_side :: string
  sg_phase :: string
  sg_protocol_phase :: string
  sg_score_impact :: string

definition signal :: "string \<Rightarrow> string \<Rightarrow> string \<Rightarrow> string \<Rightarrow> string \<Rightarrow> string \<Rightarrow> EgressErrorSignal" where
  "signal code cls side phase protocol_phase score_impact =
     \<lparr>sg_code = code, sg_class = cls, sg_side = side, sg_phase = phase, sg_protocol_phase = protocol_phase,
      sg_score_impact = score_impact\<rparr>"

text \<open>\<open>str::contains\<close>.\<close>

fun str_contains :: "string \<Rightarrow> string \<Rightarrow> bool" where
  "str_contains needle [] \<longleftrightarrow> needle = []"
| "str_contains needle (c # s) \<longleftrightarrow> take (length needle) (c # s) = needle \<or> str_contains needle s"

definition contains_eof :: "string \<Rightarrow> bool" where
  "contains_eof message \<longleftrightarrow> str_contains ''early eof'' message \<or> str_contains ''unexpected eof'' message \<or>
     str_contains ''end of file'' message"

definition response_salt_eof :: "string \<Rightarrow> bool" where
  "response_salt_eof message \<longleftrightarrow> str_contains ''response salt'' message \<and> contains_eof message"

definition protocol_codes :: "(string \<times> string) list" where
  "protocol_codes =
     [(''ss'', ''response-salt-eof''), (''ss'', ''response-eof''), (''ss'', ''request-write-failed''), (''ss'', ''protocol-invalid''),
      (''trojan'', ''response-eof''), (''trojan'', ''request-write-failed''), (''trojan'', ''tls-handshake-failed''),
      (''trojan'', ''protocol-invalid''),
      (''vmess'', ''response-eof''), (''vmess'', ''request-write-failed''), (''vmess'', ''protocol-invalid''),
      (''vless'', ''response-eof''), (''vless'', ''request-write-failed''), (''vless'', ''reality-handshake-eof''),
      (''vless'', ''tls-handshake-failed''), (''vless'', ''protocol-invalid''),
      (''direct'', ''request-write-failed''), (''direct'', ''egress-error'')]"

definition protocol_code :: "string \<Rightarrow> string \<Rightarrow> string" where
  "protocol_code protocol code =
     (if (protocol, code) \<in> set protocol_codes then protocol @ ''-'' @ code else ''egress-error'')"

definition classify_egress_error :: "string \<Rightarrow> EgressError \<Rightarrow> EgressErrorSignal" where
  "classify_egress_error node_protocol e =
     (let message = to_ascii_lowercase (ee_message e); stage = ee_stage e in
      if stage = ''egress-resolve'' then
        signal ''resolve-failed'' ''connect-failed'' ''local'' ''resolve'' ''resolve'' ''hard-failure''
      else if stage = ''egress-connect'' then
        signal ''connect-failed'' ''connect-failed'' ''upstream'' ''connect'' ''connect'' ''hard-failure''
      else if stage = ''inbound-write'' \<or> str_contains ''broken pipe'' message then
        signal ''client-write-failed'' ''client-aborted'' ''client'' ''relay'' ''downstream-write'' ''neutral''
      else if response_salt_eof message then
        signal (protocol_code node_protocol ''response-salt-eof'') ''no-response-before-first-byte'' ''upstream''
          ''response-first-byte'' ''response-salt'' ''hard-failure''
      else if stage = ''outbound-read'' \<and> contains_eof message then
        signal (protocol_code node_protocol ''response-eof'') ''response-interrupted'' ''upstream''
          ''response-frame'' ''response-read'' ''hard-failure''
      else if stage = ''outbound-write'' then
        signal (protocol_code node_protocol ''request-write-failed'') ''request-write-failed'' ''upstream''
          ''request-write'' ''request-write'' ''hard-failure''
      else if stage = ''outbound-tls'' \<and> str_contains ''reality handshake'' message then
        signal (protocol_code node_protocol ''reality-handshake-eof'') ''handshake-failed'' ''upstream''
          ''handshake'' ''reality-handshake'' ''hard-failure''
      else if stage = ''outbound-tls'' then
        signal (protocol_code node_protocol ''tls-handshake-failed'') ''handshake-failed'' ''upstream''
          ''handshake'' ''tls-handshake'' ''hard-failure''
      else if stage = ''outbound-crypto'' \<or> stage = ''outbound-protocol'' then
        signal (protocol_code node_protocol ''protocol-invalid'') ''protocol-invalid'' ''protocol''
          ''response-frame'' stage ''hard-failure''
      else signal (protocol_code node_protocol ''egress-error'') ''unknown-failure'' ''unknown'' stage stage ''hard-failure'')"

definition push_egress_error_fields :: "string \<Rightarrow> EgressError \<Rightarrow> (string \<times> string) list" where
  "push_egress_error_fields node_protocol e =
     (let s = classify_egress_error node_protocol e in
      [(''errorStage'', ee_stage e), (''error'', ee_message e)] @
      (case ee_client_to_upstream_bytes e of None \<Rightarrow> [] | Some n \<Rightarrow> [(''clientToUpstreamBytes'', show_u64 n)]) @
      (case ee_upstream_to_client_bytes e of None \<Rightarrow> [] | Some n \<Rightarrow> [(''upstreamToClientBytes'', show_u64 n)]) @
      [(''errorCode'', sg_code s), (''errorClass'', sg_class s), (''errorSide'', sg_side s), (''errorPhase'', sg_phase s),
       (''errorProtocolPhase'', sg_protocol_phase s), (''errorScoreImpact'', sg_score_impact s)])"

section \<open>Media\<close>

datatype EgressMedium =
    MediumDirect
  | MediumShadowsocks Client
  | MediumTrojan TrojanClient
  | MediumVless VlessClient
  | MediumVmess VmessClient

fun EgressMedium_tag :: "EgressMedium \<Rightarrow> string" where
  "EgressMedium_tag MediumDirect = DIRECT_EGRESS"
| "EgressMedium_tag (MediumShadowsocks _) = ''ss''"
| "EgressMedium_tag (MediumTrojan _) = ''trojan''"
| "EgressMedium_tag (MediumVless _) = ''vless''"
| "EgressMedium_tag (MediumVmess _) = ''vmess''"

fun shadowsocks_method :: "ShadowsocksMethod \<Rightarrow> Method" where
  "shadowsocks_method MethodAes256Gcm = Aes256Gcm"
| "shadowsocks_method MethodBlake3Aes128Gcm2022 = Blake3Aes128Gcm2022"

definition ShadowsocksEgress_new :: "Primitives \<Rightarrow> NodeShadowsocks \<Rightarrow> (string + EgressMedium) option" where
  "ShadowsocksEgress_new pm c =
     map_option (map_sum ce_message MediumShadowsocks)
       (try_new pm \<lparr>cf_server = ns_server c, cf_port = ns_port c, cf_method = shadowsocks_method (ns_method c),
                    cf_password = ns_password c\<rparr>)"

definition TrojanEgress_new :: "Primitives \<Rightarrow> NodeTrojan \<Rightarrow> EgressMedium" where
  "TrojanEgress_new pm c =
     MediumTrojan (trojan_new pm \<lparr>tc_server = nt_server c, tc_port = nt_port c, tc_password = nt_password c,
                                  tc_sni = nt_sni c, tc_skip_cert_verify = nt_skip_cert_verify c\<rparr>)"

definition VlessEgress_new :: "Primitives \<Rightarrow> (string \<Rightarrow> bytes option) \<Rightarrow> NodeVless \<Rightarrow> string + EgressMedium" where
  "VlessEgress_new pm decode_base64 c =
     map_sum ce_message MediumVless
       (vless_try_new pm decode_base64
          \<lparr>lc_server = nl_server c, lc_port = nl_port c, lc_uuid = nl_uuid c, lc_server_name = nl_server_name c,
           lc_public_key = nl_public_key c, lc_short_id = nl_short_id c\<rparr>)"

definition VmessEgress_new :: "Primitives \<Rightarrow> NodeVmess \<Rightarrow> string + EgressMedium" where
  "VmessEgress_new pm c =
     map_sum ce_message MediumVmess
       (vmess_try_new pm \<lparr>vc_server = nv_server c, vc_port = nv_port c, vc_uuid = nv_uuid c\<rparr>)"

text \<open>\<open>None\<close> is a key derivation of the Shadowsocks client that does not return.\<close>

fun EgressMedium_try_from :: "Primitives \<Rightarrow> (string \<Rightarrow> bytes option) \<Rightarrow> EgressNodeConfig \<Rightarrow> (string + EgressMedium) option" where
  "EgressMedium_try_from pm decode_base64 NodeDirect = Some (Ok MediumDirect)"
| "EgressMedium_try_from pm decode_base64 (NodeShadowsocks c) = ShadowsocksEgress_new pm c"
| "EgressMedium_try_from pm decode_base64 (NodeTrojan c) = Some (Ok (TrojanEgress_new pm c))"
| "EgressMedium_try_from pm decode_base64 (NodeVless c) = Some (VlessEgress_new pm decode_base64 c)"
| "EgressMedium_try_from pm decode_base64 (NodeVmess c) = Some (VmessEgress_new pm c)"

text \<open>Every medium can dial.\<close>

datatype TcpDialerMedium =
    DialDirect
  | DialShadowsocks Client
  | DialTrojan TrojanClient
  | DialVless VlessClient
  | DialVmess VmessClient

fun tcp_dialer :: "EgressMedium \<Rightarrow> TcpDialerMedium option" where
  "tcp_dialer MediumDirect = Some DialDirect"
| "tcp_dialer (MediumShadowsocks c) = Some (DialShadowsocks c)"
| "tcp_dialer (MediumTrojan c) = Some (DialTrojan c)"
| "tcp_dialer (MediumVless c) = Some (DialVless c)"
| "tcp_dialer (MediumVmess c) = Some (DialVmess c)"

section \<open>Sessions and what a medium does with them\<close>

record TcpRelaySession =
  tr_target :: SocketAddr
  tr_decision :: SelectionDecision
  tr_idle_timeout_ms :: "nat option"

record TcpRelayOutcome =
  to_upstream :: SocketAddr
  to_client_to_upstream_bytes :: u64
  to_upstream_to_client_bytes :: u64
  to_close_reason :: string

record UdpRelayAssociation =
  ua_session_id :: u64
  ua_inbound :: string
  ua_peer :: SocketAddr
  ua_target :: SocketAddr
  ua_idle_timeout_ms :: nat
  ua_decision :: SelectionDecision

record UdpRelayOutcome =
  uo_upstream :: SocketAddr
  uo_close_reason :: string

text \<open>The handlers of the single protocols: dialling and relaying, with the streams inside.\<close>

record MediumOps =
  mo_handle_tcp :: "EgressMedium \<Rightarrow> TcpRelaySession \<Rightarrow> EgressError + TcpRelayOutcome"
  mo_handle_tcp_via_dialer :: "EgressMedium \<Rightarrow> TcpRelaySession \<Rightarrow> TcpDialerMedium \<Rightarrow> EgressError + TcpRelayOutcome"
  mo_handle_udp :: "EgressMedium \<Rightarrow> UdpRelayAssociation \<Rightarrow> EgressError + UdpRelayOutcome"
  mo_handle_udp_via_dialer :: "EgressMedium \<Rightarrow> UdpRelayAssociation \<Rightarrow> TcpDialerMedium \<Rightarrow> EgressError + UdpRelayOutcome"
  mo_handle_udp_over_ss :: "Client \<Rightarrow> UdpRelayAssociation \<Rightarrow> Client \<Rightarrow> EgressError + UdpRelayOutcome"

definition handle_udp_with_dialer ::
    "MediumOps \<Rightarrow> EgressMedium \<Rightarrow> UdpRelayAssociation \<Rightarrow> TcpDialerMedium \<Rightarrow> EgressError + UdpRelayOutcome" where
  "handle_udp_with_dialer ops m association dialer =
     (let refused = Err (EgressError_new ''egress-select'' None
        (''UDP final egress '' @ EgressMedium_tag m @ '' does not support TCP-dialer underlay''))
      in case m of
           MediumTrojan _ \<Rightarrow> mo_handle_udp_via_dialer ops m association dialer
         | MediumVless _ \<Rightarrow> mo_handle_udp_via_dialer ops m association dialer
         | MediumVmess _ \<Rightarrow> mo_handle_udp_via_dialer ops m association dialer
         | MediumDirect \<Rightarrow> refused
         | MediumShadowsocks _ \<Rightarrow> refused)"

section \<open>The graph (\<open>egress/graph.rs\<close>)\<close>

type_synonym GraphEgress = "(string, EgressMedium) btree"

fun graph_load ::
    "Primitives \<Rightarrow> (string \<Rightarrow> bytes option) \<Rightarrow> (string \<times> EgressNodeConfig) list \<Rightarrow> GraphEgress \<Rightarrow> (string + GraphEgress) option" where
  "graph_load pm decode_base64 [] nodes = Some (Ok nodes)"
| "graph_load pm decode_base64 ((node_id, config) # configs) nodes =
     (case EgressMedium_try_from pm decode_base64 config of
        None \<Rightarrow> None
      | Some (Inl e) \<Rightarrow> Some (Err e)
      | Some (Inr m) \<Rightarrow> graph_load pm decode_base64 configs (bt_insert node_id m nodes))"

definition GraphEgress_try_from ::
    "Primitives \<Rightarrow> (string \<Rightarrow> bytes option) \<Rightarrow> (string, EgressNodeConfig) btree \<Rightarrow> (string + GraphEgress) option" where
  "GraphEgress_try_from pm decode_base64 configs = graph_load pm decode_base64 configs []"

definition chained_error :: "string \<Rightarrow> EgressError" where
  "chained_error protocol =
     EgressError_new ''egress-select'' None (protocol @ '' chained graph execution is not implemented'')"

definition egress_for_node :: "GraphEgress \<Rightarrow> string \<Rightarrow> EgressError + EgressMedium" where
  "egress_for_node g node_id =
     ok_or (EgressError_new ''egress-select'' None (''selection node '' @ node_id @ '' has no execution egress'')) (bt_get g node_id)"

definition final_egress_for_decision :: "GraphEgress \<Rightarrow> SelectionDecision \<Rightarrow> EgressError + EgressMedium" where
  "final_egress_for_decision g decision =
     (if sd_trace decision = [] then Err (chained_error ''TCP'')
      else egress_for_node g (th_node_id (last (sd_trace decision))))"

definition tcp_dialer_for_head :: "GraphEgress \<Rightarrow> SelectionDecision \<Rightarrow> EgressError + TcpDialerMedium" where
  "tcp_dialer_for_head g decision =
     (if length (sd_trace decision) \<noteq> 2 then
        Err (EgressError_new ''egress-select'' None
          (''TCP graph execution supports exactly one dialer hop, got '' @ show_nat (length (sd_trace decision)) @ '' hops''))
      else let head = hd (sd_trace decision) in
        and_then (egress_for_node g (th_node_id head)) (\<lambda>m.
          ok_or (EgressError_new ''egress-select'' None
            (''TCP chained graph dialer node '' @ th_node_id head @ '' has no TCP dialer'')) (tcp_dialer m)))"

definition graph_decision_tag :: "GraphEgress \<Rightarrow> SelectionDecision \<Rightarrow> string" where
  "graph_decision_tag g decision =
     (case final_egress_for_decision g decision of Inl _ \<Rightarrow> ''graph'' | Inr m \<Rightarrow> EgressMedium_tag m)"

definition graph_handle_tcp :: "MediumOps \<Rightarrow> GraphEgress \<Rightarrow> TcpRelaySession \<Rightarrow> EgressError + TcpRelayOutcome" where
  "graph_handle_tcp ops g session =
     and_then (final_egress_for_decision g (tr_decision session)) (\<lambda>egress.
       let direct = (SelectionTerminal_kind (sd_terminal (tr_decision session)) = ''direct'') in
       if length (sd_trace (tr_decision session)) = 1 \<and> direct then mo_handle_tcp ops egress session
       else if direct then
         and_then (tcp_dialer_for_head g (tr_decision session)) (mo_handle_tcp_via_dialer ops egress session)
       else Err (chained_error ''TCP''))"

definition graph_handle_udp :: "MediumOps \<Rightarrow> GraphEgress \<Rightarrow> UdpRelayAssociation \<Rightarrow> EgressError + UdpRelayOutcome" where
  "graph_handle_udp ops g association =
     (let decision = ua_decision association; trace = sd_trace decision;
          direct = (SelectionTerminal_kind (sd_terminal decision) = ''direct'')
      in if length trace = 1 \<and> direct then
           and_then (final_egress_for_decision g decision) (\<lambda>egress. mo_handle_udp ops egress association)
         else if length trace = 2 \<and> direct then
           and_then (egress_for_node g (th_node_id (hd trace))) (\<lambda>head.
           and_then (egress_for_node g (th_node_id (last trace))) (\<lambda>tail.
             (case (head, tail) of
                (MediumShadowsocks underlay, MediumShadowsocks final_egress) \<Rightarrow>
                  mo_handle_udp_over_ss ops final_egress association underlay
              | _ \<Rightarrow>
                  (case tcp_dialer head of
                     Some dialer \<Rightarrow> handle_udp_with_dialer ops tail association dialer
                   | None \<Rightarrow> Err (chained_error ''UDP'')))))
         else Err (chained_error ''UDP''))"

section \<open>Generations of graphs (\<open>egress/reloadable.rs\<close>)\<close>

definition RETAINED_GENERATIONS :: nat where "RETAINED_GENERATIONS = 8"

type_synonym ReloadableEgress = "(u64, GraphEgress) btree"

definition reloadable_new ::
    "Primitives \<Rightarrow> (string \<Rightarrow> bytes option) \<Rightarrow> u64 \<Rightarrow> (string, EgressNodeConfig) btree \<Rightarrow> (string + ReloadableEgress) option" where
  "reloadable_new pm decode_base64 gen configs =
     map_option (map_sum id (\<lambda>graph. [(gen, graph)])) (GraphEgress_try_from pm decode_base64 configs)"

function drop_oldest :: "ReloadableEgress \<Rightarrow> ReloadableEgress" where
  "drop_oldest generations =
     (if RETAINED_GENERATIONS < length generations then
        drop_oldest (bt_remove (fst (hd generations)) generations)
      else generations)"
  by pat_completeness auto

termination
proof (relation "measure length")
  fix generations :: ReloadableEgress
  assume "RETAINED_GENERATIONS < length generations"
  then obtain p ps where "generations = p # ps" by (cases generations) auto
  then show "(bt_remove (fst (hd generations)) generations, generations) \<in> measure length"
    by (auto simp: bt_remove_def less_Suc_eq_le split: prod.splits)
qed simp

declare drop_oldest.simps [simp del]

definition install ::
    "Primitives \<Rightarrow> (string \<Rightarrow> bytes option) \<Rightarrow> u64 \<Rightarrow> (string, EgressNodeConfig) btree \<Rightarrow> ReloadableEgress \<Rightarrow>
      ((string + unit) \<times> ReloadableEgress) option" where
  "install pm decode_base64 gen configs egress =
     (case GraphEgress_try_from pm decode_base64 configs of
        None \<Rightarrow> None
      | Some (Inl e) \<Rightarrow> Some (Err e, egress)
      | Some (Inr graph) \<Rightarrow> Some (Ok (), drop_oldest (bt_insert gen graph egress)))"

definition reloadable_remove :: "u64 \<Rightarrow> ReloadableEgress \<Rightarrow> ReloadableEgress" where
  "reloadable_remove gen egress = bt_remove gen egress"

definition reloadable_generations :: "ReloadableEgress \<Rightarrow> u64 list" where
  "reloadable_generations egress = map fst egress"

definition graph_for :: "ReloadableEgress \<Rightarrow> u64 \<Rightarrow> EgressError + GraphEgress" where
  "graph_for egress gen =
     ok_or (EgressError_new ''egress-generation'' None (''egress generation '' @ show_u64 gen @ '' is no longer retained''))
       (bt_get egress gen)"

definition reloadable_decision_tag :: "ReloadableEgress \<Rightarrow> SelectionDecision \<Rightarrow> string" where
  "reloadable_decision_tag egress decision =
     (case graph_for egress (sd_config_generation decision) of
        Inl _ \<Rightarrow> ''reloadable-graph'' | Inr graph \<Rightarrow> graph_decision_tag graph decision)"

definition reloadable_handle_tcp :: "MediumOps \<Rightarrow> ReloadableEgress \<Rightarrow> TcpRelaySession \<Rightarrow> EgressError + TcpRelayOutcome" where
  "reloadable_handle_tcp ops egress session =
     and_then (graph_for egress (sd_config_generation (tr_decision session))) (\<lambda>graph. graph_handle_tcp ops graph session)"

definition reloadable_handle_udp :: "MediumOps \<Rightarrow> ReloadableEgress \<Rightarrow> UdpRelayAssociation \<Rightarrow> EgressError + UdpRelayOutcome" where
  "reloadable_handle_udp ops egress association =
     and_then (graph_for egress (sd_config_generation (ua_decision association))) (\<lambda>graph. graph_handle_udp ops graph association)"

section \<open>What the graph holds\<close>

lemma graph_load_keys:
  "graph_load pm b64 configs g = Some (Inr g') \<Longrightarrow> fst ` set g' = fst ` set configs \<union> fst ` set g"
  by (induction pm b64 configs g rule: graph_load.induct) (auto split: option.splits sum.splits)

lemma graph_load_get:
  "graph_load pm b64 configs g = Some (Inr g') \<Longrightarrow> distinct (map fst configs) \<Longrightarrow>
    bt_get g' node_id = (case map_of configs node_id of
      None \<Rightarrow> bt_get g node_id
    | Some config \<Rightarrow> Some (projr (the (EgressMedium_try_from pm b64 config))))"
  by (induction pm b64 configs g rule: graph_load.induct)
    (auto split: option.splits sum.splits simp: map_of_eq_None_iff image_iff)

section \<open>The generations that are kept\<close>

lemma bt_remove_hd: "bt_wf (p # ps) \<Longrightarrow> bt_remove (fst p) (p # ps) = ps"
  by (cases p) (force simp: bt_remove_def filter_id_conv)

lemma drop_oldest_drop: "bt_wf gs \<Longrightarrow> drop_oldest gs = drop (length gs - RETAINED_GENERATIONS) gs"
proof (induction gs)
  case Nil
  then show ?case by (subst drop_oldest.simps) simp
next
  case (Cons p ps)
  show ?case
  proof (cases "RETAINED_GENERATIONS < length (p # ps)")
    case True
    have "drop_oldest (p # ps) = drop_oldest ps"
      using True Cons.prems by (subst drop_oldest.simps) (simp add: bt_remove_hd)
    with True Cons show ?thesis by (cases p) (simp add: Suc_diff_le)
  qed (subst drop_oldest.simps, simp)
qed

lemma bt_insert_newest: "\<forall>k\<in>fst ` set m. k < g \<Longrightarrow> bt_insert g v m = m @ [(g, v)]"
  by (induction g v m rule: bt_insert.induct) auto

lemma install_newest:
  assumes "bt_wf egress" "\<forall>k\<in>fst ` set egress. k < gen" "GraphEgress_try_from pm b64 configs = Some (Ok graph)"
  shows "install pm b64 gen configs egress =
    Some (Ok (), drop (Suc (length egress) - RETAINED_GENERATIONS) (egress @ [(gen, graph)]))"
proof -
  have "bt_wf (egress @ [(gen, graph)])" using assms(1,2) by (auto simp: bt_wf_def sorted_wrt_append)
  then show ?thesis using assms by (simp add: install_def bt_insert_newest drop_oldest_drop)
qed

end
