(* ===== verification/Config_Reload.thy ===== *)
theory Config_Reload
  imports Egress_Graph Config_Audit
begin

text \<open>
  Reloading the configuration: the data of \<open>dynet-state/src/lib.rs\<close> with its submodules, the plan of \<open>reload.rs\<close>, and the coordinator of
  \<open>dynet-cli/src/runtime_reload.rs\<close>, which holds the current configuration, the runtime, the durable store, the generations of
  egress graphs, the settings of the capture device and the audit trail, and changes them together. The text of a
  configuration file and of the environment, and the digest in the fingerprint, are arguments. Durations are in milliseconds.
\<close>

section \<open>Configurations\<close>

record ControlConfig =
  co_bind :: SocketAddr

record DnsRelayConfig =
  dl_bind :: SocketAddr
  dl_max_sessions :: nat

record TcpRelayConfig =
  tl_bind :: SocketAddr
  tl_upstream :: SocketAddr
  tl_max_sessions :: nat

record UdpRelayConfig =
  ul_bind :: SocketAddr
  ul_upstream :: SocketAddr
  ul_idle_timeout_ms :: nat
  ul_max_sessions :: nat

record Socks5IngressConfig =
  s5_bind :: SocketAddr
  s5_udp_advertise_ip :: "IpAddr option"
  s5_idle_timeout_ms :: nat
  s5_max_sessions :: nat

record IngressConfig =
  in_dns :: DnsRelayConfig
  in_tcp :: TcpRelayConfig
  in_udp :: UdpRelayConfig
  in_socks5 :: Socks5IngressConfig

record TunCaptureConfig =
  tu_enabled :: bool
  tu_interface :: string
  tu_tcp_idle_timeout_ms :: nat
  tu_udp_idle_timeout_ms :: nat
  tu_udp_response_timeout_ms :: nat

record RouterIngressConfig =
  ri_interface :: "string option"
  ri_ipv4_sources :: "string list"
  ri_ipv6_sources :: "string list"

record CaptureConfig =
  ca_tun :: TunCaptureConfig
  ca_router_ingress :: RouterIngressConfig

record Ipv6Config =
  i6_enabled :: bool

record DnsMappingConfig =
  dm_interface :: "string option"
  dm_source_port :: u16

record PersistencePolicy =
  pp_retention_ms :: nat
  pp_max_bytes :: u64

datatype ServiceManager = Auto | Systemd | Procd

record ServiceConfig =
  sv_manager :: ServiceManager
  sv_user :: string
  sv_runtime_database :: string
  sv_environment_file :: "string option"

record ForwardingConfig =
  fc_seed :: RuntimeSeed
  fc_execution_nodes :: "(string, EgressNodeConfig) btree"

record Config =
  cg_control :: ControlConfig
  cg_ingress :: IngressConfig
  cg_capture :: CaptureConfig
  cg_ipv6 :: Ipv6Config
  cg_dns_mapping :: DnsMappingConfig
  cg_persistence :: PersistencePolicy
  cg_forwarding :: ForwardingConfig
  cg_service :: ServiceConfig

section \<open>Default values\<close>

definition UDP_IDLE_TIMEOUT_MS :: nat where "UDP_IDLE_TIMEOUT_MS = 30000"
definition DEFAULT_TCP_MAX_SESSIONS :: nat where "DEFAULT_TCP_MAX_SESSIONS = 1024"
definition DEFAULT_UDP_MAX_SESSIONS :: nat where "DEFAULT_UDP_MAX_SESSIONS = 1024"
definition DEFAULT_SOCKS5_MAX_SESSIONS :: nat where "DEFAULT_SOCKS5_MAX_SESSIONS = 1024"
definition DEFAULT_DNS_MAX_SESSIONS :: nat where "DEFAULT_DNS_MAX_SESSIONS = 256"

abbreviation v4_socket :: "bytes \<Rightarrow> u16 \<Rightarrow> SocketAddr" where
  "v4_socket octets port \<equiv> mk_sockaddr (V4 (v4_from_octets octets)) port"

definition DnsRelayConfig_default :: DnsRelayConfig where
  "DnsRelayConfig_default = \<lparr>dl_bind = v4_socket [127, 0, 0, 1] 1053, dl_max_sessions = DEFAULT_DNS_MAX_SESSIONS\<rparr>"

definition TcpRelayConfig_default :: TcpRelayConfig where
  "TcpRelayConfig_default =
     \<lparr>tl_bind = v4_socket [127, 0, 0, 1] 18080, tl_upstream = v4_socket [93, 184, 216, 34] 80,
      tl_max_sessions = DEFAULT_TCP_MAX_SESSIONS\<rparr>"

definition UdpRelayConfig_default :: UdpRelayConfig where
  "UdpRelayConfig_default =
     \<lparr>ul_bind = v4_socket [127, 0, 0, 1] 18443, ul_upstream = v4_socket [1, 1, 1, 1] 443,
      ul_idle_timeout_ms = UDP_IDLE_TIMEOUT_MS, ul_max_sessions = DEFAULT_UDP_MAX_SESSIONS\<rparr>"

definition Socks5IngressConfig_default :: Socks5IngressConfig where
  "Socks5IngressConfig_default =
     \<lparr>s5_bind = v4_socket [127, 0, 0, 1] 11080, s5_udp_advertise_ip = None,
      s5_idle_timeout_ms = UDP_IDLE_TIMEOUT_MS, s5_max_sessions = DEFAULT_SOCKS5_MAX_SESSIONS\<rparr>"

definition TunCaptureConfig_default :: TunCaptureConfig where
  "TunCaptureConfig_default =
     \<lparr>tu_enabled = False, tu_interface = ''dynet0'', tu_tcp_idle_timeout_ms = 2000, tu_udp_idle_timeout_ms = 2000,
      tu_udp_response_timeout_ms = 1500\<rparr>"

definition DnsMappingConfig_default :: DnsMappingConfig where
  "DnsMappingConfig_default = \<lparr>dm_interface = None, dm_source_port = 53\<rparr>"

definition PersistencePolicy_default :: PersistencePolicy where
  "PersistencePolicy_default = \<lparr>pp_retention_ms = 24 * 60 * 60 * 1000, pp_max_bytes = 64 * 1024 * 1024\<rparr>"

definition ServiceConfig_default :: ServiceConfig where
  "ServiceConfig_default =
     \<lparr>sv_manager = Auto, sv_user = ''dynet'', sv_runtime_database = ''dynet.sqlite'', sv_environment_file = None\<rparr>"

definition ForwardingConfig_default :: ForwardingConfig where
  "ForwardingConfig_default =
     \<lparr>fc_seed = RuntimeSeed_single_node ''direct'', fc_execution_nodes = bt_insert ''default-node'' NodeDirect []\<rparr>"

definition Config_default :: Config where
  "Config_default =
     \<lparr>cg_control = \<lparr>co_bind = v4_socket [127, 0, 0, 1] 9977\<rparr>,
      cg_ingress = \<lparr>in_dns = DnsRelayConfig_default, in_tcp = TcpRelayConfig_default, in_udp = UdpRelayConfig_default,
        in_socks5 = Socks5IngressConfig_default\<rparr>,
      cg_capture = \<lparr>ca_tun = TunCaptureConfig_default,
        ca_router_ingress = \<lparr>ri_interface = None, ri_ipv4_sources = [], ri_ipv6_sources = []\<rparr>\<rparr>,
      cg_ipv6 = \<lparr>i6_enabled = False\<rparr>, cg_dns_mapping = DnsMappingConfig_default,
      cg_persistence = PersistencePolicy_default, cg_forwarding = ForwardingConfig_default, cg_service = ServiceConfig_default\<rparr>"

text \<open>The seed follows the setting for IPv6.\<close>

definition sync_runtime_policy :: "Config \<Rightarrow> Config" where
  "sync_runtime_policy config =
     config\<lparr>cg_forwarding := (cg_forwarding config)
       \<lparr>fc_seed := (fc_seed (cg_forwarding config))\<lparr>rs_ipv6_enabled := i6_enabled (cg_ipv6 config)\<rparr>\<rparr>\<rparr>"

section \<open>The plan (\<open>reload.rs\<close>)\<close>

datatype ReloadDisposition = PlanNoop | PlanApply | PlanRestartRequired

record ReloadPlan =
  rp_disposition :: ReloadDisposition
  rp_changed_fields :: "string list"
  rp_restart_required_fields :: "string list"

definition ReloadPlan_new :: "string list \<Rightarrow> string list \<Rightarrow> ReloadPlan" where
  "ReloadPlan_new changed_fields restart_required_fields =
     \<lparr>rp_disposition =
        (if changed_fields = [] then PlanNoop else if restart_required_fields = [] then PlanApply else PlanRestartRequired),
      rp_changed_fields = changed_fields, rp_restart_required_fields = restart_required_fields\<rparr>"

text \<open>The two vectors of the code are threaded through the calls as a pair.\<close>

definition hot_field :: "string \<Rightarrow> bool \<Rightarrow> string list \<times> string list \<Rightarrow> string list \<times> string list" where
  "hot_field name differs = (\<lambda>(changed, restart). if differs then (changed @ [name], restart) else (changed, restart))"

definition restart_field :: "string \<Rightarrow> bool \<Rightarrow> string list \<times> string list \<Rightarrow> string list \<times> string list" where
  "restart_field name differs = (\<lambda>(changed, restart). if differs then (changed @ [name], restart @ [name]) else (changed, restart))"

definition restart_checks :: "Config \<Rightarrow> Config \<Rightarrow> (string \<times> bool) list" where
  "restart_checks current nxt =
     [(''control.bind'', co_bind (cg_control current) \<noteq> co_bind (cg_control nxt)),
      (''ingress.dns.bind'', dl_bind (in_dns (cg_ingress current)) \<noteq> dl_bind (in_dns (cg_ingress nxt))),
      (''ingress.dns.max_sessions'', dl_max_sessions (in_dns (cg_ingress current)) \<noteq> dl_max_sessions (in_dns (cg_ingress nxt))),
      (''ingress.tcp.bind'', tl_bind (in_tcp (cg_ingress current)) \<noteq> tl_bind (in_tcp (cg_ingress nxt))),
      (''ingress.tcp.upstream'', tl_upstream (in_tcp (cg_ingress current)) \<noteq> tl_upstream (in_tcp (cg_ingress nxt))),
      (''ingress.tcp.max_sessions'', tl_max_sessions (in_tcp (cg_ingress current)) \<noteq> tl_max_sessions (in_tcp (cg_ingress nxt))),
      (''ingress.udp.bind'', ul_bind (in_udp (cg_ingress current)) \<noteq> ul_bind (in_udp (cg_ingress nxt))),
      (''ingress.udp.upstream'', ul_upstream (in_udp (cg_ingress current)) \<noteq> ul_upstream (in_udp (cg_ingress nxt))),
      (''ingress.udp.idle_timeout'', ul_idle_timeout_ms (in_udp (cg_ingress current)) \<noteq> ul_idle_timeout_ms (in_udp (cg_ingress nxt))),
      (''ingress.udp.max_sessions'', ul_max_sessions (in_udp (cg_ingress current)) \<noteq> ul_max_sessions (in_udp (cg_ingress nxt))),
      (''ingress.socks5.bind'', s5_bind (in_socks5 (cg_ingress current)) \<noteq> s5_bind (in_socks5 (cg_ingress nxt))),
      (''ingress.socks5.udp_advertise_ip'',
         s5_udp_advertise_ip (in_socks5 (cg_ingress current)) \<noteq> s5_udp_advertise_ip (in_socks5 (cg_ingress nxt))),
      (''ingress.socks5.idle_timeout'',
         s5_idle_timeout_ms (in_socks5 (cg_ingress current)) \<noteq> s5_idle_timeout_ms (in_socks5 (cg_ingress nxt))),
      (''ingress.socks5.max_sessions'',
         s5_max_sessions (in_socks5 (cg_ingress current)) \<noteq> s5_max_sessions (in_socks5 (cg_ingress nxt))),
      (''capture.tun.enabled'', tu_enabled (ca_tun (cg_capture current)) \<noteq> tu_enabled (ca_tun (cg_capture nxt))),
      (''capture.tun.interface'', tu_interface (ca_tun (cg_capture current)) \<noteq> tu_interface (ca_tun (cg_capture nxt))),
      (''capture.router_ingress'', ca_router_ingress (cg_capture current) \<noteq> ca_router_ingress (cg_capture nxt)),
      (''ipv6.enabled'', i6_enabled (cg_ipv6 current) \<noteq> i6_enabled (cg_ipv6 nxt)),
      (''dns_mapping'', cg_dns_mapping current \<noteq> cg_dns_mapping nxt),
      (''persistence'', cg_persistence current \<noteq> cg_persistence nxt),
      (''service'', cg_service current \<noteq> cg_service nxt)]"

definition hot_checks :: "Config \<Rightarrow> Config \<Rightarrow> (string \<times> bool) list" where
  "hot_checks current nxt =
     [(''capture.tun.tcp_idle_timeout'',
         tu_tcp_idle_timeout_ms (ca_tun (cg_capture current)) \<noteq> tu_tcp_idle_timeout_ms (ca_tun (cg_capture nxt))),
      (''capture.tun.udp_idle_timeout'',
         tu_udp_idle_timeout_ms (ca_tun (cg_capture current)) \<noteq> tu_udp_idle_timeout_ms (ca_tun (cg_capture nxt))),
      (''capture.tun.udp_response_timeout'',
         tu_udp_response_timeout_ms (ca_tun (cg_capture current)) \<noteq> tu_udp_response_timeout_ms (ca_tun (cg_capture nxt))),
      (''forwarding'', cg_forwarding current \<noteq> cg_forwarding nxt)]"

definition plan_reload :: "Config \<Rightarrow> Config \<Rightarrow> ReloadPlan" where
  "plan_reload current nxt =
     (let (changed, restart) = fold (\<lambda>(name, differs). restart_field name differs) (restart_checks current nxt) ([], []);
          (changed, restart) = fold (\<lambda>(name, differs). hot_field name differs) (hot_checks current nxt) (changed, restart)
      in ReloadPlan_new changed restart)"

section \<open>What a plan finds\<close>

lemma fold_restart_fields:
  "fold (\<lambda>(name, differs). restart_field name differs) cs (changed, restart) =
    (changed @ map fst (filter snd cs), restart @ map fst (filter snd cs))"
  by (induction cs arbitrary: changed restart) (auto simp: restart_field_def)

lemma fold_hot_fields:
  "fold (\<lambda>(name, differs). hot_field name differs) cs (changed, restart) = (changed @ map fst (filter snd cs), restart)"
  by (induction cs arbitrary: changed restart) (auto simp: hot_field_def)

lemma plan_reload_fields:
  "plan_reload current nxt =
    ReloadPlan_new (map fst (filter snd (restart_checks current nxt @ hot_checks current nxt)))
      (map fst (filter snd (restart_checks current nxt)))"
  by (simp add: plan_reload_def fold_restart_fields fold_hot_fields)

text \<open>The fields a running process can take over: the timeouts of the capture device and the forwarding tables.\<close>

definition with_hot_fields :: "Config \<Rightarrow> Config \<Rightarrow> Config" where
  "with_hot_fields current nxt =
     current\<lparr>cg_capture := (cg_capture current)\<lparr>ca_tun := (ca_tun (cg_capture current))
         \<lparr>tu_tcp_idle_timeout_ms := tu_tcp_idle_timeout_ms (ca_tun (cg_capture nxt)),
          tu_udp_idle_timeout_ms := tu_udp_idle_timeout_ms (ca_tun (cg_capture nxt)),
          tu_udp_response_timeout_ms := tu_udp_response_timeout_ms (ca_tun (cg_capture nxt))\<rparr>\<rparr>,
       cg_forwarding := cg_forwarding nxt\<rparr>"

text \<open>Records are equal when their fields are.\<close>

lemma Config_eq_iff: "(c :: Config) = d \<longleftrightarrow> cg_control c = cg_control d \<and> cg_ingress c = cg_ingress d \<and> cg_capture c = cg_capture d \<and> cg_ipv6 c = cg_ipv6 d \<and>
    cg_dns_mapping c = cg_dns_mapping d \<and> cg_persistence c = cg_persistence d \<and> cg_forwarding c = cg_forwarding d \<and> cg_service c = cg_service d"
  by (cases c; cases d) simp

lemma CaptureConfig_eq_iff: "(c :: CaptureConfig) = d \<longleftrightarrow> ca_tun c = ca_tun d \<and> ca_router_ingress c = ca_router_ingress d"
  by (cases c; cases d) simp

lemma TunCaptureConfig_eq_iff: "(c :: TunCaptureConfig) = d \<longleftrightarrow> tu_enabled c = tu_enabled d \<and> tu_interface c = tu_interface d \<and>
    tu_tcp_idle_timeout_ms c = tu_tcp_idle_timeout_ms d \<and> tu_udp_idle_timeout_ms c = tu_udp_idle_timeout_ms d \<and> tu_udp_response_timeout_ms c = tu_udp_response_timeout_ms d"
  by (cases c; cases d) simp

lemma ControlConfig_eq_iff: "(c :: ControlConfig) = d \<longleftrightarrow> co_bind c = co_bind d"
  by (cases c; cases d) simp

lemma IngressConfig_eq_iff: "(c :: IngressConfig) = d \<longleftrightarrow> in_dns c = in_dns d \<and> in_tcp c = in_tcp d \<and> in_udp c = in_udp d \<and> in_socks5 c = in_socks5 d"
  by (cases c; cases d) simp

lemma DnsRelayConfig_eq_iff: "(c :: DnsRelayConfig) = d \<longleftrightarrow> dl_bind c = dl_bind d \<and> dl_max_sessions c = dl_max_sessions d"
  by (cases c; cases d) simp

lemma TcpRelayConfig_eq_iff: "(c :: TcpRelayConfig) = d \<longleftrightarrow> tl_bind c = tl_bind d \<and> tl_upstream c = tl_upstream d \<and> tl_max_sessions c = tl_max_sessions d"
  by (cases c; cases d) simp

lemma UdpRelayConfig_eq_iff: "(c :: UdpRelayConfig) = d \<longleftrightarrow> ul_bind c = ul_bind d \<and> ul_upstream c = ul_upstream d \<and> ul_idle_timeout_ms c = ul_idle_timeout_ms d \<and> ul_max_sessions c = ul_max_sessions d"
  by (cases c; cases d) simp

lemma Socks5IngressConfig_eq_iff: "(c :: Socks5IngressConfig) = d \<longleftrightarrow> s5_bind c = s5_bind d \<and> s5_udp_advertise_ip c = s5_udp_advertise_ip d \<and> s5_idle_timeout_ms c = s5_idle_timeout_ms d \<and> s5_max_sessions c = s5_max_sessions d"
  by (cases c; cases d) simp

lemma Ipv6Config_eq_iff: "(c :: Ipv6Config) = d \<longleftrightarrow> i6_enabled c = i6_enabled d"
  by (cases c; cases d) simp

lemmas config_eq_iffs = Config_eq_iff CaptureConfig_eq_iff TunCaptureConfig_eq_iff ControlConfig_eq_iff IngressConfig_eq_iff
  DnsRelayConfig_eq_iff TcpRelayConfig_eq_iff UdpRelayConfig_eq_iff Socks5IngressConfig_eq_iff Ipv6Config_eq_iff

lemma no_restart_checks_iff: "filter snd (restart_checks current nxt) = [] \<longleftrightarrow> with_hot_fields current nxt = nxt"
  by (simp add: restart_checks_def with_hot_fields_def config_eq_iffs)

lemma no_hot_checks_iff: "filter snd (hot_checks current nxt) = [] \<longleftrightarrow> with_hot_fields current nxt = current"
  by (simp add: hot_checks_def with_hot_fields_def config_eq_iffs)

text \<open>
  C26. The plan misses nothing: it is a no-op exactly when the two configurations are equal, it can be applied exactly when they
  differ in the hot fields only, and it asks for a restart in all other cases. The restart fields are among the changed ones.
\<close>

theorem plan_reload_complete:
  "(rp_disposition (plan_reload current nxt) = PlanNoop \<longleftrightarrow> current = nxt) \<and>
   (rp_disposition (plan_reload current nxt) = PlanApply \<longleftrightarrow> current \<noteq> nxt \<and> with_hot_fields current nxt = nxt) \<and>
   set (rp_restart_required_fields (plan_reload current nxt)) \<subseteq> set (rp_changed_fields (plan_reload current nxt))"
proof -
  have "with_hot_fields current nxt = nxt \<and> with_hot_fields current nxt = current \<longleftrightarrow> current = nxt"
    by (auto simp: with_hot_fields_def)
  then show ?thesis
    unfolding plan_reload_fields
    by (auto simp: ReloadPlan_new_def no_restart_checks_iff no_hot_checks_iff)
qed

end
