(* ===== verification/Reload_Coordinator.thy ===== *)
theory Reload_Coordinator
  imports Config_Reload
begin

text \<open>
  The coordinator of reloads, \<open>dynet-cli/src/runtime_reload.rs\<close>, over the plan of \<open>Config_Reload\<close>, the runtime of \<open>Runtime_State\<close>, the egress
  generations of \<open>Egress_Graph\<close> and the audit trail of \<open>Config_Audit\<close>, with \<open>replace_bootstrap\<close> of
  \<open>dynet-runtime/src/persistence/bootstrap.rs\<close>. The mutex of the current configuration makes a reload one step, except that other tasks use the
  runtime while the store is written: the runtime they leave behind is an argument.
\<close>

section \<open>State\<close>

text \<open>The seed in the tables of the store. A transaction of the database fails or commits as a whole.\<close>

type_synonym StoredSeed = RuntimeSeed

definition replace_bootstrap :: "bool \<Rightarrow> RuntimeSeed \<Rightarrow> StoredSeed \<Rightarrow> bool \<times> StoredSeed" where
  "replace_bootstrap db_fails seed stored =
     (case validate_seed seed of
        Inl _ \<Rightarrow> (False, stored)
      | Inr _ \<Rightarrow> if db_fails then (False, stored) else (True, seed))"

record RuntimeReload =
  rr_current :: Config
  rr_runtime :: RuntimeState
  rr_store :: StoredSeed
  rr_egress :: ReloadableEgress
  rr_tun :: TunCaptureConfig
  rr_audit :: RuntimeConfigAudit

datatype ReloadResult =
    ResultApplied u64 "string list"
  | ResultNoop u64
  | ResultRestartRequired u64 "string list"
  | ResultInvalid u64
  | ResultFailed u64

definition config_source :: "string option \<Rightarrow> string" where
  "config_source path =
     (case path of None \<Rightarrow> ''dynet.toml (default) + inherited environment'' | Some p \<Rightarrow> p @ '' + inherited environment'')"

text \<open>What a reload takes from outside: the clients' primitives, the fingerprint of a configuration, and the clock.\<close>

record ReloadEnv =
  re_primitives :: Primitives
  re_base64 :: "string \<Rightarrow> bytes option"
  re_fingerprint :: "Config \<Rightarrow> string"
  re_now :: u128

definition RuntimeReload_new ::
    "ReloadEnv \<Rightarrow> Config \<Rightarrow> string option \<Rightarrow> RuntimeState \<Rightarrow> StoredSeed \<Rightarrow> (string + RuntimeReload) option" where
  "RuntimeReload_new env config config_path runtime store =
     map_option (map_sum id (\<lambda>egress.
         \<lparr>rr_current = config, rr_runtime = runtime, rr_store = store, rr_egress = egress, rr_tun = ca_tun (cg_capture config),
          rr_audit = audit_new (generation runtime) (re_fingerprint env config) (config_source config_path) (re_now env)\<rparr>))
       (reloadable_new (re_primitives env) (re_base64 env) (generation runtime) (fc_execution_nodes (cg_forwarding config)))"

section \<open>Operations\<close>

definition reload_failed :: "ReloadEnv \<Rightarrow> ConfigReloadTrigger \<Rightarrow> RuntimeReload \<Rightarrow> ReloadResult \<times> RuntimeReload" where
  "reload_failed env trigger r =
     (ResultFailed (generation (rr_runtime r)), r\<lparr>rr_audit := record_failed trigger (re_now env) (rr_audit r)\<rparr>)"

text \<open>
  \<open>during\<close> is the runtime after the store has answered; \<open>write_fails\<close> and \<open>undo_fails\<close> say whether the database fails in the two
  transactions. \<open>None\<close> is a key derivation of a Shadowsocks client that does not return.
\<close>

definition apply_candidate ::
    "ReloadEnv \<Rightarrow> bool \<Rightarrow> bool \<Rightarrow> RuntimeState \<Rightarrow> Config \<Rightarrow> string \<Rightarrow> string list \<Rightarrow> ConfigReloadTrigger \<Rightarrow> RuntimeReload \<Rightarrow>
      (ReloadResult \<times> RuntimeReload) option" where
  "apply_candidate env write_fails undo_fails during candidate fingerprint changed trigger r =
     (let prepared = prepare_reconfigure (rr_runtime r) (fc_seed (cg_forwarding candidate));
          gen = rg_generation (rc_routing prepared)
      in case install (re_primitives env) (re_base64 env) gen (fc_execution_nodes (cg_forwarding candidate)) (rr_egress r) of
           None \<Rightarrow> None
         | Some (Inl _, egress) \<Rightarrow> Some (reload_failed env trigger (r\<lparr>rr_egress := egress\<rparr>))
         | Some (Inr _, egress) \<Rightarrow>
             (let previous_seed = fc_seed (cg_forwarding (rr_current r));
                  (stored, store) = replace_bootstrap write_fails (fc_seed (cg_forwarding candidate)) (rr_store r);
                  r1 = r\<lparr>rr_egress := egress, rr_store := store, rr_runtime := during\<rparr>
              in if \<not> stored then Some (reload_failed env trigger (r1\<lparr>rr_egress := reloadable_remove gen egress\<rparr>))
                 else (case commit_reconfigure prepared during of
                         (Inl _, runtime) \<Rightarrow>
                           Some (reload_failed env trigger
                             (r1\<lparr>rr_runtime := runtime, rr_egress := reloadable_remove gen egress,
                                 rr_store := snd (replace_bootstrap undo_fails previous_seed store)\<rparr>))
                       | (Inr _, runtime) \<Rightarrow>
                           Some (ResultApplied gen changed,
                             r1\<lparr>rr_runtime := runtime, rr_tun := ca_tun (cg_capture candidate), rr_current := candidate,
                                rr_audit := record_applied trigger gen fingerprint changed (re_now env) (rr_audit r1)\<rparr>))))"

text \<open>The candidate is what \<open>Config::from_config_path\<close> gives.\<close>

definition reload ::
    "ReloadEnv \<Rightarrow> bool \<Rightarrow> bool \<Rightarrow> RuntimeState \<Rightarrow> string + Config \<Rightarrow> ConfigReloadTrigger \<Rightarrow> RuntimeReload \<Rightarrow>
      (ReloadResult \<times> RuntimeReload) option" where
  "reload env write_fails undo_fails during loaded trigger r =
     (let gen = generation (rr_runtime r) in
      case loaded of
        Inl _ \<Rightarrow> Some (ResultInvalid gen, r\<lparr>rr_audit := record_invalid trigger (re_now env) (rr_audit r)\<rparr>)
      | Inr candidate \<Rightarrow>
          (let fingerprint = re_fingerprint env candidate; plan = plan_reload (rr_current r) candidate in
           case rp_disposition plan of
             PlanNoop \<Rightarrow>
               Some (ResultNoop gen, r\<lparr>rr_audit := record_noop trigger fingerprint (re_now env) (rr_audit r)\<rparr>)
           | PlanRestartRequired \<Rightarrow>
               Some (ResultRestartRequired gen (rp_restart_required_fields plan),
                 r\<lparr>rr_audit := record_restart_required trigger fingerprint (rp_changed_fields plan)
                    (rp_restart_required_fields plan) (re_now env) (rr_audit r)\<rparr>)
           | PlanApply \<Rightarrow>
               apply_candidate env write_fails undo_fails during candidate fingerprint (rp_changed_fields plan) trigger r))"

section \<open>All parts stay together\<close>

text \<open>
  The configuration that is current is the one everywhere: the routing table is that of its seed, the store holds its seed, the
  capture device has its settings, the audit trail names its generation, and the egress has the graph of its
  nodes under that generation; older graphs belong to smaller generations, and at most eight are kept.
\<close>

definition coordinated :: "Primitives \<Rightarrow> (string \<Rightarrow> bytes option) \<Rightarrow> RuntimeReload \<Rightarrow> bool" where
  "coordinated pm b64 r \<longleftrightarrow>
     (let gen = generation (rr_runtime r); forwarding = cg_forwarding (rr_current r) in
      rt_routing (rr_runtime r) = routing_from_seed gen (fc_seed forwarding) \<and>
      rr_store r = fc_seed forwarding \<and>
      rr_tun r = ca_tun (cg_capture (rr_current r)) \<and>
      cs_generation (rca_status (rr_audit r)) = gen \<and>
      (\<exists>graph. graph_for (rr_egress r) gen = Ok graph \<and> GraphEgress_try_from pm b64 (fc_execution_nodes forwarding) = Some (Ok graph)) \<and>
      bt_wf (rr_egress r) \<and> length (rr_egress r) \<le> RETAINED_GENERATIONS \<and> (\<forall>k\<in>fst ` set (rr_egress r). k \<le> gen))"

text \<open>
  Other tasks select, record events and resolve names, but do not touch the routing table. A reload is considered while the
  generation, a 64-bit counter, does not wrap.
\<close>

inductive coordinator :: "Primitives \<Rightarrow> (string \<Rightarrow> bytes option) \<Rightarrow> RuntimeReload \<Rightarrow> bool" for pm b64 where
  start: "RuntimeReload_new env config path runtime store = Some (Ok r) \<Longrightarrow> re_primitives env = pm \<Longrightarrow> re_base64 env = b64 \<Longrightarrow>
    rt_routing runtime = routing_from_seed (generation runtime) (fc_seed (cg_forwarding config)) \<Longrightarrow>
    store = fc_seed (cg_forwarding config) \<Longrightarrow> coordinator pm b64 r"
| use: "coordinator pm b64 r \<Longrightarrow> rt_routing runtime = rt_routing (rr_runtime r) \<Longrightarrow> coordinator pm b64 (r\<lparr>rr_runtime := runtime\<rparr>)"
| attempt: "coordinator pm b64 r \<Longrightarrow> re_primitives env = pm \<Longrightarrow> re_base64 env = b64 \<Longrightarrow>
    rt_routing during = rt_routing (rr_runtime r) \<Longrightarrow> generation (rr_runtime r) \<noteq> - 1 \<Longrightarrow>
    reload env write_fails undo_fails during loaded trigger r = Some (result, r') \<Longrightarrow> coordinator pm b64 r'"

lemma generation_routing: "rt_routing st = rt_routing st' \<Longrightarrow> generation st = generation st'"
  by (simp add: generation_def)

lemma audit_generation [simp]:
  "cs_generation (rca_status (record_failed trigger now a)) = cs_generation (rca_status a)"
  "cs_generation (rca_status (record_invalid trigger now a)) = cs_generation (rca_status a)"
  "cs_generation (rca_status (record_noop trigger fp now a)) = cs_generation (rca_status a)"
  "cs_generation (rca_status (record_restart_required trigger fp changed restart now a)) = cs_generation (rca_status a)"
  "cs_generation (rca_status (record_applied trigger gen fp changed now a)) = gen"
  by (simp_all add: record_failed_def record_invalid_def record_noop_def record_restart_required_def record_applied_def
    record_unchanged_def audit_push_def Let_def)

lemma coordinated_audit [simp]:
  "cs_generation (rca_status a) = cs_generation (rca_status (rr_audit r)) \<Longrightarrow>
    coordinated pm b64 (r\<lparr>rr_audit := a\<rparr>) \<longleftrightarrow> coordinated pm b64 r"
  by (simp add: coordinated_def)

lemma less_next_generation: "(g :: u64) \<noteq> - 1 \<Longrightarrow> k \<le> g \<Longrightarrow> k < g + 1"
  using unatSuc [of g] by (simp add: word_less_nat_alt word_le_nat_alt add.commute add_eq_0_iff)

lemma newest_kept:
  assumes "bt_wf e" "bt_get e g = Some v" "\<forall>k\<in>fst ` set e. k \<le> g" "n < length e"
  shows "bt_get (drop n e) g = Some v"
proof -
  have mem: "(g, v) \<in> set e" using assms(1,2) by (simp add: bt_get_Some_iff)
  obtain xs k w where e: "e = xs @ [(k, w)]" using assms(4) by (cases e rule: rev_cases) auto
  have "\<forall>p\<in>set xs. fst p < k" using assms(1) by (auto simp: e bt_wf_def sorted_wrt_append)
  moreover have "k \<le> g" using assms(3) by (simp add: e)
  ultimately have "(g, v) = (k, w)" using mem by (force simp: e)
  then have "(g, v) \<in> set (drop n e)" using assms(4) by (simp add: e)
  moreover have "bt_wf (drop n e)" using assms(1) by (simp add: bt_wf_def drop_map [symmetric] sorted_wrt_drop)
  ultimately show ?thesis by (simp add: bt_get_Some_iff)
qed

lemma remove_installed:
  assumes "\<forall>k\<in>fst ` set e. k < g" "n \<le> length e"
  shows "reloadable_remove g (drop n (e @ [(g, graph)])) = drop n e"
proof -
  have "filter (\<lambda>(k', _). k' \<noteq> g) (drop n e) = drop n e"
    using assms(1) by (auto simp: filter_id_conv dest!: in_set_dropD)
  with assms(2) show ?thesis by (simp add: reloadable_remove_def bt_remove_def)
qed

text \<open>The graph under the current generation survives an attempt that fails after its installation.\<close>

lemma coordinated_less_graphs:
  assumes "coordinated pm b64 r" "n < length (rr_egress r)"
  shows "coordinated pm b64 (r\<lparr>rr_egress := drop n (rr_egress r)\<rparr>)"
  using assms newest_kept [of "rr_egress r" "generation (rr_runtime r)" _ n]
  by (auto simp: coordinated_def Let_def graph_for_def bt_wf_def drop_map [symmetric] sorted_wrt_drop dest!: in_set_dropD)

lemma coordinated_nonempty: "coordinated pm b64 r \<Longrightarrow> rr_egress r \<noteq> []"
  by (auto simp: coordinated_def Let_def graph_for_def bt_get_def)

lemma coordinated_use:
  "coordinated pm b64 r \<Longrightarrow> rt_routing runtime = rt_routing (rr_runtime r) \<Longrightarrow> coordinated pm b64 (r\<lparr>rr_runtime := runtime\<rparr>)"
  using generation_routing [of runtime "rr_runtime r"] by (simp add: coordinated_def)

lemma coordinated_start:
  assumes "RuntimeReload_new env config path runtime store = Some (Ok r)"
    "rt_routing runtime = routing_from_seed (generation runtime) (fc_seed (cg_forwarding config))"
    "store = fc_seed (cg_forwarding config)"
  shows "coordinated (re_primitives env) (re_base64 env) r"
proof (cases "GraphEgress_try_from (re_primitives env) (re_base64 env) (fc_execution_nodes (cg_forwarding config))")
  case (Some built)
  with assms show ?thesis
    by (cases built) (auto simp: RuntimeReload_new_def reloadable_new_def coordinated_def Let_def graph_for_def bt_get_def
      audit_new_def RETAINED_GENERATIONS_def)
qed (use assms in \<open>simp add: RuntimeReload_new_def reloadable_new_def\<close>)

lemma commit_prepared:
  assumes "generation during = generation st"
  shows "commit_reconfigure (prepare_reconfigure st seed) during =
    (Ok (generation st + 1), during\<lparr>rt_routing := routing_from_seed (generation st + 1) seed\<rparr>)"
  using assms by (simp add: commit_reconfigure_def prepare_reconfigure_def routing_from_seed_def)

lemma replace_bootstrap_cases:
  "replace_bootstrap fails seed stored = (False, stored) \<or> replace_bootstrap fails seed stored = (True, seed)"
  by (auto simp: replace_bootstrap_def split: sum.splits)

lemma coordinated_applied:
  assumes "bt_wf e" "\<forall>k\<in>fst ` set e. k < gen" "length e \<le> RETAINED_GENERATIONS" "n = Suc (length e) - RETAINED_GENERATIONS"
    "n < length e" "GraphEgress_try_from pm b64 (fc_execution_nodes (cg_forwarding candidate)) = Some (Ok graph)"
    "cs_generation (rca_status audit) = gen"
  shows "coordinated pm b64 (r\<lparr>rr_egress := drop n (e @ [(gen, graph)]), rr_store := fc_seed (cg_forwarding candidate),
    rr_runtime := during\<lparr>rt_routing := routing_from_seed gen (fc_seed (cg_forwarding candidate))\<rparr>,
    rr_tun := ca_tun (cg_capture candidate), rr_current := candidate, rr_audit := audit\<rparr>)"
proof -
  let ?e = "e @ [(gen, graph)]"
  have gen: "generation (during\<lparr>rt_routing := routing_from_seed gen (fc_seed (cg_forwarding candidate))\<rparr>) = gen"
    by (simp add: generation_def routing_from_seed_def)
  have wf: "bt_wf ?e" using assms(1,2) by (auto simp: bt_wf_def sorted_wrt_append)
  have keys: "\<forall>k\<in>fst ` set ?e. k \<le> gen" using assms(2) by auto
  have "bt_get ?e gen = Some graph" using wf by (simp add: bt_get_Some_iff)
  then have "bt_get (drop n ?e) gen = Some graph" using newest_kept [OF wf _ keys] assms(5) by simp
  moreover have "bt_wf (drop n ?e)" using wf by (simp only: bt_wf_def drop_map [symmetric] sorted_wrt_drop)
  moreover have "\<forall>k\<in>fst ` set (drop n ?e). k \<le> gen" using keys by (auto dest!: in_set_dropD simp del: drop_append)
  ultimately show ?thesis
    using assms(3,4,6,7) by (simp add: coordinated_def gen graph_for_def del: drop_append)
qed

lemma coordinated_apply:
  assumes inv: "coordinated pm b64 r" and env: "re_primitives env = pm" "re_base64 env = b64"
    and during: "rt_routing during = rt_routing (rr_runtime r)" and gen: "generation (rr_runtime r) \<noteq> - 1"
    and result: "apply_candidate env write_fails undo_fails during candidate fingerprint changed trigger r = Some (result, r')"
  shows "coordinated pm b64 r'"
proof -
  let ?gen = "generation (rr_runtime r) + 1" and ?e = "rr_egress r"
  let ?nodes = "fc_execution_nodes (cg_forwarding candidate)" and ?seed = "fc_seed (cg_forwarding candidate)"
  let ?n = "Suc (length ?e) - RETAINED_GENERATIONS"
  have newest: "\<forall>k\<in>fst ` set ?e. k < ?gen" and wf: "bt_wf ?e" and len: "length ?e \<le> RETAINED_GENERATIONS"
    using inv gen less_next_generation by (auto simp: coordinated_def Let_def)
  have n: "?n < length ?e" using coordinated_nonempty [OF inv] len by (cases ?e) (auto simp: RETAINED_GENERATIONS_def)
  have same: "generation during = generation (rr_runtime r)" using during by (rule generation_routing)
  have prepared: "rg_generation (rc_routing (prepare_reconfigure (rr_runtime r) ?seed)) = ?gen"
    by (simp add: prepare_reconfigure_def routing_from_seed_def)
  consider (refused) e where "GraphEgress_try_from pm b64 ?nodes = Some (Err e)"
    | (built) graph where "GraphEgress_try_from pm b64 ?nodes = Some (Ok graph)"
    using result env by (cases "GraphEgress_try_from pm b64 ?nodes") (auto simp: apply_candidate_def install_def Let_def split: sum.splits)
  then show ?thesis
  proof cases
    case refused
    with result inv env show ?thesis by (auto simp: apply_candidate_def install_def Let_def reload_failed_def)
  next
    case built
    note installed = install_newest [OF wf newest built]
    have used: "coordinated pm b64 (r\<lparr>rr_runtime := during, rr_egress := drop ?n ?e\<rparr>)"
      using coordinated_less_graphs [OF coordinated_use [OF inv during]] n by simp
    have removed: "reloadable_remove ?gen (drop ?n (?e @ [(?gen, graph)])) = drop ?n ?e"
      using newest n by (intro remove_installed) auto
    from replace_bootstrap_cases [of write_fails ?seed "rr_store r"] show ?thesis
    proof
      assume "replace_bootstrap write_fails ?seed (rr_store r) = (False, rr_store r)"
      with result env have "r' = snd (reload_failed env trigger (r\<lparr>rr_runtime := during, rr_egress := drop ?n ?e\<rparr>))"
        by (auto simp: apply_candidate_def Let_def prepared installed removed reload_failed_def simp del: drop_append)
      with used show ?thesis by (simp add: reload_failed_def)
    next
      assume "replace_bootstrap write_fails ?seed (rr_store r) = (True, ?seed)"
      with result env have r': "r' = r\<lparr>rr_egress := drop ?n (?e @ [(?gen, graph)]), rr_store := ?seed,
          rr_runtime := during\<lparr>rt_routing := routing_from_seed ?gen ?seed\<rparr>, rr_tun := ca_tun (cg_capture candidate), rr_current := candidate,
          rr_audit := record_applied trigger ?gen fingerprint changed (re_now env) (rr_audit r)\<rparr>"
        by (auto simp: apply_candidate_def Let_def prepared installed commit_prepared [OF same] simp del: drop_append)
      show ?thesis unfolding r' by (rule coordinated_applied) (use wf newest len n built in auto)
    qed
  qed
qed

text \<open>A reload that fails is not without effect: when eight generations are kept, the oldest graph is gone afterwards.\<close>

lemma failed_reload_drops_oldest:
  assumes inv: "coordinated (re_primitives env) (re_base64 env) r" and full: "length (rr_egress r) = RETAINED_GENERATIONS"
    and gen: "generation (rr_runtime r) \<noteq> - 1"
    and built: "GraphEgress_try_from (re_primitives env) (re_base64 env) (fc_execution_nodes (cg_forwarding candidate)) = Some (Ok graph)"
  shows "\<exists>r'. apply_candidate env True undo_fails during candidate fingerprint changed trigger r = Some (ResultFailed (generation during), r') \<and>
    rr_egress r' = tl (rr_egress r)"
proof -
  let ?e = "rr_egress r" and ?gen = "generation (rr_runtime r) + 1"
  have newest: "\<forall>k\<in>fst ` set ?e. k < ?gen" and wf: "bt_wf ?e"
    using inv gen less_next_generation by (auto simp: coordinated_def Let_def)
  have prepared: "rg_generation (rc_routing (prepare_reconfigure (rr_runtime r) seed)) = ?gen" for seed
    by (simp add: prepare_reconfigure_def routing_from_seed_def)
  have "reloadable_remove ?gen (drop 1 (?e @ [(?gen, graph)])) = drop 1 ?e"
    using newest full by (intro remove_installed) (auto simp: RETAINED_GENERATIONS_def)
  then show ?thesis
    using install_newest [OF wf newest built] full
    by (auto simp: apply_candidate_def Let_def prepared replace_bootstrap_def reload_failed_def drop_Suc split: sum.splits)
qed

lemma coordinated_reload:
  assumes "coordinated pm b64 r" "re_primitives env = pm" "re_base64 env = b64"
    "rt_routing during = rt_routing (rr_runtime r)" "generation (rr_runtime r) \<noteq> - 1"
    "reload env write_fails undo_fails during loaded trigger r = Some (result, r')"
  shows "coordinated pm b64 r'"
proof (cases loaded)
  case (Inr candidate)
  with assms coordinated_apply show ?thesis
    by (cases "rp_disposition (plan_reload (rr_current r) candidate)") (auto simp: reload_def Let_def)
qed (use assms in \<open>auto simp: reload_def Let_def\<close>)

lemma coordinator_coordinated: "coordinator pm b64 r \<Longrightarrow> coordinated pm b64 r"
  by (induction rule: coordinator.induct) (auto intro: coordinated_start coordinated_use coordinated_reload)

text \<open>
  C4. Whatever sequence of reloads is attempted, with files that do not parse, seeds that are not valid, clients that cannot be built and
  a database that fails, and whatever the rest of the process does in between, all parts of the process keep
  the same configuration: the routing table, the stored seed, the capture settings, the generation in the audit trail and the egress
  graph of the current generation all belong to the current configuration, and a decision of the runtime finds its graph.
\<close>

theorem reload_keeps_parts_together: "coordinator pm b64 r \<Longrightarrow> coordinated pm b64 r"
  by (rule coordinator_coordinated)

section \<open>Decisions reach their media\<close>

lemma select_hop_nodes:
  assumes "fst (select st ctx now now') = Inr d" "rt_routing st = routing_from_seed gen seed"
  shows "sd_config_generation d = generation st \<and> sd_trace d \<noteq> [] \<and>
    (\<forall>hop\<in>set (sd_trace d). \<exists>node\<in>set (rs_nodes seed). fn_id node = th_node_id hop)"
  using assms(1)
proof (rule select_ok)
  fix g selection src
  let ?fam = "IpFamily_from_address (sa_ip (tc_address (sc_target ctx)))" and ?routing = "rt_routing st"
  assume d: "d = decision_of (fst (take_decision_id st)) (generation st) g
       (match_group (rg_routes ?routing) (sc_target ctx)) selection ?fam src"
    and sel: "select_in_group st ctx g ?fam = Inr selection"
  from sel obtain f p t where path: "graph_path (rg_groups ?routing) (rg_nodes ?routing) ?fam f g p t"
    and selection: "selection = finish_selection (map snd p) t"
    unfolding select_in_group_def select_graph_with_def Let_def by (auto dest: select_graph_path)
  have "\<exists>node\<in>set (rs_nodes seed). fn_id node = th_node_id hop" if "(k, hop) \<in> set p" for k hop
  proof -
    have "is_eligible (rg_nodes ?routing) (th_node_id hop) ?fam"
      using graph_path_hops [OF path that] by (auto elim!: select_group_hop_cases simp: eligible_members_def)
    then show ?thesis
      by (auto simp: is_eligible_def assms(2) routing_from_seed_def NodeStore_from_nodes_def dest!: bt_get_collect_Some split: option.splits)
        blast+
  qed
  then show ?thesis
    using graph_path_start [OF path] by (auto simp: d selection)
qed

text \<open>The medium that the configuration of a node is built into.\<close>

definition medium_of :: "Primitives \<Rightarrow> (string \<Rightarrow> bytes option) \<Rightarrow> (string, EgressNodeConfig) btree \<Rightarrow> string \<Rightarrow> EgressMedium option" where
  "medium_of pm b64 nodes node_id = map_option (\<lambda>config. projr (the (EgressMedium_try_from pm b64 config))) (bt_get nodes node_id)"

lemma graph_get_medium:
  assumes "GraphEgress_try_from pm b64 nodes = Some (Ok graph)" "bt_wf nodes"
  shows "bt_get graph node_id = medium_of pm b64 nodes node_id"
proof -
  have "bt_get graph node_id = (case map_of nodes node_id of None \<Rightarrow> bt_get ([] :: GraphEgress) node_id
      | Some config \<Rightarrow> Some (projr (the (EgressMedium_try_from pm b64 config))))"
    using graph_load_get [of pm b64 nodes "[]" graph] assms(1) bt_wf_distinct [OF assms(2)] by (simp add: GraphEgress_try_from_def)
  then show ?thesis by (simp add: medium_of_def bt_get_def split: option.splits)
qed

text \<open>What the media of the hops of a decision do with a session and with an association.\<close>

definition tcp_through_media :: "MediumOps \<Rightarrow> EgressMedium list \<Rightarrow> TcpRelaySession \<Rightarrow> EgressError + TcpRelayOutcome" where
  "tcp_through_media ops media s =
     (if sd_terminal (tr_decision s) \<noteq> TerminalDirect then Err (chained_error ''TCP'')
      else (case media of
         [m] \<Rightarrow> mo_handle_tcp ops m s
       | [head, m] \<Rightarrow> mo_handle_tcp_via_dialer ops m s (the (tcp_dialer head))
       | _ \<Rightarrow> Err (EgressError_new ''egress-select'' None
           (''TCP graph execution supports exactly one dialer hop, got '' @ show_nat (length media) @ '' hops''))))"

definition udp_through_media :: "MediumOps \<Rightarrow> EgressMedium list \<Rightarrow> UdpRelayAssociation \<Rightarrow> EgressError + UdpRelayOutcome" where
  "udp_through_media ops media a =
     (if sd_terminal (ua_decision a) \<noteq> TerminalDirect then Err (chained_error ''UDP'')
      else (case media of
         [m] \<Rightarrow> mo_handle_udp ops m a
       | [head, m] \<Rightarrow>
           (case (head, m) of
              (MediumShadowsocks underlay, MediumShadowsocks final_egress) \<Rightarrow> mo_handle_udp_over_ss ops final_egress a underlay
            | _ \<Rightarrow> handle_udp_with_dialer ops m a (the (tcp_dialer head)))
       | _ \<Rightarrow> Err (chained_error ''UDP'')))"

lemma terminal_kind_direct: "SelectionTerminal_kind t = ''direct'' \<longleftrightarrow> t = TerminalDirect"
  by (cases t) simp_all

lemma tcp_dialer_the: "tcp_dialer m = Some (the (tcp_dialer m))"
  by (cases m) simp_all

lemma list_lengths:
  assumes "xs \<noteq> []"
  obtains (one) x where "xs = [x]" | (two) x y where "xs = [x, y]" | (more) x y z zs where "xs = x # y # z # zs"
  using assms by (metis list.exhaust)

lemma graph_nodes_media:
  assumes media: "map Some media = map (\<lambda>hop. bt_get graph (th_node_id hop)) trace" and "trace \<noteq> []"
  shows "length media = length trace" "media \<noteq> []"
    "egress_for_node graph (th_node_id (hd trace)) = Ok (hd media)" "egress_for_node graph (th_node_id (last trace)) = Ok (last media)"
proof -
  show len: "length media = length trace" using media map_eq_imp_length_eq by blast
  then show ne: "media \<noteq> []" using assms(2) by auto
  have at: "egress_for_node graph (th_node_id (trace ! i)) = Ok (media ! i)" if "i < length trace" for i
    using that arg_cong [OF media, of "\<lambda>xs. xs ! i"] by (simp add: len egress_for_node_def)
  show "egress_for_node graph (th_node_id (hd trace)) = Ok (hd media)" using at [of 0] assms(2) ne by (simp add: hd_conv_nth)
  show "egress_for_node graph (th_node_id (last trace)) = Ok (last media)"
    using at [of "length trace - 1"] assms(2) ne by (simp add: last_conv_nth len)
qed

lemma graph_handle_tcp_media:
  assumes media: "map Some media = map (\<lambda>hop. bt_get graph (th_node_id hop)) (sd_trace (tr_decision s))"
    and "sd_trace (tr_decision s) \<noteq> []"
  shows "graph_handle_tcp ops graph s = tcp_through_media ops media s"
proof -
  note m = graph_nodes_media [OF assms]
  have final: "final_egress_for_decision graph (tr_decision s) = Ok (last media)"
    using m(4) assms(2) by (simp add: final_egress_for_decision_def)
  show ?thesis
  proof (cases "sd_terminal (tr_decision s) = TerminalDirect")
    case True
    show ?thesis
    proof (cases rule: list_lengths [OF m(2)])
      case (2 h n)
      then show ?thesis
        using True final m(1,3) tcp_dialer_the [of h]
        by (simp add: graph_handle_tcp_def tcp_dialer_for_head_def tcp_through_media_def) (metis and_then_simps(2) ok_or_simps(2))
    qed (use True final m(1) in \<open>auto simp: graph_handle_tcp_def tcp_dialer_for_head_def tcp_through_media_def\<close>)
  qed (simp add: graph_handle_tcp_def tcp_through_media_def final terminal_kind_direct)
qed

lemma graph_handle_udp_media:
  assumes media: "map Some media = map (\<lambda>hop. bt_get graph (th_node_id hop)) (sd_trace (ua_decision a))"
    and "sd_trace (ua_decision a) \<noteq> []"
  shows "graph_handle_udp ops graph a = udp_through_media ops media a"
proof -
  note m = graph_nodes_media [OF assms]
  have final: "final_egress_for_decision graph (ua_decision a) = Ok (last media)"
    using m(4) assms(2) by (simp add: final_egress_for_decision_def)
  show ?thesis
  proof (cases "sd_terminal (ua_decision a) = TerminalDirect")
    case True
    show ?thesis
    proof (cases rule: list_lengths [OF m(2)])
      case (2 h n)
      with True m(1,3,4) show ?thesis
        by (cases h; cases n) (simp_all add: graph_handle_udp_def udp_through_media_def)
    qed (use True final m(1) in \<open>auto simp: graph_handle_udp_def udp_through_media_def\<close>)
  qed (simp add: graph_handle_udp_def udp_through_media_def terminal_kind_direct Let_def)
qed

text \<open>
  C5. A decision of the runtime is carried out by the clients of the configuration it was taken under. The media are those built from the
  configurations of the nodes of its hops. When the graph of groups leads to the direct outlet, a TCP session goes to the medium of the last
  hop, dialled through that of the first hop when there are two, and with more hops it is refused; a UDP association
  goes to the medium of a single hop, or with two hops through Shadowsocks in Shadowsocks or over a stream dialled through the first, and with more
  hops it is refused. A decision that ends at a node is refused for both.
\<close>

theorem decisions_reach_their_media:
  assumes "coordinator pm b64 r" "fst (select (rr_runtime r) ctx now now') = Inr d"
    and "bt_wf (fc_execution_nodes (cg_forwarding (rr_current r)))"
    and "\<forall>node\<in>set (rs_nodes (fc_seed (cg_forwarding (rr_current r)))).
      bt_contains (fc_execution_nodes (cg_forwarding (rr_current r))) (fn_id node)"
  shows "\<exists>media.
    map Some media = map (\<lambda>hop. medium_of pm b64 (fc_execution_nodes (cg_forwarding (rr_current r))) (th_node_id hop)) (sd_trace d) \<and>
    (\<forall>s. tr_decision s = d \<longrightarrow> reloadable_handle_tcp ops (rr_egress r) s = tcp_through_media ops media s) \<and>
    (\<forall>a. ua_decision a = d \<longrightarrow> reloadable_handle_udp ops (rr_egress r) a = udp_through_media ops media a)"
proof -
  let ?nodes = "fc_execution_nodes (cg_forwarding (rr_current r))" and ?seed = "fc_seed (cg_forwarding (rr_current r))"
  from coordinator_coordinated [OF assms(1)] obtain graph where
    routing: "rt_routing (rr_runtime r) = routing_from_seed (generation (rr_runtime r)) ?seed"
    and graph: "graph_for (rr_egress r) (generation (rr_runtime r)) = Ok graph" "GraphEgress_try_from pm b64 ?nodes = Some (Ok graph)"
    by (auto simp: coordinated_def Let_def)
  note sel = select_hop_nodes [OF assms(2) routing]
  let ?medium = "\<lambda>hop. medium_of pm b64 ?nodes (th_node_id hop)"
  let ?media = "map (the \<circ> ?medium) (sd_trace d)"
  have "\<forall>hop\<in>set (sd_trace d). ?medium hop \<noteq> None"
    using sel assms(4) by (fastforce simp: medium_of_def bt_contains_def)
  then have media: "map Some ?media = map ?medium (sd_trace d)" by (auto simp: comp_def)
  then have got: "map Some ?media = map (\<lambda>hop. bt_get graph (th_node_id hop)) (sd_trace d)"
    using graph_get_medium [OF graph(2) assms(3)] by simp
  have "reloadable_handle_tcp ops (rr_egress r) s = tcp_through_media ops ?media s" if "tr_decision s = d" for s
    using graph_handle_tcp_media [of ?media graph s ops] got sel that graph(1) by (simp add: reloadable_handle_tcp_def)
  moreover have "reloadable_handle_udp ops (rr_egress r) a = udp_through_media ops ?media a" if "ua_decision a = d" for a
    using graph_handle_udp_media [of ?media graph a ops] got sel that graph(1) by (simp add: reloadable_handle_udp_def)
  ultimately show ?thesis using media by blast
qed

section \<open>An applied reload\<close>

text \<open>The default configuration, and the same with another timeout.\<close>

definition demo_env :: ReloadEnv where
  "demo_env = \<lparr>re_primitives = plain_primitives, re_base64 = (\<lambda>_. None), re_fingerprint = (\<lambda>_. ''fp''), re_now = 5\<rparr>"

definition demo_candidate :: Config where
  "demo_candidate = Config_default\<lparr>cg_capture := (cg_capture Config_default)
     \<lparr>ca_tun := TunCaptureConfig_default\<lparr>tu_tcp_idle_timeout_ms := 9000\<rparr>\<rparr>\<rparr>"

definition demo_start :: RuntimeReload where
  "demo_start = projr (the (RuntimeReload_new demo_env Config_default None
     (RuntimeState_from_seed (RuntimeSeed_single_node ''direct'')) (RuntimeSeed_single_node ''direct'')))"

lemma demo_coordinator: "coordinator plain_primitives (\<lambda>_. None) demo_start"
proof (rule coordinator.start [of demo_env Config_default None
    "RuntimeState_from_seed (RuntimeSeed_single_node ''direct'')" "RuntimeSeed_single_node ''direct''"])
  show "RuntimeReload_new demo_env Config_default None (RuntimeState_from_seed (RuntimeSeed_single_node ''direct''))
      (RuntimeSeed_single_node ''direct'') = Some (Ok demo_start)"
    by (simp add: demo_start_def RuntimeReload_new_def reloadable_new_def GraphEgress_try_from_def Config_default_def ForwardingConfig_default_def)
qed (simp_all add: demo_env_def Config_default_def ForwardingConfig_default_def RuntimeState_from_seed_def generation_def routing_from_seed_def)

lemma demo_parts:
  "rr_runtime demo_start = RuntimeState_from_seed (RuntimeSeed_single_node ''direct'')" "rr_current demo_start = Config_default"
  by (simp_all add: demo_start_def RuntimeReload_new_def reloadable_new_def GraphEgress_try_from_def Config_default_def ForwardingConfig_default_def)

lemma demo_generation: "generation (rr_runtime demo_start) = 1"
  by (simp add: demo_parts RuntimeState_from_seed_def generation_def routing_from_seed_def)

lemma demo_reload:
  "map_option fst (reload demo_env False False (rr_runtime demo_start) (Ok demo_candidate) Sighup demo_start) =
    Some (ResultApplied 2 [''capture.tun.tcp_idle_timeout''])"
  by code_simp

text \<open>The hypothesis holds after an applied reload.\<close>

theorem reload_keeps_parts_together_witness:
  "\<exists>r'. reload demo_env False False (rr_runtime demo_start) (Ok demo_candidate) Sighup demo_start =
      Some (ResultApplied 2 [''capture.tun.tcp_idle_timeout''], r') \<and> coordinated plain_primitives (\<lambda>_. None) r'"
proof -
  obtain r' where r': "reload demo_env False False (rr_runtime demo_start) (Ok demo_candidate) Sighup demo_start =
      Some (ResultApplied 2 [''capture.tun.tcp_idle_timeout''], r')"
    using demo_reload by auto
  have "generation (rr_runtime demo_start) \<noteq> - 1" by (simp add: demo_generation)
  then have "coordinator plain_primitives (\<lambda>_. None) r'"
    using coordinator.attempt [OF demo_coordinator _ _ _ _ r'] by (simp add: demo_env_def)
  with r' reload_keeps_parts_together show ?thesis by blast
qed

definition demo_context :: SelectionContext where
  "demo_context = \<lparr>sc_session_id = 1, sc_inbound = InTcp,
     sc_target = external_context (mk_sockaddr (V4 1) 443) None\<rparr>"

definition demo_decision :: SelectionDecision where
  "demo_decision = projr (fst (select (rr_runtime demo_start) demo_context 1 2))"

lemma demo_selected:
  "fst (select (rr_runtime demo_start) demo_context 1 2) = Inr demo_decision"
  "map th_node_id (sd_trace demo_decision) = [''default-node'']" "sd_terminal demo_decision = TerminalDirect"
proof -
  have "rt_routing (rr_runtime demo_start) = routing_from_seed 1 (RuntimeSeed_single_node ''direct'')"
    by (simp add: demo_parts RuntimeState_from_seed_def)
  from single_node_select [OF this, of demo_context 1 2]
  show "fst (select (rr_runtime demo_start) demo_context 1 2) = Inr demo_decision"
    "map th_node_id (sd_trace demo_decision) = [''default-node'']" "sd_terminal demo_decision = TerminalDirect"
    by (auto simp: demo_decision_def demo_context_def external_context_def mk_sockaddr_def DEFAULT_NODE_ID_def)
qed

lemma demo_nodes: "fc_execution_nodes (cg_forwarding (rr_current demo_start)) = [(''default-node'', NodeDirect)]"
  by (simp add: demo_parts Config_default_def ForwardingConfig_default_def)

lemma demo_medium:
  "medium_of plain_primitives (\<lambda>_. None) (fc_execution_nodes (cg_forwarding (rr_current demo_start))) ''default-node'' = Some MediumDirect"
  by (simp add: demo_nodes medium_of_def bt_get_def)

definition demo_session :: TcpRelaySession where
  "demo_session = \<lparr>tr_target = mk_sockaddr (V4 1) 443, tr_decision = demo_decision, tr_idle_timeout_ms = None\<rparr>"

definition demo_association :: UdpRelayAssociation where
  "demo_association = \<lparr>ua_session_id = 1, ua_inbound = ''udp'', ua_peer = mk_sockaddr (V4 2) 9, ua_target = mk_sockaddr (V4 1) 443,
     ua_idle_timeout_ms = 1000, ua_decision = demo_decision\<rparr>"

theorem decisions_reach_their_media_witness:
  "\<forall>ops. reloadable_handle_tcp ops (rr_egress demo_start) demo_session = mo_handle_tcp ops MediumDirect demo_session \<and>
     reloadable_handle_udp ops (rr_egress demo_start) demo_association = mo_handle_udp ops MediumDirect demo_association"
proof
  fix ops
  have nodes: "bt_wf (fc_execution_nodes (cg_forwarding (rr_current demo_start)))"
    "\<forall>node\<in>set (rs_nodes (fc_seed (cg_forwarding (rr_current demo_start)))).
      bt_contains (fc_execution_nodes (cg_forwarding (rr_current demo_start))) (fn_id node)"
    by (simp add: demo_nodes)
      (simp add: demo_nodes demo_parts Config_default_def ForwardingConfig_default_def RuntimeSeed_single_node_def ForwardNode_new_def Let_def
        DEFAULT_NODE_ID_def bt_contains_def bt_get_def)
  obtain hop where hop: "sd_trace demo_decision = [hop]" "th_node_id hop = ''default-node''"
    using demo_selected(2) by auto
  have d: "tr_decision demo_session = demo_decision" "ua_decision demo_association = demo_decision"
    by (simp_all add: demo_session_def demo_association_def)
  obtain media where media: "map Some media = map (\<lambda>hop. medium_of plain_primitives (\<lambda>_. None)
        (fc_execution_nodes (cg_forwarding (rr_current demo_start))) (th_node_id hop)) (sd_trace demo_decision)"
      "\<forall>s. tr_decision s = demo_decision \<longrightarrow> reloadable_handle_tcp ops (rr_egress demo_start) s = tcp_through_media ops media s"
      "\<forall>a. ua_decision a = demo_decision \<longrightarrow> reloadable_handle_udp ops (rr_egress demo_start) a = udp_through_media ops media a"
    using decisions_reach_their_media [OF demo_coordinator demo_selected(1) nodes, of ops] by blast
  then have "media = [MediumDirect]" by (auto simp: hop demo_medium)
  then show "reloadable_handle_tcp ops (rr_egress demo_start) demo_session = mo_handle_tcp ops MediumDirect demo_session \<and>
     reloadable_handle_udp ops (rr_egress demo_start) demo_association = mo_handle_udp ops MediumDirect demo_association"
    using media(2,3) d demo_selected(3) by (simp add: tcp_through_media_def udp_through_media_def)
qed

end
