(* ===== verification/Ingress_Events.thy ===== *)
theory Ingress_Events
  imports Egress_Graph Dns_Wire
begin

text \<open>
  What all inbounds of \<open>dynet-ingress\<close> share: the fields of their events (\<open>lib.rs\<close>), the restoring of a destination from the observed DNS
  answers (the same function in \<open>socks.rs\<close> and \<open>captured.rs\<close>), and the interface to an egress (\<open>EgressNode\<close> of \<open>egress.rs\<close>).
\<close>

section \<open>Texts\<close>

fun SchedulerPolicy_as_str :: "SchedulerPolicy \<Rightarrow> string" where
  "SchedulerPolicy_as_str SingleFirstEnabled = ''single-first-enabled''"

fun SelectionReason_as_str :: "SelectionReason \<Rightarrow> string" where
  "SelectionReason_as_str SingleNode = ''single-node''"

fun TargetSource_as_str :: "TargetSource \<Rightarrow> string" where
  "TargetSource_as_str FixedUpstream = ''fixed-upstream''"
| "TargetSource_as_str ObservedDns = ''observed-dns''"
| "TargetSource_as_str ExternalContext = ''external-context''"

text \<open>\<open>SocketAddr\<close> as a text.\<close>

definition show_socket :: "SocketAddr \<Rightarrow> string" where
  "show_socket a =
     (case sa_ip a of
        V4 _ \<Rightarrow> show_ip (sa_ip a) @ '':'' @ show_nat (unat (sa_port a))
      | V6 _ \<Rightarrow> ''['' @ show_ip (sa_ip a) @ '']:'' @ show_nat (unat (sa_port a)))"

section \<open>Fields of events\<close>

type_synonym Fields = "(string \<times> string) list"

definition push_endpoint_fields :: "string \<Rightarrow> SocketAddr \<Rightarrow> Fields" where
  "push_endpoint_fields pre address =
     (let ip = show_ip (sa_ip address); port = show_nat (unat (sa_port address)) in
      if pre = ''peer'' then [(''peerIp'', ip), (''peerPort'', port)]
      else if pre = ''upstream'' then [(''upstreamIp'', ip), (''upstreamPort'', port)]
      else if pre = ''target'' then [(''targetIp'', ip), (''targetPort'', port)]
      else if pre = ''source'' then [(''sourceIp'', ip), (''sourcePort'', port)]
      else [])"

definition session_fields :: "u64 \<Rightarrow> string \<Rightarrow> string \<Rightarrow> SocketAddr \<Rightarrow> SocketAddr \<Rightarrow> SocketAddr \<Rightarrow> Fields" where
  "session_fields session_id inbound node_protocol peer target upstream =
     [(''sessionId'', show_u64 session_id), (''inbound'', inbound), (''nodeProtocol'', node_protocol),
      (''peer'', show_socket peer), (''target'', show_socket target), (''upstream'', show_socket upstream)] @
     push_endpoint_fields ''peer'' peer @ push_endpoint_fields ''target'' target @ push_endpoint_fields ''upstream'' upstream"

definition push_decision_fields :: "SelectionDecision \<Rightarrow> Fields" where
  "push_decision_fields d =
     [(''decisionId'', show_u64 (sd_decision_id d)), (''configGeneration'', show_u64 (sd_config_generation d)),
      (''groupId'', sd_group_id d)] @
     (case sd_matched_rule_id d of None \<Rightarrow> [] | Some rule_id \<Rightarrow> [(''matchedRuleId'', rule_id)]) @
     [(''nodeId'', sd_node_id d), (''groupNext'', NextRef_label (sd_next d)),
      (''selectionTrace'', join_with ''|'' (map SelectionTraceHop_label (sd_trace d))),
      (''selectionGroups'', join_with '','' (map th_group_id (sd_trace d))),
      (''selectionNodes'', join_with '','' (map th_node_id (sd_trace d))),
      (''terminalEgress'', SelectionTerminal_label (sd_terminal d)), (''terminalKind'', SelectionTerminal_kind (sd_terminal d)),
      (''selectionReason'', SelectionReason_as_str (sd_reason d)), (''scheduler'', SchedulerPolicy_as_str (sd_scheduler d)),
      (''candidateCount'', show_nat (sd_candidate_count d)), (''ipFamily'', IpFamily_as_str (sd_ip_family d))] @
     (case sd_ipv6_policy_source d of
        None \<Rightarrow> [] | Some source \<Rightarrow> [(''ipv6Policy'', ''allow''), (''ipv6PolicySource'', Ipv6PolicySource_as_str source)])"

definition push_target_context_fields :: "TargetContext \<Rightarrow> Fields" where
  "push_target_context_fields target =
     [(''targetSource'', TargetSource_as_str (tc_source target))] @
     (case tc_domain target of None \<Rightarrow> [] | Some domain \<Rightarrow> [(''targetDomain'', domain)])"

section \<open>The egress as an inbound sees it\<close>

record EgressNode =
  eg_tag :: string
  eg_decision_tag :: "SelectionDecision \<Rightarrow> string"
  eg_handle_tcp :: "TcpRelaySession \<Rightarrow> EgressError + TcpRelayOutcome"
  eg_handle_udp :: "UdpRelayAssociation \<Rightarrow> EgressError + UdpRelayOutcome"

text \<open>The egress of the running process.\<close>

definition reloadable_egress :: "MediumOps \<Rightarrow> ReloadableEgress \<Rightarrow> EgressNode" where
  "reloadable_egress ops egress =
     \<lparr>eg_tag = ''reloadable-graph'', eg_decision_tag = reloadable_decision_tag egress,
      eg_handle_tcp = reloadable_handle_tcp ops egress, eg_handle_udp = reloadable_handle_udp ops egress\<rparr>"

text \<open>
  What happens around one flow: clock readings, the answers to a DNS race, and what other tasks do to the runtime while the flow is
  carried.
\<close>

record FlowEnv =
  fe_dns_now :: u128
  fe_dns_inputs :: "RaceInput list"
  fe_shadow_now :: u128
  fe_select_now :: u128
  fe_start_now :: u128
  fe_during :: "RuntimeState \<Rightarrow> RuntimeState"
  fe_end_now :: u128

section \<open>Destinations\<close>

text \<open>\<open>None\<close> is a race that has not ended, or a panic, which ends the task.\<close>

definition resolve_socket_destination :: "FlowEnv \<Rightarrow> RuntimeState \<Rightarrow> SocketAddr \<Rightarrow> TargetContext option \<times> RuntimeState" where
  "resolve_socket_destination env st address =
     (case domain_for_ip (rt_dns_map st) (sa_ip address) of
        None \<Rightarrow> (Some (external_context address None), st)
      | Some domain \<Rightarrow>
          (case resolve_domain_a st domain (sa_port address) (fe_dns_now env) (fe_dns_inputs env) of
             (None, st1) \<Rightarrow> (None, st1)
           | (Some (Inr restored), st1) \<Rightarrow> (Some (dynet_dns restored domain), st1)
           | (Some (Inl (ResolveError _)), st1) \<Rightarrow> (Some (external_context address (Some domain)), st1)
           | (Some (Inl SlicePanic), st1) \<Rightarrow> (None, st1)))"

definition select_flow ::
    "FlowEnv \<Rightarrow> RuntimeState \<Rightarrow> u64 \<Rightarrow> InboundKind \<Rightarrow> TargetContext \<Rightarrow> (SelectionError + SelectionDecision) \<times> RuntimeState" where
  "select_flow env st session_id inbound target =
     select st \<lparr>sc_session_id = session_id, sc_inbound = inbound, sc_target = target\<rparr> (fe_shadow_now env) (fe_select_now env)"

lemma resolve_domain_a_ipv4:
  "resolve_domain_a st domain port now inputs = (Some (Ok address), st') \<Longrightarrow> is_ipv4 (sa_ip address)"
  by (auto simp: resolve_domain_a_def mk_sockaddr_def dest: find_SomeD split: sum.splits prod.splits option.splits)

lemma session_id_field: "(''sessionId'', show_u64 i) \<in> set (session_fields i inbound protocol peer target upstream)"
  by (simp add: session_fields_def)

lemma decision_id_field: "(''decisionId'', show_u64 (sd_decision_id d)) \<in> set (push_decision_fields d)"
  by (simp add: push_decision_fields_def)

lemmas id_fields = session_id_field decision_id_field

lemma select_flow_family:
  assumes "select_flow env st i inbound target = (Inr d, st')"
  shows "sd_ip_family d = IpFamily_from_address (sa_ip (tc_address target)) \<and>
    (IpFamily_from_address (sa_ip (tc_address target)) = Ipv4 \<longrightarrow> sd_ipv6_policy_source d = None)"
proof -
  have "fst (select st \<lparr>sc_session_id = i, sc_inbound = inbound, sc_target = target\<rparr> (fe_shadow_now env) (fe_select_now env)) = Inr d"
    using assms by (simp add: select_flow_def)
  then show ?thesis by (rule select_ok) (auto simp: ipv6_policy_def)
qed

end
