(* ===== verification/Captured_Flows.thy ===== *)
theory Captured_Flows
  imports Ingress_Events
begin

text \<open>
  Flows taken from the capture device, \<open>dynet-ingress/src/captured.rs\<close>. What the egress task and the timers answer is an argument.
\<close>

section \<open>Outcomes and fields\<close>

definition TUN_INBOUND :: string where "TUN_INBOUND = ''tun''"

record CapturedTcpRelayOutcome =
  ct_session_id :: u64
  ct_target :: SocketAddr
  ct_upstream :: SocketAddr
  ct_client_to_upstream_bytes :: u64
  ct_upstream_to_client_bytes :: u64
  ct_close_reason :: string

record CapturedUdpRelayOutcome =
  cu_session_id :: u64
  cu_target :: SocketAddr
  cu_upstream :: SocketAddr
  cu_request_bytes :: nat
  cu_response_bytes :: nat
  cu_close_reason :: string

definition selection_error_fields :: "u64 \<Rightarrow> SocketAddr \<Rightarrow> SocketAddr \<Rightarrow> SelectionError \<Rightarrow> Fields" where
  "selection_error_fields session_id peer target e =
     session_fields session_id TUN_INBOUND ''selection'' peer target target @
     [(''errorStage'', ''egress-select''), (''errorCode'', se_code e),
      (''ipFamily'', (case sa_ip target of V6 _ \<Rightarrow> ''ipv6'' | V4 _ \<Rightarrow> ''ipv4''))] @
     (case se_matched_rule_id e of
        None \<Rightarrow> []
      | Some rule_id \<Rightarrow> [(''matchedRuleId'', rule_id), (''ipv6Policy'', ''deny''), (''ipv6PolicySource'', ''rule'')]) @
     [(''error'', se_message e)]"

definition captured_error_fields ::
    "u64 \<Rightarrow> string \<Rightarrow> SocketAddr \<Rightarrow> SocketAddr \<Rightarrow> TargetContext \<Rightarrow> EgressError \<Rightarrow> SelectionDecision option \<Rightarrow> Fields" where
  "captured_error_fields session_id node_protocol peer target target_context e decision =
     (let upstream = (case ee_upstream e of Some u \<Rightarrow> u | None \<Rightarrow> target) in
      session_fields session_id TUN_INBOUND node_protocol peer target upstream @
      push_target_context_fields target_context @
      (case decision of None \<Rightarrow> [] | Some d \<Rightarrow> push_decision_fields d) @
      push_egress_error_fields node_protocol e @ push_endpoint_fields ''upstream'' upstream)"

section \<open>TCP\<close>

definition tcp_close_outcome ::
    "FlowEnv \<Rightarrow> TargetContext \<Rightarrow> SelectionDecision \<Rightarrow> u64 \<Rightarrow> string \<Rightarrow> SocketAddr \<Rightarrow> SocketAddr \<Rightarrow> TcpRelayOutcome \<Rightarrow> RuntimeState \<Rightarrow>
      CapturedTcpRelayOutcome \<times> RuntimeState" where
  "tcp_close_outcome env target_context decision session_id node_protocol peer target outcome st =
     (\<lparr>ct_session_id = session_id, ct_target = target, ct_upstream = to_upstream outcome,
       ct_client_to_upstream_bytes = to_client_to_upstream_bytes outcome,
       ct_upstream_to_client_bytes = to_upstream_to_client_bytes outcome, ct_close_reason = to_close_reason outcome\<rparr>,
      runtime_record_event (TcpClose,
        session_fields session_id TUN_INBOUND node_protocol peer target (to_upstream outcome) @
        push_target_context_fields target_context @ push_decision_fields decision @
        [(''clientToUpstreamBytes'', show_u64 (to_client_to_upstream_bytes outcome)),
         (''upstreamToClientBytes'', show_u64 (to_upstream_to_client_bytes outcome)),
         (''closeReason'', to_close_reason outcome)], fe_end_now env) st)"

definition relay_captured_tcp ::
    "FlowEnv \<Rightarrow> EgressNode \<Rightarrow> SocketAddr \<Rightarrow> SocketAddr \<Rightarrow> nat \<Rightarrow> RuntimeState \<Rightarrow>
      (string + CapturedTcpRelayOutcome) option \<times> RuntimeState" where
  "relay_captured_tcp env egress peer target idle_timeout st =
     (let (session_id, st1) = runtime_next_session_id st in
      case resolve_socket_destination env st1 target of
        (None, st2) \<Rightarrow> (None, st2)
      | (Some target_context, st2) \<Rightarrow>
          (case select_flow env st2 session_id InTcp target_context of
             (Inl e, st3) \<Rightarrow>
               (Some (Err (se_message e)),
                runtime_record_event (IngressEventKind.TcpError, selection_error_fields session_id peer target e, fe_start_now env) st3)
           | (Inr decision, st3) \<Rightarrow>
               (let node_protocol = eg_decision_tag egress decision;
                    st4 = runtime_record_event (TcpAccept,
                      session_fields session_id TUN_INBOUND node_protocol peer target target @
                      push_target_context_fields target_context @ push_decision_fields decision, fe_start_now env) st3;
                    st5 = fe_during env st4
                in case eg_handle_tcp egress
                          \<lparr>tr_target = target, tr_decision = decision, tr_idle_timeout_ms = Some idle_timeout\<rparr> of
                     Inr outcome \<Rightarrow>
                       (case tcp_close_outcome env target_context decision session_id node_protocol peer target outcome st5 of
                          (out, st6) \<Rightarrow> (Some (Ok out), st6))
                   | Inl e \<Rightarrow>
                       (Some (Err (ee_message e)),
                        runtime_record_event (IngressEventKind.TcpError,
                          captured_error_fields session_id node_protocol peer target target_context e (Some decision),
                          fe_end_now env) st5))))"

section \<open>UDP\<close>

text \<open>How the egress task of one datagram ends, and what arrives on the channel of responses within the timeout.\<close>

datatype UdpTaskEnd = TaskOutcome UdpRelayOutcome | TaskError EgressError | TaskFailed

datatype UdpAnswer = Answer bytes | ChannelClosed | AnswerTimeout

record UdpFlow =
  uf_request :: "(IoErrorKind + bytes)"
  uf_answer :: UdpAnswer
  uf_task_end :: "UdpTaskEnd option"
  uf_write_fails :: bool

definition await_udp_error :: "UdpTaskEnd \<Rightarrow> string" where
  "await_udp_error task =
     (case task of
        TaskOutcome outcome \<Rightarrow> ''captured UDP relay closed before response: '' @ uo_close_reason outcome
      | TaskError e \<Rightarrow> ee_message e
      | TaskFailed \<Rightarrow> ''captured UDP relay task failed'')"

text \<open>\<open>None\<close> is a task that has not ended within the timeout.\<close>

definition await_udp_outcome :: "UdpTaskEnd option \<Rightarrow> nat \<Rightarrow> string + UdpRelayOutcome" where
  "await_udp_outcome task timeout_ms =
     (case task of
        Some (TaskOutcome outcome) \<Rightarrow> Ok outcome
      | Some (TaskError e) \<Rightarrow> Err (ee_message e)
      | Some TaskFailed \<Rightarrow> Err ''captured UDP relay task failed''
      | None \<Rightarrow> Err (''timed out after '' @ show_nat timeout_ms @ ''ms waiting for captured UDP relay to close''))"

definition captured_udp_failure ::
    "FlowEnv \<Rightarrow> u64 \<Rightarrow> string \<Rightarrow> SocketAddr \<Rightarrow> SocketAddr \<Rightarrow> TargetContext \<Rightarrow> SelectionDecision \<Rightarrow> string \<Rightarrow> RuntimeState \<Rightarrow>
      (string + CapturedUdpRelayOutcome) option \<times> RuntimeState" where
  "captured_udp_failure env session_id node_protocol peer target target_context decision message st =
     (Some (Err message),
      runtime_record_event (UdpError,
        captured_error_fields session_id node_protocol peer target target_context
          (EgressError_new ''relay'' (Some target) message) (Some decision), fe_end_now env) st)"

text \<open>
  The channel to the egress task has room for the one request. When the channel of responses is closed the code waits for the
  task without a limit, so a task that does not end is a flow that does not end.
\<close>

definition relay_captured_udp ::
    "FlowEnv \<Rightarrow> EgressNode \<Rightarrow> UdpFlow \<Rightarrow> SocketAddr \<Rightarrow> SocketAddr \<Rightarrow> nat \<Rightarrow> nat \<Rightarrow> RuntimeState \<Rightarrow>
      (string + CapturedUdpRelayOutcome) option \<times> RuntimeState" where
  "relay_captured_udp env egress flow peer target idle_timeout response_timeout st =
     (case uf_request flow of
        Inl _ \<Rightarrow> (Some (Err ''failed reading captured UDP payload''), st)
      | Inr payload \<Rightarrow>
          if payload = [] then (Some (Err ''captured UDP stream returned empty payload''), st)
          else (let (session_id, st1) = runtime_next_session_id st in
            case resolve_socket_destination env st1 target of
              (None, st2) \<Rightarrow> (None, st2)
            | (Some target_context, st2) \<Rightarrow>
                (case select_flow env st2 session_id InUdp target_context of
                   (Inl e, st3) \<Rightarrow>
                     (Some (Err (se_message e)),
                      runtime_record_event (UdpError, selection_error_fields session_id peer target e, fe_start_now env) st3)
                 | (Inr decision, st3) \<Rightarrow>
                     (let node_protocol = eg_decision_tag egress decision;
                          st4 = runtime_record_event (UdpDatagram,
                            session_fields session_id TUN_INBOUND node_protocol peer target target @
                            push_target_context_fields target_context @ push_decision_fields decision @
                            [(''direction'', ''client-to-upstream''), (''bytes'', show_nat (length payload))], fe_start_now env) st3;
                          st5 = fe_during env st4;
                          failure = (\<lambda>message. captured_udp_failure env session_id node_protocol peer target target_context decision message st5)
                      in case uf_answer flow of
                           ChannelClosed \<Rightarrow>
                             (case uf_task_end flow of None \<Rightarrow> (None, st5) | Some task \<Rightarrow> failure (await_udp_error task))
                         | AnswerTimeout \<Rightarrow>
                             failure (''timed out after '' @ show_nat response_timeout @ ''ms waiting for captured UDP response'')
                         | Answer response \<Rightarrow>
                             if uf_write_fails flow then (Some (Err ''failed writing captured UDP response''), st5)
                             else (case await_udp_outcome (uf_task_end flow) (idle_timeout + response_timeout) of
                                     Inl e \<Rightarrow> (Some (Err e), st5)
                                   | Inr outcome \<Rightarrow>
                                       (Some (Ok \<lparr>cu_session_id = session_id, cu_target = target, cu_upstream = uo_upstream outcome,
                                          cu_request_bytes = length payload, cu_response_bytes = length response,
                                          cu_close_reason = uo_close_reason outcome\<rparr>),
                                        runtime_record_event (UdpSessionClose,
                                          session_fields session_id TUN_INBOUND node_protocol peer target (uo_upstream outcome) @
                                          push_target_context_fields target_context @ push_decision_fields decision @
                                          [(''closeReason'', uo_close_reason outcome)], fe_end_now env) st5))))))"

section \<open>How captured flows are accounted for\<close>

text \<open>
  Every captured TCP flow that returns has one of three endings: its selection fails and one error is recorded; or it is accepted, recorded,
  carried by the egress, and closed with one event; or it is accepted and its failure is recorded with one event. What is recorded
  names the session and the decision that the egress was given.
\<close>

theorem captured_tcp_accounted:
  assumes "relay_captured_tcp env egress peer target idle_timeout st = (Some result, st')"
  shows "\<exists>session_id st1 st2 target_context st3.
    runtime_next_session_id st = (session_id, st1) \<and> resolve_socket_destination env st1 target = (Some target_context, st2) \<and>
    ((\<exists>e. select_flow env st2 session_id InTcp target_context = (Inl e, st3) \<and> result = Err (se_message e) \<and>
        st' = runtime_record_event (IngressEventKind.TcpError, selection_error_fields session_id peer target e, fe_start_now env) st3) \<or>
     (\<exists>decision accept_fields end_kind end_fields.
        select_flow env st2 session_id InTcp target_context = (Inr decision, st3) \<and>
        st' = runtime_record_event (end_kind, end_fields, fe_end_now env)
          (fe_during env (runtime_record_event (TcpAccept, accept_fields, fe_start_now env) st3)) \<and>
        (\<forall>fields\<in>{accept_fields, end_fields}. {(''sessionId'', show_u64 session_id), (''decisionId'', show_u64 (sd_decision_id decision))} \<subseteq> set fields) \<and>
        (case eg_handle_tcp egress \<lparr>tr_target = target, tr_decision = decision, tr_idle_timeout_ms = Some idle_timeout\<rparr> of
           Inl e \<Rightarrow> end_kind = IngressEventKind.TcpError \<and> result = Err (ee_message e)
         | Inr outcome \<Rightarrow> end_kind = TcpClose \<and> (\<exists>out. result = Ok out \<and> ct_upstream out = to_upstream outcome \<and>
             ct_client_to_upstream_bytes out = to_client_to_upstream_bytes outcome \<and>
             ct_upstream_to_client_bytes out = to_upstream_to_client_bytes outcome))))"
proof -
  obtain session_id st1 where i: "runtime_next_session_id st = (session_id, st1)" by fastforce
  then obtain target_context st2 where t: "resolve_socket_destination env st1 target = (Some target_context, st2)"
    using assms by (cases "resolve_socket_destination env st1 target") (auto simp: relay_captured_tcp_def split: option.splits)
  obtain selection st3 where s: "select_flow env st2 session_id InTcp target_context = (selection, st3)" by fastforce
  note run = assms [unfolded relay_captured_tcp_def Let_def i prod.case t option.case s]
  show ?thesis
  proof (cases selection)
    case (Inl e)
    with run i t s show ?thesis by auto
  next
    case (Inr decision)
    let ?tag = "eg_decision_tag egress decision"
    let ?shared = "push_target_context_fields target_context @ push_decision_fields decision"
    let ?accept = "session_fields session_id TUN_INBOUND ?tag peer target target @ ?shared"
    let ?accepted = "fe_during env (runtime_record_event (TcpAccept, ?accept, fe_start_now env) st3)"
    let ?ids = "{(''sessionId'', show_u64 session_id), (''decisionId'', show_u64 (sd_decision_id decision))}"
    have sel: "select_flow env st2 session_id InTcp target_context = (Inr decision, st3)" using s Inr by simp
    let ?session = "\<lparr>tr_target = target, tr_decision = decision, tr_idle_timeout_ms = Some idle_timeout\<rparr>"
    show ?thesis
    proof (cases "eg_handle_tcp egress ?session")
      case (Inl e)
      let ?fields = "captured_error_fields session_id ?tag peer target target_context e (Some decision)"
      have "(''sessionId'', show_u64 session_id) \<in> set ?fields" "(''decisionId'', show_u64 (sd_decision_id decision)) \<in> set ?fields"
        using id_fields by (auto simp: captured_error_fields_def Let_def)
      then have f: "\<forall>fields\<in>{?accept, ?fields}. ?ids \<subseteq> set fields" using id_fields by simp
      have e: "st' = runtime_record_event (IngressEventKind.TcpError, ?fields, fe_end_now env) ?accepted" "result = Err (ee_message e)"
        using run Inl Inr by simp_all
      show ?thesis
        by (intro exI conjI disjI2, rule i, rule t, rule sel, rule e(1), rule f, simp add: Inl e(2))
    next
      case (Inr outcome)
      let ?fields = "session_fields session_id TUN_INBOUND ?tag peer target (to_upstream outcome) @ ?shared @
        [(''clientToUpstreamBytes'', show_u64 (to_client_to_upstream_bytes outcome)),
         (''upstreamToClientBytes'', show_u64 (to_upstream_to_client_bytes outcome)), (''closeReason'', to_close_reason outcome)]"
      have f: "\<forall>fields\<in>{?accept, ?fields}. ?ids \<subseteq> set fields" using id_fields by simp
      have e: "st' = runtime_record_event (TcpClose, ?fields, fe_end_now env) ?accepted"
          "\<exists>out. result = Ok out \<and> ct_upstream out = to_upstream outcome \<and>
             ct_client_to_upstream_bytes out = to_client_to_upstream_bytes outcome \<and>
             ct_upstream_to_client_bytes out = to_upstream_to_client_bytes outcome"
        using run \<open>selection = Inr decision\<close> Inr by (simp, auto simp: tcp_close_outcome_def)
      show ?thesis
        by (intro exI conjI disjI2, rule i, rule t, rule sel, rule e(1), rule f, simp add: Inr e(2))
    qed
  qed
qed

text \<open>
  C34. A captured flow to an IPv6 address is decided as an IPv4 flow when its name has been observed and resolves: the decision is taken for the restored
  IPv4 address, so neither the IPv6 policy nor the capability of the nodes is checked, while the session is still carried to the IPv6 address.
\<close>

theorem captured_ipv6_decided_as_ipv4:
  fixes ip port
  defines "target \<equiv> \<lparr>sa_ip = V6 ip, sa_port = port\<rparr>"
  assumes "domain_for_ip (rt_dns_map st) (V6 ip) = Some domain"
    and "resolve_domain_a (snd (runtime_next_session_id st)) domain port (fe_dns_now env) (fe_dns_inputs env) = (Some (Ok restored), st2)"
    and "select_flow env st2 (fst (runtime_next_session_id st)) InTcp (dynet_dns restored domain) = (Ok decision, st3)"
  shows "sd_ip_family decision = Ipv4 \<and> sd_ipv6_policy_source decision = None \<and>
    map_option (map_sum id ct_upstream) (fst (relay_captured_tcp env egress peer target idle_timeout st)) =
      Some (map_sum ee_message to_upstream
        (eg_handle_tcp egress \<lparr>tr_target = target, tr_decision = decision, tr_idle_timeout_ms = Some idle_timeout\<rparr>))"
proof -
  let ?session = "\<lparr>tr_target = target, tr_decision = decision, tr_idle_timeout_ms = Some idle_timeout\<rparr>"
  have "IpFamily_from_address (sa_ip (tc_address (dynet_dns restored domain))) = Ipv4"
    using resolve_domain_a_ipv4 [OF assms(3)] by (cases "sa_ip restored") (simp_all add: dynet_dns_def)
  moreover have "resolve_socket_destination env (snd (runtime_next_session_id st)) target = (Some (dynet_dns restored domain), st2)"
    using assms(2,3) by (simp add: resolve_socket_destination_def target_def runtime_next_session_id_def next_session_id_def)
  ultimately show ?thesis
    using select_flow_family [OF assms(4)] assms(4)
    by (cases "eg_handle_tcp egress ?session")
      (auto simp: relay_captured_tcp_def tcp_close_outcome_def Let_def split: prod.splits)
qed

section \<open>A captured flow\<close>

text \<open>A name whose IPv6 address was observed, and a resolver that answers with an IPv4 address; the node is direct.\<close>

definition observed_state :: RuntimeState where
  "observed_state = (RuntimeState_from_seed (RuntimeSeed_single_node ''direct''))\<lparr>rt_dns_map := [(''a'', [V6 1])]\<rparr>"

definition observed_answer :: DnsResolution where
  "observed_answer = \<lparr>dr_response = [], dr_upstream = hd default_dns_upstreams, dr_source = mk_sockaddr (V4 1) 53, dr_query_info = None,
     dr_response_info = Some \<lparr>di_transaction_id = 0, di_query_name = None, di_query_type = None, di_answer_ips = [V4 7]\<rparr>,
     dr_ipv6_filtered = False, dr_matched_rule_id = None\<rparr>"

definition observed_env :: FlowEnv where
  "observed_env = \<lparr>fe_dns_now = 1, fe_dns_inputs = [RaceResult (Inr observed_answer)], fe_shadow_now = 2, fe_select_now = 3,
     fe_start_now = 4, fe_during = (\<lambda>st. st), fe_end_now = 9\<rparr>"

definition echo_egress :: EgressNode where
  "echo_egress = \<lparr>eg_tag = ''direct'', eg_decision_tag = (\<lambda>_. ''direct''),
     eg_handle_tcp = (\<lambda>s. Ok \<lparr>to_upstream = tr_target s, to_client_to_upstream_bytes = 3, to_upstream_to_client_bytes = 5,
       to_close_reason = ''eof''\<rparr>),
     eg_handle_udp = (\<lambda>a. Ok \<lparr>uo_upstream = ua_target a, uo_close_reason = ''idle''\<rparr>)\<rparr>"

definition observed_session :: "u64 \<times> RuntimeState" where
  "observed_session = runtime_next_session_id observed_state"

definition observed_restored :: "(DnsFailure + SocketAddr) option \<times> RuntimeState" where
  "observed_restored = resolve_domain_a (snd observed_session) ''a'' 443 1 [RaceResult (Inr observed_answer)]"

definition observed_selected :: "(SelectionError + SelectionDecision) \<times> RuntimeState" where
  "observed_selected = select_flow observed_env (snd observed_restored) (fst observed_session) InTcp (dynet_dns (mk_sockaddr (V4 7) 443) ''a'')"

lemma observed_restored_to: "fst observed_restored = Some (Inr (mk_sockaddr (V4 7) 443))"
  by code_simp

lemma resolve_domain_a_routing: "rt_routing (snd (resolve_domain_a st domain port now inputs)) = rt_routing st"
  by (auto simp: resolve_domain_a_def resolve_dns_wire_def record_dns_resolution_def runtime_record_dns_def Let_def
    split: sum.split option.split prod.split)

lemma observed_routing: "rt_routing (snd observed_restored) = routing_from_seed 1 (RuntimeSeed_single_node ''direct'')"
  by (simp add: observed_restored_def resolve_domain_a_routing observed_session_def runtime_next_session_id_def next_session_id_def
    observed_state_def RuntimeState_from_seed_def)

lemma observed_selection: "\<not> isl (fst observed_selected)"
  using single_node_select [OF observed_routing, of "\<lparr>sc_session_id = fst observed_session, sc_inbound = InTcp,
    sc_target = dynet_dns (mk_sockaddr (V4 7) 443) ''a''\<rparr>" 2 3]
  by (auto simp: observed_selected_def select_flow_def observed_env_def dynet_dns_def mk_sockaddr_def)

theorem captured_ipv6_decided_as_ipv4_witness:
  "sd_ip_family (projr (fst observed_selected)) = Ipv4 \<and>
   map_option (map_sum id ct_upstream)
     (fst (relay_captured_tcp observed_env echo_egress (mk_sockaddr (V4 9) 1) \<lparr>sa_ip = V6 1, sa_port = 443\<rparr> 1000 observed_state)) =
     Some (Ok \<lparr>sa_ip = V6 1, sa_port = 443\<rparr>)"
proof -
  have domain: "domain_for_ip (rt_dns_map observed_state) (V6 1) = Some ''a''"
    by (simp add: observed_state_def domain_for_ip_def)
  have restored: "resolve_domain_a (snd (runtime_next_session_id observed_state)) ''a'' 443 (fe_dns_now observed_env) (fe_dns_inputs observed_env) =
      (Some (Ok (mk_sockaddr (V4 7) 443)), snd observed_restored)"
    using observed_restored_to by (simp add: observed_restored_def observed_session_def observed_env_def prod_eq_iff)
  have "select_flow observed_env (snd observed_restored) (fst (runtime_next_session_id observed_state)) InTcp
      (dynet_dns (mk_sockaddr (V4 7) 443) ''a'') = (Ok (projr (fst observed_selected)), snd observed_selected)"
    using observed_selection by (simp add: observed_selected_def [symmetric] observed_session_def [symmetric] prod_eq_iff)
  from captured_ipv6_decided_as_ipv4 [OF domain restored this, of echo_egress "mk_sockaddr (V4 9) 1" 1000]
  show ?thesis by (simp add: echo_egress_def)
qed

lemma captured_tcp_returns:
  "domain_for_ip (rt_dns_map st) (sa_ip target) = None \<Longrightarrow> fst (relay_captured_tcp env egress peer target idle_timeout st) \<noteq> None"
  by (auto simp: relay_captured_tcp_def resolve_socket_destination_def runtime_next_session_id_def next_session_id_def Let_def
    split: prod.splits sum.splits)

lemma observed_flow_returns:
  "fst (relay_captured_tcp observed_env echo_egress (mk_sockaddr (V4 9) 1) (mk_sockaddr (V4 8) 443) 1000 observed_state) \<noteq> None"
  by (rule captured_tcp_returns) (simp add: observed_state_def domain_for_ip_def mk_sockaddr_def)

theorem captured_tcp_accounted_witness:
  "\<exists>session_id st1 st2 target_context. runtime_next_session_id observed_state = (session_id, st1) \<and>
     resolve_socket_destination observed_env st1 (mk_sockaddr (V4 8) 443) = (Some target_context, st2)"
proof -
  obtain result st' where
    "relay_captured_tcp observed_env echo_egress (mk_sockaddr (V4 9) 1) (mk_sockaddr (V4 8) 443) 1000 observed_state = (Some result, st')"
    using observed_flow_returns by (metis option.exhaust prod.collapse)
  from captured_tcp_accounted [OF this] show ?thesis by blast
qed

end
