(* ===== verification/Relay_Sessions.thy ===== *)
theory Relay_Sessions
  imports Ingress_Events Config_Reload
begin

text \<open>
  The fixed TCP and UDP relays, \<open>dynet-ingress/src/inbound.rs\<close>: their accept and receive loops as functions of what the loop is woken up by,
  and what one flow records. Before that, the order of addresses that the keys of the session tables have, and the contract that the two
  UDP loops of the program (this one and that of \<open>socks.rs\<close>) share.
\<close>

section \<open>The order of addresses\<close>

fun ip_rank :: "IpAddr \<Rightarrow> nat \<times> nat" where
  "ip_rank (V4 a) = (0, unat a)"
| "ip_rank (V6 a) = (1, unat a)"

lemma ip_rank_eq [simp]: "ip_rank a = ip_rank b \<longleftrightarrow> a = b"
  by (cases a; cases b) (simp_all add: word_unat_eq_iff)

instantiation IpAddr :: linorder
begin

definition less_eq_IpAddr :: "IpAddr \<Rightarrow> IpAddr \<Rightarrow> bool" where
  "less_eq_IpAddr a b \<longleftrightarrow> ip_rank a \<le> ip_rank b"

definition less_IpAddr :: "IpAddr \<Rightarrow> IpAddr \<Rightarrow> bool" where
  "less_IpAddr a b \<longleftrightarrow> ip_rank a < ip_rank b"

instance
  by standard (auto simp: less_eq_IpAddr_def less_IpAddr_def less_le)

end

definition socket_rank :: "'a SocketAddr_scheme \<Rightarrow> IpAddr \<times> u16 \<times> 'a" where
  "socket_rank a = (sa_ip a, sa_port a, SocketAddr.more a)"

lemma socket_rank_eq [simp]: "socket_rank a = socket_rank b \<longleftrightarrow> a = b"
  by (cases a; cases b) (simp add: socket_rank_def)

instantiation SocketAddr_ext :: (linorder) linorder
begin

definition less_eq_SocketAddr_ext :: "'a SocketAddr_scheme \<Rightarrow> 'a SocketAddr_scheme \<Rightarrow> bool" where
  "less_eq_SocketAddr_ext a b \<longleftrightarrow> socket_rank a \<le> socket_rank b"

definition less_SocketAddr_ext :: "'a SocketAddr_scheme \<Rightarrow> 'a SocketAddr_scheme \<Rightarrow> bool" where
  "less_SocketAddr_ext a b \<longleftrightarrow> socket_rank a < socket_rank b"

instance
  by standard (auto simp: less_eq_SocketAddr_ext_def less_SocketAddr_ext_def less_le)

end

section \<open>Tables of sessions\<close>

text \<open>
  A UDP loop keeps a table from keys to the sending ends of channels; each channel belongs to a spawned task, numbered in the order of
  spawning, and each task was spawned for one key. What is observed of a loop is which payload went into which channel.
\<close>

definition channels_ok :: "('k \<Rightarrow> nat option) \<Rightarrow> 'k list \<Rightarrow> bool" where
  "channels_ok channel owners \<longleftrightarrow> (\<forall>k c. channel k = Some c \<longrightarrow> c < length owners \<and> owners ! c = k)"

definition delivered_to :: "'k list \<Rightarrow> (nat \<times> bytes) list \<Rightarrow> 'k \<Rightarrow> bytes list" where
  "delivered_to owners sent k = map snd (filter (\<lambda>(c, _). owners ! c = k) sent)"

fun received_from :: "('i \<Rightarrow> 'l \<Rightarrow> 'l) \<Rightarrow> ('i \<Rightarrow> 'l \<Rightarrow> ('k \<times> bytes) option) \<Rightarrow> 'i list \<Rightarrow> 'l \<Rightarrow> 'k \<Rightarrow> bytes list" where
  "received_from receive datagram [] l k = []"
| "received_from receive datagram (i # is) l k =
     (case datagram i l of Some (k', payload) \<Rightarrow> if k' = k then [payload] else [] | None \<Rightarrow> []) @
     received_from receive datagram is (receive i l) k"

locale session_table =
  fixes receive :: "'i \<Rightarrow> 'l \<Rightarrow> 'l"
    and datagram :: "'i \<Rightarrow> 'l \<Rightarrow> ('k \<times> bytes) option"
    and owners :: "'l \<Rightarrow> 'k list"
    and sent :: "'l \<Rightarrow> (nat \<times> bytes) list"
    and channel :: "'l \<Rightarrow> 'k \<Rightarrow> nat option"
  assumes owners_grow: "\<exists>ks. owners (receive i l) = owners l @ ks"
    and channels_kept: "channels_ok (channel l) (owners l) \<Longrightarrow> channels_ok (channel (receive i l)) (owners (receive i l))"
    and sent_grow: "channels_ok (channel l) (owners l) \<Longrightarrow> sent (receive i l) = sent l \<or>
      (\<exists>k payload c. datagram i l = Some (k, payload) \<and> sent (receive i l) = sent l @ [(c, payload)] \<and>
        c < length (owners (receive i l)) \<and> owners (receive i l) ! c = k)"
begin

lemma channels_run: "channels_ok (channel l) (owners l) \<Longrightarrow> channels_ok (channel (fold receive is l)) (owners (fold receive is l))"
  by (induction "is" arbitrary: l) (auto intro: channels_kept)

lemma sent_step:
  assumes "channels_ok (channel l) (owners l)" "\<forall>(c, _)\<in>set (sent l). c < length (owners l)"
  shows "\<forall>(c, _)\<in>set (sent (receive i l)). c < length (owners (receive i l))"
    and "subseq (delivered_to (owners (receive i l)) (sent (receive i l)) k)
      (delivered_to (owners l) (sent l) k @ (case datagram i l of Some (k', payload) \<Rightarrow> if k' = k then [payload] else [] | None \<Rightarrow> []))"
proof -
  obtain ks where ks: "owners (receive i l) = owners l @ ks" using owners_grow by blast
  then have old: "delivered_to (owners (receive i l)) (sent l) k = delivered_to (owners l) (sent l) k"
    using assms(2) by (auto simp: delivered_to_def nth_append intro!: arg_cong [of _ _ "map snd"] filter_cong)
  show "\<forall>(c, _)\<in>set (sent (receive i l)). c < length (owners (receive i l))"
    using sent_grow [OF assms(1), of i] assms(2) by (fastforce simp: ks)
  show "subseq (delivered_to (owners (receive i l)) (sent (receive i l)) k)
      (delivered_to (owners l) (sent l) k @ (case datagram i l of Some (k', payload) \<Rightarrow> if k' = k then [payload] else [] | None \<Rightarrow> []))"
    using sent_grow [OF assms(1), of i]
  proof
    assume "sent (receive i l) = sent l"
    with old show ?thesis by (simp add: subseq_append_iff) (metis append_Nil2 list_emb_Nil subseq_order.order_refl)
  next
    assume "\<exists>k payload c. datagram i l = Some (k, payload) \<and> sent (receive i l) = sent l @ [(c, payload)] \<and>
        c < length (owners (receive i l)) \<and> owners (receive i l) ! c = k"
    then show ?thesis using old by (auto simp: delivered_to_def)
  qed
qed

lemma delivered_in_order:
  assumes "channels_ok (channel l) (owners l)" "\<forall>(c, _)\<in>set (sent l). c < length (owners l)"
  shows "subseq (delivered_to (owners (fold receive is l)) (sent (fold receive is l)) k)
    (delivered_to (owners l) (sent l) k @ received_from receive datagram is l k)"
  using assms
proof (induction "is" arbitrary: l)
  case (Cons i "is")
  note step = sent_step [OF Cons.prems]
  have "subseq (delivered_to (owners (receive i l)) (sent (receive i l)) k @ received_from receive datagram is (receive i l) k)
      (delivered_to (owners l) (sent l) k @ received_from receive datagram (i # is) l k)"
    using list_emb_append_mono [OF step(2) subseq_order.order_refl] by simp
  with Cons.IH [OF channels_kept [OF Cons.prems(1)] step(1)] show ?case
    by (simp del: received_from.simps) (rule subseq_order.order_trans)
qed simp

text \<open>A loop that starts with an empty table.\<close>

lemma delivered_from_start:
  assumes "owners l = []" "sent l = []" "\<forall>k. channel l k = None"
  shows "subseq (delivered_to (owners (fold receive is l)) (sent (fold receive is l)) k) (received_from receive datagram is l k)"
  using delivered_in_order [of l "is" k] assms by (simp add: channels_ok_def delivered_to_def)

end

section \<open>The TCP relay\<close>

definition TCP_INBOUND :: string where "TCP_INBOUND = ''tcp''"
definition UDP_INBOUND :: string where "UDP_INBOUND = ''udp''"

definition error_fields ::
    "u64 \<Rightarrow> string \<Rightarrow> string \<Rightarrow> SocketAddr \<Rightarrow> SocketAddr \<Rightarrow> EgressError \<Rightarrow> SelectionDecision option \<Rightarrow> Fields" where
  "error_fields session_id inbound egress peer target error decision =
     (let upstream = (case ee_upstream error of Some u \<Rightarrow> u | None \<Rightarrow> target) in
      session_fields session_id inbound egress peer target upstream @
      (case decision of None \<Rightarrow> [] | Some d \<Rightarrow> push_decision_fields d) @
      push_egress_error_fields egress error)"

text \<open>The body of the task of one accepted connection.\<close>

definition relay_tcp_session :: "FlowEnv \<Rightarrow> EgressNode \<Rightarrow> TcpRelayConfig \<Rightarrow> SocketAddr \<Rightarrow> RuntimeState \<Rightarrow> RuntimeState" where
  "relay_tcp_session env egress config peer st =
     (let (session_id, st1) = runtime_next_session_id st;
          target = tl_upstream config;
          target_context = fixed_upstream target
      in case select_flow env st1 session_id InTcp target_context of
           (Inl e, st2) \<Rightarrow>
             runtime_record_event (IngressEventKind.TcpError,
               session_fields session_id TCP_INBOUND (eg_tag egress) peer target target @
               [(''errorStage'', ''egress-select''), (''error'', SelectionError.se_message e)], fe_start_now env) st2
         | (Inr decision, st2) \<Rightarrow>
             (let node_protocol = eg_decision_tag egress decision;
                  st3 = runtime_record_event (TcpAccept,
                    session_fields session_id TCP_INBOUND node_protocol peer target target @
                    push_target_context_fields target_context @ push_decision_fields decision, fe_start_now env) st2;
                  st4 = fe_during env st3
              in case eg_handle_tcp egress \<lparr>tr_target = target, tr_decision = decision, tr_idle_timeout_ms = None\<rparr> of
                   Inr outcome \<Rightarrow>
                     runtime_record_event (TcpClose,
                       session_fields session_id TCP_INBOUND node_protocol peer target (to_upstream outcome) @
                       push_target_context_fields target_context @ push_decision_fields decision @
                       [(''clientToUpstreamBytes'', show_u64 (to_client_to_upstream_bytes outcome)),
                        (''upstreamToClientBytes'', show_u64 (to_upstream_to_client_bytes outcome)),
                        (''closeReason'', to_close_reason outcome)], fe_end_now env) st4
                 | Inl e \<Rightarrow>
                     runtime_record_event (IngressEventKind.TcpError,
                       error_fields session_id TCP_INBOUND node_protocol peer target e (Some decision), fe_end_now env) st4))"

text \<open>
  What wakes the accept loop up. A task holds its permit until its body has run, \<open>TcpTaskRuns\<close>; the semaphore is the number of
  tasks that hold one.
\<close>

datatype TcpRelayInput = TcpShutdown | TcpAcceptFailed | TcpAccepted SocketAddr u128 | TcpTaskRuns nat FlowEnv

record TcpRelay =
  tp_running :: "SocketAddr list"
  tp_runtime :: RuntimeState
  tp_result :: "(string + unit) option"

definition tcp_accept :: "EgressNode \<Rightarrow> TcpRelayConfig \<Rightarrow> SocketAddr \<Rightarrow> u128 \<Rightarrow> TcpRelay \<Rightarrow> TcpRelay" where
  "tcp_accept egress config peer now l =
     (if length (tp_running l) < tl_max_sessions config then l\<lparr>tp_running := tp_running l @ [peer]\<rparr>
      else (let (session_id, st) = runtime_next_session_id (tp_runtime l); target = tl_upstream config in
        l\<lparr>tp_runtime := runtime_record_event (IngressEventKind.TcpError,
          session_fields session_id TCP_INBOUND (eg_tag egress) peer target target @
          [(''errorStage'', ''inbound-capacity''), (''error'', ''TCP session limit reached''),
           (''maxSessions'', show_nat (tl_max_sessions config))], now) st\<rparr>))"

definition run_tcp :: "EgressNode \<Rightarrow> TcpRelayConfig \<Rightarrow> TcpRelayInput \<Rightarrow> TcpRelay \<Rightarrow> TcpRelay" where
  "run_tcp egress config input l =
     (case input of
        TcpTaskRuns i env \<Rightarrow>
          if i < length (tp_running l)
          then l\<lparr>tp_running := take i (tp_running l) @ drop (Suc i) (tp_running l),
                 tp_runtime := relay_tcp_session env egress config (tp_running l ! i) (tp_runtime l)\<rparr>
          else l
      | TcpShutdown \<Rightarrow> if tp_result l = None then l\<lparr>tp_result := Some (Ok ())\<rparr> else l
      | TcpAcceptFailed \<Rightarrow>
          if tp_result l = None then l\<lparr>tp_result := Some (Err ''failed accepting TCP connection'')\<rparr> else l
      | TcpAccepted peer now \<Rightarrow> if tp_result l = None then tcp_accept egress config peer now l else l)"

section \<open>The UDP relay\<close>

record UdpSessionSender =
  us_session_id :: u64
  us_decision :: SelectionDecision
  us_target_context :: TargetContext
  us_node_protocol :: string
  us_tx :: nat

record UdpAssociationTask =
  at_peer :: SocketAddr
  at_session_id :: u64
  at_decision :: SelectionDecision
  at_target_context :: TargetContext

text \<open>
  \<open>ud_tasks\<close> are the spawned tasks and \<open>ud_sent\<close> the payloads their channels took. The last argument of \<open>UdpReceived\<close> says whether
  the receiving end of the channel is still there; \<open>UdpElsewhere\<close> is what other tasks do to the runtime.
\<close>

record UdpRelay =
  ud_sessions :: "(SocketAddr, UdpSessionSender) btree"
  ud_tasks :: "UdpAssociationTask list"
  ud_sent :: "(nat \<times> bytes) list"
  ud_runtime :: RuntimeState
  ud_result :: "(string + unit) option"

datatype UdpRelayInput =
    UdpShutdown | UdpCompleted SocketAddr | UdpReceiveFailed | UdpReceived FlowEnv SocketAddr bytes bool
  | UdpElsewhere "RuntimeState \<Rightarrow> RuntimeState"

definition UdpRelay_start :: "RuntimeState \<Rightarrow> UdpRelay" where
  "UdpRelay_start st = \<lparr>ud_sessions = [], ud_tasks = [], ud_sent = [], ud_runtime = st, ud_result = None\<rparr>"

definition udp_session_refused ::
    "FlowEnv \<Rightarrow> EgressNode \<Rightarrow> UdpRelayConfig \<Rightarrow> SocketAddr \<Rightarrow> u64 \<Rightarrow> Fields \<Rightarrow> RuntimeState \<Rightarrow> RuntimeState" where
  "udp_session_refused env egress config peer session_id reason st =
     runtime_record_event (UdpError,
       session_fields session_id UDP_INBOUND (eg_tag egress) peer (ul_upstream config) (ul_upstream config) @ reason,
       fe_start_now env) st"

definition open_udp_session ::
    "FlowEnv \<Rightarrow> EgressNode \<Rightarrow> UdpRelayConfig \<Rightarrow> SocketAddr \<Rightarrow> UdpRelay \<Rightarrow> UdpSessionSender option \<times> UdpRelay" where
  "open_udp_session env egress config peer l =
     (let (session_id, st1) = runtime_next_session_id (ud_runtime l) in
      if length (ud_sessions l) \<ge> ul_max_sessions config then
        (None, l\<lparr>ud_runtime := udp_session_refused env egress config peer session_id
           [(''errorStage'', ''inbound-capacity''), (''error'', ''UDP session limit reached''),
            (''maxSessions'', show_nat (ul_max_sessions config))] st1\<rparr>)
      else (let target_context = fixed_upstream (ul_upstream config) in
        case select_flow env st1 session_id InUdp target_context of
          (Inl e, st2) \<Rightarrow>
            (None, l\<lparr>ud_runtime := udp_session_refused env egress config peer session_id
               [(''errorStage'', ''egress-select''), (''error'', SelectionError.se_message e)] st2\<rparr>)
        | (Inr decision, st2) \<Rightarrow>
            (let session = \<lparr>us_session_id = session_id, us_decision = decision, us_target_context = target_context,
                   us_node_protocol = eg_decision_tag egress decision, us_tx = length (ud_tasks l)\<rparr>
             in (Some session,
                 l\<lparr>ud_runtime := st2, ud_sessions := bt_insert peer session (ud_sessions l),
                   ud_tasks := ud_tasks l @ [\<lparr>at_peer = peer, at_session_id = session_id, at_decision = decision,
                     at_target_context = target_context\<rparr>]\<rparr>))))"

definition forward_udp :: "FlowEnv \<Rightarrow> UdpRelayConfig \<Rightarrow> SocketAddr \<Rightarrow> bytes \<Rightarrow> bool \<Rightarrow> UdpSessionSender \<Rightarrow> UdpRelay \<Rightarrow> UdpRelay" where
  "forward_udp env config peer payload delivered sender l =
     (let target = ul_upstream config;
          l1 = l\<lparr>ud_runtime := runtime_record_event (UdpDatagram,
            session_fields (us_session_id sender) UDP_INBOUND (us_node_protocol sender) peer target target @
            push_target_context_fields (us_target_context sender) @ push_decision_fields (us_decision sender) @
            [(''direction'', ''client-to-upstream''), (''bytes'', show_nat (length payload))], fe_end_now env) (ud_runtime l)\<rparr>
      in if delivered then l1\<lparr>ud_sent := ud_sent l1 @ [(us_tx sender, payload)]\<rparr>
         else l1\<lparr>ud_sessions := bt_remove peer (ud_sessions l1)\<rparr>)"

definition udp_received :: "FlowEnv \<Rightarrow> EgressNode \<Rightarrow> UdpRelayConfig \<Rightarrow> SocketAddr \<Rightarrow> bytes \<Rightarrow> bool \<Rightarrow> UdpRelay \<Rightarrow> UdpRelay" where
  "udp_received env egress config peer payload delivered l =
     (case bt_get (ud_sessions l) peer of
        Some sender \<Rightarrow> forward_udp env config peer payload delivered sender l
      | None \<Rightarrow>
          (case open_udp_session env egress config peer l of
             (None, l1) \<Rightarrow> l1
           | (Some sender, l1) \<Rightarrow> forward_udp env config peer payload delivered sender l1))"

definition run_udp :: "EgressNode \<Rightarrow> UdpRelayConfig \<Rightarrow> UdpRelayInput \<Rightarrow> UdpRelay \<Rightarrow> UdpRelay" where
  "run_udp egress config input l =
     (case input of
        UdpElsewhere f \<Rightarrow> l\<lparr>ud_runtime := f (ud_runtime l)\<rparr>
      | _ \<Rightarrow>
        if ud_result l \<noteq> None then l
        else (case input of
          UdpShutdown \<Rightarrow> l\<lparr>ud_sessions := [], ud_result := Some (Ok ())\<rparr>
        | UdpReceiveFailed \<Rightarrow> l\<lparr>ud_result := Some (Err ''failed receiving UDP datagram'')\<rparr>
        | UdpCompleted peer \<Rightarrow> l\<lparr>ud_sessions := bt_remove peer (ud_sessions l)\<rparr>
        | UdpReceived env peer payload delivered \<Rightarrow> udp_received env egress config peer payload delivered l))"

text \<open>The body of a spawned task; its value is the key that it reports as completed.\<close>

definition udp_association ::
    "FlowEnv \<Rightarrow> EgressNode \<Rightarrow> UdpRelayConfig \<Rightarrow> UdpAssociationTask \<Rightarrow> RuntimeState \<Rightarrow> SocketAddr \<times> RuntimeState" where
  "udp_association env egress config task st =
     (let peer = at_peer task; decision = at_decision task; session_id = at_session_id task;
          target = ul_upstream config;
          node_protocol = eg_decision_tag egress decision;
          fields = (\<lambda>upstream. session_fields session_id UDP_INBOUND node_protocol peer target upstream @
            push_target_context_fields (at_target_context task) @ push_decision_fields decision);
          st1 = fe_during env (runtime_record_event (UdpSessionStart, fields target, fe_start_now env) st)
      in (peer,
          case eg_handle_udp egress \<lparr>ua_session_id = session_id, ua_inbound = UDP_INBOUND, ua_peer = peer, ua_target = target,
                 ua_idle_timeout_ms = ul_idle_timeout_ms config, ua_decision = decision\<rparr> of
            Inr outcome \<Rightarrow>
              runtime_record_event (UdpSessionClose, fields (uo_upstream outcome) @ [(''closeReason'', uo_close_reason outcome)], fe_end_now env) st1
          | Inl e \<Rightarrow>
              runtime_record_event (UdpSessionClose, fields target @ [(''closeReason'', ''error'')], fe_end_now env)
                (runtime_record_event (UdpError, error_fields session_id UDP_INBOUND node_protocol peer target e (Some decision), fe_end_now env) st1)))"

section \<open>What the loops keep\<close>

definition udp_datagram :: "UdpRelayInput \<Rightarrow> UdpRelay \<Rightarrow> (SocketAddr \<times> bytes) option" where
  "udp_datagram input l =
     (case input of UdpReceived _ peer payload True \<Rightarrow> (if ud_result l = None then Some (peer, payload) else None) | _ \<Rightarrow> None)"

abbreviation udp_owners :: "UdpRelay \<Rightarrow> SocketAddr list" where
  "udp_owners l \<equiv> map at_peer (ud_tasks l)"

abbreviation udp_channel :: "UdpRelay \<Rightarrow> SocketAddr \<Rightarrow> nat option" where
  "udp_channel l peer \<equiv> map_option us_tx (bt_get (ud_sessions l) peer)"

lemmas udp_loop_defs = run_udp_def udp_received_def open_udp_session_def forward_udp_def

lemma udp_cases [case_names refused known opened]:
  assumes refused: "\<And>st. udp_received env egress config peer payload delivered l = l\<lparr>ud_runtime := st\<rparr> \<Longrightarrow>
      bt_get (ud_sessions l) peer = None \<Longrightarrow>
      ul_max_sessions config \<le> length (ud_sessions l) \<or>
      isl (fst (select_flow env (snd (runtime_next_session_id (ud_runtime l))) (fst (runtime_next_session_id (ud_runtime l))) InUdp
        (fixed_upstream (ul_upstream config)))) \<Longrightarrow> thesis"
    and known: "\<And>sender. bt_get (ud_sessions l) peer = Some sender \<Longrightarrow>
      udp_received env egress config peer payload delivered l = forward_udp env config peer payload delivered sender l \<Longrightarrow> thesis"
    and opened: "\<And>sender task st. bt_get (ud_sessions l) peer = None \<Longrightarrow> length (ud_sessions l) < ul_max_sessions config \<Longrightarrow>
      \<not> isl (fst (select_flow env (snd (runtime_next_session_id (ud_runtime l))) (fst (runtime_next_session_id (ud_runtime l))) InUdp
        (fixed_upstream (ul_upstream config)))) \<Longrightarrow>
      us_tx sender = length (ud_tasks l) \<Longrightarrow> at_peer task = peer \<Longrightarrow>
      udp_received env egress config peer payload delivered l = forward_udp env config peer payload delivered sender
        (l\<lparr>ud_runtime := st, ud_sessions := bt_insert peer sender (ud_sessions l), ud_tasks := ud_tasks l @ [task]\<rparr>) \<Longrightarrow> thesis"
  shows thesis
proof (cases "bt_get (ud_sessions l) peer")
  case (Some sender)
  then show ?thesis by (intro known) (simp_all add: udp_received_def)
next
  case None
  obtain session_id st1 where i: "runtime_next_session_id (ud_runtime l) = (session_id, st1)" by fastforce
  obtain selection st2 where s: "select_flow env st1 session_id InUdp (fixed_upstream (ul_upstream config)) = (selection, st2)" by fastforce
  note defs = udp_received_def open_udp_session_def Let_def
  show ?thesis
  proof (cases "ul_max_sessions config \<le> length (ud_sessions l)")
    case True
    with None i show ?thesis by (intro refused) (auto simp: defs)
  next
    case False
    show ?thesis
    proof (cases selection)
      case (Inl e)
      with None False i s show ?thesis by (intro refused) (auto simp: defs)
    next
      case (Inr d)
      with None False i s show ?thesis
        by (intro opened [of "\<lparr>us_session_id = session_id, us_decision = d, us_target_context = fixed_upstream (ul_upstream config),
              us_node_protocol = eg_decision_tag egress d, us_tx = length (ud_tasks l)\<rparr>"
              "\<lparr>at_peer = peer, at_session_id = session_id, at_decision = d, at_target_context = fixed_upstream (ul_upstream config)\<rparr>" st2])
          (simp_all add: defs)
    qed
  qed
qed

lemma forward_udp_fields [simp]:
  "ud_tasks (forward_udp env config peer payload delivered sender l) = ud_tasks l"
  "ud_result (forward_udp env config peer payload delivered sender l) = ud_result l"
  "ud_sent (forward_udp env config peer payload delivered sender l) = ud_sent l @ (if delivered then [(us_tx sender, payload)] else [])"
  "ud_sessions (forward_udp env config peer payload delivered sender l) =
    (if delivered then ud_sessions l else bt_remove peer (ud_sessions l))"
  by (simp_all add: forward_udp_def Let_def)

lemma channels_ok_insert:
  "channels_ok channel owners \<Longrightarrow> channels_ok (channel(k \<mapsto> length owners)) (owners @ [k])"
  by (fastforce simp: channels_ok_def nth_append)

lemma channels_ok_less: "channels_ok channel owners \<Longrightarrow> (\<And>k c. channel' k = Some c \<Longrightarrow> channel k = Some c) \<Longrightarrow> channels_ok channel' owners"
  by (auto simp: channels_ok_def)

lemma udp_received_owners: "\<exists>ks. udp_owners (udp_received env egress config peer payload delivered l) = udp_owners l @ ks"
  by (cases rule: udp_cases [of env egress config peer payload delivered l]) simp_all

lemma udp_received_channels:
  assumes ok: "channels_ok (udp_channel l) (udp_owners l)" and l': "udp_received env egress config peer payload delivered l = l'"
  shows "channels_ok (udp_channel l') (udp_owners l')"
proof (cases rule: udp_cases [of env egress config peer payload delivered l])
  case (refused st)
  with ok l' show ?thesis by auto
next
  case (known sender)
  with ok l' show ?thesis by (auto elim!: channels_ok_less split: if_splits)
next
  case (opened sender task st)
  have "channels_ok ((udp_channel l)(peer \<mapsto> length (udp_owners l))) (udp_owners l @ [peer])"
    using ok by (rule channels_ok_insert)
  then show ?thesis using opened l' by (auto elim!: channels_ok_less split: if_splits)
qed

lemma udp_received_sent:
  assumes ok: "channels_ok (udp_channel l) (udp_owners l)" and l': "udp_received env egress config peer payload delivered l = l'"
  shows "ud_sent l' = ud_sent l \<or>
    delivered \<and> (\<exists>c. ud_sent l' = ud_sent l @ [(c, payload)] \<and> c < length (udp_owners l') \<and> udp_owners l' ! c = peer)"
proof (cases rule: udp_cases [of env egress config peer payload delivered l])
  case (known sender)
  from known(1) have "us_tx sender < length (udp_owners l) \<and> udp_owners l ! us_tx sender = peer"
    using ok [unfolded channels_ok_def, rule_format, of peer "us_tx sender"] by simp
  moreover have "l' = forward_udp env config peer payload delivered sender l" using known(2) l' by simp
  ultimately show ?thesis by auto
qed (use l' in \<open>auto simp: nth_append\<close>)

interpretation relay: session_table "run_udp egress config" udp_datagram udp_owners ud_sent udp_channel
proof
  fix i l
  show "\<exists>ks. udp_owners (run_udp egress config i l) = udp_owners l @ ks"
    using udp_received_owners by (auto simp: run_udp_def split: UdpRelayInput.splits)
  assume ok: "channels_ok (udp_channel l) (udp_owners l)"
  show "channels_ok (udp_channel (run_udp egress config i l)) (udp_owners (run_udp egress config i l))"
    using ok udp_received_channels [OF ok refl]
    by (cases i) (auto simp: run_udp_def bt_get_def [of "[]"] elim!: channels_ok_less split: if_splits)
  show "ud_sent (run_udp egress config i l) = ud_sent l \<or>
      (\<exists>k payload c. udp_datagram i l = Some (k, payload) \<and> ud_sent (run_udp egress config i l) = ud_sent l @ [(c, payload)] \<and>
        c < length (udp_owners (run_udp egress config i l)) \<and> udp_owners (run_udp egress config i l) ! c = k)"
  proof (cases i)
    case (UdpReceived env peer payload delivered)
    then show ?thesis
      using udp_received_sent [OF ok, of env egress config peer payload delivered]
      by (auto simp: run_udp_def udp_datagram_def)
  qed (simp_all add: run_udp_def)
qed

text \<open>At most as many sessions as the configuration allows.\<close>

lemma length_bt_insert_le: "length (bt_insert k v m) \<le> Suc (length m)"
  by (induction k v m rule: bt_insert.induct) auto

lemma length_bt_remove_le: "length (bt_remove k m) \<le> length m"
  by (simp add: bt_remove_def)

lemma udp_received_bound:
  assumes "length (ud_sessions l) \<le> ul_max_sessions config"
  shows "length (ud_sessions (udp_received env egress config peer payload delivered l)) \<le> ul_max_sessions config"
proof (cases rule: udp_cases [of env egress config peer payload delivered l])
  case (opened sender task st)
  then have "length (bt_insert peer sender (ud_sessions l)) \<le> ul_max_sessions config"
    using length_bt_insert_le [of peer sender "ud_sessions l"] by linarith
  with opened length_bt_remove_le [of peer "bt_insert peer sender (ud_sessions l)"] show ?thesis by auto
qed (use assms length_bt_remove_le [of peer "ud_sessions l"] in auto)

lemma run_udp_bound:
  "length (ud_sessions l) \<le> ul_max_sessions config \<Longrightarrow>
    length (ud_sessions (fold (run_udp egress config) inputs l)) \<le> ul_max_sessions config"
proof (induction inputs arbitrary: l)
  case (Cons i inputs)
  have "length (ud_sessions (run_udp egress config i l)) \<le> ul_max_sessions config"
  proof (cases i)
    case (UdpCompleted peer)
    with Cons.prems length_bt_remove_le [of peer "ud_sessions l"] show ?thesis by (simp add: run_udp_def)
  qed (use Cons.prems in \<open>simp_all add: run_udp_def udp_received_bound\<close>)
  then show ?case using Cons.IH by simp
qed simp

text \<open>
  C12. The UDP relay with a fixed upstream, over any sequence of what its loop can be woken up by: it never has more sessions than configured; the tasks
  spawned for a peer receive, in order, only payloads that came from that peer; and while the loop runs, a datagram whose channel is open reaches
  a task except when the peer has no session and either the limit is reached or no node can be selected.
\<close>

theorem udp_relay_delivers:
  fixes egress config inputs st
  defines "l \<equiv> fold (run_udp egress config) inputs (UdpRelay_start st)"
  shows "length (ud_sessions l) \<le> ul_max_sessions config \<and>
    subseq (delivered_to (map at_peer (ud_tasks l)) (ud_sent l) peer)
      (received_from (run_udp egress config) udp_datagram inputs (UdpRelay_start st) peer) \<and>
    (ud_sent (run_udp egress config (UdpReceived env peer payload True) l) = ud_sent l \<longleftrightarrow>
       (if ud_result l = None
        then bt_get (ud_sessions l) peer = None \<and>
          (let (session_id, st1) = runtime_next_session_id (ud_runtime l) in
           ul_max_sessions config \<le> length (ud_sessions l) \<or>
           isl (fst (select_flow env st1 session_id InUdp (fixed_upstream (ul_upstream config)))))
        else True))"
proof -
  have "length (ud_sessions l) \<le> ul_max_sessions config"
    unfolding l_def by (rule run_udp_bound) (simp add: UdpRelay_start_def)
  moreover have "subseq (delivered_to (map at_peer (ud_tasks l)) (ud_sent l) peer)
      (received_from (run_udp egress config) udp_datagram inputs (UdpRelay_start st) peer)"
    unfolding l_def by (rule relay.delivered_from_start) (simp_all add: UdpRelay_start_def bt_get_def)
  moreover have "ud_sent (udp_received env egress config peer payload True l) = ud_sent l \<longleftrightarrow>
       bt_get (ud_sessions l) peer = None \<and>
       (let (session_id, st1) = runtime_next_session_id (ud_runtime l) in
        ul_max_sessions config \<le> length (ud_sessions l) \<or>
        isl (fst (select_flow env st1 session_id InUdp (fixed_upstream (ul_upstream config)))))"
    by (cases rule: udp_cases [of env egress config peer payload True l]) (auto simp: Let_def case_prod_beta)
  ultimately show ?thesis by (simp add: run_udp_def)
qed

text \<open>The semaphore of the TCP relay.\<close>

lemma tcp_accept_running:
  "tp_running (tcp_accept egress config peer now l) =
    (if length (tp_running l) < tl_max_sessions config then tp_running l @ [peer] else tp_running l)"
  by (simp add: tcp_accept_def split_beta Let_def)

lemma run_tcp_bound:
  "length (tp_running l) \<le> tl_max_sessions config \<Longrightarrow>
    length (tp_running (fold (run_tcp egress config) inputs l)) \<le> tl_max_sessions config"
proof (induction inputs arbitrary: l)
  case (Cons i inputs)
  have "length (tp_running (run_tcp egress config i l)) \<le> tl_max_sessions config"
    using Cons.prems by (cases i) (auto simp: run_tcp_def tcp_accept_running)
  then show ?case using Cons.IH by simp
qed simp

end
