(* ===== verification/Socks_Ingress.thy ===== *)
theory Socks_Ingress
  imports Relay_Sessions Socks_Protocol
begin

text \<open>
  The SOCKS5 inbound, \<open>dynet-ingress/src/socks.rs\<close> with \<open>socks/events.rs\<close> and \<open>socks/model.rs\<close>: a client from its greeting to the end
  of its flow, and the loop of a UDP association as a function of what wakes it up. The protocol itself is in \<open>Socks_Protocol\<close>.
\<close>

section \<open>Events\<close>

definition SOCKS5_INBOUND :: string where "SOCKS5_INBOUND = ''socks5''"

definition push_destination_fields :: "SocksDestination \<Rightarrow> Fields" where
  "push_destination_fields destination =
     (case SocksDestination_domain destination of None \<Rightarrow> [] | Some domain \<Rightarrow> [(''targetDomain'', domain)])"

definition socks_session_fields :: "u64 \<Rightarrow> string \<Rightarrow> SocketAddr \<Rightarrow> SocketAddr \<Rightarrow> SocksDestination \<Rightarrow> Fields" where
  "socks_session_fields session_id node_protocol peer target destination =
     session_fields session_id SOCKS5_INBOUND node_protocol peer target target @ push_destination_fields destination"

definition egress_error_fields ::
    "u64 \<Rightarrow> string \<Rightarrow> SocketAddr \<Rightarrow> SocketAddr \<Rightarrow> SocksDestination \<Rightarrow> EgressError \<Rightarrow> SelectionDecision option \<Rightarrow> Fields" where
  "egress_error_fields session_id node_protocol peer target destination error decision =
     (let upstream = (case ee_upstream error of Some u \<Rightarrow> u | None \<Rightarrow> target) in
      session_fields session_id SOCKS5_INBOUND node_protocol peer target upstream @ push_destination_fields destination @
      (case decision of None \<Rightarrow> [] | Some d \<Rightarrow> push_decision_fields d) @
      push_egress_error_fields node_protocol error)"

definition base_socks_fields :: "u64 \<Rightarrow> string \<Rightarrow> SocketAddr \<Rightarrow> Fields" where
  "base_socks_fields session_id node_protocol peer =
     [(''sessionId'', show_u64 session_id), (''inbound'', SOCKS5_INBOUND), (''nodeProtocol'', node_protocol),
      (''peer'', show_socket peer)] @ push_endpoint_fields ''peer'' peer"

definition record_socks_error :: "u64 \<Rightarrow> SocketAddr \<Rightarrow> string \<Rightarrow> string \<Rightarrow> u128 \<Rightarrow> RuntimeState \<Rightarrow> RuntimeState" where
  "record_socks_error session_id peer stage message now st =
     runtime_record_event (IngressEventKind.TcpError,
       base_socks_fields session_id ''unknown'' peer @ [(''errorStage'', stage), (''error'', message)], now) st"

section \<open>Destinations\<close>

definition select_target ::
    "FlowEnv \<Rightarrow> RuntimeState \<Rightarrow> u64 \<Rightarrow> InboundKind \<Rightarrow> TargetContext \<Rightarrow> (SocksError + SelectionDecision) \<times> RuntimeState" where
  "select_target env st session_id inbound target =
     (case select_flow env st session_id inbound target of
        (Inl e, st1) \<Rightarrow> (Err (SocksError_new ''egress-select'' (SelectionError.se_message e)), st1)
      | (Inr decision, st1) \<Rightarrow> (Ok decision, st1))"

fun resolve_destination ::
    "FlowEnv \<Rightarrow> RuntimeState \<Rightarrow> SocksDestination \<Rightarrow> (SocksError + TargetContext) option \<times> RuntimeState" where
  "resolve_destination env st (Socket address) =
     (case resolve_socket_destination env st address of (target, st1) \<Rightarrow> (map_option Ok target, st1))"
| "resolve_destination env st (Domain domain port) =
     (case resolve_domain_a st domain port (fe_dns_now env) (fe_dns_inputs env) of
        (None, st1) \<Rightarrow> (None, st1)
      | (Some (Inl SlicePanic), st1) \<Rightarrow> (None, st1)
      | (Some (Inl (ResolveError e)), st1) \<Rightarrow>
          (Some (Err (SocksError_new ''socks-resolve'' (''failed resolving '' @ domain @ '':'' @ show_nat (unat port) @ '': '' @ e))), st1)
      | (Some (Inr address), st1) \<Rightarrow> (Some (Ok (dynet_dns address domain)), st1))"

fun response_target_for_destination :: "SocksDestination \<Rightarrow> SocketAddr \<Rightarrow> SocketAddr" where
  "response_target_for_destination (Socket address) target = address"
| "response_target_for_destination (Domain _ _) target = target"

section \<open>CONNECT\<close>

definition UNSPECIFIED :: SocketAddr where "UNSPECIFIED = mk_sockaddr (V4 0) 0"

definition connect_carried ::
    "FlowEnv \<Rightarrow> EgressNode \<Rightarrow> SocketAddr \<Rightarrow> u64 \<Rightarrow> SocksDestination \<Rightarrow> TargetContext \<Rightarrow> SelectionDecision \<Rightarrow> RuntimeState \<Rightarrow> RuntimeState" where
  "connect_carried env egress peer session_id destination target_context decision st =
     (let target = tc_address target_context;
          node_protocol = eg_decision_tag egress decision;
          fields = socks_session_fields session_id node_protocol peer target destination @
            push_target_context_fields target_context @ push_decision_fields decision;
          st1 = fe_during env (runtime_record_event (TcpAccept, fields, fe_start_now env) st)
      in case eg_handle_tcp egress \<lparr>tr_target = target, tr_decision = decision, tr_idle_timeout_ms = None\<rparr> of
           Inr outcome \<Rightarrow>
             runtime_record_event (TcpClose, fields @
               [(''upstream'', show_socket (to_upstream outcome))] @ push_endpoint_fields ''upstream'' (to_upstream outcome) @
               [(''clientToUpstreamBytes'', show_u64 (to_client_to_upstream_bytes outcome)),
                (''upstreamToClientBytes'', show_u64 (to_upstream_to_client_bytes outcome)),
                (''closeReason'', to_close_reason outcome)], fe_end_now env) st1
         | Inl e \<Rightarrow>
             runtime_record_event (IngressEventKind.TcpError,
               egress_error_fields session_id node_protocol peer target destination e (Some decision), fe_end_now env) st1)"

definition handle_connect ::
    "FlowEnv \<Rightarrow> EgressNode \<Rightarrow> SocketAddr \<Rightarrow> u64 \<Rightarrow> SocksRequest \<Rightarrow> SocksClient \<Rightarrow> RuntimeState \<Rightarrow>
      (SocksError + unit) option \<times> SocksClient \<times> RuntimeState" where
  "handle_connect env egress peer session_id req client st =
     (case resolve_destination env st (sq_destination req) of
        (None, st1) \<Rightarrow> (None, client, st1)
      | (Some (Inl e), st1) \<Rightarrow> (Some (Err e), client, st1)
      | (Some (Inr target_context), st1) \<Rightarrow>
          (case select_target env st1 session_id InTcp target_context of
             (Inl e, st2) \<Rightarrow> (Some (Err e), client, st2)
           | (Inr decision, st2) \<Rightarrow>
               (case write_reply client SOCKS_REPLY_SUCCEEDED UNSPECIFIED of
                  (Inl e, client1) \<Rightarrow> (Some (Err e), client1, st2)
                | (Inr _, client1) \<Rightarrow>
                    (Some (Ok ()), client1,
                     connect_carried env egress peer session_id (sq_destination req) target_context decision st2))))"

section \<open>UDP associations\<close>

record UdpAssociationSender =
  as_node_protocol :: string
  as_decision :: SelectionDecision
  as_target_context :: TargetContext
  as_tx :: nat

record SocksUdpTask =
  sx_udp_peer :: SocketAddr
  sx_target :: SocketAddr
  sx_target_context :: TargetContext
  sx_response_target :: SocketAddr
  sx_destination :: SocksDestination
  sx_session_id :: u64
  sx_decision :: SelectionDecision
  sx_idle_timeout_ms :: nat

text \<open>The loop runs, waits for ever for an answer of the resolver, or has returned.\<close>

datatype LoopEnd = Looping | LoopWaiting | LoopEnded "SocksError + unit"

text \<open>
  The tasks it spawned and the payloads that went into their channels are part of its state, as in \<open>UdpRelay\<close>. The last argument of
  \<open>SocksReceived\<close> says whether the receiving end of the channel is still there.
\<close>

record SocksUdpLoop =
  sl_associations :: "(SocketAddr \<times> SocketAddr, UdpAssociationSender) btree"
  sl_tasks :: "SocksUdpTask list"
  sl_sent :: "(nat \<times> bytes) list"
  sl_runtime :: RuntimeState
  sl_end :: LoopEnd

datatype SocksUdpInput =
    ControlClosed | AssociationCompleted "SocketAddr \<times> SocketAddr" | SocksReceiveFailed
  | SocksReceived FlowEnv bytes SocketAddr bool | SocksElsewhere "RuntimeState \<Rightarrow> RuntimeState"

definition SocksUdpLoop_start :: "RuntimeState \<Rightarrow> SocksUdpLoop" where
  "SocksUdpLoop_start st = \<lparr>sl_associations = [], sl_tasks = [], sl_sent = [], sl_runtime = st, sl_end = Looping\<rparr>"

text \<open>A new association for \<open>key\<close>: select, insert, spawn.\<close>

definition open_association ::
    "FlowEnv \<Rightarrow> EgressNode \<Rightarrow> Socks5IngressConfig \<Rightarrow> u64 \<Rightarrow> SocketAddr \<Rightarrow> SocksDestination \<Rightarrow> TargetContext \<Rightarrow> SocksUdpLoop \<Rightarrow>
      (SocksError + UdpAssociationSender) \<times> SocksUdpLoop" where
  "open_association env egress config session_id udp_peer destination target_context l =
     (case select_target env (sl_runtime l) session_id InUdp target_context of
        (Inl e, st1) \<Rightarrow> (Err e, l\<lparr>sl_runtime := st1\<rparr>)
      | (Inr decision, st1) \<Rightarrow>
          (let target = tc_address target_context;
               sender = \<lparr>as_node_protocol = eg_decision_tag egress decision, as_decision = decision,
                 as_target_context = target_context, as_tx = length (sl_tasks l)\<rparr>
           in (Ok sender,
               l\<lparr>sl_runtime := st1, sl_associations := bt_insert (udp_peer, target) sender (sl_associations l),
                 sl_tasks := sl_tasks l @ [\<lparr>sx_udp_peer = udp_peer, sx_target = target, sx_target_context = target_context,
                   sx_response_target = response_target_for_destination destination target, sx_destination = destination,
                   sx_session_id = session_id, sx_decision = decision, sx_idle_timeout_ms = s5_idle_timeout_ms config\<rparr>]\<rparr>)))"

definition forward_socks_udp ::
    "FlowEnv \<Rightarrow> SocketAddr \<Rightarrow> u64 \<Rightarrow> SocketAddr \<Rightarrow> SocketAddr \<Rightarrow> SocksUdpPacket \<Rightarrow> bool \<Rightarrow> UdpAssociationSender \<Rightarrow> SocksUdpLoop \<Rightarrow> SocksUdpLoop" where
  "forward_socks_udp env peer session_id udp_peer target packet delivered sender l =
     (let l1 = l\<lparr>sl_runtime := runtime_record_event (UdpDatagram,
            socks_session_fields session_id (as_node_protocol sender) peer target (su_destination packet) @
            push_target_context_fields (as_target_context sender) @ push_decision_fields (as_decision sender) @
            [(''udpPeer'', show_socket udp_peer), (''direction'', ''client-to-upstream''),
             (''bytes'', show_nat (length (su_payload packet)))], fe_end_now env) (sl_runtime l)\<rparr>
      in if delivered then l1\<lparr>sl_sent := sl_sent l1 @ [(as_tx sender, su_payload packet)]\<rparr>
         else l1\<lparr>sl_associations := bt_remove (udp_peer, target) (sl_associations l1)\<rparr>)"

definition socks_udp_received ::
    "FlowEnv \<Rightarrow> EgressNode \<Rightarrow> Socks5IngressConfig \<Rightarrow> SocketAddr \<Rightarrow> u64 \<Rightarrow> bytes \<Rightarrow> SocketAddr \<Rightarrow> bool \<Rightarrow> SocksUdpLoop \<Rightarrow> SocksUdpLoop" where
  "socks_udp_received env egress config peer session_id buffer udp_peer delivered l =
     (case parse_udp_packet buffer of
        Inl e \<Rightarrow> l\<lparr>sl_end := LoopEnded (Err e)\<rparr>
      | Inr packet \<Rightarrow>
          (case resolve_destination env (sl_runtime l) (su_destination packet) of
             (None, st1) \<Rightarrow> l\<lparr>sl_runtime := st1, sl_end := LoopWaiting\<rparr>
           | (Some (Inl e), st1) \<Rightarrow> l\<lparr>sl_runtime := st1, sl_end := LoopEnded (Err e)\<rparr>
           | (Some (Inr target_context), st1) \<Rightarrow>
               (let l1 = l\<lparr>sl_runtime := st1\<rparr>; target = tc_address target_context in
                case bt_get (sl_associations l1) (udp_peer, target) of
                  Some sender \<Rightarrow> forward_socks_udp env peer session_id udp_peer target packet delivered sender l1
                | None \<Rightarrow>
                    (case open_association env egress config session_id udp_peer (su_destination packet) target_context l1 of
                       (Inl e, l2) \<Rightarrow> l2\<lparr>sl_end := LoopEnded (Err e)\<rparr>
                     | (Inr sender, l2) \<Rightarrow> forward_socks_udp env peer session_id udp_peer target packet delivered sender l2))))"

definition run_socks_udp_loop ::
    "EgressNode \<Rightarrow> Socks5IngressConfig \<Rightarrow> SocketAddr \<Rightarrow> u64 \<Rightarrow> SocksUdpInput \<Rightarrow> SocksUdpLoop \<Rightarrow> SocksUdpLoop" where
  "run_socks_udp_loop egress config peer session_id input l =
     (case input of
        SocksElsewhere f \<Rightarrow> l\<lparr>sl_runtime := f (sl_runtime l)\<rparr>
      | _ \<Rightarrow>
        if sl_end l \<noteq> Looping then l
        else (case input of
          ControlClosed \<Rightarrow> l\<lparr>sl_end := LoopEnded (Ok ())\<rparr>
        | AssociationCompleted key \<Rightarrow> l\<lparr>sl_associations := bt_remove key (sl_associations l)\<rparr>
        | SocksReceiveFailed \<Rightarrow>
            l\<lparr>sl_end := LoopEnded (Err (SocksError_new ''socks-udp-read'' ''failed receiving SOCKS5 UDP datagram''))\<rparr>
        | SocksReceived env buffer udp_peer delivered \<Rightarrow>
            socks_udp_received env egress config peer session_id buffer udp_peer delivered l))"

text \<open>The body of the task of one association; its value is the key that it reports as completed.\<close>

definition spawn_socks_udp_association ::
    "FlowEnv \<Rightarrow> EgressNode \<Rightarrow> SocksUdpTask \<Rightarrow> RuntimeState \<Rightarrow> (SocketAddr \<times> SocketAddr) \<times> RuntimeState" where
  "spawn_socks_udp_association env egress task st =
     (let udp_peer = sx_udp_peer task; target = sx_target task; session_id = sx_session_id task; decision = sx_decision task;
          node_protocol = eg_decision_tag egress decision;
          st1 = fe_during env st
      in ((udp_peer, target),
          case eg_handle_udp egress \<lparr>ua_session_id = session_id, ua_inbound = SOCKS5_INBOUND, ua_peer = udp_peer, ua_target = target,
                 ua_idle_timeout_ms = sx_idle_timeout_ms task, ua_decision = decision\<rparr> of
            Inr outcome \<Rightarrow>
              runtime_record_event (UdpSessionClose,
                socks_session_fields session_id node_protocol udp_peer target (sx_destination task) @
                push_target_context_fields (sx_target_context task) @ push_decision_fields decision @
                [(''upstream'', show_socket (uo_upstream outcome))] @ push_endpoint_fields ''upstream'' (uo_upstream outcome) @
                [(''closeReason'', uo_close_reason outcome)], fe_end_now env) st1
          | Inl e \<Rightarrow>
              runtime_record_event (UdpError,
                egress_error_fields session_id node_protocol udp_peer target (sx_destination task) e (Some decision), fe_end_now env) st1))"

section \<open>Clients\<close>

text \<open>What binding the socket of an association answers, and what wakes its loop up.\<close>

record SocksUdpEnv =
  ve_bind :: "IoErrorKind + unit"
  ve_local_addr :: "IoErrorKind + SocketAddr"
  ve_inputs :: "SocksUdpInput list"

definition handle_udp_associate ::
    "FlowEnv \<Rightarrow> SocksUdpEnv \<Rightarrow> EgressNode \<Rightarrow> Socks5IngressConfig \<Rightarrow> SocketAddr \<Rightarrow> u64 \<Rightarrow> SocksClient \<Rightarrow> RuntimeState \<Rightarrow>
      (SocksError + unit) option \<times> SocksClient \<times> RuntimeState" where
  "handle_udp_associate env udp egress config peer session_id control st =
     (case ve_bind udp of
        Inl _ \<Rightarrow> (Some (Err (SocksError_new ''socks-udp-bind'' ''failed binding UDP associate socket'')), control, st)
      | Inr _ \<Rightarrow>
          (case ve_local_addr udp of
             Inl _ \<Rightarrow> (Some (Err (SocksError_new ''socks-udp-bind'' ''failed reading UDP associate bind'')), control, st)
           | Inr bound \<Rightarrow>
               (let advertised_bind = mk_sockaddr (case s5_udp_advertise_ip config of Some ip \<Rightarrow> ip | None \<Rightarrow> sa_ip bound) (sa_port bound) in
                case write_reply control SOCKS_REPLY_SUCCEEDED advertised_bind of
                  (Inl e, control1) \<Rightarrow> (Some (Err e), control1, st)
                | (Inr _, control1) \<Rightarrow>
                    (let st1 = runtime_record_event (UdpSessionStart,
                           base_socks_fields session_id (eg_tag egress) peer @
                           [(''udpBind'', show_socket advertised_bind), (''udpListen'', show_socket bound)] @
                           push_endpoint_fields ''upstream'' advertised_bind, fe_start_now env) st;
                         l = fold (run_socks_udp_loop egress config peer session_id) (ve_inputs udp) (SocksUdpLoop_start st1)
                     in ((case sl_end l of LoopEnded r \<Rightarrow> Some r | _ \<Rightarrow> None), control1, sl_runtime l)))))"

definition refuse_command ::
    "string \<Rightarrow> SocksClient \<Rightarrow> RuntimeState \<Rightarrow> (SocksError + unit) option \<times> SocksClient \<times> RuntimeState" where
  "refuse_command message client st =
     (case write_reply client SOCKS_REPLY_COMMAND_NOT_SUPPORTED UNSPECIFIED of
        (Inl e, client1) \<Rightarrow> (Some (Err e), client1, st)
      | (Inr _, client1) \<Rightarrow> (Some (Err (SocksError_new ''socks-request'' message)), client1, st))"

definition handle_client ::
    "FlowEnv \<Rightarrow> SocksUdpEnv \<Rightarrow> EgressNode \<Rightarrow> Socks5IngressConfig \<Rightarrow> SocketAddr \<Rightarrow> u64 \<Rightarrow> SocksClient \<Rightarrow> RuntimeState \<Rightarrow>
      (SocksError + unit) option \<times> SocksClient \<times> RuntimeState" where
  "handle_client env udp egress config peer session_id client st =
     (case negotiate_no_auth client of
        (Inl e, client1) \<Rightarrow> (Some (Err e), client1, st)
      | (Inr _, client1) \<Rightarrow>
          (case read_request client1 of
             (Inl e, client2) \<Rightarrow> (Some (Err e), client2, st)
           | (Inr req, client2) \<Rightarrow>
               if sq_command req = SOCKS_CMD_CONNECT then handle_connect env egress peer session_id req client2 st
               else if sq_command req = SOCKS_CMD_UDP_ASSOCIATE then
                 handle_udp_associate env udp egress config peer session_id client2 st
               else if sq_command req = SOCKS_CMD_BIND then refuse_command ''SOCKS5 BIND is not supported'' client2 st
               else refuse_command ''SOCKS5 command is not supported'' client2 st))"

text \<open>The task of a client, spawned when there is a permit.\<close>

definition socks_session ::
    "FlowEnv \<Rightarrow> SocksUdpEnv \<Rightarrow> EgressNode \<Rightarrow> Socks5IngressConfig \<Rightarrow> SocketAddr \<Rightarrow> SocksClient \<Rightarrow> RuntimeState \<Rightarrow>
      SocksClient \<times> RuntimeState" where
  "socks_session env udp egress config peer client st =
     (let (session_id, st1) = runtime_next_session_id st in
      case handle_client env udp egress config peer session_id client st1 of
        (Some (Inl e), client1, st2) \<Rightarrow>
          (client1, record_socks_error session_id peer (se_stage e) (SocksError.se_message e) (fe_end_now env) st2)
      | (_, client1, st2) \<Rightarrow> (client1, st2))"

text \<open>The accept loop: a failed accept is not its end.\<close>

datatype SocksInput = SocksShutdown | SocksAcceptFailed | SocksAccepted SocketAddr SocksClient u128 | SocksTaskRuns nat FlowEnv SocksUdpEnv

record SocksServer =
  sv_running :: "(SocketAddr \<times> SocksClient) list"
  sv_runtime :: RuntimeState
  sv_result :: "(string + unit) option"

definition run_socks5 :: "EgressNode \<Rightarrow> Socks5IngressConfig \<Rightarrow> SocksInput \<Rightarrow> SocksServer \<Rightarrow> SocksServer" where
  "run_socks5 egress config input l =
     (case input of
        SocksTaskRuns i env udp \<Rightarrow>
          if i < length (sv_running l)
          then (case sv_running l ! i of (peer, client) \<Rightarrow>
            l\<lparr>sv_running := take i (sv_running l) @ drop (Suc i) (sv_running l),
              sv_runtime := snd (socks_session env udp egress config peer client (sv_runtime l))\<rparr>)
          else l
      | SocksShutdown \<Rightarrow> if sv_result l = None then l\<lparr>sv_result := Some (Ok ())\<rparr> else l
      | SocksAcceptFailed \<Rightarrow> l
      | SocksAccepted peer client now \<Rightarrow>
          if sv_result l \<noteq> None then l
          else if length (sv_running l) < s5_max_sessions config then l\<lparr>sv_running := sv_running l @ [(peer, client)]\<rparr>
          else (let (session_id, st) = runtime_next_session_id (sv_runtime l) in
            l\<lparr>sv_runtime := record_socks_error session_id peer ''inbound-capacity'' ''SOCKS5 session limit reached'' now st\<rparr>))"

section \<open>A CONNECT from greeting to flow\<close>

lemma negotiate_ok:
  assumes "so_bytes (sk_source client) = [5, n] @ methods @ rest" "length methods = unat n" "0 \<in> set methods" "si_failures (sk_sink client) = []"
  shows "negotiate_no_auth client =
    (Ok (), (client_at client rest)\<lparr>sk_sink := (sk_sink client)\<lparr>si_sent := si_sent (sk_sink client) @ [5, 0]\<rparr>\<rparr>)"
  using assms
  by (simp add: negotiate_no_auth_def socks_read_def read_exact_def socks_constants socks_write_def write_all_def Let_def client_at_def)

lemma reply_ok:
  assumes "si_failures (sk_sink client) = []"
  shows "write_reply client SOCKS_REPLY_SUCCEEDED UNSPECIFIED =
    (Ok (), client\<lparr>sk_sink := (sk_sink client)\<lparr>si_sent := si_sent (sk_sink client) @ [5, 0, 0, 1, 0, 0, 0, 0, 0, 0]\<rparr>\<rparr>)"
proof -
  have "v4_octets 0 = [0, 0, 0, 0]" "u16_to_be 0 = [0, 0]" by code_simp+
  with assms show ?thesis
    by (simp add: write_reply_def UNSPECIFIED_def mk_sockaddr_def socks_constants socks_write_def write_all_def Let_def)
qed

text \<open>
  C20. A client that greets with a list of methods containing \<open>no authentication\<close> and sends a CONNECT request is served, whatever the length of the list and the
  form of the destination: when the destination resolves and a node is selected, the client has received exactly the
  choice of the method and the success reply, the bytes it sent behind the request are still to be read, and the
  flow has been accepted, carried and ended with the target and the decision of the selection.
\<close>

theorem socks_connect_served:
  assumes "so_bytes (sk_source client) = [5, n] @ methods @ request_bytes \<lparr>sq_command = 1, sq_destination = d\<rparr> @ rest"
    and "length methods = unat n" "0 \<in> set methods" "destination_ok d" "si_failures (sk_sink client) = []"
    and "resolve_destination env st d = (Some (Ok target_context), st1)"
    and "select_flow env st1 session_id InTcp target_context = (Ok decision, st2)"
  shows "\<exists>client'. handle_client env udp egress config peer session_id client st =
      (Some (Ok ()), client', connect_carried env egress peer session_id d target_context decision st2) \<and>
    si_sent (sk_sink client') = si_sent (sk_sink client) @ [5, 0] @ [5, 0, 0, 1, 0, 0, 0, 0, 0, 0] \<and>
    so_bytes (sk_source client') = rest"
proof -
  let ?r = "\<lparr>sq_command = 1, sq_destination = d\<rparr>"
  let ?c1 = "(client_at client (request_bytes ?r @ rest))\<lparr>sk_sink := (sk_sink client)\<lparr>si_sent := si_sent (sk_sink client) @ [5, 0]\<rparr>\<rparr>"
  have "negotiate_no_auth client = (Ok (), ?c1)" using assms by (intro negotiate_ok) auto
  moreover have "read_request ?c1 = (Ok ?r, client_at ?c1 rest)"
    using assms(4) by (auto simp: read_request_iff client_at_def)
  moreover have "select_target env st1 session_id InTcp target_context = (Ok decision, st2)"
    using assms(7) by (simp add: select_target_def)
  ultimately show ?thesis
    using assms(5,6) reply_ok [of "client_at ?c1 rest"]
    by (simp add: handle_client_def handle_connect_def socks_constants)
qed

section \<open>Associations\<close>

definition socks_datagram :: "SocksUdpInput \<Rightarrow> SocksUdpLoop \<Rightarrow> ((SocketAddr \<times> SocketAddr) \<times> bytes) option" where
  "socks_datagram input l =
     (case input of
        SocksReceived env buffer udp_peer True \<Rightarrow>
          (case (sl_end l, parse_udp_packet buffer) of
             (Looping, Inr packet) \<Rightarrow>
               (case fst (resolve_destination env (sl_runtime l) (su_destination packet)) of
                  Some (Inr target_context) \<Rightarrow> Some ((udp_peer, tc_address target_context), su_payload packet)
                | _ \<Rightarrow> None)
           | _ \<Rightarrow> None)
      | _ \<Rightarrow> None)"

abbreviation socks_owners :: "SocksUdpLoop \<Rightarrow> (SocketAddr \<times> SocketAddr) list" where
  "socks_owners l \<equiv> map (\<lambda>task. (sx_udp_peer task, sx_target task)) (sl_tasks l)"

abbreviation socks_channel :: "SocksUdpLoop \<Rightarrow> SocketAddr \<times> SocketAddr \<Rightarrow> nat option" where
  "socks_channel l key \<equiv> map_option as_tx (bt_get (sl_associations l) key)"

lemma forward_socks_udp_fields [simp]:
  "sl_tasks (forward_socks_udp env peer session_id udp_peer target packet delivered sender l) = sl_tasks l"
  "sl_end (forward_socks_udp env peer session_id udp_peer target packet delivered sender l) = sl_end l"
  "sl_sent (forward_socks_udp env peer session_id udp_peer target packet delivered sender l) =
    sl_sent l @ (if delivered then [(as_tx sender, su_payload packet)] else [])"
  "sl_associations (forward_socks_udp env peer session_id udp_peer target packet delivered sender l) =
    (if delivered then sl_associations l else bt_remove (udp_peer, target) (sl_associations l))"
  by (simp_all add: forward_socks_udp_def Let_def)

lemma socks_udp_cases [case_names stopped known opened]:
  assumes stopped: "\<And>st r. socks_udp_received env egress config peer session_id buffer udp_peer delivered l =
      l\<lparr>sl_runtime := st, sl_end := r\<rparr> \<Longrightarrow> r \<noteq> Looping \<Longrightarrow> thesis"
    and known: "\<And>packet target_context st sender. parse_udp_packet buffer = Inr packet \<Longrightarrow>
      resolve_destination env (sl_runtime l) (su_destination packet) = (Some (Inr target_context), st) \<Longrightarrow>
      bt_get (sl_associations l) (udp_peer, tc_address target_context) = Some sender \<Longrightarrow>
      socks_udp_received env egress config peer session_id buffer udp_peer delivered l =
        forward_socks_udp env peer session_id udp_peer (tc_address target_context) packet delivered sender (l\<lparr>sl_runtime := st\<rparr>) \<Longrightarrow> thesis"
    and opened: "\<And>packet target_context st st' sender task. parse_udp_packet buffer = Inr packet \<Longrightarrow>
      resolve_destination env (sl_runtime l) (su_destination packet) = (Some (Inr target_context), st) \<Longrightarrow>
      bt_get (sl_associations l) (udp_peer, tc_address target_context) = None \<Longrightarrow>
      as_tx sender = length (sl_tasks l) \<Longrightarrow> as_decision sender = sx_decision task \<Longrightarrow>
      sx_udp_peer task = udp_peer \<Longrightarrow> sx_target task = tc_address target_context \<Longrightarrow>
      socks_udp_received env egress config peer session_id buffer udp_peer delivered l =
        forward_socks_udp env peer session_id udp_peer (tc_address target_context) packet delivered sender
          (l\<lparr>sl_runtime := st', sl_associations := bt_insert (udp_peer, tc_address target_context) sender (sl_associations l),
             sl_tasks := sl_tasks l @ [task]\<rparr>) \<Longrightarrow> thesis"
  shows thesis
proof (cases "parse_udp_packet buffer")
  case (Inl e)
  then show ?thesis by (intro stopped [where st = "sl_runtime l" and r = "LoopEnded (Err e)"]) (simp_all add: socks_udp_received_def)
next
  case (Inr packet)
  obtain resolved st where r: "resolve_destination env (sl_runtime l) (su_destination packet) = (resolved, st)" by fastforce
  consider "resolved = None" | e where "resolved = Some (Inl e)" | tc where "resolved = Some (Inr tc)"
    by (metis option.exhaust sum.exhaust)
  then show ?thesis
  proof cases
    case 1
    with Inr r show ?thesis by (intro stopped [where st = st and r = LoopWaiting]) (simp_all add: socks_udp_received_def)
  next
    case (2 e)
    with Inr r show ?thesis by (intro stopped [where st = st and r = "LoopEnded (Err e)"]) (simp_all add: socks_udp_received_def)
  next
    case (3 tc)
    show ?thesis
    proof (cases "bt_get (sl_associations l) (udp_peer, tc_address tc)")
      case (Some sender)
      with 3 Inr r show ?thesis by (intro known) (simp_all add: socks_udp_received_def Let_def)
    next
      case None
      obtain selection st' where s: "select_target env st session_id InUdp tc = (selection, st')" by fastforce
      show ?thesis
      proof (cases selection)
        case (Inl e)
        with 3 None \<open>parse_udp_packet buffer = Inr packet\<close> r s show ?thesis
          by (intro stopped [where st = st' and r = "LoopEnded (Err e)"]) (simp_all add: socks_udp_received_def open_association_def Let_def)
      next
        case (Inr d)
        with 3 None \<open>parse_udp_packet buffer = Inr packet\<close> r s show ?thesis
          by (intro opened [where packet = packet and target_context = tc and st = st and st' = st' and sender = "\<lparr>as_node_protocol = eg_decision_tag egress d, as_decision = d, as_target_context = tc,
                as_tx = length (sl_tasks l)\<rparr>" and task = "\<lparr>sx_udp_peer = udp_peer, sx_target = tc_address tc, sx_target_context = tc,
                sx_response_target = response_target_for_destination (su_destination packet) (tc_address tc),
                sx_destination = su_destination packet, sx_session_id = session_id, sx_decision = d,
                sx_idle_timeout_ms = s5_idle_timeout_ms config\<rparr>"])
            (simp_all add: socks_udp_received_def open_association_def Let_def)
      qed
    qed
  qed
qed

lemma socks_received_owners:
  "\<exists>ks. socks_owners (socks_udp_received env egress config peer session_id buffer udp_peer delivered l) = socks_owners l @ ks"
  by (cases rule: socks_udp_cases [of env egress config peer session_id buffer udp_peer delivered l]) simp_all

lemma socks_received_channels:
  assumes ok: "channels_ok (socks_channel l) (socks_owners l)"
    and l': "socks_udp_received env egress config peer session_id buffer udp_peer delivered l = l'"
  shows "channels_ok (socks_channel l') (socks_owners l')"
proof (cases rule: socks_udp_cases [of env egress config peer session_id buffer udp_peer delivered l])
  case (stopped st r)
  with ok l' show ?thesis by auto
next
  case (known packet target_context st sender)
  with ok l' show ?thesis by (auto elim!: channels_ok_less split: if_splits)
next
  case (opened packet target_context st st' sender task)
  let ?key = "(udp_peer, tc_address target_context)"
  have "channels_ok ((socks_channel l)(?key \<mapsto> length (socks_owners l))) (socks_owners l @ [?key])"
    using ok by (rule channels_ok_insert)
  then show ?thesis using opened l' by (auto elim!: channels_ok_less split: if_splits)
qed

lemma socks_received_sent:
  assumes ok: "channels_ok (socks_channel l) (socks_owners l)" and looping: "sl_end l = Looping"
    and l': "socks_udp_received env egress config peer session_id buffer udp_peer delivered l = l'"
  shows "sl_sent l' = sl_sent l \<or>
    (\<exists>key payload c. socks_datagram (SocksReceived env buffer udp_peer delivered) l = Some (key, payload) \<and>
      sl_sent l' = sl_sent l @ [(c, payload)] \<and> c < length (socks_owners l') \<and> socks_owners l' ! c = key)"
proof (cases rule: socks_udp_cases [of env egress config peer session_id buffer udp_peer delivered l])
  case (stopped st r)
  with l' show ?thesis by auto
next
  case (known packet target_context st sender)
  from known(3) have "as_tx sender < length (socks_owners l) \<and> socks_owners l ! as_tx sender = (udp_peer, tc_address target_context)"
    using ok [unfolded channels_ok_def, rule_format, of "(udp_peer, tc_address target_context)" "as_tx sender"] by simp
  moreover have "l' = forward_socks_udp env peer session_id udp_peer (tc_address target_context) packet delivered sender (l\<lparr>sl_runtime := st\<rparr>)"
    using known(4) l' by simp
  ultimately show ?thesis using known(1,2) looping by (auto simp: socks_datagram_def)
next
  case (opened packet target_context st st' sender task)
  with l' looping show ?thesis
    by (cases delivered) (auto simp: socks_datagram_def nth_append intro!: exI [of _ "length (sl_tasks l)"])
qed

interpretation socks: session_table "run_socks_udp_loop egress config peer session_id" socks_datagram socks_owners sl_sent socks_channel
proof
  fix i l
  let ?l = "run_socks_udp_loop egress config peer session_id i l"
  show "\<exists>ks. socks_owners ?l = socks_owners l @ ks"
    using socks_received_owners by (auto simp: run_socks_udp_loop_def split: SocksUdpInput.splits)
  assume ok: "channels_ok (socks_channel l) (socks_owners l)"
  show "channels_ok (socks_channel ?l) (socks_owners ?l)"
    using ok socks_received_channels [OF ok refl]
    by (cases i) (auto simp: run_socks_udp_loop_def elim!: channels_ok_less split: if_splits)
  show "sl_sent ?l = sl_sent l \<or>
      (\<exists>k payload c. socks_datagram i l = Some (k, payload) \<and> sl_sent ?l = sl_sent l @ [(c, payload)] \<and>
        c < length (socks_owners ?l) \<and> socks_owners ?l ! c = k)"
  proof (cases i)
    case (SocksReceived env buffer udp_peer delivered)
    then show ?thesis
      using socks_received_sent [OF ok _ refl, of env egress config peer session_id buffer udp_peer delivered]
      by (cases "sl_end l = Looping") (simp_all add: run_socks_udp_loop_def)
  qed (simp_all add: run_socks_udp_loop_def)
qed

text \<open>
  C11. The loop of a SOCKS UDP association, over any sequence of what can wake it up: the task spawned for a source and a resolved target receives, in order, only
  payloads of packets from that source to that target; and a datagram that reaches a running loop with an open channel is either delivered or
  ends the loop.
\<close>

theorem socks_udp_delivers:
  fixes egress config peer session_id inputs st
  defines "l \<equiv> fold (run_socks_udp_loop egress config peer session_id) inputs (SocksUdpLoop_start st)"
  shows "subseq (delivered_to (map (\<lambda>task. (sx_udp_peer task, sx_target task)) (sl_tasks l)) (sl_sent l) key)
      (received_from (run_socks_udp_loop egress config peer session_id) socks_datagram inputs (SocksUdpLoop_start st) key) \<and>
    (sl_sent (run_socks_udp_loop egress config peer session_id (SocksReceived env buffer udp_peer True) l) = sl_sent l \<longleftrightarrow>
      sl_end (run_socks_udp_loop egress config peer session_id (SocksReceived env buffer udp_peer True) l) \<noteq> Looping)"
proof
  show "subseq (delivered_to (map (\<lambda>task. (sx_udp_peer task, sx_target task)) (sl_tasks l)) (sl_sent l) key)
      (received_from (run_socks_udp_loop egress config peer session_id) socks_datagram inputs (SocksUdpLoop_start st) key)"
    unfolding l_def by (rule socks.delivered_from_start) (simp_all add: SocksUdpLoop_start_def bt_get_def)
  show "sl_sent (run_socks_udp_loop egress config peer session_id (SocksReceived env buffer udp_peer True) l) = sl_sent l \<longleftrightarrow>
      sl_end (run_socks_udp_loop egress config peer session_id (SocksReceived env buffer udp_peer True) l) \<noteq> Looping"
  proof (cases "sl_end l = Looping")
    case True
    then show ?thesis
      by (cases rule: socks_udp_cases [of env egress config peer session_id buffer udp_peer True l]) (simp_all add: run_socks_udp_loop_def)
  qed (simp add: run_socks_udp_loop_def)
qed

text \<open>
  The table is keyed by addresses: a packet to a second name that resolves to the address of the first goes to the first one's task, and no
  decision is taken for it.
\<close>

lemma association_reused:
  assumes "parse_udp_packet buffer = Inr packet" "sl_end l = Looping"
    and "resolve_destination env (sl_runtime l) (su_destination packet) = (Some (Inr target_context), st1)"
    and "bt_get (sl_associations l) (udp_peer, tc_address target_context) = Some sender"
  shows "run_socks_udp_loop egress config peer session_id (SocksReceived env buffer udp_peer True) l =
    forward_socks_udp env peer session_id udp_peer (tc_address target_context) packet True sender (l\<lparr>sl_runtime := st1\<rparr>)"
  using assms by (simp add: run_socks_udp_loop_def socks_udp_received_def)

section \<open>A served client\<close>

definition sample_client :: SocksClient where
  "sample_client = \<lparr>sk_source = \<lparr>so_bytes = [5, 1, 0] @ [5, 1, 0, 1, 0, 0, 0, 8, 1, 187] @ [42], so_failure = None\<rparr>,
     sk_sink = \<lparr>si_sent = [], si_failures = [], si_shutdown = None, si_closed = False\<rparr>\<rparr>"

definition sample_env :: FlowEnv where
  "sample_env = \<lparr>fe_dns_now = 1, fe_dns_inputs = [], fe_shadow_now = 2, fe_select_now = 3, fe_start_now = 4, fe_during = (\<lambda>st. st), fe_end_now = 9\<rparr>"

definition direct_state :: RuntimeState where
  "direct_state = RuntimeState_from_seed (RuntimeSeed_single_node ''direct'')"

definition sample_selected :: "(SelectionError + SelectionDecision) \<times> RuntimeState" where
  "sample_selected = select_flow sample_env direct_state 1 InTcp (external_context (mk_sockaddr (V4 8) 443) None)"

lemma sample_selection: "\<not> isl (fst sample_selected)"
  using single_node_select [of direct_state 1 "''direct''"
    "\<lparr>sc_session_id = 1, sc_inbound = InTcp, sc_target = external_context (mk_sockaddr (V4 8) 443) None\<rparr>" 2 3]
  by (auto simp: sample_selected_def select_flow_def sample_env_def direct_state_def RuntimeState_from_seed_def external_context_def mk_sockaddr_def)

theorem socks_connect_served_witness:
  "\<forall>udp egress config peer. \<exists>client'. fst (handle_client sample_env udp egress config peer 1 sample_client direct_state) = Some (Ok ()) \<and>
     fst (snd (handle_client sample_env udp egress config peer 1 sample_client direct_state)) = client' \<and>
     si_sent (sk_sink client') = [5, 0, 5, 0, 0, 1, 0, 0, 0, 0, 0, 0] \<and> so_bytes (sk_source client') = [42]"
proof (intro allI)
  fix udp egress config peer
  let ?d = "Socket (mk_sockaddr (V4 8) 443)"
  have "request_bytes \<lparr>sq_command = 1, sq_destination = ?d\<rparr> = [5, 1, 0, 1, 0, 0, 0, 8, 1, 187]" by code_simp
  then have bytes: "so_bytes (sk_source sample_client) = [5, 1] @ [0] @ request_bytes \<lparr>sq_command = 1, sq_destination = ?d\<rparr> @ [42]"
    by (simp add: sample_client_def)
  have resolved: "resolve_destination sample_env direct_state ?d = (Some (Ok (external_context (mk_sockaddr (V4 8) 443) None)), direct_state)"
    by (simp add: resolve_socket_destination_def direct_state_def RuntimeState_from_seed_def domain_for_ip_def)
  have selected: "select_flow sample_env direct_state 1 InTcp (external_context (mk_sockaddr (V4 8) 443) None) =
      (Ok (projr (fst sample_selected)), snd sample_selected)"
    using sample_selection by (simp add: sample_selected_def [symmetric] prod_eq_iff)
  have "length [0::u8] = unat (1 :: u8)" "si_failures (sk_sink sample_client) = []" "si_sent (sk_sink sample_client) = []"
    by (simp_all add: sample_client_def)
  with socks_connect_served [OF bytes _ _ _ _ resolved selected, of udp egress config peer]
  show "\<exists>client'. fst (handle_client sample_env udp egress config peer 1 sample_client direct_state) = Some (Ok ()) \<and>
     fst (snd (handle_client sample_env udp egress config peer 1 sample_client direct_state)) = client' \<and>
     si_sent (sk_sink client') = [5, 0, 5, 0, 0, 1, 0, 0, 0, 0, 0, 0] \<and> so_bytes (sk_source client') = [42]"
    by auto
qed

end
