(* ===== verification/Capture_Packets.thy ===== *)
theory Capture_Packets
  imports Byte_Io
begin

text \<open>
  The reading of captured packets, \<open>dynet-capture/src/packet.rs\<close>, with the flows of \<open>flow.rs\<close>. Bytes are indexed as in the source,
  behind its checks of the lengths; the specification is the layout of IPv4 and IPv6 datagrams.
\<close>

section \<open>Flows\<close>

datatype CapturedTransport = DnsUdp | DnsTcp | Tcp | Udp

datatype TargetCaptureSource = PacketDestination | CapturedObservedDns

record CapturedTarget =
  cx_address :: SocketAddr
  cx_domain :: "string option"
  cx_source :: TargetCaptureSource

record CapturedFlow =
  cf_flow_id :: u64
  cf_peer :: "IpAddr option"
  cf_target :: CapturedTarget
  cf_transport :: CapturedTransport

definition packet_destination :: "SocketAddr \<Rightarrow> CapturedTarget" where
  "packet_destination address = \<lparr>cx_address = address, cx_domain = None, cx_source = PacketDestination\<rparr>"

definition observed_dns :: "SocketAddr \<Rightarrow> string \<Rightarrow> CapturedTarget" where
  "observed_dns address domain = \<lparr>cx_address = address, cx_domain = Some domain, cx_source = CapturedObservedDns\<rparr>"

record PacketFlow =
  pf_source :: SocketAddr
  pf_destination :: SocketAddr
  pf_transport :: CapturedTransport

datatype PacketParseError =
    TooShort | UnsupportedVersion u8 | InvalidHeaderLength | TruncatedPacket | UnsupportedProtocol u8 | MissingTransportHeader

definition into_captured_flow :: "PacketFlow \<Rightarrow> u64 \<Rightarrow> CapturedFlow" where
  "into_captured_flow flow flow_id =
     \<lparr>cf_flow_id = flow_id, cf_peer = Some (sa_ip (pf_source flow)), cf_target = packet_destination (pf_destination flow),
      cf_transport = pf_transport flow\<rparr>"

section \<open>Packets\<close>

definition IPV4_MIN_HEADER_LEN :: nat where "IPV4_MIN_HEADER_LEN = 20"
definition IPV6_HEADER_LEN :: nat where "IPV6_HEADER_LEN = 40"
definition TCP_PROTOCOL :: u8 where "TCP_PROTOCOL = 6"
definition UDP_PROTOCOL :: u8 where "UDP_PROTOCOL = 17"
definition DNS_PORT :: u16 where "DNS_PORT = 53"

lemmas packet_constants = IPV4_MIN_HEADER_LEN_def IPV6_HEADER_LEN_def TCP_PROTOCOL_def UDP_PROTOCOL_def DNS_PORT_def

definition parse_ports :: "bytes \<Rightarrow> PacketParseError + u16 \<times> u16" where
  "parse_ports packet =
     (if length packet < 4 then Err MissingTransportHeader
      else Ok (u16_from_be (packet ! 0) (packet ! 1), u16_from_be (packet ! 2) (packet ! 3)))"

definition classify_tcp :: "u16 \<Rightarrow> u16 \<Rightarrow> CapturedTransport" where
  "classify_tcp source_port destination_port = (if source_port = DNS_PORT \<or> destination_port = DNS_PORT then DnsTcp else Tcp)"

definition classify_udp :: "u16 \<Rightarrow> u16 \<Rightarrow> CapturedTransport" where
  "classify_udp source_port destination_port = (if source_port = DNS_PORT \<or> destination_port = DNS_PORT then DnsUdp else Udp)"

text \<open>The end that both versions have: the protocol, then the ports.\<close>

definition parse_transport :: "u8 \<Rightarrow> IpAddr \<Rightarrow> IpAddr \<Rightarrow> bytes \<Rightarrow> PacketParseError + PacketFlow" where
  "parse_transport protocol source destination transport =
     (if protocol = TCP_PROTOCOL then
        and_then (parse_ports transport) (\<lambda>(source_port, destination_port).
          Ok \<lparr>pf_source = mk_sockaddr source source_port, pf_destination = mk_sockaddr destination destination_port,
              pf_transport = classify_tcp source_port destination_port\<rparr>)
      else if protocol = UDP_PROTOCOL then
        and_then (parse_ports transport) (\<lambda>(source_port, destination_port).
          Ok \<lparr>pf_source = mk_sockaddr source source_port, pf_destination = mk_sockaddr destination destination_port,
              pf_transport = classify_udp source_port destination_port\<rparr>)
      else Err (UnsupportedProtocol protocol))"

definition parse_ipv4_packet :: "bytes \<Rightarrow> PacketParseError + PacketFlow" where
  "parse_ipv4_packet packet =
     (if length packet < IPV4_MIN_HEADER_LEN then Err TooShort
      else let version = drop_bit 4 (packet ! 0) in
      if version \<noteq> 4 then Err (UnsupportedVersion version)
      else let ihl = unat (packet ! 0 AND 0x0f) * 4 in
      if ihl < IPV4_MIN_HEADER_LEN then Err InvalidHeaderLength
      else if length packet < ihl then Err TruncatedPacket
      else let total_len = unat (u16_from_be (packet ! 2) (packet ! 3)) in
      if total_len < ihl \<or> length packet < total_len then Err TruncatedPacket
      else parse_transport (packet ! 9)
        (V4 (v4_from_octets [packet ! 12, packet ! 13, packet ! 14, packet ! 15]))
        (V4 (v4_from_octets [packet ! 16, packet ! 17, packet ! 18, packet ! 19]))
        (take (total_len - ihl) (drop ihl packet)))"

definition parse_ipv6_packet :: "bytes \<Rightarrow> PacketParseError + PacketFlow" where
  "parse_ipv6_packet packet =
     (if length packet < IPV6_HEADER_LEN then Err TooShort
      else let version = drop_bit 4 (packet ! 0) in
      if version \<noteq> 6 then Err (UnsupportedVersion version)
      else let total_len = IPV6_HEADER_LEN + unat (u16_from_be (packet ! 4) (packet ! 5)) in
      if length packet < total_len then Err TruncatedPacket
      else parse_transport (packet ! 6) (V6 (v6_from_octets (take 16 (drop 8 packet)))) (V6 (v6_from_octets (take 16 (drop 24 packet))))
        (take (total_len - IPV6_HEADER_LEN) (drop IPV6_HEADER_LEN packet)))"

definition parse_ip_packet :: "bytes \<Rightarrow> PacketParseError + PacketFlow" where
  "parse_ip_packet packet =
     (case packet of
        [] \<Rightarrow> Err TooShort
      | first # _ \<Rightarrow>
          let version = drop_bit 4 first in
          if version = 4 then parse_ipv4_packet packet
          else if version = 6 then parse_ipv6_packet packet
          else Err (UnsupportedVersion version))"

section \<open>The layout of datagrams\<close>

text \<open>
  A buffer holds a datagram with a protocol, a source, a destination and a payload, and bytes behind it that do not belong to it. The fields
  that do not matter here are arbitrary: type of service, identification, flags and fragment offset, time to live, checksum, options; traffic
  class, flow label, hop limit.
\<close>

inductive ip_datagram :: "bytes \<Rightarrow> u8 \<Rightarrow> IpAddr \<Rightarrow> IpAddr \<Rightarrow> bytes \<Rightarrow> bool" where
  v4: "drop_bit 4 first = 4 \<Longrightarrow> length header = 4 * unat (first AND 0x0f) \<Longrightarrow>
    header = [first, tos] @ u16_to_be total_len @ fragment @ [ttl, protocol] @ checksum @ v4_octets src @ v4_octets dst @ options \<Longrightarrow>
    length fragment = 4 \<Longrightarrow> length checksum = 2 \<Longrightarrow> unat total_len = length header + length transport \<Longrightarrow>
    ip_datagram (header @ transport @ trailer) protocol (V4 src) (V4 dst) transport"
| v6: "drop_bit 4 first = 6 \<Longrightarrow> length label = 3 \<Longrightarrow> unat payload_len = length transport \<Longrightarrow>
    ip_datagram ([first] @ label @ u16_to_be payload_len @ [protocol, hops] @ v6_octets src @ v6_octets dst @ transport @ trailer)
      protocol (V6 src) (V6 dst) transport"

definition flow_of :: "u8 \<Rightarrow> IpAddr \<Rightarrow> IpAddr \<Rightarrow> bytes \<Rightarrow> PacketFlow \<Rightarrow> bool" where
  "flow_of protocol src dst transport flow \<longleftrightarrow>
     (\<exists>source_port destination_port rest.
        transport = u16_to_be source_port @ u16_to_be destination_port @ rest \<and>
        pf_source flow = mk_sockaddr src source_port \<and> pf_destination flow = mk_sockaddr dst destination_port \<and>
        (let dns = source_port = 53 \<or> destination_port = 53 in
         protocol = 6 \<and> pf_transport flow = (if dns then DnsTcp else Tcp) \<or>
         protocol = 17 \<and> pf_transport flow = (if dns then DnsUdp else Udp)))"

lemma parse_ports_iff:
  "parse_ports packet = Ok (s, d) \<longleftrightarrow> (\<exists>rest. packet = u16_to_be s @ u16_to_be d @ rest)"
proof (cases "length packet < 4")
  case True
  then show ?thesis by (auto simp: parse_ports_def)
next
  case False
  then obtain a b c e rest where "packet = a # b # c # e # rest"
    by (auto simp: not_less numeral_eq_Suc Suc_le_length_iff)
  moreover have "u16_to_be x @ ys = a # b # zs \<longleftrightarrow> x = u16_from_be a b \<and> ys = zs" for x a b ys zs
    using length_u16_to_be [of x] by (auto simp: numeral_2_eq_2 length_Suc_conv simp del: length_u16_to_be)
  ultimately show ?thesis by (auto simp: parse_ports_def eq_commute [of "_ # _" "u16_to_be _ @ _"])
qed

lemma parse_transport_iff: "parse_transport protocol src dst transport = Ok flow \<longleftrightarrow> flow_of protocol src dst transport flow"
proof -
  have flow_of: "flow_of protocol src dst transport flow \<longleftrightarrow>
      (\<exists>s d. parse_ports transport = Ok (s, d) \<and> pf_source flow = mk_sockaddr src s \<and> pf_destination flow = mk_sockaddr dst d \<and>
        (let dns = s = 53 \<or> d = 53 in
         protocol = 6 \<and> pf_transport flow = (if dns then DnsTcp else Tcp) \<or>
         protocol = 17 \<and> pf_transport flow = (if dns then DnsUdp else Udp)))"
    unfolding flow_of_def parse_ports_iff by blast
  show ?thesis
  proof (cases "parse_ports transport")
    case (Inl e)
    then show ?thesis unfolding flow_of by (simp add: parse_transport_def)
  next
    case (Inr ports)
    then show ?thesis unfolding flow_of
      by (cases ports; cases flow) (auto simp: parse_transport_def packet_constants classify_tcp_def classify_udp_def Let_def)
  qed
qed

text \<open>A header of known length, byte by byte.\<close>

lemma take_nths: "n \<le> length xs \<Longrightarrow> take n xs = map ((!) xs) [0..<n]"
  by (intro nth_equalityI) auto

lemma v4_octets_four: obtains a b c d where "v4_octets x = [a, b, c, d]" "v4_from_octets [a, b, c, d] = x"
proof -
  obtain a b c d where "v4_octets x = [a, b, c, d]"
    using length_v4_octets [of x] by (auto simp: numeral_eq_Suc length_Suc_conv simp del: length_v4_octets)
  with v4_from_octets_octets [of x] that show ?thesis by simp
qed

lemma u16_to_be_two: obtains a b where "u16_to_be w = [a, b]" "u16_from_be a b = w"
proof -
  obtain a b where "u16_to_be w = [a, b]"
    using length_u16_to_be [of w] by (auto simp: numeral_2_eq_2 length_Suc_conv simp del: length_u16_to_be)
  with that show ?thesis by simp
qed

lemma parse_ipv4_datagram:
  assumes "ip_datagram packet protocol (V4 src) (V4 dst) transport"
  shows "parse_ipv4_packet packet = parse_transport protocol (V4 src) (V4 dst) transport" and "drop_bit 4 (hd packet) = 4"
proof -
  from assms obtain first header tos total_len fragment ttl checksum options trailer where
    first: "drop_bit 4 first = 4" and len: "length header = 4 * unat (first AND 0x0f)"
    and header: "header = [first, tos] @ u16_to_be total_len @ fragment @ [ttl, protocol] @ checksum @ v4_octets src @ v4_octets dst @ options"
    and four: "length fragment = 4" "length checksum = 2" and total: "unat total_len = length header + length transport"
    and packet: "packet = header @ transport @ trailer"
    by (auto elim: ip_datagram.cases)
  obtain f0 f1 f2 f3 where fragment: "fragment = [f0, f1, f2, f3]" using four by (auto simp: numeral_eq_Suc length_Suc_conv)
  obtain c0 c1 where checksum: "checksum = [c0, c1]" using four by (auto simp: numeral_eq_Suc length_Suc_conv)
  obtain l0 l1 where l: "u16_to_be total_len = [l0, l1]" "u16_from_be l0 l1 = total_len" by (rule u16_to_be_two)
  obtain s0 s1 s2 s3 where src: "v4_octets src = [s0, s1, s2, s3]" "v4_from_octets [s0, s1, s2, s3] = src" by (rule v4_octets_four)
  obtain d0 d1 d2 d3 where dst: "v4_octets dst = [d0, d1, d2, d3]" "v4_from_octets [d0, d1, d2, d3] = dst" by (rule v4_octets_four)
  have h: "header = [first, tos, l0, l1, f0, f1, f2, f3, ttl, protocol, c0, c1, s0, s1, s2, s3, d0, d1, d2, d3] @ options"
    using header fragment checksum l src dst by simp
  have at: "packet ! i = [first, tos, l0, l1, f0, f1, f2, f3, ttl, protocol, c0, c1, s0, s1, s2, s3, d0, d1, d2, d3] ! i" if "i < 20" for i
    unfolding packet h append_assoc nth_append using that by simp
  have ihl: "unat (first AND 0x0f) * 4 = length header" using len by simp
  have "take (unat total_len - length header) (drop (length header) packet) = transport" using total by (simp add: packet)
  moreover have "length packet \<ge> 20" "length header \<ge> 20" "length header \<le> length packet" "unat total_len \<le> length packet"
    using total by (simp_all add: packet) (simp_all add: h)
  ultimately show "parse_ipv4_packet packet = parse_transport protocol (V4 src) (V4 dst) transport"
    using first total by (simp add: parse_ipv4_packet_def packet_constants Let_def at ihl l(2) src(2) dst(2))
  show "drop_bit 4 (hd packet) = 4" using first by (simp add: packet h)
qed

lemma parse_ipv4_layout:
  assumes "parse_ipv4_packet packet = Ok flow"
  shows "\<exists>protocol src dst transport. ip_datagram packet protocol (V4 src) (V4 dst) transport"
proof -
  let ?ihl = "unat (packet ! 0 AND 0x0f) * 4" and ?total = "u16_from_be (packet ! 2) (packet ! 3)"
  have c: "20 \<le> length packet" "drop_bit 4 (packet ! 0) = 4" "20 \<le> ?ihl" "?ihl \<le> length packet" "?ihl \<le> unat ?total" "unat ?total \<le> length packet"
    using assms by (auto simp: parse_ipv4_packet_def packet_constants Let_def split: if_splits)
  let ?header = "take ?ihl packet" and ?transport = "take (unat ?total - ?ihl) (drop ?ihl packet)"
  have "take 20 packet = [packet ! 0, packet ! 1, packet ! 2, packet ! 3, packet ! 4, packet ! 5, packet ! 6, packet ! 7, packet ! 8,
      packet ! 9, packet ! 10, packet ! 11, packet ! 12, packet ! 13, packet ! 14, packet ! 15, packet ! 16, packet ! 17, packet ! 18, packet ! 19]"
    unfolding take_nths [OF c(1)] by (simp add: upt_rec numeral_eq_Suc)
  moreover have "?header = take 20 packet @ take (?ihl - 20) (drop 20 packet)"
    using take_add [of 20 "?ihl - 20" packet] c(3) by simp
  ultimately have header: "?header = [packet ! 0, packet ! 1] @ u16_to_be ?total @ [packet ! 4, packet ! 5, packet ! 6, packet ! 7] @
      [packet ! 8, packet ! 9] @ [packet ! 10, packet ! 11] @
      v4_octets (v4_from_octets [packet ! 12, packet ! 13, packet ! 14, packet ! 15]) @
      v4_octets (v4_from_octets [packet ! 16, packet ! 17, packet ! 18, packet ! 19]) @ take (?ihl - 20) (drop 20 packet)"
    by (simp add: v4_octets_from_octets)
  have "packet = ?header @ ?transport @ drop (unat ?total) packet"
    using c(5) append_take_drop_id [of "unat ?total - ?ihl" "drop ?ihl packet"] append_take_drop_id [of ?ihl packet]
    by (simp del: append_take_drop_id)
  moreover have "ip_datagram (?header @ ?transport @ drop (unat ?total) packet) (packet ! 9)
      (V4 (v4_from_octets [packet ! 12, packet ! 13, packet ! 14, packet ! 15]))
      (V4 (v4_from_octets [packet ! 16, packet ! 17, packet ! 18, packet ! 19])) ?transport"
    by (rule ip_datagram.v4 [OF c(2) _ header]) (use c in \<open>auto simp: min_def\<close>)
  ultimately show ?thesis by metis
qed

lemma parse_ipv6_datagram:
  assumes "ip_datagram packet protocol (V6 src) (V6 dst) transport"
  shows "parse_ipv6_packet packet = parse_transport protocol (V6 src) (V6 dst) transport" and "drop_bit 4 (hd packet) = 6"
proof -
  from assms obtain first label payload_len hops trailer where
    first: "drop_bit 4 first = 6" and three: "length label = 3" and len: "unat payload_len = length transport"
    and packet: "packet = [first] @ label @ u16_to_be payload_len @ [protocol, hops] @ v6_octets src @ v6_octets dst @ transport @ trailer"
    by (auto elim: ip_datagram.cases)
  obtain f0 f1 f2 where label: "label = [f0, f1, f2]" using three by (auto simp: numeral_eq_Suc length_Suc_conv)
  obtain l0 l1 where l: "u16_to_be payload_len = [l0, l1]" "u16_from_be l0 l1 = payload_len" by (rule u16_to_be_two)
  let ?head = "[first, f0, f1, f2, l0, l1, protocol, hops]"
  have p: "packet = ?head @ v6_octets src @ v6_octets dst @ transport @ trailer" by (simp add: packet label l)
  have at: "packet ! i = ?head ! i" if "i < 8" for i unfolding p nth_append using that by simp
  have "take 16 (drop 8 packet) = v6_octets src" "take 16 (drop 24 packet) = v6_octets dst"
    "take (unat payload_len) (drop 40 packet) = transport" "40 + length transport \<le> length packet"
    unfolding p by (simp_all add: len del: append_Cons)
  then show "parse_ipv6_packet packet = parse_transport protocol (V6 src) (V6 dst) transport"
    using first len by (simp add: parse_ipv6_packet_def packet_constants Let_def at l(2))
  show "drop_bit 4 (hd packet) = 6" using first by (simp add: packet)
qed

lemma parse_ipv6_layout:
  assumes "parse_ipv6_packet packet = Ok flow"
  shows "\<exists>protocol src dst transport. ip_datagram packet protocol (V6 src) (V6 dst) transport"
proof -
  let ?len = "u16_from_be (packet ! 4) (packet ! 5)"
  have c: "40 \<le> length packet" "drop_bit 4 (packet ! 0) = 6" "40 + unat ?len \<le> length packet"
    using assms by (auto simp: parse_ipv6_packet_def packet_constants Let_def split: if_splits)
  let ?src = "v6_from_octets (take 16 (drop 8 packet))" and ?dst = "v6_from_octets (take 16 (drop 24 packet))"
  let ?transport = "take (unat ?len) (drop 40 packet)"
  have "8 \<le> length packet" using c(1) by simp
  from take_nths [OF this] have head: "take 8 packet = [packet ! 0] @ [packet ! 1, packet ! 2, packet ! 3] @ u16_to_be ?len @ [packet ! 6, packet ! 7]"
    by (simp add: upt_rec numeral_eq_Suc)
  have "v6_octets ?src = take 16 (drop 8 packet)" "v6_octets ?dst = take 16 (drop 24 packet)"
    using c(1) by (simp_all add: v6_octets_from_octets)
  moreover have "packet = take 8 packet @ take 16 (drop 8 packet) @ take 16 (drop 24 packet) @ ?transport @ drop (40 + unat ?len) packet"
    using append_take_drop_id [of 8 packet] append_take_drop_id [of 16 "drop 8 packet"] append_take_drop_id [of 16 "drop 24 packet"]
      append_take_drop_id [of "unat ?len" "drop 40 packet"]
    by (simp del: append_take_drop_id add: add.commute)
  ultimately have "packet = [packet ! 0] @ [packet ! 1, packet ! 2, packet ! 3] @ u16_to_be ?len @ [packet ! 6, packet ! 7] @
      v6_octets ?src @ v6_octets ?dst @ ?transport @ drop (40 + unat ?len) packet"
    unfolding head by simp
  moreover have "ip_datagram ([packet ! 0] @ [packet ! 1, packet ! 2, packet ! 3] @ u16_to_be ?len @ [packet ! 6, packet ! 7] @
      v6_octets ?src @ v6_octets ?dst @ ?transport @ drop (40 + unat ?len) packet) (packet ! 6) (V6 ?src) (V6 ?dst) ?transport"
    by (rule ip_datagram.v6 [OF c(2)]) (use c in simp_all)
  ultimately show ?thesis by metis
qed

lemma ip_datagram_families: "ip_datagram packet protocol src dst transport \<Longrightarrow> (\<exists>a b. src = V4 a \<and> dst = V4 b) \<or> (\<exists>a b. src = V6 a \<and> dst = V6 b)"
  by (auto elim: ip_datagram.cases)

lemma parse_ip_datagram:
  assumes "ip_datagram packet protocol src dst transport"
  shows "parse_ip_packet packet = parse_transport protocol src dst transport"
proof -
  have "packet \<noteq> []" using assms by (auto elim!: ip_datagram.cases)
  with ip_datagram_families [OF assms] parse_ipv4_datagram parse_ipv6_datagram assms show ?thesis
    by (cases packet) (auto simp: parse_ip_packet_def Let_def, fastforce+)
qed

text \<open>
  C28. The reader of captured packets accepts exactly the buffers that begin with an IPv4 or IPv6 datagram carrying TCP or UDP with its two ports inside
  the datagram, and returns its addresses and ports; whatever options the header has, and whatever follows the datagram in the
  buffer, nothing outside of the datagram is taken for a port, and every other buffer is an error.
\<close>

theorem captured_packets_of_layout:
  "parse_ip_packet packet = Ok flow \<longleftrightarrow>
    (\<exists>protocol src dst transport. ip_datagram packet protocol src dst transport \<and> flow_of protocol src dst transport flow)"
proof
  assume ok: "parse_ip_packet packet = Ok flow"
  then have "parse_ipv4_packet packet = Ok flow \<or> parse_ipv6_packet packet = Ok flow"
    by (auto simp: parse_ip_packet_def Let_def split: list.splits if_splits)
  then obtain protocol src dst transport where "ip_datagram packet protocol src dst transport"
    using parse_ipv4_layout parse_ipv6_layout by blast
  with ok show "\<exists>protocol src dst transport. ip_datagram packet protocol src dst transport \<and> flow_of protocol src dst transport flow"
    by (metis parse_ip_datagram parse_transport_iff)
qed (auto simp: parse_ip_datagram parse_transport_iff)

end
