(* ===== verification/Dns_Ingress.thy ===== *)
theory Dns_Ingress
  imports Ingress_Events Byte_Io
begin

text \<open>
  The DNS inbound, \<open>dynet-ingress/src/dns.rs\<close>: queries over UDP, one after the other in one loop, and sessions over TCP with framed
  queries. What the upstreams answer to a query, and whether the shutdown token fires at one of the points where it is
  waited for, is an argument; for the runtime a resolution is one step.
\<close>

section \<open>One query\<close>

record QueryEnv =
  qe_inputs :: "RaceInput list"
  qe_query_now :: u128
  qe_answer_now :: u128
  qe_cancel_length :: bool
  qe_cancel_query :: bool
  qe_cancel_write :: "nat option"

definition dns_response_fields :: "SocketAddr \<Rightarrow> string \<Rightarrow> DnsResolution \<Rightarrow> Fields" where
  "dns_response_fields peer transport resolution =
     [(''peer'', show_socket peer), (''transport'', transport), (''upstreamId'', du_id (dr_upstream resolution)),
      (''upstream'', show_socket (du_address (dr_upstream resolution))), (''source'', show_socket (dr_source resolution)),
      (''bytes'', show_nat (length (dr_response resolution)))] @
     push_endpoint_fields ''peer'' peer @ push_endpoint_fields ''upstream'' (du_address (dr_upstream resolution)) @
     push_endpoint_fields ''source'' (dr_source resolution) @
     (case (case dr_response_info resolution of None \<Rightarrow> sniff_dns_response (dr_response resolution) | Some info \<Rightarrow> Some info) of
        None \<Rightarrow> []
      | Some info \<Rightarrow>
          [(''transactionId'', show_nat (unat (di_transaction_id info)))] @
          (case di_query_name info of None \<Rightarrow> [] | Some query_name \<Rightarrow> [(''queryName'', query_name)]) @
          (case di_query_type info of None \<Rightarrow> [] | Some query_type \<Rightarrow> [(''queryType'', query_type)]) @
          (if di_answer_ips info = [] then [] else [(''answerIps'', join_with '','' (map show_ip (di_answer_ips info)))])) @
     (if dr_ipv6_filtered resolution then
        [(''ipv6Policy'', ''deny''), (''ipv6PolicySource'', ''rule'')] @
        (case dr_matched_rule_id resolution of None \<Rightarrow> [] | Some rule_id \<Rightarrow> [(''matchedRuleId'', rule_id)])
      else [])"

text \<open>A query has a response or none; a race that does not end, and a panic of the filter, are the end of the task that asked.\<close>

datatype QueryEnd = QueryAnswer "bytes option" | QueryWaiting | QueryPanic

definition resolve_query :: "QueryEnv \<Rightarrow> SocketAddr \<Rightarrow> bytes \<Rightarrow> string \<Rightarrow> RuntimeState \<Rightarrow> QueryEnd \<times> RuntimeState" where
  "resolve_query env peer query transport st =
     (let fields = [(''peer'', show_socket peer), (''transport'', transport), (''bytes'', show_nat (length query))] @
            push_endpoint_fields ''peer'' peer @
            (case sniff_dns_query query of
               None \<Rightarrow> []
             | Some info \<Rightarrow> [(''transactionId'', show_nat (unat (dq_transaction_id info))), (''queryName'', dq_query_name info),
                 (''queryType'', dq_query_type info)]);
          st1 = runtime_record_event (DnsQuery, fields, qe_query_now env) st
      in case resolve_dns_wire st1 query (qe_inputs env) of
           (None, st2) \<Rightarrow> (QueryWaiting, st2)
         | (Some (Inl SlicePanic), st2) \<Rightarrow> (QueryPanic, st2)
         | (Some (Inr resolution), st2) \<Rightarrow>
             (QueryAnswer (Some (dr_response resolution)),
              runtime_record_event (DnsResponse, dns_response_fields peer transport resolution, qe_answer_now env) st2)
         | (Some (Inl (ResolveError e)), st2) \<Rightarrow>
             (QueryAnswer None,
              runtime_record_event (DnsError,
                [(''peer'', show_socket peer), (''transport'', transport), (''error'', e)] @ push_endpoint_fields ''peer'' peer,
                qe_answer_now env) st2))"

section \<open>UDP\<close>

text \<open>The loop returns at shutdown or at an error of the socket; it does not return when a query does not.\<close>

datatype DnsLoopEnd = DnsLooping | DnsWaiting | DnsPanicked | DnsReturned "string + unit"

datatype DnsUdpInput = DnsShutdown | DnsReceiveFailed | DnsReceived QueryEnv SocketAddr bytes bool

record DnsUdpRelay =
  dl_sent :: "(SocketAddr \<times> bytes) list"
  dl_runtime :: RuntimeState
  dl_end :: DnsLoopEnd

definition dns_run_udp :: "DnsUdpInput \<Rightarrow> DnsUdpRelay \<Rightarrow> DnsUdpRelay" where
  "dns_run_udp input l =
     (if dl_end l \<noteq> DnsLooping then l
      else (case input of
        DnsShutdown \<Rightarrow> l\<lparr>dl_end := DnsReturned (Ok ())\<rparr>
      | DnsReceiveFailed \<Rightarrow> l\<lparr>dl_end := DnsReturned (Err ''failed receiving DNS datagram'')\<rparr>
      | DnsReceived env peer query sendable \<Rightarrow>
          (case resolve_query env peer query ''udp'' (dl_runtime l) of
             (QueryWaiting, st) \<Rightarrow> l\<lparr>dl_runtime := st, dl_end := DnsWaiting\<rparr>
           | (QueryPanic, st) \<Rightarrow> l\<lparr>dl_runtime := st, dl_end := DnsPanicked\<rparr>
           | (QueryAnswer None, st) \<Rightarrow> l\<lparr>dl_runtime := st\<rparr>
           | (QueryAnswer (Some response), st) \<Rightarrow>
               if sendable then l\<lparr>dl_runtime := st, dl_sent := dl_sent l @ [(peer, response)]\<rparr>
               else l\<lparr>dl_runtime := st, dl_end := DnsReturned (Err ''failed sending DNS response'')\<rparr>)))"

section \<open>TCP\<close>

record DnsStream =
  dt_source :: ByteSource
  dt_sink :: ByteSink

text \<open>The two writes of a response, or the part of them that went out before the shutdown.\<close>

definition write_dns_response :: "QueryEnv \<Rightarrow> bytes \<Rightarrow> DnsStream \<Rightarrow> (string + bool) \<times> DnsStream" where
  "write_dns_response env response stream =
     (case qe_cancel_write env of
        Some n \<Rightarrow>
          (Ok False, stream\<lparr>dt_sink := (dt_sink stream)\<lparr>si_sent := si_sent (dt_sink stream) @
             take n (u16_to_be (of_nat (length response)) @ response)\<rparr>\<rparr>)
      | None \<Rightarrow>
          (case write_all (u16_to_be (of_nat (length response))) (dt_sink stream) of
             (Inl _, sink) \<Rightarrow> (Err ''failed writing DNS TCP response'', stream\<lparr>dt_sink := sink\<rparr>)
           | (Inr _, sink) \<Rightarrow>
               (case write_all response sink of
                  (Inl _, sink1) \<Rightarrow> (Err ''failed writing DNS TCP response'', stream\<lparr>dt_sink := sink1\<rparr>)
                | (Inr _, sink1) \<Rightarrow> (Ok True, stream\<lparr>dt_sink := sink1\<rparr>))))"

text \<open>The loop over the queries of a session; the environment of the query number \<open>n\<close> is \<open>envs n\<close>.\<close>

function handle_tcp_session ::
    "(nat \<Rightarrow> QueryEnv) \<Rightarrow> nat \<Rightarrow> SocketAddr \<Rightarrow> DnsStream \<Rightarrow> RuntimeState \<Rightarrow> DnsLoopEnd \<times> DnsStream \<times> RuntimeState" where
  "handle_tcp_session envs n peer stream st =
     (let env = envs n in
      if qe_cancel_length env then (DnsReturned (Ok ()), stream, st)
      else (case read_exact 2 (dt_source stream) of
        (Inl UnexpectedEof, src) \<Rightarrow> (DnsReturned (Ok ()), stream\<lparr>dt_source := src\<rparr>, st)
      | (Inl _, src) \<Rightarrow> (DnsReturned (Err ''failed reading DNS TCP length''), stream\<lparr>dt_source := src\<rparr>, st)
      | (Inr len, src) \<Rightarrow>
          (let len = unat (u16_from_be (len ! 0) (len ! 1)) in
           if len = 0 then (DnsReturned (Err ''DNS TCP query length must be non-zero''), stream\<lparr>dt_source := src\<rparr>, st)
           else if qe_cancel_query env then (DnsReturned (Ok ()), stream\<lparr>dt_source := src\<rparr>, st)
           else (case read_exact len src of
             (Inl _, src1) \<Rightarrow> (DnsReturned (Err ''failed reading DNS TCP query''), stream\<lparr>dt_source := src1\<rparr>, st)
           | (Inr query, src1) \<Rightarrow>
               (let stream1 = stream\<lparr>dt_source := src1\<rparr> in
                case resolve_query env peer query ''tcp'' st of
                  (QueryWaiting, st1) \<Rightarrow> (DnsWaiting, stream1, st1)
                | (QueryPanic, st1) \<Rightarrow> (DnsPanicked, stream1, st1)
                | (QueryAnswer None, st1) \<Rightarrow> handle_tcp_session envs (Suc n) peer stream1 st1
                | (QueryAnswer (Some response), st1) \<Rightarrow>
                    if length response > 65535 then (DnsReturned (Err ''DNS TCP response exceeds 65535 bytes''), stream1, st1)
                    else (case write_dns_response env response stream1 of
                      (Inl e, stream2) \<Rightarrow> (DnsReturned (Err e), stream2, st1)
                    | (Inr False, stream2) \<Rightarrow> (DnsReturned (Ok ()), stream2, st1)
                    | (Inr True, stream2) \<Rightarrow> handle_tcp_session envs (Suc n) peer stream2 st1))))))"
  by pat_completeness auto
termination
  by (relation "measure (\<lambda>(envs, n, peer, stream, st). length (so_bytes (dt_source stream)))")
    (auto simp: read_exact_def write_dns_response_def split: if_splits option.splits prod.splits sum.splits)

text \<open>The task of a session, and the accept loop with its permits.\<close>

definition dns_tcp_session ::
    "(nat \<Rightarrow> QueryEnv) \<Rightarrow> u128 \<Rightarrow> SocketAddr \<Rightarrow> DnsStream \<Rightarrow> RuntimeState \<Rightarrow> DnsStream \<times> RuntimeState" where
  "dns_tcp_session envs now peer stream st =
     (case handle_tcp_session envs 0 peer stream st of
        (DnsReturned (Inl e), stream1, st1) \<Rightarrow>
          (stream1, runtime_record_event (DnsError, [(''peer'', show_socket peer), (''transport'', ''tcp''), (''error'', e)], now) st1)
      | (_, stream1, st1) \<Rightarrow> (stream1, st1))"

datatype DnsTcpInput =
    DnsTcpShutdown | DnsAcceptFailed | DnsAccepted SocketAddr DnsStream u128 | DnsTaskRuns nat "nat \<Rightarrow> QueryEnv" u128

record DnsTcpRelay =
  dk_running :: "(SocketAddr \<times> DnsStream) list"
  dk_runtime :: RuntimeState
  dk_result :: "(string + unit) option"

definition dns_run_tcp :: "nat \<Rightarrow> DnsTcpInput \<Rightarrow> DnsTcpRelay \<Rightarrow> DnsTcpRelay" where
  "dns_run_tcp max_sessions input l =
     (case input of
        DnsTaskRuns i envs now \<Rightarrow>
          if i < length (dk_running l)
          then (case dk_running l ! i of (peer, stream) \<Rightarrow>
            l\<lparr>dk_running := take i (dk_running l) @ drop (Suc i) (dk_running l),
              dk_runtime := snd (dns_tcp_session envs now peer stream (dk_runtime l))\<rparr>)
          else l
      | DnsTcpShutdown \<Rightarrow> if dk_result l = None then l\<lparr>dk_result := Some (Ok ())\<rparr> else l
      | DnsAcceptFailed \<Rightarrow>
          if dk_result l = None then l\<lparr>dk_result := Some (Err ''failed accepting TCP DNS session'')\<rparr> else l
      | DnsAccepted peer stream now \<Rightarrow>
          if dk_result l \<noteq> None then l
          else if length (dk_running l) < max_sessions then l\<lparr>dk_running := dk_running l @ [(peer, stream)]\<rparr>
          else l\<lparr>dk_runtime := runtime_record_event (DnsError,
            [(''peer'', show_socket peer), (''transport'', ''tcp''), (''error'', ''DNS TCP session capacity exhausted''),
             (''maxSessions'', show_nat max_sessions)], now) (dk_runtime l)\<rparr>)"

section \<open>Sessions answer in order\<close>

definition dns_frame :: "bytes \<Rightarrow> bytes" where
  "dns_frame message = u16_to_be (of_nat (length message)) @ message"

text \<open>What a session has to answer: the responses of its queries in order, without those that have none.\<close>

fun dns_answers :: "(nat \<Rightarrow> QueryEnv) \<Rightarrow> nat \<Rightarrow> SocketAddr \<Rightarrow> bytes list \<Rightarrow> RuntimeState \<Rightarrow> (bytes list \<times> RuntimeState) option" where
  "dns_answers envs n peer [] st = Some ([], st)"
| "dns_answers envs n peer (query # queries) st =
     (case resolve_query (envs n) peer query ''tcp'' st of
        (QueryAnswer response, st1) \<Rightarrow>
          map_option (\<lambda>(responses, st2). ((case response of None \<Rightarrow> responses | Some r \<Rightarrow> r # responses), st2))
            (dns_answers envs (Suc n) peer queries st1)
      | _ \<Rightarrow> None)"

definition uncancelled :: "QueryEnv \<Rightarrow> bool" where
  "uncancelled env \<longleftrightarrow> \<not> qe_cancel_length env \<and> \<not> qe_cancel_query env \<and> qe_cancel_write env = None"

lemma read_frame:
  assumes "so_bytes src = dns_frame message @ rest" "length message < 65536"
  obtains len where "read_exact 2 src = (Ok len, src\<lparr>so_bytes := message @ rest\<rparr>)"
    "unat (u16_from_be (len ! 0) (len ! 1)) = length message"
    "read_exact (length message) (src\<lparr>so_bytes := message @ rest\<rparr>) = (Ok message, src\<lparr>so_bytes := rest\<rparr>)"
proof (rule that)
  show "read_exact 2 src = (Ok (u16_to_be (of_nat (length message))), src\<lparr>so_bytes := message @ rest\<rparr>)"
    using assms(1) by (simp add: read_exact_def dns_frame_def)
  show "unat (u16_from_be (u16_to_be (of_nat (length message)) ! 0) (u16_to_be (of_nat (length message)) ! 1)) = length message"
    using assms(2) by (simp add: unat_of_nat_u16)
qed (simp add: read_exact_def)

lemma write_frame:
  assumes "qe_cancel_write env = None" "si_failures (dt_sink stream) = []"
  shows "write_dns_response env response stream =
    (Ok True, stream\<lparr>dt_sink := (dt_sink stream)\<lparr>si_sent := si_sent (dt_sink stream) @ dns_frame response\<rparr>\<rparr>)"
  using assms by (simp add: write_dns_response_def write_all_def dns_frame_def)

text \<open>One step of the loop.\<close>

lemma session_step:
  assumes "uncancelled (envs n)" "so_bytes (dt_source stream) = dns_frame query @ rest" "query \<noteq> []" "length query < 65536"
    and "resolve_query (envs n) peer query ''tcp'' st = (QueryAnswer response, st1)"
    and "\<forall>r\<in>set_option response. length r < 65536" "si_failures (dt_sink stream) = []"
  shows "handle_tcp_session envs n peer stream st =
    handle_tcp_session envs (Suc n) peer (stream\<lparr>dt_source := (dt_source stream)\<lparr>so_bytes := rest\<rparr>,
      dt_sink := (dt_sink stream)\<lparr>si_sent := si_sent (dt_sink stream) @ (case response of None \<Rightarrow> [] | Some r \<Rightarrow> dns_frame r)\<rparr>\<rparr>) st1"
proof -
  obtain len where "read_exact 2 (dt_source stream) = (Ok len, (dt_source stream)\<lparr>so_bytes := query @ rest\<rparr>)"
    "unat (u16_from_be (len ! 0) (len ! 1)) = length query"
    "read_exact (length query) ((dt_source stream)\<lparr>so_bytes := query @ rest\<rparr>) = (Ok query, (dt_source stream)\<lparr>so_bytes := rest\<rparr>)"
    using read_frame [OF assms(2,4)] by blast
  then show ?thesis
    using assms write_frame [of "envs n"]
    by (subst handle_tcp_session.simps, cases response) (simp_all add: uncancelled_def Let_def)
qed

lemma session_answers:
  assumes "dns_answers envs n peer queries st = Some (responses, st')"
    and "so_bytes (dt_source stream) = concat (map dns_frame queries)" "so_failure (dt_source stream) = None"
    and "\<forall>query\<in>set queries. query \<noteq> [] \<and> length query < 65536" "\<forall>response\<in>set responses. length response < 65536"
    and "\<forall>k. uncancelled (envs k)" "si_failures (dt_sink stream) = []"
  shows "handle_tcp_session envs n peer stream st = (DnsReturned (Ok ()),
    stream\<lparr>dt_source := (dt_source stream)\<lparr>so_bytes := []\<rparr>,
      dt_sink := (dt_sink stream)\<lparr>si_sent := si_sent (dt_sink stream) @ concat (map dns_frame responses)\<rparr>\<rparr>, st')"
  using assms
proof (induction queries arbitrary: n stream st responses)
  case Nil
  then show ?case by (subst handle_tcp_session.simps) (simp add: uncancelled_def read_exact_def Let_def)
next
  case (Cons query queries)
  from Cons.prems(1) obtain response st1 rs where
    q: "resolve_query (envs n) peer query ''tcp'' st = (QueryAnswer response, st1)" "dns_answers envs (Suc n) peer queries st1 = Some (rs, st')"
    "responses = (case response of None \<Rightarrow> rs | Some r \<Rightarrow> r # rs)"
    by (auto split: prod.splits QueryEnd.splits)
  let ?stream = "stream\<lparr>dt_source := (dt_source stream)\<lparr>so_bytes := concat (map dns_frame queries)\<rparr>,
      dt_sink := (dt_sink stream)\<lparr>si_sent := si_sent (dt_sink stream) @ (case response of None \<Rightarrow> [] | Some r \<Rightarrow> dns_frame r)\<rparr>\<rparr>"
  have "handle_tcp_session envs n peer stream st = handle_tcp_session envs (Suc n) peer ?stream st1"
    by (rule session_step [where response = response]) (use Cons.prems q(1,3) in \<open>auto split: option.splits\<close>)
  also have "\<dots> = (DnsReturned (Ok ()), ?stream\<lparr>dt_source := (dt_source ?stream)\<lparr>so_bytes := []\<rparr>,
      dt_sink := (dt_sink ?stream)\<lparr>si_sent := si_sent (dt_sink ?stream) @ concat (map dns_frame rs)\<rparr>\<rparr>, st')"
    by (rule Cons.IH [OF q(2)]) (use Cons.prems q(3) in \<open>auto split: option.splits\<close>)
  finally show ?case using q(3) by (simp split: option.splits)
qed

text \<open>
  C21. A DNS session over TCP answers what it is asked: for queries of any number, framed by their lengths and followed by the end of the stream, the
  session returns without an error, and what it has sent are the framed responses of the queries in order, where a query that
  could not be resolved has none; the runtime has seen the queries in this order.
\<close>

theorem dns_session_answers_in_order:
  assumes "dns_answers envs 0 peer queries st = Some (responses, st')"
    and "so_bytes (dt_source stream) = concat (map dns_frame queries)" "so_failure (dt_source stream) = None"
    and "\<forall>query\<in>set queries. query \<noteq> [] \<and> length query < 65536" "\<forall>response\<in>set responses. length response < 65536"
    and "\<forall>k. uncancelled (envs k)" "si_failures (dt_sink stream) = []"
  shows "\<exists>stream'. handle_tcp_session envs 0 peer stream st = (DnsReturned (Ok ()), stream', st') \<and>
    si_sent (dt_sink stream') = si_sent (dt_sink stream) @ concat (map dns_frame responses)"
  using session_answers [OF assms] by simp

lemma record_event_routing [simp]: "rt_routing (runtime_record_event e st) = rt_routing st"
  by (simp add: runtime_record_event_def split: prod.splits)

lemma upstream_answer_resolves:
  assumes "rt_routing st' = rt_routing st" "sniff_dns_query query = None" "qe_inputs env = [RaceResult (Inr r)]" "\<not> only_fake_answers r"
    and "enabled_upstreams (DnsUpstreamStore_snapshot (rg_dns_upstreams (rt_routing st))) \<noteq> []"
  shows "\<exists>st1. resolve_query env peer query transport st' = (QueryAnswer (Some (dr_response r)), st1)"
  using assms by (auto simp: resolve_query_def resolve_dns_wire_def deny_rule_for_def filter_denied_def Let_def)

text \<open>A session with one query.\<close>

definition one_answer :: DnsResolution where
  "one_answer = \<lparr>dr_response = [1, 2, 3], dr_upstream = hd default_dns_upstreams, dr_source = mk_sockaddr (V4 1) 53,
     dr_query_info = None, dr_response_info = None, dr_ipv6_filtered = False, dr_matched_rule_id = None\<rparr>"

definition one_env :: QueryEnv where
  "one_env = \<lparr>qe_inputs = [RaceResult (Inr one_answer)], qe_query_now = 1, qe_answer_now = 2, qe_cancel_length = False,
     qe_cancel_query = False, qe_cancel_write = None\<rparr>"

definition one_stream :: DnsStream where
  "one_stream = \<lparr>dt_source = \<lparr>so_bytes = [0, 2, 7, 7], so_failure = None\<rparr>,
     dt_sink = \<lparr>si_sent = [], si_failures = [], si_shutdown = None, si_closed = False\<rparr>\<rparr>"

lemma one_upstreams: "enabled_upstreams (DnsUpstreamStore_snapshot (rg_dns_upstreams (rt_routing deny_state))) \<noteq> []"
  by code_simp

theorem dns_session_answers_in_order_witness:
  "\<forall>peer. \<exists>stream' st'. handle_tcp_session (\<lambda>_. one_env) 0 peer one_stream deny_state = (DnsReturned (Ok ()), stream', st') \<and>
     si_sent (dt_sink stream') = [0, 3, 1, 2, 3]"
proof
  fix peer
  have "sniff_dns_query [7, 7] = None" by code_simp
  then obtain st1 where "resolve_query one_env peer [7, 7] ''tcp'' deny_state = (QueryAnswer (Some [1, 2, 3]), st1)"
    using upstream_answer_resolves [OF refl, of "[7, 7]" one_env one_answer deny_state peer "''tcp''"] one_upstreams
    by (auto simp: one_env_def one_answer_def only_fake_answers_def)
  then have answers: "dns_answers (\<lambda>_. one_env) 0 peer [[7, 7]] deny_state = Some ([[1, 2, 3]], st1)" by simp
  have frames: "dns_frame [7, 7] = [0, 2, 7, 7]" "dns_frame [1, 2, 3] = [0, 3, 1, 2, 3]" by code_simp+
  show "\<exists>stream' st'. handle_tcp_session (\<lambda>_. one_env) 0 peer one_stream deny_state = (DnsReturned (Ok ()), stream', st') \<and>
     si_sent (dt_sink stream') = [0, 3, 1, 2, 3]"
    using dns_session_answers_in_order [OF answers, of one_stream] by (auto simp: frames one_stream_def one_env_def uncancelled_def)
qed

section \<open>A response that stops the inbound\<close>

lemma stopped_loop: "dl_end l \<noteq> DnsLooping \<Longrightarrow> fold dns_run_udp inputs l = l"
  by (induction inputs) (simp_all add: dns_run_udp_def)

text \<open>
  C32. One upstream can stop the DNS inbound: when a rule denies a query, a response of eight bytes with the transaction id of the query and zero counts
  passes the checks on an upstream's answer, and the panic of the filter ends the one loop that serves all queries over UDP, so that no
  later query is answered.
\<close>

theorem short_response_stops_dns_inbound:
  fixes q f1 f2
  defines "resp \<equiv> u16_to_be (dq_transaction_id q) @ [f1, f2, 0, 0, 0, 0]"
  assumes "dl_end l = DnsLooping" "sniff_dns_query query = Some q" "deny_rule_for (dl_runtime l) (Some q) = Some rule"
    and "enabled_upstreams (DnsUpstreamStore_snapshot (rg_dns_upstreams (rt_routing (dl_runtime l)))) \<noteq> []"
  shows "\<exists>r. query_udp_upstream (\<lambda>_ _. Inr (resp, src)) u query (Some q) = Inr r \<and>
    (let l' = fold dns_run_udp (DnsReceived (env\<lparr>qe_inputs := RaceResult (Inr r) # inputs\<rparr>) peer query sendable # later) l in
     dl_end l' = DnsPanicked \<and> dl_sent l' = dl_sent l)"
proof -
  obtain r where r: "query_udp_upstream (\<lambda>_ _. Inr (resp, src)) u query (Some q) = Inr r"
    "race_loop (Some rule) None None (RaceResult (Inr r) # inputs) = Some (Inl SlicePanic)"
    unfolding resp_def using short_response_panics_race by blast
  let ?env = "env\<lparr>qe_inputs := RaceResult (Inr r) # inputs\<rparr>"
  have "deny_rule_for (runtime_record_event e (dl_runtime l)) (Some q) = Some rule" for e
    using assms(4) by (simp only: deny_rule_for_def dns_ipv6_deny_rule_def record_event_routing)
  then have "fst (resolve_query ?env peer query ''udp'' (dl_runtime l)) = QueryPanic"
    using assms(3,5) r(2) by (simp add: resolve_query_def resolve_dns_wire_def Let_def del: race_loop.simps)
  then obtain st1 where "resolve_query ?env peer query ''udp'' (dl_runtime l) = (QueryPanic, st1)" by (metis prod.collapse)
  then have step: "dns_run_udp (DnsReceived ?env peer query sendable) l = l\<lparr>dl_runtime := st1, dl_end := DnsPanicked\<rparr>"
    using assms(2) by (simp add: dns_run_udp_def)
  have "fold dns_run_udp (DnsReceived ?env peer query sendable # later) l = l\<lparr>dl_runtime := st1, dl_end := DnsPanicked\<rparr>"
    using stopped_loop [of "l\<lparr>dl_runtime := st1, dl_end := DnsPanicked\<rparr>" later] by (simp add: step)
  with r(1) show ?thesis by (simp add: Let_def)
qed

theorem short_response_stops_dns_inbound_witness:
  "\<exists>r. dl_end (fold dns_run_udp [DnsReceived (one_env\<lparr>qe_inputs := [RaceResult (Inr r)]\<rparr>) (mk_sockaddr (V4 9) 1) aaaa_query True]
     \<lparr>dl_sent = [], dl_runtime = deny_state, dl_end = DnsLooping\<rparr>) = DnsPanicked"
proof -
  let ?l = "\<lparr>dl_sent = [], dl_runtime = deny_state, dl_end = DnsLooping\<rparr>"
  have "sniff_dns_query aaaa_query \<noteq> None" by code_simp
  then obtain q where q: "sniff_dns_query aaaa_query = Some q" by auto
  have "deny_rule_for deny_state (sniff_dns_query aaaa_query) = Some ''no6''" by code_simp
  then have deny: "deny_rule_for (dl_runtime ?l) (Some q) = Some ''no6''" by (simp add: q)
  have "enabled_upstreams (DnsUpstreamStore_snapshot (rg_dns_upstreams (rt_routing (dl_runtime ?l)))) \<noteq> []"
    using one_upstreams by simp
  from short_response_stops_dns_inbound [OF _ q deny this, where env = one_env and inputs = "[]" and peer = "mk_sockaddr (V4 9) 1" and
      sendable = True and later = "[]"]
  show ?thesis by (simp add: Let_def) blast
qed

end
