(* ===== verification/Egress_Relays.thy ===== *)
theory Egress_Relays
  imports Ingress_Events Socks_Protocol
begin

text \<open>
  The relay loops below the egress graph: copying with an idle timer (\<open>egress.rs\<close>, \<open>egress/direct.rs\<close>), datagrams over a stream
  (\<open>relay_udp\<close> of \<open>egress/trojan.rs\<close>, \<open>vless.rs\<close> and \<open>vmess.rs\<close>, three copies of one loop), and datagrams over a socket (\<open>egress/direct.rs\<close>,
  \<open>egress/shadowsocks.rs\<close>). Each loop is a function of what it is woken up by. Binding and connecting sockets is left out.
\<close>

section \<open>TCP with an idle timer\<close>

text \<open>The relay future ends, or the timer does; the counters at that time are those of \<open>count_downstream\<close>.\<close>

datatype RelayInput = RelayReturns "EgressError + TcpRelayOutcome" | TimerFires u64 u64

fun idle_loop :: "SocketAddr \<Rightarrow> u64 \<Rightarrow> u64 \<Rightarrow> RelayInput list \<Rightarrow> (EgressError + TcpRelayOutcome) option" where
  "idle_loop upstream last_up last_down [] = None"
| "idle_loop upstream last_up last_down (RelayReturns outcome # inputs) = Some outcome"
| "idle_loop upstream last_up last_down (TimerFires up down # inputs) =
     (if up = last_up \<and> down = last_down then
        Some (Ok \<lparr>to_upstream = upstream, to_client_to_upstream_bytes = up, to_upstream_to_client_bytes = down,
          to_close_reason = ''idle-timeout''\<rparr>)
      else idle_loop upstream up down inputs)"

fun relay_outcome :: "RelayInput list \<Rightarrow> (EgressError + TcpRelayOutcome) option" where
  "relay_outcome [] = None"
| "relay_outcome (RelayReturns outcome # inputs) = Some outcome"
| "relay_outcome (TimerFires _ _ # inputs) = relay_outcome inputs"

definition await_relay_idle ::
    "bool \<Rightarrow> SocketAddr \<Rightarrow> u64 \<Rightarrow> u64 \<Rightarrow> RelayInput list \<Rightarrow> (EgressError + TcpRelayOutcome) option" where
  "await_relay_idle timed upstream up down inputs =
     (if timed then idle_loop upstream up down inputs else relay_outcome inputs)"

text \<open>Copying between the client and a direct upstream. The sinks are the two ends.\<close>

record CopyState =
  cy_downstream :: ByteSink
  cy_upstream :: ByteSink
  cy_client_to_upstream :: u64
  cy_upstream_to_client :: u64
  cy_client_closed :: bool
  cy_upstream_closed :: bool
  cy_end :: "(IoErrorKind + u64 \<times> u64 \<times> string) option"

datatype CopyInput = ClientRead "IoErrorKind + bytes" | UpstreamRead "IoErrorKind + bytes" | CopyIdle

definition copy_return :: "string \<Rightarrow> CopyState \<Rightarrow> CopyState" where
  "copy_return reason s = s\<lparr>cy_end := Some (Ok (cy_client_to_upstream s, cy_upstream_to_client s, reason))\<rparr>"

definition copy_client_read :: "IoErrorKind + bytes \<Rightarrow> CopyState \<Rightarrow> CopyState" where
  "copy_client_read r s =
     (case r of
        Inl e \<Rightarrow> s\<lparr>cy_end := Some (Err e)\<rparr>
      | Inr bs \<Rightarrow>
          if bs = [] then
            (case shutdown (cy_upstream s) of
               (Inl e, sink) \<Rightarrow> s\<lparr>cy_client_closed := True, cy_upstream := sink, cy_end := Some (Err e)\<rparr>
             | (Inr _, sink) \<Rightarrow> s\<lparr>cy_client_closed := True, cy_upstream := sink\<rparr>)
          else
            (case write_all bs (cy_upstream s) of
               (Inl e, sink) \<Rightarrow> s\<lparr>cy_upstream := sink, cy_end := Some (Err e)\<rparr>
             | (Inr _, sink) \<Rightarrow>
                 s\<lparr>cy_upstream := sink, cy_client_to_upstream := cy_client_to_upstream s + of_nat (length bs)\<rparr>))"

definition copy_upstream_read :: "IoErrorKind + bytes \<Rightarrow> CopyState \<Rightarrow> CopyState" where
  "copy_upstream_read r s =
     (case r of
        Inl e \<Rightarrow> s\<lparr>cy_end := Some (Err e)\<rparr>
      | Inr bs \<Rightarrow>
          if bs = [] then s\<lparr>cy_upstream_closed := True\<rparr>
          else
            (case write_all bs (cy_downstream s) of
               (Inl e, sink) \<Rightarrow> s\<lparr>cy_downstream := sink, cy_end := Some (Err e)\<rparr>
             | (Inr _, sink) \<Rightarrow>
                 s\<lparr>cy_downstream := sink, cy_upstream_to_client := cy_upstream_to_client s + of_nat (length bs)\<rparr>))"

text \<open>One round: the branch that is ready, and the two tests at the head of the next one. A branch that is switched off is never ready.\<close>

definition copy_head :: "CopyState \<Rightarrow> CopyState" where
  "copy_head s =
     (if cy_end s \<noteq> None then s
      else if cy_client_closed s \<and> cy_upstream_closed s then copy_return ''normal'' s
      else if cy_upstream_closed s \<and> 0 < cy_upstream_to_client s then copy_return ''normal'' s
      else s)"

definition copy_bidirectional_until_idle :: "CopyInput \<Rightarrow> CopyState \<Rightarrow> CopyState" where
  "copy_bidirectional_until_idle input s =
     (if cy_end s \<noteq> None then s
      else copy_head (case input of
        ClientRead r \<Rightarrow> if cy_client_closed s then s else copy_client_read r s
      | UpstreamRead r \<Rightarrow> if cy_upstream_closed s then s else copy_upstream_read r s
      | CopyIdle \<Rightarrow> copy_return ''idle-timeout'' s))"

text \<open>The counts of an outcome are those of the bytes that were written, modulo \<open>2 ^ 64\<close>.\<close>

definition copy_start :: "ByteSink \<Rightarrow> ByteSink \<Rightarrow> CopyState" where
  "copy_start downstream upstream =
     \<lparr>cy_downstream = downstream, cy_upstream = upstream, cy_client_to_upstream = 0, cy_upstream_to_client = 0,
      cy_client_closed = False, cy_upstream_closed = False, cy_end = None\<rparr>"

definition copy_counts :: "CopyState \<Rightarrow> bool" where
  "copy_counts s \<longleftrightarrow> (case cy_end s of
     None \<Rightarrow> cy_client_to_upstream s = of_nat (length (si_sent (cy_upstream s))) \<and>
       cy_upstream_to_client s = of_nat (length (si_sent (cy_downstream s)))
   | Some (Inl _) \<Rightarrow> True
   | Some (Inr (up, down, _)) \<Rightarrow> up = of_nat (length (si_sent (cy_upstream s))) \<and> down = of_nat (length (si_sent (cy_downstream s))))"

lemma write_all_sent: "write_all bs sink = (Inr u, sink') \<Longrightarrow> si_sent sink' = si_sent sink @ bs"
  by (auto simp: write_all_def split: list.splits option.splits)

lemma shutdown_sent: "shutdown sink = (result, sink') \<Longrightarrow> si_sent sink' = si_sent sink"
  by (auto simp: shutdown_def split: option.splits)

lemma copy_counts_return: "cy_end s = None \<Longrightarrow> copy_counts s \<Longrightarrow> copy_counts (copy_return reason s)"
  by (simp add: copy_counts_def copy_return_def)

lemma copy_counts_head: "copy_counts s \<Longrightarrow> copy_counts (copy_head s)"
  by (simp add: copy_head_def copy_counts_return)

lemma copy_counts_client: "cy_end s = None \<Longrightarrow> copy_counts s \<Longrightarrow> copy_counts (copy_client_read r s)"
  by (auto simp: copy_counts_def copy_client_read_def split: sum.splits prod.splits dest: write_all_sent shutdown_sent)

lemma copy_counts_upstream: "cy_end s = None \<Longrightarrow> copy_counts s \<Longrightarrow> copy_counts (copy_upstream_read r s)"
  by (auto simp: copy_counts_def copy_upstream_read_def split: sum.splits prod.splits dest: write_all_sent)

lemma copy_counts_run:
  assumes "si_sent downstream = []" "si_sent upstream = []"
  shows "copy_counts (fold copy_bidirectional_until_idle inputs (copy_start downstream upstream))"
proof -
  have step: "copy_counts (copy_bidirectional_until_idle input s)" if "copy_counts s" for input s
    using that
    by (cases input) (simp_all add: copy_bidirectional_until_idle_def copy_counts_head copy_counts_client copy_counts_upstream copy_counts_return)
  have "copy_counts s \<Longrightarrow> copy_counts (fold copy_bidirectional_until_idle inputs s)" for s
    by (induction inputs arbitrary: s) (simp_all add: step)
  moreover have "copy_counts (copy_start downstream upstream)" using assms by (simp add: copy_counts_def copy_start_def)
  ultimately show ?thesis .
qed

text \<open>The end of the upstream ends the copying as soon as it has sent something, although the client may still be sending.\<close>

lemma upstream_end_ends_copying:
  assumes "cy_end s = None" "\<not> cy_upstream_closed s" "0 < cy_upstream_to_client s"
  shows "cy_end (copy_bidirectional_until_idle (UpstreamRead (Inr [])) s) =
    Some (Ok (cy_client_to_upstream s, cy_upstream_to_client s, ''normal''))"
  using assms by (simp add: copy_bidirectional_until_idle_def copy_upstream_read_def copy_head_def copy_return_def)

section \<open>Datagrams back to the client\<close>

datatype UdpDownstream = RawDownstream | ChannelDownstream | Socks5Downstream SocketAddr

fun send_to_peer :: "UdpDownstream \<Rightarrow> bytes \<Rightarrow> bytes" where
  "send_to_peer RawDownstream payload = payload"
| "send_to_peer ChannelDownstream payload = payload"
| "send_to_peer (Socks5Downstream response_target) payload = socks5_udp_packet response_target payload"

text \<open>What an association works with: where responses go, whether they can be sent, and the time.\<close>

definition relay_udp_response ::
    "UdpDownstream \<Rightarrow> UdpRelayAssociation \<Rightarrow> string \<Rightarrow> SocketAddr \<Rightarrow> bytes \<Rightarrow> Fields \<Rightarrow> bool \<Rightarrow> u128 \<Rightarrow> bytes list \<Rightarrow> RuntimeState \<Rightarrow>
      (EgressError + unit) \<times> bytes list \<times> RuntimeState" where
  "relay_udp_response downstream association node_protocol upstream payload extra_fields sendable now responses st =
     (if \<not> sendable then
        (Err (EgressError_new ''inbound-write'' (Some upstream) ''failed sending UDP downstream datagram''), responses, st)
      else
        (Ok (), responses @ [send_to_peer downstream payload],
         runtime_record_event (UdpDatagram,
           session_fields (ua_session_id association) (ua_inbound association) node_protocol (ua_peer association) (ua_target association) upstream @
           push_decision_fields (ua_decision association) @
           [(''direction'', ''upstream-to-client''), (''bytes'', show_nat (length payload))] @ extra_fields, now) st))"

section \<open>Datagrams over a stream\<close>

text \<open>
  The loop waits for a payload of the client and for a datagram of the stream at the same time. When the payload comes first the reading of the
  datagram is dropped; what it had already taken from the stream is gone with it. The flag of \<open>StreamDownstream\<close> says whether
  the reading had been polled since the last bytes arrived.
\<close>

record 'r StreamRelay =
  rl_reader :: 'r
  rl_sink :: ByteSink
  rl_responses :: "bytes list"
  rl_runtime :: RuntimeState
  rl_end :: "(EgressError + UdpRelayOutcome) option"

datatype StreamInput =
    StreamArrives bytes | StreamDownstream bytes bool | StreamUpstream bool u128 | StreamEnded | StreamClosed | StreamIdle

definition client_error :: "ClientError \<Rightarrow> SocketAddr \<Rightarrow> EgressError" where
  "client_error e upstream = EgressError_new (ce_stage e) (Some upstream) (ce_message e)"

text \<open>A reading that waits for more bytes would fail with an error of the stage \<open>outbound-read\<close> if there were none.\<close>

definition starved :: "('r \<Rightarrow> (ClientError + bytes) \<times> 'r) \<Rightarrow> 'r \<Rightarrow> bool" where
  "starved read r = (case fst (read r) of Inl e \<Rightarrow> ce_stage e = ''outbound-read'' | Inr _ \<Rightarrow> False)"

definition stream_downstream ::
    "('r \<Rightarrow> (ClientError + bytes) \<times> 'r) \<Rightarrow> (bytes \<Rightarrow> ByteSink \<Rightarrow> (ClientError + unit) \<times> ByteSink) \<Rightarrow> SocketAddr \<Rightarrow> bytes \<Rightarrow> bool \<Rightarrow>
      'r StreamRelay \<Rightarrow> 'r StreamRelay" where
  "stream_downstream read write upstream payload polled l =
     (let l1 = (if polled \<and> starved read (rl_reader l) then l\<lparr>rl_reader := snd (read (rl_reader l))\<rparr> else l) in
      case write payload (rl_sink l1) of
        (Inl e, sink) \<Rightarrow> l1\<lparr>rl_sink := sink, rl_end := Some (Err (client_error e upstream))\<rparr>
      | (Inr _, sink) \<Rightarrow> l1\<lparr>rl_sink := sink\<rparr>)"

definition stream_upstream ::
    "('r \<Rightarrow> (ClientError + bytes) \<times> 'r) \<Rightarrow> string \<Rightarrow> UdpDownstream \<Rightarrow> UdpRelayAssociation \<Rightarrow> SocketAddr \<Rightarrow> bool \<Rightarrow> u128 \<Rightarrow>
      'r StreamRelay \<Rightarrow> 'r StreamRelay" where
  "stream_upstream read tag downstream association upstream sendable now l =
     (if starved read (rl_reader l) then l
      else (case read (rl_reader l) of
        (Inl e, r) \<Rightarrow> l\<lparr>rl_reader := r, rl_end := Some (Err (client_error e upstream))\<rparr>
      | (Inr payload, r) \<Rightarrow>
          (case relay_udp_response downstream association tag upstream payload [] sendable now (rl_responses l) (rl_runtime l) of
             (Inl e, responses, st) \<Rightarrow> l\<lparr>rl_reader := r, rl_responses := responses, rl_runtime := st, rl_end := Some (Err e)\<rparr>
           | (Inr _, responses, st) \<Rightarrow> l\<lparr>rl_reader := r, rl_responses := responses, rl_runtime := st\<rparr>)))"

definition stream_relay_udp ::
    "('r \<Rightarrow> (ClientError + bytes) \<times> 'r) \<Rightarrow> (bytes \<Rightarrow> 'r \<Rightarrow> 'r) \<Rightarrow> (bytes \<Rightarrow> ByteSink \<Rightarrow> (ClientError + unit) \<times> ByteSink) \<Rightarrow>
      string \<Rightarrow> UdpDownstream \<Rightarrow> UdpRelayAssociation \<Rightarrow> SocketAddr \<Rightarrow> StreamInput \<Rightarrow> 'r StreamRelay \<Rightarrow> 'r StreamRelay" where
  "stream_relay_udp read more_bytes write tag downstream association upstream input l =
     (case input of
        StreamArrives bs \<Rightarrow> l\<lparr>rl_reader := more_bytes bs (rl_reader l)\<rparr>
      | _ \<Rightarrow>
        if rl_end l \<noteq> None then l
        else (case input of
          StreamDownstream payload polled \<Rightarrow> stream_downstream read write upstream payload polled l
        | StreamUpstream sendable now \<Rightarrow> stream_upstream read tag downstream association upstream sendable now l
        | StreamEnded \<Rightarrow>
            (case read (rl_reader l) of
               (Inl e, r) \<Rightarrow> l\<lparr>rl_reader := r, rl_end := Some (Err (client_error e upstream))\<rparr>
             | (Inr _, _) \<Rightarrow> l)
        | StreamClosed \<Rightarrow> l\<lparr>rl_end := Some (Ok \<lparr>uo_upstream = upstream, uo_close_reason = ''inbound-closed''\<rparr>)\<rparr>
        | StreamIdle \<Rightarrow> l\<lparr>rl_end := Some (Ok \<lparr>uo_upstream = upstream, uo_close_reason = ''idle-timeout''\<rparr>)\<rparr>))"

text \<open>Trojan and VLESS; the loop of VMess is the same one.\<close>

definition extend_source :: "bytes \<Rightarrow> ByteSource \<Rightarrow> ByteSource" where
  "extend_source bs src = src\<lparr>so_bytes := so_bytes src @ bs\<rparr>"

definition trojan_relay_udp ::
    "UdpDownstream \<Rightarrow> UdpRelayAssociation \<Rightarrow> SocketAddr \<Rightarrow> StreamInput \<Rightarrow> ByteSource StreamRelay \<Rightarrow> ByteSource StreamRelay" where
  "trojan_relay_udp downstream association upstream =
     stream_relay_udp read_udp_packet extend_source (trojan_write_datagram (ua_target association)) ''trojan'' downstream association upstream"

definition vless_relay_udp ::
    "IoErrorKind option \<Rightarrow> UdpDownstream \<Rightarrow> UdpRelayAssociation \<Rightarrow> SocketAddr \<Rightarrow> StreamInput \<Rightarrow>
      (bool \<times> ByteSource) StreamRelay \<Rightarrow> (bool \<times> ByteSource) StreamRelay" where
  "vless_relay_udp flush_error downstream association upstream =
     stream_relay_udp (\<lambda>(pending, src). vless_read_datagram pending src) (\<lambda>bs (pending, src). (pending, extend_source bs src))
       (vless_write_datagram flush_error) ''vless'' downstream association upstream"

section \<open>Datagrams over a socket\<close>

text \<open>What is received and sent by the socket to the upstream, with what the session draws for it; an error of receiving counts as closed.\<close>

datatype 'd SocketInput = SocketDownstream bytes 'd bool | SocketUpstream bytes 'd bool u128 | SocketClosed | SocketReceiveFails | SocketIdle

record 's SocketRelay =
  sk_session :: 's
  sk_sent :: "bytes list"
  sk_responses :: "bytes list"
  sk_runtime :: RuntimeState
  sk_end :: "(EgressError + UdpRelayOutcome) option"

definition socket_closed :: "SocketAddr \<Rightarrow> string \<Rightarrow> 's SocketRelay \<Rightarrow> 's SocketRelay" where
  "socket_closed upstream reason l = l\<lparr>sk_end := Some (Ok \<lparr>uo_upstream = upstream, uo_close_reason = reason\<rparr>)\<rparr>"

definition socket_respond ::
    "UdpDownstream \<Rightarrow> UdpRelayAssociation \<Rightarrow> string \<Rightarrow> SocketAddr \<Rightarrow> Fields \<Rightarrow> bytes \<Rightarrow> bool \<Rightarrow> u128 \<Rightarrow> 's SocketRelay \<Rightarrow> 's SocketRelay" where
  "socket_respond downstream association tag upstream extra payload sendable now l =
     (case relay_udp_response downstream association tag upstream payload extra sendable now (sk_responses l) (sk_runtime l) of
        (Inl e, responses, st) \<Rightarrow> l\<lparr>sk_responses := responses, sk_runtime := st, sk_end := Some (Err e)\<rparr>
      | (Inr _, responses, st) \<Rightarrow> l\<lparr>sk_responses := responses, sk_runtime := st\<rparr>)"

definition direct_handle_udp :: "UdpDownstream \<Rightarrow> UdpRelayAssociation \<Rightarrow> unit SocketInput \<Rightarrow> unit SocketRelay \<Rightarrow> unit SocketRelay" where
  "direct_handle_udp downstream association input l =
     (if sk_end l \<noteq> None then l
      else (case input of
        SocketDownstream payload _ sendable \<Rightarrow>
          if sendable then l\<lparr>sk_sent := sk_sent l @ [payload]\<rparr>
          else l\<lparr>sk_end := Some (Err (EgressError_new ''egress-write'' (Some (ua_target association)) ''failed sending UDP target datagram''))\<rparr>
      | SocketUpstream packet _ sendable now \<Rightarrow>
          socket_respond downstream association DIRECT_EGRESS (ua_target association) [] packet sendable now l
      | SocketClosed \<Rightarrow> socket_closed (ua_target association) ''inbound-closed'' l
      | SocketReceiveFails \<Rightarrow> socket_closed (ua_target association) ''inbound-closed'' l
      | SocketIdle \<Rightarrow> socket_closed (ua_target association) ''idle-timeout'' l))"

definition ss_handle_udp ::
    "Primitives \<Rightarrow> UdpDownstream \<Rightarrow> UdpRelayAssociation \<Rightarrow> SocketAddr \<Rightarrow> Draws SocketInput \<Rightarrow> UdpProtocol SocketRelay \<Rightarrow> UdpProtocol SocketRelay" where
  "ss_handle_udp pm downstream association upstream input l =
     (if sk_end l \<noteq> None then l
      else (case input of
        SocketDownstream payload dr sendable \<Rightarrow>
          (case session_encode_udp_datagram pm dr (ua_target association) payload (sk_session l) of
             (Inl e, session) \<Rightarrow> l\<lparr>sk_session := session, sk_end := Some (Err (client_error e upstream))\<rparr>
           | (Inr packet, session) \<Rightarrow>
               if sendable then l\<lparr>sk_session := session, sk_sent := sk_sent l @ [packet]\<rparr>
               else l\<lparr>sk_session := session,
                 sk_end := Some (Err (EgressError_new ''egress-write'' (Some upstream) ''failed sending Shadowsocks UDP packet''))\<rparr>)
      | SocketUpstream packet dr sendable now \<Rightarrow>
          (case session_decode_udp_datagram pm dr packet (sk_session l) of
             (Inl e, session) \<Rightarrow> l\<lparr>sk_session := session, sk_end := Some (Err (client_error e upstream))\<rparr>
           | (Inr payload, session) \<Rightarrow>
               socket_respond downstream association ''ss'' upstream [] payload sendable now (l\<lparr>sk_session := session\<rparr>))
      | SocketClosed \<Rightarrow> socket_closed upstream ''inbound-closed'' l
      | SocketReceiveFails \<Rightarrow> socket_closed upstream ''inbound-closed'' l
      | SocketIdle \<Rightarrow> socket_closed upstream ''idle-timeout'' l))"

text \<open>Shadowsocks through Shadowsocks: the packet of the final server is the payload of the one for the underlay, each with its own session.\<close>

definition shadowsocks_chain_error :: "string \<Rightarrow> ClientError \<Rightarrow> SocketAddr \<Rightarrow> EgressError" where
  "shadowsocks_chain_error stage e upstream = EgressError_new stage (Some upstream) (ce_message e)"

definition DATAGRAM_LIMIT :: nat where "DATAGRAM_LIMIT = 65535"

definition ensure_datagram_limit :: "string \<Rightarrow> nat \<Rightarrow> SocketAddr \<Rightarrow> EgressError + unit" where
  "ensure_datagram_limit stage n upstream =
     (if n \<le> DATAGRAM_LIMIT then Ok ()
      else Err (EgressError_new stage (Some upstream)
        (''encoded UDP packet exceeds '' @ show_nat DATAGRAM_LIMIT @ '' bytes: '' @ show_nat n)))"

definition send_chained_udp_request ::
    "Primitives \<Rightarrow> Draws \<times> Draws \<Rightarrow> UdpRelayAssociation \<Rightarrow> SocketAddr \<Rightarrow> SocketAddr \<Rightarrow> bytes \<Rightarrow> bool \<Rightarrow>
      (UdpProtocol \<times> UdpProtocol) SocketRelay \<Rightarrow> (UdpProtocol \<times> UdpProtocol) SocketRelay" where
  "send_chained_udp_request pm dr association final_server upstream payload sendable l =
     (case session_encode_udp_datagram pm (fst dr) (ua_target association) payload (fst (sk_session l)) of
        (Inl e, final) \<Rightarrow>
          l\<lparr>sk_session := (final, snd (sk_session l)), sk_end := Some (Err (shadowsocks_chain_error ''egress-udp-inner-encode'' e final_server))\<rparr>
      | (Inr inner_packet, final) \<Rightarrow>
          (let l1 = l\<lparr>sk_session := (final, snd (sk_session l))\<rparr> in
           case ensure_datagram_limit ''egress-udp-inner-encode'' (length inner_packet) final_server of
             Inl e \<Rightarrow> l1\<lparr>sk_end := Some (Err e)\<rparr>
           | Inr _ \<Rightarrow>
               (case session_encode_udp_datagram pm (snd dr) final_server inner_packet (snd (sk_session l1)) of
                  (Inl e, underlay) \<Rightarrow>
                    l1\<lparr>sk_session := (final, underlay), sk_end := Some (Err (shadowsocks_chain_error ''egress-udp-outer-encode'' e upstream))\<rparr>
                | (Inr outer_packet, underlay) \<Rightarrow>
                    (let l2 = l1\<lparr>sk_session := (final, underlay)\<rparr> in
                     case ensure_datagram_limit ''egress-udp-outer-encode'' (length outer_packet) upstream of
                       Inl e \<Rightarrow> l2\<lparr>sk_end := Some (Err e)\<rparr>
                     | Inr _ \<Rightarrow>
                         if sendable then l2\<lparr>sk_sent := sk_sent l2 @ [outer_packet]\<rparr>
                         else l2\<lparr>sk_end := Some (Err (EgressError_new ''egress-udp-outer-write'' (Some upstream)
                           ''failed sending Shadowsocks UDP underlay packet''))\<rparr>))))"

definition decode_chained_udp_response ::
    "Primitives \<Rightarrow> Draws \<times> Draws \<Rightarrow> SocketAddr \<Rightarrow> SocketAddr \<Rightarrow> bytes \<Rightarrow> UdpProtocol \<times> UdpProtocol \<Rightarrow>
      (EgressError + bytes) \<times> UdpProtocol \<times> UdpProtocol" where
  "decode_chained_udp_response pm dr upstream final_server packet sessions =
     (case session_decode_udp_datagram pm (snd dr) packet (snd sessions) of
        (Inl e, underlay) \<Rightarrow> (Err (shadowsocks_chain_error ''egress-udp-outer-decode'' e upstream), fst sessions, underlay)
      | (Inr outer_payload, underlay) \<Rightarrow>
          (case session_decode_udp_datagram pm (fst dr) outer_payload (fst sessions) of
             (Inl e, final) \<Rightarrow> (Err (shadowsocks_chain_error ''egress-udp-inner-decode'' e final_server), final, underlay)
           | (Inr payload, final) \<Rightarrow> (Ok payload, final, underlay)))"

definition handle_chained_udp_response ::
    "UdpDownstream \<Rightarrow> UdpRelayAssociation \<Rightarrow> SocketAddr \<Rightarrow> SocketAddr \<Rightarrow> bytes \<Rightarrow> bool \<Rightarrow> u128 \<Rightarrow> 's SocketRelay \<Rightarrow> 's SocketRelay" where
  "handle_chained_udp_response downstream association upstream final_server =
     socket_respond downstream association ''ss'' upstream
       [(''udpUnderlay'', show_socket upstream), (''udpFinalServer'', show_socket final_server)]"

definition handle_udp_over_ss ::
    "Primitives \<Rightarrow> UdpDownstream \<Rightarrow> UdpRelayAssociation \<Rightarrow> SocketAddr \<Rightarrow> SocketAddr \<Rightarrow> (Draws \<times> Draws) SocketInput \<Rightarrow>
      (UdpProtocol \<times> UdpProtocol) SocketRelay \<Rightarrow> (UdpProtocol \<times> UdpProtocol) SocketRelay" where
  "handle_udp_over_ss pm downstream association final_server upstream input l =
     (if sk_end l \<noteq> None then l
      else (case input of
        SocketDownstream payload dr sendable \<Rightarrow> send_chained_udp_request pm dr association final_server upstream payload sendable l
      | SocketUpstream packet dr sendable now \<Rightarrow>
          (case decode_chained_udp_response pm dr upstream final_server packet (sk_session l) of
             (Inl e, sessions) \<Rightarrow> l\<lparr>sk_session := sessions, sk_end := Some (Err e)\<rparr>
           | (Inr payload, sessions) \<Rightarrow>
               handle_chained_udp_response downstream association upstream final_server payload sendable now (l\<lparr>sk_session := sessions\<rparr>))
      | SocketClosed \<Rightarrow> socket_closed upstream ''inbound-closed'' l
      | SocketReceiveFails \<Rightarrow> socket_closed upstream ''inbound-closed'' l
      | SocketIdle \<Rightarrow> socket_closed upstream ''idle-timeout'' l))"

text \<open>No packet that is sent to the underlay is longer than what one call can receive.\<close>

lemma socket_respond_sent [simp]: "sk_sent (socket_respond downstream association tag upstream extra payload sendable now l) = sk_sent l"
  by (simp add: socket_respond_def split: prod.split sum.split)

lemma chained_request_sent:
  assumes "packet \<in> set (sk_sent (send_chained_udp_request pm dr association final_server upstream payload sendable l))"
  shows "packet \<in> set (sk_sent l) \<or> length packet \<le> DATAGRAM_LIMIT"
proof -
  obtain inner final where i: "session_encode_udp_datagram pm (fst dr) (ua_target association) payload (fst (sk_session l)) = (inner, final)"
    by fastforce
  show ?thesis
  proof (cases inner)
    case (Inl e)
    with assms i show ?thesis by (simp add: send_chained_udp_request_def)
  next
    case (Inr inner_packet)
    obtain outer underlay where "session_encode_udp_datagram pm (snd dr) final_server inner_packet (snd (sk_session l)) = (outer, underlay)"
      by fastforce
    with assms i Inr show ?thesis
      by (cases outer) (auto simp: send_chained_udp_request_def ensure_datagram_limit_def Let_def split: if_splits)
  qed
qed

lemma chained_packets_bounded:
  assumes "\<forall>packet\<in>set (sk_sent l). length packet \<le> DATAGRAM_LIMIT"
  shows "\<forall>packet\<in>set (sk_sent (fold (handle_udp_over_ss pm downstream association final_server upstream) inputs l)). length packet \<le> DATAGRAM_LIMIT"
proof -
  have step: "\<forall>packet\<in>set (sk_sent (handle_udp_over_ss pm downstream association final_server upstream input l)). length packet \<le> DATAGRAM_LIMIT"
    if l: "\<forall>packet\<in>set (sk_sent l). length packet \<le> DATAGRAM_LIMIT" for l :: "(UdpProtocol \<times> UdpProtocol) SocketRelay" and input
  proof (cases input)
    case (SocketDownstream payload dr sendable)
    with l show ?thesis by (auto simp: handle_udp_over_ss_def dest: chained_request_sent)
  next
    case (SocketUpstream packet dr sendable now)
    with l show ?thesis
      by (simp add: handle_udp_over_ss_def handle_chained_udp_response_def split: prod.split sum.split)
  qed (use l in \<open>simp_all add: handle_udp_over_ss_def socket_closed_def\<close>)
  show ?thesis using assms
  proof (induction inputs arbitrary: l)
    case (Cons input inputs)
    from Cons.IH [OF step [OF Cons.prems]] show ?case by simp
  qed simp
qed

section \<open>What the readers of datagrams have in common\<close>

text \<open>The datagrams at the head of what a reader is given.\<close>

fun taken :: "('r \<Rightarrow> (ClientError + bytes) \<times> 'r) \<Rightarrow> bytes list \<Rightarrow> 'r \<Rightarrow> 'r option" where
  "taken read [] r = Some r"
| "taken read (p # ps) r = (case read r of (Inr q, r') \<Rightarrow> if q = p then taken read ps r' else None | (Inl _, _) \<Rightarrow> None)"

lemma taken_append: "taken read (ps @ qs) r = Option.bind (taken read ps r) (taken read qs)"
  by (induction ps arbitrary: r) (auto split: prod.splits sum.splits)

fun written :: "(bytes \<Rightarrow> ByteSink \<Rightarrow> (ClientError + unit) \<times> ByteSink) \<Rightarrow> bytes list \<Rightarrow> ByteSink \<Rightarrow> ByteSink option" where
  "written write [] sink = Some sink"
| "written write (p # ps) sink = (case write p sink of (Inr _, sink') \<Rightarrow> written write ps sink' | (Inl _, _) \<Rightarrow> None)"

lemma written_append: "written write (ps @ qs) sink = Option.bind (written write ps sink) (written write qs)"
  by (induction ps arbitrary: sink) (auto split: prod.splits sum.splits)

definition arrived :: "StreamInput list \<Rightarrow> bytes" where
  "arrived inputs = concat (map (\<lambda>i. case i of StreamArrives bs \<Rightarrow> bs | _ \<Rightarrow> []) inputs)"

definition payloads :: "StreamInput list \<Rightarrow> bytes list" where
  "payloads inputs = concat (map (\<lambda>i. case i of StreamDownstream payload _ \<Rightarrow> [payload] | _ \<Rightarrow> []) inputs)"

definition uninterrupted :: "StreamInput list \<Rightarrow> bool" where
  "uninterrupted inputs = list_all (\<lambda>i. case i of StreamDownstream _ polled \<Rightarrow> \<not> polled | _ \<Rightarrow> True) inputs"

locale datagram_reader =
  fixes read :: "'r \<Rightarrow> (ClientError + bytes) \<times> 'r"
    and more_bytes :: "bytes \<Rightarrow> 'r \<Rightarrow> 'r"
  assumes read_more: "read r = (Inr p, r') \<Longrightarrow> read (more_bytes bs r) = (Inr p, more_bytes bs r')"
    and more_more: "more_bytes bs (more_bytes as r) = more_bytes (as @ bs) r"
    and more_nothing: "more_bytes [] r = r"
begin

lemma taken_more: "taken read ps r = Some r' \<Longrightarrow> taken read ps (more_bytes bs r) = Some (more_bytes bs r')"
  by (induction ps arbitrary: r) (auto simp: read_more split: prod.splits sum.splits if_splits)

text \<open>Without interrupted readings the responses are the datagrams at the head of what arrived.\<close>

lemma relay_step:
  assumes "taken read ps (more_bytes bs r0) = Some r" "rl_end l = None \<longrightarrow> rl_reader l = r" "uninterrupted [i]"
    and "rl_responses l = map (send_to_peer downstream) ps"
    and "l' = stream_relay_udp read more_bytes write tag downstream association upstream i l"
  shows "\<exists>ps' r'. taken read ps' (more_bytes (bs @ arrived [i]) r0) = Some r' \<and> (rl_end l' = None \<longrightarrow> rl_reader l' = r') \<and>
    rl_responses l' = map (send_to_peer downstream) ps'"
proof (cases i)
  case (StreamArrives as)
  with assms show ?thesis
    using taken_more [OF assms(1), of as] by (auto simp: stream_relay_udp_def more_more arrived_def)
next
  case (StreamUpstream sendable now)
  show ?thesis
  proof (cases "rl_end l \<noteq> None \<or> starved read (rl_reader l)")
    case True
    with assms StreamUpstream show ?thesis by (auto simp: stream_relay_udp_def stream_upstream_def arrived_def)
  next
    case False
    show ?thesis
    proof (cases "read (rl_reader l)")
      case (Pair result r1)
      then show ?thesis
      proof (cases result)
        case (Inr p)
        with Pair assms(1,2) False have "taken read (ps @ [p]) (more_bytes bs r0) = Some r1" by (simp add: taken_append)
        with False Pair Inr assms StreamUpstream show ?thesis
          by (cases sendable) (auto simp: stream_relay_udp_def stream_upstream_def arrived_def relay_udp_response_def
            intro: exI [of _ "ps @ [p]"])
      qed (use False Pair assms StreamUpstream in \<open>auto simp: stream_relay_udp_def stream_upstream_def arrived_def\<close>)
    qed
  qed
qed (use assms in \<open>auto simp: stream_relay_udp_def stream_downstream_def arrived_def uninterrupted_def Let_def
  split: prod.splits sum.splits\<close>)

lemma relay_run:
  assumes "taken read ps (more_bytes bs r0) = Some r" "rl_end l = None \<longrightarrow> rl_reader l = r" "uninterrupted inputs"
    and "rl_responses l = map (send_to_peer downstream) ps"
    and "l' = fold (stream_relay_udp read more_bytes write tag downstream association upstream) inputs l"
  shows "\<exists>ps' r'. taken read ps' (more_bytes (bs @ arrived inputs) r0) = Some r' \<and> (rl_end l' = None \<longrightarrow> rl_reader l' = r') \<and>
    rl_responses l' = map (send_to_peer downstream) ps'"
  using assms
proof (induction inputs arbitrary: ps bs r l)
  case Nil
  then show ?case by (auto simp: arrived_def)
next
  case (Cons i inputs)
  let ?l = "stream_relay_udp read more_bytes write tag downstream association upstream i l"
  have "uninterrupted [i]" "uninterrupted inputs" using Cons.prems(3) by (simp_all add: uninterrupted_def)
  have "\<exists>ps' r'. taken read ps' (more_bytes (bs @ arrived [i]) r0) = Some r' \<and> (rl_end ?l = None \<longrightarrow> rl_reader ?l = r') \<and>
      rl_responses ?l = map (send_to_peer downstream) ps'"
    using relay_step [OF Cons.prems(1,2) \<open>uninterrupted [i]\<close> Cons.prems(4) refl] .
  then obtain ps1 r1 where "taken read ps1 (more_bytes (bs @ arrived [i]) r0) = Some r1" "rl_end ?l = None \<longrightarrow> rl_reader ?l = r1"
      "rl_responses ?l = map (send_to_peer downstream) ps1"
    by (elim exE conjE)
  from Cons.IH [OF this(1,2) \<open>uninterrupted inputs\<close> this(3)] Cons.prems(5) show ?case by (simp add: arrived_def)
qed

end

text \<open>What a running relay has written, whatever was interrupted.\<close>

lemma relay_writes_step:
  assumes "rl_end (stream_relay_udp read more_bytes write tag downstream association upstream i l) = None"
  shows "rl_end l = None \<and> written write (payloads [i]) (rl_sink l) =
    Some (rl_sink (stream_relay_udp read more_bytes write tag downstream association upstream i l))"
proof (cases i)
  case (StreamUpstream sendable now)
  with assms show ?thesis
    by (cases "read (rl_reader l)")
      (auto simp: stream_relay_udp_def stream_upstream_def relay_udp_response_def payloads_def split: if_splits sum.splits)
qed (use assms in \<open>auto simp: stream_relay_udp_def stream_downstream_def payloads_def Let_def split: prod.splits sum.splits if_splits\<close>)

lemma relay_writes:
  assumes "rl_end (fold (stream_relay_udp read more_bytes write tag downstream association upstream) inputs l) = None"
  shows "rl_end l = None \<and> written write (payloads inputs) (rl_sink l) =
    Some (rl_sink (fold (stream_relay_udp read more_bytes write tag downstream association upstream) inputs l))"
  using assms
proof (induction inputs arbitrary: l)
  case Nil
  then show ?case by (simp add: payloads_def)
next
  case (Cons i inputs)
  let ?l = "stream_relay_udp read more_bytes write tag downstream association upstream i l"
  from Cons.IH [of ?l] Cons.prems have ih: "rl_end ?l = None"
      "written write (payloads inputs) (rl_sink ?l) = Some (rl_sink (fold (stream_relay_udp read more_bytes write tag downstream association upstream) inputs ?l))"
    by simp_all
  have "payloads (i # inputs) = payloads [i] @ payloads inputs" by (simp add: payloads_def)
  then show ?case using relay_writes_step [OF ih(1)] ih(2) by (simp add: written_append)
qed

section \<open>The readers\<close>

text \<open>
  A reader that only looks at the head of its stream: what it returns stays when more bytes follow, and it fails either because the bytes
  are used up, having taken all of them, or whatever follows.
\<close>

definition steady :: "ClientError set \<Rightarrow> (ByteSource \<Rightarrow> (ClientError + 'a) \<times> ByteSource) \<Rightarrow> bool" where
  "steady E r \<longleftrightarrow> (\<forall>src bs.
     (case r src of
        (Inr x, s) \<Rightarrow> r (extend_source bs src) = (Inr x, extend_source bs s) \<and> so_failure s = so_failure src
      | (Inl e, s) \<Rightarrow> e \<in> E \<and> s = src\<lparr>so_bytes := []\<rparr> \<or> fst (r (extend_source bs src)) = Inl e))"

lemma steady_Ok: "steady E r \<Longrightarrow> r src = (Inr x, s) \<Longrightarrow> r (extend_source bs src) = (Inr x, extend_source bs s) \<and> so_failure s = so_failure src"
  unfolding steady_def by (drule spec [of _ src], drule spec [of _ bs]) simp

lemma steady_Err: "steady E r \<Longrightarrow> r src = (Inl e, s) \<Longrightarrow> e \<in> E \<and> s = src\<lparr>so_bytes := []\<rparr> \<or> fst (r (extend_source bs src)) = Inl e"
  unfolding steady_def by (drule spec [of _ src], drule spec [of _ bs]) simp

lemma steadyI:
  assumes "\<And>src bs x s. r src = (Inr x, s) \<Longrightarrow> r (extend_source bs src) = (Inr x, extend_source bs s) \<and> so_failure s = so_failure src"
    and "\<And>src bs e s. r src = (Inl e, s) \<Longrightarrow> e \<in> E \<and> s = src\<lparr>so_bytes := []\<rparr> \<or> fst (r (extend_source bs src)) = Inl e"
  shows "steady E r"
  using assms by (simp add: steady_def split: prod.splits sum.splits)

lemma steady_return: "steady E (\<lambda>src. (Inr x, src))" and steady_fail: "steady E (\<lambda>src. (Inl e, src))"
  by (simp_all add: steady_def)

lemma steady_read_exact:
  assumes f: "\<And>y. steady E (f y)" and "e0 \<in> E"
  shows "steady E (\<lambda>src. case read_exact n src of (Inl _, src1) \<Rightarrow> (Inl e0, src1) | (Inr y, src1) \<Rightarrow> f y src1)"
    (is "steady E ?r")
proof (rule steadyI)
  fix src bs x s
  assume r: "?r src = (Inr x, s)"
  then have n: "n \<le> length (so_bytes src)" by (auto simp: read_exact_def split: if_splits)
  let ?src = "src\<lparr>so_bytes := drop n (so_bytes src)\<rparr>"
  have "f (take n (so_bytes src)) ?src = (Inr x, s)" using r n by (simp add: read_exact_def)
  from steady_Ok [OF f this, of bs] n
  show "?r (extend_source bs src) = (Inr x, extend_source bs s) \<and> so_failure s = so_failure src"
    by (simp add: read_exact_def extend_source_def)
next
  fix src bs e s
  assume r: "?r src = (Inl e, s)"
  show "e \<in> E \<and> s = src\<lparr>so_bytes := []\<rparr> \<or> fst (?r (extend_source bs src)) = Inl e"
  proof (cases "n \<le> length (so_bytes src)")
    case False
    with r assms(2) show ?thesis by (simp add: read_exact_def)
  next
    case True
    let ?src = "src\<lparr>so_bytes := drop n (so_bytes src)\<rparr>"
    have "f (take n (so_bytes src)) ?src = (Inl e, s)" using r True by (simp add: read_exact_def)
    from steady_Err [OF f this, of bs] True show ?thesis by (simp add: read_exact_def extend_source_def)
  qed
qed

lemma steady_bind:
  assumes "steady E r" "\<And>x. steady E (f x)"
  shows "steady E (\<lambda>src. case r src of (Inl e, src1) \<Rightarrow> (Inl e, src1) | (Inr x, src1) \<Rightarrow> f x src1)"
    (is "steady E ?b")
proof (rule steadyI)
  fix src bs y s
  assume b: "?b src = (Inr y, s)"
  then obtain x src1 where r: "r src = (Inr x, src1)" and fx: "f x src1 = (Inr y, s)" by (auto split: prod.splits sum.splits)
  from steady_Ok [OF assms(1) r, of bs] steady_Ok [OF assms(2) fx, of bs]
  show "?b (extend_source bs src) = (Inr y, extend_source bs s) \<and> so_failure s = so_failure src" by simp
next
  fix src bs e s
  assume b: "?b src = (Inl e, s)"
  show "e \<in> E \<and> s = src\<lparr>so_bytes := []\<rparr> \<or> fst (?b (extend_source bs src)) = Inl e"
  proof (cases "r src")
    case (Pair result src1)
    show ?thesis
    proof (cases result)
      case (Inl e1)
      with Pair b have "r src = (Inl e, s)" by simp
      from steady_Err [OF assms(1) this, of bs] show ?thesis by (auto split: prod.splits sum.splits)
    next
      case (Inr x)
      with Pair b have r: "r src = (Inr x, src1)" and fx: "f x src1 = (Inl e, s)" by simp_all
      from steady_Ok [OF assms(1) r, of bs] steady_Err [OF assms(2) fx, of bs] show ?thesis
        by (cases src; cases src1) auto
    qed
  qed
qed

lemma steady_reading: "(\<And>y. steady {trojan_read_error} (f y)) \<Longrightarrow> steady {trojan_read_error} (\<lambda>src. reading n src f)"
  unfolding reading_def by (rule steady_read_exact) simp_all

lemma steady_if: "steady E a \<Longrightarrow> steady E b \<Longrightarrow> steady E (\<lambda>src. if c then a src else b src)"
  by (cases c) simp_all

lemmas steady_intros = steady_reading steady_if steady_return steady_fail

lemma steady_read_udp_packet: "steady {trojan_read_error} read_udp_packet"
proof -
  have address: "steady {trojan_read_error} read_address"
    unfolding read_address_def by (intro steady_intros)
  have "steady {trojan_read_error} (\<lambda>src. case read_address src of (Inl e, src1) \<Rightarrow> (Inl e, src1)
      | (Inr u, src1) \<Rightarrow> reading 2 src1 (\<lambda>len src2. reading 2 src2 (\<lambda>crlf src3.
          if crlf \<noteq> CRLF then (Err (ClientError ''outbound-protocol'' ''invalid Trojan UDP packet delimiter''), src3)
          else reading (unat (u16_from_be (len ! 0) (len ! 1))) src3 (\<lambda>payload src4. (Ok payload, src4)))))"
    by (intro steady_bind address steady_intros)
  then show ?thesis unfolding read_udp_packet_def .
qed

lemma extend_source_laws: "extend_source bs (extend_source as src) = extend_source (as @ bs) src" "extend_source [] src = src"
  by (simp_all add: extend_source_def)

interpretation trojan: datagram_reader read_udp_packet extend_source
  by unfold_locales (auto dest: steady_Ok [OF steady_read_udp_packet] simp: extend_source_laws)

text \<open>VLESS reads a header before the first datagram; the flag says that it is still to come.\<close>

lemma steady_vless:
  "steady {e. ce_stage e = ''outbound-read''} read_vless_response_header" "steady {e. ce_stage e = ''outbound-read''} read_udp_frame"
proof -
  let ?E = "{e. ce_stage e = ''outbound-read''}"
  have "steady ?E (\<lambda>src. case read_exact 2 src of
        (Inl _, src1) \<Rightarrow> (Inl (ClientError ''outbound-read'' ''failed reading VLESS response header''), src1)
      | (Inr header, src1) \<Rightarrow>
          if header ! 0 \<noteq> VERSION then (Err (ClientError ''outbound-protocol'' ''invalid VLESS response version''), src1)
          else if 0 < unat (header ! 1) then
            (case read_exact (unat (header ! 1)) src1 of
               (Inl _, src2) \<Rightarrow> (Inl (ClientError ''outbound-read'' ''failed reading VLESS response addon''), src2)
             | (Inr _, src2) \<Rightarrow> (Ok (), src2))
          else (Ok (), src1))"
    by (intro steady_read_exact steady_if steady_return steady_fail) simp_all
  then show "steady ?E read_vless_response_header" unfolding read_vless_response_header_def Let_def .
  have "steady ?E (\<lambda>src. case read_exact 2 src of
        (Inl _, src1) \<Rightarrow> (Inl (ClientError ''outbound-read'' ''failed reading VLESS UDP payload length''), src1)
      | (Inr len, src1) \<Rightarrow>
          (case read_exact (unat (u16_from_be (len ! 0) (len ! 1))) src1 of
             (Inl _, src2) \<Rightarrow> (Inl (ClientError ''outbound-read'' ''failed reading VLESS UDP payload''), src2)
           | (Inr payload, src2) \<Rightarrow> (Ok payload, src2)))"
    by (intro steady_read_exact steady_return) simp_all
  then show "steady ?E read_udp_frame" unfolding read_udp_frame_def .
qed

interpretation vless: datagram_reader "\<lambda>(pending, src). vless_read_datagram pending src" "\<lambda>bs (pending, src). (pending, extend_source bs src)"
proof
  fix r p r' bs
  assume "(case r of (pending, src) \<Rightarrow> vless_read_datagram pending src) = (Inr p, r')"
  then show "(case (case r of (pending, src) \<Rightarrow> (pending, extend_source bs src)) of (pending, src) \<Rightarrow> vless_read_datagram pending src) =
      (Inr p, case r' of (pending, src) \<Rightarrow> (pending, extend_source bs src))"
    using steady_Ok [OF steady_vless(1)] steady_Ok [OF steady_vless(2)]
    by (cases r) (auto simp: vless_read_datagram_def split: if_splits prod.splits sum.splits)
qed (auto simp: extend_source_laws)

section \<open>Trojan datagrams through the relay\<close>

lemma written_datagrams:
  "write_datagrams (map (Pair target) ps) sink = (Ok (), sink') \<longleftrightarrow> written (trojan_write_datagram target) ps sink = Some sink'"
  by (induction ps arbitrary: sink) (auto split: prod.splits sum.splits)

definition open_relay :: "bytes \<Rightarrow> RuntimeState \<Rightarrow> ByteSource StreamRelay" where
  "open_relay sent st =
     \<lparr>rl_reader = \<lparr>so_bytes = [], so_failure = None\<rparr>, rl_sink = open_sink sent, rl_responses = [], rl_runtime = st, rl_end = None\<rparr>"

text \<open>A datagram that arrives in two pieces around a payload of the client.\<close>

definition relay_inputs :: "StreamInput list" where
  "relay_inputs = [StreamArrives [1, 8, 8, 8, 8, 0, 53, 0, 2, 13], StreamDownstream [3, 4] False, StreamArrives [10, 5, 6], StreamUpstream True 9]"

lemma relay_inputs_read:
  "read_udp_packet \<lparr>so_bytes = [1, 8, 8, 8, 8, 0, 53, 0, 2, 13, 10, 5, 6], so_failure = None\<rparr> = (Ok [5, 6], \<lparr>so_bytes = [], so_failure = None\<rparr>)"
  by code_simp

lemma relay_inputs_run:
  "rl_end (fold (trojan_relay_udp downstream association upstream) relay_inputs (open_relay sent st)) = None"
  using relay_inputs_read
  by (simp add: relay_inputs_def trojan_relay_udp_def stream_relay_udp_def stream_downstream_def stream_upstream_def open_relay_def extend_source_def
    starved_def trojan_write_datagram_def udp_packet_def relay_udp_response_def)

text \<open>
  C14. While the relay of a Trojan association runs and no reading has been interrupted, the client has received exactly the datagrams at the head of what
  arrived on the stream, in order and each in a packet of its own, and a server that reads what was written finds exactly the payloads of
  the client, whatever the interleaving of the two directions.
\<close>

theorem trojan_udp_relay_delivers:
  assumes "uninterrupted inputs" "\<forall>payload\<in>set (payloads inputs). length payload < 65536"
    and l: "l = fold (trojan_relay_udp downstream association upstream) inputs (open_relay sent st)" and running: "rl_end l = None"
  shows "\<exists>ps packets. rl_responses l = map (send_to_peer downstream) ps \<and>
    taken read_udp_packet ps \<lparr>so_bytes = arrived inputs, so_failure = None\<rparr> = Some (rl_reader l) \<and>
    rl_sink l = open_sink (sent @ packets) \<and>
    (\<forall>rest k. read_datagrams (length (payloads inputs)) \<lparr>so_bytes = packets @ rest, so_failure = k\<rparr> =
      (Ok (payloads inputs), \<lparr>so_bytes = rest, so_failure = k\<rparr>))"
proof -
  let ?r0 = "\<lparr>so_bytes = [], so_failure = None\<rparr>" and ?t = "ua_target association"
  have l': "l = fold (stream_relay_udp read_udp_packet extend_source (trojan_write_datagram ?t) ''trojan'' downstream association upstream)
      inputs (open_relay sent st)"
    using l by (simp add: trojan_relay_udp_def)
  have "\<exists>ps r. taken read_udp_packet ps (extend_source ([] @ arrived inputs) ?r0) = Some r \<and> (rl_end l = None \<longrightarrow> rl_reader l = r) \<and>
      rl_responses l = map (send_to_peer downstream) ps"
    by (rule trojan.relay_run [OF _ _ assms(1) _ l', of "[]" "[]"]) (simp_all add: open_relay_def extend_source_laws)
  then obtain ps where ps: "taken read_udp_packet ps (extend_source (arrived inputs) ?r0) = Some (rl_reader l)"
      "rl_responses l = map (send_to_peer downstream) ps"
    using running by auto
  have "written (trojan_write_datagram ?t) (payloads inputs) (open_sink sent) = Some (rl_sink l)"
    using relay_writes [of read_udp_packet extend_source "trojan_write_datagram ?t" "''trojan''" downstream association upstream inputs
      "open_relay sent st"] running l' by (simp add: open_relay_def)
  then have sink: "write_datagrams (map (Pair ?t) (payloads inputs)) (open_sink sent) = (Ok (), rl_sink l)" by (simp add: written_datagrams)
  have "\<forall>(target, payload)\<in>set (map (Pair ?t) (payloads inputs)). length payload < 65536" using assms(2) by auto
  from trojan_datagrams_arrive [OF this, of sent] sink ps show ?thesis
    by (auto simp: comp_def extend_source_def)
qed

theorem trojan_udp_relay_delivers_witness:
  "\<forall>downstream association st. \<exists>ps packets.
    rl_responses (fold (trojan_relay_udp downstream association \<lparr>sa_ip = V4 1, sa_port = 443\<rparr>) relay_inputs (open_relay [7] st)) =
      map (send_to_peer downstream) ps \<and>
    taken read_udp_packet ps \<lparr>so_bytes = [1, 8, 8, 8, 8, 0, 53, 0, 2, 13, 10, 5, 6], so_failure = None\<rparr> =
      Some (rl_reader (fold (trojan_relay_udp downstream association \<lparr>sa_ip = V4 1, sa_port = 443\<rparr>) relay_inputs (open_relay [7] st))) \<and>
    (\<forall>rest k. read_datagrams 1 \<lparr>so_bytes = packets @ rest, so_failure = k\<rparr> = (Ok [[3, 4]], \<lparr>so_bytes = rest, so_failure = k\<rparr>))"
proof (intro allI)
  fix downstream association st
  let ?l = "fold (trojan_relay_udp downstream association \<lparr>sa_ip = V4 1, sa_port = 443\<rparr>) relay_inputs (open_relay [7] st)"
  have inputs: "uninterrupted relay_inputs" "payloads relay_inputs = [[3, 4]]"
      "arrived relay_inputs = [1, 8, 8, 8, 8, 0, 53, 0, 2, 13, 10, 5, 6]"
    by (simp_all add: relay_inputs_def uninterrupted_def payloads_def arrived_def)
  from trojan_udp_relay_delivers [OF inputs(1) _ refl relay_inputs_run, of downstream association _ "[7]" st]
  show "\<exists>ps packets. rl_responses ?l = map (send_to_peer downstream) ps \<and>
      taken read_udp_packet ps \<lparr>so_bytes = [1, 8, 8, 8, 8, 0, 53, 0, 2, 13, 10, 5, 6], so_failure = None\<rparr> = Some (rl_reader ?l) \<and>
      (\<forall>rest k. read_datagrams 1 \<lparr>so_bytes = packets @ rest, so_failure = k\<rparr> = (Ok [[3, 4]], \<lparr>so_bytes = rest, so_failure = k\<rparr>))"
    by (simp add: inputs) blast
qed

text \<open>A reading that was dropped in the middle of a datagram has used up what it took.\<close>

lemma dropped_reading:
  assumes "udp_packet source payload = Ok (pre @ b # post)"
  shows "read_udp_packet \<lparr>so_bytes = pre, so_failure = None\<rparr> = (Err trojan_read_error, \<lparr>so_bytes = [], so_failure = None\<rparr>)"
proof -
  let ?src = "\<lparr>so_bytes = pre, so_failure = None\<rparr>"
  have whole: "read_udp_packet (extend_source (b # post) ?src) = (Ok payload, \<lparr>so_bytes = [], so_failure = None\<rparr>)"
    using read_udp_packet_written [OF assms, of "[]" None] by (simp add: extend_source_def)
  show ?thesis
  proof (cases "read_udp_packet ?src")
    case (Pair result s)
    show ?thesis
    proof (cases result)
      case (Inl e)
      with Pair steady_Err [OF steady_read_udp_packet, of ?src e s "b # post"] whole show ?thesis by simp
    next
      case (Inr x)
      with Pair steady_Ok [OF steady_read_udp_packet, of ?src x s "b # post"] whole show ?thesis
        by (cases s) (simp add: extend_source_def)
    qed
  qed
qed

text \<open>
  C33. The relay can lose a datagram of the server and itself with it: when a payload of the client comes after the relay has begun to read a datagram, what was read is
  dropped, and the next byte of that datagram is taken for the type of an address. Unless it happens to be one, the
  association ends with a protocol error, although both sides kept to the protocol.
\<close>

theorem interrupted_reading_ends_relay:
  assumes "udp_packet source payload = Ok (pre @ b # post)" "b \<notin> {1, 3, 4}" "length query < 65536"
  shows "\<exists>l. fold (trojan_relay_udp downstream association upstream)
      [StreamArrives pre, StreamDownstream query True, StreamArrives (b # post), StreamUpstream sendable now] (open_relay sent st) = l \<and>
    rl_responses l = [] \<and>
    rl_end l = Some (Err (EgressError_new ''outbound-protocol'' (Some upstream) ''unsupported Trojan UDP address type''))"
proof -
  obtain packet where packet: "udp_packet (ua_target association) query = Ok packet" using assms(3) by (simp add: udp_packet_def)
  have "read_udp_packet \<lparr>so_bytes = b # post, so_failure = None\<rparr> =
      (Err (ClientError ''outbound-protocol'' ''unsupported Trojan UDP address type''), \<lparr>so_bytes = post, so_failure = None\<rparr>)"
    using assms(2) by (simp add: read_udp_packet_def read_address_def reading_def read_exact_def)
  then show ?thesis
    using dropped_reading [OF assms(1)] packet
    by (simp add: trojan_relay_udp_def stream_relay_udp_def stream_downstream_def stream_upstream_def open_relay_def extend_source_def
      starved_def trojan_read_error_def trojan_write_datagram_def client_error_def)
qed

theorem interrupted_reading_ends_relay_witness:
  "\<forall>downstream association st. \<exists>l. fold (trojan_relay_udp downstream association \<lparr>sa_ip = V4 1, sa_port = 443\<rparr>)
      [StreamArrives [1], StreamDownstream [3, 4] True, StreamArrives [8, 8, 8, 8, 0, 53, 0, 2, 13, 10, 5, 6], StreamUpstream True 9] (open_relay [7] st) = l \<and>
    rl_responses l = [] \<and>
    rl_end l = Some (Err (EgressError_new ''outbound-protocol'' (Some \<lparr>sa_ip = V4 1, sa_port = 443\<rparr>) ''unsupported Trojan UDP address type''))"
proof -
  have "udp_packet \<lparr>sa_ip = V4 134744072, sa_port = 53\<rparr> [5, 6] = Ok ([1] @ 8 # [8, 8, 8, 0, 53, 0, 2, 13, 10, 5, 6])" by code_simp
  from interrupted_reading_ends_relay [OF this, of "[3, 4]" _ _ "\<lparr>sa_ip = V4 1, sa_port = 443\<rparr>" True 9 "[7]"] show ?thesis by simp
qed

end
