(* ===== verification/Spec2Isabelle.thy ===== *)
theory Spec2Isabelle
  imports Forward_Stores Seed_Validation Traffic_Sessions Session_Rows Matrix_Stats Matrix_Scores
    Runtime_State Config_Audit Dns_Wire Dns_Https
    Tls_Records Tls_Search Vision_Padding Tls_Hello Slide_Buffer
    Reality_Records Reality_Messages Reality_Keys Reality_Client Reality_Handshake
    Async_Io Vision_Stream Vision_Read Vision_Frame Vision_Delivery Vision_Runs
    Ss_Aead2017 Ss_Replay Ss_Aead2022 Ss_Sessions Vmess_Client Vmess_Streams Trojan_Client
    Reality_Stream Reality_Driver Vless_Protocol
    Socks_Protocol Egress_Graph Config_Reload Reload_Coordinator Ingress_Events Captured_Flows
    Relay_Sessions Socks_Ingress Capture_Packets Dns_Ingress Egress_Relays
begin

text \<open>
  A verification development of dynet, a traffic forwarder: local traffic is captured, accepted by SOCKS or by
  fixed relays, each flow is given a forwarding node by rules, groups and statistics, and the flow is
  carried to that node. The crates are modelled from the inbounds to the clients of the nodes: the
  inbounds and the egress graph (\<open>dynet-ingress\<close>, with the packets of \<open>dynet-capture\<close>), the runtime that takes the
  decisions (\<open>dynet-runtime\<close>), the configuration and its reload (\<open>dynet-state\<close>, \<open>dynet-cli/src/runtime_reload.rs\<close>), and
  the clients that carry a flow to a node (\<open>prototype/shadowsocks\<close>, \<open>vmess\<close>, \<open>trojan\<close>, \<open>vless\<close>).

  \<^bold>\<open>How the parts interact.\<close> A seed (\<open>RuntimeSeed\<close>) is validated and becomes the routing table of a
  generation. An inbound restores the destination of a flow from the observed DNS answers and asks
  \<open>RuntimeState::select\<close>: the rule store finds the best matching rule, the
  IPv6 policy is applied, the group graph is walked from the rule's group, and in the rollout groups
  the matrix scores choose among the eligible members. Decisions and events are recorded: events go to a
  bounded log and are folded into traffic sessions, from which the statistics are computed again;
  observations are also queued for the durable store. The decision names its generation and a path of nodes;
  the egress keeps the graphs of the last eight generations and carries the flow through the medium of
  the last node, dialled through that of the first. A reload builds the clients of the new configuration, stores its
  seed, commits the new table if the generation has not moved, and leaves an entry in the audit trail. DNS
  queries race the enabled upstreams; answers fill the map of observed names that later flows use.

  A flow to a VLESS node runs over a REALITY connection: the client hides its identity in the session id
  of a ClientHello, accepts only a server that knows the authentication key, and then exchanges
  encrypted records through slide buffers. Over it the Vision stream pads the first blocks, deframes the
  inner TLS records and decides from the inner ServerHello whether the flow may be copied directly. The
  Shadowsocks, VMess and Trojan clients frame and encrypt a flow, or its datagrams, for their servers.

  \<^bold>\<open>Theories: foundations.\<close>
  \<^item> \<open>Rust_Prelude\<close>, \<open>Rust_Strings\<close>, \<open>Btree_Map\<close>: the Rust primitives the code uses (words, saturating
    and checked arithmetic, \<open>Result\<close>, slices, stable sorting, UTF-8 strings, \<open>BTreeMap\<close>), with the
    interfaces \<open>total_ranking\<close>, \<open>bounded_log\<close>, \<open>id_source\<close> and the map laws as locales that the components
    interpret.
  \<^item> \<open>Net_Addr\<close>: textual IP addresses and prefix matching, \<open>model/ip_family.rs\<close>, \<open>model/cidr.rs\<close>.
  \<^item> \<open>Byte_Io\<close>, \<open>Client_Crypto\<close>, \<open>Async_Io\<close>: byte streams with failures, the primitives of the clients, and a transport
    whose answers to polls are part of the state (\<open>sync_adapter.rs\<close>).

  \<^bold>\<open>Theories: the runtime.\<close>
  \<^item> \<open>Forward_Model\<close>: the data of \<open>model.rs\<close> and its small modules.
  \<^item> \<open>Forward_Stores\<close>: \<open>stores.rs\<close>; the graph walk answers exactly the paths of an inductive
    specification, traces are sound and acyclic, the best rule is matched.
  \<^item> \<open>Seed_Validation\<close>: \<open>persistence/validation.rs\<close>; it accepts exactly the seeds of a declarative
    specification, and over an accepted seed the graph walk cannot meet a missing group or a cycle.
  \<^item> \<open>Traffic_Sessions\<close>: \<open>traffic_session.rs\<close> and the events of \<open>event.rs\<close>; the effect of an event on the
    session store, and the injectivity of session keys.
  \<^item> \<open>Session_Rows\<close>: the upsert of \<open>persistence.rs\<close> and the reading back of \<open>persistence/recovery.rs\<close>; the
    durable rows refine the sessions in memory, except for two columns that are always zero, as long as updates keep one target port and do not mix
    totals with datagrams.
  \<^item> \<open>Matrix_Stats\<close> and \<open>Matrix_Scores\<close>: \<open>model/matrix_stats.rs\<close>, \<open>matrix_active.rs\<close>, \<open>matrix_shadow.rs\<close>; what the
    counters count, bounds of rates, that no operation of a score overflows for plausible counters, optimality of the choice and order of the shadow list.
  \<^item> \<open>Runtime_State\<close>: \<open>lib.rs\<close>, \<open>event.rs\<close>, \<open>model/matrix_service.rs\<close> and the queue of \<open>persistence/sink.rs\<close>; an
    invariant over all reachable states, soundness of selection, IPv6 policy, optimistic commit.
  \<^item> \<open>Config_Audit\<close>: \<open>model/runtime_config.rs\<close>; the audit trail is a chain of generations.
  \<^item> \<open>Dns_Wire\<close> and \<open>Dns_Https\<close>: \<open>dns.rs\<close> and \<open>dns/https.rs\<close>; round trips of queries and chunked bodies, what
    the race returns, what the IPv6 filter leaves, and where it indexes out of range.

  \<^bold>\<open>Theories: inbounds, egress and configuration.\<close>
  \<^item> \<open>Config_Reload\<close>: the configuration of \<open>dynet-state\<close> with its defaults, and \<open>reload.rs\<close>; the plan of a reload
    misses no field and asks for a restart exactly when one is needed.
  \<^item> \<open>Egress_Graph\<close>: the node configurations of \<open>dynet-ingress/src/lib.rs\<close>, the construction of the clients, \<open>egress.rs\<close>,
    \<open>egress/graph.rs\<close>, \<open>egress/reloadable.rs\<close> and the classification of errors in \<open>egress/observation.rs\<close>.
  \<^item> \<open>Egress_Relays\<close>: the relay loops of \<open>egress.rs\<close>, \<open>egress/direct.rs\<close>, \<open>trojan.rs\<close>, \<open>vless.rs\<close> and \<open>shadowsocks.rs\<close>, with
    the locale \<open>datagram_reader\<close> that the readers of Trojan and VLESS interpret; the outcome of a direct flow counts what was written, datagrams
    over a stream keep their order and boundaries, and a reading that is interrupted ends the association.
  \<^item> \<open>Reload_Coordinator\<close>: \<open>runtime_reload.rs\<close>; under any sequence of attempts all parts of the process keep one
    configuration, and a decision, for TCP or UDP, finds the media of the configuration it was taken under.
  \<^item> \<open>Ingress_Events\<close>: the fields of events, the restoring of destinations and the interface to the egress.
  \<^item> \<open>Captured_Flows\<close> and \<open>Capture_Packets\<close>: \<open>captured.rs\<close>, \<open>packet.rs\<close>, \<open>flow.rs\<close>; flows are accounted for, packets are read
    exactly as their layout says, and a flow to an observed IPv6 address is decided as an IPv4 flow.
  \<^item> \<open>Relay_Sessions\<close>: \<open>inbound.rs\<close>, and the locale \<open>session_table\<close> that states what the UDP loops have in common: a task
    receives in order only what its peer sent. The loops here and in \<open>Socks_Ingress\<close> interpret it.
  \<^item> \<open>Socks_Protocol\<close> and \<open>Socks_Ingress\<close>: \<open>socks.rs\<close> and \<open>socks/\<close>; the readers accept exactly the words of the grammar of
    RFC 1928, a CONNECT is served from its greeting to its end, and the loop of an association delivers.
  \<^item> \<open>Dns_Ingress\<close>: \<open>dynet-ingress/src/dns.rs\<close>; sessions over TCP answer in order, and a short response stops the loop
    for queries over UDP.

  \<^bold>\<open>Theories: the clients.\<close>
  \<^item> \<open>Tls_Records\<close> and \<open>Tls_Search\<close>: \<open>tls_deframer.rs\<close>, \<open>tls_handshake_util.rs\<close>, \<open>tls_fuzzy_deframer.rs\<close>; the result
    of deframing depends on the stream and not on its pieces, and the first handshake is found.
  \<^item> \<open>Vision_Padding\<close>: \<open>vision_pad.rs\<close>, \<open>vision_unpad.rs\<close>; unpadding inverts padding for every cutting of the stream
    whose first piece holds the UUID, with lemmas for the two cases where bytes are lost.
  \<^item> \<open>Tls_Hello\<close>: \<open>buf_reader.rs\<close>, \<open>tls_parse.rs\<close>, \<open>vision_filter.rs\<close>; encoded ServerHello records are parsed, the verdict
    of the filter is characterised, and it stops after eight records.
  \<^item> \<open>Slide_Buffer\<close>: \<open>slide_buffer.rs\<close>; it refines a queue of bytes (the locale \<open>byte_queue\<close>).
  \<^item> \<open>Reality_Records\<close>, \<open>Reality_Messages\<close>, \<open>Reality_Keys\<close>: \<open>reality/\<close> without the connection; nonces are unique, the
    record layer and the hello messages round-trip, the key schedule never fails.
  \<^item> \<open>Reality_Client\<close> and \<open>Reality_Handshake\<close>: \<open>reality_client_connection.rs\<close>, \<open>reality_reader_writer.rs\<close>; in every
    reachable state of a connection a finished handshake has authenticated the server and bound the keys
    to the transcript, and the records of an honest server do finish it.
  \<^item> \<open>Reality_Stream\<close> and \<open>Reality_Driver\<close>: \<open>reality_stream.rs\<close>; the driver of the handshake returns after at most a
    hundred rounds, and what a flushed stream has sent are records of exactly the accepted bytes.
  \<^item> \<open>Vision_Stream\<close>, \<open>Vision_Read\<close>: \<open>vision_stream.rs\<close>; \<open>Vision_Frame\<close>, \<open>Vision_Delivery\<close> and \<open>Vision_Runs\<close> prove that
    whatever the transport does, a receiver obtains the accepted bytes in order and exactly once, as long as no write reports
    more than it was given; the code can do that, and a lemma shows it.
  \<^item> \<open>Vless_Protocol\<close>: \<open>vless_protocol.rs\<close> and the client of \<open>lib.rs\<close>; requests and datagrams.
  \<^item> \<open>Ss_Aead2017\<close>, \<open>Ss_Replay\<close>, \<open>Ss_Aead2022\<close>, \<open>Ss_Sessions\<close>: both generations of Shadowsocks; relays deliver, the window
    refines the set of all accepted ids, a session accepts nothing twice, and a response belongs to its request.
  \<^item> \<open>Vmess_Client\<close>, \<open>Vmess_Streams\<close>, \<open>Trojan_Client\<close>: the VMess and Trojan clients; relays and datagrams are delivered.

  \<^bold>\<open>Conventions.\<close> Structs are records whose fields carry a short prefix, enums are datatypes, error returns
  are sums, \<open>Option\<close> is \<open>option\<close>. Machine integers are words and wrap as release builds do; \<open>i64\<close> scores are
  \<open>int\<close> with the wrap-around written out, and lemmas show when it does not happen. \<open>usize\<close> is \<open>nat\<close>, with
  checked additions against \<open>2 ^ 64\<close>. Locks are held for a whole operation in the code, so each operation
  is one atomic step. The clock is an argument. Loops are total functions where they end by themselves: the graph walk
  visits no group twice, reading a name follows at most eight pointers, chunk decoding moves
  forward, the loops of the connection consume a record in every round, and a DNS session consumes its stream. Loops
  whose end depends on what they are given (\<open>copy_in\<close>, \<open>evp_loop\<close>, \<open>handshake_writes\<close>) are \<open>partial_function (option)\<close>, with
  theorems that they return. Loops that wait for events for ever (\<open>run_udp\<close>, \<open>run_socks_udp_loop\<close>, \<open>dns_run_udp\<close>, the accept
  loops, the loops of \<open>Egress_Relays\<close>) are functions of one event, and the theorems are about any list of events. An operation that waits for an
  answer that does not come, or that panics, has the value \<open>None\<close> or a constructor of its own.

  \<^bold>\<open>Parameters.\<close> The cryptography of REALITY is a record of functions (\<open>Crypto\<close>: AEAD, hash, HMAC, X25519, X.509 parsing and
  Ed25519 verification), that of the other clients another (\<open>Primitives\<close>). What the theorems need of them is stated
  as hypotheses: \<open>aead_ok\<close> and \<open>gcm_ok\<close> (opening inverts sealing, which adds a tag of 16 bytes), \<open>block_ok\<close>, \<open>hmac_ok\<close> and
  \<open>digests_ok\<close> (the lengths). Nothing is assumed about unforgeability: \<open>handshake_authenticates_server\<close> says which checks have
  succeeded, not that they are hard to pass. \<open>marking_crypto\<close> and \<open>plain_primitives\<close> are concrete instances for the witnesses. Random
  bytes, base64, the substring search (\<open>finder_ok\<close>), what a transport answers and what other tasks do to the runtime
  meanwhile (\<open>FlowEnv\<close>, \<open>ReloadEnv\<close>, \<open>QueryEnv\<close>) are arguments too. For the egress graph the handlers of the single media are
  the parameter \<open>MediumOps\<close>: connecting sockets, and running over them the relays that \<open>Egress_Relays\<close> and the theories of the clients model.

  \<^bold>\<open>Not modelled.\<close> Sockets, TLS of the native library, timers and SQLite itself are parameters or left out. The control API
  serialises snapshots of the modelled stores; the capture devices and the takeover of routing drive iproute2 and
  nftables; the command line and the service supervisor wire processes; configuration files are decoded by
  serde; certificates are generated by a library. Of the durable store the tables of events, decisions and seeds and their
  maintenance are SQL statements. Of the egress
  resolving, binding and connecting are left out, and the dialers that wrap the stream of one client in another.
\<close>

end
